(* ===== verification/Exo_Prelude.thy ===== *)
theory Exo_Prelude
  imports Main "HOL-Library.Word"
begin

text \<open>
  Shared vocabulary of the development: the machine integers of the C sources, the
  result type of code that may panic or spin for ever, and byte buffers with the
  little- and big-endian accessors of \<^verbatim>\<open>exosphere/src/utils.h\<close>.

  The generic lemmas on buffers and words that the component theories use are collected
  here, as simplification rules where they are safe as such.
\<close>

unbundle bit_operations_syntax

section \<open>Machine integers\<close>

type_synonym u8 = "8 word"
type_synonym u32 = "32 word"
type_synonym u64 = "64 word"
type_synonym bytes = "u8 list"

named_theorems res_simps \<open>rewriting of results\<close>
named_theorems len_simps \<open>lengths of buffers\<close>

section \<open>Results of monitor code\<close>

text \<open>
  A function of the secure monitor returns (\<open>Ok\<close>), reboots the console through
  \<^verbatim>\<open>panic\<close> with a colour code (\<open>Panic\<close>), never leaves a busy-wait loop (\<open>Hang\<close>), or
  accesses memory outside the object it means to access (\<open>Undef\<close>).
\<close>

datatype 'a res = Ok 'a | Panic u32 | Hang | Undef

fun bindR :: "'a res \<Rightarrow> ('a \<Rightarrow> 'b res) \<Rightarrow> 'b res" where
  "bindR (Ok x) f = f x"
| "bindR (Panic c) f = Panic c"
| "bindR Hang f = Hang"
| "bindR Undef f = Undef"

fun is_Ok :: "'a res \<Rightarrow> bool" where
  "is_Ok (Ok x) = True"
| "is_Ok (Panic c) = False"
| "is_Ok Hang = False"
| "is_Ok Undef = False"

lemma bindR_Ok_iff [res_simps]: "bindR m f = Ok y \<longleftrightarrow> (\<exists>x. m = Ok x \<and> f x = Ok y)"
  by (cases m) auto

lemma bindR_assoc [res_simps]: "bindR (bindR m f) g = bindR m (\<lambda>x. bindR (f x) g)"
  by (cases m) auto

lemma bindR_Ok_right [simp]: "bindR m Ok = m"
  by (cases m) auto

lemma bindR_cong [fundef_cong]:
  "m = m' \<Longrightarrow> (\<And>x. m' = Ok x \<Longrightarrow> f x = g x) \<Longrightarrow> bindR m f = bindR m' g"
  by (cases m') auto

lemma bindR_OkE:
  assumes "bindR m f = Ok y"
  obtains x where "m = Ok x" and "f x = Ok y"
  using assms by (cases m) auto

lemma is_Ok_iff: "is_Ok m \<longleftrightarrow> (\<exists>x. m = Ok x)"
  by (cases m) auto

lemma bindR_if [res_simps]: "bindR (if b then m else n) f = (if b then bindR m f else bindR n f)"
  by simp

text \<open>\<^verbatim>\<open>generic_panic\<close> and the guard idiom \<^verbatim>\<open>if (bad) generic_panic();\<close>.\<close>

definition generic_panic :: "'a res" where
  "generic_panic = Panic 0xFF000006"

definition panic_if :: "bool \<Rightarrow> unit res" where
  "panic_if b = (if b then generic_panic else Ok ())"

lemma panic_if_True [simp]: "panic_if True = generic_panic"
  by (simp add: panic_if_def)

lemma panic_if_False [simp]: "panic_if False = Ok ()"
  by (simp add: panic_if_def)

lemma bindR_panic_if:
  "bindR (panic_if b) f = (if b then generic_panic else f ())"
  by (simp add: generic_panic_def)

lemma generic_panic_neq_Ok [simp]: "generic_panic \<noteq> Ok x" "Ok x \<noteq> generic_panic"
  by (simp_all add: generic_panic_def)

lemma bindR_generic_panic [simp]: "bindR generic_panic f = generic_panic"
  by (simp add: generic_panic_def)

lemma panic_if_Ok_iff [simp]: "panic_if b = Ok u \<longleftrightarrow> \<not> b"
  by (simp add: panic_if_def)

text \<open>A loop whose body may panic: the iterations in order, stopping at the first failure.\<close>

fun foldR :: "('i \<Rightarrow> 's \<Rightarrow> 's res) \<Rightarrow> 'i list \<Rightarrow> 's \<Rightarrow> 's res" where
  "foldR f [] s = Ok s"
| "foldR f (i # is) s = bindR (f i s) (foldR f is)"

lemma foldR_append: "foldR f (xs @ ys) s = bindR (foldR f xs s) (foldR f ys)"
  by (induction xs arbitrary: s) (auto simp: res_simps intro!: bindR_cong)

lemma foldR_pure: "(\<And>i s. i \<in> set is \<Longrightarrow> f i s = Ok (g i s)) \<Longrightarrow> foldR f is s = Ok (fold g is s)"
  by (induction "is" arbitrary: s) auto

lemma foldR_invariant:
  assumes "foldR f is s = Ok s'" and "P s"
    and "\<And>i t t'. i \<in> set is \<Longrightarrow> P t \<Longrightarrow> f i t = Ok t' \<Longrightarrow> P t'"
  shows "P s'"
  using assms by (induction "is" arbitrary: s) (auto simp: res_simps)

section \<open>Byte buffers\<close>

text \<open>
  A buffer is the list of its bytes. \<open>blit buf off bs\<close> is the buffer after
  \<^verbatim>\<open>memcpy(buf + off, bs, length bs)\<close>, for a copy inside the buffer.
\<close>

definition blit :: "'a list \<Rightarrow> nat \<Rightarrow> 'a list \<Rightarrow> 'a list" where
  "blit buf off bs = take off buf @ bs @ drop (off + length bs) buf"

definition bslice :: "'a list \<Rightarrow> nat \<Rightarrow> nat \<Rightarrow> 'a list" where
  "bslice buf off n = take n (drop off buf)"

definition xor_bytes :: "'a::len word list \<Rightarrow> 'a word list \<Rightarrow> 'a word list" where
  "xor_bytes xs ys = map2 (XOR) xs ys"

lemma length_blit [simp, len_simps]:
  "off + length bs \<le> length buf \<Longrightarrow> length (blit buf off bs) = length buf"
  by (simp add: blit_def)

lemma length_bslice [simp, len_simps]:
  "off + n \<le> length buf \<Longrightarrow> length (bslice buf off n) = n"
  by (simp add: bslice_def)

lemma bslice_full: "length buf = n \<Longrightarrow> bslice buf 0 n = buf"
  by (simp add: bslice_def)

lemma bslice_blit [simp]:
  "off + length bs \<le> length buf \<Longrightarrow> n = length bs \<Longrightarrow> bslice (blit buf off bs) off n = bs"
  by (simp add: bslice_def blit_def)

lemma blit_0_all: "length bs = length buf \<Longrightarrow> blit buf 0 bs = bs"
  by (simp add: blit_def)

lemma nth_blit:
  "off + length bs \<le> length buf \<Longrightarrow> i < length buf \<Longrightarrow>
   blit buf off bs ! i = (if off \<le> i \<and> i < off + length bs then bs ! (i - off) else buf ! i)"
  by (auto simp: blit_def nth_append min_def)

lemma nth_bslice: "off + n \<le> length buf \<Longrightarrow> i < n \<Longrightarrow> bslice buf off n ! i = buf ! (off + i)"
  by (simp add: bslice_def)

lemma length_xor_bytes [simp, len_simps]:
  "length (xor_bytes xs ys) = min (length xs) (length ys)"
  by (simp add: xor_bytes_def)

lemma nth_xor_bytes:
  "i < length xs \<Longrightarrow> i < length ys \<Longrightarrow> xor_bytes xs ys ! i = (xs ! i) XOR (ys ! i)"
  by (simp add: xor_bytes_def)

lemma xor_bytes_cancel: "length xs = length ys \<Longrightarrow> xor_bytes (xor_bytes xs ys) ys = xs"
  by (rule nth_equalityI) (simp_all add: nth_xor_bytes xor.assoc)

lemma xor_bytes_commute: "xor_bytes xs ys = xor_bytes ys xs"
  by (rule nth_equalityI) (simp_all add: nth_xor_bytes xor.commute)

lemma xor_bytes_zero: "length xs \<le> n \<Longrightarrow> xor_bytes xs (replicate n 0) = xs"
  by (rule nth_equalityI) (simp_all add: nth_xor_bytes)

lemma xor_bytes_Nil [simp]: "xor_bytes [] ys = []" "xor_bytes xs [] = []"
  by (simp_all add: xor_bytes_def)

lemma xor_bytes_Cons [simp]: "xor_bytes (x # xs) (y # ys) = (x XOR y) # xor_bytes xs ys"
  by (simp add: xor_bytes_def)

lemma xor_bytes_append:
  "length xs = length ys \<Longrightarrow> xor_bytes (xs @ xs') (ys @ ys') = xor_bytes xs ys @ xor_bytes xs' ys'"
  by (simp add: xor_bytes_def)

lemma concat_map_cong:
  "(\<And>i. i < n \<Longrightarrow> f i = g i) \<Longrightarrow> concat (map f [0..<n]) = concat (map g [0..<n])"
  by (rule arg_cong [where f = concat], rule map_cong) auto

section \<open>Words and their bytes\<close>

text \<open>
  \<open>le_word\<close> assembles a word from its bytes, least significant first, which is how the
  little-endian CPU loads it; \<open>le_bytes n w\<close> is the first \<open>n\<close> bytes of its storage.
\<close>

fun le_word :: "bytes \<Rightarrow> 'a::len word" where
  "le_word [] = 0"
| "le_word (b # bs) = ucast b OR push_bit 8 (le_word bs)"

definition le_bytes :: "nat \<Rightarrow> 'a::len word \<Rightarrow> bytes" where
  "le_bytes n w = map (\<lambda>i. ucast (drop_bit (8 * i) w)) [0..<n]"

lemma length_le_bytes [simp, len_simps]: "length (le_bytes n w) = n"
  by (simp add: le_bytes_def)

lemma bit_le_word:
  "bit (le_word bs :: 'a::len word) n \<longleftrightarrow>
     n < LENGTH('a) \<and> n < 8 * length bs \<and> bit (bs ! (n div 8)) (n mod 8)"
proof (induction bs arbitrary: n)
  case Nil
  then show ?case by simp
next
  case (Cons b bs)
  show ?case
  proof (cases "n < 8")
    case True
    then show ?thesis
      by (auto simp: bit_or_iff bit_push_bit_iff bit_ucast_iff)
  next
    case False
    then obtain m where n: "n = m + 8" by (metis add.commute le_Suc_ex not_less)
    have "n div 8 = Suc (m div 8)" "n mod 8 = m mod 8" by (simp_all add: n)
    moreover have "bit (ucast b :: 'a word) n = False"
      using False bit_imp_le_length [of b n] by (auto simp: bit_ucast_iff)
    ultimately show ?thesis
      using Cons.IH [of m] by (auto simp: bit_or_iff bit_push_bit_iff n)
  qed
qed

lemma nth_le_bytes: "i < n \<Longrightarrow> le_bytes n w ! i = ucast (drop_bit (8 * i) w)"
  by (simp add: le_bytes_def)

lemma le_word_le_bytes [simp]:
  fixes w :: "'a::len word"
  assumes "LENGTH('a) \<le> 8 * n"
  shows "(le_word (le_bytes n w) :: 'a word) = w"
proof (rule bit_word_eqI)
  fix k assume k: "k < LENGTH('a)"
  with assms have "k div 8 < n" by (simp add: less_mult_imp_div_less mult.commute)
  then show "bit (le_word (le_bytes n w) :: 'a word) k = bit w k"
    using k assms by (simp add: bit_le_word nth_le_bytes bit_ucast_iff bit_drop_bit_eq mult.commute)
qed

lemma le_bytes_le_word [simp]:
  assumes "8 * length bs \<le> LENGTH('a::len)" "n = length bs"
  shows "le_bytes n (le_word bs :: 'a word) = bs"
proof (rule nth_equalityI)
  show "length (le_bytes n (le_word bs :: 'a word)) = length bs" by (simp add: assms)
next
  fix i assume "i < length (le_bytes n (le_word bs :: 'a word))"
  then have i: "i < length bs" using assms by simp
  show "le_bytes n (le_word bs :: 'a word) ! i = bs ! i"
  proof (rule bit_word_eqI)
    fix k assume k: "k < LENGTH(8)"
    then have "(8 * i + k) div 8 = i" "(8 * i + k) mod 8 = k" "8 * i + k < 8 * length bs"
      using i by auto
    then show "bit (le_bytes n (le_word bs :: 'a word) ! i) k = bit (bs ! i) k"
      using k i assms by (simp add: nth_le_bytes bit_ucast_iff bit_drop_bit_eq bit_le_word)
  qed
qed

lemma le_word_inj:
  "length xs = length ys \<Longrightarrow> 8 * length xs \<le> LENGTH('a::len) \<Longrightarrow>
   (le_word xs :: 'a word) = le_word ys \<Longrightarrow> xs = ys"
  by (metis le_bytes_le_word)

lemma take_bit_less_exp: "(w::'a::len word) < 2 ^ n \<Longrightarrow> n < LENGTH('a) \<Longrightarrow> take_bit n w = w"
  by (simp add: take_bit_eq_mask less_mask_eq)

lemma bit_less_exp: "(w::'a::len word) < 2 ^ n \<Longrightarrow> n < LENGTH('a) \<Longrightarrow> bit w k \<Longrightarrow> k < n"
  by (metis bit_take_bit_iff take_bit_less_exp)

lemma unat_of_nat_small: "n < 2 ^ LENGTH('a) \<Longrightarrow> unat (of_nat n :: 'a::len word) = n"
  by (simp add: unat_of_nat)

text \<open>\<^verbatim>\<open>__builtin_bswap32\<close> and \<^verbatim>\<open>__builtin_bswap64\<close>.\<close>

definition bswap32 :: "u32 \<Rightarrow> u32" where
  "bswap32 w = le_word (rev (le_bytes 4 w))"

definition bswap64 :: "u64 \<Rightarrow> u64" where
  "bswap64 w = le_word (rev (le_bytes 8 w))"

lemma le_bytes_bswap32 [simp]: "le_bytes 4 (bswap32 w) = rev (le_bytes 4 w)"
  by (simp add: bswap32_def)

lemma le_bytes_bswap64 [simp]: "le_bytes 8 (bswap64 w) = rev (le_bytes 8 w)"
  by (simp add: bswap64_def)

lemma bswap32_invol [simp]: "bswap32 (bswap32 w) = w"
  by (simp add: bswap32_def)

lemma bswap64_invol [simp]: "bswap64 (bswap64 w) = w"
  by (simp add: bswap64_def)

text \<open>The accessors of \<^verbatim>\<open>utils.h\<close>; the C callers read and write inside the buffer.\<close>

definition read32le :: "bytes \<Rightarrow> nat \<Rightarrow> u32" where
  "read32le buf off = le_word (bslice buf off 4)"

definition read32be :: "bytes \<Rightarrow> nat \<Rightarrow> u32" where
  "read32be buf off = bswap32 (read32le buf off)"

definition read64le :: "bytes \<Rightarrow> nat \<Rightarrow> u64" where
  "read64le buf off = le_word (bslice buf off 8)"

definition read64be :: "bytes \<Rightarrow> nat \<Rightarrow> u64" where
  "read64be buf off = bswap64 (read64le buf off)"

definition write32le :: "bytes \<Rightarrow> nat \<Rightarrow> u32 \<Rightarrow> bytes" where
  "write32le buf off v = blit buf off (le_bytes 4 v)"

definition write32be :: "bytes \<Rightarrow> nat \<Rightarrow> u32 \<Rightarrow> bytes" where
  "write32be buf off v = write32le buf off (bswap32 v)"

definition write64le :: "bytes \<Rightarrow> nat \<Rightarrow> u64 \<Rightarrow> bytes" where
  "write64le buf off v = blit buf off (le_bytes 8 v)"

definition write64be :: "bytes \<Rightarrow> nat \<Rightarrow> u64 \<Rightarrow> bytes" where
  "write64be buf off v = write64le buf off (bswap64 v)"

lemma read32le_write32le: "off + 4 \<le> length buf \<Longrightarrow> read32le (write32le buf off v) off = v"
  by (simp add: read32le_def write32le_def)

lemma read32be_write32be: "off + 4 \<le> length buf \<Longrightarrow> read32be (write32be buf off v) off = v"
  by (simp add: read32be_def write32be_def read32le_write32le)

lemma read64le_write64le: "off + 8 \<le> length buf \<Longrightarrow> read64le (write64le buf off v) off = v"
  by (simp add: read64le_def write64le_def)

lemma read64be_write64be: "off + 8 \<le> length buf \<Longrightarrow> read64be (write64be buf off v) off = v"
  by (simp add: read64be_def write64be_def read64le_write64le)

lemma le_bytes_read32le: "off + 4 \<le> length buf \<Longrightarrow> le_bytes 4 (read32le buf off) = bslice buf off 4"
  by (simp add: read32le_def)

end
