(* ===== verification/Exo_Config.thy ===== *)
theory Exo_Config
  imports Exo_Prelude
begin

text \<open>
  The configuration of the monitor itself: panic codes (\<^verbatim>\<open>utils.c\<close>), target firmware
  numbers (\<^verbatim>\<open>common/include/atmosphere\<close>) and the configuration block that the boot
  loader leaves in DRAM (\<^verbatim>\<open>exocfg.c\<close>, \<^verbatim>\<open>exocfg.h\<close>, \<^verbatim>\<open>emummc_cfg.h\<close>).
\<close>

section \<open>Target firmware numbers\<close>

abbreviation (input) FW_100 :: u32 where "FW_100 \<equiv> 1"
abbreviation (input) FW_200 :: u32 where "FW_200 \<equiv> 2"
abbreviation (input) FW_300 :: u32 where "FW_300 \<equiv> 3"
abbreviation (input) FW_400 :: u32 where "FW_400 \<equiv> 4"
abbreviation (input) FW_500 :: u32 where "FW_500 \<equiv> 5"
abbreviation (input) FW_600 :: u32 where "FW_600 \<equiv> 6"
abbreviation (input) FW_620 :: u32 where "FW_620 \<equiv> 7"
abbreviation (input) FW_700 :: u32 where "FW_700 \<equiv> 8"
abbreviation (input) FW_800 :: u32 where "FW_800 \<equiv> 9"
abbreviation (input) FW_810 :: u32 where "FW_810 \<equiv> 10"
abbreviation (input) FW_900 :: u32 where "FW_900 \<equiv> 11"

section \<open>Panics with a predefined colour\<close>

definition panic_codes :: "u32 list" where
  "panic_codes =
    [0x00F00003, 0x0F000003, 0xF0000003, 0x0FF00003, 0xF0F00003, 0xFF000003, 0xFFF00003, 0xAAF00003,
     0xAFA00003, 0xFAA00003, 0x33300003, 0x06F00003, 0x14800003, 0x00300003, 0x03000003, 0xB6000003]"

definition panic_predefined :: "u32 \<Rightarrow> 'a res" where
  "panic_predefined which = Panic (panic_codes ! unat (which AND 0xF))"

lemma panic_predefined_neq_Ok [simp]: "panic_predefined w \<noteq> Ok x"
  by (simp add: panic_predefined_def)

definition overlaps :: "u64 \<Rightarrow> u64 \<Rightarrow> u64 \<Rightarrow> u64 \<Rightarrow> bool" where
  "overlaps as ae bs be =
     (if as \<le> bs \<and> bs < ae then True
      else if bs \<le> as \<and> as < be then True
      else False)"

definition check_32bit_additive_overflow :: "u32 \<Rightarrow> u32 \<Rightarrow> bool" where
  "check_32bit_additive_overflow a b \<longleftrightarrow> unat a + unat b \<ge> 2 ^ 32"

lemma check_32bit_additive_overflow_iff:
  "check_32bit_additive_overflow a b \<longleftrightarrow> a + b < a"
proof -
  have b: "unat b < 2 ^ 32" using unsigned_less [of b] by simp
  have "unat (a + b) = (unat a + unat b) mod 2 ^ 32" by (simp add: unat_word_ariths)
  moreover have "unat a < 2 ^ 32" using unsigned_less [of a] by simp
  ultimately have "unat (a + b) = (if unat a + unat b < 2 ^ 32 then unat a + unat b
                                    else unat a + unat b - 2 ^ 32)"
    using b by (auto simp: mod_if)
  then show ?thesis
    using b by (auto simp: check_32bit_additive_overflow_def word_less_nat_alt)
qed

section \<open>The configuration block\<close>

record emummc_config =
  emummc_magic :: u32
  emummc_type :: u32
  emummc_id :: u32
  emummc_fs_version :: u32
  emummc_storage :: bytes    \<comment> \<open>the union of partition and file configuration, 0x80 bytes\<close>
  emu_dir_path :: bytes      \<comment> \<open>0x80 bytes\<close>

record exosphere_config =
  cfg_magic :: u32
  cfg_target_firmware :: u32
  cfg_flags :: u32
  cfg_emummc :: emummc_config

text \<open>The globals of \<^verbatim>\<open>exocfg.c\<close>.\<close>

record exocfg =
  g_exosphere_cfg :: exosphere_config
  g_has_loaded_config :: bool

abbreviation (input) MAGIC_EXOSPHERE_CONFIG :: u32 where "MAGIC_EXOSPHERE_CONFIG \<equiv> 0x304F5845"

definition exocfg_init :: "emummc_config \<Rightarrow> exocfg" where
  "exocfg_init zero_emummc =
     \<lparr>g_exosphere_cfg = \<lparr>cfg_magic = MAGIC_EXOSPHERE_CONFIG, cfg_target_firmware = FW_900,
                          cfg_flags = push_bit 1 1, cfg_emummc = zero_emummc\<rparr>,
      g_has_loaded_config = False\<rparr>"

definition exosphere_load_config :: "exosphere_config \<Rightarrow> exocfg \<Rightarrow> (u32 \<times> exocfg) res" where
  "exosphere_load_config mailbox c =
     bindR (panic_if (g_has_loaded_config c)) (\<lambda>_.
     let c = c\<lparr>g_has_loaded_config := True\<rparr>;
         magic = cfg_magic mailbox;
         c = (if magic = MAGIC_EXOSPHERE_CONFIG then c\<lparr>g_exosphere_cfg := mailbox\<rparr> else c)
     in Ok (cfg_target_firmware (g_exosphere_cfg c), c))"

definition exosphere_get_target_firmware :: "exocfg \<Rightarrow> u32 res" where
  "exosphere_get_target_firmware c =
     bindR (panic_if (\<not> g_has_loaded_config c)) (\<lambda>_. Ok (cfg_target_firmware (g_exosphere_cfg c)))"

definition exosphere_check_flag :: "exocfg \<Rightarrow> u32 \<Rightarrow> bool" where
  "exosphere_check_flag c flag = (cfg_flags (g_exosphere_cfg c) AND flag \<noteq> 0)"

definition exosphere_should_perform_620_keygen :: "exocfg \<Rightarrow> bool res" where
  "exosphere_should_perform_620_keygen c =
     bindR (panic_if (\<not> g_has_loaded_config c)) (\<lambda>_. Ok False)"

definition exosphere_should_override_debugmode_priv :: "exocfg \<Rightarrow> bool res" where
  "exosphere_should_override_debugmode_priv c =
     bindR (panic_if (\<not> g_has_loaded_config c)) (\<lambda>_. Ok (exosphere_check_flag c (push_bit 1 1)))"

definition exosphere_should_override_debugmode_user :: "exocfg \<Rightarrow> bool res" where
  "exosphere_should_override_debugmode_user c =
     bindR (panic_if (\<not> g_has_loaded_config c)) (\<lambda>_. Ok (exosphere_check_flag c (push_bit 2 1)))"

definition exosphere_should_disable_usermode_exception_handlers :: "exocfg \<Rightarrow> bool res" where
  "exosphere_should_disable_usermode_exception_handlers c =
     bindR (panic_if (\<not> g_has_loaded_config c)) (\<lambda>_. Ok (exosphere_check_flag c (push_bit 3 1)))"

definition exosphere_get_emummc_config :: "exocfg \<Rightarrow> emummc_config res" where
  "exosphere_get_emummc_config c =
     bindR (panic_if (\<not> g_has_loaded_config c)) (\<lambda>_. Ok (cfg_emummc (g_exosphere_cfg c)))"

text \<open>The firmware number as the running monitor sees it, once the configuration is loaded.\<close>

abbreviation fw_of :: "exocfg \<Rightarrow> u32" where
  "fw_of c \<equiv> cfg_target_firmware (g_exosphere_cfg c)"

lemma exosphere_get_target_firmware_loaded [simp]:
  "g_has_loaded_config c \<Longrightarrow> exosphere_get_target_firmware c = Ok (fw_of c)"
  by (simp add: exosphere_get_target_firmware_def)

lemma exosphere_get_target_firmware_Ok_iff:
  "exosphere_get_target_firmware c = Ok fw \<longleftrightarrow> g_has_loaded_config c \<and> fw = fw_of c"
  by (auto simp: exosphere_get_target_firmware_def bindR_panic_if)

lemma exosphere_load_config_once:
  assumes "exosphere_load_config mailbox c = Ok (fw, c')"
  shows "exosphere_load_config mailbox' c' = generic_panic"
  using assms by (auto simp: exosphere_load_config_def bindR_panic_if Let_def split: if_splits)

section \<open>Results that come back\<close>

text \<open>\<open>keeps Q r\<close>: if the code comes back, its result satisfies \<open>Q\<close>.\<close>

definition keeps :: "('a \<Rightarrow> bool) \<Rightarrow> 'a res \<Rightarrow> bool" where
  "keeps Q r \<longleftrightarrow> (\<forall>x. r = Ok x \<longrightarrow> Q x)"

lemma keeps_simps [simp]:
  "keeps Q (Ok x) = Q x" "keeps Q (Panic c)" "keeps Q Hang" "keeps Q Undef" "keeps Q generic_panic" "keeps Q (panic_predefined w)"
  by (simp_all add: keeps_def)

lemma keeps_bindI: "keeps R r \<Longrightarrow> (\<And>x. R x \<Longrightarrow> keeps Q (f x)) \<Longrightarrow> keeps Q (bindR r f)"
  by (cases r) (simp_all add: keeps_def)

lemma keeps_bind_any: "(\<And>x. r = Ok x \<Longrightarrow> keeps Q (f x)) \<Longrightarrow> keeps Q (bindR r f)"
  by (cases r) (simp_all add: keeps_def)

lemma keeps_if: "(b \<Longrightarrow> keeps Q x) \<Longrightarrow> (\<not> b \<Longrightarrow> keeps Q y) \<Longrightarrow> keeps Q (if b then x else y)"
  by simp

lemma keeps_mono: "keeps R r \<Longrightarrow> (\<And>x. R x \<Longrightarrow> Q x) \<Longrightarrow> keeps Q r"
  by (simp add: keeps_def)

lemma keepsD: "keeps Q r \<Longrightarrow> r = Ok x \<Longrightarrow> Q x"
  by (simp add: keeps_def)

end
