(* ===== verification/Fuse.thy ===== *)
theory Fuse
  imports Exo_Config
begin

text \<open>
  \<^verbatim>\<open>fuse.c\<close>: the fuse driver and the values the monitor derives from the shadow cache.

  The fuse block is hardware: its array and whether its controller becomes idle again
  after a command are a parameter (\<open>fuse_hw\<close>). A read command leaves the addressed word in
  \<^verbatim>\<open>FUSE_REG_READ\<close>; waiting for a controller that never becomes idle does not return.
  The walk over the bootrom patches follows lengths found in the fuses and so may not end:
  it is a partial function whose value is \<open>None\<close> in that case.
\<close>

section \<open>State\<close>

record fuse_hw =
  fuse_array :: "u32 \<Rightarrow> u32"
  fuse_goes_idle :: bool

record fuse_chip_regs =
  FUSE_SKU_INFO :: u32
  FUSE_SOC_SPEEDO_1 :: u32
  FUSE_FIRST_BOOTROM_PATCH_SIZE :: u32
  FUSE_RESERVED_SW :: u32
  FUSE_RESERVED_ODM :: "u32 list"    \<comment> \<open>8 registers\<close>
  FUSE_VENDOR_CODE :: u32
  FUSE_FAB_CODE :: u32
  FUSE_LOT_CODE_0 :: u32
  FUSE_LOT_CODE_1 :: u32
  FUSE_WAFER_ID :: u32
  FUSE_X_COORDINATE :: u32
  FUSE_Y_COORDINATE :: u32
  FUSE_0x120 :: u32
  FUSE_SPARE_BIT :: "u32 list"       \<comment> \<open>32 registers\<close>

record fuse_state =
  CLK_RST_CONTROLLER_MISC_CLK_ENB_0 :: u32
  FUSE_CTRL :: u32
  FUSE_REG_ADDR :: u32
  FUSE_REG_READ :: u32
  FUSE_REG_WRITE :: u32
  FUSE_PRIVATEKEYDISABLE :: u32
  FUSE_DIS_PGM :: u32
  FUSE_PWR_GOOD_SW :: u32
  FUSE_CHIP_REGS :: fuse_chip_regs
  g_has_checked_for_rcm_bug_patch :: bool
  g_has_rcm_bug_patch :: bool

section \<open>Fuse commands\<close>

definition fuse_make_regs_visible :: "fuse_state \<Rightarrow> fuse_state" where
  "fuse_make_regs_visible f =
     f\<lparr>CLK_RST_CONTROLLER_MISC_CLK_ENB_0 := CLK_RST_CONTROLLER_MISC_CLK_ENB_0 f OR push_bit 28 1\<rparr>"

definition fuse_enable_power :: "fuse_state \<Rightarrow> fuse_state" where
  "fuse_enable_power f = f\<lparr>FUSE_PWR_GOOD_SW := 1\<rparr>"

definition fuse_disable_power :: "fuse_state \<Rightarrow> fuse_state" where
  "fuse_disable_power f = f\<lparr>FUSE_PWR_GOOD_SW := 0\<rparr>"

definition fuse_wait_idle :: "fuse_hw \<Rightarrow> fuse_state \<Rightarrow> fuse_state res" where
  "fuse_wait_idle hw f =
     (if fuse_goes_idle hw
      then Ok (f\<lparr>FUSE_CTRL := (FUSE_CTRL f AND NOT 0xF0000) OR 0x40000\<rparr>)
      else Hang)"

definition fuse_hw_read :: "fuse_hw \<Rightarrow> u32 \<Rightarrow> fuse_state \<Rightarrow> (u32 \<times> fuse_state) res" where
  "fuse_hw_read hw addr f =
     bindR (fuse_wait_idle hw f) (\<lambda>f.
     let f = f\<lparr>FUSE_REG_ADDR := addr\<rparr>;
         ctrl_val = FUSE_CTRL f;
         ctrl_val = ctrl_val AND NOT 3;
         ctrl_val = ctrl_val OR 1;
         f = f\<lparr>FUSE_CTRL := ctrl_val\<rparr>;
         f = f\<lparr>FUSE_REG_READ := fuse_array hw (FUSE_REG_ADDR f)\<rparr>
     in bindR (fuse_wait_idle hw f) (\<lambda>f. Ok (FUSE_REG_READ f, f)))"

definition fuse_hw_write :: "fuse_hw \<Rightarrow> u32 \<Rightarrow> u32 \<Rightarrow> fuse_state \<Rightarrow> fuse_state res" where
  "fuse_hw_write hw value addr f =
     bindR (fuse_wait_idle hw f) (\<lambda>f.
     let f = f\<lparr>FUSE_REG_ADDR := addr, FUSE_REG_WRITE := value\<rparr>;
         ctrl_val = FUSE_CTRL f;
         ctrl_val = ctrl_val AND NOT 3;
         ctrl_val = ctrl_val OR 2;
         f = f\<lparr>FUSE_CTRL := ctrl_val\<rparr>
     in fuse_wait_idle hw f)"

definition fuse_hw_sense :: "fuse_hw \<Rightarrow> fuse_state \<Rightarrow> fuse_state res" where
  "fuse_hw_sense hw f =
     bindR (fuse_wait_idle hw f) (\<lambda>f.
     let ctrl_val = FUSE_CTRL f;
         ctrl_val = ctrl_val AND NOT 3;
         ctrl_val = ctrl_val OR 3;
         f = f\<lparr>FUSE_CTRL := ctrl_val\<rparr>
     in fuse_wait_idle hw f)"

definition fuse_disable_programming :: "fuse_state \<Rightarrow> fuse_state" where
  "fuse_disable_programming f = f\<lparr>FUSE_DIS_PGM := 1\<rparr>"

definition fuse_secondary_private_key_disable :: "fuse_state \<Rightarrow> fuse_state" where
  "fuse_secondary_private_key_disable f = f\<lparr>FUSE_PRIVATEKEYDISABLE := 0x10\<rparr>"

section \<open>Values derived from the shadow cache\<close>

definition fuse_get_sku_info :: "fuse_state \<Rightarrow> u32" where
  "fuse_get_sku_info f = FUSE_SKU_INFO (FUSE_CHIP_REGS f)"

definition fuse_get_bootrom_patch_version :: "fuse_state \<Rightarrow> u32" where
  "fuse_get_bootrom_patch_version f = FUSE_SOC_SPEEDO_1 (FUSE_CHIP_REGS f)"

definition fuse_get_spare_bit :: "u32 \<Rightarrow> fuse_state \<Rightarrow> u32" where
  "fuse_get_spare_bit idx f = (if idx \<ge> 32 then 0 else FUSE_SPARE_BIT (FUSE_CHIP_REGS f) ! unat idx)"

definition fuse_get_reserved_odm :: "u32 \<Rightarrow> fuse_state \<Rightarrow> u32" where
  "fuse_get_reserved_odm idx f = (if idx \<ge> 8 then 0 else FUSE_RESERVED_ODM (FUSE_CHIP_REGS f) ! unat idx)"

definition fuse_get_5x_key_generation :: "fuse_state \<Rightarrow> u32" where
  "fuse_get_5x_key_generation f =
     (if fuse_get_reserved_odm 4 f AND 0x800 \<noteq> 0 \<and> fuse_get_reserved_odm 0 f = 0x8E61ECAE
         \<and> fuse_get_reserved_odm 1 f = 0xF2BA3BB2
      then fuse_get_reserved_odm 2 f AND 0x1F
      else 0)"

definition derived_lot_code_step :: "u32 \<Rightarrow> nat \<Rightarrow> u64 \<Rightarrow> u64" where
  "derived_lot_code_step lot_code i d = (d * 0x24) + ucast (drop_bit (24 - 6 * i) lot_code AND 0x3F)"

definition fuse_get_device_id :: "fuse_state \<Rightarrow> u64" where
  "fuse_get_device_id f =
     (let r = FUSE_CHIP_REGS f;
          y_coord = ucast (FUSE_Y_COORDINATE r AND 0x1FF) :: u64;
          x_coord = ucast (FUSE_X_COORDINATE r AND 0x1FF) :: u64;
          wafer_id = ucast (FUSE_WAFER_ID r AND 0x3F) :: u64;
          lot_code = FUSE_LOT_CODE_0 r;
          fab_code = ucast (FUSE_FAB_CODE r AND 0x3F) :: u64;
          derived_lot_code = fold (derived_lot_code_step lot_code) [0..<5] 0;
          derived_lot_code = derived_lot_code AND 0x03FFFFFF
      in push_bit 0 y_coord OR push_bit 9 x_coord OR push_bit 18 wafer_id
           OR push_bit 24 derived_lot_code OR push_bit 50 fab_code)"

definition fuse_get_dram_id :: "fuse_state \<Rightarrow> u32" where
  "fuse_get_dram_id f = drop_bit 3 (FUSE_RESERVED_ODM (FUSE_CHIP_REGS f) ! 4) AND 7"

definition fuse_get_hardware_type :: "exocfg \<Rightarrow> fuse_state \<Rightarrow> u32 res" where
  "fuse_get_hardware_type c f =
     (let odm4 = FUSE_RESERVED_ODM (FUSE_CHIP_REGS f) ! 4;
          hardware_type = (drop_bit 7 odm4 AND 2) OR (drop_bit 2 odm4 AND 1)
      in bindR (exosphere_get_target_firmware c) (\<lambda>fw.
         if fw \<ge> FW_400
         then let hardware_type = hardware_type OR (drop_bit 14 odm4 AND 0x3C);
                  hardware_type = hardware_type - 1
              in Ok (if hardware_type > 3 then 4 else [0, 1, 4, 3] ! unat hardware_type)
         else if hardware_type \<ge> 1 then Ok (if hardware_type > 2 then 3 else hardware_type - 1)
         else if FUSE_SPARE_BIT (FUSE_CHIP_REGS f) ! 9 AND 1 = 0 then Ok 0
         else Ok 3))"

definition fuse_get_retail_type :: "fuse_state \<Rightarrow> u32" where
  "fuse_get_retail_type f =
     (let odm4 = FUSE_RESERVED_ODM (FUSE_CHIP_REGS f) ! 4;
          retail_type = (drop_bit 7 odm4 AND 4) OR (odm4 AND 3)
      in if retail_type = 4 then 1 else if retail_type = 3 then 0 else 2)"

definition fuse_get_hardware_info :: "fuse_state \<Rightarrow> bytes" where
  "fuse_get_hardware_info f =
     (let r = FUSE_CHIP_REGS f;
          unk_hw_fuse = FUSE_0x120 r AND 0x3F;
          y_coord = FUSE_Y_COORDINATE r AND 0x1FF;
          x_coord = FUSE_X_COORDINATE r AND 0x1FF;
          wafer_id = FUSE_WAFER_ID r AND 0x3F;
          lot_code_0 = FUSE_LOT_CODE_0 r;
          lot_code_1 = FUSE_LOT_CODE_1 r AND 0x0FFFFFFF;
          fab_code = FUSE_FAB_CODE r AND 0x3F;
          vendor_code = FUSE_VENDOR_CODE r AND 0xF
      in concat (map (le_bytes 4)
           [push_bit 30 lot_code_1 OR push_bit 24 wafer_id OR push_bit 15 x_coord OR push_bit 6 y_coord
              OR unk_hw_fuse,
            push_bit 26 lot_code_0 OR drop_bit 2 lot_code_1,
            push_bit 26 fab_code OR drop_bit 6 lot_code_0,
            vendor_code]))"

section \<open>The bootrom patch walk\<close>

definition ipatch_step :: "fuse_hw \<Rightarrow> u32 \<Rightarrow> nat \<Rightarrow> fuse_state \<Rightarrow> fuse_state res" where
  "ipatch_step hw word_addr i f =
     bindR (fuse_hw_read hw (word_addr - (of_nat i + 1)) f) (\<lambda>(word, f).
     let addr = drop_bit 16 word * 2
     in Ok (if addr = 0x769A then f\<lparr>g_has_rcm_bug_patch := True\<rparr> else f))"

definition ipatch_block :: "fuse_hw \<Rightarrow> u32 \<Rightarrow> fuse_state \<Rightarrow> (u32 \<times> fuse_state) res" where
  "ipatch_block hw word_addr f =
     bindR (fuse_hw_read hw word_addr f) (\<lambda>(word0, f).
     let ipatch_count = drop_bit 16 word0 AND 0xF
     in bindR (foldR (ipatch_step hw word_addr) [0..<unat ipatch_count] f) (\<lambda>f. Ok (word0, f)))"

fun the_Ok :: "'a res \<Rightarrow> 'a" where
  "the_Ok (Ok x) = x"

partial_function (option) ipatch_walk :: "fuse_hw \<Rightarrow> u32 \<Rightarrow> u32 \<Rightarrow> fuse_state \<Rightarrow> fuse_state res option" where
  "ipatch_walk hw word_count word_addr f =
     (if word_count = 0 then Some (Ok f)
      else if is_Ok (ipatch_block hw word_addr f)
      then ipatch_walk hw (drop_bit 25 (fst (the_Ok (ipatch_block hw word_addr f)))) (word_addr - word_count)
             (snd (the_Ok (ipatch_block hw word_addr f)))
      else Some Hang)"

definition fuse_has_rcm_bug_patch :: "fuse_hw \<Rightarrow> fuse_state \<Rightarrow> (bool \<times> fuse_state) res" where
  "fuse_has_rcm_bug_patch hw f =
     bindR (if g_has_checked_for_rcm_bug_patch f then Ok f
            else
              let f = (if FUSE_RESERVED_SW (FUSE_CHIP_REGS f) AND 0x80 \<noteq> 0
                       then f\<lparr>g_has_rcm_bug_patch := True\<rparr> else f);
                  word_count = FUSE_FIRST_BOOTROM_PATCH_SIZE (FUSE_CHIP_REGS f) AND 0x7F
              in case ipatch_walk hw word_count 191 f of None \<Rightarrow> Hang | Some r \<Rightarrow> r) (\<lambda>f.
     let f = f\<lparr>g_has_checked_for_rcm_bug_patch := True\<rparr>
     in Ok (g_has_rcm_bug_patch f, f))"

definition fuse_init :: "fuse_hw \<Rightarrow> fuse_state \<Rightarrow> fuse_state res" where
  "fuse_init hw f =
     (let f = fuse_make_regs_visible f;
          f = fuse_secondary_private_key_disable f;
          f = fuse_disable_programming f
      in if \<not> g_has_checked_for_rcm_bug_patch f
         then bindR (fuse_has_rcm_bug_patch hw f) (\<lambda>(_, f). Ok f)
         else Ok f)"

section \<open>Properties\<close>

lemma fuse_hw_read_value:
  "fuse_hw_read hw a f = Ok (w, f') \<Longrightarrow> w = fuse_array hw a \<and> FUSE_CHIP_REGS f' = FUSE_CHIP_REGS f
     \<and> g_has_rcm_bug_patch f' = g_has_rcm_bug_patch f"
  by (auto simp: fuse_hw_read_def fuse_wait_idle_def Let_def split: if_splits)

lemma fuse_hw_read_idle: "fuse_goes_idle hw \<Longrightarrow> \<exists>f'. fuse_hw_read hw a f = Ok (fuse_array hw a, f')"
  by (simp add: fuse_hw_read_def fuse_wait_idle_def Let_def)

text \<open>The device id occupies 56 bits, which is what the key packages store of it.\<close>

lemma and_mask_less: "w AND mask n < 2 ^ n" if "n < LENGTH('a)" for w :: "'a::len word"
  using that by (simp add: and_mask_less' )

lemma bit_ucast_and_mask:
  "bit (ucast (w AND mask n :: 'a::len word) :: 'b::len word) k \<Longrightarrow> k < n"
  by (auto simp: bit_simps)

lemma device_id_56: "fuse_get_device_id f AND 0x00FFFFFFFFFFFFFF = fuse_get_device_id f"
proof -
  have m: "0x00FFFFFFFFFFFFFF = (mask 56 :: u64)" "0x1FF = (mask 9 :: u32)" "0x3F = (mask 6 :: u32)"
    "0x03FFFFFF = (mask 26 :: u64)" by (simp_all add: mask_eq_exp_minus_1)
  have "bit (fuse_get_device_id f) k \<Longrightarrow> k < 56" for k
    unfolding fuse_get_device_id_def Let_def m
    by (auto simp: bit_simps dest!: bit_ucast_and_mask)
  then show ?thesis unfolding m by (intro bit_word_eqI) (auto simp: bit_simps)
qed

text \<open>The derived types are small enumerations.\<close>

lemma fuse_get_retail_type_cases: "fuse_get_retail_type f \<in> {0, 1, 2}"
  by (simp add: fuse_get_retail_type_def Let_def)

lemma fuse_get_5x_key_generation_bound: "fuse_get_5x_key_generation f < 32"
proof -
  have "(0x1F :: u32) = mask 5" by (simp add: mask_eq_exp_minus_1)
  then show ?thesis using and_mask_less [of 5 "fuse_get_reserved_odm 2 f"]
    by (simp add: fuse_get_5x_key_generation_def)
qed

text \<open>The patch walk ends with the first block when that block says there is no further one.\<close>

lemma ipatch_walk_none: "ipatch_walk hw 0 a f = Some (Ok f)"
  by (subst ipatch_walk.simps) simp

lemma fuse_has_rcm_bug_patch_cached:
  "g_has_checked_for_rcm_bug_patch f \<Longrightarrow> fuse_has_rcm_bug_patch hw f = Ok (g_has_rcm_bug_patch f, f)"
  by (simp add: fuse_has_rcm_bug_patch_def Let_def)

text \<open>
  The walk does not end when a block announces a next block of the same length at an
  address that announces the same again, for instance in an array of equal words.
\<close>

lemma ipatch_walk_cycle:
  assumes "fuse_goes_idle hw" "\<And>a. fuse_array hw a = 0x02000000"
  shows "ipatch_walk hw 1 a f = None"
proof -
  have b: "\<exists>f'. ipatch_block hw a f = Ok (0x02000000, f')" for a f
    using fuse_hw_read_idle [OF assms(1), of a f] assms(2) by (auto simp: ipatch_block_def)
  have "hw = hw \<longrightarrow> (1 :: u32) = 1 \<longrightarrow> False" if "ipatch_walk hw 1 a f = Some r" for r
  proof (rule ipatch_walk.raw_induct [where P = "\<lambda>hw' wc a f r. hw' = hw \<longrightarrow> wc = 1 \<longrightarrow> False", OF _ that],
      goal_cases)
    case (1 walk hw' wc a f r)
    then show ?case using b [of a f] by (fastforce split: if_splits)
  qed
  then show ?thesis by (cases "ipatch_walk hw 1 a f") auto
qed

end
