(* ===== verification/SE_Regs.thy ===== *)
theory SE_Regs
  imports Exo_Config
begin

text \<open>
  The driver of the Tegra security engine, first part (\<^verbatim>\<open>se.h\<close>, \<^verbatim>\<open>se.c\<close>): the register
  file, the key tables, the callback slot and starting an operation.

  The engine itself is hardware and a parameter: a function \<open>eng\<close> from the state of the
  registers at the moment \<^verbatim>\<open>OPERATION_REG\<close> is written to a response, which says what
  the engine wrote to the output list and to the registers it may change. Linked lists
  are handed over by content instead of by physical address, except for the lists whose
  address the caller of a user SMC chooses.

  The two \<^verbatim>\<open>KEYTABLE_ADDR\<close>/\<^verbatim>\<open>KEYTABLE_DATA\<close> ports store a word of the key table, and
  \<^verbatim>\<open>ERR_STATUS_REG\<close> and \<^verbatim>\<open>INT_STATUS_REG\<close> are write-one-to-clear.
\<close>

section \<open>State\<close>

record se_ll =
  num_entries :: u32
  ll_buf :: "bytes option"    \<comment> \<open>what is stored at the address, \<open>None\<close> for a null address\<close>
  ll_size :: u32

datatype ll_ref = LL se_ll | LL_paddr u32

text \<open>The two completion callbacks the monitor ever registers (\<^verbatim>\<open>smc_user.c\<close>).\<close>

datatype se_callback = Exp_mod_done_handler | Crypt_aes_done_handler

record se_state =
  REG_0x0 :: u32
  REG_0x4 :: u32
  OPERATION_REG :: u32
  INT_ENABLE_REG :: u32
  INT_STATUS_REG :: u32
  CONFIG_REG :: u32
  IN_LL_ADDR_REG :: ll_ref
  OUT_LL_ADDR_REG :: ll_ref
  HASH_RESULT_REG :: bytes
  CONTEXT_SAVE_CONFIG_REG :: u32
  SHA_CONFIG_REG :: u32
  SHA_MSG_LENGTH_REG :: u32
  REG_0x208 :: "u32 list"      \<comment> \<open>the three words after the length\<close>
  SHA_MSG_LEFT_REG :: u32
  REG_0x218 :: "u32 list"
  AES_KEY_READ_DISABLE_REG :: u32
  AES_KEYSLOT_FLAGS :: "u32 list"
  CRYPTO_REG :: u32
  CRYPTO_CTR_REG :: "u32 list"
  BLOCK_COUNT_REG :: u32
  AES_KEYTABLE_ADDR :: u32
  aes_keytable :: "u32 \<Rightarrow> u32"
  CRYPTO_KEYTABLE_DST_REG :: u32
  RNG_CONFIG_REG :: u32
  RNG_SRC_CONFIG_REG :: u32
  RNG_RESEED_INTERVAL_REG :: u32
  RSA_CONFIG :: u32
  RSA_KEY_SIZE_REG :: u32
  RSA_EXP_SIZE_REG :: u32
  RSA_KEY_READ_DISABLE_REG :: u32
  RSA_KEYSLOT_FLAGS :: "u32 list"
  RSA_KEYTABLE_ADDR :: u32
  rsa_keytable :: "u32 \<Rightarrow> u32"
  RSA_OUTPUT :: bytes
  FLAGS_REG :: u32
  ERR_STATUS_REG :: u32
  SPARE_0 :: u32
  op_count :: nat             \<comment> \<open>operations completed so far: what makes random output vary\<close>
  g_se_callback :: "se_callback option"
  g_se_modulus_sizes :: "nat list"
  g_se_exp_sizes :: "nat list"
  g_se_generated_vector :: bool
  g_se_stored_test_vector :: bytes

text \<open>What the engine answers, and how the answer shows in the registers.\<close>

record se_resp =
  r_out :: bytes
  r_int_status :: u32
  r_flags :: u32
  r_err :: u32
  r_hash :: bytes
  r_rsa :: bytes
  r_ctr :: "u32 list"
  r_keytable :: "u32 \<Rightarrow> u32"

type_synonym se_engine = "se_state \<Rightarrow> se_resp"

definition se_apply :: "se_resp \<Rightarrow> se_state \<Rightarrow> se_state" where
  "se_apply r se = se\<lparr>INT_STATUS_REG := r_int_status r, FLAGS_REG := r_flags r,
     ERR_STATUS_REG := r_err r, HASH_RESULT_REG := r_hash r, RSA_OUTPUT := r_rsa r,
     CRYPTO_CTR_REG := r_ctr r, aes_keytable := r_keytable r, op_count := Suc (op_count se)\<rparr>"

section \<open>Constants\<close>

abbreviation (input) KEYSLOT_SWITCH_LP0TZRAMKEY :: u32 where "KEYSLOT_SWITCH_LP0TZRAMKEY \<equiv> 0x2"
abbreviation (input) KEYSLOT_SWITCH_SRKGENKEY :: u32 where "KEYSLOT_SWITCH_SRKGENKEY \<equiv> 0x8"
abbreviation (input) KEYSLOT_SWITCH_PACKAGE2KEY :: u32 where "KEYSLOT_SWITCH_PACKAGE2KEY \<equiv> 0x8"
abbreviation (input) KEYSLOT_SWITCH_TEMPKEY :: u32 where "KEYSLOT_SWITCH_TEMPKEY \<equiv> 0x9"
abbreviation (input) KEYSLOT_SWITCH_SESSIONKEY :: u32 where "KEYSLOT_SWITCH_SESSIONKEY \<equiv> 0xA"
abbreviation (input) KEYSLOT_SWITCH_RNGKEY :: u32 where "KEYSLOT_SWITCH_RNGKEY \<equiv> 0xB"
abbreviation (input) KEYSLOT_SWITCH_MASTERKEY :: u32 where "KEYSLOT_SWITCH_MASTERKEY \<equiv> 0xC"
abbreviation (input) KEYSLOT_SWITCH_DEVICEKEY :: u32 where "KEYSLOT_SWITCH_DEVICEKEY \<equiv> 0xD"
abbreviation (input) KEYSLOT_SWITCH_4XOLDDEVICEKEY :: u32 where "KEYSLOT_SWITCH_4XOLDDEVICEKEY \<equiv> 0xF"

abbreviation (input) KEYSLOT_AES_MAX :: u32 where "KEYSLOT_AES_MAX \<equiv> 0x10"
abbreviation (input) KEYSLOT_RSA_MAX :: u32 where "KEYSLOT_RSA_MAX \<equiv> 0x2"
abbreviation (input) KEYSIZE_AES_MAX :: nat where "KEYSIZE_AES_MAX \<equiv> 0x20"
abbreviation (input) KEYSIZE_RSA_MAX :: nat where "KEYSIZE_RSA_MAX \<equiv> 0x100"

abbreviation (input) ALG_AES_ENC :: u32 where "ALG_AES_ENC \<equiv> 0x1000"
abbreviation (input) ALG_AES_DEC :: u32 where "ALG_AES_DEC \<equiv> 0x100"
abbreviation (input) ALG_RNG :: u32 where "ALG_RNG \<equiv> 0x2000"
abbreviation (input) ALG_SHA :: u32 where "ALG_SHA \<equiv> 0x3000"
abbreviation (input) ALG_RSA :: u32 where "ALG_RSA \<equiv> 0x4000"
abbreviation (input) DST_MEMORY :: u32 where "DST_MEMORY \<equiv> 0"
abbreviation (input) DST_HASHREG :: u32 where "DST_HASHREG \<equiv> 4"
abbreviation (input) DST_KEYTAB :: u32 where "DST_KEYTAB \<equiv> 8"
abbreviation (input) DST_SRK :: u32 where "DST_SRK \<equiv> 12"
abbreviation (input) DST_RSAREG :: u32 where "DST_RSAREG \<equiv> 16"
abbreviation (input) ENCMODE_SHA256 :: u32 where "ENCMODE_SHA256 \<equiv> 0x5000000"
abbreviation (input) OP_START :: u32 where "OP_START \<equiv> 1"
abbreviation (input) OP_CTX_SAVE :: u32 where "OP_CTX_SAVE \<equiv> 3"

section \<open>Callback slot and status checks\<close>

definition set_security_engine_callback :: "se_callback option \<Rightarrow> se_state \<Rightarrow> se_state res" where
  "set_security_engine_callback callback se =
     bindR (panic_if (callback = None \<or> g_se_callback se \<noteq> None)) (\<lambda>_.
     Ok (se\<lparr>g_se_callback := callback\<rparr>))"

definition se_check_error_status_reg :: "se_state \<Rightarrow> unit res" where
  "se_check_error_status_reg se = panic_if (ERR_STATUS_REG se \<noteq> 0)"

definition se_check_for_error :: "se_state \<Rightarrow> unit res" where
  "se_check_for_error se =
     panic_if (INT_STATUS_REG se AND 0x10000 \<noteq> 0 \<or> FLAGS_REG se AND 3 \<noteq> 0 \<or> ERR_STATUS_REG se \<noteq> 0)"

definition se_verify_flags_cleared :: "se_state \<Rightarrow> unit res" where
  "se_verify_flags_cleared se = panic_if (FLAGS_REG se AND 3 \<noteq> 0)"

definition se_generate_test_vector :: "bytes" where
  "se_generate_test_vector = replicate 0x10 0"

definition se_validate_stored_vector :: "se_state \<Rightarrow> unit res" where
  "se_validate_stored_vector se =
     bindR (panic_if (\<not> g_se_generated_vector se)) (\<lambda>_.
     let calc_vector = se_generate_test_vector
     in panic_if (calc_vector \<noteq> g_se_stored_test_vector se))"

definition se_generate_stored_vector :: "se_state \<Rightarrow> se_state res" where
  "se_generate_stored_vector se =
     bindR (panic_if (g_se_generated_vector se)) (\<lambda>_.
     Ok (se\<lparr>g_se_stored_test_vector := se_generate_test_vector, g_se_generated_vector := True\<rparr>))"

section \<open>Key tables\<close>

text \<open>One write through the address and data ports.\<close>

definition aes_keytable_write :: "u32 \<Rightarrow> u32 \<Rightarrow> se_state \<Rightarrow> se_state" where
  "aes_keytable_write a d se =
     se\<lparr>AES_KEYTABLE_ADDR := a, aes_keytable := (aes_keytable se)(a := d)\<rparr>"

definition rsa_keytable_write :: "u32 \<Rightarrow> u32 \<Rightarrow> se_state \<Rightarrow> se_state" where
  "rsa_keytable_write a d se =
     se\<lparr>RSA_KEYTABLE_ADDR := a, rsa_keytable := (rsa_keytable se)(a := d)\<rparr>"

definition set_aes_keyslot_flags :: "u32 \<Rightarrow> u32 \<Rightarrow> se_state \<Rightarrow> se_state res" where
  "set_aes_keyslot_flags keyslot flags se =
     bindR (panic_if (keyslot \<ge> KEYSLOT_AES_MAX)) (\<lambda>_.
     let se = (if flags AND NOT 0x80 \<noteq> 0
               then se\<lparr>AES_KEYSLOT_FLAGS := (AES_KEYSLOT_FLAGS se)[unat keyslot := NOT flags]\<rparr>
               else se);
         se = (if flags AND 0x80 \<noteq> 0
               then se\<lparr>AES_KEY_READ_DISABLE_REG :=
                         AES_KEY_READ_DISABLE_REG se AND NOT (push_bit (unat keyslot) 1)\<rparr>
               else se)
     in Ok se)"

definition set_rsa_keyslot_flags :: "u32 \<Rightarrow> u32 \<Rightarrow> se_state \<Rightarrow> se_state res" where
  "set_rsa_keyslot_flags keyslot flags se =
     bindR (panic_if (keyslot \<ge> KEYSLOT_RSA_MAX)) (\<lambda>_.
     let se = (if flags AND NOT 0x80 \<noteq> 0
               then se\<lparr>RSA_KEYSLOT_FLAGS := (RSA_KEYSLOT_FLAGS se)[unat keyslot :=
                         ((drop_bit 4 flags AND 4) OR (flags AND 3)) XOR 7]\<rparr>
               else se);
         se = (if flags AND 0x80 \<noteq> 0
               then se\<lparr>RSA_KEY_READ_DISABLE_REG :=
                         RSA_KEY_READ_DISABLE_REG se AND NOT (push_bit (unat keyslot) 1)\<rparr>
               else se)
     in Ok se)"

definition clear_aes_keyslot :: "u32 \<Rightarrow> se_state \<Rightarrow> se_state res" where
  "clear_aes_keyslot keyslot se =
     bindR (panic_if (keyslot \<ge> KEYSLOT_AES_MAX)) (\<lambda>_.
     Ok (fold (\<lambda>i. aes_keytable_write (push_bit 4 keyslot OR of_nat i) 0) [0..<0x10] se))"

definition clear_rsa_keyslot :: "u32 \<Rightarrow> se_state \<Rightarrow> se_state res" where
  "clear_rsa_keyslot keyslot se =
     bindR (panic_if (keyslot \<ge> KEYSLOT_RSA_MAX)) (\<lambda>_.
     let se = fold (\<lambda>i. rsa_keytable_write (push_bit 7 keyslot OR of_nat i OR 0x40) 0) [0..<0x40] se;
         se = fold (\<lambda>i. rsa_keytable_write (push_bit 7 keyslot OR of_nat i) 0) [0..<0x40] se
     in Ok se)"

definition set_aes_keyslot :: "u32 \<Rightarrow> bytes \<Rightarrow> nat \<Rightarrow> se_state \<Rightarrow> se_state res" where
  "set_aes_keyslot keyslot key key_size se =
     bindR (panic_if (keyslot \<ge> KEYSLOT_AES_MAX \<or> key_size > KEYSIZE_AES_MAX)) (\<lambda>_.
     Ok (fold (\<lambda>i. aes_keytable_write (push_bit 4 keyslot OR of_nat i) (read32le key (4 * i)))
           [0..<key_size div 4] se))"

definition set_rsa_keyslot :: "u32 \<Rightarrow> bytes \<Rightarrow> nat \<Rightarrow> bytes \<Rightarrow> nat \<Rightarrow> se_state \<Rightarrow> se_state res" where
  "set_rsa_keyslot keyslot modulus modulus_size exponent exp_size se =
     bindR (panic_if (keyslot \<ge> KEYSLOT_RSA_MAX \<or> modulus_size > KEYSIZE_RSA_MAX
                       \<or> exp_size > KEYSIZE_RSA_MAX)) (\<lambda>_.
     let se = fold (\<lambda>i. rsa_keytable_write (push_bit 7 keyslot OR 0x40 OR of_nat i)
                          (read32be modulus (4 * (modulus_size div 4) - 4 * i - 4)))
                [0..<modulus_size div 4] se;
         se = fold (\<lambda>i. rsa_keytable_write (push_bit 7 keyslot OR of_nat i)
                          (read32be exponent (4 * (exp_size div 4) - 4 * i - 4)))
                [0..<exp_size div 4] se
     in Ok (se\<lparr>g_se_modulus_sizes := (g_se_modulus_sizes se)[unat keyslot := modulus_size],
               g_se_exp_sizes := (g_se_exp_sizes se)[unat keyslot := exp_size]\<rparr>))"

definition set_aes_keyslot_iv :: "u32 \<Rightarrow> bytes \<Rightarrow> nat \<Rightarrow> se_state \<Rightarrow> se_state res" where
  "set_aes_keyslot_iv keyslot iv iv_size se =
     bindR (panic_if (keyslot \<ge> KEYSLOT_AES_MAX \<or> iv_size > 0x10)) (\<lambda>_.
     Ok (fold (\<lambda>i. aes_keytable_write (push_bit 4 keyslot OR 8 OR of_nat i) (read32le iv (4 * i)))
           [0..<iv_size div 4] se))"

definition clear_aes_keyslot_iv :: "u32 \<Rightarrow> se_state \<Rightarrow> se_state res" where
  "clear_aes_keyslot_iv keyslot se =
     bindR (panic_if (keyslot \<ge> KEYSLOT_AES_MAX)) (\<lambda>_.
     Ok (fold (\<lambda>i. aes_keytable_write (push_bit 4 keyslot OR 8 OR of_nat i) 0) [0..<0x10 div 4] se))"

definition set_se_ctr :: "bytes \<Rightarrow> se_state \<Rightarrow> se_state" where
  "set_se_ctr ctr se =
     fold (\<lambda>i se. se\<lparr>CRYPTO_CTR_REG := (CRYPTO_CTR_REG se)[i := read32le ctr (i * 4)]\<rparr>) [0..<4] se"

section \<open>Starting an operation\<close>

definition ll_init :: "bytes option \<Rightarrow> nat \<Rightarrow> se_ll" where
  "ll_init buffer sz =
     (case buffer of
        Some b \<Rightarrow> \<lparr>num_entries = 0, ll_buf = Some b, ll_size = of_nat sz\<rparr>
      | None \<Rightarrow> \<lparr>num_entries = 0, ll_buf = None, ll_size = 0\<rparr>)"

text \<open>Writing a status register back clears the bits that are set.\<close>

definition se_begin_operation :: "u32 \<Rightarrow> se_state \<Rightarrow> se_state" where
  "se_begin_operation op se =
     se\<lparr>ERR_STATUS_REG := ERR_STATUS_REG se AND NOT (ERR_STATUS_REG se),
        INT_STATUS_REG := INT_STATUS_REG se AND NOT (INT_STATUS_REG se),
        OPERATION_REG := op\<rparr>"

definition trigger_se_blocking_op ::
  "se_engine \<Rightarrow> u32 \<Rightarrow> bytes option \<Rightarrow> nat \<Rightarrow> bytes option \<Rightarrow> nat \<Rightarrow> se_state \<Rightarrow> (bytes \<times> se_state) res"
where
  "trigger_se_blocking_op eng op dst dst_size src src_size se =
     (let in_ll = ll_init src src_size;
          out_ll = ll_init dst dst_size;
          se = se\<lparr>IN_LL_ADDR_REG := LL in_ll, OUT_LL_ADDR_REG := LL out_ll\<rparr>;
          se = se_begin_operation op se;
          resp = eng se;
          se = se_apply resp se
      in if INT_STATUS_REG se AND 0x10 = 0 then Hang
         else bindR (se_check_for_error se) (\<lambda>_. Ok (r_out resp, se)))"

definition trigger_se_rsa_op :: "bytes \<Rightarrow> nat \<Rightarrow> se_state \<Rightarrow> se_state" where
  "trigger_se_rsa_op buf sz se =
     (let in_ll = ll_init (Some buf) sz;
          se = se\<lparr>IN_LL_ADDR_REG := LL in_ll\<rparr>
      in se_begin_operation 1 se)"

text \<open>An operation started without waiting completes later, when its interrupt fires.\<close>

definition se_complete :: "se_engine \<Rightarrow> se_state \<Rightarrow> se_state" where
  "se_complete eng se = se_apply (eng se) se"

end
