(* ===== verification/SE_Ops.thy ===== *)
theory SE_Ops
  imports SE_Regs
begin

text \<open>
  The driver of the security engine, second part (\<^verbatim>\<open>se.c\<close>): the AES, CMAC, SHA-256,
  random and RSA services of the driver, each as the register writes it makes before it
  starts the engine and what it does with the answer. Buffers are passed and returned by
  value; cache maintenance has no counterpart in the model.
\<close>

section \<open>AES\<close>

definition decrypt_data_into_keyslot ::
  "se_engine \<Rightarrow> u32 \<Rightarrow> u32 \<Rightarrow> bytes \<Rightarrow> nat \<Rightarrow> se_state \<Rightarrow> se_state res"
where
  "decrypt_data_into_keyslot eng keyslot_dst keyslot_src wrapped_key wrapped_key_size se =
     bindR (panic_if (keyslot_dst \<ge> KEYSLOT_AES_MAX \<or> unat keyslot_src \<ge> KEYSIZE_AES_MAX
                       \<or> wrapped_key_size > KEYSIZE_AES_MAX)) (\<lambda>_.
     let se = se\<lparr>CONFIG_REG := ALG_AES_DEC OR DST_KEYTAB, CRYPTO_REG := push_bit 24 keyslot_src,
                 BLOCK_COUNT_REG := 0, CRYPTO_KEYTABLE_DST_REG := push_bit 8 keyslot_dst\<rparr>
     in bindR (trigger_se_blocking_op eng OP_START None 0 (Some wrapped_key) wrapped_key_size se)
          (\<lambda>(_, se). Ok se))"

definition se_aes_crypt_insecure_internal ::
  "u32 \<Rightarrow> u32 \<Rightarrow> u32 \<Rightarrow> u64 \<Rightarrow> u32 \<Rightarrow> bool \<Rightarrow> se_callback \<Rightarrow> se_state \<Rightarrow> se_state res"
where
  "se_aes_crypt_insecure_internal keyslot out_ll_paddr in_ll_paddr sz crypt_config encrypt callback se =
     bindR (panic_if (keyslot \<ge> KEYSLOT_AES_MAX)) (\<lambda>_.
     if sz = 0 then Ok se
     else
       let se = se\<lparr>CONFIG_REG := (if encrypt then ALG_AES_ENC OR DST_MEMORY
                                  else ALG_AES_DEC OR DST_MEMORY)\<rparr>;
           se = se\<lparr>CRYPTO_REG := crypt_config OR push_bit 24 keyslot
                                   OR (if encrypt then 0x100 else 0)\<rparr>;
           se = se\<lparr>CRYPTO_REG := CRYPTO_REG se OR 0x80000000\<rparr>;
           se = se\<lparr>BLOCK_COUNT_REG := ucast (drop_bit 4 sz - 1)\<rparr>
       in bindR (set_security_engine_callback (Some callback) se) (\<lambda>se.
          let se = se\<lparr>INT_ENABLE_REG := 0x10\<rparr>;
              se = se\<lparr>IN_LL_ADDR_REG := LL_paddr in_ll_paddr, OUT_LL_ADDR_REG := LL_paddr out_ll_paddr\<rparr>
          in Ok (se_begin_operation 1 se)))"

definition se_aes_ctr_crypt_insecure ::
  "u32 \<Rightarrow> u32 \<Rightarrow> u32 \<Rightarrow> u64 \<Rightarrow> bytes \<Rightarrow> se_callback \<Rightarrow> se_state \<Rightarrow> se_state res"
where
  "se_aes_ctr_crypt_insecure keyslot out_ll_paddr in_ll_paddr sz ctr callback se =
     (let se = se\<lparr>SPARE_0 := 1\<rparr>;
          se = set_se_ctr ctr se
      in se_aes_crypt_insecure_internal keyslot out_ll_paddr in_ll_paddr sz 0x81E True callback se)"

definition se_aes_cbc_encrypt_insecure ::
  "u32 \<Rightarrow> u32 \<Rightarrow> u32 \<Rightarrow> u64 \<Rightarrow> bytes \<Rightarrow> se_callback \<Rightarrow> se_state \<Rightarrow> se_state res"
where
  "se_aes_cbc_encrypt_insecure keyslot out_ll_paddr in_ll_paddr sz iv callback se =
     bindR (set_aes_keyslot_iv keyslot iv 0x10 se) (\<lambda>se.
     se_aes_crypt_insecure_internal keyslot out_ll_paddr in_ll_paddr sz 0x44 True callback se)"

definition se_aes_cbc_decrypt_insecure ::
  "u32 \<Rightarrow> u32 \<Rightarrow> u32 \<Rightarrow> u64 \<Rightarrow> bytes \<Rightarrow> se_callback \<Rightarrow> se_state \<Rightarrow> se_state res"
where
  "se_aes_cbc_decrypt_insecure keyslot out_ll_paddr in_ll_paddr sz iv callback se =
     bindR (set_aes_keyslot_iv keyslot iv 0x10 se) (\<lambda>se.
     se_aes_crypt_insecure_internal keyslot out_ll_paddr in_ll_paddr sz 0x66 False callback se)"

definition se_perform_aes_block_operation ::
  "se_engine \<Rightarrow> bytes \<Rightarrow> nat \<Rightarrow> bytes \<Rightarrow> nat \<Rightarrow> se_state \<Rightarrow> (bytes \<times> se_state) res"
where
  "se_perform_aes_block_operation eng dst dst_size src src_size se =
     (let block = replicate 0x10 0 in
      bindR (panic_if (src_size > 0x10 \<or> dst_size > 0x10)) (\<lambda>_.
      let block = (if src_size \<noteq> 0 then blit block 0 (take src_size src) else block);
          se = se\<lparr>BLOCK_COUNT_REG := 0\<rparr>
      in bindR (trigger_se_blocking_op eng OP_START (Some block) 0x10 (Some block) 0x10 se)
           (\<lambda>(out, se).
            let block = blit block 0 out
            in Ok (if dst_size \<noteq> 0 then blit dst 0 (take dst_size block) else dst, se))))"

definition se_aes_ctr_crypt ::
  "se_engine \<Rightarrow> u32 \<Rightarrow> bytes \<Rightarrow> nat \<Rightarrow> bytes \<Rightarrow> nat \<Rightarrow> bytes \<Rightarrow> nat \<Rightarrow> se_state \<Rightarrow> (bytes \<times> se_state) res"
where
  "se_aes_ctr_crypt eng keyslot dst dst_size src src_size ctr ctr_size se =
     bindR (panic_if (keyslot \<ge> KEYSLOT_AES_MAX \<or> ctr_size \<noteq> 0x10)) (\<lambda>_.
     let num_blocks = src_size div 16;
         se = se\<lparr>SPARE_0 := 1, CONFIG_REG := ALG_AES_ENC OR DST_MEMORY,
                 CRYPTO_REG := push_bit 24 keyslot OR 0x91E\<rparr>;
         se = set_se_ctr ctr se;
         aligned_size = num_blocks * 16
     in bindR (if aligned_size \<noteq> 0
               then let se = se\<lparr>BLOCK_COUNT_REG := of_nat num_blocks - 1\<rparr>
                    in bindR (trigger_se_blocking_op eng OP_START (Some dst) dst_size (Some src) aligned_size se)
                         (\<lambda>(out, se). Ok (blit dst 0 out, se))
               else Ok (dst, se)) (\<lambda>(dst, se).
        if aligned_size < dst_size \<and> aligned_size < src_size
        then let last_block_size = (if src_size < dst_size then src_size - aligned_size
                                    else dst_size - aligned_size)
             in bindR (se_perform_aes_block_operation eng (drop aligned_size dst) last_block_size
                         (drop aligned_size src) (src_size - aligned_size) se)
                  (\<lambda>(tail, se). Ok (take aligned_size dst @ tail, se))
        else Ok (dst, se)))"

definition se_aes_ecb_encrypt_block ::
  "se_engine \<Rightarrow> u32 \<Rightarrow> bytes \<Rightarrow> nat \<Rightarrow> bytes \<Rightarrow> nat \<Rightarrow> u32 \<Rightarrow> se_state \<Rightarrow> (bytes \<times> se_state) res"
where
  "se_aes_ecb_encrypt_block eng keyslot dst dst_size src src_size config_high se =
     bindR (panic_if (keyslot \<ge> KEYSLOT_AES_MAX \<or> dst_size \<noteq> 0x10 \<or> src_size \<noteq> 0x10)) (\<lambda>_.
     let se = se\<lparr>CONFIG_REG := (ALG_AES_ENC OR DST_MEMORY) OR push_bit 16 config_high,
                 CRYPTO_REG := push_bit 24 keyslot OR 0x100\<rparr>
     in se_perform_aes_block_operation eng dst 0x10 src 0x10 se)"

definition se_aes_128_ecb_encrypt_block ::
  "se_engine \<Rightarrow> u32 \<Rightarrow> bytes \<Rightarrow> nat \<Rightarrow> bytes \<Rightarrow> nat \<Rightarrow> se_state \<Rightarrow> (bytes \<times> se_state) res"
where
  "se_aes_128_ecb_encrypt_block eng keyslot dst dst_size src src_size se =
     se_aes_ecb_encrypt_block eng keyslot dst dst_size src src_size 0 se"

definition se_aes_256_ecb_encrypt_block ::
  "se_engine \<Rightarrow> u32 \<Rightarrow> bytes \<Rightarrow> nat \<Rightarrow> bytes \<Rightarrow> nat \<Rightarrow> se_state \<Rightarrow> (bytes \<times> se_state) res"
where
  "se_aes_256_ecb_encrypt_block eng keyslot dst dst_size src src_size se =
     se_aes_ecb_encrypt_block eng keyslot dst dst_size src src_size 0x202 se"

definition se_aes_ecb_decrypt_block ::
  "se_engine \<Rightarrow> u32 \<Rightarrow> bytes \<Rightarrow> nat \<Rightarrow> bytes \<Rightarrow> nat \<Rightarrow> se_state \<Rightarrow> (bytes \<times> se_state) res"
where
  "se_aes_ecb_decrypt_block eng keyslot dst dst_size src src_size se =
     bindR (panic_if (keyslot \<ge> KEYSLOT_AES_MAX \<or> dst_size \<noteq> 0x10 \<or> src_size \<noteq> 0x10)) (\<lambda>_.
     let se = se\<lparr>CONFIG_REG := ALG_AES_DEC OR DST_MEMORY, CRYPTO_REG := push_bit 24 keyslot\<rparr>
     in se_perform_aes_block_operation eng dst 0x10 src 0x10 se)"

section \<open>CMAC\<close>

text \<open>One iteration per byte, from the last to the first; the carry is the byte's top bit.\<close>

definition shift_left_xor_rb_step :: "nat \<Rightarrow> bytes \<times> u8 \<Rightarrow> bytes \<times> u8" where
  "shift_left_xor_rb_step i st =
     (let (key, prev_high_bit) = st;
          cur_byte = key ! (0xF - i)
      in (key[0xF - i := push_bit 1 cur_byte OR prev_high_bit], drop_bit 7 cur_byte))"

definition shift_left_xor_rb :: "bytes \<Rightarrow> bytes" where
  "shift_left_xor_rb key =
     (let (key, prev_high_bit) = fold shift_left_xor_rb_step [0..<0x10] (key, 0)
      in if prev_high_bit \<noteq> 0 then key[0xF := key ! 0xF XOR 0x87] else key)"

definition se_compute_aes_cmac ::
  "se_engine \<Rightarrow> u32 \<Rightarrow> nat \<Rightarrow> bytes \<Rightarrow> nat \<Rightarrow> u32 \<Rightarrow> se_state \<Rightarrow> (bytes \<times> se_state) res"
where
  "se_compute_aes_cmac eng keyslot cmac_size data data_size config_high se =
     bindR (panic_if (keyslot \<ge> KEYSLOT_AES_MAX)) (\<lambda>_.
     let derived_key = replicate 0x10 0 in
     bindR (se_aes_ecb_encrypt_block eng keyslot derived_key 0x10 derived_key 0x10 config_high se)
       (\<lambda>(derived_key, se).
     let derived_key = shift_left_xor_rb derived_key;
         derived_key = (if data_size mod 16 \<noteq> 0 then shift_left_xor_rb derived_key else derived_key);
         se = se\<lparr>CONFIG_REG := (ALG_AES_ENC OR DST_HASHREG) OR push_bit 16 config_high,
                 CRYPTO_REG := push_bit 24 keyslot OR 0x145\<rparr>
     in bindR (clear_aes_keyslot_iv keyslot se) (\<lambda>se.
     let num_blocks = (data_size + 0xF) div 16 in
     bindR (if num_blocks > 1
            then let se = se\<lparr>BLOCK_COUNT_REG := of_nat num_blocks - 2\<rparr>
                 in bindR (trigger_se_blocking_op eng OP_START None 0 (Some data) data_size se)
                      (\<lambda>(_, se). Ok (se\<lparr>CRYPTO_REG := CRYPTO_REG se OR 0x80\<rparr>))
            else Ok se) (\<lambda>se.
     let last_block = replicate 0x10 0;
         last_block =
           (if data_size mod 16 \<noteq> 0
            then (blit last_block 0 (bslice data (data_size - data_size mod 16) (data_size mod 16)))
                   [data_size mod 16 := 0x80]
            else if data_size \<ge> 0x10 then blit last_block 0 (bslice data (data_size - 0x10) 0x10)
            else last_block);
         last_block = xor_bytes last_block derived_key;
         se = se\<lparr>BLOCK_COUNT_REG := 0\<rparr>
     in bindR (trigger_se_blocking_op eng OP_START None 0 (Some last_block) 0x10 se) (\<lambda>(_, se).
        Ok (concat (map (\<lambda>i. le_bytes 4 (read32le (HASH_RESULT_REG se) (i * 4))) [0..<cmac_size div 4]),
            se))))))"

definition se_compute_aes_128_cmac ::
  "se_engine \<Rightarrow> u32 \<Rightarrow> nat \<Rightarrow> bytes \<Rightarrow> nat \<Rightarrow> se_state \<Rightarrow> (bytes \<times> se_state) res"
where
  "se_compute_aes_128_cmac eng keyslot cmac_size data data_size se =
     se_compute_aes_cmac eng keyslot cmac_size data data_size 0 se"

definition se_compute_aes_256_cmac ::
  "se_engine \<Rightarrow> u32 \<Rightarrow> nat \<Rightarrow> bytes \<Rightarrow> nat \<Rightarrow> se_state \<Rightarrow> (bytes \<times> se_state) res"
where
  "se_compute_aes_256_cmac eng keyslot cmac_size data data_size se =
     se_compute_aes_cmac eng keyslot cmac_size data data_size 0x202 se"

definition se_aes_256_cbc_encrypt ::
  "se_engine \<Rightarrow> u32 \<Rightarrow> bytes \<Rightarrow> nat \<Rightarrow> bytes \<Rightarrow> nat \<Rightarrow> bytes \<Rightarrow> se_state \<Rightarrow> (bytes \<times> se_state) res"
where
  "se_aes_256_cbc_encrypt eng keyslot dst dst_size src src_size iv se =
     bindR (panic_if (keyslot \<ge> KEYSLOT_AES_MAX \<or> src_size < 0x10)) (\<lambda>_.
     let se = se\<lparr>CONFIG_REG := (ALG_AES_ENC OR DST_MEMORY) OR push_bit 16 0x202,
                 CRYPTO_REG := push_bit 24 keyslot OR 0x144\<rparr>
     in bindR (set_aes_keyslot_iv keyslot iv 0x10 se) (\<lambda>se.
        let se = se\<lparr>BLOCK_COUNT_REG := of_nat (src_size div 16) - 1\<rparr>
        in bindR (trigger_se_blocking_op eng OP_START (Some dst) dst_size (Some src) src_size se)
             (\<lambda>(out, se). Ok (blit dst 0 out, se))))"

section \<open>SHA-256\<close>

definition se_calculate_sha256 :: "se_engine \<Rightarrow> bytes \<Rightarrow> nat \<Rightarrow> se_state \<Rightarrow> (bytes \<times> se_state) res" where
  "se_calculate_sha256 eng src src_size se =
     (let se = se\<lparr>CONFIG_REG := (ENCMODE_SHA256 OR ALG_SHA OR DST_HASHREG), SHA_CONFIG_REG := 1,
                  SHA_MSG_LENGTH_REG := of_nat (src_size * 8), REG_0x208 := [0, 0, 0],
                  SHA_MSG_LEFT_REG := of_nat (src_size * 8), REG_0x218 := [0, 0, 0]\<rparr>
      in bindR (trigger_se_blocking_op eng OP_START None 0 (Some src) src_size se) (\<lambda>(_, se).
         Ok (concat (map (\<lambda>i. le_bytes 4 (read32be (HASH_RESULT_REG se) (i * 4))) [0..<0x20 div 4]), se)))"

section \<open>Random numbers\<close>

definition se_initialize_rng :: "se_engine \<Rightarrow> u32 \<Rightarrow> se_state \<Rightarrow> se_state res" where
  "se_initialize_rng eng keyslot se =
     bindR (panic_if (keyslot \<ge> KEYSLOT_AES_MAX)) (\<lambda>_.
     let output_buf = replicate 0x10 0;
         se = se\<lparr>RNG_SRC_CONFIG_REG := 3, RNG_RESEED_INTERVAL_REG := 70001,
                 CONFIG_REG := ALG_RNG OR DST_MEMORY, CRYPTO_REG := push_bit 24 keyslot OR 0x108,
                 RNG_CONFIG_REG := 5, BLOCK_COUNT_REG := 0\<rparr>
     in bindR (trigger_se_blocking_op eng OP_START (Some output_buf) 0x10 None 0 se) (\<lambda>(_, se). Ok se))"

definition se_generate_random ::
  "se_engine \<Rightarrow> u32 \<Rightarrow> bytes \<Rightarrow> nat \<Rightarrow> se_state \<Rightarrow> (bytes \<times> se_state) res"
where
  "se_generate_random eng keyslot dst sz se =
     bindR (panic_if (keyslot \<ge> KEYSLOT_AES_MAX)) (\<lambda>_.
     let num_blocks = sz div 16;
         aligned_size = num_blocks * 16;
         se = se\<lparr>CONFIG_REG := ALG_RNG OR DST_MEMORY, CRYPTO_REG := push_bit 24 keyslot OR 0x108,
                 RNG_CONFIG_REG := 4\<rparr>
     in bindR (if num_blocks \<ge> 1
               then let se = se\<lparr>BLOCK_COUNT_REG := of_nat num_blocks - 1\<rparr>
                    in bindR (trigger_se_blocking_op eng OP_START (Some dst) aligned_size None 0 se)
                         (\<lambda>(out, se). Ok (blit dst 0 out, se))
               else Ok (dst, se)) (\<lambda>(dst, se).
        if sz > aligned_size
        then bindR (se_perform_aes_block_operation eng (drop aligned_size dst) (sz - aligned_size) [] 0 se)
               (\<lambda>(tail, se). Ok (take aligned_size dst @ tail, se))
        else Ok (dst, se)))"

definition se_generate_random_key :: "se_engine \<Rightarrow> u32 \<Rightarrow> u32 \<Rightarrow> se_state \<Rightarrow> se_state res" where
  "se_generate_random_key eng dst_keyslot rng_keyslot se =
     bindR (panic_if (dst_keyslot \<ge> KEYSLOT_AES_MAX \<or> rng_keyslot \<ge> KEYSLOT_AES_MAX)) (\<lambda>_.
     let se = se\<lparr>CONFIG_REG := ALG_RNG OR DST_KEYTAB, CRYPTO_REG := push_bit 24 rng_keyslot OR 0x108,
                 RNG_CONFIG_REG := 4, BLOCK_COUNT_REG := 0\<rparr>;
         se = se\<lparr>CRYPTO_KEYTABLE_DST_REG := push_bit 8 dst_keyslot\<rparr>
     in bindR (trigger_se_blocking_op eng OP_START None 0 None 0 se) (\<lambda>(_, se).
        let se = se\<lparr>CRYPTO_KEYTABLE_DST_REG := push_bit 8 dst_keyslot OR 1\<rparr>
        in bindR (trigger_se_blocking_op eng OP_START None 0 None 0 se) (\<lambda>(_, se). Ok se)))"

section \<open>RSA\<close>

definition se_exp_mod ::
  "se_engine \<Rightarrow> u32 \<Rightarrow> bytes \<Rightarrow> nat \<Rightarrow> se_callback \<Rightarrow> se_state \<Rightarrow> se_state res"
where
  "se_exp_mod eng keyslot buf sz callback se =
     bindR (panic_if (keyslot \<ge> KEYSLOT_RSA_MAX \<or> sz > KEYSIZE_RSA_MAX)) (\<lambda>_.
     let stack_buf = map (\<lambda>i. buf ! (sz - i - 1)) [0..<sz];
         se = se\<lparr>CONFIG_REG := ALG_RSA OR DST_RSAREG, RSA_CONFIG := push_bit 24 keyslot,
                 RSA_KEY_SIZE_REG := of_nat (g_se_modulus_sizes se ! unat keyslot div 64) - 1,
                 RSA_EXP_SIZE_REG := of_nat (g_se_exp_sizes se ! unat keyslot div 4)\<rparr>
     in bindR (set_security_engine_callback (Some callback) se) (\<lambda>se.
        let se = se\<lparr>INT_ENABLE_REG := 0x10\<rparr>;
            se = trigger_se_rsa_op stack_buf sz se
        in if r_int_status (eng se) AND 2 = 0 then Hang else Ok se))"

definition se_get_exp_mod_output :: "bytes \<Rightarrow> nat \<Rightarrow> se_state \<Rightarrow> bytes" where
  "se_get_exp_mod_output buf sz se =
     (let num_dwords = sz div 4
      in if num_dwords < 1 then buf
         else fold (\<lambda>i buf. write32le buf (4 * (num_dwords - 1 - i)) (read32be (RSA_OUTPUT se) (4 * i)))
                [0..<num_dwords] buf)"

definition se_synchronous_exp_mod ::
  "se_engine \<Rightarrow> u32 \<Rightarrow> bytes \<Rightarrow> nat \<Rightarrow> bytes \<Rightarrow> nat \<Rightarrow> se_state \<Rightarrow> (bytes \<times> se_state) res"
where
  "se_synchronous_exp_mod eng keyslot dst dst_size src src_size se =
     bindR (panic_if (keyslot \<ge> KEYSLOT_RSA_MAX \<or> src_size > KEYSIZE_RSA_MAX
                       \<or> dst_size > KEYSIZE_RSA_MAX)) (\<lambda>_.
     let stack_buf = map (\<lambda>i. src ! (src_size - i - 1)) [0..<src_size];
         se = se\<lparr>CONFIG_REG := ALG_RSA OR DST_RSAREG, RSA_CONFIG := push_bit 24 keyslot,
                 RSA_KEY_SIZE_REG := of_nat (g_se_modulus_sizes se ! unat keyslot div 64) - 1,
                 RSA_EXP_SIZE_REG := of_nat (g_se_exp_sizes se ! unat keyslot div 4)\<rparr>
     in bindR (trigger_se_blocking_op eng OP_START None 0 (Some stack_buf) src_size se) (\<lambda>(_, se).
        Ok (se_get_exp_mod_output dst dst_size se, se)))"

text \<open>One round of the inline MGF1 of the signature check: hash the seed block, mask 32 bytes.\<close>

definition pss_mgf1_round ::
  "se_engine \<Rightarrow> nat \<Rightarrow> bytes \<times> bytes \<times> u8 \<times> se_state \<Rightarrow> (bytes \<times> bytes \<times> u8 \<times> se_state) res"
where
  "pss_mgf1_round eng ofs st =
     (let (message, h_buf, seed, se) = st;
          h_buf = h_buf[0x24 - 1 := seed]
      in bindR (se_calculate_sha256 eng h_buf 0x24 se) (\<lambda>(mgf1_buf, se).
         Ok (fold (\<lambda>i message. message[i := message ! i XOR mgf1_buf ! (i - ofs)])
               [ofs..<min (ofs + 0x20) (0x100 - 0x20 - 1)] message,
             h_buf, seed + 1, se)))"

definition se_rsa2048_pss_verify ::
  "se_engine \<Rightarrow> bytes \<Rightarrow> nat \<Rightarrow> bytes \<Rightarrow> nat \<Rightarrow> bytes \<Rightarrow> nat \<Rightarrow> se_state \<Rightarrow> (bool \<times> se_state) res"
where
  "se_rsa2048_pss_verify eng signature signature_size modulus modulus_size data data_size se =
     (let public_exponent = [0x00, 0x01, 0x00, 0x01] in
      bindR (set_rsa_keyslot 0 modulus modulus_size public_exponent 4 se) (\<lambda>se.
      bindR (se_synchronous_exp_mod eng 0 (replicate 0x100 0) 0x100 signature signature_size se)
        (\<lambda>(message, se).
      if message ! (0x100 - 1) \<noteq> 0xBC then Ok (False, se)
      else
        let h_buf = blit (replicate 0x24 0) 0 (bslice message (0x100 - 0x20 - 0x1) 0x20) in
        bindR (foldR (pss_mgf1_round eng) (map (\<lambda>k. 0x20 * k) [0..<7]) (message, h_buf, 0, se))
          (\<lambda>(message, h_buf, _, se).
        let message = message[0 := message ! 0 AND 0x7F] in
        if (\<exists>i \<in> set [0..<0x100 - 0x20 - 0x20 - 1 - 1]. message ! i \<noteq> 0) then Ok (False, se)
        else if message ! (0x100 - 0x20 - 0x20 - 1 - 1) \<noteq> 1 then Ok (False, se)
        else
          let validate_buf = replicate (8 + 0x20 + 0x20) 0 in
          bindR (se_calculate_sha256 eng data data_size se) (\<lambda>(data_hash, se).
          let validate_buf = blit validate_buf 8 data_hash;
              validate_buf = blit validate_buf 0x28 (bslice message (0x100 - 0x20 - 0x20 - 1) 0x20)
          in bindR (se_calculate_sha256 eng validate_buf (8 + 0x20 + 0x20) se) (\<lambda>(validate_hash, se).
             Ok (take 0x20 h_buf = validate_hash, se)))))))"

end
