(* ===== verification/SE_Laws.thy ===== *)
theory SE_Laws
  imports SE_Ops
begin

text \<open>
  What the monitor relies on of the security engine, as named laws over a parameter
  engine: for each register configuration that the driver programs, which primitive the
  engine computes and where the result goes. The primitives (the AES permutations, the
  counter step, SHA-256, the random stream) are themselves parameters, collected in a
  record. Nothing is assumed about configurations the driver never programs.

  At the end a reference engine is built from any primitives and shown to satisfy every
  law, so the laws are consistent and theorems that assume them can be applied.
\<close>

section \<open>Reading the key table\<close>

definition aes_idx :: "u32 \<Rightarrow> nat \<Rightarrow> u32" where
  "aes_idx ks i = push_bit 4 ks OR of_nat i"

definition table_bytes :: "(u32 \<Rightarrow> u32) \<Rightarrow> u32 \<Rightarrow> nat \<Rightarrow> nat \<Rightarrow> bytes" where
  "table_bytes t ks lo n = concat (map (\<lambda>i. le_bytes 4 (t (aes_idx ks (lo + i)))) [0..<n])"

definition table_store :: "(u32 \<Rightarrow> u32) \<Rightarrow> u32 \<Rightarrow> nat \<Rightarrow> nat \<Rightarrow> bytes \<Rightarrow> u32 \<Rightarrow> u32" where
  "table_store t ks lo n bs = fold (\<lambda>i t. t(aes_idx ks (lo + i) := read32le bs (4 * i))) [0..<n] t"

text \<open>The 128-bit key of a slot, as the engine uses it.\<close>

definition aes_key :: "se_state \<Rightarrow> u32 \<Rightarrow> bytes" where
  "aes_key se ks = (if ks < 16 then table_bytes (aes_keytable se) ks 0 4 else [])"

definition cfg_key :: "se_state \<Rightarrow> u32 \<Rightarrow> u32 \<Rightarrow> bytes" where
  "cfg_key se ks hi = table_bytes (aes_keytable se) ks 0 (if hi = 0 then 4 else 8)"

lemma cfg_key_128: "ks < 16 \<Longrightarrow> cfg_key se ks 0 = aes_key se ks"
  by (simp add: cfg_key_def aes_key_def)

section \<open>Primitives\<close>

record se_prims =
  aes_enc :: "bytes \<Rightarrow> bytes \<Rightarrow> bytes"
  aes_dec :: "bytes \<Rightarrow> bytes \<Rightarrow> bytes"
  ctr_inc :: "u32 list \<Rightarrow> u32 list"
  sha256 :: "bytes \<Rightarrow> bytes"
  rng :: "nat \<Rightarrow> nat \<Rightarrow> bytes"

definition prims_ok :: "se_prims \<Rightarrow> bool" where
  "prims_ok P \<longleftrightarrow>
     (\<forall>k b. length b = 16 \<longrightarrow> length (aes_enc P k b) = 16 \<and> length (aes_dec P k b) = 16
              \<and> aes_dec P k (aes_enc P k b) = b \<and> aes_enc P k (aes_dec P k b) = b)
     \<and> (\<forall>c. length c = 4 \<longrightarrow> length (ctr_inc P c) = 4)
     \<and> (\<forall>b. length (sha256 P b) = 32)
     \<and> (\<forall>i n. length (rng P i n) = n)"

fun ctr_stream :: "se_prims \<Rightarrow> bytes \<Rightarrow> u32 list \<Rightarrow> nat \<Rightarrow> bytes" where
  "ctr_stream P k c 0 = []"
| "ctr_stream P k c (Suc n) =
     aes_enc P k (concat (map (le_bytes 4) c)) @ ctr_stream P k (ctr_inc P c) n"

fun cbc_mac :: "se_prims \<Rightarrow> bytes \<Rightarrow> bytes \<Rightarrow> nat \<Rightarrow> bytes \<Rightarrow> bytes" where
  "cbc_mac P k iv 0 data = iv"
| "cbc_mac P k iv (Suc n) data =
     cbc_mac P k (aes_enc P k (xor_bytes iv (take 16 data))) n (drop 16 data)"

text \<open>The hash registers hold each word of a digest byte-swapped.\<close>

definition swap_words :: "nat \<Rightarrow> bytes \<Rightarrow> bytes" where
  "swap_words n bs = concat (map (\<lambda>i. rev (bslice bs (4 * i) 4)) [0..<n])"

fun le_nat :: "bytes \<Rightarrow> nat" where
  "le_nat [] = 0"
| "le_nat (b # bs) = unat b + 256 * le_nat bs"

fun nat_le_bytes :: "nat \<Rightarrow> nat \<Rightarrow> bytes" where
  "nat_le_bytes 0 x = []"
| "nat_le_bytes (Suc n) x = of_nat x # nat_le_bytes n (x div 256)"

definition rsa_bytes :: "(u32 \<Rightarrow> u32) \<Rightarrow> u32 \<Rightarrow> u32 \<Rightarrow> nat \<Rightarrow> bytes" where
  "rsa_bytes t ks sel n = concat (map (\<lambda>i. le_bytes 4 (t (push_bit 7 ks OR sel OR of_nat i))) [0..<n])"

section \<open>The laws\<close>

definition se_done :: "se_state \<Rightarrow> bytes \<Rightarrow> se_resp" where
  "se_done se out = \<lparr>r_out = out, r_int_status = 0x12, r_flags = 0, r_err = 0,
     r_hash = HASH_RESULT_REG se, r_rsa = RSA_OUTPUT se, r_ctr = CRYPTO_CTR_REG se,
     r_keytable = aes_keytable se\<rparr>"

definition law_ecb_enc :: "se_prims \<Rightarrow> se_engine \<Rightarrow> bool" where
  "law_ecb_enc P eng \<longleftrightarrow> (\<forall>se ks hi b. ks < 16 \<and> hi \<in> {0, 0x202} \<and> length b = 16
     \<and> OPERATION_REG se = 1 \<and> CONFIG_REG se = 0x1000 OR push_bit 16 hi
     \<and> CRYPTO_REG se = push_bit 24 ks OR 0x100 \<and> BLOCK_COUNT_REG se = 0
     \<and> IN_LL_ADDR_REG se = LL (ll_init (Some b) 16) \<longrightarrow>
     eng se = se_done se (aes_enc P (cfg_key se ks hi) b))"

definition law_ecb_dec :: "se_prims \<Rightarrow> se_engine \<Rightarrow> bool" where
  "law_ecb_dec P eng \<longleftrightarrow> (\<forall>se ks b. ks < 16 \<and> length b = 16
     \<and> OPERATION_REG se = 1 \<and> CONFIG_REG se = 0x100
     \<and> CRYPTO_REG se = push_bit 24 ks \<and> BLOCK_COUNT_REG se = 0
     \<and> IN_LL_ADDR_REG se = LL (ll_init (Some b) 16) \<longrightarrow>
     eng se = se_done se (aes_dec P (aes_key se ks) b))"

definition law_dec_keytab :: "se_prims \<Rightarrow> se_engine \<Rightarrow> bool" where
  "law_dec_keytab P eng \<longleftrightarrow> (\<forall>se ks kd b. ks < 16 \<and> kd < 16 \<and> length b = 16
     \<and> OPERATION_REG se = 1 \<and> CONFIG_REG se = 0x108
     \<and> CRYPTO_REG se = push_bit 24 ks \<and> BLOCK_COUNT_REG se = 0
     \<and> CRYPTO_KEYTABLE_DST_REG se = push_bit 8 kd
     \<and> IN_LL_ADDR_REG se = LL (ll_init (Some b) 16) \<longrightarrow>
     eng se = (se_done se [])\<lparr>r_keytable :=
       table_store (aes_keytable se) kd 0 4 (aes_dec P (aes_key se ks) b)\<rparr>)"

definition law_ctr :: "se_prims \<Rightarrow> se_engine \<Rightarrow> bool" where
  "law_ctr P eng \<longleftrightarrow> (\<forall>se ks b n. ks < 16 \<and> 0 < n \<and> n < 2 ^ 28 \<and> 16 * n \<le> length b
     \<and> OPERATION_REG se = 1 \<and> CONFIG_REG se = 0x1000
     \<and> CRYPTO_REG se = push_bit 24 ks OR 0x91E \<and> BLOCK_COUNT_REG se = of_nat n - 1
     \<and> length (CRYPTO_CTR_REG se) = 4 \<and> IN_LL_ADDR_REG se = LL (ll_init (Some b) (16 * n)) \<longrightarrow>
     eng se = (se_done se (xor_bytes (take (16 * n) b)
                 (ctr_stream P (aes_key se ks) (CRYPTO_CTR_REG se) n)))
              \<lparr>r_ctr := (ctr_inc P ^^ n) (CRYPTO_CTR_REG se)\<rparr>)"

definition law_cbc_mac :: "se_prims \<Rightarrow> se_engine \<Rightarrow> bool" where
  "law_cbc_mac P eng \<longleftrightarrow> (\<forall>se ks hi b n m upd. ks < 16 \<and> hi \<in> {0, 0x202} \<and> 0 < n \<and> n < 2 ^ 28
     \<and> 16 * n \<le> length b \<and> m < 2 ^ 32
     \<and> OPERATION_REG se = 1 \<and> CONFIG_REG se = 0x1004 OR push_bit 16 hi
     \<and> CRYPTO_REG se = push_bit 24 ks OR (if upd then 0x1C5 else 0x145)
     \<and> BLOCK_COUNT_REG se = of_nat n - 1 \<and> IN_LL_ADDR_REG se = LL (ll_init (Some b) m) \<longrightarrow>
     (let iv = table_bytes (aes_keytable se) ks (if upd then 12 else 8) 4;
          mac = cbc_mac P (cfg_key se ks hi) iv n b
      in eng se = (se_done se [])\<lparr>r_hash := mac @ drop 16 (HASH_RESULT_REG se),
                    r_keytable := table_store (aes_keytable se) ks 12 4 mac\<rparr>))"

definition law_sha256 :: "se_prims \<Rightarrow> se_engine \<Rightarrow> bool" where
  "law_sha256 P eng \<longleftrightarrow> (\<forall>se b. OPERATION_REG se = 1 \<and> CONFIG_REG se = 0x5003004
     \<and> SHA_CONFIG_REG se = 1 \<and> SHA_MSG_LENGTH_REG se = of_nat (length b * 8)
     \<and> SHA_MSG_LEFT_REG se = of_nat (length b * 8)
     \<and> IN_LL_ADDR_REG se = LL (ll_init (Some b) (length b)) \<longrightarrow>
     eng se = (se_done se [])\<lparr>r_hash := swap_words 8 (sha256 P b)\<rparr>)"

definition law_rng :: "se_prims \<Rightarrow> se_engine \<Rightarrow> bool" where
  "law_rng P eng \<longleftrightarrow> (\<forall>se ks n. ks < 16 \<and> 0 < n \<and> n < 2 ^ 28
     \<and> OPERATION_REG se = 1 \<and> CONFIG_REG se = 0x2000
     \<and> CRYPTO_REG se = push_bit 24 ks OR 0x108 \<and> BLOCK_COUNT_REG se = of_nat n - 1 \<longrightarrow>
     eng se = se_done se (rng P (op_count se) (16 * n)))"

definition law_rsa :: "se_engine \<Rightarrow> bool" where
  "law_rsa eng \<longleftrightarrow> (\<forall>se ks b m e. ks < 2 \<and> 0 < m \<and> m \<le> 4 \<and> e \<le> 64 \<and> length b \<le> 256
     \<and> OPERATION_REG se = 1 \<and> CONFIG_REG se = 0x4010
     \<and> RSA_CONFIG se = push_bit 24 ks \<and> RSA_KEY_SIZE_REG se = of_nat m - 1
     \<and> RSA_EXP_SIZE_REG se = of_nat e
     \<and> IN_LL_ADDR_REG se = LL (ll_init (Some b) (length b)) \<longrightarrow>
     eng se = (se_done se [])\<lparr>r_rsa := nat_le_bytes 256
       (le_nat b ^ le_nat (rsa_bytes (rsa_keytable se) ks 0 e)
         mod le_nat (rsa_bytes (rsa_keytable se) ks 0x40 (16 * m)))\<rparr>)"

definition se_engine_ok :: "se_prims \<Rightarrow> se_engine \<Rightarrow> bool" where
  "se_engine_ok P eng \<longleftrightarrow> prims_ok P \<and> law_ecb_enc P eng \<and> law_ecb_dec P eng \<and> law_dec_keytab P eng
     \<and> law_ctr P eng \<and> law_cbc_mac P eng \<and> law_sha256 P eng \<and> law_rng P eng \<and> law_rsa eng"

lemmas se_engine_okD = se_engine_ok_def [THEN iffD1]

section \<open>A reference engine\<close>

definition ref_block_count :: "se_state \<Rightarrow> nat" where
  "ref_block_count se = unat (BLOCK_COUNT_REG se + 1)"

fun ref_input :: "ll_ref \<Rightarrow> bytes" where
  "ref_input (LL l) = (case ll_buf l of None \<Rightarrow> [] | Some b \<Rightarrow> b)"
| "ref_input (LL_paddr a) = []"

definition ref_engine :: "se_prims \<Rightarrow> se_engine" where
  "ref_engine P se =
    (let ks = drop_bit 24 (CRYPTO_REG se);
         b = ref_input (IN_LL_ADDR_REG se);
         n = ref_block_count se;
         cfg = CONFIG_REG se AND 0xFFFF;
         hi = drop_bit 16 (CONFIG_REG se);
         mode = CRYPTO_REG se AND 0xFFFFFF
     in if CONFIG_REG se = 0x5003004
          then (se_done se [])\<lparr>r_hash := swap_words 8 (sha256 P b)\<rparr>
        else if cfg = 0x1000 \<and> mode = 0x100
          then se_done se (aes_enc P (cfg_key se ks hi) b)
        else if cfg = 0x1000 \<and> mode = 0x91E
          then (se_done se (xor_bytes (take (16 * n) b)
                 (ctr_stream P (aes_key se ks) (CRYPTO_CTR_REG se) n)))
               \<lparr>r_ctr := (ctr_inc P ^^ n) (CRYPTO_CTR_REG se)\<rparr>
        else if cfg = 0x100
          then se_done se (aes_dec P (aes_key se ks) b)
        else if cfg = 0x108
          then (se_done se [])\<lparr>r_keytable := table_store (aes_keytable se)
                 (drop_bit 8 (CRYPTO_KEYTABLE_DST_REG se)) 0 4 (aes_dec P (aes_key se ks) b)\<rparr>
        else if cfg = 0x1004
          then (let iv = table_bytes (aes_keytable se) ks (if mode = 0x1C5 then 12 else 8) 4;
                    mac = cbc_mac P (cfg_key se ks hi) iv n b
                in (se_done se [])\<lparr>r_hash := mac @ drop 16 (HASH_RESULT_REG se),
                     r_keytable := table_store (aes_keytable se) ks 12 4 mac\<rparr>)
        else if cfg = 0x2000
          then se_done se (rng P (op_count se) (16 * n))
        else if cfg = 0x4010
          then (let rk = drop_bit 24 (RSA_CONFIG se);
                    m = unat (RSA_KEY_SIZE_REG se + 1);
                    e = unat (RSA_EXP_SIZE_REG se)
                in (se_done se [])\<lparr>r_rsa := nat_le_bytes 256
                     (le_nat b ^ le_nat (rsa_bytes (rsa_keytable se) rk 0 e)
                       mod le_nat (rsa_bytes (rsa_keytable se) rk 0x40 (16 * m)))\<rparr>)
        else se_done se [])"

lemma ll_buf_ll_init [simp]: "ll_buf (ll_init (Some b) n) = Some b"
  by (simp add: ll_init_def)

lemma slot_field:
  fixes ks :: u32
  assumes "ks < 16"
  shows "drop_bit 24 (push_bit 24 ks) = ks" "push_bit 24 ks AND 0xFFFFFF = 0"
    "drop_bit 8 (push_bit 8 ks) = ks" "drop_bit 4 (push_bit 4 ks) = ks"
proof -
  have b: "bit ks n \<Longrightarrow> n < 4" for n
    using assms bit_less_exp [of ks 4 n] by simp
  show "drop_bit 24 (push_bit 24 ks) = ks"
    by (rule bit_word_eqI) (auto simp: bit_drop_bit_eq bit_push_bit_iff dest: b)
  show "drop_bit 8 (push_bit 8 ks) = ks"
    by (rule bit_word_eqI) (auto simp: bit_drop_bit_eq bit_push_bit_iff dest: b)
  show "drop_bit 4 (push_bit 4 ks) = ks"
    by (rule bit_word_eqI) (auto simp: bit_drop_bit_eq bit_push_bit_iff dest: b)
  show "push_bit 24 ks AND 0xFFFFFF = 0"
    using take_bit_push_bit [of 24 24 ks] by (simp add: take_bit_eq_mask mask_eq_exp_minus_1)
qed

lemma slot_field_mode:
  fixes ks :: u32
  assumes "ks < 16" "m AND 0xFFFFFF = m"
  shows "drop_bit 24 (push_bit 24 ks OR m) = ks" "(push_bit 24 ks OR m) AND 0xFFFFFF = m"
proof -
  note m = assms(2)
  have "drop_bit 24 m = drop_bit 24 (m AND 0xFFFFFF)" by (simp only: m)
  also have "\<dots> = 0" by (simp only: drop_bit_and) simp
  finally have "drop_bit 24 m = 0" .
  then show "drop_bit 24 (push_bit 24 ks OR m) = ks"
    by (simp add: drop_bit_or slot_field(1) [OF assms(1)])
  show "(push_bit 24 ks OR m) AND 0xFFFFFF = m"
    by (simp only: bit.conj_disj_distrib2 m slot_field(2) [OF assms(1)]) simp
qed

lemma ref_block_count: "0 < n \<Longrightarrow> n < 2 ^ 28 \<Longrightarrow> BLOCK_COUNT_REG se = of_nat n - 1 \<Longrightarrow> ref_block_count se = n"
  by (simp add: ref_block_count_def unat_of_nat_small)

theorem ref_engine_ok:
  assumes "prims_ok P"
  shows "se_engine_ok P (ref_engine P)"
proof -
  have "law_ecb_enc P (ref_engine P)"
    by (auto simp: law_ecb_enc_def ref_engine_def slot_field_mode slot_field Let_def)
  moreover have "law_ecb_dec P (ref_engine P)"
    by (auto simp: law_ecb_dec_def ref_engine_def slot_field Let_def)
  moreover have "law_dec_keytab P (ref_engine P)"
    by (auto simp: law_dec_keytab_def ref_engine_def slot_field Let_def)
  moreover have "law_ctr P (ref_engine P)"
    by (auto simp: law_ctr_def ref_engine_def slot_field_mode slot_field Let_def ref_block_count)
  moreover have "law_cbc_mac P (ref_engine P)"
    unfolding law_cbc_mac_def
  proof (intro allI impI, elim conjE)
    fix se :: se_state and ks hi :: u32 and b :: bytes and n m :: nat and upd :: bool
    assume a: "ks < 16" "hi \<in> {0, 0x202}" "0 < n" "n < 2 ^ 28" "CONFIG_REG se = 0x1004 OR push_bit 16 hi"
      "CRYPTO_REG se = push_bit 24 ks OR (if upd then 0x1C5 else 0x145)"
      "BLOCK_COUNT_REG se = of_nat n - 1" "IN_LL_ADDR_REG se = LL (ll_init (Some b) m)"
    note n = ref_block_count [OF a(3,4,7)]
    have md: "(if upd then 0x1C5 else 0x145 :: u32) AND 0xFFFFFF = (if upd then 0x1C5 else 0x145)"
      by simp
    have "drop_bit 24 (CRYPTO_REG se) = ks" "(CRYPTO_REG se AND 0xFFFFFF = 0x1C5) = upd"
      "CRYPTO_REG se AND 0xFFFFFF \<noteq> 0x100" "CRYPTO_REG se AND 0xFFFFFF \<noteq> 0x91E"
      using slot_field_mode [OF a(1) md] by (simp_all add: a(6))
    moreover have "CONFIG_REG se AND 0xFFFF = 0x1004" "drop_bit 16 (CONFIG_REG se) = hi"
      "CONFIG_REG se \<noteq> 0x5003004"
      using a(2,5) by auto
    ultimately show "let iv = table_bytes (aes_keytable se) ks (if upd then 12 else 8) 4;
          mac = cbc_mac P (cfg_key se ks hi) iv n b
      in ref_engine P se = (se_done se [])\<lparr>r_hash := mac @ drop 16 (HASH_RESULT_REG se),
                    r_keytable := table_store (aes_keytable se) ks 12 4 mac\<rparr>"
      using a(8) by (simp only: ref_engine_def Let_def n ref_input.simps ll_buf_ll_init option.case) simp
  qed
  moreover have "law_sha256 P (ref_engine P)"
    by (auto simp: law_sha256_def ref_engine_def Let_def)
  moreover have "law_rng P (ref_engine P)"
    by (auto simp: law_rng_def ref_engine_def Let_def ref_block_count)
  moreover have "law_rsa (ref_engine P)"
  proof -
    have "ks < 2 \<Longrightarrow> drop_bit 24 (push_bit 24 ks) = ks" for ks :: u32
      by (rule slot_field(1)) (simp add: order.strict_trans)
    moreover have "0 < m \<Longrightarrow> m \<le> 4 \<Longrightarrow> unat (of_nat m - 1 + 1 :: u32) = m" for m
      by (simp add: unat_of_nat_small)
    moreover have "e \<le> 64 \<Longrightarrow> unat (of_nat e :: u32) = e" for e
      by (simp add: unat_of_nat_small)
    ultimately show ?thesis
      by (auto simp: law_rsa_def ref_engine_def Let_def)
  qed
  ultimately show ?thesis using assms by (simp add: se_engine_ok_def)
qed

end
