(* ===== verification/Keystore.thy ===== *)
theory Keystore
  imports Exo_Prelude
begin

text \<open>
  The interface between the key handling of the monitor (sealed keys, master keys, title
  keys, the user SMCs) and the security engine driver: sixteen key slots whose contents
  the client never sees, a load that decrypts a wrapped key from one slot into another,
  and block encryption and decryption under a slot. The laws describe the slots as an
  array; \<open>good\<close> says what is required of the engine behind the driver and \<open>keep\<close> that
  nothing but AES keys changed.

  The lemmas proved here serve every client: sealing a key under the session key and
  unsealing it loads the key, unwrapping through a temporary slot is two decryptions, and
  a load leaves every other slot alone.
\<close>

locale keystore =
  fixes good :: "'e \<Rightarrow> bool"
    and E :: "'e \<Rightarrow> bytes \<Rightarrow> bytes \<Rightarrow> bytes"
    and D :: "'e \<Rightarrow> bytes \<Rightarrow> bytes \<Rightarrow> bytes"
    and key :: "'s \<Rightarrow> u32 \<Rightarrow> bytes"
    and keep :: "'s \<Rightarrow> 's \<Rightarrow> bool"
    and load :: "'e \<Rightarrow> u32 \<Rightarrow> u32 \<Rightarrow> bytes \<Rightarrow> 's \<Rightarrow> 's res"
    and encrypt :: "'e \<Rightarrow> u32 \<Rightarrow> bytes \<Rightarrow> bytes \<Rightarrow> 's \<Rightarrow> (bytes \<times> 's) res"
    and decrypt :: "'e \<Rightarrow> u32 \<Rightarrow> bytes \<Rightarrow> bytes \<Rightarrow> 's \<Rightarrow> (bytes \<times> 's) res"
  assumes length_E: "good e \<Longrightarrow> length b = 16 \<Longrightarrow> length (E e k b) = 16"
    and length_D: "good e \<Longrightarrow> length b = 16 \<Longrightarrow> length (D e k b) = 16"
    and D_E: "good e \<Longrightarrow> length b = 16 \<Longrightarrow> D e k (E e k b) = b"
    and E_D: "good e \<Longrightarrow> length b = 16 \<Longrightarrow> E e k (D e k b) = b"
    and keep_trans: "keep s1 s2 \<Longrightarrow> keep s2 s3 \<Longrightarrow> keep s1 s3"
    and load_law: "good e \<Longrightarrow> ks < 16 \<Longrightarrow> kd < 16 \<Longrightarrow> length b = 16 \<Longrightarrow>
      \<exists>s'. load e kd ks b s = Ok s' \<and> keep s s' \<and> key s' = (key s)(kd := D e (key s ks) b)"
    and encrypt_law: "good e \<Longrightarrow> ks < 16 \<Longrightarrow> length b = 16 \<Longrightarrow> length dst = 16 \<Longrightarrow>
      \<exists>s'. encrypt e ks dst b s = Ok (E e (key s ks) b, s') \<and> keep s s' \<and> key s' = key s"
    and decrypt_law: "good e \<Longrightarrow> ks < 16 \<Longrightarrow> length b = 16 \<Longrightarrow> length dst = 16 \<Longrightarrow>
      \<exists>s'. decrypt e ks dst b s = Ok (D e (key s ks) b, s') \<and> keep s s' \<and> key s' = key s"
begin

text \<open>Derive a key into \<open>kt\<close> from \<open>ks\<close>, then use it: what every key service of the monitor does.\<close>

lemma load_then_encrypt:
  assumes "good e" "ks < 16" "kt < 16" "length src = 16" "length b = 16" "length dst = 16"
  shows "\<exists>s'. bindR (load e kt ks src s) (encrypt e kt dst b) =
                Ok (E e (D e (key s ks) src) b, s')
            \<and> keep s s' \<and> key s' = (key s)(kt := D e (key s ks) src)"
proof -
  obtain s1 where s1: "load e kt ks src s = Ok s1" "keep s s1" "key s1 = (key s)(kt := D e (key s ks) src)"
    using load_law assms by blast
  obtain s2 where "encrypt e kt dst b s1 = Ok (E e (key s1 kt) b, s2)" "keep s1 s2" "key s2 = key s1"
    using encrypt_law assms by blast
  then show ?thesis using s1 keep_trans by auto
qed

lemma load_then_decrypt:
  assumes "good e" "ks < 16" "kt < 16" "length src = 16" "length b = 16" "length dst = 16"
  shows "\<exists>s'. bindR (load e kt ks src s) (decrypt e kt dst b) =
                Ok (D e (D e (key s ks) src) b, s')
            \<and> keep s s' \<and> key s' = (key s)(kt := D e (key s ks) src)"
proof -
  obtain s1 where s1: "load e kt ks src s = Ok s1" "keep s s1" "key s1 = (key s)(kt := D e (key s ks) src)"
    using load_law assms by blast
  obtain s2 where "decrypt e kt dst b s1 = Ok (D e (key s1 kt) b, s2)" "keep s1 s2" "key s2 = key s1"
    using decrypt_law assms by blast
  then show ?thesis using s1 keep_trans by auto
qed

lemma load_then_load:
  assumes "good e" "ks < 16" "kt < 16" "kd < 16" "length src = 16" "length b = 16"
  shows "\<exists>s'. bindR (load e kt ks src s) (load e kd kt b) = Ok s' \<and> keep s s'
            \<and> key s' = (key s)(kt := D e (key s ks) src, kd := D e (D e (key s ks) src) b)"
proof -
  obtain s1 where s1: "load e kt ks src s = Ok s1" "keep s s1" "key s1 = (key s)(kt := D e (key s ks) src)"
    using load_law assms by blast
  obtain s2 where "load e kd kt b s1 = Ok s2" "keep s1 s2" "key s2 = (key s1)(kd := D e (key s1 kt) b)"
    using load_law assms by blast
  then show ?thesis using s1 keep_trans by auto
qed

text \<open>Unsealing what was sealed under the same source and session key gives the key back.\<close>

lemma sealed_load:
  assumes "good e" "ks < 16" "kt < 16" "kd < 16" "length src = 16" "length b = 16"
    and "key t ks = key s ks"
  shows "\<exists>s'. bindR (load e kt ks src t) (load e kd kt (E e (D e (key s ks) src) b)) = Ok s'
            \<and> keep t s' \<and> key s' kd = b \<and> (\<forall>k. k \<noteq> kd \<longrightarrow> k \<noteq> kt \<longrightarrow> key s' k = key t k)"
  using load_then_load [of e ks kt kd src "E e (D e (key s ks) src) b" t] assms
  by (auto simp: length_E D_E)

end

end
