(* ===== verification/SE_Facts.thy ===== *)
theory SE_Facts
  imports SE_Laws Keystore
begin

text \<open>
  What the operations of the driver do, given an engine that obeys its laws: the key
  table behaves as an array of slots that only the addressed slot of a load changes, and
  each block operation returns the primitive's value and keeps everything that persists
  between operations. The interface the clients use (sealed keys, master keys, title
  keys, GCM) is the locale \<open>keystore\<close>, interpreted here on the driver.
\<close>

section \<open>The key table as an array of slots\<close>

lemma aes_idx_slot:
  assumes "ks < 16" "i < 16"
  shows "drop_bit 4 (aes_idx ks i) = ks" "take_bit 4 (aes_idx ks i) = of_nat i"
proof -
  have "unat (of_nat i :: u32) = i" using assms(2) by (simp add: unat_of_nat_small)
  then have i: "(of_nat i :: u32) < 2 ^ 4" using assms(2) by (simp add: word_less_nat_alt)
  then have t: "take_bit 4 (of_nat i :: u32) = of_nat i" by (simp add: take_bit_less_exp)
  then have "drop_bit 4 (of_nat i :: u32) = 0" by (simp only: take_bit_eq_self_iff_drop_bit_eq_0)
  then show "drop_bit 4 (aes_idx ks i) = ks"
    by (simp add: aes_idx_def drop_bit_or slot_field(4) [OF assms(1)])
  show "take_bit 4 (aes_idx ks i) = of_nat i"
    by (simp add: aes_idx_def take_bit_or t take_bit_push_bit)
qed

lemma aes_idx_eq_iff [simp]:
  assumes "ks < 16" "ks' < 16" "i < 16" "j < 16"
  shows "aes_idx ks i = aes_idx ks' j \<longleftrightarrow> ks = ks' \<and> i = j"
proof
  assume eq: "aes_idx ks i = aes_idx ks' j"
  from eq have "ks = ks'" using aes_idx_slot(1) assms by metis
  moreover from eq have "(of_nat i :: u32) = of_nat j" using aes_idx_slot(2) assms by metis
  then have "unat (of_nat i :: u32) = unat (of_nat j :: u32)" by simp
  then have "i = j" using assms by (simp add: unat_of_nat_small)
  ultimately show "ks = ks' \<and> i = j" by simp
qed simp

lemma table_store_Suc:
  "table_store t ks lo (Suc n) bs = (table_store t ks lo n bs)(aes_idx ks (lo + n) := read32le bs (4 * n))"
  by (simp add: table_store_def)

lemma table_store_same:
  assumes "ks < 16" "lo + n \<le> 16" "i < n"
  shows "table_store t ks lo n bs (aes_idx ks (lo + i)) = read32le bs (4 * i)"
  using assms by (induction n) (auto simp: table_store_Suc less_Suc_eq)

lemma table_store_other:
  "(\<And>i. i < n \<Longrightarrow> a \<noteq> aes_idx ks (lo + i)) \<Longrightarrow> table_store t ks lo n bs a = t a"
  by (induction n) (auto simp: table_store_Suc table_store_def [of _ _ _ 0])

lemma table_store_cong:
  "(\<And>i. i < n \<Longrightarrow> read32le bs (4 * i) = read32le bs' (4 * i)) \<Longrightarrow>
   table_store t ks lo n bs = table_store t ks lo n bs'"
  by (induction n) (auto simp: table_store_Suc table_store_def [of _ _ _ 0])

lemma concat_words: "length bs = 4 * n \<Longrightarrow> concat (map (\<lambda>i. bslice bs (4 * i) 4) [0..<n]) = bs"
proof (induction n arbitrary: bs)
  case 0
  then show ?case by simp
next
  case (Suc n)
  have *: "bslice bs (4 * i) 4 = bslice (take (4 * n) bs) (4 * i) 4" if "i < n" for i
    using that Suc.prems by (simp add: bslice_def drop_take)
  have "concat (map (\<lambda>i. bslice bs (4 * i) 4) [0..<n]) = take (4 * n) bs"
    using Suc.IH [of "take (4 * n) bs"] Suc.prems concat_map_cong [OF *, of n] by simp
  moreover have "bslice bs (4 * n) 4 = drop (4 * n) bs"
    using Suc.prems by (simp add: bslice_def)
  ultimately show ?case by simp
qed

lemma table_bytes_store_same:
  assumes "ks < 16" "lo + n \<le> 16" "length bs = 4 * n"
  shows "table_bytes (table_store t ks lo n bs) ks lo n = bs"
proof -
  have "table_bytes (table_store t ks lo n bs) ks lo n = concat (map (\<lambda>i. bslice bs (4 * i) 4) [0..<n])"
    unfolding table_bytes_def using assms
    by (intro concat_map_cong) (simp add: table_store_same le_bytes_read32le)
  then show ?thesis by (simp add: concat_words assms(3))
qed

lemma table_bytes_store_other:
  assumes "ks < 16" "ks' < 16" "lo + n \<le> 16" "lo' + m \<le> 16" "ks \<noteq> ks' \<or> lo + n \<le> lo' \<or> lo' + m \<le> lo"
  shows "table_bytes (table_store t ks lo n bs) ks' lo' m = table_bytes t ks' lo' m"
proof -
  have "table_store t ks lo n bs (aes_idx ks' (lo' + i)) = t (aes_idx ks' (lo' + i))" if "i < m" for i
    using assms that by (intro table_store_other) auto
  then show ?thesis unfolding table_bytes_def by (intro concat_map_cong) simp
qed

lemma length_table_bytes [simp]: "length (table_bytes t ks lo n) = 4 * n"
  by (simp add: table_bytes_def length_concat comp_def sum_list_triv)

lemma length_aes_key [simp]: "ks < 16 \<Longrightarrow> length (aes_key se ks) = 16"
  by (simp add: aes_key_def)

lemma fold_aes_keytable_write:
  "fold (\<lambda>i. aes_keytable_write (f i) (g i)) xs se =
     se\<lparr>AES_KEYTABLE_ADDR := (if xs = [] then AES_KEYTABLE_ADDR se else f (last xs)),
        aes_keytable := fold (\<lambda>i t. t(f i := g i)) xs (aes_keytable se)\<rparr>"
  by (induction xs arbitrary: se) (auto simp: aes_keytable_write_def)

section \<open>What persists between operations\<close>

text \<open>
  The registers that one operation programs and the next one overwrites are set to fixed
  values, so that two states with the same core differ only in those (of the counter
  registers their number is kept).
\<close>

definition se_core :: "se_state \<Rightarrow> se_state" where
  "se_core se = se\<lparr>OPERATION_REG := 0, INT_STATUS_REG := 0, CONFIG_REG := 0,
     IN_LL_ADDR_REG := LL_paddr 0, OUT_LL_ADDR_REG := LL_paddr 0, HASH_RESULT_REG := [],
     SHA_CONFIG_REG := 0, SHA_MSG_LENGTH_REG := 0, REG_0x208 := [], SHA_MSG_LEFT_REG := 0,
     REG_0x218 := [], CRYPTO_REG := 0,
     CRYPTO_CTR_REG := replicate (length (CRYPTO_CTR_REG se)) 0, BLOCK_COUNT_REG := 0,
     AES_KEYTABLE_ADDR := 0, CRYPTO_KEYTABLE_DST_REG := 0, RNG_CONFIG_REG := 0,
     RSA_CONFIG := 0, RSA_KEY_SIZE_REG := 0, RSA_EXP_SIZE_REG := 0, RSA_KEYTABLE_ADDR := 0,
     RSA_OUTPUT := [], FLAGS_REG := 0, ERR_STATUS_REG := 0, SPARE_0 := 0, op_count := 0\<rparr>"

lemma core_sel [simp]:
  "aes_keytable (se_core se) = aes_keytable se" "rsa_keytable (se_core se) = rsa_keytable se"
  "g_se_callback (se_core se) = g_se_callback se"
  "g_se_modulus_sizes (se_core se) = g_se_modulus_sizes se"
  "g_se_exp_sizes (se_core se) = g_se_exp_sizes se"
  "AES_KEYSLOT_FLAGS (se_core se) = AES_KEYSLOT_FLAGS se"
  "AES_KEY_READ_DISABLE_REG (se_core se) = AES_KEY_READ_DISABLE_REG se"
  by (simp_all add: se_core_def)

lemma core_eqD:
  assumes "se_core se' = se_core se"
  shows "aes_keytable se' = aes_keytable se" "rsa_keytable se' = rsa_keytable se"
    "g_se_callback se' = g_se_callback se" "g_se_modulus_sizes se' = g_se_modulus_sizes se"
    "g_se_exp_sizes se' = g_se_exp_sizes se"
  using assms core_sel by metis+

lemma aes_key_core [simp]: "aes_key (se_core se) = aes_key se"
  by (rule ext) (simp add: aes_key_def)

lemma aes_key_cong: "aes_keytable se' = aes_keytable se \<Longrightarrow> aes_key se' = aes_key se"
  by (rule ext) (simp add: aes_key_def)

lemma aes_key_core_eq: "se_core se' = se_core se \<Longrightarrow> aes_key se' = aes_key se"
  by (metis aes_key_core)

section \<open>Blocking operations\<close>

text \<open>The state in which the engine is started, and the result when it answers without error.\<close>

definition se_started :: "u32 \<Rightarrow> bytes option \<Rightarrow> nat \<Rightarrow> bytes option \<Rightarrow> nat \<Rightarrow> se_state \<Rightarrow> se_state" where
  "se_started op dst dst_size src src_size se =
     se_begin_operation op (se\<lparr>IN_LL_ADDR_REG := LL (ll_init src src_size),
                                 OUT_LL_ADDR_REG := LL (ll_init dst dst_size)\<rparr>)"

definition resp_fine :: "se_resp \<Rightarrow> bool" where
  "resp_fine r \<longleftrightarrow> r_int_status r = 0x12 \<and> r_flags r = 0 \<and> r_err r = 0"

lemma trigger_fine:
  assumes "eng (se_started op dst dst_size src src_size se) = r" "resp_fine r"
  shows "trigger_se_blocking_op eng op dst dst_size src src_size se =
           Ok (r_out r, se_apply r (se_started op dst dst_size src src_size se))"
  using assms
  by (simp add: trigger_se_blocking_op_def se_started_def Let_def se_apply_def se_check_for_error_def
      resp_fine_def)

lemma se_started_sel [simp]:
  "OPERATION_REG (se_started op dst n src m se) = op"
  "CONFIG_REG (se_started op dst n src m se) = CONFIG_REG se"
  "CRYPTO_REG (se_started op dst n src m se) = CRYPTO_REG se"
  "BLOCK_COUNT_REG (se_started op dst n src m se) = BLOCK_COUNT_REG se"
  "CRYPTO_KEYTABLE_DST_REG (se_started op dst n src m se) = CRYPTO_KEYTABLE_DST_REG se"
  "CRYPTO_CTR_REG (se_started op dst n src m se) = CRYPTO_CTR_REG se"
  "IN_LL_ADDR_REG (se_started op dst n src m se) = LL (ll_init src m)"
  "aes_keytable (se_started op dst n src m se) = aes_keytable se"
  "rsa_keytable (se_started op dst n src m se) = rsa_keytable se"
  "HASH_RESULT_REG (se_started op dst n src m se) = HASH_RESULT_REG se"
  "SHA_CONFIG_REG (se_started op dst n src m se) = SHA_CONFIG_REG se"
  "SHA_MSG_LENGTH_REG (se_started op dst n src m se) = SHA_MSG_LENGTH_REG se"
  "SHA_MSG_LEFT_REG (se_started op dst n src m se) = SHA_MSG_LEFT_REG se"
  "RSA_CONFIG (se_started op dst n src m se) = RSA_CONFIG se"
  "RSA_KEY_SIZE_REG (se_started op dst n src m se) = RSA_KEY_SIZE_REG se"
  "RSA_EXP_SIZE_REG (se_started op dst n src m se) = RSA_EXP_SIZE_REG se"
  "op_count (se_started op dst n src m se) = op_count se"
  "aes_key (se_started op dst n src m se) = aes_key se"
  "cfg_key (se_started op dst n src m se) = cfg_key se"
  by (simp_all add: se_started_def se_begin_operation_def aes_key_def cfg_key_def fun_eq_iff)

lemma se_core_apply:
  "length (r_ctr r) = length (CRYPTO_CTR_REG se) \<Longrightarrow>
   se_core (se_apply r (se_started op dst n src m se)) = (se_core se)\<lparr>aes_keytable := r_keytable r\<rparr>"
  by (simp add: se_apply_def se_started_def se_begin_operation_def se_core_def)

lemma se_done_sel [simp]:
  "r_out (se_done se out) = out" "resp_fine (se_done se out)"
  "r_keytable (se_done se out) = aes_keytable se" "r_hash (se_done se out) = HASH_RESULT_REG se"
  "r_ctr (se_done se out) = CRYPTO_CTR_REG se"
  "resp_fine ((se_done se out)\<lparr>r_hash := h\<rparr>)" "resp_fine ((se_done se out)\<lparr>r_keytable := t\<rparr>)"
  "resp_fine ((se_done se out)\<lparr>r_ctr := c\<rparr>)" "resp_fine ((se_done se out)\<lparr>r_rsa := x\<rparr>)"
  "resp_fine ((se_done se out)\<lparr>r_hash := h, r_keytable := t\<rparr>)"
  by (simp_all add: se_done_def resp_fine_def)

lemma aes_lengths:
  assumes "se_engine_ok P eng" "length b = 16"
  shows "length (aes_enc P k b) = 16" "length (aes_dec P k b) = 16"
    "aes_dec P k (aes_enc P k b) = b" "aes_enc P k (aes_dec P k b) = b"
  using assms by (auto simp: se_engine_ok_def prims_ok_def)

lemma block_operation_ok:
  assumes "length src = 16" "length dst = 16"
    and eng: "eng (se_started 1 (Some src) 16 (Some src) 16 (se\<lparr>BLOCK_COUNT_REG := 0\<rparr>)) = r"
    and r: "resp_fine r" "length (r_out r) = 16"
  shows "se_perform_aes_block_operation eng dst 0x10 src 0x10 se =
     Ok (r_out r, se_apply r (se_started 1 (Some src) 16 (Some src) 16 (se\<lparr>BLOCK_COUNT_REG := 0\<rparr>)))"
proof -
  have "blit (replicate 16 0) 0 (take 16 src) = src" using assms(1) by (simp add: blit_0_all)
  then show ?thesis
    using trigger_fine [where eng = eng, OF eng r(1)] assms
    by (simp add: se_perform_aes_block_operation_def Let_def blit_0_all)
qed

lemma ecb_encrypt_ok:
  assumes ok: "se_engine_ok P eng" and "ks < 16" "hi \<in> {0, 0x202}" "length src = 16" "length dst = 16"
  shows "\<exists>se'. se_aes_ecb_encrypt_block eng ks dst 16 src 16 hi se =
                 Ok (aes_enc P (cfg_key se ks hi) src, se') \<and> se_core se' = se_core se"
proof -
  let ?se = "se\<lparr>CONFIG_REG := 0x1000 OR push_bit 16 hi, CRYPTO_REG := push_bit 24 ks OR 0x100\<rparr>"
  let ?st = "se_started 1 (Some src) 16 (Some src) 16 (?se\<lparr>BLOCK_COUNT_REG := 0\<rparr>)"
  let ?r = "se_done ?st (aes_enc P (cfg_key ?st ks hi) src)"
  have "law_ecb_enc P eng" using ok by (simp add: se_engine_ok_def)
  then have "eng ?st = ?r"
    unfolding law_ecb_enc_def using assms by (elim allE [of _ ?st] allE [of _ ks] allE [of _ hi] allE [of _ src]) simp
  then have "se_perform_aes_block_operation eng dst 0x10 src 0x10 ?se = Ok (r_out ?r, se_apply ?r ?st)"
    using assms by (intro block_operation_ok) (simp_all add: aes_lengths [OF ok])
  moreover have "cfg_key ?st ks hi = cfg_key se ks hi" by (simp add: cfg_key_def)
  moreover have "se_core (se_apply ?r ?st) = se_core se" by (simp add: se_core_apply) (simp add: se_core_def)
  moreover have "\<not> 16 \<le> ks" using assms by simp
  ultimately show ?thesis
    by (auto simp: se_aes_ecb_encrypt_block_def Let_def simp del: push_bit_numeral)
qed

lemma ecb_decrypt_ok:
  assumes ok: "se_engine_ok P eng" and "ks < 16" "length src = 16" "length dst = 16"
  shows "\<exists>se'. se_aes_ecb_decrypt_block eng ks dst 16 src 16 se =
                 Ok (aes_dec P (aes_key se ks) src, se') \<and> se_core se' = se_core se"
proof -
  let ?se = "se\<lparr>CONFIG_REG := 0x100, CRYPTO_REG := push_bit 24 ks\<rparr>"
  let ?st = "se_started 1 (Some src) 16 (Some src) 16 (?se\<lparr>BLOCK_COUNT_REG := 0\<rparr>)"
  let ?r = "se_done ?st (aes_dec P (aes_key ?st ks) src)"
  have "law_ecb_dec P eng" using ok by (simp add: se_engine_ok_def)
  then have "eng ?st = ?r"
    unfolding law_ecb_dec_def using assms by (elim allE [of _ ?st] allE [of _ ks] allE [of _ src]) simp
  then have "se_perform_aes_block_operation eng dst 0x10 src 0x10 ?se = Ok (r_out ?r, se_apply ?r ?st)"
    using assms by (intro block_operation_ok) (simp_all add: aes_lengths [OF ok])
  moreover have "aes_key ?st ks = aes_key se ks" by (simp add: aes_key_def)
  moreover have "se_core (se_apply ?r ?st) = se_core se" by (simp add: se_core_apply) (simp add: se_core_def)
  moreover have "\<not> 16 \<le> ks" using assms by simp
  ultimately show ?thesis
    by (auto simp: se_aes_ecb_decrypt_block_def Let_def simp del: push_bit_numeral)
qed

lemma aes_key_store:
  assumes "kd < 16" "length b = 16"
  shows "aes_key (se\<lparr>aes_keytable := table_store (aes_keytable se) kd 0 4 b\<rparr>) = (aes_key se)(kd := b)"
proof
  fix ks :: u32
  show "aes_key (se\<lparr>aes_keytable := table_store (aes_keytable se) kd 0 4 b\<rparr>) ks = ((aes_key se)(kd := b)) ks"
    using assms by (cases "ks = kd") (simp_all add: aes_key_def table_bytes_store_same table_bytes_store_other)
qed

text \<open>
  \<open>se_keep\<close> relates the state before and after operations that touch nothing but AES keys
  among what persists: RSA keys, key sizes, the callback and the flags are as they were.
\<close>

definition se_keep :: "se_state \<Rightarrow> se_state \<Rightarrow> bool" where
  "se_keep se se' \<longleftrightarrow> se_core se' = (se_core se)\<lparr>aes_keytable := aes_keytable se'\<rparr>"

lemma se_keep_refl [simp]: "se_keep se se"
  by (simp add: se_keep_def se_core_def)

lemma se_keep_core: "se_core se' = se_core se \<Longrightarrow> se_keep se se'"
  by (metis core_sel(1) se_keep_def se_keep_refl)

lemma se_keep_trans [trans]: "se_keep s1 s2 \<Longrightarrow> se_keep s2 s3 \<Longrightarrow> se_keep s1 s3"
  by (simp add: se_keep_def)

lemma se_keepD:
  assumes "se_keep se se'"
  shows "rsa_keytable se' = rsa_keytable se" "g_se_callback se' = g_se_callback se"
    "g_se_modulus_sizes se' = g_se_modulus_sizes se" "g_se_exp_sizes se' = g_se_exp_sizes se"
    "AES_KEYSLOT_FLAGS se' = AES_KEYSLOT_FLAGS se"
    "AES_KEY_READ_DISABLE_REG se' = AES_KEY_READ_DISABLE_REG se"
proof -
  have *: "se_core se' = (se_core se)\<lparr>aes_keytable := aes_keytable se'\<rparr>"
    using assms by (simp add: se_keep_def)
  show "rsa_keytable se' = rsa_keytable se" "g_se_callback se' = g_se_callback se"
    "g_se_modulus_sizes se' = g_se_modulus_sizes se" "g_se_exp_sizes se' = g_se_exp_sizes se"
    "AES_KEYSLOT_FLAGS se' = AES_KEYSLOT_FLAGS se"
    "AES_KEY_READ_DISABLE_REG se' = AES_KEY_READ_DISABLE_REG se"
    using arg_cong [OF *, of rsa_keytable] arg_cong [OF *, of g_se_callback]
      arg_cong [OF *, of g_se_modulus_sizes] arg_cong [OF *, of g_se_exp_sizes]
      arg_cong [OF *, of AES_KEYSLOT_FLAGS] arg_cong [OF *, of AES_KEY_READ_DISABLE_REG]
    by simp_all
qed

lemma se_keep_ctr_length: "se_keep se se' \<Longrightarrow> length (CRYPTO_CTR_REG se') = length (CRYPTO_CTR_REG se)"
proof -
  assume "se_keep se se'"
  then have "CRYPTO_CTR_REG (se_core se') = CRYPTO_CTR_REG ((se_core se)\<lparr>aes_keytable := aes_keytable se'\<rparr>)"
    by (simp add: se_keep_def)
  then have "replicate (length (CRYPTO_CTR_REG se')) (0::u32) = replicate (length (CRYPTO_CTR_REG se)) 0"
    by (simp add: se_core_def)
  then show ?thesis by (metis length_replicate)
qed

lemma decrypt_into_keyslot_ok:
  assumes ok: "se_engine_ok P eng" and "ks < 16" "kd < 16" "length b = 16"
  shows "\<exists>se'. decrypt_data_into_keyslot eng kd ks b 16 se = Ok se' \<and> se_keep se se'
            \<and> aes_key se' = (aes_key se)(kd := aes_dec P (aes_key se ks) b)"
proof -
  let ?se = "se\<lparr>CONFIG_REG := 0x108, CRYPTO_REG := push_bit 24 ks, BLOCK_COUNT_REG := 0,
                CRYPTO_KEYTABLE_DST_REG := push_bit 8 kd\<rparr>"
  let ?st = "se_started 1 None 0 (Some b) 16 ?se"
  let ?k = "aes_dec P (aes_key se ks) b"
  let ?r = "(se_done ?st [])\<lparr>r_keytable := table_store (aes_keytable se) kd 0 4 ?k\<rparr>"
  have key: "aes_key ?st ks = aes_key se ks" by (simp add: aes_key_def)
  have "law_dec_keytab P eng" using ok by (simp add: se_engine_ok_def)
  then have e: "eng ?st = ?r"
    unfolding law_dec_keytab_def using assms key
    by (elim allE [of _ ?st] allE [of _ ks] allE [of _ kd] allE [of _ b]) simp
  have "trigger_se_blocking_op eng 1 None 0 (Some b) 16 ?se = Ok ([], se_apply ?r ?st)"
    using trigger_fine [where eng = eng, OF e] by simp
  moreover have c: "se_core (se_apply ?r ?st) = (se_core se)\<lparr>aes_keytable := table_store (aes_keytable se) kd 0 4 ?k\<rparr>"
    by (simp add: se_core_apply) (simp add: se_core_def)
  then have "se_keep se (se_apply ?r ?st)"
    by (simp add: se_keep_def) (simp add: se_apply_def)
  moreover have "aes_key (se_apply ?r ?st) = (aes_key se)(kd := ?k)"
    using aes_key_store [of kd ?k se] assms aes_lengths(2) [OF ok assms(4)]
      aes_key_cong [of "se_apply ?r ?st" "se\<lparr>aes_keytable := table_store (aes_keytable se) kd 0 4 ?k\<rparr>"]
    by (simp add: se_apply_def)
  moreover have "\<not> 16 \<le> kd" "\<not> 0x20 \<le> unat ks" using assms by (simp_all add: word_less_nat_alt word_le_nat_alt)
  ultimately show ?thesis
    by (auto simp: decrypt_data_into_keyslot_def Let_def simp del: push_bit_numeral)
qed

lemma set_aes_keyslot_ok:
  assumes "ks < 16" "length b = 16"
  shows "\<exists>se'. set_aes_keyslot ks b 16 se = Ok se' \<and> se_keep se se' \<and> aes_key se' = (aes_key se)(ks := b)"
proof -
  let ?se' = "se\<lparr>AES_KEYTABLE_ADDR := aes_idx ks 3, aes_keytable := table_store (aes_keytable se) ks 0 4 b\<rparr>"
  have "\<not> 16 \<le> ks" using assms by simp
  then have "set_aes_keyslot ks b 16 se = Ok ?se'"
    by (simp add: set_aes_keyslot_def aes_keytable_write_def table_store_def aes_idx_def upt_rec)
  moreover have "aes_key ?se' = (aes_key se)(ks := b)"
    using aes_key_store [OF assms, of se] aes_key_cong [of ?se' "se\<lparr>aes_keytable := table_store (aes_keytable se) ks 0 4 b\<rparr>"]
    by simp
  moreover have "se_keep se ?se'" by (simp add: se_keep_def se_core_def)
  ultimately show ?thesis by blast
qed

text \<open>The engine driver provides the key store interface.\<close>

interpretation se_keys: keystore
  "\<lambda>e. se_engine_ok (fst e) (snd e)" "\<lambda>e. aes_enc (fst e)" "\<lambda>e. aes_dec (fst e)" aes_key se_keep
  "\<lambda>e kd ks b. decrypt_data_into_keyslot (snd e) kd ks b 16"
  "\<lambda>e ks dst b. se_aes_128_ecb_encrypt_block (snd e) ks dst 16 b 16"
  "\<lambda>e ks dst b. se_aes_ecb_decrypt_block (snd e) ks dst 16 b 16"
proof (unfold_locales, goal_cases)
  case (5 s1 s2 s3)
  then show ?case by (rule se_keep_trans)
next
  case (6 e ks kd b s)
  then show ?case by (rule decrypt_into_keyslot_ok)
next
  case (7 e ks b dst s)
  then show ?case
    using ecb_encrypt_ok [of "fst e" "snd e" ks 0 b dst s]
    by (auto simp: se_aes_128_ecb_encrypt_block_def cfg_key_128 intro: se_keep_core aes_key_core_eq)
next
  case (8 e ks b dst s)
  then show ?case
    using ecb_decrypt_ok [of "fst e" "snd e" ks b dst s] by (auto intro: se_keep_core aes_key_core_eq)
qed (simp_all add: aes_lengths)

section \<open>Hashing\<close>

lemma bslice_concat:
  assumes "\<And>i. i < n \<Longrightarrow> length (f i) = 4" "i < n"
  shows "bslice (concat (map f [0..<n])) (4 * i) 4 = f i"
proof -
  have len: "length (concat (map f [0..<k])) = 4 * k" if "k \<le> n" for k
    using that assms(1) by (induction k) auto
  have "[0..<n] = [0..<i] @ i # [Suc i..<n]"
    using assms(2) by (metis append_Cons append_Nil le_add1 le_Suc_ex less_imp_le_nat plus_nat.add_0 upt_add_eq_append upt_conv_Cons)
  then have "concat (map f [0..<n]) = concat (map f [0..<i]) @ f i @ concat (map f [Suc i..<n])"
    by (simp only: map_append concat_append list.map concat.simps)
  then show ?thesis using len [of i] assms by (simp add: bslice_def)
qed

lemma digest_words:
  assumes "length d = 32"
  shows "concat (map (\<lambda>i. le_bytes 4 (read32be (swap_words 8 d) (i * 4))) [0..<8]) = d"
proof -
  have "le_bytes 4 (read32be (swap_words 8 d) (i * 4)) = bslice d (4 * i) 4" if "i < 8" for i
  proof -
    have "bslice (swap_words 8 d) (4 * i) 4 = rev (bslice d (4 * i) 4)"
      unfolding swap_words_def using assms that by (intro bslice_concat) auto
    then show ?thesis using assms that by (simp add: read32be_def read32le_def mult.commute)
  qed
  then have "concat (map (\<lambda>i. le_bytes 4 (read32be (swap_words 8 d) (i * 4))) [0..<8]) =
             concat (map (\<lambda>i. bslice d (4 * i) 4) [0..<8])"
    by (rule concat_map_cong)
  then show ?thesis using concat_words [of d 8] assms by simp
qed

lemma sha256_ok:
  assumes ok: "se_engine_ok P eng" and n: "n = length src"
  shows "\<exists>se'. se_calculate_sha256 eng src n se = Ok (sha256 P src, se') \<and> se_core se' = se_core se"
proof -
  let ?se = "se\<lparr>CONFIG_REG := 0x5003004, SHA_CONFIG_REG := 1, SHA_MSG_LENGTH_REG := of_nat (length src * 8),
     REG_0x208 := [0, 0, 0], SHA_MSG_LEFT_REG := of_nat (length src * 8), REG_0x218 := [0, 0, 0]\<rparr>"
  let ?st = "se_started 1 None 0 (Some src) (length src) ?se"
  let ?r = "(se_done ?st [])\<lparr>r_hash := swap_words 8 (sha256 P src)\<rparr>"
  have "law_sha256 P eng" using ok by (simp add: se_engine_ok_def)
  then have e: "eng ?st = ?r"
    unfolding law_sha256_def by (elim allE [of _ ?st] allE [of _ src]) simp
  have "trigger_se_blocking_op eng 1 None 0 (Some src) (length src) ?se = Ok ([], se_apply ?r ?st)"
    using trigger_fine [where eng = eng, OF e] by simp
  moreover have "HASH_RESULT_REG (se_apply ?r ?st) = swap_words 8 (sha256 P src)"
    by (simp add: se_apply_def)
  moreover have "length (sha256 P src) = 32" using ok by (simp add: se_engine_ok_def prims_ok_def)
  note digest_words [OF this]
  moreover have "se_core (se_apply ?r ?st) = se_core se"
    by (simp add: se_core_apply) (simp add: se_core_def)
  ultimately show ?thesis by (simp add: se_calculate_sha256_def Let_def n)
qed

section \<open>Counter mode\<close>

definition ctr_words :: "bytes \<Rightarrow> u32 list" where
  "ctr_words ctr = map (\<lambda>i. read32le ctr (i * 4)) [0..<4]"

lemma set_se_ctr_words:
  assumes "length (CRYPTO_CTR_REG se) = 4"
  shows "set_se_ctr ctr se = se\<lparr>CRYPTO_CTR_REG := ctr_words ctr\<rparr>"
proof -
  obtain a b c d where "CRYPTO_CTR_REG se = [a, b, c, d]"
    using assms by (auto simp: numeral_eq_Suc length_Suc_conv)
  then show ?thesis by (simp add: set_se_ctr_def ctr_words_def upt_rec)
qed

lemma length_ctr_words [simp]: "length (ctr_words c) = 4"
  by (simp add: ctr_words_def)

lemma length_ctr_inc_pow:
  assumes "se_engine_ok P eng" "length c = 4"
  shows "length ((ctr_inc P ^^ n) c) = 4"
  using assms by (induction n) (auto simp: se_engine_ok_def prims_ok_def)

lemma length_ctr_stream:
  assumes "se_engine_ok P eng" "length c = 4"
  shows "length (ctr_stream P k c n) = 16 * n"
  using assms(2)
proof (induction n arbitrary: c)
  case (Suc n)
  have "length (concat (map (le_bytes 4) c)) = 16"
    using Suc.prems by (simp add: length_concat comp_def sum_list_triv)
  then show ?case
    using Suc assms(1) aes_lengths(1) [OF assms(1)] by (auto simp: se_engine_ok_def prims_ok_def)
qed simp

lemma ctr_stream_add:
  "ctr_stream P k c (m + n) = ctr_stream P k c m @ ctr_stream P k ((ctr_inc P ^^ m) c) n"
  by (induction m arbitrary: c) (simp_all add: funpow_swap1)

lemma ctr_engine:
  assumes ok: "se_engine_ok P eng" and "ks < 16" "0 < n" "n < 2 ^ 28" "16 * n \<le> length b"
    and "CONFIG_REG se = 0x1000" "CRYPTO_REG se = push_bit 24 ks OR 0x91E" "length (CRYPTO_CTR_REG se) = 4"
    and "BLOCK_COUNT_REG se = of_nat n - 1"
  shows "eng (se_started 1 dst dn (Some b) (16 * n) se) =
     (se_done (se_started 1 dst dn (Some b) (16 * n) se) (xor_bytes (take (16 * n) b)
        (ctr_stream P (aes_key se ks) (CRYPTO_CTR_REG se) n)))
     \<lparr>r_ctr := (ctr_inc P ^^ n) (CRYPTO_CTR_REG se)\<rparr>"
proof -
  let ?st = "se_started 1 dst dn (Some b) (16 * n) se"
  have "law_ctr P eng" using ok by (simp add: se_engine_ok_def)
  then show ?thesis
    unfolding law_ctr_def using assms
    by (elim allE [of _ ?st] allE [of _ ks] allE [of _ b] allE [of _ n]) simp
qed

lemma ctr_run:
  assumes ok: "se_engine_ok P eng" and "ks < 16" "0 < n" "n < 2 ^ 28" "16 * n \<le> length b"
    and "CONFIG_REG se = 0x1000" "CRYPTO_REG se = push_bit 24 ks OR 0x91E" "length (CRYPTO_CTR_REG se) = 4"
    and "BLOCK_COUNT_REG se = of_nat n - 1"
  shows "\<exists>se'. trigger_se_blocking_op eng 1 dst dn (Some b) (16 * n) se =
     Ok (xor_bytes (take (16 * n) b) (ctr_stream P (aes_key se ks) (CRYPTO_CTR_REG se) n), se')
     \<and> se_core se' = se_core se \<and> CONFIG_REG se' = 0x1000 \<and> CRYPTO_REG se' = push_bit 24 ks OR 0x91E
     \<and> CRYPTO_CTR_REG se' = (ctr_inc P ^^ n) (CRYPTO_CTR_REG se)"
proof -
  let ?st = "se_started 1 dst dn (Some b) (16 * n) se"
  let ?out = "xor_bytes (take (16 * n) b) (ctr_stream P (aes_key se ks) (CRYPTO_CTR_REG se) n)"
  let ?r = "(se_done ?st ?out)\<lparr>r_ctr := (ctr_inc P ^^ n) (CRYPTO_CTR_REG se)\<rparr>"
  have e: "eng ?st = ?r" using ctr_engine [OF assms, of dst dn] by simp
  have "trigger_se_blocking_op eng 1 dst dn (Some b) (16 * n) se = Ok (?out, se_apply ?r ?st)"
    using trigger_fine [where eng = eng, OF e] by simp
  moreover have "se_core (se_apply ?r ?st) = se_core se"
    by (simp add: se_core_apply length_ctr_inc_pow [OF ok] assms(8))
  moreover have "CONFIG_REG (se_apply ?r ?st) = 0x1000"
    "CRYPTO_REG (se_apply ?r ?st) = push_bit 24 ks OR 0x91E"
    "CRYPTO_CTR_REG (se_apply ?r ?st) = (ctr_inc P ^^ n) (CRYPTO_CTR_REG se)"
    using assms by (simp_all add: se_apply_def)
  ultimately show ?thesis by blast
qed

lemma blit_tail:
  assumes "q = length A" "q + length B \<le> length dst"
  shows "take q (blit dst 0 A) @ blit (drop q (blit dst 0 A)) 0 B = blit dst 0 (A @ B)"
  using assms by (simp add: blit_def add.commute)

lemma take_xor_pad:
  assumes "length xs \<le> 16"
  shows "take (length xs) (xor_bytes (blit (replicate 16 0) 0 xs) ys) = xor_bytes xs ys"
  using assms by (intro nth_equalityI) (auto simp: nth_xor_bytes nth_blit)

lemma ctr_block:
  assumes ok: "se_engine_ok P eng" and "ks < 16" "0 < length src" "length src \<le> 16" "length src \<le> length dst"
    and "CONFIG_REG se = 0x1000" "CRYPTO_REG se = push_bit 24 ks OR 0x91E" "length (CRYPTO_CTR_REG se) = 4"
  shows "\<exists>se'. se_perform_aes_block_operation eng dst (length src) src (length src) se =
     Ok (blit dst 0 (xor_bytes src (ctr_stream P (aes_key se ks) (CRYPTO_CTR_REG se) 1)), se')
     \<and> se_core se' = se_core se"
proof -
  let ?b = "blit (replicate 16 0) 0 src :: bytes"
  let ?s = "ctr_stream P (aes_key se ks) (CRYPTO_CTR_REG se) 1"
  let ?se = "se\<lparr>BLOCK_COUNT_REG := 0\<rparr>"
  have key: "aes_key ?se = aes_key se" by (rule aes_key_cong) simp
  have b: "length ?b = 16" using assms by simp
  have s: "length ?s = 16" using length_ctr_stream [OF ok assms(8), of _ 1] by simp
  from ctr_run [OF ok assms(2), of 1 ?b ?se "Some ?b" 16] obtain se' where
    t: "trigger_se_blocking_op eng 1 (Some ?b) 16 (Some ?b) 16 ?se = Ok (xor_bytes ?b ?s, se')"
      "se_core se' = se_core ?se"
    using assms b key by auto
  have "blit ?b 0 (xor_bytes ?b ?s) = xor_bytes ?b ?s" using b s by (simp add: blit_0_all)
  moreover have "take (length src) (xor_bytes ?b ?s) = xor_bytes src ?s" using assms(4) by (rule take_xor_pad)
  moreover have "\<not> 16 < length src" "length src \<noteq> 0" using assms by auto
  ultimately show ?thesis
    using t by (simp add: se_perform_aes_block_operation_def Let_def) (simp add: se_core_def)
qed

lemma ctr_crypt_ok:
  assumes ok: "se_engine_ok P eng" and "ks < 16" "n = length src" "n < 2 ^ 32" "n \<le> dn" "dn \<le> length dst"
    and "length (CRYPTO_CTR_REG se) = 4"
  shows "\<exists>se'. se_aes_ctr_crypt eng ks dst dn src n ctr 16 se =
     Ok (blit dst 0 (xor_bytes src (ctr_stream P (aes_key se ks) (ctr_words ctr) ((n + 15) div 16))), se')
     \<and> se_core se' = se_core se"
proof -
  define q where "q = n div 16"
  define s0 where "s0 = se\<lparr>SPARE_0 := 1, CONFIG_REG := 0x1000, CRYPTO_REG := push_bit 24 ks OR 0x91E,
                            CRYPTO_CTR_REG := ctr_words ctr\<rparr>"
  define A where "A = xor_bytes (take (16 * q) src) (ctr_stream P (aes_key se ks) (ctr_words ctr) q)"
  have key: "aes_key s0 = aes_key se" by (rule aes_key_cong) (simp add: s0_def)
  have core0: "se_core s0 = se_core se" using assms(7) by (simp add: s0_def se_core_def)
  have q: "16 * q \<le> n" "n < 16 * q + 16" "q < 2 ^ 28" using assms(4) by (auto simp: q_def)
  have lA: "length A = 16 * q"
    using q assms(3) by (simp add: A_def length_ctr_stream [OF ok])
  let ?main = "if q * 16 \<noteq> 0
               then let se = s0\<lparr>BLOCK_COUNT_REG := of_nat q - 1\<rparr>
                    in bindR (trigger_se_blocking_op eng 1 (Some dst) dn (Some src) (q * 16) se)
                         (\<lambda>(out, se). Ok (blit dst 0 out, se))
               else Ok (dst, s0)"
  have "\<exists>s1. ?main = Ok (blit dst 0 A, s1) \<and> se_core s1 = se_core se \<and> CONFIG_REG s1 = 0x1000
      \<and> CRYPTO_REG s1 = push_bit 24 ks OR 0x91E \<and> CRYPTO_CTR_REG s1 = (ctr_inc P ^^ q) (ctr_words ctr)"
  proof (cases "q = 0")
    case True
    then show ?thesis using core0 by (simp add: A_def blit_def) (simp add: s0_def)
  next
    case False
    let ?s = "s0\<lparr>BLOCK_COUNT_REG := of_nat q - 1\<rparr>"
    have "aes_key ?s = aes_key se" using key aes_key_cong [of ?s s0] by simp
    moreover have "se_core ?s = se_core s0" by (simp add: se_core_def)
    ultimately show ?thesis
      using ctr_run [OF ok assms(2), of q src ?s "Some dst" dn] False q assms core0
      by (auto simp: A_def mult.commute [of q]) (auto simp: s0_def)
  qed
  then obtain s1 where s1: "?main = Ok (blit dst 0 A, s1)" "se_core s1 = se_core se" "CONFIG_REG s1 = 0x1000"
    "CRYPTO_REG s1 = push_bit 24 ks OR 0x91E" "CRYPTO_CTR_REG s1 = (ctr_inc P ^^ q) (ctr_words ctr)" by blast
  have step: "se_aes_ctr_crypt eng ks dst dn src n ctr 16 se =
      (if q * 16 < dn \<and> q * 16 < n
       then bindR (se_perform_aes_block_operation eng (drop (q * 16) (blit dst 0 A)) (n - q * 16)
                     (drop (q * 16) src) (n - q * 16) s1)
              (\<lambda>(tail, se). Ok (take (q * 16) (blit dst 0 A) @ tail, se))
       else Ok (blit dst 0 A, s1))"
  proof -
    have "\<not> 16 \<le> ks" using assms by simp
    moreover have "set_se_ctr ctr (se\<lparr>SPARE_0 := 1, CONFIG_REG := 0x1000, CRYPTO_REG := push_bit 24 ks OR 0x91E\<rparr>) = s0"
      using assms by (subst set_se_ctr_words) (simp_all add: s0_def)
    moreover have "(if n < dn then n - q * 16 else dn - q * 16) = n - q * 16" using assms by simp
    ultimately show ?thesis
      using s1(1) assms(5) unfolding se_aes_ctr_crypt_def Let_def q_def [symmetric]
      by (cases "q = 0"; cases "n < dn") simp_all
  qed
  show ?thesis
  proof (cases "q * 16 < n")
    case False
    then have n: "n = 16 * q" using q by simp
    then have "(n + 15) div 16 = q" by simp
    then show ?thesis using step False s1(2) n assms(3) by (simp add: A_def)
  next
    case True
    let ?src = "drop (q * 16) src"
    have len: "length ?src = n - q * 16" "0 < length ?src" "length ?src \<le> 16" using True q assms(3) by auto
    have "length ?src \<le> length (drop (q * 16) (blit dst 0 A))" using lA assms len q by simp
    with ctr_block [OF ok assms(2) len(2,3) _ s1(3,4)] obtain se' where
      t: "se_perform_aes_block_operation eng (drop (q * 16) (blit dst 0 A)) (n - q * 16) ?src (n - q * 16) s1 =
          Ok (blit (drop (q * 16) (blit dst 0 A)) 0
               (xor_bytes ?src (ctr_stream P (aes_key s1 ks) (CRYPTO_CTR_REG s1) 1)), se')"
        "se_core se' = se_core s1"
      using len(1) s1(5) length_ctr_inc_pow [OF ok] by (metis length_ctr_words)
    have "(n + 15) div 16 = q + 1" using True q by (simp add: q_def)
    moreover have "xor_bytes src (ctr_stream P (aes_key se ks) (ctr_words ctr) (q + 1)) =
        A @ xor_bytes ?src (ctr_stream P (aes_key se ks) ((ctr_inc P ^^ q) (ctr_words ctr)) 1)"
      unfolding A_def ctr_stream_add
      using xor_bytes_append [of "take (16 * q) src" "ctr_stream P (aes_key se ks) (ctr_words ctr) q" ?src]
        q assms(3) length_ctr_stream [OF ok length_ctr_words] by (simp add: mult.commute)
    moreover have "aes_key s1 = aes_key se" using s1(2) by (rule aes_key_core_eq)
    moreover have "q * 16 < dn" using True assms by simp
    ultimately show ?thesis
      using step True t s1(2,5) lA assms q len
      by (simp add: blit_tail mult.commute)
  qed
qed

end
