(* ===== verification/Bootconfig.thy ===== *)
theory Bootconfig
  imports Fuse SE_Facts
begin

text \<open>
  \<^verbatim>\<open>bootconfig.c\<close>, the boot configuration, and \<^verbatim>\<open>configitem.c\<close>, the configuration items that
  the SMCs expose. The two files call each other, so they share a theory: first the getters
  over the loaded boot configuration, then the items, then loading and verifying a boot
  configuration, which asks an item whether the unit is a retail one.

  An item is written through a pointer: \<open>configitem_get\<close> returns the 64-bit words it
  stores there, in order.
\<close>

section \<open>The loaded boot configuration\<close>

record bootconfig =
  bc_unsigned :: bytes              \<comment> \<open>0x200 bytes\<close>
  bc_signature :: bytes             \<comment> \<open>0x100 bytes\<close>
  bc_signed :: bytes                \<comment> \<open>0x100 bytes\<close>

record boot_reason =
  bootloader_version :: u32
  bootloader_start_block :: u32
  bootloader_start_page :: u32
  bootloader_attribute :: u32
  boot_reason_value :: u32
  boot_reason_state :: u32

record bootconfig_state =
  LOADED_BOOTCONFIG :: bootconfig
  g_boot_reason :: boot_reason
  g_package2_hash_for_recovery :: "u64 list"

text \<open>Offsets inside the signed part.\<close>

abbreviation (input) SC_package2_config :: nat where "SC_package2_config \<equiv> 8"
abbreviation (input) SC_hardware_info :: nat where "SC_hardware_info \<equiv> 0x10"
abbreviation (input) SC_disable_program_verification :: nat where "SC_disable_program_verification \<equiv> 0x20"

definition bootconfig_matches_hardware_info :: "fuse_state \<Rightarrow> bootconfig_state \<Rightarrow> bool" where
  "bootconfig_matches_hardware_info f b \<longleftrightarrow>
     bslice (bc_signed (LOADED_BOOTCONFIG b)) SC_hardware_info 0x10 = fuse_get_hardware_info f"

definition bootconfig_clear :: "bootconfig_state \<Rightarrow> bootconfig_state" where
  "bootconfig_clear b = b\<lparr>LOADED_BOOTCONFIG := \<lparr>bc_unsigned = replicate 0x200 0,
     bc_signature = replicate 0x100 0, bc_signed = replicate 0x100 0\<rparr>\<rparr>"

definition bootconfig_is_package2_plaintext :: "bootconfig_state \<Rightarrow> bool" where
  "bootconfig_is_package2_plaintext b \<longleftrightarrow> bc_signed (LOADED_BOOTCONFIG b) ! SC_package2_config AND 1 \<noteq> 0"

definition bootconfig_is_package2_unsigned :: "bootconfig_state \<Rightarrow> bool" where
  "bootconfig_is_package2_unsigned b \<longleftrightarrow> bc_signed (LOADED_BOOTCONFIG b) ! SC_package2_config AND 2 \<noteq> 0"

definition bootconfig_set_package2_plaintext_and_unsigned :: "bootconfig_state \<Rightarrow> bootconfig_state" where
  "bootconfig_set_package2_plaintext_and_unsigned b =
     b\<lparr>LOADED_BOOTCONFIG := (LOADED_BOOTCONFIG b)\<lparr>bc_signed :=
        (bc_signed (LOADED_BOOTCONFIG b))[SC_package2_config :=
           bc_signed (LOADED_BOOTCONFIG b) ! SC_package2_config OR 3]\<rparr>\<rparr>"

definition bootconfig_disable_program_verification :: "bootconfig_state \<Rightarrow> bool" where
  "bootconfig_disable_program_verification b \<longleftrightarrow>
     bc_signed (LOADED_BOOTCONFIG b) ! SC_disable_program_verification \<noteq> 0"

definition bootconfig_is_debug_mode :: "bootconfig_state \<Rightarrow> bool" where
  "bootconfig_is_debug_mode b \<longleftrightarrow> bc_unsigned (LOADED_BOOTCONFIG b) ! 0x10 AND 2 \<noteq> 0"

definition bootconfig_take_extabt_serror_to_el3 :: "bootconfig_state \<Rightarrow> bool" where
  "bootconfig_take_extabt_serror_to_el3 b \<longleftrightarrow> bc_unsigned (LOADED_BOOTCONFIG b) ! 0x10 AND 6 \<noteq> 6"

definition bootconfig_get_value_for_sysctr0 :: "bootconfig_state \<Rightarrow> u64" where
  "bootconfig_get_value_for_sysctr0 b =
     (if bc_unsigned (LOADED_BOOTCONFIG b) ! 0x24 AND 1 \<noteq> 0
      then read64le (bc_unsigned (LOADED_BOOTCONFIG b)) 0x30
      else 0)"

definition bootconfig_get_memory_arrangement :: "fuse_state \<Rightarrow> bootconfig_state \<Rightarrow> u64" where
  "bootconfig_get_memory_arrangement f b =
     (let d23 = bc_unsigned (LOADED_BOOTCONFIG b) ! 0x23 in
      if bootconfig_is_debug_mode b
      then if fuse_get_dram_id f = 4
           then if d23 \<noteq> 0 then ucast d23 else 0x11
           else if d23 \<noteq> 0
                then if d23 AND 0x30 = 0 then ucast d23 else 1
                else 1
      else 1)"

definition bootconfig_get_kernel_configuration :: "fuse_state \<Rightarrow> bootconfig_state \<Rightarrow> u64" where
  "bootconfig_get_kernel_configuration f b =
     (let u = bc_unsigned (LOADED_BOOTCONFIG b) in
      if bootconfig_is_debug_mode b
      then let high_val = (if fuse_get_dram_id f = 4
                           then if u ! 0x23 \<noteq> 0 then drop_bit 4 (ucast (u ! 0x23)) AND 3 else 1
                           else 0) :: u64
           in push_bit 16 high_val OR push_bit 8 (ucast (u ! 0x21)) OR ucast (u ! 0x11)
      else 0)"

definition bootconfig_load_boot_reason :: "boot_reason \<Rightarrow> bootconfig_state \<Rightarrow> bootconfig_state" where
  "bootconfig_load_boot_reason boot_reason b = b\<lparr>g_boot_reason := boot_reason\<rparr>"

definition bootconfig_set_package2_hash_for_recovery ::
  "se_engine \<Rightarrow> bytes \<Rightarrow> nat \<Rightarrow> se_state \<Rightarrow> bootconfig_state \<Rightarrow> (se_state \<times> bootconfig_state) res"
where
  "bootconfig_set_package2_hash_for_recovery eng package2 package2_size se b =
     bindR (se_calculate_sha256 eng package2 package2_size se) (\<lambda>(h, se).
     Ok (se, b\<lparr>g_package2_hash_for_recovery := map (\<lambda>i. read64le h (8 * i)) [0..<4]\<rparr>))"

definition bootconfig_get_package2_hash_for_recovery :: "bootconfig_state \<Rightarrow> u64 list" where
  "bootconfig_get_package2_hash_for_recovery b = map (\<lambda>i. g_package2_hash_for_recovery b ! i) [0..<4]"

definition bootconfig_is_recovery_boot :: "bootconfig_state \<Rightarrow> bool" where
  "bootconfig_is_recovery_boot b \<longleftrightarrow> bootloader_attribute (g_boot_reason b) AND 1 \<noteq> 0"

definition bootconfig_get_boot_reason :: "bootconfig_state \<Rightarrow> u64" where
  "bootconfig_get_boot_reason b =
     push_bit 24 (ucast (boot_reason_state (g_boot_reason b)))
       OR ucast (boot_reason_value (g_boot_reason b) AND 0xFFFFFF)"

section \<open>Configuration items\<close>

record configitem_state =
  g_hiz_mode_enabled :: bool
  g_debugmode_override_user :: bool
  g_debugmode_override_priv :: bool
  g_enable_usermode_exception_handlers :: bool

definition configitem_init :: configitem_state where
  "configitem_init = \<lparr>g_hiz_mode_enabled = False, g_debugmode_override_user = False,
     g_debugmode_override_priv = False, g_enable_usermode_exception_handlers = True\<rparr>"

text \<open>
  Setting an item: enabling high impedance mode, or a reboot or shutdown, which writes
  the PMC scratch registers and the request and never returns. \<open>configitem_reboot_writes\<close>
  gives those register writes (offset in the PMC page, value) in order, the request last.
\<close>

definition warmboot_patch_writes :: "(u32 \<times> u32) list" where
  "warmboot_patch_writes = [(0x450, 1), (0x634, 0x2E38DFFF), (0x638, 0x6001DC28), (0x520, 0x4003F000),
     (0x53C, 0x6000F208)]"

definition configitem_reboot_writes :: "u32 \<Rightarrow> u64 \<Rightarrow> (u32 \<times> u32) list" where
  "configitem_reboot_writes item value =
     (if item = 65001
      then if value = 1 then [(0x450, 2), (0x400, 0x10)]
           else if value = 2 then warmboot_patch_writes @ [(0x400, 0x10)]
           else []
      else if item = 65002
      then if value = 0 then [] else warmboot_patch_writes @ [(0x400, 0x10)]
      else [])"

definition configitem_set :: "bool \<Rightarrow> u32 \<Rightarrow> u64 \<Rightarrow> configitem_state \<Rightarrow> (u32 \<times> configitem_state) res" where
  "configitem_set privileged item value ci =
     (if item = 13 then Ok (0, ci\<lparr>g_hiz_mode_enabled := (value \<noteq> 0)\<rparr>)
      else if item = 65001
      then if value = 0 then Ok (0, ci)
           else if value = 1 \<or> value = 2 then Hang
           else Ok (2, ci)
      else if item = 65002
      then if value = 0 then Ok (0, ci) else Hang
      else Ok (2, ci))"

definition configitem_get ::
  "exocfg \<Rightarrow> u64 \<Rightarrow> u32 res \<Rightarrow> fuse_hw \<Rightarrow> bootconfig_state \<Rightarrow> configitem_state \<Rightarrow> bool \<Rightarrow> u32 \<Rightarrow> fuse_state
   \<Rightarrow> (u32 \<times> u64 list \<times> fuse_state) res"
where
  "configitem_get c version_hash mkey_revision hw b ci privileged item f =
     (if item = 1 then Ok (0, [of_bool (bootconfig_disable_program_verification b)], f)
      else if item = 2 then Ok (0, [ucast (fuse_get_dram_id f)], f)
      else if item = 3 then Ok (0, [0x2C], f)
      else if item = 4 then Ok (0, [6 - 1], f)
      else if item = 5 then bindR (fuse_get_hardware_type c f) (\<lambda>t. Ok (0, [ucast t], f))
      else if item = 6 then Ok (0, [ucast (fuse_get_retail_type f)], f)
      else if item = 7 then Ok (0, [of_bool (bootconfig_is_recovery_boot b)], f)
      else if item = 8 then Ok (0, [fuse_get_device_id f], f)
      else if item = 9 then bindR (exosphere_get_target_firmware c) (\<lambda>fw.
        if fw < FW_400 then Ok (0, [bootconfig_get_boot_reason b], f) else Ok (2, [], f))
      else if item = 10 then Ok (0, [bootconfig_get_memory_arrangement f b], f)
      else if item = 11
        then if (privileged \<and> g_debugmode_override_priv ci) \<or> (\<not> privileged \<and> g_debugmode_override_user ci)
             then Ok (0, [1], f) else Ok (0, [of_bool (bootconfig_is_debug_mode b)], f)
      else if item = 12
        then let config = bootconfig_get_kernel_configuration f b;
                 config = (if g_enable_usermode_exception_handlers ci then config OR 2 else config)
             in Ok (0, [config], f)
      else if item = 13 then Ok (0, [of_bool (g_hiz_mode_enabled ci)], f)
      else if item = 14 then bindR (exosphere_get_target_firmware c) (\<lambda>fw.
        if fw \<ge> FW_300 then Ok (0, [ucast (drop_bit 10 (fuse_get_reserved_odm 4 f) AND 1)], f) else Ok (2, [], f))
      else if item = 15 then bindR (exosphere_get_target_firmware c) (\<lambda>fw.
        if fw \<ge> FW_500 then Ok (0, [0], f) else Ok (2, [], f))
      else if item = 16 then bindR (exosphere_get_target_firmware c) (\<lambda>fw.
        if fw \<ge> FW_500 then Ok (0, [ucast (fuse_get_5x_key_generation f)], f) else Ok (2, [], f))
      else if item = 17 then bindR (exosphere_get_target_firmware c) (\<lambda>fw.
        if fw \<ge> FW_500 \<and> bootconfig_is_recovery_boot b
        then Ok (0, bootconfig_get_package2_hash_for_recovery b, f) else Ok (2, [], f))
      else if item = 65000 then bindR (exosphere_get_target_firmware c) (\<lambda>fw.
        bindR mkey_revision (\<lambda>rev.
        Ok (0, [push_bit 32 (0 AND 0xFF) OR push_bit 24 (9 AND 0xFF) OR push_bit 16 (4 AND 0xFF)
                  OR push_bit 8 (ucast fw AND 0xFF) OR push_bit 0 (ucast rev AND 0xFF)], f)))
      else if item = 65001 then Ok (0, [0], f)
      else if item = 65002 then Ok (0, [0], f)
      else if item = 65003 then Ok (0, [version_hash], f)
      else if item = 65004 then bindR (fuse_has_rcm_bug_patch hw f) (\<lambda>(p, f). Ok (0, [of_bool p], f))
      else Ok (2, [], f))"

text \<open>The wrappers that the rest of the monitor calls: they panic when the item is refused.\<close>

definition configitem_is_recovery_boot ::
  "exocfg \<Rightarrow> u64 \<Rightarrow> u32 res \<Rightarrow> fuse_hw \<Rightarrow> bootconfig_state \<Rightarrow> configitem_state \<Rightarrow> fuse_state \<Rightarrow> bool res"
where
  "configitem_is_recovery_boot c vh mrev hw b ci f =
     bindR (configitem_get c vh mrev hw b ci True 7 f) (\<lambda>(r, out, _).
     bindR (panic_if (r \<noteq> 0)) (\<lambda>_. Ok (hd out \<noteq> 0)))"

definition configitem_is_retail ::
  "exocfg \<Rightarrow> u64 \<Rightarrow> u32 res \<Rightarrow> fuse_hw \<Rightarrow> bootconfig_state \<Rightarrow> configitem_state \<Rightarrow> fuse_state \<Rightarrow> bool res"
where
  "configitem_is_retail c vh mrev hw b ci f =
     bindR (configitem_get c vh mrev hw b ci True 6 f) (\<lambda>(r, out, _).
     bindR (panic_if (r \<noteq> 0)) (\<lambda>_. Ok (hd out \<noteq> 0)))"

definition configitem_is_hiz_mode_enabled :: "configitem_state \<Rightarrow> bool" where
  "configitem_is_hiz_mode_enabled ci = g_hiz_mode_enabled ci"

definition configitem_set_hiz_mode_enabled :: "bool \<Rightarrow> configitem_state \<Rightarrow> configitem_state" where
  "configitem_set_hiz_mode_enabled enabled ci = ci\<lparr>g_hiz_mode_enabled := enabled\<rparr>"

definition configitem_is_debugmode_priv ::
  "exocfg \<Rightarrow> u64 \<Rightarrow> u32 res \<Rightarrow> fuse_hw \<Rightarrow> bootconfig_state \<Rightarrow> configitem_state \<Rightarrow> fuse_state \<Rightarrow> bool res"
where
  "configitem_is_debugmode_priv c vh mrev hw b ci f =
     bindR (configitem_get c vh mrev hw b ci True 11 f) (\<lambda>(r, out, _).
     bindR (panic_if (r \<noteq> 0)) (\<lambda>_. Ok (hd out \<noteq> 0)))"

definition configitem_get_hardware_type ::
  "exocfg \<Rightarrow> u64 \<Rightarrow> u32 res \<Rightarrow> fuse_hw \<Rightarrow> bootconfig_state \<Rightarrow> configitem_state \<Rightarrow> fuse_state \<Rightarrow> u64 res"
where
  "configitem_get_hardware_type c vh mrev hw b ci f =
     bindR (configitem_get c vh mrev hw b ci True 5 f) (\<lambda>(r, out, _).
     bindR (panic_if (r \<noteq> 0)) (\<lambda>_. Ok (hd out)))"

definition configitem_set_debugmode_override :: "bool \<Rightarrow> bool \<Rightarrow> configitem_state \<Rightarrow> configitem_state" where
  "configitem_set_debugmode_override user priv ci =
     ci\<lparr>g_debugmode_override_user := user, g_debugmode_override_priv := priv\<rparr>"

definition configitem_disable_usermode_exception_handlers :: "configitem_state \<Rightarrow> configitem_state" where
  "configitem_disable_usermode_exception_handlers ci = ci\<lparr>g_enable_usermode_exception_handlers := False\<rparr>"

section \<open>Loading and verifying a boot configuration\<close>

definition bootconfig_modulus :: bytes where
  "bootconfig_modulus =
    [0xB5, 0x96, 0x87, 0x31, 0x39, 0xAA, 0xBB, 0x3C, 0x28, 0xF3, 0xF0, 0x65, 0xF1, 0x50, 0x70, 0x64,
     0xE6, 0x6C, 0x97, 0x50, 0xCD, 0xA6, 0xEE, 0xEA, 0xC3, 0x8F, 0xE6, 0xB5, 0x81, 0x54, 0x65, 0x33,
     0x1B, 0x88, 0x4B, 0xCE, 0x9F, 0x53, 0xDF, 0xE4, 0xF6, 0xAD, 0xC3, 0x78, 0xD7, 0x3C, 0xD1, 0xDB,
     0x27, 0x21, 0xA0, 0x24, 0x30, 0x2D, 0x98, 0x41, 0xA8, 0xDF, 0x50, 0x7D, 0xAB, 0xCE, 0x00, 0xD9,
     0xCB, 0xAC, 0x8F, 0x37, 0xF5, 0x53, 0xE4, 0x97, 0x1F, 0x13, 0x3C, 0x19, 0xFF, 0x05, 0xA7, 0x3B,
     0xF6, 0xF4, 0x01, 0xDE, 0xF0, 0xC3, 0x77, 0x7B, 0x83, 0xBA, 0xAF, 0x99, 0x30, 0x94, 0x87, 0x25,
     0x4E, 0x54, 0x42, 0x3F, 0xAC, 0x27, 0xF9, 0xCC, 0x87, 0xDD, 0xAE, 0xF2, 0x54, 0xF3, 0x97, 0x49,
     0xF4, 0xB0, 0xF8, 0x6D, 0xDA, 0x60, 0xE0, 0xFD, 0x57, 0xAE, 0x55, 0xA9, 0x76, 0xEA, 0x80, 0x24,
     0xA0, 0x04, 0x7D, 0xBE, 0xD1, 0x81, 0xD3, 0x0C, 0x95, 0xCF, 0xB7, 0xE0, 0x2D, 0x21, 0x21, 0xFF,
     0x97, 0x1E, 0xB3, 0xD7, 0x9F, 0xBB, 0x33, 0x0C, 0x23, 0xC5, 0x88, 0x4A, 0x33, 0xB9, 0xC9, 0x4E,
     0x1E, 0x65, 0x51, 0x45, 0xDE, 0xF9, 0x64, 0x7C, 0xF0, 0xBF, 0x11, 0xB4, 0x93, 0x8D, 0x5D, 0xC6,
     0xAB, 0x37, 0x9E, 0xE9, 0x39, 0xC1, 0xC8, 0xDB, 0xB9, 0xFE, 0x45, 0xCE, 0x7B, 0xDD, 0x72, 0xD9,
     0x6F, 0x68, 0x13, 0xC0, 0x4B, 0xBA, 0x00, 0xF4, 0x1E, 0x89, 0x71, 0x91, 0x26, 0xA6, 0x46, 0x12,
     0xDF, 0x29, 0x6B, 0xC2, 0x5A, 0x53, 0xAF, 0xB9, 0x5B, 0xFD, 0x13, 0x9F, 0xD1, 0x8A, 0x7C, 0xB5,
     0x04, 0xFD, 0x69, 0xEA, 0x23, 0xB4, 0x6D, 0x16, 0x21, 0x98, 0x54, 0xB4, 0xDF, 0xE6, 0xAB, 0x93,
     0x36, 0xB6, 0xD2, 0x43, 0xCF, 0x2B, 0x98, 0x1D, 0x45, 0xC9, 0xBB, 0x20, 0x42, 0xB1, 0x9D, 0x1D]"

definition bootconfig_load_and_verify ::
  "se_engine \<Rightarrow> bool res \<Rightarrow> fuse_state \<Rightarrow> bootconfig \<Rightarrow> se_state \<Rightarrow> bootconfig_state
   \<Rightarrow> (se_state \<times> bootconfig_state) res"
where
  "bootconfig_load_and_verify eng is_retail f bc se b =
     (let b = b\<lparr>LOADED_BOOTCONFIG := bc\<rparr>;
          cleared = b\<lparr>LOADED_BOOTCONFIG := bc\<lparr>bc_signed := replicate 0x100 0\<rparr>\<rparr>
      in bindR is_retail (\<lambda>retail.
         if retail then Ok (se, cleared)
         else bindR (se_rsa2048_pss_verify eng (bc_signature bc) 0x100 bootconfig_modulus 0x100 (bc_signed bc) 0x100 se)
                (\<lambda>(valid, se).
                 if valid then Ok (se, cleared)
                 else if \<not> bootconfig_matches_hardware_info f b then Ok (se, cleared)
                 else Ok (se, b))))"

section \<open>Properties\<close>

lemma configitem_is_retail_eq:
  "configitem_is_retail c vh mrev hw b ci f = Ok (fuse_get_retail_type f \<noteq> 0)"
  using fuse_get_retail_type_cases [of f] by (auto simp: configitem_is_retail_def configitem_get_def)

lemma configitem_is_recovery_boot_eq:
  "configitem_is_recovery_boot c vh mrev hw b ci f = Ok (bootconfig_is_recovery_boot b)"
  by (simp add: configitem_is_recovery_boot_def configitem_get_def)

text \<open>
  Every item stores exactly one word when it succeeds and none when it is refused, except
  the recovery hash, which stores four.
\<close>

lemma configitem_get_words:
  assumes "configitem_get c vh mrev hw b ci p item f = Ok (r, out, f')"
  shows "(r = 2 \<and> out = []) \<or> (r = 0 \<and> length out = (if item = 17 then 4 else 1))"
proof (cases "item = 17")
  case True
  then show ?thesis
    using assms
    by (auto simp: configitem_get_def bootconfig_get_package2_hash_for_recovery_def res_simps split: if_splits)
next
  case False
  then show ?thesis
    using assms unfolding configitem_get_def Let_def
    by (auto simp: res_simps split: if_splits)
qed

lemma configitem_set_frame:
  "configitem_set p item v ci = Ok (r, ci') \<Longrightarrow>
     r \<in> {0, 2} \<and> (item \<noteq> 13 \<longrightarrow> ci' = ci) \<and> (item = 13 \<longrightarrow> ci' = ci\<lparr>g_hiz_mode_enabled := (v \<noteq> 0)\<rparr>)"
  by (auto simp: configitem_set_def split: if_splits)

lemma configitem_set_no_return:
  "configitem_set p item v ci = Hang \<longleftrightarrow> configitem_reboot_writes item v \<noteq> []"
  by (auto simp: configitem_set_def configitem_reboot_writes_def warmboot_patch_writes_def)

lemma bootconfig_clear_debug: "\<not> bootconfig_is_debug_mode (bootconfig_clear b)"
  by (simp add: bootconfig_is_debug_mode_def bootconfig_clear_def)

lemma bootconfig_set_package2_flags:
  "length (bc_signed (LOADED_BOOTCONFIG b)) = 0x100 \<Longrightarrow>
   bootconfig_is_package2_plaintext (bootconfig_set_package2_plaintext_and_unsigned b)
   \<and> bootconfig_is_package2_unsigned (bootconfig_set_package2_plaintext_and_unsigned b)"
  by (simp add: bootconfig_is_package2_plaintext_def bootconfig_is_package2_unsigned_def
      bootconfig_set_package2_plaintext_and_unsigned_def bit.conj_disj_distrib2)

end
