(* ===== verification/Master_Key.thy ===== *)
theory Master_Key
  imports Bootconfig
begin

text \<open>
  \<^verbatim>\<open>masterkey.c\<close>: which generation of the master key the console has, found by decrypting
  the chain of key vectors, and the slots that hold the current and older master and
  device keys.
\<close>

abbreviation (input) MASTERKEY_REVISION_MAX :: u32 where "MASTERKEY_REVISION_MAX \<equiv> 0xA"
abbreviation (input) MASTERKEY_REVISION_300 :: u32 where "MASTERKEY_REVISION_300 \<equiv> 1"
abbreviation (input) MASTERKEY_REVISION_400_410 :: u32 where "MASTERKEY_REVISION_400_410 \<equiv> 3"
abbreviation (input) MASTERKEY_NUM_NEW_DEVICE_KEYS :: nat where "MASTERKEY_NUM_NEW_DEVICE_KEYS \<equiv> 7"

record mkey_state =
  g_mkey_revision :: u32
  g_determined_mkey_revision :: bool
  g_old_masterkeys :: "bytes list"    \<comment> \<open>\<^verbatim>\<open>MASTERKEY_REVISION_MAX\<close> keys\<close>
  g_old_devicekeys :: "bytes list"    \<comment> \<open>\<^verbatim>\<open>MASTERKEY_NUM_NEW_DEVICE_KEYS - 1\<close> keys\<close>

definition mkey_init :: mkey_state where
  "mkey_init = \<lparr>g_mkey_revision = 0, g_determined_mkey_revision = False,
     g_old_masterkeys = replicate 0xA (replicate 0x10 0),
     g_old_devicekeys = replicate (MASTERKEY_NUM_NEW_DEVICE_KEYS - 1) (replicate 0x10 0)\<rparr>"

definition mkey_vectors_dev :: "bytes list" where
  "mkey_vectors_dev =
    [[0x46, 0x22, 0xB4, 0x51, 0x9A, 0x7E, 0xA7, 0x7F, 0x62, 0xA1, 0x1F, 0x8F, 0xC5, 0x3A, 0xDB, 0xFE],
     [0x39, 0x33, 0xF9, 0x31, 0xBA, 0xE4, 0xA7, 0x21, 0x2C, 0xDD, 0xB7, 0xD8, 0xB4, 0x4E, 0x37, 0x23],
     [0x97, 0x29, 0xB0, 0x32, 0x43, 0x14, 0x8C, 0xA6, 0x85, 0xE9, 0x5A, 0x94, 0x99, 0x39, 0xAC, 0x5D],
     [0x2C, 0xCA, 0x9C, 0x31, 0x1E, 0x07, 0xB0, 0x02, 0x97, 0x0A, 0xD8, 0x03, 0xA2, 0x76, 0x3F, 0xA3],
     [0x9B, 0x84, 0x76, 0x14, 0x72, 0x94, 0x52, 0xCB, 0x54, 0x92, 0x9B, 0xC4, 0x8C, 0x5B, 0x0F, 0xBA],
     [0x78, 0xD5, 0xF1, 0x20, 0x3D, 0x16, 0xE9, 0x30, 0x32, 0x27, 0x34, 0x6F, 0xCF, 0xE0, 0x27, 0xDC],
     [0x6F, 0xD2, 0x84, 0x1D, 0x05, 0xEC, 0x40, 0x94, 0x5F, 0x18, 0xB3, 0x81, 0x09, 0x98, 0x8D, 0x4E],
     [0x37, 0xAF, 0xAB, 0x35, 0x79, 0x09, 0xD9, 0x48, 0x29, 0xD2, 0xDB, 0xA5, 0xA5, 0xF5, 0x30, 0x19],
     [0x00, 0x00, 0x00, 0x00, 0x00, 0x00, 0x00, 0x00, 0x00, 0x00, 0x00, 0x00, 0x00, 0x00, 0x00, 0x00],
     [0x00, 0x00, 0x00, 0x00, 0x00, 0x00, 0x00, 0x00, 0x00, 0x00, 0x00, 0x00, 0x00, 0x00, 0x00, 0x00]]"

definition mkey_vectors :: "bytes list" where
  "mkey_vectors =
    [[0x0C, 0xF0, 0x59, 0xAC, 0x85, 0xF6, 0x26, 0x65, 0xE1, 0xE9, 0x19, 0x55, 0xE6, 0xF2, 0x67, 0x3D],
     [0x29, 0x4C, 0x04, 0xC8, 0xEB, 0x10, 0xED, 0x9D, 0x51, 0x64, 0x97, 0xFB, 0xF3, 0x4D, 0x50, 0xDD],
     [0xDE, 0xCF, 0xEB, 0xEB, 0x10, 0xAE, 0x74, 0xD8, 0xAD, 0x7C, 0xF4, 0x9E, 0x62, 0xE0, 0xE8, 0x72],
     [0x0A, 0x0D, 0xDF, 0x34, 0x22, 0x06, 0x6C, 0xA4, 0xE6, 0xB1, 0xEC, 0x71, 0x85, 0xCA, 0x4E, 0x07],
     [0x6E, 0x7D, 0x2D, 0xC3, 0x0F, 0x59, 0xC8, 0xFA, 0x87, 0xA8, 0x2E, 0xD5, 0x89, 0x5E, 0xF3, 0xE9],
     [0xEB, 0xF5, 0x6F, 0x83, 0x61, 0x9E, 0xF8, 0xFA, 0xE0, 0x87, 0xD7, 0xA1, 0x4E, 0x25, 0x36, 0xEE],
     [0x1E, 0x1E, 0x22, 0xC0, 0x5A, 0x33, 0x3C, 0xB9, 0x0B, 0xA9, 0x03, 0x04, 0xBA, 0xDB, 0x07, 0x57],
     [0xA4, 0xD4, 0x52, 0x6F, 0xD1, 0xE4, 0x36, 0xAA, 0x9F, 0xCB, 0x61, 0x27, 0x1C, 0x67, 0x65, 0x1F],
     [0xEA, 0x60, 0xB3, 0xEA, 0xCE, 0x8F, 0x24, 0x46, 0x7D, 0x33, 0x9C, 0xD1, 0xBC, 0x24, 0x98, 0x29],
     [0x4D, 0xD9, 0x98, 0x42, 0x45, 0x0D, 0xB1, 0x3C, 0x52, 0x0C, 0x9A, 0x44, 0xBB, 0xAD, 0xAF, 0x80]]"

text \<open>One step down the chain: decrypt the key of generation \<open>i - 1\<close> and load it.\<close>

definition mkey_chain_step ::
  "se_engine \<Rightarrow> bool \<Rightarrow> nat \<Rightarrow> u32 \<times> mkey_state \<times> se_state \<Rightarrow> (u32 \<times> mkey_state \<times> se_state) res"
where
  "mkey_chain_step eng is_retail i st =
     (let (check_keyslot, mk, se) = st in
      bindR (se_aes_ecb_decrypt_block eng check_keyslot (g_old_masterkeys mk ! (i - 1)) 0x10
               (if is_retail then mkey_vectors ! i else mkey_vectors_dev ! i) 0x10 se) (\<lambda>(key, se).
      let mk = mk\<lparr>g_old_masterkeys := (g_old_masterkeys mk)[i - 1 := key]\<rparr>
      in bindR (set_aes_keyslot KEYSLOT_SWITCH_TEMPKEY key 0x10 se) (\<lambda>se.
         Ok (KEYSLOT_SWITCH_TEMPKEY, mk, se))))"

definition check_mkey_revision ::
  "se_engine \<Rightarrow> nat \<Rightarrow> bool \<Rightarrow> mkey_state \<times> se_state \<Rightarrow> (bool \<times> mkey_state \<times> se_state) res"
where
  "check_mkey_revision eng revision is_retail st =
     (let (mk, se) = st in
      bindR (foldR (mkey_chain_step eng is_retail) (rev [1..<Suc revision]) (KEYSLOT_SWITCH_MASTERKEY, mk, se))
        (\<lambda>(check_keyslot, mk, se).
      bindR (se_aes_ecb_decrypt_block eng check_keyslot (replicate 0x10 0) 0x10 (mkey_vectors ! 0) 0x10 se)
        (\<lambda>(final_vector, se).
      if (\<exists>i \<in> set [0..<0x10]. final_vector ! i \<noteq> 0) then Ok (False, mk, se) else Ok (True, mk, se))))"

fun mkey_detect_loop ::
  "se_engine \<Rightarrow> bool \<Rightarrow> nat list \<Rightarrow> mkey_state \<times> se_state \<Rightarrow> (mkey_state \<times> se_state) res"
where
  "mkey_detect_loop eng is_retail [] st = Ok st"
| "mkey_detect_loop eng is_retail (r # revs) st =
     bindR (check_mkey_revision eng r is_retail st) (\<lambda>(found, mk, se).
     if found then Ok (mk\<lparr>g_determined_mkey_revision := True, g_mkey_revision := of_nat r\<rparr>, se)
     else mkey_detect_loop eng is_retail revs (mk, se))"

definition mkey_detect_revision ::
  "se_engine \<Rightarrow> bool res \<Rightarrow> mkey_state \<Rightarrow> se_state \<Rightarrow> (mkey_state \<times> se_state) res"
where
  "mkey_detect_revision eng is_retail mk se =
     bindR (panic_if (g_determined_mkey_revision mk)) (\<lambda>_.
     bindR is_retail (\<lambda>retail.
     bindR (mkey_detect_loop eng retail [0..<0xA] (mk, se)) (\<lambda>(mk, se).
     if \<not> g_determined_mkey_revision mk then Panic 0x00F00060 else Ok (mk, se))))"

definition mkey_get_revision :: "mkey_state \<Rightarrow> u32 res" where
  "mkey_get_revision mk =
     bindR (panic_if (\<not> g_determined_mkey_revision mk)) (\<lambda>_. Ok (g_mkey_revision mk))"

definition mkey_get_keyslot :: "u32 \<Rightarrow> mkey_state \<Rightarrow> se_state \<Rightarrow> (u32 \<times> se_state) res" where
  "mkey_get_keyslot revision mk se =
     bindR (panic_if (\<not> g_determined_mkey_revision mk \<or> revision \<ge> MASTERKEY_REVISION_MAX)) (\<lambda>_.
     bindR (panic_if (revision > g_mkey_revision mk)) (\<lambda>_.
     if revision = g_mkey_revision mk then Ok (KEYSLOT_SWITCH_MASTERKEY, se)
     else bindR (set_aes_keyslot KEYSLOT_SWITCH_TEMPKEY (g_old_masterkeys mk ! unat revision) 0x10 se) (\<lambda>se.
          Ok (KEYSLOT_SWITCH_TEMPKEY, se))))"

text \<open>A copy to an index beyond the last of the six old device keys leaves the array.\<close>

definition set_old_devkey :: "u32 \<Rightarrow> bytes \<Rightarrow> mkey_state \<Rightarrow> mkey_state res" where
  "set_old_devkey revision key mk =
     bindR (panic_if (revision < MASTERKEY_REVISION_400_410 \<or> MASTERKEY_REVISION_MAX \<le> revision)) (\<lambda>_.
     let i = unat (revision - MASTERKEY_REVISION_400_410)
     in if i < length (g_old_devicekeys mk)
        then Ok (mk\<lparr>g_old_devicekeys := (g_old_devicekeys mk)[i := take 0x10 key]\<rparr>)
        else Undef)"

definition devkey_get_keyslot :: "u32 \<Rightarrow> mkey_state \<Rightarrow> se_state \<Rightarrow> (u32 \<times> se_state) res" where
  "devkey_get_keyslot revision mk se =
     bindR (panic_if (\<not> g_determined_mkey_revision mk \<or> revision > g_mkey_revision mk)) (\<lambda>_.
     if revision < MASTERKEY_REVISION_400_410 then Ok (KEYSLOT_SWITCH_4XOLDDEVICEKEY, se)
     else if revision < g_mkey_revision mk
     then let i = unat (revision - MASTERKEY_REVISION_400_410)
          in if i < length (g_old_devicekeys mk)
             then bindR (set_aes_keyslot KEYSLOT_SWITCH_TEMPKEY (g_old_devicekeys mk ! i) 0x10 se) (\<lambda>se.
                  Ok (KEYSLOT_SWITCH_TEMPKEY, se))
             else Undef
     else Ok (KEYSLOT_SWITCH_DEVICEKEY, se))"

section \<open>Invariant\<close>

definition mkey_wf :: "mkey_state \<Rightarrow> bool" where
  "mkey_wf mk \<longleftrightarrow> length (g_old_masterkeys mk) = 10 \<and> (\<forall>k \<in> set (g_old_masterkeys mk). length k = 16)
     \<and> length (g_old_devicekeys mk) = 6 \<and> (\<forall>k \<in> set (g_old_devicekeys mk). length k = 16)
     \<and> g_mkey_revision mk < 10"

lemma mkey_wf_init: "mkey_wf mkey_init"
  by (simp add: mkey_wf_def mkey_init_def)

lemma mkey_wf_old_key: "mkey_wf mk \<Longrightarrow> i < 10 \<Longrightarrow> length (g_old_masterkeys mk ! i) = 16"
  by (simp add: mkey_wf_def)

lemma mkey_wf_old_devkey: "mkey_wf mk \<Longrightarrow> i < 6 \<Longrightarrow> length (g_old_devicekeys mk ! i) = 16"
  by (simp add: mkey_wf_def)

lemma mkey_wf_store: "mkey_wf mk \<Longrightarrow> length k = 16 \<Longrightarrow> mkey_wf (mk\<lparr>g_old_masterkeys := (g_old_masterkeys mk)[i := k]\<rparr>)"
  by (auto simp: mkey_wf_def dest!: set_update_subset_insert [THEN subsetD])

lemma vectors_wf:
  "length mkey_vectors = 10" "length mkey_vectors_dev = 10"
  "i < 10 \<Longrightarrow> length (mkey_vectors ! i) = 16" "i < 10 \<Longrightarrow> length (mkey_vectors_dev ! i) = 16"
proof -
  have "\<forall>v \<in> set mkey_vectors. length v = 16" "\<forall>v \<in> set mkey_vectors_dev. length v = 16"
    by (simp_all add: mkey_vectors_def mkey_vectors_dev_def)
  moreover show "length mkey_vectors = 10" "length mkey_vectors_dev = 10"
    by (simp_all add: mkey_vectors_def mkey_vectors_dev_def)
  ultimately show "i < 10 \<Longrightarrow> length (mkey_vectors ! i) = 16" "i < 10 \<Longrightarrow> length (mkey_vectors_dev ! i) = 16"
    by simp_all
qed

text \<open>Setting a device key stays inside the array for every revision below the newest.\<close>

lemma set_old_devkey_wf:
  assumes "mkey_wf mk" "length key = 16" "3 \<le> revision" "revision < 9"
  shows "\<exists>mk'. set_old_devkey revision key mk = Ok mk' \<and> mkey_wf mk'"
proof -
  have "unat (revision - 3) < 6" using assms(3,4) by (simp add: unat_sub word_le_nat_alt word_less_nat_alt)
  moreover have "\<not> (revision < 3 \<or> 10 \<le> revision)" using assms(3,4) by (simp add: word_le_nat_alt word_less_nat_alt)
  ultimately show ?thesis
    using assms(1,2) by (auto simp: set_old_devkey_def bindR_panic_if Let_def mkey_wf_def
        dest!: set_update_subset_insert [THEN subsetD])
qed

lemma set_old_devkey_newest: "mkey_wf mk \<Longrightarrow> set_old_devkey 9 key mk = Undef"
  by (simp add: set_old_devkey_def mkey_wf_def)

section \<open>The key chain\<close>

text \<open>
  \<open>chain_key P V r K d\<close> is the master key \<open>d\<close> generations below generation \<open>r\<close>, whose key
  is \<open>K\<close>, according to the vectors \<open>V\<close>; \<open>is_generation\<close> says that the chain ends in the
  known vector of generation 0.
\<close>

fun chain_key :: "se_prims \<Rightarrow> bytes list \<Rightarrow> nat \<Rightarrow> bytes \<Rightarrow> nat \<Rightarrow> bytes" where
  "chain_key P V r K 0 = K"
| "chain_key P V r K (Suc d) = aes_dec P (chain_key P V r K d) (V ! (r - d))"

definition vectors_for :: "bool \<Rightarrow> bytes list" where
  "vectors_for is_retail = (if is_retail then mkey_vectors else mkey_vectors_dev)"

definition is_generation :: "se_prims \<Rightarrow> bool \<Rightarrow> bytes \<Rightarrow> nat \<Rightarrow> bool" where
  "is_generation P is_retail K r \<longleftrightarrow>
     aes_dec P (chain_key P (vectors_for is_retail) r K r) (mkey_vectors ! 0) = replicate 16 0"

lemma length_vectors_for: "i < 10 \<Longrightarrow> length (vectors_for b ! i) = 16"
  by (simp add: vectors_for_def vectors_wf)

lemma chain_step_ok:
  assumes ok: "se_engine_ok P eng" and wf: "mkey_wf mk" and ks: "ks < 16" and i: "0 < i" "i < 10"
  shows "\<exists>se'. mkey_chain_step eng b i (ks, mk, se) =
     Ok (9, mk\<lparr>g_old_masterkeys := (g_old_masterkeys mk)[i - 1 := aes_dec P (aes_key se ks) (vectors_for b ! i)]\<rparr>, se')
     \<and> se_keep se se' \<and> aes_key se' = (aes_key se)(9 := aes_dec P (aes_key se ks) (vectors_for b ! i))"
proof -
  let ?v = "vectors_for b ! i" and ?dst = "g_old_masterkeys mk ! (i - 1)"
  have v: "(if b then mkey_vectors ! i else mkey_vectors_dev ! i) = ?v" by (simp add: vectors_for_def)
  have "length ?dst = 16" using mkey_wf_old_key [OF wf] i by simp
  then obtain s1 where s1: "se_aes_ecb_decrypt_block eng ks ?dst 16 ?v 16 se = Ok (aes_dec P (aes_key se ks) ?v, s1)"
      "se_core s1 = se_core se"
    using ecb_decrypt_ok [OF ok ks length_vectors_for [OF i(2)]] by blast
  obtain s2 where s2: "set_aes_keyslot 9 (aes_dec P (aes_key se ks) ?v) 16 s1 = Ok s2" "se_keep s1 s2"
      "aes_key s2 = (aes_key s1)(9 := aes_dec P (aes_key se ks) ?v)"
    using set_aes_keyslot_ok [of 9 "aes_dec P (aes_key se ks) ?v" s1]
      aes_lengths(2) [OF ok length_vectors_for [OF i(2)]] by auto
  have "se_keep se s2" using se_keep_trans [OF se_keep_core [OF s1(2)] s2(2)] .
  then show ?thesis
    using s1(1) s2 aes_key_core_eq [OF s1(2)] by (simp add: mkey_chain_step_def v)
qed

lemma chain_fold_ok:
  fixes se :: se_state
  assumes ok: "se_engine_ok P eng" and wf: "mkey_wf mk" and r: "r < 10" and m: "m \<le> r"
  defines "K \<equiv> aes_key se 0xC"
  shows "\<exists>mk' se'. foldR (mkey_chain_step eng b) (rev [Suc (r - m)..<Suc r]) (0xC, mk, se) =
       Ok (if m = 0 then 0xC else 9, mk', se')
     \<and> mkey_wf mk' \<and> g_determined_mkey_revision mk' = g_determined_mkey_revision mk
     \<and> (\<forall>j. r - m \<le> j \<and> j < r \<longrightarrow> g_old_masterkeys mk' ! j = chain_key P (vectors_for b) r K (r - j))
     \<and> se_keep se se' \<and> (\<forall>k. k \<noteq> 9 \<longrightarrow> aes_key se' k = aes_key se k)
     \<and> aes_key se' (if m = 0 then 0xC else 9) = chain_key P (vectors_for b) r K m"
  using m
proof (induction m)
  case 0
  then show ?case using wf by (auto simp: K_def)
next
  case (Suc m)
  let ?ks = "if m = 0 then 0xC else 9 :: u32" and ?C = "chain_key P (vectors_for b) r K"
  obtain mk1 se1 where IH: "foldR (mkey_chain_step eng b) (rev [Suc (r - m)..<Suc r]) (0xC, mk, se) = Ok (?ks, mk1, se1)"
      "mkey_wf mk1" "g_determined_mkey_revision mk1 = g_determined_mkey_revision mk"
      "\<forall>j. r - m \<le> j \<and> j < r \<longrightarrow> g_old_masterkeys mk1 ! j = ?C (r - j)"
      "se_keep se se1" "\<forall>k. k \<noteq> 9 \<longrightarrow> aes_key se1 k = aes_key se k" "aes_key se1 ?ks = ?C m"
    using Suc by auto
  have split: "rev [Suc (r - Suc m)..<Suc r] = rev [Suc (r - m)..<Suc r] @ [r - m]"
  proof -
    have "Suc (r - Suc m) = r - m" using Suc.prems by simp
    moreover have "[r - m..<Suc r] = (r - m) # [Suc (r - m)..<Suc r]" by (rule upt_conv_Cons) simp
    ultimately show ?thesis by (simp only: rev.simps)
  qed
  have i: "0 < r - m" "r - m < 10" and ks: "?ks < 16" using Suc.prems r by auto
  obtain se2 where s2: "mkey_chain_step eng b (r - m) (?ks, mk1, se1) =
       Ok (9, mk1\<lparr>g_old_masterkeys := (g_old_masterkeys mk1)[r - m - 1 := ?C (Suc m)]\<rparr>, se2)"
      "se_keep se1 se2" "aes_key se2 = (aes_key se1)(9 := ?C (Suc m))"
    using chain_step_ok [OF ok IH(2) ks i, of b se1] IH(7) by auto
  let ?mk2 = "mk1\<lparr>g_old_masterkeys := (g_old_masterkeys mk1)[r - m - 1 := ?C (Suc m)]\<rparr>"
  have len: "length (?C (Suc m)) = 16"
    using aes_lengths(2) [OF ok] length_vectors_for [OF i(2)] by simp
  have "length (g_old_masterkeys mk1) = 10" using IH(2) by (simp add: mkey_wf_def)
  moreover have "r - (r - m - 1) = Suc m" using Suc.prems by simp
  ultimately have old: "\<forall>j. r - Suc m \<le> j \<and> j < r \<longrightarrow> g_old_masterkeys ?mk2 ! j = ?C (r - j)"
    using IH(4) i r by (auto simp: nth_list_update simp del: chain_key.simps)
  have "mkey_wf ?mk2" using mkey_wf_store [OF IH(2) len] .
  moreover have "se_keep se se2" using IH(5) s2(2) se_keep_trans by blast
  ultimately show ?case
    using IH s2 old by (simp only: split foldR_append) (simp del: chain_key.simps)
qed

lemma check_mkey_revision_ok:
  fixes se :: se_state
  assumes ok: "se_engine_ok P eng" and wf: "mkey_wf mk" and r: "r < 10"
  defines "K \<equiv> aes_key se 0xC"
  shows "\<exists>mk' se'. check_mkey_revision eng r b (mk, se) = Ok (is_generation P b K r, mk', se')
     \<and> mkey_wf mk' \<and> g_determined_mkey_revision mk' = g_determined_mkey_revision mk
     \<and> (\<forall>j < r. g_old_masterkeys mk' ! j = chain_key P (vectors_for b) r K (r - j))
     \<and> se_keep se se' \<and> (\<forall>k. k \<noteq> 9 \<longrightarrow> aes_key se' k = aes_key se k)"
proof -
  let ?ks = "if r = 0 then 0xC else 9 :: u32"
  obtain mk1 se1 where f: "foldR (mkey_chain_step eng b) (rev [1..<Suc r]) (0xC, mk, se) = Ok (?ks, mk1, se1)"
      "mkey_wf mk1" "g_determined_mkey_revision mk1 = g_determined_mkey_revision mk"
      "\<forall>j < r. g_old_masterkeys mk1 ! j = chain_key P (vectors_for b) r K (r - j)"
      "se_keep se se1" "\<forall>k. k \<noteq> 9 \<longrightarrow> aes_key se1 k = aes_key se k"
      "aes_key se1 ?ks = chain_key P (vectors_for b) r K r"
    using chain_fold_ok [OF ok wf r order_refl, of b se] by (auto simp: K_def)
  have ks: "?ks < 16" by simp
  have "length (mkey_vectors ! 0) = 16" by (simp add: vectors_wf)
  then obtain se2 where s2: "se_aes_ecb_decrypt_block eng ?ks (replicate 16 0) 16 (mkey_vectors ! 0) 16 se1 =
       Ok (aes_dec P (chain_key P (vectors_for b) r K r) (mkey_vectors ! 0), se2)" "se_core se2 = se_core se1"
    using ecb_decrypt_ok [OF ok ks, of "mkey_vectors ! 0" "replicate 16 0" se1] f(7) by auto
  let ?v = "aes_dec P (chain_key P (vectors_for b) r K r) (mkey_vectors ! 0)"
  have "length ?v = 16" using aes_lengths(2) [OF ok] vectors_wf(3) by simp
  then have "(\<exists>i \<in> set [0..<16]. ?v ! i \<noteq> 0) \<longleftrightarrow> \<not> is_generation P b K r"
    unfolding is_generation_def by (auto simp: list_eq_iff_nth_eq)
  moreover have "se_keep se se2" using f(5) se_keep_core [OF s2(2)] se_keep_trans by blast
  ultimately show ?thesis
    using f s2 aes_key_core_eq [OF s2(2)] unfolding check_mkey_revision_def Let_def prod.case by simp
qed

lemma detect_loop_ok:
  assumes ok: "se_engine_ok P eng"
  shows "\<lbrakk>mkey_wf mk; \<not> g_determined_mkey_revision mk; \<forall>r \<in> set revs. r < 10; aes_key se 0xC = K\<rbrakk> \<Longrightarrow>
     \<exists>mk' se'. mkey_detect_loop eng b revs (mk, se) = Ok (mk', se') \<and> mkey_wf mk' \<and> se_keep se se'
       \<and> (\<forall>k. k \<noteq> 9 \<longrightarrow> aes_key se' k = aes_key se k)
       \<and> (case filter (is_generation P b K) revs of
            [] \<Rightarrow> \<not> g_determined_mkey_revision mk'
          | r # _ \<Rightarrow> g_determined_mkey_revision mk' \<and> g_mkey_revision mk' = of_nat r
              \<and> (\<forall>j < r. g_old_masterkeys mk' ! j = chain_key P (vectors_for b) r K (r - j)))"
proof (induction revs arbitrary: mk se)
  case Nil
  then show ?case by auto
next
  case (Cons r revs)
  obtain mk1 se1 where c: "check_mkey_revision eng r b (mk, se) = Ok (is_generation P b K r, mk1, se1)"
      "mkey_wf mk1" "g_determined_mkey_revision mk1 = g_determined_mkey_revision mk"
      "\<forall>j < r. g_old_masterkeys mk1 ! j = chain_key P (vectors_for b) r K (r - j)"
      "se_keep se se1" "\<forall>k. k \<noteq> 9 \<longrightarrow> aes_key se1 k = aes_key se k"
    using check_mkey_revision_ok [OF ok Cons.prems(1), of r b se] Cons.prems by auto
  show ?case
  proof (cases "is_generation P b K r")
    case True
    have "of_nat r < (10 :: u32)" using Cons.prems(3) by (simp add: word_less_nat_alt unat_of_nat_small)
    then show ?thesis using True c by (simp add: mkey_wf_def)
  next
    case False
    have "aes_key se1 0xC = K" using c(6) Cons.prems(4) by simp
    then obtain mk2 se2 where "mkey_detect_loop eng b revs (mk1, se1) = Ok (mk2, se2)" "mkey_wf mk2" "se_keep se1 se2"
        "\<forall>k. k \<noteq> 9 \<longrightarrow> aes_key se2 k = aes_key se1 k"
        "case filter (is_generation P b K) revs of [] \<Rightarrow> \<not> g_determined_mkey_revision mk2
          | r # _ \<Rightarrow> g_determined_mkey_revision mk2 \<and> g_mkey_revision mk2 = of_nat r
              \<and> (\<forall>j < r. g_old_masterkeys mk2 ! j = chain_key P (vectors_for b) r K (r - j))"
      using Cons.IH [of mk1 se1] c Cons.prems by auto
    then show ?thesis using False c se_keep_trans by auto
  qed
qed

text \<open>
  What a determined state promises: the revision is the first generation whose chain
  checks out, and every older key is the one on the chain.
\<close>

definition mkey_consistent :: "se_prims \<Rightarrow> bool \<Rightarrow> mkey_state \<Rightarrow> se_state \<Rightarrow> bool" where
  "mkey_consistent P b mk se \<longleftrightarrow> mkey_wf mk \<and> g_determined_mkey_revision mk
     \<and> is_generation P b (aes_key se 0xC) (unat (g_mkey_revision mk))
     \<and> (\<forall>r < unat (g_mkey_revision mk). \<not> is_generation P b (aes_key se 0xC) r)
     \<and> (\<forall>j < unat (g_mkey_revision mk). g_old_masterkeys mk ! j =
          chain_key P (vectors_for b) (unat (g_mkey_revision mk)) (aes_key se 0xC) (unat (g_mkey_revision mk) - j))"

lemma first_in_filter:
  assumes "filter Q [0..<n] = r # rest"
  shows "Q r" "r < n" "\<forall>j < r. \<not> Q j"
proof -
  have m: "r \<in> set (filter Q [0..<n])" using assms by simp
  then show "Q r" "r < n" by auto
  have "sorted (filter Q [0..<n])" by (simp add: sorted_wrt_filter)
  then have "\<forall>x \<in> set rest. r \<le> x" using assms by simp
  then have "\<forall>x \<in> set (filter Q [0..<n]). r \<le> x" using assms by simp
  then show "\<forall>j < r. \<not> Q j" using \<open>r < n\<close> by (fastforce simp: not_less [symmetric])
qed

lemma mkey_detect_revision_ok:
  fixes se :: se_state
  assumes ok: "se_engine_ok P eng" and wf: "mkey_wf mk" and un: "\<not> g_determined_mkey_revision mk"
  defines "K \<equiv> aes_key se 0xC"
  shows "if \<exists>r < 10. is_generation P b K r
     then \<exists>mk' se'. mkey_detect_revision eng (Ok b) mk se = Ok (mk', se') \<and> mkey_consistent P b mk' se'
            \<and> se_keep se se' \<and> (\<forall>k. k \<noteq> 9 \<longrightarrow> aes_key se' k = aes_key se k)
     else mkey_detect_revision eng (Ok b) mk se = Panic 0x00F00060"
proof -
  obtain mk' se' where d: "mkey_detect_loop eng b [0..<10] (mk, se) = Ok (mk', se')" "mkey_wf mk'" "se_keep se se'"
      "\<forall>k. k \<noteq> 9 \<longrightarrow> aes_key se' k = aes_key se k"
      "case filter (is_generation P b K) [0..<10] of
            [] \<Rightarrow> \<not> g_determined_mkey_revision mk'
          | r # _ \<Rightarrow> g_determined_mkey_revision mk' \<and> g_mkey_revision mk' = of_nat r
              \<and> (\<forall>j < r. g_old_masterkeys mk' ! j = chain_key P (vectors_for b) r K (r - j))"
    using detect_loop_ok [OF ok wf un, of "[0..<10]" se K b] by (auto simp: K_def)
  have K': "aes_key se' 0xC = K" using d(4) by (simp add: K_def)
  show ?thesis
  proof (cases "filter (is_generation P b K) [0..<10]")
    case Nil
    then have "\<not> (\<exists>r < 10. is_generation P b K r)" by (auto simp: filter_empty_conv)
    then show ?thesis using Nil d un by (simp add: mkey_detect_revision_def)
  next
    case (Cons r rest)
    note first = first_in_filter [OF Cons]
    have "unat (of_nat r :: u32) = r" using first(2) by (simp add: unat_of_nat_small)
    then have "mkey_consistent P b mk' se'" using Cons d(2,5) first K' by (simp add: mkey_consistent_def)
    then show ?thesis using Cons d un first(1,2) by (auto simp: mkey_detect_revision_def)
  qed
qed

lemma mkey_get_keyslot_ok:
  assumes "mkey_consistent P b mk se" "revision \<le> g_mkey_revision mk"
  shows "\<exists>ks se'. mkey_get_keyslot revision mk se = Ok (ks, se') \<and> ks \<in> {0xC, 9} \<and> se_keep se se'
     \<and> (\<forall>k. k \<noteq> 9 \<longrightarrow> aes_key se' k = aes_key se k)
     \<and> aes_key se' ks = chain_key P (vectors_for b) (unat (g_mkey_revision mk)) (aes_key se 0xC)
                          (unat (g_mkey_revision mk) - unat revision)"
proof -
  have wf: "mkey_wf mk" "g_determined_mkey_revision mk" using assms(1) by (auto simp: mkey_consistent_def)
  have lt: "revision < 10" using wf(1) assms(2) by (auto simp: mkey_wf_def)
  then have le: "\<not> 10 \<le> revision" "\<not> g_mkey_revision mk < revision" using assms(2) by auto
  show ?thesis
  proof (cases "revision = g_mkey_revision mk")
    case True
    then show ?thesis using wf le by (simp add: mkey_get_keyslot_def)
  next
    case False
    then have "revision < g_mkey_revision mk" using assms(2) by simp
    moreover from this have "unat revision < unat (g_mkey_revision mk)" by (simp add: word_less_nat_alt)
    moreover have "unat revision < 10" using lt by (simp add: word_less_nat_alt)
    then obtain se' where "set_aes_keyslot 9 (g_old_masterkeys mk ! unat revision) 16 se = Ok se'" "se_keep se se'"
        "aes_key se' = (aes_key se)(9 := g_old_masterkeys mk ! unat revision)"
      using set_aes_keyslot_ok [of 9 "g_old_masterkeys mk ! unat revision" se] mkey_wf_old_key [OF wf(1)] by auto
    ultimately show ?thesis
      using assms(1) wf le False by (simp add: mkey_get_keyslot_def mkey_consistent_def)
  qed
qed

lemma mkey_get_keyslot_rejects:
  "\<lbrakk>\<not> g_determined_mkey_revision mk \<or> g_mkey_revision mk < revision\<rbrakk> \<Longrightarrow>
   mkey_get_keyslot revision mk se = generic_panic"
  by (auto simp: mkey_get_keyslot_def bindR_panic_if)

end
