(* ===== verification/Sealed_Keys.thy ===== *)
theory Sealed_Keys
  imports SE_Facts
begin

text \<open>
  \<^verbatim>\<open>sealedkeys.c\<close>: keys leave the monitor only sealed, that is encrypted under a key that
  is derived from the session key and a constant for the use of the key. The operations
  are the model of the code; the lemmas show, through the key store interface, that
  unsealing what was sealed for the same use loads the key, and which slots change.
\<close>

section \<open>Use cases and seal key sources\<close>

abbreviation (input) CRYPTOUSECASE_AES :: u32 where "CRYPTOUSECASE_AES \<equiv> 0"
abbreviation (input) CRYPTOUSECASE_RSAPRIVATE :: u32 where "CRYPTOUSECASE_RSAPRIVATE \<equiv> 1"
abbreviation (input) CRYPTOUSECASE_SECUREEXPMOD :: u32 where "CRYPTOUSECASE_SECUREEXPMOD \<equiv> 2"
abbreviation (input) CRYPTOUSECASE_RSAOAEP :: u32 where "CRYPTOUSECASE_RSAOAEP \<equiv> 3"
abbreviation (input) CRYPTOUSECASE_MAX :: u32 where "CRYPTOUSECASE_MAX \<equiv> 4"
abbreviation (input) CRYPTOUSECASE_RSAIMPORT :: u32 where "CRYPTOUSECASE_RSAIMPORT \<equiv> 4"
abbreviation (input) CRYPTOUSECASE_UNK5 :: u32 where "CRYPTOUSECASE_UNK5 \<equiv> 5"
abbreviation (input) CRYPTOUSECASE_UNK6 :: u32 where "CRYPTOUSECASE_UNK6 \<equiv> 6"
abbreviation (input) CRYPTOUSECASE_MAX_5X :: u32 where "CRYPTOUSECASE_MAX_5X \<equiv> 7"

definition g_titlekey_seal_key_source :: bytes where
  "g_titlekey_seal_key_source =
     [0xCB, 0xB7, 0x6E, 0x38, 0xA1, 0xCB, 0x77, 0x0F, 0xB2, 0xA5, 0xB2, 0x9D, 0xD8, 0x56, 0x9F, 0x76]"

definition g_seal_key_sources :: "bytes list" where
  "g_seal_key_sources =
    [[0xF4, 0x0C, 0x16, 0x26, 0x0D, 0x46, 0x3B, 0xE0, 0x8C, 0x6A, 0x56, 0xE5, 0x82, 0xD4, 0x1B, 0xF6],
     [0x7F, 0x54, 0x2C, 0x98, 0x1E, 0x54, 0x18, 0x3B, 0xBA, 0x63, 0xBD, 0x4C, 0x13, 0x5B, 0xF1, 0x06],
     [0xC7, 0x3F, 0x73, 0x60, 0xB7, 0xB9, 0x9D, 0x74, 0x0A, 0xF8, 0x35, 0x60, 0x1A, 0x18, 0x74, 0x63],
     [0x0E, 0xE0, 0xC4, 0x33, 0x82, 0x66, 0xE8, 0x08, 0x39, 0x13, 0x41, 0x7D, 0x04, 0x64, 0x2B, 0x6D],
     [0xE1, 0xA8, 0xAA, 0x6A, 0x2D, 0x9C, 0xDE, 0x43, 0x0C, 0xDE, 0xC6, 0x17, 0xF6, 0xC7, 0xF1, 0xDE],
     [0x74, 0x20, 0xF6, 0x46, 0x77, 0xB0, 0x59, 0x2C, 0xE8, 0x1B, 0x58, 0x64, 0x47, 0x41, 0x37, 0xD9],
     [0xAA, 0x19, 0x0F, 0xFA, 0x4C, 0x30, 0x3B, 0x2E, 0xE6, 0xD8, 0x9A, 0xCF, 0xE5, 0x3F, 0xB3, 0x4B]]"

section \<open>Operations\<close>

definition usecase_is_invalid :: "exocfg \<Rightarrow> u32 \<Rightarrow> bool res" where
  "usecase_is_invalid c usecase =
     bindR (exosphere_get_target_firmware c) (\<lambda>fw.
     if fw \<ge> FW_500 then Ok (usecase \<ge> CRYPTOUSECASE_MAX_5X)
     else Ok (usecase \<ge> CRYPTOUSECASE_MAX))"

definition seal_key_internal ::
  "se_engine \<Rightarrow> bytes \<Rightarrow> bytes \<Rightarrow> bytes \<Rightarrow> se_state \<Rightarrow> (bytes \<times> se_state) res"
where
  "seal_key_internal eng dst src seal_key_source se =
     bindR (decrypt_data_into_keyslot eng KEYSLOT_SWITCH_TEMPKEY KEYSLOT_SWITCH_SESSIONKEY
              seal_key_source 0x10 se) (\<lambda>se.
     se_aes_128_ecb_encrypt_block eng KEYSLOT_SWITCH_TEMPKEY dst 0x10 src 0x10 se)"

definition unseal_key_internal ::
  "se_engine \<Rightarrow> u32 \<Rightarrow> bytes \<Rightarrow> bytes \<Rightarrow> se_state \<Rightarrow> se_state res"
where
  "unseal_key_internal eng keyslot src seal_key_source se =
     bindR (decrypt_data_into_keyslot eng KEYSLOT_SWITCH_TEMPKEY KEYSLOT_SWITCH_SESSIONKEY
              seal_key_source 0x10 se) (\<lambda>se.
     decrypt_data_into_keyslot eng keyslot KEYSLOT_SWITCH_TEMPKEY src 0x10 se)"

definition seal_titlekey ::
  "se_engine \<Rightarrow> bytes \<Rightarrow> nat \<Rightarrow> bytes \<Rightarrow> nat \<Rightarrow> se_state \<Rightarrow> (bytes \<times> se_state) res"
where
  "seal_titlekey eng dst dst_size src src_size se =
     bindR (panic_if (dst_size \<noteq> 0x10 \<or> src_size \<noteq> 0x10)) (\<lambda>_.
     seal_key_internal eng dst src g_titlekey_seal_key_source se)"

definition unseal_titlekey :: "se_engine \<Rightarrow> u32 \<Rightarrow> bytes \<Rightarrow> nat \<Rightarrow> se_state \<Rightarrow> se_state res" where
  "unseal_titlekey eng keyslot src src_size se =
     bindR (panic_if (src_size \<noteq> 0x10)) (\<lambda>_.
     unseal_key_internal eng keyslot src g_titlekey_seal_key_source se)"

definition seal_key ::
  "exocfg \<Rightarrow> se_engine \<Rightarrow> bytes \<Rightarrow> nat \<Rightarrow> bytes \<Rightarrow> nat \<Rightarrow> u32 \<Rightarrow> se_state \<Rightarrow> (bytes \<times> se_state) res"
where
  "seal_key c eng dst dst_size src src_size usecase se =
     bindR (usecase_is_invalid c usecase) (\<lambda>invalid.
     bindR (panic_if (invalid \<or> dst_size \<noteq> 0x10 \<or> src_size \<noteq> 0x10)) (\<lambda>_.
     seal_key_internal eng dst src (g_seal_key_sources ! unat usecase) se))"

definition unseal_key ::
  "exocfg \<Rightarrow> se_engine \<Rightarrow> u32 \<Rightarrow> bytes \<Rightarrow> nat \<Rightarrow> u32 \<Rightarrow> se_state \<Rightarrow> se_state res"
where
  "unseal_key c eng keyslot src src_size usecase se =
     bindR (usecase_is_invalid c usecase) (\<lambda>invalid.
     bindR (panic_if (invalid \<or> src_size \<noteq> 0x10)) (\<lambda>_.
     unseal_key_internal eng keyslot src (g_seal_key_sources ! unat usecase) se))"

section \<open>What sealing does\<close>

text \<open>The use cases a firmware accepts.\<close>

definition usecase_limit :: "u32 \<Rightarrow> u32" where
  "usecase_limit fw = (if fw \<ge> FW_500 then CRYPTOUSECASE_MAX_5X else CRYPTOUSECASE_MAX)"

lemma usecase_is_invalid_loaded:
  "g_has_loaded_config c \<Longrightarrow> usecase_is_invalid c u = Ok (\<not> u < usecase_limit (fw_of c))"
  by (simp add: usecase_is_invalid_def usecase_limit_def not_less)

lemma usecase_limit_le: "u < usecase_limit fw \<Longrightarrow> u < 7"
  by (auto simp: usecase_limit_def split: if_splits intro: order.strict_trans)

lemma length_titlekey_seal_source [simp]: "length g_titlekey_seal_key_source = 16"
  by (simp add: g_titlekey_seal_key_source_def)

lemma length_seal_source [simp]: "u < 7 \<Longrightarrow> length (g_seal_key_sources ! unat u) = 16" for u :: u32
proof -
  assume "u < 7"
  then have "unat u < length g_seal_key_sources" by (simp add: word_less_nat_alt g_seal_key_sources_def)
  moreover have "\<forall>s \<in> set g_seal_key_sources. length s = 16" by (simp add: g_seal_key_sources_def)
  ultimately show ?thesis by simp
qed

text \<open>
  The specification: the sealed form of a key under a session key and source, and what
  unsealing a sealed key leaves in the slots.
\<close>

definition sealed_form :: "se_prims \<Rightarrow> bytes \<Rightarrow> bytes \<Rightarrow> bytes \<Rightarrow> bytes" where
  "sealed_form P session source k = aes_enc P (aes_dec P session source) k"

definition unsealed_form :: "se_prims \<Rightarrow> bytes \<Rightarrow> bytes \<Rightarrow> bytes \<Rightarrow> bytes" where
  "unsealed_form P session source s = aes_dec P (aes_dec P session source) s"

lemma seal_key_internal_ok:
  assumes "se_engine_ok P eng" "length dst = 16" "length src = 16" "length source = 16"
  shows "\<exists>se'. seal_key_internal eng dst src source se = Ok (sealed_form P (aes_key se 0xA) source src, se')
     \<and> se_keep se se' \<and> aes_key se' = (aes_key se)(9 := aes_dec P (aes_key se 0xA) source)"
  using se_keys.load_then_encrypt [of "(P, eng)" "0xA" 9 source src dst se] assms
  by (simp add: seal_key_internal_def sealed_form_def)

lemma unseal_key_internal_ok:
  assumes "se_engine_ok P eng" "length src = 16" "length source = 16" "ks < 16"
  shows "\<exists>se'. unseal_key_internal eng ks src source se = Ok se' \<and> se_keep se se'
     \<and> aes_key se' = (aes_key se)(9 := aes_dec P (aes_key se 0xA) source,
                                   ks := unsealed_form P (aes_key se 0xA) source src)"
  using se_keys.load_then_load [of "(P, eng)" "0xA" 9 ks source src se] assms
  by (simp add: unseal_key_internal_def unsealed_form_def)

lemma unseal_key_ok:
  assumes "se_engine_ok P eng" "g_has_loaded_config c" "u < usecase_limit (fw_of c)" "length src = 16" "ks < 16"
  shows "\<exists>se'. unseal_key c eng ks src 16 u se = Ok se' \<and> se_keep se se'
     \<and> aes_key se' = (aes_key se)(9 := aes_dec P (aes_key se 0xA) (g_seal_key_sources ! unat u),
           ks := unsealed_form P (aes_key se 0xA) (g_seal_key_sources ! unat u) src)"
  using unseal_key_internal_ok [OF assms(1,4) length_seal_source assms(5), of u se] assms usecase_limit_le [OF assms(3)]
  by (simp add: unseal_key_def usecase_is_invalid_loaded)

lemma seal_key_ok:
  assumes "se_engine_ok P eng" "g_has_loaded_config c" "u < usecase_limit (fw_of c)" "length src = 16" "length dst = 16"
  shows "\<exists>se'. seal_key c eng dst 16 src 16 u se =
       Ok (sealed_form P (aes_key se 0xA) (g_seal_key_sources ! unat u) src, se') \<and> se_keep se se'
     \<and> aes_key se' = (aes_key se)(9 := aes_dec P (aes_key se 0xA) (g_seal_key_sources ! unat u))"
  using seal_key_internal_ok [OF assms(1,5,4) length_seal_source, of u se] assms usecase_limit_le [OF assms(3)]
  by (simp add: seal_key_def usecase_is_invalid_loaded)

lemma length_sealed_form: "se_engine_ok P eng \<Longrightarrow> length k = 16 \<Longrightarrow> length (sealed_form P s src k) = 16"
  by (simp add: sealed_form_def aes_lengths)

lemma unsealed_sealed: "se_engine_ok P eng \<Longrightarrow> length k = 16 \<Longrightarrow> unsealed_form P s src (sealed_form P s src k) = k"
  by (simp add: sealed_form_def unsealed_form_def aes_lengths)

text \<open>Wrong use cases are refused before the engine is touched.\<close>

lemma seal_key_rejects:
  assumes "g_has_loaded_config c" "\<not> u < usecase_limit (fw_of c)"
  shows "seal_key c eng dst dn src n u se = generic_panic" "unseal_key c eng ks src n u se = generic_panic"
  using assms by (simp_all add: seal_key_def unseal_key_def usecase_is_invalid_loaded)

end
