(* ===== verification/Title_Key.thy ===== *)
theory Title_Key
  imports Master_Key Sealed_Keys
begin

text \<open>
  \<^verbatim>\<open>titlekey.c\<close>: unwrapping title keys. The RSA-wrapped form is decoded as OAEP with
  SHA-256 and MGF1; the AES-wrapped form is decrypted under a title key encryption key
  derived from a master key. The MGF1 loop and the decoder are related to the
  definitions of PKCS #1.
\<close>

abbreviation (input) TITLEKEY_TYPE_MAX :: u32 where "TITLEKEY_TYPE_MAX \<equiv> 1"

record tkey_state =
  g_tkey_expected_label_hash :: "u64 list"    \<comment> \<open>4 words\<close>
  g_tkey_master_key_rev :: u32
  g_tkey_type :: u32

definition tkey_init :: tkey_state where
  "tkey_init = \<lparr>g_tkey_expected_label_hash = replicate 4 0, g_tkey_master_key_rev = MASTERKEY_REVISION_MAX,
     g_tkey_type = 0\<rparr>"

definition tkey_set_expected_label_hash :: "u64 list \<Rightarrow> tkey_state \<Rightarrow> tkey_state" where
  "tkey_set_expected_label_hash label_hash t =
     fold (\<lambda>i t. t\<lparr>g_tkey_expected_label_hash := (g_tkey_expected_label_hash t)[i := label_hash ! i]\<rparr>) [0..<4] t"

definition tkey_set_master_key_rev :: "u32 \<Rightarrow> tkey_state \<Rightarrow> tkey_state res" where
  "tkey_set_master_key_rev master_key_rev t =
     bindR (panic_if (master_key_rev \<ge> MASTERKEY_REVISION_MAX)) (\<lambda>_.
     Ok (t\<lparr>g_tkey_master_key_rev := master_key_rev\<rparr>))"

definition tkey_validate_type :: "exocfg \<Rightarrow> u32 \<Rightarrow> unit res" where
  "tkey_validate_type c type =
     (if type > TITLEKEY_TYPE_MAX then generic_panic
      else if type > 0
      then bindR (exosphere_get_target_firmware c) (\<lambda>fw. panic_if (fw < FW_600))
      else Ok ())"

definition tkey_set_type :: "exocfg \<Rightarrow> u32 \<Rightarrow> tkey_state \<Rightarrow> tkey_state res" where
  "tkey_set_type c type t =
     bindR (tkey_validate_type c type) (\<lambda>_. Ok (t\<lparr>g_tkey_type := type\<rparr>))"

section \<open>MGF1\<close>

text \<open>
  The loop of \<^verbatim>\<open>calculate_mgf1_and_xor\<close>: \<open>done\<close> holds the bytes already unmasked, \<open>rest\<close> the
  ones from \<^verbatim>\<open>p_out\<close> on that are still to do.
\<close>

function mgf1_loop ::
  "se_engine \<Rightarrow> nat \<Rightarrow> nat \<Rightarrow> bytes \<Rightarrow> u32 \<Rightarrow> bytes \<Rightarrow> bytes \<Rightarrow> se_state \<Rightarrow> (bytes \<times> se_state) res"
where
  "mgf1_loop eng seed_size hash_buf_size hash_buf round_num done rest se =
     (if rest = [] then Ok (done, se)
      else
        let cur_size = min (length rest) 0x20;
            hash_buf = write32be hash_buf seed_size round_num
        in bindR (se_calculate_sha256 eng (take hash_buf_size hash_buf) hash_buf_size se) (\<lambda>(cur_hash, se).
           mgf1_loop eng seed_size hash_buf_size hash_buf (round_num + 1)
             (done @ xor_bytes (take cur_size rest) cur_hash) (drop cur_size rest) se))"
  by pat_completeness auto
termination
  by (relation "measure (\<lambda>(_, _, _, _, _, _, rest, _). length rest)") auto

declare mgf1_loop.simps [simp del]

definition calculate_mgf1_and_xor ::
  "se_engine \<Rightarrow> bytes \<Rightarrow> nat \<Rightarrow> bytes \<Rightarrow> nat \<Rightarrow> se_state \<Rightarrow> (bytes \<times> se_state) res"
where
  "calculate_mgf1_and_xor eng masked masked_size seed seed_size se =
     bindR (panic_if (seed_size \<ge> 0xE0)) (\<lambda>_.
     let hash_buf_size = seed_size + 4;
         hash_buf = replicate 0xE4 0;
         hash_buf = (if seed_size \<noteq> 0 then blit hash_buf 0 (take seed_size seed) else hash_buf)
     in bindR (mgf1_loop eng seed_size hash_buf_size hash_buf 0 [] (take masked_size masked) se) (\<lambda>(out, se).
        Ok (out @ drop masked_size masked, se)))"

section \<open>OAEP\<close>

text \<open>The search for the byte 1 that ends the padding; \<open>None\<close> when another byte comes first.\<close>

fun find_wrapped_key :: "bytes \<Rightarrow> nat \<Rightarrow> nat option" where
  "find_wrapped_key [] ofs = Some ofs"
| "find_wrapped_key (b # bs) ofs =
     (if b = 0 then find_wrapped_key bs (ofs + 1)
      else if b = 1 then Some (ofs + 1)
      else None)"

text \<open>
  The decoder returns the size of the unwrapped key, 0 when the message is malformed, and
  the destination buffer.
\<close>

definition tkey_rsa_oaep_unwrap ::
  "se_engine \<Rightarrow> bytes \<Rightarrow> nat \<Rightarrow> bytes \<Rightarrow> nat \<Rightarrow> tkey_state \<Rightarrow> se_state \<Rightarrow> (nat \<times> bytes \<times> se_state) res"
where
  "tkey_rsa_oaep_unwrap eng dst dst_size src src_size t se =
     bindR (panic_if (src_size \<noteq> 0x100)) (\<lambda>_.
     if src ! 0 \<noteq> 0 then Ok (0, dst, se)
     else
       let salt = bslice src 1 0x20;
           db = bslice src 0x21 0xDF;
           expected_label_hash = concat (map (le_bytes 8) (g_tkey_expected_label_hash t))
       in bindR (calculate_mgf1_and_xor eng salt 0x20 db 0xDF se) (\<lambda>(salt, se).
          bindR (calculate_mgf1_and_xor eng db 0xDF salt 0x20 se) (\<lambda>(db, se).
          if (\<exists>i \<in> set [0..<0x20]. expected_label_hash ! i \<noteq> db ! i) then Ok (0, dst, se)
          else
            let db = drop 0x20 db in
            if db ! 0 \<noteq> 0 then Ok (0, dst, se)
            else case find_wrapped_key (take 0xBF db) 0 of
              None \<Rightarrow> Ok (0, dst, se)
            | Some wrapped_key_offset_in_db \<Rightarrow>
                let wrapped_titlekey_size = 0xBF - wrapped_key_offset_in_db in
                if wrapped_titlekey_size > dst_size \<or> wrapped_titlekey_size = 0 then Ok (0, dst, se)
                else Ok (wrapped_titlekey_size,
                         blit dst 0 (bslice db wrapped_key_offset_in_db wrapped_titlekey_size), se))))"

section \<open>AES-wrapped title keys\<close>

definition titlekek_sources :: "bytes list" where
  "titlekek_sources =
    [[0x1E, 0xDC, 0x7B, 0x3B, 0x60, 0xE6, 0xB4, 0xD8, 0x78, 0xB8, 0x17, 0x15, 0x98, 0x5E, 0x62, 0x9B],
     [0x3B, 0x78, 0xF2, 0x61, 0x0F, 0x9D, 0x5A, 0xE2, 0x7B, 0x4E, 0x45, 0xAF, 0xCB, 0x0B, 0x67, 0x4D]]"

definition tkey_aes_unwrap ::
  "se_engine \<Rightarrow> bytes \<Rightarrow> nat \<Rightarrow> bytes \<Rightarrow> nat \<Rightarrow> tkey_state \<Rightarrow> mkey_state \<Rightarrow> se_state \<Rightarrow> (bytes \<times> se_state) res"
where
  "tkey_aes_unwrap eng dst dst_size src src_size t mk se =
     bindR (panic_if (g_tkey_master_key_rev t \<ge> MASTERKEY_REVISION_MAX \<or> dst_size \<noteq> 0x10 \<or> src_size \<noteq> 0x10)) (\<lambda>_.
     bindR (mkey_get_keyslot (g_tkey_master_key_rev t) mk se) (\<lambda>(master_keyslot, se).
     bindR (decrypt_data_into_keyslot eng KEYSLOT_SWITCH_TEMPKEY master_keyslot
              (titlekek_sources ! unat (g_tkey_type t)) 0x10 se) (\<lambda>se.
     se_aes_ecb_decrypt_block eng KEYSLOT_SWITCH_TEMPKEY dst 0x10 src 0x10 se)))"

section \<open>MGF1 against its definition\<close>

text \<open>MGF1 of PKCS #1, as the first \<open>n\<close> bytes of the hashes of the seed and a counter.\<close>

definition mgf1_block :: "se_prims \<Rightarrow> bytes \<Rightarrow> nat \<Rightarrow> bytes" where
  "mgf1_block P seed i = sha256 P (seed @ rev (le_bytes 4 (of_nat i :: u32)))"

definition mgf1 :: "se_prims \<Rightarrow> bytes \<Rightarrow> nat \<Rightarrow> bytes" where
  "mgf1 P seed n = take n (concat (map (mgf1_block P seed) [0..<(n + 31) div 32]))"

lemma length_mgf1_block: "se_engine_ok P eng \<Longrightarrow> length (mgf1_block P seed i) = 32"
  by (simp add: mgf1_block_def se_engine_ok_def prims_ok_def)

lemma hash_buf_prefix:
  assumes "length seed = n" "n < 0xE0" "length h = 0xE4" "take n h = seed"
  shows "take (n + 4) (write32be h n w) = seed @ rev (le_bytes 4 w)" "length (write32be h n w) = 0xE4"
    "take n (write32be h n w) = seed"
  using assms by (auto simp: write32be_def write32le_def blit_def)

lemma mgf1_loop_ok:
  assumes ok: "se_engine_ok P eng" and "length seed = n" "n < 0xE0" "length h = 0xE4" "take n h = seed"
  shows "\<exists>se'. mgf1_loop eng n (n + 4) h (of_nat r) done rest se =
     Ok (done @ xor_bytes rest (concat (map (\<lambda>i. mgf1_block P seed (r + i)) [0..<(length rest + 31) div 32])), se')
     \<and> se_core se' = se_core se"
  using assms(4,5)
proof (induction "length rest" arbitrary: rest h r "done" se rule: less_induct)
  case less
  show ?case
  proof (cases "rest = []")
    case True
    then show ?thesis by (subst mgf1_loop.simps) simp
  next
    case False
    let ?c = "min (length rest) 32" and ?h = "write32be h n (of_nat r)"
    let ?f = "\<lambda>i. mgf1_block P seed (r + i)"
    note h = hash_buf_prefix [OF assms(2,3) less.prems, of "of_nat r"]
    have "n + 4 = length (take (n + 4) ?h)" using assms(3) h(2) by simp
    then obtain s1 where s1: "se_calculate_sha256 eng (take (n + 4) ?h) (n + 4) se = Ok (?f 0, s1)"
        "se_core s1 = se_core se"
      using sha256_ok [OF ok] h(1) by (fastforce simp: mgf1_block_def)
    have dec: "length (drop ?c rest) < length rest" using False by simp
    obtain se' where s2: "mgf1_loop eng n (n + 4) ?h (of_nat (Suc r)) (done @ xor_bytes (take ?c rest) (?f 0)) (drop ?c rest) s1 =
        Ok ((done @ xor_bytes (take ?c rest) (?f 0)) @ xor_bytes (drop ?c rest)
              (concat (map (\<lambda>i. mgf1_block P seed (Suc r + i)) [0..<(length (drop ?c rest) + 31) div 32])), se')"
        "se_core se' = se_core s1"
      using less.hyps [OF dec h(2,3)] by blast
    have n: "(length rest + 31) div 32 = Suc ((length (drop ?c rest) + 31) div 32)"
    proof (cases "length rest \<le> 32")
      case True
      have "(length rest + 31) div 32 = 1" using False True by (intro div_nat_eqI) (cases rest; simp)+
      then show ?thesis using True by simp
    next
      case False
      then have "length rest + 31 = (length rest - 32 + 31) + 32" by simp
      then show ?thesis using False by (metis Suc_eq_plus1 div_add_self2 length_drop min.absorb2 nle_le zero_neq_numeral)
    qed
    have "concat (map ?f [0..<(length rest + 31) div 32]) =
          ?f 0 @ concat (map (\<lambda>i. mgf1_block P seed (Suc r + i)) [0..<(length (drop ?c rest) + 31) div 32])"
      by (simp only: n upt_conv_Cons zero_less_Suc list.map concat.simps map_Suc_upt [symmetric] map_map comp_def
          add_Suc_shift)
    moreover have "xor_bytes rest (?f 0 @ X) = xor_bytes (take ?c rest) (?f 0) @ xor_bytes (drop ?c rest) X" for X
    proof (cases "length rest \<le> 32")
      case True
      then have c: "take ?c rest = rest" "drop ?c rest = []" by simp_all
      have "xor_bytes rest (?f 0 @ X) = xor_bytes rest (?f 0)"
        using True length_mgf1_block [OF ok] by (intro nth_equalityI) (auto simp: nth_xor_bytes nth_append)
      then show ?thesis by (simp only: c) simp
    next
      case False
      then show ?thesis
        using xor_bytes_append [of "take ?c rest" "?f 0" "drop ?c rest" X] length_mgf1_block [OF ok] by simp
    qed
    ultimately show ?thesis
      using s1 s2 False by (subst mgf1_loop.simps) (simp add: Let_def add.commute [of _ 1])
  qed
qed

lemma xor_bytes_take: "length xs \<le> n \<Longrightarrow> xor_bytes xs (take n ys) = xor_bytes xs ys"
  by (rule nth_equalityI) (auto simp: nth_xor_bytes)

theorem mgf1_and_xor_ok:
  assumes ok: "se_engine_ok P eng" and n: "n = length seed" "n < 0xE0" and m: "m \<le> length masked"
  shows "\<exists>se'. calculate_mgf1_and_xor eng masked m seed n se =
     Ok (xor_bytes (take m masked) (mgf1 P seed m) @ drop m masked, se') \<and> se_core se' = se_core se"
proof -
  let ?h = "if n \<noteq> 0 then blit (replicate 0xE4 0) 0 (take n seed) else replicate 0xE4 (0::u8)"
  have h: "length ?h = 0xE4" "take n ?h = seed" using n by (auto simp: blit_def)
  have "length (take m masked) = m" using m by simp
  then obtain se' where "mgf1_loop eng n (n + 4) ?h (of_nat 0) [] (take m masked) se =
      Ok ([] @ xor_bytes (take m masked) (concat (map (\<lambda>i. mgf1_block P seed (0 + i)) [0..<(m + 31) div 32])), se')"
      "se_core se' = se_core se"
    using mgf1_loop_ok [OF ok n(1) [symmetric] n(2) h, of 0 "[]" "take m masked" se] by auto
  moreover have "xor_bytes (take m masked) (mgf1 P seed m) =
      xor_bytes (take m masked) (concat (map (mgf1_block P seed) [0..<(m + 31) div 32]))"
    unfolding mgf1_def by (rule xor_bytes_take) simp
  moreover have "\<not> 0xE0 \<le> n" using n by simp
  ultimately show ?thesis
    by (cases "seed = []") (simp_all add: calculate_mgf1_and_xor_def Let_def n(1))
qed

section \<open>The OAEP decoder\<close>

text \<open>
  The encoding that the decoder accepts: label hash, zeros, a one, the key; masked as
  PKCS #1 prescribes with the salt.
\<close>

definition oaep_db :: "bytes \<Rightarrow> bytes \<Rightarrow> bytes" where
  "oaep_db label_hash key = label_hash @ replicate (0xBF - 1 - length key) 0 @ 1 # key"

definition oaep_encode :: "se_prims \<Rightarrow> bytes \<Rightarrow> bytes \<Rightarrow> bytes \<Rightarrow> bytes" where
  "oaep_encode P label_hash salt key =
     (let masked_db = xor_bytes (oaep_db label_hash key) (mgf1 P salt 0xDF);
          masked_salt = xor_bytes salt (mgf1 P masked_db 0x20)
      in 0 # masked_salt @ masked_db)"

lemma length_mgf1: "se_engine_ok P eng \<Longrightarrow> length (mgf1 P seed n) = n"
proof -
  assume ok: "se_engine_ok P eng"
  have "length (concat (map (mgf1_block P seed) [0..<k])) = 32 * k" for k
    by (induction k) (simp_all add: length_mgf1_block [OF ok])
  moreover have "n \<le> 32 * ((n + 31) div 32)" by simp
  ultimately show ?thesis by (simp add: mgf1_def)
qed

lemma find_wrapped_key_zeros: "find_wrapped_key (replicate n 0 @ 1 # bs) ofs = Some (ofs + n + 1)"
  by (induction n arbitrary: ofs) simp_all

text \<open>What the search accepts: only zeros before a one, or zeros all the way.\<close>

lemma find_wrapped_key_Some:
  "find_wrapped_key bs ofs = Some k \<Longrightarrow>
     ofs \<le> k \<and> k \<le> ofs + length bs
     \<and> (\<exists>z. (k = ofs + z + 1 \<and> (\<exists>ks. bs = replicate z 0 @ 1 # ks)) \<or> (k = ofs + z \<and> bs = replicate z 0))"
proof (induction bs arbitrary: ofs)
  case (Cons b bs)
  show ?case
  proof (cases "b = 0")
    case True
    then have "find_wrapped_key bs (ofs + 1) = Some k" using Cons.prems by simp
    from Cons.IH [OF this] obtain z where
      "ofs + 1 \<le> k" "k \<le> ofs + 1 + length bs"
      "(k = ofs + 1 + z + 1 \<and> (\<exists>ks. bs = replicate z 0 @ 1 # ks)) \<or> (k = ofs + 1 + z \<and> bs = replicate z 0)" by auto
    then show ?thesis using True by (intro conjI exI [of _ "Suc z"]) auto
  next
    case False
    then show ?thesis using Cons.prems by (auto split: if_splits intro!: exI [of _ 0])
  qed
qed auto

lemma concat_le_bytes_8: "length (concat (map (le_bytes 8) ws)) = 8 * length ws"
  by (induction ws) simp_all

lemma length_oaep_db: "length label_hash = 32 \<Longrightarrow> length key < 0xBF \<Longrightarrow> length (oaep_db label_hash key) = 0xDF"
  by (simp add: oaep_db_def)

lemma oaep_encode_parts:
  assumes ok: "se_engine_ok P eng" and "length label_hash = 32" "length salt = 32" "length key < 0xBF"
  defines "m \<equiv> oaep_encode P label_hash salt key"
  shows "length m = 0x100" "m ! 0 = 0"
    "bslice m 0x21 0xDF = xor_bytes (oaep_db label_hash key) (mgf1 P salt 0xDF)"
    "bslice m 1 0x20 = xor_bytes salt (mgf1 P (xor_bytes (oaep_db label_hash key) (mgf1 P salt 0xDF)) 0x20)"
  using assms length_oaep_db [OF assms(2,4)]
  by (simp_all add: m_def oaep_encode_def Let_def length_mgf1 [OF ok] bslice_def)

theorem oaep_roundtrip:
  assumes ok: "se_engine_ok P eng" and lh: "length (g_tkey_expected_label_hash t) = 4"
    and salt: "length salt = 32" and key: "0 < length key" "length key < 0xBE" "length key \<le> dn" "dn \<le> length dst"
  defines "label_hash \<equiv> concat (map (le_bytes 8) (g_tkey_expected_label_hash t))"
  shows "\<exists>se'. tkey_rsa_oaep_unwrap eng dst dn (oaep_encode P label_hash salt key) 0x100 t se =
     Ok (length key, blit dst 0 key, se') \<and> se_core se' = se_core se"
proof -
  let ?m = "oaep_encode P label_hash salt key" and ?db = "oaep_db label_hash key"
  let ?mdb = "xor_bytes ?db (mgf1 P salt 0xDF)"
  have l: "length label_hash = 32" by (simp add: label_hash_def concat_le_bytes_8 lh)
  have db: "length ?db = 0xDF" using length_oaep_db [OF l, of key] key by simp
  have mdb: "length ?mdb = 0xDF" by (simp add: db length_mgf1 [OF ok])
  note parts = oaep_encode_parts [OF ok l salt, of key]
  have k: "length key < 0xBF" using key by simp
  obtain s1 where s1: "calculate_mgf1_and_xor eng (bslice ?m 1 0x20) 0x20 (bslice ?m 0x21 0xDF) 0xDF se = Ok (salt, s1)"
      "se_core s1 = se_core se"
    using mgf1_and_xor_ok [OF ok, of "0xDF" ?mdb "0x20" "bslice ?m 1 0x20" se] parts(3,4) [OF k] mdb salt
    by (auto simp: length_mgf1 [OF ok] xor_bytes_cancel)
  obtain s2 where s2: "calculate_mgf1_and_xor eng (bslice ?m 0x21 0xDF) 0xDF salt 0x20 s1 = Ok (?db, s2)"
      "se_core s2 = se_core s1"
    using mgf1_and_xor_ok [OF ok, of "0x20" salt "0xDF" ?mdb s1] parts(3) [OF k] mdb salt db
    by (auto simp: length_mgf1 [OF ok] xor_bytes_cancel)
  have d1: "\<not> (\<exists>i \<in> set [0..<0x20]. label_hash ! i \<noteq> ?db ! i)" using l by (auto simp: oaep_db_def nth_append)
  have d2: "drop 0x20 ?db = replicate (0xBE - length key) 0 @ 1 # key" using l by (simp add: oaep_db_def)
  then have d3: "drop 0x20 ?db ! 0 = 0" using key by (simp add: nth_append)
  have d4: "take 0xBF (drop 0x20 ?db) = replicate (0xBE - length key) 0 @ 1 # key"
    unfolding d2 using key by simp
  have d5: "find_wrapped_key (take 0xBF (drop 0x20 ?db)) 0 = Some (0xBF - length key)"
    unfolding d4 find_wrapped_key_zeros using key by simp
  have d6: "bslice (drop 0x20 ?db) (0xBF - length key) (length key) = key"
  proof -
    have "0xBF - length key = Suc (0xBE - length key)" using key by simp
    then show ?thesis unfolding d2 bslice_def by simp
  qed
  have "\<not> length key > dn" "length key \<noteq> 0" "0xBF - (0xBF - length key) = length key" using key by auto
  then have "tkey_rsa_oaep_unwrap eng dst dn ?m 0x100 t se = Ok (length key, blit dst 0 key, s2)"
    using s1(1) s2(1) parts(2) [OF k] d1 d3 d5 d6
    unfolding tkey_rsa_oaep_unwrap_def Let_def label_hash_def [symmetric] by simp
  then show ?thesis using s1(2) s2(2) by auto
qed

end
