(* ===== verification/SE_Mac.thy ===== *)
theory SE_Mac
  imports SE_Facts
begin

text \<open>
  Random numbers and CMAC. The random service fills the buffer with whole blocks and takes
  the tail from one more block. The CMAC of the driver is compared with the definition of
  RFC 4493 over the primitive, through the doubling in the 128-bit field.
\<close>

section \<open>Random numbers\<close>

definition rand_bytes :: "se_prims \<Rightarrow> nat \<Rightarrow> nat \<Rightarrow> bytes" where
  "rand_bytes P i sz =
     rng P i (16 * (sz div 16)) @ take (sz mod 16) (rng P (if sz div 16 = 0 then i else Suc i) 16)"

lemma length_rng: "se_engine_ok P eng \<Longrightarrow> length (rng P i n) = n"
  by (simp add: se_engine_ok_def prims_ok_def)

lemma length_rand_bytes: "se_engine_ok P eng \<Longrightarrow> length (rand_bytes P i sz) = sz"
  using mod_less_divisor [of 16 sz] by (simp add: rand_bytes_def length_rng)

lemma rng_run:
  assumes ok: "se_engine_ok P eng" and "ks < 16" "0 < n" "n < 2 ^ 28"
    and "CONFIG_REG se = 0x2000" "CRYPTO_REG se = push_bit 24 ks OR 0x108" "BLOCK_COUNT_REG se = of_nat n - 1"
  shows "\<exists>se'. trigger_se_blocking_op eng 1 dst dn src m se = Ok (rng P (op_count se) (16 * n), se')
     \<and> se_core se' = se_core se \<and> CONFIG_REG se' = 0x2000 \<and> CRYPTO_REG se' = push_bit 24 ks OR 0x108
     \<and> op_count se' = Suc (op_count se)"
proof -
  let ?st = "se_started 1 dst dn src m se"
  let ?r = "se_done ?st (rng P (op_count se) (16 * n))"
  have "law_rng P eng" using ok by (simp add: se_engine_ok_def)
  then have e: "eng ?st = ?r"
    unfolding law_rng_def using assms by (elim allE [of _ ?st] allE [of _ ks] allE [of _ n]) simp
  have "trigger_se_blocking_op eng 1 dst dn src m se = Ok (rng P (op_count se) (16 * n), se_apply ?r ?st)"
    using trigger_fine [where eng = eng, OF e] by simp
  moreover have "se_core (se_apply ?r ?st) = se_core se" by (simp add: se_core_apply)
  moreover have "CONFIG_REG (se_apply ?r ?st) = 0x2000" "CRYPTO_REG (se_apply ?r ?st) = push_bit 24 ks OR 0x108"
    "op_count (se_apply ?r ?st) = Suc (op_count se)"
    using assms by (simp_all add: se_apply_def)
  ultimately show ?thesis by blast
qed

lemma rng_block:
  assumes ok: "se_engine_ok P eng" and "ks < 16" "0 < m" "m < 16" "m \<le> length dst"
    and "CONFIG_REG se = 0x2000" "CRYPTO_REG se = push_bit 24 ks OR 0x108"
  shows "\<exists>se'. se_perform_aes_block_operation eng dst m [] 0 se =
     Ok (blit dst 0 (take m (rng P (op_count se) 16)), se') \<and> se_core se' = se_core se"
proof -
  let ?b = "replicate 16 0 :: bytes" and ?se = "se\<lparr>BLOCK_COUNT_REG := 0\<rparr>"
  from rng_run [OF ok assms(2), of 1 ?se "Some ?b" 16 "Some ?b" 16] obtain se' where
    "trigger_se_blocking_op eng 1 (Some ?b) 16 (Some ?b) 16 ?se = Ok (rng P (op_count se) 16, se')"
    "se_core se' = se_core ?se" using assms by auto
  moreover have "blit ?b 0 (rng P (op_count se) 16) = rng P (op_count se) 16"
    by (simp add: blit_0_all length_rng [OF ok])
  moreover have "\<not> 16 < m" "m \<noteq> 0" using assms by auto
  ultimately show ?thesis
    by (simp add: se_perform_aes_block_operation_def Let_def) (simp add: se_core_def)
qed

lemma generate_random_ok:
  assumes ok: "se_engine_ok P eng" and "ks < 16" "sz \<le> length dst" "sz < 2 ^ 32"
  shows "\<exists>se'. se_generate_random eng ks dst sz se = Ok (blit dst 0 (rand_bytes P (op_count se) sz), se')
     \<and> se_core se' = se_core se"
proof -
  define q where "q = sz div 16"
  define A where "A = rng P (op_count se) (16 * q)"
  let ?c = "if q = 0 then op_count se else Suc (op_count se)"
  let ?s0 = "se\<lparr>CONFIG_REG := 0x2000, CRYPTO_REG := push_bit 24 ks OR 0x108, RNG_CONFIG_REG := 4\<rparr>"
  let ?main = "if q \<ge> 1
               then let se = ?s0\<lparr>BLOCK_COUNT_REG := of_nat q - 1\<rparr>
                    in bindR (trigger_se_blocking_op eng 1 (Some dst) (q * 16) None 0 se)
                         (\<lambda>(out, se). Ok (blit dst 0 out, se))
               else Ok (dst, ?s0)"
  have q: "16 * q \<le> sz" "sz < 16 * q + 16" "q < 2 ^ 28" using assms(4) by (auto simp: q_def)
  have lA: "length A = 16 * q" by (simp add: A_def length_rng [OF ok])
  have "\<exists>s1. ?main = Ok (blit dst 0 A, s1) \<and> se_core s1 = se_core se \<and> CONFIG_REG s1 = 0x2000
      \<and> CRYPTO_REG s1 = push_bit 24 ks OR 0x108 \<and> op_count s1 = ?c"
  proof (cases "q = 0")
    case True
    have "A = []" using True lA by simp
    then show ?thesis using True by (simp add: blit_def) (simp add: se_core_def)
  next
    case False
    let ?s = "?s0\<lparr>BLOCK_COUNT_REG := of_nat q - 1\<rparr>"
    have "se_core ?s = se_core se" by (simp add: se_core_def)
    then show ?thesis
      using rng_run [OF ok assms(2), of q ?s "Some dst" "q * 16" None 0] False q
      by (auto simp: A_def)
  qed
  then obtain s1 where s1: "?main = Ok (blit dst 0 A, s1)" "se_core s1 = se_core se" "CONFIG_REG s1 = 0x2000"
    "CRYPTO_REG s1 = push_bit 24 ks OR 0x108" "op_count s1 = ?c" by blast
  have "\<not> 16 \<le> ks" using assms by simp
  then have step: "se_generate_random eng ks dst sz se =
      (if q * 16 < sz
       then bindR (se_perform_aes_block_operation eng (drop (q * 16) (blit dst 0 A)) (sz - q * 16) [] 0 s1)
              (\<lambda>(tail, se). Ok (take (q * 16) (blit dst 0 A) @ tail, se))
       else Ok (blit dst 0 A, s1))"
    using s1(1) unfolding se_generate_random_def Let_def q_def [symmetric] by (cases "q = 0") simp_all
  have m: "sz mod 16 = sz - q * 16" by (simp add: q_def minus_div_mult_eq_mod)
  have r: "rand_bytes P (op_count se) sz = A @ take (sz - q * 16) (rng P ?c 16)"
    by (simp add: rand_bytes_def A_def m q_def)
  show ?thesis
  proof (cases "q * 16 < sz")
    case False
    then show ?thesis using step s1(2) r q by simp
  next
    case True
    have m: "0 < sz - q * 16" "sz - q * 16 < 16" "sz - q * 16 \<le> length (drop (q * 16) (blit dst 0 A))"
      using True q assms(3) lA by auto
    obtain se' where t: "se_perform_aes_block_operation eng (drop (q * 16) (blit dst 0 A)) (sz - q * 16) [] 0 s1 =
        Ok (blit (drop (q * 16) (blit dst 0 A)) 0 (take (sz - q * 16) (rng P ?c 16)), se')"
      "se_core se' = se_core s1"
      using rng_block [OF ok assms(2) m s1(3,4)] s1(5) by auto
    have "length (take (sz - q * 16) (rng P ?c 16)) = sz - q * 16"
      using q by (simp add: length_rng [OF ok])
    then show ?thesis
      using step True t s1(2) r lA assms(3) q blit_tail [of "q * 16" A "take (sz - q * 16) (rng P ?c 16)" dst]
      by simp
  qed
qed

section \<open>CMAC\<close>

text \<open>Doubling in the field with the CMAC polynomial, on the block read as a big-endian number.\<close>

definition be128 :: "bytes \<Rightarrow> 128 word" where
  "be128 bs = le_word (rev bs)"

definition cmac_dbl :: "128 word \<Rightarrow> 128 word" where
  "cmac_dbl w = push_bit 1 w XOR (if bit w 127 then 0x87 else 0)"

lemma be128_inj: "length xs = 16 \<Longrightarrow> length ys = 16 \<Longrightarrow> be128 xs = be128 ys \<Longrightarrow> xs = ys"
  unfolding be128_def using le_word_inj [of "rev xs" "rev ys", where 'a = 128] by simp

lemma bit_be128:
  "length bs = 16 \<Longrightarrow> bit (be128 bs) n \<longleftrightarrow> n < 128 \<and> bit (bs ! (15 - n div 8)) (n mod 8)"
  by (auto simp: be128_def bit_le_word rev_nth) 

definition shl_byte :: "bytes \<Rightarrow> nat \<Rightarrow> u8" where
  "shl_byte key j = push_bit 1 (key ! j) OR (if j < 15 then drop_bit 7 (key ! (j + 1)) else 0)"

lemma shift_left_loop:
  assumes "length key = 16" "n \<le> 16"
  shows "fold shift_left_xor_rb_step [0..<n] (key, 0) =
     (map (\<lambda>j. if 16 - n \<le> j then shl_byte key j else key ! j) [0..<16],
      if n = 0 then 0 else drop_bit 7 (key ! (16 - n)))"
  using assms(2)
proof (induction n)
  case 0
  have "map (\<lambda>j. if 16 \<le> j then shl_byte key j else key ! j) [0..<16] = key"
    using assms(1) by (intro nth_equalityI) auto
  then show ?case by simp
next
  case (Suc n)
  let ?M = "\<lambda>n. map (\<lambda>j. if 16 - n \<le> j then shl_byte key j else key ! j) [0..<16]"
  let ?c = "if n = 0 then 0 else drop_bit 7 (key ! (16 - n))"
  have n: "n < 16" using Suc.prems by simp
  then have "\<not> 16 - n \<le> 15 - n" by arith
  then have nth: "?M n ! (15 - n) = key ! (15 - n)" by simp
  have carry: "push_bit 1 (key ! (15 - n)) OR ?c = shl_byte key (15 - n)"
  proof (cases "n = 0")
    case False
    then have "15 - n + 1 = 16 - n" "15 - n < 15" using n by auto
    then show ?thesis using False by (simp add: shl_byte_def)
  qed (simp add: shl_byte_def)
  have upd: "(?M n)[15 - n := shl_byte key (15 - n)] = ?M (Suc n)"
  proof (rule nth_equalityI)
    fix j assume "j < length ((?M n)[15 - n := shl_byte key (15 - n)])"
    then have j: "j < 16" by simp
    have "16 - Suc n \<le> j \<longleftrightarrow> j = 15 - n \<or> 16 - n \<le> j" using n by auto
    then show "(?M n)[15 - n := shl_byte key (15 - n)] ! j = ?M (Suc n) ! j"
      using j n by (auto simp: nth_list_update)
  qed simp
  have "fold shift_left_xor_rb_step [0..<Suc n] (key, 0) = shift_left_xor_rb_step n (?M n, ?c)"
    using Suc by simp
  also have "\<dots> = (?M (Suc n), drop_bit 7 (key ! (15 - n)))"
    unfolding shift_left_xor_rb_step_def Let_def prod.case using nth carry upd by simp
  finally show ?case by simp
qed

lemma bit_times2: "bit (w * 2 :: 'a::len word) k \<longleftrightarrow> k \<noteq> 0 \<and> k < LENGTH('a) \<and> bit w (k - 1)"
  using bit_push_bit_iff [of 1 w k] by (cases k) (auto simp: push_bit_eq_mult)

lemma bit_shl_byte:
  assumes "length key = 16" "n < 128"
  shows "bit (shl_byte key (15 - n div 8)) (n mod 8) \<longleftrightarrow> n \<noteq> 0 \<and> bit (be128 key) (n - 1)"
proof (cases "n mod 8 = 0")
  case False
  then obtain m where m: "n mod 8 = Suc m" by (cases "n mod 8") auto
  then have "n = 8 * (n div 8) + Suc m" "m < 8"
    using mult_div_mod_eq [of 8 n] mod_less_divisor [of 8 n] by linarith+
  then have n1: "n - 1 = 8 * (n div 8) + m" "m < 8" by linarith+
  have "(n - 1) div 8 = n div 8" "(n - 1) mod 8 = m" "n \<noteq> 0"
    unfolding n1(1) using n1(2) m by (auto simp del: mult_div_mod_eq)
  moreover have "n - 1 < 128" using assms(2) by linarith
  moreover have "m < 8 - 1" using m mod_less_divisor [of 8 n] by simp
  moreover have "\<not> bit (drop_bit 7 w) (Suc m)" for w :: u8
    using bit_imp_le_length [of w "7 + Suc m"] by (auto simp: bit_drop_bit_eq)
  ultimately show ?thesis
    using assms m by (auto simp: shl_byte_def bit_be128 bit_or_iff bit_times2)
next
  case True
  show ?thesis
  proof (cases "n = 0")
    case False
    with True obtain a where a: "n = 8 * Suc a"
      by (metis dvd_def dvd_eq_mod_eq_0 mult_0_right not0_implies_Suc)
    then have n1: "n - 1 = 8 * a + 7" by simp
    have d: "(n - 1) mod 8 = 7" "n div 8 = Suc ((n - 1) div 8)"
      unfolding n1 using a by simp_all
    moreover have "n div 8 < 16" using assms(2) by (simp add: less_mult_imp_div_less)
    ultimately have "15 - n div 8 + 1 = 15 - (n - 1) div 8" "15 - n div 8 < 15" by linarith+
    moreover have "n - 1 < 128" using assms(2) by linarith
    ultimately show ?thesis
      using True False d assms by (simp add: shl_byte_def bit_be128 bit_or_iff bit_drop_bit_eq bit_times2)
  qed (use assms in \<open>simp add: shl_byte_def bit_times2\<close>)
qed

lemma be128_xor_last:
  assumes "length key = 16"
  shows "be128 (key[15 := key ! 15 XOR v]) = be128 key XOR ucast v"
proof (rule bit_word_eqI)
  fix n assume n: "n < LENGTH(128)"
  have "15 - n div 8 = 15 \<longleftrightarrow> n < 8" by auto
  moreover have "\<not> n < 8 \<Longrightarrow> \<not> bit v n" using bit_imp_le_length [of v n] by auto
  ultimately show "bit (be128 (key[15 := key ! 15 XOR v])) n = bit (be128 key XOR ucast v) n"
    using n assms by (auto simp: bit_be128 bit_xor_iff bit_ucast_iff nth_list_update)
qed

text \<open>The byte loop of the driver is the doubling.\<close>

lemma shift_left_xor_rb_dbl:
  assumes "length key = 16"
  shows "length (shift_left_xor_rb key) = 16" "be128 (shift_left_xor_rb key) = cmac_dbl (be128 key)"
proof -
  let ?k = "map (shl_byte key) [0..<16]"
  have k: "fold shift_left_xor_rb_step [0..<16] (key, 0) = (?k, drop_bit 7 (key ! 0))"
    using shift_left_loop [OF assms, of 16] by simp
  have sh: "be128 ?k = push_bit 1 (be128 key)"
  proof (rule bit_word_eqI)
    fix n assume n: "n < LENGTH(128)"
    have "15 - n div 8 < 16" by simp
    then have "bit (be128 ?k) n = bit (shl_byte key (15 - n div 8)) (n mod 8)"
      using n by (simp add: bit_be128 del: upt_rec_numeral)
    then show "bit (be128 ?k) n = bit (push_bit 1 (be128 key)) n"
      using bit_shl_byte [OF assms, of n] n by (cases n) (auto simp: bit_times2)
  qed
  have "drop_bit 7 w \<noteq> 0 \<longleftrightarrow> bit w 7" for w :: u8
  proof
    assume "drop_bit 7 w \<noteq> 0"
    then obtain i where i: "bit (drop_bit 7 w) i" using bit_eq_iff by (metis bit_0_eq bot_apply bot_bool_def)
    then have "bit w (7 + i)" by (simp add: bit_drop_bit_eq)
    moreover have "i = 0" using bit_imp_le_length [OF \<open>bit w (7 + i)\<close>] by simp
    ultimately show "bit w 7" by simp
  next
    assume "bit w 7"
    then have "bit (drop_bit 7 w) 0" by (simp add: bit_drop_bit_eq)
    then show "drop_bit 7 w \<noteq> 0" by auto
  qed
  then have "drop_bit 7 (key ! 0) \<noteq> 0 \<longleftrightarrow> bit (be128 key) 127"
    using assms by (simp add: bit_be128)
  then have r: "shift_left_xor_rb key = (if bit (be128 key) 127 then ?k[15 := ?k ! 15 XOR 0x87] else ?k)"
    by (simp only: shift_left_xor_rb_def k Let_def prod.case)
  show "length (shift_left_xor_rb key) = 16" by (simp add: r)
  show "be128 (shift_left_xor_rb key) = cmac_dbl (be128 key)"
    using be128_xor_last [of ?k "0x87"] sh by (simp add: r cmac_dbl_def del: upt_rec_numeral)
qed

text \<open>CMAC as RFC 4493 defines it.\<close>

definition cmac_ref :: "se_prims \<Rightarrow> bytes \<Rightarrow> bytes \<Rightarrow> bytes" where
  "cmac_ref P k M =
     (let K1 = cmac_dbl (be128 (aes_enc P k (replicate 16 0)));
          K2 = cmac_dbl K1;
          n = max 1 ((length M + 15) div 16);
          complete = (M \<noteq> [] \<and> length M mod 16 = 0);
          last = drop (16 * (n - 1)) M;
          mlast = (if complete then xor_bytes last (rev (le_bytes 16 K1))
                   else xor_bytes (last @ 0x80 # replicate (15 - length last) 0) (rev (le_bytes 16 K2)))
      in cbc_mac P k (replicate 16 0) n (take (16 * (n - 1)) M @ mlast))"

lemma rev_le_bytes_be128: "length bs = 16 \<Longrightarrow> rev (le_bytes 16 (be128 bs)) = bs"
  by (simp add: be128_def)

lemma cbc_mac_add: "cbc_mac P k iv (m + n) data = cbc_mac P k (cbc_mac P k iv m data) n (drop (16 * m) data)"
  by (induction m arbitrary: iv data) (simp_all add: add.commute)

lemma cbc_mac_prefix:
  "16 * n \<le> length xs \<Longrightarrow> cbc_mac P k iv n (xs @ ys) = cbc_mac P k iv n xs"
  by (induction n arbitrary: iv xs) simp_all

lemma cbc_mac_take: "16 * n \<le> length xs \<Longrightarrow> cbc_mac P k iv n (take (16 * n) xs) = cbc_mac P k iv n xs"
  using cbc_mac_prefix [of n "take (16 * n) xs" P k iv "drop (16 * n) xs"] by simp

lemma length_cbc_mac:
  assumes "se_engine_ok P eng" "length iv = 16" "16 * n \<le> length data"
  shows "length (cbc_mac P k iv n data) = 16"
  using assms(2,3) by (induction n arbitrary: iv data) (simp_all add: aes_lengths [OF assms(1)])

lemma cbc_mac_run:
  assumes ok: "se_engine_ok P eng" and "ks < 16" "hi \<in> {0, 0x202}" "0 < n" "n < 2 ^ 28"
    "16 * n \<le> length b" "m < 2 ^ 32"
    and "CONFIG_REG se = 0x1004 OR push_bit 16 hi"
      "CRYPTO_REG se = push_bit 24 ks OR (if upd then 0x1C5 else 0x145)" "BLOCK_COUNT_REG se = of_nat n - 1"
  defines "mac \<equiv> cbc_mac P (cfg_key se ks hi) (table_bytes (aes_keytable se) ks (if upd then 12 else 8) 4) n b"
  shows "\<exists>se' h. trigger_se_blocking_op eng 1 None 0 (Some b) m se = Ok ([], se')
     \<and> se_keep se se' \<and> aes_keytable se' = table_store (aes_keytable se) ks 12 4 mac
     \<and> HASH_RESULT_REG se' = mac @ h \<and> CONFIG_REG se' = CONFIG_REG se \<and> CRYPTO_REG se' = CRYPTO_REG se"
proof -
  let ?st = "se_started 1 None 0 (Some b) m se"
  let ?r = "(se_done ?st [])\<lparr>r_hash := mac @ drop 16 (HASH_RESULT_REG se),
              r_keytable := table_store (aes_keytable se) ks 12 4 mac\<rparr>"
  have "law_cbc_mac P eng" using ok by (simp add: se_engine_ok_def)
  then have e: "eng ?st = ?r"
    unfolding law_cbc_mac_def Let_def using assms
    by (elim allE [of _ ?st] allE [of _ ks] allE [of _ hi] allE [of _ b] allE [of _ n] allE [of _ m] allE [of _ upd]) simp
  have "trigger_se_blocking_op eng 1 None 0 (Some b) m se = Ok ([], se_apply ?r ?st)"
    using trigger_fine [where eng = eng, OF e] by simp
  moreover have t: "aes_keytable (se_apply ?r ?st) = table_store (aes_keytable se) ks 12 4 mac"
    "HASH_RESULT_REG (se_apply ?r ?st) = mac @ drop 16 (HASH_RESULT_REG se)"
    "CONFIG_REG (se_apply ?r ?st) = CONFIG_REG se" "CRYPTO_REG (se_apply ?r ?st) = CRYPTO_REG se"
    by (simp_all add: se_apply_def)
  moreover have "se_keep se (se_apply ?r ?st)" by (simp add: se_keep_def se_core_apply t)
  ultimately show ?thesis by blast
qed

lemma le_word_replicate_0: "le_word (replicate n 0) = 0"
  by (induction n) simp_all

lemma clear_iv_ok:
  assumes "ks < 16"
  shows "\<exists>se'. clear_aes_keyslot_iv ks se = Ok se' \<and> se_keep se se'
     \<and> aes_keytable se' = table_store (aes_keytable se) ks 8 4 (replicate 16 0)
     \<and> CONFIG_REG se' = CONFIG_REG se \<and> CRYPTO_REG se' = CRYPTO_REG se"
proof -
  have "\<not> 16 \<le> ks" using assms by simp
  moreover have z: "read32le (replicate 16 0) 0 = 0" "read32le (replicate 16 0) 4 = 0"
    "read32le (replicate 16 0) 8 = 0" "read32le (replicate 16 0) 12 = 0"
    by (simp_all add: read32le_def bslice_def le_word_replicate_0)
  ultimately show ?thesis
    by (simp add: clear_aes_keyslot_iv_def aes_keytable_write_def upt_rec table_store_def aes_idx_def
        or.assoc se_keep_def se_core_def z)
qed

lemma cfg_key_store:
  assumes "ks < 16" "ks' < 16" "8 \<le> lo" "lo + n \<le> 16"
    and "aes_keytable se' = table_store (aes_keytable se) ks lo n bs"
  shows "cfg_key se' ks' hi = cfg_key se ks' hi"
  unfolding cfg_key_def assms(5) using assms(1-4) by (intro table_bytes_store_other) auto

lemma aes_key_iv_store:
  assumes "ks < 16" "8 \<le> lo" "lo + n \<le> 16" "aes_keytable se' = table_store (aes_keytable se) ks lo n bs"
  shows "aes_key se' = aes_key se"
proof
  fix k :: u32
  show "aes_key se' k = aes_key se k"
    using cfg_key_store [OF assms(1) _ assms(2-4), of k 0] by (cases "k < 16") (simp_all add: cfg_key_128 aes_key_def)
qed

lemma mac_words: "length mac = 16 \<Longrightarrow> concat (map (\<lambda>i. le_bytes 4 (read32le (mac @ h) (i * 4))) [0..<4]) = mac"
proof -
  assume l: "length mac = 16"
  have "le_bytes 4 (read32le (mac @ h) (i * 4)) = bslice mac (4 * i) 4" if "i < 4" for i
    using l that by (simp add: le_bytes_read32le) (simp add: bslice_def mult.commute)
  then show ?thesis using concat_words [of mac 4] l by (simp cong: concat_map_cong)
qed

text \<open>What the driver computes, with the last block as the code builds it.\<close>

definition cmac_last_block :: "bytes \<Rightarrow> bytes" where
  "cmac_last_block data =
     (let r = length data mod 16 in
      if r \<noteq> 0 then (blit (replicate 16 0) 0 (bslice data (length data - r) r))[r := 0x80]
      else if length data \<ge> 16 then blit (replicate 16 0) 0 (bslice data (length data - 16) 16)
      else replicate 16 0)"

definition cmac_subkey :: "se_prims \<Rightarrow> bytes \<Rightarrow> bytes \<Rightarrow> bytes" where
  "cmac_subkey P k data =
     (let K1 = shift_left_xor_rb (aes_enc P k (replicate 16 0))
      in if length data mod 16 \<noteq> 0 then shift_left_xor_rb K1 else K1)"

lemma length_cmac_subkey: "se_engine_ok P eng \<Longrightarrow> length (cmac_subkey P k data) = 16"
  by (simp add: cmac_subkey_def Let_def shift_left_xor_rb_dbl aes_lengths)

lemma length_cmac_last_block: "length (cmac_last_block data) = 16"
proof -
  have "length data mod 16 \<le> length data" "length data mod 16 \<le> 16"
    using mod_less_divisor [of 16 "length data"] by (simp, linarith)
  then show ?thesis by (simp add: cmac_last_block_def Let_def)
qed

lemma cmac_driver:
  fixes se :: se_state
  assumes ok: "se_engine_ok P eng" and ks: "ks < 16" and hi: "hi \<in> {0, 0x202}" and len: "length data < 2 ^ 32"
  defines "k \<equiv> cfg_key se ks hi" and "n \<equiv> (length data + 15) div 16"
  shows "\<exists>se'. se_compute_aes_cmac eng ks 16 data (length data) hi se =
     Ok (cbc_mac P k (cbc_mac P k (replicate 16 0) (n - 1) data) 1
           (xor_bytes (cmac_last_block data) (cmac_subkey P k data)), se')
     \<and> se_keep se se' \<and> aes_key se' = aes_key se"
proof -
  let ?z = "replicate 16 0 :: bytes"
  let ?mac1 = "cbc_mac P k ?z (n - 1) data"
  let ?lb = "xor_bytes (cmac_last_block data) (cmac_subkey P k data)"
  let ?mac = "cbc_mac P k ?mac1 1 ?lb"
  have n: "16 * (n - 1) \<le> length data" "n < 2 ^ 28 + 1" using len by (auto simp: n_def)
  have lb: "length ?lb = 16" by (simp add: length_cmac_subkey [OF ok] length_cmac_last_block)
  have m1: "length ?mac1 = 16" using n by (simp add: length_cbc_mac [OF ok])
  have m: "length ?mac = 16" using lb by (intro length_cbc_mac [OF ok m1]) simp
  obtain s1 where s1: "se_aes_ecb_encrypt_block eng ks ?z 16 ?z 16 hi se = Ok (aes_enc P k ?z, s1)"
      "se_core s1 = se_core se"
    using ecb_encrypt_ok [OF ok ks hi, of ?z ?z se] by (auto simp: k_def)
  define s2 where "s2 = s1\<lparr>CONFIG_REG := 0x1004 OR push_bit 16 hi, CRYPTO_REG := push_bit 24 ks OR 0x145\<rparr>"
  have t2: "aes_keytable s2 = aes_keytable se" using core_eqD(1) [OF s1(2)] by (simp add: s2_def)
  have "se_core s2 = se_core s1" by (simp add: s2_def se_core_def)
  then have k2: "se_keep se s2" using s1(2) by (simp add: se_keep_core)
  obtain s3 where s3: "clear_aes_keyslot_iv ks s2 = Ok s3" "se_keep s2 s3"
      "aes_keytable s3 = table_store (aes_keytable s2) ks 8 4 ?z"
      "CONFIG_REG s3 = 0x1004 OR push_bit 16 hi" "CRYPTO_REG s3 = push_bit 24 ks OR 0x145"
    using clear_iv_ok [OF ks, of s2] by (auto simp: s2_def)
  have iv3: "table_bytes (aes_keytable s3) ks 8 4 = ?z" by (simp add: s3(3) table_bytes_store_same ks)
  have ck3: "cfg_key s3 ks hi = k" using cfg_key_store [OF ks ks _ _ s3(3), of hi] t2 by (simp add: k_def cfg_key_def)
  have ak3: "aes_key s3 = aes_key se" using aes_key_iv_store [OF ks _ _ s3(3)] aes_key_cong [OF t2] by simp
  let ?first = "if n > 1
            then let se = s3\<lparr>BLOCK_COUNT_REG := of_nat n - 2\<rparr>
                 in bindR (trigger_se_blocking_op eng 1 None 0 (Some data) (length data) se)
                      (\<lambda>(_, se). Ok (se\<lparr>CRYPTO_REG := CRYPTO_REG se OR 0x80\<rparr>))
            else Ok s3"
  have "\<exists>s4. ?first = Ok s4 \<and> se_keep s3 s4 \<and> aes_key s4 = aes_key s3 \<and> cfg_key s4 ks hi = k
      \<and> CONFIG_REG s4 = 0x1004 OR push_bit 16 hi
      \<and> CRYPTO_REG s4 = push_bit 24 ks OR (if n > 1 then 0x1C5 else 0x145)
      \<and> table_bytes (aes_keytable s4) ks (if n > 1 then 12 else 8) 4 = ?mac1"
  proof (cases "n > 1")
    case False
    then have "n - 1 = 0" by simp
    then show ?thesis using False s3 ck3 iv3 by simp
  next
    case True
    let ?s = "s3\<lparr>BLOCK_COUNT_REG := of_nat n - 2\<rparr>"
    have bc: "(of_nat n - 2 :: u32) = of_nat (n - 1) - 1" using True by (simp add: of_nat_diff)
    have c: "cfg_key ?s ks hi = k" using ck3 by (simp add: cfg_key_def)
    have iv: "table_bytes (aes_keytable ?s) ks (if False then 12 else 8) 4 = ?z" using iv3 by simp
    have pre: "0 < n - 1" "n - 1 < 2 ^ 28" "16 * (n - 1) \<le> length data" "length data < 2 ^ 32"
      "CONFIG_REG ?s = 0x1004 OR push_bit 16 hi"
      "CRYPTO_REG ?s = push_bit 24 ks OR (if False then 0x1C5 else 0x145)"
      "BLOCK_COUNT_REG ?s = of_nat (n - 1) - 1"
      using True n len s3 bc by simp_all
    obtain s4 h where s4: "trigger_se_blocking_op eng 1 None 0 (Some data) (length data) ?s = Ok ([], s4)"
        "se_keep ?s s4" "aes_keytable s4 = table_store (aes_keytable ?s) ks 12 4 ?mac1"
        "CONFIG_REG s4 = CONFIG_REG ?s" "CRYPTO_REG s4 = CRYPTO_REG ?s"
      using cbc_mac_run [OF ok ks hi pre, unfolded c iv] by blast
    let ?s4 = "s4\<lparr>CRYPTO_REG := CRYPTO_REG s4 OR 0x80\<rparr>"
    have "se_keep s3 ?s4" using s4(2) by (simp add: se_keep_def se_core_def)
    moreover have "aes_key ?s4 = aes_key s3"
      using aes_key_iv_store [OF ks, of 12 4 ?s4 s3] s4(3) by simp
    moreover have "cfg_key ?s4 ks hi = k"
      using cfg_key_store [OF ks ks, of 12 4 ?s4 ?s] s4(3) c by simp
    moreover have "table_bytes (aes_keytable ?s4) ks 12 4 = ?mac1"
      using s4(3) ks m1 by (simp add: table_bytes_store_same)
    moreover have "CRYPTO_REG ?s4 = push_bit 24 ks OR 0x1C5" using s4(5) s3(5) by (simp add: or.assoc)
    moreover have "?first = Ok ?s4" using True s4(1) by simp
    ultimately show ?thesis using True s4(4) s3(4) by simp
  qed
  then obtain s4 where s4: "?first = Ok s4" "se_keep s3 s4" "aes_key s4 = aes_key s3" "cfg_key s4 ks hi = k"
      "CONFIG_REG s4 = 0x1004 OR push_bit 16 hi"
      "CRYPTO_REG s4 = push_bit 24 ks OR (if n > 1 then 0x1C5 else 0x145)"
      "table_bytes (aes_keytable s4) ks (if n > 1 then 12 else 8) 4 = ?mac1" by blast
  let ?s5 = "s4\<lparr>BLOCK_COUNT_REG := 0\<rparr>"
  have c5: "cfg_key ?s5 ks hi = k" using s4(4) by (simp add: cfg_key_def)
  have iv5: "table_bytes (aes_keytable ?s5) ks (if n > 1 then 12 else 8) 4 = ?mac1" using s4(7) by simp
  have pre: "(0::nat) < 1" "(1::nat) < 2 ^ 28" "16 * 1 \<le> length ?lb" "(16::nat) < 2 ^ 32"
    "CONFIG_REG ?s5 = 0x1004 OR push_bit 16 hi"
    "CRYPTO_REG ?s5 = push_bit 24 ks OR (if n > 1 then 0x1C5 else 0x145)" "BLOCK_COUNT_REG ?s5 = of_nat 1 - 1"
    using s4(5,6) lb by simp_all
  obtain s6 h where s6: "trigger_se_blocking_op eng 1 None 0 (Some ?lb) 16 ?s5 = Ok ([], s6)" "se_keep ?s5 s6"
      "aes_keytable s6 = table_store (aes_keytable ?s5) ks 12 4 ?mac" "HASH_RESULT_REG s6 = ?mac @ h"
    using cbc_mac_run [OF ok ks hi pre, unfolded c5 iv5] by blast
  have "se_keep se s6"
  proof -
    have "se_keep s4 ?s5" by (simp add: se_keep_def se_core_def)
    then show ?thesis using k2 s3(2) s4(2) s6(2) se_keep_trans by blast
  qed
  moreover have "aes_key s6 = aes_key se"
    using aes_key_iv_store [OF ks _ _ s6(3)] s4(3) ak3 aes_key_cong [of ?s5 s4] by simp
  moreover have "\<not> 16 \<le> ks" using ks by simp
  then have "se_compute_aes_cmac eng ks 16 data (length data) hi se = Ok (?mac, s6)"
    using s1(1) s3(1) s4(1) s6(1,4) mac_words [OF m, of h]
    unfolding se_compute_aes_cmac_def Let_def cmac_last_block_def cmac_subkey_def s2_def n_def by simp
  ultimately show ?thesis by blast
qed

lemma div_round_up: "x = 16 * q + r \<Longrightarrow> 0 < r \<Longrightarrow> r < 16 \<Longrightarrow> (x + 15) div 16 = Suc q" for x :: nat
  by (intro div_nat_eqI) auto

lemma cmac_last_block_split:
  assumes "data \<noteq> []"
  defines "n \<equiv> (length data + 15) div 16"
  shows "cmac_last_block data =
     (if length data mod 16 = 0 then drop (16 * (n - 1)) data
      else drop (16 * (n - 1)) data @ 0x80 # replicate (15 - length (drop (16 * (n - 1)) data)) 0)"
proof (cases "length data mod 16 = 0")
  case True
  then obtain a where a: "length data = 16 * a" by (metis dvd_def dvd_eq_mod_eq_0)
  then have "n = a" "a \<noteq> 0" using assms(1) by (auto simp: n_def intro: Nat.gr0I)
  then show ?thesis
    using a True by (simp add: cmac_last_block_def bslice_def blit_0_all right_diff_distrib')
next
  case False
  let ?r = "length data mod 16"
  define q where "q = length data div 16"
  have len: "length data = 16 * q + ?r" by (simp add: q_def)
  have r: "0 < ?r" "?r < 16" using False by simp_all
  have "n = Suc q" unfolding n_def by (rule div_round_up [OF len r])
  then have d: "drop (16 * (n - 1)) data = bslice data (length data - ?r) ?r"
    using len by (metis add_diff_cancel_left' add_diff_cancel_right' bslice_def diff_Suc_1 length_drop order_refl take_all_iff)
  have l: "length (bslice data (length data - ?r) ?r) = ?r" by simp
  have "(blit (replicate 16 0) 0 (bslice data (length data - ?r) ?r))[?r := 0x80] =
        bslice data (length data - ?r) ?r @ 0x80 # replicate (15 - ?r) 0"
  proof (rule nth_equalityI)
    fix i assume "i < length ((blit (replicate 16 0) 0 (bslice data (length data - ?r) ?r))[?r := 0x80])"
    then have "i < 16" using r by simp
    then show "(blit (replicate 16 0) 0 (bslice data (length data - ?r) ?r))[?r := 0x80] ! i =
        (bslice data (length data - ?r) ?r @ 0x80 # replicate (15 - ?r) 0) ! i"
      using r l by (auto simp: nth_list_update nth_blit nth_append nth_Cons' )
  qed (use r in simp)
  then show ?thesis using False d l by (simp add: cmac_last_block_def Let_def)
qed

theorem cmac_rfc4493:
  assumes "se_engine_ok P eng" "ks < 16" "hi \<in> {0, 0x202}" "data \<noteq> []" "length data < 2 ^ 32"
  shows "\<exists>se'. se_compute_aes_cmac eng ks 16 data (length data) hi se =
                 Ok (cmac_ref P (cfg_key se ks hi) data, se') \<and> se_keep se se' \<and> aes_key se' = aes_key se"
proof -
  let ?k = "cfg_key se ks hi" and ?n = "(length data + 15) div 16"
  let ?lb = "xor_bytes (cmac_last_block data) (cmac_subkey P ?k data)"
  let ?pre = "take (16 * (?n - 1)) data"
  have n: "?n = (?n - 1) + 1" "16 * (?n - 1) \<le> length data" "max 1 ?n = ?n"
    using assms(4) by (cases data; auto)+
  let ?L = "aes_enc P ?k (replicate 16 0)"
  have L: "length ?L = 16" by (simp add: aes_lengths [OF assms(1)])
  note K1 = shift_left_xor_rb_dbl [OF L] and K2 = shift_left_xor_rb_dbl [OF shift_left_xor_rb_dbl(1) [OF L]]
  have "rev (le_bytes 16 (cmac_dbl (be128 ?L))) = shift_left_xor_rb ?L"
    "rev (le_bytes 16 (cmac_dbl (cmac_dbl (be128 ?L)))) = shift_left_xor_rb (shift_left_xor_rb ?L)"
    using rev_le_bytes_be128 [OF K1(1)] rev_le_bytes_be128 [OF K2(1)] by (simp_all add: K1(2) K2(2))
  then have "cmac_ref P ?k data = cbc_mac P ?k (replicate 16 0) ?n (?pre @ ?lb)"
    unfolding cmac_ref_def Let_def n(3) cmac_subkey_def cmac_last_block_split [OF assms(4)]
    using assms(4) by simp
  also have "\<dots> = cbc_mac P ?k (cbc_mac P ?k (replicate 16 0) (?n - 1) (?pre @ ?lb)) 1
                    (drop (16 * (?n - 1)) (?pre @ ?lb))"
    using cbc_mac_add n(1) by metis
  also have "\<dots> = cbc_mac P ?k (cbc_mac P ?k (replicate 16 0) (?n - 1) data) 1 ?lb"
    using n(2) cbc_mac_prefix [of "?n - 1" ?pre] cbc_mac_take [OF n(2)] by simp
  finally show ?thesis using cmac_driver [OF assms(1-3,5), of se] by simp
qed

text \<open>
  For an empty message the driver neither pads nor uses the second subkey: it encrypts the
  first subkey, which is not the CMAC of the empty message.
\<close>

lemma cmac_empty:
  assumes "se_engine_ok P eng" "ks < 16" "hi \<in> {0, 0x202}"
  shows "\<exists>se'. se_compute_aes_cmac eng ks 16 [] 0 hi se =
     Ok (aes_enc P (cfg_key se ks hi)
           (rev (le_bytes 16 (cmac_dbl (be128 (aes_enc P (cfg_key se ks hi) (replicate 16 0)))))), se')"
proof -
  let ?L = "aes_enc P (cfg_key se ks hi) (replicate 16 0)"
  have L: "length ?L = 16" by (simp add: aes_lengths [OF assms(1)])
  have "shift_left_xor_rb ?L = rev (le_bytes 16 (cmac_dbl (be128 ?L)))"
    using shift_left_xor_rb_dbl [OF L] rev_le_bytes_be128 by metis
  then show ?thesis
    using cmac_driver [OF assms, of "[]" se] shift_left_xor_rb_dbl(1) [OF L]
    by (auto simp: cmac_last_block_def cmac_subkey_def xor_bytes_zero xor_bytes_commute [of "replicate 16 0"])
qed

end
