(* ===== verification/GCM.thy ===== *)
theory GCM
  imports Sealed_Keys SE_Mac Fuse
begin

text \<open>
  \<^verbatim>\<open>gcm.c\<close>: the (non-standard) AES-GCM packages in which RSA private keys travel. The
  multiplication works on two 64-bit halves of a byte-reversed block; it is related to the
  shift-and-add definition of the product in the field, on one 128-bit word.
\<close>

section \<open>128-bit shifts and the product\<close>

definition shr_128 :: "u64 \<times> u64 \<Rightarrow> u64 \<times> u64" where
  "shr_128 v =
     (let (v0, v1) = v;
          v0 = drop_bit 1 v0;
          v0 = v0 OR push_bit 63 (v1 AND 1);
          v1 = drop_bit 1 v1
      in (v0, v1))"

definition shl_128 :: "u64 \<times> u64 \<Rightarrow> u64 \<times> u64" where
  "shl_128 v =
     (let (v0, v1) = v;
          v1 = push_bit 1 v1;
          v1 = v1 OR drop_bit 63 (v0 AND push_bit 63 1);
          v0 = push_bit 1 v0
      in (v0, v1))"

text \<open>
  One of the 128 rounds, on the halves of \<^verbatim>\<open>dst_work\<close>, \<^verbatim>\<open>x_work\<close> and \<^verbatim>\<open>y_work\<close>: byte \<^verbatim>\<open>0xF\<close> is
  the top byte of the upper half and byte 0 the lowest of the lower half.
\<close>

definition gf128_round ::
  "(u64 \<times> u64) \<times> (u64 \<times> u64) \<times> (u64 \<times> u64) \<Rightarrow> (u64 \<times> u64) \<times> (u64 \<times> u64) \<times> (u64 \<times> u64)"
where
  "gf128_round st =
     (let (d, x, y) = st;
          b = drop_bit 7 (drop_bit 56 (snd y) AND 0x80);
          d = (fst d XOR fst x * b, snd d XOR snd x * b);
          y = shl_128 y;
          xval = 0xE1 * (ucast (fst x) AND 1 :: u8);
          x = shr_128 x;
          x = (fst x, snd x XOR push_bit 56 (ucast xval))
      in (d, x, y))"

definition halves :: "bytes \<Rightarrow> u64 \<times> u64" where
  "halves work = (read64le work 0, read64le work 8)"

definition gf128_mul :: "bytes \<Rightarrow> bytes \<Rightarrow> bytes" where
  "gf128_mul x y =
     (let x_work = map (\<lambda>i. x ! (0xF - i)) [0..<0x10];
          y_work = map (\<lambda>i. y ! (0xF - i)) [0..<0x10];
          (d, _, _) = (gf128_round ^^ 0x80) ((0, 0), halves x_work, halves y_work);
          dst_work = le_bytes 8 (fst d) @ le_bytes 8 (snd d)
      in map (\<lambda>i. dst_work ! (0xF - i)) [0..<0x10])"

section \<open>GHASH\<close>

definition ghash_step :: "bytes \<Rightarrow> bytes \<Rightarrow> bytes \<Rightarrow> bytes" where
  "ghash_step h block x = gf128_mul (xor_bytes x block) h"

fun ghash_blocks :: "bytes \<Rightarrow> nat \<Rightarrow> bytes \<Rightarrow> bytes \<Rightarrow> bytes" where
  "ghash_blocks h 0 data x = x"
| "ghash_blocks h (Suc n) data x = ghash_blocks h n (drop 0x10 data) (ghash_step h (take 0x10 data) x)"

definition ghash ::
  "se_engine \<Rightarrow> bytes \<Rightarrow> nat \<Rightarrow> bytes \<Rightarrow> bool \<Rightarrow> se_state \<Rightarrow> (bytes \<times> se_state) res"
where
  "ghash eng data data_size j_block encrypt se =
     (let x = replicate 0x10 0; h = replicate 0x10 0 in
      bindR (se_aes_128_ecb_encrypt_block eng KEYSLOT_SWITCH_TEMPKEY h 0x10 x 0x10 se) (\<lambda>(h, se).
      let total_size = data_size;
          x = ghash_blocks h (data_size div 0x10) data x;
          data_size = data_size mod 0x10;
          x = (if data_size AND 0xF \<noteq> 0 then gf128_mul x h else x);
          xor_size = bswap64 (push_bit 3 (of_nat total_size));
          x = (if encrypt then blit x 0 (xor_bytes (take 8 x) (le_bytes 8 xor_size))
               else blit x 8 (xor_bytes (drop 8 x) (le_bytes 8 xor_size)));
          x = gf128_mul x h
      in if encrypt
         then bindR (se_aes_128_ecb_encrypt_block eng KEYSLOT_SWITCH_TEMPKEY h 0x10 j_block 0x10 se) (\<lambda>(h, se).
              Ok (xor_bytes x h, se))
         else Ok (x, se)))"

section \<open>Key packages\<close>

text \<open>
  Decryption returns the size of the key (0 on authentication failure), the destination
  buffer and the top byte of the device id of the package, for a caller that asks for it.
\<close>

definition gcm_decrypt_key ::
  "exocfg \<Rightarrow> se_engine \<Rightarrow> fuse_state \<Rightarrow> bytes \<Rightarrow> nat \<Rightarrow> bytes \<Rightarrow> nat \<Rightarrow> bytes \<Rightarrow> nat \<Rightarrow> bytes \<Rightarrow> nat \<Rightarrow> u32 \<Rightarrow> bool
   \<Rightarrow> se_state \<Rightarrow> (nat \<times> bytes \<times> u8 option \<times> se_state) res"
where
  "gcm_decrypt_key c eng f dst dst_size src src_size sealed_kek kek_size wrapped_key key_size usecase
     is_personalized se =
     bindR (if \<not> is_personalized
            then panic_if (src_size \<le> 0x10 \<or> src_size - 0x10 > dst_size)
            else panic_if (src_size \<le> 0x30 \<or> src_size - 0x20 > dst_size)) (\<lambda>_.
     let intermediate_buf = replicate 0x400 0 in
     bindR (unseal_key c eng KEYSLOT_SWITCH_TEMPKEY sealed_kek kek_size usecase se) (\<lambda>se.
     bindR (decrypt_data_into_keyslot eng KEYSLOT_SWITCH_TEMPKEY KEYSLOT_SWITCH_TEMPKEY wrapped_key key_size se) (\<lambda>se.
     bindR (se_aes_ctr_crypt eng KEYSLOT_SWITCH_TEMPKEY intermediate_buf dst_size
              (bslice src 0x10 (src_size - 0x10)) (src_size - 0x10) (take 0x10 src) 0x10 se)
       (\<lambda>(intermediate_buf, se).
     if \<not> is_personalized
     then Ok (src_size - 0x10, blit dst 0 (take (src_size - 0x10) intermediate_buf), None, se)
     else
       bindR (ghash eng (take 0x10 src) 0x10 [] False se) (\<lambda>(j_block, se).
       bindR (ghash eng intermediate_buf (src_size - 0x20) j_block True se) (\<lambda>(calc_mac, se).
       if bslice src (src_size - 0x10) 0x10 \<noteq> calc_mac then Ok (0, dst, None, se)
       else if read64be intermediate_buf (src_size - 0x28) AND 0x00FFFFFFFFFFFFFF \<noteq> fuse_get_device_id f
       then Ok (0, dst, None, se)
       else Ok (src_size - 0x30, blit dst 0 (take (src_size - 0x30) intermediate_buf),
                Some (intermediate_buf ! (src_size - 0x28)), se)))))))"

text \<open>
  Encryption for import. The code builds the package in \<^verbatim>\<open>intermediate_buf\<close> and, as in the
  source, never copies \<^verbatim>\<open>src\<close> into it.
\<close>

definition gcm_encrypt_key ::
  "exocfg \<Rightarrow> se_engine \<Rightarrow> fuse_state \<Rightarrow> bytes \<Rightarrow> nat \<Rightarrow> bytes \<Rightarrow> nat \<Rightarrow> bytes \<Rightarrow> nat \<Rightarrow> bytes \<Rightarrow> nat \<Rightarrow> u32 \<Rightarrow> u64
   \<Rightarrow> se_state \<Rightarrow> (bytes \<times> se_state) res"
where
  "gcm_encrypt_key c eng f dst dst_size src src_size sealed_kek kek_size wrapped_key key_size usecase
     deviceid_high se =
     (let intermediate_buf = replicate 0x400 0 in
      bindR (panic_if (src_size + 0x30 > dst_size)) (\<lambda>_.
      bindR (unseal_key c eng KEYSLOT_SWITCH_TEMPKEY sealed_kek kek_size usecase se) (\<lambda>se.
      bindR (decrypt_data_into_keyslot eng KEYSLOT_SWITCH_TEMPKEY KEYSLOT_SWITCH_TEMPKEY wrapped_key key_size se) (\<lambda>se.
      bindR (se_generate_random eng KEYSLOT_SWITCH_RNGKEY intermediate_buf 0x10 se) (\<lambda>(intermediate_buf, se).
      let intermediate_buf = write64be intermediate_buf (src_size + 0x18)
                               (fuse_get_device_id f OR push_bit 56 deviceid_high)
      in bindR (ghash eng (take 0x10 intermediate_buf) 0x10 [] False se) (\<lambda>(j_block, se).
      bindR (ghash eng (drop 0x10 intermediate_buf) (src_size + 0x10) j_block True se) (\<lambda>(mac, se).
      let intermediate_buf = blit intermediate_buf (src_size + 0x20) mac
      in bindR (se_aes_ctr_crypt eng KEYSLOT_SWITCH_TEMPKEY (drop 0x10 intermediate_buf) (src_size + 0x10)
                  (bslice intermediate_buf 0x10 (src_size + 0x10)) (src_size + 0x10) (take 0x10 intermediate_buf) 0x10 se)
           (\<lambda>(body, se).
         let intermediate_buf = take 0x10 intermediate_buf @ body
         in Ok (blit dst 0 (take (src_size + 0x30) intermediate_buf), se)))))))))"

section \<open>The product against its definition\<close>

text \<open>
  The field product on one word: \<open>gf_half\<close> divides by the generator, and the product adds
  the multiples of the first factor that the bits of the second select, from the top.
\<close>

definition w128 :: "u64 \<times> u64 \<Rightarrow> 128 word" where
  "w128 v = ucast (fst v) OR push_bit 64 (ucast (snd v))"

definition gf_half :: "128 word \<Rightarrow> 128 word" where
  "gf_half x = drop_bit 1 x XOR (if bit x 0 then push_bit 120 0xE1 else 0)"

fun gf_acc :: "128 word \<Rightarrow> 128 word \<Rightarrow> nat \<Rightarrow> 128 word" where
  "gf_acc X Y 0 = 0"
| "gf_acc X Y (Suc n) = gf_acc X Y n XOR (if bit Y (127 - n) then (gf_half ^^ n) X else 0)"

definition gf_mul :: "128 word \<Rightarrow> 128 word \<Rightarrow> 128 word" where
  "gf_mul X Y = gf_acc X Y 128"

lemma bit_w128: "bit (w128 v) n \<longleftrightarrow> (if n < 64 then bit (fst v) n else n < 128 \<and> bit (snd v) (n - 64))"
  using bit_imp_le_length [of "fst v" n]
  by (auto simp: w128_def bit_or_iff bit_push_bit_iff bit_ucast_iff)

lemma bit_shr_128:
  "bit (fst (shr_128 (v0, v1))) n \<longleftrightarrow> (n < 63 \<and> bit v0 (Suc n)) \<or> (n = 63 \<and> bit v1 0)"
  "bit (snd (shr_128 (v0, v1))) n \<longleftrightarrow> bit v1 (Suc n)"
  by (simp_all only: shr_128_def Let_def prod.case fst_conv snd_conv bit_or_iff bit_drop_bit_eq
      bit_push_bit_iff bit_and_iff bit_1_iff)
     (auto dest: bit_imp_le_length)

lemma bit_and_top: "bit (v AND 0x8000000000000000 :: u64) m \<longleftrightarrow> m = 63 \<and> bit v 63"
proof -
  have "(0x8000000000000000 :: u64) = push_bit 63 1" by simp
  then show ?thesis by (simp only: bit_and_iff bit_push_bit_iff bit_1_iff) auto
qed

lemma bit_shl_128:
  "bit (fst (shl_128 (v0, v1))) n \<longleftrightarrow> n < 64 \<and> n \<noteq> 0 \<and> bit v0 (n - 1)"
  "bit (snd (shl_128 (v0, v1))) n \<longleftrightarrow> n < 64 \<and> (if n = 0 then bit v0 63 else bit v1 (n - 1))"
  by (simp_all only: shl_128_def Let_def prod.case fst_conv snd_conv bit_or_iff bit_drop_bit_eq
      bit_push_bit_iff bit_and_iff bit_1_iff)
     (auto simp: bit_and_top dest: bit_imp_le_length)

lemma w128_shr: "w128 (shr_128 v) = drop_bit 1 (w128 v)"
proof (cases v)
  case (Pair v0 v1)
  show ?thesis
  proof (rule bit_word_eqI)
    fix n assume n: "n < LENGTH(128)"
    show "bit (w128 (shr_128 v)) n = bit (drop_bit 1 (w128 v)) n"
    proof (cases "n < 64")
      case False
      then obtain m where "n = 64 + m" by (metis le_Suc_ex not_less)
      then show ?thesis using n by (auto simp: Pair bit_w128 bit_shr_128 bit_drop_bit_eq dest: bit_imp_le_length)
    qed (auto simp: Pair bit_w128 bit_shr_128 bit_drop_bit_eq)
  qed
qed

lemma w128_shl: "w128 (shl_128 v) = push_bit 1 (w128 v)"
proof (cases v)
  case (Pair v0 v1)
  show ?thesis
  proof (rule bit_word_eqI)
    fix n assume n: "n < LENGTH(128)"
    have "bit (w128 (shl_128 v)) n \<longleftrightarrow> n \<noteq> 0 \<and> bit (w128 v) (n - 1)"
    proof (cases "n < 64")
      case True
      then show ?thesis by (auto simp: Pair bit_w128 bit_shl_128)
    next
      case False
      then obtain m where "n = 64 + m" by (metis le_Suc_ex not_less)
      then show ?thesis using n by (cases m) (auto simp: Pair bit_w128 bit_shl_128)
    qed
    then show "bit (w128 (shl_128 v)) n = bit (push_bit 1 (w128 v)) n"
      using n by (cases n) (auto simp: bit_times2)
  qed
qed

lemma gf128_round_spec:
  assumes "gf128_round (d, x, y) = (d', x', y')"
  shows "w128 d' = w128 d XOR (if bit (w128 y) 127 then w128 x else 0)"
    "w128 x' = gf_half (w128 x)" "w128 y' = push_bit 1 (w128 y)"
proof -
  let ?b = "drop_bit 7 (drop_bit 56 (snd y) AND 0x80)"
  have m: "(0x80 :: u64) = push_bit 7 1" by simp
  have b: "?b = (if bit (w128 y) 127 then 1 else 0)"
    by (rule bit_word_eqI)
       (auto simp: bit_w128 bit_drop_bit_eq bit_and_iff m bit_push_bit_iff bit_1_iff simp del: push_bit_of_1 push_bit_numeral
         dest: bit_imp_le_length intro: Nat.gr0I)
  have d': "d' = (fst d XOR fst x * ?b, snd d XOR snd x * ?b)" and y': "y' = shl_128 y"
    and x': "x' = (fst (shr_128 x), snd (shr_128 x) XOR push_bit 56 (ucast (0xE1 * (ucast (fst x) AND 1 :: u8))))"
    using assms by (simp_all add: gf128_round_def Let_def)
  show "w128 d' = w128 d XOR (if bit (w128 y) 127 then w128 x else 0)"
    unfolding d' b by (rule bit_word_eqI) (auto simp: bit_w128 bit_xor_iff)
  show "w128 y' = push_bit 1 (w128 y)" unfolding y' by (rule w128_shl)
  have "(ucast (fst x) AND 1 :: u8) = (if bit (w128 x) 0 then 1 else 0)"
    by (rule bit_word_eqI) (auto simp: bit_w128 bit_and_iff bit_1_iff bit_ucast_iff intro: Nat.gr0I)
  then have xv: "ucast (0xE1 * (ucast (fst x) AND 1 :: u8)) = (if bit (w128 x) 0 then 0xE1 else 0 :: u64)"
    by simp
  have w: "w128 (lo, hi XOR push_bit 56 v) = w128 (lo, hi) XOR push_bit 120 (ucast v)" for lo hi v :: u64
  proof (rule bit_word_eqI)
    fix n assume n: "n < LENGTH(128)"
    show "bit (w128 (lo, hi XOR push_bit 56 v)) n = bit (w128 (lo, hi) XOR push_bit 120 (ucast v)) n"
    proof (cases "n < 64")
      case False
      then obtain m where "n = 64 + m" by (metis le_Suc_ex not_less)
      then show ?thesis using n by (auto simp: bit_w128 bit_xor_iff bit_push_bit_iff bit_ucast_iff)
    qed (simp add: bit_w128 bit_xor_iff bit_push_bit_iff)
  qed
  show "w128 x' = gf_half (w128 x)"
    unfolding x' xv gf_half_def w128_shr [symmetric]
    using w [of "fst (shr_128 x)" "snd (shr_128 x)" "0xE1"] by (cases "bit (w128 x) 0") simp_all
qed

lemma gf128_iterate:
  assumes "n \<le> 128" "(gf128_round ^^ n) ((0, 0), x, y) = (d, x', y')"
  shows "w128 d = gf_acc (w128 x) (w128 y) n" "w128 x' = (gf_half ^^ n) (w128 x)" "w128 y' = push_bit n (w128 y)"
proof -
  have "w128 d = gf_acc (w128 x) (w128 y) n \<and> w128 x' = (gf_half ^^ n) (w128 x) \<and> w128 y' = push_bit n (w128 y)"
    using assms
  proof (induction n arbitrary: d x' y')
    case 0
    then show ?case by (auto simp: w128_def)
  next
    case (Suc n)
    obtain d1 x1 y1 where r: "(gf128_round ^^ n) ((0, 0), x, y) = (d1, x1, y1)" by (metis prod_cases3)
    then have IH: "w128 d1 = gf_acc (w128 x) (w128 y) n" "w128 x1 = (gf_half ^^ n) (w128 x)"
      "w128 y1 = push_bit n (w128 y)" using Suc by auto
    have s: "gf128_round (d1, x1, y1) = (d, x', y')" using Suc.prems(2) r by simp
    have "bit (push_bit n (w128 y)) 127 = bit (w128 y) (127 - n)"
      using Suc.prems(1) by (auto simp: bit_push_bit_iff)
    then show ?case
      using gf128_round_spec [OF s] IH by (simp add: push_bit_Suc push_bit_double funpow_swap1)
  qed
  then show "w128 d = gf_acc (w128 x) (w128 y) n" "w128 x' = (gf_half ^^ n) (w128 x)" "w128 y' = push_bit n (w128 y)"
    by auto
qed

lemma rev_map16: "length xs = 16 \<Longrightarrow> map (\<lambda>i. xs ! (0xF - i)) [0..<0x10] = rev xs"
  by (rule nth_equalityI) (auto simp: rev_nth)

lemma w128_halves:
  assumes "length work = 16"
  shows "w128 (halves work) = le_word work"
proof (rule bit_word_eqI)
  fix n assume n: "n < LENGTH(128)"
  show "bit (w128 (halves work)) n = bit (le_word work :: 128 word) n"
  proof (cases "n < 64")
    case True
    then have "n div 8 < 8" by (simp add: less_mult_imp_div_less)
    then show ?thesis using True assms
      by (auto simp: bit_w128 halves_def read64le_def bit_le_word nth_bslice)
  next
    case False
    then obtain m where m: "n = 64 + m" by (metis le_Suc_ex not_less)
    then have "m div 8 < 8" "(64 + m) div 8 = 8 + m div 8" "(64 + m) mod 8 = m mod 8"
      using n mod_mult_self1 [of m 8 8] by (simp_all add: less_mult_imp_div_less add.commute)
    then show ?thesis using m n assms
      by (auto simp: bit_w128 halves_def read64le_def bit_le_word nth_bslice)
  qed
qed

lemma halves_le_bytes: "halves (le_bytes 8 a @ le_bytes 8 b) = (a, b)"
  by (simp add: halves_def read64le_def bslice_def)

lemma length_gf128_mul [simp]: "length (gf128_mul x y) = 16"
  by (simp add: gf128_mul_def Let_def split_beta)

theorem gf128_mul_spec:
  assumes "length x = 16" "length y = 16"
  shows "be128 (gf128_mul x y) = gf_mul (be128 x) (be128 y)"
proof -
  obtain d x' y' where r: "(gf128_round ^^ 0x80) ((0, 0), halves (rev x), halves (rev y)) = (d, x', y')"
    by (metis prod_cases3)
  let ?dw = "le_bytes 8 (fst d) @ le_bytes 8 (snd d)"
  have "gf128_mul x y = rev ?dw"
    unfolding gf128_mul_def Let_def rev_map16 [OF assms(1)] rev_map16 [OF assms(2)] r prod.case
    by (rule rev_map16) simp
  then have "be128 (gf128_mul x y) = w128 (halves ?dw)"
    using w128_halves [of ?dw] by (simp add: be128_def)
  also have "\<dots> = gf_acc (w128 (halves (rev x))) (w128 (halves (rev y))) 128"
    using gf128_iterate(1) [OF _ r] halves_le_bytes [of "fst d" "snd d"] by simp
  finally show ?thesis using assms by (simp only: w128_halves length_rev gf_mul_def be128_def)
qed

text \<open>The product is additive in both factors, which is what makes GHASH a polynomial hash.\<close>

lemma gf_half_xor: "gf_half (a XOR b) = gf_half a XOR gf_half b"
proof -
  have "drop_bit 1 (a XOR b) = drop_bit 1 a XOR drop_bit 1 b" by (simp add: drop_bit_xor)
  then show ?thesis
    by (cases "bit a 0"; cases "bit b 0") (simp_all add: gf_half_def bit_xor_iff xor.assoc xor.left_commute xor.commute)
qed

lemma gf_half_pow_xor: "(gf_half ^^ n) (a XOR b) = (gf_half ^^ n) a XOR (gf_half ^^ n) b"
  by (induction n) (simp_all add: gf_half_xor)

lemma gf_acc_xor_left: "gf_acc (a XOR b) Y n = gf_acc a Y n XOR gf_acc b Y n"
  by (induction n) (simp_all add: gf_half_pow_xor xor.assoc xor.left_commute)

lemma gf_acc_xor_right: "gf_acc X (a XOR b) n = gf_acc X a n XOR gf_acc X b n"
proof (induction n)
  case (Suc n)
  then show ?case
    by (cases "bit a (127 - n)"; cases "bit b (127 - n)")
       (simp_all add: bit_xor_iff xor.assoc xor.left_commute xor.commute)
qed simp

section \<open>GHASH and the packages\<close>

definition ghash_spec :: "se_prims \<Rightarrow> bytes \<Rightarrow> bytes \<Rightarrow> nat \<Rightarrow> bytes \<Rightarrow> bool \<Rightarrow> bytes" where
  "ghash_spec P k data n j_block encrypt =
     (let h = aes_enc P k (replicate 16 0);
          x = ghash_blocks h (n div 16) data (replicate 16 0);
          x = (if n mod 16 \<noteq> 0 then gf128_mul x h else x);
          len = rev (le_bytes 8 (push_bit 3 (of_nat n) :: u64));
          x = (if encrypt then xor_bytes (take 8 x) len @ drop 8 x else take 8 x @ xor_bytes (drop 8 x) len);
          x = gf128_mul x h
      in if encrypt then xor_bytes x (aes_enc P k j_block) else x)"

lemma and_15: "n mod 16 AND 15 = n mod 16" for n :: nat
proof -
  have "(15 :: nat) = mask 4" by (simp add: mask_eq_exp_minus_1)
  then show ?thesis by (simp only: take_bit_eq_mask [symmetric] take_bit_eq_mod) simp
qed

lemma length_ghash_blocks: "length x = 16 \<Longrightarrow> length (ghash_blocks h n data x) = 16"
  by (induction n arbitrary: data x) (simp_all add: ghash_step_def)

lemma ecb128_ok:
  assumes ok: "se_engine_ok P eng" and "ks < 16" "length src = 16" "length dst = 16"
  shows "\<exists>se'. se_aes_128_ecb_encrypt_block eng ks dst 16 src 16 se = Ok (aes_enc P (aes_key se ks) src, se')
     \<and> se_core se' = se_core se"
  using ecb_encrypt_ok [OF ok assms(2), of 0 src dst se] assms(2-)
  by (simp add: se_aes_128_ecb_encrypt_block_def cfg_key_128)

lemma blit_halves:
  assumes "length x = 16" "length l = 8"
  shows "blit x 0 (xor_bytes (take 8 x) l) = xor_bytes (take 8 x) l @ drop 8 x"
    "blit x 8 (xor_bytes (drop 8 x) l) = take 8 x @ xor_bytes (drop 8 x) l"
  using assms by (simp_all add: blit_def)

lemma ghash_ok:
  assumes ok: "se_engine_ok P eng" and j: "encrypt \<Longrightarrow> length j = 16"
  shows "\<exists>se'. ghash eng data n j encrypt se = Ok (ghash_spec P (aes_key se 9) data n j encrypt, se')
     \<and> se_core se' = se_core se"
proof -
  let ?z = "replicate 16 0 :: bytes" and ?h = "aes_enc P (aes_key se 9) (replicate 16 0)"
  obtain s1 where s1: "se_aes_128_ecb_encrypt_block eng 9 ?z 16 ?z 16 se = Ok (?h, s1)" "se_core s1 = se_core se"
    using ecb128_ok [OF ok, of 9 ?z ?z se] by auto
  show ?thesis
  proof (cases encrypt)
    case False
    then show ?thesis
      using s1 unfolding ghash_def ghash_spec_def Let_def and_15
      by (simp add: blit_halves length_ghash_blocks)
  next
    case True
    have h: "length ?h = 16" by (simp add: aes_lengths [OF ok])
    obtain s2 where s2: "se_aes_128_ecb_encrypt_block eng 9 ?h 16 j 16 s1 = Ok (aes_enc P (aes_key se 9) j, s2)"
        "se_core s2 = se_core s1"
      using ecb128_ok [OF ok, of 9 j ?h s1] j [OF True] h aes_key_core_eq [OF s1(2)] by auto
    then show ?thesis
      using True s1 unfolding ghash_def ghash_spec_def Let_def and_15
      by (simp add: blit_halves length_ghash_blocks)
  qed
qed

text \<open>What a package decrypts to, and what makes it authentic.\<close>

definition gcm_key :: "se_prims \<Rightarrow> bytes \<Rightarrow> u32 \<Rightarrow> bytes \<Rightarrow> bytes \<Rightarrow> bytes" where
  "gcm_key P session usecase kek wrapped =
     aes_dec P (unsealed_form P session (g_seal_key_sources ! unat usecase) kek) wrapped"

definition gcm_plain :: "se_prims \<Rightarrow> bytes \<Rightarrow> bytes \<Rightarrow> nat \<Rightarrow> bytes" where
  "gcm_plain P K src n =
     xor_bytes (bslice src 16 (n - 16)) (ctr_stream P K (ctr_words (take 16 src)) ((n - 16 + 15) div 16))"

definition gcm_mac :: "se_prims \<Rightarrow> bytes \<Rightarrow> bytes \<Rightarrow> nat \<Rightarrow> bytes" where
  "gcm_mac P K src n =
     ghash_spec P K (blit (replicate 0x400 0) 0 (gcm_plain P K src n)) (n - 0x20)
       (ghash_spec P K (take 16 src) 16 [] False) True"

definition gcm_authentic :: "se_prims \<Rightarrow> fuse_state \<Rightarrow> bytes \<Rightarrow> bytes \<Rightarrow> nat \<Rightarrow> bool" where
  "gcm_authentic P f K src n \<longleftrightarrow> bslice src (n - 16) 16 = gcm_mac P K src n
     \<and> read64be (gcm_plain P K src n) (n - 0x28) AND 0x00FFFFFFFFFFFFFF = fuse_get_device_id f"

lemma length_gcm_plain: "se_engine_ok P eng \<Longrightarrow> 16 \<le> n \<Longrightarrow> n \<le> length src \<Longrightarrow> length (gcm_plain P K src n) = n - 16"
  by (simp add: gcm_plain_def length_ctr_stream)

lemma take_blit_0: "k \<le> length bs \<Longrightarrow> take k (blit buf 0 bs) = take k bs"
  by (simp add: blit_def)

lemma bslice_blit_0: "off + k \<le> length bs \<Longrightarrow> bslice (blit buf 0 bs) off k = bslice bs off k"
  by (simp add: bslice_def blit_def)

lemma gcm_unwrap_ok:
  assumes ok: "se_engine_ok P eng" and c: "g_has_loaded_config c" "u < usecase_limit (fw_of c)"
    and kek: "length kek = 16" "length wrapped = 16"
  shows "\<exists>se'. bindR (unseal_key c eng 9 kek 16 u se) (\<lambda>se. decrypt_data_into_keyslot eng 9 9 wrapped 16 se) = Ok se'
     \<and> se_keep se se' \<and> aes_key se' = (aes_key se)(9 := gcm_key P (aes_key se 0xA) u kek wrapped)"
proof -
  obtain s1 where s1: "unseal_key c eng 9 kek 16 u se = Ok s1" "se_keep se s1"
      "aes_key s1 = (aes_key se)(9 := unsealed_form P (aes_key se 0xA) (g_seal_key_sources ! unat u) kek)"
    using unseal_key_ok [OF ok c kek(1), of 9 se] by auto
  obtain s2 where "decrypt_data_into_keyslot eng 9 9 wrapped 16 s1 = Ok s2" "se_keep s1 s2"
      "aes_key s2 = (aes_key s1)(9 := aes_dec P (aes_key s1 9) wrapped)"
    using decrypt_into_keyslot_ok [OF ok _ _ kek(2), of 9 9 s1] by auto
  then show ?thesis using s1 se_keep_trans by (auto simp: gcm_key_def)
qed

lemma gcm_ctr_ok:
  assumes ok: "se_engine_ok P eng" and n: "16 < n" "n \<le> length src" "n \<le> dn" "dn \<le> 0x400"
    and "length (CRYPTO_CTR_REG se) = 4" "aes_key se 9 = K"
  shows "\<exists>se'. se_aes_ctr_crypt eng 9 (replicate 0x400 0) dn (bslice src 16 (n - 16)) (n - 16) (take 16 src) 16 se =
     Ok (blit (replicate 0x400 0) 0 (gcm_plain P K src n), se') \<and> se_core se' = se_core se"
proof -
  have "n - 16 = length (bslice src 16 (n - 16))" "n - 16 < 2 ^ 32" "n - 16 \<le> dn" "dn \<le> length (replicate 0x400 (0::u8))"
    using n by auto
  from ctr_crypt_ok [OF ok _ this assms(6), of 9 "take 16 src"] show ?thesis
    by (simp add: gcm_plain_def assms(7))
qed

lemma gcm_decrypt_personalized:
  fixes se :: se_state
  assumes ok: "se_engine_ok P eng" and c: "g_has_loaded_config c" "u < usecase_limit (fw_of c)"
    and kek: "length kek = 16" "length wrapped = 16" and n: "0x30 < n" "n \<le> length src" "n \<le> dn" "dn \<le> 0x400"
    and ctr: "length (CRYPTO_CTR_REG se) = 4"
  defines "K \<equiv> gcm_key P (aes_key se 0xA) u kek wrapped"
  shows "\<exists>se'. gcm_decrypt_key c eng f dst dn src n kek 16 wrapped 16 u True se =
       Ok (if gcm_authentic P f K src n
           then (n - 0x30, blit dst 0 (take (n - 0x30) (gcm_plain P K src n)),
                 Some (gcm_plain P K src n ! (n - 0x28)), se')
           else (0, dst, None, se'))
     \<and> se_keep se se' \<and> aes_key se' = (aes_key se)(9 := K)"
proof -
  obtain s2 where s2: "bindR (unseal_key c eng 9 kek 16 u se) (\<lambda>se. decrypt_data_into_keyslot eng 9 9 wrapped 16 se) = Ok s2"
      "se_keep se s2" "aes_key s2 = (aes_key se)(9 := K)"
    using gcm_unwrap_ok [OF ok c kek] by (auto simp: K_def)
  obtain s1 where s1: "unseal_key c eng 9 kek 16 u se = Ok s1" "decrypt_data_into_keyslot eng 9 9 wrapped 16 s1 = Ok s2"
    using s2(1) by (rule bindR_OkE)
  let ?p = "gcm_plain P K src n" and ?z = "replicate 0x400 0 :: bytes"
  have lp: "length ?p = n - 16" using length_gcm_plain [OF ok] n by simp
  have "length (CRYPTO_CTR_REG s2) = 4" using se_keep_ctr_length [OF s2(2)] ctr by simp
  then obtain s3 where s3: "se_aes_ctr_crypt eng 9 ?z dn (bslice src 16 (n - 16)) (n - 16) (take 16 src) 16 s2 = Ok (blit ?z 0 ?p, s3)"
      "se_core s3 = se_core s2"
    using gcm_ctr_ok [OF ok _ n(2-4), of s2 K] n(1) s2(3) by auto
  let ?j = "ghash_spec P K (take 16 src) 16 [] False"
  have lj: "length ?j = 16" by (simp add: ghash_spec_def Let_def)
  have k3: "aes_key s3 9 = K" using aes_key_core_eq [OF s3(2)] s2(3) by simp
  obtain s4 where s4: "ghash eng (take 16 src) 16 [] False s3 = Ok (?j, s4)" "se_core s4 = se_core s3"
    using ghash_ok [OF ok, of False "[]" "take 16 src" 16 s3] k3 by auto
  have k4: "aes_key s4 9 = K" using aes_key_core_eq [OF s4(2)] k3 by simp
  obtain s5 where s5: "ghash eng (blit ?z 0 ?p) (n - 0x20) ?j True s4 = Ok (gcm_mac P K src n, s5)" "se_core s5 = se_core s4"
    using ghash_ok [OF ok, of True ?j "blit ?z 0 ?p" "n - 0x20" s4] k4 lj by (auto simp: gcm_mac_def)
  have core: "se_core s5 = se_core s2" using s3(2) s4(2) s5(2) by simp
  have r: "read64be (blit ?z 0 ?p) (n - 0x28) = read64be ?p (n - 0x28)"
    using lp n by (simp add: read64be_def read64le_def bslice_blit_0)
  have t: "take (n - 0x30) (blit ?z 0 ?p) = take (n - 0x30) ?p" "blit ?z 0 ?p ! (n - 0x28) = ?p ! (n - 0x28)"
  proof -
    have "n - 0x28 < n - 16" using n by arith
    then show "take (n - 0x30) (blit ?z 0 ?p) = take (n - 0x30) ?p" "blit ?z 0 ?p ! (n - 0x28) = ?p ! (n - 0x28)"
      using lp n by (simp_all add: take_blit_0 blit_def nth_append)
  qed
  have guard: "\<not> (n \<le> 0x30 \<or> dn < n - 0x20)" using n by auto
  have "gcm_decrypt_key c eng f dst dn src n kek 16 wrapped 16 u True se =
       Ok (if gcm_authentic P f K src n
           then (n - 0x30, blit dst 0 (take (n - 0x30) ?p), Some (?p ! (n - 0x28)), s5)
           else (0, dst, None, s5))"
    using s1 s3(1) s4(1) s5(1) r t guard
    by (simp add: gcm_decrypt_key_def gcm_authentic_def Let_def)
  moreover have "se_keep se s5" using s2(2) se_keep_core [OF core] se_keep_trans by blast
  moreover have "aes_key s5 = (aes_key se)(9 := K)" using aes_key_core_eq [OF core] s2(3) by simp
  ultimately show ?thesis by auto
qed

lemma gcm_decrypt_dev:
  fixes se :: se_state
  assumes ok: "se_engine_ok P eng" and c: "g_has_loaded_config c" "u < usecase_limit (fw_of c)"
    and kek: "length kek = 16" "length wrapped = 16" and n: "0x10 < n" "n \<le> length src" "n \<le> dn" "dn \<le> 0x400"
    and ctr: "length (CRYPTO_CTR_REG se) = 4"
  defines "K \<equiv> gcm_key P (aes_key se 0xA) u kek wrapped"
  shows "\<exists>se'. gcm_decrypt_key c eng f dst dn src n kek 16 wrapped 16 u False se =
       Ok (n - 16, blit dst 0 (gcm_plain P K src n), None, se')
     \<and> se_keep se se' \<and> aes_key se' = (aes_key se)(9 := K)"
proof -
  obtain s2 where s2: "bindR (unseal_key c eng 9 kek 16 u se) (\<lambda>se. decrypt_data_into_keyslot eng 9 9 wrapped 16 se) = Ok s2"
      "se_keep se s2" "aes_key s2 = (aes_key se)(9 := K)"
    using gcm_unwrap_ok [OF ok c kek] by (auto simp: K_def)
  obtain s1 where s1: "unseal_key c eng 9 kek 16 u se = Ok s1" "decrypt_data_into_keyslot eng 9 9 wrapped 16 s1 = Ok s2"
    using s2(1) by (rule bindR_OkE)
  let ?p = "gcm_plain P K src n" and ?z = "replicate 0x400 0 :: bytes"
  have lp: "length ?p = n - 16" using length_gcm_plain [OF ok] n by simp
  have "length (CRYPTO_CTR_REG s2) = 4" using se_keep_ctr_length [OF s2(2)] ctr by simp
  then obtain s3 where s3: "se_aes_ctr_crypt eng 9 ?z dn (bslice src 16 (n - 16)) (n - 16) (take 16 src) 16 s2 = Ok (blit ?z 0 ?p, s3)"
      "se_core s3 = se_core s2"
    using gcm_ctr_ok [OF ok _ n(2-4), of s2 K] n(1) s2(3) by auto
  have guard: "\<not> (n \<le> 0x10 \<or> dn < n - 0x10)" using n by auto
  have "gcm_decrypt_key c eng f dst dn src n kek 16 wrapped 16 u False se = Ok (n - 16, blit dst 0 ?p, None, s3)"
    using s1 s3(1) guard lp by (simp add: gcm_decrypt_key_def Let_def take_blit_0)
  moreover have "se_keep se s3" using s2(2) se_keep_core [OF s3(2)] se_keep_trans by blast
  moreover have "aes_key s3 = (aes_key se)(9 := K)" using aes_key_core_eq [OF s3(2)] s2(3) by simp
  ultimately show ?thesis by auto
qed

text \<open>A package whose sizes do not fit is refused before any key is touched.\<close>

lemma gcm_decrypt_key_size_panic:
  "n \<le> 0x30 \<or> dn < n - 0x20 \<Longrightarrow> gcm_decrypt_key c eng f dst dn src n kek kn w wn u True se = generic_panic"
  by (auto simp: gcm_decrypt_key_def bindR_panic_if)

end
