(* ===== verification/Memory_Map.thy ===== *)
theory Memory_Map
  imports Exo_Config
begin

text \<open>
  \<^verbatim>\<open>mmu.h\<close>, \<^verbatim>\<open>memory_map.h\<close> and the translation tables that \<^verbatim>\<open>coldboot_init.c\<close> builds: page
  table entries and indices for the 4 KiB granule, the monitor's segments, and the order
  in which they are written to the tables. A table is the list of its 512 entries.
\<close>

section \<open>Page tables\<close>

type_synonym ptbl = "u64 list"

abbreviation (input) MMU_PTE_TYPE_FAULT :: u64 where "MMU_PTE_TYPE_FAULT \<equiv> 0"
abbreviation (input) MMU_PTE_TYPE_TABLE :: u64 where "MMU_PTE_TYPE_TABLE \<equiv> 3"
abbreviation (input) MMU_PTE_TYPE_BLOCK :: u64 where "MMU_PTE_TYPE_BLOCK \<equiv> 1"
abbreviation (input) MMU_PTE_TYPE_PAGE :: u64 where "MMU_PTE_TYPE_PAGE \<equiv> 3"
abbreviation (input) MMU_PTE_BLOCK_NS :: u64 where "MMU_PTE_BLOCK_NS \<equiv> 0x20"
abbreviation (input) MMU_PTE_BLOCK_INNER_SHAREBLE :: u64 where "MMU_PTE_BLOCK_INNER_SHAREBLE \<equiv> 0x300"
abbreviation (input) MMU_PTE_BLOCK_AF :: u64 where "MMU_PTE_BLOCK_AF \<equiv> 0x400"
abbreviation (input) MMU_PTE_BLOCK_XN :: u64 where "MMU_PTE_BLOCK_XN \<equiv> 0x40000000000000"
abbreviation (input) MMU_AP_PRIV_RO :: u64 where "MMU_AP_PRIV_RO \<equiv> 0x80"
abbreviation (input) ATTRIB_MEMTYPE_NORMAL :: u64 where "ATTRIB_MEMTYPE_NORMAL \<equiv> 0"
abbreviation (input) ATTRIB_MEMTYPE_DEVICE :: u64 where "ATTRIB_MEMTYPE_DEVICE \<equiv> 4"

definition MMU_Lx_SHIFT :: "nat \<Rightarrow> nat" where
  "MMU_Lx_SHIFT x = 12 + 9 * (3 - x)"

definition mmu_init_table :: "ptbl \<Rightarrow> nat \<Rightarrow> ptbl" where
  "mmu_init_table tbl num_entries = fold (\<lambda>i tbl. tbl[i := MMU_PTE_TYPE_FAULT]) [0..<num_entries div 8] tbl"

definition mmu_compute_index :: "nat \<Rightarrow> u64 \<Rightarrow> nat" where
  "mmu_compute_index level base_addr = unat (drop_bit (MMU_Lx_SHIFT level) base_addr AND mask 9)"

definition mmu_map_table :: "nat \<Rightarrow> ptbl \<Rightarrow> u64 \<Rightarrow> u64 \<Rightarrow> u64 \<Rightarrow> ptbl" where
  "mmu_map_table level tbl base_addr next_lvl_tbl_pa attrs =
     tbl[mmu_compute_index level base_addr := next_lvl_tbl_pa OR attrs OR MMU_PTE_TYPE_TABLE]"

definition mmu_map_block :: "nat \<Rightarrow> ptbl \<Rightarrow> u64 \<Rightarrow> u64 \<Rightarrow> u64 \<Rightarrow> ptbl" where
  "mmu_map_block level tbl base_addr phys_addr attrs =
     tbl[mmu_compute_index level base_addr := phys_addr OR attrs OR MMU_PTE_BLOCK_AF OR MMU_PTE_TYPE_BLOCK]"

definition mmu_map_page :: "ptbl \<Rightarrow> u64 \<Rightarrow> u64 \<Rightarrow> u64 \<Rightarrow> ptbl" where
  "mmu_map_page tbl base_addr phys_addr attrs =
     tbl[mmu_compute_index 3 base_addr := phys_addr OR attrs OR MMU_PTE_BLOCK_AF OR MMU_PTE_TYPE_PAGE]"

definition mmu_unmap :: "nat \<Rightarrow> ptbl \<Rightarrow> u64 \<Rightarrow> ptbl" where
  "mmu_unmap level tbl base_addr = tbl[mmu_compute_index level base_addr := MMU_PTE_TYPE_FAULT]"

definition mmu_unmap_page :: "ptbl \<Rightarrow> u64 \<Rightarrow> ptbl" where
  "mmu_unmap_page tbl base_addr = tbl[mmu_compute_index 3 base_addr := MMU_PTE_TYPE_FAULT]"

text \<open>The number of iterations of the range loops: the size rounded up to whole blocks.\<close>

definition range_count :: "nat \<Rightarrow> u64 \<Rightarrow> nat" where
  "range_count level sz = unat (drop_bit (MMU_Lx_SHIFT level) (sz + (push_bit (MMU_Lx_SHIFT level) 1 - 1)))"

definition mmu_map_block_range :: "nat \<Rightarrow> ptbl \<Rightarrow> u64 \<Rightarrow> u64 \<Rightarrow> u64 \<Rightarrow> u64 \<Rightarrow> ptbl" where
  "mmu_map_block_range level tbl base_addr phys_addr sz attrs =
     fold (\<lambda>i tbl. let offset = push_bit (MMU_Lx_SHIFT level) (of_nat i)
                   in mmu_map_block level tbl (base_addr + offset) (phys_addr + offset) attrs)
       [0..<range_count level sz] tbl"

definition mmu_map_page_range :: "ptbl \<Rightarrow> u64 \<Rightarrow> u64 \<Rightarrow> u64 \<Rightarrow> u64 \<Rightarrow> ptbl" where
  "mmu_map_page_range tbl base_addr phys_addr sz attrs =
     fold (\<lambda>i tbl. let offset = push_bit (MMU_Lx_SHIFT 3) (of_nat i)
                   in mmu_map_page tbl (base_addr + offset) (phys_addr + offset) attrs)
       [0..<range_count 3 sz] tbl"

definition mmu_unmap_range :: "nat \<Rightarrow> ptbl \<Rightarrow> u64 \<Rightarrow> u64 \<Rightarrow> ptbl" where
  "mmu_unmap_range level tbl base_addr sz =
     fold (\<lambda>i tbl. let offset = push_bit (MMU_Lx_SHIFT level) (of_nat i)
                   in mmu_unmap level tbl (base_addr + offset))
       [0..<range_count level sz] tbl"

section \<open>Segments\<close>

definition MMAPID :: "(u64 \<times> u64 \<times> u64 \<times> bool) list" where
  "MMAPID = [(0x40006000, 0x1000, 0, False), (0x40020000, 0x20000, 0, False), (0x7C010000, 0x10000, 0, False),
     (0x80000000, 0x100000000, MMU_PTE_BLOCK_XN OR MMU_PTE_BLOCK_NS, True)]"

definition MMAPDEV :: "(u64 \<times> u64 \<times> bool) list" where
  "MMAPDEV =
    [(0x50041000, 0x1000, True), (0x50042000, 0x2000, True), (0x70006000, 0x1000, False),
     (0x60006000, 0x1000, False), (0x7000E000, 0x1000, True), (0x60005000, 0x1000, True),
     (0x6000C000, 0x1000, True), (0x70012000, 0x2000, True), (0x700F0000, 0x1000, True),
     (0x70019000, 0x1000, True), (0x7000F000, 0x1000, True), (0x70000000, 0x4000, True),
     (0x60007000, 0x1000, True), (0x40002000, 0x1000, True), (0x7000D000, 0x1000, True),
     (0x6000D000, 0x1000, True), (0x7000C000, 0x1000, True), (0x6000F000, 0x1000, True),
     (0, 0x1000, True), (0, 0x1000, True), (0x40038000, 0x5000, True)]"

definition MMAPDEV7X :: "u64 list" where
  "MMAPDEV7X =
    [0x50041000, 0x50042000, 0x70006000, 0x60006000, 0x7000E000, 0x60005000, 0x6000C000, 0x70012000,
     0x700F0000, 0x70019000, 0x7000F000, 0x70000000, 0x60007000, 0x40000000, 0x7000D000, 0x6000D000,
     0x7000C000, 0x6000F000, 0, 0, 0x40038000]"

definition MMAPLP0ES :: "(u64 \<times> u64 \<times> u64) list" where
  "MMAPLP0ES = [(0x40020000, 0x10000, MMU_PTE_BLOCK_NS OR ATTRIB_MEMTYPE_DEVICE),
     (0x40003000, 0x1000, MMU_PTE_BLOCK_NS OR ATTRIB_MEMTYPE_DEVICE),
     (0x7C010000, 0x10000, MMU_AP_PRIV_RO OR ATTRIB_MEMTYPE_NORMAL)]"

definition MMAPWBS :: "(u64 \<times> u64 \<times> u64) list" where
  "MMAPWBS = [(0x8000F000, 0x1000, MMU_PTE_BLOCK_NS OR ATTRIB_MEMTYPE_DEVICE),
     (0x80010000, 0x10000, MMU_PTE_BLOCK_NS OR ATTRIB_MEMTYPE_DEVICE)]"

definition MMAPTZS :: "(u64 \<times> u64 \<times> u64 \<times> bool) list" where
  "MMAPTZS =
    [(0x3000, 0xB000, 0x10000, True), (0xE000, 0x2000, 0x4000, True), (0, 0, 0x2000, False),
     (0xE000, 0x1000, 0x2000, False), (0xF000, 0x1000, 0x2000, False), (0, 0x1000, 0x2000, True),
     (0x1000, 0x1000, 0x2000, False), (0x2000, 0x1000, 0x2000, False)]"

definition MMAPTZ5XS :: "u64 list" where
  "MMAPTZ5XS = [0x3000, 0, 0, 0, 0x1000, 0x2000, 0xE000, 0xF000]"

abbreviation (input) MMIO_BASE :: u64 where "MMIO_BASE \<equiv> 0x1F0080000"
abbreviation (input) LP0_ENTRY_RAM_SEGMENT_BASE :: u64 where "LP0_ENTRY_RAM_SEGMENT_BASE \<equiv> 0x1F0180000"
abbreviation (input) WARMBOOT_RAM_SEGMENT_BASE :: u64 where "WARMBOOT_RAM_SEGMENT_BASE \<equiv> 0x1F01C7000"
abbreviation (input) TZRAM_SEGMENT_BASE :: u64 where "TZRAM_SEGMENT_BASE \<equiv> 0x1F01E0000"

abbreviation (input) TZRAM_SEGMENT_ID_USERPAGE :: nat where "TZRAM_SEGMENT_ID_USERPAGE \<equiv> 2"
abbreviation (input) TZRAM_SEGMENT_ID_CORE3_STACK :: nat where "TZRAM_SEGMENT_ID_CORE3_STACK \<equiv> 4"
abbreviation (input) MMIO_DEVID_AMS_IRAM_PAGE :: nat where "MMIO_DEVID_AMS_IRAM_PAGE \<equiv> 18"
abbreviation (input) MMIO_DEVID_AMS_USER_PAGE :: nat where "MMIO_DEVID_AMS_USER_PAGE \<equiv> 19"

definition MMIO_GET_DEVICE_ADDRESS :: "nat \<Rightarrow> u64" where
  "MMIO_GET_DEVICE_ADDRESS device_id =
     sum_list (map (\<lambda>(_, sz, _). sz) (take device_id MMAPDEV)) + MMIO_BASE + 0x1000 * of_nat device_id"

definition TZRAM_GET_SEGMENT_ADDRESS :: "nat \<Rightarrow> u64" where
  "TZRAM_GET_SEGMENT_ADDRESS segment_id =
     sum_list (map (\<lambda>(_, _, inc, _). inc) (take segment_id MMAPTZS)) + TZRAM_SEGMENT_BASE"

definition TZRAM_GET_SEGMENT_PA :: "nat \<Rightarrow> u64" where
  "TZRAM_GET_SEGMENT_PA segment_id = 0x7C010000 + fst (MMAPTZS ! segment_id)"

definition TZRAM_GET_SEGMENT_5X_PA :: "nat \<Rightarrow> u64" where
  "TZRAM_GET_SEGMENT_5X_PA segment_id = 0x7C010000 + MMAPTZ5XS ! segment_id"

section \<open>Building the tables\<close>

definition identity_map_mapping :: "u64 \<times> u64 \<times> u64 \<times> bool \<Rightarrow> ptbl \<times> ptbl \<Rightarrow> ptbl \<times> ptbl" where
  "identity_map_mapping m tbls =
     (let (addr, sz, attribs, is_block_range) = m; (l1, l3) = tbls;
          attrs = attribs OR MMU_PTE_BLOCK_INNER_SHAREBLE OR ATTRIB_MEMTYPE_NORMAL
      in if is_block_range then (mmu_map_block_range 1 l1 addr addr sz attrs, l3)
         else (l1, mmu_map_page_range l3 addr addr sz attrs))"

definition mmio_map_device :: "ptbl \<Rightarrow> u64 \<Rightarrow> u64 \<Rightarrow> u64 \<Rightarrow> bool \<Rightarrow> ptbl" where
  "mmio_map_device l3 addr pa sz is_secure =
     (let secure_device_attributes = MMU_PTE_BLOCK_XN OR MMU_PTE_BLOCK_INNER_SHAREBLE OR ATTRIB_MEMTYPE_DEVICE;
          device_attributes = MMU_PTE_BLOCK_NS OR secure_device_attributes
      in mmu_map_page_range l3 addr pa sz
           (if is_secure then secure_device_attributes else device_attributes))"

definition ram_map_segment :: "ptbl \<Rightarrow> u64 \<Rightarrow> u64 \<Rightarrow> u64 \<Rightarrow> u64 \<Rightarrow> ptbl" where
  "ram_map_segment l3 addr pa sz attribs =
     mmu_map_page_range l3 addr pa sz (MMU_PTE_BLOCK_XN OR MMU_PTE_BLOCK_INNER_SHAREBLE OR attribs)"

definition tzram_map_segment :: "ptbl \<Rightarrow> u64 \<Rightarrow> u64 \<Rightarrow> u64 \<Rightarrow> bool \<Rightarrow> ptbl" where
  "tzram_map_segment l3 addr pa sz is_executable =
     mmu_map_page_range l3 addr pa sz
       ((if is_executable then 0 else MMU_PTE_BLOCK_XN) OR MMU_PTE_BLOCK_INNER_SHAREBLE OR ATTRIB_MEMTYPE_NORMAL)"

definition identity_map_all_mappings :: "ptbl \<times> ptbl \<Rightarrow> ptbl \<times> ptbl" where
  "identity_map_all_mappings tbls = fold identity_map_mapping MMAPID tbls"

definition mmio_map_all_devices :: "u32 \<Rightarrow> ptbl \<Rightarrow> ptbl" where
  "mmio_map_all_devices target_firmware l3 =
     snd (fold (\<lambda>i (offset, l3).
            let (pa0, sz, is_secure) = MMAPDEV ! i;
                pa = (if target_firmware < FW_700 then pa0 else MMAPDEV7X ! i)
            in (offset + sz + 0x1000, mmio_map_device l3 (MMIO_BASE + offset) pa sz is_secure))
          [0..<21] (0, l3))"

definition lp0_entry_map_all_ram_segments :: "ptbl \<Rightarrow> ptbl" where
  "lp0_entry_map_all_ram_segments l3 =
     snd (fold (\<lambda>(pa, sz, attribs) (offset, l3).
            (offset + 0x10000, ram_map_segment l3 (LP0_ENTRY_RAM_SEGMENT_BASE + offset) pa sz attribs))
          MMAPLP0ES (0, l3))"

definition warmboot_map_all_ram_segments :: "ptbl \<Rightarrow> ptbl" where
  "warmboot_map_all_ram_segments l3 =
     snd (fold (\<lambda>(pa, sz, attribs) (offset, l3).
            (offset + sz, ram_map_segment l3 (WARMBOOT_RAM_SEGMENT_BASE + offset) pa sz attribs))
          MMAPWBS (0, l3))"

definition tzram_map_all_segments :: "u32 \<Rightarrow> ptbl \<Rightarrow> ptbl" where
  "tzram_map_all_segments target_firmware l3 =
     snd (fold (\<lambda>i (offset, l3).
            let (off0, sz, increment, is_executable) = MMAPTZS ! i;
                off = (if target_firmware < FW_500 then off0 else MMAPTZ5XS ! i)
            in (offset + increment,
                tzram_map_segment l3 (TZRAM_SEGMENT_BASE + offset) (0x7C010000 + off) sz is_executable))
          [0..<8] (0, l3))"

definition configure_ttbls :: "u32 \<Rightarrow> ptbl \<Rightarrow> ptbl \<Rightarrow> ptbl \<Rightarrow> ptbl \<times> ptbl \<times> ptbl" where
  "configure_ttbls target_firmware l1 l2 l3 =
     (let l2_pa = (if target_firmware < FW_500 then TZRAM_GET_SEGMENT_PA 6 else TZRAM_GET_SEGMENT_5X_PA 6);
          l3_pa = (if target_firmware < FW_500 then TZRAM_GET_SEGMENT_PA 7 else TZRAM_GET_SEGMENT_5X_PA 7);
          l1 = mmu_init_table l1 64;
          l2 = mmu_init_table l2 4096;
          l3 = mmu_init_table l3 4096;
          l1 = mmu_map_table 1 l1 0x40000000 l2_pa 0;
          l1 = mmu_map_table 1 l1 0x1C0000000 l2_pa 0;
          l2 = mmu_map_table 2 l2 0x40000000 l3_pa 0;
          l2 = mmu_map_table 2 l2 0x7C000000 l3_pa 0;
          l2 = mmu_map_table 2 l2 0x1F0000000 l3_pa 0;
          (l1, l3) = identity_map_all_mappings (l1, l3);
          l3 = mmio_map_all_devices target_firmware l3;
          l3 = lp0_entry_map_all_ram_segments l3;
          l3 = warmboot_map_all_ram_segments l3;
          l3 = tzram_map_all_segments target_firmware l3
      in (l1, l2, l3))"

end
