(* ===== verification/User_Page.thy ===== *)
theory User_Page
  imports Memory_Map
begin

text \<open>
  \<^verbatim>\<open>userpage.c\<close>: the single page of the caller's memory through which user SMCs exchange
  buffers. The first use maps the page into the monitor's address space; every later use
  must name the same page.

  Memory is accessed through the translation table as the MMU does: the entry for the
  virtual page gives the physical page. The normal world's memory is a function from
  physical addresses to bytes.
\<close>

record upage_ref =
  user_address :: u64
  secure_monitor_address :: u64

record upage_state =
  g_user_page_user_address :: u64
  mmu_l3_tbl :: ptbl
  dram :: "u64 \<Rightarrow> u8"

definition USER_PAGE_SECURE_MONITOR_ADDR :: u64 where
  "USER_PAGE_SECURE_MONITOR_ADDR = TZRAM_GET_SEGMENT_ADDRESS TZRAM_SEGMENT_ID_USERPAGE"

definition userpage_attributes :: u64 where
  "userpage_attributes =
     MMU_PTE_BLOCK_XN OR MMU_PTE_BLOCK_INNER_SHAREBLE OR MMU_PTE_BLOCK_NS OR ATTRIB_MEMTYPE_NORMAL"

definition get_page_for_address :: "u64 \<Rightarrow> u64" where
  "get_page_for_address address = address AND NOT 0xFFF"

text \<open>Translation of a virtual address of the monitor, \<open>None\<close> for a faulting entry.\<close>

definition translate :: "upage_state \<Rightarrow> u64 \<Rightarrow> u64 option" where
  "translate u va =
     (let pte = mmu_l3_tbl u ! mmu_compute_index 3 va
      in if pte AND 3 = 3 then Some ((pte AND 0x0000FFFFFFFFF000) OR (va AND 0xFFF)) else None)"

definition mem_read :: "upage_state \<Rightarrow> u64 \<Rightarrow> nat \<Rightarrow> bytes res" where
  "mem_read u va n =
     (if \<forall>i \<in> set [0..<n]. translate u (va + of_nat i) \<noteq> None
      then Ok (map (\<lambda>i. dram u (the (translate u (va + of_nat i)))) [0..<n])
      else Undef)"

definition mem_write :: "u64 \<Rightarrow> bytes \<Rightarrow> upage_state \<Rightarrow> upage_state res" where
  "mem_write va bs u =
     (if \<forall>i \<in> set [0..<length bs]. translate u (va + of_nat i) \<noteq> None
      then Ok (u\<lparr>dram := fold (\<lambda>i m. m(the (translate u (va + of_nat i)) := bs ! i)) [0..<length bs] (dram u)\<rparr>)
      else Undef)"

definition upage_init :: "u64 \<Rightarrow> upage_state \<Rightarrow> (bool \<times> upage_ref \<times> upage_state) res" where
  "upage_init user_addr u =
     (let upage = \<lparr>user_address = get_page_for_address user_addr, secure_monitor_address = 0\<rparr> in
      bindR (if g_user_page_user_address u \<noteq> 0
             then if g_user_page_user_address u \<noteq> user_address upage then generic_panic
                  else Ok (upage\<lparr>secure_monitor_address := USER_PAGE_SECURE_MONITOR_ADDR\<rparr>, u)
             else if user_address upage - 0x80000000 < 0x180000000 \<and> user_addr AND 0xFFF = 0
             then let u = u\<lparr>g_user_page_user_address := user_address upage\<rparr>;
                      u = u\<lparr>mmu_l3_tbl := mmu_map_page (mmu_l3_tbl u) USER_PAGE_SECURE_MONITOR_ADDR
                              (user_address upage) userpage_attributes\<rparr>
                  in Ok (upage\<lparr>secure_monitor_address := USER_PAGE_SECURE_MONITOR_ADDR\<rparr>, u)
             else generic_panic) (\<lambda>(upage, u).
      Ok (secure_monitor_address upage \<noteq> 0, upage, u)))"

definition user_copy_to_secure ::
  "upage_ref \<Rightarrow> bytes \<Rightarrow> u64 \<Rightarrow> nat \<Rightarrow> upage_state \<Rightarrow> (bool \<times> bytes) res"
where
  "user_copy_to_secure upage secure_dst user_src sz u =
     (if get_page_for_address user_src \<noteq> user_address upage then Ok (False, secure_dst)
      else if sz \<noteq> 0 \<and> get_page_for_address (user_src + of_nat sz - 1) \<noteq> user_address upage
      then Ok (False, secure_dst)
      else
        let secure_src = secure_monitor_address upage + (user_src - user_address upage)
        in if sz \<noteq> 0
           then bindR (mem_read u secure_src sz) (\<lambda>bs. Ok (True, blit secure_dst 0 bs))
           else Ok (True, secure_dst))"

definition secure_copy_to_user ::
  "upage_ref \<Rightarrow> u64 \<Rightarrow> bytes \<Rightarrow> nat \<Rightarrow> upage_state \<Rightarrow> (bool \<times> upage_state) res"
where
  "secure_copy_to_user upage user_dst secure_src sz u =
     (if get_page_for_address user_dst \<noteq> user_address upage then Ok (False, u)
      else if sz \<noteq> 0 \<and> get_page_for_address (user_dst + of_nat sz - 1) \<noteq> user_address upage
      then Ok (False, u)
      else
        let secure_dst = secure_monitor_address upage + (user_dst - user_address upage)
        in if sz \<noteq> 0
           then bindR (mem_write secure_dst (take sz secure_src) u) (\<lambda>u. Ok (True, u))
           else Ok (True, u))"

section \<open>Invariant\<close>

text \<open>
  Once a page is chosen it is page-aligned, lies in DRAM, and is what the monitor's user
  page maps to.
\<close>

definition upage_wf :: "upage_state \<Rightarrow> bool" where
  "upage_wf u \<longleftrightarrow> length (mmu_l3_tbl u) = 512 \<and>
     (g_user_page_user_address u \<noteq> 0 \<longrightarrow>
        g_user_page_user_address u AND 0xFFF = 0 \<and> g_user_page_user_address u - 0x80000000 < 0x180000000 \<and>
        mmu_l3_tbl u ! mmu_compute_index 3 USER_PAGE_SECURE_MONITOR_ADDR =
          g_user_page_user_address u OR userpage_attributes OR MMU_PTE_BLOCK_AF OR MMU_PTE_TYPE_PAGE)"

text \<open>What a reference that \<^verbatim>\<open>upage_init\<close> filled in promises to the copies.\<close>

definition upage_valid :: "upage_ref \<Rightarrow> upage_state \<Rightarrow> bool" where
  "upage_valid r u \<longleftrightarrow> upage_wf u \<and> g_user_page_user_address u \<noteq> 0
     \<and> user_address r = g_user_page_user_address u \<and> secure_monitor_address r = USER_PAGE_SECURE_MONITOR_ADDR"

lemma USER_PAGE_eq: "USER_PAGE_SECURE_MONITOR_ADDR = 0x1F01F4000"
  by (simp add: USER_PAGE_SECURE_MONITOR_ADDR_def TZRAM_GET_SEGMENT_ADDRESS_def MMAPTZS_def)

lemma and_FFF: "a AND 0xFFF = take_bit 12 a" for a :: u64
  by (simp add: take_bit_eq_mask mask_eq_exp_minus_1)

lemma page_shift: "get_page_for_address a = push_bit 12 (drop_bit 12 a)"
proof -
  have m: "(0xFFF :: u64) = mask 12" by (simp add: mask_eq_exp_minus_1)
  have "a AND NOT (mask 12) = push_bit 12 (drop_bit 12 a)"
    by (rule bit_word_eqI) (auto simp: bit_simps)
  then show ?thesis by (simp only: get_page_for_address_def m)
qed

lemma page_eq: "get_page_for_address a = a - take_bit 12 a"
  using bits_ident [of 12 a] by (metis add_diff_cancel_right' page_shift)

lemma take_bit_page [simp]: "take_bit 12 (get_page_for_address a) = 0"
  by (simp add: page_shift take_bit_push_bit)

lemma unat_take_12: "unat (take_bit 12 a :: u64) = unat a mod 4096"
  unfolding unsigned_take_bit_eq by (simp add: take_bit_eq_mod)

lemma take_bit_add_aligned:
  fixes A x :: u64
  assumes "take_bit 12 A = 0"
  shows "take_bit 12 (A + x) = take_bit 12 x"
proof (rule word_unat_eq_iff [THEN iffD2])
  have A: "unat A mod 4096 = 0" using arg_cong [OF assms, of unat] by (simp only: unat_take_12) simp
  have "(unat A + unat x) mod 4096 = unat x mod 4096" using A by (metis add.left_neutral mod_add_left_eq)
  then show "unat (take_bit 12 (A + x)) = unat (take_bit 12 x)"
    by (simp only: unat_take_12) (simp add: unat_word_ariths mod_mod_cancel)
qed

text \<open>An aligned base and an offset below the page size.\<close>

lemma aligned_add:
  assumes "take_bit 12 A = 0" "x < 0x1000"
  shows "take_bit 12 (A + x) = x" "get_page_for_address (A + x) = A" "A + x = A OR x"
proof -
  have x: "take_bit 12 x = x" using assms(2) by (simp add: take_bit_less_exp)
  then show t: "take_bit 12 (A + x) = x" by (simp add: take_bit_add_aligned [OF assms(1)])
  then show "get_page_for_address (A + x) = A" by (simp add: page_eq)
  have "A AND x = 0"
  proof (rule bit_word_eqI)
    fix n
    have "bit x n \<Longrightarrow> n < 12" using bit_less_exp [of x 12 n] assms(2) by simp
    moreover have "n < 12 \<Longrightarrow> \<not> bit A n" using assms(1) by (metis bit_0_eq bit_take_bit_iff bot_apply bot_bool_def)
    ultimately show "bit (A AND x) n = bit (0 :: u64) n" by (auto simp: bit_and_iff)
  qed
  then show "A + x = A OR x" by (rule disjunctive_add_eq_or)
qed

lemma page_decompose: "a = get_page_for_address a + take_bit 12 a" "take_bit 12 a < (0x1000 :: u64)"
  by (simp_all add: page_eq) (simp add: word_less_nat_alt unsigned_take_bit_eq take_bit_nat_less_exp [of 12, simplified])

text \<open>A range that starts and ends in one page stays in it.\<close>

lemma range_in_page:
  assumes "get_page_for_address a = A" "get_page_for_address (a + of_nat sz - 1) = A" "0 < sz" "sz \<le> 0x1000" "i < sz"
  shows "take_bit 12 a + of_nat i < 0x1000" "unat (take_bit 12 a) + sz \<le> 0x1000"
proof -
  let ?o = "take_bit 12 a" and ?x = "take_bit 12 a + of_nat (sz - 1)"
  have o: "unat ?o < 0x1000" using page_decompose(2) [of a] by (simp add: word_less_nat_alt)
  have A: "take_bit 12 A = 0" using assms(1) take_bit_page by blast
  have "a + of_nat sz - 1 = A + ?x"
    using page_decompose(1) [of a] assms(1,3) by (simp add: of_nat_diff)
  then have e: "get_page_for_address (A + ?x) = A" using assms(2) by simp
  have ux: "unat ?x = unat ?o + (sz - 1)"
    using o assms(4) by (subst unat_add_lem [THEN iffD1]) (simp_all add: unat_of_nat_small)
  have "A + get_page_for_address ?x = A"
  proof -
    have "take_bit 12 (A + get_page_for_address ?x) = 0" by (simp add: take_bit_add_aligned [OF A])
    then have "get_page_for_address ((A + get_page_for_address ?x) + take_bit 12 ?x) = A + get_page_for_address ?x"
      using aligned_add(2) page_decompose(2) by blast
    moreover have "(A + get_page_for_address ?x) + take_bit 12 ?x = A + ?x"
      using page_decompose(1) [of ?x] by (simp add: add.assoc)
    ultimately show ?thesis using e by metis
  qed
  then have "?x = take_bit 12 ?x" using page_decompose(1) [of ?x] by simp
  then have "unat ?x < 0x1000" using page_decompose(2) [of ?x] by (simp add: word_less_nat_alt)
  then show sz: "unat ?o + sz \<le> 0x1000" using ux assms(3) by simp
  have "unat (?o + of_nat i) = unat ?o + i"
    using sz assms(5) by (subst unat_add_lem [THEN iffD1]) (simp_all add: unat_of_nat_small)
  then show "?o + of_nat i < 0x1000" using sz assms(5) by (simp add: word_less_nat_alt)
qed

section \<open>Translation of the user page\<close>

lemma user_page_index: "x < 0x1000 \<Longrightarrow> mmu_compute_index 3 (USER_PAGE_SECURE_MONITOR_ADDR + x) =
    mmu_compute_index 3 USER_PAGE_SECURE_MONITOR_ADDR" "mmu_compute_index 3 USER_PAGE_SECURE_MONITOR_ADDR = 0x1F4"
proof -
  assume x: "x < 0x1000"
  have A: "take_bit 12 (USER_PAGE_SECURE_MONITOR_ADDR) = 0" by (simp add: USER_PAGE_eq)
  have "take_bit 12 x = x" using x by (simp add: take_bit_less_exp)
  then have "drop_bit 12 x = 0" by (simp only: take_bit_eq_self_iff_drop_bit_eq_0)
  then show "mmu_compute_index 3 (USER_PAGE_SECURE_MONITOR_ADDR + x) = mmu_compute_index 3 USER_PAGE_SECURE_MONITOR_ADDR"
    unfolding mmu_compute_index_def aligned_add(3) [OF A x] by (simp add: MMU_Lx_SHIFT_def drop_bit_or)
next
  show "mmu_compute_index 3 USER_PAGE_SECURE_MONITOR_ADDR = 0x1F4"
    by (simp add: mmu_compute_index_def MMU_Lx_SHIFT_def USER_PAGE_eq mask_eq_exp_minus_1)
qed

lemma dram_page_bits:
  assumes "g - 0x80000000 < (0x180000000 :: u64)" "g AND 0xFFF = 0"
  shows "(g OR userpage_attributes OR 0x400 OR 3) AND 0x0000FFFFFFFFF000 = g"
    "(g OR userpage_attributes OR 0x400 OR 3) AND 3 = 3"
proof -
  have "unat g < 2 ^ 33"
  proof -
    have "unat (g - 0x80000000) < 0x180000000" using assms(1) by (simp add: word_less_nat_alt)
    moreover have "unat g \<le> unat (g - 0x80000000) + 0x80000000"
    proof -
      have "unat (g - 0x80000000 + 0x80000000) \<le> unat (g - 0x80000000) + unat (0x80000000 :: u64)"
        unfolding unat_word_ariths(1) by (rule mod_less_eq_dividend)
      then show ?thesis by simp
    qed
    ultimately show ?thesis by simp
  qed
  then have lt: "g < 2 ^ 33" by (simp add: word_less_nat_alt)
  have "g AND 0x0000FFFFFFFFF000 = g"
  proof (rule bit_word_eqI)
    fix n assume "n < LENGTH(64)"
    have m: "(0x0000FFFFFFFFF000 :: u64) = push_bit 12 (mask 36)" by (simp add: mask_eq_exp_minus_1)
    have "bit g n \<Longrightarrow> n < 33" using bit_less_exp [OF lt] by simp
    moreover have "bit g n \<Longrightarrow> 12 \<le> n"
      using assms(2) and_FFF [of g] by (metis bit_0_eq bit_take_bit_iff bot_apply bot_bool_def not_less)
    ultimately show "bit (g AND 0x0000FFFFFFFFF000) n = bit g n"
      unfolding m by (auto simp: bit_and_iff bit_push_bit_iff bit_mask_iff)
  qed
  then show "(g OR userpage_attributes OR 0x400 OR 3) AND 0x0000FFFFFFFFF000 = g"
    by (simp add: bit.conj_disj_distrib2 userpage_attributes_def)
  show "(g OR userpage_attributes OR 0x400 OR 3) AND 3 = 3"
    by (rule bit_word_eqI) (auto simp only: bit_and_iff bit_or_iff)
qed

lemma translate_user_page:
  assumes "upage_wf u" "g_user_page_user_address u \<noteq> 0" "x < 0x1000"
  shows "translate u (USER_PAGE_SECURE_MONITOR_ADDR + x) = Some (g_user_page_user_address u + x)"
proof -
  let ?g = "g_user_page_user_address u"
  have g: "?g AND 0xFFF = 0" "?g - 0x80000000 < 0x180000000" using assms(1,2) by (auto simp: upage_wf_def)
  have pte: "mmu_l3_tbl u ! mmu_compute_index 3 (USER_PAGE_SECURE_MONITOR_ADDR + x) = ?g OR userpage_attributes OR 0x400 OR 3"
    using assms by (simp only: user_page_index(1) upage_wf_def) auto
  have A: "take_bit 12 USER_PAGE_SECURE_MONITOR_ADDR = 0" by (simp add: USER_PAGE_eq)
  have "take_bit 12 ?g = 0" using g(1) by (simp only: and_FFF)
  then have "?g OR x = ?g + x" by (simp add: aligned_add(3) assms(3))
  then show ?thesis
    unfolding translate_def Let_def pte and_FFF aligned_add(1) [OF A assms(3)]
    using dram_page_bits [OF g(2,1)] by simp
qed


section \<open>Operations\<close>

lemma upage_init_ok:
  assumes "upage_wf u" "upage_init user_addr u = Ok (ok, r, u')"
  shows "ok" "upage_valid r u'" "user_address r = get_page_for_address user_addr" "dram u' = dram u"
    "g_user_page_user_address u \<noteq> 0 \<Longrightarrow> u' = u"
    "g_user_page_user_address u = 0 \<Longrightarrow> u' = u\<lparr>g_user_page_user_address := user_addr, mmu_l3_tbl := mmu_l3_tbl u'\<rparr>"
proof -
  let ?p = "get_page_for_address user_addr"
  have nz: "USER_PAGE_SECURE_MONITOR_ADDR \<noteq> 0" by (simp add: USER_PAGE_eq)
  show "ok" and val: "upage_valid r u'" and "user_address r = ?p" and "dram u' = dram u"
    and "g_user_page_user_address u \<noteq> 0 \<Longrightarrow> u' = u"
    and "g_user_page_user_address u = 0 \<Longrightarrow> u' = u\<lparr>g_user_page_user_address := user_addr, mmu_l3_tbl := mmu_l3_tbl u'\<rparr>"
  proof -
    consider (old) "g_user_page_user_address u \<noteq> 0" "g_user_page_user_address u = ?p"
        "r = \<lparr>user_address = ?p, secure_monitor_address = USER_PAGE_SECURE_MONITOR_ADDR\<rparr>" "u' = u" "ok"
      | (new) "g_user_page_user_address u = 0" "?p - 0x80000000 < 0x180000000" "user_addr AND 0xFFF = 0" "ok"
        "r = \<lparr>user_address = ?p, secure_monitor_address = USER_PAGE_SECURE_MONITOR_ADDR\<rparr>"
        "u' = u\<lparr>g_user_page_user_address := ?p, mmu_l3_tbl := mmu_map_page (mmu_l3_tbl u) USER_PAGE_SECURE_MONITOR_ADDR
                  ?p userpage_attributes\<rparr>"
      using assms(2) nz by (auto simp: upage_init_def Let_def split: if_splits)
    note cases = this
    have al: "?p AND 0xFFF = 0" by (simp only: and_FFF take_bit_page)
    have pos: "?p \<noteq> 0" if "?p - 0x80000000 < 0x180000000"
      using that by (auto simp: word_less_nat_alt)
    have page: "?p = user_addr" if "user_addr AND 0xFFF = 0"
      using that page_eq [of user_addr] by (simp only: and_FFF) simp
    from cases show "ok" by cases auto
    from cases show "upage_valid r u'"
    proof cases
      case old
      then show ?thesis using assms(1) by (simp add: upage_valid_def)
    next
      case new
      have "length (mmu_l3_tbl u) = 512" using assms(1) by (simp add: upage_wf_def)
      then show ?thesis
        using new(2) pos [OF new(2)] al unfolding upage_valid_def upage_wf_def new(5,6)
        by (simp add: mmu_map_page_def user_page_index(2))
    qed
    from cases show "user_address r = ?p" by cases auto
    from cases show "dram u' = dram u" by cases auto
    show "u' = u" if "g_user_page_user_address u \<noteq> 0" using cases that by cases auto
    show "u' = u\<lparr>g_user_page_user_address := user_addr, mmu_l3_tbl := mmu_l3_tbl u'\<rparr>"
      if "g_user_page_user_address u = 0" using cases that page by cases auto
  qed
qed

text \<open>The addresses the two copies compute, seen through the translation.\<close>

lemma user_range_translate:
  assumes "upage_valid r u" "get_page_for_address a = user_address r"
    "get_page_for_address (a + of_nat sz - 1) = user_address r" "sz \<le> 0x1000" "i < sz"
  shows "translate u (secure_monitor_address r + (a - user_address r) + of_nat i) = Some (a + of_nat i)"
proof -
  let ?x = "take_bit 12 a + of_nat i"
  have v: "user_address r = g_user_page_user_address u" "secure_monitor_address r = USER_PAGE_SECURE_MONITOR_ADDR"
    "g_user_page_user_address u \<noteq> 0" "upage_wf u"
    using assms(1) by (auto simp: upage_valid_def)
  have lt: "?x < 0x1000" using range_in_page(1) [OF assms(2,3) _ assms(4,5)] assms(5) by simp
  have a: "a = user_address r + take_bit 12 a" using page_decompose(1) [of a] assms(2) by simp
  have "secure_monitor_address r + (a - user_address r) + of_nat i = USER_PAGE_SECURE_MONITOR_ADDR + ?x"
    by (subst a) (simp add: v(2) add.assoc)
  moreover have "a + of_nat i = g_user_page_user_address u + ?x"
    by (subst a) (simp add: v(1) add.assoc)
  ultimately show ?thesis using translate_user_page [OF v(4,3) lt] by (simp only:)
qed

definition in_page :: "upage_ref \<Rightarrow> u64 \<Rightarrow> nat \<Rightarrow> bool" where
  "in_page r a sz \<longleftrightarrow> get_page_for_address a = user_address r
     \<and> (sz \<noteq> 0 \<longrightarrow> get_page_for_address (a + of_nat sz - 1) = user_address r)"

lemma user_copy_to_secure_ok:
  assumes "upage_valid r u" "sz \<le> 0x1000"
  shows "user_copy_to_secure r dst a sz u =
    (if in_page r a sz then Ok (True, blit dst 0 (map (\<lambda>i. dram u (a + of_nat i)) [0..<sz])) else Ok (False, dst))"
proof (cases "in_page r a sz \<and> sz \<noteq> 0")
  case True
  then have p: "get_page_for_address a = user_address r" "get_page_for_address (a + of_nat sz - 1) = user_address r"
    by (auto simp: in_page_def)
  note t = user_range_translate [OF assms(1) p assms(2)]
  have "mem_read u (secure_monitor_address r + (a - user_address r)) sz = Ok (map (\<lambda>i. dram u (a + of_nat i)) [0..<sz])"
    by (simp add: mem_read_def t)
  then show ?thesis using True p by (simp add: user_copy_to_secure_def)
next
  case False
  then show ?thesis by (auto simp: in_page_def user_copy_to_secure_def blit_def)
qed

lemma secure_copy_to_user_ok:
  assumes "upage_valid r u" "sz \<le> 0x1000" "sz \<le> length src"
  shows "secure_copy_to_user r a src sz u =
    (if in_page r a sz
     then Ok (True, u\<lparr>dram := fold (\<lambda>i m. m(a + of_nat i := src ! i)) [0..<sz] (dram u)\<rparr>)
     else Ok (False, u))"
proof (cases "in_page r a sz \<and> sz \<noteq> 0")
  case True
  then have p: "get_page_for_address a = user_address r" "get_page_for_address (a + of_nat sz - 1) = user_address r"
    by (auto simp: in_page_def)
  note t = user_range_translate [OF assms(1) p assms(2)]
  have l: "length (take sz src) = sz" using assms(3) by simp
  have "fold (\<lambda>i m. m(the (translate u (secure_monitor_address r + (a - user_address r) + of_nat i)) := take sz src ! i)) [0..<sz] (dram u)
    = fold (\<lambda>i m. m(a + of_nat i := src ! i)) [0..<sz] (dram u)"
    by (rule fold_cong) (auto simp: t)
  then have "mem_write (secure_monitor_address r + (a - user_address r)) (take sz src) u =
      Ok (u\<lparr>dram := fold (\<lambda>i m. m(a + of_nat i := src ! i)) [0..<sz] (dram u)\<rparr>)"
    unfolding mem_write_def l by (simp add: t)
  then show ?thesis using True p by (simp add: secure_copy_to_user_def)
next
  case False
  then show ?thesis by (auto simp: in_page_def secure_copy_to_user_def)
qed

lemma fold_writes_other: "(\<And>i. i < n \<Longrightarrow> p \<noteq> a + of_nat i) \<Longrightarrow> fold (\<lambda>i m. m(a + of_nat i := f i)) [0..<n] m p = m p"
  for a :: u64
  by (induction n) auto

lemma fold_writes_same:
  fixes a :: u64
  assumes "i < n" "n \<le> 0x1000"
  shows "fold (\<lambda>i m. m(a + of_nat i := f i)) [0..<n] m (a + of_nat i) = f i"
  using assms
proof (induction n)
  case (Suc n)
  have "of_nat i = (of_nat n :: u64) \<longleftrightarrow> i = n"
  proof
    assume "of_nat i = (of_nat n :: u64)"
    then have "unat (of_nat i :: u64) = unat (of_nat n :: u64)" by simp
    then show "i = n" using Suc.prems by (simp add: unat_of_nat_small)
  qed simp
  then show ?case using Suc by (cases "i = n") auto
qed simp

text \<open>Writing back never leaves the user's page.\<close>

lemma secure_copy_to_user_frame:
  assumes "upage_valid r u" "sz \<le> 0x1000" "sz \<le> length src" "secure_copy_to_user r a src sz u = Ok (ok, u')"
    "get_page_for_address p \<noteq> g_user_page_user_address u"
  shows "dram u' p = dram u p"
proof (cases "in_page r a sz")
  case True
  have "get_page_for_address (a + of_nat i) = g_user_page_user_address u" if "i < sz" for i
  proof -
    have p: "get_page_for_address a = user_address r" "get_page_for_address (a + of_nat sz - 1) = user_address r"
      using True that by (auto simp: in_page_def)
    have "take_bit 12 a + of_nat i < 0x1000" using range_in_page(1) [OF p _ assms(2) that] that by simp
    moreover have "a + of_nat i = user_address r + (take_bit 12 a + of_nat i)"
      using page_decompose(1) [of a] p(1) by (simp add: add.assoc)
    moreover have "take_bit 12 (user_address r) = 0" using p(1) take_bit_page by metis
    ultimately have "get_page_for_address (a + of_nat i) = user_address r" using aligned_add(2) by metis
    then show ?thesis using assms(1) by (simp add: upage_valid_def)
  qed
  then have "p \<noteq> a + of_nat i" if "i < sz" for i using assms(5) that by blast
  then have "fold (\<lambda>i m. m(a + of_nat i := src ! i)) [0..<sz] (dram u) p = dram u p"
    by (rule fold_writes_other)
  then show ?thesis using True assms(4) by (auto simp: secure_copy_to_user_ok [OF assms(1-3)])
next
  case False
  then show ?thesis using assms(4) by (auto simp: secure_copy_to_user_ok [OF assms(1-3)])
qed

lemma secure_copy_to_user_valid:
  assumes "upage_valid r u" "sz \<le> 0x1000" "sz \<le> length src" "secure_copy_to_user r a src sz u = Ok (ok, u')"
  shows "upage_valid r u'" "g_user_page_user_address u' = g_user_page_user_address u"
  using assms(1,4) by (auto simp: secure_copy_to_user_ok [OF assms(1-3)] upage_valid_def upage_wf_def split: if_splits)

lemma copy_back_and_forth:
  assumes "upage_valid r u" "sz \<le> 0x1000" "length src = sz" "length dst = sz" "secure_copy_to_user r a src sz u = Ok (True, u')"
  shows "user_copy_to_secure r dst a sz u' = Ok (True, src)"
proof -
  have l: "sz \<le> length src" using assms(3) by simp
  have ip: "in_page r a sz" and u': "u' = u\<lparr>dram := fold (\<lambda>i m. m(a + of_nat i := src ! i)) [0..<sz] (dram u)\<rparr>"
    using assms(5) by (auto simp: secure_copy_to_user_ok [OF assms(1,2) l] split: if_splits)
  have "map (\<lambda>i. dram u' (a + of_nat i)) [0..<sz] = src"
    by (rule nth_equalityI) (simp_all add: u' fold_writes_same assms(2,3))
  then show ?thesis
    using user_copy_to_secure_ok [OF secure_copy_to_user_valid(1) [OF assms(1,2) l assms(5)] assms(2), of dst a] ip
    by (simp add: blit_0_all assms(3,4))
qed

end
