(* ===== verification/Random_Cache.thy ===== *)
theory Random_Cache
  imports SE_Mac
begin

text \<open>
  \<^verbatim>\<open>randomcache.c\<close>: the cache of random bytes that serves the kernel while a user call keeps
  the engine busy. The indices are \<^verbatim>\<open>unsigned int\<close>; the unread part of the cache is the
  circular range from \<^verbatim>\<open>low\<close> to \<^verbatim>\<open>high\<close>.
\<close>

record rcache_state =
  g_random_cache :: bytes    \<comment> \<open>0x400 bytes\<close>
  g_random_cache_low :: u32
  g_random_cache_high :: u32

definition randomcache_refill_segment ::
  "se_engine \<Rightarrow> u32 \<Rightarrow> u32 \<Rightarrow> rcache_state \<Rightarrow> se_state \<Rightarrow> (rcache_state \<times> se_state) res"
where
  "randomcache_refill_segment eng offset sz rc se =
     (let sz = (if offset + sz \<ge> 0x400 then 0x400 - offset else sz)
      in bindR (se_generate_random eng KEYSLOT_SWITCH_RNGKEY (drop (unat offset) (g_random_cache rc)) (unat sz) se)
           (\<lambda>(out, se).
            Ok (rc\<lparr>g_random_cache := take (unat offset) (g_random_cache rc) @ out\<rparr>, se)))"

definition randomcache_init :: "se_engine \<Rightarrow> rcache_state \<Rightarrow> se_state \<Rightarrow> (rcache_state \<times> se_state) res" where
  "randomcache_init eng rc se =
     bindR (randomcache_refill_segment eng 0 0x400 rc se) (\<lambda>(rc, se).
     Ok (rc\<lparr>g_random_cache_low := 0, g_random_cache_high := 0x3FF\<rparr>, se))"

definition randomcache_refill :: "se_engine \<Rightarrow> rcache_state \<Rightarrow> se_state \<Rightarrow> (rcache_state \<times> se_state) res" where
  "randomcache_refill eng rc se =
     (let high_plus_one = (g_random_cache_high rc + 1) AND 0x3FF in
      if g_random_cache_low rc \<noteq> high_plus_one
      then if g_random_cache_low rc < high_plus_one
           then bindR (if g_random_cache_high rc \<noteq> 0x3FF
                       then bindR (randomcache_refill_segment eng high_plus_one (0x400 - high_plus_one) rc se)
                              (\<lambda>(rc, se).
                               Ok (rc\<lparr>g_random_cache_high :=
                                       (g_random_cache_high rc + 0x400 - high_plus_one) AND 0x3FF\<rparr>, se))
                       else Ok (rc, se)) (\<lambda>(rc, se).
                if g_random_cache_low rc > 0
                then bindR (randomcache_refill_segment eng 0 (g_random_cache_low rc) rc se) (\<lambda>(rc, se).
                     Ok (rc\<lparr>g_random_cache_high :=
                             (g_random_cache_high rc + g_random_cache_low rc) AND 0x3FF\<rparr>, se))
                else Ok (rc, se))
           else bindR (randomcache_refill_segment eng high_plus_one (g_random_cache_low rc - high_plus_one) rc se)
                  (\<lambda>(rc, se). Ok (rc\<lparr>g_random_cache_high := g_random_cache_low rc - 1\<rparr>, se))
      else Ok (rc, se))"

text \<open>The bytes handed out; reading past the end of the array is outside the object.\<close>

definition randomcache_getbytes :: "nat \<Rightarrow> rcache_state \<Rightarrow> (bytes \<times> rcache_state) res" where
  "randomcache_getbytes num_bytes rc =
     (let low = g_random_cache_low rc in
      if num_bytes = 0 then Ok ([], rc)
      else if unat low + num_bytes > length (g_random_cache rc) then Undef
      else let out = bslice (g_random_cache rc) (unat low) num_bytes;
               new_low = low + of_nat num_bytes;
               new_low = (if new_low + 0x38 > 0x3FF then 0 else new_low)
           in Ok (out, rc\<lparr>g_random_cache_low := new_low\<rparr>))"

section \<open>Invariant\<close>

text \<open>
  The read index leaves room for the largest request of a caller (0x38 bytes), which is
  why a request never reads past the end of the cache.
\<close>

definition rcache_wf :: "rcache_state \<Rightarrow> bool" where
  "rcache_wf rc \<longleftrightarrow> length (g_random_cache rc) = 0x400 \<and> g_random_cache_low rc + 0x38 \<le> 0x3FF
     \<and> g_random_cache_low rc \<le> 0x3C7 \<and> g_random_cache_high rc \<le> 0x3FF"

definition next_low :: "nat \<Rightarrow> rcache_state \<Rightarrow> u32" where
  "next_low n rc = (let l = g_random_cache_low rc + of_nat n
     in if n = 0 then g_random_cache_low rc else if l + 0x38 > 0x3FF then 0 else l)"

lemma rcache_wf_nat:
  "rcache_wf rc \<longleftrightarrow> length (g_random_cache rc) = 0x400 \<and> unat (g_random_cache_low rc) \<le> 0x3C7
     \<and> unat (g_random_cache_high rc) \<le> 0x3FF"
proof -
  have "unat (g_random_cache_low rc + 0x38) = unat (g_random_cache_low rc) + 0x38" if "unat (g_random_cache_low rc) \<le> 0x3C7"
    using that by (subst unat_add_lem [THEN iffD1]) simp_all
  then show ?thesis by (auto simp: rcache_wf_def word_le_nat_alt)
qed

lemma next_low_wf:
  assumes "rcache_wf rc" "n \<le> 0x38"
  shows "unat (next_low n rc) = (if n = 0 then unat (g_random_cache_low rc)
           else if unat (g_random_cache_low rc) + n + 0x38 > 0x3FF then 0 else unat (g_random_cache_low rc) + n)"
    "rcache_wf (rc\<lparr>g_random_cache_low := next_low n rc\<rparr>)"
proof -
  let ?l = "g_random_cache_low rc"
  have l: "unat ?l \<le> 0x3C7" using assms(1) by (simp add: rcache_wf_nat)
  have n: "unat (?l + of_nat n) = unat ?l + n"
    using l assms(2) by (subst unat_add_lem [THEN iffD1]) (simp_all add: unat_of_nat_small)
  have n38: "unat (?l + of_nat n + 0x38) = unat ?l + n + 0x38"
    using l assms(2) n by (subst unat_add_lem [THEN iffD1]) (simp_all)
  show u: "unat (next_low n rc) = (if n = 0 then unat ?l
           else if unat ?l + n + 0x38 > 0x3FF then 0 else unat ?l + n)"
    by (simp add: next_low_def Let_def word_less_nat_alt n n38)
  show "rcache_wf (rc\<lparr>g_random_cache_low := next_low n rc\<rparr>)"
    using assms(1) l by (simp add: rcache_wf_nat u)
qed

lemma getbytes_ok:
  assumes "rcache_wf rc" "n \<le> 0x38"
  shows "randomcache_getbytes n rc =
    Ok (bslice (g_random_cache rc) (unat (g_random_cache_low rc)) n, rc\<lparr>g_random_cache_low := next_low n rc\<rparr>)"
proof -
  have "\<not> unat (g_random_cache_low rc) + n > length (g_random_cache rc)"
    using assms by (simp add: rcache_wf_nat)
  then show ?thesis
    by (cases "n = 0") (simp_all add: randomcache_getbytes_def next_low_def Let_def bslice_def)
qed

section \<open>Refilling\<close>

text \<open>
  Refilling leaves the unread bytes alone, replaces every other byte by fresh random data,
  and extends the unread range to the whole cache.
\<close>

definition unread :: "rcache_state \<Rightarrow> nat \<Rightarrow> bool" where
  "unread rc i \<longleftrightarrow>
     (let lo = unat (g_random_cache_low rc); hi = unat (g_random_cache_high rc)
      in if lo \<le> hi then lo \<le> i \<and> i \<le> hi else lo \<le> i \<or> i \<le> hi)"

definition from_rng :: "se_prims \<Rightarrow> u8 \<Rightarrow> bool" where
  "from_rng P b \<longleftrightarrow> (\<exists>c n k. k < n \<and> b = rand_bytes P c n ! k)"

lemma unat_and_3FF: "unat (w AND 0x3FF :: u32) = unat w mod 0x400"
proof -
  have w: "w AND 0x3FF = take_bit 10 w" by (simp add: take_bit_eq_mask mask_eq_exp_minus_1)
  show ?thesis unfolding w unsigned_take_bit_eq by (simp add: take_bit_eq_mod)
qed

lemma refill_segment_ok:
  assumes e: "se_engine_ok P eng" and l: "length (g_random_cache rc) = 0x400" and "unat off + unat sz \<le> 0x400"
  shows "\<exists>se'. randomcache_refill_segment eng off sz rc se =
       Ok (rc\<lparr>g_random_cache := blit (g_random_cache rc) (unat off) (rand_bytes P (op_count se) (unat sz))\<rparr>, se')
     \<and> se_core se' = se_core se"
proof -
  have s: "unat (off + sz) = unat off + unat sz"
    using assms(3) by (subst unat_add_lem [THEN iffD1]) simp_all
  have "sz = 0x400 - off" if "off + sz \<ge> 0x400"
  proof -
    have "unat (off + sz) = unat (0x400 :: u32)" using that assms(3) s by (simp add: word_le_nat_alt)
    then have "off + sz = 0x400" by (simp only: word_unat_eq_iff)
    then show ?thesis by (simp add: algebra_simps)
  qed
  then have sz: "(if off + sz \<ge> 0x400 then 0x400 - off else sz) = sz" by auto
  have "unat sz \<le> length (drop (unat off) (g_random_cache rc))" using assms(3) l by simp
  from generate_random_ok [OF e _ this, of "0xB" se] obtain se' where
    g: "se_generate_random eng 0xB (drop (unat off) (g_random_cache rc)) (unat sz) se =
      Ok (blit (drop (unat off) (g_random_cache rc)) 0 (rand_bytes P (op_count se) (unat sz)), se')"
      "se_core se' = se_core se"
    using assms(3) by auto
  have "take (unat off) (g_random_cache rc) @ blit (drop (unat off) (g_random_cache rc)) 0 (rand_bytes P (op_count se) (unat sz))
      = blit (g_random_cache rc) (unat off) (rand_bytes P (op_count se) (unat sz))"
    using assms(3) l by (simp add: blit_def add.commute)
  then show ?thesis
    using g unfolding randomcache_refill_segment_def Let_def sz by simp
qed


text \<open>The bytes of the cache after one segment is refilled.\<close>

lemma segment_bytes:
  assumes e: "se_engine_ok P eng" and "length c = 0x400" "off + sz \<le> 0x400" "i < 0x400"
  shows "length (blit c off (rand_bytes P n sz)) = 0x400"
    "off \<le> i \<Longrightarrow> i < off + sz \<Longrightarrow> from_rng P (blit c off (rand_bytes P n sz) ! i)"
    "\<not> (off \<le> i \<and> i < off + sz) \<Longrightarrow> blit c off (rand_bytes P n sz) ! i = c ! i"
proof -
  note l = length_rand_bytes [OF e, of n sz]
  show "length (blit c off (rand_bytes P n sz)) = 0x400" using assms(2,3) by (simp add: l)
  have n: "blit c off (rand_bytes P n sz) ! i =
      (if off \<le> i \<and> i < off + sz then rand_bytes P n sz ! (i - off) else c ! i)"
    using assms(2-4) by (subst nth_blit) (simp_all add: l)
  show "blit c off (rand_bytes P n sz) ! i = c ! i" if "\<not> (off \<le> i \<and> i < off + sz)"
    using that n by auto
  show "from_rng P (blit c off (rand_bytes P n sz) ! i)" if "off \<le> i" "i < off + sz"
    unfolding from_rng_def n using that by (intro exI [of _ n] exI [of _ sz] exI [of _ "i - off"]) auto
qed

definition refilled :: "se_prims \<Rightarrow> rcache_state \<Rightarrow> rcache_state \<Rightarrow> bool" where
  "refilled P rc rc' \<longleftrightarrow> rcache_wf rc' \<and> g_random_cache_low rc' = g_random_cache_low rc
     \<and> unat (g_random_cache_high rc') = (unat (g_random_cache_low rc) + 0x3FF) mod 0x400
     \<and> (\<forall>i<0x400. if unread rc i then g_random_cache rc' ! i = g_random_cache rc ! i
                   else from_rng P (g_random_cache rc' ! i))"

text \<open>The three situations of a refill: nothing consumed, a gap, or a range over the end.\<close>

lemma high_plus_one:
  assumes "rcache_wf rc"
  shows "unat ((g_random_cache_high rc + 1) AND 0x3FF) = (unat (g_random_cache_high rc) + 1) mod 0x400"
    "unat (g_random_cache_high rc + 1) = unat (g_random_cache_high rc) + 1"
proof -
  have "unat (g_random_cache_high rc) \<le> 0x3FF" using assms by (simp add: rcache_wf_nat)
  then show "unat (g_random_cache_high rc + 1) = unat (g_random_cache_high rc) + 1"
    by (subst unat_add_lem [THEN iffD1]) simp_all
  then show "unat ((g_random_cache_high rc + 1) AND 0x3FF) = (unat (g_random_cache_high rc) + 1) mod 0x400"
    by (simp only: unat_and_3FF)
qed

lemma refill_gap:
  assumes e: "se_engine_ok P eng" and wf: "rcache_wf rc"
    and h1: "h1 = (g_random_cache_high rc + 1) AND 0x3FF" and gap: "h1 < g_random_cache_low rc"
  shows "\<exists>rc' se'. randomcache_refill eng rc se = Ok (rc', se') \<and> refilled P rc rc' \<and> se_core se' = se_core se"
proof -
  let ?lo = "g_random_cache_low rc" and ?hi = "g_random_cache_high rc" and ?c = "g_random_cache rc"
  have w: "length ?c = 0x400" "unat ?lo \<le> 0x3C7" "unat ?hi \<le> 0x3FF" using wf by (auto simp: rcache_wf_nat)
  note u = high_plus_one(1) [OF wf, folded h1]
  have g: "unat h1 < unat ?lo" using gap by (simp add: word_less_nat_alt)
  have sz: "unat (?lo - h1) = unat ?lo - unat h1" using g by (simp add: unat_sub word_le_nat_alt)
  have b: "unat h1 + unat (?lo - h1) \<le> 0x400" using g sz w(2) by simp
  let ?rc = "rc\<lparr>g_random_cache := blit ?c (unat h1) (rand_bytes P (op_count se) (unat (?lo - h1))),
                g_random_cache_high := ?lo - 1\<rparr>"
  from refill_segment_ok [OF e w(1) b, of se] obtain se' where
    s: "randomcache_refill_segment eng h1 (?lo - h1) rc se =
      Ok (rc\<lparr>g_random_cache := blit ?c (unat h1) (rand_bytes P (op_count se) (unat (?lo - h1)))\<rparr>, se')"
      "se_core se' = se_core se" by blast
  have hi: "unat (?lo - 1) = unat ?lo - 1" using g by (subst unat_sub) (auto simp: word_le_nat_alt)
  note sb = segment_bytes [OF e w(1) b]
  have un: "unread rc i \<longleftrightarrow> \<not> (unat h1 \<le> i \<and> i < unat h1 + unat (?lo - h1))" if "i < 0x400" for i
    using that u g w sz by (auto simp: unread_def Let_def mod_if split: if_splits)
  have "refilled P rc ?rc"
    unfolding refilled_def using sb(1) [of 0] w hi g un sb(2,3) by (auto simp: rcache_wf_nat mod_if)
  moreover have "\<not> ?lo < h1" "?lo \<noteq> h1" using gap by auto
  then have "randomcache_refill eng rc se = Ok (?rc, se')"
    unfolding randomcache_refill_def Let_def h1 [symmetric] by (simp add: s(1))
  ultimately show ?thesis using s(2) by blast
qed

lemma refill_wrap_first:
  assumes e: "se_engine_ok P eng" and wf: "rcache_wf rc"
    and h1: "h1 = (g_random_cache_high rc + 1) AND 0x3FF" and wrap: "g_random_cache_low rc < h1"
  shows "unat h1 = unat (g_random_cache_high rc) + 1" "g_random_cache_high rc \<noteq> 0x3FF"
    "\<exists>rc1 se1. bindR (randomcache_refill_segment eng h1 (0x400 - h1) rc se) (\<lambda>(rc, se).
        Ok (rc\<lparr>g_random_cache_high := (g_random_cache_high rc + 0x400 - h1) AND 0x3FF\<rparr>, se)) = Ok (rc1, se1)
      \<and> se_core se1 = se_core se \<and> g_random_cache_high rc1 = 0x3FF \<and> length (g_random_cache rc1) = 0x400
      \<and> g_random_cache_low rc1 = g_random_cache_low rc
      \<and> (\<forall>i<0x400. if i < unat h1 then g_random_cache rc1 ! i = g_random_cache rc ! i
                    else from_rng P (g_random_cache rc1 ! i))"
proof -
  let ?lo = "g_random_cache_low rc" and ?hi = "g_random_cache_high rc" and ?c = "g_random_cache rc"
  have w: "length ?c = 0x400" "unat ?lo \<le> 0x3C7" "unat ?hi \<le> 0x3FF" using wf by (auto simp: rcache_wf_nat)
  note u = high_plus_one(1) [OF wf, folded h1]
  have g: "unat ?lo < unat h1" using wrap by (simp add: word_less_nat_alt)
  show hi: "unat h1 = unat ?hi + 1" using g u w(3) by (auto simp: mod_if split: if_splits)
  then show nh: "?hi \<noteq> 0x3FF" using u by auto
  have sz: "unat (0x400 - h1) = 0x400 - unat h1" using hi w(3) by (subst unat_sub) (auto simp: word_le_nat_alt)
  have b: "unat h1 + unat (0x400 - h1) \<le> 0x400" using hi w(3) sz by simp
  let ?c1 = "blit ?c (unat h1) (rand_bytes P (op_count se) (unat (0x400 - h1)))"
  from refill_segment_ok [OF e w(1) b, of se] obtain se1 where
    s: "randomcache_refill_segment eng h1 (0x400 - h1) rc se = Ok (rc\<lparr>g_random_cache := ?c1\<rparr>, se1)"
      "se_core se1 = se_core se" by blast
  note sb = segment_bytes [OF e w(1) b]
  have "h1 = ?hi + 1" using hi high_plus_one(2) [OF wf] by (simp add: word_unat_eq_iff)
  then have "(?hi + 0x400 - h1) AND 0x3FF = 0x3FF" by simp
  moreover have "if i < unat h1 then ?c1 ! i = ?c ! i else from_rng P (?c1 ! i)" if "i < 0x400" for i
    using sb(2,3) [of i] that sz hi w(3) by auto
  ultimately show "\<exists>rc1 se1. bindR (randomcache_refill_segment eng h1 (0x400 - h1) rc se) (\<lambda>(rc, se).
        Ok (rc\<lparr>g_random_cache_high := (g_random_cache_high rc + 0x400 - h1) AND 0x3FF\<rparr>, se)) = Ok (rc1, se1)
      \<and> se_core se1 = se_core se \<and> g_random_cache_high rc1 = 0x3FF \<and> length (g_random_cache rc1) = 0x400
      \<and> g_random_cache_low rc1 = g_random_cache_low rc
      \<and> (\<forall>i<0x400. if i < unat h1 then g_random_cache rc1 ! i = g_random_cache rc ! i
                    else from_rng P (g_random_cache rc1 ! i))"
    using s sb(1) [of 0] by simp
qed

lemma refill_wrap:
  assumes e: "se_engine_ok P eng" and wf: "rcache_wf rc"
    and h1: "h1 = (g_random_cache_high rc + 1) AND 0x3FF" and wrap: "g_random_cache_low rc < h1"
  shows "\<exists>rc' se'. randomcache_refill eng rc se = Ok (rc', se') \<and> refilled P rc rc' \<and> se_core se' = se_core se"
proof -
  let ?lo = "g_random_cache_low rc" and ?hi = "g_random_cache_high rc"
  have w: "unat ?lo \<le> 0x3C7" "unat ?hi \<le> 0x3FF" using wf by (auto simp: rcache_wf_nat)
  note f = refill_wrap_first [OF e wf h1 wrap]
  obtain rc1 se1 where r1: "bindR (randomcache_refill_segment eng h1 (0x400 - h1) rc se) (\<lambda>(rc, se).
        Ok (rc\<lparr>g_random_cache_high := (g_random_cache_high rc + 0x400 - h1) AND 0x3FF\<rparr>, se)) = Ok (rc1, se1)"
    and c1: "se_core se1 = se_core se" "g_random_cache_high rc1 = 0x3FF" "length (g_random_cache rc1) = 0x400"
      "g_random_cache_low rc1 = ?lo" "\<And>i. i < 0x400 \<Longrightarrow> if i < unat h1 then g_random_cache rc1 ! i = g_random_cache rc ! i
                    else from_rng P (g_random_cache rc1 ! i)"
    using f(3) [of se] by blast
  have g: "unat ?lo < unat h1" using wrap by (simp add: word_less_nat_alt)
  have ne: "?lo \<noteq> h1" using wrap by auto
  have un: "unread rc i \<longleftrightarrow> unat ?lo \<le> i \<and> i < unat h1" for i
    using f(1) g by (auto simp: unread_def Let_def)
  have run: "randomcache_refill eng rc se =
      (if ?lo > 0 then bindR (randomcache_refill_segment eng 0 ?lo rc1 se1) (\<lambda>(rc, se).
         Ok (rc\<lparr>g_random_cache_high := (g_random_cache_high rc + g_random_cache_low rc) AND 0x3FF\<rparr>, se))
       else Ok (rc1, se1))"
    unfolding randomcache_refill_def Let_def h1 [symmetric] using ne wrap f(2) r1 c1(4) by simp
  show ?thesis
  proof (cases "0 < ?lo")
    case False
    then have "?lo = 0" using word_neq_0_conv by blast
    then have "refilled P rc rc1" unfolding refilled_def rcache_wf_nat using c1 un by auto
    then show ?thesis using run False c1(1) by simp
  next
    case True
    have b2: "unat (0 :: u32) + unat ?lo \<le> 0x400" using w(1) by simp
    from refill_segment_ok [OF e c1(3) b2, of se1] obtain se2 where
      s2: "randomcache_refill_segment eng 0 ?lo rc1 se1 =
        Ok (rc1\<lparr>g_random_cache := blit (g_random_cache rc1) 0 (rand_bytes P (op_count se1) (unat ?lo))\<rparr>, se2)"
        "se_core se2 = se_core se1" by auto
    let ?c2 = "blit (g_random_cache rc1) 0 (rand_bytes P (op_count se1) (unat ?lo))"
    let ?rc2 = "rc1\<lparr>g_random_cache := ?c2, g_random_cache_high := (0x3FF + ?lo) AND 0x3FF\<rparr>"
    have "unat (0x3FF + ?lo) = 0x3FF + unat ?lo" using w(1) by (subst unat_add_lem [THEN iffD1]) simp_all
    then have hi2: "unat ((0x3FF + ?lo) AND 0x3FF) = (0x3FF + unat ?lo) mod 0x400" by (simp only: unat_and_3FF)
    note sb2 = segment_bytes [OF e c1(3), of 0 "unat ?lo"]
    have "if unread rc i then ?c2 ! i = g_random_cache rc ! i else from_rng P (?c2 ! i)" if i: "i < 0x400" for i
      using sb2(2,3) [of i] c1(5) [OF i] i w(1) un [of i] g by (cases "i < unat ?lo") auto
    moreover have "length ?c2 = 0x400" using sb2(1) [of 0] w(1) by simp
    ultimately have "refilled P rc ?rc2"
      unfolding refilled_def rcache_wf_nat using w hi2 c1(4) by (simp add: add.commute)
    then show ?thesis using run True s2 c1 by simp
  qed
qed

lemma refill_ok:
  assumes e: "se_engine_ok P eng" and wf: "rcache_wf rc"
  shows "\<exists>rc' se'. randomcache_refill eng rc se = Ok (rc', se') \<and> refilled P rc rc' \<and> se_core se' = se_core se"
proof -
  define h1 where "h1 = (g_random_cache_high rc + 1) AND 0x3FF"
  consider "g_random_cache_low rc = h1" | "g_random_cache_low rc < h1" | "h1 < g_random_cache_low rc"
    by (rule linorder_cases)
  then show ?thesis
  proof cases
    case 1
    have "refilled P rc rc"
      using wf high_plus_one(1) [OF wf] 1
      by (auto simp: refilled_def rcache_wf_nat h1_def unread_def Let_def mod_if split: if_splits)
    then show ?thesis using 1 by (simp add: randomcache_refill_def h1_def Let_def)
  next
    case 2
    then show ?thesis by (rule refill_wrap [OF e wf h1_def])
  next
    case 3
    then show ?thesis by (rule refill_gap [OF e wf h1_def])
  qed
qed

text \<open>
  When requests wrap around with no refill in between, the read index is back at 0 while the
  write index has not moved: the next refill has nothing to do and the same bytes are served
  again.
\<close>

lemma wrapped_not_refilled:
  "g_random_cache_low rc = 0 \<Longrightarrow> g_random_cache_high rc = 0x3FF \<Longrightarrow> randomcache_refill eng rc se = Ok (rc, se)"
  by (simp add: randomcache_refill_def Let_def)

end
