(* ===== verification/SMC_User.thy ===== *)
theory SMC_User
  imports Title_Key GCM User_Page Random_Cache
begin

text \<open>
  \<^verbatim>\<open>smc_user.c\<close>: the handlers of the user SMCs, on the state of all the components they use.
  A handler takes the eight argument registers and returns its result code, the registers
  and the state; every early return and panic of the source is a branch.

  What is outside the monitor is collected in an environment: the security engine, the fuse
  hardware, the version hash of the build, and the contents of uninitialised local arrays.
\<close>

section \<open>State\<close>

record env =
  env_eng :: se_engine
  env_fuse_hw :: fuse_hw
  env_version_hash :: u64
  env_stack :: "nat \<Rightarrow> bytes"    \<comment> \<open>an uninitialised local array of so many bytes\<close>

record monitor =
  m_se :: se_state
  m_cfg :: exocfg
  m_fuse :: fuse_state
  m_bootconfig :: bootconfig_state
  m_configitem :: configitem_state
  m_mkey :: mkey_state
  m_tkey :: tkey_state
  m_upage :: upage_state
  m_rcache :: rcache_state
  g_crypt_aes_done :: bool
  g_exp_mod_done :: bool
  g_imported_exponents :: "bytes list"    \<comment> \<open>four exponents of 0x100 bytes\<close>
  intr_se_pending :: bool                 \<comment> \<open>\<^verbatim>\<open>INTERRUPT_ID_USER_SECURITY_ENGINE\<close> raised\<close>

type_synonym smc_args = "u64 list"
type_synonym handler = "smc_args \<Rightarrow> monitor \<Rightarrow> (u32 \<times> smc_args \<times> monitor) res"

text \<open>Running an operation of one component on the state of the whole monitor.\<close>

definition on_se :: "(se_state \<Rightarrow> se_state res) \<Rightarrow> monitor \<Rightarrow> monitor res" where
  "on_se f m = bindR (f (m_se m)) (\<lambda>se. Ok (m\<lparr>m_se := se\<rparr>))"

definition with_se :: "(se_state \<Rightarrow> ('a \<times> se_state) res) \<Rightarrow> monitor \<Rightarrow> ('a \<times> monitor) res" where
  "with_se f m = bindR (f (m_se m)) (\<lambda>(x, se). Ok (x, m\<lparr>m_se := se\<rparr>))"

definition qwords :: "u64 \<Rightarrow> u64 \<Rightarrow> bytes" where
  "qwords a b = le_bytes 8 a @ le_bytes 8 b"

definition put_qwords :: "bytes \<Rightarrow> smc_args \<Rightarrow> smc_args" where
  "put_qwords bs args = args[1 := read64le bs 0, 2 := read64le bs 8]"


definition g_rsausecase_to_cryptousecase :: "u32 list" where
  "g_rsausecase_to_cryptousecase = [1, 2, 3, 5, 6]"

section \<open>Key slots and completion flags\<close>

definition is_user_keyslot_valid :: "exocfg \<Rightarrow> u32 \<Rightarrow> bool res" where
  "is_user_keyslot_valid c keyslot =
     bindR (exosphere_get_target_firmware c) (\<lambda>fw.
     if fw \<in> {FW_100, FW_200, FW_300, FW_400, FW_500} then Ok (keyslot \<le> 3)
     else Ok (keyslot \<le> 5))"

definition set_exp_mod_done :: "bool \<Rightarrow> monitor \<Rightarrow> monitor" where
  "set_exp_mod_done d m = m\<lparr>g_exp_mod_done := d\<rparr>"

definition get_exp_mod_done :: "monitor \<Rightarrow> bool" where
  "get_exp_mod_done m = g_exp_mod_done m"

definition se_trigger_interrupt :: "monitor \<Rightarrow> monitor" where
  "se_trigger_interrupt m = m\<lparr>intr_se_pending := True\<rparr>"

definition exp_mod_done_handler :: "monitor \<Rightarrow> monitor res" where
  "exp_mod_done_handler m = Ok (se_trigger_interrupt (set_exp_mod_done True m))"

definition set_crypt_aes_done :: "bool \<Rightarrow> monitor \<Rightarrow> monitor" where
  "set_crypt_aes_done d m = m\<lparr>g_crypt_aes_done := d\<rparr>"

definition get_crypt_aes_done :: "monitor \<Rightarrow> bool" where
  "get_crypt_aes_done m = g_crypt_aes_done m"

definition crypt_aes_done_handler :: "monitor \<Rightarrow> monitor res" where
  "crypt_aes_done_handler m =
     bindR (se_check_for_error (m_se m)) (\<lambda>_. Ok (se_trigger_interrupt (set_crypt_aes_done True m)))"

text \<open>\<^verbatim>\<open>se_operation_completed\<close> of \<^verbatim>\<open>se.c\<close>, the handler of the engine's completion interrupt.\<close>

fun run_se_callback :: "se_callback \<Rightarrow> monitor \<Rightarrow> monitor res" where
  "run_se_callback Exp_mod_done_handler m = exp_mod_done_handler m"
| "run_se_callback Crypt_aes_done_handler m = crypt_aes_done_handler m"

definition se_operation_completed :: "monitor \<Rightarrow> monitor res" where
  "se_operation_completed m =
     (let m = m\<lparr>m_se := (m_se m)\<lparr>INT_ENABLE_REG := 0\<rparr>\<rparr> in
      case g_se_callback (m_se m) of
        None \<Rightarrow> Ok m
      | Some cb \<Rightarrow> bindR (run_se_callback cb m) (\<lambda>m. Ok (m\<lparr>m_se := (m_se m)\<lparr>g_se_callback := None\<rparr>\<rparr>)))"

section \<open>Copies from the user page\<close>

text \<open>
  \<open>fetch_page\<close> is the idiom \<^verbatim>\<open>if (upage_init(&page_ref, user_address) == 0) return 2;\<close> and
  \<open>fetch\<close> the idiom \<^verbatim>\<open>if (user_copy_to_secure(&page_ref, dst, src, size) == 0) return 2;\<close>, with
  what follows as a continuation.
\<close>

definition fetch_page ::
  "u64 \<Rightarrow> smc_args \<Rightarrow> monitor \<Rightarrow> (upage_ref \<Rightarrow> monitor \<Rightarrow> (u32 \<times> smc_args \<times> monitor) res)
   \<Rightarrow> (u32 \<times> smc_args \<times> monitor) res"
where
  "fetch_page user_addr args m k =
     bindR (upage_init user_addr (m_upage m)) (\<lambda>(ok, page_ref, u).
     let m = m\<lparr>m_upage := u\<rparr> in if ok then k page_ref m else Ok (2, args, m))"

definition fetch ::
  "upage_ref \<Rightarrow> bytes \<Rightarrow> u64 \<Rightarrow> nat \<Rightarrow> smc_args \<Rightarrow> monitor \<Rightarrow> (bytes \<Rightarrow> (u32 \<times> smc_args \<times> monitor) res)
   \<Rightarrow> (u32 \<times> smc_args \<times> monitor) res"
where
  "fetch page_ref dst user_src sz args m k =
     bindR (user_copy_to_secure page_ref dst user_src sz (m_upage m)) (\<lambda>(ok, dst).
     if ok then k dst else Ok (2, args, m))"

definition store_back ::
  "upage_ref \<Rightarrow> u64 \<Rightarrow> bytes \<Rightarrow> nat \<Rightarrow> smc_args \<Rightarrow> monitor \<Rightarrow> (monitor \<Rightarrow> (u32 \<times> smc_args \<times> monitor) res)
   \<Rightarrow> (u32 \<times> smc_args \<times> monitor) res"
where
  "store_back page_ref user_dst src sz args m k =
     bindR (secure_copy_to_user page_ref user_dst src sz (m_upage m)) (\<lambda>(ok, u).
     let m = m\<lparr>m_upage := u\<rparr> in if ok then k m else Ok (2, args, m))"

section \<open>Modular exponentiation\<close>

definition user_exp_mod :: "env \<Rightarrow> handler" where
  "user_exp_mod e args m =
     (if args ! 4 = 0 \<or> args ! 4 > 0x100 \<or> args ! 4 AND 3 \<noteq> 0 then Ok (2, args, m)
      else
        let exponent_size = unat (args ! 4);
            user_input = args ! 1; user_exponent = args ! 2; user_modulus = args ! 3
        in fetch_page user_input args m (\<lambda>page_ref m.
           fetch page_ref (env_stack e 0x100) user_input 0x100 args m (\<lambda>input.
           fetch page_ref (env_stack e 0x100) user_exponent exponent_size args m (\<lambda>exponent.
           fetch page_ref (env_stack e 0x100) user_modulus 0x100 args m (\<lambda>modulus.
           let m = set_exp_mod_done False m
           in bindR (on_se (set_rsa_keyslot 0 modulus 0x100 exponent exponent_size) m) (\<lambda>m.
              bindR (on_se (se_exp_mod (env_eng e) 0 input 0x100 Exp_mod_done_handler) m) (\<lambda>m.
              Ok (0, args, m))))))))"

definition user_secure_exp_mod :: "env \<Rightarrow> handler" where
  "user_secure_exp_mod e args m =
     (let user_input = args ! 1; user_modulus = args ! 2 in
      bindR (exosphere_get_target_firmware (m_cfg m)) (\<lambda>fw.
      case (if fw \<ge> FW_500
            then if args ! 3 = 0 then Some 1 else if args ! 3 = 1 then Some 2
                 else if args ! 3 = 2 then Some 3 else None
            else Some (1 :: nat)) of
        None \<Rightarrow> Ok (2, args, m)
      | Some exponent_id \<Rightarrow>
          fetch_page user_input args m (\<lambda>page_ref m.
          fetch page_ref (env_stack e 0x100) user_input 0x100 args m (\<lambda>input.
          fetch page_ref (env_stack e 0x100) user_modulus 0x100 args m (\<lambda>modulus.
          let m = set_exp_mod_done False m
          in bindR (on_se (set_rsa_keyslot 0 modulus 0x100 (g_imported_exponents m ! exponent_id) 0x100) m) (\<lambda>m.
             bindR (on_se (se_exp_mod (env_eng e) 0 input 0x100 Exp_mod_done_handler) m) (\<lambda>m.
             Ok (0, args, m))))))))"

section \<open>Random bytes\<close>

text \<open>\<^verbatim>\<open>memcpy(&args->X[1], bytes, size)\<close> for at most 0x38 bytes.\<close>

definition args_write_bytes :: "bytes \<Rightarrow> smc_args \<Rightarrow> smc_args" where
  "args_write_bytes bs args =
     (let mem = blit (concat (map (le_bytes 8) (drop 1 args))) 0 bs
      in take 1 args @ map (\<lambda>i. read64le mem (8 * i)) [0..<7])"

definition user_get_random_bytes :: "env \<Rightarrow> handler" where
  "user_get_random_bytes e args m =
     (if args ! 1 > 0x38 then Ok (2, args, m)
      else
        let sz = unat (args ! 1)
        in bindR (with_se (se_generate_random (env_eng e) KEYSLOT_SWITCH_RNGKEY (env_stack e 0x40) sz) m)
             (\<lambda>(random_bytes, m).
              Ok (0, if sz \<noteq> 0 then args_write_bytes (take sz random_bytes) args else args, m)))"

section \<open>AES keys\<close>

definition kek_seeds :: "bytes list" where
  "kek_seeds =
    [[0x00, 0x00, 0x00, 0x00, 0x00, 0x00, 0x00, 0x00, 0x00, 0x00, 0x00, 0x00, 0x00, 0x00, 0x00, 0x00],
     [0xA2, 0xAB, 0xBF, 0x9C, 0x92, 0x2F, 0xBB, 0xE3, 0x78, 0x79, 0x9B, 0xC0, 0xCC, 0xEA, 0xA5, 0x74],
     [0x57, 0xE2, 0xD9, 0x45, 0xE4, 0x92, 0xF4, 0xFD, 0xC3, 0xF9, 0x86, 0x38, 0x89, 0x78, 0x9F, 0x3C],
     [0xE5, 0x4D, 0x9A, 0x02, 0xF0, 0x4F, 0x5F, 0xA8, 0xAD, 0x76, 0x0A, 0xF6, 0x32, 0x95, 0x59, 0xBB],
     [0x59, 0xD9, 0x31, 0xF4, 0xA7, 0x97, 0xB8, 0x14, 0x40, 0xD6, 0xA2, 0x60, 0x2B, 0xED, 0x15, 0x31],
     [0xFD, 0x6A, 0x25, 0xE5, 0xD8, 0x38, 0x7F, 0x91, 0x49, 0xDA, 0xF8, 0x59, 0xA8, 0x28, 0xE6, 0x75],
     [0x89, 0x96, 0x43, 0x9A, 0x7C, 0xD5, 0x59, 0x55, 0x24, 0xD5, 0x24, 0x18, 0xAB, 0x6C, 0x04, 0x61]]"

definition kek_masks :: "bytes list" where
  "kek_masks =
    [[0x4D, 0x87, 0x09, 0x86, 0xC4, 0x5D, 0x20, 0x72, 0x2F, 0xBA, 0x10, 0x53, 0xDA, 0x92, 0xE8, 0xA9],
     [0x25, 0x03, 0x31, 0xFB, 0x25, 0x26, 0x0B, 0x79, 0x8C, 0x80, 0xD2, 0x69, 0x98, 0xE2, 0x22, 0x77],
     [0x76, 0x14, 0x1D, 0x34, 0x93, 0x2D, 0xE1, 0x84, 0x24, 0x7B, 0x66, 0x65, 0x55, 0x04, 0x65, 0x81],
     [0xAF, 0x3D, 0xB7, 0xF3, 0x08, 0xA2, 0xD8, 0xA2, 0x08, 0xCA, 0x18, 0xA8, 0x69, 0x46, 0xC9, 0x0B]]"

text \<open>The slot of the device key: the selection changed in 4.0.0 and in 5.0.0.\<close>

definition device_keyslot :: "u32 \<Rightarrow> u32 \<Rightarrow> monitor \<Rightarrow> (u32 \<times> monitor) res" where
  "device_keyslot fw master_key_rev m =
     (if fw \<ge> FW_500 then with_se (devkey_get_keyslot master_key_rev (m_mkey m)) m
      else if fw = FW_400
      then if master_key_rev \<ge> 1 then Ok (KEYSLOT_SWITCH_DEVICEKEY, m) else Ok (KEYSLOT_SWITCH_4XOLDDEVICEKEY, m)
      else Ok (KEYSLOT_SWITCH_DEVICEKEY, m))"

definition kek_options_refused :: "u32 \<Rightarrow> u32 \<Rightarrow> u32 \<Rightarrow> u32 \<Rightarrow> bool \<Rightarrow> bool \<Rightarrow> bool" where
  "kek_options_refused fw master_key_rev mask_id usecase is_personalized is_recovery_boot \<longleftrightarrow>
     (fw \<ge> FW_500 \<and>
        (if is_personalized
         then master_key_rev \<ge> MASTERKEY_REVISION_MAX
              \<or> (MASTERKEY_REVISION_300 \<le> master_key_rev \<and> master_key_rev < MASTERKEY_REVISION_400_410)
              \<or> mask_id > 3 \<or> usecase \<ge> CRYPTOUSECASE_MAX_5X
         else usecase \<ge> CRYPTOUSECASE_UNK6 \<or> (usecase = CRYPTOUSECASE_UNK5 \<and> mask_id \<ge> 4)))
     \<or> (mask_id = 2 \<and> \<not> is_recovery_boot)
     \<or> (mask_id = 1 \<and> is_recovery_boot)"

definition user_generate_aes_kek :: "env \<Rightarrow> handler" where
  "user_generate_aes_kek e args m =
     (let wrapped_kek = qwords (args ! 1) (args ! 2);
          master_key_rev = ucast (args ! 3) :: u32;
          master_key_rev = (if master_key_rev > 0 then master_key_rev - 1 else master_key_rev)
      in if master_key_rev \<ge> MASTERKEY_REVISION_MAX then Ok (2, args, m)
      else bindR (mkey_get_revision (m_mkey m)) (\<lambda>rev.
      if master_key_rev > rev then Ok (2, args, m)
      else
      let packed_options = args ! 4 in
      if packed_options > 0xFF then Ok (2, args, m)
      else
      bindR (exosphere_get_target_firmware (m_cfg m)) (\<lambda>fw.
      let mask_id = ucast (drop_bit 1 packed_options AND 3) :: u32;
          usecase = ucast (drop_bit 5 packed_options AND (if fw \<ge> FW_500 then 7 else 3)) :: u32;
          is_personalized = (packed_options AND 1 \<noteq> 0)
      in bindR (configitem_is_recovery_boot (m_cfg m) (env_version_hash e) (mkey_get_revision (m_mkey m))
                  (env_fuse_hw e) (m_bootconfig m) (m_configitem m) (m_fuse m)) (\<lambda>is_recovery_boot.
      if kek_options_refused fw master_key_rev mask_id usecase is_personalized is_recovery_boot then Ok (2, args, m)
      else
      let kek_source = map (\<lambda>i. (kek_seeds ! unat usecase) ! i XOR (kek_masks ! unat mask_id) ! i) [0..<0x10]
      in bindR (if is_personalized then device_keyslot fw master_key_rev m
                else with_se (mkey_get_keyslot master_key_rev (m_mkey m)) m) (\<lambda>(keyslot, m).
         bindR (on_se (decrypt_data_into_keyslot (env_eng e) KEYSLOT_SWITCH_TEMPKEY keyslot kek_source 0x10) m) (\<lambda>m.
         bindR (with_se (se_aes_ecb_decrypt_block (env_eng e) KEYSLOT_SWITCH_TEMPKEY (env_stack e 0x10) 0x10 wrapped_kek 0x10) m)
           (\<lambda>(kek, m).
         bindR (with_se (seal_key (m_cfg m) (env_eng e) (env_stack e 0x10) 0x10 kek 0x10 usecase) m) (\<lambda>(sealed_kek, m).
         Ok (0, put_qwords sealed_kek args, m)))))))))"

definition user_load_aes_key :: "env \<Rightarrow> handler" where
  "user_load_aes_key e args m =
     (let keyslot = ucast (args ! 1) in
      bindR (is_user_keyslot_valid (m_cfg m) keyslot) (\<lambda>valid.
      if \<not> valid then Ok (2, args, m)
      else
        let sealed_kek = qwords (args ! 2) (args ! 3);
            wrapped_key = qwords (args ! 4) (args ! 5)
        in bindR (on_se (unseal_key (m_cfg m) (env_eng e) KEYSLOT_SWITCH_TEMPKEY sealed_kek 0x10 CRYPTOUSECASE_AES) m) (\<lambda>m.
           bindR (on_se (decrypt_data_into_keyslot (env_eng e) keyslot KEYSLOT_SWITCH_TEMPKEY wrapped_key 0x10) m) (\<lambda>m.
           Ok (0, args, m)))))"

definition user_crypt_aes :: "env \<Rightarrow> handler" where
  "user_crypt_aes e args m =
     (let keyslot = ucast (args ! 1 AND 3) :: u32;
          mode = ucast (drop_bit 4 (args ! 1) AND 3) :: u32
      in bindR (exosphere_get_target_firmware (m_cfg m)) (\<lambda>fw.
      let keyslot = (if fw \<ge> FW_600 then ucast (args ! 1 AND 7) else keyslot);
          iv_ctr = qwords (args ! 2) (args ! 3);
          in_ll_paddr = ucast (args ! 4) :: u32;
          out_ll_paddr = ucast (args ! 5) :: u32;
          sz = args ! 6
      in bindR (is_user_keyslot_valid (m_cfg m) keyslot) (\<lambda>valid.
      if \<not> valid \<or> sz AND 0xF \<noteq> 0 then Ok (2, args, m)
      else if fw \<ge> FW_500 \<and> (in_ll_paddr - 0x80000000 \<ge> 0x3FF7F5 \<or> out_ll_paddr - 0x80000000 \<ge> 0x3FF7F5)
      then Ok (2, args, m)
      else
        let m = set_crypt_aes_done False m
        in if mode = 0
           then bindR (on_se (se_aes_cbc_encrypt_insecure keyslot out_ll_paddr in_ll_paddr sz iv_ctr Crypt_aes_done_handler) m)
                  (\<lambda>m. Ok (0, args, m))
           else if mode = 1
           then bindR (on_se (se_aes_cbc_decrypt_insecure keyslot out_ll_paddr in_ll_paddr sz iv_ctr Crypt_aes_done_handler) m)
                  (\<lambda>m. Ok (0, args, m))
           else if mode = 2
           then bindR (on_se (se_aes_ctr_crypt_insecure keyslot out_ll_paddr in_ll_paddr sz iv_ctr Crypt_aes_done_handler) m)
                  (\<lambda>m. Ok (0, args, m))
           else Ok (1, args, m))))"

definition dev_specific_aes_key_ctr :: bytes where
  "dev_specific_aes_key_ctr =
    [0x3C, 0xD5, 0x92, 0xEC, 0x68, 0x31, 0x4A, 0x06, 0xD4, 0x1B, 0x0C, 0xD9, 0xF6, 0x2E, 0xD9, 0xE9]"

definition dev_specific_aes_key_mask :: bytes where
  "dev_specific_aes_key_mask =
    [0xAC, 0xCA, 0x9A, 0xCA, 0xFF, 0x2E, 0xB9, 0x22, 0xCC, 0x1F, 0x4F, 0xAD, 0xDD, 0x77, 0x21, 0x1E]"

definition retail_specific_aes_key_source :: bytes where
  "retail_specific_aes_key_source =
    [0xE2, 0xD6, 0xB8, 0x7A, 0x11, 0x9C, 0xB8, 0x80, 0xE8, 0x22, 0x88, 0x8A, 0x46, 0xFB, 0xA1, 0x95]"

definition user_generate_specific_aes_key :: "env \<Rightarrow> handler" where
  "user_generate_specific_aes_key e args m =
     (let wrapped_key = qwords (args ! 1) (args ! 2);
          master_key_rev = ucast (args ! 3) :: u32;
          master_key_rev = (if master_key_rev > 0 then master_key_rev - 1 else master_key_rev)
      in bindR (exosphere_get_target_firmware (m_cfg m)) (\<lambda>fw.
      let master_key_rev = (if fw < FW_400 then 0 else master_key_rev) in
      if master_key_rev \<ge> MASTERKEY_REVISION_MAX then Ok (2, args, m)
      else if args ! 4 > 1 then Ok (2, args, m)
      else
        let should_mask = (args ! 4 \<noteq> 0) in
        bindR (device_keyslot fw master_key_rev m) (\<lambda>(keyslot, m).
        bindR (if fuse_get_bootrom_patch_version (m_fuse m) < 0x7F
               then bindR (with_se (se_aes_ctr_crypt (env_eng e) keyslot (env_stack e 0x10) 0x10
                             (replicate 0x10 0) 0x10 dev_specific_aes_key_ctr 0x10) m) (\<lambda>(key, m).
                    Ok (if should_mask then xor_bytes key dev_specific_aes_key_mask else key, m))
               else bindR (on_se (decrypt_data_into_keyslot (env_eng e) KEYSLOT_SWITCH_TEMPKEY keyslot
                             retail_specific_aes_key_source 0x10) m) (\<lambda>m.
                    with_se (se_aes_ecb_decrypt_block (env_eng e) KEYSLOT_SWITCH_TEMPKEY (env_stack e 0x10) 0x10
                             wrapped_key 0x10) m)) (\<lambda>(key, m).
        Ok (0, put_qwords key args, m)))))"

definition user_compute_cmac :: "env \<Rightarrow> handler" where
  "user_compute_cmac e args m =
     (let keyslot = ucast (args ! 1); user_addr = args ! 2; sz = unat (args ! 3) in
      bindR (is_user_keyslot_valid (m_cfg m) keyslot) (\<lambda>valid.
      if \<not> valid \<or> args ! 3 > 0x400 then Ok (2, args, m)
      else
        fetch_page user_addr args m (\<lambda>page_ref m.
        fetch page_ref (env_stack e 0x400) user_addr sz args m (\<lambda>user_data.
        bindR (with_se (se_compute_aes_128_cmac (env_eng e) keyslot 0x10 (take sz user_data) sz) m) (\<lambda>(result_cmac, m).
        Ok (0, put_qwords result_cmac args, m))))))"

section \<open>RSA keys\<close>

definition store_exponent :: "nat \<Rightarrow> bytes \<Rightarrow> monitor \<Rightarrow> monitor" where
  "store_exponent i bs m =
     m\<lparr>g_imported_exponents := (g_imported_exponents m)[i := blit (g_imported_exponents m ! i) 0 bs]\<rparr>"

text \<open>The decryption of a key package in place, with the state of the monitor.\<close>

definition gcm_decrypt_in_place ::
  "env \<Rightarrow> bytes \<Rightarrow> nat \<Rightarrow> bytes \<Rightarrow> bytes \<Rightarrow> u32 \<Rightarrow> bool \<Rightarrow> monitor \<Rightarrow> (nat \<times> bytes \<times> u8 option \<times> monitor) res"
where
  "gcm_decrypt_in_place e user_data sz sealed_kek wrapped_key usecase is_personalized m =
     bindR (gcm_decrypt_key (m_cfg m) (env_eng e) (m_fuse m) user_data sz user_data sz sealed_kek 0x10
              wrapped_key 0x10 usecase is_personalized (m_se m)) (\<lambda>(out_size, user_data, id_high, se).
     Ok (out_size, user_data, id_high, m\<lparr>m_se := se\<rparr>))"

definition user_load_rsa_oaep_key :: "env \<Rightarrow> handler" where
  "user_load_rsa_oaep_key e args m =
     bindR (exosphere_get_target_firmware (m_cfg m)) (\<lambda>fw.
     bindR (panic_if (fw \<ge> FW_500)) (\<lambda>_.
     let sealed_kek = qwords (args ! 1) (args ! 2) in
     if args ! 3 > 1 then Ok (2, args, m)
     else
       let is_personalized = (args ! 3 \<noteq> 0);
           user_addr = args ! 4;
           sz = unat (args ! 5);
           wrapped_key = qwords (args ! 6) (args ! 7)
       in if is_personalized \<and> sz \<noteq> 0x240 then Ok (2, args, m)
       else if \<not> is_personalized \<and> (sz \<noteq> 0x220 \<or> fuse_get_bootrom_patch_version (m_fuse m) \<ge> 0x7F) then Ok (2, args, m)
       else
         fetch_page user_addr args m (\<lambda>page_ref m.
         fetch page_ref (env_stack e 0x400) user_addr sz args m (\<lambda>user_data.
         bindR (gcm_decrypt_in_place e user_data sz sealed_kek wrapped_key CRYPTOUSECASE_RSAOAEP is_personalized m)
           (\<lambda>(out_size, user_data, _, m).
         if out_size < 0x100 then Ok (2, args, m)
         else Ok (0, args, store_exponent 0 (take 0x100 user_data) m))))))"

definition user_decrypt_rsa_private_key :: "env \<Rightarrow> handler" where
  "user_decrypt_rsa_private_key e args m =
     bindR (exosphere_get_target_firmware (m_cfg m)) (\<lambda>fw.
     bindR (panic_if (fw \<ge> FW_500)) (\<lambda>_.
     let sealed_kek = qwords (args ! 1) (args ! 2) in
     if args ! 3 > 1 then Ok (2, args, m)
     else
       let is_personalized = (args ! 3 \<noteq> 0);
           user_addr = args ! 4;
           sz = unat (args ! 5);
           wrapped_key = qwords (args ! 6) (args ! 7)
       in if sz > 0x240 then Ok (2, args, m)
       else if is_personalized \<and> sz < 0x31 then Ok (2, args, m)
       else if \<not> is_personalized \<and> (sz < 0x11 \<or> fuse_get_bootrom_patch_version (m_fuse m) \<ge> 0x7F) then Ok (2, args, m)
       else
         fetch_page user_addr args m (\<lambda>page_ref m.
         fetch page_ref (env_stack e 0x400) user_addr sz args m (\<lambda>user_data.
         bindR (gcm_decrypt_in_place e user_data sz sealed_kek wrapped_key CRYPTOUSECASE_RSAPRIVATE is_personalized m)
           (\<lambda>(out_size, user_data, _, m).
         if out_size = 0 then Ok (2, args, m)
         else store_back page_ref user_addr user_data sz args m (\<lambda>m.
              Ok (0, args[1 := of_nat out_size], m)))))))"

definition user_load_secure_exp_mod_key :: "env \<Rightarrow> handler" where
  "user_load_secure_exp_mod_key e args m =
     bindR (exosphere_get_target_firmware (m_cfg m)) (\<lambda>fw.
     bindR (panic_if (fw \<ge> FW_500)) (\<lambda>_.
     let sealed_kek = qwords (args ! 1) (args ! 2) in
     if args ! 3 > 1 then Ok (2, args, m)
     else
       let is_personalized = (args ! 3 \<noteq> 0);
           user_addr = args ! 4;
           sz = unat (args ! 5);
           wrapped_key = qwords (args ! 6) (args ! 7)
       in if is_personalized \<and> sz \<noteq> 0x130 then Ok (2, args, m)
       else if \<not> is_personalized \<and> (sz \<noteq> 0x110 \<or> fuse_get_bootrom_patch_version (m_fuse m) \<ge> 0x7F) then Ok (2, args, m)
       else
         fetch_page user_addr args m (\<lambda>page_ref m.
         fetch page_ref (env_stack e 0x400) user_addr sz args m (\<lambda>user_data.
         bindR (gcm_decrypt_in_place e user_data sz sealed_kek wrapped_key CRYPTOUSECASE_SECUREEXPMOD is_personalized m)
           (\<lambda>(out_size, user_data, _, m).
         if out_size = 0 then Ok (2, args, m)
         else Ok (0, args, store_exponent 1 (take (if out_size \<le> 0x100 then out_size else 0x100) user_data) m))))))"

section \<open>Title keys\<close>

definition user_unwrap_rsa_oaep_wrapped_titlekey :: "env \<Rightarrow> handler" where
  "user_unwrap_rsa_oaep_wrapped_titlekey e args m =
     (let user_wrapped_key = args ! 1; user_modulus = args ! 2; option = ucast (args ! 7) :: u32 in
      bindR (exosphere_get_target_firmware (m_cfg m)) (\<lambda>fw.
      let master_key_rev = (if fw \<ge> FW_600 then option AND 0x3F else option);
          titlekey_type = (if fw \<ge> FW_600 then drop_bit 6 option AND 1 else 0);
          master_key_rev = (if master_key_rev > 0 then master_key_rev - 1 else master_key_rev)
      in if fw \<ge> FW_300 \<and> master_key_rev \<ge> MASTERKEY_REVISION_MAX then Ok (2, args, m)
      else
        let master_key_rev = (if fw \<ge> FW_300 then master_key_rev else 0) in
        fetch_page user_wrapped_key args m (\<lambda>page_ref m.
        fetch page_ref (env_stack e 0x100) user_wrapped_key 0x100 args m (\<lambda>wrapped_key.
        fetch page_ref (env_stack e 0x100) user_modulus 0x100 args m (\<lambda>modulus.
        let m = set_exp_mod_done False m;
            m = m\<lparr>m_tkey := tkey_set_expected_label_hash (drop 3 args) (m_tkey m)\<rparr>
        in bindR (tkey_set_master_key_rev master_key_rev (m_tkey m)) (\<lambda>t.
           bindR (tkey_set_type (m_cfg m) titlekey_type t) (\<lambda>t.
           let m = m\<lparr>m_tkey := t\<rparr> in
           bindR (on_se (set_rsa_keyslot 0 modulus 0x100 (g_imported_exponents m ! 0) 0x100) m) (\<lambda>m.
           bindR (on_se (se_exp_mod (env_eng e) 0 wrapped_key 0x100 Exp_mod_done_handler) m) (\<lambda>m.
           Ok (0, args, m)))))))))) "

definition user_load_titlekey :: "env \<Rightarrow> handler" where
  "user_load_titlekey e args m =
     (let keyslot = ucast (args ! 1) in
      bindR (is_user_keyslot_valid (m_cfg m) keyslot) (\<lambda>valid.
      if \<not> valid then Ok (2, args, m)
      else
        let sealed_titlekey = qwords (args ! 2) (args ! 3)
        in bindR (on_se (unseal_titlekey (env_eng e) keyslot sealed_titlekey 0x10) m) (\<lambda>m.
           Ok (0, args, m))))"

definition user_unwrap_aes_wrapped_titlekey :: "env \<Rightarrow> handler" where
  "user_unwrap_aes_wrapped_titlekey e args m =
     (let aes_wrapped_titlekey = qwords (args ! 1) (args ! 2);
          master_key_rev = ucast (args ! 3) :: u32;
          master_key_rev = (if master_key_rev > 0 then master_key_rev - 1 else master_key_rev)
      in bindR (exosphere_get_target_firmware (m_cfg m)) (\<lambda>fw.
      if fw \<ge> FW_300 \<and> master_key_rev \<ge> MASTERKEY_REVISION_MAX then Ok (2, args, m)
      else
        let master_key_rev = (if fw \<ge> FW_300 then master_key_rev else 0) in
        bindR (tkey_set_master_key_rev master_key_rev (m_tkey m)) (\<lambda>t.
        bindR (tkey_set_type (m_cfg m) 0 t) (\<lambda>t.
        let m = m\<lparr>m_tkey := t\<rparr> in
        bindR (with_se (tkey_aes_unwrap (env_eng e) (env_stack e 0x10) 0x10 aes_wrapped_titlekey 0x10 (m_tkey m) (m_mkey m)) m)
          (\<lambda>(titlekey, m).
        bindR (with_se (seal_titlekey (env_eng e) (env_stack e 0x10) 0x10 titlekey 0x10) m) (\<lambda>(sealed_titlekey, m).
        Ok (0, put_qwords sealed_titlekey args, m)))))))"

section \<open>Import of RSA keys\<close>

definition import_size_refused :: "u32 \<Rightarrow> nat \<Rightarrow> bool" where
  "import_size_refused usecase sz \<longleftrightarrow>
     usecase > CRYPTOUSECASE_RSAIMPORT
     \<or> (if usecase = 0 then sz < 0x31 \<or> sz > 0x240 else sz < 0x130 \<or> sz > 0x240)"

definition user_encrypt_rsa_key_for_import :: "env \<Rightarrow> handler" where
  "user_encrypt_rsa_key_for_import e args m =
     (let user_in_kek = args ! 1; user_out_kek = args ! 2;
          usecase = ucast (args ! 3 AND 7) :: u32;
          user_addr = args ! 4; sz = unat (args ! 5);
          user_in_key = args ! 6; user_out_key = args ! 7
      in if import_size_refused usecase sz then Ok (2, args, m)
      else
        fetch_page user_addr args m (\<lambda>page_ref m.
        fetch page_ref (env_stack e 0x400) user_addr sz args m (\<lambda>user_data.
        fetch page_ref (env_stack e 0x10) user_in_kek 0x10 args m (\<lambda>in_sealed_kek.
        fetch page_ref (env_stack e 0x10) user_out_kek 0x10 args m (\<lambda>out_sealed_kek.
        fetch page_ref (env_stack e 0x10) user_in_key 0x10 args m (\<lambda>in_wrapped_key.
        fetch page_ref (env_stack e 0x10) user_out_key 0x10 args m (\<lambda>out_wrapped_key.
        bindR (gcm_decrypt_in_place e user_data sz in_sealed_kek in_wrapped_key CRYPTOUSECASE_RSAIMPORT True m)
          (\<lambda>(out_size, user_data, device_id_high, m).
        if out_size = 0 then Ok (2, args, m)
        else
          bindR (with_se (gcm_encrypt_key (m_cfg m) (env_eng e) (m_fuse m) user_data sz user_data (sz - 0x30)
                   out_sealed_kek 0x10 out_wrapped_key 0x10 (g_rsausecase_to_cryptousecase ! unat usecase)
                   (ucast (the device_id_high))) m) (\<lambda>(user_data, m).
          store_back page_ref user_addr user_data sz args m (\<lambda>m. Ok (0, args, m))))))))))) "

definition user_decrypt_or_import_rsa_key :: "env \<Rightarrow> handler" where
  "user_decrypt_or_import_rsa_key e args m =
     bindR (exosphere_get_target_firmware (m_cfg m)) (\<lambda>fw.
     bindR (panic_if (fw < FW_500)) (\<lambda>_.
     let sealed_kek = qwords (args ! 1) (args ! 2);
         usecase = ucast (args ! 3 AND 7) :: u32;
         user_addr = args ! 4;
         sz = unat (args ! 5);
         wrapped_key = qwords (args ! 6) (args ! 7)
     in if import_size_refused usecase sz then Ok (2, args, m)
     else
       fetch_page user_addr args m (\<lambda>page_ref m.
       fetch page_ref (env_stack e 0x400) user_addr sz args m (\<lambda>user_data.
       bindR (gcm_decrypt_in_place e user_data sz sealed_kek wrapped_key
                (g_rsausecase_to_cryptousecase ! unat usecase) True m) (\<lambda>(out_size, user_data, _, m).
       if out_size = 0 then Ok (2, args, m)
       else if usecase = 0
       then store_back page_ref user_addr user_data sz args m (\<lambda>m. Ok (0, args, m))
       else if usecase = 1 then Ok (0, args, store_exponent 1 (take 0x100 user_data) m)
       else if usecase = 2 then Ok (0, args, store_exponent 0 (take 0x100 user_data) m)
       else if usecase = 3 then Ok (0, args, store_exponent 2 (take 0x100 user_data) m)
       else if usecase = 4 then Ok (0, args, store_exponent 3 (take 0x100 user_data) m)
       else generic_panic)))))"

end
