(* ===== verification/SMC_Ams.thy ===== *)
theory SMC_Ams
  imports User_Page
begin

text \<open>
  \<^verbatim>\<open>smc_ams.c\<close>: the SMCs of Atmosphere itself. They map a page of the caller's memory, and
  for the copies to and from IRAM a page of IRAM, at two fixed virtual pages of the monitor,
  work on them, and unmap them again. Physical memory and the translation table are those of
  \<^verbatim>\<open>userpage.c\<close>.
\<close>

section \<open>State\<close>

record ams_state =
  g_ams_userpage_mapped :: bool
  g_ams_iram_page_mapped :: bool
  ams_mem :: upage_state

definition AMS_USER_PAGE_SECURE_MONITOR_ADDR :: u64 where
  "AMS_USER_PAGE_SECURE_MONITOR_ADDR = MMIO_GET_DEVICE_ADDRESS MMIO_DEVID_AMS_USER_PAGE"

definition AMS_IRAM_PAGE_SECURE_MONITOR_ADDR :: u64 where
  "AMS_IRAM_PAGE_SECURE_MONITOR_ADDR = MMIO_GET_DEVICE_ADDRESS MMIO_DEVID_AMS_IRAM_PAGE"

definition irampage_attributes :: u64 where
  "irampage_attributes = MMU_PTE_BLOCK_XN OR MMU_PTE_BLOCK_INNER_SHAREBLE OR ATTRIB_MEMTYPE_DEVICE"

definition ams_is_user_addr_valid :: "u64 \<Rightarrow> bool" where
  "ams_is_user_addr_valid user_addr \<longleftrightarrow> get_page_for_address user_addr - 0x80000000 < 0x180000000"

definition ams_is_iram_addr_valid :: "u64 \<Rightarrow> bool" where
  "ams_is_iram_addr_valid iram_address \<longleftrightarrow> 0x40000000 \<le> iram_address \<and> iram_address \<le> 0x4003FFFF"

section \<open>Mapping and unmapping\<close>

text \<open>\<^verbatim>\<open>lock_acquire\<close> of a lock that is held spins; nothing else runs while this code does.\<close>

definition lock_acquire :: "bool \<Rightarrow> bool res" where
  "lock_acquire flag = (if flag then Hang else Ok True)"

definition ams_map_userpage :: "u64 \<Rightarrow> ams_state \<Rightarrow> ams_state res" where
  "ams_map_userpage user_addr s =
     bindR (lock_acquire (g_ams_userpage_mapped s)) (\<lambda>l.
     Ok (s\<lparr>g_ams_userpage_mapped := l,
           ams_mem := (ams_mem s)\<lparr>mmu_l3_tbl := mmu_map_page (mmu_l3_tbl (ams_mem s)) AMS_USER_PAGE_SECURE_MONITOR_ADDR
                        (get_page_for_address user_addr) userpage_attributes\<rparr>\<rparr>))"

definition ams_unmap_userpage :: "ams_state \<Rightarrow> ams_state" where
  "ams_unmap_userpage s =
     s\<lparr>g_ams_userpage_mapped := False,
       ams_mem := (ams_mem s)\<lparr>mmu_l3_tbl := mmu_unmap_page (mmu_l3_tbl (ams_mem s)) AMS_USER_PAGE_SECURE_MONITOR_ADDR\<rparr>\<rparr>"

definition ams_map_irampage :: "u64 \<Rightarrow> ams_state \<Rightarrow> ams_state res" where
  "ams_map_irampage iram_address s =
     bindR (lock_acquire (g_ams_iram_page_mapped s)) (\<lambda>l.
     Ok (s\<lparr>g_ams_iram_page_mapped := l,
           ams_mem := (ams_mem s)\<lparr>mmu_l3_tbl := mmu_map_page (mmu_l3_tbl (ams_mem s)) AMS_IRAM_PAGE_SECURE_MONITOR_ADDR
                        (get_page_for_address iram_address) irampage_attributes\<rparr>\<rparr>))"

definition ams_unmap_irampage :: "ams_state \<Rightarrow> ams_state" where
  "ams_unmap_irampage s =
     s\<lparr>g_ams_iram_page_mapped := False,
       ams_mem := (ams_mem s)\<lparr>mmu_l3_tbl := mmu_unmap_page (mmu_l3_tbl (ams_mem s)) AMS_IRAM_PAGE_SECURE_MONITOR_ADDR\<rparr>\<rparr>"

section \<open>The calls\<close>

text \<open>A store through the mapping, and the copy loop of \<^verbatim>\<open>ams_iram_copy\<close>, a word at a time.\<close>

definition ams_store :: "u64 \<Rightarrow> bytes \<Rightarrow> ams_state \<Rightarrow> ams_state res" where
  "ams_store va bs s = bindR (mem_write va bs (ams_mem s)) (\<lambda>u. Ok (s\<lparr>ams_mem := u\<rparr>))"

definition ams_copy_word :: "u64 \<Rightarrow> u64 \<Rightarrow> nat \<Rightarrow> ams_state \<Rightarrow> ams_state res" where
  "ams_copy_word dst src i s =
     bindR (mem_read (ams_mem s) (src + 4 * of_nat i) 4) (\<lambda>w. ams_store (dst + 4 * of_nat i) w s)"

definition ams_iram_copy :: "u64 list \<Rightarrow> ams_state \<Rightarrow> (u32 \<times> u64 list \<times> ams_state) res" where
  "ams_iram_copy args s =
     (let dram_address = args ! 1; iram_address = args ! 2;
          dram_page_offset = dram_address AND 0xFFF; iram_page_offset = iram_address AND 0xFFF;
          sz = args ! 3; option = ucast (args ! 4) :: u32
      in if \<not> ams_is_user_addr_valid dram_address \<or> \<not> ams_is_iram_addr_valid iram_address then Ok (2, args, s)
      else if sz > 0x1000 \<or> sz + dram_page_offset > 0x1000 \<or> sz + iram_page_offset > 0x1000 then Ok (2, args, s)
      else if sz mod 4 \<noteq> 0 \<or> dram_page_offset mod 4 \<noteq> 0 \<or> iram_page_offset mod 4 \<noteq> 0 then Ok (2, args, s)
      else if option \<noteq> 0 \<and> option \<noteq> 1 then Ok (2, args, s)
      else
        bindR (ams_map_userpage dram_address s) (\<lambda>s.
        bindR (ams_map_irampage iram_address s) (\<lambda>s.
        let dram_ptr = AMS_USER_PAGE_SECURE_MONITOR_ADDR + dram_page_offset;
            iram_ptr = AMS_IRAM_PAGE_SECURE_MONITOR_ADDR + iram_page_offset;
            (dst, src) = (if option = 0 then (dram_ptr, iram_ptr) else (iram_ptr, dram_ptr));
            num_dwords = unat (sz div 4)
        in bindR (foldR (ams_copy_word dst src) [0..<num_dwords] s) (\<lambda>s.
           Ok (0, args, ams_unmap_userpage (ams_unmap_irampage s))))))"

text \<open>
  The translation of an address of the caller is the result of the address translation
  instruction, \<open>par\<close>; \<^verbatim>\<open>get_physical_address_el0\<close> of \<^verbatim>\<open>utils.h\<close> reads it.
\<close>

definition get_physical_address_el0 :: "(u64 \<Rightarrow> u64) \<Rightarrow> u64 \<Rightarrow> u64" where
  "get_physical_address_el0 par el0_vaddr =
     (if par el0_vaddr AND 1 \<noteq> 0 then 0
      else (par el0_vaddr AND (mask 40 AND NOT (mask 12))) OR (el0_vaddr AND mask 12))"

definition ams_write_address :: "(u64 \<Rightarrow> u64) \<Rightarrow> u64 list \<Rightarrow> ams_state \<Rightarrow> (u32 \<times> u64 list \<times> ams_state) res" where
  "ams_write_address par args s =
     (let dram_address = get_physical_address_el0 par (args ! 1);
          dram_page_offset = dram_address AND 0xFFF;
          sz = args ! 3
      in if \<not> ams_is_user_addr_valid dram_address then Ok (2, args, s)
      else if sz \<notin> {1, 2, 4, 8} then Ok (2, args, s)
      else if sz + dram_page_offset > 0x1000 then Ok (2, args, s)
      else if dram_page_offset mod sz \<noteq> 0 then Ok (2, args, s)
      else
        bindR (ams_map_userpage dram_address s) (\<lambda>s.
        bindR (ams_store (AMS_USER_PAGE_SECURE_MONITOR_ADDR + dram_page_offset) (le_bytes (unat sz) (args ! 2)) s) (\<lambda>s.
        Ok (0, args, ams_unmap_userpage s))))"

abbreviation (input) EMUMMC_MMC_NAND :: u32 where "EMUMMC_MMC_NAND \<equiv> 0"
abbreviation (input) EMUMMC_TYPE_NONE :: u32 where "EMUMMC_TYPE_NONE \<equiv> 0"
abbreviation (input) EMUMMC_TYPE_PARTITION :: u32 where "EMUMMC_TYPE_PARTITION \<equiv> 1"
abbreviation (input) EMUMMC_TYPE_FILES :: u32 where "EMUMMC_TYPE_FILES \<equiv> 2"

text \<open>\<^verbatim>\<open>base_cfg\<close> as the two words that \<^verbatim>\<open>memcpy\<close> puts into \<^verbatim>\<open>X[1]\<close> and \<^verbatim>\<open>X[2]\<close>.\<close>

definition emummc_base_words :: "emummc_config \<Rightarrow> u64 \<times> u64" where
  "emummc_base_words c =
     (le_word (le_bytes 4 (emummc_magic c) @ le_bytes 4 (emummc_type c)),
      le_word (le_bytes 4 (emummc_id c) @ le_bytes 4 (emummc_fs_version c)))"

definition ams_get_emummc_config :: "exocfg \<Rightarrow> u64 list \<Rightarrow> ams_state \<Rightarrow> (u32 \<times> u64 list \<times> ams_state) res" where
  "ams_get_emummc_config c args s =
     (let mmc_id = ucast (args ! 1) :: u32;
          dram_address = args ! 2;
          dram_page_offset = dram_address AND 0xFFF
      in bindR (exosphere_get_emummc_config c) (\<lambda>emummc_cfg.
      if mmc_id \<noteq> EMUMMC_MMC_NAND then Ok (1, args, s)
      else if \<not> ams_is_user_addr_valid dram_address \<or> dram_page_offset > 0x1000 - 0x100 then Ok (2, args, s)
      else
        bindR (ams_map_userpage dram_address s) (\<lambda>s.
        let user_addr = AMS_USER_PAGE_SECURE_MONITOR_ADDR + dram_page_offset;
            (b1, b2) = emummc_base_words emummc_cfg
        in bindR (ams_store (user_addr + 0x80) (emu_dir_path emummc_cfg) s) (\<lambda>s.
           if emummc_type emummc_cfg = EMUMMC_TYPE_NONE
           then Ok (0, [0, b1, b2, 0, 0, 0, 0, 0], ams_unmap_userpage s)
           else if emummc_type emummc_cfg = EMUMMC_TYPE_PARTITION
           then Ok (0, [0, b1, b2, read64le (emummc_storage emummc_cfg) 0, 0, 0, 0, 0], ams_unmap_userpage s)
           else if emummc_type emummc_cfg = EMUMMC_TYPE_FILES
           then bindR (ams_store user_addr (emummc_storage emummc_cfg) s) (\<lambda>s.
                Ok (0, [0, b1, b2, 0, 0, 0, 0, 0], ams_unmap_userpage s))
           else Ok (2, args, ams_unmap_userpage s)))))"

section \<open>Access through a mapped page\<close>

lemma page_index:
  assumes "take_bit 12 va = 0" "x < 0x1000"
  shows "mmu_compute_index 3 (va + x) = mmu_compute_index 3 va"
proof -
  have "take_bit 12 x = x" using assms(2) by (simp add: take_bit_less_exp)
  then have "drop_bit 12 x = 0" by (simp only: take_bit_eq_self_iff_drop_bit_eq_0)
  then show ?thesis
    unfolding mmu_compute_index_def aligned_add(3) [OF assms] by (simp add: MMU_Lx_SHIFT_def drop_bit_or)
qed

lemma translate_page:
  assumes va: "take_bit 12 va = 0" and pte: "mmu_l3_tbl u ! mmu_compute_index 3 va = pa OR attrs OR 0x400 OR 3"
    and pa: "pa AND 0x0000FFFFFFFFF000 = pa" and attrs: "attrs AND 0x0000FFFFFFFFF000 = 0" and x: "x < 0x1000"
  shows "translate u (va + x) = Some (pa + x)"
proof -
  have "pa AND 0xFFF = 0"
  proof -
    have "(pa AND 0x0000FFFFFFFFF000) AND 0xFFF = (0 :: u64)" by (simp add: and.assoc)
    then show ?thesis by (simp only: pa)
  qed
  then have a: "take_bit 12 pa = 0" by (simp only: and_FFF)
  have m: "(pa OR attrs OR 0x400 OR 3) AND 0x0000FFFFFFFFF000 = pa"
    by (simp add: bit.conj_disj_distrib2 pa attrs)
  have v: "(pa OR attrs OR 0x400 OR 3) AND 3 = 3" by (rule bit_word_eqI) (auto simp only: bit_and_iff bit_or_iff)
  show ?thesis
    unfolding translate_def Let_def page_index [OF va x] pte and_FFF aligned_add(1) [OF va x]
    using m v aligned_add(3) [OF a x] by simp
qed

text \<open>\<open>copied D S n m\<close>: the memory \<open>m\<close> with the \<open>n\<close> bytes at \<open>S\<close> also at \<open>D\<close>; \<open>written D bs m\<close> with \<open>bs\<close> at \<open>D\<close>.\<close>

definition written :: "u64 \<Rightarrow> bytes \<Rightarrow> (u64 \<Rightarrow> u8) \<Rightarrow> u64 \<Rightarrow> u8" where
  "written d bs m p = (if unat (p - d) < length bs then bs ! unat (p - d) else m p)"

definition copied :: "u64 \<Rightarrow> u64 \<Rightarrow> nat \<Rightarrow> (u64 \<Rightarrow> u8) \<Rightarrow> u64 \<Rightarrow> u8" where
  "copied d s n m p = (if unat (p - d) < n then m (s + (p - d)) else m p)"

lemma offset_of_nat: "unat (p - d) < n \<Longrightarrow> p = d + of_nat (unat (p - d))" for p d :: u64
  by simp

lemma fold_writes: "length bs \<le> 0x1000 \<Longrightarrow>
    fold (\<lambda>i m. m(d + of_nat i := bs ! i)) [0..<length bs] m = written d bs m"
proof
  fix p assume l: "length bs \<le> 0x1000"
  show "fold (\<lambda>i m. m(d + of_nat i := bs ! i)) [0..<length bs] m p = written d bs m p"
  proof (cases "unat (p - d) < length bs")
    case True
    then show ?thesis
      using fold_writes_same [OF True l, of d "\<lambda>i. bs ! i" m] by (simp add: written_def)
  next
    case False
    then have "p \<noteq> d + of_nat i" if "i < length bs" for i using that l by (auto simp: unat_of_nat_small)
    then show ?thesis using False fold_writes_other [of "length bs" p d "\<lambda>i. bs ! i" m] by (simp add: written_def)
  qed
qed

lemma mem_write_ok:
  assumes "\<And>i. i < length bs \<Longrightarrow> translate u (va + of_nat i) = Some (d + of_nat i)" "length bs \<le> 0x1000"
  shows "mem_write va bs u = Ok (u\<lparr>dram := written d bs (dram u)\<rparr>)"
proof -
  have "fold (\<lambda>i m. m(the (translate u (va + of_nat i)) := bs ! i)) [0..<length bs] (dram u) =
      fold (\<lambda>i m. m(d + of_nat i := bs ! i)) [0..<length bs] (dram u)"
    by (rule fold_cong) (simp_all add: assms(1))
  then show ?thesis using assms by (simp add: mem_write_def fold_writes)
qed

lemma mem_read_ok:
  assumes "\<And>i. i < n \<Longrightarrow> translate u (va + of_nat i) = Some (s + of_nat i)"
  shows "mem_read u va n = Ok (map (\<lambda>i. dram u (s + of_nat i)) [0..<n])"
  using assms by (simp add: mem_read_def)

lemma copied_step:
  assumes "k + n \<le> 0x1000" "\<And>i j. i < k + n \<Longrightarrow> j < k + n \<Longrightarrow> d + of_nat i \<noteq> s + (of_nat j :: u64)"
  shows "written (d + of_nat k) (map (\<lambda>i. copied d s k m (s + of_nat k + of_nat i)) [0..<n]) (copied d s k m) = copied d s (k + n) m"
proof
  fix p
  have src: "copied d s k m (s + of_nat (k + i)) = m (s + of_nat (k + i))" if "i < n" for i
  proof -
    have "\<not> unat (s + of_nat (k + i) - d) < k"
      using assms(2) [of "unat (s + of_nat (k + i) - d)" "k + i"] that by force
    then show ?thesis by (simp add: copied_def)
  qed
  show "written (d + of_nat k) (map (\<lambda>i. copied d s k m (s + of_nat k + of_nat i)) [0..<n]) (copied d s k m) p = copied d s (k + n) m p"
  proof (cases "unat (p - (d + of_nat k)) < n")
    case True
    have "p = d + of_nat (k + unat (p - (d + of_nat k)))" by (simp add: algebra_simps)
    then obtain i where i: "unat (p - (d + of_nat k)) = i" "i < n" "p = d + of_nat (k + i)" using True by blast
    have d: "p - d = of_nat (k + i)" using i(3) by (metis add_diff_cancel_left')
    have o: "unat (p - d) = k + i" unfolding d using i(2) assms(1) by (intro unat_of_nat_small) simp
    have "written (d + of_nat k) (map (\<lambda>i. copied d s k m (s + of_nat k + of_nat i)) [0..<n]) (copied d s k m) p =
        copied d s k m (s + of_nat (k + i))"
      unfolding written_def i(1) using i(2) by (simp add: add.assoc)
    also have "\<dots> = m (s + of_nat (k + i))" by (rule src [OF i(2)])
    also have "\<dots> = copied d s (k + n) m p" unfolding copied_def o using i(2) by (simp only: d) simp
    finally show ?thesis .
  next
    case False
    have "unat (p - d) < k \<longleftrightarrow> unat (p - d) < k + n"
    proof (rule iffI)
      assume l: "unat (p - d) < k + n"
      show "unat (p - d) < k"
      proof (rule ccontr)
        assume "\<not> unat (p - d) < k"
        then have k: "k \<le> unat (p - d)" by simp
        have "p - (d + of_nat k) = of_nat (unat (p - d) - k)" using k by (simp add: of_nat_diff algebra_simps)
        then have "unat (p - (d + of_nat k)) = unat (p - d) - k" using l assms(1) by (simp add: unat_of_nat_small)
        then show False using False l k by simp
      qed
    qed simp
    then show ?thesis using False by (simp add: written_def copied_def)
  qed
qed

lemma translate_dram [simp]: "translate (u\<lparr>dram := m\<rparr>) = translate u"
  by (simp add: translate_def fun_eq_iff)

lemma copy_loop:
  assumes "\<And>i. i < 4 * n \<Longrightarrow> translate (ams_mem s) (dst + of_nat i) = Some (d + of_nat i)"
    and "\<And>i. i < 4 * n \<Longrightarrow> translate (ams_mem s) (src + of_nat i) = Some (sp + of_nat i)"
    and "4 * n \<le> 0x1000" "\<And>i j. i < 4 * n \<Longrightarrow> j < 4 * n \<Longrightarrow> d + of_nat i \<noteq> sp + (of_nat j :: u64)"
  shows "foldR (ams_copy_word dst src) [0..<n] s = Ok (s\<lparr>ams_mem := (ams_mem s)\<lparr>dram := copied d sp (4 * n) (dram (ams_mem s))\<rparr>\<rparr>)"
  using assms
proof (induction n)
  case 0
  have "copied d sp 0 (dram (ams_mem s)) = dram (ams_mem s)" by (simp add: copied_def fun_eq_iff)
  then show ?case by simp
next
  case (Suc n)
  let ?m = "copied d sp (4 * n) (dram (ams_mem s))" and ?u = "(ams_mem s)\<lparr>dram := copied d sp (4 * n) (dram (ams_mem s))\<rparr>"
  have IH: "foldR (ams_copy_word dst src) [0..<n] s = Ok (s\<lparr>ams_mem := ?u\<rparr>)" by (rule Suc.IH) (use Suc.prems in auto)
  have k: "4 * of_nat n = (of_nat (4 * n) :: u64)" by simp
  have t: "translate ?u (dst + of_nat (4 * n) + of_nat i) = Some (d + of_nat (4 * n) + of_nat i)"
      "translate ?u (src + of_nat (4 * n) + of_nat i) = Some (sp + of_nat (4 * n) + of_nat i)" if "i < 4" for i
    using Suc.prems(1,2) [of "4 * n + i"] that by (simp_all add: add.assoc)
  have r: "mem_read ?u (src + 4 * of_nat n) 4 = Ok (map (\<lambda>i. ?m (sp + of_nat (4 * n) + of_nat i)) [0..<4])"
    unfolding k by (subst mem_read_ok [OF t(2)]) simp_all
  have w: "mem_write (dst + 4 * of_nat n) (map (\<lambda>i. ?m (sp + of_nat (4 * n) + of_nat i)) [0..<4]) ?u =
      Ok (?u\<lparr>dram := copied d sp (4 * n + 4) (dram (ams_mem s))\<rparr>)"
    unfolding k using copied_step [of "4 * n" 4 d sp "dram (ams_mem s)"] Suc.prems(3,4) t(1)
    by (subst mem_write_ok [where d = "d + of_nat (4 * n)"]) auto
  have "ams_copy_word dst src n (s\<lparr>ams_mem := ?u\<rparr>) = Ok (s\<lparr>ams_mem := ?u\<lparr>dram := copied d sp (4 * n + 4) (dram (ams_mem s))\<rparr>\<rparr>)"
    using r w by (simp add: ams_copy_word_def ams_store_def)
  then show ?case using IH by (simp add: foldR_append add.commute)
qed

section \<open>What the calls do\<close>

lemma ams_pages: "AMS_USER_PAGE_SECURE_MONITOR_ADDR = 0x1F00AB000" "AMS_IRAM_PAGE_SECURE_MONITOR_ADDR = 0x1F00A9000"
    "mmu_compute_index 3 0x1F00AB000 = 0xAB" "mmu_compute_index 3 0x1F00A9000 = 0xA9"
    "take_bit 12 (0x1F00AB000 :: u64) = 0" "take_bit 12 (0x1F00A9000 :: u64) = 0"
  by (simp_all add: AMS_USER_PAGE_SECURE_MONITOR_ADDR_def AMS_IRAM_PAGE_SECURE_MONITOR_ADDR_def MMIO_GET_DEVICE_ADDRESS_def
      MMAPDEV_def mmu_compute_index_def MMU_Lx_SHIFT_def mask_eq_exp_minus_1)

text \<open>Between calls the locks are free; every call unmaps what it maps.\<close>

definition ams_wf :: "ams_state \<Rightarrow> bool" where
  "ams_wf s \<longleftrightarrow> \<not> g_ams_userpage_mapped s \<and> \<not> g_ams_iram_page_mapped s \<and> length (mmu_l3_tbl (ams_mem s)) = 512"

lemma page_mask:
  assumes "unat p < 2 ^ 48" "take_bit 12 p = 0"
  shows "p AND 0x0000FFFFFFFFF000 = (p :: u64)"
proof (rule bit_word_eqI)
  fix n assume "n < LENGTH(64)"
  have m: "(0x0000FFFFFFFFF000 :: u64) = push_bit 12 (mask 36)" by (simp add: mask_eq_exp_minus_1)
  have "p < 2 ^ 48" using assms(1) by (simp add: word_less_nat_alt)
  then have "bit p n \<Longrightarrow> n < 48" using bit_less_exp [of p 48 n] by simp
  moreover have "bit p n \<Longrightarrow> 12 \<le> n"
    using assms(2) by (metis bit_0_eq bit_take_bit_iff bot_apply bot_bool_def not_less)
  ultimately show "bit (p AND 0x0000FFFFFFFFF000) n = bit p n"
    unfolding m by (auto simp: bit_and_iff bit_push_bit_iff bit_mask_iff)
qed

lemma unat_page: "unat (get_page_for_address a) = 4096 * (unat a div 4096)"
proof -
  have "take_bit 12 a \<le> a" by (simp add: word_le_nat_alt unat_take_12)
  then have "unat (get_page_for_address a) = unat a - unat a mod 4096"
    by (simp add: page_eq unat_sub unat_take_12)
  then show ?thesis by (simp add: minus_mod_eq_mult_div)
qed

lemma dram_page_mask:
  assumes "ams_is_user_addr_valid a"
  shows "get_page_for_address a AND 0x0000FFFFFFFFF000 = get_page_for_address a"
    "0x80000000 \<le> unat (get_page_for_address a)" "unat (get_page_for_address a) < 0x200000000"
proof -
  let ?p = "get_page_for_address a"
  have l: "unat (?p - 0x80000000) < 0x180000000" using assms by (simp add: ams_is_user_addr_valid_def word_less_nat_alt)
  show lo: "0x80000000 \<le> unat ?p"
  proof (rule ccontr)
    assume "\<not> 0x80000000 \<le> unat ?p"
    then have "unat (?p - 0x80000000) = unat ?p + 2 ^ 64 - 0x80000000" by (simp add: unat_sub_if_size word_size)
    then show False using l by simp
  qed
  then show hi: "unat ?p < 0x200000000" using l by (simp add: unat_sub_if_size)
  show "?p AND 0x0000FFFFFFFFF000 = ?p" by (rule page_mask) (use hi in simp_all)
qed

lemma iram_page_mask:
  assumes "ams_is_iram_addr_valid a"
  shows "get_page_for_address a AND 0x0000FFFFFFFFF000 = get_page_for_address a" "unat (get_page_for_address a) \<le> 0x4003F000"
proof -
  have "unat a \<le> 0x4003FFFF" using assms by (simp add: ams_is_iram_addr_valid_def word_le_nat_alt)
  then have "unat a div 4096 \<le> 0x4003FFFF div 4096" by (rule div_le_mono)
  then show hi: "unat (get_page_for_address a) \<le> 0x4003F000" by (simp add: unat_page)
  show "get_page_for_address a AND 0x0000FFFFFFFFF000 = get_page_for_address a" by (rule page_mask) (use hi in simp_all)
qed

lemma unat_in_page:
  assumes "unat (a AND 0xFFF) + n \<le> 0x1000" "i < n"
  shows "unat (a + of_nat i) = unat (get_page_for_address a) + unat (a AND 0xFFF) + i"
proof -
  have "unat a < 2 ^ 64" using unsigned_less [of a] by simp
  then have "unat a div 4096 < 4503599627370496" by (simp add: less_mult_imp_div_less)
  moreover have a: "unat a = 4096 * (unat a div 4096) + unat (a AND 0xFFF)" by (simp add: and_FFF unat_take_12)
  ultimately have "unat a + i < 18446744073709551616" using assms by linarith
  then have "unat (a + of_nat i) = unat a + i" using assms by (simp add: unat_word_ariths unat_of_nat_small)
  then show ?thesis using a by (simp add: unat_page)
qed

text \<open>An access at an offset of a mapped page reaches the address with that offset.\<close>

lemma translate_offset:
  assumes "take_bit 12 va = 0" "mmu_l3_tbl u ! mmu_compute_index 3 va = get_page_for_address a OR attrs OR 0x400 OR 3"
    and "get_page_for_address a AND 0x0000FFFFFFFFF000 = get_page_for_address a" "attrs AND 0x0000FFFFFFFFF000 = 0"
    and "unat (a AND 0xFFF) + n \<le> 0x1000" "i < n"
  shows "translate u (va + (a AND 0xFFF) + of_nat i) = Some (a + of_nat i)"
proof -
  let ?x = "(a AND 0xFFF) + of_nat i"
  have ux: "unat ?x = unat (a AND 0xFFF) + i"
    using assms(5,6) by (subst unat_add_lem [THEN iffD1]) (simp_all add: unat_of_nat_small)
  then have x: "?x < 0x1000" using assms(5,6) by (simp add: word_less_nat_alt)
  have "get_page_for_address a + ?x = a + of_nat i"
    using page_decompose(1) [of a] by (simp add: and_FFF add.assoc [symmetric])
  then show "translate u (va + (a AND 0xFFF) + of_nat i) = Some (a + of_nat i)"
    using translate_page [OF assms(1-4) x] by (simp add: add.assoc)
qed

text \<open>The requests that \<^verbatim>\<open>ams_iram_copy\<close> accepts.\<close>

definition iram_copy_valid :: "u64 \<Rightarrow> u64 \<Rightarrow> nat \<Rightarrow> u32 \<Rightarrow> bool" where
  "iram_copy_valid da ia n option \<longleftrightarrow> ams_is_user_addr_valid da \<and> ams_is_iram_addr_valid ia
     \<and> unat (da AND 0xFFF) + n \<le> 0x1000 \<and> unat (ia AND 0xFFF) + n \<le> 0x1000
     \<and> n mod 4 = 0 \<and> unat (da AND 0xFFF) mod 4 = 0 \<and> unat (ia AND 0xFFF) mod 4 = 0 \<and> option \<le> 1"

lemma attributes_mask: "userpage_attributes AND 0x0000FFFFFFFFF000 = 0" "irampage_attributes AND 0x0000FFFFFFFFF000 = 0"
  by (simp_all add: userpage_attributes_def irampage_attributes_def)

lemma dram_iram_disjoint:
  assumes "iram_copy_valid da ia n option" "i < n" "j < n"
  shows "da + of_nat i \<noteq> ia + of_nat j"
proof -
  have v: "ams_is_user_addr_valid da" "ams_is_iram_addr_valid ia" "unat (da AND 0xFFF) + n \<le> 0x1000" "unat (ia AND 0xFFF) + n \<le> 0x1000"
    using assms(1) by (auto simp: iram_copy_valid_def)
  note ua = unat_in_page
  have "unat (da + of_nat i) \<ge> 0x80000000" using ua [OF v(3) assms(2)] dram_page_mask(2) [OF v(1)] by simp
  moreover have "unat (ia + of_nat j) < 0x40040000" using ua [OF v(4) assms(3)] iram_page_mask(2) [OF v(2)] v(4) assms(3) by simp
  ultimately show ?thesis by auto
qed

lemma ams_iram_copy_ok:
  assumes wf: "ams_wf s" and n: "n = unat (args ! 3)" and v: "iram_copy_valid (args ! 1) (args ! 2) n (ucast (args ! 4))"
  shows "ams_iram_copy args s =
     Ok (0, args, s\<lparr>ams_mem := (ams_mem s)\<lparr>mmu_l3_tbl := (mmu_l3_tbl (ams_mem s))[0xA9 := 0, 0xAB := 0],
        dram := (if ucast (args ! 4) = (0 :: u32) then copied (args ! 1) (args ! 2) n (dram (ams_mem s))
                 else copied (args ! 2) (args ! 1) n (dram (ams_mem s)))\<rparr>\<rparr>)"
proof -
  let ?da = "args ! 1" and ?ia = "args ! 2" and ?opt = "ucast (args ! 4) :: u32"
  let ?pd = "get_page_for_address ?da OR userpage_attributes OR 0x400 OR 3"
    and ?pi = "get_page_for_address ?ia OR irampage_attributes OR 0x400 OR 3"
  have c: "ams_is_user_addr_valid ?da" "ams_is_iram_addr_valid ?ia" "unat (?da AND 0xFFF) + n \<le> 0x1000" "unat (?ia AND 0xFFF) + n \<le> 0x1000"
      "n mod 4 = 0" "unat (?da AND 0xFFF) mod 4 = 0" "unat (?ia AND 0xFFF) mod 4 = 0" "?opt = 0 \<or> ?opt = 1"
    using v by (auto simp: iram_copy_valid_def word_le_nat_alt word_unat_eq_iff)
  let ?t = "mmu_l3_tbl (ams_mem s)" and ?m = "dram (ams_mem s)"
  have l: "length ?t = 512" "\<not> g_ams_userpage_mapped s" "\<not> g_ams_iram_page_mapped s" using wf by (auto simp: ams_wf_def)
  have m4: "(w :: u64) mod 4 \<noteq> 0 \<longleftrightarrow> unat w mod 4 \<noteq> 0" for w
    by (simp add: word_unat_eq_iff unat_mod)
  have guards: "\<not> (args ! 3 > 0x1000 \<or> args ! 3 + (?da AND 0xFFF) > 0x1000 \<or> args ! 3 + (?ia AND 0xFFF) > 0x1000)"
      "\<not> (args ! 3 mod 4 \<noteq> 0 \<or> (?da AND 0xFFF) mod 4 \<noteq> 0 \<or> (?ia AND 0xFFF) mod 4 \<noteq> 0)"
    using c n by (simp_all add: word_less_nat_alt unat_word_ariths m4)
  let ?s1 = "s\<lparr>g_ams_userpage_mapped := True, g_ams_iram_page_mapped := True,
      ams_mem := (ams_mem s)\<lparr>mmu_l3_tbl := ?t[0xAB := ?pd, 0xA9 := ?pi]\<rparr>\<rparr>"
  have maps: "bindR (ams_map_userpage ?da s) (ams_map_irampage ?ia) = Ok ?s1"
    using l by (simp add: ams_map_userpage_def ams_map_irampage_def lock_acquire_def ams_pages mmu_map_page_def)
  have td: "translate (ams_mem ?s1) (AMS_USER_PAGE_SECURE_MONITOR_ADDR + (?da AND 0xFFF) + of_nat i) = Some (?da + of_nat i)" if "i < n" for i
    using l that by (intro translate_offset [OF _ _ dram_page_mask(1) [OF c(1)] attributes_mask(1) c(3)]) (simp_all add: ams_pages)
  have ti: "translate (ams_mem ?s1) (AMS_IRAM_PAGE_SECURE_MONITOR_ADDR + (?ia AND 0xFFF) + of_nat i) = Some (?ia + of_nat i)" if "i < n" for i
    using l that by (intro translate_offset [OF _ _ iram_page_mask(1) [OF c(2)] attributes_mask(2) c(4)]) (simp_all add: ams_pages)
  have q: "unat (args ! 3 div 4) = n div 4" using n by (simp add: unat_div)
  have q4: "4 * (n div 4) = n" using c(5) by auto
  note dis = dram_iram_disjoint [OF v]
  have cp0: "foldR (ams_copy_word (AMS_USER_PAGE_SECURE_MONITOR_ADDR + (?da AND 0xFFF)) (AMS_IRAM_PAGE_SECURE_MONITOR_ADDR + (?ia AND 0xFFF)))
      [0..<n div 4] ?s1 = Ok (?s1\<lparr>ams_mem := (ams_mem ?s1)\<lparr>dram := copied ?da ?ia n ?m\<rparr>\<rparr>)"
    using copy_loop [of "n div 4" ?s1, OF td ti] dis c(3) q4 by simp
  have cp1: "foldR (ams_copy_word (AMS_IRAM_PAGE_SECURE_MONITOR_ADDR + (?ia AND 0xFFF)) (AMS_USER_PAGE_SECURE_MONITOR_ADDR + (?da AND 0xFFF)))
      [0..<n div 4] ?s1 = Ok (?s1\<lparr>ams_mem := (ams_mem ?s1)\<lparr>dram := copied ?ia ?da n ?m\<rparr>\<rparr>)"
    using copy_loop [of "n div 4" ?s1, OF ti td] dis [symmetric] c(4) q4 by simp
  have un: "?t[0xAB := ?pd, 0xA9 := ?pi, 0xA9 := 0, 0xAB := 0] = ?t[0xA9 := 0, 0xAB := 0]"
    by (simp add: list_update_swap [of "0xAB" "0xA9"])
  have unmap: "ams_unmap_userpage (ams_unmap_irampage (?s1\<lparr>ams_mem := (ams_mem ?s1)\<lparr>dram := m\<rparr>\<rparr>)) =
      s\<lparr>ams_mem := (ams_mem s)\<lparr>mmu_l3_tbl := ?t[0xA9 := 0, 0xAB := 0], dram := m\<rparr>\<rparr>" for m
    using l un by (simp add: ams_unmap_userpage_def ams_unmap_irampage_def ams_pages mmu_unmap_page_def)
  have start: "bindR (ams_map_userpage ?da s) (\<lambda>s. bindR (ams_map_irampage ?ia s) k) = k ?s1" for k
    using maps by (simp add: bindR_assoc [symmetric])
  have opt: "\<not> (?opt \<noteq> 0 \<and> ?opt \<noteq> 1)" using c(8) by auto
  show ?thesis
    unfolding ams_iram_copy_def Let_def start if_not_P [OF guards(1)] if_not_P [OF guards(2)] if_not_P [OF opt] q
    using c(1,2,8) cp0 cp1 unmap by auto
qed

lemma ams_iram_copy_refuses:
  assumes "\<not> iram_copy_valid (args ! 1) (args ! 2) (unat (args ! 3)) (ucast (args ! 4))"
  shows "ams_iram_copy args s = Ok (2, args, s)"
proof -
  have m4: "(w :: u64) mod 4 \<noteq> 0 \<longleftrightarrow> unat w mod 4 \<noteq> 0" for w by (simp add: word_unat_eq_iff unat_mod)
  have off: "unat (a AND 0xFFF) < 0x1000" for a :: u64 by (simp add: and_FFF unat_take_12)
  have sum: "args ! 3 + (a AND 0xFFF) > 0x1000 \<longleftrightarrow> unat (a AND 0xFFF) + unat (args ! 3) > 0x1000" if "\<not> args ! 3 > 0x1000" for a
  proof -
    have "unat (args ! 3) \<le> 0x1000" using that by (simp add: word_less_nat_alt)
    then have "unat (args ! 3 + (a AND 0xFFF)) = unat (args ! 3) + unat (a AND 0xFFF)"
      using off [of a] by (subst unat_add_lem [THEN iffD1]) simp_all
    then show ?thesis by (simp add: word_less_nat_alt add.commute [of "unat (args ! 3)"])
  qed
  let ?g1 = "\<not> ams_is_user_addr_valid (args ! 1) \<or> \<not> ams_is_iram_addr_valid (args ! 2)"
    and ?g2 = "args ! 3 > 0x1000 \<or> args ! 3 + (args ! 1 AND 0xFFF) > 0x1000 \<or> args ! 3 + (args ! 2 AND 0xFFF) > 0x1000"
    and ?g3 = "args ! 3 mod 4 \<noteq> 0 \<or> (args ! 1 AND 0xFFF) mod 4 \<noteq> 0 \<or> (args ! 2 AND 0xFFF) mod 4 \<noteq> 0"
    and ?g4 = "ucast (args ! 4) \<noteq> (0 :: u32) \<and> ucast (args ! 4) \<noteq> (1 :: u32)"
  have "?g1 \<or> ?g2 \<or> ?g3 \<or> ?g4"
  proof (rule ccontr)
    assume g: "\<not> (?g1 \<or> ?g2 \<or> ?g3 \<or> ?g4)"
    then have "\<not> args ! 3 > 0x1000" by blast
    note s = sum [OF this]
    have "iram_copy_valid (args ! 1) (args ! 2) (unat (args ! 3)) (ucast (args ! 4))"
      using g unfolding iram_copy_valid_def s m4 by (intro conjI) (auto simp del: One_nat_def)
    then show False using assms by blast
  qed
  then show ?thesis unfolding ams_iram_copy_def Let_def by (elim disjE) (simp_all only: if_True if_P simp_thms if_cancel split: if_split)
qed

text \<open>A store into the mapped user page.\<close>

lemma ams_user_store:
  assumes l: "length (mmu_l3_tbl u) = 512" and v: "ams_is_user_addr_valid a" "unat (a AND 0xFFF) + length bs \<le> 0x1000"
    and b: "get_page_for_address b = get_page_for_address a"
  shows "mem_write (AMS_USER_PAGE_SECURE_MONITOR_ADDR + (a AND 0xFFF)) bs
       (u\<lparr>mmu_l3_tbl := mmu_map_page (mmu_l3_tbl u) AMS_USER_PAGE_SECURE_MONITOR_ADDR (get_page_for_address b) userpage_attributes\<rparr>) =
     Ok (u\<lparr>mmu_l3_tbl := mmu_map_page (mmu_l3_tbl u) AMS_USER_PAGE_SECURE_MONITOR_ADDR (get_page_for_address b) userpage_attributes,
           dram := written a bs (dram u)\<rparr>)"
proof -
  let ?u = "u\<lparr>mmu_l3_tbl := mmu_map_page (mmu_l3_tbl u) AMS_USER_PAGE_SECURE_MONITOR_ADDR (get_page_for_address b) userpage_attributes\<rparr>"
  have "translate ?u (AMS_USER_PAGE_SECURE_MONITOR_ADDR + (a AND 0xFFF) + of_nat i) = Some (a + of_nat i)" if "i < length bs" for i
    using l that b
    by (intro translate_offset [OF _ _ dram_page_mask(1) [OF v(1)] attributes_mask(1) v(2)]) (simp_all add: ams_pages mmu_map_page_def)
  then show ?thesis using mem_write_ok [of bs ?u _ a] v(2) by simp
qed

lemma ams_write_address_ok:
  assumes wf: "ams_wf s" and pa: "pa = get_physical_address_el0 par (args ! 1)" and v: "ams_is_user_addr_valid pa"
    and sz: "args ! 3 \<in> {1, 2, 4, 8}" "(pa AND 0xFFF) mod (args ! 3) = 0" "\<not> args ! 3 + (pa AND 0xFFF) > 0x1000"
  shows "ams_write_address par args s =
     Ok (0, args, s\<lparr>ams_mem := (ams_mem s)\<lparr>mmu_l3_tbl := (mmu_l3_tbl (ams_mem s))[0xAB := 0],
        dram := written pa (le_bytes (unat (args ! 3)) (args ! 2)) (dram (ams_mem s))\<rparr>\<rparr>)"
proof -
  have l: "length (mmu_l3_tbl (ams_mem s)) = 512" "\<not> g_ams_userpage_mapped s" using wf by (auto simp: ams_wf_def)
  have "unat (pa AND 0xFFF) < 0x1000" by (simp add: and_FFF unat_take_12)
  then have n: "unat (pa AND 0xFFF) + length (le_bytes (unat (args ! 3)) (args ! 2)) \<le> 0x1000"
    using sz(1,3) by (auto simp: word_less_nat_alt unat_word_ariths)
  note st = ams_user_store [OF l(1) v n refl]
  show ?thesis
    using l st v sz unfolding ams_write_address_def Let_def pa [symmetric]
    by (auto simp: ams_map_userpage_def lock_acquire_def ams_store_def ams_unmap_userpage_def mmu_map_page_def mmu_unmap_page_def ams_pages)
qed

text \<open>Two stores in a row into the page, the second below the first.\<close>

lemma offset_plus:
  assumes "unat (a AND 0xFFF) + k < 0x1000"
  shows "(a + of_nat k) AND 0xFFF = (a AND 0xFFF) + of_nat k" "get_page_for_address (a + of_nat k) = get_page_for_address a"
proof -
  let ?x = "(a AND 0xFFF) + of_nat k"
  have "unat ?x = unat (a AND 0xFFF) + k" using assms by (subst unat_add_lem [THEN iffD1]) (simp_all add: unat_of_nat_small)
  then have x: "?x < 0x1000" using assms by (simp add: word_less_nat_alt)
  have a: "a + of_nat k = get_page_for_address a + ?x" using page_decompose(1) [of a] by (simp add: and_FFF add.assoc [symmetric])
  show "(a + of_nat k) AND 0xFFF = ?x" by (simp only: a and_FFF aligned_add(1) [OF take_bit_page x [unfolded and_FFF]])
  show "get_page_for_address (a + of_nat k) = get_page_for_address a" by (simp only: a aligned_add(2) [OF take_bit_page x])
qed

lemma ams_get_emummc_config_ok:
  assumes wf: "ams_wf s" and c: "g_has_loaded_config c" "em = cfg_emummc (g_exosphere_cfg c)"
    and len: "length (emummc_storage em) = 0x80" "length (emu_dir_path em) = 0x80"
    and v: "ucast (args ! 1) = (0 :: u32)" "ams_is_user_addr_valid (args ! 2)" "unat (args ! 2 AND 0xFFF) \<le> 0xF00"
  shows "\<exists>args'. ams_get_emummc_config c args s =
     Ok (if emummc_type em \<le> 2 then 0 else 2, args',
        s\<lparr>ams_mem := (ams_mem s)\<lparr>mmu_l3_tbl := (mmu_l3_tbl (ams_mem s))[0xAB := 0],
          dram := (if emummc_type em = 2 then written (args ! 2) (emummc_storage em) else id)
                    (written (args ! 2 + 0x80) (emu_dir_path em) (dram (ams_mem s)))\<rparr>\<rparr>)
     \<and> (length args = 8 \<longrightarrow> length args' = 8)
     \<and> (emummc_type em \<le> 2 \<longrightarrow> args' ! 1 = fst (emummc_base_words em) \<and> args' ! 2 = snd (emummc_base_words em))
     \<and> (emummc_type em = 1 \<longrightarrow> args' ! 3 = read64le (emummc_storage em) 0)"
proof -
  let ?a = "args ! 2" and ?u = "ams_mem s"
  have l: "length (mmu_l3_tbl ?u) = 512" "\<not> g_ams_userpage_mapped s" using wf by (auto simp: ams_wf_def)
  have o: "(?a + 0x80) AND 0xFFF = (?a AND 0xFFF) + 0x80" "get_page_for_address (?a + 0x80) = get_page_for_address ?a"
    using offset_plus [of ?a "0x80"] v(3) by simp_all
  have v2: "ams_is_user_addr_valid (?a + 0x80)" using v(2) o(2) by (simp add: ams_is_user_addr_valid_def)
  have n80: "unat ((?a AND 0xFFF) + 0x80) = unat (?a AND 0xFFF) + 0x80"
    using v(3) by (subst unat_add_lem [THEN iffD1]) simp_all
  let ?u1 = "?u\<lparr>mmu_l3_tbl := mmu_map_page (mmu_l3_tbl ?u) AMS_USER_PAGE_SECURE_MONITOR_ADDR (get_page_for_address ?a) userpage_attributes\<rparr>"
  have w1: "mem_write (AMS_USER_PAGE_SECURE_MONITOR_ADDR + (?a AND 0xFFF) + 0x80) (emu_dir_path em) ?u1 =
      Ok (?u1\<lparr>dram := written (?a + 0x80) (emu_dir_path em) (dram ?u)\<rparr>)"
    using ams_user_store [OF l(1) v2 _ o(2) [symmetric], of "emu_dir_path em"] v(3) n80 len(2) by (simp add: o(1) add.assoc)
  have w2: "mem_write (AMS_USER_PAGE_SECURE_MONITOR_ADDR + (?a AND 0xFFF)) (emummc_storage em) (?u1\<lparr>dram := m\<rparr>) =
      Ok (?u1\<lparr>dram := written ?a (emummc_storage em) m\<rparr>)" for m
    using ams_user_store [of "?u\<lparr>dram := m\<rparr>" ?a "emummc_storage em" ?a, OF _ v(2)] l(1) v(3) len(1) by (cases ?u) simp
  have g: "exosphere_get_emummc_config c = Ok em" using c by (simp add: exosphere_get_emummc_config_def)
  have t: "emummc_type em \<le> 2 \<longleftrightarrow> emummc_type em = 0 \<or> emummc_type em = 1 \<or> emummc_type em = 2"
    by (auto simp: word_le_nat_alt word_unat_eq_iff)
  have off: "\<not> ?a AND 0xFFF > 0x1000 - 0x100" using v(3) by (simp add: word_less_nat_alt)
  have map: "ams_map_userpage ?a s = Ok (s\<lparr>g_ams_userpage_mapped := True, ams_mem := ?u1\<rparr>)"
    using l by (simp add: ams_map_userpage_def lock_acquire_def)
  have unmap: "ams_unmap_userpage (s\<lparr>g_ams_userpage_mapped := True, ams_mem := ?u1\<lparr>dram := m\<rparr>\<rparr>) =
      s\<lparr>ams_mem := ?u\<lparr>mmu_l3_tbl := (mmu_l3_tbl ?u)[0xAB := 0], dram := m\<rparr>\<rparr>" for m
    using l by (simp add: ams_unmap_userpage_def mmu_unmap_page_def mmu_map_page_def ams_pages)
  obtain b1 b2 where b: "emummc_base_words em = (b1, b2)" by fastforce
  show ?thesis
    unfolding ams_get_emummc_config_def Let_def g bindR.simps v(1) map b
    using v(2) off w1 w2 unmap t by (auto simp: ams_store_def)
qed

end
