(* ===== verification/SE_Context.thy ===== *)
theory SE_Context
  imports SE_Ops
begin

text \<open>
  The last part of \<^verbatim>\<open>se.c\<close>: saving the state of the security engine before sleep. Every
  block of the context is one context save operation of the engine; the layout of the
  saved context is that of the boot ROM, which restores it. \<open>stack\<close> gives the contents
  of the uninitialised work buffers.
\<close>

abbreviation (input) CTX_SAVE_SRC_STICKY_BITS :: u32 where "CTX_SAVE_SRC_STICKY_BITS \<equiv> 0"
abbreviation (input) CTX_SAVE_SRC_KEYTABLE_AES :: u32 where "CTX_SAVE_SRC_KEYTABLE_AES \<equiv> 0x40000000"
abbreviation (input) CTX_SAVE_SRC_KEYTABLE_RSA :: u32 where "CTX_SAVE_SRC_KEYTABLE_RSA \<equiv> 0x20000000"
abbreviation (input) CTX_SAVE_SRC_MEM :: u32 where "CTX_SAVE_SRC_MEM \<equiv> 0x80000000"
abbreviation (input) CTX_SAVE_SRC_SRK :: u32 where "CTX_SAVE_SRC_SRK \<equiv> 0xC0000000"
abbreviation (input) CTX_SAVE_KEY_LOW_BITS :: u32 where "CTX_SAVE_KEY_LOW_BITS \<equiv> 0"
abbreviation (input) CTX_SAVE_KEY_HIGH_BITS :: u32 where "CTX_SAVE_KEY_HIGH_BITS \<equiv> 1"
abbreviation (input) CTX_SAVE_KEY_ORIGINAL_IV :: u32 where "CTX_SAVE_KEY_ORIGINAL_IV \<equiv> 2"
abbreviation (input) CTX_SAVE_KEY_UPDATED_IV :: u32 where "CTX_SAVE_KEY_UPDATED_IV \<equiv> 3"

definition se_set_in_context_save_mode :: "bool \<Rightarrow> se_state \<Rightarrow> se_state" where
  "se_set_in_context_save_mode is_context_save_mode se =
     se\<lparr>REG_0x0 := (if is_context_save_mode then REG_0x0 se OR 0x10000 else REG_0x0 se AND 0xFFFEFFFF)\<rparr>"

definition se_generate_srk :: "se_engine \<Rightarrow> u32 \<Rightarrow> se_state \<Rightarrow> se_state res" where
  "se_generate_srk eng srkgen_keyslot se =
     (let se = se\<lparr>CONFIG_REG := ALG_RNG OR DST_SRK, CRYPTO_REG := push_bit 24 srkgen_keyslot OR 0x108,
                  RNG_CONFIG_REG := 6, BLOCK_COUNT_REG := 0\<rparr>
      in bindR (trigger_se_blocking_op eng OP_START None 0 None 0 se) (\<lambda>(_, se). Ok se))"

text \<open>\<open>out\<close> is the aligned part of the local output buffer.\<close>

definition se_encrypt_with_srk ::
  "se_engine \<Rightarrow> bytes \<Rightarrow> nat \<Rightarrow> bytes option \<Rightarrow> nat \<Rightarrow> se_state \<Rightarrow> (bytes \<times> se_state) res"
where
  "se_encrypt_with_srk eng out dst_size src src_size se =
     bindR (panic_if (dst_size > 0x10)) (\<lambda>_.
     bindR (trigger_se_blocking_op eng OP_CTX_SAVE (Some out) dst_size src src_size se) (\<lambda>(r, se).
     Ok (take dst_size (blit out 0 r), se)))"

text \<open>One block of the context: set the source, run, store at an offset of the saved context.\<close>

definition save_block ::
  "se_engine \<Rightarrow> bytes \<Rightarrow> bytes option \<Rightarrow> nat \<times> u32 \<Rightarrow> bytes \<times> se_state \<Rightarrow> (bytes \<times> se_state) res"
where
  "save_block eng out src b st =
     (let (ofs, cfg) = b; (dst, se) = st;
          se = se\<lparr>CONTEXT_SAVE_CONFIG_REG := cfg, BLOCK_COUNT_REG := 0\<rparr>
      in bindR (se_encrypt_with_srk eng out 0x10 src (case src of None \<Rightarrow> 0 | Some _ \<Rightarrow> 0x10) se) (\<lambda>(blk, se).
         Ok (blit dst ofs blk, se)))"

text \<open>The blocks that need no input, in the order of the loops: offset and configuration.\<close>

definition sticky_blocks :: "(nat \<times> u32) list" where
  "sticky_blocks = map (\<lambda>i. (0x10 + i * 0x10, CTX_SAVE_SRC_STICKY_BITS OR push_bit 24 (of_nat i))) [0..<2]"

definition aes_key_blocks :: "(nat \<times> u32) list" where
  "aes_key_blocks = concat (map (\<lambda>i.
     [(0x30 + i * 0x20, CTX_SAVE_SRC_KEYTABLE_AES OR push_bit 8 (of_nat i) OR CTX_SAVE_KEY_LOW_BITS),
      (0x40 + i * 0x20, CTX_SAVE_SRC_KEYTABLE_AES OR push_bit 8 (of_nat i) OR CTX_SAVE_KEY_HIGH_BITS)]) [0..<0x10])"

definition aes_iv_blocks :: "nat \<Rightarrow> u32 \<Rightarrow> (nat \<times> u32) list" where
  "aes_iv_blocks base which = map (\<lambda>i. (base + i * 0x10, CTX_SAVE_SRC_KEYTABLE_AES OR push_bit 8 (of_nat i) OR which)) [0..<0x10]"

definition rsa_key_blocks :: "(nat \<times> u32) list" where
  "rsa_key_blocks = concat (map (\<lambda>rsa_key. concat (map (\<lambda>mod_exp. map (\<lambda>sub_block.
     (0x430 + 0x10 * (0x20 * rsa_key + 0x10 * mod_exp + sub_block),
      CTX_SAVE_SRC_KEYTABLE_RSA OR push_bit 16 (of_nat (2 * rsa_key + (1 - mod_exp))) OR push_bit 12 (of_nat sub_block)))
     [0..<0x10]) [0..<2])) [0..<2])"

definition context_blocks :: "(nat \<times> u32) list" where
  "context_blocks = sticky_blocks @ aes_key_blocks @ aes_iv_blocks 0x230 CTX_SAVE_KEY_ORIGINAL_IV
     @ aes_iv_blocks 0x330 CTX_SAVE_KEY_UPDATED_IV @ rsa_key_blocks"

definition context_save_known_pattern :: bytes where
  "context_save_known_pattern = map of_nat [0..<0x10]"

definition se_save_context ::
  "se_engine \<Rightarrow> (nat \<Rightarrow> bytes) \<Rightarrow> u32 \<Rightarrow> u32 \<Rightarrow> bytes \<Rightarrow> se_state \<Rightarrow> (bytes \<times> se_state) res"
where
  "se_save_context eng stack srkgen_keyslot rng_keyslot dst se =
     bindR (se_generate_random_key eng srkgen_keyslot rng_keyslot se) (\<lambda>se.
     bindR (se_generate_srk eng srkgen_keyslot se) (\<lambda>se.
     bindR (se_generate_random eng rng_keyslot (stack 0x10) 0x10 se) (\<lambda>(work_buf, se).
     let se = se\<lparr>CONFIG_REG := ALG_AES_ENC OR DST_MEMORY\<rparr> in
     bindR (save_block eng (stack 0x10) (Some work_buf) (0, CTX_SAVE_SRC_MEM) (dst, se)) (\<lambda>st.
     bindR (foldR (save_block eng (stack 0x10) None) context_blocks st) (\<lambda>st.
     bindR (save_block eng (stack 0x10) (Some context_save_known_pattern) (0x830, CTX_SAVE_SRC_MEM) st) (\<lambda>(dst, se).
     let se = se\<lparr>CONTEXT_SAVE_CONFIG_REG := CTX_SAVE_SRC_SRK, BLOCK_COUNT_REG := 0\<rparr> in
     bindR (se_encrypt_with_srk eng (stack 0x10) 0 None 0 se) (\<lambda>(_, se).
     let se = se\<lparr>CONFIG_REG := 0\<rparr> in
     bindR (se_encrypt_with_srk eng (stack 0x10) 0 None 0 se) (\<lambda>(_, se).
     Ok (dst, se)))))))))"

section \<open>Properties\<close>

text \<open>
  The blocks tile the context: together with the first block and the known pattern they
  cover the 0x840 bytes from the start, one after the other.
\<close>

lemma context_blocks_tile:
  "map fst ((0, CTX_SAVE_SRC_MEM) # context_blocks @ [(0x830, CTX_SAVE_SRC_MEM)]) = map (\<lambda>k. 0x10 * k) [0..<0x84]"
  by code_simp

end
