(* ===== verification/MMIO.thy ===== *)
theory MMIO
  imports Memory_Map
begin

text \<open>
  Device registers, and the small drivers on them: \<^verbatim>\<open>timers.c\<close>, \<^verbatim>\<open>car.c\<close> (clocks and resets) and
  \<^verbatim>\<open>flow.h\<close>.

  A peripheral is outside the program, so what a read of a register returns is a parameter:
  a \<open>device\<close> maps the history of all accesses so far and an address to the value read. The
  history, newest access first, is the state of the drivers; a driver's effect is the
  accesses it appends, in their order.
\<close>

section \<open>Accesses\<close>

datatype io_event = Rd u64 u32 | Wr u64 u32

type_synonym io = "io_event list"
type_synonym device = "io \<Rightarrow> u64 \<Rightarrow> u32"

definition io_read :: "device \<Rightarrow> u64 \<Rightarrow> io \<Rightarrow> u32 \<times> io" where
  "io_read dev a tr = (dev tr a, Rd a (dev tr a) # tr)"

definition io_write :: "u64 \<Rightarrow> u32 \<Rightarrow> io \<Rightarrow> io" where
  "io_write a v tr = Wr a v # tr"

text \<open>\<^verbatim>\<open>reg = f(reg)\<close>: a read and a write.\<close>

definition io_modify :: "device \<Rightarrow> u64 \<Rightarrow> (u32 \<Rightarrow> u32) \<Rightarrow> io \<Rightarrow> io" where
  "io_modify dev a f tr = (case io_read dev a tr of (v, tr) \<Rightarrow> io_write a (f v) tr)"

fun writes_of :: "io \<Rightarrow> (u64 \<times> u32) list" where
  "writes_of [] = []"
| "writes_of (Rd a v # tr) = writes_of tr"
| "writes_of (Wr a v # tr) = (a, v) # writes_of tr"

section \<open>Polling\<close>

text \<open>\<^verbatim>\<open>while (busy(reg)) { }\<close>: it ends with the first value that is not busy, or never.\<close>

partial_function (option) poll_opt :: "device \<Rightarrow> u64 \<Rightarrow> (u32 \<Rightarrow> bool) \<Rightarrow> io \<Rightarrow> io option" where
  "poll_opt dev a busy tr =
     (case io_read dev a tr of (v, tr') \<Rightarrow> if busy v then poll_opt dev a busy tr' else Some tr')"

definition poll :: "device \<Rightarrow> u64 \<Rightarrow> (u32 \<Rightarrow> bool) \<Rightarrow> io \<Rightarrow> io res" where
  "poll dev a busy tr = (case poll_opt dev a busy tr of None \<Rightarrow> Hang | Some tr' \<Rightarrow> Ok tr')"

primrec reads :: "device \<Rightarrow> u64 \<Rightarrow> nat \<Rightarrow> io \<Rightarrow> io" where
  "reads dev a 0 tr = tr"
| "reads dev a (Suc n) tr = reads dev a n (Rd a (dev tr a) # tr)"

lemma reads_Suc: "reads dev a (Suc n) tr = Rd a (dev (reads dev a n tr) a) # reads dev a n tr"
  by (induction n arbitrary: tr) auto

lemma writes_of_reads [simp]: "writes_of (reads dev a n tr) = writes_of tr"
  by (induction n arbitrary: tr) auto

lemma poll_ends:
  assumes "\<not> busy (dev (reads dev a n tr) a)"
  shows "\<exists>k. poll dev a busy tr = Ok (reads dev a (Suc k) tr) \<and> \<not> busy (dev (reads dev a k tr) a)
     \<and> (\<forall>j < k. busy (dev (reads dev a j tr) a))"
  using assms
proof (induction n arbitrary: tr)
  case 0
  then have "poll dev a busy tr = Ok (reads dev a (Suc 0) tr)"
    by (simp add: poll_def poll_opt.simps [of dev a busy tr] io_read_def)
  then show ?case using 0 by (intro exI [of _ 0]) simp
next
  case (Suc n)
  let ?tr = "Rd a (dev tr a) # tr"
  show ?case
  proof (cases "busy (dev tr a)")
    case True
    then have p: "poll dev a busy tr = poll dev a busy ?tr"
      by (simp add: poll_def poll_opt.simps [of dev a busy tr] io_read_def)
    obtain k where "poll dev a busy ?tr = Ok (reads dev a (Suc k) ?tr)" "\<not> busy (dev (reads dev a k ?tr) a)"
        "\<forall>j < k. busy (dev (reads dev a j ?tr) a)"
      using Suc.IH [of ?tr] Suc.prems by auto
    then show ?thesis using True p by (intro exI [of _ "Suc k"]) (auto simp: less_Suc_eq_0_disj)
  next
    case False
    then have "poll dev a busy tr = Ok (reads dev a (Suc 0) tr)"
      by (simp add: poll_def poll_opt.simps [of dev a busy tr] io_read_def)
    then show ?thesis using False by (intro exI [of _ 0]) simp
  qed
qed

lemma poll_hangs:
  assumes "\<And>n. busy (dev (reads dev a n tr) a)"
  shows "poll dev a busy tr = Hang"
proof -
  have "poll_opt dev a busy tr = None"
  proof (rule ccontr)
    assume "poll_opt dev a busy tr \<noteq> None"
    then obtain r where r: "poll_opt dev a busy tr = Some r" by auto
    have "(\<forall>n. busy (dev (reads dev a n tr) a)) \<longrightarrow> False"
    proof (rule poll_opt.raw_induct [where P = "\<lambda>dev a busy tr r. (\<forall>n. busy (dev (reads dev a n tr) a)) \<longrightarrow> False", OF _ r],
        goal_cases)
      case (1 poll_opt dev a busy tr r)
      show ?case
      proof
        assume b: "\<forall>n. busy (dev (reads dev a n tr) a)"
        then have "busy (dev tr a)" using spec [OF b, of 0] by simp
        then have "poll_opt dev a busy (Rd a (dev tr a) # tr) = Some r" using 1(2) by (simp add: io_read_def)
        then have "\<not> (\<forall>n. busy (dev (reads dev a n (Rd a (dev tr a) # tr)) a))" using 1(1) by blast
        moreover have "busy (dev (reads dev a n (Rd a (dev tr a) # tr)) a)" for n using spec [OF b, of "Suc n"] by simp
        ultimately show False by blast
      qed
    qed
    then show False using assms by blast
  qed
  then show ?thesis by (simp add: poll_def)
qed

section \<open>Timers\<close>

abbreviation (input) MMIO_DEVID_GICD :: nat where "MMIO_DEVID_GICD \<equiv> 0"
abbreviation (input) MMIO_DEVID_GICC :: nat where "MMIO_DEVID_GICC \<equiv> 1"
abbreviation (input) MMIO_DEVID_UART :: nat where "MMIO_DEVID_UART \<equiv> 2"
abbreviation (input) MMIO_DEVID_CLKRST :: nat where "MMIO_DEVID_CLKRST \<equiv> 3"
abbreviation (input) MMIO_DEVID_RTC_PMC :: nat where "MMIO_DEVID_RTC_PMC \<equiv> 4"
abbreviation (input) MMIO_DEVID_TMRs_WDTs :: nat where "MMIO_DEVID_TMRs_WDTs \<equiv> 5"
abbreviation (input) MMIO_DEVID_MC :: nat where "MMIO_DEVID_MC \<equiv> 9"
abbreviation (input) MMIO_DEVID_MISC :: nat where "MMIO_DEVID_MISC \<equiv> 11"
abbreviation (input) MMIO_DEVID_FLOWCTRL :: nat where "MMIO_DEVID_FLOWCTRL \<equiv> 12"
abbreviation (input) MMIO_DEVID_I2C56_SPI2B :: nat where "MMIO_DEVID_I2C56_SPI2B \<equiv> 14"
abbreviation (input) MMIO_DEVID_GPIO :: nat where "MMIO_DEVID_GPIO \<equiv> 15"
abbreviation (input) MMIO_DEVID_DTV_I2C234 :: nat where "MMIO_DEVID_DTV_I2C234 \<equiv> 16"
abbreviation (input) MMIO_DEVID_EXCEPTION_VECTORS :: nat where "MMIO_DEVID_EXCEPTION_VECTORS \<equiv> 17"

definition TIMERUS_CNTR_1US_0 :: u64 where
  "TIMERUS_CNTR_1US_0 = MMIO_GET_DEVICE_ADDRESS MMIO_DEVID_TMRs_WDTs + 0x10"

definition get_time :: "device \<Rightarrow> io \<Rightarrow> u32 \<times> io" where
  "get_time dev tr = io_read dev TIMERUS_CNTR_1US_0 tr"

definition wait :: "device \<Rightarrow> u32 \<Rightarrow> io \<Rightarrow> io res" where
  "wait dev microseconds tr =
     (case io_read dev TIMERUS_CNTR_1US_0 tr of (old_time, tr) \<Rightarrow>
        poll dev TIMERUS_CNTR_1US_0 (\<lambda>t. t - old_time \<le> microseconds) tr)"

text \<open>The accesses of \<^verbatim>\<open>watchdog_reboot\<close>, which then waits for the reset.\<close>

definition watchdog_reboot :: "u32 \<Rightarrow> io \<Rightarrow> io" where
  "watchdog_reboot current_core tr =
     (let base = MMIO_GET_DEVICE_ADDRESS MMIO_DEVID_TMRs_WDTs;
          wdt = base + 0x100 + 0x20 * ucast current_core;
          tr = io_write (wdt + 0xC) 0xC45A tr;
          tr = io_write (wdt + 0x8) 2 tr;
          tr = io_write (base + 0x60 + 0x8 * ucast current_core) 0xC0000000 tr;
          tr = io_write wdt (0x8015 + current_core) tr
      in io_write (wdt + 0x8) 1 tr)"

section \<open>Clocks and resets\<close>

datatype CarDevice = CARDEVICE_UARTA | CARDEVICE_UARTB | CARDEVICE_I2C1 | CARDEVICE_I2C5 | CARDEVICE_ACTMON | CARDEVICE_BPMP

fun CarDevice_value :: "CarDevice \<Rightarrow> nat" where
  "CarDevice_value CARDEVICE_UARTA = 6"
| "CarDevice_value CARDEVICE_UARTB = 7"
| "CarDevice_value CARDEVICE_I2C1 = 12"
| "CarDevice_value CARDEVICE_I2C5 = 47"
| "CarDevice_value CARDEVICE_ACTMON = 119"
| "CarDevice_value CARDEVICE_BPMP = 1"

definition MAKE_CAR_REG :: "u64 \<Rightarrow> u64" where
  "MAKE_CAR_REG n = MMIO_GET_DEVICE_ADDRESS MMIO_DEVID_CLKRST + n"

fun get_special_clk_reg :: "CarDevice \<Rightarrow> u64" where
  "get_special_clk_reg CARDEVICE_UARTA = 0x178"
| "get_special_clk_reg CARDEVICE_UARTB = 0x17C"
| "get_special_clk_reg CARDEVICE_I2C1 = 0x124"
| "get_special_clk_reg CARDEVICE_I2C5 = 0x128"
| "get_special_clk_reg CARDEVICE_ACTMON = 0x3E8"
| "get_special_clk_reg CARDEVICE_BPMP = 0"

fun get_special_clk_val :: "CarDevice \<Rightarrow> u32" where
  "get_special_clk_val CARDEVICE_UARTA = 0"
| "get_special_clk_val CARDEVICE_UARTB = 0"
| "get_special_clk_val CARDEVICE_I2C1 = push_bit 29 6"
| "get_special_clk_val CARDEVICE_I2C5 = push_bit 29 6"
| "get_special_clk_val CARDEVICE_ACTMON = push_bit 29 6"
| "get_special_clk_val CARDEVICE_BPMP = 0"

definition g_clk_reg_offsets :: "u64 list" where
  "g_clk_reg_offsets = [0x010, 0x014, 0x018, 0x360, 0x364, 0x280, 0x298]"

definition g_rst_reg_offsets :: "u64 list" where
  "g_rst_reg_offsets = [0x004, 0x008, 0x00C, 0x358, 0x35C, 0x28C, 0x2A4]"

definition clk_enable :: "device \<Rightarrow> CarDevice \<Rightarrow> io \<Rightarrow> io" where
  "clk_enable dev d tr =
     (let special_reg = get_special_clk_reg d;
          tr = (if special_reg \<noteq> 0 then io_write (MAKE_CAR_REG special_reg) (get_special_clk_val d) tr else tr)
      in io_modify dev (MAKE_CAR_REG (g_clk_reg_offsets ! (CarDevice_value d div 32)))
           (\<lambda>v. v OR push_bit (CarDevice_value d mod 32) 1) tr)"

definition clk_disable :: "device \<Rightarrow> CarDevice \<Rightarrow> io \<Rightarrow> io" where
  "clk_disable dev d tr =
     io_modify dev (MAKE_CAR_REG (g_clk_reg_offsets ! (CarDevice_value d div 32)))
       (\<lambda>v. v AND NOT (push_bit (CarDevice_value d mod 32) 1)) tr"

definition rst_enable :: "device \<Rightarrow> CarDevice \<Rightarrow> io \<Rightarrow> io" where
  "rst_enable dev d tr =
     io_modify dev (MAKE_CAR_REG (g_rst_reg_offsets ! (CarDevice_value d div 32)))
       (\<lambda>v. v OR push_bit (CarDevice_value d mod 32) 1) tr"

definition rst_disable :: "device \<Rightarrow> CarDevice \<Rightarrow> io \<Rightarrow> io" where
  "rst_disable dev d tr =
     io_modify dev (MAKE_CAR_REG (g_rst_reg_offsets ! (CarDevice_value d div 32)))
       (\<lambda>v. v AND NOT (push_bit (CarDevice_value d mod 32) 1)) tr"

definition clkrst_enable :: "device \<Rightarrow> CarDevice \<Rightarrow> io \<Rightarrow> io" where
  "clkrst_enable dev d tr = rst_disable dev d (clk_enable dev d tr)"

definition clkrst_disable :: "device \<Rightarrow> CarDevice \<Rightarrow> io \<Rightarrow> io" where
  "clkrst_disable dev d tr = clk_disable dev d (rst_enable dev d tr)"

definition clkrst_reboot :: "device \<Rightarrow> CarDevice \<Rightarrow> io \<Rightarrow> io" where
  "clkrst_reboot dev d tr = clkrst_enable dev d (clkrst_disable dev d tr)"

section \<open>Flow controller\<close>

definition MAKE_FLOW_REG :: "u64 \<Rightarrow> u64" where
  "MAKE_FLOW_REG ofs = MMIO_GET_DEVICE_ADDRESS MMIO_DEVID_FLOWCTRL + ofs"

text \<open>For each core the offsets of \<^verbatim>\<open>CPUN_CSR\<close>, \<^verbatim>\<open>HALT_CPUN_EVENTS\<close> and \<^verbatim>\<open>CC4_COREN_CTRL\<close>.\<close>

definition g_flow_core_offsets :: "(u64 \<times> u64 \<times> u64) list" where
  "g_flow_core_offsets = [(0x008, 0x000, 0x06C), (0x018, 0x014, 0x070), (0x020, 0x01C, 0x074), (0x028, 0x024, 0x078)]"

definition flow_set_cc4_ctrl :: "nat \<Rightarrow> u32 \<Rightarrow> io \<Rightarrow> io" where
  "flow_set_cc4_ctrl core cc4_ctrl tr = io_write (MAKE_FLOW_REG (snd (snd (g_flow_core_offsets ! core)))) cc4_ctrl tr"

definition flow_set_halt_events :: "nat \<Rightarrow> bool \<Rightarrow> io \<Rightarrow> io" where
  "flow_set_halt_events core halt_events tr =
     io_write (MAKE_FLOW_REG (fst (snd (g_flow_core_offsets ! core)))) (if halt_events then 0x40000F00 else 0x40000000) tr"

definition flow_set_csr :: "nat \<Rightarrow> u32 \<Rightarrow> io \<Rightarrow> io" where
  "flow_set_csr core csr tr =
     io_write (MAKE_FLOW_REG (fst (g_flow_core_offsets ! core))) (push_bit core 0x100 OR push_bit 12 csr OR 0xC001) tr"

definition flow_clear_csr0_and_events :: "nat \<Rightarrow> io \<Rightarrow> io" where
  "flow_clear_csr0_and_events core tr =
     io_write (MAKE_FLOW_REG (fst (snd (g_flow_core_offsets ! core)))) 0
       (io_write (MAKE_FLOW_REG (fst (g_flow_core_offsets ! core))) 0 tr)"

section \<open>What is relied on of a device\<close>

text \<open>
  A register that reads back what was last written to it, and the free-running microsecond
  counter: however often it is read, it passes every distance.
\<close>

definition reads_back :: "device \<Rightarrow> u64 \<Rightarrow> bool" where
  "reads_back dev a \<longleftrightarrow> (\<forall>tr v. dev (Wr a v # tr) a = v)"

definition counter_advances :: "device \<Rightarrow> bool" where
  "counter_advances dev \<longleftrightarrow> (\<forall>tr t0 us. us \<noteq> - 1 \<longrightarrow>
     (\<exists>n. \<not> dev (reads dev TIMERUS_CNTR_1US_0 n tr) TIMERUS_CNTR_1US_0 - t0 \<le> us))"

lemma wait_returns:
  assumes "counter_advances dev" "us \<noteq> - 1"
  shows "\<exists>k. wait dev us tr = Ok (reads dev TIMERUS_CNTR_1US_0 (Suc k) tr)"
proof -
  let ?t = "dev tr TIMERUS_CNTR_1US_0" and ?tr = "Rd TIMERUS_CNTR_1US_0 (dev tr TIMERUS_CNTR_1US_0) # tr"
  obtain n where "\<not> dev (reads dev TIMERUS_CNTR_1US_0 n ?tr) TIMERUS_CNTR_1US_0 - ?t \<le> us"
    using assms unfolding counter_advances_def by blast
  from poll_ends [where busy = "\<lambda>t. t - ?t \<le> us" and dev = dev and a = TIMERUS_CNTR_1US_0 and tr = ?tr and n = n, OF this]
  obtain k where "poll dev TIMERUS_CNTR_1US_0 (\<lambda>t. t - ?t \<le> us) ?tr = Ok (reads dev TIMERUS_CNTR_1US_0 (Suc k) ?tr)" by blast
  then show ?thesis by (intro exI [of _ "Suc k"]) (simp add: wait_def io_read_def)
qed

text \<open>The largest delay never ends: no difference of counter values exceeds it.\<close>

lemma wait_max_hangs: "wait dev (- 1) tr = Hang"
proof -
  have "(w :: u32) \<le> - 1" for w by simp
  then show ?thesis by (simp add: wait_def io_read_def poll_hangs)
qed

end
