(* ===== verification/Bakery.thy ===== *)
theory Bakery
  imports Exo_Prelude
begin

text \<open>
  \<^verbatim>\<open>synchronization.h\<close>: the critical section that the cores use before the MMU is on, written
  after Lamport's bakery algorithm. Each core runs its own program counter over the shared
  tickets; a step is one access to the shared array, and a core that must wait has no step.
\<close>

section \<open>State and steps\<close>

record customer =
  ticket_number :: "7 word"
  is_entering :: bool

text \<open>
  Where a core stands in \<^verbatim>\<open>critical_section_enter\<close>, with its loop index and
  \<^verbatim>\<open>my_ticket_number\<close>.
\<close>

datatype cs_pc = Outside | ReadTicket nat u8 | EndEntering u8 | WaitEntering nat u8 | WaitTicket nat u8 | Inside

record critical_section =
  customers :: "customer list"
  pcs :: "cs_pc list"

definition critical_section_init :: critical_section where
  "critical_section_init = \<lparr>customers = replicate 4 \<lparr>ticket_number = 0, is_entering = False\<rparr>, pcs = replicate 4 Outside\<rparr>"

definition set_customer :: "nat \<Rightarrow> (customer \<Rightarrow> customer) \<Rightarrow> cs_pc \<Rightarrow> critical_section \<Rightarrow> critical_section" where
  "set_customer core f p s = s\<lparr>customers := (customers s)[core := f (customers s ! core)], pcs := (pcs s)[core := p]\<rparr>"

text \<open>
  The loop that takes the maximum of the tickets reads \<^verbatim>\<open>customers[id]\<close> in every round, as the
  source does.
\<close>

fun critical_section_enter :: "nat \<Rightarrow> critical_section \<Rightarrow> cs_pc \<Rightarrow> critical_section option" where
  "critical_section_enter core s Outside = Some (set_customer core (\<lambda>c. c\<lparr>is_entering := True\<rparr>) (ReadTicket 0 0) s)"
| "critical_section_enter core s (ReadTicket i my_ticket_number) =
     (if i < 4
      then let tmp = ucast (ticket_number (customers s ! core));
               my_ticket_number = (if tmp > my_ticket_number then tmp else my_ticket_number)
           in Some (set_customer core (\<lambda>c. c) (ReadTicket (i + 1) my_ticket_number) s)
      else Some (set_customer core (\<lambda>c. c\<lparr>ticket_number := ucast (my_ticket_number + 1)\<rparr>) (EndEntering (my_ticket_number + 1)) s))"
| "critical_section_enter core s (EndEntering my_ticket_number) =
     Some (set_customer core (\<lambda>c. c\<lparr>is_entering := False\<rparr>) (WaitEntering 0 my_ticket_number) s)"
| "critical_section_enter core s (WaitEntering i my_ticket_number) =
     (if i \<ge> 4 then Some (set_customer core (\<lambda>c. c) Inside s)
      else if is_entering (customers s ! i) then None
      else Some (set_customer core (\<lambda>c. c) (WaitTicket i my_ticket_number) s))"
| "critical_section_enter core s (WaitTicket i my_ticket_number) =
     (let tmp = ucast (ticket_number (customers s ! i))
      in if tmp \<noteq> 0 \<and> (tmp < my_ticket_number \<or> (tmp = my_ticket_number \<and> i < core)) then None
         else Some (set_customer core (\<lambda>c. c) (WaitEntering (i + 1) my_ticket_number) s))"
| "critical_section_enter core s Inside = None"

definition critical_section_leave :: "nat \<Rightarrow> critical_section \<Rightarrow> critical_section" where
  "critical_section_leave core s = set_customer core (\<lambda>c. c\<lparr>ticket_number := 0\<rparr>) Outside s"

inductive cs_step :: "nat \<Rightarrow> critical_section \<Rightarrow> critical_section \<Rightarrow> bool" where
  enter: "core < 4 \<Longrightarrow> critical_section_enter core s (pcs s ! core) = Some s' \<Longrightarrow> cs_step core s s'"
| leave: "core < 4 \<Longrightarrow> pcs s ! core = Inside \<Longrightarrow> cs_step core s (critical_section_leave core s)"

inductive cs_reachable :: "critical_section \<Rightarrow> bool" where
  init: "cs_reachable critical_section_init"
| step: "cs_reachable s \<Longrightarrow> cs_step core s s' \<Longrightarrow> cs_reachable s'"

inductive_simps cs_step_iff: "cs_step core s s'"

text \<open>A schedule: the cores that take the next steps of their entry, in order.\<close>

fun cs_schedule :: "nat list \<Rightarrow> critical_section \<Rightarrow> critical_section option" where
  "cs_schedule [] s = Some s"
| "cs_schedule (core # cores) s =
     (case critical_section_enter core s (pcs s ! core) of None \<Rightarrow> None | Some s' \<Rightarrow> cs_schedule cores s')"

lemma cs_schedule_reachable:
  assumes "cs_reachable s" "\<forall>core \<in> set cores. core < 4" "cs_schedule cores s = Some s'"
  shows "cs_reachable s'"
  using assms by (induction cores arbitrary: s) (auto split: option.splits intro: cs_reachable.step cs_step.enter)

section \<open>The invariant\<close>

text \<open>
  What a core's ticket and flag are at each point of its code: the ticket is 1 from its
  publication until the core leaves, whatever the others do.
\<close>

fun customer_ok :: "cs_pc \<Rightarrow> customer \<Rightarrow> bool" where
  "customer_ok Outside c \<longleftrightarrow> ticket_number c = 0 \<and> \<not> is_entering c"
| "customer_ok (ReadTicket i m) c \<longleftrightarrow> ticket_number c = 0 \<and> is_entering c \<and> m = 0"
| "customer_ok (EndEntering m) c \<longleftrightarrow> ticket_number c = 1 \<and> is_entering c \<and> m = 1"
| "customer_ok (WaitEntering i m) c \<longleftrightarrow> ticket_number c = 1 \<and> \<not> is_entering c \<and> m = 1"
| "customer_ok (WaitTicket i m) c \<longleftrightarrow> ticket_number c = 1 \<and> \<not> is_entering c \<and> m = 1 \<and> i < 4"
| "customer_ok Inside c \<longleftrightarrow> ticket_number c = 1 \<and> \<not> is_entering c"

definition cs_inv :: "critical_section \<Rightarrow> bool" where
  "cs_inv s \<longleftrightarrow> length (customers s) = 4 \<and> length (pcs s) = 4 \<and> (\<forall>core < 4. customer_ok (pcs s ! core) (customers s ! core))"

lemma cs_inv_set:
  assumes "cs_inv s" "core < 4" "customer_ok p (f (customers s ! core))"
  shows "cs_inv (set_customer core f p s)"
  using assms by (auto simp: cs_inv_def set_customer_def nth_list_update)

lemma cs_inv_step:
  assumes "cs_step core s s'" "cs_inv s"
  shows "cs_inv s'"
  using assms(1)
proof (cases rule: cs_step.cases)
  case enter
  have ok: "customer_ok (pcs s ! core) (customers s ! core)" using enter(1) assms(2) by (simp add: cs_inv_def)
  show ?thesis
  proof (cases "pcs s ! core")
    case (ReadTicket i m)
    then show ?thesis using enter ok by (auto simp: Let_def split: if_splits intro!: cs_inv_set [OF assms(2)])
  qed (use enter ok in \<open>auto simp: Let_def split: if_splits intro!: cs_inv_set [OF assms(2)]\<close>)
next
  case leave
  then have "customer_ok Inside (customers s ! core)" using assms(2) by (metis cs_inv_def)
  then show ?thesis using leave assms(2) by (simp add: critical_section_leave_def cs_inv_set)
qed

lemma cs_inv_reachable: "cs_reachable s \<Longrightarrow> cs_inv s"
proof (induction rule: cs_reachable.induct)
  case init
  then show ?case by (auto simp: cs_inv_def critical_section_init_def less_Suc_eq numeral_eq_Suc)
next
  case (step s core s')
  then show ?case using cs_inv_step by blast
qed

lemma ticket_zero_iff:
  assumes "cs_inv s" "i < 4"
  shows "ticket_number (customers s ! i) = 0 \<longleftrightarrow> pcs s ! i = Outside \<or> (\<exists>k m. pcs s ! i = ReadTicket k m)"
  using assms by (cases "pcs s ! i") (auto simp: cs_inv_def)

section \<open>Progress\<close>

text \<open>The lowest-numbered core on its way in always has a step, unless it waits for one that is inside or has a step itself.\<close>

lemma cs_progress:
  assumes inv: "cs_inv s" and w: "core < 4" "pcs s ! core \<noteq> Outside" and none: "\<And>k. k < 4 \<Longrightarrow> pcs s ! k \<noteq> Inside"
  shows "\<exists>k s'. k < 4 \<and> pcs s ! k \<noteq> Outside \<and> cs_step k s s'"
  using w
proof (induction core rule: less_induct)
  case (less core)
  have step: "\<exists>k s'. k < 4 \<and> pcs s ! k \<noteq> Outside \<and> cs_step k s s'"
    if "k < 4" "pcs s ! k \<noteq> Outside" "critical_section_enter k s (pcs s ! k) \<noteq> None" for k
    using that cs_step.enter by blast
  have ok: "k < 4 \<Longrightarrow> customer_ok (pcs s ! k) (customers s ! k)" for k using inv by (simp add: cs_inv_def)
  show ?case
  proof (cases "critical_section_enter core s (pcs s ! core)")
    case (Some s')
    then show ?thesis using step [of core] less.prems by simp
  next
    case None
    show ?thesis
    proof (cases "pcs s ! core")
      case (WaitEntering i m)
      then have i: "i < 4" "is_entering (customers s ! i)" using None by (auto split: if_splits)
      then show ?thesis using ok [OF i(1)] step [of i] by (cases "pcs s ! i") (auto simp: Let_def split: if_splits)
    next
      case (WaitTicket i m)
      then have m: "m = 1" "i < 4" using ok [OF less.prems(1)] by simp_all
      have t: "ticket_number (customers s ! i) = 0 \<or> ticket_number (customers s ! i) = 1" using ok [OF m(2)] by (cases "pcs s ! i") auto
      then have "i < core" "ticket_number (customers s ! i) = 1"
        using None WaitTicket m(1) by (auto simp: Let_def split: if_splits)
      then have "pcs s ! i \<noteq> Outside" using ok [OF m(2)] by (cases "pcs s ! i") auto
      then show ?thesis using less.IH [OF \<open>i < core\<close> m(2)] by simp
    qed (use None less.prems none in \<open>auto simp: Let_def split: if_splits\<close>)
  qed
qed

section \<open>Two cores inside\<close>

text \<open>Core 3 enters alone, then core 0: its equal ticket and lower number let it pass core 3.\<close>

definition overtaking_schedule :: "nat list" where
  "overtaking_schedule = replicate 16 3 @ replicate 16 0"

lemma overtaking: "\<exists>s. cs_schedule overtaking_schedule critical_section_init = Some s \<and> pcs s = [Inside, Outside, Outside, Inside]"
  by (simp add: overtaking_schedule_def critical_section_init_def set_customer_def numeral_eq_Suc)

end
