(* ===== verification/CPU_Context.thy ===== *)
theory CPU_Context
  imports MMIO Bakery
begin

text \<open>
  \<^verbatim>\<open>cpu_context.c\<close>: the context of each of the four cores, handing an entry point to a
  core that is switched on, and saving and restoring the system registers around a
  power-down. What \<^verbatim>\<open>mrs\<close> reads is a parameter; what \<^verbatim>\<open>msr\<close> writes is logged per core,
  newest first.
\<close>

section \<open>State\<close>

datatype sysreg32 = OSDTRRX_EL1 | OSDTRTX_EL1 | MDSCR_EL1 | OSECCR_EL1 | MDCCINT_EL1 | DBGCLAIMCLR_EL1
  | DBGVCR32_EL2 | SDER32_EL3 | MDCR_EL2 | MDCR_EL3 | SPSR_EL3

datatype sysreg64 = DBGBVR nat | DBGBCR nat | DBGWVR nat | DBGWCR nat

datatype sysreg = Reg32 sysreg32 | Reg64 sysreg64 | OSLAR_EL1
  | ACTLR_EL3 | ACTLR_EL2 | HCR_EL2 | DACR32_EL2 | SCTLR_EL1 | SCTLR_EL2 | CNTFRQ_EL0 | CNTHCTL_EL2 | SCR_EL3
  | CPUECTLR_EL1 | TTBR0_EL3 | TCR_EL3 | CPTR_EL3 | MAIR_EL3 | VBAR_EL3 | SCTLR_EL3

type_synonym core_regs = "sysreg \<Rightarrow> u64"

record saved_cpu_context =
  ctx_argument :: u64
  ELR_EL3 :: u64
  ctx_is_active :: bool
  ctx_is_saved :: bool
  ctx_reg32 :: "sysreg32 \<Rightarrow> u32"
  ctx_reg64 :: "sysreg64 \<Rightarrow> u64"

record cpu_state =
  g_cpu_contexts :: "saved_cpu_context list"
  msr_log :: "(nat \<times> sysreg \<times> u64) list"

abbreviation (input) NUM_CPU_CORES :: nat where "NUM_CPU_CORES \<equiv> 4"

definition cpu_contexts_init :: "saved_cpu_context list" where
  "cpu_contexts_init = replicate NUM_CPU_CORES
     \<lparr>ctx_argument = 0, ELR_EL3 = 0, ctx_is_active = False, ctx_is_saved = False, ctx_reg32 = (\<lambda>_. 0), ctx_reg64 = (\<lambda>_. 0)\<rparr>"

definition upd_context :: "nat \<Rightarrow> (saved_cpu_context \<Rightarrow> saved_cpu_context) \<Rightarrow> cpu_state \<Rightarrow> cpu_state" where
  "upd_context core f s = s\<lparr>g_cpu_contexts := (g_cpu_contexts s)[core := f (g_cpu_contexts s ! core)]\<rparr>"

definition msr :: "nat \<Rightarrow> sysreg \<Rightarrow> u64 \<Rightarrow> cpu_state \<Rightarrow> cpu_state" where
  "msr core r v s = s\<lparr>msr_log := (core, r, v) # msr_log s\<rparr>"

section \<open>Entry points\<close>

definition use_core_entrypoint_and_argument :: "nat \<Rightarrow> cpu_state \<Rightarrow> (u64 \<times> u64 \<times> cpu_state) res" where
  "use_core_entrypoint_and_argument core s =
     (let ctx = g_cpu_contexts s ! core
      in if ELR_EL3 ctx = 0 \<or> ctx_is_active ctx then Panic 0xF7F00007
         else Ok (ELR_EL3 ctx, ctx_argument ctx,
                  upd_context core (\<lambda>c. c\<lparr>ELR_EL3 := 0, ctx_argument := 0, ctx_is_active := True\<rparr>) s))"

definition set_core_entrypoint_and_argument :: "nat \<Rightarrow> u64 \<Rightarrow> u64 \<Rightarrow> cpu_state \<Rightarrow> cpu_state" where
  "set_core_entrypoint_and_argument core entrypoint_addr argument s =
     upd_context core (\<lambda>c. c\<lparr>ELR_EL3 := entrypoint_addr, ctx_argument := argument\<rparr>) s"

text \<open>
  The end of a boot of a core: the entry point is used up, the critical section left, and
  \<^verbatim>\<open>__jump_to_lower_el\<close> gets the argument, the entry point and a program status that keeps the exception
  level and masks the interrupts.
\<close>

definition core_jump_to_lower_el ::
  "nat \<Rightarrow> u32 \<Rightarrow> critical_section \<Rightarrow> cpu_state \<Rightarrow> (u64 \<times> u64 \<times> u32 \<times> critical_section \<times> cpu_state) res"
where
  "core_jump_to_lower_el core_id spsr critsec s =
     bindR (use_core_entrypoint_and_argument core_id s) (\<lambda>(ep, arg, s).
     Ok (arg, ep, push_bit 6 0xF OR (spsr AND 0xD), critical_section_leave core_id critsec, s))"

definition is_core_active :: "nat \<Rightarrow> cpu_state \<Rightarrow> bool" where
  "is_core_active core s \<longleftrightarrow> ctx_is_active (g_cpu_contexts s ! core)"

definition set_core_is_active :: "nat \<Rightarrow> bool \<Rightarrow> cpu_state \<Rightarrow> cpu_state" where
  "set_core_is_active core is_active s = upd_context core (\<lambda>c. c\<lparr>ctx_is_active := is_active\<rparr>) s"

definition set_current_core_active :: "nat \<Rightarrow> cpu_state \<Rightarrow> cpu_state" where
  "set_current_core_active core_id s = set_core_is_active core_id True s"

definition set_current_core_inactive :: "nat \<Rightarrow> cpu_state \<Rightarrow> cpu_state" where
  "set_current_core_inactive core_id s = set_core_is_active core_id False s"

section \<open>Switching a core on\<close>

definition PMC_BASE :: u64 where
  "PMC_BASE = MMIO_GET_DEVICE_ADDRESS MMIO_DEVID_RTC_PMC + 0x400"

definition APBDEV_PMC_PWRGATE_TOGGLE_0 :: u64 where "APBDEV_PMC_PWRGATE_TOGGLE_0 = PMC_BASE + 0x30"
definition APBDEV_PMC_PWRGATE_STATUS_0 :: u64 where "APBDEV_PMC_PWRGATE_STATUS_0 = PMC_BASE + 0x38"
definition CLK_RST_CONTROLLER_RST_CPUG_CMPLX_SET_0 :: u64 where "CLK_RST_CONTROLLER_RST_CPUG_CMPLX_SET_0 = MAKE_CAR_REG 0x450"
definition CLK_RST_CONTROLLER_RST_CPUG_CMPLX_CLR_0 :: u64 where "CLK_RST_CONTROLLER_RST_CPUG_CMPLX_CLR_0 = MAKE_CAR_REG 0x454"

definition status_masks :: "u32 list" where "status_masks = [0x4000, 0x200, 0x400, 0x800]"
definition toggle_vals :: "u32 list" where "toggle_vals = [0xE, 0x9, 0xA, 0xB]"

text \<open>
  The first polling loop; its result says whether the start bit went to 0, otherwise the
  counter ran out and the code jumps to the end. The second loop gives up silently.
\<close>

fun poll_start_bit :: "device \<Rightarrow> nat \<Rightarrow> io \<Rightarrow> (bool \<times> io) res" where
  "poll_start_bit dev counter tr =
     (case io_read dev APBDEV_PMC_PWRGATE_TOGGLE_0 tr of (v, tr) \<Rightarrow>
      if v AND 0x100 \<noteq> 0
      then bindR (wait dev 1 tr) (\<lambda>tr.
           if counter - 1 < 1 then Ok (False, tr) else poll_start_bit dev (counter - 1) tr)
      else Ok (True, tr))"

declare poll_start_bit.simps [simp del]

fun poll_power_status :: "device \<Rightarrow> u32 \<Rightarrow> nat \<Rightarrow> io \<Rightarrow> io res" where
  "poll_power_status dev m 0 tr = Ok tr"
| "poll_power_status dev m (Suc counter) tr =
     (case io_read dev APBDEV_PMC_PWRGATE_STATUS_0 tr of (v, tr) \<Rightarrow>
      if v AND m = m then Ok tr else bindR (wait dev 1 tr) (poll_power_status dev m counter))"

definition core_reset_bits :: "nat \<Rightarrow> u32" where
  "core_reset_bits core = push_bit (core + 0x10) 1 OR push_bit core 1"

definition power_on_core :: "device \<Rightarrow> nat \<Rightarrow> io \<Rightarrow> io res" where
  "power_on_core dev core tr =
     (case io_read dev APBDEV_PMC_PWRGATE_STATUS_0 tr of (v, tr) \<Rightarrow>
      if v AND (status_masks ! core) \<noteq> status_masks ! core
      then bindR (poll_start_bit dev 5001 tr) (\<lambda>(ready, tr).
           if ready
           then let tr = io_write APBDEV_PMC_PWRGATE_TOGGLE_0 (toggle_vals ! core OR 0x100) tr
                in poll_power_status dev (status_masks ! core) 5001 tr
           else Ok tr)
      else Ok tr)"

definition cpu_on :: "exocfg \<Rightarrow> device \<Rightarrow> u32 \<Rightarrow> u64 \<Rightarrow> u64 \<Rightarrow> cpu_state \<Rightarrow> io \<Rightarrow> (u32 \<times> cpu_state \<times> io) res" where
  "cpu_on c dev core entrypoint_addr argument s tr =
     (if unat core \<ge> NUM_CPU_CORES then Ok (0xFFFFFFFE, s, tr)
      else if ctx_is_active (g_cpu_contexts s ! unat core) then Ok (0xFFFFFFFC, s, tr)
      else
        let s = set_core_entrypoint_and_argument (unat core) entrypoint_addr argument s in
        bindR (exosphere_get_target_firmware c) (\<lambda>fw.
        let tr = (if fw \<ge> FW_400 then io_write CLK_RST_CONTROLLER_RST_CPUG_CMPLX_SET_0 (core_reset_bits (unat core)) tr else tr)
        in bindR (power_on_core dev (unat core) tr) (\<lambda>tr.
           let tr = (if fw \<ge> FW_400 then io_write CLK_RST_CONTROLLER_RST_CPUG_CMPLX_CLR_0 (core_reset_bits (unat core)) tr else tr)
           in Ok (0, s, tr))))"

section \<open>Saving, restoring, switching off\<close>

text \<open>The registers in the order in which the code visits them: the lists of the \<^verbatim>\<open>SAVE_\<close> and \<^verbatim>\<open>RESTORE_\<close> macros.\<close>

definition context_regs32 :: "sysreg32 list" where
  "context_regs32 = [OSDTRRX_EL1, OSDTRTX_EL1, MDSCR_EL1, OSECCR_EL1, MDCCINT_EL1, DBGCLAIMCLR_EL1,
     DBGVCR32_EL2, SDER32_EL3, MDCR_EL2, MDCR_EL3, SPSR_EL3]"

definition context_regs64 :: "sysreg64 list" where
  "context_regs64 = concat (map (\<lambda>i. [DBGBVR i, DBGBCR i]) [0..<6]) @ concat (map (\<lambda>i. [DBGWVR i, DBGWCR i]) [0..<4])"

definition SAVE_SYSREG32 :: "core_regs \<Rightarrow> nat \<Rightarrow> sysreg32 \<Rightarrow> cpu_state \<Rightarrow> cpu_state" where
  "SAVE_SYSREG32 regs core r s = upd_context core (\<lambda>c. c\<lparr>ctx_reg32 := (ctx_reg32 c)(r := ucast (regs (Reg32 r)))\<rparr>) s"

definition SAVE_SYSREG64 :: "core_regs \<Rightarrow> nat \<Rightarrow> sysreg64 \<Rightarrow> cpu_state \<Rightarrow> cpu_state" where
  "SAVE_SYSREG64 regs core r s = upd_context core (\<lambda>c. c\<lparr>ctx_reg64 := (ctx_reg64 c)(r := regs (Reg64 r))\<rparr>) s"

definition save_current_core_context :: "core_regs \<Rightarrow> nat \<Rightarrow> cpu_state \<Rightarrow> cpu_state" where
  "save_current_core_context regs current_core s =
     (let s = msr current_core OSLAR_EL1 1 s;
          s = fold (SAVE_SYSREG32 regs current_core) context_regs32 s;
          s = fold (SAVE_SYSREG64 regs current_core) context_regs64 s
      in upd_context current_core (\<lambda>c. c\<lparr>ctx_is_saved := True\<rparr>) s)"

definition RESTORE_SYSREG32 :: "nat \<Rightarrow> sysreg32 \<Rightarrow> cpu_state \<Rightarrow> cpu_state" where
  "RESTORE_SYSREG32 core r s = msr core (Reg32 r) (ucast (ctx_reg32 (g_cpu_contexts s ! core) r)) s"

definition RESTORE_SYSREG64 :: "nat \<Rightarrow> sysreg64 \<Rightarrow> cpu_state \<Rightarrow> cpu_state" where
  "RESTORE_SYSREG64 core r s = msr core (Reg64 r) (ctx_reg64 (g_cpu_contexts s ! core) r) s"

definition restore_current_core_context :: "nat \<Rightarrow> cpu_state \<Rightarrow> cpu_state" where
  "restore_current_core_context current_core s =
     (if ctx_is_saved (g_cpu_contexts s ! current_core)
      then let s = fold (RESTORE_SYSREG32 current_core) context_regs32 s;
               s = fold (RESTORE_SYSREG64 current_core) context_regs64 s
           in upd_context current_core (\<lambda>c. c\<lparr>ctx_is_saved := False\<rparr>) s
      else s)"

text \<open>Up to \<^verbatim>\<open>finalize_powerdown\<close>, the assembly that stops the core.\<close>

definition power_down_current_core :: "core_regs \<Rightarrow> nat \<Rightarrow> cpu_state \<Rightarrow> io \<Rightarrow> cpu_state \<times> io" where
  "power_down_current_core regs current_core s tr =
     (let tr = flow_set_csr current_core 0 tr;
          tr = flow_set_halt_events current_core False tr;
          tr = flow_set_cc4_ctrl current_core 0 tr;
          s = save_current_core_context regs current_core s
      in (upd_context current_core (\<lambda>c. c\<lparr>ctx_is_active := False\<rparr>) s, tr))"

section \<open>Updates of a context\<close>

definition cpu_wf :: "cpu_state \<Rightarrow> bool" where
  "cpu_wf s \<longleftrightarrow> length (g_cpu_contexts s) = NUM_CPU_CORES"

lemma contexts_upd [simp]:
  "core < length (g_cpu_contexts s) \<Longrightarrow> g_cpu_contexts (upd_context core f s) ! core = f (g_cpu_contexts s ! core)"
  "k \<noteq> core \<Longrightarrow> g_cpu_contexts (upd_context core f s) ! k = g_cpu_contexts s ! k"
  "length (g_cpu_contexts (upd_context core f s)) = length (g_cpu_contexts s)"
  "msr_log (upd_context core f s) = msr_log s"
  by (simp_all add: upd_context_def)

lemma msr_simps [simp]: "g_cpu_contexts (msr core r v s) = g_cpu_contexts s" "msr_log (msr core r v s) = (core, r, v) # msr_log s"
  by (simp_all add: msr_def)

lemma upd_context_comp: "core < length (g_cpu_contexts s) \<Longrightarrow> upd_context core f (upd_context core g s) = upd_context core (\<lambda>c. f (g c)) s"
  by (simp add: upd_context_def)

lemma fold_upd_context:
  "core < length (g_cpu_contexts s) \<Longrightarrow> fold (\<lambda>r. upd_context core (g r)) rs s = upd_context core (fold g rs) s"
proof (induction rs arbitrary: s)
  case Nil
  then show ?case by (simp add: upd_context_def)
next
  case (Cons r rs)
  then show ?case by (simp add: upd_context_comp comp_def)
qed

lemma fold_fun_upd: "fold (\<lambda>r g. g(r := f r)) rs g = (\<lambda>r. if r \<in> set rs then f r else g r)"
  by (induction rs arbitrary: g) auto

lemma fold_reg:
  "fold (\<lambda>r c. c\<lparr>ctx_reg32 := (ctx_reg32 c)(r := f r)\<rparr>) rs c = c\<lparr>ctx_reg32 := fold (\<lambda>r g. g(r := f r)) rs (ctx_reg32 c)\<rparr>"
  "fold (\<lambda>r c. c\<lparr>ctx_reg64 := (ctx_reg64 c)(r := h r)\<rparr>) qs c = c\<lparr>ctx_reg64 := fold (\<lambda>r g. g(r := h r)) qs (ctx_reg64 c)\<rparr>"
  by (induction rs arbitrary: c, auto) (induction qs arbitrary: c, auto)

lemma fold_save:
  assumes "core < length (g_cpu_contexts s)"
  shows "fold (SAVE_SYSREG32 regs core) rs s =
     upd_context core (\<lambda>c. c\<lparr>ctx_reg32 := \<lambda>r. if r \<in> set rs then ucast (regs (Reg32 r)) else ctx_reg32 c r\<rparr>) s"
    "fold (SAVE_SYSREG64 regs core) qs s =
     upd_context core (\<lambda>c. c\<lparr>ctx_reg64 := \<lambda>r. if r \<in> set qs then regs (Reg64 r) else ctx_reg64 c r\<rparr>) s"
proof -
  have "SAVE_SYSREG32 regs core = (\<lambda>r. upd_context core (\<lambda>c. c\<lparr>ctx_reg32 := (ctx_reg32 c)(r := ucast (regs (Reg32 r)))\<rparr>))"
    "SAVE_SYSREG64 regs core = (\<lambda>r. upd_context core (\<lambda>c. c\<lparr>ctx_reg64 := (ctx_reg64 c)(r := regs (Reg64 r))\<rparr>))"
    by (simp_all add: SAVE_SYSREG32_def SAVE_SYSREG64_def fun_eq_iff)
  then show "fold (SAVE_SYSREG32 regs core) rs s =
     upd_context core (\<lambda>c. c\<lparr>ctx_reg32 := \<lambda>r. if r \<in> set rs then ucast (regs (Reg32 r)) else ctx_reg32 c r\<rparr>) s"
    "fold (SAVE_SYSREG64 regs core) qs s =
     upd_context core (\<lambda>c. c\<lparr>ctx_reg64 := \<lambda>r. if r \<in> set qs then regs (Reg64 r) else ctx_reg64 c r\<rparr>) s"
    using fold_upd_context [OF assms, of "\<lambda>r c. c\<lparr>ctx_reg32 := (ctx_reg32 c)(r := ucast (regs (Reg32 r)))\<rparr>" rs]
      fold_upd_context [OF assms, of "\<lambda>r c. c\<lparr>ctx_reg64 := (ctx_reg64 c)(r := regs (Reg64 r))\<rparr>" qs]
    by (simp_all add: fold_reg fold_fun_upd upd_context_def)
qed

lemma fold_restore:
  "fold (RESTORE_SYSREG32 core) rs s =
     s\<lparr>msr_log := rev (map (\<lambda>r. (core, Reg32 r, ucast (ctx_reg32 (g_cpu_contexts s ! core) r))) rs) @ msr_log s\<rparr>"
  "fold (RESTORE_SYSREG64 core) qs s =
     s\<lparr>msr_log := rev (map (\<lambda>r. (core, Reg64 r, ctx_reg64 (g_cpu_contexts s ! core) r)) qs) @ msr_log s\<rparr>"
  by (induction rs arbitrary: s, auto simp: RESTORE_SYSREG32_def msr_def)
     (induction qs arbitrary: s, auto simp: RESTORE_SYSREG64_def msr_def)

section \<open>Properties\<close>

text \<open>What \<^verbatim>\<open>restore_current_core_context\<close> writes after a save: every register, in the order of the code.\<close>

definition restored_regs :: "core_regs \<Rightarrow> nat \<Rightarrow> (nat \<times> sysreg \<times> u64) list" where
  "restored_regs regs core =
     map (\<lambda>r. (core, Reg32 r, ucast (ucast (regs (Reg32 r)) :: u32))) context_regs32 @
     map (\<lambda>r. (core, Reg64 r, regs (Reg64 r))) context_regs64"

lemma save_current_core_context_eq:
  assumes "cpu_wf s" "core < NUM_CPU_CORES"
  shows "save_current_core_context regs core s = msr core OSLAR_EL1 1 (upd_context core (\<lambda>c. c\<lparr>
     ctx_reg32 := \<lambda>r. if r \<in> set context_regs32 then ucast (regs (Reg32 r)) else ctx_reg32 c r,
     ctx_reg64 := \<lambda>r. if r \<in> set context_regs64 then regs (Reg64 r) else ctx_reg64 c r, ctx_is_saved := True\<rparr>) s)"
  using assms by (simp add: save_current_core_context_def cpu_wf_def fold_save upd_context_comp)
    (cases s, simp add: msr_def upd_context_def cong: if_cong)

lemma save_then_restore:
  assumes "cpu_wf s" "core < NUM_CPU_CORES" "cpu_wf t"
    and "g_cpu_contexts t ! core = f (g_cpu_contexts (save_current_core_context regs core s) ! core)"
    and "\<And>c. ctx_is_saved (f c) = ctx_is_saved c" "\<And>c. ctx_reg32 (f c) = ctx_reg32 c" "\<And>c. ctx_reg64 (f c) = ctx_reg64 c"
  shows "msr_log (restore_current_core_context core t) = rev (restored_regs regs core) @ msr_log t"
    and "\<not> ctx_is_saved (g_cpu_contexts (restore_current_core_context core t) ! core)"
proof -
  have a: "ctx_is_saved (g_cpu_contexts t ! core)"
      "r \<in> set context_regs32 \<Longrightarrow> ctx_reg32 (g_cpu_contexts t ! core) r = ucast (regs (Reg32 r))"
      "q \<in> set context_regs64 \<Longrightarrow> ctx_reg64 (g_cpu_contexts t ! core) q = regs (Reg64 q)" for r q
    using assms(1,2) by (simp_all add: assms(4-7) save_current_core_context_eq cpu_wf_def)
  have m: "map (\<lambda>r. (core, Reg32 r, ucast (ctx_reg32 (g_cpu_contexts t ! core) r) :: u64)) context_regs32 =
        map (\<lambda>r. (core, Reg32 r, ucast (ucast (regs (Reg32 r)) :: u32))) context_regs32"
      "map (\<lambda>r. (core, Reg64 r, ctx_reg64 (g_cpu_contexts t ! core) r)) context_regs64 =
        map (\<lambda>r. (core, Reg64 r, regs (Reg64 r))) context_regs64"
    using a(2,3) by simp_all
  show "msr_log (restore_current_core_context core t) = rev (restored_regs regs core) @ msr_log t"
    unfolding restore_current_core_context_def restored_regs_def rev_append m [symmetric] using a(1) by (simp add: fold_restore)
  show "\<not> ctx_is_saved (g_cpu_contexts (restore_current_core_context core t) ! core)"
    using assms(2,3) a(1) by (simp add: restore_current_core_context_def fold_restore cpu_wf_def)
qed

lemma wait1_returns:
  assumes "counter_advances dev"
  obtains tr' where "wait dev 1 tr = Ok tr'" "writes_of tr' = writes_of tr"
proof -
  have "(1 :: u32) \<noteq> - 1" by simp
  from wait_returns [OF assms this, of tr] show thesis using that by (metis writes_of_reads)
qed

lemma poll_start_bit_returns:
  "counter_advances dev \<Longrightarrow> \<exists>b tr'. poll_start_bit dev n tr = Ok (b, tr') \<and> writes_of tr' = writes_of tr"
proof (induction dev n tr rule: poll_start_bit.induct)
  case (1 dev counter tr)
  let ?tr = "Rd APBDEV_PMC_PWRGATE_TOGGLE_0 (dev tr APBDEV_PMC_PWRGATE_TOGGLE_0) # tr"
  obtain tr' where w: "wait dev 1 ?tr = Ok tr'" "writes_of tr' = writes_of ?tr" using wait1_returns [OF 1(2)] .
  show ?case
  proof (cases "dev tr APBDEV_PMC_PWRGATE_TOGGLE_0 AND 0x100 \<noteq> 0 \<and> \<not> counter - 1 < 1")
    case True
    then have "\<exists>b t. poll_start_bit dev (counter - 1) tr' = Ok (b, t) \<and> writes_of t = writes_of tr'"
      using 1(1) [of "dev tr APBDEV_PMC_PWRGATE_TOGGLE_0" ?tr tr'] 1(2) w by (simp add: io_read_def)
    then show ?thesis using True w by (auto simp: poll_start_bit.simps [of dev counter tr] io_read_def)
  next
    case False
    then show ?thesis using w by (auto simp: poll_start_bit.simps [of dev counter tr] io_read_def)
  qed
qed

lemma poll_power_status_returns:
  "counter_advances dev \<Longrightarrow> \<exists>tr'. poll_power_status dev m n tr = Ok tr' \<and> writes_of tr' = writes_of tr"
proof (induction n arbitrary: tr)
  case 0
  then show ?case by simp
next
  case (Suc n)
  let ?tr = "Rd APBDEV_PMC_PWRGATE_STATUS_0 (dev tr APBDEV_PMC_PWRGATE_STATUS_0) # tr"
  obtain tr' where w: "wait dev 1 ?tr = Ok tr'" "writes_of tr' = writes_of ?tr" using wait1_returns [OF Suc.prems] .
  then show ?case using Suc.IH [OF Suc.prems, of tr'] by (auto simp: io_read_def)
qed

lemma power_on_core_returns:
  assumes "counter_advances dev"
  shows "\<exists>tr' t. power_on_core dev core tr = Ok tr' \<and> writes_of tr' = t @ writes_of tr
     \<and> (t = [] \<or> t = [(APBDEV_PMC_PWRGATE_TOGGLE_0, toggle_vals ! core OR 0x100)])"
proof -
  let ?tr = "Rd APBDEV_PMC_PWRGATE_STATUS_0 (dev tr APBDEV_PMC_PWRGATE_STATUS_0) # tr"
  obtain b t1 where p: "poll_start_bit dev 5001 ?tr = Ok (b, t1)" "writes_of t1 = writes_of tr"
    using poll_start_bit_returns [OF assms, of 5001 ?tr] by auto
  obtain t2 where q: "poll_power_status dev (status_masks ! core) 5001 (Wr APBDEV_PMC_PWRGATE_TOGGLE_0 (toggle_vals ! core OR 0x100) # t1) = Ok t2"
      "writes_of t2 = (APBDEV_PMC_PWRGATE_TOGGLE_0, toggle_vals ! core OR 0x100) # writes_of t1"
    using poll_power_status_returns [OF assms, of "status_masks ! core" 5001 "Wr APBDEV_PMC_PWRGATE_TOGGLE_0 (toggle_vals ! core OR 0x100) # t1"] by auto
  show ?thesis
    unfolding power_on_core_def io_read_def prod.case p(1) bindR.simps io_write_def Let_def q(1) using p(2) q(2) by auto
qed

lemma cpu_on_ok:
  assumes "counter_advances dev" "g_has_loaded_config c" "unat core < NUM_CPU_CORES" "\<not> is_core_active (unat core) s"
  shows "\<exists>tr' t. cpu_on c dev core ep arg s tr = Ok (0, set_core_entrypoint_and_argument (unat core) ep arg s, tr')
     \<and> (t = [] \<or> t = [(APBDEV_PMC_PWRGATE_TOGGLE_0, toggle_vals ! unat core OR 0x100)])
     \<and> writes_of tr' = (if 4 \<le> fw_of c
         then (CLK_RST_CONTROLLER_RST_CPUG_CMPLX_CLR_0, core_reset_bits (unat core)) # t @
              (CLK_RST_CONTROLLER_RST_CPUG_CMPLX_SET_0, core_reset_bits (unat core)) # writes_of tr
         else t @ writes_of tr)"
proof -
  define tr1 where "tr1 = (if 4 \<le> fw_of c then io_write CLK_RST_CONTROLLER_RST_CPUG_CMPLX_SET_0 (core_reset_bits (unat core)) tr else tr)"
  obtain tr2 t where p: "power_on_core dev (unat core) tr1 = Ok tr2" "writes_of tr2 = t @ writes_of tr1"
      "t = [] \<or> t = [(APBDEV_PMC_PWRGATE_TOGGLE_0, toggle_vals ! unat core OR 0x100)]"
    using power_on_core_returns [OF assms(1)] by blast
  have n: "\<not> 4 \<le> unat core" "\<not> ctx_is_active (g_cpu_contexts s ! unat core)" using assms(3,4) by (auto simp: is_core_active_def)
  show ?thesis
    unfolding cpu_on_def if_not_P [OF n(1)] if_not_P [OF n(2)] Let_def exosphere_get_target_firmware_loaded [OF assms(2)]
      bindR.simps tr1_def [symmetric] p(1)
    using p(2,3)
    by (intro exI [of _ "if 4 \<le> fw_of c then io_write CLK_RST_CONTROLLER_RST_CPUG_CMPLX_CLR_0 (core_reset_bits (unat core)) tr2 else tr2"]
        exI [of _ t]) (simp add: tr1_def io_write_def)
qed

lemma entrypoint_handed_over:
  fixes arg :: u64
  assumes "cpu_wf s" "core < NUM_CPU_CORES" "\<not> is_core_active core s" "ep \<noteq> 0"
  defines "s1 \<equiv> set_core_entrypoint_and_argument core ep arg s"
  shows "\<exists>s2. use_core_entrypoint_and_argument core s1 = Ok (ep, arg, s2) \<and> is_core_active core s2
     \<and> use_core_entrypoint_and_argument core s2 = Panic 0xF7F00007"
  using assms by (simp add: use_core_entrypoint_and_argument_def set_core_entrypoint_and_argument_def is_core_active_def cpu_wf_def Let_def)

end
