(* ===== verification/Peripherals.thy ===== *)
theory Peripherals
  imports MMIO
begin

text \<open>
  The drivers of the I2C controllers (\<^verbatim>\<open>i2c.c\<close>) and of the serial ports (\<^verbatim>\<open>uart.c\<close>), as the
  register accesses they make.
\<close>

section \<open>Pin multiplexing\<close>

definition PINMUX_REG :: "u64 \<Rightarrow> u64" where
  "PINMUX_REG n = MMIO_GET_DEVICE_ADDRESS MMIO_DEVID_MISC + 0x3000 + n"

abbreviation (input) PINMUX_INPUT :: u32 where "PINMUX_INPUT \<equiv> 0x40"
abbreviation (input) PINMUX_PULL_DOWN :: u32 where "PINMUX_PULL_DOWN \<equiv> 0x4"
abbreviation (input) PINMUX_PULL_UP :: u32 where "PINMUX_PULL_UP \<equiv> 0x8"

section \<open>I2C\<close>

datatype I2CDevice = I2C_1 | I2C_2 | I2C_3 | I2C_4 | I2C_5 | I2C_6

fun i2c_config :: "I2CDevice \<Rightarrow> io \<Rightarrow> io" where
  "i2c_config I2C_1 tr = io_write (PINMUX_REG 0xC0) PINMUX_INPUT (io_write (PINMUX_REG 0xBC) PINMUX_INPUT tr)"
| "i2c_config I2C_2 tr = io_write (PINMUX_REG 0xC8) PINMUX_INPUT (io_write (PINMUX_REG 0xC4) PINMUX_INPUT tr)"
| "i2c_config I2C_3 tr = io_write (PINMUX_REG 0xD0) PINMUX_INPUT (io_write (PINMUX_REG 0xCC) PINMUX_INPUT tr)"
| "i2c_config I2C_4 tr = io_write (PINMUX_REG 0xD8) PINMUX_INPUT (io_write (PINMUX_REG 0xD4) PINMUX_INPUT tr)"
| "i2c_config I2C_5 tr = io_write (PINMUX_REG 0xE0) PINMUX_INPUT (io_write (PINMUX_REG 0xDC) PINMUX_INPUT tr)"
| "i2c_config I2C_6 tr = tr"

fun i2c_get_registers_from_id :: "I2CDevice \<Rightarrow> u64" where
  "i2c_get_registers_from_id I2C_1 = MMIO_GET_DEVICE_ADDRESS MMIO_DEVID_DTV_I2C234"
| "i2c_get_registers_from_id I2C_2 = MMIO_GET_DEVICE_ADDRESS MMIO_DEVID_DTV_I2C234 + 0x400"
| "i2c_get_registers_from_id I2C_3 = MMIO_GET_DEVICE_ADDRESS MMIO_DEVID_DTV_I2C234 + 0x500"
| "i2c_get_registers_from_id I2C_4 = MMIO_GET_DEVICE_ADDRESS MMIO_DEVID_DTV_I2C234 + 0x700"
| "i2c_get_registers_from_id I2C_5 = MMIO_GET_DEVICE_ADDRESS MMIO_DEVID_I2C56_SPI2B"
| "i2c_get_registers_from_id I2C_6 = MMIO_GET_DEVICE_ADDRESS MMIO_DEVID_I2C56_SPI2B + 0x100"

text \<open>Offsets in \<^verbatim>\<open>tegra_i2c_t\<close>.\<close>

abbreviation (input) I2C_I2C_CNFG_0 :: u64 where "I2C_I2C_CNFG_0 \<equiv> 0x0"
abbreviation (input) I2C_I2C_CMD_ADDR0_0 :: u64 where "I2C_I2C_CMD_ADDR0_0 \<equiv> 0x4"
abbreviation (input) I2C_I2C_CMD_DATA1_0 :: u64 where "I2C_I2C_CMD_DATA1_0 \<equiv> 0xC"
abbreviation (input) I2C_I2C_STATUS_0 :: u64 where "I2C_I2C_STATUS_0 \<equiv> 0x1C"
abbreviation (input) I2C_INTERRUPT_STATUS_REGISTER_0 :: u64 where "I2C_INTERRUPT_STATUS_REGISTER_0 \<equiv> 0x68"
abbreviation (input) I2C_I2C_CLK_DIVISOR_REGISTER_0 :: u64 where "I2C_I2C_CLK_DIVISOR_REGISTER_0 \<equiv> 0x6C"
abbreviation (input) I2C_I2C_BUS_CLEAR_CONFIG_0 :: u64 where "I2C_I2C_BUS_CLEAR_CONFIG_0 \<equiv> 0x84"
abbreviation (input) I2C_I2C_BUS_CLEAR_STATUS_0 :: u64 where "I2C_I2C_BUS_CLEAR_STATUS_0 \<equiv> 0x88"
abbreviation (input) I2C_I2C_CONFIG_LOAD_0 :: u64 where "I2C_I2C_CONFIG_LOAD_0 \<equiv> 0x8C"

text \<open>A loop of at most \<open>n\<close> rounds: wait, read, stop when the value is as wanted.\<close>

fun wait_rounds :: "device \<Rightarrow> u32 \<Rightarrow> u64 \<Rightarrow> (u32 \<Rightarrow> bool) \<Rightarrow> nat \<Rightarrow> io \<Rightarrow> io res" where
  "wait_rounds dev us a done 0 tr = Ok tr"
| "wait_rounds dev us a done (Suc n) tr =
     bindR (wait dev us tr) (\<lambda>tr.
     case io_read dev a tr of (v, tr) \<Rightarrow> if done v then Ok tr else wait_rounds dev us a done n tr)"

definition i2c_load_config :: "device \<Rightarrow> u64 \<Rightarrow> io \<Rightarrow> io res" where
  "i2c_load_config dev regs tr =
     wait_rounds dev 1 (regs + I2C_I2C_CONFIG_LOAD_0) (\<lambda>v. v AND 1 = 0) 20
       (io_write (regs + I2C_I2C_CONFIG_LOAD_0) 0x25 tr)"

definition i2c_init :: "device \<Rightarrow> I2CDevice \<Rightarrow> io \<Rightarrow> io res" where
  "i2c_init dev i tr =
     (let regs = i2c_get_registers_from_id i;
          tr = io_write (regs + I2C_I2C_CLK_DIVISOR_REGISTER_0) 0x50001 tr;
          tr = io_write (regs + I2C_I2C_BUS_CLEAR_CONFIG_0) 0x90003 tr
      in bindR (i2c_load_config dev regs tr) (\<lambda>tr.
         bindR (wait_rounds dev 25 (regs + I2C_INTERRUPT_STATUS_REGISTER_0) (\<lambda>v. v AND 0x800 \<noteq> 0) 10 tr) (\<lambda>tr.
         let (_, tr) = io_read dev (regs + I2C_I2C_BUS_CLEAR_STATUS_0) tr;
             (int_status, tr) = io_read dev (regs + I2C_INTERRUPT_STATUS_REGISTER_0) tr
         in Ok (io_write (regs + I2C_INTERRUPT_STATUS_REGISTER_0) int_status tr))))"

definition i2c_write :: "device \<Rightarrow> u64 \<Rightarrow> u8 \<Rightarrow> bytes \<Rightarrow> nat \<Rightarrow> io \<Rightarrow> (bool \<times> io) res" where
  "i2c_write dev regs device src src_size tr =
     (if src_size > 4 then Ok (False, tr)
      else if src_size = 0 then Ok (True, tr)
      else
        let tr = io_write (regs + I2C_I2C_CMD_ADDR0_0) (push_bit 1 (ucast device)) tr;
            tr = io_write (regs + I2C_I2C_CMD_DATA1_0) (read32le src 0) tr;
            tr = io_write (regs + I2C_I2C_CNFG_0) ((push_bit 1 (of_nat src_size) - 2) OR 0x2800) tr
        in bindR (i2c_load_config dev regs tr) (\<lambda>tr.
           let tr = io_modify dev (regs + I2C_I2C_CNFG_0) (\<lambda>v. (v AND 0xFFFFFDFF) OR 0x200) tr
           in bindR (poll dev (regs + I2C_I2C_STATUS_0) (\<lambda>v. v AND 0x100 \<noteq> 0) tr) (\<lambda>tr.
              case io_read dev (regs + I2C_I2C_STATUS_0) tr of (v, tr) \<Rightarrow> Ok (v AND 0xF = 0, tr))))"

definition i2c_read :: "device \<Rightarrow> u64 \<Rightarrow> u8 \<Rightarrow> bytes \<Rightarrow> nat \<Rightarrow> io \<Rightarrow> (bool \<times> bytes \<times> io) res" where
  "i2c_read dev regs device dst dst_size tr =
     (if dst_size > 4 then Ok (False, dst, tr)
      else if dst_size = 0 then Ok (True, dst, tr)
      else
        let tr = io_write (regs + I2C_I2C_CMD_ADDR0_0) (push_bit 1 (ucast device) OR 1) tr;
            tr = io_write (regs + I2C_I2C_CNFG_0) ((push_bit 1 (of_nat dst_size) - 2) OR 0x2840) tr
        in bindR (i2c_load_config dev regs tr) (\<lambda>tr.
           let tr = io_modify dev (regs + I2C_I2C_CNFG_0) (\<lambda>v. (v AND 0xFFFFFDFF) OR 0x200) tr
           in bindR (poll dev (regs + I2C_I2C_STATUS_0) (\<lambda>v. v AND 0x100 \<noteq> 0) tr) (\<lambda>tr.
              case io_read dev (regs + I2C_I2C_STATUS_0) tr of (v, tr) \<Rightarrow>
              if v AND 0xF \<noteq> 0 then Ok (False, dst, tr)
              else case io_read dev (regs + I2C_I2C_CMD_DATA1_0) tr of (val, tr) \<Rightarrow>
                   Ok (True, blit dst 0 (le_bytes dst_size val), tr))))"

definition i2c_query :: "device \<Rightarrow> I2CDevice \<Rightarrow> u8 \<Rightarrow> u8 \<Rightarrow> bytes \<Rightarrow> nat \<Rightarrow> io \<Rightarrow> (bool \<times> bytes \<times> io) res" where
  "i2c_query dev i device r dst dst_size tr =
     (let regs = i2c_get_registers_from_id i;
          val = le_bytes 4 (ucast r :: u32)
      in bindR (i2c_write dev regs device val 1 tr) (\<lambda>(ok, tr).
         if \<not> ok then Ok (False, dst, tr)
         else if dst_size > 4 then Ok (False, dst, tr)
         else i2c_read dev regs device dst dst_size tr))"

definition i2c_send :: "device \<Rightarrow> I2CDevice \<Rightarrow> u8 \<Rightarrow> u8 \<Rightarrow> bytes \<Rightarrow> nat \<Rightarrow> io \<Rightarrow> (bool \<times> io) res" where
  "i2c_send dev i device r src src_size tr =
     (let val = le_bytes 4 (ucast r :: u32)
      in if src_size = 0 then Ok (True, tr)
         else if src_size \<le> 3
         then i2c_write dev (i2c_get_registers_from_id i) device (blit val 1 (take src_size src)) (src_size + 1) tr
         else Ok (False, tr))"

text \<open>The commands to the power controller and the charger: read a register, change it, send it back.\<close>

definition i2c_update :: "device \<Rightarrow> I2CDevice \<Rightarrow> u8 \<Rightarrow> u8 \<Rightarrow> (u32 \<Rightarrow> u32) \<Rightarrow> io \<Rightarrow> io res" where
  "i2c_update dev i device r f tr =
     bindR (i2c_query dev i device r (le_bytes 4 (0 :: u32)) 1 tr) (\<lambda>(_, val, tr).
     bindR (i2c_send dev i device r (le_bytes 4 (f (le_word val))) 1 tr) (\<lambda>(_, tr). Ok tr))"

definition i2c_send_pmic_cpu_shutdown_cmd :: "device \<Rightarrow> io \<Rightarrow> io res" where
  "i2c_send_pmic_cpu_shutdown_cmd dev tr = i2c_update dev I2C_5 0x3C 0x41 (\<lambda>val. val OR 4) tr"

definition i2c_query_ti_charger_bit_7 :: "device \<Rightarrow> io \<Rightarrow> (bool \<times> io) res" where
  "i2c_query_ti_charger_bit_7 dev tr =
     bindR (i2c_query dev I2C_1 0x6B 0 (le_bytes 4 (0 :: u32)) 1 tr) (\<lambda>(_, val, tr).
     Ok ((le_word val :: u32) AND 0x80 \<noteq> 0, tr))"

definition i2c_clear_ti_charger_bit_7 :: "device \<Rightarrow> io \<Rightarrow> io res" where
  "i2c_clear_ti_charger_bit_7 dev tr = i2c_update dev I2C_1 0x6B 0 (\<lambda>val. val AND 0x7F) tr"

definition i2c_set_ti_charger_bit_7 :: "device \<Rightarrow> io \<Rightarrow> io res" where
  "i2c_set_ti_charger_bit_7 dev tr = i2c_update dev I2C_1 0x6B 0 (\<lambda>val. val OR 0x80) tr"

section \<open>Serial ports\<close>

datatype UartDevice = UART_A | UART_B | UART_C | UART_D | UART_E

fun uart_get_regs :: "UartDevice \<Rightarrow> u64" where
  "uart_get_regs UART_A = MMIO_GET_DEVICE_ADDRESS MMIO_DEVID_UART"
| "uart_get_regs UART_B = MMIO_GET_DEVICE_ADDRESS MMIO_DEVID_UART + 0x40"
| "uart_get_regs UART_C = MMIO_GET_DEVICE_ADDRESS MMIO_DEVID_UART + 0x200"
| "uart_get_regs UART_D = MMIO_GET_DEVICE_ADDRESS MMIO_DEVID_UART + 0x300"
| "uart_get_regs UART_E = MMIO_GET_DEVICE_ADDRESS MMIO_DEVID_UART + 0x400"

abbreviation (input) UART_THR_DLAB :: u64 where "UART_THR_DLAB \<equiv> 0x0"
abbreviation (input) UART_IER_DLAB :: u64 where "UART_IER_DLAB \<equiv> 0x4"
abbreviation (input) UART_IIR_FCR :: u64 where "UART_IIR_FCR \<equiv> 0x8"
abbreviation (input) UART_LCR :: u64 where "UART_LCR \<equiv> 0xC"
abbreviation (input) UART_MCR :: u64 where "UART_MCR \<equiv> 0x10"
abbreviation (input) UART_LSR :: u64 where "UART_LSR \<equiv> 0x14"
abbreviation (input) UART_SPR :: u64 where "UART_SPR \<equiv> 0x1C"

text \<open>The four pins of a port, from its transmit pin on.\<close>

definition uart_pins :: "u64 \<Rightarrow> io \<Rightarrow> io" where
  "uart_pins tx tr =
     (let tr = io_write (PINMUX_REG tx) 0 tr;
          tr = io_write (PINMUX_REG (tx + 4)) (PINMUX_INPUT OR PINMUX_PULL_UP) tr;
          tr = io_write (PINMUX_REG (tx + 8)) 0 tr
      in io_write (PINMUX_REG (tx + 0xC)) (PINMUX_INPUT OR PINMUX_PULL_DOWN) tr)"

fun uart_config :: "UartDevice \<Rightarrow> io \<Rightarrow> io" where
  "uart_config UART_A tr = uart_pins 0xE4 tr"
| "uart_config UART_B tr = uart_pins 0xF4 tr"
| "uart_config UART_C tr = uart_pins 0x104 tr"
| "uart_config UART_D tr = uart_pins 0x114 tr"
| "uart_config UART_E tr = tr"

definition uart_wait_cycles :: "device \<Rightarrow> u32 \<Rightarrow> u32 \<Rightarrow> io \<Rightarrow> io res" where
  "uart_wait_cycles dev baud num tr = wait dev ((num * 1000000 + 16 * baud - 1) div (16 * baud)) tr"

definition uart_wait_syms :: "device \<Rightarrow> u32 \<Rightarrow> u32 \<Rightarrow> io \<Rightarrow> io res" where
  "uart_wait_syms dev baud num tr = wait dev ((num * 1000000 + baud - 1) div baud) tr"

definition uart_wait_idle :: "device \<Rightarrow> UartDevice \<Rightarrow> u32 \<Rightarrow> io \<Rightarrow> io res" where
  "uart_wait_idle dev u status tr =
     bindR (if status AND 1 \<noteq> 0 then poll dev (uart_get_regs u + UART_LSR) (\<lambda>v. v AND 0x40 = 0) tr else Ok tr) (\<lambda>tr.
     if status AND 2 \<noteq> 0 then poll dev (uart_get_regs u + UART_LSR) (\<lambda>v. v AND 1 \<noteq> 0) tr else Ok tr)"

definition uart_init :: "device \<Rightarrow> UartDevice \<Rightarrow> u32 \<Rightarrow> io \<Rightarrow> io res" where
  "uart_init dev u baud tr =
     (let uart = uart_get_regs u in
      bindR (uart_wait_idle dev u 1 tr) (\<lambda>tr.
      let rate = (8 * baud + 408000000) div (16 * baud);
          tr = io_write (uart + UART_IER_DLAB) 0 tr;
          tr = io_write (uart + UART_MCR) 0 tr;
          tr = io_write (uart + UART_LCR) 0x83 tr;
          tr = io_write (uart + UART_THR_DLAB) (rate AND 0xFF) tr;
          tr = io_write (uart + UART_IER_DLAB) (drop_bit 8 rate AND 0xFF) tr;
          tr = io_modify dev (uart + UART_LCR) (\<lambda>v. v AND NOT 0x80) tr;
          (_, tr) = io_read dev (uart + UART_SPR) tr
      in bindR (uart_wait_syms dev baud 3 tr) (\<lambda>tr.
      let tr = io_write (uart + UART_IIR_FCR) 1 tr;
          (_, tr) = io_read dev (uart + UART_SPR) tr
      in bindR (uart_wait_cycles dev baud 3 tr) (\<lambda>tr.
      bindR (uart_wait_idle dev u 1 tr) (\<lambda>tr.
      let tr = io_modify dev (uart + UART_IIR_FCR) (\<lambda>v. v OR 6) tr
      in bindR (uart_wait_cycles dev baud 32 tr) (\<lambda>tr.
         uart_wait_idle dev u 3 tr))))))"

definition uart_send :: "device \<Rightarrow> UartDevice \<Rightarrow> bytes \<Rightarrow> nat \<Rightarrow> io \<Rightarrow> io res" where
  "uart_send dev u buf len tr =
     (let uart = uart_get_regs u in
      foldR (\<lambda>i tr. bindR (poll dev (uart + UART_LSR) (\<lambda>v. v AND 0x20 = 0) tr) (\<lambda>tr.
               Ok (io_write (uart + UART_THR_DLAB) (ucast (buf ! i)) tr))) [0..<len] tr)"

definition uart_recv :: "device \<Rightarrow> UartDevice \<Rightarrow> bytes \<Rightarrow> nat \<Rightarrow> io \<Rightarrow> (bytes \<times> io) res" where
  "uart_recv dev u buf len tr =
     (let uart = uart_get_regs u in
      foldR (\<lambda>i (buf, tr). bindR (poll dev (uart + UART_LSR) (\<lambda>v. v AND 1 = 0) tr) (\<lambda>tr.
               case io_read dev (uart + UART_THR_DLAB) tr of (v, tr) \<Rightarrow> Ok (buf[i := ucast v], tr))) [0..<len] (buf, tr))"

section \<open>Properties\<close>

lemma wait_keeps_writes:
  assumes "counter_advances dev" "us \<noteq> - 1"
  obtains tr' where "wait dev us tr = Ok tr'" "writes_of tr' = writes_of tr"
  using wait_returns [OF assms, of tr] by (metis that writes_of_reads)

lemma wait_rounds_returns:
  assumes "counter_advances dev" "us \<noteq> - 1"
  shows "\<exists>tr'. wait_rounds dev us a d n tr = Ok tr' \<and> writes_of tr' = writes_of tr"
proof (induction n arbitrary: tr)
  case 0
  then show ?case by simp
next
  case (Suc n)
  obtain t where t: "wait dev us tr = Ok t" "writes_of t = writes_of tr" using wait_keeps_writes [OF assms] .
  then show ?case using Suc.IH [of "Rd a (dev t a) # t"] by (auto simp: io_read_def)
qed

text \<open>A status register that does not stay busy forever, however the history looks.\<close>

definition goes_idle :: "device \<Rightarrow> u64 \<Rightarrow> (u32 \<Rightarrow> bool) \<Rightarrow> bool" where
  "goes_idle dev a busy \<longleftrightarrow> (\<forall>tr. \<exists>n. \<not> busy (dev (reads dev a n tr) a))"

lemma poll_returns:
  assumes "goes_idle dev a busy"
  obtains tr' where "poll dev a busy tr = Ok tr'" "writes_of tr' = writes_of tr"
proof -
  obtain n where "\<not> busy (dev (reads dev a n tr) a)" using assms by (auto simp: goes_idle_def)
  from poll_ends [where busy = busy and dev = dev and a = a and n = n and tr = tr, OF this]
  show thesis using that by (metis writes_of_reads)
qed

lemma uart_send_writes:
  assumes "goes_idle dev (uart_get_regs u + UART_LSR) (\<lambda>v. v AND 0x20 = 0)"
  shows "\<exists>tr'. uart_send dev u buf len tr = Ok tr'
     \<and> writes_of tr' = rev (map (\<lambda>i. (uart_get_regs u, ucast (buf ! i))) [0..<len]) @ writes_of tr"
proof (induction len)
  case 0
  then show ?case by (simp add: uart_send_def)
next
  case (Suc len)
  then obtain t where t: "uart_send dev u buf len tr = Ok t"
      "writes_of t = rev (map (\<lambda>i. (uart_get_regs u, ucast (buf ! i))) [0..<len]) @ writes_of tr" by blast
  obtain t' where "poll dev (uart_get_regs u + UART_LSR) (\<lambda>v. v AND 0x20 = 0) t = Ok t'" "writes_of t' = writes_of t"
    using poll_returns [OF assms] .
  then show ?case using t by (simp add: uart_send_def foldR_append io_write_def Let_def)
qed

end
