(* ===== verification/MC.thy ===== *)
theory MC
  imports Exo_Config
begin

text \<open>
  \<^verbatim>\<open>mc.c\<close>: the carveouts of the memory controller. The five carveout register sets are a
  list in the order of their ids; the kernel's two carveouts are also remembered in
  \<^verbatim>\<open>g_saved_carveouts\<close>, from which they are programmed again after a sleep.
\<close>

section \<open>Registers\<close>

abbreviation (input) CLIENT_ACCESS_NUM_CLIENTS :: nat where "CLIENT_ACCESS_NUM_CLIENTS \<equiv> 32"

text \<open>The clients of the memory controller: the enumerators of \<^verbatim>\<open>McClient\<close> with their values, by name.\<close>

definition McClient :: "(string \<times> nat) list" where
  "McClient =
    [(''CSR_PTCR'', 0 - CLIENT_ACCESS_NUM_CLIENTS * 0),
     (''CSR_DISPLAY0A'', 1 - CLIENT_ACCESS_NUM_CLIENTS * 0),
     (''CSR_DISPLAY0AB'', 2 - CLIENT_ACCESS_NUM_CLIENTS * 0),
     (''CSR_DISPLAY0B'', 3 - CLIENT_ACCESS_NUM_CLIENTS * 0),
     (''CSR_DISPLAY0BB'', 4 - CLIENT_ACCESS_NUM_CLIENTS * 0),
     (''CSR_DISPLAY0C'', 5 - CLIENT_ACCESS_NUM_CLIENTS * 0),
     (''CSR_DISPLAY0CB'', 6 - CLIENT_ACCESS_NUM_CLIENTS * 0),
     (''CSR_AFIR'', 14 - CLIENT_ACCESS_NUM_CLIENTS * 0),
     (''CSR_AVPCARM7R'', 15 - CLIENT_ACCESS_NUM_CLIENTS * 0),
     (''CSR_DISPLAYHC'', 16 - CLIENT_ACCESS_NUM_CLIENTS * 0),
     (''CSR_DISPLAYHCB'', 17 - CLIENT_ACCESS_NUM_CLIENTS * 0),
     (''CSR_HDAR'', 21 - CLIENT_ACCESS_NUM_CLIENTS * 0),
     (''CSR_HOST1XDMAR'', 22 - CLIENT_ACCESS_NUM_CLIENTS * 0),
     (''CSR_HOST1XR'', 23 - CLIENT_ACCESS_NUM_CLIENTS * 0),
     (''CSR_NVENCSRD'', 28 - CLIENT_ACCESS_NUM_CLIENTS * 0),
     (''CSR_PPCSAHBDMAR'', 29 - CLIENT_ACCESS_NUM_CLIENTS * 0),
     (''CSR_PPCSAHBSLVR'', 30 - CLIENT_ACCESS_NUM_CLIENTS * 0),
     (''CSR_SATAR'', 31 - CLIENT_ACCESS_NUM_CLIENTS * 0),
     (''CSR_VDEBSEVR'', 34 - CLIENT_ACCESS_NUM_CLIENTS * 1),
     (''CSR_VDEMBER'', 35 - CLIENT_ACCESS_NUM_CLIENTS * 1),
     (''CSR_VDEMCER'', 36 - CLIENT_ACCESS_NUM_CLIENTS * 1),
     (''CSR_VDETPER'', 37 - CLIENT_ACCESS_NUM_CLIENTS * 1),
     (''CSR_MPCORELPR'', 38 - CLIENT_ACCESS_NUM_CLIENTS * 1),
     (''CSR_MPCORER'', 39 - CLIENT_ACCESS_NUM_CLIENTS * 1),
     (''CSW_NVENCSWR'', 43 - CLIENT_ACCESS_NUM_CLIENTS * 1),
     (''CSW_AFIW'', 49 - CLIENT_ACCESS_NUM_CLIENTS * 1),
     (''CSW_AVPCARM7W'', 50 - CLIENT_ACCESS_NUM_CLIENTS * 1),
     (''CSW_HDAW'', 53 - CLIENT_ACCESS_NUM_CLIENTS * 1),
     (''CSW_HOST1XW'', 54 - CLIENT_ACCESS_NUM_CLIENTS * 1),
     (''CSW_MPCORELPW'', 56 - CLIENT_ACCESS_NUM_CLIENTS * 1),
     (''CSW_MPCOREW'', 57 - CLIENT_ACCESS_NUM_CLIENTS * 1),
     (''CSW_PPCSAHBDMAW'', 59 - CLIENT_ACCESS_NUM_CLIENTS * 1),
     (''CSW_PPCSAHBSLVW'', 60 - CLIENT_ACCESS_NUM_CLIENTS * 1),
     (''CSW_SATAW'', 61 - CLIENT_ACCESS_NUM_CLIENTS * 1),
     (''CSW_VDEBSEVW'', 62 - CLIENT_ACCESS_NUM_CLIENTS * 1),
     (''CSW_VDEDBGW'', 63 - CLIENT_ACCESS_NUM_CLIENTS * 1),
     (''CSW_VDEMBEW'', 64 - CLIENT_ACCESS_NUM_CLIENTS * 2),
     (''CSW_VDETPMW'', 65 - CLIENT_ACCESS_NUM_CLIENTS * 2),
     (''CSR_ISPRA'', 68 - CLIENT_ACCESS_NUM_CLIENTS * 2),
     (''CSW_ISPWA'', 70 - CLIENT_ACCESS_NUM_CLIENTS * 2),
     (''CSW_ISPWB'', 71 - CLIENT_ACCESS_NUM_CLIENTS * 2),
     (''CSR_XUSB_HOSTR'', 74 - CLIENT_ACCESS_NUM_CLIENTS * 2),
     (''CSW_XUSB_HOSTW'', 75 - CLIENT_ACCESS_NUM_CLIENTS * 2),
     (''CSR_XUSB_DEVR'', 76 - CLIENT_ACCESS_NUM_CLIENTS * 2),
     (''CSW_XUSB_DEVW'', 77 - CLIENT_ACCESS_NUM_CLIENTS * 2),
     (''CSR_ISPRAB'', 78 - CLIENT_ACCESS_NUM_CLIENTS * 2),
     (''CSW_ISPWAB'', 80 - CLIENT_ACCESS_NUM_CLIENTS * 2),
     (''CSW_ISPWBB'', 81 - CLIENT_ACCESS_NUM_CLIENTS * 2),
     (''CSR_TSECSRD'', 84 - CLIENT_ACCESS_NUM_CLIENTS * 2),
     (''CSW_TSECSWR'', 85 - CLIENT_ACCESS_NUM_CLIENTS * 2),
     (''CSR_A9AVPSCR'', 86 - CLIENT_ACCESS_NUM_CLIENTS * 2),
     (''CSW_A9AVPSCW'', 87 - CLIENT_ACCESS_NUM_CLIENTS * 2),
     (''CSR_GPUSRD'', 88 - CLIENT_ACCESS_NUM_CLIENTS * 2),
     (''CSW_GPUSWR'', 89 - CLIENT_ACCESS_NUM_CLIENTS * 2),
     (''CSR_DISPLAYT'', 90 - CLIENT_ACCESS_NUM_CLIENTS * 2),
     (''CSR_SDMMCRA'', 96 - CLIENT_ACCESS_NUM_CLIENTS * 3),
     (''CSR_SDMMCRAA'', 97 - CLIENT_ACCESS_NUM_CLIENTS * 3),
     (''CSR_SDMMCR'', 98 - CLIENT_ACCESS_NUM_CLIENTS * 3),
     (''CSR_SDMMCRAB'', 99 - CLIENT_ACCESS_NUM_CLIENTS * 3),
     (''CSW_SDMMCWA'', 100 - CLIENT_ACCESS_NUM_CLIENTS * 3),
     (''CSW_SDMMCWAA'', 101 - CLIENT_ACCESS_NUM_CLIENTS * 3),
     (''CSW_SDMMCW'', 102 - CLIENT_ACCESS_NUM_CLIENTS * 3),
     (''CSW_SDMMCWAB'', 103 - CLIENT_ACCESS_NUM_CLIENTS * 3),
     (''CSR_VICSRD'', 108 - CLIENT_ACCESS_NUM_CLIENTS * 3),
     (''CSW_VICSWR'', 109 - CLIENT_ACCESS_NUM_CLIENTS * 3),
     (''CSW_VIW'', 114 - CLIENT_ACCESS_NUM_CLIENTS * 3),
     (''CSR_DISPLAYD'', 115 - CLIENT_ACCESS_NUM_CLIENTS * 3),
     (''CSR_NVDECSRD'', 120 - CLIENT_ACCESS_NUM_CLIENTS * 3),
     (''CSW_NVDECSWR'', 121 - CLIENT_ACCESS_NUM_CLIENTS * 3),
     (''CSR_APER'', 122 - CLIENT_ACCESS_NUM_CLIENTS * 3),
     (''CSW_APEW'', 123 - CLIENT_ACCESS_NUM_CLIENTS * 3),
     (''CSR_NVJPGSRD'', 126 - CLIENT_ACCESS_NUM_CLIENTS * 3),
     (''CSW_NVJPGSWR'', 127 - CLIENT_ACCESS_NUM_CLIENTS * 3),
     (''CSR_SESRD'', 128 - CLIENT_ACCESS_NUM_CLIENTS * 4),
     (''CSW_SESWR'', 129 - CLIENT_ACCESS_NUM_CLIENTS * 4),
     (''CSR_AXIAPR'', 130 - CLIENT_ACCESS_NUM_CLIENTS * 4),
     (''CSW_AXIAPW'', 131 - CLIENT_ACCESS_NUM_CLIENTS * 4),
     (''CSR_ETRR'', 132 - CLIENT_ACCESS_NUM_CLIENTS * 4),
     (''CSW_ETRW'', 133 - CLIENT_ACCESS_NUM_CLIENTS * 4),
     (''CSR_TSECSRDB'', 134 - CLIENT_ACCESS_NUM_CLIENTS * 4),
     (''CSW_TSECSWRB'', 135 - CLIENT_ACCESS_NUM_CLIENTS * 4),
     (''CSR_GPUSRD2'', 136 - CLIENT_ACCESS_NUM_CLIENTS * 4),
     (''CSW_GPUSWR2'', 137 - CLIENT_ACCESS_NUM_CLIENTS * 4)]"

definition client_bit :: "string \<Rightarrow> u32" where
  "client_bit c = push_bit (the (map_of McClient c)) 1"

definition client_bits :: "string list \<Rightarrow> u32" where
  "client_bits cs = foldr (\<lambda>c w. client_bit c OR w) cs 0"

record security_carveout =
  co_config :: u32
  paddr_low :: u32
  paddr_high :: u32
  size_big_pages :: u32
  client_access_0 :: u32
  client_access_1 :: u32
  client_access_2 :: u32
  client_access_3 :: u32
  client_access_4 :: u32
  client_force_internal_access_0 :: u32
  client_force_internal_access_1 :: u32
  client_force_internal_access_2 :: u32
  client_force_internal_access_3 :: u32
  client_force_internal_access_4 :: u32

record saved_carveout_info =
  sc_address :: u64
  sc_size :: u64

record mc_state =
  carveouts :: "security_carveout list"
  g_saved_carveouts :: "saved_carveout_info list"

abbreviation (input) KERNEL_CARVEOUT_SIZE_MAX :: u64 where "KERNEL_CARVEOUT_SIZE_MAX \<equiv> 0x1FFE0000"

definition mc_saved_init :: "saved_carveout_info list" where
  "mc_saved_init = [\<lparr>sc_address = 0x80060000, sc_size = KERNEL_CARVEOUT_SIZE_MAX\<rparr>, \<lparr>sc_address = 0, sc_size = 0\<rparr>]"

definition get_carveout_by_id :: "u32 \<Rightarrow> nat res" where
  "get_carveout_by_id carveout =
     (if 1 \<le> carveout \<and> carveout \<le> 5 then Ok (unat (carveout - 1)) else generic_panic)"

text \<open>Programming all the registers of a carveout.\<close>

definition program_carveout :: "u32 \<Rightarrow> security_carveout \<Rightarrow> mc_state \<Rightarrow> mc_state res" where
  "program_carveout carveout_id regs mc =
     bindR (get_carveout_by_id carveout_id) (\<lambda>i. Ok (mc\<lparr>carveouts := (carveouts mc)[i := regs]\<rparr>))"

section \<open>Operations\<close>

definition gpu_ucode_regs :: "u32 \<Rightarrow> security_carveout" where
  "gpu_ucode_regs fw =
    \<lparr>co_config = 0x440167E, paddr_low = 0x80020000, paddr_high = 0, size_big_pages = 2,
     client_access_0 = 0, client_access_1 = 0,
     client_access_2 = (if fw \<ge> FW_600 then client_bits [''CSR_GPUSRD'', ''CSW_GPUSWR'', ''CSR_TSECSRD''] else client_bits [''CSR_GPUSRD'', ''CSW_GPUSWR'']),
     client_access_3 = 0, client_access_4 = client_bits [''CSR_GPUSRD2'', ''CSW_GPUSWR2''],
     client_force_internal_access_0 = 0, client_force_internal_access_1 = 0, client_force_internal_access_2 = 0,
     client_force_internal_access_3 = 0, client_force_internal_access_4 = 0\<rparr>"

definition configure_gpu_ucode_carveout :: "exocfg \<Rightarrow> mc_state \<Rightarrow> mc_state res" where
  "configure_gpu_ucode_carveout c mc =
     bindR (exosphere_get_target_firmware c) (\<lambda>fw. program_carveout 2 (gpu_ucode_regs fw) mc)"

definition unused_regs :: security_carveout where
  "unused_regs =
    \<lparr>co_config = 0x4000006, paddr_low = 0, paddr_high = 0, size_big_pages = 0,
     client_access_0 = 0, client_access_1 = 0, client_access_2 = 0, client_access_3 = 0, client_access_4 = 0,
     client_force_internal_access_0 = 0, client_force_internal_access_1 = 0, client_force_internal_access_2 = 0,
     client_force_internal_access_3 = 0, client_force_internal_access_4 = 0\<rparr>"

definition unused_gpu_regs :: security_carveout where
  "unused_gpu_regs =
    \<lparr>co_config = 0x4401E7E, paddr_low = 0, paddr_high = 0, size_big_pages = 0,
     client_access_0 = 0, client_access_1 = 0, client_access_2 = client_bits [''CSR_GPUSRD'', ''CSW_GPUSWR''], client_access_3 = 0,
     client_access_4 = client_bits [''CSR_GPUSRD2'', ''CSW_GPUSWR2''],
     client_force_internal_access_0 = 0, client_force_internal_access_1 = 0, client_force_internal_access_2 = 0,
     client_force_internal_access_3 = 0, client_force_internal_access_4 = 0\<rparr>"

definition kernel_regs :: "u32 \<Rightarrow> u32 \<Rightarrow> u64 \<Rightarrow> u64 \<Rightarrow> security_carveout" where
  "kernel_regs fw carveout_id address sz =
    \<lparr>co_config = (if fw \<ge> FW_800 then 0x4CB else 0x8B),
     paddr_low = ucast (address AND 0xFFFFFFFF),
     paddr_high = ucast (drop_bit 32 address),
     size_big_pages = ucast (drop_bit 17 sz),
     client_access_0 = client_bits [''CSR_PTCR'', ''CSR_DISPLAY0A'', ''CSR_DISPLAY0AB'', ''CSR_DISPLAY0B'', ''CSR_DISPLAY0BB'', ''CSR_DISPLAY0C'',
       ''CSR_DISPLAY0CB'', ''CSR_AFIR'', ''CSR_DISPLAYHC'', ''CSR_DISPLAYHCB'', ''CSR_HDAR'', ''CSR_HOST1XDMAR'', ''CSR_HOST1XR'', ''CSR_NVENCSRD'',
       ''CSR_PPCSAHBDMAR'', ''CSR_PPCSAHBSLVR''],
     client_access_1 = client_bits [''CSR_MPCORER'', ''CSW_NVENCSWR'', ''CSW_AFIW'', ''CSW_HDAW'', ''CSW_HOST1XW'', ''CSW_MPCOREW'', ''CSW_PPCSAHBDMAW'',
       ''CSW_PPCSAHBSLVW''],
     client_access_2 =
       (if fw \<ge> FW_810 then client_bits [''CSR_XUSB_HOSTR'', ''CSW_XUSB_HOSTW'', ''CSR_XUSB_DEVR'', ''CSW_XUSB_DEVW'']
        else if fw \<ge> FW_800 then client_bits [''CSR_XUSB_HOSTR'', ''CSW_XUSB_HOSTW'', ''CSR_XUSB_DEVR'', ''CSW_XUSB_DEVW'']
        else client_bits [''CSR_XUSB_HOSTR'', ''CSW_XUSB_HOSTW'', ''CSR_XUSB_DEVR'', ''CSW_XUSB_DEVW'', ''CSR_TSECSRD'', ''CSW_TSECSWR'']),
     client_access_3 =
       (if fw \<ge> FW_810
        then client_bits [''CSR_SDMMCRA'', ''CSR_SDMMCRAA'', ''CSR_SDMMCRAB'', ''CSW_SDMMCWA'', ''CSW_SDMMCWAA'', ''CSW_SDMMCWAB'', ''CSR_VICSRD'',
               ''CSW_VICSWR'', ''CSR_DISPLAYD'', ''CSR_APER'', ''CSW_APEW'', ''CSR_NVJPGSRD'', ''CSW_NVJPGSWR'']
        else client_bits [''CSR_SDMMCRA'', ''CSR_SDMMCRAA'', ''CSR_SDMMCRAB'', ''CSW_SDMMCWA'', ''CSW_SDMMCWAA'', ''CSW_SDMMCWAB'', ''CSR_VICSRD'',
               ''CSW_VICSWR'', ''CSR_DISPLAYD'', ''CSR_NVDECSRD'', ''CSW_NVDECSWR'', ''CSR_APER'', ''CSW_APEW'', ''CSR_NVJPGSRD'', ''CSW_NVJPGSWR'']),
     client_access_4 =
       (if fw \<ge> FW_810 then client_bits [''CSR_SESRD'', ''CSW_SESWR'']
        else if fw \<ge> FW_800 then client_bits [''CSR_SESRD'', ''CSW_SESWR'', ''CSR_TSECSRDB'', ''CSW_TSECSWRB'']
        else client_bits [''CSR_SESRD'', ''CSW_SESWR'']),
     client_force_internal_access_0 = (if fw \<ge> FW_400 \<and> carveout_id = 4 then client_bit ''CSR_AVPCARM7R'' else 0),
     client_force_internal_access_1 = (if fw \<ge> FW_400 \<and> carveout_id = 4 then client_bit ''CSW_AVPCARM7W'' else 0),
     client_force_internal_access_2 = 0, client_force_internal_access_3 = 0, client_force_internal_access_4 = 0\<rparr>"

definition configure_kernel_carveout :: "exocfg \<Rightarrow> u32 \<Rightarrow> u64 \<Rightarrow> u64 \<Rightarrow> mc_state \<Rightarrow> mc_state res" where
  "configure_kernel_carveout c carveout_id address sz mc =
     bindR (panic_if (carveout_id \<noteq> 4 \<and> carveout_id \<noteq> 5)) (\<lambda>_.
     let mc = mc\<lparr>g_saved_carveouts := (g_saved_carveouts mc)[unat (carveout_id - 4) := \<lparr>sc_address = address, sc_size = sz\<rparr>]\<rparr>
     in bindR (exosphere_get_target_firmware c) (\<lambda>fw. program_carveout carveout_id (kernel_regs fw carveout_id address sz) mc))"

definition configure_default_carveouts :: "exocfg \<Rightarrow> mc_state \<Rightarrow> mc_state res" where
  "configure_default_carveouts c mc =
     bindR (program_carveout 1 unused_regs mc) (\<lambda>mc.
     bindR (exosphere_get_target_firmware c) (\<lambda>fw.
     bindR (if fw < FW_600 then configure_gpu_ucode_carveout c mc else Ok mc) (\<lambda>mc.
     bindR (program_carveout 3 unused_gpu_regs mc) (\<lambda>mc.
     if fw \<ge> FW_200
     then bindR (configure_kernel_carveout c 4 (sc_address (g_saved_carveouts mc ! 0)) (sc_size (g_saved_carveouts mc ! 0)) mc) (\<lambda>mc.
          configure_kernel_carveout c 5 (sc_address (g_saved_carveouts mc ! 1)) (sc_size (g_saved_carveouts mc ! 1)) mc)
     else foldR (\<lambda>i. program_carveout i unused_regs) [4, 5] mc))))"

section \<open>Properties\<close>

definition mc_wf :: "mc_state \<Rightarrow> bool" where
  "mc_wf mc \<longleftrightarrow> length (carveouts mc) = 5 \<and> length (g_saved_carveouts mc) = 2"

lemma configure_kernel_carveout_ok:
  assumes "g_has_loaded_config c" "k < 2"
  shows "configure_kernel_carveout c (4 + of_nat k) a sz mc =
     Ok (mc\<lparr>g_saved_carveouts := (g_saved_carveouts mc)[k := \<lparr>sc_address = a, sc_size = sz\<rparr>],
            carveouts := (carveouts mc)[3 + k := kernel_regs (fw_of c) (4 + of_nat k) a sz]\<rparr>)"
proof -
  have "k = 0 \<or> k = 1" using assms(2) by auto
  then show ?thesis using assms(1)
    by (elim disjE) (simp_all add: configure_kernel_carveout_def program_carveout_def get_carveout_by_id_def)
qed

lemma configure_default_carveouts_ok:
  assumes "g_has_loaded_config c" "2 \<le> fw_of c" "mc_wf mc"
  shows "\<exists>mc'. configure_default_carveouts c mc = Ok mc' \<and> mc_wf mc' \<and> g_saved_carveouts mc' = g_saved_carveouts mc
     \<and> (\<forall>k < 2. carveouts mc' ! (3 + k) = kernel_regs (fw_of c) (4 + of_nat k)
            (sc_address (g_saved_carveouts mc ! k)) (sc_size (g_saved_carveouts mc ! k)))"
proof -
  note w = assms(3) [unfolded mc_wf_def]
  define m1 where "m1 = mc\<lparr>carveouts := (carveouts mc)[0 := unused_regs]\<rparr>"
  define m2 where "m2 = (if fw_of c < 6 then m1\<lparr>carveouts := (carveouts m1)[1 := gpu_ucode_regs (fw_of c)]\<rparr> else m1)"
  define m3 where "m3 = m2\<lparr>carveouts := (carveouts m2)[2 := unused_gpu_regs]\<rparr>"
  have s: "g_saved_carveouts m3 = g_saved_carveouts mc" "length (carveouts m3) = 5"
    using w by (simp_all add: m1_def m2_def m3_def)
  have first: "program_carveout 1 unused_regs mc = Ok m1" "program_carveout 3 unused_gpu_regs m2 = Ok m3"
      "(if fw_of c < 6 then configure_gpu_ucode_carveout c m1 else Ok m1) = Ok m2"
    using assms(1) by (simp_all add: program_carveout_def get_carveout_by_id_def m1_def m2_def m3_def configure_gpu_ucode_carveout_def)
  note k = configure_kernel_carveout_ok [OF assms(1), of 0, simplified] configure_kernel_carveout_ok [OF assms(1), of 1, simplified]
  have "configure_default_carveouts c mc =
      bindR (configure_kernel_carveout c 4 (sc_address (g_saved_carveouts m3 ! 0)) (sc_size (g_saved_carveouts m3 ! 0)) m3) (\<lambda>mc.
          configure_kernel_carveout c 5 (sc_address (g_saved_carveouts mc ! 1)) (sc_size (g_saved_carveouts mc ! 1)) mc)"
    unfolding configure_default_carveouts_def first bindR.simps exosphere_get_target_firmware_loaded [OF assms(1)]
    using assms(2) by simp
  moreover have "(g_saved_carveouts mc)[k := \<lparr>sc_address = sc_address (g_saved_carveouts mc ! k), sc_size = sc_size (g_saved_carveouts mc ! k)\<rparr>]
      = g_saved_carveouts mc" for k
  proof -
    have "\<lparr>sc_address = sc_address x, sc_size = sc_size x\<rparr> = x" for x :: saved_carveout_info by simp
    then show ?thesis by (metis list_update_id)
  qed
  ultimately show ?thesis
    using s w by (simp add: k mc_wf_def less_Suc_eq numeral_2_eq_2)
qed

end
