(* ===== verification/Secmon.thy ===== *)
theory Secmon
  imports SMC_User SMC_Ams SE_Context CPU_Context Peripherals MC
begin

text \<open>
  The state of the whole monitor: the globals of all components as the fields of one record,
  with the lock, the pending asynchronous call and the tables of \<^verbatim>\<open>smc_api.c\<close>.

  What the monitor does not control is an environment: the engine, the fuses and the stack
  of the user handlers, the device registers, the address translation and the system
  registers of the core that runs, and the firmware image that the build embeds.
\<close>

section \<open>The state of the monitor\<close>

text \<open>The functions that \<^verbatim>\<open>g_smc_callback\<close> may point to.\<close>

datatype smc_callback = Smc_exp_mod_get_result | Smc_crypt_aes_status_check | Smc_unwrap_rsa_oaep_wrapped_titlekey_get_result

text \<open>The handlers that the tables of \<^verbatim>\<open>smc_api.c\<close> point to.\<close>

datatype smc_fn =
    Smc_set_config_user | Smc_get_config_user | Smc_check_status | Smc_get_result | Smc_exp_mod
  | Smc_get_random_bytes_for_user | Smc_generate_aes_kek | Smc_load_aes_key | Smc_crypt_aes
  | Smc_generate_specific_aes_key | Smc_compute_cmac | Smc_load_rsa_oaep_key | Smc_decrypt_rsa_private_key
  | Smc_load_secure_exp_mod_key | Smc_secure_exp_mod | Smc_unwrap_rsa_oaep_wrapped_titlekey | Smc_load_titlekey
  | Smc_unwrap_aes_wrapped_titlekey | Smc_encrypt_rsa_key_for_import | Smc_decrypt_or_import_rsa_key
  | Smc_cpu_suspend | Smc_cpu_off | Smc_cpu_on | Smc_get_config_priv | Smc_get_random_bytes_for_priv | Smc_panic
  | Smc_configure_carveout | Smc_read_write_register
  | Smc_ams_iram_copy | Smc_ams_write_address | Smc_ams_get_emummc_config

record smc_table_entry =
  smc_id :: u32
  blacklist_mask :: u32
  entry_handler :: "smc_fn option"

record secmon =
  s_mon :: monitor
  s_io :: io
  s_cpu :: cpu_state
  s_mc :: mc_state
  s_ams_userpage_mapped :: bool
  s_ams_iram_page_mapped :: bool
  g_is_user_smc_in_progress :: bool
  g_is_priv_smc_in_progress :: bool
  g_smc_callback :: "smc_callback option"
  g_smc_callback_key :: u64
  g_configured_carveouts :: "bool list"
  g_has_suspended :: bool
  g_smc_blacklist_mask :: u32
  g_smc_user_table :: "smc_table_entry list"
  g_smc_priv_table :: "smc_table_entry list"
  g_smc_ams_table :: "smc_table_entry list"

record senv =
  e_user :: env
  e_dev :: device
  e_par :: "u64 \<Rightarrow> u64"
  e_regs :: core_regs
  e_core :: nat
  e_dbgauthstatus :: u64
  e_sc7fw_bin :: bytes

text \<open>A call of the monitor comes back, or ends with the core powered off.\<close>

datatype outcome = Returned u32 smc_args secmon | Off secmon

definition on_io :: "(io \<Rightarrow> io res) \<Rightarrow> secmon \<Rightarrow> secmon res" where
  "on_io f s = bindR (f (s_io s)) (\<lambda>tr. Ok (s\<lparr>s_io := tr\<rparr>))"

definition upd_io :: "(io \<Rightarrow> io) \<Rightarrow> secmon \<Rightarrow> secmon" where
  "upd_io f s = s\<lparr>s_io := f (s_io s)\<rparr>"

definition read_io :: "senv \<Rightarrow> u64 \<Rightarrow> secmon \<Rightarrow> u32 \<times> secmon" where
  "read_io e a s = (case io_read (e_dev e) a (s_io s) of (v, tr) \<Rightarrow> (v, s\<lparr>s_io := tr\<rparr>))"

text \<open>\<^verbatim>\<open>configitem_is_retail()\<close> on the globals of the monitor.\<close>

definition mon_is_retail :: "env \<Rightarrow> monitor \<Rightarrow> bool res" where
  "mon_is_retail e m =
     configitem_is_retail (m_cfg m) (env_version_hash e) (mkey_get_revision (m_mkey m)) (env_fuse_hw e) (m_bootconfig m) (m_configitem m) (m_fuse m)"

abbreviation mon_fw :: "secmon \<Rightarrow> u32 res" where
  "mon_fw s \<equiv> exosphere_get_target_firmware (m_cfg (s_mon s))"

end
