(* ===== verification/SC7.thy ===== *)
theory SC7
  imports Secmon
begin

text \<open>
  \<^verbatim>\<open>sc7.c\<close>: the SMC that puts the console to sleep. It ends with the core switched off, after
  the memory of the monitor and the state of the engine have been encrypted and stored.
\<close>

section \<open>Registers\<close>

definition FLOW_CTLR_HALT_COP_EVENTS_0 :: u64 where "FLOW_CTLR_HALT_COP_EVENTS_0 = MAKE_FLOW_REG 0x004"
definition FLOW_CTLR_L2FLUSH_CONTROL_0 :: u64 where "FLOW_CTLR_L2FLUSH_CONTROL_0 = MAKE_FLOW_REG 0x094"
definition CLK_RST_CONTROLLER_RST_DEVICES_H_0 :: u64 where "CLK_RST_CONTROLLER_RST_DEVICES_H_0 = MAKE_CAR_REG 0x008"
definition APB_MISC_SECURE_REG0 :: u64 where "APB_MISC_SECURE_REG0 = MMIO_GET_DEVICE_ADDRESS MMIO_DEVID_MISC + 0xC00"
definition BPMP_VECTOR_BASE :: u64 where "BPMP_VECTOR_BASE = MMIO_GET_DEVICE_ADDRESS MMIO_DEVID_EXCEPTION_VECTORS"

section \<open>Steps of the suspend\<close>

text \<open>
  The wait for the charger: the loop polls a pin and stops after 50 ms by the counter.
  It is not bounded by a number of rounds; not ending is the value \<open>None\<close>.
\<close>

partial_function (option) hiz_poll :: "device \<Rightarrow> u32 \<Rightarrow> io \<Rightarrow> (bool \<times> io) option" where
  "hiz_poll dev start_time tr =
     (case io_read dev (MMIO_GET_DEVICE_ADDRESS MMIO_DEVID_GPIO + 0x634) tr of (v, tr) \<Rightarrow>
      if v AND 1 \<noteq> 0
      then (case get_time dev tr of (t, tr) \<Rightarrow> if t - start_time > 50000 then Some (False, tr) else hiz_poll dev start_time tr)
      else Some (True, tr))"

definition configure_battery_hiz_mode :: "senv \<Rightarrow> secmon \<Rightarrow> secmon res" where
  "configure_battery_hiz_mode e s =
     (let dev = e_dev e;
          s = upd_io (clkrst_reboot dev CARDEVICE_I2C1) s
      in bindR (if configitem_is_hiz_mode_enabled (m_configitem (s_mon s))
                then bindR (i2c_query_ti_charger_bit_7 dev (s_io s)) (\<lambda>(b, tr).
                     if \<not> b
                     then bindR (i2c_set_ti_charger_bit_7 dev tr) (\<lambda>tr.
                          case get_time dev tr of (start_time, tr) \<Rightarrow>
                          (case hiz_poll dev start_time tr of
                             None \<Rightarrow> Hang
                           | Some (should_wait, tr) \<Rightarrow> if should_wait then wait dev 0x100 tr else Ok tr))
                     else Ok tr)
                else Ok (s_io s)) (\<lambda>tr.
         Ok (s\<lparr>s_io := clkrst_disable dev CARDEVICE_I2C1 tr\<rparr>)))"

definition enable_lp0_wake_events :: "senv \<Rightarrow> secmon \<Rightarrow> secmon res" where
  "enable_lp0_wake_events e s =
     on_io (\<lambda>tr. let dev = e_dev e in
        bindR (wait dev 75 tr) (\<lambda>tr.
        bindR (wait dev 75 (io_modify dev (PMC_BASE + 0x440) (\<lambda>v. v OR 0x200) tr)) (\<lambda>tr.
        let tr = io_write (PMC_BASE + 0x14) 0xFFFFFFFF tr;
            tr = io_write (PMC_BASE + 0x168) 0xFFFFFFFF tr
        in wait dev 75 tr))) s"

definition notify_pmic_shutdown :: "senv \<Rightarrow> secmon \<Rightarrow> secmon res" where
  "notify_pmic_shutdown e s =
     on_io (\<lambda>tr. let dev = e_dev e in
        bindR (i2c_init dev I2C_5 (clkrst_reboot dev CARDEVICE_I2C5 tr)) (\<lambda>tr.
        if fuse_get_bootrom_patch_version (m_fuse (s_mon s)) \<ge> 0x7F then i2c_send_pmic_cpu_shutdown_cmd dev tr else Ok tr)) s"

definition mitigate_jamais_vu :: "senv \<Rightarrow> secmon \<Rightarrow> secmon res" where
  "mitigate_jamais_vu e s =
     (case read_io e APBDEV_PMC_PWRGATE_STATUS_0 s of (v, s) \<Rightarrow>
      bindR (panic_if (v AND 0xE00 \<noteq> 0)) (\<lambda>_.
      bindR (mon_fw s) (\<lambda>fw.
      let halt = (if fw < FW_400 \<or> e_dbgauthstatus e AND 3 = 3 then 0x50000000 else 0x40000000);
          s = upd_io (io_write FLOW_CTLR_HALT_COP_EVENTS_0 halt) s
      in case read_io e FLOW_CTLR_HALT_COP_EVENTS_0 s of (v, s) \<Rightarrow>
         bindR (panic_if (v \<noteq> halt)) (\<lambda>_.
         case read_io e CLK_RST_CONTROLLER_RST_DEVICES_H_0 s of (v, s) \<Rightarrow>
         bindR (panic_if (v AND 0x4000006 \<noteq> 0x4000006)) (\<lambda>_. Ok s)))))"

definition configure_pmc_for_deep_powerdown :: "senv \<Rightarrow> secmon \<Rightarrow> secmon" where
  "configure_pmc_for_deep_powerdown e s =
     upd_io (\<lambda>tr. io_modify (e_dev e) (PMC_BASE + 0x24) (\<lambda>v. v OR 2) (io_write (PMC_BASE + 0x50) 1 tr)) s"

text \<open>The copy of the firmware, a word at a time, to the physical address of its segment.\<close>

definition copy_firmware_word :: "bytes \<Rightarrow> nat \<Rightarrow> (u64 \<Rightarrow> u8) \<Rightarrow> (u64 \<Rightarrow> u8) res" where
  "copy_firmware_word bin i mem =
     (if 4 * i + 4 \<le> length bin then Ok (written (fst (MMAPLP0ES ! 1) + 4 * of_nat i) (bslice bin (4 * i) 4) mem) else Undef)"

definition setup_bpmp_sc7_firmware :: "senv \<Rightarrow> secmon \<Rightarrow> secmon res" where
  "setup_bpmp_sc7_firmware e s =
     (let s = upd_io (\<lambda>tr.
            let tr = io_modify (e_dev e) APB_MISC_SECURE_REG0 (\<lambda>v. v AND 0xFFFFDFFF) tr;
                tr = io_write (BPMP_VECTOR_BASE + 0x200) 0x40003000 tr;
                tr = fold (\<lambda>ofs. io_write (BPMP_VECTOR_BASE + ofs) 0x40003004) [0x204, 0x208, 0x20C, 0x210, 0x214, 0x218, 0x21C] tr
            in io_write (MAKE_CAR_REG 0x300) 2 tr) s;
          u = m_upage (s_mon s)
      in bindR (foldR (copy_firmware_word (e_sc7fw_bin e)) [0..<(length (e_sc7fw_bin e) + 3) div 4] (dram u)) (\<lambda>mem.
         let s = s\<lparr>s_mon := (s_mon s)\<lparr>m_upage := u\<lparr>dram := mem\<rparr>\<rparr>\<rparr>
         in Ok (upd_io (\<lambda>tr. io_write FLOW_CTLR_HALT_COP_EVENTS_0 0 (io_write (MAKE_CAR_REG 0x304) 2 tr)) s)))"

definition configure_flow_regs_for_sleep :: "senv \<Rightarrow> secmon \<Rightarrow> secmon" where
  "configure_flow_regs_for_sleep e s =
     upd_io (\<lambda>tr.
       let current_core = e_core e;
           tr = flow_set_cc4_ctrl current_core 0 tr;
           tr = flow_set_halt_events current_core False tr;
           tr = io_write FLOW_CTLR_L2FLUSH_CONTROL_0 0 tr
       in flow_set_csr current_core 2 tr) s"

abbreviation (input) LP0_TZRAM_SAVE_SIZE :: nat where "LP0_TZRAM_SAVE_SIZE \<equiv> 0xE000"

definition phys_bytes :: "(u64 \<Rightarrow> u8) \<Rightarrow> u64 \<Rightarrow> nat \<Rightarrow> bytes" where
  "phys_bytes mem a n = map (\<lambda>i. mem (a + of_nat i)) [0..<n]"

definition set_suspend_for_debug :: "secmon \<Rightarrow> secmon" where
  "set_suspend_for_debug s = s\<lparr>g_has_suspended := True\<rparr>"

definition clear_priv_smc_in_progress :: "secmon \<Rightarrow> secmon" where
  "clear_priv_smc_in_progress s = s\<lparr>g_is_priv_smc_in_progress := False\<rparr>"

text \<open>
  Encrypted TZRAM goes through IRAM to DRAM; the segments are named by their physical
  addresses. What TZRAM holds is the contents of physical memory there.
\<close>

definition save_tzram_state :: "senv \<Rightarrow> secmon \<Rightarrow> secmon res" where
  "save_tzram_state e s =
     (let eng = env_eng (e_user e);
          s = set_suspend_for_debug s;
          tzram_encryption_dst = fst (MMAPLP0ES ! 0)
      in bindR (mon_fw s) (\<lambda>fw.
      let tzram_encryption_src = fst (MMAPLP0ES ! 2) + (if fw \<ge> FW_500 then 0x2000 else 0);
          tzram_store_address = fst (MMAPWBS ! 1);
          s = clear_priv_smc_in_progress s;
          m = s_mon s; mem = dram (m_upage m);
          src = phys_bytes mem tzram_encryption_src LP0_TZRAM_SAVE_SIZE;
          dst = phys_bytes mem tzram_encryption_dst LP0_TZRAM_SAVE_SIZE
      in bindR (se_generate_random_key eng KEYSLOT_SWITCH_LP0TZRAMKEY KEYSLOT_SWITCH_RNGKEY (m_se m)) (\<lambda>se.
      bindR (se_aes_256_cbc_encrypt eng KEYSLOT_SWITCH_LP0TZRAMKEY dst LP0_TZRAM_SAVE_SIZE src LP0_TZRAM_SAVE_SIZE
               (replicate 0x10 0) se) (\<lambda>(encrypted, se).
      let mem = written tzram_encryption_dst encrypted mem;
          mem = written tzram_store_address encrypted mem
      in bindR (se_compute_aes_256_cmac eng KEYSLOT_SWITCH_LP0TZRAMKEY 0x10
                  (phys_bytes mem tzram_encryption_src LP0_TZRAM_SAVE_SIZE) LP0_TZRAM_SAVE_SIZE se) (\<lambda>(tzram_cmac, se).
         let s = s\<lparr>s_mon := m\<lparr>m_se := se, m_upage := (m_upage m)\<lparr>dram := mem\<rparr>\<rparr>\<rparr>;
             s = upd_io (\<lambda>tr.
               let tr = io_write (PMC_BASE + 0xB18) (read32le tzram_cmac 0) tr;
                   tr = io_write (PMC_BASE + 0xB1C) (read32le tzram_cmac 4) tr;
                   tr = io_write (PMC_BASE + 0xB20) (read32le tzram_cmac 8) tr;
                   tr = io_write (PMC_BASE + 0xB24) (read32le tzram_cmac 12) tr
               in io_write (PMC_BASE + 0x5C0) 0x550000 tr) s
         in if fw < FW_200
            then Ok (upd_io (\<lambda>tr.
                   let tr = io_write (PMC_BASE + 0x360) (ucast (fst (MMAPWBS ! 1))) tr;
                       tr = io_write (PMC_BASE + 0x2D8) 0x10000 tr;
                       tr = io_write (PMC_BASE + 0x340) (ucast (fst (MMAPLP0ES ! 2))) tr;
                       tr = io_write (PMC_BASE + 0x344) 0 tr;
                       tr = io_write (PMC_BASE + 0x348) (ucast (fst (MMAPLP0ES ! 2))) tr;
                       tr = io_write (PMC_BASE + 0x34C) 0 tr;
                       tr = io_write (PMC_BASE + 0x350) (ucast (fst (MMAPLP0ES ! 2))) tr;
                       tr = io_write (PMC_BASE + 0x354) (of_nat LP0_TZRAM_SAVE_SIZE) tr
                   in io_write (PMC_BASE + 0x2D8) 0x555 tr) s)
            else Ok s)))))"

definition save_se_state :: "senv \<Rightarrow> secmon \<Rightarrow> secmon res" where
  "save_se_state e s =
     (let m = s_mon s; se_state_dst = fst (MMAPWBS ! 0) in
      bindR (se_check_error_status_reg (m_se m)) (\<lambda>_.
      let se = se_set_in_context_save_mode True (m_se m)
      in bindR (se_save_context (env_eng (e_user e)) (env_stack (e_user e)) KEYSLOT_SWITCH_SRKGENKEY KEYSLOT_SWITCH_RNGKEY
                  (phys_bytes (dram (m_upage m)) se_state_dst 0x840) se) (\<lambda>(ctx, se).
      let u = (m_upage m)\<lparr>dram := written se_state_dst ctx (dram (m_upage m))\<rparr>;
          s = upd_io (io_write (PMC_BASE + 0x22C) (ucast (fst (MMAPWBS ! 0)))) s;
          se = se_set_in_context_save_mode False se
      in bindR (se_check_error_status_reg se) (\<lambda>_. Ok (s\<lparr>s_mon := m\<lparr>m_se := se, m_upage := u\<rparr>\<rparr>)))))"

text \<open>Up to \<^verbatim>\<open>finalize_powerdown\<close>.\<close>

definition save_se_and_power_down_cpu :: "senv \<Rightarrow> secmon \<Rightarrow> outcome res" where
  "save_se_and_power_down_cpu e s =
     bindR (save_tzram_state e s) (\<lambda>s.
     bindR (save_se_state e s) (\<lambda>s.
     let s = upd_io (\<lambda>tr. io_write (PMC_BASE + 0x11C) 0x6001DC28 (io_write (PMC_BASE + 0x118) 0x2202E012 tr)) s
     in bindR (mon_is_retail (e_user e) (s_mon s)) (\<lambda>retail.
        bindR (if \<not> retail then on_io (uart_send (e_dev e) UART_A [0x4F, 0x59, 0x41, 0x53, 0x55, 0x4D, 0x49, 0] 8) s else Ok s) (\<lambda>s.
        Ok (Off s)))))"

definition cpu_suspend :: "senv \<Rightarrow> u64 \<Rightarrow> u64 \<Rightarrow> u64 \<Rightarrow> smc_args \<Rightarrow> secmon \<Rightarrow> outcome res" where
  "cpu_suspend e power_state entrypoint argument args s =
     (if power_state AND 0x17FFF \<noteq> 0x1001B then Ok (Returned 0xFFFFFFFD args s)
      else
        bindR (configure_battery_hiz_mode e s) (\<lambda>s.
        bindR (enable_lp0_wake_events e s) (\<lambda>s.
        bindR (notify_pmic_shutdown e s) (\<lambda>s.
        bindR (mon_fw s) (\<lambda>fw.
        bindR (if fw \<ge> FW_200 then mitigate_jamais_vu e s else Ok s) (\<lambda>s.
        let s = configure_pmc_for_deep_powerdown e s in
        bindR (if fw \<ge> FW_200 then setup_bpmp_sc7_firmware e s else Ok s) (\<lambda>s.
        let s = configure_flow_regs_for_sleep e s;
            c = set_core_entrypoint_and_argument (e_core e) entrypoint argument (s_cpu s);
            c = save_current_core_context (e_regs e) (e_core e) c;
            c = set_current_core_inactive (e_core e) c
        in case read_io e APBDEV_PMC_PWRGATE_STATUS_0 (s\<lparr>s_cpu := c\<rparr>) of (v, s) \<Rightarrow>
           if v AND 0xE00 = 0 then save_se_and_power_down_cpu e s else generic_panic)))))))"

section \<open>Properties\<close>

text \<open>
  A suspend never returns to its caller: it is refused, or the core ends switched off, or
  the console panics.
\<close>

lemma cpu_suspend_cases:
  "cpu_suspend e ps ep arg args s = Ok r \<Longrightarrow>
   (ps AND 0x17FFF \<noteq> 0x1001B \<and> r = Returned 0xFFFFFFFD args s) \<or> (ps AND 0x17FFF = 0x1001B \<and> (\<exists>s'. r = Off s'))"
  unfolding cpu_suspend_def save_se_and_power_down_cpu_def
  by (auto split: if_splits prod.splits elim!: bindR_OkE simp: Let_def)

end
