(* ===== verification/SMC_API.thy ===== *)
theory SMC_API
  imports SC7
begin

text \<open>
  \<^verbatim>\<open>smc_api.c\<close>: the tables of SMCs and their dispatcher, the lock that keeps one user call at a
  time, the asynchronous calls with their status check and result, and the privileged calls.
\<close>

section \<open>Tables\<close>

abbreviation entry :: "u32 \<Rightarrow> u32 \<Rightarrow> smc_fn option \<Rightarrow> smc_table_entry" where
  "entry i m h \<equiv> \<lparr>smc_id = i, blacklist_mask = m, entry_handler = h\<rparr>"

definition g_smc_user_table_init :: "smc_table_entry list" where
  "g_smc_user_table_init =
    [entry 0 4 None,
     entry 0xC3000401 4 (Some Smc_set_config_user),
     entry 0xC3000002 1 (Some Smc_get_config_user),
     entry 0xC3000003 1 (Some Smc_check_status),
     entry 0xC3000404 1 (Some Smc_get_result),
     entry 0xC3000E05 4 (Some Smc_exp_mod),
     entry 0xC3000006 1 (Some Smc_get_random_bytes_for_user),
     entry 0xC3000007 1 (Some Smc_generate_aes_kek),
     entry 0xC3000008 1 (Some Smc_load_aes_key),
     entry 0xC3000009 1 (Some Smc_crypt_aes),
     entry 0xC300000A 1 (Some Smc_generate_specific_aes_key),
     entry 0xC300040B 1 (Some Smc_compute_cmac),
     entry 0xC300100C 1 (Some Smc_load_rsa_oaep_key),
     entry 0xC300100D 2 (Some Smc_decrypt_rsa_private_key),
     entry 0xC300100E 4 (Some Smc_load_secure_exp_mod_key),
     entry 0xC300060F 2 (Some Smc_secure_exp_mod),
     entry 0xC3000610 4 (Some Smc_unwrap_rsa_oaep_wrapped_titlekey),
     entry 0xC3000011 4 (Some Smc_load_titlekey),
     entry 0xC3000012 4 (Some Smc_unwrap_aes_wrapped_titlekey)]"

definition g_smc_priv_table_init :: "smc_table_entry list" where
  "g_smc_priv_table_init =
    [entry 0 4 None,
     entry 0xC4000001 4 (Some Smc_cpu_suspend),
     entry 0x84000002 4 (Some Smc_cpu_off),
     entry 0xC4000003 1 (Some Smc_cpu_on),
     entry 0xC3000004 1 (Some Smc_get_config_priv),
     entry 0xC3000005 1 (Some Smc_get_random_bytes_for_priv),
     entry 0xC3000006 1 (Some Smc_panic),
     entry 0xC3000007 1 (Some Smc_configure_carveout),
     entry 0xC3000008 1 (Some Smc_read_write_register)]"

definition g_smc_ams_table_init :: "smc_table_entry list" where
  "g_smc_ams_table_init =
    [entry 0 4 None,
     entry 0xF0000201 0 (Some Smc_ams_iram_copy),
     entry 0xF0000002 0 (Some Smc_read_write_register),
     entry 0xF0000003 0 (Some Smc_ams_write_address),
     entry 0xF0000404 0 (Some Smc_ams_get_emummc_config)]"

definition set_handler :: "nat \<Rightarrow> smc_fn option \<Rightarrow> smc_table_entry list \<Rightarrow> smc_table_entry list" where
  "set_handler i h t = t[i := (t ! i)\<lparr>entry_handler := h\<rparr>]"

definition set_version_specific_smcs :: "secmon \<Rightarrow> secmon res" where
  "set_version_specific_smcs s =
     bindR (mon_fw s) (\<lambda>fw.
     if fw = FW_100
     then Ok (s\<lparr>g_smc_priv_table := set_handler 8 None (set_handler 7 None (g_smc_priv_table s)),
                g_smc_user_table := set_handler 0x12 None (g_smc_user_table s)\<rparr>)
     else if fw \<in> {FW_200, FW_300, FW_400} then Ok s
     else if fw \<in> {FW_500, FW_600, FW_620, FW_700, FW_800, FW_810, FW_900}
     then let t = set_handler 0xE None (g_smc_user_table s);
              t = t[0xC := (t ! 0xC)\<lparr>smc_id := 0xC300D60C\<rparr>];
              t = set_handler 0xC (Some Smc_encrypt_rsa_key_for_import) t;
              t = set_handler 0xD (Some Smc_decrypt_or_import_rsa_key) t
          in Ok (s\<lparr>g_smc_user_table := t\<rparr>)
     else panic_predefined 0xA)"

definition get_smc_core012_stack_address :: u64 where
  "get_smc_core012_stack_address = TZRAM_GET_SEGMENT_ADDRESS 3 + 0x1000"

definition get_exception_entry_stack_address :: "nat \<Rightarrow> u64" where
  "get_exception_entry_stack_address core_id =
     (if core_id = 3 then TZRAM_GET_SEGMENT_ADDRESS 4 + 0x1000
      else TZRAM_GET_SEGMENT_ADDRESS 5 + 0x80 * (of_nat core_id + 1))"

section \<open>Locks and callbacks\<close>

definition try_set_user_smc_in_progress :: "secmon \<Rightarrow> bool \<times> secmon" where
  "try_set_user_smc_in_progress s = (\<not> g_is_user_smc_in_progress s, s\<lparr>g_is_user_smc_in_progress := True\<rparr>)"

definition set_user_smc_in_progress :: "secmon \<Rightarrow> secmon res" where
  "set_user_smc_in_progress s = bindR (lock_acquire (g_is_user_smc_in_progress s)) (\<lambda>l. Ok (s\<lparr>g_is_user_smc_in_progress := l\<rparr>))"

definition clear_user_smc_in_progress :: "secmon \<Rightarrow> secmon" where
  "clear_user_smc_in_progress s = s\<lparr>g_is_user_smc_in_progress := False\<rparr>"

definition set_priv_smc_in_progress :: "secmon \<Rightarrow> secmon res" where
  "set_priv_smc_in_progress s = bindR (lock_acquire (g_is_priv_smc_in_progress s)) (\<lambda>l. Ok (s\<lparr>g_is_priv_smc_in_progress := l\<rparr>))"

definition try_set_smc_callback :: "senv \<Rightarrow> smc_callback \<Rightarrow> secmon \<Rightarrow> (u64 \<times> secmon) res" where
  "try_set_smc_callback e callback s =
     (if g_smc_callback_key s \<noteq> 0 then Ok (0, s)
      else bindR (with_se (se_generate_random (env_eng (e_user e)) KEYSLOT_SWITCH_RNGKEY (env_stack (e_user e) 8) 8) (s_mon s))
             (\<lambda>(bs, m). let key = le_word bs
                        in Ok (key, s\<lparr>s_mon := m, g_smc_callback_key := key, g_smc_callback := Some callback\<rparr>)))"

definition clear_smc_callback :: "u64 \<Rightarrow> secmon \<Rightarrow> secmon" where
  "clear_smc_callback key s = (if g_smc_callback_key s = key then s\<lparr>g_smc_callback_key := 0\<rparr> else s)"

type_synonym smc_code = "smc_args \<Rightarrow> secmon \<Rightarrow> outcome res"

definition smc_wrapper_sync :: "smc_code \<Rightarrow> smc_code" where
  "smc_wrapper_sync handler args s =
     (case try_set_user_smc_in_progress s of (ok, s) \<Rightarrow>
      if \<not> ok then Ok (Returned 3 args s)
      else bindR (handler args s) (\<lambda>r. case r of
             Returned result args s \<Rightarrow> Ok (Returned result args (clear_user_smc_in_progress s))
           | Off s \<Rightarrow> Ok (Off s)))"

definition smc_wrapper_async :: "senv \<Rightarrow> smc_code \<Rightarrow> smc_callback \<Rightarrow> smc_code" where
  "smc_wrapper_async e handler callback args s =
     (case try_set_user_smc_in_progress s of (ok, s) \<Rightarrow>
      if \<not> ok then Ok (Returned 3 args s)
      else bindR (try_set_smc_callback e callback s) (\<lambda>(key, s).
        if key \<noteq> 0
        then bindR (handler args s) (\<lambda>r. case r of
               Returned result args s \<Rightarrow>
                 if result = 0 then Ok (Returned 0 (args[1 := key]) s)
                 else Ok (Returned result args (clear_user_smc_in_progress (clear_smc_callback key s)))
             | Off s \<Rightarrow> Ok (Off s))
        else Ok (Returned 3 args (clear_user_smc_in_progress s))))"

text \<open>A handler of \<^verbatim>\<open>smc_user.c\<close> and of \<^verbatim>\<open>smc_ams.c\<close> on the whole state.\<close>

definition run_user :: "senv \<Rightarrow> (env \<Rightarrow> handler) \<Rightarrow> smc_code" where
  "run_user e h args s = bindR (h (e_user e) args (s_mon s)) (\<lambda>(r, args, m). Ok (Returned r args (s\<lparr>s_mon := m\<rparr>)))"

definition run_ams :: "(smc_args \<Rightarrow> ams_state \<Rightarrow> (u32 \<times> smc_args \<times> ams_state) res) \<Rightarrow> smc_code" where
  "run_ams h args s =
     bindR (h args \<lparr>g_ams_userpage_mapped = s_ams_userpage_mapped s, g_ams_iram_page_mapped = s_ams_iram_page_mapped s,
                     ams_mem = m_upage (s_mon s)\<rparr>) (\<lambda>(r, args, a).
     Ok (Returned r args (s\<lparr>s_ams_userpage_mapped := g_ams_userpage_mapped a, s_ams_iram_page_mapped := g_ams_iram_page_mapped a,
                            s_mon := (s_mon s)\<lparr>m_upage := ams_mem a\<rparr>\<rparr>)))"

section \<open>Status and result of asynchronous calls\<close>

definition smc_exp_mod_get_result :: "bytes \<Rightarrow> u64 \<Rightarrow> secmon \<Rightarrow> (u32 \<times> bytes \<times> secmon) res" where
  "smc_exp_mod_get_result buf sz s =
     (if \<not> get_exp_mod_done (s_mon s) then Ok (3, buf, s)
      else if sz \<noteq> 0x100 then Ok (2, buf, s)
      else let buf = se_get_exp_mod_output buf 0x100 (m_se (s_mon s))
           in Ok (0, buf, clear_user_smc_in_progress s))"

definition smc_crypt_aes_status_check :: "bytes \<Rightarrow> u64 \<Rightarrow> secmon \<Rightarrow> (u32 \<times> bytes \<times> secmon) res" where
  "smc_crypt_aes_status_check buf sz s =
     (if \<not> get_crypt_aes_done (s_mon s) then Ok (3, buf, s) else Ok (0, buf, clear_user_smc_in_progress s))"

definition smc_unwrap_rsa_oaep_wrapped_titlekey_get_result ::
  "senv \<Rightarrow> bytes \<Rightarrow> u64 \<Rightarrow> secmon \<Rightarrow> (u32 \<times> bytes \<times> secmon) res"
where
  "smc_unwrap_rsa_oaep_wrapped_titlekey_get_result e buf sz s =
     (let eng = env_eng (e_user e); stack = env_stack (e_user e); m = s_mon s in
      if \<not> get_exp_mod_done m then Ok (3, buf, s)
      else if sz \<noteq> 0x10 then Ok (2, buf, s)
      else
        let rsa_wrapped_titlekey = se_get_exp_mod_output (stack 0x100) 0x100 (m_se m) in
        bindR (tkey_rsa_oaep_unwrap eng (stack 0x10) 0x10 rsa_wrapped_titlekey 0x100 (m_tkey m) (m_se m)) (\<lambda>(n, aes_wrapped_titlekey, se).
        if n \<noteq> 0x10 then Ok (2, buf, clear_user_smc_in_progress (s\<lparr>s_mon := m\<lparr>m_se := se\<rparr>\<rparr>))
        else
          bindR (tkey_aes_unwrap eng (stack 0x10) 0x10 aes_wrapped_titlekey 0x10 (m_tkey m) (m_mkey m) se) (\<lambda>(titlekey, se).
          bindR (seal_titlekey eng (stack 0x10) 0x10 titlekey 0x10 se) (\<lambda>(sealed_titlekey, se).
          Ok (0, blit buf 0 sealed_titlekey, clear_user_smc_in_progress (s\<lparr>s_mon := m\<lparr>m_se := se\<rparr>\<rparr>))))))"

fun run_smc_callback :: "senv \<Rightarrow> smc_callback option \<Rightarrow> bytes \<Rightarrow> u64 \<Rightarrow> secmon \<Rightarrow> (u32 \<times> bytes \<times> secmon) res" where
  "run_smc_callback e None buf sz s = Undef"
| "run_smc_callback e (Some Smc_exp_mod_get_result) buf sz s = smc_exp_mod_get_result buf sz s"
| "run_smc_callback e (Some Smc_crypt_aes_status_check) buf sz s = smc_crypt_aes_status_check buf sz s"
| "run_smc_callback e (Some Smc_unwrap_rsa_oaep_wrapped_titlekey_get_result) buf sz s =
     smc_unwrap_rsa_oaep_wrapped_titlekey_get_result e buf sz s"

definition smc_check_status :: "senv \<Rightarrow> smc_code" where
  "smc_check_status e args s =
     (if g_smc_callback_key s = 0 then Ok (Returned 4 args s)
      else if args ! 1 \<noteq> g_smc_callback_key s then Ok (Returned 5 args s)
      else bindR (run_smc_callback e (g_smc_callback s) [] 0 s) (\<lambda>(r, _, s).
           Ok (Returned 0 (args[1 := ucast r]) (s\<lparr>g_smc_callback_key := 0\<rparr>))))"

definition smc_get_result :: "senv \<Rightarrow> smc_code" where
  "smc_get_result e args s =
     (let user_address = args ! 2 in
      if g_smc_callback_key s = 0 then Ok (Returned 4 args s)
      else if args ! 1 \<noteq> g_smc_callback_key s then Ok (Returned 5 args s)
      else if args ! 3 > 0x400 then Ok (Returned 2 args s)
      else
        bindR (run_smc_callback e (g_smc_callback s) (env_stack (e_user e) 0x400) (args ! 3) s) (\<lambda>(r, result_buf, s).
        let args = args[1 := ucast r];
            s = s\<lparr>g_smc_callback_key := 0\<rparr>
        in bindR (upage_init user_address (m_upage (s_mon s))) (\<lambda>(ok, page_ref, u).
           let s = s\<lparr>s_mon := (s_mon s)\<lparr>m_upage := u\<rparr>\<rparr> in
           if \<not> ok then Ok (Returned 2 args s)
           else bindR (secure_copy_to_user page_ref user_address result_buf (unat (args ! 3)) u) (\<lambda>(ok, u).
                let s = s\<lparr>s_mon := (s_mon s)\<lparr>m_upage := u\<rparr>\<rparr>
                in if \<not> ok then Ok (Returned 2 args s) else Ok (Returned 0 args s)))))"

section \<open>Configuration\<close>

definition smc_set_config_user :: smc_code where
  "smc_set_config_user args s =
     bindR (configitem_set False (ucast (args ! 1)) (args ! 3) (m_configitem (s_mon s))) (\<lambda>(r, ci).
     Ok (Returned r args (s\<lparr>s_mon := (s_mon s)\<lparr>m_configitem := ci\<rparr>\<rparr>)))"

text \<open>The item is stored to a local of one word; more words overrun it.\<close>

definition smc_get_config :: "senv \<Rightarrow> bool \<Rightarrow> smc_code" where
  "smc_get_config e privileged args s =
     (let m = s_mon s in
      bindR (configitem_get (m_cfg m) (env_version_hash (e_user e)) (mkey_get_revision (m_mkey m)) (env_fuse_hw (e_user e))
               (m_bootconfig m) (m_configitem m) privileged (ucast (args ! 1)) (m_fuse m)) (\<lambda>(r, out, f).
      if length out > 1 then Undef
      else let out_item = (case out of [] \<Rightarrow> 0 | w # _ \<Rightarrow> w)
           in Ok (Returned r (args[1 := out_item]) (s\<lparr>s_mon := m\<lparr>m_fuse := f\<rparr>\<rparr>))))"

definition smc_get_config_user :: "senv \<Rightarrow> smc_code" where
  "smc_get_config_user e args s = smc_get_config e False args s"

definition smc_get_config_priv :: "senv \<Rightarrow> smc_code" where
  "smc_get_config_priv e args s = smc_get_config e True args s"

section \<open>Privileged calls\<close>

definition smc_cpu_on :: "senv \<Rightarrow> smc_code" where
  "smc_cpu_on e args s =
     bindR (cpu_on (m_cfg (s_mon s)) (e_dev e) (ucast (args ! 1)) (args ! 2) (args ! 3) (s_cpu s) (s_io s)) (\<lambda>(r, c, tr).
     Ok (Returned r args (s\<lparr>s_cpu := c, s_io := tr\<rparr>)))"

text \<open>\<^verbatim>\<open>cpu_off\<close> of \<^verbatim>\<open>cpu_context.c\<close>, which ends in the powered-down core.\<close>

definition cpu_off :: "senv \<Rightarrow> secmon \<Rightarrow> outcome res" where
  "cpu_off e s =
     (let current_core = e_core e;
          s = (if current_core = 3 then s else clear_priv_smc_in_progress s);
          (c, tr) = power_down_current_core (e_regs e) current_core (s_cpu s) (s_io s)
      in Ok (Off (s\<lparr>s_cpu := c, s_io := tr\<rparr>)))"

definition smc_cpu_off :: "senv \<Rightarrow> smc_code" where
  "smc_cpu_off e args s = cpu_off e s"

definition cpu_suspend_wrapper :: "senv \<Rightarrow> smc_code" where
  "cpu_suspend_wrapper e args s = cpu_suspend e (args ! 1) (args ! 2) (args ! 3) args s"

definition smc_get_random_bytes_for_priv :: "senv \<Rightarrow> smc_code" where
  "smc_get_random_bytes_for_priv e args s =
     (case try_set_user_smc_in_progress s of (ok, s) \<Rightarrow>
      if \<not> ok
      then if args ! 1 > 0x38 then Ok (Returned 2 args s)
           else let num_bytes = unat (args ! 1)
                in bindR (randomcache_getbytes num_bytes (m_rcache (s_mon s))) (\<lambda>(bs, rc).
                   Ok (Returned 0 (args_write_bytes bs args) (s\<lparr>s_mon := (s_mon s)\<lparr>m_rcache := rc\<rparr>\<rparr>)))
      else bindR (user_get_random_bytes (e_user e) args (s_mon s)) (\<lambda>(r, args, m).
           bindR (randomcache_refill (env_eng (e_user e)) (m_rcache m) (m_se m)) (\<lambda>(rc, se).
           Ok (Returned r args (clear_user_smc_in_progress (s\<lparr>s_mon := m\<lparr>m_rcache := rc, m_se := se\<rparr>\<rparr>))))))"

definition pmc_whitelist :: "u8 list" where
  "pmc_whitelist =
    [0xB9, 0xF9, 0x07, 0x00, 0x00, 0x00, 0x80, 0x03,
     0x00, 0x00, 0x00, 0x17, 0x00, 0xC4, 0x07, 0x00,
     0x00, 0x00, 0x00, 0x00, 0x00, 0x20, 0x20, 0x00,
     0x00, 0x00, 0x00, 0x00, 0x00, 0x00, 0x00, 0x00,
     0x00, 0x00, 0x01, 0x00, 0x00, 0x00, 0x40, 0x00]"

definition mc_whitelist :: "u8 list" where
  "mc_whitelist =
    [0x9F, 0x31, 0x30, 0x00, 0xF0, 0xFF, 0xF7, 0x01,
     0xCD, 0xFE, 0xC0, 0xFE, 0x00, 0x00, 0x00, 0x00,
     0x03, 0x40, 0x73, 0x3E, 0x2F, 0x00, 0x00, 0x6E,
     0x30, 0x05, 0x06, 0xB0, 0x71, 0xC8, 0x43, 0x04,
     0x80, 0x1F, 0x08, 0x80, 0x03, 0x00, 0x0E, 0x00,
     0x08, 0x00, 0xE0, 0x00, 0x0E, 0x00, 0x00, 0x00,
     0x00, 0x00, 0x00, 0x30, 0xF0, 0x03, 0x03, 0x30,
     0x00, 0x00, 0x00, 0x00, 0x00, 0x00, 0x00, 0x00,
     0x00, 0x00, 0x00, 0x00, 0x00, 0x00, 0x00, 0x00,
     0x00, 0x00, 0x00, 0x31, 0x00, 0x40, 0x00, 0x00,
     0x00, 0x03, 0x00, 0x00, 0xE4, 0xFF, 0xFF, 0x01,
     0x00, 0x00, 0x00, 0x00, 0x0C, 0x00, 0xFE, 0x0F,
     0x01, 0x00, 0x80, 0x00, 0x00, 0x08, 0x00, 0x00]"

definition whitelisted :: "u8 list \<Rightarrow> u32 \<Rightarrow> bool" where
  "whitelisted wl offset =
     (let wl_ind = drop_bit 5 offset
      in unat wl_ind < length wl \<and> wl ! unat wl_ind AND push_bit (unat (drop_bit 2 offset AND 7)) 1 \<noteq> 0)"

text \<open>The register that a request names, or the result code it is refused with.\<close>

definition rw_register :: "u32 \<Rightarrow> u64 \<Rightarrow> u32 + u64" where
  "rw_register fw address =
     (if address AND 3 \<noteq> 0 then Inl 2
      else if 0x7000E400 \<le> address \<and> address \<le> 0x7000EFFF
      then let offset = ucast (address - 0x7000E400) :: u32
           in if whitelisted pmc_whitelist offset then Inr (PMC_BASE + ucast offset) else Inl 2
      else if fw \<ge> FW_400 \<and> 0x70019000 \<le> address \<and> address < 0x70019000 + 0x1000
      then let offset = ucast (address - 0x70019000) :: u32
           in if whitelisted mc_whitelist offset then Inr (MMIO_GET_DEVICE_ADDRESS MMIO_DEVID_MC + ucast offset)
              else if address = 0x7001923C \<or> address = 0x70019298 then Inl 0
              else Inl 2
      else Inl 2)"

definition smc_read_write_register :: "senv \<Rightarrow> smc_code" where
  "smc_read_write_register e args s =
     (let address = args ! 1; m = ucast (args ! 2) :: u32; value = ucast (args ! 3) :: u32 in
      bindR (mon_fw s) (\<lambda>fw.
      case rw_register fw address of
        Inl r \<Rightarrow> Ok (Returned r args s)
      | Inr p_mmio \<Rightarrow>
          let (old_value, s) = (if m = 0xFFFFFFFF then (0, s) else read_io e p_mmio s);
              s = (if m \<noteq> 0 then upd_io (io_write p_mmio ((old_value AND NOT m) OR (value AND m))) s else s)
          in Ok (Returned 0 (args[1 := ucast old_value]) s)))"

definition smc_configure_carveout :: smc_code where
  "smc_configure_carveout args s =
     (let carveout_id = ucast (args ! 1) :: u32; address = args ! 2; sz = args ! 3 in
      if sz > KERNEL_CARVEOUT_SIZE_MAX then Ok (Returned 2 args s)
      else if carveout_id > 1 then Ok (Returned 2 args s)
      else bindR (mon_fw s) (\<lambda>fw.
           if fw < FW_300 \<and> g_configured_carveouts s ! unat carveout_id then Ok (Returned 2 args s)
           else bindR (configure_kernel_carveout (m_cfg (s_mon s)) (carveout_id + 4) address sz (s_mc s)) (\<lambda>mc.
                Ok (Returned 0 args (s\<lparr>s_mc := mc, g_configured_carveouts := (g_configured_carveouts s)[unat carveout_id := True]\<rparr>)))))"

definition smc_panic :: smc_code where
  "smc_panic args s =
     (let x = args ! 1;
          color = ucast (push_bit 8 (x AND 0xF) OR (x AND 0xF0) OR drop_bit 8 (x AND 0xF00)) :: u32
      in Panic (push_bit 20 color OR 0x40))"

section \<open>Dispatch\<close>

text \<open>The functions that only put a handler behind the lock.\<close>

definition smc_exp_mod :: "senv \<Rightarrow> smc_code" where
  "smc_exp_mod e = smc_wrapper_async e (run_user e user_exp_mod) Smc_exp_mod_get_result"

definition smc_crypt_aes :: "senv \<Rightarrow> smc_code" where
  "smc_crypt_aes e = smc_wrapper_async e (run_user e user_crypt_aes) Smc_crypt_aes_status_check"

definition smc_secure_exp_mod :: "senv \<Rightarrow> smc_code" where
  "smc_secure_exp_mod e = smc_wrapper_async e (run_user e user_secure_exp_mod) Smc_exp_mod_get_result"

definition smc_unwrap_rsa_oaep_wrapped_titlekey :: "senv \<Rightarrow> smc_code" where
  "smc_unwrap_rsa_oaep_wrapped_titlekey e = smc_wrapper_async e (run_user e user_unwrap_rsa_oaep_wrapped_titlekey) Smc_unwrap_rsa_oaep_wrapped_titlekey_get_result"

definition smc_generate_aes_kek :: "senv \<Rightarrow> smc_code" where
  "smc_generate_aes_kek e = smc_wrapper_sync (run_user e user_generate_aes_kek)"

definition smc_get_random_bytes_for_user :: "senv \<Rightarrow> smc_code" where
  "smc_get_random_bytes_for_user e = smc_wrapper_sync (run_user e user_get_random_bytes)"

definition smc_load_aes_key :: "senv \<Rightarrow> smc_code" where
  "smc_load_aes_key e = smc_wrapper_sync (run_user e user_load_aes_key)"

definition smc_generate_specific_aes_key :: "senv \<Rightarrow> smc_code" where
  "smc_generate_specific_aes_key e = smc_wrapper_sync (run_user e user_generate_specific_aes_key)"

definition smc_compute_cmac :: "senv \<Rightarrow> smc_code" where
  "smc_compute_cmac e = smc_wrapper_sync (run_user e user_compute_cmac)"

definition smc_load_rsa_oaep_key :: "senv \<Rightarrow> smc_code" where
  "smc_load_rsa_oaep_key e = smc_wrapper_sync (run_user e user_load_rsa_oaep_key)"

definition smc_decrypt_rsa_private_key :: "senv \<Rightarrow> smc_code" where
  "smc_decrypt_rsa_private_key e = smc_wrapper_sync (run_user e user_decrypt_rsa_private_key)"

definition smc_load_secure_exp_mod_key :: "senv \<Rightarrow> smc_code" where
  "smc_load_secure_exp_mod_key e = smc_wrapper_sync (run_user e user_load_secure_exp_mod_key)"

definition smc_load_titlekey :: "senv \<Rightarrow> smc_code" where
  "smc_load_titlekey e = smc_wrapper_sync (run_user e user_load_titlekey)"

definition smc_unwrap_aes_wrapped_titlekey :: "senv \<Rightarrow> smc_code" where
  "smc_unwrap_aes_wrapped_titlekey e = smc_wrapper_sync (run_user e user_unwrap_aes_wrapped_titlekey)"

definition smc_encrypt_rsa_key_for_import :: "senv \<Rightarrow> smc_code" where
  "smc_encrypt_rsa_key_for_import e = smc_wrapper_sync (run_user e user_encrypt_rsa_key_for_import)"

definition smc_decrypt_or_import_rsa_key :: "senv \<Rightarrow> smc_code" where
  "smc_decrypt_or_import_rsa_key e = smc_wrapper_sync (run_user e user_decrypt_or_import_rsa_key)"

definition smc_cpu_suspend :: "senv \<Rightarrow> smc_code" where
  "smc_cpu_suspend e = smc_wrapper_sync (cpu_suspend_wrapper e)"

definition smc_ams_iram_copy :: smc_code where
  "smc_ams_iram_copy = smc_wrapper_sync (run_ams ams_iram_copy)"

definition smc_ams_write_address :: "senv \<Rightarrow> smc_code" where
  "smc_ams_write_address e = smc_wrapper_sync (run_ams (ams_write_address (e_par e)))"

definition smc_ams_get_emummc_config :: smc_code where
  "smc_ams_get_emummc_config = smc_wrapper_sync (\<lambda>args s. run_ams (ams_get_emummc_config (m_cfg (s_mon s))) args s)"

lemmas smc_wrapped [simp] =
  smc_exp_mod_def smc_crypt_aes_def smc_secure_exp_mod_def smc_unwrap_rsa_oaep_wrapped_titlekey_def
  smc_generate_aes_kek_def smc_get_random_bytes_for_user_def smc_load_aes_key_def smc_generate_specific_aes_key_def
  smc_compute_cmac_def smc_load_rsa_oaep_key_def smc_decrypt_rsa_private_key_def smc_load_secure_exp_mod_key_def
  smc_load_titlekey_def smc_unwrap_aes_wrapped_titlekey_def smc_encrypt_rsa_key_for_import_def
  smc_decrypt_or_import_rsa_key_def smc_cpu_suspend_def smc_ams_iram_copy_def smc_ams_write_address_def
  smc_ams_get_emummc_config_def

text \<open>The function behind each pointer of the tables.\<close>

fun smc_code_of :: "senv \<Rightarrow> smc_fn \<Rightarrow> smc_code" where
  "smc_code_of e Smc_set_config_user = smc_set_config_user"
| "smc_code_of e Smc_get_config_user = smc_get_config_user e"
| "smc_code_of e Smc_check_status = smc_check_status e"
| "smc_code_of e Smc_get_result = smc_get_result e"
| "smc_code_of e Smc_exp_mod = smc_exp_mod e"
| "smc_code_of e Smc_get_random_bytes_for_user = smc_get_random_bytes_for_user e"
| "smc_code_of e Smc_generate_aes_kek = smc_generate_aes_kek e"
| "smc_code_of e Smc_load_aes_key = smc_load_aes_key e"
| "smc_code_of e Smc_crypt_aes = smc_crypt_aes e"
| "smc_code_of e Smc_generate_specific_aes_key = smc_generate_specific_aes_key e"
| "smc_code_of e Smc_compute_cmac = smc_compute_cmac e"
| "smc_code_of e Smc_load_rsa_oaep_key = smc_load_rsa_oaep_key e"
| "smc_code_of e Smc_decrypt_rsa_private_key = smc_decrypt_rsa_private_key e"
| "smc_code_of e Smc_load_secure_exp_mod_key = smc_load_secure_exp_mod_key e"
| "smc_code_of e Smc_secure_exp_mod = smc_secure_exp_mod e"
| "smc_code_of e Smc_unwrap_rsa_oaep_wrapped_titlekey = smc_unwrap_rsa_oaep_wrapped_titlekey e"
| "smc_code_of e Smc_load_titlekey = smc_load_titlekey e"
| "smc_code_of e Smc_unwrap_aes_wrapped_titlekey = smc_unwrap_aes_wrapped_titlekey e"
| "smc_code_of e Smc_encrypt_rsa_key_for_import = smc_encrypt_rsa_key_for_import e"
| "smc_code_of e Smc_decrypt_or_import_rsa_key = smc_decrypt_or_import_rsa_key e"
| "smc_code_of e Smc_cpu_suspend = smc_cpu_suspend e"
| "smc_code_of e Smc_cpu_off = smc_cpu_off e"
| "smc_code_of e Smc_cpu_on = smc_cpu_on e"
| "smc_code_of e Smc_get_config_priv = smc_get_config_priv e"
| "smc_code_of e Smc_get_random_bytes_for_priv = smc_get_random_bytes_for_priv e"
| "smc_code_of e Smc_panic = smc_panic"
| "smc_code_of e Smc_configure_carveout = smc_configure_carveout"
| "smc_code_of e Smc_read_write_register = smc_read_write_register e"
| "smc_code_of e Smc_ams_iram_copy = smc_ams_iram_copy"
| "smc_code_of e Smc_ams_write_address = smc_ams_write_address e"
| "smc_code_of e Smc_ams_get_emummc_config = smc_ams_get_emummc_config"

abbreviation (input) SMC_HANDLER_USER :: nat where "SMC_HANDLER_USER \<equiv> 0"
abbreviation (input) SMC_HANDLER_PRIV :: nat where "SMC_HANDLER_PRIV \<equiv> 1"
abbreviation (input) SMC_HANDLER_COUNT :: nat where "SMC_HANDLER_COUNT \<equiv> 2"
abbreviation (input) SMC_HANDLER_AMS :: nat where "SMC_HANDLER_AMS \<equiv> 2"

definition g_smc_tables :: "nat \<Rightarrow> secmon \<Rightarrow> smc_table_entry list" where
  "g_smc_tables handler_id s =
     (if handler_id = SMC_HANDLER_USER then g_smc_user_table s
      else if handler_id = SMC_HANDLER_PRIV then g_smc_priv_table s
      else g_smc_ams_table s)"

text \<open>The table a call goes to, or the panic of a user call from another core than 3.\<close>

definition smc_route :: "senv \<Rightarrow> nat \<Rightarrow> smc_args \<Rightarrow> nat res" where
  "smc_route e handler_id args =
     (if handler_id = SMC_HANDLER_USER
      then if drop_bit 24 (args ! 0) AND 0x3F = 0x30 then Ok SMC_HANDLER_AMS
           else if e_core e \<noteq> 3 then generic_panic
           else Ok handler_id
      else Ok handler_id)"

definition finish_call :: "outcome \<Rightarrow> outcome" where
  "finish_call r = (case r of Returned v args s \<Rightarrow> Returned v (args[0 := ucast v]) s | Off s \<Rightarrow> Off s)"

definition call_smc_handler :: "senv \<Rightarrow> nat \<Rightarrow> smc_code" where
  "call_smc_handler e handler_id args s =
     bindR (panic_if (handler_id \<ge> SMC_HANDLER_COUNT)) (\<lambda>_.
     bindR (smc_route e handler_id args) (\<lambda>handler_id.
     let t = g_smc_tables handler_id s;
         idx = unat (args ! 0 AND 0xFF)
     in if idx \<ge> length t then generic_panic
        else if ucast (smc_id (t ! idx)) \<noteq> args ! 0 then generic_panic
        else case entry_handler (t ! idx) of
               None \<Rightarrow> generic_panic
             | Some h \<Rightarrow>
                 bindR (mon_fw s) (\<lambda>fw.
                 if fw < FW_800 \<or> blacklist_mask (t ! idx) AND g_smc_blacklist_mask s = 0
                 then bindR (smc_code_of e h args s) (\<lambda>r. Ok (finish_call r))
                 else Ok (finish_call (Returned 6 args s)))))"

end
