(* ===== verification/SMC_Contract.thy ===== *)
theory SMC_Contract
  imports SMC_User
begin

text \<open>
  What every user SMC promises to the rest of the monitor, whatever its arguments: it does
  not hang and does not leave its buffers, it keeps the monitor's invariant, and the only
  AES key slots it changes are the ones user calls may load and the scratch slot, so that
  the session, master and device keys stay what they were.

  The contract is a locale over the handler; each handler is an interpretation.
\<close>

section \<open>Safe results\<close>

text \<open>A panic is a deliberate stop; hanging and undefined behaviour are not safe.\<close>

fun safe :: "('a \<Rightarrow> bool) \<Rightarrow> 'a res \<Rightarrow> bool" where
  "safe Q (Ok x) = Q x"
| "safe Q (Panic c) = True"
| "safe Q Hang = False"
| "safe Q Undef = False"

lemma safe_bindI: "safe R r \<Longrightarrow> (\<And>x. R x \<Longrightarrow> safe Q (f x)) \<Longrightarrow> safe Q (bindR r f)"
  by (cases r) auto

lemma safe_generic_panic [simp]: "safe Q generic_panic"
  by (simp add: generic_panic_def)

lemma safe_panic_if [simp]: "safe Q (panic_if b) \<longleftrightarrow> (b \<or> Q ())"
  by (simp add: panic_if_def)

lemma safe_mono: "safe R r \<Longrightarrow> (\<And>x. R x \<Longrightarrow> Q x) \<Longrightarrow> safe Q r"
  by (cases r) auto

lemma safe_OkI: "r = Ok x \<Longrightarrow> Q x \<Longrightarrow> safe Q r"
  by simp

lemma safe_OkD: "safe Q r \<Longrightarrow> r = Ok x \<Longrightarrow> Q x"
  by simp

section \<open>What the operations of the driver keep\<close>

text \<open>\<open>se_frame W\<close>: outside the slots \<open>W\<close> the keys are as before, and the registers keep their shape.\<close>

definition se_frame :: "u32 set \<Rightarrow> se_state \<Rightarrow> se_state \<Rightarrow> bool" where
  "se_frame W se se' \<longleftrightarrow> (\<forall>ks. ks \<notin> W \<longrightarrow> aes_key se' ks = aes_key se ks)
     \<and> length (CRYPTO_CTR_REG se') = length (CRYPTO_CTR_REG se)
     \<and> length (g_se_modulus_sizes se') = length (g_se_modulus_sizes se)
     \<and> length (g_se_exp_sizes se') = length (g_se_exp_sizes se)"

lemma se_frame_refl [simp]: "se_frame W se se"
  by (simp add: se_frame_def)

lemma se_frame_trans: "se_frame W a b \<Longrightarrow> se_frame W b c \<Longrightarrow> se_frame W a c"
  by (simp add: se_frame_def)

lemma se_frame_keep:
  "se_keep se se' \<Longrightarrow> (\<And>ks. ks \<notin> W \<Longrightarrow> aes_key se' ks = aes_key se ks) \<Longrightarrow> se_frame W se se'"
  unfolding se_frame_def using se_keep_ctr_length [of se se'] se_keepD(3,4) [of se se'] by metis

lemma se_frame_core: "se_core se' = se_core se \<Longrightarrow> se_frame W se se'"
  using se_frame_keep [OF se_keep_core] aes_key_core_eq [of se' se] by metis

text \<open>Extending a frame by one operation.\<close>

lemma se_frame_step:
  "safe (se_frame V se) r \<Longrightarrow> se_frame W s0 se \<Longrightarrow> V \<subseteq> W \<Longrightarrow> safe (se_frame W s0) r"
  by (cases r) (auto simp: se_frame_def)

lemma se_frame_step2:
  "safe (\<lambda>(x, se'). Q x \<and> se_frame V se se') r \<Longrightarrow> se_frame W s0 se \<Longrightarrow> V \<subseteq> W
   \<Longrightarrow> safe (\<lambda>(x, se'). Q x \<and> se_frame W s0 se') r"
  by (cases r) (auto simp: se_frame_def)

text \<open>The same for sequences: an operation that keeps a frame, then the rest.\<close>

lemma safe_bind_frame:
  "safe (se_frame V s1) r \<Longrightarrow> se_frame W s0 s1 \<Longrightarrow> V \<subseteq> W \<Longrightarrow>
   (\<And>s. se_frame W s0 s \<Longrightarrow> safe Q (f s)) \<Longrightarrow> safe Q (bindR r f)"
  by (rule safe_bindI, rule se_frame_step)

lemma safe_bind_frame2:
  "safe (\<lambda>(x, s'). G x \<and> se_frame V s1 s') r \<Longrightarrow> se_frame W s0 s1 \<Longrightarrow> V \<subseteq> W \<Longrightarrow>
   (\<And>x s. G x \<Longrightarrow> se_frame W s0 s \<Longrightarrow> safe Q (f (x, s))) \<Longrightarrow> safe Q (bindR r f)"
  by (rule safe_bindI, rule se_frame_step2) auto

text \<open>The facts about single operations, in the form the handlers use them.\<close>

named_theorems op_safe

lemma decrypt_into_safe [op_safe]:
  assumes "se_engine_ok P eng" "ks < 16" "kd < 16" "length b = 16"
  shows "safe (\<lambda>se'. se_frame {kd} se se') (decrypt_data_into_keyslot eng kd ks b 16 se)"
  using decrypt_into_keyslot_ok [OF assms, of se] by (auto intro!: se_frame_keep split: if_splits)

lemma ecb_decrypt_safe [op_safe]:
  assumes "se_engine_ok P eng" "ks < 16" "length src = 16" "length dst = 16"
  shows "safe (\<lambda>(out, se'). length out = 16 \<and> se_frame {} se se') (se_aes_ecb_decrypt_block eng ks dst 16 src 16 se)"
  using ecb_decrypt_ok [OF assms, of se] aes_lengths(2) [OF assms(1,3)] by (auto intro: se_frame_core)

lemma unseal_key_safe [op_safe]:
  assumes "se_engine_ok P eng" "g_has_loaded_config c" "length src = 16" "ks < 16"
  shows "safe (\<lambda>se'. se_frame {9, ks} se se') (unseal_key c eng ks src 16 u se)"
proof (cases "u < usecase_limit (fw_of c)")
  case True
  then show ?thesis using unseal_key_ok [OF assms(1,2) True assms(3,4), of se] by (auto intro!: se_frame_keep split: if_splits)
next
  case False
  then show ?thesis using seal_key_rejects(2) [OF assms(2)] by simp
qed

lemma seal_key_safe [op_safe]:
  assumes "se_engine_ok P eng" "g_has_loaded_config c" "length src = 16" "length dst = 16"
  shows "safe (\<lambda>(out, se'). length out = 16 \<and> se_frame {9} se se') (seal_key c eng dst 16 src 16 u se)"
proof (cases "u < usecase_limit (fw_of c)")
  case True
  then show ?thesis
    using seal_key_ok [OF assms(1,2) True assms(3,4), of se] length_sealed_form [OF assms(1,3)]
    by (auto intro!: se_frame_keep split: if_splits)
next
  case False
  then show ?thesis using seal_key_rejects(1) [OF assms(2)] by simp
qed

lemma unseal_titlekey_safe [op_safe]:
  assumes "se_engine_ok P eng" "length src = 16" "ks < 16"
  shows "safe (\<lambda>se'. se_frame {9, ks} se se') (unseal_titlekey eng ks src 16 se)"
  using unseal_key_internal_ok [OF assms(1,2) length_titlekey_seal_source assms(3), of se]
  by (auto simp: unseal_titlekey_def intro!: se_frame_keep split: if_splits)

lemma seal_titlekey_safe [op_safe]:
  assumes "se_engine_ok P eng" "length src = 16" "length dst = 16"
  shows "safe (\<lambda>(out, se'). length out = 16 \<and> se_frame {9} se se') (seal_titlekey eng dst 16 src 16 se)"
  using seal_key_internal_ok [OF assms(1,3,2) length_titlekey_seal_source, of se] length_sealed_form [OF assms(1,2)]
  by (auto simp: seal_titlekey_def intro!: se_frame_keep split: if_splits)

lemma generate_random_safe [op_safe]:
  assumes "se_engine_ok P eng" "ks < 16" "sz \<le> length dst" "sz < 2 ^ 32"
  shows "safe (\<lambda>(out, se'). length out = length dst \<and> se_frame {} se se') (se_generate_random eng ks dst sz se)"
  using generate_random_ok [OF assms, of se] length_rand_bytes [OF assms(1)] assms(3) by (auto intro: se_frame_core)

lemma set_tempkey_safe:
  assumes "length k = 16"
  shows "safe (\<lambda>se'. se_frame {9} se se') (set_aes_keyslot 9 k 16 se)"
  using set_aes_keyslot_ok [OF _ assms, of 9 se] by (auto intro!: se_frame_keep split: if_splits)

lemma mkey_get_keyslot_safe [op_safe]:
  assumes "mkey_wf mk"
  shows "safe (\<lambda>(ks, se'). ks < 16 \<and> se_frame {9} se se') (mkey_get_keyslot rv mk se)"
proof (cases "rv < 10")
  case True
  then have "length (g_old_masterkeys mk ! unat rv) = 16"
    using mkey_wf_old_key [OF assms] by (simp add: word_less_nat_alt)
  then have "safe (\<lambda>(ks, se'). ks < 16 \<and> se_frame {9} se se')
      (bindR (set_aes_keyslot 9 (g_old_masterkeys mk ! unat rv) 0x10 se) (\<lambda>se. Ok (9 :: u32, se)))"
    using set_tempkey_safe by (intro safe_bindI [where R = "se_frame {9} se"]) auto
  then show ?thesis unfolding mkey_get_keyslot_def bindR_panic_if by (simp split: if_splits)
next
  case False
  then have "10 \<le> rv" by simp
  then show ?thesis by (simp add: mkey_get_keyslot_def bindR_panic_if)
qed

lemma devkey_get_keyslot_safe [op_safe]:
  assumes "mkey_wf mk"
  shows "safe (\<lambda>(ks, se'). ks < 16 \<and> se_frame {9} se se') (devkey_get_keyslot rv mk se)"
proof (cases "3 \<le> rv \<and> rv < g_mkey_revision mk")
  case True
  have l: "length (g_old_devicekeys mk) = 6" using assms by (simp add: mkey_wf_def)
  have "unat (g_mkey_revision mk) < 10" using assms by (simp add: mkey_wf_def word_less_nat_alt)
  moreover have "3 \<le> unat rv" "unat rv < unat (g_mkey_revision mk)"
    using True by (simp_all add: word_less_nat_alt word_le_nat_alt)
  moreover have "unat (rv - 3) = unat rv - 3" using True by (simp add: unat_sub)
  ultimately have i: "unat (rv - 3) < 6" by linarith
  then have "safe (\<lambda>(ks, se'). ks < 16 \<and> se_frame {9} se se')
      (bindR (set_aes_keyslot 9 (g_old_devicekeys mk ! unat (rv - 3)) 0x10 se) (\<lambda>se. Ok (9 :: u32, se)))"
    using set_tempkey_safe mkey_wf_old_devkey [OF assms] by (intro safe_bindI [where R = "se_frame {9} se"]) auto
  then show ?thesis unfolding devkey_get_keyslot_def bindR_panic_if Let_def using i l by (simp split: if_splits)
next
  case False
  then have "rv < 3 \<or> \<not> rv < g_mkey_revision mk" by auto
  then show ?thesis unfolding devkey_get_keyslot_def bindR_panic_if by (elim disjE) (simp_all split: if_splits)
qed

lemma tkey_aes_unwrap_safe [op_safe]:
  assumes e: "se_engine_ok P eng" and "mkey_wf mk" "g_tkey_type t \<le> 1" "length src = 16" "length dst = 16"
  shows "safe (\<lambda>(out, se'). length out = 16 \<and> se_frame {9} se se') (tkey_aes_unwrap eng dst 16 src 16 t mk se)"
proof -
  have "g_tkey_type t = 0 \<or> g_tkey_type t = 1" using assms(3) by (auto simp: word_le_nat_alt word_unat_eq_iff)
  then have src: "length (titlekek_sources ! unat (g_tkey_type t)) = 16" by (auto simp: titlekek_sources_def)
  have step: "safe (\<lambda>(out, se'). length out = 16 \<and> se_frame {9} se se')
      (bindR (decrypt_data_into_keyslot eng 9 ks (titlekek_sources ! unat (g_tkey_type t)) 16 se1)
        (se_aes_ecb_decrypt_block eng 9 dst 16 src 16))" if "ks < 16" "se_frame {9} se se1" for ks se1
  proof (rule safe_bindI)
    show "safe (se_frame {9} se) (decrypt_data_into_keyslot eng 9 ks (titlekek_sources ! unat (g_tkey_type t)) 16 se1)"
      by (rule se_frame_step [OF decrypt_into_safe [OF e that(1) _ src] that(2)]) simp_all
    show "safe (\<lambda>(out, se'). length out = 16 \<and> se_frame {9} se se') (se_aes_ecb_decrypt_block eng 9 dst 16 src 16 se2)"
      if "se_frame {9} se se2" for se2
      by (rule se_frame_step2 [OF ecb_decrypt_safe [OF e _ assms(4,5)] that]) simp_all
  qed
  have "safe (\<lambda>(out, se'). length out = 16 \<and> se_frame {9} se se')
      (bindR (mkey_get_keyslot (g_tkey_master_key_rev t) mk se) (\<lambda>(ks, se).
         bindR (decrypt_data_into_keyslot eng 9 ks (titlekek_sources ! unat (g_tkey_type t)) 16 se)
           (se_aes_ecb_decrypt_block eng 9 dst 16 src 16)))"
    by (rule safe_bindI [OF mkey_get_keyslot_safe [OF assms(2)]]) (auto intro: step)
  then show ?thesis unfolding tkey_aes_unwrap_def bindR_panic_if by simp
qed

lemma ctr_crypt_safe [op_safe]:
  assumes "se_engine_ok P eng" "ks < 16" "length (CRYPTO_CTR_REG se) = 4" "length src = 16" "length dst = 16"
  shows "safe (\<lambda>(out, se'). length out = 16 \<and> se_frame {} se se') (se_aes_ctr_crypt eng ks dst 16 src 16 ctr 16 se)"
  using ctr_crypt_ok [of P eng ks 16 src 16 dst se ctr] assms by (auto intro: se_frame_core simp: length_ctr_stream)

lemma cmac_safe [op_safe]:
  assumes e: "se_engine_ok P eng" and "ks < 16" "sz = length data" "sz < 2 ^ 32"
  shows "safe (\<lambda>(out, se'). length out = 16 \<and> se_frame {} se se') (se_compute_aes_128_cmac eng ks 16 data sz se)"
proof -
  let ?k = "cfg_key se ks 0" and ?n = "(length data + 15) div 16"
  let ?lb = "xor_bytes (cmac_last_block data) (cmac_subkey P ?k data)"
  obtain se' where d: "se_compute_aes_cmac eng ks 16 data (length data) 0 se =
     Ok (cbc_mac P ?k (cbc_mac P ?k (replicate 16 0) (?n - 1) data) 1 ?lb, se')" "se_keep se se'" "aes_key se' = aes_key se"
    using cmac_driver [OF e assms(2), of 0 data se] assms(3,4) by auto
  have l: "length ?lb = 16" by (simp add: length_cmac_last_block length_cmac_subkey [OF e])
  have "16 * (?n - 1) \<le> length data" by linarith
  then have "length (cbc_mac P ?k (replicate 16 0) (?n - 1) data) = 16"
    by (simp add: length_cbc_mac [OF e])
  then have "length (cbc_mac P ?k (cbc_mac P ?k (replicate 16 0) (?n - 1) data) 1 ?lb) = 16"
    using length_cbc_mac [OF e, of _ 1 ?lb] l by (simp only:)
  then show ?thesis
    using d assms(3) by (auto simp: se_compute_aes_128_cmac_def intro!: se_frame_keep)
qed

section \<open>RSA and the operations left running\<close>

lemma fold_rsa_keytable_write:
  "\<exists>a t. fold (\<lambda>i. rsa_keytable_write (f i) (g i)) xs se = se\<lparr>RSA_KEYTABLE_ADDR := a, rsa_keytable := t\<rparr>"
proof (induction xs arbitrary: se)
  case Nil
  have "se = se\<lparr>RSA_KEYTABLE_ADDR := RSA_KEYTABLE_ADDR se, rsa_keytable := rsa_keytable se\<rparr>" by simp
  then show ?case by (metis fold_simps(1))
next
  case (Cons x xs)
  have w: "rsa_keytable_write (f x) (g x) se = se\<lparr>RSA_KEYTABLE_ADDR := f x, rsa_keytable := (rsa_keytable se)(f x := g x)\<rparr>"
    by (simp add: rsa_keytable_write_def)
  obtain a t where "fold (\<lambda>i. rsa_keytable_write (f i) (g i)) xs (rsa_keytable_write (f x) (g x) se) =
      (rsa_keytable_write (f x) (g x) se)\<lparr>RSA_KEYTABLE_ADDR := a, rsa_keytable := t\<rparr>"
    using Cons by blast
  then have "fold (\<lambda>i. rsa_keytable_write (f i) (g i)) (x # xs) se = se\<lparr>RSA_KEYTABLE_ADDR := a, rsa_keytable := t\<rparr>"
    by (simp add: w)
  then show ?case by blast
qed

lemma set_rsa_keyslot_0:
  assumes "length (g_se_modulus_sizes se) = 2" "length (g_se_exp_sizes se) = 2" "es \<le> 0x100"
  shows "\<exists>se'. set_rsa_keyslot 0 modulus 0x100 exponent es se = Ok se' \<and> se_frame {} se se'
     \<and> g_se_modulus_sizes se' ! 0 = 0x100 \<and> g_se_exp_sizes se' ! 0 = es"
proof -
  define se1 where "se1 = fold (\<lambda>i. rsa_keytable_write (push_bit 7 0 OR 0x40 OR of_nat i)
                (read32be modulus (4 * (0x100 div 4) - 4 * i - 4))) [0..<0x100 div 4] se"
  define se2 where "se2 = fold (\<lambda>i. rsa_keytable_write (push_bit 7 0 OR of_nat i)
                (read32be exponent (4 * (es div 4) - 4 * i - 4))) [0..<es div 4] se1"
  let ?f = "se2\<lparr>g_se_modulus_sizes := (g_se_modulus_sizes se2)[0 := 0x100],
                g_se_exp_sizes := (g_se_exp_sizes se2)[0 := es]\<rparr>"
  obtain a t where 1: "se1 = se\<lparr>RSA_KEYTABLE_ADDR := a, rsa_keytable := t\<rparr>"
    unfolding se1_def using fold_rsa_keytable_write [of "\<lambda>i. push_bit 7 0 OR 0x40 OR of_nat i"] by meson
  obtain b u where 2: "se2 = se1\<lparr>RSA_KEYTABLE_ADDR := b, rsa_keytable := u\<rparr>"
    unfolding se2_def using fold_rsa_keytable_write [of "\<lambda>i. push_bit 7 0 OR of_nat i"] by meson
  have "\<not> es > 0x100" using assms(3) by simp
  then have "set_rsa_keyslot 0 modulus 0x100 exponent es se = Ok ?f"
    unfolding set_rsa_keyslot_def bindR_panic_if Let_def se2_def se1_def by simp
  moreover have "se_frame {} se ?f"
    unfolding 2 1 se_frame_def by (simp add: aes_key_def)
  moreover have "g_se_modulus_sizes ?f ! 0 = 0x100" "g_se_exp_sizes ?f ! 0 = es"
    unfolding 2 1 using assms(1,2) by simp_all
  ultimately show ?thesis by blast
qed

lemma exp_mod_safe:
  assumes e: "se_engine_ok P eng" and "g_se_modulus_sizes se ! 0 = 0x100" "g_se_exp_sizes se ! 0 = es" "es \<le> 0x100"
  shows "safe (\<lambda>se'. se_frame {} se se' \<and> g_se_callback se' = Some cb) (se_exp_mod eng 0 buf 0x100 cb se)"
proof (cases "g_se_callback se")
  case None
  define st where "st = map (\<lambda>i. buf ! (0x100 - i - 1)) [0..<0x100::nat]"
  define se1 where "se1 = se\<lparr>CONFIG_REG := 0x4010, RSA_CONFIG := push_bit 24 0,
     RSA_KEY_SIZE_REG := of_nat (0x100 div 64) - 1, RSA_EXP_SIZE_REG := of_nat (es div 4),
     g_se_callback := Some cb, INT_ENABLE_REG := 0x10\<rparr>"
  define se2 where "se2 = trigger_se_rsa_op st 0x100 se1"
  have l: "length st = 256" by (simp add: st_def)
  have f: "OPERATION_REG se2 = 1" "CONFIG_REG se2 = 0x4010" "RSA_CONFIG se2 = push_bit 24 0"
      "RSA_KEY_SIZE_REG se2 = of_nat 4 - 1" "RSA_EXP_SIZE_REG se2 = of_nat (es div 4)"
      "IN_LL_ADDR_REG se2 = LL (ll_init (Some st) (length st))"
    using l by (simp_all add: se2_def se1_def trigger_se_rsa_op_def se_begin_operation_def)
  have "law_rsa eng" using e by (simp add: se_engine_ok_def)
  from this [unfolded law_rsa_def, THEN spec [of _ se2], THEN spec [of _ "0 :: u32"], THEN spec [of _ st],
      THEN spec [of _ "4 :: nat"], THEN spec [of _ "es div 4"]]
  have "r_int_status (eng se2) = 0x12" using assms(4) l f by (simp add: se_done_def)
  then have "se_exp_mod eng 0 buf 0x100 cb se = Ok se2"
    unfolding se_exp_mod_def bindR_panic_if Let_def set_security_engine_callback_def se2_def se1_def st_def
    using None assms(2,3) by simp
  moreover have "se_frame {} se se2" "g_se_callback se2 = Some cb"
    by (simp_all add: se2_def se1_def trigger_se_rsa_op_def se_begin_operation_def se_frame_def aes_key_def)
  ultimately show ?thesis by simp
next
  case (Some c)
  then show ?thesis
    unfolding se_exp_mod_def bindR_panic_if Let_def set_security_engine_callback_def by simp
qed

text \<open>Starting a user's AES operation sets an initialisation vector and no key.\<close>

lemma set_iv_safe:
  assumes "ks < 16"
  shows "safe (se_frame {} se) (set_aes_keyslot_iv ks iv 16 se)"
proof -
  let ?t = "table_store (aes_keytable se) ks 8 4 iv"
  have "\<not> 16 \<le> ks" using assms by simp
  then have "set_aes_keyslot_iv ks iv 16 se = Ok (se\<lparr>AES_KEYTABLE_ADDR := aes_idx ks 11, aes_keytable := ?t\<rparr>)"
    by (simp add: set_aes_keyslot_iv_def aes_keytable_write_def table_store_def aes_idx_def upt_rec or.assoc)
  moreover have "se_frame {} se (se\<lparr>AES_KEYTABLE_ADDR := aes_idx ks 11, aes_keytable := ?t\<rparr>)"
    using assms by (auto simp: se_frame_def aes_key_def table_bytes_store_other)
  ultimately show ?thesis by simp
qed

lemma crypt_insecure_safe:
  "safe (\<lambda>se'. se_frame {} se se') (se_aes_crypt_insecure_internal ks out_ll in_ll sz cfg enc cb se)"
  unfolding se_aes_crypt_insecure_internal_def bindR_panic_if Let_def set_security_engine_callback_def
  by (auto simp: se_frame_def se_begin_operation_def aes_key_def)

lemma crypt_aes_safe [op_safe]:
  assumes "ks < 16"
  shows "safe (se_frame {} se) (se_aes_cbc_encrypt_insecure ks out_ll in_ll sz iv cb se)"
    "safe (se_frame {} se) (se_aes_cbc_decrypt_insecure ks out_ll in_ll sz iv cb se)"
    "safe (se_frame {} se) (se_aes_ctr_crypt_insecure ks out_ll in_ll sz iv cb se)"
proof -
  note step = se_frame_step [OF crypt_insecure_safe]
  show "safe (se_frame {} se) (se_aes_cbc_encrypt_insecure ks out_ll in_ll sz iv cb se)"
    unfolding se_aes_cbc_encrypt_insecure_def by (rule safe_bindI [OF set_iv_safe [OF assms]]) (auto intro: step)
  show "safe (se_frame {} se) (se_aes_cbc_decrypt_insecure ks out_ll in_ll sz iv cb se)"
    unfolding se_aes_cbc_decrypt_insecure_def by (rule safe_bindI [OF set_iv_safe [OF assms]]) (auto intro: step)
  have "se_frame {} se (set_se_ctr iv (se\<lparr>SPARE_0 := 1\<rparr>))"
    by (simp add: set_se_ctr_def upt_rec se_frame_def aes_key_def)
  then show "safe (se_frame {} se) (se_aes_ctr_crypt_insecure ks out_ll in_ll sz iv cb se)"
    unfolding se_aes_ctr_crypt_insecure_def Let_def by (intro step) auto
qed

lemma gcm_decrypt_safe [op_safe]:
  assumes e: "se_engine_ok P eng" and c: "g_has_loaded_config c" and ks: "length kek = 16" "length wrapped = 16"
    and n: "n \<le> length src" "n \<le> 0x400" "length dst = 0x400" and ctr: "length (CRYPTO_CTR_REG se) = 4"
  shows "safe (\<lambda>(out_size, dst', id_high, se'). length dst' = 0x400 \<and> out_size \<le> n \<and> se_frame {9} se se'
     \<and> (p \<longrightarrow> out_size \<noteq> 0 \<longrightarrow> id_high \<noteq> None))
     (gcm_decrypt_key c eng f dst n src n kek 16 wrapped 16 u p se)"
proof (cases "u < usecase_limit (fw_of c)")
  case False
  then show ?thesis
    unfolding gcm_decrypt_key_def Let_def using seal_key_rejects(2) [OF c]
    by (simp add: bindR_panic_if bindR_if)
next
  case True
  have l: "length (gcm_plain P K src n) = n - 16" if "16 \<le> n" for K
    using length_gcm_plain [OF e that n(1)] .
  show ?thesis
  proof (cases p)
    case p: True
    show ?thesis
    proof (cases "0x30 < n")
      case big: True
      show ?thesis
        using gcm_decrypt_personalized [OF e c True ks big n(1) order_refl n(2) ctr, of f dst] p n l big
        by (auto intro!: se_frame_keep split: if_splits)
    next
      case False
      then show ?thesis using gcm_decrypt_key_size_panic p by simp
    qed
  next
    case p: False
    show ?thesis
    proof (cases "0x10 < n")
      case big: True
      show ?thesis
        using gcm_decrypt_dev [OF e c True ks big n(1) order_refl n(2) ctr, of f dst] p n l big
        by (auto intro!: se_frame_keep split: if_splits)
    next
      case False
      then show ?thesis using p by (simp add: gcm_decrypt_key_def bindR_panic_if)
    qed
  qed
qed

lemma ghash_safe [op_safe]:
  assumes e: "se_engine_ok P eng" and j: "encrypt \<longrightarrow> length j = 16"
  shows "safe (\<lambda>(out, se'). length out = 16 \<and> se_frame {} se se') (ghash eng data n j encrypt se)"
proof -
  have "length (ghash_spec P k data n j encrypt) = 16" for k
    using j by (auto simp: ghash_spec_def Let_def aes_lengths [OF e])
  then show ?thesis using ghash_ok [OF e, of encrypt j data n se] j by (auto intro: se_frame_core)
qed

lemma ctr_crypt_long_safe:
  assumes "se_engine_ok P eng" "ks < 16" "length (CRYPTO_CTR_REG se) = 4" "n = length src" "n < 2 ^ 32" "n \<le> length dst"
  shows "safe (\<lambda>(out, se'). length out = length dst \<and> se_frame {} se se') (se_aes_ctr_crypt eng ks dst n src n ctr 16 se)"
  using ctr_crypt_ok [OF assms(1,2,4,5) order_refl assms(6,3), of ctr] assms(4,6)
  by (auto intro: se_frame_core simp: length_ctr_stream [OF assms(1)])

lemma gcm_encrypt_safe [op_safe]:
  assumes e: "se_engine_ok P eng" and c: "g_has_loaded_config c" and ks: "length kek = 16" "length wrapped = 16"
    and n: "n + 0x30 \<le> 0x400" "length dst = 0x400" and ctr: "length (CRYPTO_CTR_REG se) = 4"
  shows "safe (\<lambda>(dst', se'). length dst' = 0x400 \<and> se_frame {9} se se')
     (gcm_encrypt_key c eng f dst dn src n kek 16 wrapped 16 u hi se)"
proof -
  have ctr': "length (CRYPTO_CTR_REG s) = 4" if "se_frame {9} se s" for s
    using that ctr by (simp add: se_frame_def)
  have w: "length (write64be b (n + 0x18) v) = 0x400" if "length b = 0x400" for b v
    using that n(1) by (simp add: write64be_def write64le_def)
  show ?thesis
    unfolding gcm_encrypt_key_def Let_def bindR_panic_if
    apply (simp split: if_splits)
    apply (intro impI)
    apply (rule safe_bind_frame [where W = "{9}", OF unseal_key_safe [OF e c ks(1)]], simp, rule se_frame_refl, simp)
    apply (rule safe_bind_frame [where W = "{9}", OF decrypt_into_safe [OF e _ _ ks(2)]], simp, simp, assumption, simp)
    apply (rule safe_bind_frame2 [where W = "{9}", OF generate_random_safe [OF e]], simp, simp, simp, assumption, simp, simp)
    apply (rule safe_bind_frame2 [where W = "{9}", OF ghash_safe [OF e]], simp, assumption, simp, simp)
    apply (rule safe_bind_frame2 [where W = "{9}", OF ghash_safe [OF e]], simp, assumption, simp, simp)
    apply (rule safe_bind_frame2 [where W = "{9}", OF ctr_crypt_long_safe [OF e]], simp, erule ctr')
    using n w by (simp_all)
qed

section \<open>The invariant of the monitor and what a call may change\<close>

definition env_ok :: "se_prims \<Rightarrow> env \<Rightarrow> bool" where
  "env_ok P e \<longleftrightarrow> se_engine_ok P (env_eng e) \<and> (\<forall>n. length (env_stack e n) = n)"

definition mon_wf :: "monitor \<Rightarrow> bool" where
  "mon_wf m \<longleftrightarrow> g_has_loaded_config (m_cfg m) \<and> mkey_wf (m_mkey m) \<and> upage_wf (m_upage m) \<and> rcache_wf (m_rcache m)
     \<and> length (CRYPTO_CTR_REG (m_se m)) = 4 \<and> length (g_se_modulus_sizes (m_se m)) = 2
     \<and> length (g_se_exp_sizes (m_se m)) = 2 \<and> g_tkey_type (m_tkey m) \<le> 1
     \<and> length (g_tkey_expected_label_hash (m_tkey m)) = 4
     \<and> length (g_imported_exponents m) = 4 \<and> (\<forall>x \<in> set (g_imported_exponents m). length x = 0x100)"

text \<open>The slots a user call may write: those it can load keys into and the scratch slot.\<close>

definition user_slots :: "u32 set" where
  "user_slots = {0, 1, 2, 3, 4, 5, 9}"

definition mon_frame :: "monitor \<Rightarrow> monitor \<Rightarrow> bool" where
  "mon_frame m m' \<longleftrightarrow> mon_wf m' \<and> se_frame user_slots (m_se m) (m_se m')
     \<and> m_cfg m' = m_cfg m \<and> m_mkey m' = m_mkey m \<and> m_fuse m' = m_fuse m \<and> m_bootconfig m' = m_bootconfig m
     \<and> m_configitem m' = m_configitem m \<and> m_rcache m' = m_rcache m
     \<and> (g_user_page_user_address (m_upage m) \<noteq> 0 \<longrightarrow>
          g_user_page_user_address (m_upage m') = g_user_page_user_address (m_upage m))
     \<and> (\<forall>p. g_user_page_user_address (m_upage m') = 0
             \<or> get_page_for_address p \<noteq> g_user_page_user_address (m_upage m') \<longrightarrow>
          dram (m_upage m') p = dram (m_upage m) p)"

lemma mon_frame_refl: "mon_wf m \<Longrightarrow> mon_frame m m"
  by (simp add: mon_frame_def)

lemma mon_frame_wf: "mon_frame m m' \<Longrightarrow> mon_wf m'"
  by (simp add: mon_frame_def)

text \<open>The result of a handler: what the caller of a user SMC can rely on.\<close>

definition smc_post :: "monitor \<Rightarrow> u32 \<times> smc_args \<times> monitor \<Rightarrow> bool" where
  "smc_post m r \<longleftrightarrow> (case r of (_, args', m') \<Rightarrow> length args' = 8 \<and> mon_frame m m')"

lemma smc_postI [intro]: "length args' = 8 \<Longrightarrow> mon_frame m m' \<Longrightarrow> smc_post m (r, args', m')"
  by (simp add: smc_post_def)

section \<open>Steps of a handler\<close>

lemma mon_frame_se:
  "mon_frame m0 m \<Longrightarrow> se_frame V (m_se m) se' \<Longrightarrow> V \<subseteq> user_slots \<Longrightarrow> mon_frame m0 (m\<lparr>m_se := se'\<rparr>)"
  by (auto simp: mon_frame_def mon_wf_def se_frame_def)

lemma on_se_step:
  assumes "mon_frame m0 m" "safe (se_frame V (m_se m)) (f (m_se m))" "V \<subseteq> user_slots"
    and "\<And>m'. mon_frame m0 m' \<Longrightarrow> safe Q (k m')"
  shows "safe Q (bindR (on_se f m) k)"
proof (rule safe_bindI [where R = "mon_frame m0"])
  show "safe (mon_frame m0) (on_se f m)"
    unfolding on_se_def by (rule safe_bindI [OF assms(2)]) (simp add: mon_frame_se [OF assms(1) _ assms(3)])
qed (rule assms(4))

lemma with_se_step:
  assumes "mon_frame m0 m" "safe (\<lambda>(x, se'). G x \<and> se_frame V (m_se m) se') (f (m_se m))" "V \<subseteq> user_slots"
    and "\<And>x m'. G x \<Longrightarrow> mon_frame m0 m' \<Longrightarrow> safe Q (k (x, m'))"
  shows "safe Q (bindR (with_se f m) k)"
proof (rule safe_bindI [where R = "\<lambda>(x, m'). G x \<and> mon_frame m0 m'"])
  show "safe (\<lambda>(x, m'). G x \<and> mon_frame m0 m') (with_se f m)"
    unfolding with_se_def
    by (rule safe_bindI [OF assms(2)]) (auto simp: mon_frame_se [OF assms(1) _ assms(3)])
qed (use assms(4) in auto)

text \<open>Getting the page and copying from it and to it.\<close>

definition page_ok :: "upage_ref \<Rightarrow> monitor \<Rightarrow> bool" where
  "page_ok r m \<longleftrightarrow> upage_valid r (m_upage m)"

lemma upage_init_cases: "\<exists>r. upage_init a u = generic_panic \<or> upage_init a u = Ok r"
  unfolding upage_init_def Let_def by (auto simp: generic_panic_def)

lemma fetch_page_step:
  assumes "mon_frame m0 m" "length args = 8"
    and "\<And>r m'. mon_frame m0 m' \<Longrightarrow> page_ok r m' \<Longrightarrow> safe (smc_post m0) (k r m')"
  shows "safe (smc_post m0) (fetch_page a args m k)"
proof (cases "upage_init a (m_upage m)")
  case (Ok x)
  obtain ok r u where x: "x = (ok, r, u)" by (cases x)
  have wf: "upage_wf (m_upage m)" using assms(1) by (simp add: mon_frame_def mon_wf_def)
  note i = upage_init_ok [OF wf, of a ok r u, OF Ok [unfolded x]]
  have "mon_frame m0 (m\<lparr>m_upage := u\<rparr>)"
    using assms(1) i(2,4,5,6) unfolding mon_frame_def mon_wf_def upage_valid_def
    by (cases "g_user_page_user_address (m_upage m) = 0") auto
  then show ?thesis
    using Ok i(1,2) assms(3) by (simp add: fetch_page_def x Let_def page_ok_def)
qed (use upage_init_cases [of a "m_upage m"] in \<open>auto simp: fetch_page_def generic_panic_def\<close>)

lemma fetch_step:
  assumes "mon_frame m0 m" "length args = 8" "page_ok r m" "sz \<le> length dst" "sz \<le> 0x1000"
    and "\<And>bs. length bs = length dst \<Longrightarrow> safe (smc_post m0) (k bs)"
  shows "safe (smc_post m0) (fetch r dst a sz args m k)"
  using assms user_copy_to_secure_ok [of r "m_upage m" sz dst a] by (auto simp: fetch_def page_ok_def)

lemma store_back_step:
  assumes "mon_frame m0 m" "length args = 8" "page_ok r m" "sz \<le> length src" "sz \<le> 0x1000"
    and "\<And>m'. mon_frame m0 m' \<Longrightarrow> safe (smc_post m0) (k m')"
  shows "safe (smc_post m0) (store_back r a src sz args m k)"
proof -
  have v: "upage_valid r (m_upage m)" using assms(3) by (simp add: page_ok_def)
  obtain ok u where u: "secure_copy_to_user r a src sz (m_upage m) = Ok (ok, u)"
    using secure_copy_to_user_ok [OF v assms(5,4), of a] by (cases "in_page r a sz") auto
  note val = secure_copy_to_user_valid [OF v assms(5,4) u] and fr = secure_copy_to_user_frame [OF v assms(5,4) u]
  have "mon_frame m0 (m\<lparr>m_upage := u\<rparr>)"
    using assms(1) val fr v unfolding mon_frame_def mon_wf_def upage_valid_def by auto
  then show ?thesis using assms(2,6) by (auto simp: store_back_def u Let_def)
qed

lemma mon_frame_fields:
  "mon_frame m0 m \<Longrightarrow> mon_frame m0 (set_exp_mod_done d m)"
  "mon_frame m0 m \<Longrightarrow> mon_frame m0 (set_crypt_aes_done d m)"
  by (auto simp: mon_frame_def mon_wf_def set_exp_mod_done_def set_crypt_aes_done_def)

lemma mon_frame_exponent:
  assumes "mon_frame m0 m" "i < 4" "length bs \<le> 0x100"
  shows "mon_frame m0 (store_exponent i bs m)"
proof -
  have "length (g_imported_exponents m) = 4" "\<forall>x \<in> set (g_imported_exponents m). length x = 0x100"
    using assms(1) by (simp_all add: mon_frame_def mon_wf_def)
  moreover from this have "length (g_imported_exponents m ! i) = 0x100" using assms(2) by simp
  ultimately have "\<forall>x \<in> set ((g_imported_exponents m)[i := blit (g_imported_exponents m ! i) 0 bs]). length x = 0x100"
    using assms(3) by (auto dest!: set_update_subset_insert [THEN subsetD])
  then show ?thesis using assms(1) by (auto simp: mon_frame_def mon_wf_def store_exponent_def)
qed

lemma mon_frame_tkey:
  "mon_frame m0 m \<Longrightarrow> g_tkey_type t \<le> 1 \<Longrightarrow> length (g_tkey_expected_label_hash t) = 4 \<Longrightarrow> mon_frame m0 (m\<lparr>m_tkey := t\<rparr>)"
  by (auto simp: mon_frame_def mon_wf_def)

lemma page_ok_fields [simp]:
  "page_ok r (set_exp_mod_done d m) = page_ok r m" "page_ok r (m\<lparr>m_se := se\<rparr>) = page_ok r m"
  by (simp_all add: page_ok_def set_exp_mod_done_def)

section \<open>The contract\<close>

locale smc_handler =
  fixes h :: "env \<Rightarrow> handler"
  assumes contract: "env_ok P e \<Longrightarrow> mon_wf m \<Longrightarrow> length args = 8 \<Longrightarrow> safe (smc_post m) (h e args m)"
begin

lemma never_hangs: "env_ok P e \<Longrightarrow> mon_wf m \<Longrightarrow> length args = 8 \<Longrightarrow> h e args m \<noteq> Hang \<and> h e args m \<noteq> Undef"
  using contract by fastforce

lemma keeps_invariant:
  "env_ok P e \<Longrightarrow> mon_wf m \<Longrightarrow> length args = 8 \<Longrightarrow> h e args m = Ok (r, args', m') \<Longrightarrow> mon_wf m' \<and> length args' = 8"
  using contract [of P e m args] by (simp add: smc_post_def mon_frame_def)

lemma protects_keys:
  "env_ok P e \<Longrightarrow> mon_wf m \<Longrightarrow> length args = 8 \<Longrightarrow> h e args m = Ok (r, args', m') \<Longrightarrow> ks \<notin> user_slots \<Longrightarrow>
   aes_key (m_se m') ks = aes_key (m_se m) ks"
  using contract [of P e m args] by (simp add: smc_post_def mon_frame_def se_frame_def)

lemma protects_memory:
  "env_ok P e \<Longrightarrow> mon_wf m \<Longrightarrow> length args = 8 \<Longrightarrow> h e args m = Ok (r, args', m') \<Longrightarrow>
   get_page_for_address p \<noteq> g_user_page_user_address (m_upage m') \<Longrightarrow> dram (m_upage m') p = dram (m_upage m) p"
  using contract [of P e m args] by (simp add: smc_post_def mon_frame_def)

end

end
