(* ===== verification/SMC_Handlers.thy ===== *)
theory SMC_Handlers
  imports SMC_Contract
begin

text \<open>
  Every handler of \<^verbatim>\<open>smc_user.c\<close> satisfies the contract of user SMCs. Each proof follows the
  handler: guards, copies from the user page, driver operations, copies back.
\<close>

section \<open>Rules for the proofs\<close>

lemma safe_ifI: "(b \<Longrightarrow> safe Q x) \<Longrightarrow> (\<not> b \<Longrightarrow> safe Q y) \<Longrightarrow> safe Q (if b then x else y)"
  by simp

lemma mon_wf_loaded:
  assumes "mon_wf m"
  shows "exosphere_get_target_firmware (m_cfg m) = Ok (fw_of (m_cfg m))" "g_has_loaded_config (m_cfg m)"
    "mkey_wf (m_mkey m)" "length (CRYPTO_CTR_REG (m_se m)) = 4"
    "length (g_se_modulus_sizes (m_se m)) = 2" "length (g_se_exp_sizes (m_se m)) = 2"
    "length (g_imported_exponents m) = 4" "i < 4 \<Longrightarrow> length (g_imported_exponents m ! i) = 0x100"
    "g_tkey_type (m_tkey m) \<le> 1" "length (g_tkey_expected_label_hash (m_tkey m)) = 4"
  using assms by (simp_all add: mon_wf_def)

lemma user_keyslot_valid:
  assumes "g_has_loaded_config c"
  shows "is_user_keyslot_valid c ks = Ok (ks \<le> (if fw_of c \<in> {1, 2, 3, 4, 5} then 3 else 5))"
  using assms by (simp add: is_user_keyslot_valid_def)

lemma user_keyslot_range:
  assumes "ks \<le> (if b then 3 else 5 :: u32)"
  shows "ks \<in> user_slots" "ks < 16"
proof -
  have "unat ks \<le> 5" using assms by (auto simp: word_le_nat_alt split: if_splits)
  then have "unat ks \<in> {0, 1, 2, 3, 4, 5}" by auto
  then show "ks \<in> user_slots" by (auto simp: user_slots_def word_unat_eq_iff)
  show "ks < 16" using \<open>unat ks \<le> 5\<close> by (simp add: word_less_nat_alt)
qed

lemma slot_9 [simp]: "9 \<in> user_slots" "{9} \<subseteq> user_slots"
  by (simp_all add: user_slots_def)

lemma length_qwords [simp]: "length (qwords a b) = 16"
  by (simp add: qwords_def)

lemma length_put_qwords [simp]: "length (put_qwords bs args) = length args"
  by (simp add: put_qwords_def)

lemma env_okD: "env_ok P e \<Longrightarrow> se_engine_ok P (env_eng e)" "env_ok P e \<Longrightarrow> length (env_stack e n) = n"
  by (simp_all add: env_ok_def)

text \<open>Load the RSA key and start the exponentiation, the end of three handlers.\<close>

lemma start_exp_mod:
  assumes e: "env_ok P e" and m: "mon_frame m0 m" and "length args = 8" "es \<le> 0x100"
  shows "safe (smc_post m0) (bindR (on_se (set_rsa_keyslot 0 modulus 0x100 exponent es) m) (\<lambda>m.
     bindR (on_se (se_exp_mod (env_eng e) 0 input 0x100 Exp_mod_done_handler) m) (\<lambda>m. Ok (0, args, m))))"
proof -
  note w = mon_wf_loaded [OF mon_frame_wf [OF m]]
  obtain se1 where 1: "set_rsa_keyslot 0 modulus 0x100 exponent es (m_se m) = Ok se1" "se_frame {} (m_se m) se1"
      "g_se_modulus_sizes se1 ! 0 = 0x100" "g_se_exp_sizes se1 ! 0 = es"
    using set_rsa_keyslot_0 [OF w(5,6) assms(4)] by blast
  have m1: "mon_frame m0 (m\<lparr>m_se := se1\<rparr>)" using mon_frame_se [OF m 1(2)] by simp
  have "safe (se_frame {} se1) (se_exp_mod (env_eng e) 0 input 0x100 Exp_mod_done_handler se1)"
    by (rule safe_mono [OF exp_mod_safe [OF env_okD(1) [OF e] 1(3,4) assms(4)]]) simp
  then have "safe (smc_post m0) (bindR (on_se (se_exp_mod (env_eng e) 0 input 0x100 Exp_mod_done_handler) (m\<lparr>m_se := se1\<rparr>))
      (\<lambda>m. Ok (0, args, m)))"
    using assms(3) by (intro on_se_step [OF m1, where V = "{}"]) auto
  then show ?thesis by (simp add: on_se_def [where m = m] 1(1))
qed

lemma user_exp_mod_safe:
  assumes e: "env_ok P e" and m: "mon_wf m" and a: "length args = 8"
  shows "safe (smc_post m) (user_exp_mod e args m)"
  unfolding user_exp_mod_def Let_def
proof (rule safe_ifI)
  assume "\<not> (args ! 4 = 0 \<or> args ! 4 > 0x100 \<or> args ! 4 AND 3 \<noteq> 0)"
  then have es: "unat (args ! 4) \<le> 0x100" by (simp add: word_less_nat_alt)
  show "safe (smc_post m) (fetch_page (args ! 1) args m (\<lambda>page_ref m.
           fetch page_ref (env_stack e 0x100) (args ! 1) 0x100 args m (\<lambda>input.
           fetch page_ref (env_stack e 0x100) (args ! 2) (unat (args ! 4)) args m (\<lambda>exponent.
           fetch page_ref (env_stack e 0x100) (args ! 3) 0x100 args m (\<lambda>modulus.
           bindR (on_se (set_rsa_keyslot 0 modulus 0x100 exponent (unat (args ! 4))) (set_exp_mod_done False m)) (\<lambda>m.
              bindR (on_se (se_exp_mod (env_eng e) 0 input 0x100 Exp_mod_done_handler) m) (\<lambda>m.
              Ok (0, args, m))))))))"
    by (intro fetch_page_step [OF mon_frame_refl [OF m] a] fetch_step start_exp_mod [OF e] mon_frame_fields)
       (use a es env_okD(2) [OF e] in auto)
qed (use a m in \<open>auto intro: mon_frame_refl\<close>)

lemma user_secure_exp_mod_safe:
  assumes e: "env_ok P e" and m: "mon_wf m" and a: "length args = 8"
  shows "safe (smc_post m) (user_secure_exp_mod e args m)"
proof -
  have ret: "safe (smc_post m) (Ok (2, args, m))" using a m by (auto intro: mon_frame_refl)
  have run: "safe (smc_post m) (fetch_page (args ! 1) args m (\<lambda>page_ref m.
          fetch page_ref (env_stack e 0x100) (args ! 1) 0x100 args m (\<lambda>input.
          fetch page_ref (env_stack e 0x100) (args ! 2) 0x100 args m (\<lambda>modulus.
          bindR (on_se (set_rsa_keyslot 0 modulus 0x100 (g_imported_exponents (set_exp_mod_done False m) ! i) 0x100)
                   (set_exp_mod_done False m)) (\<lambda>m.
             bindR (on_se (se_exp_mod (env_eng e) 0 input 0x100 Exp_mod_done_handler) m) (\<lambda>m.
             Ok (0, args, m)))))))" for i
    by (intro fetch_page_step [OF mon_frame_refl [OF m] a] fetch_step start_exp_mod [OF e] mon_frame_fields)
       (use a env_okD(2) [OF e] in auto)
  show ?thesis
    unfolding user_secure_exp_mod_def Let_def mon_wf_loaded(1) [OF m] bindR.simps
    using run ret by (simp split: option.splits if_splits)
qed

section \<open>Random bytes and AES keys\<close>

lemma length_args_write_bytes: "length args = 8 \<Longrightarrow> length (args_write_bytes bs args) = 8"
  by (simp add: args_write_bytes_def Let_def)

lemma user_get_random_bytes_safe:
  assumes e: "env_ok P e" and m: "mon_wf m" and a: "length args = 8"
  shows "safe (smc_post m) (user_get_random_bytes e args m)"
  unfolding user_get_random_bytes_def Let_def
proof (rule safe_ifI)
  assume "\<not> args ! 1 > 0x38"
  then have sz: "unat (args ! 1) \<le> 0x38" by (simp add: word_less_nat_alt)
  show "safe (smc_post m) (bindR (with_se (se_generate_random (env_eng e) 0xB (env_stack e 0x40) (unat (args ! 1))) m)
     (\<lambda>(random_bytes, m).
        Ok (0, if unat (args ! 1) \<noteq> 0 then args_write_bytes (take (unat (args ! 1)) random_bytes) args else args, m)))"
    by (rule with_se_step [OF mon_frame_refl [OF m]], rule generate_random_safe [OF env_okD(1) [OF e]])
       (use sz a env_okD(2) [OF e] in \<open>auto simp: length_args_write_bytes\<close>)
qed (use a m in \<open>auto intro: mon_frame_refl\<close>)

lemma device_keyslot_safe:
  assumes "mon_frame m0 m" "\<And>ks m'. ks < 16 \<Longrightarrow> mon_frame m0 m' \<Longrightarrow> safe Q (k (ks, m'))"
  shows "safe Q (bindR (device_keyslot fw rv m) k)"
proof -
  have "safe Q (bindR (with_se (devkey_get_keyslot rv (m_mkey m)) m) k)"
    by (rule with_se_step [OF assms(1)], rule devkey_get_keyslot_safe)
       (use assms mon_wf_loaded(3) [OF mon_frame_wf] in auto)
  then show ?thesis using assms by (auto simp: device_keyslot_def)
qed

text \<open>Derive a key into the scratch slot and decrypt a block with it.\<close>

lemma derive_and_decrypt:
  assumes e: "env_ok P e" and "mon_frame m0 m" "ks < 16" "length source = 16" "length src = 16"
    and "\<And>out m'. length out = 16 \<Longrightarrow> mon_frame m0 m' \<Longrightarrow> safe Q (k (out, m'))"
  shows "safe Q (bindR (on_se (decrypt_data_into_keyslot (env_eng e) 9 ks source 16) m) (\<lambda>m.
     bindR (with_se (se_aes_ecb_decrypt_block (env_eng e) 9 (env_stack e 16) 16 src 16) m) k))"
  by (rule on_se_step [OF assms(2)], rule decrypt_into_safe [OF env_okD(1) [OF e] assms(3)], simp, rule assms(4), simp,
      rule with_se_step, assumption, rule ecb_decrypt_safe [OF env_okD(1) [OF e]])
     (use assms(5,6) env_okD(2) [OF e] in auto)

lemma user_generate_aes_kek_safe:
  assumes e: "env_ok P e" and m: "mon_wf m" and a: "length args = 8"
  shows "safe (smc_post m) (user_generate_aes_kek e args m)"
proof -
  note w = mon_wf_loaded [OF m] and f = mon_frame_refl [OF m]
  have ret: "safe (smc_post m) (Ok (2, args, m))" using a f by auto
  have tail: "safe (smc_post m) (bindR (on_se (decrypt_data_into_keyslot (env_eng e) 9 ks (map g [0..<0x10]) 0x10) m') (\<lambda>m.
         bindR (with_se (se_aes_ecb_decrypt_block (env_eng e) 9 (env_stack e 0x10) 0x10 (qwords x y) 0x10) m)
           (\<lambda>(kek, m).
         bindR (with_se (seal_key (m_cfg m) (env_eng e) (env_stack e 0x10) 0x10 kek 0x10 u) m) (\<lambda>(sealed_kek, m).
         Ok (0, put_qwords sealed_kek args, m)))))" if "mon_frame m m'" "ks < 16" for m' ks g x y u
    apply (rule derive_and_decrypt [OF e that(1,2)], simp, simp, simp)
    apply (rule with_se_step, assumption, rule seal_key_safe [OF env_okD(1) [OF e]])
    using a env_okD(2) [OF e] mon_wf_loaded(2) [OF mon_frame_wf] by auto
  have slot: "safe (smc_post m) (bindR (if p then device_keyslot fw rv m else with_se (mkey_get_keyslot rv (m_mkey m)) m)
      (\<lambda>(ks, m'). bindR (on_se (decrypt_data_into_keyslot (env_eng e) 9 ks (map g [0..<0x10]) 0x10) m') (\<lambda>m.
         bindR (with_se (se_aes_ecb_decrypt_block (env_eng e) 9 (env_stack e 0x10) 0x10 (qwords x y) 0x10) m)
           (\<lambda>(kek, m).
         bindR (with_se (seal_key (m_cfg m) (env_eng e) (env_stack e 0x10) 0x10 kek 0x10 u) m) (\<lambda>(sealed_kek, m).
         Ok (0, put_qwords sealed_kek args, m))))))" for p fw rv g x y u
  proof (cases p)
    case True
    then show ?thesis by (auto intro!: device_keyslot_safe [OF f] tail)
  next
    case False
    show ?thesis
      unfolding if_not_P [OF False]
      by (rule with_se_step [OF f], rule mkey_get_keyslot_safe [OF w(3)]) (auto intro!: tail)
  qed
  show ?thesis
    unfolding user_generate_aes_kek_def Let_def w(1) bindR.simps mkey_get_revision_def bindR_panic_if
      configitem_is_recovery_boot_eq
    using ret slot
    by (cases "g_determined_mkey_revision (m_mkey m)") (auto simp: bindR_panic_if split del: if_split intro!: safe_ifI)
qed

lemma user_load_aes_key_safe:
  assumes e: "env_ok P e" and m: "mon_wf m" and a: "length args = 8"
  shows "safe (smc_post m) (user_load_aes_key e args m)"
proof -
  note w = mon_wf_loaded [OF m] and f = mon_frame_refl [OF m]
  let ?ks = "ucast (args ! 1) :: u32"
  have "safe (smc_post m) (bindR (on_se (unseal_key (m_cfg m) (env_eng e) 9 (qwords x y) 0x10 0) m) (\<lambda>m.
           bindR (on_se (decrypt_data_into_keyslot (env_eng e) ?ks 9 (qwords z t) 0x10) m) (\<lambda>m.
           Ok (0, args, m))))" if "?ks \<in> user_slots" "?ks < 16" for x y z t
    apply (rule on_se_step [OF f], rule unseal_key_safe [OF env_okD(1) [OF e] w(2)], simp, simp, simp)
    apply (rule on_se_step, assumption, rule decrypt_into_safe [OF env_okD(1) [OF e]])
    using that a by auto
  then show ?thesis
    unfolding user_load_aes_key_def Let_def user_keyslot_valid [OF w(2)] bindR.simps
    using a f user_keyslot_range by (intro safe_ifI) auto
qed

lemma user_load_titlekey_safe:
  assumes e: "env_ok P e" and m: "mon_wf m" and a: "length args = 8"
  shows "safe (smc_post m) (user_load_titlekey e args m)"
proof -
  note w = mon_wf_loaded [OF m] and f = mon_frame_refl [OF m]
  let ?ks = "ucast (args ! 1) :: u32"
  have "safe (smc_post m) (bindR (on_se (unseal_titlekey (env_eng e) ?ks (qwords x y) 0x10) m) (\<lambda>m. Ok (0, args, m)))"
    if "?ks \<in> user_slots" "?ks < 16" for x y
    apply (rule on_se_step [OF f], rule unseal_titlekey_safe [OF env_okD(1) [OF e]])
    using that a by auto
  then show ?thesis
    unfolding user_load_titlekey_def Let_def user_keyslot_valid [OF w(2)] bindR.simps
    using a f user_keyslot_range by (intro safe_ifI) auto
qed

lemma user_crypt_aes_safe:
  assumes e: "env_ok P e" and m: "mon_wf m" and a: "length args = 8"
  shows "safe (smc_post m) (user_crypt_aes e args m)"
proof -
  note w = mon_wf_loaded [OF m] and f = mon_frame_fields(2) [OF mon_frame_refl [OF m], of False]
  have run: "safe (smc_post m) (bindR (on_se op (set_crypt_aes_done False m)) (\<lambda>m. Ok (0, args, m)))"
    if "\<And>se. safe (se_frame {} se) (op se)" for op
    by (rule on_se_step [OF f], rule that) (use a in auto)
  show ?thesis
    unfolding user_crypt_aes_def Let_def user_keyslot_valid [OF w(2)] w(1) bindR.simps
    using a f mon_frame_refl [OF m] user_keyslot_range(2)
    by (intro safe_ifI run crypt_aes_safe) (auto split del: if_split intro: user_keyslot_range(2))
qed

lemma user_generate_specific_aes_key_safe:
  assumes e: "env_ok P e" and m: "mon_wf m" and a: "length args = 8"
  shows "safe (smc_post m) (user_generate_specific_aes_key e args m)"
proof -
  note w = mon_wf_loaded [OF m] and f = mon_frame_refl [OF m]
  have ret: "safe (smc_post m) (Ok (2, args, m))" using a f by auto
  have dev: "safe (smc_post m) (bindR (with_se (se_aes_ctr_crypt (env_eng e) ks (env_stack e 0x10) 0x10
                 (replicate 0x10 0) 0x10 dev_specific_aes_key_ctr 0x10) m') (\<lambda>(key, m'). Ok (0, put_qwords (g key) args, m')))"
    if "mon_frame m m'" "ks < 16" for m' ks g
    apply (rule with_se_step [OF that(1)], rule ctr_crypt_safe [OF env_okD(1) [OF e] that(2)])
    using a env_okD(2) [OF e] mon_wf_loaded(4) [OF mon_frame_wf [OF that(1)]] by auto
  have retail: "safe (smc_post m) (bindR (on_se (decrypt_data_into_keyslot (env_eng e) 9 ks retail_specific_aes_key_source 0x10) m') (\<lambda>m.
      bindR (with_se (se_aes_ecb_decrypt_block (env_eng e) 9 (env_stack e 0x10) 0x10 (qwords x y) 0x10) m)
        (\<lambda>(key, m). Ok (0, put_qwords key args, m))))" if "mon_frame m m'" "ks < 16" for m' ks x y
    apply (rule derive_and_decrypt [OF e that])
    using a by (auto simp: retail_specific_aes_key_source_def)
  have "safe (smc_post m) (bindR (device_keyslot fw rv m) (\<lambda>(keyslot, m).
        bindR (if fuse_get_bootrom_patch_version (m_fuse m) < 0x7F
               then bindR (with_se (se_aes_ctr_crypt (env_eng e) keyslot (env_stack e 0x10) 0x10
                             (replicate 0x10 0) 0x10 dev_specific_aes_key_ctr 0x10) m) (\<lambda>(key, m).
                    Ok (if mask then xor_bytes key dev_specific_aes_key_mask else key, m))
               else bindR (on_se (decrypt_data_into_keyslot (env_eng e) 9 keyslot
                             retail_specific_aes_key_source 0x10) m) (\<lambda>m.
                    with_se (se_aes_ecb_decrypt_block (env_eng e) 9 (env_stack e 0x10) 0x10
                             (qwords x y) 0x10) m)) (\<lambda>(key, m).
        Ok (0, put_qwords key args, m))))" for fw rv mask x y
    apply (rule device_keyslot_safe [OF f])
    apply (simp only: prod.case bindR_if bindR_assoc)
    apply (rule safe_ifI)
    subgoal for ks m'
      using dev [where m' = m' and ks = ks and g = "\<lambda>key. if mask then xor_bytes key dev_specific_aes_key_mask else key"]
      by (simp add: case_prod_unfold bindR_assoc)
    subgoal using retail by (simp add: case_prod_unfold bindR_assoc)
    done
  then show ?thesis
    unfolding user_generate_specific_aes_key_def Let_def w(1) bindR.simps
    using ret by (intro safe_ifI) auto
qed

lemma user_compute_cmac_safe:
  assumes e: "env_ok P e" and m: "mon_wf m" and a: "length args = 8"
  shows "safe (smc_post m) (user_compute_cmac e args m)"
proof -
  note w = mon_wf_loaded [OF m] and f = mon_frame_refl [OF m]
  let ?ks = "ucast (args ! 1) :: u32" and ?sz = "unat (args ! 3)"
  have "safe (smc_post m) (fetch_page (args ! 2) args m (\<lambda>page_ref m.
        fetch page_ref (env_stack e 0x400) (args ! 2) ?sz args m (\<lambda>user_data.
        bindR (with_se (se_compute_aes_128_cmac (env_eng e) ?ks 0x10 (take ?sz user_data) ?sz) m) (\<lambda>(result_cmac, m).
        Ok (0, put_qwords result_cmac args, m)))))" if "?ks < 16" "?sz \<le> 0x400"
    apply (rule fetch_page_step [OF f a], rule fetch_step, assumption, rule a, assumption)
    using that env_okD(2) [OF e, of "0x400"] apply (simp, simp)
    apply (rule with_se_step, assumption, rule cmac_safe [OF env_okD(1) [OF e] that(1)])
    using that env_okD(2) [OF e, of "0x400"] a by auto
  then show ?thesis
    unfolding user_compute_cmac_def Let_def user_keyslot_valid [OF w(2)] bindR.simps
    using a f user_keyslot_range(2) by (intro safe_ifI) (auto simp: word_less_nat_alt)
qed

section \<open>RSA key packages\<close>

text \<open>
  The common part of the five handlers that take a package: fetch it, decrypt it in place,
  continue with the plaintext.
\<close>

lemma gcm_in_place_step:
  assumes e: "env_ok P e" and m: "mon_frame m0 m" and l: "length ud = 0x400" "sz \<le> 0x400"
    and ks: "length kek = 16" "length key = 16"
    and k: "\<And>out ud' hi m'. length ud' = 0x400 \<Longrightarrow> out \<le> sz \<Longrightarrow> mon_frame m0 m' \<Longrightarrow> m_upage m' = m_upage m \<Longrightarrow>
              (p \<Longrightarrow> out \<noteq> 0 \<Longrightarrow> hi \<noteq> None) \<Longrightarrow> safe Q (k (out, ud', hi, m'))"
  shows "safe Q (bindR (gcm_decrypt_in_place e ud sz kek key u p m) k)"
proof -
  note w = mon_wf_loaded [OF mon_frame_wf [OF m]]
  have "safe (\<lambda>(out_size, dst', id_high, se'). length dst' = 0x400 \<and> out_size \<le> sz \<and> se_frame {9} (m_se m) se'
     \<and> (p \<longrightarrow> out_size \<noteq> 0 \<longrightarrow> id_high \<noteq> None))
     (gcm_decrypt_key (m_cfg m) (env_eng e) (m_fuse m) ud sz ud sz kek 16 key 16 u p (m_se m))"
    by (rule gcm_decrypt_safe [OF env_okD(1) [OF e] w(2) ks _ l(2,1) w(4)]) (use l in simp)
  then show ?thesis
    unfolding gcm_decrypt_in_place_def bindR_assoc
    by (rule safe_bindI) (auto intro!: k mon_frame_se [OF m])
qed

lemma fetch_package_step:
  assumes e: "env_ok P e" and m: "mon_wf m" and a: "length args = 8" and sz: "sz \<le> 0x400"
    and ks: "length kek = 16" "length key = 16"
    and k: "\<And>r out ud hi m'. length ud = 0x400 \<Longrightarrow> out \<le> sz \<Longrightarrow> mon_frame m m' \<Longrightarrow> page_ok r m' \<Longrightarrow>
              safe (smc_post m) (k r (out, ud, hi, m'))"
  shows "safe (smc_post m) (fetch_page addr args m (\<lambda>r m.
     fetch r (env_stack e 0x400) addr sz args m (\<lambda>ud. bindR (gcm_decrypt_in_place e ud sz kek key u p m) (k r))))"
proof (rule fetch_page_step [OF mon_frame_refl [OF m] a], rule fetch_step [OF _ a])
  fix r m' and ud :: bytes assume f: "mon_frame m m'" "page_ok r m'" and l: "length ud = length (env_stack e 0x400)"
  show "safe (smc_post m) (bindR (gcm_decrypt_in_place e ud sz kek key u p m') (k r))"
    by (rule gcm_in_place_step [OF e f(1) _ sz ks])
       (use l f(2) env_okD(2) [OF e, of "0x400"] in \<open>auto intro!: k simp: page_ok_def\<close>)
qed (use sz env_okD(2) [OF e, of "0x400"] in simp_all)

lemma user_load_rsa_oaep_key_safe:
  assumes e: "env_ok P e" and m: "mon_wf m" and a: "length args = 8"
  shows "safe (smc_post m) (user_load_rsa_oaep_key e args m)"
proof -
  note w = mon_wf_loaded [OF m]
  have ret: "safe (smc_post m) (Ok (2, args, m))" using a mon_frame_refl [OF m] by auto
  have run: "safe (smc_post m) (fetch_page addr args m (\<lambda>page_ref m.
         fetch page_ref (env_stack e 0x400) addr sz args m (\<lambda>user_data.
         bindR (gcm_decrypt_in_place e user_data sz (qwords x y) (qwords z t) 3 p m)
           (\<lambda>(out_size, user_data, _, m).
         if out_size < 0x100 then Ok (2, args, m)
         else Ok (0, args, store_exponent 0 (take 0x100 user_data) m)))))" if "sz \<le> 0x400" for addr sz x y z t p
    by (rule fetch_package_step [OF e m a that]) (use a in \<open>auto intro!: smc_postI mon_frame_exponent\<close>)
  show ?thesis
    unfolding user_load_rsa_oaep_key_def Let_def w(1) bindR.simps bindR_panic_if
    using ret run by (intro safe_ifI) auto
qed

lemma user_decrypt_rsa_private_key_safe:
  assumes e: "env_ok P e" and m: "mon_wf m" and a: "length args = 8"
  shows "safe (smc_post m) (user_decrypt_rsa_private_key e args m)"
proof -
  note w = mon_wf_loaded [OF m]
  have ret: "safe (smc_post m) (Ok (2, args, m))" using a mon_frame_refl [OF m] by auto
  have run: "safe (smc_post m) (fetch_page addr args m (\<lambda>page_ref m.
         fetch page_ref (env_stack e 0x400) addr sz args m (\<lambda>user_data.
         bindR (gcm_decrypt_in_place e user_data sz (qwords x y) (qwords z t) 1 p m)
           (\<lambda>(out_size, user_data, _, m).
         if out_size = 0 then Ok (2, args, m)
         else store_back page_ref addr user_data sz args m (\<lambda>m.
              Ok (0, args[1 := of_nat out_size], m))))))" if "sz \<le> 0x400" for addr sz x y z t p
    by (rule fetch_package_step [OF e m a that]) (use a that in \<open>auto intro!: store_back_step smc_postI\<close>)
  show ?thesis
    unfolding user_decrypt_rsa_private_key_def Let_def w(1) bindR.simps bindR_panic_if
    using ret run by (intro safe_ifI) auto
qed

lemma user_load_secure_exp_mod_key_safe:
  assumes e: "env_ok P e" and m: "mon_wf m" and a: "length args = 8"
  shows "safe (smc_post m) (user_load_secure_exp_mod_key e args m)"
proof -
  note w = mon_wf_loaded [OF m]
  have ret: "safe (smc_post m) (Ok (2, args, m))" using a mon_frame_refl [OF m] by auto
  have run: "safe (smc_post m) (fetch_page addr args m (\<lambda>page_ref m.
         fetch page_ref (env_stack e 0x400) addr sz args m (\<lambda>user_data.
         bindR (gcm_decrypt_in_place e user_data sz (qwords x y) (qwords z t) 2 p m)
           (\<lambda>(out_size, user_data, _, m).
         if out_size = 0 then Ok (2, args, m)
         else Ok (0, args, store_exponent 1 (take (if out_size \<le> 0x100 then out_size else 0x100) user_data) m)))))"
    if "sz \<le> 0x400" for addr sz x y z t p
    by (rule fetch_package_step [OF e m a that]) (use a in \<open>auto intro!: smc_postI mon_frame_exponent\<close>)
  show ?thesis
    unfolding user_load_secure_exp_mod_key_def Let_def w(1) bindR.simps bindR_panic_if
    using ret run by (intro safe_ifI) auto
qed

lemma user_decrypt_or_import_rsa_key_safe:
  assumes e: "env_ok P e" and m: "mon_wf m" and a: "length args = 8"
  shows "safe (smc_post m) (user_decrypt_or_import_rsa_key e args m)"
proof -
  note w = mon_wf_loaded [OF m]
  have ret: "safe (smc_post m) (Ok (2, args, m))" using a mon_frame_refl [OF m] by auto
  have run: "safe (smc_post m) (fetch_page addr args m (\<lambda>page_ref m.
         fetch page_ref (env_stack e 0x400) addr sz args m (\<lambda>user_data.
         bindR (gcm_decrypt_in_place e user_data sz (qwords x y) (qwords z t) u True m)
           (\<lambda>(out_size, user_data, _, m).
       if out_size = 0 then Ok (2, args, m)
       else if uc = (0 :: u32)
       then store_back page_ref addr user_data sz args m (\<lambda>m. Ok (0, args, m))
       else if uc = 1 then Ok (0, args, store_exponent 1 (take 0x100 user_data) m)
       else if uc = 2 then Ok (0, args, store_exponent 0 (take 0x100 user_data) m)
       else if uc = 3 then Ok (0, args, store_exponent 2 (take 0x100 user_data) m)
       else if uc = 4 then Ok (0, args, store_exponent 3 (take 0x100 user_data) m)
       else generic_panic))))" if "sz \<le> 0x400" for addr sz x y z t u uc
    by (rule fetch_package_step [OF e m a that]) (use a that in \<open>auto intro!: smc_postI store_back_step mon_frame_exponent\<close>)
  show ?thesis
    unfolding user_decrypt_or_import_rsa_key_def Let_def w(1) bindR.simps bindR_panic_if
    by (intro safe_ifI run ret) (auto simp: import_size_refused_def split: if_splits)
qed

lemma user_encrypt_rsa_key_for_import_safe:
  assumes e: "env_ok P e" and m: "mon_wf m" and a: "length args = 8"
  shows "safe (smc_post m) (user_encrypt_rsa_key_for_import e args m)"
proof -
  have ret: "safe (smc_post m) (Ok (2, args, m))" using a mon_frame_refl [OF m] by auto
  have enc: "safe (smc_post m) (bindR (with_se (gcm_encrypt_key (m_cfg m') (env_eng e) (m_fuse m') ud sz ud (sz - 0x30)
                   okek 0x10 okey 0x10 u hi) m') (\<lambda>(user_data, m).
          store_back r addr user_data sz args m (\<lambda>m. Ok (0, args, m))))"
    if "mon_frame m m'" "page_ok r m'" "length ud = 0x400" "sz \<le> 0x400" "0x30 < sz" "length okek = 16" "length okey = 16"
    for m' r ud sz okek okey u hi addr
  proof -
    note w = mon_wf_loaded [OF mon_frame_wf [OF that(1)]]
    have g: "safe (\<lambda>(dst', se'). length dst' = 0x400 \<and> se_frame {9} (m_se m') se')
      (gcm_encrypt_key (m_cfg m') (env_eng e) (m_fuse m') ud sz ud (sz - 0x30) okek 16 okey 16 u hi (m_se m'))"
      by (rule gcm_encrypt_safe [OF env_okD(1) [OF e] w(2) that(6,7) _ that(3) w(4)]) (use that in simp)
    show ?thesis
      unfolding with_se_def bindR_assoc
      by (rule safe_bindI [OF g])
         (use that a in \<open>auto intro!: store_back_step smc_postI mon_frame_se [OF that(1)]\<close>)
  qed
  have run: "safe (smc_post m) (fetch_page addr args m (\<lambda>page_ref m.
        fetch page_ref (env_stack e 0x400) addr sz args m (\<lambda>user_data.
        fetch page_ref (env_stack e 0x10) a1 0x10 args m (\<lambda>ik.
        fetch page_ref (env_stack e 0x10) a2 0x10 args m (\<lambda>okek.
        fetch page_ref (env_stack e 0x10) a3 0x10 args m (\<lambda>iw.
        fetch page_ref (env_stack e 0x10) a4 0x10 args m (\<lambda>okey.
        bindR (gcm_decrypt_in_place e user_data sz ik iw 4 True m)
          (\<lambda>(out_size, user_data, device_id_high, m).
        if out_size = 0 then Ok (2, args, m)
        else
          bindR (with_se (gcm_encrypt_key (m_cfg m) (env_eng e) (m_fuse m) user_data sz user_data (sz - 0x30)
                   okek 0x10 okey 0x10 uc (ucast (the device_id_high))) m) (\<lambda>(user_data, m).
          store_back page_ref addr user_data sz args m (\<lambda>m. Ok (0, args, m)))))))))))"
    if "sz \<le> 0x400" "0x30 < sz" for addr sz a1 a2 a3 a4 uc
    apply (rule fetch_page_step [OF mon_frame_refl [OF m] a])
    apply (rule fetch_step [OF _ a], assumption, assumption, use that env_okD(2) [OF e] in simp, use that in simp)+
    apply (rule gcm_in_place_step [OF e], assumption)
    using that env_okD(2) [OF e] a by (auto intro!: enc smc_postI simp: page_ok_def)
  show ?thesis
    unfolding user_encrypt_rsa_key_for_import_def Let_def
    by (intro safe_ifI run ret) (auto simp: import_size_refused_def split: if_splits)
qed

section \<open>Title keys\<close>

lemma and_1_cases: "x AND 1 = 0 \<or> x AND 1 = (1 :: 'a::len word)"
  by (cases "odd x") (simp_all add: and_one_eq odd_iff_mod_2_eq_one)

lemma tkey_setters:
  assumes "g_has_loaded_config c" "rv < 10" "ty = 0 \<or> (ty = 1 \<and> 6 \<le> fw_of c)"
  shows "tkey_set_master_key_rev rv t = Ok (t\<lparr>g_tkey_master_key_rev := rv\<rparr>)"
    "tkey_set_type c ty t = Ok (t\<lparr>g_tkey_type := ty\<rparr>)"
proof -
  have "\<not> 10 \<le> rv" using assms(2) by simp
  then show "tkey_set_master_key_rev rv t = Ok (t\<lparr>g_tkey_master_key_rev := rv\<rparr>)"
    by (simp add: tkey_set_master_key_rev_def)
  show "tkey_set_type c ty t = Ok (t\<lparr>g_tkey_type := ty\<rparr>)"
    using assms(1,3) by (auto simp: tkey_set_type_def tkey_validate_type_def bindR_panic_if)
qed

lemma user_unwrap_aes_wrapped_titlekey_safe:
  assumes e: "env_ok P e" and m: "mon_wf m" and a: "length args = 8"
  shows "safe (smc_post m) (user_unwrap_aes_wrapped_titlekey e args m)"
proof -
  note w = mon_wf_loaded [OF m] and f = mon_frame_refl [OF m]
  have ret: "safe (smc_post m) (Ok (2, args, m))" using a f by auto
  have run: "safe (smc_post m) (bindR (tkey_set_master_key_rev rv (m_tkey m)) (\<lambda>t.
        bindR (tkey_set_type (m_cfg m) 0 t) (\<lambda>t.
        bindR (with_se (tkey_aes_unwrap (env_eng e) (env_stack e 0x10) 0x10 (qwords x y) 0x10
                 (m_tkey (m\<lparr>m_tkey := t\<rparr>)) (m_mkey (m\<lparr>m_tkey := t\<rparr>))) (m\<lparr>m_tkey := t\<rparr>))
          (\<lambda>(titlekey, m).
        bindR (with_se (seal_titlekey (env_eng e) (env_stack e 0x10) 0x10 titlekey 0x10) m) (\<lambda>(sealed_titlekey, m).
        Ok (0, put_qwords sealed_titlekey args, m))))))" if "rv < 10" for rv x y
    unfolding tkey_setters [OF w(2) that disjI1 [OF refl]] bindR.simps
    apply (rule with_se_step [OF mon_frame_tkey [OF f]], use w in simp, use w in simp)
     apply (rule tkey_aes_unwrap_safe [OF env_okD(1) [OF e]], use w in simp, simp, simp, use env_okD(2) [OF e] in simp, simp)
    apply (simp, rule with_se_step, assumption, rule seal_titlekey_safe [OF env_okD(1) [OF e]])
    using env_okD(2) [OF e] a by auto
  show ?thesis
    unfolding user_unwrap_aes_wrapped_titlekey_def Let_def w(1) bindR.simps
    by (intro safe_ifI run ret) auto
qed

lemma user_unwrap_rsa_oaep_wrapped_titlekey_safe:
  assumes e: "env_ok P e" and m: "mon_wf m" and a: "length args = 8"
  shows "safe (smc_post m) (user_unwrap_rsa_oaep_wrapped_titlekey e args m)"
proof -
  note w = mon_wf_loaded [OF m] and f = mon_frame_refl [OF m]
  have ret: "safe (smc_post m) (Ok (2, args, m))" using a f by auto
  have run: "safe (smc_post m) (fetch_page a1 args m (\<lambda>page_ref m.
        fetch page_ref (env_stack e 0x100) a1 0x100 args m (\<lambda>wrapped_key.
        fetch page_ref (env_stack e 0x100) a2 0x100 args m (\<lambda>modulus.
        bindR (tkey_set_master_key_rev rv (m_tkey ((set_exp_mod_done False m)\<lparr>m_tkey :=
                 tkey_set_expected_label_hash lh (m_tkey (set_exp_mod_done False m))\<rparr>))) (\<lambda>t.
           bindR (tkey_set_type (m_cfg ((set_exp_mod_done False m)\<lparr>m_tkey :=
                 tkey_set_expected_label_hash lh (m_tkey (set_exp_mod_done False m))\<rparr>)) ty t) (\<lambda>t.
           bindR (on_se (set_rsa_keyslot 0 modulus 0x100
                  (g_imported_exponents ((set_exp_mod_done False m)\<lparr>m_tkey :=
                     tkey_set_expected_label_hash lh (m_tkey (set_exp_mod_done False m)), m_tkey := t\<rparr>) ! 0) 0x100)
               ((set_exp_mod_done False m)\<lparr>m_tkey :=
                     tkey_set_expected_label_hash lh (m_tkey (set_exp_mod_done False m)), m_tkey := t\<rparr>)) (\<lambda>m.
           bindR (on_se (se_exp_mod (env_eng e) 0 wrapped_key 0x100 Exp_mod_done_handler) m) (\<lambda>m.
           Ok (0, args, m)))))))))" if "rv < 10" "ty = 0 \<or> (ty = 1 \<and> 6 \<le> fw_of (m_cfg m))" for rv ty a1 a2 lh
  proof (rule fetch_page_step [OF f a], rule fetch_step [OF _ a], assumption, assumption,
      use env_okD(2) [OF e] in simp, simp, rule fetch_step [OF _ a], assumption, assumption,
      use env_okD(2) [OF e] in simp, simp)
    fix r m' and wk md :: bytes assume f': "mon_frame m m'" and "page_ok r m'"
    have c: "m_cfg m' = m_cfg m" using f' by (simp add: mon_frame_def)
    note w' = mon_wf_loaded [OF mon_frame_wf [OF f']]
    have t: "tkey_set_type (m_cfg m') ty t = Ok (t\<lparr>g_tkey_type := ty\<rparr>)" for t
      using tkey_setters(2) [OF w(2) that] c by simp
    let ?t = "(tkey_set_expected_label_hash lh (m_tkey m'))\<lparr>g_tkey_master_key_rev := rv, g_tkey_type := ty\<rparr>"
    have "g_tkey_type ?t \<le> 1" "length (g_tkey_expected_label_hash ?t) = 4"
      using that(2) w'(10) by (auto simp: tkey_set_expected_label_hash_def upt_rec)
    then have "mon_frame m ((set_exp_mod_done False m')\<lparr>m_tkey := ?t\<rparr>)"
      by (rule mon_frame_tkey [OF mon_frame_fields(1) [OF f']])
    from start_exp_mod [OF e this a order_refl]
    show "safe (smc_post m) (bindR (tkey_set_master_key_rev rv (m_tkey ((set_exp_mod_done False m')\<lparr>m_tkey :=
                 tkey_set_expected_label_hash lh (m_tkey (set_exp_mod_done False m'))\<rparr>))) (\<lambda>t.
           bindR (tkey_set_type (m_cfg ((set_exp_mod_done False m')\<lparr>m_tkey :=
                 tkey_set_expected_label_hash lh (m_tkey (set_exp_mod_done False m'))\<rparr>)) ty t) (\<lambda>t.
           bindR (on_se (set_rsa_keyslot 0 md 0x100
                  (g_imported_exponents ((set_exp_mod_done False m')\<lparr>m_tkey :=
                     tkey_set_expected_label_hash lh (m_tkey (set_exp_mod_done False m')), m_tkey := t\<rparr>) ! 0) 0x100)
               ((set_exp_mod_done False m')\<lparr>m_tkey :=
                     tkey_set_expected_label_hash lh (m_tkey (set_exp_mod_done False m')), m_tkey := t\<rparr>)) (\<lambda>m.
           bindR (on_se (se_exp_mod (env_eng e) 0 wk 0x100 Exp_mod_done_handler) m) (\<lambda>m.
           Ok (0, args, m))))))"
      using tkey_setters(1) [OF w(2) that] t by (simp add: set_exp_mod_done_def)
  qed
  show ?thesis
    unfolding user_unwrap_rsa_oaep_wrapped_titlekey_def Let_def w(1) bindR.simps
    using and_1_cases [of "drop_bit 6 (ucast (args ! 7) :: u32)"]
    by (intro safe_ifI run ret) auto
qed

section \<open>Every handler satisfies the contract\<close>

interpretation h_exp_mod: smc_handler user_exp_mod
  by unfold_locales (rule user_exp_mod_safe)
interpretation h_get_random_bytes: smc_handler user_get_random_bytes
  by unfold_locales (rule user_get_random_bytes_safe)
interpretation h_generate_aes_kek: smc_handler user_generate_aes_kek
  by unfold_locales (rule user_generate_aes_kek_safe)
interpretation h_load_aes_key: smc_handler user_load_aes_key
  by unfold_locales (rule user_load_aes_key_safe)
interpretation h_crypt_aes: smc_handler user_crypt_aes
  by unfold_locales (rule user_crypt_aes_safe)
interpretation h_generate_specific_aes_key: smc_handler user_generate_specific_aes_key
  by unfold_locales (rule user_generate_specific_aes_key_safe)
interpretation h_compute_cmac: smc_handler user_compute_cmac
  by unfold_locales (rule user_compute_cmac_safe)
interpretation h_load_rsa_oaep_key: smc_handler user_load_rsa_oaep_key
  by unfold_locales (rule user_load_rsa_oaep_key_safe)
interpretation h_decrypt_rsa_private_key: smc_handler user_decrypt_rsa_private_key
  by unfold_locales (rule user_decrypt_rsa_private_key_safe)
interpretation h_load_secure_exp_mod_key: smc_handler user_load_secure_exp_mod_key
  by unfold_locales (rule user_load_secure_exp_mod_key_safe)
interpretation h_secure_exp_mod: smc_handler user_secure_exp_mod
  by unfold_locales (rule user_secure_exp_mod_safe)
interpretation h_unwrap_rsa: smc_handler user_unwrap_rsa_oaep_wrapped_titlekey
  by unfold_locales (rule user_unwrap_rsa_oaep_wrapped_titlekey_safe)
interpretation h_load_titlekey: smc_handler user_load_titlekey
  by unfold_locales (rule user_load_titlekey_safe)
interpretation h_unwrap_aes: smc_handler user_unwrap_aes_wrapped_titlekey
  by unfold_locales (rule user_unwrap_aes_wrapped_titlekey_safe)
interpretation h_encrypt_for_import: smc_handler user_encrypt_rsa_key_for_import
  by unfold_locales (rule user_encrypt_rsa_key_for_import_safe)
interpretation h_decrypt_or_import: smc_handler user_decrypt_or_import_rsa_key
  by unfold_locales (rule user_decrypt_or_import_rsa_key_safe)

definition user_handlers :: "(env \<Rightarrow> handler) list" where
  "user_handlers =
    [user_exp_mod, user_get_random_bytes, user_generate_aes_kek, user_load_aes_key, user_crypt_aes,
     user_generate_specific_aes_key, user_compute_cmac, user_load_rsa_oaep_key, user_decrypt_rsa_private_key,
     user_load_secure_exp_mod_key, user_secure_exp_mod, user_unwrap_rsa_oaep_wrapped_titlekey,
     user_load_titlekey, user_unwrap_aes_wrapped_titlekey, user_encrypt_rsa_key_for_import,
     user_decrypt_or_import_rsa_key]"

lemma user_handlers_contract: "h \<in> set user_handlers \<Longrightarrow> smc_handler h"
  using h_exp_mod.smc_handler_axioms h_get_random_bytes.smc_handler_axioms h_generate_aes_kek.smc_handler_axioms
    h_load_aes_key.smc_handler_axioms h_crypt_aes.smc_handler_axioms h_generate_specific_aes_key.smc_handler_axioms
    h_compute_cmac.smc_handler_axioms h_load_rsa_oaep_key.smc_handler_axioms h_decrypt_rsa_private_key.smc_handler_axioms
    h_load_secure_exp_mod_key.smc_handler_axioms h_secure_exp_mod.smc_handler_axioms h_unwrap_rsa.smc_handler_axioms
    h_load_titlekey.smc_handler_axioms h_unwrap_aes.smc_handler_axioms h_encrypt_for_import.smc_handler_axioms
    h_decrypt_or_import.smc_handler_axioms
  by (auto simp: user_handlers_def)

end
