(* ===== verification/SMC_Dispatch.thy ===== *)
theory SMC_Dispatch
  imports SMC_API SMC_Handlers
begin

text \<open>
  The dispatcher as a state machine: what any call may do to the lock of the user calls, to
  the invariant of the monitor and to the keys, and what a sequence of calls and completion
  interrupts can reach.
\<close>

section \<open>States that a call leaves\<close>

lemma safe_keeps: "safe Q r \<Longrightarrow> keeps Q r"
  by (cases r) simp_all

fun outcome_state :: "outcome \<Rightarrow> secmon" where
  "outcome_state (Returned v args s) = s"
| "outcome_state (Off s) = s"

lemma outcome_state_finish [simp]: "outcome_state (finish_call r) = outcome_state r"
  by (cases r) (simp_all add: finish_call_def)

section \<open>The lock\<close>

text \<open>The lock is held and no key would let anybody release it.\<close>

definition locked_out :: "secmon \<Rightarrow> bool" where
  "locked_out s \<longleftrightarrow> g_is_user_smc_in_progress s \<and> g_smc_callback_key s = 0"

lemma set_lock_same: "g_is_user_smc_in_progress s \<Longrightarrow> s\<lparr>g_is_user_smc_in_progress := True\<rparr> = s"
  by (cases s) simp

lemma try_set_locked: "g_is_user_smc_in_progress s \<Longrightarrow> try_set_user_smc_in_progress s = (False, s)"
  by (simp add: try_set_user_smc_in_progress_def set_lock_same)

lemma try_set_free: "\<not> g_is_user_smc_in_progress s \<Longrightarrow> try_set_user_smc_in_progress s = (True, s\<lparr>g_is_user_smc_in_progress := True\<rparr>)"
  by (simp add: try_set_user_smc_in_progress_def)

lemma wrapper_locked:
  assumes "g_is_user_smc_in_progress s"
  shows "smc_wrapper_sync h args s = Ok (Returned 3 args s)" "smc_wrapper_async e h cb args s = Ok (Returned 3 args s)"
  using assms by (simp_all add: smc_wrapper_sync_def smc_wrapper_async_def try_set_locked)

text \<open>The calls that take the lock.\<close>

definition locking_calls :: "smc_fn list" where
  "locking_calls =
    [Smc_exp_mod, Smc_get_random_bytes_for_user, Smc_generate_aes_kek, Smc_load_aes_key, Smc_crypt_aes,
     Smc_generate_specific_aes_key, Smc_compute_cmac, Smc_load_rsa_oaep_key, Smc_decrypt_rsa_private_key,
     Smc_load_secure_exp_mod_key, Smc_secure_exp_mod, Smc_unwrap_rsa_oaep_wrapped_titlekey, Smc_load_titlekey,
     Smc_unwrap_aes_wrapped_titlekey, Smc_encrypt_rsa_key_for_import, Smc_decrypt_or_import_rsa_key,
     Smc_cpu_suspend, Smc_ams_iram_copy, Smc_ams_write_address, Smc_ams_get_emummc_config]"

lemma locking_call_locked:
  "g_is_user_smc_in_progress s \<Longrightarrow> h \<in> set locking_calls \<Longrightarrow> smc_code_of e h args s = Ok (Returned 3 args s)"
  by (auto simp: locking_calls_def wrapper_locked)

lemma status_call_locked_out:
  assumes "locked_out s"
  shows "smc_check_status e args s = Ok (Returned 4 args s)" "smc_get_result e args s = Ok (Returned 4 args s)"
  using assms by (simp_all add: smc_check_status_def smc_get_result_def locked_out_def)

text \<open>A register access changes nothing but the history of accesses, by at most one write, to the register it names.\<close>

lemma read_write_register_refused:
  "mon_fw s = Ok fw \<Longrightarrow> rw_register fw (args ! 1) = Inl r \<Longrightarrow> smc_read_write_register e args s = Ok (Returned r args s)"
  by (simp add: smc_read_write_register_def Let_def)

lemma read_write_register_done:
  assumes "mon_fw s = Ok fw" "rw_register fw (args ! 1) = Inr a" "m = ucast (args ! 2)" "value = ucast (args ! 3)"
  shows "\<exists>old tr. smc_read_write_register e args s = Ok (Returned 0 (args[1 := ucast (old :: u32)]) (s\<lparr>s_io := tr\<rparr>))
     \<and> writes_of tr = (if m = 0 then [] else [(a, (old AND NOT m) OR (value AND m))]) @ writes_of (s_io s)
     \<and> (m \<noteq> 0xFFFFFFFF \<longrightarrow> old = e_dev e (s_io s) a)"
proof -
  let ?old = "if m = 0xFFFFFFFF then 0 else e_dev e (s_io s) a"
  let ?tr1 = "if m = 0xFFFFFFFF then s_io s else Rd a (e_dev e (s_io s) a) # s_io s"
  let ?tr = "if m \<noteq> 0 then Wr a ((?old AND NOT m) OR (value AND m)) # ?tr1 else ?tr1"
  have "smc_read_write_register e args s = Ok (Returned 0 (args[1 := ucast ?old]) (s\<lparr>s_io := ?tr\<rparr>))"
    using assms by (auto simp: smc_read_write_register_def Let_def read_io_def io_read_def upd_io_def io_write_def)
  then show ?thesis by (intro exI [of _ ?old] exI [of _ ?tr]) auto
qed

lemma rw_register_locked_out:
  assumes "locked_out s"
  shows "keeps (\<lambda>r. locked_out (outcome_state r)) (smc_read_write_register e args s)"
proof (cases "mon_fw s")
  case (Ok fw)
  show ?thesis
  proof (cases "rw_register fw (args ! 1)")
    case (Inl r)
    then show ?thesis using assms by (simp add: read_write_register_refused [OF Ok])
  next
    case (Inr a)
    then show ?thesis
      using read_write_register_done [OF Ok Inr refl refl, of e] assms by (auto simp: locked_out_def simp del: One_nat_def)
  qed
qed (simp_all add: smc_read_write_register_def)

lemma other_calls_locked_out:
  assumes l: "locked_out s"
  shows "keeps (\<lambda>r. locked_out (outcome_state r)) (smc_set_config_user args s)"
    "keeps (\<lambda>r. locked_out (outcome_state r)) (smc_get_config e b args s)"
    "keeps (\<lambda>r. locked_out (outcome_state r)) (smc_cpu_on e args s)"
    "keeps (\<lambda>r. locked_out (outcome_state r)) (smc_cpu_off e args s)"
    "keeps (\<lambda>r. locked_out (outcome_state r)) (smc_get_random_bytes_for_priv e args s)"
    "keeps (\<lambda>r. locked_out (outcome_state r)) (smc_configure_carveout args s)"
proof -
  have g: "g_is_user_smc_in_progress s" using l by (simp add: locked_out_def)
  show "keeps (\<lambda>r. locked_out (outcome_state r)) (smc_set_config_user args s)"
    unfolding smc_set_config_user_def by (rule keeps_bind_any) (use l in \<open>auto simp: locked_out_def\<close>)
  show "keeps (\<lambda>r. locked_out (outcome_state r)) (smc_get_config e b args s)"
    unfolding smc_get_config_def Let_def by (rule keeps_bind_any) (use l in \<open>auto simp: locked_out_def\<close>)
  show "keeps (\<lambda>r. locked_out (outcome_state r)) (smc_cpu_on e args s)"
    unfolding smc_cpu_on_def by (rule keeps_bind_any) (use l in \<open>auto simp: locked_out_def\<close>)
  show "keeps (\<lambda>r. locked_out (outcome_state r)) (smc_cpu_off e args s)"
    using l by (simp add: smc_cpu_off_def cpu_off_def Let_def locked_out_def clear_priv_smc_in_progress_def split: prod.split)
  show "keeps (\<lambda>r. locked_out (outcome_state r)) (smc_get_random_bytes_for_priv e args s)"
    unfolding smc_get_random_bytes_for_priv_def try_set_locked [OF g] prod.case Let_def
    using l by (auto intro!: keeps_bind_any simp: locked_out_def)
  show "keeps (\<lambda>r. locked_out (outcome_state r)) (smc_configure_carveout args s)"
    unfolding smc_configure_carveout_def Let_def
    using l by (auto intro!: keeps_bind_any simp: locked_out_def)
qed

lemma smc_code_locked_out:
  assumes "locked_out s"
  shows "keeps (\<lambda>r. locked_out (outcome_state r)) (smc_code_of e h args s)"
proof (cases "h \<in> set locking_calls")
  case True
  then show ?thesis using locking_call_locked [of s h e args] assms by (simp add: locked_out_def)
next
  case False
  then show ?thesis
    using other_calls_locked_out [OF assms] rw_register_locked_out [OF assms] status_call_locked_out [OF assms] assms
    by (cases h) (auto simp: locking_calls_def smc_get_config_user_def smc_get_config_priv_def smc_panic_def Let_def)
qed

lemma call_locked_out:
  assumes "locked_out s"
  shows "keeps (\<lambda>r. locked_out (outcome_state r)) (call_smc_handler e hid args s)"
proof -
  have "keeps (\<lambda>r. locked_out (outcome_state r)) (bindR (smc_code_of e h args s) (\<lambda>r. Ok (finish_call r)))" for h
    by (rule keeps_bindI [OF smc_code_locked_out [OF assms]]) simp
  then show ?thesis
    unfolding call_smc_handler_def Let_def using assms
    by (intro keeps_bind_any) (auto split: option.split intro!: keeps_bind_any simp: finish_call_def)
qed

section \<open>Runs of the monitor\<close>

text \<open>
  While the engine works on an asynchronous operation of its own it changes its status,
  result and counter registers and the updated initialisation vectors (words 12 to 15 of a
  slot), never a word that holds a key.
\<close>

definition se_async_done :: "se_state \<Rightarrow> se_state \<Rightarrow> bool" where
  "se_async_done se se' \<longleftrightarrow>
     (\<exists>i f r h q c t n. se' = se\<lparr>INT_STATUS_REG := i, FLAGS_REG := f, ERR_STATUS_REG := r, HASH_RESULT_REG := h, RSA_OUTPUT := q,
        CRYPTO_CTR_REG := c, aes_keytable := t, op_count := n\<rparr> \<and> length c = length (CRYPTO_CTR_REG se)
        \<and> (\<forall>a. a AND 0xC \<noteq> 0xC \<longrightarrow> t a = aes_keytable se a))"

text \<open>
  A step of the running monitor: an SMC from any core that comes back, or the completion
  interrupt of the engine. \<open>smc_step\<close> adds the calls that end with a core powered off.
\<close>

inductive awake_step :: "senv \<Rightarrow> secmon \<Rightarrow> secmon \<Rightarrow> bool" for e where
  call: "length args = 8 \<Longrightarrow> call_smc_handler (e\<lparr>e_core := core\<rparr>) hid args s = Ok (Returned v args' s') \<Longrightarrow> awake_step e s s'"
| completed: "se_async_done (m_se (s_mon s)) se \<Longrightarrow> se_operation_completed ((s_mon s)\<lparr>m_se := se\<rparr>) = Ok m \<Longrightarrow>
    awake_step e s (s\<lparr>s_mon := m\<rparr>)"

inductive smc_step :: "senv \<Rightarrow> secmon \<Rightarrow> secmon \<Rightarrow> bool" for e where
  awake: "awake_step e s s' \<Longrightarrow> smc_step e s s'"
| off: "length args = 8 \<Longrightarrow> call_smc_handler (e\<lparr>e_core := core\<rparr>) hid args s = Ok (Off s') \<Longrightarrow> smc_step e s s'"

lemma locked_out_awake: "awake_step e s s' \<Longrightarrow> locked_out s \<Longrightarrow> locked_out s'"
proof (induction rule: awake_step.induct)
  case (call args core hid s v args' s')
  then show ?case using keepsD [OF call_locked_out call(2)] by simp
next
  case (completed s se m)
  then show ?case by (simp add: locked_out_def)
qed

lemma locked_out_step: "smc_step e s s' \<Longrightarrow> locked_out s \<Longrightarrow> locked_out s'"
proof (induction rule: smc_step.induct)
  case (awake s s')
  then show ?case by (rule locked_out_awake)
next
  case (off args core hid s s')
  then show ?case using keepsD [OF call_locked_out off(2)] by simp
qed

lemma locked_out_run: "(smc_step e)\<^sup>*\<^sup>* s s' \<Longrightarrow> locked_out s \<Longrightarrow> locked_out s'"
  by (induction rule: rtranclp_induct) (auto intro: locked_out_step)

text \<open>An operation is pending: its caller got a key, and the engine has not reported completion.\<close>

fun callback_done :: "smc_callback \<Rightarrow> monitor \<Rightarrow> bool" where
  "callback_done Smc_exp_mod_get_result m = get_exp_mod_done m"
| "callback_done Smc_crypt_aes_status_check m = get_crypt_aes_done m"
| "callback_done Smc_unwrap_rsa_oaep_wrapped_titlekey_get_result m = get_exp_mod_done m"

lemma callback_not_done: "\<not> callback_done cb (s_mon s) \<Longrightarrow> run_smc_callback e (Some cb) buf sz s = Ok (3, buf, s)"
  by (cases cb) (simp_all add: smc_exp_mod_get_result_def smc_crypt_aes_status_check_def
      smc_unwrap_rsa_oaep_wrapped_titlekey_get_result_def Let_def)

lemma check_status_early:
  assumes "g_is_user_smc_in_progress s" "g_smc_callback_key s \<noteq> 0" "args ! 1 = g_smc_callback_key s"
    and "g_smc_callback s = Some cb" "\<not> callback_done cb (s_mon s)"
  shows "smc_check_status e args s = Ok (Returned 0 (args[1 := 3]) (s\<lparr>g_smc_callback_key := 0\<rparr>))"
  using assms callback_not_done [OF assms(5), of e "[]" 0] by (simp add: smc_check_status_def)

section \<open>The whitelists\<close>

lemma rw_register_whitelisted:
  assumes "rw_register fw address = Inr a"
  shows "(\<exists>ofs. whitelisted pmc_whitelist ofs \<and> address = 0x7000E400 + ucast ofs \<and> a = PMC_BASE + ucast ofs)
    \<or> (4 \<le> fw \<and> (\<exists>ofs. whitelisted mc_whitelist ofs \<and> address = 0x70019000 + ucast ofs
          \<and> a = MMIO_GET_DEVICE_ADDRESS MMIO_DEVID_MC + ucast ofs))"
proof -
  have off: "address = base + ucast (ucast (address - base) :: u32)"
    if "base \<le> address" "address < base + 0x1000" "base < 0x80000000" for base :: u64
  proof -
    have "unat (address - base) < 0x1000"
      using that by (simp add: word_less_nat_alt word_le_nat_alt unat_sub_if_size unat_word_ariths)
    then have "address - base < 2 ^ 12" by (simp add: word_less_nat_alt)
    then have "ucast (ucast (address - base) :: u32) = address - base"
      using bit_less_exp [of "address - base" 12] by (intro bit_word_eqI) (force simp: bit_ucast_iff)
    then show ?thesis by simp
  qed
  have pmc: ?thesis if "0x7000E400 \<le> address" "address \<le> 0x7000EFFF" "whitelisted pmc_whitelist (ucast (address - 0x7000E400))"
      "a = PMC_BASE + ucast (ucast (address - 0x7000E400) :: u32)"
  proof -
    have "address < 0x7000E400 + 0x1000" using that(2) by (simp add: word_less_nat_alt word_le_nat_alt)
    then show ?thesis using off [OF that(1)] that(3,4) by (intro disjI1 exI [of _ "ucast (address - 0x7000E400)"]) simp
  qed
  have mc: ?thesis if "4 \<le> fw" "0x70019000 \<le> address" "address < 0x70019000 + 0x1000" "whitelisted mc_whitelist (ucast (address - 0x70019000))"
      "a = MMIO_GET_DEVICE_ADDRESS MMIO_DEVID_MC + ucast (ucast (address - 0x70019000) :: u32)"
    using off [OF that(2,3)] that(1,4,5) by (intro disjI2 conjI exI [of _ "ucast (address - 0x70019000)"]) simp_all
  show ?thesis
    using assms pmc mc unfolding rw_register_def Let_def by (auto split: if_splits)
qed

end
