(* ===== verification/SMC_System.thy ===== *)
theory SMC_System
  imports SMC_Dispatch
begin

text \<open>
  The invariant of the whole monitor under all calls: every SMC that comes back keeps it and
  changes no key but those of the user slots and the scratch slot; user calls run into no
  undefined behaviour.
\<close>

section \<open>Invariant and frame\<close>

definition secmon_wf :: "secmon \<Rightarrow> bool" where
  "secmon_wf s \<longleftrightarrow> mon_wf (s_mon s) \<and> cpu_wf (s_cpu s) \<and> mc_wf (s_mc s) \<and> length (g_configured_carveouts s) = 2
     \<and> (g_smc_callback_key s \<noteq> 0 \<longrightarrow> g_smc_callback s \<noteq> None)
     \<and> \<not> s_ams_userpage_mapped s \<and> \<not> s_ams_iram_page_mapped s"

definition ret_post :: "secmon \<Rightarrow> outcome \<Rightarrow> bool" where
  "ret_post s r \<longleftrightarrow> (case r of
     Returned v args' s' \<Rightarrow> length args' = 8 \<and> secmon_wf s' \<and> se_frame user_slots (m_se (s_mon s)) (m_se (s_mon s'))
   | Off s' \<Rightarrow> True)"

lemma ret_postI:
  "length args' = 8 \<Longrightarrow> secmon_wf s' \<Longrightarrow> se_frame user_slots (m_se (s_mon s)) (m_se (s_mon s')) \<Longrightarrow> ret_post s (Returned v args' s')"
  by (simp add: ret_post_def)

lemma ret_post_same: "secmon_wf s \<Longrightarrow> length args = 8 \<Longrightarrow> ret_post s (Returned v args s)"
  by (simp add: ret_post_def)

lemma secmon_wf_mon: "secmon_wf s \<Longrightarrow> mon_wf m \<Longrightarrow> secmon_wf (s\<lparr>s_mon := m\<rparr>)"
  by (simp add: secmon_wf_def)

lemma secmon_wf_lock [simp]:
  "secmon_wf (s\<lparr>g_is_user_smc_in_progress := b\<rparr>) = secmon_wf s" "secmon_wf (clear_user_smc_in_progress s) = secmon_wf s"
  "secmon_wf (s\<lparr>s_io := tr\<rparr>) = secmon_wf s"
  by (simp_all add: secmon_wf_def clear_user_smc_in_progress_def)

lemma secmon_wf_key: "secmon_wf s \<Longrightarrow> secmon_wf (s\<lparr>g_smc_callback_key := 0\<rparr>)"
  by (simp add: secmon_wf_def)

lemma secmon_wf_clear_callback: "secmon_wf s \<Longrightarrow> secmon_wf (clear_smc_callback k s)"
  by (simp add: clear_smc_callback_def secmon_wf_key)

lemma s_mon_lock [simp]:
  "s_mon (clear_user_smc_in_progress s) = s_mon s" "s_mon (clear_smc_callback k s) = s_mon s"
  by (simp_all add: clear_user_smc_in_progress_def clear_smc_callback_def)

section \<open>User calls\<close>

definition came_back :: "secmon \<Rightarrow> outcome \<Rightarrow> bool" where
  "came_back s r \<longleftrightarrow> (\<exists>v args' s'. r = Returned v args' s' \<and> length args' = 8 \<and> secmon_wf s'
     \<and> se_frame user_slots (m_se (s_mon s)) (m_se (s_mon s')))"

lemma came_back_post: "came_back s r \<Longrightarrow> ret_post s r"
  by (auto simp: came_back_def ret_post_def)

lemma came_backI:
  "length args' = 8 \<Longrightarrow> secmon_wf s' \<Longrightarrow> se_frame user_slots (m_se (s_mon s)) (m_se (s_mon s')) \<Longrightarrow> came_back s (Returned v args' s')"
  by (simp add: came_back_def)

lemma run_user_safe:
  assumes "h \<in> set user_handlers" "env_ok P (e_user e)" "secmon_wf s" "length args = 8"
  shows "safe (came_back s) (run_user e h args s)"
  unfolding run_user_def
proof (rule safe_bindI [OF smc_handler.contract [OF user_handlers_contract [OF assms(1)] assms(2)]])
  show "mon_wf (s_mon s)" using assms(3) by (simp add: secmon_wf_def)
  show "length args = 8" by (rule assms(4))
  fix x assume "smc_post (s_mon s) x"
  then show "safe (came_back s) (case x of (r, args, m) \<Rightarrow> Ok (Returned r args (s\<lparr>s_mon := m\<rparr>)))"
    using assms(3) by (auto simp: smc_post_def mon_frame_def split: prod.splits intro!: came_backI secmon_wf_mon)
qed

lemma sync_safe:
  assumes "secmon_wf s" "length args = 8"
    and "\<And>s'. secmon_wf s' \<Longrightarrow> s_mon s' = s_mon s \<Longrightarrow> safe (came_back s') (handler args s')"
  shows "safe (came_back s) (smc_wrapper_sync handler args s)"
proof (cases "g_is_user_smc_in_progress s")
  case True
  then show ?thesis using assms(1,2) by (simp add: wrapper_locked came_backI)
next
  case False
  let ?s = "s\<lparr>g_is_user_smc_in_progress := True\<rparr>"
  have "safe (came_back ?s) (handler args ?s)" using assms(1,3) by simp
  then show ?thesis
    unfolding smc_wrapper_sync_def try_set_free [OF False] prod.case
    by (auto simp: came_back_def intro!: safe_bindI [where R = "came_back ?s"])
qed

lemma try_set_smc_callback_safe:
  assumes "env_ok P (e_user e)" "secmon_wf s"
  shows "safe (\<lambda>(key, s'). secmon_wf s' \<and> se_frame user_slots (m_se (s_mon s)) (m_se (s_mon s'))) (try_set_smc_callback e cb s)"
proof (cases "g_smc_callback_key s = 0")
  case True
  have w: "mon_frame (s_mon s) (s_mon s)" using assms(2) by (simp add: secmon_wf_def mon_frame_refl)
  have l: "length (env_stack (e_user e) 8) = 8" using assms(1) by (simp add: env_ok_def)
  have g: "safe (\<lambda>(out, se'). length out = 8 \<and> se_frame {} (m_se (s_mon s)) se')
      (se_generate_random (env_eng (e_user e)) 0xB (env_stack (e_user e) 8) 8 (m_se (s_mon s)))"
    using generate_random_safe [of P "env_eng (e_user e)" "0xB" 8 "env_stack (e_user e) 8" "m_se (s_mon s)"] assms(1) l by (simp add: env_ok_def)
  show ?thesis
    unfolding try_set_smc_callback_def Let_def using True
    by (simp, intro with_se_step [OF w, of "\<lambda>out. length out = 8" "{}"] g)
       (use assms(2) in \<open>auto simp: secmon_wf_def mon_frame_def\<close>)
next
  case False
  then show ?thesis using assms(2) by (simp add: try_set_smc_callback_def)
qed

lemma came_back_trans:
  "se_frame user_slots (m_se (s_mon s)) (m_se (s_mon s1)) \<Longrightarrow> came_back s1 r \<Longrightarrow> came_back s r"
  by (auto simp: came_back_def intro: se_frame_trans)

lemma async_safe:
  assumes e: "env_ok P (e_user e)" and wf: "secmon_wf s" and l: "length args = 8"
    and h: "\<And>s'. secmon_wf s' \<Longrightarrow> safe (came_back s') (handler args s')"
  shows "safe (came_back s) (smc_wrapper_async e handler cb args s)"
proof (cases "g_is_user_smc_in_progress s")
  case True
  then show ?thesis using wf l by (simp add: wrapper_locked came_backI)
next
  case False
  let ?s = "s\<lparr>g_is_user_smc_in_progress := True\<rparr>"
  have call: "safe (came_back s1) (bindR (handler args s1) (\<lambda>r. case r of
      Returned result args s \<Rightarrow> if result = 0 then Ok (Returned 0 (args[1 := key]) s)
        else Ok (Returned result args (clear_user_smc_in_progress (clear_smc_callback key s)))
    | Off s \<Rightarrow> Ok (Off s)))" if "secmon_wf s1" for s1 :: secmon and key :: u64
    by (rule safe_bindI [OF h [OF that]]) (auto simp: came_back_def secmon_wf_clear_callback)
  show ?thesis
    unfolding smc_wrapper_async_def try_set_free [OF False] prod.case not_True_eq_False if_False
  proof (rule safe_bindI [OF try_set_smc_callback_safe [OF e, of ?s]])
    show "secmon_wf ?s" using wf by simp
    fix x :: "u64 \<times> secmon" assume "case x of (key, s') \<Rightarrow> secmon_wf s' \<and> se_frame user_slots (m_se (s_mon ?s)) (m_se (s_mon s'))"
    then obtain key s1 where x: "x = (key, s1)" "secmon_wf s1" "se_frame user_slots (m_se (s_mon s)) (m_se (s_mon s1))"
      by (cases x) auto
    have "safe (came_back s) (bindR (handler args s1) (\<lambda>r. case r of
      Returned result args s \<Rightarrow> if result = 0 then Ok (Returned 0 (args[1 := key]) s)
        else Ok (Returned result args (clear_user_smc_in_progress (clear_smc_callback key s)))
    | Off s \<Rightarrow> Ok (Off s)))"
      using call [OF x(2)] came_back_trans [OF x(3)] by (rule safe_mono)
    then show "safe (came_back s) (case x of (key, s) \<Rightarrow>
        if key \<noteq> 0
        then bindR (handler args s) (\<lambda>r. case r of
               Returned result args s \<Rightarrow>
                 if result = 0 then Ok (Returned 0 (args[1 := key]) s)
                 else Ok (Returned result args (clear_user_smc_in_progress (clear_smc_callback key s)))
             | Off s \<Rightarrow> Ok (Off s))
        else Ok (Returned 3 args (clear_user_smc_in_progress s)))"
      using x(2,3) l by (simp add: x(1) came_backI)
  qed
qed

section \<open>Status and result\<close>

lemma length_exp_mod_output:
  assumes "0x100 \<le> length buf"
  shows "length (se_get_exp_mod_output buf 0x100 se) = length buf"
proof -
  have "length (fold (\<lambda>i buf. write32le buf (4 * (64 - 1 - i)) (read32be (RSA_OUTPUT se) (4 * i))) is buf) = length buf"
    if "\<forall>i \<in> set is. i < 64" for "is" :: "nat list"
    using that assms
  proof (induction "is" arbitrary: buf)
    case (Cons i "is")
    then have "length (write32le buf (4 * (64 - 1 - i)) (read32be (RSA_OUTPUT se) (4 * i))) = length buf" by (simp add: write32le_def)
    then show ?case using Cons by simp
  qed simp
  then show ?thesis by (simp add: se_get_exp_mod_output_def Let_def)
qed

lemma oaep_unwrap_safe:
  assumes "se_engine_ok P eng" "length src = 0x100" "length dst = 0x10"
  shows "safe (\<lambda>(n, out, se'). length out = 0x10 \<and> se_frame user_slots se se') (tkey_rsa_oaep_unwrap eng dst 0x10 src 0x100 t se)"
proof -
  obtain s1 x1 where s1: "calculate_mgf1_and_xor eng (bslice src 1 0x20) 0x20 (bslice src 0x21 0xDF) 0xDF se = Ok (x1, s1)"
      "se_core s1 = se_core se" "length x1 = 0x20"
    using mgf1_and_xor_ok [OF assms(1), of "0xDF" "bslice src 0x21 0xDF" "0x20" "bslice src 1 0x20" se] assms(2)
    by (auto simp: length_mgf1 [OF assms(1)])
  obtain s2 x2 where s2: "calculate_mgf1_and_xor eng (bslice src 0x21 0xDF) 0xDF x1 0x20 s1 = Ok (x2, s2)"
      "se_core s2 = se_core s1" "length x2 = 0xDF"
    using mgf1_and_xor_ok [OF assms(1), of "0x20" x1 "0xDF" "bslice src 0x21 0xDF" s1] assms(2) s1(3)
    by (auto simp: length_mgf1 [OF assms(1)])
  have f: "se_frame user_slots se s2" using s1(2) s2(2) by (simp add: se_frame_core)
  have len: "length (blit dst 0 (bslice (drop 0x20 x2) k (0xBF - k))) = 0x10" if "\<not> 0x10 < 0xBF - k" for k
    using that assms(3) s2(3) by (simp add: blit_def bslice_def)
  show ?thesis
    unfolding tkey_rsa_oaep_unwrap_def Let_def s1(1) bindR.simps prod.case s2(1)
    using f len assms(3) by (auto split: option.split)
qed

definition callback_post :: "nat \<Rightarrow> secmon \<Rightarrow> u32 \<times> bytes \<times> secmon \<Rightarrow> bool" where
  "callback_post n s r \<longleftrightarrow> (case r of (_, buf, s') \<Rightarrow> length buf = n \<and> secmon_wf s' \<and> mon_frame (s_mon s) (s_mon s'))"

lemma callback_postI: "length buf = n \<Longrightarrow> secmon_wf s' \<Longrightarrow> mon_frame (s_mon s) (s_mon s') \<Longrightarrow> callback_post n s (v, buf, s')"
  by (simp add: callback_post_def)

lemma titlekey_result_safe:
  assumes e: "env_ok P (e_user e)" and wf: "secmon_wf s" and sz: "unat sz \<le> length buf"
  shows "safe (callback_post (length buf) s) (smc_unwrap_rsa_oaep_wrapped_titlekey_get_result e buf sz s)"
proof (cases "get_exp_mod_done (s_mon s) \<and> sz = 0x10")
  case True
  let ?m = "s_mon s" and ?st = "env_stack (e_user e)"
  have ok: "se_engine_ok P (env_eng (e_user e))" and st: "length (?st n) = n" for n using e by (simp_all add: env_ok_def)
  have m: "mon_wf ?m" "mkey_wf (m_mkey ?m)" "g_tkey_type (m_tkey ?m) \<le> 1" using wf by (simp_all add: secmon_wf_def mon_wf_def)
  have l: "16 \<le> length buf" using sz True by simp
  have fin: "callback_post (length buf) s (v, buf', clear_user_smc_in_progress (s\<lparr>s_mon := ?m\<lparr>m_se := se\<rparr>\<rparr>))"
    if "se_frame user_slots (m_se ?m) se" "length buf' = length buf" for v buf' se
    using mon_frame_se [OF mon_frame_refl [OF m(1)] that(1)] that(2) wf
    by (intro callback_postI) (auto simp: secmon_wf_mon mon_frame_wf)
  have mono: "se_frame user_slots a b \<Longrightarrow> se_frame {9} b c \<Longrightarrow> se_frame user_slots a c" for a b c
    by (rule se_frame_trans) (auto simp: se_frame_def user_slots_def)
  have seal: "safe (callback_post (length buf) s) (bindR (seal_titlekey (env_eng (e_user e)) (?st 0x10) 0x10 tk 0x10 se) (\<lambda>(sealed_titlekey, se).
        Ok (0, blit buf 0 sealed_titlekey, clear_user_smc_in_progress (s\<lparr>s_mon := ?m\<lparr>m_se := se\<rparr>\<rparr>))))"
    if "length tk = 16" "se_frame user_slots (m_se ?m) se" for tk se
    by (rule safe_bindI [OF seal_titlekey_safe [OF ok that(1) st]]) (use l mono [OF that(2)] in \<open>auto intro!: fin\<close>)
  have unwrap: "safe (callback_post (length buf) s) (bindR (tkey_aes_unwrap (env_eng (e_user e)) (?st 0x10) 0x10 out 0x10 (m_tkey ?m) (m_mkey ?m) se) (\<lambda>(tk, se).
        bindR (seal_titlekey (env_eng (e_user e)) (?st 0x10) 0x10 tk 0x10 se) (\<lambda>(sealed_titlekey, se).
        Ok (0, blit buf 0 sealed_titlekey, clear_user_smc_in_progress (s\<lparr>s_mon := ?m\<lparr>m_se := se\<rparr>\<rparr>)))))"
    if "length out = 16" "se_frame user_slots (m_se ?m) se" for out se
    by (rule safe_bindI [OF tkey_aes_unwrap_safe [OF ok m(2,3) that(1) st]]) (use mono [OF that(2)] in \<open>auto intro!: seal\<close>)
  have src: "length (se_get_exp_mod_output (?st 0x100) 0x100 (m_se ?m)) = 0x100" by (simp add: length_exp_mod_output st)
  show ?thesis
    unfolding smc_unwrap_rsa_oaep_wrapped_titlekey_get_result_def Let_def
    by (simp add: True) (rule safe_bindI [OF oaep_unwrap_safe [OF ok src st]], use fin unwrap in auto)
next
  case False
  then show ?thesis
    using wf unfolding smc_unwrap_rsa_oaep_wrapped_titlekey_get_result_def Let_def
    by (auto intro!: callback_postI mon_frame_refl simp: secmon_wf_def)
qed

lemma callback_safe:
  assumes e: "env_ok P (e_user e)" and wf: "secmon_wf s" and sz: "unat sz \<le> length buf" and cb: "cb \<noteq> None"
  shows "safe (callback_post (length buf) s) (run_smc_callback e cb buf sz s)"
proof -
  have m: "mon_frame (s_mon s) (s_mon s)" using wf by (simp add: secmon_wf_def mon_frame_refl)
  obtain c where c: "cb = Some c" using cb by auto
  show ?thesis
  proof (cases c)
    case Smc_exp_mod_get_result
    have "0x100 \<le> length buf" if "sz = 0x100" using sz that by simp
    then show ?thesis using wf m
      by (auto simp: c Smc_exp_mod_get_result smc_exp_mod_get_result_def length_exp_mod_output intro!: callback_postI)
  next
    case Smc_crypt_aes_status_check
    then show ?thesis using wf m by (auto simp: c smc_crypt_aes_status_check_def intro!: callback_postI)
  next
    case Smc_unwrap_rsa_oaep_wrapped_titlekey_get_result
    then show ?thesis using titlekey_result_safe [OF e wf sz] by (simp add: c)
  qed
qed

lemma check_status_safe:
  assumes e: "env_ok P (e_user e)" and wf: "secmon_wf s" and l: "length args = 8"
  shows "safe (came_back s) (smc_check_status e args s)"
proof (cases "g_smc_callback_key s \<noteq> 0 \<and> args ! 1 = g_smc_callback_key s")
  case True
  then have "g_smc_callback s \<noteq> None" using wf by (simp add: secmon_wf_def)
  from callback_safe [OF e wf _ this, of 0 "[]"]
  have "safe (callback_post 0 s) (run_smc_callback e (g_smc_callback s) [] 0 s)" by simp
  then show ?thesis
    unfolding smc_check_status_def using True l
    by (auto intro!: safe_bindI came_backI simp: callback_post_def mon_frame_def secmon_wf_key)
next
  case False
  then show ?thesis using wf l by (auto simp: smc_check_status_def intro!: came_backI)
qed

text \<open>The end of \<^verbatim>\<open>smc_get_result\<close> is the idiom of the user handlers: get the page, copy to it.\<close>

definition deliver :: "u64 \<Rightarrow> bytes \<Rightarrow> nat \<Rightarrow> smc_args \<Rightarrow> monitor \<Rightarrow> (u32 \<times> smc_args \<times> monitor) res" where
  "deliver a buf n args m = fetch_page a args m (\<lambda>page m. store_back page a buf n args m (\<lambda>m. Ok (0, args, m)))"

lemma get_result_eq:
  assumes "g_smc_callback_key s \<noteq> 0" "args ! 1 = g_smc_callback_key s" "\<not> args ! 3 > 0x400"
  shows "smc_get_result e args s =
     bindR (run_smc_callback e (g_smc_callback s) (env_stack (e_user e) 0x400) (args ! 3) s) (\<lambda>(r, buf, s).
     bindR (deliver (args ! 2) buf (unat (args ! 3)) (args[1 := ucast r]) (s_mon s)) (\<lambda>(v, args, m).
     Ok (Returned v args (s\<lparr>g_smc_callback_key := 0, s_mon := m\<rparr>))))"
proof -
  have n: "args[1 := x] ! 3 = args ! 3" for x by simp
  have swap: "s\<lparr>g_smc_callback_key := 0, s_mon := m\<rparr> = (s\<lparr>g_smc_callback_key := 0\<rparr>)\<lparr>s_mon := m\<rparr>" for s m by simp
  show ?thesis
    using assms unfolding smc_get_result_def deliver_def fetch_page_def store_back_def Let_def
    by (auto simp: res_simps n split: prod.splits intro!: bindR_cong)
qed

lemma deliver_safe:
  assumes "mon_frame m0 m" "length args = 8" "n \<le> length buf" "n \<le> 0x1000"
  shows "safe (smc_post m0) (deliver a buf n args m)"
  unfolding deliver_def using assms
  by (intro fetch_page_step store_back_step) (auto intro: smc_postI)

lemma get_result_safe:
  assumes e: "env_ok P (e_user e)" and wf: "secmon_wf s" and l: "length args = 8"
  shows "safe (came_back s) (smc_get_result e args s)"
proof (cases "g_smc_callback_key s \<noteq> 0 \<and> args ! 1 = g_smc_callback_key s \<and> \<not> args ! 3 > 0x400")
  case True
  then have cb: "g_smc_callback s \<noteq> None" and n: "unat (args ! 3) \<le> 0x400" using wf by (simp_all add: secmon_wf_def word_less_nat_alt)
  let ?st = "env_stack (e_user e) 0x400"
  have st: "length ?st = 0x400" using e by (simp add: env_ok_def)
  have call: "safe (callback_post 0x400 s) (run_smc_callback e (g_smc_callback s) ?st (args ! 3) s)"
    using callback_safe [OF e wf _ cb, of "args ! 3" ?st] n by (simp add: st)
  have rest: "safe (came_back s) (bindR (deliver (args ! 2) buf (unat (args ! 3)) (args[1 := ucast r]) (s_mon t)) (\<lambda>(v, args, m).
      Ok (Returned v args (t\<lparr>g_smc_callback_key := 0, s_mon := m\<rparr>))))"
    if "callback_post 0x400 s (r, buf, t)" for r buf t
  proof (rule safe_bindI [OF deliver_safe])
    show "mon_frame (s_mon s) (s_mon t)" "length (args[1 := ucast r]) = 8" "unat (args ! 3) \<le> length buf" "unat (args ! 3) \<le> 0x1000"
      using that n l by (simp_all add: callback_post_def)
    fix x assume "smc_post (s_mon s) x"
    moreover have "secmon_wf (t\<lparr>g_smc_callback_key := 0\<rparr>)" using that by (simp add: callback_post_def secmon_wf_key)
    ultimately show "safe (came_back s) (case x of (v, args, m) \<Rightarrow> Ok (Returned v args (t\<lparr>g_smc_callback_key := 0, s_mon := m\<rparr>)))"
      by (auto simp: smc_post_def mon_frame_def split: prod.splits intro!: came_backI secmon_wf_mon)
  qed
  show ?thesis
    using True safe_bindI [OF call, of "came_back s"] rest by (auto simp: get_result_eq simp del: One_nat_def)
next
  case False
  then show ?thesis using wf l by (auto simp: smc_get_result_def Let_def intro!: came_backI)
qed

section \<open>Atmosphere calls\<close>

text \<open>They touch memory and two entries of the page table, neither of them that of the user page.\<close>

definition ams_frame :: "upage_state \<Rightarrow> upage_state \<Rightarrow> bool" where
  "ams_frame u u' \<longleftrightarrow> length (mmu_l3_tbl u') = length (mmu_l3_tbl u) \<and> g_user_page_user_address u' = g_user_page_user_address u
     \<and> (\<forall>i. i \<noteq> 0xA9 \<longrightarrow> i \<noteq> 0xAB \<longrightarrow> mmu_l3_tbl u' ! i = mmu_l3_tbl u ! i)"

definition ams_keep :: "ams_state \<Rightarrow> ams_state \<Rightarrow> bool" where
  "ams_keep a a' \<longleftrightarrow> ams_frame (ams_mem a) (ams_mem a')"

lemma ams_keep_refl [simp]: "ams_keep a a"
  by (simp add: ams_keep_def ams_frame_def)

lemma ams_frame_wf: "ams_frame u u' \<Longrightarrow> upage_wf u \<Longrightarrow> upage_wf u'"
  by (simp add: ams_frame_def upage_wf_def user_page_index)

lemma mem_write_frame: "mem_write va bs u = Ok u' \<Longrightarrow> ams_frame u u'"
  by (auto simp: mem_write_def ams_frame_def split: if_splits)

lemma ams_frame_trans: "ams_frame u v \<Longrightarrow> ams_frame v w \<Longrightarrow> ams_frame u w"
  by (simp add: ams_frame_def)

lemma ams_steps:
  "ams_map_userpage x a = Ok b \<Longrightarrow> ams_keep a b \<and> g_ams_iram_page_mapped b = g_ams_iram_page_mapped a"
  "ams_map_irampage x a = Ok b \<Longrightarrow> ams_keep a b"
  "ams_keep a (ams_unmap_userpage a)" "ams_keep a (ams_unmap_irampage a)"
  "ams_store va bs a = Ok b \<Longrightarrow> ams_keep a b \<and> g_ams_iram_page_mapped b = g_ams_iram_page_mapped a"
  by (auto simp: ams_map_userpage_def ams_map_irampage_def ams_unmap_userpage_def ams_unmap_irampage_def ams_store_def lock_acquire_def
      ams_keep_def ams_pages mmu_map_page_def mmu_unmap_page_def ams_frame_def elim!: bindR_OkE dest!: mem_write_frame split: if_splits)

lemma ams_keep_trans [trans]: "ams_keep a b \<Longrightarrow> ams_keep b c \<Longrightarrow> ams_keep a c"
  by (auto simp: ams_keep_def intro: ams_frame_trans)

definition ams_post :: "ams_state \<Rightarrow> u32 \<times> smc_args \<times> ams_state \<Rightarrow> bool" where
  "ams_post a r \<longleftrightarrow> (case r of (_, args', a') \<Rightarrow> length args' = 8 \<and> ams_keep a a' \<and> \<not> g_ams_userpage_mapped a' \<and> \<not> g_ams_iram_page_mapped a')"

lemma ams_iram_copy_keeps:
  assumes "\<not> g_ams_userpage_mapped a" "\<not> g_ams_iram_page_mapped a" "length args = 8"
  shows "keeps (ams_post a) (ams_iram_copy args a)"
proof -
  have loop: "ams_keep b c" if "foldR (ams_copy_word d s) is b = Ok c" for d s "is" b c
    using that by (rule foldR_invariant) (auto simp: ams_copy_word_def elim!: bindR_OkE dest!: ams_steps(5) intro: ams_keep_trans)
  have "ams_post a (0, args, ams_unmap_userpage (ams_unmap_irampage c))"
    if "ams_map_userpage x a = Ok b1" "ams_map_irampage y b1 = Ok b2" "foldR (ams_copy_word d s) is b2 = Ok c" for x y b1 b2 d s "is" c
  proof -
    have "ams_keep a (ams_unmap_userpage (ams_unmap_irampage c))"
      using ams_steps(1) [OF that(1)] ams_steps(2) [OF that(2)] loop [OF that(3)] ams_steps(3,4) ams_keep_trans by metis
    then show ?thesis using assms(3) by (simp add: ams_post_def ams_unmap_userpage_def ams_unmap_irampage_def)
  qed
  moreover have "ams_post a (2, args, a)" using assms by (simp add: ams_post_def)
  ultimately show ?thesis
    unfolding ams_iram_copy_def Let_def by (auto intro!: keeps_bind_any split: prod.split)
qed

lemma ams_store_keeps:
  assumes "ams_map_userpage x a = Ok b" "ams_store va bs b = Ok c" "\<not> g_ams_iram_page_mapped a"
  shows "ams_keep a (ams_unmap_userpage c)" "\<not> g_ams_userpage_mapped (ams_unmap_userpage c)" "\<not> g_ams_iram_page_mapped (ams_unmap_userpage c)"
    "\<not> g_ams_iram_page_mapped c"
  using ams_steps(1) [OF assms(1)] ams_steps(5) [OF assms(2)] ams_steps(3) [of c] assms(3) ams_keep_trans
  by (metis, simp_all add: ams_unmap_userpage_def)

lemma ams_write_address_keeps:
  assumes "\<not> g_ams_userpage_mapped a" "\<not> g_ams_iram_page_mapped a" "length args = 8"
  shows "keeps (ams_post a) (ams_write_address par args a)"
  unfolding ams_write_address_def Let_def
  using assms ams_store_keeps by (auto intro!: keeps_bind_any simp: ams_post_def)

lemma ams_get_emummc_config_keeps:
  assumes "\<not> g_ams_userpage_mapped a" "\<not> g_ams_iram_page_mapped a" "length args = 8"
  shows "keeps (ams_post a) (ams_get_emummc_config c args a)"
proof -
  have two: "ams_keep a (ams_unmap_userpage d)" "\<not> g_ams_iram_page_mapped (ams_unmap_userpage d)"
    if "ams_map_userpage x a = Ok b" "ams_store va bs b = Ok c" "ams_store vb cs c = Ok d" for x b va bs c vb cs d
    using ams_steps(1) [OF that(1)] ams_steps(5) [OF that(2)] ams_steps(5) [OF that(3)] ams_steps(3) [of d] assms(2) ams_keep_trans
    by (metis, simp add: ams_unmap_userpage_def)
  have off: "\<not> g_ams_userpage_mapped (ams_unmap_userpage d)" for d by (simp add: ams_unmap_userpage_def)
  show ?thesis
    unfolding ams_get_emummc_config_def Let_def
    using assms ams_store_keeps two off by (auto intro!: keeps_bind_any simp: ams_post_def split: prod.split)
qed

lemma run_ams_keeps:
  assumes wf: "secmon_wf s" and h: "\<And>a. \<not> g_ams_userpage_mapped a \<Longrightarrow> \<not> g_ams_iram_page_mapped a \<Longrightarrow> keeps (ams_post a) (h args a)"
  shows "keeps (came_back s) (run_ams h args s)"
  unfolding run_ams_def
proof (rule keeps_bindI [OF h])
  fix x assume "ams_post \<lparr>g_ams_userpage_mapped = s_ams_userpage_mapped s, g_ams_iram_page_mapped = s_ams_iram_page_mapped s,
      ams_mem = m_upage (s_mon s)\<rparr> x"
  then show "keeps (came_back s) (case x of (r, args, a) \<Rightarrow> Ok (Returned r args (s\<lparr>s_ams_userpage_mapped := g_ams_userpage_mapped a,
      s_ams_iram_page_mapped := g_ams_iram_page_mapped a, s_mon := (s_mon s)\<lparr>m_upage := ams_mem a\<rparr>\<rparr>)))"
    using wf by (auto simp: ams_post_def ams_keep_def secmon_wf_def mon_wf_def ams_frame_wf split: prod.splits intro!: came_backI)
qed (use wf in \<open>simp_all add: secmon_wf_def\<close>)

section \<open>All calls\<close>

text \<open>The calls that take the lock, with the handler behind them, and those that ask for results.\<close>

definition user_fns :: "smc_fn list" where
  "user_fns =
    [Smc_check_status, Smc_get_result, Smc_exp_mod, Smc_get_random_bytes_for_user, Smc_generate_aes_kek, Smc_load_aes_key, Smc_crypt_aes,
     Smc_generate_specific_aes_key, Smc_compute_cmac, Smc_load_rsa_oaep_key, Smc_decrypt_rsa_private_key,
     Smc_load_secure_exp_mod_key, Smc_secure_exp_mod, Smc_unwrap_rsa_oaep_wrapped_titlekey, Smc_load_titlekey,
     Smc_unwrap_aes_wrapped_titlekey, Smc_encrypt_rsa_key_for_import, Smc_decrypt_or_import_rsa_key]"

lemma user_fn_safe:
  assumes e: "env_ok P (e_user e)" and wf: "secmon_wf s" and l: "length args = 8" and h: "f \<in> set user_fns"
  shows "safe (came_back s) (smc_code_of e f args s)"
proof -
  have sync: "safe (came_back s) (smc_wrapper_sync (run_user e h) args s)" if "h \<in> set user_handlers" for h
    by (rule sync_safe [OF wf l]) (rule run_user_safe [OF that e _ l])
  have async: "safe (came_back s) (smc_wrapper_async e (run_user e h) cb args s)" if "h \<in> set user_handlers" for h cb
    by (rule async_safe [OF e wf l]) (rule run_user_safe [OF that e _ l])
  have H: "x \<in> set user_handlers" if "x \<in> {user_exp_mod, user_get_random_bytes, user_generate_aes_kek, user_load_aes_key, user_crypt_aes,
     user_generate_specific_aes_key, user_compute_cmac, user_load_rsa_oaep_key, user_decrypt_rsa_private_key,
     user_load_secure_exp_mod_key, user_secure_exp_mod, user_unwrap_rsa_oaep_wrapped_titlekey,
     user_load_titlekey, user_unwrap_aes_wrapped_titlekey, user_encrypt_rsa_key_for_import,
     user_decrypt_or_import_rsa_key}" for x
    using that by (simp add: user_handlers_def)
  show ?thesis
    using h check_status_safe [OF e wf l] get_result_safe [OF e wf l]
    by (auto simp: user_fns_def intro!: sync async H)
qed

lemma sync_keeps:
  assumes "secmon_wf s" "length args = 8"
    and "\<And>s'. secmon_wf s' \<Longrightarrow> keeps (ret_post s') (handler args s')"
  shows "keeps (ret_post s) (smc_wrapper_sync handler args s)"
proof (cases "g_is_user_smc_in_progress s")
  case True
  then show ?thesis using assms(1,2) by (simp add: wrapper_locked ret_post_same)
next
  case False
  let ?s = "s\<lparr>g_is_user_smc_in_progress := True\<rparr>"
  have "keeps (ret_post ?s) (handler args ?s)" using assms(1,3) by simp
  then show ?thesis
    unfolding smc_wrapper_sync_def try_set_free [OF False] prod.case
    by (auto simp: ret_post_def split: outcome.split outcome.splits intro!: keeps_bindI [where R = "ret_post ?s"])
qed

lemma suspend_keeps:
  assumes "secmon_wf s" "length args = 8"
  shows "keeps (ret_post s) (smc_wrapper_sync (cpu_suspend_wrapper e) args s)"
  by (rule sync_keeps [OF assms])
     (use assms(2) in \<open>auto simp: keeps_def cpu_suspend_wrapper_def ret_post_def dest!: cpu_suspend_cases\<close>)

lemma config_calls_keep:
  assumes wf: "secmon_wf s" and l: "length args = 8"
  shows "keeps (ret_post s) (smc_set_config_user args s)" "keeps (ret_post s) (smc_get_config e b args s)"
proof -
  have mon: "secmon_wf (s\<lparr>s_mon := (s_mon s)\<lparr>m_configitem := ci\<rparr>\<rparr>)" "secmon_wf (s\<lparr>s_mon := (s_mon s)\<lparr>m_fuse := f\<rparr>\<rparr>)" for ci f
    using wf by (simp_all add: secmon_wf_def mon_wf_def)
  show "keeps (ret_post s) (smc_set_config_user args s)"
    unfolding smc_set_config_user_def using l mon by (auto intro!: keeps_bind_any ret_postI)
  show "keeps (ret_post s) (smc_get_config e b args s)"
    unfolding smc_get_config_def Let_def using l mon by (auto intro!: keeps_bind_any ret_postI)
qed

lemma cpu_wf_upd [simp]: "cpu_wf (upd_context k f s) = cpu_wf s"
  by (simp add: cpu_wf_def)

lemma cpu_calls_keep:
  assumes wf: "secmon_wf s" and l: "length args = 8"
  shows "keeps (ret_post s) (smc_cpu_on e args s)" "keeps (ret_post s) (smc_cpu_off e args s)"
proof -
  have cpu: "secmon_wf (s\<lparr>s_cpu := c, s_io := tr\<rparr>)" if "cpu_wf c" for c tr
    using wf that by (simp add: secmon_wf_def)
  have "cpu_wf c" if "cpu_on cfg dev core ep arg (s_cpu s) tr = Ok (r, c, tr')" for cfg dev core ep arg tr r c tr'
    using that wf by (auto simp: cpu_on_def Let_def secmon_wf_def set_core_entrypoint_and_argument_def elim!: bindR_OkE split: if_splits)
  then show "keeps (ret_post s) (smc_cpu_on e args s)"
    unfolding smc_cpu_on_def using l cpu by (auto intro!: keeps_bind_any ret_postI)
  show "keeps (ret_post s) (smc_cpu_off e args s)"
    by (simp add: smc_cpu_off_def cpu_off_def Let_def ret_post_def split: prod.split)
qed

lemma carveout_keeps:
  assumes wf: "secmon_wf s" and l: "length args = 8"
  shows "keeps (ret_post s) (smc_configure_carveout args s)"
proof -
  have "mc_wf mc" if "configure_kernel_carveout c k a sz (s_mc s) = Ok mc" for c k a sz mc
    using that wf by (auto simp: configure_kernel_carveout_def program_carveout_def mc_wf_def secmon_wf_def Let_def
        elim!: bindR_OkE split: option.splits if_splits)
  then have "secmon_wf (s\<lparr>s_mc := mc, g_configured_carveouts := (g_configured_carveouts s)[i := True]\<rparr>)"
    if "configure_kernel_carveout c k a sz (s_mc s) = Ok mc" for c k a sz mc i
    using that wf by (simp add: secmon_wf_def)
  then show ?thesis
    unfolding smc_configure_carveout_def Let_def using l wf by (auto intro!: keeps_bind_any ret_postI)
qed

lemma register_keeps:
  assumes wf: "secmon_wf s" and l: "length args = 8"
  shows "keeps (ret_post s) (smc_read_write_register e args s)"
proof (cases "mon_fw s")
  case (Ok fw)
  show ?thesis
  proof (cases "rw_register fw (args ! 1)")
    case (Inl r)
    then show ?thesis using assms by (simp add: read_write_register_refused [OF Ok] ret_post_same)
  next
    case (Inr a)
    then show ?thesis
      using read_write_register_done [OF Ok Inr refl refl, of e] assms by (auto simp: ret_post_def simp del: One_nat_def)
  qed
qed (simp_all add: smc_read_write_register_def)

lemma random_bytes_priv_keeps:
  assumes e: "env_ok P (e_user e)" and wf: "secmon_wf s" and l: "length args = 8"
  shows "keeps (ret_post s) (smc_get_random_bytes_for_priv e args s)"
proof (cases "g_is_user_smc_in_progress s")
  case True
  have "ret_post s (Returned 0 (args_write_bytes bs args) (s\<lparr>s_mon := (s_mon s)\<lparr>m_rcache := rc\<rparr>\<rparr>))"
    if "\<not> args ! 1 > 0x38" "randomcache_getbytes (unat (args ! 1)) (m_rcache (s_mon s)) = Ok (bs, rc)" for bs rc
  proof -
    have n: "unat (args ! 1) \<le> 0x38" using that(1) by (simp add: word_less_nat_alt)
    have r: "rcache_wf (m_rcache (s_mon s))" using wf by (simp add: secmon_wf_def mon_wf_def)
    have "rcache_wf rc" using that(2) getbytes_ok [OF r n] next_low_wf [OF r n] r by (auto simp: rcache_wf_def)
    then show ?thesis using wf l by (simp add: ret_post_def secmon_wf_def mon_wf_def length_args_write_bytes)
  qed
  then show ?thesis
    unfolding smc_get_random_bytes_for_priv_def try_set_locked [OF True] prod.case Let_def
    using ret_post_same [OF wf l] by (auto intro!: keeps_bind_any)
next
  case False
  let ?s = "s\<lparr>g_is_user_smc_in_progress := True\<rparr>"
  have m: "mon_wf (s_mon ?s)" using wf by (simp add: secmon_wf_def)
  have call: "keeps (smc_post (s_mon ?s)) (user_get_random_bytes (e_user e) args (s_mon ?s))"
    by (rule safe_keeps [OF user_get_random_bytes_safe [OF e m l]])
  have fin: "ret_post s (Returned r args' (clear_user_smc_in_progress (?s\<lparr>s_mon := m\<lparr>m_rcache := rc, m_se := se\<rparr>\<rparr>)))"
    if p: "smc_post (s_mon ?s) (r, args', m)" and r: "randomcache_refill (env_eng (e_user e)) (m_rcache m) (m_se m) = Ok (rc, se)"
    for r args' m rc se
  proof -
    have mw: "mon_wf m" "length args' = 8" "se_frame user_slots (m_se (s_mon s)) (m_se m)" using p by (simp_all add: smc_post_def mon_frame_def)
    have "rcache_wf (m_rcache m)" using mw(1) by (simp add: mon_wf_def)
    then have "rcache_wf rc" "se_core se = se_core (m_se m)"
      using refill_ok [of P "env_eng (e_user e)" "m_rcache m" "m_se m"] e r by (auto simp: env_ok_def refilled_def)
    moreover from this have f: "se_frame user_slots (m_se m) se" by (simp add: se_frame_core)
    ultimately have "mon_wf (m\<lparr>m_rcache := rc, m_se := se\<rparr>)" using mw(1) by (simp add: mon_wf_def se_frame_def)
    then show ?thesis using wf mw(2) se_frame_trans [OF mw(3) f] by (simp add: ret_post_def secmon_wf_mon)
  qed
  show ?thesis
    unfolding smc_get_random_bytes_for_priv_def try_set_free [OF False] prod.case not_True_eq_False if_False
    by (rule keeps_bindI [OF call]) (use fin in \<open>auto intro!: keeps_bind_any split: prod.splits\<close>)
qed

lemma ams_calls_keep:
  assumes wf: "secmon_wf s" and l: "length args = 8"
    and h: "\<And>a. \<not> g_ams_userpage_mapped a \<Longrightarrow> \<not> g_ams_iram_page_mapped a \<Longrightarrow> keeps (ams_post a) (h args a)"
  shows "keeps (ret_post s) (run_ams h args s)"
  by (rule keeps_mono [where R = "came_back s"], rule run_ams_keeps [OF wf]) (auto intro: h came_back_post)

lemma smc_code_keeps:
  assumes e: "env_ok P (e_user e)" and wf: "secmon_wf s" and l: "length args = 8"
  shows "keeps (ret_post s) (smc_code_of e f args s)"
proof (cases "f \<in> set user_fns")
  case True
  show ?thesis by (rule keeps_mono [OF safe_keeps [OF user_fn_safe [OF e wf l True]]]) (rule came_back_post)
next
  case False
  have ams: "keeps (ret_post s) (smc_wrapper_sync (\<lambda>args s. run_ams (h (m_cfg (s_mon s))) args s) args s)"
    if "\<And>c a. \<not> g_ams_userpage_mapped a \<Longrightarrow> \<not> g_ams_iram_page_mapped a \<Longrightarrow> keeps (ams_post a) (h c args a)" for h
    by (rule sync_keeps [OF wf l], rule ams_calls_keep [OF _ l]) (auto intro: that)
  note a = ams [of "\<lambda>_. ams_iram_copy", OF ams_iram_copy_keeps [OF _ _ l]]
    ams [of "\<lambda>_. ams_write_address (e_par e)", OF ams_write_address_keeps [OF _ _ l]]
    ams [of ams_get_emummc_config, OF ams_get_emummc_config_keeps [OF _ _ l]]
  show ?thesis
    using False suspend_keeps [OF wf l] config_calls_keep [OF wf l] cpu_calls_keep [OF wf l] carveout_keeps [OF wf l]
      register_keeps [OF wf l] random_bytes_priv_keeps [OF e wf l] a
    by (cases f) (auto simp: user_fns_def smc_get_config_user_def smc_get_config_priv_def smc_panic_def Let_def)
qed

lemma ret_post_finish: "ret_post s r \<Longrightarrow> ret_post s (finish_call r)"
  by (cases r) (simp_all add: ret_post_def finish_call_def)

lemma call_keeps:
  assumes e: "env_ok P (e_user e)" and wf: "secmon_wf s" and l: "length args = 8"
  shows "keeps (ret_post s) (call_smc_handler e hid args s)"
proof -
  have run: "keeps (ret_post s) (bindR (smc_code_of e h args s) (\<lambda>r. Ok (finish_call r)))" for h
    by (rule keeps_bindI [OF smc_code_keeps [OF e wf l]]) (simp add: ret_post_finish)
  have "ret_post s (finish_call (Returned 6 args s))" by (rule ret_post_finish [OF ret_post_same [OF wf l]])
  then show ?thesis
    unfolding call_smc_handler_def Let_def using run
    by (intro keeps_bind_any) (auto split: option.split intro!: keeps_bind_any)
qed

section \<open>Runs\<close>

lemma aes_idx_key:
  assumes "ks < 16" "i < 4"
  shows "aes_idx ks i AND 0xC \<noteq> 0xC"
proof -
  have "aes_idx ks i AND 0xC = take_bit 4 (aes_idx ks i) AND 0xC"
    by (simp add: take_bit_eq_mask and.assoc mask_numeral and.left_commute [of "aes_idx ks i"])
  also have "\<dots> = of_nat i AND 0xC" using aes_idx_slot(2) [of ks i] assms by simp
  finally have eq: "aes_idx ks i AND 0xC = of_nat i AND 0xC" .
  have "i = 0 \<or> i = 1 \<or> i = 2 \<or> i = 3" using assms(2) by arith
  then show ?thesis unfolding eq by (elim disjE) simp_all
qed

lemma async_done_frame:
  assumes "se_async_done se se'"
  shows "se_frame W se se'"
proof -
  obtain i f r h q c t n where d: "se' = se\<lparr>INT_STATUS_REG := i, FLAGS_REG := f, ERR_STATUS_REG := r, HASH_RESULT_REG := h, RSA_OUTPUT := q,
        CRYPTO_CTR_REG := c, aes_keytable := t, op_count := n\<rparr>" "length c = length (CRYPTO_CTR_REG se)"
      "\<And>a. a AND 0xC \<noteq> 0xC \<Longrightarrow> t a = aes_keytable se a"
    using assms unfolding se_async_done_def by blast
  have "aes_key se' ks = aes_key se ks" for ks
    using d(3) aes_idx_key by (auto simp: aes_key_def table_bytes_def d(1) intro!: arg_cong [where f = concat])
  then show ?thesis using d(1,2) by (simp add: se_frame_def)
qed

lemma run_se_callback_keeps: "run_se_callback cb m = Ok m' \<Longrightarrow> mon_wf m' = mon_wf m \<and> m_se m' = m_se m"
  by (cases cb) (auto simp: exp_mod_done_handler_def crypt_aes_done_handler_def set_exp_mod_done_def set_crypt_aes_done_def
      se_trigger_interrupt_def mon_wf_def elim!: bindR_OkE)

lemma completed_keeps:
  assumes "se_operation_completed m = Ok m'" "mon_wf m"
  shows "mon_wf m' \<and> se_frame W (m_se m) (m_se m')"
proof -
  let ?m = "m\<lparr>m_se := (m_se m)\<lparr>INT_ENABLE_REG := 0\<rparr>\<rparr>"
  have f: "se_frame W se (se\<lparr>INT_ENABLE_REG := 0\<rparr>)" "se_frame W se (se\<lparr>INT_ENABLE_REG := 0, g_se_callback := None\<rparr>)" for se
    by (simp_all add: se_frame_def aes_key_def)
  have wf: "mon_wf ?m" "mon_wf m2 \<Longrightarrow> mon_wf (m2\<lparr>m_se := (m_se m2)\<lparr>g_se_callback := None\<rparr>\<rparr>)" for m2
    using assms(2) by (simp_all add: mon_wf_def)
  show ?thesis
  proof (cases "g_se_callback (m_se m)")
    case None
    then show ?thesis using assms(1) f(1) wf(1) by (auto simp: se_operation_completed_def)
  next
    case (Some cb)
    then obtain m2 where "run_se_callback cb ?m = Ok m2" "m' = m2\<lparr>m_se := (m_se m2)\<lparr>g_se_callback := None\<rparr>\<rparr>"
      using assms(1) by (auto simp: se_operation_completed_def Let_def elim!: bindR_OkE)
    then show ?thesis using run_se_callback_keeps [of cb ?m m2] f(2) wf(1) wf(2) [of m2] by simp
  qed
qed

lemma awake_step_keeps:
  assumes "env_ok P (e_user e)"
  shows "awake_step e s s' \<Longrightarrow> secmon_wf s \<Longrightarrow> secmon_wf s' \<and> se_frame user_slots (m_se (s_mon s)) (m_se (s_mon s'))"
proof (induction rule: awake_step.induct)
  case (call args core hid s v args' s')
  have "env_ok P (e_user (e\<lparr>e_core := core\<rparr>))" using assms by simp
  from keepsD [OF call_keeps [OF this call(3,1)] call(2)] show ?case by (simp add: ret_post_def)
next
  case (completed s se m)
  let ?m = "(s_mon s)\<lparr>m_se := se\<rparr>"
  have f: "se_frame user_slots (m_se (s_mon s)) se" by (rule async_done_frame [OF completed(1)])
  then have "mon_wf ?m" using completed(3) by (simp add: secmon_wf_def mon_wf_def se_frame_def)
  from completed_keeps [OF completed(2) this, of user_slots] show ?case
    using completed(3) f by (auto simp: secmon_wf_mon intro: se_frame_trans)
qed

lemma awake_run_keeps:
  assumes e: "env_ok P (e_user e)" and run: "(awake_step e)\<^sup>*\<^sup>* s s'" and wf: "secmon_wf s"
  shows "secmon_wf s' \<and> se_frame user_slots (m_se (s_mon s)) (m_se (s_mon s'))"
  using run
proof (induction rule: rtranclp_induct)
  case base
  show ?case using wf by simp
next
  case (step t u)
  then show ?case using awake_step_keeps [OF e step(2)] by (auto intro: se_frame_trans)
qed

end
