(* ===== verification/SMC_Phases.thy ===== *)
theory SMC_Phases
  imports SMC_System
begin

text \<open>
  The protocol of the user lock, as an abstract machine, and the proof that the dispatcher
  implements it: at most one asynchronous call is pending, only its key ends it, and it ends
  with the lock free or, if it was asked for its result too early, with the lock lost.
\<close>

section \<open>The abstract machine\<close>

datatype call_phase = Idle | Pending u64 | Locked_out

text \<open>A call that presents \<open>k\<close> as its first argument.\<close>

inductive phase_step :: "u64 \<Rightarrow> call_phase \<Rightarrow> call_phase \<Rightarrow> bool" for k where
  stay: "phase_step k p p"
| start: "key \<noteq> 0 \<Longrightarrow> phase_step k Idle (Pending key)"
| finish: "phase_step k (Pending k) Idle"
| lose: "phase_step k (Pending k) Locked_out"

inductive_cases phase_step_PendingE: "phase_step k (Pending j) p"
inductive_cases phase_step_Locked_outE: "phase_step k Locked_out p"

definition phase_of :: "secmon \<Rightarrow> call_phase" where
  "phase_of s = (if g_is_user_smc_in_progress s then if g_smc_callback_key s = 0 then Locked_out else Pending (g_smc_callback_key s) else Idle)"

text \<open>No key without the lock.\<close>

definition lock_wf :: "secmon \<Rightarrow> bool" where
  "lock_wf s \<longleftrightarrow> (g_smc_callback_key s \<noteq> 0 \<longrightarrow> g_is_user_smc_in_progress s)"

definition phase_post :: "u64 \<Rightarrow> secmon \<Rightarrow> outcome \<Rightarrow> bool" where
  "phase_post k s r \<longleftrightarrow> (case r of Returned v args' s' \<Rightarrow> lock_wf s' \<and> phase_step k (phase_of s) (phase_of s') | Off s' \<Rightarrow> True)"

section \<open>Calls that do not touch the lock\<close>

definition lock_frame :: "secmon \<Rightarrow> outcome \<Rightarrow> bool" where
  "lock_frame s r \<longleftrightarrow> (case r of
     Returned v args' s' \<Rightarrow> g_is_user_smc_in_progress s' = g_is_user_smc_in_progress s \<and> g_smc_callback_key s' = g_smc_callback_key s
   | Off s' \<Rightarrow> True)"

lemma lock_frame_phase: "lock_frame s r \<Longrightarrow> lock_wf s \<Longrightarrow> phase_post k s r"
  by (auto simp: lock_frame_def phase_post_def lock_wf_def phase_of_def split: outcome.splits intro: phase_step.stay)

lemma plain_calls_frame:
  "keeps (lock_frame s) (smc_set_config_user args s)" "keeps (lock_frame s) (smc_get_config e b args s)"
  "keeps (lock_frame s) (smc_cpu_on e args s)" "keeps (lock_frame s) (smc_cpu_off e args s)"
  "keeps (lock_frame s) (smc_configure_carveout args s)" "keeps (lock_frame s) (smc_panic args s)"
  unfolding smc_set_config_user_def smc_get_config_def smc_cpu_on_def smc_cpu_off_def cpu_off_def smc_configure_carveout_def smc_panic_def Let_def
  by (auto simp: lock_frame_def intro!: keeps_bind_any split: prod.split)

lemma register_frame: "keeps (lock_frame s) (smc_read_write_register e args s)"
  unfolding smc_read_write_register_def Let_def
  by (auto simp: lock_frame_def read_io_def upd_io_def intro!: keeps_bind_any split: prod.split sum.split)

lemma handlers_frame:
  "keeps (lock_frame s) (run_user e h args s)" "keeps (lock_frame s) (run_ams g args s)" "keeps (lock_frame s) (cpu_suspend_wrapper e args s)"
  unfolding run_user_def run_ams_def cpu_suspend_wrapper_def
  by (auto simp: lock_frame_def keeps_def elim!: bindR_OkE dest!: cpu_suspend_cases split: prod.splits)

section \<open>The wrappers\<close>

lemma sync_phase:
  assumes "lock_wf s" "\<And>s'. keeps (lock_frame s') (h args s')"
  shows "keeps (phase_post k s) (smc_wrapper_sync h args s)"
proof (cases "g_is_user_smc_in_progress s")
  case True
  then show ?thesis using assms(1) by (simp add: wrapper_locked phase_post_def phase_step.stay)
next
  case False
  then show ?thesis
    unfolding smc_wrapper_sync_def try_set_free [OF False] prod.case
    using assms(1) assms(2) [of "s\<lparr>g_is_user_smc_in_progress := True\<rparr>"]
    by (auto simp: lock_frame_def phase_post_def lock_wf_def phase_of_def clear_user_smc_in_progress_def phase_step.stay
        split: outcome.splits intro!: keeps_bindI [where R = "lock_frame (s\<lparr>g_is_user_smc_in_progress := True\<rparr>)"])
qed

lemma async_phase:
  assumes wf: "lock_wf s" and h: "\<And>s'. keeps (lock_frame s') (h args s')"
  shows "keeps (phase_post k s) (smc_wrapper_async e h cb args s)"
proof (cases "g_is_user_smc_in_progress s")
  case True
  then show ?thesis using assms(1) by (simp add: wrapper_locked phase_post_def phase_step.stay)
next
  case False
  let ?s = "s\<lparr>g_is_user_smc_in_progress := True\<rparr>"
  let ?R = "\<lambda>(key, s'). g_is_user_smc_in_progress s' \<and> g_smc_callback_key s' = key"
  have k0: "g_smc_callback_key s = 0" and idle: "phase_of s = Idle" using wf False by (auto simp: lock_wf_def phase_of_def)
  have set: "keeps ?R (try_set_smc_callback e cb ?s)"
    using k0 by (auto simp: try_set_smc_callback_def Let_def intro!: keeps_bind_any)
  have run: "keeps (phase_post k s) (bindR (h args t) (\<lambda>r. case r of
      Returned result args s \<Rightarrow> if result = 0 then Ok (Returned 0 (args[1 := key]) s)
        else Ok (Returned result args (clear_user_smc_in_progress (clear_smc_callback key s)))
    | Off s \<Rightarrow> Ok (Off s)))" if "g_is_user_smc_in_progress t" "g_smc_callback_key t = key" "key \<noteq> 0" for t key
    by (rule keeps_bindI [OF h [of t]])
       (use that idle in \<open>auto simp: lock_frame_def phase_post_def lock_wf_def phase_of_def clear_user_smc_in_progress_def clear_smc_callback_def
          split: outcome.splits intro: phase_step.intros\<close>)
  show ?thesis
    unfolding smc_wrapper_async_def try_set_free [OF False] prod.case not_True_eq_False if_False
    by (rule keeps_bindI [OF set])
       (use run idle in \<open>auto simp: phase_post_def lock_wf_def phase_of_def clear_user_smc_in_progress_def intro: phase_step.stay\<close>)
qed

section \<open>Status and result\<close>

lemma callback_lock:
  "keeps (\<lambda>(_, _, s'). g_smc_callback_key s' = g_smc_callback_key s) (run_smc_callback e cb buf sz s)"
  by (cases "(e, cb, buf, sz, s)" rule: run_smc_callback.cases)
     (auto simp: smc_exp_mod_get_result_def smc_crypt_aes_status_check_def smc_unwrap_rsa_oaep_wrapped_titlekey_get_result_def
        clear_user_smc_in_progress_def Let_def intro!: keeps_bind_any)

lemma ended_phase:
  assumes "lock_wf s" "g_smc_callback_key s \<noteq> 0" "k = g_smc_callback_key s" "g_smc_callback_key s' = 0"
  shows "phase_post k s (Returned v args' s')"
  using assms by (auto simp: phase_post_def lock_wf_def phase_of_def intro: phase_step.intros)

lemma status_phase:
  assumes wf: "lock_wf s"
  shows "keeps (phase_post (args ! 1) s) (smc_check_status e args s)"
  unfolding smc_check_status_def using lock_frame_phase [OF _ wf] ended_phase [OF wf]
  by (auto simp: lock_frame_def simp del: One_nat_def intro!: keeps_bind_any)

lemma result_phase:
  assumes wf: "lock_wf s"
  shows "keeps (phase_post (args ! 1) s) (smc_get_result e args s)"
  unfolding smc_get_result_def Let_def using lock_frame_phase [OF _ wf] ended_phase [OF wf]
  by (auto simp: lock_frame_def simp del: One_nat_def intro!: keeps_bind_any)

lemma random_priv_phase:
  assumes wf: "lock_wf s"
  shows "keeps (phase_post k s) (smc_get_random_bytes_for_priv e args s)"
proof (cases "g_is_user_smc_in_progress s")
  case True
  show ?thesis
    unfolding smc_get_random_bytes_for_priv_def try_set_locked [OF True] prod.case Let_def
    by (auto intro!: keeps_bind_any lock_frame_phase [OF _ wf] simp: lock_frame_def)
next
  case False
  then show ?thesis
    unfolding smc_get_random_bytes_for_priv_def try_set_free [OF False] prod.case
    by (auto intro!: keeps_bind_any lock_frame_phase [OF _ wf] simp: lock_frame_def clear_user_smc_in_progress_def)
qed

section \<open>The simulation\<close>

lemma smc_code_phase:
  assumes wf: "lock_wf s"
  shows "keeps (phase_post (args ! 1) s) (smc_code_of e f args s)"
proof -
  have plain: "keeps (phase_post (args ! 1) s) r" if "keeps (lock_frame s) r" for r
    by (rule keeps_mono [OF that]) (rule lock_frame_phase [OF _ wf])
  note sync = sync_phase [OF wf handlers_frame(1)] sync_phase [OF wf handlers_frame(2)] sync_phase [OF wf handlers_frame(3)]
  note async = async_phase [OF wf handlers_frame(1)]
  show ?thesis
    using status_phase [OF wf] result_phase [OF wf] random_priv_phase [OF wf] plain_calls_frame register_frame
    by (cases f) (auto simp: smc_get_config_user_def smc_get_config_priv_def simp del: One_nat_def intro!: sync async plain)
qed

lemma call_phase:
  assumes wf: "lock_wf s"
  shows "keeps (phase_post (args ! 1) s) (call_smc_handler e hid args s)"
proof -
  have fin: "phase_post k s (finish_call r) = phase_post k s r" for k r
    by (cases r) (simp_all add: phase_post_def finish_call_def)
  have run: "keeps (phase_post (args ! 1) s) (bindR (smc_code_of e h args s) (\<lambda>r. Ok (finish_call r)))" for h
    by (rule keeps_bindI [OF smc_code_phase [OF wf]]) (simp add: fin)
  have "phase_post (args ! 1) s (Returned 6 args s)" by (rule lock_frame_phase [OF _ wf]) (simp add: lock_frame_def)
  then show ?thesis
    unfolding call_smc_handler_def Let_def using run
    by (intro keeps_bind_any) (auto simp: fin simp del: One_nat_def split: option.split intro!: keeps_bind_any)
qed

text \<open>A pending call survives everything but its own key.\<close>

lemma pending_only_key_ends:
  assumes "call_smc_handler e hid args s = Ok (Returned v args' s')" "lock_wf s" "phase_of s = Pending key" "args ! 1 \<noteq> key"
  shows "phase_of s' = Pending key"
  using keepsD [OF call_phase [OF assms(2)] assms(1)] assms(3,4) by (auto simp: phase_post_def elim: phase_step_PendingE)

end
