(* ===== verification/SMC_Functional.thy ===== *)
theory SMC_Functional
  imports SMC_Handlers
begin

text \<open>
  What the user SMCs compute, on the calls they accept: which key ends up in which slot,
  which bytes are returned, and what a key package that does not authenticate leaves behind.
  The round trips between calls (a sealed key that one call returns and another loads) are
  stated over the handlers themselves.
\<close>

section \<open>Buffers in argument registers\<close>

lemma qwords_read64le:
  assumes "length bs = 16"
  shows "qwords (read64le bs 0) (read64le bs 8) = bs"
proof -
  have "le_bytes 8 (read64le bs 0) = take 8 bs" "le_bytes 8 (read64le bs 8) = drop 8 bs"
    using assms le_bytes_le_word [of "take 8 bs"] le_bytes_le_word [of "drop 8 bs"]
    by (simp_all add: read64le_def bslice_def)
  then show ?thesis by (simp add: qwords_def)
qed

lemma put_qwords_nth:
  assumes "length args = 8" "length bs = 16"
  shows "qwords (put_qwords bs args ! 1) (put_qwords bs args ! 2) = bs"
  using assms by (simp add: put_qwords_def qwords_read64le)

lemma ucast_slot:
  assumes "slot \<le> (3 :: u64)"
  shows "(ucast slot :: u32) \<le> 3"
proof -
  have "unat slot mod 2 ^ 32 \<le> 3" using assms mod_less_eq_dividend [of "unat slot" "2 ^ 32"] by (simp add: word_le_nat_alt)
  then show ?thesis by (simp add: word_le_nat_alt unsigned_ucast_eq take_bit_eq_mod)
qed

section \<open>Loading a key\<close>

lemma user_load_aes_key_ok:
  assumes e: "env_ok P e" and m: "mon_wf m" and slot: "ucast (args ! 1) \<le> (if fw_of (m_cfg m) \<in> {1, 2, 3, 4, 5} then 3 else 5 :: u32)"
  shows "\<exists>m'. user_load_aes_key e args m = Ok (0, args, m')
     \<and> aes_key (m_se m') (ucast (args ! 1)) =
         aes_dec P (unsealed_form P (aes_key (m_se m) 0xA) (g_seal_key_sources ! 0) (qwords (args ! 2) (args ! 3)))
           (qwords (args ! 4) (args ! 5))
     \<and> (\<forall>k. k \<noteq> ucast (args ! 1) \<longrightarrow> k \<noteq> 9 \<longrightarrow> aes_key (m_se m') k = aes_key (m_se m) k)"
proof -
  note w = mon_wf_loaded [OF m] and eng = env_okD(1) [OF e]
  let ?ks = "ucast (args ! 1) :: u32"
  have ks: "?ks < 16" by (rule user_keyslot_range(2) [OF slot])
  have lim: "(0 :: u32) < usecase_limit (fw_of (m_cfg m))" by (simp add: usecase_limit_def)
  obtain s1 where s1: "unseal_key (m_cfg m) (env_eng e) 9 (qwords (args ! 2) (args ! 3)) 16 0 (m_se m) = Ok s1"
      "aes_key s1 = (aes_key (m_se m))
         (9 := unsealed_form P (aes_key (m_se m) 0xA) (g_seal_key_sources ! 0) (qwords (args ! 2) (args ! 3)))"
    using unseal_key_ok [OF eng w(2) lim length_qwords, of 9 "args ! 2" "args ! 3" "m_se m"] by auto
  obtain s2 where s2: "decrypt_data_into_keyslot (env_eng e) ?ks 9 (qwords (args ! 4) (args ! 5)) 16 s1 = Ok s2"
      "aes_key s2 = (aes_key s1)(?ks := aes_dec P (aes_key s1 9) (qwords (args ! 4) (args ! 5)))"
    using decrypt_into_keyslot_ok [OF eng _ ks length_qwords, of 9 "args ! 4" "args ! 5" s1] by auto
  have "user_load_aes_key e args m = Ok (0, args, m\<lparr>m_se := s2\<rparr>)"
    using s1(1) s2(1) slot by (simp add: user_load_aes_key_def user_keyslot_valid [OF w(2)] on_se_def)
  then show ?thesis using s1(2) s2(2) by simp
qed

lemma slot_valid: "ks \<le> (3 :: u32) \<Longrightarrow> ks \<le> (if b then 3 else 5)"
  using order_trans [of ks 3 5] by auto

lemma user_load_aes_key_regs:
  assumes "env_ok P e" "mon_wf m" "slot \<le> 3" "qwords a b = sealed"
  shows "\<exists>m'. user_load_aes_key e [0, slot, a, b, w0, w1, 0, 0] m = Ok (0, [0, slot, a, b, w0, w1, 0, 0], m')
     \<and> aes_key (m_se m') (ucast slot) =
         aes_dec P (unsealed_form P (aes_key (m_se m) 0xA) (g_seal_key_sources ! 0) sealed) (qwords w0 w1)"
  using user_load_aes_key_ok [OF assms(1,2), of "[0, slot, a, b, w0, w1, 0, 0]"] slot_valid [OF ucast_slot [OF assms(3)]]
  by (auto simp: assms(4))

section \<open>Generating a key-encryption key\<close>

text \<open>The mask of a key source and the key-encryption key a call derives from a master key.\<close>

definition kek_source_of :: "nat \<Rightarrow> nat \<Rightarrow> bytes" where
  "kek_source_of usecase mask_id = xor_bytes (kek_seeds ! usecase) (kek_masks ! mask_id)"

definition derived_kek :: "se_prims \<Rightarrow> bytes \<Rightarrow> nat \<Rightarrow> nat \<Rightarrow> bytes \<Rightarrow> bytes" where
  "derived_kek P master usecase mask_id wrapped = aes_dec P (aes_dec P master (kek_source_of usecase mask_id)) wrapped"

lemma kek_source_eq:
  assumes "u < 7" "k < 4"
  shows "map (\<lambda>i. (kek_seeds ! u) ! i XOR (kek_masks ! k) ! i) [0..<16] = kek_source_of u k"
proof -
  have "length (kek_seeds ! u) = 16" using assms(1) by (simp add: kek_seeds_def less_Suc_eq numeral_eq_Suc) auto
  moreover have "length (kek_masks ! k) = 16" using assms(2) by (simp add: kek_masks_def less_Suc_eq numeral_eq_Suc) auto
  ultimately show ?thesis by (simp add: kek_source_of_def xor_bytes_def list_eq_iff_nth_eq)
qed

text \<open>The steps after the checks: derive, unwrap, seal.\<close>

lemma derive_and_seal:
  assumes e: "se_engine_ok P eng" and c: "g_has_loaded_config c" and ks: "ks < 16" and u: "u < usecase_limit (fw_of c)"
    and l: "length source = 16" "length wrapped = 16" "length d1 = 16" "length d2 = 16"
    and s: "aes_key se 0xA = S" "aes_key se ks = K"
  shows "\<exists>s1 s2 s3. decrypt_data_into_keyslot eng 9 ks source 16 se = Ok s1
     \<and> se_aes_ecb_decrypt_block eng 9 d1 16 wrapped 16 s1 = Ok (aes_dec P (aes_dec P K source) wrapped, s2)
     \<and> seal_key c eng d2 16 (aes_dec P (aes_dec P K source) wrapped) 16 u s2 =
         Ok (sealed_form P S (g_seal_key_sources ! unat u) (aes_dec P (aes_dec P K source) wrapped), s3)
     \<and> se_keep se s3 \<and> (\<forall>k. k \<noteq> 9 \<longrightarrow> aes_key s3 k = aes_key se k)"
proof -
  obtain s1 where s1: "decrypt_data_into_keyslot eng 9 ks source 16 se = Ok s1" "se_keep se s1"
      "aes_key s1 = (aes_key se)(9 := aes_dec P K source)"
    using decrypt_into_keyslot_ok [OF e ks, of 9 source se] l s by auto
  obtain s2 where s2: "se_aes_ecb_decrypt_block eng 9 d1 16 wrapped 16 s1 = Ok (aes_dec P (aes_dec P K source) wrapped, s2)"
      "se_core s2 = se_core s1"
    using ecb_decrypt_ok [OF e, of 9 wrapped d1 s1] l s1(3) by auto
  let ?kek = "aes_dec P (aes_dec P K source) wrapped"
  have "length ?kek = 16" using aes_lengths(2) [OF e l(2)] by simp
  then obtain s3 where s3: "seal_key c eng d2 16 ?kek 16 u s2 = Ok (sealed_form P (aes_key s2 0xA) (g_seal_key_sources ! unat u) ?kek, s3)"
      "se_keep s2 s3" "\<forall>k. k \<noteq> 9 \<longrightarrow> aes_key s3 k = aes_key s2 k"
    using seal_key_ok [OF e c u _ l(4), of ?kek s2] by auto
  have k: "aes_key s2 = aes_key s1" by (rule aes_key_core_eq [OF s2(2)])
  have "se_keep se s3" using s1(2) se_keep_core [OF s2(2)] s3(2) se_keep_trans by blast
  then show ?thesis using s1 s2(1) s3 k s(1) by auto
qed

text \<open>The AES use case with a common key, for each of the four masks.\<close>

lemma kek_option_bits:
  assumes "opts = push_bit 1 (of_nat k)" "k < 4"
  shows "\<not> opts > (0xFF :: u64)" "ucast (drop_bit 1 opts AND 3) = (of_nat k :: u32)"
    "ucast (drop_bit 5 opts AND (if b then 7 else 3)) = (0 :: u32)" "opts AND 1 = 0"
proof -
  have "k = 0 \<or> k = 1 \<or> k = 2 \<or> k = 3" using assms(2) by auto
  then show "\<not> opts > (0xFF :: u64)" "ucast (drop_bit 1 opts AND 3) = (of_nat k :: u32)"
    "ucast (drop_bit 5 opts AND (if b then 7 else 3)) = (0 :: u32)" "opts AND 1 = 0"
    using assms(1) by auto
qed

lemma user_generate_aes_kek_ok:
  assumes e: "env_ok P e" and m: "mon_wf m" and mk: "mkey_consistent P b (m_mkey m) (m_se m)"
    and rv: "ucast (args ! 3) = rv + 1" "rv \<le> g_mkey_revision (m_mkey m)"
    and opts: "args ! 4 = push_bit 1 (of_nat k)" "k < 4"
    and boot: "k = 1 \<Longrightarrow> \<not> bootconfig_is_recovery_boot (m_bootconfig m)" "k = 2 \<Longrightarrow> bootconfig_is_recovery_boot (m_bootconfig m)"
  defines "master \<equiv> chain_key P (vectors_for b) (unat (g_mkey_revision (m_mkey m))) (aes_key (m_se m) 0xC)
                       (unat (g_mkey_revision (m_mkey m)) - unat rv)"
  shows "\<exists>m'. user_generate_aes_kek e args m =
       Ok (0, put_qwords (sealed_form P (aes_key (m_se m) 0xA) (g_seal_key_sources ! 0)
                (derived_kek P master 0 k (qwords (args ! 1) (args ! 2)))) args, m')
     \<and> mon_frame m m' \<and> (\<forall>ks. ks \<noteq> 9 \<longrightarrow> aes_key (m_se m') ks = aes_key (m_se m) ks)"
proof -
  note w = mon_wf_loaded [OF m] and eng = env_okD(1) [OF e]
  note bits = kek_option_bits [OF opts]
  have rv10: "rv < 10" using w(3) rv(2) by (auto simp: mkey_wf_def)
  then have pos: "rv + 1 > 0" by (auto simp: word_less_nat_alt unat_word_ariths)
  have ok: "\<not> rv \<ge> 10" "\<not> rv > g_mkey_revision (m_mkey m)" using rv10 rv(2) by auto
  have det: "mkey_get_revision (m_mkey m) = Ok (g_mkey_revision (m_mkey m))"
    using mk by (simp add: mkey_get_revision_def mkey_consistent_def)
  have ref: "\<not> kek_options_refused (fw_of (m_cfg m)) rv (of_nat k) 0 False (bootconfig_is_recovery_boot (m_bootconfig m))"
    using boot opts(2) by (auto simp: kek_options_refused_def word_unat_eq_iff unat_of_nat_small)
  obtain ks s0 where s0: "mkey_get_keyslot rv (m_mkey m) (m_se m) = Ok (ks, s0)" "ks \<in> {0xC, 9}" "se_keep (m_se m) s0"
      "\<forall>k. k \<noteq> 9 \<longrightarrow> aes_key s0 k = aes_key (m_se m) k" "aes_key s0 ks = master"
    using mkey_get_keyslot_ok [OF mk rv(2)] unfolding master_def by blast
  have ks: "ks < 16" using s0(2) by auto
  have lim: "(0 :: u32) < usecase_limit (fw_of (m_cfg m))" by (simp add: usecase_limit_def)
  have src: "length (kek_source_of 0 k) = 16" using kek_source_eq [of 0 k, symmetric] opts(2) by simp
  let ?wrapped = "qwords (args ! 1) (args ! 2)" and ?st = "env_stack e 16"
  have S: "aes_key s0 0xA = aes_key (m_se m) 0xA" using s0(4) by simp
  obtain s1 s2 s3 where s: "decrypt_data_into_keyslot (env_eng e) 9 ks (kek_source_of 0 k) 16 s0 = Ok s1"
      "se_aes_ecb_decrypt_block (env_eng e) 9 ?st 16 ?wrapped 16 s1 = Ok (derived_kek P master 0 k ?wrapped, s2)"
      "seal_key (m_cfg m) (env_eng e) ?st 16 (derived_kek P master 0 k ?wrapped) 16 0 s2 =
         Ok (sealed_form P (aes_key (m_se m) 0xA) (g_seal_key_sources ! 0) (derived_kek P master 0 k ?wrapped), s3)"
      "se_keep s0 s3" "\<forall>k. k \<noteq> 9 \<longrightarrow> aes_key s3 k = aes_key s0 k"
    using derive_and_seal [OF eng w(2) ks lim src length_qwords env_okD(2) [OF e] env_okD(2) [OF e] S s0(5),
        of "args ! 1" "args ! 2"]
    unfolding derived_kek_def by auto
  have src_map: "map (\<lambda>i. (kek_seeds ! 0) ! i XOR (kek_masks ! k) ! i) [0..<16] = kek_source_of 0 k"
    using kek_source_eq [of 0 k] opts(2) by simp
  have run: "user_generate_aes_kek e args m =
       Ok (0, put_qwords (sealed_form P (aes_key (m_se m) 0xA) (g_seal_key_sources ! 0)
                (derived_kek P master 0 k ?wrapped)) args, m\<lparr>m_se := s3\<rparr>)"
    unfolding user_generate_aes_kek_def Let_def rv(1) w(1) det bindR.simps bits(2,3) configitem_is_recovery_boot_eq
    using pos ok bits(1,4) ref s0(1) s(1-3) opts(2) src_map
    by (simp add: with_se_def on_se_def unat_of_nat_small)
  have "se_frame user_slots (m_se m) s3"
    using s0(3,4) s(4,5) by (intro se_frame_keep [OF se_keep_trans]) (auto simp: user_slots_def)
  then have "mon_frame m (m\<lparr>m_se := s3\<rparr>)" using mon_frame_se [OF mon_frame_refl [OF m]] by blast
  then show ?thesis using run s0(4) s(5) by auto
qed

section \<open>Title keys\<close>

lemma user_load_titlekey_ok:
  assumes e: "env_ok P e" and m: "mon_wf m" and slot: "ucast (args ! 1) \<le> (if fw_of (m_cfg m) \<in> {1, 2, 3, 4, 5} then 3 else 5 :: u32)"
  shows "\<exists>m'. user_load_titlekey e args m = Ok (0, args, m')
     \<and> aes_key (m_se m') (ucast (args ! 1)) =
         unsealed_form P (aes_key (m_se m) 0xA) g_titlekey_seal_key_source (qwords (args ! 2) (args ! 3))
     \<and> (\<forall>k. k \<noteq> ucast (args ! 1) \<longrightarrow> k \<noteq> 9 \<longrightarrow> aes_key (m_se m') k = aes_key (m_se m) k)"
proof -
  note w = mon_wf_loaded [OF m] and eng = env_okD(1) [OF e]
  let ?ks = "ucast (args ! 1) :: u32"
  have ks: "?ks < 16" by (rule user_keyslot_range(2) [OF slot])
  obtain s1 where s1: "unseal_titlekey (env_eng e) ?ks (qwords (args ! 2) (args ! 3)) 16 (m_se m) = Ok s1"
      "aes_key s1 = (aes_key (m_se m))(9 := aes_dec P (aes_key (m_se m) 0xA) g_titlekey_seal_key_source,
         ?ks := unsealed_form P (aes_key (m_se m) 0xA) g_titlekey_seal_key_source (qwords (args ! 2) (args ! 3)))"
    using unseal_key_internal_ok [OF eng length_qwords length_titlekey_seal_source ks, of "args ! 2" "args ! 3" "m_se m"]
    by (auto simp: unseal_titlekey_def)
  have "user_load_titlekey e args m = Ok (0, args, m\<lparr>m_se := s1\<rparr>)"
    using s1(1) slot by (simp add: user_load_titlekey_def user_keyslot_valid [OF w(2)] on_se_def)
  then show ?thesis using s1(2) by simp
qed

lemma user_load_titlekey_regs:
  assumes "env_ok P e" "mon_wf m" "slot \<le> 3" "qwords a b = sealed"
  shows "\<exists>m'. user_load_titlekey e [0, slot, a, b, 0, 0, 0, 0] m = Ok (0, [0, slot, a, b, 0, 0, 0, 0], m')
     \<and> aes_key (m_se m') (ucast slot) = unsealed_form P (aes_key (m_se m) 0xA) g_titlekey_seal_key_source sealed"
  using user_load_titlekey_ok [OF assms(1,2), of "[0, slot, a, b, 0, 0, 0, 0]"] slot_valid [OF ucast_slot [OF assms(3)]]
  by (auto simp: assms(4))

definition unwrapped_titlekey :: "se_prims \<Rightarrow> bytes \<Rightarrow> nat \<Rightarrow> bytes \<Rightarrow> bytes" where
  "unwrapped_titlekey P master ty wrapped = aes_dec P (aes_dec P master (titlekek_sources ! ty)) wrapped"

lemma tkey_aes_unwrap_ok:
  assumes e: "se_engine_ok P eng" and mk: "mkey_consistent P b mk se"
    and t: "g_tkey_type t \<le> 1" "g_tkey_master_key_rev t \<le> g_mkey_revision mk" and l: "length src = 16" "length dst = 16"
  shows "\<exists>se'. tkey_aes_unwrap eng dst 16 src 16 t mk se =
       Ok (unwrapped_titlekey P (chain_key P (vectors_for b) (unat (g_mkey_revision mk)) (aes_key se 0xC)
             (unat (g_mkey_revision mk) - unat (g_tkey_master_key_rev t))) (unat (g_tkey_type t)) src, se')
     \<and> se_keep se se' \<and> (\<forall>k. k \<noteq> 9 \<longrightarrow> aes_key se' k = aes_key se k)"
proof -
  let ?K = "chain_key P (vectors_for b) (unat (g_mkey_revision mk)) (aes_key se 0xC)
             (unat (g_mkey_revision mk) - unat (g_tkey_master_key_rev t))" and ?src = "titlekek_sources ! unat (g_tkey_type t)"
  have "g_tkey_type t = 0 \<or> g_tkey_type t = 1" using t(1) by (auto simp: word_le_nat_alt word_unat_eq_iff)
  then have src: "length ?src = 16" by (auto simp: titlekek_sources_def)
  obtain ks s0 where s0: "mkey_get_keyslot (g_tkey_master_key_rev t) mk se = Ok (ks, s0)" "ks \<in> {0xC, 9}" "se_keep se s0"
      "\<forall>k. k \<noteq> 9 \<longrightarrow> aes_key s0 k = aes_key se k" "aes_key s0 ks = ?K"
    using mkey_get_keyslot_ok [OF mk t(2)] by blast
  have ks: "ks < 16" using s0(2) by auto
  obtain s1 where s1: "decrypt_data_into_keyslot eng 9 ks ?src 16 s0 = Ok s1" "se_keep s0 s1"
      "aes_key s1 = (aes_key s0)(9 := aes_dec P ?K ?src)"
    using decrypt_into_keyslot_ok [OF e ks, of 9 ?src s0] src s0(5) by auto
  obtain s2 where s2: "se_aes_ecb_decrypt_block eng 9 dst 16 src 16 s1 = Ok (aes_dec P (aes_dec P ?K ?src) src, s2)"
      "se_core s2 = se_core s1"
    using ecb_decrypt_ok [OF e, of 9 src dst s1] l s1(3) by auto
  have "se_keep se s2" using s0(3) s1(2) se_keep_core [OF s2(2)] se_keep_trans by blast
  moreover have "\<not> 10 \<le> g_tkey_master_key_rev t" using mk t(2) by (auto simp: mkey_consistent_def mkey_wf_def)
  ultimately show ?thesis
    using s0(1,4) s1(1,3) s2(1) aes_key_core_eq [OF s2(2)]
    unfolding tkey_aes_unwrap_def bindR_panic_if unwrapped_titlekey_def by simp
qed

lemma user_unwrap_aes_wrapped_titlekey_ok:
  assumes e: "env_ok P e" and m: "mon_wf m" and mk: "mkey_consistent P b (m_mkey m) (m_se m)"
    and fw: "3 \<le> fw_of (m_cfg m)" and rv: "ucast (args ! 3) = rv + 1" "rv \<le> g_mkey_revision (m_mkey m)"
  defines "master \<equiv> chain_key P (vectors_for b) (unat (g_mkey_revision (m_mkey m))) (aes_key (m_se m) 0xC)
                       (unat (g_mkey_revision (m_mkey m)) - unat rv)"
  shows "\<exists>m'. user_unwrap_aes_wrapped_titlekey e args m =
       Ok (0, put_qwords (sealed_form P (aes_key (m_se m) 0xA) g_titlekey_seal_key_source
                (unwrapped_titlekey P master 0 (qwords (args ! 1) (args ! 2)))) args, m')
     \<and> mon_frame m m' \<and> (\<forall>ks. ks \<noteq> 9 \<longrightarrow> aes_key (m_se m') ks = aes_key (m_se m) ks)"
proof -
  note w = mon_wf_loaded [OF m] and eng = env_okD(1) [OF e]
  have rv10: "rv < 10" using w(3) rv(2) by (auto simp: mkey_wf_def)
  then have pos: "rv + 1 > 0" by (auto simp: word_less_nat_alt unat_word_ariths)
  have ok: "\<not> rv \<ge> 10" using rv10 by auto
  define t where "t = (m_tkey m)\<lparr>g_tkey_master_key_rev := rv, g_tkey_type := 0\<rparr>"
  let ?wrapped = "qwords (args ! 1) (args ! 2)" and ?st = "env_stack e 16"
  have t: "g_tkey_type t \<le> 1" "g_tkey_master_key_rev t \<le> g_mkey_revision (m_mkey m)" using rv by (simp_all add: t_def)
  obtain s1 where s1: "tkey_aes_unwrap (env_eng e) ?st 16 ?wrapped 16 t (m_mkey m) (m_se m) =
        Ok (unwrapped_titlekey P master 0 ?wrapped, s1)" "se_keep (m_se m) s1"
      "\<forall>k. k \<noteq> 9 \<longrightarrow> aes_key s1 k = aes_key (m_se m) k"
    using tkey_aes_unwrap_ok [OF eng mk t length_qwords env_okD(2) [OF e], of "args ! 1" "args ! 2"]
    by (auto simp: master_def t_def)
  have "length (unwrapped_titlekey P master 0 ?wrapped) = 16"
    using aes_lengths(2) [OF eng length_qwords] by (simp add: unwrapped_titlekey_def)
  then obtain s2 where s2: "seal_titlekey (env_eng e) ?st 16 (unwrapped_titlekey P master 0 ?wrapped) 16 s1 =
        Ok (sealed_form P (aes_key s1 0xA) g_titlekey_seal_key_source (unwrapped_titlekey P master 0 ?wrapped), s2)"
      "se_keep s1 s2" "\<forall>k. k \<noteq> 9 \<longrightarrow> aes_key s2 k = aes_key s1 k"
    using seal_key_internal_ok [OF eng env_okD(2) [OF e] _ length_titlekey_seal_source, of "unwrapped_titlekey P master 0 ?wrapped" s1]
    by (auto simp: seal_titlekey_def)
  note setters = tkey_setters [OF w(2) rv10, of 0]
  have run: "user_unwrap_aes_wrapped_titlekey e args m =
       Ok (0, put_qwords (sealed_form P (aes_key (m_se m) 0xA) g_titlekey_seal_key_source
                (unwrapped_titlekey P master 0 ?wrapped)) args, m\<lparr>m_tkey := t, m_se := s2\<rparr>)"
    unfolding user_unwrap_aes_wrapped_titlekey_def Let_def rv(1) w(1) bindR.simps
    using pos ok fw setters s1(1,3) s2(1) by (simp add: with_se_def t_def)
  have fr: "se_frame user_slots (m_se m) s2"
    using s1 s2 by (intro se_frame_keep [OF se_keep_trans]) (auto simp: user_slots_def)
  have "mon_frame m (m\<lparr>m_tkey := t\<rparr>)"
    using mon_frame_tkey [OF mon_frame_refl [OF m], of t] w by (simp add: t_def)
  then have "mon_frame m (m\<lparr>m_tkey := t, m_se := s2\<rparr>)" using mon_frame_se [of m "m\<lparr>m_tkey := t\<rparr>"] fr by auto
  then show ?thesis using run s1(3) s2(3) by auto
qed

section \<open>Calls that read the user page\<close>

text \<open>A range of the registered user page, and the bytes the user has put there.\<close>

definition user_range :: "monitor \<Rightarrow> u64 \<Rightarrow> nat \<Rightarrow> bool" where
  "user_range m a n \<longleftrightarrow> g_user_page_user_address (m_upage m) \<noteq> 0
     \<and> get_page_for_address a = g_user_page_user_address (m_upage m)
     \<and> (n \<noteq> 0 \<longrightarrow> get_page_for_address (a + of_nat n - 1) = g_user_page_user_address (m_upage m))"

definition user_bytes :: "monitor \<Rightarrow> u64 \<Rightarrow> nat \<Rightarrow> bytes" where
  "user_bytes m a n = map (\<lambda>i. dram (m_upage m) (a + of_nat i)) [0..<n]"

lemma length_user_bytes [simp]: "length (user_bytes m a n) = n"
  by (simp add: user_bytes_def)

definition user_page_ref :: "monitor \<Rightarrow> upage_ref" where
  "user_page_ref m = \<lparr>user_address = g_user_page_user_address (m_upage m),
                      secure_monitor_address = USER_PAGE_SECURE_MONITOR_ADDR\<rparr>"

lemma fetch_page_registered:
  assumes "user_range m a n"
  shows "fetch_page a args m k = k (user_page_ref m) m"
  using assms by (simp add: user_range_def fetch_page_def upage_init_def user_page_ref_def USER_PAGE_eq Let_def)

lemma fetch_ok:
  assumes "mon_wf m" "user_range m a n" "n \<le> 0x1000"
  shows "fetch (user_page_ref m) dst a n args m k = k (blit dst 0 (user_bytes m a n))"
proof -
  have "upage_valid (user_page_ref m) (m_upage m)"
    using assms(1,2) by (simp add: upage_valid_def user_page_ref_def user_range_def mon_wf_def)
  moreover have "in_page (user_page_ref m) a n"
    using assms(2) by (simp add: in_page_def user_page_ref_def user_range_def)
  ultimately show ?thesis
    using user_copy_to_secure_ok [of "user_page_ref m" "m_upage m" n dst a] assms(3) by (simp add: fetch_def user_bytes_def)
qed

lemma user_compute_cmac_ok:
  assumes e: "env_ok P e" and m: "mon_wf m" and slot: "ucast (args ! 1) \<le> (if fw_of (m_cfg m) \<in> {1, 2, 3, 4, 5} then 3 else 5 :: u32)"
    and n: "unat (args ! 3) = n" "0 < n" "n \<le> 0x400" and r: "user_range m (args ! 2) n"
  shows "\<exists>m'. user_compute_cmac e args m =
       Ok (0, put_qwords (cmac_ref P (aes_key (m_se m) (ucast (args ! 1))) (user_bytes m (args ! 2) n)) args, m')
     \<and> aes_key (m_se m') = aes_key (m_se m)"
proof -
  note w = mon_wf_loaded [OF m] and eng = env_okD(1) [OF e]
  let ?ks = "ucast (args ! 1) :: u32" and ?d = "user_bytes m (args ! 2) n"
  have ks: "?ks < 16" by (rule user_keyslot_range(2) [OF slot])
  have ne: "?d \<noteq> []" using n(2) length_user_bytes [of m "args ! 2" n] by force
  obtain s where s: "se_compute_aes_128_cmac (env_eng e) ?ks 16 ?d n (m_se m) = Ok (cmac_ref P (aes_key (m_se m) ?ks) ?d, s)"
      "aes_key s = aes_key (m_se m)"
    using cmac_rfc4493 [OF eng ks _ ne, of 0 "m_se m", unfolded cfg_key_128 [OF ks]] n(3) by (auto simp: se_compute_aes_128_cmac_def)
  have sz: "\<not> args ! 3 > 0x400" using n by (simp add: word_less_nat_alt)
  have tk: "take n (blit (env_stack e 0x400) 0 ?d) = ?d" by (simp add: take_blit_0)
  have "user_compute_cmac e args m = Ok (0, put_qwords (cmac_ref P (aes_key (m_se m) ?ks) ?d) args, m\<lparr>m_se := s\<rparr>)"
    using slot sz s(1) n
    by (simp add: user_compute_cmac_def user_keyslot_valid [OF w(2)] fetch_page_registered [OF r] Let_def
          fetch_ok [OF m r] tk with_se_def)
  then show ?thesis using s(2) by simp
qed

section \<open>Import of a personalised RSA key\<close>

text \<open>The index of \<^verbatim>\<open>g_imported_exponents\<close> for a use case of the import call.\<close>

definition import_index :: "nat \<Rightarrow> nat" where
  "import_index u = [0, 1, 0, 2, 3] ! u"

lemma gcm_plain_blit: "n = length bs \<Longrightarrow> 16 \<le> n \<Longrightarrow> gcm_plain P K (blit s 0 bs) n = gcm_plain P K bs n"
  by (simp add: gcm_plain_def bslice_blit_0 take_blit_0)

lemma gcm_authentic_blit:
  "n = length bs \<Longrightarrow> 16 \<le> n \<Longrightarrow> gcm_authentic P f K (blit s 0 bs) n = gcm_authentic P f K bs n"
  by (simp add: gcm_authentic_def gcm_mac_def gcm_plain_blit bslice_blit_0 take_blit_0)

lemma user_import_rsa_key_ok:
  assumes e: "env_ok P e" and m: "mon_wf m" and fw: "5 \<le> fw_of (m_cfg m)"
    and u: "args ! 3 AND 7 = of_nat u" "1 \<le> u" "u \<le> 4"
    and n: "unat (args ! 5) = n" "0x130 \<le> n" "n \<le> 0x240" and r: "user_range m (args ! 4) n"
  defines "K \<equiv> gcm_key P (aes_key (m_se m) 0xA) (g_rsausecase_to_cryptousecase ! u)
                 (qwords (args ! 1) (args ! 2)) (qwords (args ! 6) (args ! 7))"
    and "pkg \<equiv> user_bytes m (args ! 4) n"
  shows "\<exists>m'. user_decrypt_or_import_rsa_key e args m =
       Ok (if gcm_authentic P (m_fuse m) K pkg n then 0 else 2, args, m')
     \<and> m_upage m' = m_upage m
     \<and> g_imported_exponents m' =
         (if gcm_authentic P (m_fuse m) K pkg n
          then (g_imported_exponents m)[import_index u := take 0x100 (gcm_plain P K pkg n)]
          else g_imported_exponents m)"
proof -
  note w = mon_wf_loaded [OF m] and eng = env_okD(1) [OF e]
  have u4: "u = 1 \<or> u = 2 \<or> u = 3 \<or> u = 4" using u by auto
  let ?D = "blit (env_stack e 0x400) 0 pkg" and ?uc = "g_rsausecase_to_cryptousecase ! u"
  let ?A = "gcm_authentic P (m_fuse m) K pkg n" and ?p = "gcm_plain P K pkg n"
  have pkg: "length pkg = n" by (simp add: pkg_def)
  have D: "length ?D = 0x400" using env_okD(2) [OF e] n pkg by simp
  have lim: "?uc < usecase_limit (fw_of (m_cfg m))"
    using u4 fw by (auto simp: usecase_limit_def g_rsausecase_to_cryptousecase_def)
  obtain s where s: "gcm_decrypt_key (m_cfg m) (env_eng e) (m_fuse m) ?D n ?D n (qwords (args ! 1) (args ! 2)) 16
        (qwords (args ! 6) (args ! 7)) 16 ?uc True (m_se m) =
      Ok (if ?A then (n - 0x30, blit ?D 0 (take (n - 0x30) ?p), Some (?p ! (n - 0x28)), s) else (0, ?D, None, s))"
    using gcm_decrypt_personalized [where kek = "qwords (args ! 1) (args ! 2)" and wrapped = "qwords (args ! 6) (args ! 7)"
        and n = n and src = ?D and dn = n and dst = ?D and f = "m_fuse m",
        OF eng w(2) lim length_qwords length_qwords _ _ _ _ w(4)] n D
    unfolding K_def [symmetric] by (auto simp: gcm_authentic_blit gcm_plain_blit pkg)
  have uw: "ucast (args ! 3 AND 7) = (of_nat u :: u32)" using u4 by (auto simp: u(1))
  have size: "\<not> import_size_refused (of_nat u) n" using u4 n by (auto simp: import_size_refused_def)
  have fw5: "\<not> fw_of (m_cfg m) < 5" using fw by simp
  have out: "take 0x100 (blit ?D 0 (take (n - 0x30) ?p)) = take 0x100 ?p" if ?A
    using n length_gcm_plain [OF eng, of n pkg K] pkg by (simp add: take_blit_0)
  have n4096: "n \<le> 0x1000" using n by simp
  have uc: "unat (of_nat u :: u32) = u" using u by (simp add: unat_of_nat_small)
  have gip: "gcm_decrypt_in_place e ?D n (qwords (args ! 1) (args ! 2)) (qwords (args ! 6) (args ! 7)) ?uc True m =
      Ok (if ?A then (n - 0x30, blit ?D 0 (take (n - 0x30) ?p), Some (?p ! (n - 0x28)), m\<lparr>m_se := s\<rparr>)
          else (0, ?D, None, m\<lparr>m_se := s\<rparr>))"
    using s by (simp add: gcm_decrypt_in_place_def)
  have ln: "length (g_imported_exponents m ! import_index u) = 0x100"
    using w(8) [of "import_index u"] u4 by (auto simp: import_index_def)
  have lp: "length (take 0x100 ?p) = 0x100" using length_gcm_plain [OF eng, of n pkg K] n pkg by simp
  have full: "blit (g_imported_exponents m ! import_index u) 0 (take 0x100 ?p) = take 0x100 ?p"
    using ln lp by (simp add: blit_def)
  have run: "user_decrypt_or_import_rsa_key e args m =
      (if ?A then Ok (0, args, store_exponent (import_index u) (take 0x100 ?p) (m\<lparr>m_se := s\<rparr>))
       else Ok (2, args, m\<lparr>m_se := s\<rparr>))"
    unfolding user_decrypt_or_import_rsa_key_def w(1) bindR.simps Let_def uw uc n(1)
      fetch_page_registered [OF r] if_not_P [OF size] fetch_ok [OF m r n4096] pkg_def [symmetric] gip
    using fw5 u4 n out by (auto simp: import_index_def)
  show ?thesis using run full by (auto simp: store_exponent_def)
qed

end
