(* ===== verification/SMC_Async.thy ===== *)
theory SMC_Async
  imports SMC_Phases SMC_Functional
begin

text \<open>
  What the pieces of the asynchronous protocol do together: a call through the dispatcher,
  and the delivery of the result of a modular exponentiation to the user.
\<close>

section \<open>Calls through the dispatcher\<close>

text \<open>A user call that the tables know and no blacklist stops runs its handler.\<close>

lemma call_user_table:
  assumes "e_core e = 3" "g_has_loaded_config (m_cfg (s_mon s))" "unat (args ! 0 AND 0xFF) = i" "i < length (g_smc_user_table s)"
    and "g_smc_user_table s ! i = entry ident bl (Some h)" "args ! 0 = ucast ident" "drop_bit 24 (args ! 0) AND 0x3F \<noteq> 0x30"
    and "bl AND g_smc_blacklist_mask s = 0"
  shows "call_smc_handler e 0 args s = bindR (smc_code_of e h args s) (\<lambda>r. Ok (finish_call r))"
  using assms by (simp add: call_smc_handler_def smc_route_def g_smc_tables_def Let_def panic_if_def)

text \<open>Everything the dispatcher refuses: unknown numbers, empty entries, user calls from other cores.\<close>

lemma call_refused:
  assumes "hid \<ge> 2 \<or> (hid = 0 \<and> drop_bit 24 (args ! 0) AND 0x3F \<noteq> 0x30 \<and> (e_core e \<noteq> 3
       \<or> (\<forall>i < length (g_smc_user_table s). entry_handler (g_smc_user_table s ! i) \<noteq> None \<longrightarrow> ucast (smc_id (g_smc_user_table s ! i)) \<noteq> args ! 0)))"
  shows "call_smc_handler e hid args s = generic_panic"
  using assms by (auto simp: call_smc_handler_def smc_route_def g_smc_tables_def Let_def panic_if_def split: option.split)

section \<open>The result of an exponentiation\<close>

text \<open>The driver reads the words of the result backwards and swaps each: all bytes are reversed.\<close>

lemma exp_mod_output_rev:
  assumes "0x100 \<le> length buf" "length (RSA_OUTPUT se) = 0x100"
  shows "se_get_exp_mod_output buf 0x100 se = rev (RSA_OUTPUT se) @ drop 0x100 buf"
proof -
  let ?w = "\<lambda>i buf. write32le buf (4 * (64 - 1 - i)) (read32be (RSA_OUTPUT se) (4 * i))"
  have "fold ?w [0..<n] buf = take (4 * (64 - n)) buf @ rev (take (4 * n) (RSA_OUTPUT se)) @ drop 0x100 buf" if "n \<le> 64" for n
    using that
  proof (induction n)
    case 0
    then show ?case by simp
  next
    case (Suc n)
    let ?b = "take (4 * (64 - n)) buf @ rev (take (4 * n) (RSA_OUTPUT se)) @ drop 0x100 buf"
    have w: "le_bytes 4 (read32be (RSA_OUTPUT se) (4 * n)) = rev (bslice (RSA_OUTPUT se) (4 * n) 4)"
      using Suc.prems assms(2) by (simp add: read32be_def le_bytes_read32le)
    have "take (4 * Suc n) (RSA_OUTPUT se) = take (4 * n) (RSA_OUTPUT se) @ bslice (RSA_OUTPUT se) (4 * n) 4"
      using take_add [of "4 * n" 4 "RSA_OUTPUT se"] by (simp add: bslice_def add.commute)
    moreover have "4 * (64 - 1 - n) + 4 = 4 * (64 - n)" "4 * (64 - 1 - n) = 4 * (64 - Suc n)" using Suc.prems by auto
    moreover have "length (bslice (RSA_OUTPUT se) (4 * n) 4) = 4" using Suc.prems assms(2) by (simp add: bslice_def)
    ultimately have "?w n ?b = take (4 * (64 - Suc n)) buf @ rev (take (4 * Suc n) (RSA_OUTPUT se)) @ drop 0x100 buf"
      using Suc.prems assms(1) by (simp add: write32le_def blit_def w min_def)
    then show ?case using Suc by simp
  qed
  from this [of 64] show ?thesis using assms(2) by (simp add: se_get_exp_mod_output_def)
qed

lemma deliver_ok:
  assumes "mon_wf m" "user_range m a n" "n \<le> 0x1000" "n \<le> length buf"
  shows "\<exists>m'. deliver a buf n args m = Ok (0, args, m') \<and> user_bytes m' a n = take n buf \<and> m_se m' = m_se m"
proof -
  let ?m = "m\<lparr>m_upage := (m_upage m)\<lparr>dram := fold (\<lambda>i m. m(a + of_nat i := buf ! i)) [0..<n] (dram (m_upage m))\<rparr>\<rparr>"
  have v: "upage_valid (user_page_ref m) (m_upage m)"
    using assms(1,2) by (simp add: upage_valid_def user_page_ref_def user_range_def mon_wf_def)
  have p: "in_page (user_page_ref m) a n" using assms(2) by (simp add: in_page_def user_page_ref_def user_range_def)
  have "deliver a buf n args m = Ok (0, args, ?m)"
    unfolding deliver_def fetch_page_registered [OF assms(2)] store_back_def
    using p by (simp add: secure_copy_to_user_ok [OF v assms(3,4)])
  moreover have "user_bytes ?m a n = take n buf"
    using assms(3,4) by (intro nth_equalityI) (auto simp: user_bytes_def fold_writes_same)
  ultimately show ?thesis by (intro exI [of _ ?m]) simp
qed

text \<open>
  Asking for the result of a finished exponentiation puts it into the user's page, least
  significant byte first, and frees the lock.
\<close>

lemma exp_mod_get_result_ok:
  assumes e: "env_ok P (e_user e)" and wf: "secmon_wf s"
    and key: "g_smc_callback_key s \<noteq> 0" "args ! 1 = g_smc_callback_key s" "g_smc_callback s = Some Smc_exp_mod_get_result"
    and d: "g_exp_mod_done (s_mon s)" "args ! 3 = 0x100" "user_range (s_mon s) (args ! 2) 0x100" "length (RSA_OUTPUT (m_se (s_mon s))) = 0x100"
  shows "\<exists>s'. smc_get_result e args s = Ok (Returned 0 (args[1 := 0]) s') \<and> phase_of s' = Idle
     \<and> user_bytes (s_mon s') (args ! 2) 0x100 = rev (RSA_OUTPUT (m_se (s_mon s)))"
proof -
  let ?st = "env_stack (e_user e) 0x400"
  let ?out = "rev (RSA_OUTPUT (m_se (s_mon s))) @ drop 0x100 ?st"
  let ?t = "clear_user_smc_in_progress s"
  have st: "length ?st = 0x400" using e by (simp add: env_ok_def)
  have cb: "run_smc_callback e (g_smc_callback s) ?st (args ! 3) s = Ok (0, ?out, ?t)"
    using d key(3) by (simp add: smc_exp_mod_get_result_def get_exp_mod_done_def exp_mod_output_rev st)
  have "mon_wf (s_mon ?t)" "user_range (s_mon ?t) (args ! 2) 0x100" "0x100 \<le> length ?out"
    using wf d(3,4) st by (simp_all add: secmon_wf_def)
  from deliver_ok [OF this(1,2) _ this(3), of "args[1 := 0]"] obtain m' where
    m': "deliver (args ! 2) ?out 0x100 (args[1 := 0]) (s_mon ?t) = Ok (0, args[1 := 0], m')"
      "user_bytes m' (args ! 2) 0x100 = take 0x100 ?out" by auto
  have sz: "unat (args ! 3) = 0x100" using d(2) by simp
  have "smc_get_result e args s = Ok (Returned 0 (args[1 := 0]) (?t\<lparr>g_smc_callback_key := 0, s_mon := m'\<rparr>))"
    using m'(1) d(2) cb by (simp add: get_result_eq [OF key(1,2)] sz del: One_nat_def)
  then show ?thesis using m'(2) d(4) by (intro exI [of _ "?t\<lparr>g_smc_callback_key := 0, s_mon := m'\<rparr>"])
      (simp add: phase_of_def clear_user_smc_in_progress_def del: One_nat_def)
qed

end
