(* ===== verification/SC7_Facts.thy ===== *)
theory SC7_Facts
  imports SC7 "HOL-Library.Sublist"
begin

text \<open>
  What a suspend is known to have checked when the core goes off: the history of register
  accesses only grows, and on its way the suspend read that the other cores are off, the
  boot processor halted and the DMA masters in reset.
\<close>

section \<open>Histories grow\<close>

text \<open>Results that carry a history that extends \<open>t\<close>.\<close>

abbreviation grown :: "io \<Rightarrow> io res \<Rightarrow> bool" where
  "grown t r \<equiv> keeps (suffix t) r"

abbreviation grown2 :: "io \<Rightarrow> ('a \<times> io) res \<Rightarrow> bool" where
  "grown2 t r \<equiv> keeps (\<lambda>(_, tr). suffix t tr) r"

abbreviation grown3 :: "io \<Rightarrow> ('a \<times> 'b \<times> io) res \<Rightarrow> bool" where
  "grown3 t r \<equiv> keeps (\<lambda>(_, _, tr). suffix t tr) r"

lemma grows_io [simp]:
  assumes "suffix t tr"
  shows "suffix t (io_write a v tr)" "suffix t (snd (io_read dev a tr))" "suffix t (io_modify dev a f tr)"
    "suffix t (Rd a w # tr)" "suffix t (Wr a w # tr)"
  using assms by (simp_all add: io_write_def io_read_def io_modify_def suffix_ConsI)

lemma grows_car [simp]:
  assumes "suffix t tr"
  shows "suffix t (clkrst_reboot dev d tr)" "suffix t (clkrst_disable dev d tr)"
    "suffix t (flow_set_cc4_ctrl c v tr)" "suffix t (flow_set_halt_events c b tr)" "suffix t (flow_set_csr c v tr)"
  using assms by (simp_all add: clkrst_reboot_def clkrst_enable_def clkrst_disable_def rst_disable_def rst_enable_def clk_enable_def
      clk_disable_def Let_def flow_set_cc4_ctrl_def flow_set_halt_events_def flow_set_csr_def)

lemma poll_opt_grows:
  assumes "poll_opt dev a busy tr = Some tr'"
  shows "suffix tr tr'"
proof (rule poll_opt.raw_induct [where P = "\<lambda>dev a busy tr tr'. suffix tr tr'", OF _ assms], goal_cases)
  case (1 poll_opt dev a busy tr tr')
  then show ?case by (auto simp: io_read_def suffix_ConsI split: if_splits) (blast dest: suffix_ConsD)
qed

lemma hiz_poll_grows:
  assumes "hiz_poll dev st tr = Some r"
  shows "suffix tr (snd r)"
proof (rule hiz_poll.raw_induct [where P = "\<lambda>dev st tr r. suffix tr (snd r)", OF _ assms], goal_cases)
  case (1 hiz_poll dev st tr r)
  define t1 where "t1 = Rd (MMIO_GET_DEVICE_ADDRESS 15 + 0x634) (dev tr (MMIO_GET_DEVICE_ADDRESS 15 + 0x634)) # tr"
  define t2 where "t2 = Rd TIMERUS_CNTR_1US_0 (dev t1 TIMERUS_CNTR_1US_0) # t1"
  have "r = (True, t1) \<or> r = (False, t2) \<or> hiz_poll dev st t2 = Some r"
    using 1(2) by (auto simp: io_read_def get_time_def t1_def t2_def split: if_splits)
  then have "suffix t1 (snd r)" using 1(1) [of dev st t2 r] by (auto simp: t2_def suffix_ConsI dest: suffix_ConsD)
  then show ?case unfolding t1_def by (rule suffix_ConsD)
qed

lemma poll_grown: "suffix t tr \<Longrightarrow> grown t (poll dev a busy tr)"
  by (auto simp: poll_def keeps_def dest!: poll_opt_grows split: option.splits intro: suffix_order.trans)

lemma wait_grown: "suffix t tr \<Longrightarrow> grown t (wait dev us tr)"
  by (simp add: wait_def io_read_def poll_grown)

lemma wait_rounds_grown: "suffix t tr \<Longrightarrow> grown t (wait_rounds dev us a d n tr)"
  by (induction n arbitrary: tr) (auto simp: io_read_def intro!: keeps_bindI [where R = "suffix t"] wait_grown)

lemma i2c_load_config_grown: "suffix t tr \<Longrightarrow> grown t (i2c_load_config dev regs tr)"
  by (simp add: i2c_load_config_def wait_rounds_grown)

lemma i2c_init_grown: "suffix t tr \<Longrightarrow> grown t (i2c_init dev i tr)"
  unfolding i2c_init_def Let_def
  by (auto simp: io_read_def intro!: keeps_bindI [where R = "suffix t"] i2c_load_config_grown wait_rounds_grown)

lemma i2c_write_grown: "suffix t tr \<Longrightarrow> grown2 t (i2c_write dev regs d src n tr)"
  unfolding i2c_write_def Let_def
  by (auto simp: io_read_def intro!: keeps_bindI [where R = "suffix t"] i2c_load_config_grown poll_grown)

lemma i2c_read_grown: "suffix t tr \<Longrightarrow> grown3 t (i2c_read dev regs d dst n tr)"
  unfolding i2c_read_def Let_def
  by (auto simp: io_read_def intro!: keeps_bindI [where R = "suffix t"] i2c_load_config_grown poll_grown)

lemma i2c_query_grown: "suffix t tr \<Longrightarrow> grown3 t (i2c_query dev i d r dst n tr)"
  unfolding i2c_query_def Let_def
  by (auto intro!: keeps_bindI [where R = "\<lambda>(_, tr). suffix t tr"] i2c_write_grown i2c_read_grown)

lemma i2c_send_grown: "suffix t tr \<Longrightarrow> grown2 t (i2c_send dev i d r src n tr)"
  by (auto simp: i2c_send_def Let_def intro!: i2c_write_grown)

lemma i2c_update_grown: "suffix t tr \<Longrightarrow> grown t (i2c_update dev i d r f tr)"
  unfolding i2c_update_def
  by (rule keeps_bindI [where R = "\<lambda>(_, _, tr). suffix t tr"], rule i2c_query_grown)
     (auto intro!: keeps_bindI [where R = "\<lambda>(_, tr). suffix t tr"] i2c_send_grown)

lemma uart_send_grown: "suffix t tr \<Longrightarrow> grown t (uart_send dev u buf n tr)"
proof (induction n)
  case 0
  then show ?case by (simp add: uart_send_def)
next
  case (Suc n)
  then show ?case
    by (auto simp: uart_send_def foldR_append Let_def intro!: keeps_bindI [where R = "suffix t"] poll_grown)
qed

section \<open>The steps of the suspend\<close>

text \<open>A step that changes nothing but the history, which it extends.\<close>

definition io_only :: "secmon \<Rightarrow> secmon \<Rightarrow> bool" where
  "io_only s s' \<longleftrightarrow> suffix (s_io s) (s_io s') \<and> s' = s\<lparr>s_io := s_io s'\<rparr>"

lemma io_only_refl [simp]: "io_only s s"
  by (simp add: io_only_def)

lemma io_only_trans [trans]: "io_only s t \<Longrightarrow> io_only t u \<Longrightarrow> io_only s u"
  by (cases s; cases t; cases u) (auto simp: io_only_def intro: suffix_order.trans)

lemma on_io_only: "grown (s_io s) (f (s_io s)) \<Longrightarrow> keeps (io_only s) (on_io f s)"
  unfolding on_io_def by (rule keeps_bindI) (auto simp: io_only_def)

lemma battery_io_only: "keeps (io_only s) (configure_battery_hiz_mode e s)"
proof -
  let ?t = "s_io s"
  have fin: "keeps (io_only s) (Ok (s\<lparr>s_io := clkrst_disable (e_dev e) CARDEVICE_I2C1 tr\<rparr>))" if "suffix ?t tr" for tr
    using that by (simp add: io_only_def)
  have poll: "grown ?t (case hiz_poll (e_dev e) st tr of None \<Rightarrow> Hang
      | Some (should_wait, tr) \<Rightarrow> if should_wait then wait (e_dev e) 0x100 tr else Ok tr)" if "suffix ?t tr" for st tr
    using that by (auto split: option.split dest!: hiz_poll_grows intro!: wait_grown intro: suffix_order.trans)
  have charger: "grown ?t (bindR (i2c_query_ti_charger_bit_7 (e_dev e) tr) (\<lambda>(b, tr).
      if \<not> b
      then bindR (i2c_set_ti_charger_bit_7 (e_dev e) tr) (\<lambda>tr.
           case get_time (e_dev e) tr of (start_time, tr) \<Rightarrow>
           (case hiz_poll (e_dev e) start_time tr of None \<Rightarrow> Hang
            | Some (should_wait, tr) \<Rightarrow> if should_wait then wait (e_dev e) 0x100 tr else Ok tr))
      else Ok tr))" if "suffix ?t tr" for tr
    using that unfolding i2c_query_ti_charger_bit_7_def i2c_set_ti_charger_bit_7_def bindR_assoc
    by (intro keeps_bindI [where R = "\<lambda>(_, _, tr). suffix ?t tr"] i2c_query_grown)
       (auto simp: get_time_def io_read_def intro!: keeps_bindI [where R = "suffix ?t"] i2c_update_grown poll)
  show ?thesis
    unfolding configure_battery_hiz_mode_def Let_def
    by (rule keeps_bindI [where R = "suffix ?t"]) (use charger fin in \<open>auto simp: upd_io_def\<close>)
qed

lemma wake_io_only: "keeps (io_only s) (enable_lp0_wake_events e s)"
  unfolding enable_lp0_wake_events_def Let_def
  by (rule on_io_only) (auto intro!: keeps_bindI [where R = "suffix (s_io s)"] wait_grown)

lemma pmic_io_only: "keeps (io_only s) (notify_pmic_shutdown e s)"
  unfolding notify_pmic_shutdown_def Let_def i2c_send_pmic_cpu_shutdown_cmd_def
  by (rule on_io_only) (auto intro!: keeps_bindI [where R = "suffix (s_io s)"] i2c_init_grown i2c_update_grown)

section \<open>The checks of a suspend\<close>

text \<open>
  The reads that the suspend insists on: the power gates of cores 1 to 3 are off, the boot
  processor reports the halt mode that was written, and the DMA masters are in reset.
\<close>

definition halted_value :: "senv \<Rightarrow> u32 \<Rightarrow> u32" where
  "halted_value e fw = (if fw < 4 \<or> e_dbgauthstatus e AND 3 = 3 then 0x50000000 else 0x40000000)"

definition mitigated :: "senv \<Rightarrow> u32 \<Rightarrow> io \<Rightarrow> bool" where
  "mitigated e fw tr \<longleftrightarrow>
     (\<exists>v r. Rd APBDEV_PMC_PWRGATE_STATUS_0 v \<in> set tr \<and> v AND 0xE00 = 0
        \<and> Rd FLOW_CTLR_HALT_COP_EVENTS_0 (halted_value e fw) \<in> set tr
        \<and> Rd CLK_RST_CONTROLLER_RST_DEVICES_H_0 r \<in> set tr \<and> r AND 0x4000006 = 0x4000006)"

lemma mitigated_mono: "mitigated e fw tr \<Longrightarrow> set tr \<subseteq> set tr' \<Longrightarrow> mitigated e fw tr'"
  unfolding mitigated_def by blast

lemma mitigate_ok:
  assumes "mitigate_jamais_vu e s = Ok s'" "mon_fw s = Ok fw"
  shows "\<exists>new. s_io s' = new @ s_io s \<and> mitigated e fw new"
proof -
  let ?h = "halted_value e fw"
  define v where "v = e_dev e (s_io s) APBDEV_PMC_PWRGATE_STATUS_0"
  define t1 where "t1 = Rd APBDEV_PMC_PWRGATE_STATUS_0 v # s_io s"
  define t2 where "t2 = Wr FLOW_CTLR_HALT_COP_EVENTS_0 ?h # t1"
  define t3 where "t3 = Rd FLOW_CTLR_HALT_COP_EVENTS_0 (e_dev e t2 FLOW_CTLR_HALT_COP_EVENTS_0) # t2"
  define r where "r = e_dev e t3 CLK_RST_CONTROLLER_RST_DEVICES_H_0"
  have "v AND 0xE00 = 0 \<and> e_dev e t2 FLOW_CTLR_HALT_COP_EVENTS_0 = ?h \<and> r AND 0x4000006 = 0x4000006
     \<and> s' = s\<lparr>s_io := Rd CLK_RST_CONTROLLER_RST_DEVICES_H_0 r # t3\<rparr>"
    using assms unfolding mitigate_jamais_vu_def
    by (auto simp: read_io_def io_read_def upd_io_def io_write_def Let_def panic_if_def halted_value_def v_def r_def t1_def t2_def t3_def
        split: if_splits)
  then show ?thesis
    by (intro exI [of _ "[Rd CLK_RST_CONTROLLER_RST_DEVICES_H_0 r, Rd FLOW_CTLR_HALT_COP_EVENTS_0 ?h,
        Wr FLOW_CTLR_HALT_COP_EVENTS_0 ?h, Rd APBDEV_PMC_PWRGATE_STATUS_0 v]"])
       (auto simp: mitigated_def t1_def t2_def t3_def)
qed

text \<open>The steps after the checks only add accesses.\<close>

lemma upd_io_grows: "suffix t (s_io s) \<Longrightarrow> (\<And>tr. suffix t tr \<Longrightarrow> suffix t (f tr)) \<Longrightarrow> suffix t (s_io (upd_io f s))"
  by (simp add: upd_io_def)

lemma fold_writes_grow: "suffix t tr \<Longrightarrow> suffix t (fold (\<lambda>x. io_write (a x) (v x)) xs tr)"
  by (induction xs arbitrary: tr) auto

lemma firmware_grows: "suffix t (s_io s) \<Longrightarrow> keeps (\<lambda>s'. suffix t (s_io s')) (setup_bpmp_sc7_firmware e s)"
  unfolding setup_bpmp_sc7_firmware_def Let_def
  by (auto simp: upd_io_def intro!: keeps_bind_any fold_writes_grow)

lemma flow_grows: "suffix t (s_io s) \<Longrightarrow> suffix t (s_io (configure_flow_regs_for_sleep e s))"
  by (simp add: configure_flow_regs_for_sleep_def upd_io_def Let_def)

lemma pmc_grows: "suffix t (s_io s) \<Longrightarrow> suffix t (s_io (configure_pmc_for_deep_powerdown e s))"
  by (simp add: configure_pmc_for_deep_powerdown_def upd_io_def Let_def)

lemma tzram_grows: "suffix t (s_io s) \<Longrightarrow> keeps (\<lambda>s'. suffix t (s_io s')) (save_tzram_state e s)"
  unfolding save_tzram_state_def Let_def
  by (auto simp: upd_io_def set_suspend_for_debug_def clear_priv_smc_in_progress_def intro!: keeps_bind_any)

lemma se_state_grows: "suffix t (s_io s) \<Longrightarrow> keeps (\<lambda>s'. suffix t (s_io s')) (save_se_state e s)"
  unfolding save_se_state_def Let_def by (auto simp: upd_io_def intro!: keeps_bind_any)

lemma power_down_grows:
  assumes "suffix t (s_io s)"
  shows "keeps (\<lambda>r. \<exists>s'. r = Off s' \<and> suffix t (s_io s')) (save_se_and_power_down_cpu e s)"
proof -
  have last: "keeps (\<lambda>s'. suffix t (s_io s')) (on_io (uart_send dev u bs n) s)" if "suffix t (s_io s)" for dev u bs n and s :: secmon
    unfolding on_io_def by (rule keeps_bindI [OF uart_send_grown [OF that]]) simp
  show ?thesis
    unfolding save_se_and_power_down_cpu_def Let_def
    by (rule keeps_bindI [OF tzram_grows [OF assms]], rule keeps_bindI [OF se_state_grows], assumption, rule keeps_bind_any,
        rule keeps_bindI [where R = "\<lambda>s'. suffix t (s_io s')"]) (auto simp: upd_io_def intro!: last)
qed

text \<open>The steps of a suspend that goes through, on firmware with the checks.\<close>

lemma suspend_steps:
  assumes "cpu_suspend e ps ep arg args s = Ok (Off s')" "mon_fw s = Ok fw" "2 \<le> fw"
  obtains s3 s4 s5 t where "io_only s s3" "mon_fw s3 = Ok fw" "mitigate_jamais_vu e s3 = Ok s4"
    "setup_bpmp_sc7_firmware e (configure_pmc_for_deep_powerdown e s4) = Ok s5"
    "suffix (s_io (configure_flow_regs_for_sleep e s5)) (s_io t)" "save_se_and_power_down_cpu e t = Ok (Off s')"
proof -
  from assms(1) have ok: "ps AND 0x17FFF = 0x1001B" by (auto simp: cpu_suspend_def split: if_splits)
  obtain s1 where s1: "configure_battery_hiz_mode e s = Ok s1" using assms(1) ok by (auto simp: cpu_suspend_def elim!: bindR_OkE)
  obtain s2 where s2: "enable_lp0_wake_events e s1 = Ok s2" using assms(1) ok by (auto simp: cpu_suspend_def s1 elim!: bindR_OkE)
  obtain s3 where s3: "notify_pmic_shutdown e s2 = Ok s3" using assms(1) ok by (auto simp: cpu_suspend_def s1 s2 elim!: bindR_OkE)
  have io: "io_only s s3"
    using keepsD [OF battery_io_only s1] keepsD [OF wake_io_only s2] keepsD [OF pmic_io_only s3] by (blast intro: io_only_trans)
  then have "s_mon s3 = s_mon s" by (cases s, cases s3) (simp add: io_only_def)
  then have fw3: "mon_fw s3 = Ok fw" using assms(2) by simp
  obtain s4 where s4: "mitigate_jamais_vu e s3 = Ok s4"
    using assms(1,3) ok by (auto simp: cpu_suspend_def s1 s2 s3 fw3 elim!: bindR_OkE)
  obtain s5 where s5: "setup_bpmp_sc7_firmware e (configure_pmc_for_deep_powerdown e s4) = Ok s5"
    using assms(1,3) ok by (auto simp: cpu_suspend_def s1 s2 s3 fw3 s4 Let_def elim!: bindR_OkE)
  obtain c tr where "save_se_and_power_down_cpu e ((configure_flow_regs_for_sleep e s5)\<lparr>s_cpu := c, s_io := tr\<rparr>) = Ok (Off s')"
      "suffix (s_io (configure_flow_regs_for_sleep e s5)) tr"
    using assms(1,3) ok s1 s2 s3 fw3 s4 s5
    by (auto simp: cpu_suspend_def Let_def read_io_def io_read_def suffix_ConsI split: if_splits)
  then show thesis using that [OF io fw3 s4 s5, of "(configure_flow_regs_for_sleep e s5)\<lparr>s_cpu := c, s_io := tr\<rparr>"] by simp
qed

lemma suspend_mitigated_state:
  assumes "cpu_suspend e ps ep arg args s = Ok (Off s')" "mon_fw s = Ok fw" "2 \<le> fw"
  shows "\<exists>new. s_io s' = new @ s_io s \<and> mitigated e fw new"
proof -
  obtain s3 s4 s5 t where st: "io_only s s3" "mon_fw s3 = Ok fw" "mitigate_jamais_vu e s3 = Ok s4"
    "setup_bpmp_sc7_firmware e (configure_pmc_for_deep_powerdown e s4) = Ok s5"
    "suffix (s_io (configure_flow_regs_for_sleep e s5)) (s_io t)" "save_se_and_power_down_cpu e t = Ok (Off s')"
    using suspend_steps [OF assms] .
  obtain pre where pre: "s_io s3 = pre @ s_io s" using st(1) by (auto simp: io_only_def suffix_def)
  obtain new where new: "s_io s4 = new @ s_io s3" "mitigated e fw new" using mitigate_ok [OF st(3,2)] by blast
  have "suffix (s_io s4) (s_io s5)" using keepsD [OF firmware_grows st(4)] pmc_grows by auto
  then have "suffix (s_io s4) (s_io t)" using flow_grows [of "s_io s4" s5 e] st(5) suffix_order.trans by blast
  from keepsD [OF power_down_grows [OF this] st(6)] have "suffix (s_io s4) (s_io s')" by simp
  then obtain post where "s_io s' = post @ new @ pre @ s_io s" using new(1) pre by (auto simp: suffix_def)
  then show ?thesis using new(2) by (intro exI [of _ "post @ new @ pre"]) (auto intro: mitigated_mono)
qed

end
