(* ===== verification/SC7_Live.thy ===== *)
theory SC7_Live
  imports SC7_Facts
begin

text \<open>
  A suspend goes through: on a console whose engine answers and whose devices are as the
  suspend expects them, the call ends with the core off.
\<close>

section \<open>Code that returns\<close>

definition succeeds :: "('a \<Rightarrow> bool) \<Rightarrow> 'a res \<Rightarrow> bool" where
  "succeeds Q r \<longleftrightarrow> (\<exists>x. r = Ok x \<and> Q x)"

lemma succeeds_Ok [simp]: "succeeds Q (Ok x) = Q x"
  by (simp add: succeeds_def)

lemma succeeds_bindI: "succeeds R r \<Longrightarrow> (\<And>x. R x \<Longrightarrow> succeeds Q (f x)) \<Longrightarrow> succeeds Q (bindR r f)"
  by (auto simp: succeeds_def)

lemma succeeds_panic_if [simp]: "succeeds Q (bindR (panic_if b) f) \<longleftrightarrow> \<not> b \<and> succeeds Q (f ())"
  by (cases b) (auto simp: succeeds_def panic_if_def generic_panic_def)

lemma succeeds_mono: "succeeds R r \<Longrightarrow> (\<And>x. R x \<Longrightarrow> Q x) \<Longrightarrow> succeeds Q r"
  by (auto simp: succeeds_def)

lemma succeeds_foldR:
  assumes "P s" "\<And>i s. i \<in> set is \<Longrightarrow> P s \<Longrightarrow> succeeds P (f i s)"
  shows "succeeds P (foldR f is s)"
  using assms
proof (induction "is" arbitrary: s)
  case (Cons i "is")
  show ?case unfolding foldR.simps
    by (rule succeeds_bindI [where R = P]) (use Cons in auto)
qed simp

section \<open>The engine\<close>

text \<open>An engine that finishes every operation without an error.\<close>

definition engine_answers :: "se_engine \<Rightarrow> bool" where
  "engine_answers eng \<longleftrightarrow> (\<forall>se. r_int_status (eng se) AND 0x10 \<noteq> 0 \<and> r_int_status (eng se) AND 0x10000 = 0
     \<and> r_flags (eng se) AND 3 = 0 \<and> r_err (eng se) = 0)"

abbreviation no_error :: "se_state \<Rightarrow> bool" where
  "no_error se \<equiv> ERR_STATUS_REG se = 0"

lemma blocking_op_answers:
  "engine_answers eng \<Longrightarrow> succeeds (\<lambda>(_, se'). no_error se') (trigger_se_blocking_op eng op dst n src k se)"
  by (simp add: trigger_se_blocking_op_def Let_def se_apply_def se_check_for_error_def panic_if_def engine_answers_def)

lemmas op_bind = succeeds_bindI [OF blocking_op_answers]

lemma iv_no_error: "succeeds (\<lambda>se'. True) (set_aes_keyslot_iv ks iv 0x10 se)" if "ks < 16"
  using that by (simp add: set_aes_keyslot_iv_def)

lemma clear_iv_no_error: "succeeds (\<lambda>se'. True) (clear_aes_keyslot_iv ks se)" if "ks < 16"
  using that by (simp add: clear_aes_keyslot_iv_def)

lemma random_key_answers:
  "engine_answers eng \<Longrightarrow> d < 16 \<Longrightarrow> k < 16 \<Longrightarrow> succeeds no_error (se_generate_random_key eng d k se)"
  by (auto simp: se_generate_random_key_def Let_def intro!: op_bind)

lemma random_answers:
  "engine_answers eng \<Longrightarrow> k < 16 \<Longrightarrow> succeeds (\<lambda>(_, se'). no_error se') (se_generate_random eng k dst 0x10 se)"
  by (auto simp: se_generate_random_def Let_def res_simps intro!: op_bind)

lemma cbc_answers:
  "engine_answers eng \<Longrightarrow> k < 16 \<Longrightarrow> 16 \<le> n \<Longrightarrow> succeeds (\<lambda>(_, se'). no_error se') (se_aes_256_cbc_encrypt eng k dst m src n iv se)"
  by (auto simp: se_aes_256_cbc_encrypt_def Let_def intro!: op_bind succeeds_bindI [OF iv_no_error])

lemma ecb_answers:
  "engine_answers eng \<Longrightarrow> k < 16 \<Longrightarrow> succeeds (\<lambda>(_, se'). no_error se') (se_aes_ecb_encrypt_block eng k dst 0x10 src 0x10 hi se)"
  by (auto simp: se_aes_ecb_encrypt_block_def se_perform_aes_block_operation_def Let_def intro!: op_bind)

lemma cmac_answers:
  "engine_answers eng \<Longrightarrow> k < 16 \<Longrightarrow> succeeds (\<lambda>(_, se'). no_error se') (se_compute_aes_256_cmac eng k c d n se)"
  unfolding se_compute_aes_256_cmac_def se_compute_aes_cmac_def Let_def
  by (simp only: succeeds_panic_if, intro conjI succeeds_bindI [OF ecb_answers])
     (auto intro!: op_bind succeeds_bindI [OF clear_iv_no_error] simp: bindR_if bindR_assoc)

lemma srk_answers: "engine_answers eng \<Longrightarrow> succeeds no_error (se_generate_srk eng k se)"
  by (auto simp: se_generate_srk_def Let_def intro!: op_bind)

lemma encrypt_srk_answers:
  "engine_answers eng \<Longrightarrow> n \<le> 0x10 \<Longrightarrow> succeeds (\<lambda>(_, se'). no_error se') (se_encrypt_with_srk eng out n src k se)"
  by (auto simp: se_encrypt_with_srk_def intro!: op_bind)

lemma save_block_answers:
  "engine_answers eng \<Longrightarrow> succeeds (\<lambda>(_, se'). no_error se') (save_block eng out src b st)"
  by (auto simp: save_block_def Let_def split: prod.split intro!: succeeds_bindI [OF encrypt_srk_answers])

lemma save_context_answers:
  assumes "engine_answers eng" "k < 16" "g < 16"
  shows "succeeds (\<lambda>(_, se'). no_error se') (se_save_context eng stack g k dst se)"
proof -
  have blocks: "succeeds (\<lambda>(_, se'). no_error se') (foldR (save_block eng out None) bs st)"
    if "case st of (_, se') \<Rightarrow> no_error se'" for out bs st
    by (rule succeeds_foldR [OF that save_block_answers [OF assms(1)]])
  note steps = succeeds_bindI [OF random_key_answers [OF assms(1,3,2)]] succeeds_bindI [OF srk_answers [OF assms(1)]]
    succeeds_bindI [OF random_answers [OF assms(1,2)]] succeeds_bindI [OF save_block_answers [OF assms(1)]]
    succeeds_bindI [OF encrypt_srk_answers [OF assms(1)]]
  show ?thesis
    unfolding se_save_context_def Let_def
    by (rule steps, rule steps, rule steps, clarsimp, rule steps, rule succeeds_bindI [OF blocks], assumption, rule steps)
       (auto intro!: steps)
qed

section \<open>The devices\<close>

text \<open>The devices of a console that is ready to sleep: the registers that the suspend waits for and insists on.\<close>

definition ready_to_sleep :: "senv \<Rightarrow> u32 \<Rightarrow> bool" where
  "ready_to_sleep e fw \<longleftrightarrow> counter_advances (e_dev e)
     \<and> goes_idle (e_dev e) (i2c_get_registers_from_id I2C_5 + I2C_I2C_STATUS_0) (\<lambda>v. v AND 0x100 \<noteq> 0)
     \<and> goes_idle (e_dev e) (uart_get_regs UART_A + UART_LSR) (\<lambda>v. v AND 0x20 = 0)
     \<and> (\<forall>tr. e_dev e tr APBDEV_PMC_PWRGATE_STATUS_0 AND 0xE00 = 0)
     \<and> (\<forall>tr. e_dev e tr FLOW_CTLR_HALT_COP_EVENTS_0 = halted_value e fw)
     \<and> (\<forall>tr. e_dev e tr CLK_RST_CONTROLLER_RST_DEVICES_H_0 AND 0x4000006 = 0x4000006)"

lemma wait_succeeds: "counter_advances dev \<Longrightarrow> us \<noteq> - 1 \<Longrightarrow> succeeds (\<lambda>_. True) (wait dev us tr)"
  using wait_returns [of dev us tr] by (auto simp: succeeds_def)

lemma rounds_succeed: "counter_advances dev \<Longrightarrow> us \<noteq> - 1 \<Longrightarrow> succeeds (\<lambda>_. True) (wait_rounds dev us a d n tr)"
  using wait_rounds_returns [of dev us a d n tr] by (auto simp: succeeds_def)

lemma poll_succeeds: "goes_idle dev a busy \<Longrightarrow> succeeds (\<lambda>_. True) (poll dev a busy tr)"
  using poll_returns [of dev a busy tr] by (auto simp: succeeds_def)

lemma load_config_succeeds: "counter_advances dev \<Longrightarrow> succeeds (\<lambda>_. True) (i2c_load_config dev regs tr)"
  by (simp add: i2c_load_config_def rounds_succeed)

lemma i2c_init_succeeds: "counter_advances dev \<Longrightarrow> succeeds (\<lambda>_. True) (i2c_init dev i tr)"
  unfolding i2c_init_def Let_def
  by (auto simp: io_read_def intro!: succeeds_bindI [OF load_config_succeeds] succeeds_bindI [OF rounds_succeed])

lemma i2c_transfers_succeed:
  assumes "counter_advances dev" "goes_idle dev (i2c_get_registers_from_id i + I2C_I2C_STATUS_0) (\<lambda>v. v AND 0x100 \<noteq> 0)"
  shows "succeeds (\<lambda>_. True) (i2c_write dev (i2c_get_registers_from_id i) d src n tr)"
    "succeeds (\<lambda>_. True) (i2c_read dev (i2c_get_registers_from_id i) d dst n tr)"
  unfolding i2c_write_def i2c_read_def Let_def using assms
  by (auto simp: io_read_def intro!: succeeds_bindI [OF load_config_succeeds] succeeds_bindI [OF poll_succeeds])

lemma i2c_update_succeeds:
  assumes "counter_advances dev" "goes_idle dev (i2c_get_registers_from_id i + I2C_I2C_STATUS_0) (\<lambda>v. v AND 0x100 \<noteq> 0)"
  shows "succeeds (\<lambda>_. True) (i2c_update dev i d r f tr)"
proof -
  have q: "succeeds (\<lambda>_. True) (i2c_query dev i d r dst n tr)" for dst n tr
    unfolding i2c_query_def Let_def
    by (rule succeeds_bindI [OF i2c_transfers_succeed(1) [OF assms]]) (auto intro: i2c_transfers_succeed(2) [OF assms])
  have s: "succeeds (\<lambda>_. True) (i2c_send dev i d r src n tr)" for src n tr
    unfolding i2c_send_def Let_def by (auto intro: i2c_transfers_succeed(1) [OF assms])
  show ?thesis
    unfolding i2c_update_def by (rule succeeds_bindI [OF q]) (auto intro!: succeeds_bindI [OF s])
qed

lemma uart_succeeds:
  "goes_idle dev (uart_get_regs u + UART_LSR) (\<lambda>v. v AND 0x20 = 0) \<Longrightarrow> succeeds (\<lambda>_. True) (uart_send dev u buf n tr)"
  using uart_send_writes [of dev u buf n tr] by (auto simp: succeeds_def)

section \<open>The suspend\<close>

text \<open>The configuration and the configuration items do not change on the way.\<close>

definition settings_kept :: "secmon \<Rightarrow> secmon \<Rightarrow> bool" where
  "settings_kept s s' \<longleftrightarrow> m_cfg (s_mon s') = m_cfg (s_mon s) \<and> m_configitem (s_mon s') = m_configitem (s_mon s)"

lemma io_only_settings: "io_only s s' \<Longrightarrow> settings_kept s s' \<and> m_se (s_mon s') = m_se (s_mon s)"
  by (cases s, cases s') (simp add: io_only_def settings_kept_def)

lemma succeeds_keeps: "succeeds (\<lambda>_. True) r \<Longrightarrow> keeps Q r \<Longrightarrow> succeeds Q r"
  by (auto simp: succeeds_def)

lemma on_io_succeeds: "succeeds (\<lambda>_. True) (f (s_io s)) \<Longrightarrow> succeeds (\<lambda>_. True) (on_io f s)"
  unfolding on_io_def by (erule succeeds_bindI) simp

lemma battery_succeeds: "\<not> configitem_is_hiz_mode_enabled (m_configitem (s_mon s)) \<Longrightarrow> succeeds (io_only s) (configure_battery_hiz_mode e s)"
  by (rule succeeds_keeps [OF _ battery_io_only]) (simp add: configure_battery_hiz_mode_def Let_def upd_io_def)

lemma wake_succeeds: "counter_advances (e_dev e) \<Longrightarrow> succeeds (io_only s) (enable_lp0_wake_events e s)"
  by (rule succeeds_keeps [OF _ wake_io_only])
     (auto simp: enable_lp0_wake_events_def Let_def intro!: on_io_succeeds succeeds_bindI [OF wait_succeeds] wait_succeeds)

lemma pmic_succeeds: "ready_to_sleep e fw \<Longrightarrow> succeeds (io_only s) (notify_pmic_shutdown e s)"
  by (rule succeeds_keeps [OF _ pmic_io_only])
     (auto simp: notify_pmic_shutdown_def i2c_send_pmic_cpu_shutdown_cmd_def ready_to_sleep_def Let_def
       intro!: on_io_succeeds succeeds_bindI [OF i2c_init_succeeds] i2c_update_succeeds)

lemma mitigate_succeeds:
  assumes "ready_to_sleep e fw" "mon_fw s = Ok fw"
  shows "succeeds (\<lambda>s'. s_mon s' = s_mon s) (mitigate_jamais_vu e s)"
  using assms
  by (simp add: mitigate_jamais_vu_def ready_to_sleep_def read_io_def io_read_def upd_io_def io_write_def Let_def halted_value_def)

lemma firmware_succeeds:
  assumes "length (e_sc7fw_bin e) mod 4 = 0"
  shows "succeeds (settings_kept s) (setup_bpmp_sc7_firmware e s)"
proof -
  let ?b = "e_sc7fw_bin e"
  have "4 * i + 4 \<le> length ?b" if "i < (length ?b + 3) div 4" for i
    using that assms by presburger
  then have "succeeds (\<lambda>_. True) (foldR (copy_firmware_word ?b) [0..<(length ?b + 3) div 4] mem)" for mem
    by (intro succeeds_foldR) (auto simp: copy_firmware_word_def)
  then show ?thesis
    unfolding setup_bpmp_sc7_firmware_def Let_def
    by (auto simp: settings_kept_def upd_io_def intro!: succeeds_bindI)
qed

lemma tzram_succeeds:
  assumes "engine_answers (env_eng (e_user e))" "mon_fw s = Ok fw"
  shows "succeeds (\<lambda>s'. settings_kept s s' \<and> no_error (m_se (s_mon s'))) (save_tzram_state e s)"
  unfolding save_tzram_state_def Let_def set_suspend_for_debug_def clear_priv_smc_in_progress_def using assms(2)
  by (auto simp: settings_kept_def upd_io_def intro!: succeeds_bindI [OF random_key_answers [OF assms(1)]]
      succeeds_bindI [OF cbc_answers [OF assms(1)]] succeeds_bindI [OF cmac_answers [OF assms(1)]])

lemma se_state_succeeds:
  assumes "engine_answers (env_eng (e_user e))" "no_error (m_se (s_mon s))"
  shows "succeeds (settings_kept s) (save_se_state e s)"
  unfolding save_se_state_def Let_def se_check_error_status_reg_def using assms(2)
  by (auto simp: settings_kept_def upd_io_def se_set_in_context_save_mode_def intro!: succeeds_bindI [OF save_context_answers [OF assms(1)]])

lemma retail_succeeds: "succeeds (\<lambda>_. True) (mon_is_retail e m)"
  by (simp add: mon_is_retail_def configitem_is_retail_def configitem_get_def panic_if_def)

lemma power_down_succeeds:
  assumes "engine_answers (env_eng (e_user e))" "ready_to_sleep e fw" "mon_fw s = Ok fw"
  shows "succeeds (\<lambda>r. \<exists>s'. r = Off s') (save_se_and_power_down_cpu e s)"
  unfolding save_se_and_power_down_cpu_def Let_def
proof (rule succeeds_bindI [OF tzram_succeeds [OF assms(1,3)]], rule succeeds_bindI [OF se_state_succeeds [OF assms(1)]], blast,
    rule succeeds_bindI [OF retail_succeeds])
  fix s1 s2 and retail :: bool
  have "succeeds (\<lambda>_. True) (on_io (uart_send (e_dev e) UART_A bs 8) s)" for bs and s :: secmon
    using assms(2) by (intro on_io_succeeds uart_succeeds) (simp add: ready_to_sleep_def)
  then show "succeeds (\<lambda>r. \<exists>s'. r = Off s')
     (bindR (if \<not> retail then on_io (uart_send (e_dev e) UART_A [0x4F, 0x59, 0x41, 0x53, 0x55, 0x4D, 0x49, 0] 8)
               (upd_io (\<lambda>tr. io_write (PMC_BASE + 0x11C) 0x6001DC28 (io_write (PMC_BASE + 0x118) 0x2202E012 tr)) s2)
             else Ok (upd_io (\<lambda>tr. io_write (PMC_BASE + 0x11C) 0x6001DC28 (io_write (PMC_BASE + 0x118) 0x2202E012 tr)) s2))
       (\<lambda>s. Ok (Off s)))"
    by (cases retail) (auto intro!: succeeds_bindI)
qed

lemma suspend_goes_off:
  assumes "ps AND 0x17FFF = 0x1001B" "mon_fw s = Ok fw" "ready_to_sleep e fw" "engine_answers (env_eng (e_user e))"
    and "\<not> configitem_is_hiz_mode_enabled (m_configitem (s_mon s))" "length (e_sc7fw_bin e) mod 4 = 0"
  shows "\<exists>s'. cpu_suspend e ps ep arg args s = Ok (Off s')"
proof -
  have fw: "mon_fw t = Ok fw" if "settings_kept s t" for t using that assms(2) by (simp add: settings_kept_def)
  have trans: "settings_kept t u \<Longrightarrow> settings_kept s t \<Longrightarrow> settings_kept s u" for t u by (simp add: settings_kept_def)
  have mit: "succeeds (settings_kept s) (if 2 \<le> fw then mitigate_jamais_vu e t else Ok t)" if "settings_kept s t" for t
    using succeeds_mono [OF mitigate_succeeds [OF assms(3) fw [OF that]]] that by (simp add: settings_kept_def)
  have bpmp: "succeeds (settings_kept s) (if 2 \<le> fw then setup_bpmp_sc7_firmware e t else Ok t)" if "settings_kept s t" for t
    using succeeds_mono [OF firmware_succeeds [OF assms(6)]] trans that by auto
  have last: "succeeds (\<lambda>r. \<exists>s'. r = Off s') (case read_io e APBDEV_PMC_PWRGATE_STATUS_0 t of (v, s) \<Rightarrow>
      if v AND 0xE00 = 0 then save_se_and_power_down_cpu e s else generic_panic)" if "settings_kept s t" for t
    using power_down_succeeds [OF assms(4,3)] fw [OF that] assms(3) by (simp add: read_io_def io_read_def ready_to_sleep_def)
  have rest: "succeeds (\<lambda>r. \<exists>s'. r = Off s') (bindR (mon_fw t) (\<lambda>fw.
        bindR (if fw \<ge> 2 then mitigate_jamais_vu e t else Ok t) (\<lambda>s.
        bindR (if fw \<ge> 2 then setup_bpmp_sc7_firmware e (configure_pmc_for_deep_powerdown e s) else Ok (configure_pmc_for_deep_powerdown e s)) (\<lambda>s.
        case read_io e APBDEV_PMC_PWRGATE_STATUS_0 ((configure_flow_regs_for_sleep e s)\<lparr>s_cpu := c s\<rparr>) of (v, s) \<Rightarrow>
           if v AND 0xE00 = 0 then save_se_and_power_down_cpu e s else generic_panic))))" if "settings_kept s t" for t c
  proof -
    have up: "settings_kept s u \<Longrightarrow> settings_kept s (configure_pmc_for_deep_powerdown e u)"
        "settings_kept s u \<Longrightarrow> settings_kept s ((configure_flow_regs_for_sleep e u)\<lparr>s_cpu := c u\<rparr>)" for u
      by (simp_all add: settings_kept_def configure_pmc_for_deep_powerdown_def configure_flow_regs_for_sleep_def upd_io_def)
    show ?thesis
      unfolding fw [OF that] bindR.simps
      by (rule succeeds_bindI [OF mit [OF that]], rule succeeds_bindI [OF bpmp [OF up(1)]], assumption, rule last [OF up(2)])
  qed
  have adv: "counter_advances (e_dev e)" using assms(3) by (simp add: ready_to_sleep_def)
  have "succeeds (\<lambda>r. \<exists>s'. r = Off s') (cpu_suspend e ps ep arg args s)"
    unfolding cpu_suspend_def Let_def using assms(1)
    by (simp, intro succeeds_bindI [OF battery_succeeds [OF assms(5)]] succeeds_bindI [OF wake_succeeds [OF adv]]
        succeeds_bindI [OF pmic_succeeds [OF assms(3)]])
       (drule io_only_settings, drule io_only_settings, drule io_only_settings, use rest in \<open>auto simp: settings_kept_def\<close>)
  then show ?thesis by (auto simp: succeeds_def)
qed

end
