(* ===== verification/Sample_State.thy ===== *)
theory Sample_State
  imports SMC_Handlers
begin

text \<open>
  A concrete console: simple primitives that satisfy the laws of the engine, the reference
  engine built from them, and a monitor after boot on firmware 9.0.0. The closed instances
  of the properties are stated on it.
\<close>

definition sample_prims :: se_prims where
  "sample_prims =
    \<lparr>aes_enc = (\<lambda>k b. xor_bytes b (take 16 (k @ replicate 16 0))),
     aes_dec = (\<lambda>k b. xor_bytes b (take 16 (k @ replicate 16 0))),
     ctr_inc = (\<lambda>c. c[0 := c ! 0 + 1]),
     sha256 = (\<lambda>b. take 32 (b @ replicate 32 0)),
     rng = (\<lambda>i n. replicate n (of_nat i))\<rparr>"

lemma sample_prims_ok: "prims_ok sample_prims"
  by (auto simp: prims_ok_def sample_prims_def xor_bytes_cancel min_def)

definition sample_engine :: se_engine where
  "sample_engine = ref_engine sample_prims"

lemma sample_engine_ok: "se_engine_ok sample_prims sample_engine"
  unfolding sample_engine_def by (rule ref_engine_ok [OF sample_prims_ok])

text \<open>A master key of the second generation, for these primitives.\<close>

definition sample_master_key :: bytes where
  "sample_master_key = xor_bytes (mkey_vectors ! 1) (mkey_vectors ! 0)"

definition sample_se :: se_state where
  "sample_se =
    \<lparr>REG_0x0 = 0, REG_0x4 = 0, OPERATION_REG = 0, INT_ENABLE_REG = 0, INT_STATUS_REG = 0, CONFIG_REG = 0,
     IN_LL_ADDR_REG = LL_paddr 0, OUT_LL_ADDR_REG = LL_paddr 0, HASH_RESULT_REG = replicate 32 0,
     CONTEXT_SAVE_CONFIG_REG = 0, SHA_CONFIG_REG = 0, SHA_MSG_LENGTH_REG = 0, REG_0x208 = [0, 0, 0],
     SHA_MSG_LEFT_REG = 0, REG_0x218 = [0, 0, 0], AES_KEY_READ_DISABLE_REG = 0xFFFF,
     AES_KEYSLOT_FLAGS = replicate 16 0, CRYPTO_REG = 0, CRYPTO_CTR_REG = [0, 0, 0, 0], BLOCK_COUNT_REG = 0,
     AES_KEYTABLE_ADDR = 0, aes_keytable = table_store (\<lambda>_. 0) 0xC 0 4 sample_master_key, CRYPTO_KEYTABLE_DST_REG = 0, RNG_CONFIG_REG = 0,
     RNG_SRC_CONFIG_REG = 0, RNG_RESEED_INTERVAL_REG = 0, RSA_CONFIG = 0, RSA_KEY_SIZE_REG = 0,
     RSA_EXP_SIZE_REG = 0, RSA_KEY_READ_DISABLE_REG = 3, RSA_KEYSLOT_FLAGS = [7, 7], RSA_KEYTABLE_ADDR = 0,
     rsa_keytable = (\<lambda>_. 0), RSA_OUTPUT = replicate 256 0, FLAGS_REG = 0, ERR_STATUS_REG = 0, SPARE_0 = 0,
     op_count = 0, g_se_callback = None, g_se_modulus_sizes = [0, 0], g_se_exp_sizes = [0, 0],
     g_se_generated_vector = False, g_se_stored_test_vector = replicate 16 0\<rparr>"

lemma sample_se_ctr [simp]: "length (CRYPTO_CTR_REG sample_se) = 4"
  by (simp add: sample_se_def)

definition sample_cfg :: exocfg where
  "sample_cfg = (exocfg_init \<lparr>emummc_magic = 0, emummc_type = 0, emummc_id = 0, emummc_fs_version = 0,
     emummc_storage = replicate 0x80 0, emu_dir_path = replicate 0x80 0\<rparr>)\<lparr>g_has_loaded_config := True\<rparr>"

lemma sample_cfg_loaded [simp]: "g_has_loaded_config sample_cfg" "fw_of sample_cfg = 11"
  by (simp_all add: sample_cfg_def exocfg_init_def)

definition sample_fuse :: fuse_state where
  "sample_fuse = \<lparr>CLK_RST_CONTROLLER_MISC_CLK_ENB_0 = 0, FUSE_CTRL = 0, FUSE_REG_ADDR = 0, FUSE_REG_READ = 0,
     FUSE_REG_WRITE = 0, FUSE_PRIVATEKEYDISABLE = 0, FUSE_DIS_PGM = 0, FUSE_PWR_GOOD_SW = 0,
     FUSE_CHIP_REGS = \<lparr>FUSE_SKU_INFO = 0x83, FUSE_SOC_SPEEDO_1 = 0x7F, FUSE_FIRST_BOOTROM_PATCH_SIZE = 0,
       FUSE_RESERVED_SW = 0, FUSE_RESERVED_ODM = replicate 8 0, FUSE_VENDOR_CODE = 0, FUSE_FAB_CODE = 0,
       FUSE_LOT_CODE_0 = 0, FUSE_LOT_CODE_1 = 0, FUSE_WAFER_ID = 0, FUSE_X_COORDINATE = 0, FUSE_Y_COORDINATE = 0,
       FUSE_0x120 = 0, FUSE_SPARE_BIT = replicate 32 0\<rparr>,
     g_has_checked_for_rcm_bug_patch = False, g_has_rcm_bug_patch = False\<rparr>"

definition sample_bootconfig :: bootconfig_state where
  "sample_bootconfig = \<lparr>LOADED_BOOTCONFIG = \<lparr>bc_unsigned = replicate 0x200 0, bc_signature = replicate 0x100 0,
     bc_signed = replicate 0x100 0\<rparr>, g_boot_reason = \<lparr>bootloader_version = 0, bootloader_start_block = 0,
     bootloader_start_page = 0, bootloader_attribute = 0, boot_reason_value = 0, boot_reason_state = 0\<rparr>,
     g_package2_hash_for_recovery = [0, 0, 0, 0]\<rparr>"

definition sample_upage :: upage_state where
  "sample_upage = \<lparr>g_user_page_user_address = 0x80001000,
     mmu_l3_tbl = mmu_map_page (replicate 512 0) USER_PAGE_SECURE_MONITOR_ADDR 0x80001000 userpage_attributes,
     dram = (\<lambda>a. ucast a)\<rparr>"

definition sample_rcache :: rcache_state where
  "sample_rcache = \<lparr>g_random_cache = replicate 0x400 0, g_random_cache_low = 0, g_random_cache_high = 0x3FF\<rparr>"

definition sample_mkey :: mkey_state where
  "sample_mkey = mkey_init\<lparr>g_determined_mkey_revision := True, g_mkey_revision := 1,
     g_old_masterkeys := (g_old_masterkeys mkey_init)[0 := mkey_vectors ! 0]\<rparr>"

definition sample_mon :: monitor where
  "sample_mon = \<lparr>m_se = sample_se, m_cfg = sample_cfg, m_fuse = sample_fuse, m_bootconfig = sample_bootconfig,
     m_configitem = configitem_init, m_mkey = sample_mkey, m_tkey = tkey_init, m_upage = sample_upage,
     m_rcache = sample_rcache, g_crypt_aes_done = False, g_exp_mod_done = False,
     g_imported_exponents = replicate 4 (replicate 0x100 0), intr_se_pending = False\<rparr>"

definition sample_env :: env where
  "sample_env = \<lparr>env_eng = sample_engine, env_fuse_hw = \<lparr>fuse_array = (\<lambda>_. 0), fuse_goes_idle = True\<rparr>,
     env_version_hash = 0, env_stack = (\<lambda>n. replicate n 0xCC)\<rparr>"

lemma sample_env_ok: "env_ok sample_prims sample_env"
  by (simp add: env_ok_def sample_env_def sample_engine_ok)

lemma sample_upage_wf: "upage_wf sample_upage"
  by (simp add: upage_wf_def sample_upage_def mmu_map_page_def user_page_index)

lemma sample_rcache_wf: "rcache_wf sample_rcache"
  by (simp add: rcache_wf_def sample_rcache_def)

lemma sample_mon_wf: "mon_wf sample_mon"
proof -
  have "mkey_wf sample_mkey"
    using mkey_wf_store [OF mkey_wf_init vectors_wf(3) [of 0], of 0] by (simp add: mkey_wf_def sample_mkey_def)
  then show ?thesis
    using sample_upage_wf sample_rcache_wf
    by (simp add: mon_wf_def sample_mon_def sample_se_def tkey_init_def)
qed

lemma sample_aes_key: "ks < 16 \<Longrightarrow> aes_key sample_se ks = (if ks = 0xC then sample_master_key else replicate 16 0)"
proof -
  have l: "length sample_master_key = 16" by (simp add: sample_master_key_def vectors_wf)
  let ?s = "sample_se\<lparr>aes_keytable := (\<lambda>_. 0)\<rparr>"
  have z: "aes_key ?s ks = replicate 16 0" if "ks < 16" for ks
  proof -
    have "table_bytes (\<lambda>_. 0) ks 0 4 = replicate 16 0" by (simp add: table_bytes_def numeral_eq_Suc le_bytes_def)
    then show ?thesis using that by (simp add: aes_key_def)
  qed
  have "sample_se = ?s\<lparr>aes_keytable := table_store (aes_keytable ?s) 0xC 0 4 sample_master_key\<rparr>"
    by (simp add: sample_se_def)
  then have "aes_key sample_se = (aes_key ?s)(0xC := sample_master_key)"
    using aes_key_store [of "0xC" sample_master_key ?s] l by simp
  then show "ks < 16 \<Longrightarrow> ?thesis" using z by simp
qed

lemma sample_mkey_consistent: "mkey_consistent sample_prims True sample_mkey sample_se"
proof -
  have l: "length (mkey_vectors ! 0) = 16" "length (mkey_vectors ! 1) = 16" by (simp_all add: vectors_wf)
  have K: "aes_key sample_se 0xC = sample_master_key" by (simp add: sample_aes_key)
  have dec: "aes_dec sample_prims k b = xor_bytes b k" if "length k = 16" for k b
    using that by (simp add: sample_prims_def)
  have lk: "length sample_master_key = 16" using l by (simp add: sample_master_key_def)
  have k0: "xor_bytes (mkey_vectors ! 1) sample_master_key = mkey_vectors ! 0"
    by (simp add: sample_master_key_def mkey_vectors_def xor_bytes_def)
  have z0: "xor_bytes (mkey_vectors ! 0) (mkey_vectors ! 0) = replicate 16 0"
    by (simp add: mkey_vectors_def xor_bytes_def numeral_eq_Suc)
  have n0: "xor_bytes (mkey_vectors ! 0) sample_master_key \<noteq> replicate 16 0"
  proof
    assume "xor_bytes (mkey_vectors ! 0) sample_master_key = replicate 16 0"
    then have "xor_bytes (mkey_vectors ! 0) sample_master_key ! 0 = 0" by simp
    then show False by (simp add: sample_master_key_def mkey_vectors_def xor_bytes_def)
  qed
  have "mkey_wf sample_mkey" using sample_mon_wf by (simp add: mon_wf_def sample_mon_def)
  then show ?thesis
    using k0 z0 n0 l lk
    by (simp add: mkey_consistent_def is_generation_def vectors_for_def K dec sample_mkey_def mkey_init_def)
qed

end
