(* ===== verification/Sample_Secmon.thy ===== *)
theory Sample_Secmon
  imports SMC_Async SC7_Live Sample_State
begin

text \<open>
  The sample console as a whole: all cores but the last are off, no call is pending, and
  the devices answer: the microsecond counter counts the accesses, the power gates of the
  other cores read as off, the boot processor as halted, the DMA masters as in reset and
  the serial port as ready.
\<close>

definition sample_dev :: device where
  "sample_dev tr a =
    (if a = TIMERUS_CNTR_1US_0 then of_nat (length tr)
     else if a = FLOW_CTLR_HALT_COP_EVENTS_0 then 0x40000000
     else if a = CLK_RST_CONTROLLER_RST_DEVICES_H_0 then 0x4000006
     else if a = uart_get_regs UART_A + UART_LSR then 0x20
     else 0)"

lemma length_reads [simp]: "length (reads dev a n tr) = n + length tr"
  by (induction n arbitrary: tr) simp_all

lemma counter_of_length:
  assumes "\<And>tr. dev tr TIMERUS_CNTR_1US_0 = of_nat (length tr)"
  shows "counter_advances dev"
proof -
  have "\<exists>n. \<not> of_nat (n + length tr) - t0 \<le> us" if "us \<noteq> - 1" for us t0 :: u32 and tr :: io
  proof -
    have "of_nat (unat (us + 1 + t0 - of_nat (length tr)) + length tr) - t0 = us + 1" by simp
    moreover have "unat (us + 1) = unat us + 1"
    proof -
      have "unat us \<noteq> 2 ^ 32 - 1"
      proof
        assume "unat us = 2 ^ 32 - 1"
        then have "us = 0xFFFFFFFF" by (simp add: word_unat_eq_iff)
        then show False using that by simp
      qed
      moreover have "unat us < 2 ^ 32" using unsigned_less [of us] by simp
      ultimately show ?thesis by (simp add: unat_word_ariths)
    qed
    then have "\<not> us + 1 \<le> us" by (simp add: word_le_nat_alt)
    ultimately show ?thesis by metis
  qed
  then show ?thesis by (simp add: counter_advances_def assms)
qed

lemma sample_dev_advances: "counter_advances sample_dev"
  by (rule counter_of_length) (simp add: sample_dev_def)

definition sample_senv :: senv where
  "sample_senv = \<lparr>e_user = sample_env, e_dev = sample_dev, e_par = (\<lambda>a. a), e_regs = (\<lambda>_. 0), e_core = 3, e_dbgauthstatus = 0,
     e_sc7fw_bin = replicate 8 0\<rparr>"

definition sample_cpu :: cpu_state where
  "sample_cpu = set_core_is_active 3 True \<lparr>g_cpu_contexts = cpu_contexts_init, msr_log = []\<rparr>"

definition sample_mc :: mc_state where
  "sample_mc = \<lparr>carveouts = replicate 5 unused_regs, g_saved_carveouts = mc_saved_init\<rparr>"

definition sample_secmon :: secmon where
  "sample_secmon =
    \<lparr>s_mon = sample_mon, s_io = [], s_cpu = sample_cpu, s_mc = sample_mc, s_ams_userpage_mapped = False,
     s_ams_iram_page_mapped = False, g_is_user_smc_in_progress = False, g_is_priv_smc_in_progress = False, g_smc_callback = None,
     g_smc_callback_key = 0, g_configured_carveouts = [False, False], g_has_suspended = False, g_smc_blacklist_mask = 0,
     g_smc_user_table = g_smc_user_table_init, g_smc_priv_table = g_smc_priv_table_init, g_smc_ams_table = g_smc_ams_table_init\<rparr>"

text \<open>The same with an exponentiation under way, and with one that has finished.\<close>

definition sample_pending :: secmon where
  "sample_pending = sample_secmon\<lparr>g_is_user_smc_in_progress := True, g_smc_callback := Some Smc_exp_mod_get_result, g_smc_callback_key := 7\<rparr>"

definition sample_finished :: secmon where
  "sample_finished = sample_pending\<lparr>s_mon := sample_mon\<lparr>g_exp_mod_done := True\<rparr>\<rparr>"

lemma sample_senv_ok: "env_ok sample_prims (e_user sample_senv)"
  by (simp add: sample_senv_def sample_env_ok)

lemma sample_cpu_wf: "cpu_wf sample_cpu"
  by (simp add: sample_cpu_def set_core_is_active_def cpu_wf_def cpu_contexts_init_def)

lemma sample_secmon_wf: "secmon_wf sample_secmon" "secmon_wf sample_pending" "secmon_wf sample_finished"
  using sample_mon_wf sample_cpu_wf
  by (simp_all add: secmon_wf_def sample_secmon_def sample_pending_def sample_finished_def sample_mc_def mc_wf_def mc_saved_init_def mon_wf_def)

lemma sample_lock_wf: "lock_wf sample_secmon" "lock_wf sample_pending" "lock_wf sample_finished"
  by (simp_all add: lock_wf_def sample_secmon_def sample_pending_def sample_finished_def)

lemma sample_fw: "mon_fw sample_secmon = Ok 11" "mon_fw sample_pending = Ok 11" "g_has_loaded_config (m_cfg (s_mon sample_secmon))"
  by (simp_all add: sample_secmon_def sample_pending_def sample_mon_def)

lemma sample_engine_answers: "engine_answers sample_engine"
  by (simp add: engine_answers_def sample_engine_def ref_engine_def se_done_def Let_def)

lemma sample_ready: "ready_to_sleep sample_senv 11"
  unfolding ready_to_sleep_def
proof (intro conjI allI)
  show "counter_advances (e_dev sample_senv)" by (simp add: sample_senv_def sample_dev_advances)
qed (auto simp: sample_senv_def sample_dev_def goes_idle_def halted_value_def TIMERUS_CNTR_1US_0_def FLOW_CTLR_HALT_COP_EVENTS_0_def
      CLK_RST_CONTROLLER_RST_DEVICES_H_0_def APBDEV_PMC_PWRGATE_STATUS_0_def PMC_BASE_def MAKE_CAR_REG_def MAKE_FLOW_REG_def
      MMIO_GET_DEVICE_ADDRESS_def MMAPDEV_def)

end
