(* ===== verification/Interrupts.thy ===== *)
theory Interrupts
  imports Exo_Config
begin

text \<open>
  \<^verbatim>\<open>interrupt.c\<close>: the driver of the interrupt controller and the table of registered
  handlers. The distributor's group, priority, target and configuration registers are
  storage; writing a word of \<^verbatim>\<open>ISENABLER\<close> or \<^verbatim>\<open>ISPENDR\<close> sets the bits that are 1. The code of
  a handler is a parameter, \<open>run\<close>.
\<close>

section \<open>State\<close>

record gic_state =
  GICD_CTLR :: u32
  GICD_IGROUPR :: "nat \<Rightarrow> u32"
  GICD_ISENABLER :: "nat \<Rightarrow> u32"
  GICD_ISPENDR :: "nat \<Rightarrow> u32"
  GICD_IPRIORITYR :: "nat \<Rightarrow> u8"
  GICD_ITARGETSR :: "nat \<Rightarrow> u8"
  GICD_ICFGR :: "nat \<Rightarrow> u32"
  GICC_CTLR :: u32
  GICC_PMR :: u32
  GICC_BPR :: u32
  GICC_EOIR_log :: "u32 list"    \<comment> \<open>ends of interrupts, newest first\<close>

text \<open>A slot of the table: an id and a handler, 0 and null in a free slot.\<close>

type_synonym 'h intr_table = "(u32 \<times> 'h option) list"

abbreviation (input) MAX_REGISTERED_INTERRUPTS :: nat where "MAX_REGISTERED_INTERRUPTS \<equiv> 4"
abbreviation (input) GIC_PRI_HIGHEST_NONSECURE :: u8 where "GIC_PRI_HIGHEST_NONSECURE \<equiv> 0x80"

definition g_registered_interrupts_init :: "'h intr_table" where
  "g_registered_interrupts_init = replicate MAX_REGISTERED_INTERRUPTS (0, None)"

section \<open>Controller\<close>

definition intr_initialize_gic :: "gic_state \<Rightarrow> gic_state" where
  "intr_initialize_gic g =
     (let g = g\<lparr>GICD_IGROUPR := (GICD_IGROUPR g)(0 := 0xFFFFFFFF)\<rparr>;
          g = fold (\<lambda>i g. g\<lparr>GICD_IPRIORITYR := (GICD_IPRIORITYR g)(i := GIC_PRI_HIGHEST_NONSECURE)\<rparr>) [0..<0x20] g
      in g\<lparr>GICC_CTLR := 0x1D9, GICC_PMR := ucast GIC_PRI_HIGHEST_NONSECURE, GICC_BPR := 7\<rparr>)"

definition intr_initialize_gic_nonsecure :: "gic_state \<Rightarrow> gic_state" where
  "intr_initialize_gic_nonsecure g =
     (let g = fold (\<lambda>i g. g\<lparr>GICD_IGROUPR := (GICD_IGROUPR g)(i := 0xFFFFFFFF)\<rparr>) [1..<8] g;
          g = fold (\<lambda>i g. g\<lparr>GICD_IPRIORITYR := (GICD_IPRIORITYR g)(i := GIC_PRI_HIGHEST_NONSECURE)\<rparr>) [0x20..<0xE0] g
      in g\<lparr>GICD_CTLR := 1\<rparr>)"

definition intr_prepare_gicc_for_sleep :: "gic_state \<Rightarrow> gic_state" where
  "intr_prepare_gicc_for_sleep g = g\<lparr>GICC_CTLR := 0x1E0\<rparr>"

definition intr_set_group :: "nat \<Rightarrow> u32 \<Rightarrow> gic_state \<Rightarrow> gic_state" where
  "intr_set_group i grp g =
     g\<lparr>GICD_IGROUPR := (GICD_IGROUPR g)(i div 32 :=
         (GICD_IGROUPR g (i div 32) AND NOT (push_bit (i mod 32) 1)) OR push_bit (i mod 32) (grp AND 1))\<rparr>"

definition intr_set_pending :: "nat \<Rightarrow> gic_state \<Rightarrow> gic_state" where
  "intr_set_pending i g = g\<lparr>GICD_ISPENDR := (GICD_ISPENDR g)(i div 32 := GICD_ISPENDR g (i div 32) OR push_bit (i mod 32) 1)\<rparr>"

definition intr_set_priority :: "nat \<Rightarrow> u8 \<Rightarrow> gic_state \<Rightarrow> gic_state" where
  "intr_set_priority i priority g = g\<lparr>GICD_IPRIORITYR := (GICD_IPRIORITYR g)(i := priority)\<rparr>"

definition intr_set_cpu_mask :: "nat \<Rightarrow> u8 \<Rightarrow> gic_state \<Rightarrow> gic_state" where
  "intr_set_cpu_mask i m g = g\<lparr>GICD_ITARGETSR := (GICD_ITARGETSR g)(i := m)\<rparr>"

text \<open>The parentheses are those of the source: the new bits are inside the mask of the conjunction.\<close>

definition intr_set_edge_level :: "nat \<Rightarrow> u32 \<Rightarrow> gic_state \<Rightarrow> gic_state" where
  "intr_set_edge_level i edge_level g =
     g\<lparr>GICD_ICFGR := (GICD_ICFGR g)(i div 16 :=
         GICD_ICFGR g (i div 16) AND
           (NOT (push_bit (2 * (i mod 16)) 3) OR push_bit (2 * (i mod 16)) (push_bit 1 (edge_level AND 1))))\<rparr>"

definition intr_set_enabled :: "nat \<Rightarrow> u32 \<Rightarrow> gic_state \<Rightarrow> gic_state" where
  "intr_set_enabled i enabled g =
     g\<lparr>GICD_ISENABLER := (GICD_ISENABLER g)(i div 32 := GICD_ISENABLER g (i div 32) OR push_bit (i mod 32) (enabled AND 1))\<rparr>"

section \<open>Handlers\<close>

text \<open>The first slot with the id; calling a null handler is undefined.\<close>

fun find_handler :: "u32 \<Rightarrow> 'h intr_table \<Rightarrow> 'h option option" where
  "find_handler i [] = None"
| "find_handler i ((j, h) # t) = (if j = i then Some h else find_handler i t)"

text \<open>\<open>iar\<close> is the interrupt id that \<^verbatim>\<open>GICC_IAR\<close> acknowledges.\<close>

definition handle_registered_interrupt ::
  "('h \<Rightarrow> 's \<Rightarrow> 's res) \<Rightarrow> u32 \<Rightarrow> 'h intr_table \<Rightarrow> 's \<Rightarrow> gic_state \<Rightarrow> ('s \<times> gic_state) res"
where
  "handle_registered_interrupt run iar t s g =
     (let interrupt_id = iar
      in if interrupt_id \<le> 0xDF
         then (case find_handler interrupt_id t of
                 None \<Rightarrow> generic_panic
               | Some None \<Rightarrow> Undef
               | Some (Some h) \<Rightarrow> bindR (run h s) (\<lambda>s. Ok (s, g\<lparr>GICC_EOIR_log := interrupt_id # GICC_EOIR_log g\<rparr>)))
         else Ok (s, g))"

fun intr_register_handler :: "u32 \<Rightarrow> 'h \<Rightarrow> 'h intr_table \<Rightarrow> 'h intr_table res" where
  "intr_register_handler i h [] = generic_panic"
| "intr_register_handler i h ((j, h') # t) =
     (if j = 0 then Ok ((i, Some h) # t) else bindR (intr_register_handler i h t) (\<lambda>t. Ok ((j, h') # t)))"

section \<open>Properties\<close>

lemma register_length: "intr_register_handler i h t = Ok t' \<Longrightarrow> length t' = length t"
  by (induction t arbitrary: t') (auto split: if_splits elim!: bindR_OkE)

lemma register_full: "(\<forall>x \<in> set t. fst x \<noteq> 0) \<Longrightarrow> intr_register_handler i h t = generic_panic"
  by (induction t) auto

lemma register_free: "\<exists>x \<in> set t. fst x = 0 \<Longrightarrow> \<exists>t'. intr_register_handler i h t = Ok t'"
proof (induction t)
  case (Cons a t)
  then show ?case by (cases a) (auto simp: res_simps)
qed simp

text \<open>After the registrations \<open>regs\<close>, in this order.\<close>

definition intr_register_all :: "(u32 \<times> 'h) list \<Rightarrow> 'h intr_table \<Rightarrow> 'h intr_table res" where
  "intr_register_all regs t = foldR (\<lambda>(i, h). intr_register_handler i h) regs t"

lemma register_table:
  assumes "\<forall>x \<in> set regs. fst x \<noteq> 0" "length regs \<le> n" "\<forall>x \<in> set pre. fst x \<noteq> 0"
  shows "intr_register_all regs (map (\<lambda>(i, h). (i, Some h)) pre @ replicate n (0, None)) =
     Ok (map (\<lambda>(i, h). (i, Some h)) (pre @ regs) @ replicate (n - length regs) (0, None))"
  using assms
proof (induction regs arbitrary: pre n)
  case Nil
  then show ?case by (simp add: intr_register_all_def)
next
  case (Cons r regs)
  obtain i h where r: "r = (i, h)" by fastforce
  obtain k where n: "n = Suc k" using Cons.prems(2) by (cases n) auto
  have "intr_register_handler i h (map (\<lambda>(i, h). (i, Some h)) pre @ replicate n (0, None)) =
      Ok (map (\<lambda>(i, h). (i, Some h)) (pre @ [r]) @ replicate k (0, None))"
    using Cons.prems(3) by (induction pre) (auto simp: r n)
  then show ?case
    using Cons.IH [of k "pre @ [r]"] Cons.prems by (simp add: intr_register_all_def r n)
qed

lemma find_registered:
  assumes "(i, h) \<in> set regs" "distinct (map fst regs)"
  shows "find_handler i (map (\<lambda>(i, h). (i, Some h)) regs @ t) = Some (Some h)"
  using assms
proof (induction regs)
  case (Cons r regs)
  then show ?case by (cases r) force
qed simp

lemma find_skips: "i \<notin> fst ` set regs \<Longrightarrow> find_handler i (map (\<lambda>(i, h). (i, Some h)) regs @ t) = find_handler i t"
  by (induction regs) auto

lemma find_free: "find_handler i (replicate m (0, None)) = (if i = 0 \<and> 0 < m then Some None else None)"
  by (induction m) auto

lemma bit_set_edge_level:
  assumes "bit (GICD_ICFGR (intr_set_edge_level i e g) w) b"
  shows "bit (GICD_ICFGR g w) b"
  using assms by (auto simp: intr_set_edge_level_def bit_and_iff split: if_splits)

lemma intr_set_enabled_0: "intr_set_enabled i 0 g = g"
  by (cases g) (simp add: intr_set_enabled_def)

lemma bit_set_group:
  assumes "b < 32"
  shows "bit (GICD_IGROUPR (intr_set_group i e g) w) b \<longleftrightarrow>
     (if 32 * w + b = i then odd e else bit (GICD_IGROUPR g w) b)"
proof -
  have "32 * w + b = i \<longleftrightarrow> w = i div 32 \<and> b = i mod 32" using assms by auto
  moreover have "odd e \<longleftrightarrow> bit e 0" by (simp add: bit_0)
  ultimately show ?thesis using assms
    by (auto simp: intr_set_group_def bit_and_iff bit_or_iff bit_not_iff bit_push_bit_iff bit_1_iff bit_exp_iff)
qed

end
