(* ===== verification/Monitor_Properties.thy ===== *)
theory Monitor_Properties
  imports Sample_Secmon Bakery Interrupts
begin

text \<open>
  The properties of the monitor as a whole: its dispatcher, its lock, the calls of the
  kernel and of Atmosphere, each with a closed instance on the sample console.
\<close>

section \<open>The dispatcher\<close>

text \<open>C14. Whatever sequence of SMCs of all kinds (user, privileged, Atmosphere) comes in from any cores, interleaved with
  completion interrupts of the engine, the invariant of the monitor holds throughout, and no key
  slot changes but those user calls may load and the scratch slot.\<close>

theorem monitor_run_protects_keys:
  assumes "env_ok P (e_user e)" "secmon_wf s" "(awake_step e)\<^sup>*\<^sup>* s s'" "ks \<notin> {0, 1, 2, 3, 4, 5, 9}"
  shows "secmon_wf s' \<and> aes_key (m_se (s_mon s')) ks = aes_key (m_se (s_mon s)) ks"
  using awake_run_keeps [OF assms(1,3,2)] assms(4) by (simp add: se_frame_def user_slots_def)

lemma sample_load_call:
  "\<exists>v args' s'. call_smc_handler (sample_senv\<lparr>e_core := 3\<rparr>) 0 [0xC3000008, 3, 1, 2, 4, 5, 0, 0] sample_secmon = Ok (Returned v args' s')"
proof -
  let ?a = "[0xC3000008, 3, 1, 2, 4, 5, 0, 0] :: u64 list" and ?e = "sample_senv\<lparr>e_core := 3\<rparr>"
  obtain m' where r: "user_load_aes_key sample_env ?a sample_mon = Ok (0, ?a, m')"
    using user_load_aes_key_ok [OF sample_env_ok sample_mon_wf, of ?a] by (auto simp: sample_mon_def)
  have "call_smc_handler ?e 0 ?a sample_secmon = bindR (smc_code_of ?e Smc_load_aes_key ?a sample_secmon) (\<lambda>r. Ok (finish_call r))"
    by (rule call_user_table [where i = 8 and bl = 1 and ident = "0xC3000008"])
       (simp_all add: sample_fw sample_secmon_def g_smc_user_table_init_def sample_mon_def)
  also have "\<dots> = Ok (finish_call (Returned 0 ?a (clear_user_smc_in_progress (sample_secmon\<lparr>g_is_user_smc_in_progress := True, s_mon := m'\<rparr>))))"
    using r by (simp add: smc_wrapper_sync_def try_set_user_smc_in_progress_def run_user_def sample_senv_def sample_secmon_def)
  finally show ?thesis by (simp add: finish_call_def)
qed

theorem monitor_run_protects_keys_witness:
  "\<exists>s'. (awake_step sample_senv)\<^sup>*\<^sup>* sample_secmon s' \<and> aes_key (m_se (s_mon s')) 0xC = sample_master_key"
proof -
  obtain v args' s' where
    "call_smc_handler (sample_senv\<lparr>e_core := 3\<rparr>) 0 [0xC3000008, 3, 1, 2, 4, 5, 0, 0] sample_secmon = Ok (Returned v args' s')"
    using sample_load_call by blast
  from awake_step.call [OF _ this] have run: "(awake_step sample_senv)\<^sup>*\<^sup>* sample_secmon s'" by (intro r_into_rtranclp) simp
  from monitor_run_protects_keys [OF sample_senv_ok sample_secmon_wf(1) run, of "0xC"] run show ?thesis
    by (auto simp: sample_secmon_def sample_mon_def sample_aes_key)
qed



text \<open>C16. The dispatcher implements the protocol of the user lock: from no pending call it goes to at most one pending
  call; a pending call ends only by its own key, and then the lock is free or lost.\<close>

theorem dispatcher_implements_lock_protocol:
  assumes "lock_wf s" "call_smc_handler e hid args s = Ok (Returned v args' s')"
  shows "lock_wf s' \<and> phase_step (args ! 1) (phase_of s) (phase_of s')"
  using keepsD [OF call_phase [OF assms(1)] assms(2)] by (simp add: phase_post_def)

theorem dispatcher_implements_lock_protocol_witness:
  "\<exists>s'. call_smc_handler sample_senv 0 [0xC3000404, 8, 0, 0, 0, 0, 0, 0] sample_pending = Ok (Returned 5 [5, 8, 0, 0, 0, 0, 0, 0] s')
     \<and> phase_of s' = Pending 7"
proof -
  let ?a = "[0xC3000404, 8, 0, 0, 0, 0, 0, 0] :: u64 list"
  have "call_smc_handler sample_senv 0 ?a sample_pending = bindR (smc_code_of sample_senv Smc_get_result ?a sample_pending) (\<lambda>r. Ok (finish_call r))"
    by (rule call_user_table [where i = 4 and bl = 1 and ident = "0xC3000404"])
       (simp_all add: sample_pending_def sample_secmon_def g_smc_user_table_init_def sample_mon_def sample_senv_def)
  then have r: "call_smc_handler sample_senv 0 ?a sample_pending = Ok (Returned 5 [5, 8, 0, 0, 0, 0, 0, 0] sample_pending)"
    by (simp add: smc_get_result_def sample_pending_def finish_call_def)
  have "phase_of sample_pending = Pending 7" by (simp add: phase_of_def sample_pending_def)
  with dispatcher_implements_lock_protocol [OF sample_lock_wf(2) r] r show ?thesis by (auto elim: phase_step_PendingE)
qed

text \<open>Asking for the status of an asynchronous call before the engine has finished loses the lock for good: the key
  is spent while the lock stays held, and after any further sequence of calls, interrupts and
  powered-off cores every call that takes the lock, the suspend included, is answered with 3.\<close>

theorem early_status_check_locks_out:
  assumes "g_is_user_smc_in_progress s" "g_smc_callback_key s \<noteq> 0" "args ! 1 = g_smc_callback_key s"
    and "g_smc_callback s = Some cb" "\<not> callback_done cb (s_mon s)"
  shows "\<exists>s1. smc_check_status e args s = Ok (Returned 0 (args[1 := 3]) s1)
    \<and> (\<forall>s2 h e' args2. (smc_step e)\<^sup>*\<^sup>* s1 s2 \<longrightarrow> h \<in> set locking_calls \<longrightarrow> smc_code_of e' h args2 s2 = Ok (Returned 3 args2 s2))"
proof -
  let ?s1 = "s\<lparr>g_smc_callback_key := 0\<rparr>"
  have "locked_out ?s1" using assms(1) by (simp add: locked_out_def)
  then have "smc_code_of e' h args2 s2 = Ok (Returned 3 args2 s2)" if "(smc_step e)\<^sup>*\<^sup>* ?s1 s2" "h \<in> set locking_calls" for s2 h e' args2
    using locked_out_run [OF that(1)] locking_call_locked [OF _ that(2)] by (simp add: locked_out_def)
  then show ?thesis using check_status_early [OF assms] by blast
qed

theorem early_status_check_locks_out_witness:
  "\<exists>s1. smc_check_status sample_senv [0xC3000003, 7, 0, 0, 0, 0, 0, 0] sample_pending = Ok (Returned 0 [0xC3000003, 3, 0, 0, 0, 0, 0, 0] s1)
    \<and> smc_code_of sample_senv Smc_cpu_suspend [0, 0x1001B, 0, 0, 0, 0, 0, 0] s1 = Ok (Returned 3 [0, 0x1001B, 0, 0, 0, 0, 0, 0] s1)"
proof -
  have "\<not> callback_done Smc_exp_mod_get_result (s_mon sample_pending)"
    by (simp add: sample_pending_def sample_secmon_def sample_mon_def get_exp_mod_done_def)
  from early_status_check_locks_out [OF _ _ _ _ this, of "[0xC3000003, 7, 0, 0, 0, 0, 0, 0]" sample_senv]
  obtain s1 where s1: "smc_check_status sample_senv [0xC3000003, 7, 0, 0, 0, 0, 0, 0] sample_pending = Ok (Returned 0 [0xC3000003, 3, 0, 0, 0, 0, 0, 0] s1)"
    "\<And>s2 h e' args2. (smc_step sample_senv)\<^sup>*\<^sup>* s1 s2 \<Longrightarrow> h \<in> set locking_calls \<Longrightarrow> smc_code_of e' h args2 s2 = Ok (Returned 3 args2 s2)"
    by (auto simp: sample_pending_def)
  have "Smc_cpu_suspend \<in> set locking_calls" by (simp add: locking_calls_def)
  with s1 show ?thesis by blast
qed



section \<open>Privileged calls\<close>

lemma whitelisted_bit:
  "whitelisted wl ofs \<longleftrightarrow> unat ofs div 32 < length wl \<and> bit (wl ! (unat ofs div 32)) (unat ofs div 4 mod 8)"
proof -
  have i: "unat (drop_bit 5 ofs) = unat ofs div 32" "unat (drop_bit 2 ofs AND 7) = unat ofs div 4 mod 8"
    using arg_cong [OF take_bit_eq_mask [of 3 "drop_bit 2 ofs"], of unat]
    by (simp_all add: drop_bit_eq_div mask_numeral take_bit_eq_mod unat_div unat_mod)
  have b: "w AND push_bit k 1 \<noteq> 0 \<longleftrightarrow> bit w k" for w :: u8 and k
    by (simp add: bit_iff_and_push_bit_not_eq_0)
  show ?thesis unfolding whitelisted_def Let_def i b ..
qed

lemma smmu_disable_not_whitelisted: "whitelisted mc_whitelist ofs \<Longrightarrow> ofs \<noteq> 0x23C \<and> ofs \<noteq> 0x298"
  by (auto simp: whitelisted_def mc_whitelist_def)

text \<open>C18. The register access SMC writes at most one register, at the address that was asked for, and only one whose
  bit is set in the whitelist of the power controller or (from firmware 4.0.0) of the memory controller, of which the registers
  0x23C and 0x298, that switch off address translation for the boot processor and the DMA engine, are never written;
  it changes nothing else in the monitor.\<close>

theorem register_access_whitelisted:
  assumes "smc_read_write_register e args s = Ok (Returned v args' s')"
  shows "s' = s\<lparr>s_io := s_io s'\<rparr> \<and> (\<exists>ws. writes_of (s_io s') = ws @ writes_of (s_io s) \<and> length ws \<le> 1
     \<and> (\<forall>(a, x) \<in> set ws.
          (\<exists>ofs :: u32. unat ofs div 32 < 0x28 \<and> bit (pmc_whitelist ! (unat ofs div 32)) (unat ofs div 4 mod 8)
             \<and> args ! 1 = 0x7000E400 + ucast ofs \<and> a = PMC_BASE + ucast ofs)
        \<or> (4 \<le> fw_of (m_cfg (s_mon s)) \<and> (\<exists>ofs :: u32. unat ofs div 32 < 0x68
             \<and> bit (mc_whitelist ! (unat ofs div 32)) (unat ofs div 4 mod 8) \<and> ofs \<notin> {0x23C, 0x298}
             \<and> args ! 1 = 0x70019000 + ucast ofs \<and> a = MMIO_GET_DEVICE_ADDRESS MMIO_DEVID_MC + ucast ofs))))"
proof -
  obtain fw where fw: "mon_fw s = Ok fw" "fw = fw_of (m_cfg (s_mon s))"
    using assms by (auto simp: smc_read_write_register_def Let_def exosphere_get_target_firmware_Ok_iff elim!: bindR_OkE)
  show ?thesis
  proof (cases "rw_register fw (args ! 1)")
    case (Inl r)
    then show ?thesis using assms read_write_register_refused [OF fw(1) Inl, of e] by auto
  next
    case (Inr a)
    obtain old tr where r: "smc_read_write_register e args s = Ok (Returned 0 (args[1 := ucast (old :: u32)]) (s\<lparr>s_io := tr\<rparr>))"
      "writes_of tr = (if ucast (args ! 2) = (0 :: u32) then []
         else [(a, (old AND NOT (ucast (args ! 2))) OR (ucast (args ! 3) AND ucast (args ! 2)))]) @ writes_of (s_io s)"
      using read_write_register_done [OF fw(1) Inr refl refl, of e] by blast
    then have s': "s' = s\<lparr>s_io := tr\<rparr>" using assms by auto
    have "length pmc_whitelist = 0x28" "length mc_whitelist = 0x68"
      by (simp_all add: pmc_whitelist_def mc_whitelist_def)
    then have "(\<exists>ofs :: u32. unat ofs div 32 < 0x28 \<and> bit (pmc_whitelist ! (unat ofs div 32)) (unat ofs div 4 mod 8)
             \<and> args ! 1 = 0x7000E400 + ucast ofs \<and> a = PMC_BASE + ucast ofs)
        \<or> (4 \<le> fw \<and> (\<exists>ofs :: u32. unat ofs div 32 < 0x68
             \<and> bit (mc_whitelist ! (unat ofs div 32)) (unat ofs div 4 mod 8) \<and> ofs \<notin> {0x23C, 0x298}
             \<and> args ! 1 = 0x70019000 + ucast ofs \<and> a = MMIO_GET_DEVICE_ADDRESS MMIO_DEVID_MC + ucast ofs))"
      using rw_register_whitelisted [OF Inr] smmu_disable_not_whitelisted whitelisted_bit by (metis insertE singletonD)
    then show ?thesis
      using r(2) fw(2) unfolding s'
      by (intro conjI exI [of _ "if ucast (args ! 2) = (0 :: u32) then []
         else [(a, (old AND NOT (ucast (args ! 2))) OR (ucast (args ! 3) AND ucast (args ! 2)))]"]) auto
  qed
qed

theorem register_access_whitelisted_witness:
  "\<exists>s'. smc_read_write_register sample_senv [0xC3000008, 0x7000E400, 0xFFFFFFFF, 5, 0, 0, 0, 0] sample_secmon
       = Ok (Returned 0 [0xC3000008, 0, 0xFFFFFFFF, 5, 0, 0, 0, 0] s') \<and> writes_of (s_io s') = [(PMC_BASE, 5)]
     \<and> s' = sample_secmon\<lparr>s_io := s_io s'\<rparr>"
proof -
  let ?a = "[0xC3000008, 0x7000E400, 0xFFFFFFFF, 5, 0, 0, 0, 0] :: u64 list"
  have r: "smc_read_write_register sample_senv ?a sample_secmon
      = Ok (Returned 0 [0xC3000008, 0, 0xFFFFFFFF, 5, 0, 0, 0, 0] (sample_secmon\<lparr>s_io := [Wr PMC_BASE 5]\<rparr>))"
    by (simp add: smc_read_write_register_def Let_def sample_fw rw_register_def whitelisted_def pmc_whitelist_def upd_io_def io_write_def)
       (simp add: sample_secmon_def)
  from register_access_whitelisted [OF r] r show ?thesis by simp
qed

text \<open>C19. The copy between DRAM and IRAM of the Atmosphere SMC moves exactly the bytes asked for, in the direction asked
  for, when the ranges are valid, aligned and within a page each, and unmaps its pages again;
  any other request is refused and changes nothing.\<close>

theorem iram_copy_exact:
  assumes "ams_wf s" "n = unat (args ! 3)"
  shows "ams_iram_copy args s =
     (if iram_copy_valid (args ! 1) (args ! 2) n (ucast (args ! 4))
      then Ok (0, args, s\<lparr>ams_mem := (ams_mem s)\<lparr>mmu_l3_tbl := (mmu_l3_tbl (ams_mem s))[0xA9 := 0, 0xAB := 0],
             dram := (if ucast (args ! 4) = (0 :: u32) then copied (args ! 1) (args ! 2) n (dram (ams_mem s))
                      else copied (args ! 2) (args ! 1) n (dram (ams_mem s)))\<rparr>\<rparr>)
      else Ok (2, args, s))"
  using ams_iram_copy_ok [OF assms] ams_iram_copy_refuses [of args s] assms(2) by auto

theorem iram_copy_exact_witness:
  "\<exists>s'. ams_iram_copy [0, 0x80001000, 0x40020010, 8, 0, 0, 0, 0] \<lparr>g_ams_userpage_mapped = False, g_ams_iram_page_mapped = False, ams_mem = sample_upage\<rparr>
     = Ok (0, [0, 0x80001000, 0x40020010, 8, 0, 0, 0, 0], s') \<and> dram (ams_mem s') 0x80001003 = 0x13 \<and> dram (ams_mem s') 0x80001008 = 8"
proof -
  let ?s = "\<lparr>g_ams_userpage_mapped = False, g_ams_iram_page_mapped = False, ams_mem = sample_upage\<rparr>"
  have "ams_wf ?s" by (simp add: ams_wf_def sample_upage_def mmu_map_page_def)
  moreover have "iram_copy_valid 0x80001000 0x40020010 8 0"
    by (simp add: iram_copy_valid_def ams_is_user_addr_valid_def ams_is_iram_addr_valid_def get_page_for_address_def)
  ultimately show ?thesis
    using iram_copy_exact [of ?s 8 "[0, 0x80001000, 0x40020010, 8, 0, 0, 0, 0]"] by (simp add: copied_def sample_upage_def)
qed

text \<open>A kernel carveout that was configured before sleep is programmed again after it, with the same registers,
  though the controller has lost them.\<close>

theorem carveouts_survive_sleep:
  assumes "g_has_loaded_config c" "2 \<le> fw_of c" "mc_wf mc" "k < 2"
    and "configure_kernel_carveout c (4 + of_nat k) a sz mc = Ok mc1" "length lost = 5"
  shows "\<exists>mc2. configure_default_carveouts c (mc1\<lparr>carveouts := lost\<rparr>) = Ok mc2
     \<and> carveouts mc2 ! (3 + k) = carveouts mc1 ! (3 + k) \<and> g_saved_carveouts mc2 = g_saved_carveouts mc1"
proof -
  have mc1: "mc1 = mc\<lparr>g_saved_carveouts := (g_saved_carveouts mc)[k := \<lparr>sc_address = a, sc_size = sz\<rparr>],
            carveouts := (carveouts mc)[3 + k := kernel_regs (fw_of c) (4 + of_nat k) a sz]\<rparr>"
    using configure_kernel_carveout_ok [OF assms(1,4), of a sz mc] assms(5) by simp
  have "mc_wf (mc1\<lparr>carveouts := lost\<rparr>)" using assms(3,6) by (simp add: mc1 mc_wf_def)
  from configure_default_carveouts_ok [OF assms(1,2) this] show ?thesis
    using assms(3,4) by (auto simp: mc1 mc_wf_def)
qed

theorem carveouts_survive_sleep_witness:
  "\<exists>mc1 mc2. configure_kernel_carveout sample_cfg 5 0x90000000 0x40000 sample_mc = Ok mc1
     \<and> configure_default_carveouts sample_cfg (mc1\<lparr>carveouts := replicate 5 unused_regs\<rparr>) = Ok mc2
     \<and> carveouts mc2 ! 4 = kernel_regs 11 5 0x90000000 0x40000"
proof -
  have wf: "mc_wf sample_mc" by (simp add: mc_wf_def sample_mc_def mc_saved_init_def)
  have r: "configure_kernel_carveout sample_cfg (4 + of_nat 1) 0x90000000 0x40000 sample_mc =
      Ok (sample_mc\<lparr>g_saved_carveouts := (g_saved_carveouts sample_mc)[1 := \<lparr>sc_address = 0x90000000, sc_size = 0x40000\<rparr>],
            carveouts := (carveouts sample_mc)[4 := kernel_regs 11 5 0x90000000 0x40000]\<rparr>)"
    using configure_kernel_carveout_ok [of sample_cfg 1 "0x90000000" "0x40000" sample_mc] by simp
  from carveouts_survive_sleep [OF _ _ wf _ r, of "replicate 5 unused_regs"] r show ?thesis
    by (auto simp: sample_mc_def)
qed

section \<open>Waiting and cores\<close>

text \<open>A wait ends after more than the requested time by the counter, if the counter runs, for every delay but the
  largest, for which it never ends.\<close>

theorem wait_ends_iff:
  assumes "counter_advances dev"
  shows "if us = 0xFFFFFFFF then wait dev us tr = Hang
    else \<exists>k. wait dev us tr = Ok (reads dev TIMERUS_CNTR_1US_0 (Suc (Suc k)) tr)
       \<and> us < dev (reads dev TIMERUS_CNTR_1US_0 (Suc k) tr) TIMERUS_CNTR_1US_0 - dev tr TIMERUS_CNTR_1US_0"
proof (cases "us = 0xFFFFFFFF")
  case True
  moreover have "(0xFFFFFFFF :: u32) = - 1" by simp
  ultimately show ?thesis using wait_max_hangs [of dev tr] by metis
next
  case False
  moreover have "(0xFFFFFFFF :: u32) = - 1" by simp
  ultimately have "us \<noteq> - 1" by metis
  let ?t = "dev tr TIMERUS_CNTR_1US_0" and ?tr = "Rd TIMERUS_CNTR_1US_0 (dev tr TIMERUS_CNTR_1US_0) # tr"
  obtain n where "\<not> dev (reads dev TIMERUS_CNTR_1US_0 n ?tr) TIMERUS_CNTR_1US_0 - ?t \<le> us"
    using assms \<open>us \<noteq> - 1\<close> unfolding counter_advances_def by blast
  from poll_ends [where busy = "\<lambda>t. t - ?t \<le> us" and dev = dev and a = TIMERUS_CNTR_1US_0 and tr = ?tr and n = n, OF this]
  obtain k where "poll dev TIMERUS_CNTR_1US_0 (\<lambda>t. t - ?t \<le> us) ?tr = Ok (reads dev TIMERUS_CNTR_1US_0 (Suc k) ?tr)"
    "\<not> dev (reads dev TIMERUS_CNTR_1US_0 k ?tr) TIMERUS_CNTR_1US_0 - ?t \<le> us" by blast
  then show ?thesis using False by (simp add: wait_def io_read_def not_le) blast
qed

theorem wait_ends_iff_witness:
  "wait sample_dev 0xFFFFFFFF [] = Hang \<and> (\<exists>tr. wait sample_dev 100 [] = Ok tr)"
  using wait_ends_iff [OF sample_dev_advances, of "0xFFFFFFFF" "[]"] wait_ends_iff [OF sample_dev_advances, of 100 "[]"] by auto

text \<open>Switching a core on works once: the core finds the entry point and argument of the call, is active from then
  on, cannot take the same entry twice, and a second request to switch it on is refused.\<close>

theorem core_started_once:
  fixes arg :: u64
  assumes "counter_advances dev" "g_has_loaded_config c" "cpu_wf s" "unat core < 4" "\<not> is_core_active (unat core) s" "ep \<noteq> 0"
  shows "\<exists>s1 tr1 s2. cpu_on c dev core ep arg s tr = Ok (0, s1, tr1)
     \<and> use_core_entrypoint_and_argument (unat core) s1 = Ok (ep, arg, s2)
     \<and> use_core_entrypoint_and_argument (unat core) s2 = Panic 0xF7F00007
     \<and> (\<forall>ep' arg' tr'. cpu_on c dev core ep' arg' s2 tr' = Ok (0xFFFFFFFC, s2, tr'))"
proof -
  obtain tr1 where on: "cpu_on c dev core ep arg s tr = Ok (0, set_core_entrypoint_and_argument (unat core) ep arg s, tr1)"
    using cpu_on_ok [OF assms(1,2,4,5)] by blast
  obtain s2 where use: "use_core_entrypoint_and_argument (unat core) (set_core_entrypoint_and_argument (unat core) ep arg s) = Ok (ep, arg, s2)"
      "is_core_active (unat core) s2" "use_core_entrypoint_and_argument (unat core) s2 = Panic 0xF7F00007"
    using entrypoint_handed_over [OF assms(3,4,5,6)] by blast
  have "cpu_on c dev core ep' arg' s2 tr' = Ok (0xFFFFFFFC, s2, tr')" for ep' arg' tr'
    using use(2) assms(4) by (simp add: cpu_on_def is_core_active_def)
  then show ?thesis using on use(1,3) by blast
qed

theorem core_started_once_witness:
  "\<exists>s1 tr1 s2. cpu_on sample_cfg sample_dev 1 0x80060000 5 sample_cpu [] = Ok (0, s1, tr1)
     \<and> use_core_entrypoint_and_argument 1 s1 = Ok (0x80060000, 5, s2)"
proof -
  have "\<not> is_core_active (unat (1 :: u32)) sample_cpu"
    by (simp add: is_core_active_def sample_cpu_def set_core_is_active_def cpu_contexts_init_def)
  from core_started_once [OF sample_dev_advances _ sample_cpu_wf _ this, of sample_cfg "0x80060000" 5 "[]"] show ?thesis by auto
qed

text \<open>The system registers of a core survive its power-down: after the core is switched off and given a new entry point,
  the restore writes back every saved register with the value it had (32-bit registers by their
  low half), in the order of the restore code, and marks the context as used.\<close>

theorem core_context_round_trip:
  assumes "cpu_wf s" "core < 4"
  shows "let s1 = set_core_entrypoint_and_argument core ep arg (fst (power_down_current_core regs core s tr));
             s2 = restore_current_core_context core s1
         in msr_log s2 = rev (restored_regs regs core) @ msr_log s1 \<and> \<not> ctx_is_saved (g_cpu_contexts s2 ! core)"
proof -
  let ?s1 = "set_core_entrypoint_and_argument core ep arg (fst (power_down_current_core regs core s tr))"
  let ?f = "\<lambda>c :: saved_cpu_context. c\<lparr>ctx_is_active := False, ELR_EL3 := ep, ctx_argument := arg\<rparr>"
  have l: "length (g_cpu_contexts (save_current_core_context regs core s)) = 4"
    using assms by (simp add: save_current_core_context_eq cpu_wf_def)
  have "cpu_wf ?s1" "g_cpu_contexts ?s1 ! core = ?f (g_cpu_contexts (save_current_core_context regs core s) ! core)"
    using assms(2) l by (simp_all add: power_down_current_core_def set_core_entrypoint_and_argument_def Let_def cpu_wf_def)
  from save_then_restore [where f = ?f, OF assms this] show ?thesis by (simp add: Let_def)
qed

theorem core_context_round_trip_witness:
  "let s1 = set_core_entrypoint_and_argument 2 0x80060000 0 (fst (power_down_current_core (\<lambda>_. 0x1234) 2 sample_cpu []))
   in (2, Reg64 (DBGBVR 1), 0x1234) \<in> set (msr_log (restore_current_core_context 2 s1))"
  using core_context_round_trip [OF sample_cpu_wf, of 2 "0x80060000" 0 "\<lambda>_. 0x1234" "[]"]
  by (simp add: Let_def restored_regs_def context_regs64_def image_iff)

section \<open>The critical section\<close>

text \<open>C20. The bakery lock does not deadlock: in every reachable state in which cores are on their way in and none is
  inside, some core on its way in can take a step. All tickets that are out are 1.\<close>

theorem critical_section_no_deadlock:
  assumes "cs_reachable s"
  shows "(\<forall>core < 4. ticket_number (customers s ! core) \<le> 1)
    \<and> ((\<exists>core < 4. pcs s ! core \<noteq> Outside) \<and> (\<forall>core < 4. pcs s ! core \<noteq> Inside) \<longrightarrow>
        (\<exists>core s'. core < 4 \<and> pcs s ! core \<noteq> Outside \<and> cs_step core s s'))"
proof -
  have inv: "cs_inv s" by (rule cs_inv_reachable [OF assms])
  have "ticket_number (customers s ! core) \<le> 1" if "core < 4" for core
  proof -
    have "customer_ok (pcs s ! core) (customers s ! core)" using inv that by (simp add: cs_inv_def)
    then show ?thesis by (cases "pcs s ! core") auto
  qed
  then show ?thesis using cs_progress [OF inv] by blast
qed

theorem critical_section_no_deadlock_witness:
  "\<exists>s. cs_schedule [3, 3, 3, 3, 3, 3, 0] critical_section_init = Some s \<and> ticket_number (customers s ! 3) \<le> 1"
proof -
  obtain s where s: "cs_schedule [3, 3, 3, 3, 3, 3, 0] critical_section_init = Some s"
    by (simp add: critical_section_init_def set_customer_def numeral_eq_Suc)
  have "cs_reachable s" by (rule cs_schedule_reachable [OF cs_reachable.init _ s]) simp
  from critical_section_no_deadlock [OF this] s show ?thesis by (intro exI [of _ s]) simp
qed

text \<open>C21. It does not exclude: as every ticket is 1, a core with a lower number passes a core that is inside.\<close>

theorem critical_section_not_exclusive:
  "\<exists>s. cs_reachable s \<and> pcs s ! 0 = Inside \<and> pcs s ! 3 = Inside"
proof -
  obtain s where s: "cs_schedule overtaking_schedule critical_section_init = Some s" "pcs s = [Inside, Outside, Outside, Inside]"
    using overtaking by blast
  have "cs_reachable s" by (rule cs_schedule_reachable [OF cs_reachable.init _ s(1)]) (simp add: overtaking_schedule_def)
  then show ?thesis using s(2) by auto
qed

section \<open>Interrupts\<close>

text \<open>After the registrations of distinct interrupts, each of them runs the handler it was registered with and is
  acknowledged; an interrupt in range that was not registered panics, one out of range is
  ignored.\<close>

theorem interrupt_dispatch:
  assumes "intr_register_all regs (replicate n (0, None)) = Ok t" "\<forall>x \<in> set regs. fst x \<noteq> 0" "distinct (map fst regs)" "length regs \<le> n"
  shows "handle_registered_interrupt run i t s g =
     (if i > 0xDF then Ok (s, g)
      else case map_of regs i of
             Some h \<Rightarrow> bindR (run h s) (\<lambda>s. Ok (s, g\<lparr>GICC_EOIR_log := i # GICC_EOIR_log g\<rparr>))
           | None \<Rightarrow> if i = 0 \<and> length regs < n then Undef else generic_panic)"
proof -
  have t: "t = map (\<lambda>(i, h). (i, Some h)) regs @ replicate (n - length regs) (0, None)"
    using register_table [of regs n "[]"] assms(1,2,4) by simp
  show ?thesis
  proof (cases "map_of regs i")
    case (Some h)
    then show ?thesis
      using find_registered [OF map_of_SomeD [OF Some] assms(3)] by (auto simp: handle_registered_interrupt_def t)
  next
    case None
    then have n: "i \<notin> fst ` set regs" by (simp add: map_of_eq_None_iff)
    have f: "find_handler i t = (if i = 0 \<and> length regs < n then Some None else None)"
      unfolding t find_skips [OF n] find_free by simp
    show ?thesis unfolding handle_registered_interrupt_def f Let_def using None by auto
  qed
qed

theorem interrupt_dispatch_witness:
  "\<exists>t. intr_register_all [(0x5A, True), (0x5B, False)] (replicate 4 (0, None)) = Ok t
     \<and> (\<forall>g. handle_registered_interrupt (\<lambda>h s. Ok (h # s)) 0x5B t [] g = Ok ([False], g\<lparr>GICC_EOIR_log := 0x5B # GICC_EOIR_log g\<rparr>))"
proof -
  have r: "intr_register_all [(0x5A, True), (0x5B, False)] (replicate 4 (0, None)) =
      Ok [(0x5A, Some True), (0x5B, Some False), (0, None), (0, None)]"
  proof -
    have "replicate 4 (0, None) = [(0, None), (0, None), (0, None), (0 :: u32, None :: bool option)]" by (simp add: numeral_eq_Suc)
    then show ?thesis by (simp add: intr_register_all_def)
  qed
  from interrupt_dispatch [OF r, of "\<lambda>h s. Ok (h # s)" "0x5B" "[]"] r show ?thesis by simp
qed

section \<open>Sleep\<close>

text \<open>C22. On firmware 2.0.0 and later a suspend switches the core off only after it has read, in this very call, that the
  cores 1 to 3 are off, that the boot processor is halted the way the suspend asked for, and
  that the DMA masters are in reset: the checks against the memory-corrupting warm boot attack
  cannot be skipped.\<close>

theorem suspend_checks_first:
  assumes "cpu_suspend e ps ep arg args s = Ok (Off s')" "mon_fw s = Ok fw" "2 \<le> fw"
  shows "\<exists>new. s_io s' = new @ s_io s \<and> mitigated e fw new"
  by (rule suspend_mitigated_state [OF assms])

theorem suspend_checks_first_witness:
  "\<exists>s'. cpu_suspend sample_senv 0x1001B 0x80060000 0 [] sample_secmon = Ok (Off s') \<and> mitigated sample_senv 11 (s_io s')"
proof -
  obtain s' where s': "cpu_suspend sample_senv 0x1001B 0x80060000 0 [] sample_secmon = Ok (Off s')"
    using suspend_goes_off [OF _ sample_fw(1) sample_ready, of "0x1001B" "0x80060000" 0 "[]"] sample_engine_answers
    by (auto simp: sample_senv_def sample_env_def sample_secmon_def sample_mon_def configitem_init_def configitem_is_hiz_mode_enabled_def)
  from suspend_checks_first [OF s' sample_fw(1)] s' show ?thesis by (auto simp: sample_secmon_def)
qed



end
