(* ===== verification/Device_Keys.thy ===== *)
theory Device_Keys
  imports Master_Key SE_Mac
begin

text \<open>
  The device keys of all key generations, derived at boot (\<^verbatim>\<open>derive_new_device_keys\<close> of
  \<^verbatim>\<open>package2.c\<close>): the keys of the older generations are kept in memory, the key of the current
  one goes into the slot of the device key. The port of the key table accepts every write; the
  effect of the slot flags on later writes is the engine's and not modelled.
\<close>

section \<open>Derivation\<close>

abbreviation (input) KEYSLOT_SWITCH_4XNEWDEVICEKEYGENKEY :: u32 where "KEYSLOT_SWITCH_4XNEWDEVICEKEYGENKEY \<equiv> 0xD"
abbreviation (input) KEYSLOT_SWITCH_5XNEWDEVICEKEYGENKEY :: u32 where "KEYSLOT_SWITCH_5XNEWDEVICEKEYGENKEY \<equiv> 0xA"

definition new_device_key_sources :: "bytes list" where
  "new_device_key_sources =
    [[0x8B, 0x4E, 0x1C, 0x22, 0x42, 0x07, 0xC8, 0x73, 0x56, 0x94, 0x08, 0x8B, 0xCC, 0x47, 0x0F, 0x5D],
     [0x6C, 0xEF, 0xC6, 0x27, 0x8B, 0xEC, 0x8A, 0x91, 0x99, 0xAB, 0x24, 0xAC, 0x4F, 0x1C, 0x8F, 0x1C],
     [0x70, 0x08, 0x1B, 0x97, 0x44, 0x64, 0xF8, 0x91, 0x54, 0x9D, 0xC6, 0x84, 0x8F, 0x1A, 0xB2, 0xE4],
     [0x8E, 0x09, 0x1F, 0x7A, 0xBB, 0xCA, 0x6A, 0xFB, 0xB8, 0x9B, 0xD5, 0xC1, 0x25, 0x9C, 0xA9, 0x17],
     [0x8F, 0x77, 0x5A, 0x96, 0xB0, 0x94, 0xFD, 0x8D, 0x28, 0xE4, 0x19, 0xC8, 0x16, 0x1C, 0xDB, 0x3D],
     [0x67, 0x62, 0xD4, 0x8E, 0x55, 0xCF, 0xFF, 0x41, 0x31, 0x15, 0x3B, 0x24, 0x0C, 0x7C, 0x07, 0xAE],
     [0x4A, 0xC3, 0x4E, 0x14, 0x8B, 0x96, 0x4A, 0xD5, 0xD4, 0x99, 0x73, 0xC4, 0x45, 0xAB, 0x8B, 0x49]]"

definition new_device_keygen_sources :: "bytes list" where
  "new_device_keygen_sources =
    [[0x88, 0x62, 0x34, 0x6E, 0xFA, 0xF7, 0xD8, 0x3F, 0xE1, 0x30, 0x39, 0x50, 0xF0, 0xB7, 0x5D, 0x5D],
     [0x06, 0x1E, 0x7B, 0xE9, 0x6D, 0x47, 0x8C, 0x77, 0xC5, 0xC8, 0xE7, 0x94, 0x9A, 0xA8, 0x5F, 0x2E],
     [0x99, 0xFA, 0x98, 0xBD, 0x15, 0x1C, 0x72, 0xFD, 0x7D, 0x9A, 0xD5, 0x41, 0x00, 0xFD, 0xB2, 0xEF],
     [0x81, 0x3C, 0x6C, 0xBF, 0x5D, 0x21, 0xDE, 0x77, 0x20, 0xD9, 0x6C, 0xE3, 0x22, 0x06, 0xAE, 0xBB],
     [0x86, 0x61, 0xB0, 0x16, 0xFA, 0x7A, 0x9A, 0xEA, 0xF6, 0xF5, 0xBE, 0x1A, 0x13, 0x5B, 0x6D, 0x9E],
     [0xA6, 0x81, 0x71, 0xE7, 0xB5, 0x23, 0x74, 0xB0, 0x39, 0x8C, 0xB7, 0xFF, 0xA0, 0x62, 0x9F, 0x8D],
     [0x00, 0x00, 0x00, 0x00, 0x00, 0x00, 0x00, 0x00, 0x00, 0x00, 0x00, 0x00, 0x00, 0x00, 0x00, 0x00]]"

definition new_device_keygen_sources_dev :: "bytes list" where
  "new_device_keygen_sources_dev =
    [[0xD6, 0xBD, 0x9F, 0xC6, 0x18, 0x09, 0xE1, 0x96, 0x20, 0x39, 0x60, 0xD2, 0x89, 0x83, 0x31, 0x34],
     [0x59, 0x2D, 0x20, 0x69, 0x33, 0xB5, 0x17, 0xBA, 0xCF, 0xB1, 0x4E, 0xFD, 0xE4, 0xC2, 0x7B, 0xA8],
     [0xF6, 0xD8, 0x59, 0x63, 0x8F, 0x47, 0xCB, 0x4A, 0xD8, 0x74, 0x05, 0x7F, 0x88, 0x92, 0x33, 0xA5],
     [0x20, 0xAB, 0xF2, 0x0F, 0x05, 0xE3, 0xDE, 0x2E, 0xA1, 0xFB, 0x37, 0x5E, 0x8B, 0x22, 0x1A, 0x38],
     [0x60, 0xAE, 0x56, 0x68, 0x11, 0xE2, 0x0C, 0x99, 0xDE, 0x05, 0xAE, 0x68, 0x78, 0x85, 0x04, 0xAE],
     [0x94, 0xD6, 0xA8, 0xC0, 0x95, 0xAF, 0xD0, 0xA6, 0x27, 0x53, 0x5E, 0xE5, 0x8E, 0x70, 0x1F, 0x87],
     [0x00, 0x00, 0x00, 0x00, 0x00, 0x00, 0x00, 0x00, 0x00, 0x00, 0x00, 0x00, 0x00, 0x00, 0x00, 0x00]]"

fun derive_new_device_keys_loop ::
  "se_engine \<Rightarrow> exocfg \<Rightarrow> u32 \<Rightarrow> bool \<Rightarrow> nat list \<Rightarrow> bytes \<times> mkey_state \<times> se_state \<Rightarrow> (mkey_state \<times> se_state) res"
where
  "derive_new_device_keys_loop eng c keygen_keyslot is_retail [] (work_buffer, mk, se) = Ok (mk, se)"
| "derive_new_device_keys_loop eng c keygen_keyslot is_retail (revision # revisions) (work_buffer, mk, se) =
     (let relative_revision = of_nat revision + MASTERKEY_REVISION_400_410 in
      bindR (se_aes_ecb_decrypt_block eng keygen_keyslot work_buffer 0x10 (new_device_key_sources ! revision) 0x10 se)
        (\<lambda>(work_buffer, se).
      bindR (mkey_get_keyslot 0 mk se) (\<lambda>(mkey_slot, se).
      bindR (decrypt_data_into_keyslot eng KEYSLOT_SWITCH_TEMPKEY mkey_slot
               (if is_retail then new_device_keygen_sources ! revision else new_device_keygen_sources_dev ! revision) 0x10 se)
        (\<lambda>se.
      bindR (mkey_get_revision mk) (\<lambda>current.
      if relative_revision > current then Ok (mk, se)
      else if relative_revision = current
      then bindR (exosphere_get_target_firmware c) (\<lambda>fw.
           bindR (if fw < FW_700
                  then decrypt_data_into_keyslot eng KEYSLOT_SWITCH_DEVICEKEY KEYSLOT_SWITCH_TEMPKEY work_buffer 0x10 se
                  else Ok se) (\<lambda>se.
           derive_new_device_keys_loop eng c keygen_keyslot is_retail revisions (work_buffer, mk, se)))
      else bindR (se_aes_ecb_decrypt_block eng KEYSLOT_SWITCH_TEMPKEY work_buffer 0x10 work_buffer 0x10 se)
             (\<lambda>(work_buffer, se).
           bindR (set_old_devkey relative_revision work_buffer mk) (\<lambda>mk.
           derive_new_device_keys_loop eng c keygen_keyslot is_retail revisions (work_buffer, mk, se))))))))"

definition derive_new_device_keys ::
  "se_engine \<Rightarrow> exocfg \<Rightarrow> bytes \<Rightarrow> bool res \<Rightarrow> u32 \<Rightarrow> mkey_state \<Rightarrow> se_state \<Rightarrow> (mkey_state \<times> se_state) res"
where
  "derive_new_device_keys eng c work_buffer is_retail keygen_keyslot mk se =
     bindR is_retail (\<lambda>retail.
     bindR (derive_new_device_keys_loop eng c keygen_keyslot retail [0..<MASTERKEY_NUM_NEW_DEVICE_KEYS] (work_buffer, mk, se))
       (\<lambda>(mk, se).
     bindR (set_aes_keyslot_flags KEYSLOT_SWITCH_DEVICEKEY 0xFF se) (\<lambda>se.
     bindR (clear_aes_keyslot keygen_keyslot se) (\<lambda>se. Ok (mk, se)))))"

section \<open>Which key each generation has\<close>

text \<open>The device key of a generation, from the oldest master key and the key generation key.\<close>

definition device_key_of :: "se_prims \<Rightarrow> bool \<Rightarrow> bytes \<Rightarrow> bytes \<Rightarrow> nat \<Rightarrow> bytes" where
  "device_key_of P is_retail mkey0 keygen_key i =
     aes_dec P (aes_dec P mkey0 ((if is_retail then new_device_keygen_sources else new_device_keygen_sources_dev) ! i))
       (aes_dec P keygen_key (new_device_key_sources ! i))"

lemma source_lengths:
  assumes "i < 7"
  shows "length (new_device_key_sources ! i) = 16" "length (new_device_keygen_sources ! i) = 16"
    "length (new_device_keygen_sources_dev ! i) = 16"
proof -
  have "\<forall>s \<in> set new_device_key_sources \<union> set new_device_keygen_sources \<union> set new_device_keygen_sources_dev. length s = 16"
    "length new_device_key_sources = 7" "length new_device_keygen_sources = 7" "length new_device_keygen_sources_dev = 7"
    by (simp_all add: new_device_key_sources_def new_device_keygen_sources_def new_device_keygen_sources_dev_def)
  then show "length (new_device_key_sources ! i) = 16" "length (new_device_keygen_sources ! i) = 16"
    "length (new_device_keygen_sources_dev ! i) = 16"
    using assms by simp_all
qed

lemma mkey_consistent_devkeys:
  assumes "mkey_consistent P b mk se" "mkey_wf (mk\<lparr>g_old_devicekeys := d\<rparr>)" "aes_key se' 0xC = aes_key se 0xC"
  shows "mkey_consistent P b (mk\<lparr>g_old_devicekeys := d\<rparr>) se'"
  using assms by (simp add: mkey_consistent_def)


text \<open>The first steps of an iteration leave the two intermediate keys in the buffer and in the scratch slot.\<close>

definition oldest_mkey :: "se_prims \<Rightarrow> bool \<Rightarrow> mkey_state \<Rightarrow> se_state \<Rightarrow> bytes" where
  "oldest_mkey P b mk se =
     chain_key P (vectors_for b) (unat (g_mkey_revision mk)) (aes_key se 0xC) (unat (g_mkey_revision mk))"

lemma derive_iteration:
  assumes ok: "se_engine_ok P eng" and mk: "mkey_consistent P b mk se" and r: "r < 7" and kg: "kg < 16"
    and w: "length w = 16"
  obtains s1 s2 s3 ks where
    "se_aes_ecb_decrypt_block eng kg w 0x10 (new_device_key_sources ! r) 0x10 se
       = Ok (aes_dec P (aes_key se kg) (new_device_key_sources ! r), s1)"
    "mkey_get_keyslot 0 mk s1 = Ok (ks, s2)"
    "decrypt_data_into_keyslot eng 9 ks (if b then new_device_keygen_sources ! r else new_device_keygen_sources_dev ! r) 0x10 s2 = Ok s3"
    "se_keep se s3" "\<And>k. k \<noteq> 9 \<Longrightarrow> aes_key s3 k = aes_key se k"
    "aes_key s3 9 = aes_dec P (oldest_mkey P b mk se) ((if b then new_device_keygen_sources else new_device_keygen_sources_dev) ! r)"
proof -
  let ?src = "if b then new_device_keygen_sources ! r else new_device_keygen_sources_dev ! r"
  have len: "length ?src = 16" using source_lengths [OF r] by simp
  obtain s1 where s1: "se_aes_ecb_decrypt_block eng kg w 0x10 (new_device_key_sources ! r) 0x10 se
       = Ok (aes_dec P (aes_key se kg) (new_device_key_sources ! r), s1)" "se_core s1 = se_core se"
    using ecb_decrypt_ok [OF ok kg source_lengths(1) [OF r] w] by blast
  have k1: "aes_key s1 = aes_key se" using aes_key_core_eq [OF s1(2)] .
  have mk1: "mkey_consistent P b mk s1" using mk by (simp add: mkey_consistent_def k1)
  obtain ks s2 where s2: "mkey_get_keyslot 0 mk s1 = Ok (ks, s2)" "ks \<in> {0xC, 9}" "se_keep s1 s2"
      "\<forall>k. k \<noteq> 9 \<longrightarrow> aes_key s2 k = aes_key s1 k" "aes_key s2 ks = oldest_mkey P b mk se"
    using mkey_get_keyslot_ok [OF mk1, of 0] by (auto simp: oldest_mkey_def k1)
  have "ks < 16" using s2(2) by auto
  then obtain s3 where s3: "decrypt_data_into_keyslot eng 9 ks ?src 0x10 s2 = Ok s3" "se_keep s2 s3"
      "aes_key s3 = (aes_key s2)(9 := aes_dec P (oldest_mkey P b mk se) ?src)"
    using decrypt_into_keyslot_ok [OF ok _ _ len, of ks 9 s2] s2(5) by auto
  have "se_keep se s3" using se_keep_core [OF s1(2)] s2(3) s3(2) se_keep_trans by blast
  then show thesis using that s1(1) s2(1,4) s3 k1 by auto
qed

lemma set_old_devkey_ok:
  assumes "mkey_wf mk" "length key = 16" "i < 6"
  shows "set_old_devkey (of_nat i + 3) key mk = Ok (mk\<lparr>g_old_devicekeys := (g_old_devicekeys mk)[i := key]\<rparr>)"
    "mkey_wf (mk\<lparr>g_old_devicekeys := (g_old_devicekeys mk)[i := key]\<rparr>)"
proof -
  have u: "unat (of_nat i + 3 :: u32) = i + 3" using assms(3) by (simp add: unat_word_ariths unat_of_nat_small)
  then have "\<not> (of_nat i + 3 < (3 :: u32) \<or> 10 \<le> (of_nat i + 3 :: u32))"
    using assms(3) by (simp add: word_less_nat_alt word_le_nat_alt)
  then show "set_old_devkey (of_nat i + 3) key mk = Ok (mk\<lparr>g_old_devicekeys := (g_old_devicekeys mk)[i := key]\<rparr>)"
    using assms by (simp add: set_old_devkey_def mkey_wf_def unat_of_nat_small)
  show "mkey_wf (mk\<lparr>g_old_devicekeys := (g_old_devicekeys mk)[i := key]\<rparr>)"
    using assms(1,2) by (auto simp: mkey_wf_def dest!: set_update_subset_insert [THEN subsetD])
qed

text \<open>
  The loop from generation \<open>r + 3\<close> on: every generation older than the current one gets its key in memory,
  the current one in the device key slot (before firmware 7.0.0, afterwards it is there already).
\<close>

lemma derive_loop_ok:
  fixes se :: se_state
  assumes ok: "se_engine_ok P eng" and c: "g_has_loaded_config c" and kg: "kg < 16" "kg \<noteq> 9" "kg \<noteq> 0xC"
  shows "\<lbrakk>mkey_consistent P b mk se; length w = 16; r + n = 7; cur = unat (g_mkey_revision mk);
      K = device_key_of P b (oldest_mkey P b mk se) (aes_key se kg)\<rbrakk> \<Longrightarrow>
    \<exists>mk' se'. derive_new_device_keys_loop eng c kg b [r..<7] (w, mk, se) = Ok (mk', se')
     \<and> mkey_consistent P b mk' se' \<and> mk' = mk\<lparr>g_old_devicekeys := g_old_devicekeys mk'\<rparr> \<and> se_keep se se'
     \<and> (\<forall>i < r. g_old_devicekeys mk' ! i = g_old_devicekeys mk ! i)
     \<and> (\<forall>i. r \<le> i \<and> i + 3 < cur \<longrightarrow> g_old_devicekeys mk' ! i = K i)
     \<and> (\<forall>k. k \<noteq> 9 \<and> k \<noteq> 0xD \<longrightarrow> aes_key se' k = aes_key se k)
     \<and> aes_key se' 0xD = (if fw_of c < 8 \<and> r + 3 \<le> cur then K (cur - 3) else aes_key se 0xD)"
proof (induction n arbitrary: r w mk se K)
  case 0
  then show ?case by (auto simp: mkey_consistent_def mkey_wf_def word_less_nat_alt)
next
  case (Suc n)
  have r: "r < 7" and upt: "[r..<7] = r # [Suc r..<7]" using Suc.prems(3) by (auto simp: upt_conv_Cons)
  have wf: "mkey_wf mk" "g_determined_mkey_revision mk" and cur: "cur < 10"
    using Suc.prems(1,4) by (auto simp: mkey_consistent_def mkey_wf_def word_less_nat_alt)
  have u: "unat (of_nat r + 3 :: u32) = r + 3" using r by (simp add: unat_word_ariths unat_of_nat_small)
  let ?w = "aes_dec P (aes_key se kg) (new_device_key_sources ! r)"
  have lw: "length ?w = 16" using aes_lengths(2) [OF ok source_lengths(1) [OF r]] .
  obtain s1 s2 s3 ks where it: "se_aes_ecb_decrypt_block eng kg w 0x10 (new_device_key_sources ! r) 0x10 se = Ok (?w, s1)"
      "mkey_get_keyslot 0 mk s1 = Ok (ks, s2)"
      "decrypt_data_into_keyslot eng 9 ks (if b then new_device_keygen_sources ! r else new_device_keygen_sources_dev ! r) 0x10 s2 = Ok s3"
      "se_keep se s3" and k3: "\<And>k. k \<noteq> 9 \<Longrightarrow> aes_key s3 k = aes_key se k"
      and k9: "aes_key s3 9 = aes_dec P (oldest_mkey P b mk se) ((if b then new_device_keygen_sources else new_device_keygen_sources_dev) ! r)"
    by (rule derive_iteration [OF ok Suc.prems(1) r kg(1) Suc.prems(2)]) (rule that)
  have K: "aes_dec P (aes_key s3 9) ?w = K r"
    using k9 by (simp add: Suc.prems(5) device_key_of_def)
  have rev: "mkey_get_revision mk = Ok (g_mkey_revision mk)" using wf(2) by (simp add: mkey_get_revision_def)
  have mk3: "mkey_consistent P b mk s3" using Suc.prems(1) k3 [of "0xC"] by (simp add: mkey_consistent_def)
  consider "cur < r + 3" | "cur = r + 3" | "r + 3 < cur" by linarith
  then show ?case
  proof cases
    case 1
    then have "of_nat r + 3 > g_mkey_revision mk" using u Suc.prems(4) by (simp add: word_less_nat_alt)
    then have "derive_new_device_keys_loop eng c kg b [r..<7] (w, mk, se) = Ok (mk, s3)"
      using it rev by (simp add: upt)
    then show ?thesis using 1 mk3 it(4) k3 by auto
  next
    case 2
    then have eq: "g_mkey_revision mk = of_nat r + 3" using u Suc.prems(4) by (metis word_unat_eq_iff)
    obtain s4 where s4: "(if fw_of c < 8 then decrypt_data_into_keyslot eng 0xD 9 ?w 0x10 s3 else Ok s3) = Ok s4"
        "se_keep s3 s4" "aes_key s4 = (if fw_of c < 8 then (aes_key s3)(0xD := K r) else aes_key s3)"
      using decrypt_into_keyslot_ok [OF ok _ _ lw, of 9 "0xD" s3] K by (cases "fw_of c < 8") auto
    have mk4: "mkey_consistent P b mk s4" using mk3 s4(3) by (simp add: mkey_consistent_def)
    obtain mk' se' where l: "derive_new_device_keys_loop eng c kg b [Suc r..<7] (?w, mk, s4) = Ok (mk', se')"
      "mkey_consistent P b mk' se'" "mk' = mk\<lparr>g_old_devicekeys := g_old_devicekeys mk'\<rparr>" "se_keep s4 se'"
      "\<forall>i < Suc r. g_old_devicekeys mk' ! i = g_old_devicekeys mk ! i"
      "\<forall>k. k \<noteq> 9 \<and> k \<noteq> 0xD \<longrightarrow> aes_key se' k = aes_key s4 k" "aes_key se' 0xD = aes_key s4 0xD"
      using Suc.IH [OF mk4 lw, of "Suc r"] Suc.prems(3,4) 2 by auto
    have "derive_new_device_keys_loop eng c kg b [r..<7] (w, mk, se) = Ok (mk', se')"
      using it rev s4(1) l(1) eq c by (simp add: upt)
    moreover have "se_keep se se'" using it(4) s4(2) l(4) se_keep_trans by blast
    ultimately show ?thesis using 2 l s4(3) k3 by auto
  next
    case 3
    then have lt: "of_nat r + 3 < g_mkey_revision mk" using u Suc.prems(4) by (simp add: word_less_nat_alt)
    then have ne: "\<not> g_mkey_revision mk < of_nat r + 3" "of_nat r + 3 \<noteq> g_mkey_revision mk" by auto
    have r6: "r < 6" using 3 cur by simp
    obtain s4 where s4: "se_aes_ecb_decrypt_block eng 9 ?w 0x10 ?w 0x10 s3 = Ok (K r, s4)" "se_core s4 = se_core s3"
      using ecb_decrypt_ok [OF ok _ lw lw, of 9 s3] K by auto
    have lK: "length (K r) = 16" using aes_lengths(2) [OF ok lw] K by metis
    note k4 = aes_key_core_eq [OF s4(2)]
    let ?mk = "mk\<lparr>g_old_devicekeys := (g_old_devicekeys mk)[r := K r]\<rparr>"
    note dk = set_old_devkey_ok [OF wf(1) lK r6]
    have mk4: "mkey_consistent P b ?mk s4"
      using mkey_consistent_devkeys [OF mk3 dk(2)] k4 by simp
    have "oldest_mkey P b ?mk s4 = oldest_mkey P b mk se"
      using k4 k3 [of "0xC"] by (simp add: oldest_mkey_def)
    moreover have "aes_key s4 kg = aes_key se kg" using k3 [OF kg(2)] k4 by simp
    ultimately obtain mk' se' where l: "derive_new_device_keys_loop eng c kg b [Suc r..<7] (K r, ?mk, s4) = Ok (mk', se')"
      "mkey_consistent P b mk' se'" "mk' = ?mk\<lparr>g_old_devicekeys := g_old_devicekeys mk'\<rparr>" "se_keep s4 se'"
      "\<forall>i < Suc r. g_old_devicekeys mk' ! i = g_old_devicekeys ?mk ! i"
      "\<forall>i. Suc r \<le> i \<and> i + 3 < cur \<longrightarrow> g_old_devicekeys mk' ! i = K i"
      "\<forall>k. k \<noteq> 9 \<and> k \<noteq> 0xD \<longrightarrow> aes_key se' k = aes_key s4 k"
      "aes_key se' 0xD = (if fw_of c < 8 \<and> Suc r + 3 \<le> cur then K (cur - 3) else aes_key s4 0xD)"
      using Suc.IH [OF mk4 lK, of "Suc r"] Suc.prems(3,4,5) by auto
    have len: "length (g_old_devicekeys mk) = 6" using wf(1) by (simp add: mkey_wf_def)
    have "derive_new_device_keys_loop eng c kg b [r..<7] (w, mk, se) = Ok (mk', se')"
      using it rev s4(1) l(1) ne dk(1) by (simp add: upt Let_def)
    moreover have "se_keep se se'" using it(4) se_keep_core [OF s4(2)] l(4) se_keep_trans by blast
    moreover have "\<forall>i < r. g_old_devicekeys mk' ! i = g_old_devicekeys mk ! i" using l(5) by simp
    moreover have "\<forall>i. r \<le> i \<and> i + 3 < cur \<longrightarrow> g_old_devicekeys mk' ! i = K i"
    proof (intro allI impI)
      fix i assume i: "r \<le> i \<and> i + 3 < cur"
      show "g_old_devicekeys mk' ! i = K i"
        using i l(5,6) len r6 by (cases "i = r") auto
    qed
    moreover have "mk' = mk\<lparr>g_old_devicekeys := g_old_devicekeys mk'\<rparr>" using l(3) by simp
    ultimately show ?thesis using 3 l k3 k4 by (simp add: Suc_le_eq)
  qed
qed


text \<open>Flags and clearing.\<close>

lemma clear_aes_keyslot_ok:
  assumes "ks < 16"
  shows "\<exists>se'. clear_aes_keyslot ks se = Ok se' \<and> se_keep se se' \<and> aes_key se' = (aes_key se)(ks := replicate 16 0)"
proof -
  let ?z = "replicate 64 0 :: bytes"
  let ?se' = "se\<lparr>AES_KEYTABLE_ADDR := aes_idx ks 15, aes_keytable := table_store (aes_keytable se) ks 0 16 ?z\<rparr>"
  have z: "read32le ?z (4 * i) = 0" if "i < 16" for i
    by (simp add: read32le_def bslice_def le_word_replicate_0)
  have "fold (\<lambda>i t. t(push_bit 4 ks OR of_nat i := 0)) [0..<16] (aes_keytable se) = table_store (aes_keytable se) ks 0 16 ?z"
    unfolding table_store_def by (rule fold_cong) (auto simp: aes_idx_def z)
  moreover have "\<not> 16 \<le> ks" using assms by simp
  ultimately have "clear_aes_keyslot ks se = Ok ?se'"
    by (simp add: clear_aes_keyslot_def fold_aes_keytable_write aes_idx_def)
  moreover have "se_keep se ?se'" by (simp add: se_keep_def se_core_def)
  moreover have "aes_key ?se' = (aes_key se)(ks := replicate 16 0)"
  proof
    fix k :: u32
    have "table_bytes (table_store t ks 0 16 ?z) ks 0 4 = replicate 16 0" for t
    proof -
      have "table_bytes (table_store t ks 0 16 ?z) ks 0 4 = concat (map (\<lambda>i. le_bytes 4 (0 :: u32)) [0..<4])"
        unfolding table_bytes_def using table_store_same [OF assms, of 0 16 _ t ?z] z by (intro concat_map_cong) simp
      also have "\<dots> = replicate 16 0" by code_simp
      finally show ?thesis .
    qed
    then show "aes_key ?se' k = ((aes_key se)(ks := replicate 16 0)) k"
      using assms by (cases "k = ks") (simp_all add: aes_key_def table_bytes_store_other)
  qed
  ultimately show ?thesis by blast
qed


lemma set_flags_ok:
  assumes "ks < 16"
  shows "\<exists>se'. set_aes_keyslot_flags ks flags se = Ok se' \<and> aes_keytable se' = aes_keytable se
     \<and> se' = se\<lparr>AES_KEYSLOT_FLAGS := AES_KEYSLOT_FLAGS se', AES_KEY_READ_DISABLE_REG := AES_KEY_READ_DISABLE_REG se'\<rparr>"
proof -
  have "\<not> 16 \<le> ks" using assms by simp
  then show ?thesis by (simp add: set_aes_keyslot_flags_def Let_def)
qed

text \<open>
  The outcome: each generation from 4.0.0 on has its device key, and asking for the key of any generation finds a slot
  that holds it.
\<close>

lemma derive_new_device_keys_ok:
  fixes se :: se_state
  assumes ok: "se_engine_ok P eng" and c: "g_has_loaded_config c" and mk: "mkey_consistent P b mk se"
    and w: "length w = 16" and rev: "3 \<le> g_mkey_revision mk"
  defines "K \<equiv> device_key_of P b (oldest_mkey P b mk se) (aes_key se 0xA)"
  shows "\<exists>mk' se'. derive_new_device_keys eng c w (Ok b) KEYSLOT_SWITCH_5XNEWDEVICEKEYGENKEY mk se = Ok (mk', se')
     \<and> mkey_consistent P b mk' se' \<and> mk' = mk\<lparr>g_old_devicekeys := g_old_devicekeys mk'\<rparr>
     \<and> (\<forall>i. i + 3 < unat (g_mkey_revision mk) \<longrightarrow> g_old_devicekeys mk' ! i = K i)
     \<and> aes_key se' 0xD = (if fw_of c < 8 then K (unat (g_mkey_revision mk) - 3) else aes_key se 0xD) \<and> aes_key se' 0xA = replicate 16 0
     \<and> (\<forall>k. k \<notin> {9, 0xA, 0xD} \<longrightarrow> aes_key se' k = aes_key se k)"
proof -
  have cur: "3 \<le> unat (g_mkey_revision mk)" using rev by (simp add: word_le_nat_alt)
  obtain mk' s1 where l: "derive_new_device_keys_loop eng c 0xA b [0..<7] (w, mk, se) = Ok (mk', s1)"
      "mkey_consistent P b mk' s1" "mk' = mk\<lparr>g_old_devicekeys := g_old_devicekeys mk'\<rparr>"
      "\<forall>i. i + 3 < unat (g_mkey_revision mk) \<longrightarrow> g_old_devicekeys mk' ! i = K i"
      "\<forall>k. k \<noteq> 9 \<and> k \<noteq> 0xD \<longrightarrow> aes_key s1 k = aes_key se k" "aes_key s1 0xD = (if fw_of c < 8 then K (unat (g_mkey_revision mk) - 3) else aes_key se 0xD)"
    using derive_loop_ok [OF ok c, of "0xA" b mk se w 0 7 _ K] mk w cur unfolding K_def by auto
  obtain s2 where s2: "set_aes_keyslot_flags 0xD 0xFF s1 = Ok s2" "aes_keytable s2 = aes_keytable s1"
    using set_flags_ok [of "0xD" "0xFF" s1] by auto
  obtain s3 where s3: "clear_aes_keyslot 0xA s2 = Ok s3" "aes_key s3 = (aes_key s2)(0xA := replicate 16 0)"
    using clear_aes_keyslot_ok [of "0xA" s2] by auto
  have k: "aes_key s2 = aes_key s1" using s2(2) by (rule aes_key_cong)
  have "mkey_consistent P b mk' s3" using l(2) s3(2) k by (simp add: mkey_consistent_def)
  then show ?thesis using l s2(1) s3 k by (simp add: derive_new_device_keys_def)
qed

lemma devkey_get_keyslot_ok:
  assumes "mkey_consistent P b mk se" "3 \<le> revision" "revision \<le> g_mkey_revision mk"
    and "\<forall>i. i + 3 < unat (g_mkey_revision mk) \<longrightarrow> g_old_devicekeys mk ! i = K i" "aes_key se 0xD = K (unat (g_mkey_revision mk) - 3)"
  shows "\<exists>ks se'. devkey_get_keyslot revision mk se = Ok (ks, se') \<and> aes_key se' ks = K (unat revision - 3)
     \<and> (\<forall>k. k \<noteq> 9 \<longrightarrow> aes_key se' k = aes_key se k)"
proof -
  have wf: "mkey_wf mk" "g_determined_mkey_revision mk" using assms(1) by (auto simp: mkey_consistent_def)
  have cur: "unat (g_mkey_revision mk) < 10" using wf(1) by (simp add: mkey_wf_def word_less_nat_alt)
  have r: "3 \<le> unat revision" "unat (revision - 3) = unat revision - 3"
    using assms(2) by (simp_all add: word_le_nat_alt unat_sub)
  show ?thesis
  proof (cases "revision = g_mkey_revision mk")
    case True
    then show ?thesis using assms wf by (auto simp: devkey_get_keyslot_def)
  next
    case False
    then have lt: "revision < g_mkey_revision mk" using assms(3) by simp
    then have ult: "unat revision < unat (g_mkey_revision mk)" by (simp add: word_less_nat_alt)
    let ?k = "g_old_devicekeys mk ! (unat revision - 3)"
    have i: "unat revision - 3 < 6" using ult cur by simp
    then obtain se' where "set_aes_keyslot 9 ?k 16 se = Ok se'" "aes_key se' = (aes_key se)(9 := ?k)"
      using set_aes_keyslot_ok [of 9 ?k se] mkey_wf_old_devkey [OF wf(1)] by auto
    moreover have "?k = K (unat revision - 3)" using assms(4) ult r by simp
    moreover have "\<not> revision < 3" "length (g_old_devicekeys mk) = 6" using assms(2) wf(1) by (auto simp: mkey_wf_def)
    ultimately show ?thesis
      using wf lt i r(2) leD [OF assms(3)] by (auto simp: devkey_get_keyslot_def Let_def)
  qed
qed

end
