(* ===== verification/Package2.thy ===== *)
theory Package2
  imports Device_Keys Bootconfig Memory_Map
begin

text \<open>
  \<^verbatim>\<open>package2.c\<close>, \<^verbatim>\<open>package2.h\<close>: validating the header of the kernel package that the boot loader leaves in
  DRAM, finding the master key it is encrypted with, and copying its sections to where the kernel expects
  them.

  The DRAM is a map from physical addresses to bytes, reached through the identity mapping; an access outside the mapping,
  or one of the engine, whose addresses have 32 bits, above 4 GiB, is undefined behaviour.
\<close>

section \<open>Memory\<close>

type_synonym phys_mem = "u64 \<Rightarrow> u8"

definition phys_read :: "phys_mem \<Rightarrow> u64 \<Rightarrow> nat \<Rightarrow> bytes" where
  "phys_read mem a n = map (\<lambda>i. mem (a + of_nat i)) [0..<n]"

definition phys_write :: "u64 \<Rightarrow> bytes \<Rightarrow> phys_mem \<Rightarrow> phys_mem" where
  "phys_write a bs mem = (\<lambda>x. if unat (x - a) < length bs then bs ! unat (x - a) else mem x)"

abbreviation (input) IDENTITY_MAPPING_DRAM :: nat where "IDENTITY_MAPPING_DRAM \<equiv> 3"

definition dram_mapped :: "u64 \<Rightarrow> nat \<Rightarrow> bool" where
  "dram_mapped a n \<longleftrightarrow> (case MMAPID ! IDENTITY_MAPPING_DRAM of (base, sz, _, _) \<Rightarrow>
     base \<le> a \<and> unat a + n \<le> unat base + unat sz)"

definition engine_reach :: "u64 \<Rightarrow> nat \<Rightarrow> bool" where
  "engine_reach a n \<longleftrightarrow> dram_mapped a n \<and> unat a + n \<le> 2 ^ 32"

definition mem_get :: "(u64 \<Rightarrow> nat \<Rightarrow> bool) \<Rightarrow> phys_mem \<Rightarrow> u64 \<Rightarrow> nat \<Rightarrow> bytes res" where
  "mem_get reach mem a n = (if reach a n then Ok (phys_read mem a n) else Undef)"

definition mem_put :: "(u64 \<Rightarrow> nat \<Rightarrow> bool) \<Rightarrow> u64 \<Rightarrow> bytes \<Rightarrow> phys_mem \<Rightarrow> phys_mem res" where
  "mem_put reach a bs mem = (if reach a (length bs) then Ok (phys_write a bs mem) else Undef)"

section \<open>Header and metadata\<close>

abbreviation (input) NX_BOOTLOADER_PACKAGE2_LOAD_ADDRESS :: u64 where "NX_BOOTLOADER_PACKAGE2_LOAD_ADDRESS \<equiv> 0xA9800000"
abbreviation (input) DRAM_BASE_PHYSICAL :: u64 where "DRAM_BASE_PHYSICAL \<equiv> 0x80000000"
abbreviation (input) MAGIC_PK21 :: u32 where "MAGIC_PK21 \<equiv> 0x31324B50"
abbreviation (input) PACKAGE2_SIZE_MAX :: nat where "PACKAGE2_SIZE_MAX \<equiv> 0x7FC000"
abbreviation (input) PACKAGE2_SECTION_MAX :: nat where "PACKAGE2_SECTION_MAX \<equiv> 3"
abbreviation (input) PACKAGE2_MINVER_THEORETICAL :: u8 where "PACKAGE2_MINVER_THEORETICAL \<equiv> 0"
abbreviation (input) PACKAGE2_MAXVER_900_CURRENT :: u8 where "PACKAGE2_MAXVER_900_CURRENT \<equiv> 0xC"
abbreviation (input) sizeof_package2_header :: nat where "sizeof_package2_header \<equiv> 0x200"
abbreviation (input) sizeof_package2_meta :: nat where "sizeof_package2_meta \<equiv> 0x100"
abbreviation (input) EXOSPHERE_LOOSEN_PACKAGE2_RESTRICTIONS_FOR_DEBUG :: bool where
  "EXOSPHERE_LOOSEN_PACKAGE2_RESTRICTIONS_FOR_DEBUG \<equiv> True"

record package2_meta =
  pk_ctr :: bytes                 \<comment> \<open>0x10 bytes, also read as four words\<close>
  section_ctrs :: "bytes list"
  pk_magic :: u32
  entrypoint :: u32
  version_max :: u8
  version_min :: u8
  section_sizes :: "u32 list"
  section_offsets :: "u32 list"
  section_hashes :: "bytes list"

text \<open>The layout of the structure in memory.\<close>

definition package2_meta_of :: "bytes \<Rightarrow> package2_meta" where
  "package2_meta_of bs =
     \<lparr>pk_ctr = bslice bs 0 0x10, section_ctrs = map (\<lambda>i. bslice bs (0x10 + 0x10 * i) 0x10) [0..<4],
      pk_magic = read32le bs 0x50, entrypoint = read32le bs 0x54, version_max = bs ! 0x5C, version_min = bs ! 0x5D,
      section_sizes = map (\<lambda>i. read32le bs (0x60 + 4 * i)) [0..<4],
      section_offsets = map (\<lambda>i. read32le bs (0x70 + 4 * i)) [0..<4],
      section_hashes = map (\<lambda>i. bslice bs (0x80 + 0x20 * i) 0x20) [0..<4]\<rparr>"

record package2_header =
  pk_signature :: bytes           \<comment> \<open>0x100 bytes\<close>
  encrypted_header :: bytes       \<comment> \<open>0x100 bytes, in union with the metadata\<close>

definition package2_header_of :: "bytes \<Rightarrow> package2_header" where
  "package2_header_of bs = \<lparr>pk_signature = bslice bs 0 0x100, encrypted_header = bslice bs 0x100 0x100\<rparr>"

abbreviation hdr_metadata :: "package2_header \<Rightarrow> package2_meta" where
  "hdr_metadata header \<equiv> package2_meta_of (encrypted_header header)"

definition ctr_dwords :: "package2_meta \<Rightarrow> nat \<Rightarrow> u32" where
  "ctr_dwords metadata i = read32le (pk_ctr metadata) (4 * i)"

definition get_package2_size :: "package2_meta \<Rightarrow> u32" where
  "get_package2_size metadata = ctr_dwords metadata 0 XOR ctr_dwords metadata 2 XOR ctr_dwords metadata 3"

section \<open>Decryption and signature\<close>

definition package2_key_source :: bytes where
  "package2_key_source =
    [0xFB, 0x8B, 0x6A, 0x9C, 0x79, 0x00, 0xC8, 0x49, 0xEF, 0xD2, 0x4D, 0x85, 0x4D, 0x30, 0xA0, 0xC7]"

definition package2_crypt_ctr ::
  "se_engine \<Rightarrow> mkey_state \<Rightarrow> u32 \<Rightarrow> bytes \<Rightarrow> nat \<Rightarrow> bytes \<Rightarrow> nat \<Rightarrow> bytes \<Rightarrow> nat \<Rightarrow> se_state \<Rightarrow> (bytes \<times> se_state) res"
where
  "package2_crypt_ctr eng mk master_key_rev dst dst_size src src_size ctr ctr_size se =
     bindR (mkey_get_keyslot master_key_rev mk se) (\<lambda>(keyslot, se).
     bindR (decrypt_data_into_keyslot eng KEYSLOT_SWITCH_PACKAGE2KEY keyslot package2_key_source 0x10 se) (\<lambda>se.
     se_aes_ctr_crypt eng KEYSLOT_SWITCH_PACKAGE2KEY dst dst_size src src_size ctr ctr_size se))"

definition package2_modulus_retail :: bytes where
  "package2_modulus_retail =
    [0x8D, 0x13, 0xA7, 0x77, 0x6A, 0xE5, 0xDC, 0xC0, 0x3B, 0x25, 0xD0, 0x58, 0xE4, 0x20, 0x69, 0x59,
     0x55, 0x4B, 0xAB, 0x70, 0x40, 0x08, 0x28, 0x07, 0xA8, 0xA7, 0xFD, 0x0F, 0x31, 0x2E, 0x11, 0xFE,
     0x47, 0xA0, 0xF9, 0x9D, 0xDF, 0x80, 0xDB, 0x86, 0x5A, 0x27, 0x89, 0xCD, 0x97, 0x6C, 0x85, 0xC5,
     0x6C, 0x39, 0x7F, 0x41, 0xF2, 0xFF, 0x24, 0x20, 0xC3, 0x95, 0xA6, 0xF7, 0x9D, 0x4A, 0x45, 0x74,
     0x8B, 0x5D, 0x28, 0x8A, 0xC6, 0x99, 0x35, 0x68, 0x85, 0xA5, 0x64, 0x32, 0x80, 0x9F, 0xD3, 0x48,
     0x39, 0xA2, 0x1D, 0x24, 0x67, 0x69, 0xDF, 0x75, 0xAC, 0x12, 0xB5, 0xBD, 0xC3, 0x29, 0x90, 0xBE,
     0x37, 0xE4, 0xA0, 0x80, 0x9A, 0xBE, 0x36, 0xBF, 0x1F, 0x2C, 0xAB, 0x2B, 0xAD, 0xF5, 0x97, 0x32,
     0x9A, 0x42, 0x9D, 0x09, 0x8B, 0x08, 0xF0, 0x63, 0x47, 0xA3, 0xE9, 0x1B, 0x36, 0xD8, 0x2D, 0x8A,
     0xD7, 0xE1, 0x54, 0x11, 0x95, 0xE4, 0x45, 0x88, 0x69, 0x8A, 0x2B, 0x35, 0xCE, 0xD0, 0xA5, 0x0B,
     0xD5, 0x5D, 0xAC, 0xDB, 0xAF, 0x11, 0x4D, 0xCA, 0xB8, 0x1E, 0xE7, 0x01, 0x9E, 0xF4, 0x46, 0xA3,
     0x8A, 0x94, 0x6D, 0x76, 0xBD, 0x8A, 0xC8, 0x3B, 0xD2, 0x31, 0x58, 0x0C, 0x79, 0xA8, 0x26, 0xE9,
     0xD1, 0x79, 0x9C, 0xCB, 0xD4, 0x2B, 0x6A, 0x4F, 0xC6, 0xCC, 0xCF, 0x90, 0xA7, 0xB9, 0x98, 0x47,
     0xFD, 0xFA, 0x4C, 0x6C, 0x6F, 0x81, 0x87, 0x3B, 0xCA, 0xB8, 0x50, 0xF6, 0x3E, 0x39, 0x5D, 0x4D,
     0x97, 0x3F, 0x0F, 0x35, 0x39, 0x53, 0xFB, 0xFA, 0xCD, 0xAB, 0xA8, 0x7A, 0x62, 0x9A, 0x3F, 0xF2,
     0x09, 0x27, 0x96, 0x3F, 0x07, 0x9A, 0x91, 0xF7, 0x16, 0xBF, 0xC6, 0x3A, 0x82, 0x5A, 0x4B, 0xCF,
     0x49, 0x50, 0x95, 0x8C, 0x55, 0x80, 0x7E, 0x39, 0xB1, 0x48, 0x05, 0x1E, 0x21, 0xC7, 0x24, 0x4F]"

definition package2_modulus_dev :: bytes where
  "package2_modulus_dev =
    [0xB3, 0x65, 0x54, 0xFB, 0x0A, 0xB0, 0x1E, 0x85, 0xA7, 0xF6, 0xCF, 0x91, 0x8E, 0xBA, 0x96, 0x99,
     0x0D, 0x8B, 0x91, 0x69, 0x2A, 0xEE, 0x01, 0x20, 0x4F, 0x34, 0x5C, 0x2C, 0x4F, 0x4E, 0x37, 0xC7,
     0xF1, 0x0B, 0xD4, 0xCD, 0xA1, 0x7F, 0x93, 0xF1, 0x33, 0x59, 0xCE, 0xB1, 0xE9, 0xDD, 0x26, 0xE6,
     0xF3, 0xBB, 0x77, 0x87, 0x46, 0x7A, 0xD6, 0x4E, 0x47, 0x4A, 0xD1, 0x41, 0xB7, 0x79, 0x4A, 0x38,
     0x06, 0x6E, 0xCF, 0x61, 0x8F, 0xCD, 0xC1, 0x40, 0x0B, 0xFA, 0x26, 0xDC, 0xC0, 0x34, 0x51, 0x83,
     0xD9, 0x3B, 0x11, 0x54, 0x3B, 0x96, 0x27, 0x32, 0x9A, 0x95, 0xBE, 0x1E, 0x68, 0x11, 0x50, 0xA0,
     0x6B, 0x10, 0xA8, 0x83, 0x8B, 0xF5, 0xFC, 0xBC, 0x90, 0x84, 0x7A, 0x5A, 0x5C, 0x43, 0x52, 0xE6,
     0xC8, 0x26, 0xE9, 0xFE, 0x06, 0xA0, 0x8B, 0x53, 0x0F, 0xAF, 0x1E, 0xC4, 0x1C, 0x0B, 0xCF, 0x50,
     0x1A, 0xA4, 0xF3, 0x5C, 0xFB, 0xF0, 0x97, 0xE4, 0xDE, 0x32, 0x0A, 0x9F, 0xE3, 0x5A, 0xAA, 0xB7,
     0x44, 0x7F, 0x5C, 0x33, 0x60, 0xB9, 0x0F, 0x22, 0x2D, 0x33, 0x2A, 0xE9, 0x69, 0x79, 0x31, 0x42,
     0x8F, 0xE4, 0x3A, 0x13, 0x8B, 0xE7, 0x26, 0xBD, 0x08, 0x87, 0x6C, 0xA6, 0xF2, 0x73, 0xF6, 0x8E,
     0xA7, 0xF2, 0xFE, 0xFB, 0x6C, 0x28, 0x66, 0x0D, 0xBD, 0xD7, 0xEB, 0x42, 0xA8, 0x78, 0xE6, 0xB8,
     0x6B, 0xAE, 0xC7, 0xA9, 0xE2, 0x40, 0x6E, 0x89, 0x20, 0x82, 0x25, 0x8E, 0x3C, 0x6A, 0x60, 0xD7,
     0xF3, 0x56, 0x8E, 0xEC, 0x8D, 0x51, 0x8A, 0x63, 0x3C, 0x04, 0x78, 0x23, 0x0E, 0x90, 0x0C, 0xB4,
     0xE7, 0x86, 0x3B, 0x4F, 0x8E, 0x13, 0x09, 0x47, 0x32, 0x0E, 0x04, 0xB8, 0x4D, 0x5B, 0xB0, 0x46,
     0x71, 0xB0, 0x5C, 0xF4, 0xAD, 0x63, 0x4F, 0xC5, 0xE2, 0xAC, 0x1E, 0xC4, 0x33, 0x96, 0x09, 0x7B]"

definition verify_header_signature ::
  "se_engine \<Rightarrow> bool res \<Rightarrow> bootconfig_state \<Rightarrow> package2_header \<Rightarrow> se_state \<Rightarrow> se_state res"
where
  "verify_header_signature eng is_retail b header se =
     bindR is_retail (\<lambda>retail.
     let modulus = (if retail then package2_modulus_retail else package2_modulus_dev);
         is_unsigned = (EXOSPHERE_LOOSEN_PACKAGE2_RESTRICTIONS_FOR_DEBUG \<or> bootconfig_is_package2_unsigned b)
     in if \<not> is_unsigned
        then bindR (se_rsa2048_pss_verify eng (pk_signature header) 0x100 modulus 0x100 (encrypted_header header) 0x100 se)
               (\<lambda>(valid, se). if \<not> valid then Panic 0xF0000001 else Ok se)
        else Ok se)"

section \<open>Validation\<close>

definition section_overlaps :: "package2_meta \<Rightarrow> nat \<Rightarrow> nat \<Rightarrow> bool" where
  "section_overlaps metadata section later_section =
     (let section_end = section_offsets metadata ! section + section_sizes metadata ! section;
          later_section_end = section_offsets metadata ! later_section + section_sizes metadata ! later_section
      in overlaps (ucast (section_offsets metadata ! section)) (ucast section_end)
           (ucast (section_offsets metadata ! later_section)) (ucast later_section_end))"

text \<open>One round of the loop over the sections; \<open>None\<close> is the early return of \<^verbatim>\<open>false\<close>.\<close>

definition validate_section ::
  "se_engine \<Rightarrow> phys_mem \<Rightarrow> package2_meta \<Rightarrow> nat \<Rightarrow> bool \<times> u64 \<times> se_state \<Rightarrow> ((bool \<times> u64) option \<times> se_state) res"
where
  "validate_section eng mem metadata section st =
     (let (entrypoint_found, cur_section_offset, se) = st;
          sz = section_sizes metadata ! section; ofs = section_offsets metadata ! section in
      if sz AND 3 \<noteq> 0 then Ok (None, se)
      else if check_32bit_additive_overflow ofs sz then Ok (None, se)
      else
        let section_end = ofs + sz;
            entrypoint_found = (if ofs \<le> entrypoint metadata \<and> entrypoint metadata < section_end then True else entrypoint_found)
        in if sz \<noteq> 0 \<and> (\<exists>later_section \<in> set [section + 1..<PACKAGE2_SECTION_MAX].
               section_sizes metadata ! later_section \<noteq> 0 \<and> section_overlaps metadata section later_section)
        then Ok (None, se)
        else
          let check_hash = \<not> EXOSPHERE_LOOSEN_PACKAGE2_RESTRICTIONS_FOR_DEBUG
          in if sz \<noteq> 0
          then bindR (mem_get engine_reach mem
                        (NX_BOOTLOADER_PACKAGE2_LOAD_ADDRESS + of_nat sizeof_package2_header + cur_section_offset) (unat sz))
                 (\<lambda>section_data.
               bindR (se_calculate_sha256 eng section_data (unat sz) se) (\<lambda>(calculated_hash, se).
               if check_hash \<and> calculated_hash \<noteq> section_hashes metadata ! section then Ok (None, se)
               else Ok (Some (entrypoint_found, cur_section_offset + ucast sz), se)))
          else Ok (Some (entrypoint_found, cur_section_offset), se))"

fun validate_sections ::
  "se_engine \<Rightarrow> phys_mem \<Rightarrow> package2_meta \<Rightarrow> nat list \<Rightarrow> bool \<times> u64 \<times> se_state \<Rightarrow> (bool option \<times> se_state) res"
where
  "validate_sections eng mem metadata [] (entrypoint_found, cur, se) = Ok (Some entrypoint_found, se)"
| "validate_sections eng mem metadata (section # sections) (entrypoint_found, cur, se) =
     bindR (validate_section eng mem metadata section (entrypoint_found, cur, se)) (\<lambda>(r, se).
     case r of None \<Rightarrow> Ok (None, se)
     | Some (entrypoint_found, cur) \<Rightarrow> validate_sections eng mem metadata sections (entrypoint_found, cur, se))"

definition validate_package2_metadata ::
  "se_engine \<Rightarrow> phys_mem \<Rightarrow> package2_meta \<Rightarrow> se_state \<Rightarrow> (bool \<times> se_state) res"
where
  "validate_package2_metadata eng mem metadata se =
     (if pk_magic metadata \<noteq> MAGIC_PK21 then Ok (False, se)
      else
        let package_size = ctr_dwords metadata 0 XOR ctr_dwords metadata 2 XOR ctr_dwords metadata 3;
            w = ctr_dwords metadata 1;
            header_version = ucast ((w XOR drop_bit 16 w XOR drop_bit 24 w) AND 0xFF) :: u8
        in if unat package_size \<le> sizeof_package2_header \<or> unat package_size > PACKAGE2_SIZE_MAX then Ok (False, se)
        else if unat header_version > unat MASTERKEY_REVISION_MAX then Ok (False, se)
        else if entrypoint metadata AND 3 \<noteq> 0 then Ok (False, se)
        else if (ucast (section_sizes metadata ! 0 + section_sizes metadata ! 1 + section_sizes metadata ! 2) :: u64)
                  + of_nat sizeof_package2_header \<noteq> ucast package_size then Ok (False, se)
        else bindR (validate_sections eng mem metadata [0..<PACKAGE2_SECTION_MAX] (False, 0, se)) (\<lambda>(r, se).
          case r of None \<Rightarrow> Ok (False, se)
          | Some entrypoint_found \<Rightarrow>
              if \<not> entrypoint_found then Ok (False, se)
              else if version_max metadata \<ge> PACKAGE2_MINVER_THEORETICAL \<and> version_min metadata < PACKAGE2_MAXVER_900_CURRENT
              then Ok (True, se)
              else Ok (False, se)))"

section \<open>Finding the master key\<close>

text \<open>The loop over the key generations; \<open>None\<close> when all of them are tried.\<close>

fun try_header_keys ::
  "se_engine \<Rightarrow> (nat \<Rightarrow> bytes) \<Rightarrow> phys_mem \<Rightarrow> mkey_state \<Rightarrow> package2_header \<Rightarrow> nat list \<Rightarrow> se_state
   \<Rightarrow> ((u32 \<times> package2_header) option \<times> se_state) res"
where
  "try_header_keys eng stack mem mk header [] se = Ok (None, se)"
| "try_header_keys eng stack mem mk header (mkey_rev # revs) se =
     (let ctr = pk_ctr (hdr_metadata header) in
      bindR (package2_crypt_ctr eng mk (of_nat mkey_rev) (stack sizeof_package2_meta) sizeof_package2_meta
               (encrypted_header header) sizeof_package2_meta ctr 0x10 se) (\<lambda>(metadata, se).
      let metadata = blit metadata 0 ctr in
      bindR (validate_package2_metadata eng mem (package2_meta_of metadata) se) (\<lambda>(valid, se).
      if valid then Ok (Some (of_nat mkey_rev, header\<lparr>encrypted_header := metadata\<rparr>), se)
      else try_header_keys eng stack mem mk header revs se)))"

definition decrypt_and_validate_header ::
  "se_engine \<Rightarrow> (nat \<Rightarrow> bytes) \<Rightarrow> phys_mem \<Rightarrow> bootconfig_state \<Rightarrow> mkey_state \<Rightarrow> package2_header \<Rightarrow> se_state
   \<Rightarrow> (u32 \<times> package2_header \<times> se_state) res"
where
  "decrypt_and_validate_header eng stack mem b mk header se =
     (if \<not> bootconfig_is_package2_plaintext b
      then bindR (mkey_get_revision mk) (\<lambda>revision.
           bindR (try_header_keys eng stack mem mk header [0..<Suc (unat revision)] se) (\<lambda>(r, se).
           case r of None \<Rightarrow> Panic 0xFAF00003
           | Some (mkey_rev, header) \<Rightarrow> Ok (mkey_rev, header, se)))
      else bindR (validate_package2_metadata eng mem (hdr_metadata header) se) (\<lambda>(valid, se).
           if \<not> valid then Panic 0xFAF0003 else Ok (0, header, se)))"

section \<open>Loading the sections\<close>

definition section_start :: "package2_meta \<Rightarrow> nat \<Rightarrow> u64" where
  "section_start metadata section = DRAM_BASE_PHYSICAL + ucast (section_offsets metadata ! section)"

definition section_end :: "package2_meta \<Rightarrow> nat \<Rightarrow> u64" where
  "section_end metadata section = section_start metadata section + ucast (section_sizes metadata ! section)"

definition hits_section :: "package2_meta \<Rightarrow> u64 \<Rightarrow> bool" where
  "hits_section metadata base \<longleftrightarrow> (\<exists>section \<in> set [0..<PACKAGE2_SECTION_MAX].
     overlaps (section_start metadata section) (section_end metadata section) base (base + of_nat PACKAGE2_SIZE_MAX))"

fun find_safe_carveout :: "package2_meta \<Rightarrow> nat \<Rightarrow> u64 \<Rightarrow> u64 option" where
  "find_safe_carveout metadata 0 potential_base_start = None"
| "find_safe_carveout metadata (Suc tries) potential_base_start =
     (if \<not> hits_section metadata potential_base_start then Some potential_base_start
      else find_safe_carveout metadata tries (potential_base_start + of_nat PACKAGE2_SIZE_MAX))"

definition relocate_package2 :: "package2_meta \<Rightarrow> phys_mem \<Rightarrow> (u64 \<times> phys_mem) res" where
  "relocate_package2 metadata mem =
     (let load_buf = NX_BOOTLOADER_PACKAGE2_LOAD_ADDRESS in
      if hits_section metadata NX_BOOTLOADER_PACKAGE2_LOAD_ADDRESS
      then case find_safe_carveout metadata 8 DRAM_BASE_PHYSICAL of
             None \<Rightarrow> generic_panic
           | Some potential_base_start \<Rightarrow>
               bindR (mem_get dram_mapped mem load_buf PACKAGE2_SIZE_MAX) (\<lambda>contents.
               bindR (mem_put dram_mapped potential_base_start contents mem) (\<lambda>mem.
               bindR (mem_put dram_mapped load_buf (replicate PACKAGE2_SIZE_MAX 0) mem) (\<lambda>mem.
               Ok (potential_base_start, mem))))
      else Ok (load_buf, mem))"

definition load_section ::
  "se_engine \<Rightarrow> bool \<Rightarrow> mkey_state \<Rightarrow> package2_meta \<Rightarrow> u32 \<Rightarrow> u64 \<Rightarrow> nat \<Rightarrow> u64 \<times> phys_mem \<times> se_state
   \<Rightarrow> (u64 \<times> phys_mem \<times> se_state) res"
where
  "load_section eng plaintext mk metadata master_key_rev load_buf section st =
     (let (cur_section_offset, mem, se) = st;
          sz = unat (section_sizes metadata ! section);
          dst_start = section_start metadata section;
          src_start = load_buf + of_nat sizeof_package2_header + cur_section_offset in
      if sz = 0 then Ok st
      else if plaintext
      then bindR (mem_get dram_mapped mem src_start sz) (\<lambda>src.
           bindR (mem_put dram_mapped dst_start src mem) (\<lambda>mem.
           Ok (cur_section_offset + of_nat sz, mem, se)))
      else bindR (mem_get engine_reach mem dst_start sz) (\<lambda>dst.
           bindR (mem_get engine_reach mem src_start sz) (\<lambda>src.
           bindR (package2_crypt_ctr eng mk master_key_rev dst sz src sz (section_ctrs metadata ! section) 0x10 se) (\<lambda>(dst, se).
           bindR (mem_put engine_reach dst_start dst mem) (\<lambda>mem.
           Ok (cur_section_offset + of_nat sz, mem, se))))))"

definition load_package2_sections ::
  "se_engine \<Rightarrow> bootconfig_state \<Rightarrow> mkey_state \<Rightarrow> package2_meta \<Rightarrow> u32 \<Rightarrow> phys_mem \<times> se_state \<Rightarrow> (phys_mem \<times> se_state) res"
where
  "load_package2_sections eng b mk metadata master_key_rev st =
     (let (mem, se) = st in
      bindR (relocate_package2 metadata mem) (\<lambda>(load_buf, mem).
      bindR (foldR (load_section eng (bootconfig_is_package2_plaintext b) mk metadata master_key_rev load_buf)
               [0..<PACKAGE2_SECTION_MAX] (0, mem, se)) (\<lambda>(_, mem, se).
      bindR (mem_put dram_mapped load_buf (replicate PACKAGE2_SIZE_MAX 0) mem) (\<lambda>mem.
      Ok (mem, se)))))"

end
