(* ===== verification/Package2_Facts.thy ===== *)
theory Package2_Facts
  imports Package2
begin

text \<open>
  Ranges of physical memory, what a validated header promises about the sections of the package, and that
  a place to move the package to is always found.
\<close>

section \<open>Ranges of memory\<close>

lemma range_iff:
  fixes x a :: u64
  assumes "unat a + n \<le> 2 ^ 64"
  shows "unat (x - a) < n \<longleftrightarrow> unat a \<le> unat x \<and> unat x < unat a + n"
  using assms unsigned_less [of x] by (auto simp: unat_sub_if_size word_size)

lemma unat_add_small:
  fixes a :: u64
  assumes "unat a + n < 2 ^ 64"
  shows "unat (a + of_nat n) = unat a + n"
  using assms by (simp add: unat_word_ariths unat_of_nat_small)

lemma length_phys_read [simp]: "length (phys_read mem a n) = n"
  by (simp add: phys_read_def)

lemma phys_read_cong:
  assumes "unat a + n \<le> 2 ^ 64" "\<And>x. unat a \<le> unat x \<Longrightarrow> unat x < unat a + n \<Longrightarrow> mem x = mem' x"
  shows "phys_read mem a n = phys_read mem' a n"
proof -
  have "mem (a + of_nat i) = mem' (a + of_nat i)" if "i < n" for i
    using assms that unat_add_small [of a i] by (intro assms(2)) auto
  then show ?thesis by (simp add: phys_read_def)
qed

lemma phys_write_in:
  assumes "unat a + length bs \<le> 2 ^ 64" "unat a \<le> unat x" "unat x < unat a + length bs"
  shows "phys_write a bs mem x = bs ! unat (x - a)"
  using assms by (simp add: phys_write_def range_iff)

lemma phys_write_out:
  assumes "unat a + length bs \<le> 2 ^ 64" "unat x < unat a \<or> unat a + length bs \<le> unat x"
  shows "phys_write a bs mem x = mem x"
  using assms by (auto simp: phys_write_def range_iff)

lemma phys_write_Nil [simp]: "phys_write a [] mem = mem"
  by (simp add: phys_write_def)

lemma phys_read_write_same:
  assumes "unat a + length bs \<le> 2 ^ 64" "n = length bs"
  shows "phys_read (phys_write a bs mem) a n = bs"
proof (rule nth_equalityI)
  fix i assume "i < length (phys_read (phys_write a bs mem) a n)"
  then have i: "i < length bs" using assms by simp
  then have "unat (of_nat i :: u64) = i" using assms by (simp add: unat_of_nat_small)
  then show "phys_read (phys_write a bs mem) a n ! i = bs ! i"
    using i assms by (simp add: phys_read_def phys_write_def)
qed (simp add: assms)

lemma phys_read_write_other:
  assumes "unat a + length bs \<le> 2 ^ 64" "unat a' + n \<le> 2 ^ 64"
    and "unat a' + n \<le> unat a \<or> unat a + length bs \<le> unat a'"
  shows "phys_read (phys_write a bs mem) a' n = phys_read mem a' n"
  by (rule phys_read_cong) (use assms in \<open>auto intro!: phys_write_out\<close>)

lemma dram_mapped_iff: "dram_mapped a n \<longleftrightarrow> 0x80000000 \<le> unat a \<and> unat a + n \<le> 0x180000000"
  by (simp add: dram_mapped_def MMAPID_def word_le_nat_alt)

lemma engine_reach_iff: "engine_reach a n \<longleftrightarrow> 0x80000000 \<le> unat a \<and> unat a + n \<le> 2 ^ 32"
  by (auto simp: engine_reach_def dram_mapped_iff)

section \<open>Validated metadata\<close>

abbreviation sz_of :: "package2_meta \<Rightarrow> nat \<Rightarrow> nat" where "sz_of md i \<equiv> unat (section_sizes md ! i)"
abbreviation ofs_of :: "package2_meta \<Rightarrow> nat \<Rightarrow> nat" where "ofs_of md i \<equiv> unat (section_offsets md ! i)"

text \<open>The sections are aligned and pairwise disjoint, fill the package, and one of them holds the entry point.\<close>

definition sections_ok :: "package2_meta \<Rightarrow> bool" where
  "sections_ok md \<longleftrightarrow> (\<forall>i < 3. 4 dvd sz_of md i \<and> ofs_of md i + sz_of md i < 2 ^ 32)
     \<and> (\<forall>i < 3. \<forall>j < 3. i \<noteq> j \<and> sz_of md i \<noteq> 0 \<and> sz_of md j \<noteq> 0 \<longrightarrow>
          ofs_of md i + sz_of md i \<le> ofs_of md j \<or> ofs_of md j + sz_of md j \<le> ofs_of md i)
     \<and> sz_of md 0 + sz_of md 1 + sz_of md 2 + 0x200 = unat (get_package2_size md)
     \<and> unat (get_package2_size md) \<le> 0x7FC000
     \<and> 4 dvd unat (entrypoint md)
     \<and> (\<exists>i < 3. ofs_of md i \<le> unat (entrypoint md) \<and> unat (entrypoint md) < ofs_of md i + sz_of md i)"

lemma and_3_dvd: "w AND 3 = 0 \<longleftrightarrow> 4 dvd unat w" for w :: u32
proof -
  have "unat (w AND 3) = unat w mod 4"
    using arg_cong [OF take_bit_eq_mask [of 2 w], of unat] by (simp add: mask_numeral take_bit_eq_mod unat_mod)
  then show ?thesis by (metis dvd_eq_mod_eq_0 unat_eq_zero)
qed

lemma unat_ucast_32_64 [simp]: "unat (ucast a :: u64) = unat a" for a :: u32
proof -
  have "unat a < 2 ^ 32" using unsigned_less [of a] by simp
  then have "unat a < 2 ^ 64" by simp
  then show ?thesis by (simp add: unsigned_ucast_eq take_bit_nat_eq_self)
qed

lemma overlaps_iff:
  "overlaps (ucast a) (ucast b) (ucast c) (ucast d) \<longleftrightarrow>
     unat a \<le> unat c \<and> unat c < unat b \<or> unat c \<le> unat a \<and> unat a < unat d" for a b c d :: u32
  by (auto simp: overlaps_def word_le_nat_alt word_less_nat_alt)

text \<open>What one round of the loop checks.\<close>

definition section_passes :: "package2_meta \<Rightarrow> nat \<Rightarrow> bool" where
  "section_passes md i \<longleftrightarrow> section_sizes md ! i AND 3 = 0
     \<and> \<not> check_32bit_additive_overflow (section_offsets md ! i) (section_sizes md ! i)
     \<and> (section_sizes md ! i \<noteq> 0 \<longrightarrow>
          (\<forall>j \<in> set [i + 1..<3]. section_sizes md ! j \<noteq> 0 \<longrightarrow> \<not> section_overlaps md i j))"

definition has_entrypoint :: "package2_meta \<Rightarrow> nat \<Rightarrow> bool" where
  "has_entrypoint md i \<longleftrightarrow> section_offsets md ! i \<le> entrypoint md
     \<and> entrypoint md < section_offsets md ! i + section_sizes md ! i"

lemma validate_section_Some:
  assumes "validate_section eng mem md i (found, cur, se) = Ok (Some (found', cur'), se')"
  shows "section_passes md i" "found' \<longleftrightarrow> found \<or> has_entrypoint md i"
  using assms unfolding validate_section_def Let_def section_passes_def has_entrypoint_def prod.case
  by (auto simp: res_simps split: if_splits)

lemma validate_sections_Some:
  "validate_sections eng mem md is (found, cur, se) = Ok (Some found', se') \<Longrightarrow>
     (\<forall>i \<in> set is. section_passes md i) \<and> (found' \<longleftrightarrow> found \<or> (\<exists>i \<in> set is. has_entrypoint md i))"
proof (induction "is" arbitrary: found cur se)
  case Nil
  then show ?case by simp
next
  case (Cons i "is")
  from Cons.prems obtain f c s where v: "validate_section eng mem md i (found, cur, se) = Ok (Some (f, c), s)"
      "validate_sections eng mem md is (f, c, s) = Ok (Some found', se')"
    by (auto elim!: bindR_OkE split: option.splits)
  from validate_section_Some [OF v(1)] Cons.IH [OF v(2)] show ?case by auto
qed

lemma validate_metadata_True:
  assumes "validate_package2_metadata eng mem md se = Ok (True, se')"
  shows "\<forall>i < 3. section_passes md i" "\<exists>i < 3. has_entrypoint md i" "entrypoint md AND 3 = 0"
    "unat (get_package2_size md) \<le> 0x7FC000" "0x200 < unat (get_package2_size md)"
    "(ucast (section_sizes md ! 0 + section_sizes md ! 1 + section_sizes md ! 2) :: u64) + 0x200 = ucast (get_package2_size md)"
    "pk_magic md = 0x31324B50" "version_min md < 0xC"
proof -
  obtain found s where v: "validate_sections eng mem md [0..<3] (False, 0, se) = Ok (Some found, s)" and "found"
    and rest: "entrypoint md AND 3 = 0" "unat (get_package2_size md) \<le> 0x7FC000" "0x200 < unat (get_package2_size md)"
    "(ucast (section_sizes md ! 0 + section_sizes md ! 1 + section_sizes md ! 2) :: u64) + 0x200 = ucast (get_package2_size md)"
    "pk_magic md = 0x31324B50" "version_min md < 0xC"
    using assms unfolding validate_package2_metadata_def Let_def get_package2_size_def
    by (auto elim!: bindR_OkE split: if_splits option.splits)
  show "\<forall>i < 3. section_passes md i" "\<exists>i < 3. has_entrypoint md i"
    using validate_sections_Some [OF v] \<open>found\<close> by auto
qed (use assms in \<open>auto simp: validate_package2_metadata_def Let_def get_package2_size_def elim!: bindR_OkE split: if_splits option.splits\<close>)


text \<open>
  What the validation accepts depends on the metadata alone: neither the signature nor the contents of the
  sections play a part.
\<close>

definition metadata_valid :: "package2_meta \<Rightarrow> bool" where
  "metadata_valid md \<longleftrightarrow> pk_magic md = MAGIC_PK21
     \<and> 0x200 < unat (get_package2_size md) \<and> unat (get_package2_size md) \<le> 0x7FC000
     \<and> unat (ucast ((ctr_dwords md 1 XOR drop_bit 16 (ctr_dwords md 1) XOR drop_bit 24 (ctr_dwords md 1)) AND 0xFF) :: u8) \<le> 10
     \<and> entrypoint md AND 3 = 0
     \<and> (ucast (section_sizes md ! 0 + section_sizes md ! 1 + section_sizes md ! 2) :: u64) + 0x200 = ucast (get_package2_size md)
     \<and> (\<forall>i < 3. section_passes md i) \<and> (\<exists>i < 3. has_entrypoint md i) \<and> version_min md < 0xC"

lemma validate_sound:
  assumes "validate_package2_metadata eng mem md se = Ok (True, se')"
  shows "metadata_valid md"
proof -
  have "unat (ucast ((ctr_dwords md 1 XOR drop_bit 16 (ctr_dwords md 1) XOR drop_bit 24 (ctr_dwords md 1)) AND 0xFF) :: u8) \<le> 10"
    using assms unfolding validate_package2_metadata_def Let_def by (simp split: if_splits)
  then show ?thesis unfolding metadata_valid_def using validate_metadata_True [OF assms] by blast
qed

text \<open>The sum of the sizes does not wrap, as disjoint sections inside 4 GiB are not larger than that.\<close>

lemma disjoint_sum_bound:
  fixes a b c x y z :: nat
  assumes "a + x < n" "b + y < n" "c + z < n"
    and "x \<noteq> 0 \<Longrightarrow> y \<noteq> 0 \<Longrightarrow> a + x \<le> b \<or> b + y \<le> a" "x \<noteq> 0 \<Longrightarrow> z \<noteq> 0 \<Longrightarrow> a + x \<le> c \<or> c + z \<le> a"
    "y \<noteq> 0 \<Longrightarrow> z \<noteq> 0 \<Longrightarrow> b + y \<le> c \<or> c + z \<le> b"
  shows "x + y + z < n"
  using assms by (cases "x = 0"; cases "y = 0"; cases "z = 0") auto

lemma sections_passed:
  assumes "\<forall>i < 3. section_passes md i"
  shows "\<And>i. i < 3 \<Longrightarrow> 4 dvd sz_of md i \<and> ofs_of md i + sz_of md i < 2 ^ 32"
    and "\<And>i j. i < 3 \<Longrightarrow> j < 3 \<Longrightarrow> i \<noteq> j \<Longrightarrow> sz_of md i \<noteq> 0 \<Longrightarrow> sz_of md j \<noteq> 0 \<Longrightarrow>
          ofs_of md i + sz_of md i \<le> ofs_of md j \<or> ofs_of md j + sz_of md j \<le> ofs_of md i"
proof -
  show c: "4 dvd sz_of md i \<and> ofs_of md i + sz_of md i < 2 ^ 32" if "i < 3" for i
    using assms that by (auto simp: section_passes_def and_3_dvd check_32bit_additive_overflow_def not_le)
  have e: "unat (section_offsets md ! i + section_sizes md ! i) = ofs_of md i + sz_of md i" if "i < 3" for i
    using c [OF that] by (simp add: unat_word_ariths)
  have d: "ofs_of md i + sz_of md i \<le> ofs_of md j \<or> ofs_of md j + sz_of md j \<le> ofs_of md i"
    if "i < j" "j < 3" "sz_of md i \<noteq> 0" "sz_of md j \<noteq> 0" for i j
  proof -
    have "section_passes md i" "j \<in> set [i + 1..<3]" using assms that by auto
    moreover have "section_sizes md ! i \<noteq> 0" "section_sizes md ! j \<noteq> 0" using that(3,4) by auto
    ultimately have "\<not> section_overlaps md i j" unfolding section_passes_def by blast
    then show ?thesis
      using that(3,4) e [of i] e [OF that(2)] that(1,2) by (auto simp: section_overlaps_def Let_def overlaps_iff)
  qed
  show "ofs_of md i + sz_of md i \<le> ofs_of md j \<or> ofs_of md j + sz_of md j \<le> ofs_of md i"
    if "i < 3" "j < 3" "i \<noteq> j" "sz_of md i \<noteq> 0" "sz_of md j \<noteq> 0" for i j
    using d [of i j] d [of j i] that by linarith
qed

lemma valid_sections_ok:
  assumes "metadata_valid md"
  shows "sections_ok md"
proof -
  have v: "\<forall>i < 3. section_passes md i" "\<exists>i < 3. has_entrypoint md i" "entrypoint md AND 3 = 0"
    "unat (get_package2_size md) \<le> 0x7FC000"
    "(ucast (section_sizes md ! 0 + section_sizes md ! 1 + section_sizes md ! 2) :: u64) + 0x200 = ucast (get_package2_size md)"
    using assms unfolding metadata_valid_def by blast+
  note s = sections_passed [OF v(1)]
  have lt: "sz_of md 0 + sz_of md 1 + sz_of md 2 < 2 ^ 32"
    using s(1) [of 0] s(1) [of 1] s(1) [of 2] s(2) [of 0 1] s(2) [of 0 2] s(2) [of 1 2]
    by (intro disjoint_sum_bound [of "ofs_of md 0" _ _ "ofs_of md 1" _ "ofs_of md 2"]) auto
  have "unat ((ucast (section_sizes md ! 0 + section_sizes md ! 1 + section_sizes md ! 2) :: u64) + 0x200)
      = sz_of md 0 + sz_of md 1 + sz_of md 2 + 0x200"
    using lt by (simp add: unat_word_ariths)
  then have sum: "sz_of md 0 + sz_of md 1 + sz_of md 2 + 0x200 = unat (get_package2_size md)"
    using v(5) by simp
  obtain i where i: "i < 3" "has_entrypoint md i" using v(2) by blast
  have "unat (section_offsets md ! i + section_sizes md ! i) = ofs_of md i + sz_of md i"
    using s(1) [OF i(1)] by (simp add: unat_word_ariths)
  then have "ofs_of md i \<le> unat (entrypoint md) \<and> unat (entrypoint md) < ofs_of md i + sz_of md i"
    using i(2) by (simp add: has_entrypoint_def word_le_nat_alt word_less_nat_alt)
  then show ?thesis
    unfolding sections_ok_def using s sum v(3,4) i(1) by (auto simp: and_3_dvd)
qed


section \<open>A place to move the package to\<close>

text \<open>
  In units of the window size a section touches at most the windows of its first and of its last byte; so
  three sections leave one of seven windows free.
\<close>

lemma window_touched:
  fixes a s k w :: nat
  assumes "s < w" "a \<le> k * w \<and> k * w < a + s \<or> k * w \<le> a \<and> a < k * w + w"
  shows "k = a div w \<or> k = (a + s - 1) div w"
  using assms(2)
proof
  assume k: "a \<le> k * w \<and> k * w < a + s"
  then have "k * w \<le> a + s - 1" "a + s - 1 < Suc k * w" using assms(1) by auto
  then have "(a + s - 1) div w = k" using assms(1) by (intro div_nat_eqI) (auto simp: mult.commute)
  then show ?thesis by simp
next
  assume "k * w \<le> a \<and> a < k * w + w"
  then have "a div w = k" by (intro div_nat_eqI) (auto simp: mult.commute)
  then show ?thesis by simp
qed

lemma free_index:
  assumes "card B \<le> n" "finite B"
  shows "\<exists>k < Suc n. k \<notin> B"
proof (rule ccontr)
  assume "\<not> (\<exists>k < Suc n. k \<notin> B)"
  then have "{..<Suc n} \<subseteq> B" by auto
  then have "card {..<Suc n} \<le> card B" by (rule card_mono [OF assms(2)])
  then show False using assms(1) by simp
qed

lemma section_unat:
  assumes "sections_ok md" "i < 3"
  shows "unat (section_start md i) = 0x80000000 + ofs_of md i"
    "unat (section_end md i) = 0x80000000 + ofs_of md i + sz_of md i"
proof -
  have lt: "ofs_of md i + sz_of md i < 2 ^ 32" using assms by (simp add: sections_ok_def)
  then show s: "unat (section_start md i) = 0x80000000 + ofs_of md i"
    by (simp add: section_start_def unat_word_ariths)
  show "unat (section_end md i) = 0x80000000 + ofs_of md i + sz_of md i"
    using s lt by (simp add: section_end_def unat_word_ariths)
qed

lemma section_small:
  assumes "sections_ok md" "i < 3"
  shows "sz_of md i + 0x200 \<le> 0x7FC000"
proof -
  have "i = 0 \<or> i = 1 \<or> i = 2" using assms(2) by auto
  then show ?thesis using assms(1) unfolding sections_ok_def by (elim conjE disjE) simp_all
qed

lemma hits_section_iff:
  assumes "sections_ok md" "unat base + 0x7FC000 < 2 ^ 64"
  shows "hits_section md base \<longleftrightarrow> (\<exists>i < 3.
     0x80000000 + ofs_of md i \<le> unat base \<and> unat base < 0x80000000 + ofs_of md i + sz_of md i
     \<or> unat base \<le> 0x80000000 + ofs_of md i \<and> 0x80000000 + ofs_of md i < unat base + 0x7FC000)"
proof -
  have b: "unat (base + of_nat 0x7FC000) = unat base + 0x7FC000" using assms(2) by (rule unat_add_small)
  have "overlaps (section_start md i) (section_end md i) base (base + of_nat 0x7FC000) \<longleftrightarrow>
     0x80000000 + ofs_of md i \<le> unat base \<and> unat base < 0x80000000 + ofs_of md i + sz_of md i
     \<or> unat base \<le> 0x80000000 + ofs_of md i \<and> 0x80000000 + ofs_of md i < unat base + 0x7FC000" if "i < 3" for i
    unfolding overlaps_def word_le_nat_alt word_less_nat_alt section_unat [OF assms(1) that] b by auto
  then show ?thesis unfolding hits_section_def by auto
qed

definition window :: "nat \<Rightarrow> u64" where
  "window k = 0x80000000 + of_nat (k * 0x7FC000)"

lemma unat_window: "k < 8 \<Longrightarrow> unat (window k) = 0x80000000 + k * 0x7FC000"
  unfolding window_def by (subst unat_add_small) auto

lemma window_free:
  assumes "sections_ok md"
  shows "\<exists>k < 7. \<not> hits_section md (window k)"
proof -
  let ?w = "0x7FC000 :: nat"
  let ?B = "\<Union>i \<in> {0, 1, 2}. {ofs_of md i div ?w, (ofs_of md i + sz_of md i - 1) div ?w}"
  have eq: "?B = set [ofs_of md 0 div ?w, (ofs_of md 0 + sz_of md 0 - 1) div ?w, ofs_of md 1 div ?w,
      (ofs_of md 1 + sz_of md 1 - 1) div ?w, ofs_of md 2 div ?w, (ofs_of md 2 + sz_of md 2 - 1) div ?w]"
    by auto
  have "card ?B \<le> 6" unfolding eq by (rule order_trans [OF card_length]) simp
  then obtain k where k: "k < 7" "k \<notin> ?B" using free_index [of ?B 6] by auto
  have "\<not> hits_section md (window k)"
  proof
    assume "hits_section md (window k)"
    then obtain i where i: "i < 3" "ofs_of md i \<le> k * ?w \<and> k * ?w < ofs_of md i + sz_of md i
       \<or> k * ?w \<le> ofs_of md i \<and> ofs_of md i < k * ?w + ?w"
      using k(1) by (auto simp: hits_section_iff [OF assms] unat_window)
    have "sz_of md i < ?w" using section_small [OF assms i(1)] by simp
    from window_touched [OF this i(2)] have "k \<in> {ofs_of md i div ?w, (ofs_of md i + sz_of md i - 1) div ?w}" by simp
    moreover have "i \<in> {0, 1, 2}" using i(1) by auto
    ultimately have "k \<in> ?B" by blast
    then show False using k(2) by simp
  qed
  then show ?thesis using k(1) by blast
qed

lemma window_step: "window k + of_nat 0x7FC000 = window (Suc k)"
  by (simp add: window_def algebra_simps)

lemma find_safe_carveout_ok:
  assumes "\<not> hits_section md (window (k + j))"
  shows "\<exists>i. k \<le> i \<and> i \<le> k + j \<and> find_safe_carveout md (Suc j) (window k) = Some (window i) \<and> \<not> hits_section md (window i)"
  using assms
proof (induction j arbitrary: k)
  case 0
  then show ?case by auto
next
  case (Suc j)
  show ?case
  proof (cases "hits_section md (window k)")
    case True
    obtain i where "Suc k \<le> i" "i \<le> Suc k + j" "find_safe_carveout md (Suc j) (window (Suc k)) = Some (window i)"
        "\<not> hits_section md (window i)"
      using Suc.IH [of "Suc k"] Suc.prems by auto
    then show ?thesis
      using True by (intro exI [of _ i]) (simp only: find_safe_carveout.simps(2) [of md "Suc j"] window_step not_not if_False, simp)
  next
    case False
    then show ?thesis by auto
  qed
qed

lemma find_safe_carveout_mono:
  "find_safe_carveout md n b = Some x \<Longrightarrow> find_safe_carveout md (n + m) b = Some x"
  by (induction n arbitrary: b) auto

lemma carveout_found:
  assumes "sections_ok md"
  shows "\<exists>k < 7. find_safe_carveout md 8 0x80000000 = Some (window k) \<and> \<not> hits_section md (window k)"
proof -
  obtain j where j: "j < 7" "\<not> hits_section md (window (0 + j))" using window_free [OF assms] by auto
  obtain k where k: "k \<le> j" "find_safe_carveout md (Suc j) (window 0) = Some (window k)" "\<not> hits_section md (window k)"
    using find_safe_carveout_ok [OF j(2)] by auto
  have "Suc j + (7 - j) = 8" using j(1) by simp
  then have "find_safe_carveout md 8 (window 0) = Some (window k)"
    using find_safe_carveout_mono [OF k(2), of "7 - j"] by metis
  moreover have "window 0 = 0x80000000" by (simp add: window_def)
  ultimately show ?thesis using k(1,3) j(1) by (intro exI [of _ k]) simp
qed

end
