(* ===== verification/Package2_Load.thy ===== *)
theory Package2_Load
  imports Package2_Facts
begin

text \<open>
  What the memory holds when the sections are loaded, and which key the header is found to be
  encrypted with.
\<close>

section \<open>Decrypting with the package key\<close>

definition package2_key :: "se_prims \<Rightarrow> bool \<Rightarrow> mkey_state \<Rightarrow> u32 \<Rightarrow> se_state \<Rightarrow> bytes" where
  "package2_key P b mk r se = aes_dec P (chain_key P (vectors_for b) (unat (g_mkey_revision mk)) (aes_key se 0xC)
     (unat (g_mkey_revision mk) - unat r)) package2_key_source"

lemma package2_crypt_ctr_ok:
  fixes se :: se_state
  assumes ok: "se_engine_ok P eng" and mk: "mkey_consistent P b mk se" "r \<le> g_mkey_revision mk"
    and "length src = n" "length dst = n" "n < 2 ^ 32" "length (CRYPTO_CTR_REG se) = 4"
  shows "\<exists>se'. package2_crypt_ctr eng mk r dst n src n ctr 0x10 se =
      Ok (xor_bytes src (ctr_stream P (package2_key P b mk r se) (ctr_words ctr) ((n + 15) div 16)), se')
     \<and> se_keep se se' \<and> (\<forall>k. k \<noteq> 8 \<and> k \<noteq> 9 \<longrightarrow> aes_key se' k = aes_key se k)"
proof -
  let ?k = "package2_key P b mk r se"
  obtain ks s1 where s1: "mkey_get_keyslot r mk se = Ok (ks, s1)" "ks \<in> {0xC, 9}" "se_keep se s1"
      "\<forall>k. k \<noteq> 9 \<longrightarrow> aes_key s1 k = aes_key se k" "aes_dec P (aes_key s1 ks) package2_key_source = ?k"
    using mkey_get_keyslot_ok [OF mk] unfolding package2_key_def by metis
  have "length package2_key_source = 16" "ks < 16" using s1(2) by (auto simp: package2_key_source_def)
  then obtain s2 where s2: "decrypt_data_into_keyslot eng 8 ks package2_key_source 16 s1 = Ok s2" "se_keep s1 s2"
      "aes_key s2 = (aes_key s1)(8 := ?k)"
    using decrypt_into_keyslot_ok [OF ok, of ks 8 package2_key_source s1] s1(5) by auto
  have keep: "se_keep se s2" using s1(3) s2(2) se_keep_trans by blast
  then have "length (CRYPTO_CTR_REG s2) = 4" using se_keep_ctr_length [OF keep] assms(7) by simp
  then obtain s3 where s3: "se_aes_ctr_crypt eng 8 dst n src n ctr 16 s2 =
      Ok (blit dst 0 (xor_bytes src (ctr_stream P (aes_key s2 8) (ctr_words ctr) ((n + 15) div 16))), s3)"
      "se_core s3 = se_core s2"
    using ctr_crypt_ok [OF ok, of 8 n src n dst s2 ctr] assms by auto
  have "length (ctr_stream P ?k (ctr_words ctr) ((n + 15) div 16)) = 16 * ((n + 15) div 16)"
    using length_ctr_stream [OF ok length_ctr_words] .
  then have "length (xor_bytes src (ctr_stream P ?k (ctr_words ctr) ((n + 15) div 16))) = n" using assms(4) by simp
  then have "blit dst 0 (xor_bytes src (ctr_stream P ?k (ctr_words ctr) ((n + 15) div 16)))
      = xor_bytes src (ctr_stream P ?k (ctr_words ctr) ((n + 15) div 16))"
    using assms(5) by (simp add: blit_0_all)
  moreover have "se_keep se s3" using keep se_keep_core [OF s3(2)] se_keep_trans by blast
  ultimately show ?thesis
    using s1(1,4) s2(1,3) s3(1) aes_key_core_eq [OF s3(2)] by (simp add: package2_crypt_ctr_def)
qed


section \<open>Loading\<close>

text \<open>Where the package is when the sections are copied, and what is read there.\<close>

abbreviation in_load :: "u64 \<Rightarrow> u64 \<Rightarrow> bool" where
  "in_load base x \<equiv> unat base \<le> unat x \<and> unat x < unat base + 0x7FC000"

lemma relocate_ok:
  assumes "sections_ok md"
  obtains base mem' where "relocate_package2 md mem = Ok (base, mem')" "\<not> hits_section md base"
    "base \<in> insert 0xA9800000 (window ` {..<7})"
    "\<And>c n. c + n \<le> 0x7FC000 \<Longrightarrow> phys_read mem' (base + of_nat c) n = phys_read mem (0xA9800000 + of_nat c) n"
    "\<And>x. \<not> in_load 0xA9800000 x \<Longrightarrow> \<not> in_load base x \<Longrightarrow> mem' x = mem x"
    "\<And>x. in_load 0xA9800000 x \<Longrightarrow> base \<noteq> 0xA9800000 \<Longrightarrow> mem' x = 0"
proof (cases "hits_section md 0xA9800000")
  case False
  then show thesis by (intro that [of "0xA9800000" mem]) (simp_all add: relocate_package2_def)
next
  case True
  obtain k where k: "k < 7" "find_safe_carveout md 8 0x80000000 = Some (window k)" "\<not> hits_section md (window k)"
    using carveout_found [OF assms] by blast
  have u: "unat (window k) = 0x80000000 + k * 0x7FC000" using unat_window k(1) by simp
  have lt: "unat (window k) + 0x7FC000 \<le> 0xA9800000" using u k(1) by simp
  let ?c = "phys_read mem 0xA9800000 0x7FC000"
  let ?m1 = "phys_write (window k) ?c mem"
  let ?m2 = "phys_write 0xA9800000 (replicate 0x7FC000 0) ?m1"
  have "relocate_package2 md mem = Ok (window k, ?m2)"
    using True k(2) lt u by (simp add: relocate_package2_def mem_get_def mem_put_def dram_mapped_iff)
  moreover have "phys_read ?m2 (window k + of_nat c) n = phys_read mem (0xA9800000 + of_nat c) n" if "c + n \<le> 0x7FC000" for c n
  proof -
    have a: "unat (window k + of_nat c) = unat (window k) + c" using that lt by (intro unat_add_small) simp
    have "phys_read ?m2 (window k + of_nat c) n = phys_read ?m1 (window k + of_nat c) n"
      using a lt that by (intro phys_read_write_other) simp_all
    also have "\<dots> = phys_read mem (0xA9800000 + of_nat c) n"
    proof -
      have "?m1 (window k + of_nat (c + i)) = mem (0xA9800000 + of_nat (c + i))" if "i < n" for i
      proof -
        have "unat (of_nat (c + i) :: u64) = c + i" using \<open>i < n\<close> \<open>c + n \<le> 0x7FC000\<close> by (intro unat_of_nat_small) simp
        then show ?thesis using \<open>i < n\<close> \<open>c + n \<le> 0x7FC000\<close> by (simp add: phys_write_def phys_read_def del: of_nat_add)
      qed
      then show ?thesis by (simp add: phys_read_def add.assoc)
    qed
    finally show ?thesis .
  qed
  moreover have "?m2 x = mem x" if "\<not> in_load 0xA9800000 x" "\<not> in_load (window k) x" for x
    using that lt by (subst phys_write_out, simp, force, subst phys_write_out, simp, force) simp
  moreover have "?m2 x = 0" if "in_load 0xA9800000 x" for x
    using that by (subst phys_write_in) (auto simp: range_iff)
  ultimately show thesis using k by (intro that [of "window k" ?m2]) auto
qed


definition section_source :: "package2_meta \<Rightarrow> phys_mem \<Rightarrow> nat \<Rightarrow> bytes" where
  "section_source md mem i = phys_read mem (0xA9800000 + of_nat (0x200 + (\<Sum>j < i. sz_of md j))) (sz_of md i)"

definition section_contents :: "se_prims \<Rightarrow> bool \<Rightarrow> bytes \<Rightarrow> package2_meta \<Rightarrow> phys_mem \<Rightarrow> nat \<Rightarrow> bytes" where
  "section_contents P plaintext key md mem i =
     (let src = section_source md mem i in
      if plaintext then src
      else xor_bytes src (ctr_stream P key (ctr_words (section_ctrs md ! i)) ((sz_of md i + 15) div 16)))"

lemma length_section_contents:
  assumes "se_engine_ok P eng"
  shows "length (section_contents P plaintext key md mem i) = sz_of md i"
  using length_ctr_stream [OF assms length_ctr_words]
  by (simp add: section_contents_def section_source_def Let_def)

abbreviation place :: "package2_meta \<Rightarrow> (nat \<Rightarrow> bytes) \<Rightarrow> nat \<Rightarrow> phys_mem \<Rightarrow> phys_mem" where
  "place md data n mem \<equiv> fold (\<lambda>i. phys_write (section_start md i) (data i)) [0..<n] mem"

lemma place_outside:
  assumes "sections_ok md" "n \<le> 3" "\<And>i. i < n \<Longrightarrow> length (data i) = sz_of md i"
    and "\<And>i. i < n \<Longrightarrow> \<not> (0x80000000 + ofs_of md i \<le> unat x \<and> unat x < 0x80000000 + ofs_of md i + sz_of md i)"
  shows "place md data n mem x = mem x"
  using assms(2-)
proof (induction n)
  case (Suc n)
  have "ofs_of md n + sz_of md n < 2 ^ 32" using assms(1) Suc.prems(1) by (simp add: sections_ok_def)
  then have "phys_write (section_start md n) (data n) (place md data n mem) x = place md data n mem x"
    using Suc.prems(1,2) Suc.prems(3) [of n] section_unat(1) [OF assms(1), of n] by (intro phys_write_out) auto
  then show ?case using Suc by simp
qed simp

lemma place_inside:
  assumes "sections_ok md" "n \<le> 3" "\<And>i. i < n \<Longrightarrow> length (data i) = sz_of md i" "i < n"
    and "0x80000000 + ofs_of md i \<le> unat x" "unat x < 0x80000000 + ofs_of md i + sz_of md i"
  shows "place md data n mem x = data i ! unat (x - section_start md i)"
  using assms(2-4)
proof (induction n)
  case (Suc n)
  let ?m = "place md data n mem"
  have n: "n < 3" "ofs_of md n + sz_of md n < 2 ^ 32" "unat (section_start md n) = 0x80000000 + ofs_of md n"
    "length (data n) = sz_of md n"
    using assms(1) Suc.prems section_unat(1) [OF assms(1), of n] by (auto simp: sections_ok_def)
  show ?case
  proof (cases "i = n")
    case True
    then show ?thesis using n assms(5,6) by (simp add: phys_write_in)
  next
    case False
    then have i: "i < n" using Suc.prems(3) by simp
    have "sz_of md n = 0 \<or> ofs_of md i + sz_of md i \<le> ofs_of md n \<or> ofs_of md n + sz_of md n \<le> ofs_of md i"
      using assms(1,5,6) False i n(1) unfolding sections_ok_def by (elim conjE allE [of _ i] allE [of _ n]) auto
    then have "phys_write (section_start md n) (data n) ?m x = ?m x"
      using n assms(5,6) by (intro phys_write_out) auto
    then show ?thesis using Suc i by simp
  qed
qed simp

lemma not_hit:
  assumes "sections_ok md" "\<not> hits_section md base" "unat base + 0x7FC000 < 2 ^ 64" "i < 3"
  shows "0x80000000 + ofs_of md i + sz_of md i \<le> unat base \<or> unat base + 0x7FC000 \<le> 0x80000000 + ofs_of md i"
proof -
  have "\<not> (0x80000000 + ofs_of md i \<le> unat base \<and> unat base < 0x80000000 + ofs_of md i + sz_of md i
     \<or> unat base \<le> 0x80000000 + ofs_of md i \<and> 0x80000000 + ofs_of md i < unat base + 0x7FC000)"
    using assms(2,4) unfolding hits_section_iff [OF assms(1,3)] by blast
  then show ?thesis by linarith
qed

text \<open>A window that no section hits holds nothing of a section, and its contents survive the copying.\<close>

lemma place_window:
  assumes "sections_ok md" "n \<le> 3" "\<And>i. i < n \<Longrightarrow> length (data i) = sz_of md i" "\<not> hits_section md base"
    and "unat base + 0x7FC000 < 2 ^ 64" "in_load base x"
  shows "place md data n mem x = mem x"
proof (rule place_outside [OF assms(1-3)])
  fix i assume "i < n"
  then show "\<not> (0x80000000 + ofs_of md i \<le> unat x \<and> unat x < 0x80000000 + ofs_of md i + sz_of md i)"
    using not_hit [OF assms(1,4,5), of i] assms(2,6) by linarith
qed

lemma load_section_ok:
  fixes se :: se_state
  assumes ok: "se_engine_ok P eng" and md: "sections_ok md" and i: "i < 3"
    and mk: "mkey_consistent P b mk se" "r \<le> g_mkey_revision mk" "length (CRYPTO_CTR_REG se) = 4"
    and low: "plaintext \<or> ofs_of md i + sz_of md i \<le> 0x80000000"
    and base: "0x80000000 \<le> unat base" "unat base + 0x7FC000 \<le> 2 ^ 32" "c + 0x200 + sz_of md i \<le> 0x7FC000"
    and src: "phys_read mem (base + of_nat (0x200 + c)) (sz_of md i) = section_source md mem0 i"
  shows "\<exists>se'. load_section eng plaintext mk md r base i (of_nat c, mem, se) =
      Ok (of_nat (c + sz_of md i),
          phys_write (section_start md i) (section_contents P plaintext (package2_key P b mk r se) md mem0 i) mem, se')
     \<and> se_keep se se' \<and> (\<forall>k. k \<noteq> 8 \<and> k \<noteq> 9 \<longrightarrow> aes_key se' k = aes_key se k)"
proof (cases "sz_of md i = 0")
  case True
  then show ?thesis
    using length_section_contents [OF ok, of plaintext "package2_key P b mk r se" md mem0 i]
    by (simp add: load_section_def Let_def)
next
  case nz: False
  let ?s = "section_source md mem0 i" and ?n = "sz_of md i"
  have u: "unat (section_start md i) = 0x80000000 + ofs_of md i" "ofs_of md i + ?n < 2 ^ 32"
    using section_unat(1) [OF md i] md i by (auto simp: sections_ok_def)
  define A where "A = base + of_nat (0x200 + c)"
  have a: "base + of_nat 0x200 + of_nat c = A" by (simp add: A_def)
  have ua: "unat A = unat base + (0x200 + c)" unfolding A_def using base by (intro unat_add_small) simp
  have reach: "engine_reach A ?n" "dram_mapped A ?n" "dram_mapped (section_start md i) ?n"
    using base u unfolding engine_reach_iff dram_mapped_iff ua by auto
  have ls: "length ?s = ?n" by (simp add: section_source_def)
  note run = load_section_def Let_def prod.case a mem_get_def mem_put_def reach src [folded A_def]
  show ?thesis
  proof (cases plaintext)
    case True
    then show ?thesis using nz ls by (simp add: run section_contents_def del: of_nat_numeral)
  next
    case False
    have e: "engine_reach (section_start md i) ?n" using low u False by (simp add: engine_reach_iff)
    have "?n < 2 ^ 32" using unsigned_less [of "section_sizes md ! i"] by simp
    then obtain se' where "package2_crypt_ctr eng mk r (phys_read mem (section_start md i) ?n) ?n ?s ?n (section_ctrs md ! i) 0x10 se =
         Ok (section_contents P False (package2_key P b mk r se) md mem0 i, se')" "se_keep se se'"
         "\<forall>k. k \<noteq> 8 \<and> k \<noteq> 9 \<longrightarrow> aes_key se' k = aes_key se k"
      using package2_crypt_ctr_ok [OF ok mk(1,2) ls length_phys_read _ mk(3), of mem "section_start md i" "section_ctrs md ! i"]
      by (auto simp: section_contents_def)
    then show ?thesis
      using nz False e length_section_contents [OF ok] by (simp add: run del: of_nat_numeral)
  qed
qed


lemma sizes_below:
  assumes "sections_ok md" "n < 3"
  shows "(\<Sum>j < n. sz_of md j) + 0x200 + sz_of md n \<le> 0x7FC000"
proof -
  have "(\<Sum>j < n. sz_of md j) + sz_of md n = (\<Sum>j < Suc n. sz_of md j)" by simp
  also have "\<dots> \<le> (\<Sum>j < 3. sz_of md j)" using assms(2) by (intro sum_mono2) auto
  also have "\<dots> = sz_of md 0 + sz_of md 1 + sz_of md 2" by (simp add: numeral_3_eq_3 numeral_2_eq_2)
  finally show ?thesis using assms(1) unfolding sections_ok_def by linarith
qed

lemma load_sections_fold:
  fixes se :: se_state
  assumes ok: "se_engine_ok P eng" and md: "sections_ok md"
    and mk: "mkey_consistent P b mk se" "r \<le> g_mkey_revision mk" "length (CRYPTO_CTR_REG se) = 4"
    and low: "plaintext \<or> (\<forall>i < 3. ofs_of md i + sz_of md i \<le> 0x80000000)"
    and base: "0x80000000 \<le> unat base" "unat base + 0x7FC000 \<le> 2 ^ 32" "\<not> hits_section md base"
    and src: "\<And>c n. c + n \<le> 0x7FC000 \<Longrightarrow> phys_read mem' (base + of_nat c) n = phys_read mem (0xA9800000 + of_nat c) n"
    and n: "n \<le> 3"
  defines "data \<equiv> section_contents P plaintext (package2_key P b mk r se) md mem"
  shows "\<exists>se'. foldR (load_section eng plaintext mk md r base) [0..<n] (0, mem', se) =
       Ok (of_nat (\<Sum>j < n. sz_of md j), place md data n mem', se')
     \<and> se_keep se se' \<and> (\<forall>k. k \<noteq> 8 \<and> k \<noteq> 9 \<longrightarrow> aes_key se' k = aes_key se k)"
  using n
proof (induction n)
  case 0
  then show ?case by simp
next
  case (Suc n)
  let ?c = "\<Sum>j < n. sz_of md j"
  obtain s1 where s1: "foldR (load_section eng plaintext mk md r base) [0..<n] (0, mem', se) =
       Ok (of_nat ?c, place md data n mem', s1)" "se_keep se s1"
      and k1: "\<And>k. k \<noteq> 8 \<Longrightarrow> k \<noteq> 9 \<Longrightarrow> aes_key s1 k = aes_key se k"
    using Suc by auto
  have n: "n < 3" using Suc.prems by simp
  have key: "package2_key P b mk r s1 = package2_key P b mk r se" using k1 [of "0xC"] by (simp add: package2_key_def)
  have mk1: "mkey_consistent P b mk s1" using mk(1) k1 [of "0xC"] by (simp add: mkey_consistent_def)
  have ctr: "length (CRYPTO_CTR_REG s1) = 4" using se_keep_ctr_length [OF s1(2)] mk(3) by simp
  note sz = sizes_below [OF md n]
  have ua: "unat (base + of_nat (0x200 + ?c)) = unat base + (0x200 + ?c)" using base sz by (intro unat_add_small) simp
  have "phys_read (place md data n mem') (base + of_nat (0x200 + ?c)) (sz_of md n) = phys_read mem' (base + of_nat (0x200 + ?c)) (sz_of md n)"
  proof (rule phys_read_cong)
    fix x :: u64 assume "unat (base + of_nat (0x200 + ?c)) \<le> unat x" "unat x < unat (base + of_nat (0x200 + ?c)) + sz_of md n"
    then have "in_load base x" using ua sz by simp
    then show "place md data n mem' x = mem' x"
      using base(2,3) n by (intro place_window [OF md]) (auto simp: data_def length_section_contents [OF ok])
  qed (use ua base sz in simp)
  also have "\<dots> = section_source md mem n"
    unfolding section_source_def by (rule src) (use sz in simp)
  finally have src: "phys_read (place md data n mem') (base + of_nat (0x200 + ?c)) (sz_of md n) = section_source md mem n" .
  have low: "plaintext \<or> ofs_of md n + sz_of md n \<le> 0x80000000" using low n by auto
  obtain s2 where s2: "load_section eng plaintext mk md r base n (of_nat ?c, place md data n mem', s1) =
       Ok (of_nat (?c + sz_of md n), phys_write (section_start md n) (data n) (place md data n mem'), s2)" "se_keep s1 s2"
      "\<forall>k. k \<noteq> 8 \<and> k \<noteq> 9 \<longrightarrow> aes_key s2 k = aes_key s1 k"
    using load_section_ok [OF ok md n mk1 mk(2) ctr low base(1,2) _ src] sz unfolding data_def key by auto
  have "foldR (load_section eng plaintext mk md r base) [0..<Suc n] (0, mem', se) =
       Ok (of_nat (\<Sum>j < Suc n. sz_of md j), place md data (Suc n) mem', s2)"
    using s1(1) s2(1) by (simp add: foldR_append)
  moreover have "se_keep se s2" using s1(2) s2(2) se_keep_trans by blast
  ultimately show ?case using s2(3) k1 by auto
qed

text \<open>Where each byte of memory comes from after the load; \<open>base\<close> is where the package was copied from.\<close>

definition in_section :: "package2_meta \<Rightarrow> nat \<Rightarrow> u64 \<Rightarrow> bool" where
  "in_section md i x \<longleftrightarrow> 0x80000000 + ofs_of md i \<le> unat x \<and> unat x < 0x80000000 + ofs_of md i + sz_of md i"

lemma load_sections_ok:
  fixes se :: se_state and mem :: phys_mem
  assumes ok: "se_engine_ok P eng" and md: "sections_ok md"
    and mk: "mkey_consistent P b mk se" "r \<le> g_mkey_revision mk" "length (CRYPTO_CTR_REG se) = 4"
    and low: "bootconfig_is_package2_plaintext bc \<or> (\<forall>i < 3. ofs_of md i + sz_of md i \<le> 0x80000000)"
  defines "data \<equiv> section_contents P (bootconfig_is_package2_plaintext bc) (package2_key P b mk r se) md mem"
  obtains base mem' se' where
    "load_package2_sections eng bc mk md r (mem, se) = Ok (mem', se')"
    "base \<in> insert 0xA9800000 (window ` {..<7})"
    "\<And>i x. i < 3 \<Longrightarrow> in_section md i x \<Longrightarrow> mem' x = data i ! unat (x - section_start md i)"
    "\<And>x. (\<And>i. i < 3 \<Longrightarrow> \<not> in_section md i x) \<Longrightarrow> in_load 0xA9800000 x \<or> in_load base x \<Longrightarrow> mem' x = 0"
    "\<And>x. (\<And>i. i < 3 \<Longrightarrow> \<not> in_section md i x) \<Longrightarrow> \<not> in_load 0xA9800000 x \<Longrightarrow> \<not> in_load base x \<Longrightarrow> mem' x = mem x"
    "se_keep se se'" "\<And>k. k \<noteq> 8 \<Longrightarrow> k \<noteq> 9 \<Longrightarrow> aes_key se' k = aes_key se k"
proof -
  let ?pl = "bootconfig_is_package2_plaintext bc"
  obtain base m1 where m1: "relocate_package2 md mem = Ok (base, m1)" "\<not> hits_section md base"
    "base \<in> insert 0xA9800000 (window ` {..<7})"
    "\<And>c n. c + n \<le> 0x7FC000 \<Longrightarrow> phys_read m1 (base + of_nat c) n = phys_read mem (0xA9800000 + of_nat c) n"
    "\<And>x. \<not> in_load 0xA9800000 x \<Longrightarrow> \<not> in_load base x \<Longrightarrow> m1 x = mem x"
    "\<And>x. in_load 0xA9800000 x \<Longrightarrow> base \<noteq> 0xA9800000 \<Longrightarrow> m1 x = 0"
    using relocate_ok [OF md, of mem thesis] by blast
  have ub: "0x80000000 \<le> unat base" "unat base + 0x7FC000 \<le> 2 ^ 32"
    using m1(3) by (auto simp: unat_window)
  obtain s2 where s2: "foldR (load_section eng ?pl mk md r base) [0..<3] (0, m1, se) =
       Ok (of_nat (\<Sum>j < 3. sz_of md j), place md data 3 m1, s2)" "se_keep se s2"
      "\<And>k. k \<noteq> 8 \<Longrightarrow> k \<noteq> 9 \<Longrightarrow> aes_key s2 k = aes_key se k"
    using load_sections_fold [OF ok md mk low ub m1(2,4) order_refl] unfolding data_def by auto
  let ?m = "phys_write base (replicate 0x7FC000 0) (place md data 3 m1)"
  have len: "\<And>i. i < 3 \<Longrightarrow> length (data i) = sz_of md i"
    by (simp add: data_def length_section_contents [OF ok])
  have out: "?m x = place md data 3 m1 x" if "\<not> in_load base x" for x
    using that ub by (intro phys_write_out) auto
  have run: "load_package2_sections eng bc mk md r (mem, se) = Ok (?m, s2)"
    using m1(1) s2(1) ub by (simp add: load_package2_sections_def mem_put_def dram_mapped_iff)
  have sec: "?m x = data i ! unat (x - section_start md i)" if "i < 3" "in_section md i x" for i x
  proof -
    have "\<not> in_load base x" using not_hit [OF md m1(2), of i] ub that by (auto simp: in_section_def)
    then show ?thesis using out place_inside [OF md order_refl len that(1)] that(2) by (simp add: in_section_def)
  qed
  have rest: "?m x = (if in_load base x then 0 else m1 x)" if "\<And>i. i < 3 \<Longrightarrow> \<not> in_section md i x" for x
  proof (cases "in_load base x")
    case True
    then show ?thesis using ub by (subst phys_write_in) (auto simp: range_iff)
  next
    case False
    have "?m x = place md data 3 m1 x" by (rule out [OF False])
    also have "\<dots> = m1 x" by (rule place_outside [OF md order_refl len]) (use that in \<open>auto simp: in_section_def\<close>)
    finally show ?thesis by (simp only: if_not_P [OF False])
  qed
  have zero: "?m x = 0" if "\<And>i. i < 3 \<Longrightarrow> \<not> in_section md i x" "in_load 0xA9800000 x \<or> in_load base x" for x
  proof (cases "in_load base x")
    case True
    show ?thesis by (rule trans [OF rest [OF that(1)] if_P [OF True]])
  next
    case False
    then have "base \<noteq> 0xA9800000" using that(2) by blast
    then have z: "m1 x = 0" using m1(6) that(2) False by blast
    show ?thesis by (rule trans [OF rest [OF that(1)] trans [OF if_not_P [OF False] z]])
  qed
  have other: "?m x = mem x" if "\<And>i. i < 3 \<Longrightarrow> \<not> in_section md i x" "\<not> in_load 0xA9800000 x" "\<not> in_load base x" for x
    by (rule trans [OF rest [OF that(1)] trans [OF if_not_P [OF that(3)] m1(5) [OF that(2,3)]]])
  show thesis by (rule that [OF run m1(3) sec zero other s2(2,3)])
qed


section \<open>The header\<close>

lemma validate_section_ok:
  assumes ok: "se_engine_ok P eng" and "section_passes md i" "c + 0x200 + sz_of md i \<le> 0x7FC000"
  shows "\<exists>se'. validate_section eng mem md i (found, of_nat c, se) =
     Ok (Some (found \<or> has_entrypoint md i, of_nat (c + sz_of md i)), se') \<and> se_core se' = se_core se"
proof (cases "section_sizes md ! i = 0")
  case True
  then show ?thesis using assms(2) by (auto simp: validate_section_def section_passes_def has_entrypoint_def Let_def)
next
  case False
  define A where "A = (0xA9800000 + of_nat 0x200 + of_nat c :: u64)"
  have A: "A = 0xA9800000 + of_nat (0x200 + c)" by (simp add: A_def)
  have "unat A = 0xA9800000 + (0x200 + c)" unfolding A using assms(3) by (subst unat_add_small) simp_all
  then have r: "engine_reach A (sz_of md i)" using assms(3) by (simp add: engine_reach_iff)
  have c: "of_nat c + ucast (section_sizes md ! i) = (of_nat (c + sz_of md i) :: u64)" by simp
  obtain se' where "se_calculate_sha256 eng (phys_read mem A (sz_of md i)) (sz_of md i) se
      = Ok (sha256 P (phys_read mem A (sz_of md i)), se')" "se_core se' = se_core se"
    using sha256_ok [OF ok, of "sz_of md i" "phys_read mem A (sz_of md i)" se] by auto
  then show ?thesis
    using assms(2) False r c unfolding validate_section_def section_passes_def has_entrypoint_def Let_def prod.case mem_get_def
      A_def [symmetric] by auto
qed


lemma validate_sections_ok:
  assumes ok: "se_engine_ok P eng" and "\<forall>i \<in> set is. section_passes md i"
    "c + 0x200 + (\<Sum>i \<leftarrow> is. sz_of md i) \<le> 0x7FC000"
  shows "\<exists>se'. validate_sections eng mem md is (found, of_nat c, se) =
     Ok (Some (found \<or> (\<exists>i \<in> set is. has_entrypoint md i)), se') \<and> se_core se' = se_core se"
  using assms(2,3)
proof (induction "is" arbitrary: found c se)
  case Nil
  then show ?case by simp
next
  case (Cons i "is")
  obtain s1 where s1: "validate_section eng mem md i (found, of_nat c, se) =
     Ok (Some (found \<or> has_entrypoint md i, of_nat (c + sz_of md i)), s1)" "se_core s1 = se_core se"
    using validate_section_ok [OF ok, of md i c mem found se] Cons.prems by auto
  obtain s2 where "validate_sections eng mem md is (found \<or> has_entrypoint md i, of_nat (c + sz_of md i), s1) =
     Ok (Some ((found \<or> has_entrypoint md i) \<or> (\<exists>i \<in> set is. has_entrypoint md i)), s2)" "se_core s2 = se_core s1"
    using Cons.IH [of "c + sz_of md i" "found \<or> has_entrypoint md i" s1] Cons.prems by auto
  then show ?case using s1 by (simp del: of_nat_add add: disj_assoc)
qed

lemma validate_complete:
  assumes ok: "se_engine_ok P eng" and md: "metadata_valid md"
  shows "\<exists>se'. validate_package2_metadata eng mem md se = Ok (True, se') \<and> se_core se' = se_core se"
proof -
  have upt: "[0..<3] = [0, 1, 2 :: nat]" by (simp add: upt_rec)
  have "sz_of md 0 + sz_of md 1 + sz_of md 2 + 0x200 \<le> 0x7FC000"
    using valid_sections_ok [OF md] by (simp add: sections_ok_def)
  then have sum: "0 + 0x200 + (\<Sum>i \<leftarrow> [0..<3]. sz_of md i) \<le> 0x7FC000" unfolding upt by simp
  have pass: "\<forall>i \<in> set [0..<3]. section_passes md i" and ent: "\<exists>i \<in> set [0..<3]. has_entrypoint md i"
    using md unfolding metadata_valid_def by auto
  obtain se' where "validate_sections eng mem md [0..<3] (False, 0, se) = Ok (Some True, se')" "se_core se' = se_core se"
    using validate_sections_ok [OF ok pass sum, of mem False se] ent by auto
  then show ?thesis
    using md unfolding metadata_valid_def validate_package2_metadata_def Let_def get_package2_size_def by simp
qed

lemma validate_wrong_magic:
  "pk_magic md \<noteq> MAGIC_PK21 \<Longrightarrow> validate_package2_metadata eng mem md se = Ok (False, se)"
  by (simp add: validate_package2_metadata_def)

text \<open>The metadata as a key generation decrypts it.\<close>

definition header_with :: "se_prims \<Rightarrow> bool \<Rightarrow> mkey_state \<Rightarrow> se_state \<Rightarrow> package2_header \<Rightarrow> nat \<Rightarrow> package2_header" where
  "header_with P b mk se header r =
     (let ctr = pk_ctr (hdr_metadata header) in
      header\<lparr>encrypted_header := blit (xor_bytes (encrypted_header header)
        (ctr_stream P (package2_key P b mk (of_nat r) se) (ctr_words ctr) 16)) 0 ctr\<rparr>)"

lemma header_with_cong: "aes_key s1 0xC = aes_key se 0xC \<Longrightarrow> header_with P b mk s1 = header_with P b mk se"
  by (intro ext) (simp add: header_with_def package2_key_def)

lemma try_key_ok:
  fixes se :: se_state
  assumes ok: "se_engine_ok P eng" and stack: "\<And>n. length (stack n) = n"
    and mk: "mkey_consistent P b mk se" "r \<le> unat (g_mkey_revision mk)" "length (CRYPTO_CTR_REG se) = 4"
    and len: "length (encrypted_header header) = 0x100"
  shows "\<exists>s1. try_header_keys eng stack mem mk header (r # rs) se =
      bindR (validate_package2_metadata eng mem (hdr_metadata (header_with P b mk se header r)) s1) (\<lambda>(valid, s2).
        if valid then Ok (Some (of_nat r, header_with P b mk se header r), s2)
        else try_header_keys eng stack mem mk header rs s2)
     \<and> se_keep se s1 \<and> (\<forall>k. k \<noteq> 8 \<and> k \<noteq> 9 \<longrightarrow> aes_key s1 k = aes_key se k)"
proof -
  let ?ctr = "pk_ctr (hdr_metadata header)" and ?h = "header_with P b mk se header r"
  have "unat (g_mkey_revision mk) < 10" using mk(1) by (simp add: mkey_consistent_def mkey_wf_def word_less_nat_alt)
  then have "unat (of_nat r :: u32) = r" using mk(2) by (intro unat_of_nat_small) simp
  then have r: "of_nat r \<le> g_mkey_revision mk" using mk(2) by (simp add: word_le_nat_alt)
  obtain s1 where s1: "package2_crypt_ctr eng mk (of_nat r) (stack 0x100) 0x100 (encrypted_header header) 0x100 ?ctr 0x10 se =
      Ok (xor_bytes (encrypted_header header) (ctr_stream P (package2_key P b mk (of_nat r) se) (ctr_words ?ctr) 16), s1)"
      "se_keep se s1" "\<forall>k. k \<noteq> 8 \<and> k \<noteq> 9 \<longrightarrow> aes_key s1 k = aes_key se k"
    using package2_crypt_ctr_ok [OF ok mk(1) r len stack [of "0x100"] _ mk(3), of ?ctr] by auto
  have "encrypted_header ?h = blit (xor_bytes (encrypted_header header)
      (ctr_stream P (package2_key P b mk (of_nat r) se) (ctr_words ?ctr) 16)) 0 ?ctr"
    "header\<lparr>encrypted_header := encrypted_header ?h\<rparr> = ?h"
    by (simp_all add: header_with_def Let_def)
  note h = this [symmetric]
  have "try_header_keys eng stack mem mk header (r # rs) se =
      bindR (validate_package2_metadata eng mem (hdr_metadata ?h) s1) (\<lambda>(valid, s2).
        if valid then Ok (Some (of_nat r, ?h), s2) else try_header_keys eng stack mem mk header rs s2)"
    unfolding try_header_keys.simps Let_def s1(1) bindR.simps prod.case h(1) h(2) [symmetric] ..
  then show ?thesis using s1(2,3) by blast
qed

lemma try_header_keys_ok:
  fixes se :: se_state
  assumes ok: "se_engine_ok P eng" and stack: "\<And>n. length (stack n) = n"
    and len: "length (encrypted_header header) = 0x100"
  shows "\<lbrakk>mkey_consistent P b mk se; \<forall>r \<in> set rs. r \<le> unat (g_mkey_revision mk); length (CRYPTO_CTR_REG se) = 4;
      \<forall>r \<in> set rs. pk_magic (hdr_metadata (header_with P b mk se header r)) = MAGIC_PK21 \<longrightarrow>
        metadata_valid (hdr_metadata (header_with P b mk se header r))\<rbrakk> \<Longrightarrow>
    \<exists>se'. try_header_keys eng stack mem mk header rs se =
       Ok (map_option (\<lambda>r. (of_nat r, header_with P b mk se header r))
             (List.find (\<lambda>r. pk_magic (hdr_metadata (header_with P b mk se header r)) = MAGIC_PK21) rs), se')
     \<and> se_keep se se' \<and> (\<forall>k. k \<noteq> 8 \<and> k \<noteq> 9 \<longrightarrow> aes_key se' k = aes_key se k)"
proof (induction rs arbitrary: se)
  case Nil
  then show ?case by simp
next
  case (Cons r rs)
  let ?h = "header_with P b mk se header"
  obtain s1 where s1: "try_header_keys eng stack mem mk header (r # rs) se =
      bindR (validate_package2_metadata eng mem (hdr_metadata (?h r)) s1) (\<lambda>(valid, s2).
        if valid then Ok (Some (of_nat r, ?h r), s2) else try_header_keys eng stack mem mk header rs s2)"
     "se_keep se s1" "\<forall>k. k \<noteq> 8 \<and> k \<noteq> 9 \<longrightarrow> aes_key s1 k = aes_key se k"
    using try_key_ok [OF ok stack, of b mk se r header mem rs] Cons.prems(1-3) len by auto
  show ?case
  proof (cases "pk_magic (hdr_metadata (?h r)) = MAGIC_PK21")
    case True
    then have "metadata_valid (hdr_metadata (?h r))" using Cons.prems(4) by simp
    then obtain s2 where s2: "validate_package2_metadata eng mem (hdr_metadata (?h r)) s1 = Ok (True, s2)" "se_core s2 = se_core s1"
      using validate_complete [OF ok] by blast
    have "se_keep se s2" using s1(2) se_keep_core [OF s2(2)] se_keep_trans by blast
    then show ?thesis using True s1 s2 aes_key_core_eq [OF s2(2)] by simp
  next
    case False
    have k: "aes_key s1 0xC = aes_key se 0xC" using s1(3) by simp
    have eq: "header_with P b mk s1 header = ?h" using header_with_cong [OF k] by metis
    have "mkey_consistent P b mk s1" using Cons.prems(1) k by (simp add: mkey_consistent_def)
    moreover have "length (CRYPTO_CTR_REG s1) = 4" using se_keep_ctr_length [OF s1(2)] Cons.prems(3) by simp
    ultimately obtain s2 where "try_header_keys eng stack mem mk header rs s1 =
       Ok (map_option (\<lambda>r. (of_nat r, ?h r)) (List.find (\<lambda>r. pk_magic (hdr_metadata (?h r)) = MAGIC_PK21) rs), s2)"
       "se_keep s1 s2" "\<forall>k. k \<noteq> 8 \<and> k \<noteq> 9 \<longrightarrow> aes_key s2 k = aes_key s1 k"
      using Cons.IH [of s1] Cons.prems(2,4) unfolding eq by auto
    moreover have "se_keep se s2" using s1(2) calculation(2) se_keep_trans by blast
    ultimately show ?thesis using False s1(1,3) by (simp add: validate_wrong_magic)
  qed
qed

lemma try_header_keys_sound:
  assumes "try_header_keys eng stack mem mk header rs se = Ok (Some (r, header'), se')"
  shows "metadata_valid (hdr_metadata header') \<and> r \<in> of_nat ` set rs"
  using assms
proof (induction rs arbitrary: se)
  case (Cons r' rs)
  from Cons.prems obtain m s1 v s2 where v: "validate_package2_metadata eng mem (package2_meta_of m) s1 = Ok (v, s2)"
      "(if v then Ok (Some (of_nat r', header\<lparr>encrypted_header := m\<rparr>), s2)
        else try_header_keys eng stack mem mk header rs s2) = Ok (Some (r, header'), se')"
    by (auto simp: Let_def elim!: bindR_OkE)
  show ?case
  proof (cases v)
    case True
    then show ?thesis using v validate_sound [of eng mem "package2_meta_of m" s1 s2] by auto
  next
    case False
    then show ?thesis using v Cons.IH [of s2] by auto
  qed
qed simp

lemma header_sound:
  assumes "decrypt_and_validate_header eng stack mem bc mk header se = Ok (r, header', se')"
    "mkey_wf mk"
  shows "metadata_valid (hdr_metadata header') \<and> r \<le> g_mkey_revision mk"
proof (cases "bootconfig_is_package2_plaintext bc")
  case True
  then show ?thesis using assms
    by (auto simp: decrypt_and_validate_header_def elim!: bindR_OkE split: if_splits dest: validate_sound)
next
  case False
  then obtain s where "try_header_keys eng stack mem mk header [0..<Suc (unat (g_mkey_revision mk))] se = Ok (Some (r, header'), s)"
    using assms(1) by (auto simp: decrypt_and_validate_header_def mkey_get_revision_def bindR_panic_if
        elim!: bindR_OkE split: if_splits option.splits)
  note s = try_header_keys_sound [OF this]
  then obtain n where "n \<in> set [0..<Suc (unat (g_mkey_revision mk))]" "r = of_nat n" by blast
  then have "n \<le> unat (g_mkey_revision mk)" "r = of_nat n" by (simp_all only: set_upt atLeastLessThan_iff less_Suc_eq_le)
  moreover from this have "unat (of_nat n :: u32) = n"
    using assms(2) by (intro unat_of_nat_small) (simp add: mkey_wf_def word_less_nat_alt)
  ultimately show ?thesis using s by (simp add: word_le_nat_alt)
qed

end
