(* ===== verification/Package2_Properties.thy ===== *)
theory Package2_Properties
  imports Package2_Load Sample_State
begin

text \<open>
  The properties of the package loader and of the device keys, each with a closed instance: a small package whose
  second section lies where the boot loader has put the package, so that it has to be moved first.
\<close>

section \<open>A small package\<close>

definition sample_meta :: bytes where
  "sample_meta = [0x0C, 2, 0, 0] @ replicate 0x4C 0 @ [0x50, 0x4B, 0x32, 0x31] @ replicate 12 0
     @ [4, 0, 0, 0] @ [8, 0, 0, 0] @ replicate 8 0 @ replicate 4 0 @ [0, 0, 0x80, 0x29] @ replicate 8 0 @ replicate 0x80 0"

definition sample_plain_bootconfig :: bootconfig_state where
  "sample_plain_bootconfig = bootconfig_set_package2_plaintext_and_unsigned sample_bootconfig"

abbreviation sample_md :: package2_meta where "sample_md \<equiv> package2_meta_of sample_meta"

lemma sample_md_fields:
  "pk_magic sample_md = 0x31324B50" "entrypoint sample_md = 0" "version_min sample_md = 0"
  "section_sizes sample_md = [4, 8, 0, 0]" "section_offsets sample_md = [0, 0x29800000, 0, 0]"
  "get_package2_size sample_md = 0x20C" "ctr_dwords sample_md (Suc 0) = 0" "length sample_meta = 0x100"
  by code_simp+

lemma sample_valid: "metadata_valid sample_md"
proof -
  have "section_passes sample_md i" if "i < 3" for i
  proof -
    have "i = 0 \<or> i = 1 \<or> i = 2" using that by auto
    then show ?thesis
      by (elim disjE) (simp_all add: section_passes_def sample_md_fields check_32bit_additive_overflow_def section_overlaps_def overlaps_def upt_rec)
  qed
  moreover have "has_entrypoint sample_md 0" by (simp add: has_entrypoint_def sample_md_fields)
  ultimately show ?thesis by (auto simp: metadata_valid_def sample_md_fields intro!: exI [of _ 0])
qed

lemma sample_plain: "bootconfig_is_package2_plaintext sample_plain_bootconfig"
  by (simp add: sample_plain_bootconfig_def bootconfig_is_package2_plaintext_def bootconfig_set_package2_plaintext_and_unsigned_def
      sample_bootconfig_def)

section \<open>The header\<close>



text \<open>When a header is accepted, its sections are aligned to words, end below 4 GiB without wrap-around, do not overlap, fill
  the announced size, which fits the load buffer, and one of them holds the word-aligned entry point; and the package is
  given a master key generation that the console has.\<close>

theorem package2_header_accepted:
  assumes "decrypt_and_validate_header eng stack mem bc mk header se = Ok (r, header', se')" "mkey_wf mk"
  shows "sections_ok (hdr_metadata header') \<and> r \<le> g_mkey_revision mk"
  using header_sound [OF assms] valid_sections_ok by blast

theorem package2_header_accepted_witness:
  "\<exists>r header' se'. decrypt_and_validate_header sample_engine (\<lambda>n. replicate n 0xCC) (\<lambda>_. 0xFF) sample_plain_bootconfig sample_mkey
       \<lparr>pk_signature = replicate 0x100 0, encrypted_header = sample_meta\<rparr> sample_se = Ok (r, header', se')
     \<and> sections_ok (hdr_metadata header')"
proof -
  obtain se' where "validate_package2_metadata sample_engine (\<lambda>_. 0xFF) sample_md sample_se = Ok (True, se')"
    using validate_complete [OF sample_engine_ok sample_valid] by blast
  then have r: "decrypt_and_validate_header sample_engine (\<lambda>n. replicate n 0xCC) (\<lambda>_. 0xFF) sample_plain_bootconfig sample_mkey
       \<lparr>pk_signature = replicate 0x100 0, encrypted_header = sample_meta\<rparr> sample_se
     = Ok (0, \<lparr>pk_signature = replicate 0x100 0, encrypted_header = sample_meta\<rparr>, se')"
    by (simp add: decrypt_and_validate_header_def sample_plain)
  have "mkey_wf sample_mkey" using sample_mkey_consistent by (simp add: mkey_consistent_def)
  from package2_header_accepted [OF r this] r show ?thesis by blast
qed

text \<open>The header of an encrypted package is decrypted with the first generation of the master key under which the magic
  number appears, and the boot panics with 0xFAF00003 when there is none.\<close>

theorem package2_header_key:
  fixes se :: se_state
  assumes "se_engine_ok P eng" "\<forall>n. length (stack n) = n" "length (encrypted_header header) = 0x100"
    and "mkey_consistent P b mk se" "length (CRYPTO_CTR_REG se) = 4" "\<not> bootconfig_is_package2_plaintext bc"
    and "\<forall>r \<le> unat (g_mkey_revision mk). pk_magic (hdr_metadata (header_with P b mk se header r)) = MAGIC_PK21 \<longrightarrow>
          metadata_valid (hdr_metadata (header_with P b mk se header r))"
  shows "case List.find (\<lambda>r. pk_magic (hdr_metadata (header_with P b mk se header r)) = MAGIC_PK21) [0..<Suc (unat (g_mkey_revision mk))] of
      None \<Rightarrow> decrypt_and_validate_header eng stack mem bc mk header se = Panic 0xFAF00003
    | Some r \<Rightarrow> \<exists>se'. decrypt_and_validate_header eng stack mem bc mk header se = Ok (of_nat r, header_with P b mk se header r, se')
        \<and> (\<forall>k. k \<noteq> 8 \<and> k \<noteq> 9 \<longrightarrow> aes_key se' k = aes_key se k)"
proof -
  have det: "mkey_get_revision mk = Ok (g_mkey_revision mk)"
    using assms(4) by (simp add: mkey_get_revision_def mkey_consistent_def)
  have le: "\<forall>r \<in> set [0..<Suc (unat (g_mkey_revision mk))]. r \<le> unat (g_mkey_revision mk)" by auto
  have v: "\<forall>r \<in> set [0..<Suc (unat (g_mkey_revision mk))]. pk_magic (hdr_metadata (header_with P b mk se header r)) = MAGIC_PK21 \<longrightarrow>
      metadata_valid (hdr_metadata (header_with P b mk se header r))"
    using assms(7) le by blast
  obtain s1 where s1: "try_header_keys eng stack mem mk header [0..<Suc (unat (g_mkey_revision mk))] se =
       Ok (map_option (\<lambda>r. (of_nat r, header_with P b mk se header r))
             (List.find (\<lambda>r. pk_magic (hdr_metadata (header_with P b mk se header r)) = MAGIC_PK21) [0..<Suc (unat (g_mkey_revision mk))]), s1)"
     "\<forall>k. k \<noteq> 8 \<and> k \<noteq> 9 \<longrightarrow> aes_key s1 k = aes_key se k"
    using try_header_keys_ok [OF assms(1) _ assms(3,4) le assms(5) v, of stack mem] assms(2) by auto
  show ?thesis using s1 assms(6) unfolding decrypt_and_validate_header_def det bindR.simps
    by (simp split: option.splits del: upt_Suc)
qed

definition sample_package_key :: bytes where
  "sample_package_key = xor_bytes package2_key_source sample_master_key"

definition sample_encrypted :: bytes where
  "sample_encrypted = blit (xor_bytes sample_meta
     (ctr_stream sample_prims sample_package_key (ctr_words (take 16 sample_meta)) 16)) 0 (take 16 sample_meta)"

lemma sample_package_keys:
  "package2_key sample_prims True sample_mkey 1 sample_se = sample_package_key"
  "package2_key sample_prims True sample_mkey 0 sample_se = xor_bytes package2_key_source (mkey_vectors ! 0)"
proof -
  have K: "aes_key sample_se 0xC = sample_master_key" "unat (g_mkey_revision sample_mkey) = 1"
    by (simp_all add: sample_aes_key sample_mkey_def)
  show "package2_key sample_prims True sample_mkey 1 sample_se = sample_package_key"
    unfolding package2_key_def K by code_simp
  show "package2_key sample_prims True sample_mkey 0 sample_se = xor_bytes package2_key_source (mkey_vectors ! 0)"
    unfolding package2_key_def K by code_simp
qed

lemma sample_decrypted:
  fixes header :: package2_header
  defines "header \<equiv> \<lparr>pk_signature = replicate 0x100 0, encrypted_header = sample_encrypted\<rparr>"
  shows "encrypted_header (header_with sample_prims True sample_mkey sample_se header 1) = sample_meta"
    "pk_magic (hdr_metadata (header_with sample_prims True sample_mkey sample_se header 0)) \<noteq> MAGIC_PK21"
    "length (encrypted_header header) = 0x100"
proof -
  show "encrypted_header (header_with sample_prims True sample_mkey sample_se header 1) = sample_meta"
    unfolding header_with_def Let_def header_def package2_header.simps of_nat_1 sample_package_keys package2_meta_of_def package2_meta.simps
    by code_simp
  show "pk_magic (hdr_metadata (header_with sample_prims True sample_mkey sample_se header 0)) \<noteq> MAGIC_PK21"
    unfolding header_with_def Let_def header_def package2_header.simps of_nat_0 sample_package_keys package2_meta_of_def package2_meta.simps
    by code_simp
  show "length (encrypted_header header) = 0x100"
    unfolding header_def package2_header.simps by code_simp
qed

theorem package2_header_key_witness:
  "\<exists>se'. decrypt_and_validate_header sample_engine (\<lambda>n. replicate n 0xCC) (\<lambda>_. 0xFF) sample_bootconfig sample_mkey
       \<lparr>pk_signature = replicate 0x100 0, encrypted_header = sample_encrypted\<rparr> sample_se
     = Ok (1, \<lparr>pk_signature = replicate 0x100 0, encrypted_header = sample_meta\<rparr>, se')"
proof -
  let ?h = "\<lparr>pk_signature = replicate 0x100 0, encrypted_header = sample_encrypted\<rparr>"
  let ?w = "header_with sample_prims True sample_mkey sample_se ?h"
  have rev: "unat (g_mkey_revision sample_mkey) = 1" by (simp add: sample_mkey_def)
  have enc: "\<not> bootconfig_is_package2_plaintext sample_bootconfig"
    by (simp add: bootconfig_is_package2_plaintext_def sample_bootconfig_def)
  have w1: "?w 1 = \<lparr>pk_signature = replicate 0x100 0, encrypted_header = sample_meta\<rparr>"
    using sample_decrypted(1) by (simp add: header_with_def Let_def)
  have v: "\<forall>r \<le> unat (g_mkey_revision sample_mkey). pk_magic (hdr_metadata (?w r)) = MAGIC_PK21 \<longrightarrow> metadata_valid (hdr_metadata (?w r))"
  proof (intro allI impI)
    fix r assume "r \<le> unat (g_mkey_revision sample_mkey)" "pk_magic (hdr_metadata (?w r)) = MAGIC_PK21"
    then have "r = 1" using rev sample_decrypted(2) by (cases r) auto
    then show "metadata_valid (hdr_metadata (?w r))" using sample_valid by (simp only: w1 package2_header.simps)
  qed
  have "List.find (\<lambda>r. pk_magic (hdr_metadata (?w r)) = MAGIC_PK21) [0..<Suc (unat (g_mkey_revision sample_mkey))] = Some 1"
    using sample_decrypted(2) sample_md_fields(1) unfolding rev by (simp add: w1 [unfolded One_nat_def])
  with package2_header_key [OF sample_engine_ok _ sample_decrypted(3) sample_mkey_consistent sample_se_ctr enc v,
      of "\<lambda>n. replicate n 0xCC" "\<lambda>_. 0xFF"] show ?thesis
    by (simp add: w1 [unfolded One_nat_def]) blast
qed

section \<open>The sections\<close>

text \<open>C38. For validated metadata the search for a place to move the package to ends at one of the first seven windows of DRAM, as
  the source says it must, and the package is copied from there on a buffer that no section overwrites.\<close>

theorem package2_carveout_always_found:
  assumes "metadata_valid md"
  shows "\<exists>k < 7. find_safe_carveout md 8 DRAM_BASE_PHYSICAL = Some (window k) \<and> \<not> hits_section md (window k)
      \<and> (\<exists>base mem'. relocate_package2 md mem = Ok (base, mem') \<and> base \<in> {0xA9800000, window k} \<and> \<not> hits_section md base
           \<and> phys_read mem' base PACKAGE2_SIZE_MAX = phys_read mem 0xA9800000 PACKAGE2_SIZE_MAX)"
proof -
  note md = valid_sections_ok [OF assms]
  obtain k where k: "k < 7" "find_safe_carveout md 8 0x80000000 = Some (window k)" "\<not> hits_section md (window k)"
    using carveout_found [OF md] by blast
  obtain base mem' where r: "relocate_package2 md mem = Ok (base, mem')" "\<not> hits_section md base"
      "\<And>c n. c + n \<le> 0x7FC000 \<Longrightarrow> phys_read mem' (base + of_nat c) n = phys_read mem (0xA9800000 + of_nat c) n"
    using relocate_ok [OF md, of mem thesis] by blast
  have "base \<in> {0xA9800000, window k}"
    using r(1) k(2) by (auto simp: relocate_package2_def elim!: bindR_OkE split: if_splits)
  moreover have "phys_read mem' base 0x7FC000 = phys_read mem 0xA9800000 0x7FC000" using r(3) [of 0 "0x7FC000"] by simp
  ultimately show ?thesis using k r(1,2) by blast
qed

theorem package2_carveout_always_found_witness:
  "\<exists>k < 7. find_safe_carveout sample_md 8 0x80000000 = Some (window k) \<and> \<not> hits_section sample_md (window k)"
  using package2_carveout_always_found [OF sample_valid] by blast

text \<open>C39. Loading the sections of a validated package puts every section, decrypted with the key of its generation under the section's
  own counter (or as it is, for a plain package), at its place in DRAM. What the package occupied is erased where no section lies, wherever it
  was copied from; the rest of memory and all keys but two scratch slots are unchanged.\<close>

theorem package2_loaded:
  fixes se :: se_state and mem :: phys_mem
  assumes "se_engine_ok P eng" "metadata_valid md"
    and "mkey_consistent P b mk se" "r \<le> g_mkey_revision mk" "length (CRYPTO_CTR_REG se) = 4"
    and "bootconfig_is_package2_plaintext bc \<or> (\<forall>i < 3. ofs_of md i + sz_of md i \<le> 0x80000000)"
  shows "\<exists>base mem' se'. load_package2_sections eng bc mk md r (mem, se) = Ok (mem', se')
     \<and> base \<in> insert 0xA9800000 (window ` {..<7})
     \<and> (\<forall>i < 3. phys_read mem' (section_start md i) (sz_of md i) =
          section_contents P (bootconfig_is_package2_plaintext bc) (package2_key P b mk r se) md mem i)
     \<and> (\<forall>x. (\<forall>i < 3. \<not> in_section md i x) \<longrightarrow>
          mem' x = (if in_load 0xA9800000 x \<or> in_load base x then 0 else mem x))
     \<and> (\<forall>k. k \<noteq> 8 \<and> k \<noteq> 9 \<longrightarrow> aes_key se' k = aes_key se k)"
proof -
  note md = valid_sections_ok [OF assms(2)]
  let ?data = "section_contents P (bootconfig_is_package2_plaintext bc) (package2_key P b mk r se) md mem"
  obtain base mem' se' where l: "load_package2_sections eng bc mk md r (mem, se) = Ok (mem', se')"
    "base \<in> insert 0xA9800000 (window ` {..<7})"
    "\<And>i x. i < 3 \<Longrightarrow> in_section md i x \<Longrightarrow> mem' x = ?data i ! unat (x - section_start md i)"
    "\<And>x. (\<And>i. i < 3 \<Longrightarrow> \<not> in_section md i x) \<Longrightarrow> in_load 0xA9800000 x \<or> in_load base x \<Longrightarrow> mem' x = 0"
    "\<And>x. (\<And>i. i < 3 \<Longrightarrow> \<not> in_section md i x) \<Longrightarrow> \<not> in_load 0xA9800000 x \<Longrightarrow> \<not> in_load base x \<Longrightarrow> mem' x = mem x"
    "se_keep se se'" "\<And>k. k \<noteq> 8 \<Longrightarrow> k \<noteq> 9 \<Longrightarrow> aes_key se' k = aes_key se k"
    by (rule load_sections_ok [OF assms(1) md assms(3-6), of mem]) (rule that, (assumption | (elim meta_allE, assumption) | blast)+)
  have "phys_read mem' (section_start md i) (sz_of md i) = ?data i" if i: "i < 3" for i
  proof (rule nth_equalityI)
    have lt: "ofs_of md i + sz_of md i < 2 ^ 32" using md i by (simp add: sections_ok_def)
    fix n assume "n < length (phys_read mem' (section_start md i) (sz_of md i))"
    then have n: "n < sz_of md i" by simp
    let ?x = "section_start md i + of_nat n"
    have "unat ?x = 0x80000000 + ofs_of md i + n"
      using section_unat(1) [OF md i] lt n by (subst unat_add_small) simp_all
    then have "in_section md i ?x" using n by (simp add: in_section_def)
    moreover have "unat (of_nat n :: u64) = n" using n lt by (intro unat_of_nat_small) simp
    ultimately show "phys_read mem' (section_start md i) (sz_of md i) ! n = ?data i ! n"
      using l(3) [OF i, of ?x] n by (simp add: phys_read_def)
  qed (simp add: length_section_contents [OF assms(1)])
  moreover have "mem' x = (if in_load 0xA9800000 x \<or> in_load base x then 0 else mem x)" if "\<forall>i < 3. \<not> in_section md i x" for x
  proof (cases "in_load 0xA9800000 x \<or> in_load base x")
    case True
    show ?thesis by (rule trans [OF l(4) [OF _ True] if_P [OF True, symmetric]]) (use that in blast)
  next
    case False
    show ?thesis by (rule trans [OF l(5) if_not_P [OF False, symmetric]]) (use that False in blast)+
  qed
  ultimately show ?thesis using l(1,2,7) by blast
qed

theorem package2_loaded_witness:
  "\<exists>mem' se'. load_package2_sections sample_engine sample_plain_bootconfig sample_mkey sample_md 0 (\<lambda>x. ucast x, sample_se) = Ok (mem', se')
     \<and> phys_read mem' 0xA9800000 8 = [4, 5, 6, 7, 8, 9, 10, 11]"
proof -
  have "phys_read (\<lambda>x. ucast x) (0xA9800000 + of_nat (0x200 + (\<Sum>j < 1. sz_of sample_md j))) 8 = [4, 5, 6, 7, 8, 9, 10, 11 :: u8]"
    by (simp add: sample_md_fields phys_read_def upt_rec)
  then have "section_contents sample_prims True key sample_md (\<lambda>x. ucast x) 1 = [4, 5, 6, 7, 8, 9, 10, 11]" for key
    by (simp add: section_contents_def section_source_def sample_md_fields)
  moreover have "section_start sample_md 1 = 0xA9800000" "sz_of sample_md 1 = 8" by (simp_all add: section_start_def sample_md_fields)
  moreover have "\<exists>base mem' se'. load_package2_sections sample_engine sample_plain_bootconfig sample_mkey sample_md 0 (\<lambda>x. ucast x, sample_se) = Ok (mem', se')
     \<and> (\<forall>i < 3. phys_read mem' (section_start sample_md i) (sz_of sample_md i) =
          section_contents sample_prims True (package2_key sample_prims True sample_mkey 0 sample_se) sample_md (\<lambda>x. ucast x) i)"
    using package2_loaded [OF sample_engine_ok sample_valid sample_mkey_consistent word_zero_le sample_se_ctr disjI1 [OF sample_plain],
        of "\<lambda>x. ucast x"] sample_plain by (simp only: simp_thms) blast
  ultimately show ?thesis by (metis one_less_numeral_iff semiring_norm(77))
qed

section \<open>Device keys\<close>








end
