(* ===== verification/Bootup.thy ===== *)
theory Bootup
  imports SC7 Interrupts Package2
begin

text \<open>
  \<^verbatim>\<open>bootup.c\<close>, \<^verbatim>\<open>actmon.c\<close>: what the monitor sets up at every boot, cold or warm: the engine and its key slots, the
  registers that confine the other masters of the system, the reset vector, interrupts, the activity monitor, and the system
  registers of a core.

  The state is that of the monitor together with the interrupt controller, its table of handlers, and the globals of the
  two files. Registers of the memory controller outside the carveouts, like those of all other devices, are accesses in the
  history of \<open>s_io\<close>.
\<close>

section \<open>State\<close>

text \<open>The functions that are registered as interrupt handlers and as the callback of the activity monitor.\<close>

datatype intr_fn = Se_operation_completed | Actmon_interrupt_handler
datatype actmon_fn = Actmon_on_bpmp_wakeup

record boot_state =
  b_sec :: secmon
  b_gic :: gic_state
  g_registered_interrupts :: "intr_fn intr_table"
  g_actmon_callback :: "actmon_fn option"
  g_has_booted_up :: bool

abbreviation boot_fw :: "boot_state \<Rightarrow> u32 res" where "boot_fw b \<equiv> mon_fw (b_sec b)"

definition on_sec :: "(secmon \<Rightarrow> secmon res) \<Rightarrow> boot_state \<Rightarrow> boot_state res" where
  "on_sec f b = bindR (f (b_sec b)) (\<lambda>s. Ok (b\<lparr>b_sec := s\<rparr>))"

definition upd_gic :: "(gic_state \<Rightarrow> gic_state) \<Rightarrow> boot_state \<Rightarrow> boot_state" where
  "upd_gic f b = b\<lparr>b_gic := f (b_gic b)\<rparr>"

definition with_mon :: "(monitor \<Rightarrow> monitor res) \<Rightarrow> secmon \<Rightarrow> secmon res" where
  "with_mon f s = bindR (f (s_mon s)) (\<lambda>m. Ok (s\<lparr>s_mon := m\<rparr>))"

text \<open>Reading a system register of the current core: the value written last, or what it had before.\<close>

definition mrs :: "senv \<Rightarrow> sysreg \<Rightarrow> cpu_state \<Rightarrow> u64" where
  "mrs e r cpu = (case List.find (\<lambda>(core, r', _). core = e_core e \<and> r' = r) (msr_log cpu) of
     None \<Rightarrow> e_regs e r | Some (_, _, v) \<Rightarrow> v)"

definition mon_hardware_type :: "env \<Rightarrow> monitor \<Rightarrow> u64 res" where
  "mon_hardware_type e m =
     configitem_get_hardware_type (m_cfg m) (env_version_hash e) (mkey_get_revision (m_mkey m)) (env_fuse_hw e) (m_bootconfig m) (m_configitem m) (m_fuse m)"

section \<open>Registers\<close>

abbreviation (input) MMIO_DEVID_SYSREGS :: nat where "MMIO_DEVID_SYSREGS \<equiv> 6"
abbreviation (input) MMIO_DEVID_SYSCTR0 :: nat where "MMIO_DEVID_SYSCTR0 \<equiv> 8"

definition MAKE_MC_REG :: "u64 \<Rightarrow> u64" where "MAKE_MC_REG n = MMIO_GET_DEVICE_ADDRESS MMIO_DEVID_MC + n"
definition MAKE_MISC_REG :: "u64 \<Rightarrow> u64" where "MAKE_MISC_REG n = MMIO_GET_DEVICE_ADDRESS MMIO_DEVID_MISC + n"
definition SYSREG_BASE :: u64 where "SYSREG_BASE = MMIO_GET_DEVICE_ADDRESS MMIO_DEVID_SYSREGS"
definition MAKE_SB_REG :: "u64 \<Rightarrow> u64" where "MAKE_SB_REG n = SYSREG_BASE + 0x200 + n"
definition MAKE_ACTMON_REG :: "u64 \<Rightarrow> u64" where "MAKE_ACTMON_REG n = SYSREG_BASE + 0x800 + n"
definition MAKE_SYSCTR0_REG :: "u64 \<Rightarrow> u64" where "MAKE_SYSCTR0_REG n = MMIO_GET_DEVICE_ADDRESS MMIO_DEVID_SYSCTR0 + n"

abbreviation (input) SHARED_TIMER_SECURE_CFG_0 :: u64 where "SHARED_TIMER_SECURE_CFG_0 \<equiv> MMIO_GET_DEVICE_ADDRESS MMIO_DEVID_TMRs_WDTs + 0x1A4"
abbreviation (input) MC_SMMU_CONFIG :: u64 where "MC_SMMU_CONFIG \<equiv> 0x10"
abbreviation (input) MC_SMMU_TLB_CONFIG :: u64 where "MC_SMMU_TLB_CONFIG \<equiv> 0x14"
abbreviation (input) MC_SMMU_PTB_ASID :: u64 where "MC_SMMU_PTB_ASID \<equiv> 0x1C"
abbreviation (input) MC_SMMU_PTB_DATA :: u64 where "MC_SMMU_PTB_DATA \<equiv> 0x20"
abbreviation (input) MC_SMMU_TLB_FLUSH :: u64 where "MC_SMMU_TLB_FLUSH \<equiv> 0x30"
abbreviation (input) MC_SMMU_PTC_FLUSH :: u64 where "MC_SMMU_PTC_FLUSH \<equiv> 0x34"
abbreviation (input) MC_SECURITY_CFG3 :: u64 where "MC_SECURITY_CFG3 \<equiv> 0x9BC"
abbreviation (input) SB_CSR_0 :: u64 where "SB_CSR_0 \<equiv> 0x00"
abbreviation (input) SB_AA64_RESET_LOW_0 :: u64 where "SB_AA64_RESET_LOW_0 \<equiv> 0x30"
abbreviation (input) SB_AA64_RESET_HIGH_0 :: u64 where "SB_AA64_RESET_HIGH_0 \<equiv> 0x34"

text \<open>Writes in the order of the list; a read whose value is thrown away.\<close>

definition io_writes :: "(u64 \<Rightarrow> u64) \<Rightarrow> (u64 \<times> u32) list \<Rightarrow> io \<Rightarrow> io" where
  "io_writes reg = fold (\<lambda>(ofs, v). io_write (reg ofs) v)"

definition io_touch :: "device \<Rightarrow> u64 \<Rightarrow> io \<Rightarrow> io" where
  "io_touch dev a tr = snd (io_read dev a tr)"

text \<open>\<^verbatim>\<open>while (busy(reg)) wait(us)\<close>; \<open>None\<close> when it does not end.\<close>

partial_function (option) poll_wait_opt :: "device \<Rightarrow> u64 \<Rightarrow> (u32 \<Rightarrow> bool) \<Rightarrow> u32 \<Rightarrow> io \<Rightarrow> io option" where
  "poll_wait_opt dev a busy us tr =
     (case io_read dev a tr of (v, tr) \<Rightarrow>
      if busy v then (case wait dev us tr of Ok tr \<Rightarrow> poll_wait_opt dev a busy us tr | _ \<Rightarrow> None)
      else Some tr)"

definition poll_wait :: "device \<Rightarrow> u64 \<Rightarrow> (u32 \<Rightarrow> bool) \<Rightarrow> u32 \<Rightarrow> io \<Rightarrow> io res" where
  "poll_wait dev a busy us tr = (case poll_wait_opt dev a busy us tr of None \<Rightarrow> Hang | Some tr \<Rightarrow> Ok tr)"

section \<open>Activity monitor\<close>

definition actmon_set_callback :: "actmon_fn option \<Rightarrow> boot_state \<Rightarrow> boot_state" where
  "actmon_set_callback callback b = b\<lparr>g_actmon_callback := callback\<rparr>"

definition actmon_on_bpmp_wakeup :: "boot_state \<Rightarrow> boot_state res" where
  "actmon_on_bpmp_wakeup b = Panic 0xF0A00036"

fun run_actmon_callback :: "actmon_fn \<Rightarrow> boot_state \<Rightarrow> boot_state res" where
  "run_actmon_callback Actmon_on_bpmp_wakeup b = actmon_on_bpmp_wakeup b"

definition actmon_interrupt_handler :: "senv \<Rightarrow> boot_state \<Rightarrow> boot_state res" where
  "actmon_interrupt_handler e b =
     (let b = b\<lparr>b_sec := upd_io (\<lambda>tr.
            let tr = io_write (MAKE_ACTMON_REG 0x0C0) 0 tr
            in io_modify (e_dev e) (MAKE_ACTMON_REG 0x0E4) (\<lambda>v. v) tr) (b_sec b)\<rparr>
      in case g_actmon_callback b of
           None \<Rightarrow> Ok b
         | Some callback \<Rightarrow> bindR (run_actmon_callback callback b) (\<lambda>b. Ok (b\<lparr>g_actmon_callback := None\<rparr>)))"

text \<open>The handlers of the table, and the exception handler that runs them.\<close>

fun run_intr_handler :: "senv \<Rightarrow> intr_fn \<Rightarrow> boot_state \<Rightarrow> boot_state res" where
  "run_intr_handler e Se_operation_completed b = on_sec (with_mon se_operation_completed) b"
| "run_intr_handler e Actmon_interrupt_handler b = actmon_interrupt_handler e b"

definition handle_interrupt :: "senv \<Rightarrow> u32 \<Rightarrow> boot_state \<Rightarrow> boot_state res" where
  "handle_interrupt e iar b =
     bindR (handle_registered_interrupt (run_intr_handler e) iar (g_registered_interrupts b) b (b_gic b)) (\<lambda>(b, g). Ok (b\<lparr>b_gic := g\<rparr>))"

section \<open>Steps of every boot\<close>

definition setup_dram_magic_numbers :: "secmon \<Rightarrow> secmon res" where
  "setup_dram_magic_numbers s =
     bindR (mon_fw s) (\<lambda>target_fw.
     let u = m_upage (s_mon s);
         mem = phys_write 0x8005FFFC (le_bytes 4 (0xC0EDBBCC :: u32)) (dram u);
         mem = (if FW_600 \<le> target_fw
                then phys_write 0x8005FF08 (le_bytes 4 (0x210 :: u32))
                       (phys_write 0x8005FF04 (le_bytes 4 (2 :: u32)) (phys_write 0x8005FF00 (le_bytes 4 (0x83 :: u32)) mem))
                else mem)
     in Ok (s\<lparr>s_mon := (s_mon s)\<lparr>m_upage := u\<lparr>dram := mem\<rparr>\<rparr>\<rparr>))"

text \<open>The engine: its self checks, the slots that are cleared, and the random keys of this boot.\<close>

definition bootup_se :: "env \<Rightarrow> monitor \<Rightarrow> monitor res" where
  "bootup_se e m =
     bindR (fuse_init (env_fuse_hw e) (m_fuse m)) (\<lambda>f.
     let se = se_set_in_context_save_mode False (m_se m) in
     bindR (se_validate_stored_vector se) (\<lambda>_.
     bindR (foldR (\<lambda>i. clear_aes_keyslot (of_nat i)) [0..<unat KEYSLOT_SWITCH_SESSIONKEY] se) (\<lambda>se.
     bindR (foldR (\<lambda>i. clear_rsa_keyslot (of_nat i)) [0..<unat KEYSLOT_RSA_MAX] se) (\<lambda>se.
     bindR (se_initialize_rng (env_eng e) KEYSLOT_SWITCH_RNGKEY se) (\<lambda>se.
     bindR (se_generate_random_key (env_eng e) KEYSLOT_SWITCH_SRKGENKEY KEYSLOT_SWITCH_RNGKEY se) (\<lambda>se.
     bindR (se_generate_srk (env_eng e) KEYSLOT_SWITCH_SRKGENKEY se) (\<lambda>se.
     Ok (m\<lparr>m_fuse := f, m_se := se\<rparr>))))))))"

definition carveout_writes :: "(u64 \<times> u32) list" where
  "carveout_writes =
     [(0x984, 1), (0x988, 0), (0x648, 0), (0x64C, 0), (0x650, 1), (0x670, 0), (0x674, 0), (0x678, 1),
      (0x9A0, 0), (0x9A4, 0), (0x9A8, 0), (0x9AC, 1), (0x70, 0), (0x74, 0), (MC_SECURITY_CFG3, 3)]"

text \<open>Which devices only the secure world may access: bits of three registers.\<close>

abbreviation (input) APB_SSER0_SATA_AUX :: nat where "APB_SSER0_SATA_AUX \<equiv> 2"
abbreviation (input) APB_SSER0_DTV :: nat where "APB_SSER0_DTV \<equiv> 6"
abbreviation (input) APB_SSER0_QSPI :: nat where "APB_SSER0_QSPI \<equiv> 9"
abbreviation (input) APB_SSER0_PMC :: nat where "APB_SSER0_PMC \<equiv> 13"
abbreviation (input) APB_SSER0_SE :: nat where "APB_SSER0_SE \<equiv> 14"
abbreviation (input) APB_SSER0_SATA :: nat where "APB_SSER0_SATA \<equiv> 20"
abbreviation (input) APB_SSER0_LA :: nat where "APB_SSER0_LA \<equiv> 22"
abbreviation (input) APB_SSER1_MC0 :: nat where "APB_SSER1_MC0 \<equiv> 4"
abbreviation (input) APB_SSER1_MC1 :: nat where "APB_SSER1_MC1 \<equiv> 8"
abbreviation (input) APB_SSER1_MCB :: nat where "APB_SSER1_MCB \<equiv> 10"
abbreviation (input) APB_SSER1_UART_B :: nat where "APB_SSER1_UART_B \<equiv> 13"
abbreviation (input) APB_SSER1_UART_C :: nat where "APB_SSER1_UART_C \<equiv> 14"
abbreviation (input) APB_SSER1_SPI1 :: nat where "APB_SSER1_SPI1 \<equiv> 20"
abbreviation (input) APB_SSER1_SPI2 :: nat where "APB_SSER1_SPI2 \<equiv> 21"
abbreviation (input) APB_SSER1_SPI3 :: nat where "APB_SSER1_SPI3 \<equiv> 22"
abbreviation (input) APB_SSER1_SPI4 :: nat where "APB_SSER1_SPI4 \<equiv> 23"
abbreviation (input) APB_SSER1_SPI5 :: nat where "APB_SSER1_SPI5 \<equiv> 24"
abbreviation (input) APB_SSER1_SPI6 :: nat where "APB_SSER1_SPI6 \<equiv> 25"
abbreviation (input) APB_SSER1_I2C3 :: nat where "APB_SSER1_I2C3 \<equiv> 28"
abbreviation (input) APB_SSER1_I2C4 :: nat where "APB_SSER1_I2C4 \<equiv> 29"
abbreviation (input) APB_SSER1_I2C6 :: nat where "APB_SSER1_I2C6 \<equiv> 31"
abbreviation (input) APB_SSER2_SDMMC1 :: nat where "APB_SSER2_SDMMC1 \<equiv> 0"
abbreviation (input) APB_SSER2_SDMMC3 :: nat where "APB_SSER2_SDMMC3 \<equiv> 2"
abbreviation (input) APB_SSER2_DDS :: nat where "APB_SSER2_DDS \<equiv> 8"
abbreviation (input) APB_SSER2_DP2 :: nat where "APB_SSER2_DP2 \<equiv> 9"

definition APB_SSER :: "nat list \<Rightarrow> u32" where
  "APB_SSER devices = foldr (\<lambda>i w. push_bit i 1 OR w) devices 0"

definition apb_slave_security :: "u32 \<Rightarrow> u64 res \<Rightarrow> (u32 \<times> u32 \<times> u32) res" where
  "apb_slave_security fw hardware_type =
     (if fw = FW_100
      then Ok (APB_SSER [APB_SSER0_SATA_AUX, APB_SSER0_DTV, APB_SSER0_QSPI, APB_SSER0_SATA, APB_SSER0_LA],
               APB_SSER [APB_SSER1_SPI1, APB_SSER1_SPI2, APB_SSER1_SPI3, APB_SSER1_SPI5, APB_SSER1_SPI6, APB_SSER1_I2C4, APB_SSER1_I2C6],
               APB_SSER [4, 5, APB_SSER2_DDS])
      else
        let reg0 = APB_SSER [APB_SSER0_SATA_AUX, APB_SSER0_DTV, APB_SSER0_QSPI, APB_SSER0_SE, APB_SSER0_SATA, APB_SSER0_LA];
            sec_disable_1 = APB_SSER [APB_SSER1_SPI1, APB_SSER1_SPI2, APB_SSER1_SPI3, APB_SSER1_SPI5, APB_SSER1_SPI6, APB_SSER1_I2C6];
            sec_disable_2 = APB_SSER [APB_SSER2_SDMMC3, APB_SSER2_DDS, APB_SSER2_DP2]
        in bindR hardware_type (\<lambda>hardware_type.
           let sec_disable_1 = (if hardware_type \<noteq> 1 then sec_disable_1 OR APB_SSER [APB_SSER1_I2C4] else sec_disable_1);
               (sec_disable_1, sec_disable_2) =
                 (if hardware_type \<noteq> 0 \<and> fw \<ge> FW_400
                  then (sec_disable_1 OR APB_SSER [APB_SSER1_UART_B, APB_SSER1_UART_C, APB_SSER1_SPI4, APB_SSER1_I2C3],
                        sec_disable_2 OR APB_SSER [APB_SSER2_SDMMC1])
                  else (sec_disable_1, sec_disable_2))
           in Ok (reg0, sec_disable_1, sec_disable_2)))"

text \<open>The SMMU: translation on for every client, address space identifiers, flushes, and the enable bit last.\<close>

definition smmu_setup :: "device \<Rightarrow> u32 \<Rightarrow> io \<Rightarrow> io" where
  "smmu_setup dev fw tr =
     (let tr = io_writes MAKE_MC_REG [(0x228, 0xFFFFFFFF), (0x22C, 0xFFFFFFFF), (0x230, 0xFFFFFFFF), (0x234, 0xFFFFFFFF), (0xB98, 0xFFFFFFFF)] tr;
          tr = io_write (MAKE_MC_REG 0x38) (if fw \<ge> FW_400 then 0xE else 0) tr;
          tr = io_writes MAKE_MC_REG [(0x3C, 0), (0x9E0, 0), (0x9E4, 0), (0x9E8, 0), (0x9EC, 0), (0x9F0, 0), (0x9F4, 0)] tr;
          tr = (if fw \<ge> FW_400 then io_write (MAKE_MC_REG MC_SMMU_PTB_ASID) 0 tr else tr);
          tr = io_writes MAKE_MC_REG [(MC_SMMU_PTB_DATA, 0), (MC_SMMU_TLB_CONFIG, 0x30000030), (0x18, 0x2800003F)] tr;
          tr = io_touch dev (MAKE_MC_REG MC_SMMU_TLB_CONFIG) tr;
          tr = io_write (MAKE_MC_REG MC_SMMU_PTC_FLUSH) 0 tr;
          tr = io_touch dev (MAKE_MC_REG MC_SMMU_TLB_CONFIG) tr;
          tr = io_write (MAKE_MC_REG MC_SMMU_TLB_FLUSH) 0 tr;
          tr = io_touch dev (MAKE_MC_REG MC_SMMU_TLB_CONFIG) tr;
          tr = io_write (MAKE_MC_REG MC_SMMU_CONFIG) 1 tr
      in io_touch dev (MAKE_MC_REG MC_SMMU_TLB_CONFIG) tr)"

definition boot_reset_vector :: "u32 \<Rightarrow> u32" where
  "boot_reset_vector fw = ucast (if fw \<ge> FW_500 then TZRAM_GET_SEGMENT_5X_PA 0 else TZRAM_GET_SEGMENT_PA 0)"

definition reset_vector_setup :: "u32 \<Rightarrow> io \<Rightarrow> io" where
  "reset_vector_setup fw tr =
     (let reset_vec = boot_reset_vector fw;
          tr = io_write (BPMP_VECTOR_BASE + 0x100) 0 tr;
          tr = io_writes MAKE_SB_REG [(SB_AA64_RESET_LOW_0, reset_vec OR 1), (SB_AA64_RESET_HIGH_0, 0), (SB_CSR_0, 2)] tr
      in io_writes (\<lambda>ofs. PMC_BASE + ofs) [(0x368, reset_vec), (0x36C, 0), (0x2D8, 0x500000)] tr)"

abbreviation (input) INTERRUPT_ID_SECURITY_ENGINE :: nat where "INTERRUPT_ID_SECURITY_ENGINE \<equiv> 0x5A"
abbreviation (input) INTERRUPT_ID_ACTIVITY_MONITOR_4X :: nat where "INTERRUPT_ID_ACTIVITY_MONITOR_4X \<equiv> 0x4D"
abbreviation (input) INTERRUPT_ID_1C :: nat where "INTERRUPT_ID_1C \<equiv> 0x1C"

definition setup_fiq :: "nat \<Rightarrow> gic_state \<Rightarrow> gic_state" where
  "setup_fiq i g =
     (let g = intr_set_priority i 0 g;
          g = intr_set_group i 0 g;
          g = intr_set_enabled i 1 g;
          g = intr_set_cpu_mask i 8 g
      in intr_set_edge_level i 0 g)"

definition disable_ahb_redirect :: "device \<Rightarrow> io \<Rightarrow> io" where
  "disable_ahb_redirect dev tr =
     (let tr = io_writes MAKE_MC_REG [(0x65C, 0xFFFFF000), (0x660, 0)] tr;
          tr = io_modify dev (MAKE_MC_REG 0x964) (\<lambda>v. v OR 1) tr
      in io_modify dev (MAKE_CAR_REG 0x3A4) (\<lambda>v. v AND 0xFFF7FFFF) tr)"

definition uart_a_setup :: "device \<Rightarrow> io \<Rightarrow> io res" where
  "uart_a_setup dev tr = uart_init dev UART_A 115200 (clkrst_reboot dev CARDEVICE_UARTA (uart_config UART_A tr))"

text \<open>The registers of \<^verbatim>\<open>bootup_misc_mmio\<close>, from the timers to the PMC scratch registers.\<close>

definition bootup_registers :: "senv \<Rightarrow> secmon \<Rightarrow> secmon res" where
  "bootup_registers e s =
     bindR (mon_fw s) (\<lambda>fw.
     let s = upd_io (\<lambda>tr.
           let tr = io_write SHARED_TIMER_SECURE_CFG_0 0xF1E0 tr;
               tr = io_writes MAKE_FLOW_REG [(0x98, 4), (0x50, 0x10000000)] tr;
               tr = io_write (PMC_BASE + 0x24) 0 tr
           in io_writes MAKE_MC_REG carveout_writes tr) s
     in bindR (configure_default_carveouts (m_cfg (s_mon s)) (s_mc s)) (\<lambda>mc.
        bindR (apb_slave_security fw (mon_hardware_type (e_user e) (s_mon s))) (\<lambda>(reg0, reg1, reg2).
        Ok (upd_io (\<lambda>tr.
              let tr = io_writes MAKE_MISC_REG [(0xC00, reg0), (0xC04, reg1), (0xC08, reg2)] tr
              in reset_vector_setup fw (smmu_setup (e_dev e) fw tr)) (s\<lparr>s_mc := mc\<rparr>)))))"

definition bootup_first :: "senv \<Rightarrow> u32 \<Rightarrow> boot_state \<Rightarrow> boot_state res" where
  "bootup_first e fw b =
     bindR (on_sec (on_io (uart_a_setup (e_dev e))) b) (\<lambda>b.
     bindR (intr_register_handler (of_nat INTERRUPT_ID_SECURITY_ENGINE) Se_operation_completed (g_registered_interrupts b)) (\<lambda>t.
     bindR (if fw \<ge> FW_400
            then intr_register_handler (of_nat INTERRUPT_ID_ACTIVITY_MONITOR_4X) Actmon_interrupt_handler t
            else Ok t) (\<lambda>t.
     let cpu = fold (\<lambda>core. set_core_is_active core False) [1..<NUM_CPU_CORES] (s_cpu (b_sec b))
     in Ok (b\<lparr>g_registered_interrupts := t, b_sec := (b_sec b)\<lparr>s_cpu := cpu\<rparr>, g_has_booted_up := True\<rparr>))))"

definition bootup_misc_mmio :: "senv \<Rightarrow> boot_state \<Rightarrow> boot_state res" where
  "bootup_misc_mmio e b =
     bindR (on_sec (with_mon (bootup_se (e_user e))) b) (\<lambda>b.
     bindR (boot_fw b) (\<lambda>fw.
     bindR (if \<not> g_has_booted_up b \<and> FW_600 > fw then on_sec setup_dram_magic_numbers b else Ok b) (\<lambda>b.
     bindR (on_sec (bootup_registers e) b) (\<lambda>b.
     let b = upd_gic (setup_fiq INTERRUPT_ID_SECURITY_ENGINE) b;
         b = (if fw \<ge> FW_400 then upd_gic (setup_fiq INTERRUPT_ID_ACTIVITY_MONITOR_4X) b else b)
     in if \<not> g_has_booted_up b then bootup_first e fw b
        else if fw < FW_400 then Ok (b\<lparr>b_sec := upd_io (disable_ahb_redirect (e_dev e)) (b_sec b)\<rparr>)
        else Ok b))))"

section \<open>From firmware 4.0.0 on\<close>

definition setup_4x_scratch :: "device \<Rightarrow> io \<Rightarrow> io" where
  "setup_4x_scratch dev tr =
     (let pmc = (\<lambda>ofs. PMC_BASE + ofs);
          tr = io_modify dev (pmc 0x3AC) (\<lambda>v. (v AND 0xFFFF8000) OR 0x4000) tr;
          tr = io_modify dev (pmc 0x320) (\<lambda>v. v AND 0x3FFFFFFF) tr;
          tr = io_modify dev (pmc 0x3BC) (\<lambda>v. (v AND 0xFF000FFF) OR 0x1000) tr;
          tr = io_writes pmc [(0x408, 0x40008000), (0x40C, 0x40000), (0x410, 0), (0x414, 0), (0x418, 0),
                 (0xAE4, 0x40008000), (0xAE8, 0x40000), (0xAEC, 0), (0xAF0, 0), (0xAF4, 0)] tr
      in io_modify dev (pmc 0x37C) (\<lambda>v. (v AND 0xF8000000) OR 0x88) tr)"

abbreviation (input) BPMP_MITIGATION_RESET_VAL :: u32 where "BPMP_MITIGATION_RESET_VAL \<equiv> 0x7D000000"

definition setup_4x_bpmp :: "device \<Rightarrow> io \<Rightarrow> io" where
  "setup_4x_bpmp dev tr =
     (let tr = fold (\<lambda>ofs. io_write (BPMP_VECTOR_BASE + ofs) BPMP_MITIGATION_RESET_VAL)
                 [0x200, 0x204, 0x208, 0x20C, 0x210, 0x214, 0x218, 0x21C] tr;
          tr = io_modify dev (SYSREG_BASE + 0x004) (\<lambda>v. v OR 2) tr;
          tr = io_write (MAKE_MC_REG MC_SMMU_PTB_ASID) 1 tr;
          tr = io_touch dev (MAKE_MC_REG MC_SMMU_TLB_CONFIG) tr;
          tr = io_writes MAKE_MC_REG [(MC_SMMU_PTB_DATA, 0x70012), (0x23C, 0x80000001), (0x298, 0x80000001)] tr;
          tr = io_touch dev (MAKE_MC_REG MC_SMMU_TLB_CONFIG) tr;
          tr = io_write (MAKE_MC_REG MC_SMMU_PTC_FLUSH) 0 tr;
          tr = io_touch dev (MAKE_MC_REG MC_SMMU_TLB_CONFIG) tr;
          tr = io_write (MAKE_MC_REG MC_SMMU_TLB_FLUSH) 0 tr
      in io_touch dev (MAKE_MC_REG MC_SMMU_TLB_CONFIG) tr)"

definition setup_4x_actmon :: "senv \<Rightarrow> boot_state \<Rightarrow> boot_state" where
  "setup_4x_actmon e b =
     (let b = b\<lparr>b_sec := upd_io (\<lambda>tr.
            let tr = io_write FLOW_CTLR_HALT_COP_EVENTS_0 0x40000000 tr;
                tr = clkrst_reboot (e_dev e) CARDEVICE_ACTMON tr
            in io_writes MAKE_ACTMON_REG [(0x004, 0x100), (0x0C4, 0)] tr) (b_sec b)\<rparr>;
          b = actmon_set_callback (Some Actmon_on_bpmp_wakeup) b
      in b\<lparr>b_sec := upd_io (io_write (MAKE_ACTMON_REG 0x0C0) 0xC0040000) (b_sec b)\<rparr>)"

definition setup_4x_mmio :: "senv \<Rightarrow> boot_state \<Rightarrow> boot_state res" where
  "setup_4x_mmio e b =
     bindR (boot_fw b) (\<lambda>fw.
     bindR (if fw \<ge> FW_600
            then on_sec (\<lambda>s. bindR (configure_gpu_ucode_carveout (m_cfg (s_mon s)) (s_mc s)) (\<lambda>mc. Ok (s\<lparr>s_mc := mc\<rparr>))) b
            else Ok b) (\<lambda>b.
     let b = b\<lparr>b_sec := upd_io (\<lambda>tr. setup_4x_bpmp (e_dev e) (setup_4x_scratch (e_dev e) (disable_ahb_redirect (e_dev e) tr))) (b_sec b)\<rparr>
     in bindR (on_sec (on_io (poll_wait (e_dev e) FLOW_CTLR_HALT_COP_EVENTS_0 (\<lambda>v. drop_bit 29 v \<noteq> 2) 1)) b) (\<lambda>b.
        Ok (if e_dbgauthstatus e AND 3 \<noteq> 3 then setup_4x_actmon e b else b))))"

section \<open>The current core\<close>

definition setup_current_core_state :: "senv \<Rightarrow> boot_state \<Rightarrow> boot_state" where
  "setup_current_core_state e b =
     (let core = e_core e;
          s = b_sec b;
          cpu = fold (\<lambda>(r, v). msr core r v)
                  [(Reg32 SPSR_EL3, push_bit 6 0xF OR 5), (ACTLR_EL3, 0x73), (ACTLR_EL2, 0x73), (HCR_EL2, 0x80000000),
                   (DACR32_EL2, 0xFFFFFFFF), (SCTLR_EL1, 0xC50838), (SCTLR_EL2, 0x30C50838)] (s_cpu s);
          (cntfrq, s) = read_io e (MAKE_SYSCTR0_REG 0x20) s;
          cpu = msr core CNTHCTL_EL2 3 (msr core CNTFRQ_EL0 (ucast cntfrq) cpu);
          s = upd_io (flow_clear_csr0_and_events core) s;
          b = upd_gic (\<lambda>g.
            let g = intr_initialize_gic g;
                g = intr_set_priority INTERRUPT_ID_1C 0 g;
                g = intr_set_group INTERRUPT_ID_1C 0 g
            in intr_set_enabled INTERRUPT_ID_1C 1 g) b
      in b\<lparr>b_sec := s\<lparr>s_cpu := restore_current_core_context core cpu\<rparr>\<rparr>)"

text \<open>Only two of the identity mappings are removed; the others are commented out in the source.\<close>

definition identity_unmap_iram_cd_tzram :: "secmon \<Rightarrow> secmon" where
  "identity_unmap_iram_cd_tzram s =
     (let u = m_upage (s_mon s);
          unmap = (\<lambda>i tbl. case MMAPID ! i of (a, sz, _, _) \<Rightarrow> mmu_unmap_range 3 tbl a sz)
      in s\<lparr>s_mon := (s_mon s)\<lparr>m_upage := u\<lparr>mmu_l3_tbl := unmap 1 (unmap 0 (mmu_l3_tbl u))\<rparr>\<rparr>\<rparr>)"

definition secure_additional_devices :: "senv \<Rightarrow> secmon \<Rightarrow> secmon res" where
  "secure_additional_devices e s =
     bindR (mon_fw s) (\<lambda>fw.
     Ok (if fw \<ge> FW_200
         then upd_io (\<lambda>tr.
                let tr = io_modify (e_dev e) (MAKE_MISC_REG 0xC00) (\<lambda>v. v OR APB_SSER [APB_SSER0_PMC]) tr
                in if fw \<ge> FW_400
                   then io_modify (e_dev e) (MAKE_MISC_REG 0xC04) (\<lambda>v. v OR APB_SSER [APB_SSER1_MC0, APB_SSER1_MC1, APB_SSER1_MCB]) tr
                   else tr) s
         else s))"

definition set_extabt_serror_taken_to_el3 :: "senv \<Rightarrow> bool \<Rightarrow> secmon \<Rightarrow> secmon" where
  "set_extabt_serror_taken_to_el3 e taken_to_el3 s =
     (let temp_scr_el3 = mrs e SCR_EL3 (s_cpu s) AND 0xFFFFFFF7;
          temp_scr_el3 = temp_scr_el3 OR (if taken_to_el3 then 8 else 0)
      in s\<lparr>s_cpu := msr (e_core e) SCR_EL3 temp_scr_el3 (s_cpu s)\<rparr>)"

end
