(* ===== verification/Boot.thy ===== *)
theory Boot
  imports Bootup SMC_API
begin

text \<open>
  The boot as a whole: \<^verbatim>\<open>load_package2\<close> with its steps (\<^verbatim>\<open>package2.c\<close>), the cold boot up to the jump into
  the kernel (\<^verbatim>\<open>coldboot_main.c\<close>), the warm boot (\<^verbatim>\<open>warmboot_init.c\<close>, \<^verbatim>\<open>warmboot_main.c\<close>), and the
  relocation of \<^verbatim>\<open>coldboot_init.c\<close>.

  All of physical memory is the one map \<open>dram\<close> of the monitor's state. The identity mappings of DRAM and IRAM are in place
  while the code here reads and writes through them.
\<close>

section \<open>What the boot loader leaves in memory\<close>

abbreviation mon_mem :: "monitor \<Rightarrow> phys_mem" where "mon_mem m \<equiv> dram (m_upage m)"

definition set_mem :: "phys_mem \<Rightarrow> monitor \<Rightarrow> monitor" where
  "set_mem mem m = m\<lparr>m_upage := (m_upage m)\<lparr>dram := mem\<rparr>\<rparr>"

definition emummc_config_of :: "bytes \<Rightarrow> emummc_config" where
  "emummc_config_of bs =
     \<lparr>emummc_magic = read32le bs 0, emummc_type = read32le bs 4, emummc_id = read32le bs 8, emummc_fs_version = read32le bs 12,
      emummc_storage = bslice bs 0x10 0x80, emu_dir_path = bslice bs 0x90 0x80\<rparr>"

definition exosphere_config_of :: "bytes \<Rightarrow> exosphere_config" where
  "exosphere_config_of bs =
     \<lparr>cfg_magic = read32le bs 0, cfg_target_firmware = read32le bs 4, cfg_flags = read32le bs 8,
      cfg_emummc = emummc_config_of (bslice bs 0x20 0x110)\<rparr>"

definition bootconfig_of :: "bytes \<Rightarrow> bootconfig" where
  "bootconfig_of bs = \<lparr>bc_unsigned = bslice bs 0 0x200, bc_signature = bslice bs 0x200 0x100, bc_signed = bslice bs 0x300 0x100\<rparr>"

definition MAILBOX_NX_BOOTLOADER_BASE :: "u32 \<Rightarrow> u64" where
  "MAILBOX_NX_BOOTLOADER_BASE targetfw = MMIO_GET_DEVICE_ADDRESS 13 + (if targetfw \<ge> FW_700 then 0 else 0xE00)"

definition MAILBOX_NX_BOOTLOADER_SETUP_STATE :: "u32 \<Rightarrow> u64" where
  "MAILBOX_NX_BOOTLOADER_SETUP_STATE targetfw = MAILBOX_NX_BOOTLOADER_BASE targetfw + 0xF8"

section \<open>The engine at a cold boot\<close>

definition setup_se_flags :: "se_state \<Rightarrow> se_state res" where
  "setup_se_flags se =
     (let se = se\<lparr>REG_0x0 := REG_0x0 se AND 0xFFFEFFFF\<rparr>;
          se = se\<lparr>REG_0x4 := 0, AES_KEY_READ_DISABLE_REG := 0, RSA_KEY_READ_DISABLE_REG := 0\<rparr>;
          se = se\<lparr>REG_0x0 := REG_0x0 se AND 0xFFFFFFFB\<rparr>
      in bindR (foldR (\<lambda>i. set_aes_keyslot_flags (of_nat i) 0x15) [0..<unat KEYSLOT_AES_MAX] se) (\<lambda>se.
         bindR (foldR (\<lambda>i. set_aes_keyslot_flags (of_nat i) 0x40) [4..<unat KEYSLOT_AES_MAX] se) (\<lambda>se.
         foldR (\<lambda>i. set_rsa_keyslot_flags (of_nat i) 0x41) [0..<unat KEYSLOT_RSA_MAX] se)))"

definition setup_device_keys :: "env \<Rightarrow> monitor \<Rightarrow> monitor res" where
  "setup_device_keys e m =
     bindR (exosphere_get_target_firmware (m_cfg m)) (\<lambda>fw.
     let derive = (\<lambda>slot. bindR (derive_new_device_keys (env_eng e) (m_cfg m) (env_stack e 0x10) (mon_is_retail e m) slot (m_mkey m) (m_se m))
           (\<lambda>(mk, se). Ok (m\<lparr>m_mkey := mk, m_se := se\<rparr>)))
     in if fw \<in> {FW_100, FW_200, FW_300} then Ok m
        else if fw = FW_400 then derive KEYSLOT_SWITCH_4XNEWDEVICEKEYGENKEY
        else if fw \<in> {FW_500, FW_600, FW_620, FW_700, FW_800, FW_810, FW_900} then derive KEYSLOT_SWITCH_5XNEWDEVICEKEYGENKEY
        else Ok m)"

text \<open>A key of this boot: random bytes, decrypted with the device key.\<close>

definition generate_boot_key :: "se_engine \<Rightarrow> u32 \<Rightarrow> bytes \<Rightarrow> se_state \<Rightarrow> (bytes \<times> se_state) res" where
  "generate_boot_key eng keyslot work_buffer se =
     bindR (se_generate_random eng KEYSLOT_SWITCH_DEVICEKEY work_buffer 0x10 se) (\<lambda>(work_buffer, se).
     bindR (decrypt_data_into_keyslot eng keyslot KEYSLOT_SWITCH_DEVICEKEY work_buffer 0x10 se) (\<lambda>se.
     bindR (set_aes_keyslot_flags keyslot 0xFF se) (\<lambda>se. Ok (work_buffer, se))))"

definition setup_se_keys :: "env \<Rightarrow> monitor \<Rightarrow> monitor res" where
  "setup_se_keys e m =
     bindR (setup_se_flags (m_se m)) (\<lambda>se.
     bindR (mkey_detect_revision (env_eng e) (mon_is_retail e m) (m_mkey m) se) (\<lambda>(mk, se).
     bindR (setup_device_keys e (m\<lparr>m_mkey := mk, m_se := se\<rparr>)) (\<lambda>m.
     bindR (se_initialize_rng (env_eng e) KEYSLOT_SWITCH_DEVICEKEY (m_se m)) (\<lambda>se.
     bindR (generate_boot_key (env_eng e) KEYSLOT_SWITCH_RNGKEY (env_stack e 0x10) se) (\<lambda>(work_buffer, se).
     bindR (generate_boot_key (env_eng e) KEYSLOT_SWITCH_SESSIONKEY work_buffer se) (\<lambda>(_, se).
     bindR (se_generate_stored_vector se) (\<lambda>se. Ok (m\<lparr>m_se := se\<rparr>))))))))"

definition setup_se :: "senv \<Rightarrow> boot_state \<Rightarrow> boot_state res" where
  "setup_se e b =
     bindR (se_verify_flags_cleared (m_se (s_mon (b_sec b)))) (\<lambda>_.
     on_sec (with_mon (setup_se_keys (e_user e))) (upd_gic intr_initialize_gic_nonsecure b))"

section \<open>Steps of the cold boot\<close>

definition load_config :: "secmon \<Rightarrow> secmon res" where
  "load_config s =
     (let m = s_mon s in
      bindR (exosphere_load_config (exosphere_config_of (phys_read (mon_mem m) 0x8000F000 0x130)) (m_cfg m)) (\<lambda>(_, c).
      bindR (exosphere_should_override_debugmode_user c) (\<lambda>user.
      bindR (exosphere_should_override_debugmode_priv c) (\<lambda>priv.
      let ci = configitem_set_debugmode_override user priv (m_configitem m) in
      bindR (exosphere_should_disable_usermode_exception_handlers c) (\<lambda>dis.
      let ci = (if dis then configitem_disable_usermode_exception_handlers ci else ci)
      in Ok (s\<lparr>s_mon := m\<lparr>m_cfg := c, m_configitem := ci\<rparr>\<rparr>))))))"

definition setup_boot_config :: "env \<Rightarrow> monitor \<Rightarrow> monitor res" where
  "setup_boot_config e m =
     bindR (mon_is_retail e m) (\<lambda>retail.
     if retail then Ok (m\<lparr>m_bootconfig := bootconfig_clear (m_bootconfig m)\<rparr>)
     else bindR (exosphere_get_target_firmware (m_cfg m)) (\<lambda>fw.
          let bootconfig_ptr = (if fw \<ge> FW_600 then 0x4003F800 else 0x4003D000)
          in bindR (bootconfig_load_and_verify (env_eng e) (mon_is_retail e m) (m_fuse m)
                      (bootconfig_of (phys_read (mon_mem m) bootconfig_ptr 0x400)) (m_se m) (m_bootconfig m)) (\<lambda>(se, bc).
             Ok (m\<lparr>m_se := se, m_bootconfig := bc\<rparr>))))"

definition pmc_scratch_value :: "u32 \<Rightarrow> u32 option" where
  "pmc_scratch_value fw =
     (if fw = FW_400 then Some 0x105 else if fw = FW_500 then Some 6 else if fw = FW_600 then Some 0x87
      else if fw = FW_620 then Some 0xA8 else if fw \<in> {FW_700, FW_800} then Some 0x129
      else if fw = FW_810 then Some 0x14A else if fw = FW_900 then Some 0x16B else None)"

definition initial_pmc_writes :: "device \<Rightarrow> u32 \<Rightarrow> io \<Rightarrow> io" where
  "initial_pmc_writes dev fw tr =
     (if fw \<ge> FW_400
      then let tr = io_write (PMC_BASE + 0x054) 0x8000D000 tr;
               tr = io_modify dev (PMC_BASE + 0x0A0) (\<lambda>v. v AND 0xFFF3FFFF) tr;
               tr = io_modify dev (PMC_BASE + 0x818) (\<lambda>v. v AND 0xFFFFFFFE) tr;
               tr = io_modify dev (PMC_BASE + 0x334) (\<lambda>v. v OR 0x10) tr
           in (case pmc_scratch_value fw of None \<Rightarrow> tr | Some v \<Rightarrow> io_write (PMC_BASE + 0x360) v tr)
      else tr)"

definition read_boot_reason :: "senv \<Rightarrow> u64 \<Rightarrow> secmon \<Rightarrow> boot_reason \<times> secmon" where
  "read_boot_reason e a s =
     (let (v0, s) = read_io e a s; (v1, s) = read_io e (a + 4) s; (v2, s) = read_io e (a + 8) s;
          (v3, s) = read_io e (a + 12) s; (v4, s) = read_io e (a + 16) s; (v5, s) = read_io e (a + 20) s
      in (\<lparr>bootloader_version = v0, bootloader_start_block = v1, bootloader_start_page = v2, bootloader_attribute = v3,
           boot_reason_value = v4, boot_reason_state = v5\<rparr>, s))"

definition warmboot_src :: "u32 \<Rightarrow> u64 res" where
  "warmboot_src fw =
     (if fw \<in> {FW_400, FW_500} then Ok 0x4003B000
      else if fw \<in> {FW_600, FW_620} then Ok 0x4003D800
      else if fw \<in> {FW_700, FW_800, FW_810, FW_900} then Ok 0x4003E000
      else generic_panic)"

definition copy_warmboot_bin_to_dram :: "secmon \<Rightarrow> secmon res" where
  "copy_warmboot_bin_to_dram s =
     bindR (mon_fw s) (\<lambda>fw.
     bindR (warmboot_src fw) (\<lambda>src.
     let mem = fold (\<lambda>i mem. phys_write (0x8000D000 + of_nat (4 * i)) (phys_read mem (src + of_nat (4 * i)) 4) mem) [0..<0x800] (mon_mem (s_mon s))
     in Ok (s\<lparr>s_mon := set_mem mem (s_mon s)\<rparr>)))"

definition sync_with_nx_bootloader :: "senv \<Rightarrow> u32 \<Rightarrow> secmon \<Rightarrow> secmon res" where
  "sync_with_nx_bootloader e state s =
     bindR (mon_fw s) (\<lambda>fw.
     on_io (poll_wait (e_dev e) (MAILBOX_NX_BOOTLOADER_SETUP_STATE fw) (\<lambda>v. v < state) 100) s)"

text \<open>Called under \<^verbatim>\<open>if (0)\<close> only: the identity mapping of DRAM stays.\<close>

definition identity_unmap_dram :: "ptbl \<Rightarrow> ptbl" where
  "identity_unmap_dram mmu_l1_tbl = (case MMAPID ! 3 of (a, sz, _, _) \<Rightarrow> mmu_unmap_range 1 mmu_l1_tbl a sz)"

section \<open>Loading the package\<close>

definition zero_signature :: "package2_header \<Rightarrow> bool" where
  "zero_signature header \<longleftrightarrow> pk_signature header ! 0 = 0
     \<and> bslice (pk_signature header) 0 0xFF = bslice (pk_signature header) 1 0xFF"

definition load_package2_image :: "env \<Rightarrow> monitor \<Rightarrow> (package2_header \<times> monitor) res" where
  "load_package2_image e m =
     (let header = package2_header_of (phys_read (mon_mem m) NX_BOOTLOADER_PACKAGE2_LOAD_ADDRESS 0x200);
          m = (if zero_signature header \<and> pk_magic (hdr_metadata header) = MAGIC_PK21
               then m\<lparr>m_bootconfig := bootconfig_set_package2_plaintext_and_unsigned (m_bootconfig m)\<rparr> else m)
      in bindR (verify_header_signature (env_eng e) (mon_is_retail e m) (m_bootconfig m) header (m_se m)) (\<lambda>se.
         bindR (decrypt_and_validate_header (env_eng e) (env_stack e) (mon_mem m) (m_bootconfig m) (m_mkey m) header se) (\<lambda>(mkey_rev, header, se).
         let md = hdr_metadata header in
         bindR (if bootconfig_is_recovery_boot (m_bootconfig m)
                then bindR (mem_get engine_reach (mon_mem m) NX_BOOTLOADER_PACKAGE2_LOAD_ADDRESS (unat (get_package2_size md))) (\<lambda>package2.
                     bootconfig_set_package2_hash_for_recovery (env_eng e) package2 (unat (get_package2_size md)) se (m_bootconfig m))
                else Ok (se, m_bootconfig m)) (\<lambda>(se, bc).
         bindR (load_package2_sections (env_eng e) bc (m_mkey m) md mkey_rev (mon_mem m, se)) (\<lambda>(mem, se).
         Ok (header, set_mem mem (m\<lparr>m_se := se, m_bootconfig := bc\<rparr>)))))))"

text \<open>The first half of \<^verbatim>\<open>load_package2\<close>, up to the loaded boot configuration.\<close>

definition boot_monitor :: "senv \<Rightarrow> boot_state \<Rightarrow> boot_state res" where
  "boot_monitor e b =
     bindR (on_sec load_config b) (\<lambda>b.
     bindR (setup_se e b) (\<lambda>b.
     bindR (boot_fw b) (\<lambda>fw.
     let b = b\<lparr>b_sec := upd_io (initial_pmc_writes (e_dev e) fw) (b_sec b)\<rparr> in
     bindR (on_sec (on_io (wait (e_dev e) 1000)) b) (\<lambda>b.
     bindR (bootup_misc_mmio e b) (\<lambda>b.
     let b = setup_current_core_state e b;
         s = b_sec b;
         (reason, s) = read_boot_reason e (MAILBOX_NX_BOOTLOADER_BASE fw + 0x10) s;
         m = (s_mon s)\<lparr>m_bootconfig := bootconfig_load_boot_reason reason (m_bootconfig (s_mon s))\<rparr>
     in bindR (randomcache_init (env_eng (e_user e)) (m_rcache m) (m_se m)) (\<lambda>(rc, se).
        let s = s\<lparr>s_mon := m\<lparr>m_rcache := rc, m_se := se\<rparr>\<rparr>;
            s = upd_io (io_write (MAILBOX_NX_BOOTLOADER_BASE fw + 0xFC) 1) s
        in bindR (sync_with_nx_bootloader e 1 s) (\<lambda>s.
           bindR (with_mon (setup_boot_config (e_user e)) s) (\<lambda>s.
           Ok (b\<lparr>b_sec := s\<rparr>)))))))))"

definition set_sysctr0 :: "bootconfig_state \<Rightarrow> io \<Rightarrow> io" where
  "set_sysctr0 bc tr =
     (let sysctr0_val = bootconfig_get_value_for_sysctr0 bc
      in io_writes MAKE_SYSCTR0_REG [(0x8, ucast (sysctr0_val AND 0xFFFFFFFF)), (0xC, ucast (drop_bit 32 sysctr0_val AND 0xFFFFFFFF)), (0x0, 3)] tr)"

text \<open>Waiting for the package: from firmware 4.0.0 on the warmboot binary is copied in between.\<close>

definition await_package2 :: "senv \<Rightarrow> secmon \<Rightarrow> secmon res" where
  "await_package2 e s =
     bindR (mon_fw s) (\<lambda>fw.
     let s = (if fw \<ge> FW_400 then upd_io (set_sysctr0 (m_bootconfig (s_mon s))) s else s)
     in if fw \<ge> FW_400
        then bindR (sync_with_nx_bootloader e 2 s) (\<lambda>s.
             bindR (copy_warmboot_bin_to_dram s) (\<lambda>s.
             bindR (if fw \<ge> FW_600 then setup_dram_magic_numbers s else Ok s) (\<lambda>s.
             sync_with_nx_bootloader e 3 s)))
        else sync_with_nx_bootloader e 2 s)"

definition load_package2 :: "senv \<Rightarrow> boot_state \<Rightarrow> boot_state res" where
  "load_package2 e b =
     bindR (boot_monitor e b) (\<lambda>b.
     bindR (on_sec (await_package2 e) b) (\<lambda>b.
     bindR (on_sec (secure_additional_devices e) b) (\<lambda>b.
     let s = identity_unmap_iram_cd_tzram (b_sec b) in
     bindR (load_package2_image (e_user e) (s_mon s)) (\<lambda>(header, m).
     let s = s\<lparr>s_mon := m\<rparr>;
         s = s\<lparr>s_cpu := set_core_entrypoint_and_argument 0 (DRAM_BASE_PHYSICAL + ucast (entrypoint (hdr_metadata header))) 0 (s_cpu s)\<rparr>
     in bindR (mon_fw s) (\<lambda>fw.
        bindR (if fw \<ge> FW_400
               then bindR (sync_with_nx_bootloader e 4 s) (\<lambda>s. setup_4x_mmio e (b\<lparr>b_sec := s\<rparr>))
               else bindR (sync_with_nx_bootloader e 3 s) (\<lambda>s. Ok (b\<lparr>b_sec := s\<rparr>))) (\<lambda>b.
        bindR (on_sec set_version_specific_smcs b) (\<lambda>b.
        Ok (b\<lparr>b_sec := set_extabt_serror_taken_to_el3 e (bootconfig_take_extabt_serror_to_el3 (m_bootconfig (s_mon (b_sec b)))) (b_sec b)\<rparr>))))))))"

section \<open>Entering the kernel\<close>

text \<open>
  What \<^verbatim>\<open>core_jump_to_lower_el\<close> hands to the assembly: the argument, the entry point and the program status.
\<close>

definition jump_to_lower_el :: "senv \<Rightarrow> critical_section \<Rightarrow> boot_state \<Rightarrow> (u64 \<times> u64 \<times> u32 \<times> critical_section \<times> boot_state) res" where
  "jump_to_lower_el e critsec b =
     (let s = b_sec b in
      bindR (core_jump_to_lower_el (e_core e) (ucast (mrs e (Reg32 SPSR_EL3) (s_cpu s))) critsec (s_cpu s)) (\<lambda>(arg, ep, spsr, critsec, cpu).
      Ok (arg, ep, spsr, critsec, b\<lparr>b_sec := s\<lparr>s_cpu := cpu\<rparr>\<rparr>)))"

text \<open>\<open>pk2ldr_size\<close> is the size of the loader's section, which the linker knows.\<close>

definition coldboot_main ::
  "senv \<Rightarrow> nat \<Rightarrow> critical_section \<Rightarrow> boot_state \<Rightarrow> (u64 \<times> u64 \<times> u32 \<times> critical_section \<times> boot_state) res"
where
  "coldboot_main e pk2ldr_size critsec b =
     (let pk2ldr = TZRAM_GET_SEGMENT_ADDRESS 1;
          m = s_mon (b_sec b) in
      bindR (mem_write pk2ldr (replicate pk2ldr_size 0) (m_upage m)) (\<lambda>u.
      let u = u\<lparr>mmu_l3_tbl := mmu_unmap_range 3 (mmu_l3_tbl u) pk2ldr (of_nat pk2ldr_size)\<rparr>
      in jump_to_lower_el e critsec (b\<lparr>b_sec := (b_sec b)\<lparr>s_mon := m\<lparr>m_upage := u\<rparr>\<rparr>\<rparr>)))"

section \<open>Warm boot\<close>

definition init_dma_controllers :: "device \<Rightarrow> u32 \<Rightarrow> io \<Rightarrow> io" where
  "init_dma_controllers dev target_firmware tr =
     (if target_firmware \<ge> FW_400
      then let tr = io_modify dev 0x500038F8 (\<lambda>v. v AND 0xFFFFFFFE) tr;
               tr = io_writes (\<lambda>a. a) [(0x50003300, 0), (0x6000C018, 0xFFFFFFFF), (0x6000C038, 0)] tr;
               tr = io_modify dev 0x50060000 (\<lambda>v. v OR 0x38000000) tr
           in io_writes (\<lambda>a. a) [(0x6000C004, 0x40060), (0x6000C008, 0xE0000001), (0x6000C054, 0x80)] tr
      else let tr = io_write 0x700F0000 3 tr;
               tr = io_modify dev 0x500038F8 (\<lambda>v. v AND 0xFFFFFFFE) tr;
               tr = io_writes (\<lambda>a. a) [(0x50003300, 0), (0x6000C018, 0), (0x6000C038, 0x40040), (0x6002003C, 0xFFFFFFFF),
                      (0x60020054, 0), (0x60020038, 0)] tr;
               tr = io_modify dev 0x50060000 (\<lambda>v. v OR 0x38000000) tr
           in io_writes (\<lambda>a. a) [(0x6000C008, 0xE0000001), (0x6000C054, 0x80)] tr)"

definition set_memory_registers :: "nat \<Rightarrow> u64 \<Rightarrow> u64 \<Rightarrow> u64 \<Rightarrow> u64 \<Rightarrow> u64 \<Rightarrow> u64 \<Rightarrow> u64 \<Rightarrow> u64 \<Rightarrow> cpu_state \<Rightarrow> cpu_state" where
  "set_memory_registers core ttbr0 vbar cpuectlr scr tcr cptr mair sctlr cpu =
     fold (\<lambda>(r, v). msr core r v)
       [(CPUECTLR_EL1, cpuectlr), (SCR_EL3, scr), (TTBR0_EL3, ttbr0), (TCR_EL3, tcr), (CPTR_EL3, cptr), (MAIR_EL3, mair),
        (VBAR_EL3, vbar), (SCTLR_EL3, sctlr)] cpu"

definition set_memory_registers_enable_mmu :: "nat \<Rightarrow> u64 \<Rightarrow> cpu_state \<Rightarrow> cpu_state" where
  "set_memory_registers_enable_mmu core ttbr0 cpu =
     (let vbar = TZRAM_GET_SEGMENT_ADDRESS 5 + 0x800;
          tcr = push_bit 31 1 OR push_bit 23 1 OR push_bit 16 1 OR push_bit 12 3 OR push_bit 10 1 OR push_bit 8 1 OR (64 - 33)
      in set_memory_registers core ttbr0 vbar 0x1B00000040 0x63D tcr 0 0x4FF 0x30C51835 cpu)"

definition init_ttbr0 :: "u32 \<Rightarrow> u64" where
  "init_ttbr0 fw = (if fw < FW_500 then TZRAM_GET_SEGMENT_PA 5 else TZRAM_GET_SEGMENT_5X_PA 5) + 0x800 - 64"

text \<open>The translation is still off: the register is read at its physical address.\<close>

definition WARMBOOT_GET_TZRAM_SEGMENT_PA :: "u32 \<Rightarrow> nat \<Rightarrow> u64" where
  "WARMBOOT_GET_TZRAM_SEGMENT_PA fw x = (if fw < FW_500 then TZRAM_GET_SEGMENT_PA x else TZRAM_GET_SEGMENT_5X_PA x)"

definition get_warmboot_crt0_stack_address :: "u32 \<Rightarrow> u64" where
  "get_warmboot_crt0_stack_address fw = WARMBOOT_GET_TZRAM_SEGMENT_PA fw 3 + 0x800"

definition get_warmboot_crt0_stack_address_critsec_enter :: "u32 \<Rightarrow> nat \<Rightarrow> u64" where
  "get_warmboot_crt0_stack_address_critsec_enter fw core_id =
     (if core_id = 3 then WARMBOOT_GET_TZRAM_SEGMENT_PA fw 4 + 0x1000
      else WARMBOOT_GET_TZRAM_SEGMENT_PA fw 5 + 0x80 * of_nat (core_id + 1))"

definition get_warmboot_main_stack_address :: u64 where
  "get_warmboot_main_stack_address = TZRAM_GET_SEGMENT_ADDRESS 5 + 0x780"

definition get_pk2ldr_stack_address :: u64 where
  "get_pk2ldr_stack_address = TZRAM_GET_SEGMENT_ADDRESS 1 + 0x2000"

definition MC_SECURITY_CFG3_PA :: u64 where
  "MC_SECURITY_CFG3_PA = fst (MMAPDEV ! MMIO_DEVID_MC) + MC_SECURITY_CFG3"

definition warmboot_init :: "senv \<Rightarrow> u32 \<Rightarrow> secmon \<Rightarrow> secmon" where
  "warmboot_init e g_exosphere_target_firmware_for_init s =
     (let (cfg3, s) = read_io e MC_SECURITY_CFG3_PA s;
          s = (if cfg3 = 0 then upd_io (init_dma_controllers (e_dev e) g_exosphere_target_firmware_for_init) s else s)
      in s\<lparr>s_cpu := set_memory_registers_enable_mmu (e_core e) (init_ttbr0 g_exosphere_target_firmware_for_init) (s_cpu s)\<rparr>)"

definition warmboot_configure_hiz_mode :: "device \<Rightarrow> io \<Rightarrow> io res" where
  "warmboot_configure_hiz_mode dev tr =
     bindR (i2c_init dev I2C_1 (clkrst_reboot dev CARDEVICE_I2C1 (i2c_config I2C_1 tr))) (\<lambda>tr.
     bindR (i2c_clear_ti_charger_bit_7 dev tr) (\<lambda>tr.
     Ok (clkrst_disable dev CARDEVICE_I2C1 tr)))"

definition OHAYO :: bytes where "OHAYO = [0x4F, 0x48, 0x41, 0x59, 0x4F, 0]"

definition warmboot_serial :: "senv \<Rightarrow> secmon \<Rightarrow> secmon res" where
  "warmboot_serial e s =
     bindR (on_io (uart_a_setup (e_dev e)) s) (\<lambda>s.
     bindR (mon_is_retail (e_user e) (s_mon s)) (\<lambda>retail.
     if \<not> retail
     then on_io (\<lambda>tr. bindR (uart_send (e_dev e) UART_A OHAYO 6 tr) (uart_wait_idle (e_dev e) UART_A 1)) s
     else Ok s))"

definition warmboot_hiz :: "senv \<Rightarrow> secmon \<Rightarrow> secmon res" where
  "warmboot_hiz e s =
     bindR (mon_fw s) (\<lambda>fw.
     bindR (if fw < FW_400 then Ok True
            else bindR (if fw < FW_800 then bindR (mon_hardware_type (e_user e) (s_mon s)) (\<lambda>hw. Ok (hw = 0)) else Ok False) (\<lambda>old_dev.
                 Ok (old_dev \<or> configitem_is_hiz_mode_enabled (m_configitem (s_mon s))))) (\<lambda>hiz.
     if hiz then on_io (warmboot_configure_hiz_mode (e_dev e)) s else Ok s))"

text \<open>The part that runs after sleep and not when a core is switched on.\<close>

definition warmboot_resume :: "senv \<Rightarrow> boot_state \<Rightarrow> boot_state res" where
  "warmboot_resume e b =
     bindR (on_sec (warmboot_serial e) b) (\<lambda>b.
     bindR (se_verify_flags_cleared (m_se (s_mon (b_sec b)))) (\<lambda>_.
     let b = upd_gic intr_initialize_gic_nonsecure b in
     bindR (bootup_misc_mmio e b) (\<lambda>b.
     bindR (on_sec (secure_additional_devices e) b) (\<lambda>b.
     bindR (on_sec (warmboot_hiz e) b) (\<lambda>b.
     let b = b\<lparr>b_sec := clear_user_smc_in_progress (b_sec b)\<rparr> in
     bindR (boot_fw b) (\<lambda>fw.
     if fw \<ge> FW_400 then setup_4x_mmio e b else Ok b))))))"

definition warmboot_main ::
  "senv \<Rightarrow> critical_section \<Rightarrow> boot_state \<Rightarrow> (u64 \<times> u64 \<times> u32 \<times> critical_section \<times> boot_state) res"
where
  "warmboot_main e critsec b =
     (if is_core_active (e_core e) (s_cpu (b_sec b)) then Panic 0xF7F00009
      else
        let s = identity_unmap_iram_cd_tzram (b_sec b);
            (cfg3, s) = read_io e (MAKE_MC_REG MC_SECURITY_CFG3) s;
            b = b\<lparr>b_sec := s\<rparr>
        in bindR (if cfg3 = 0 then warmboot_resume e b else Ok b) (\<lambda>b.
           let b = setup_current_core_state e b;
               b = b\<lparr>b_sec := set_extabt_serror_taken_to_el3 e (bootconfig_take_extabt_serror_to_el3 (m_bootconfig (s_mon (b_sec b)))) (b_sec b)\<rparr>
           in jump_to_lower_el e critsec b))"

section \<open>Relocation\<close>

record coldboot_crt0_reloc =
  reloc_vma :: u64
  reloc_end_vma :: u64
  reloc_lma :: u64

text \<open>\<open>glob_origin\<close> is the linker's address of the image, \<open>reloc_base\<close> where it was loaded.\<close>

definition do_relocation :: "u64 \<Rightarrow> u64 \<Rightarrow> coldboot_crt0_reloc \<Rightarrow> phys_mem \<Rightarrow> phys_mem" where
  "do_relocation glob_origin reloc_base reloc mem =
     (let is_clear = (reloc_lma reloc = 0);
          offset = reloc_lma reloc - glob_origin;
          p_lma = reloc_base + offset;
          sz = reloc_end_vma reloc - reloc_vma reloc
      in fold (\<lambda>i mem. phys_write (reloc_vma reloc + of_nat (8 * i))
                 (if is_clear then replicate 8 0 else phys_read mem (p_lma + of_nat (8 * i)) 8) mem) [0..<unat sz div 8] mem)"

text \<open>
  \<^verbatim>\<open>coldboot_init\<close>, before any other code of the monitor: the segments, the DMA controllers, the page tables and the
  translation registers. The tables are a state of their own, beside memory.
\<close>

record coldboot_crt0_reloc_list =
  list_reloc_base :: u64
  loaded_bin_size :: u64
  nb_relocs_pre_mmu_init :: nat
  nb_relocs_post_mmu_init :: nat
  relocs :: "coldboot_crt0_reloc list"

record crt0_state =
  c_mem :: phys_mem
  c_io :: io
  c_cpu :: cpu_state
  c_ttbls :: "ptbl \<times> ptbl \<times> ptbl"
  g_exosphere_target_firmware_for_init :: u32

definition exosphere_get_target_firmware_for_init :: "phys_mem \<Rightarrow> u32" where
  "exosphere_get_target_firmware_for_init mem =
     (let config = exosphere_config_of (phys_read mem 0x8000F000 0x130)
      in if cfg_magic config = MAGIC_EXOSPHERE_CONFIG then cfg_target_firmware config else FW_900)"

definition get_coldboot_crt0_temp_stack_address :: u64 where
  "get_coldboot_crt0_temp_stack_address = TZRAM_GET_SEGMENT_PA 4 + 0x800"

definition get_coldboot_crt0_stack_address :: "phys_mem \<Rightarrow> u64" where
  "get_coldboot_crt0_stack_address mem =
     (if exosphere_get_target_firmware_for_init mem < FW_500 then TZRAM_GET_SEGMENT_PA 4 + 0x800 else TZRAM_GET_SEGMENT_5X_PA 4 + 0x800)"

definition coldboot_init :: "senv \<Rightarrow> u64 \<Rightarrow> coldboot_crt0_reloc_list \<Rightarrow> u64 \<Rightarrow> crt0_state \<Rightarrow> coldboot_crt0_reloc_list \<times> crt0_state" where
  "coldboot_init e glob_origin reloc_list start_cold c =
     (let reloc_list = reloc_list\<lparr>list_reloc_base := start_cold\<rparr>;
          pre = nb_relocs_pre_mmu_init reloc_list;
          relocate = fold (\<lambda>i. do_relocation glob_origin (list_reloc_base reloc_list) (relocs reloc_list ! i));
          c = c\<lparr>c_mem := relocate [0..<pre] (c_mem c)\<rparr>;
          fw = exosphere_get_target_firmware_for_init (c_mem c);
          c = c\<lparr>g_exosphere_target_firmware_for_init := fw\<rparr>;
          c = c\<lparr>c_io := init_dma_controllers (e_dev e) fw (c_io c)\<rparr>;
          c = c\<lparr>c_ttbls := (case c_ttbls c of (l1, l2, l3) \<Rightarrow> configure_ttbls fw l1 l2 l3)\<rparr>;
          c = c\<lparr>c_cpu := set_memory_registers_enable_mmu (e_core e) (init_ttbr0 fw) (c_cpu c)\<rparr>;
          c = c\<lparr>c_mem := relocate [pre..<pre + nb_relocs_post_mmu_init reloc_list] (c_mem c)\<rparr>
      in (reloc_list, c))"

end
