(* ===== verification/Boot_Facts.thy ===== *)
theory Boot_Facts
  imports Boot Package2_Load SMC_System SC7_Live
begin

text \<open>
  What the boot leaves behind. Each step is shown to return (the predicate \<open>succeeds\<close>) with what it changes: the key slots of
  the engine, the master keys, and the invariant that the calls of the running monitor rely on.
\<close>

section \<open>What is relied on of the engine\<close>

text \<open>
  Beyond the laws of the engine for the running monitor: a random key goes to the slot that the destination register names and to no
  other, and generating the root key for saved contexts leaves the key table alone.
\<close>

definition law_rng_key :: "se_engine \<Rightarrow> bool" where
  "law_rng_key eng \<longleftrightarrow> (\<forall>se kd sel k. kd < 16 \<and> sel \<le> 1 \<and> OPERATION_REG se = 1 \<and> CONFIG_REG se = ALG_RNG OR DST_KEYTAB
     \<and> CRYPTO_KEYTABLE_DST_REG se = push_bit 8 kd OR sel \<and> k \<noteq> kd \<longrightarrow>
     resp_fine (eng se) \<and> length (r_ctr (eng se)) = length (CRYPTO_CTR_REG se)
     \<and> aes_key (se\<lparr>aes_keytable := r_keytable (eng se)\<rparr>) k = aes_key se k)"

definition law_srk :: "se_engine \<Rightarrow> bool" where
  "law_srk eng \<longleftrightarrow> (\<forall>se. OPERATION_REG se = 1 \<and> CONFIG_REG se = ALG_RNG OR DST_SRK \<longrightarrow>
     resp_fine (eng se) \<and> length (r_ctr (eng se)) = length (CRYPTO_CTR_REG se) \<and> r_keytable (eng se) = aes_keytable se)"

section \<open>Frames\<close>

text \<open>Outside the slots \<open>W\<close> the keys are as before; so are the shapes of the registers and the stored test vector.\<close>

definition boot_keeps :: "u32 set \<Rightarrow> se_state \<Rightarrow> se_state \<Rightarrow> bool" where
  "boot_keeps W se se' \<longleftrightarrow> se_frame W se se' \<and> g_se_generated_vector se' = g_se_generated_vector se
     \<and> g_se_stored_test_vector se' = g_se_stored_test_vector se"

lemma boot_keeps_refl [simp]: "boot_keeps W se se"
  by (simp add: boot_keeps_def)

lemma boot_keeps_trans:
  assumes "boot_keeps V a b" "boot_keeps W b c" "V \<subseteq> U" "W \<subseteq> U"
  shows "boot_keeps U a c"
proof -
  have "aes_key c k = aes_key a k" if "k \<notin> U" for k
    using assms that unfolding boot_keeps_def se_frame_def by (metis subsetD)
  then show ?thesis using assms(1,2) by (simp add: boot_keeps_def se_frame_def)
qed

lemma boot_keeps_same [trans]: "boot_keeps W a b \<Longrightarrow> boot_keeps W b c \<Longrightarrow> boot_keeps W a c"
  using boot_keeps_trans [of W a b W c W] by simp

lemma boot_keeps_mono: "boot_keeps V a b \<Longrightarrow> V \<subseteq> U \<Longrightarrow> boot_keeps U a b"
  by (rule boot_keeps_trans [of V a b U b U]) auto

lemma boot_keepsD: "boot_keeps W se se' \<Longrightarrow> k \<notin> W \<Longrightarrow> aes_key se' k = aes_key se k"
  by (simp add: boot_keeps_def se_frame_def)

lemma boot_keeps_se_keep:
  assumes "se_keep se se'" "\<And>k. k \<notin> W \<Longrightarrow> aes_key se' k = aes_key se k"
  shows "boot_keeps W se se'"
proof -
  have "se_core se' = (se_core se)\<lparr>aes_keytable := aes_keytable se'\<rparr>" using assms(1) by (simp add: se_keep_def)
  then have "g_se_generated_vector (se_core se') = g_se_generated_vector (se_core se)"
    "g_se_stored_test_vector (se_core se') = g_se_stored_test_vector (se_core se)" by simp_all
  then show ?thesis using se_frame_keep [OF assms] by (simp add: boot_keeps_def se_core_def)
qed

lemma boot_keeps_core: "se_core se' = se_core se \<Longrightarrow> boot_keeps W se se'"
  using boot_keeps_se_keep [OF se_keep_core] aes_key_core_eq [of se' se] by metis

lemma boot_keeps_flags:
  assumes "aes_keytable se' = aes_keytable se" "CRYPTO_CTR_REG se' = CRYPTO_CTR_REG se" "g_se_modulus_sizes se' = g_se_modulus_sizes se"
    "g_se_exp_sizes se' = g_se_exp_sizes se" "g_se_generated_vector se' = g_se_generated_vector se"
    "g_se_stored_test_vector se' = g_se_stored_test_vector se"
  shows "boot_keeps W se se'"
  using assms aes_key_cong [OF assms(1)] by (simp add: boot_keeps_def se_frame_def)

lemma succeeds_foldR_keeps:
  assumes "\<And>i s. i \<in> set is \<Longrightarrow> succeeds (boot_keeps W s) (f i s)"
  shows "succeeds (boot_keeps W s) (foldR f is s)"
  by (rule succeeds_foldR) (auto intro!: succeeds_mono [OF assms] intro: boot_keeps_same)

section \<open>Key slots\<close>

lemma aes_flags_succeed: "ks < 16 \<Longrightarrow> succeeds (boot_keeps W se) (set_aes_keyslot_flags ks flags se)"
  by (auto simp: set_aes_keyslot_flags_def Let_def not_le intro!: boot_keeps_flags)

lemma rsa_flags_succeed: "ks < 2 \<Longrightarrow> succeeds (boot_keeps W se) (set_rsa_keyslot_flags ks flags se)"
  by (auto simp: set_rsa_keyslot_flags_def Let_def not_le intro!: boot_keeps_flags)

lemma of_nat_slot: "i < n \<Longrightarrow> n \<le> 16 \<Longrightarrow> (of_nat i :: u32) < of_nat n"
  by (simp add: word_less_nat_alt unat_of_nat_small)

lemma unat_numeral_slots: "unat (16 :: u32) = 16" "unat (2 :: u32) = 2" "unat (10 :: u32) = 10"
  by simp_all

lemma setup_se_flags_succeeds: "succeeds (boot_keeps {} se) (setup_se_flags se)"
proof -
  have a: "succeeds (boot_keeps {} s) (foldR (\<lambda>i. set_aes_keyslot_flags (of_nat i) fl) [n..<16] s)" for s fl n
    by (rule succeeds_foldR_keeps, rule aes_flags_succeed) (use of_nat_slot [of _ 16] in auto)
  have r: "succeeds (boot_keeps {} s) (foldR (\<lambda>i. set_rsa_keyslot_flags (of_nat i) fl) [0..<2] s)" for s fl
    by (rule succeeds_foldR_keeps, rule rsa_flags_succeed) (use of_nat_slot [of _ 2] in auto)
  show ?thesis
    unfolding setup_se_flags_def Let_def
  proof (simp only: unat_numeral_slots, rule succeeds_bindI [OF a], rule succeeds_bindI [OF a], rule succeeds_mono [OF r])
    fix s1 s2 s3
    let ?s0 = "se\<lparr>REG_0x0 := REG_0x0 se AND 0xFFFEFFFF, REG_0x4 := 0, AES_KEY_READ_DISABLE_REG := 0, RSA_KEY_READ_DISABLE_REG := 0\<rparr>"
    assume "boot_keeps {} (?s0\<lparr>REG_0x0 := REG_0x0 ?s0 AND 0xFFFFFFFB\<rparr>) s1" "boot_keeps {} s1 s2" "boot_keeps {} s2 s3"
    moreover have "boot_keeps {} se (?s0\<lparr>REG_0x0 := REG_0x0 ?s0 AND 0xFFFFFFFB\<rparr>)" by (rule boot_keeps_flags) simp_all
    ultimately show "boot_keeps {} se s3" using boot_keeps_same by blast
  qed
qed

lemma initialize_rng_succeeds:
  assumes "se_engine_ok P eng" "ks < 16"
  shows "succeeds (boot_keeps {} se) (se_initialize_rng eng ks se)"
proof -
  let ?s = "se\<lparr>RNG_SRC_CONFIG_REG := 3, RNG_RESEED_INTERVAL_REG := 70001, CONFIG_REG := 0x2000, CRYPTO_REG := push_bit 24 ks OR 0x108,
     RNG_CONFIG_REG := 5, BLOCK_COUNT_REG := 0\<rparr>"
  obtain se' where s': "trigger_se_blocking_op eng 1 (Some (replicate 0x10 0)) 0x10 None 0 ?s = Ok (rng P (op_count ?s) 16, se')"
      "se_core se' = se_core ?s"
    using rng_run [OF assms, of 1 ?s "Some (replicate 0x10 0)" "0x10" None 0] by auto
  have "boot_keeps {} se ?s" by (rule boot_keeps_flags) simp_all
  then have "boot_keeps {} se se'" using boot_keeps_core [OF s'(2)] boot_keeps_same by blast
  then show ?thesis using s'(1) assms(2) by (simp add: se_initialize_rng_def Let_def not_le)
qed

lemma boot_key_succeeds:
  assumes ok: "se_engine_ok P eng" and "ks < 16" "length w = 16"
  shows "succeeds (\<lambda>(w', se'). length w' = 16 \<and> w' = rand_bytes P (op_count se) 16 \<and> boot_keeps {ks} se se'
     \<and> aes_key se' ks = aes_dec P (aes_key se 0xD) w') (generate_boot_key eng ks w se)"
proof -
  obtain s1 where s1: "se_generate_random eng 0xD w 16 se = Ok (blit w 0 (rand_bytes P (op_count se) 16), s1)" "se_core s1 = se_core se"
    using generate_random_ok [OF ok, of "0xD" 16 w se] assms(3) by auto
  let ?w = "rand_bytes P (op_count se) 16"
  have lw: "length ?w = 16" by (simp add: length_rand_bytes [OF ok])
  have w: "blit w 0 ?w = ?w" using blit_0_all [of ?w w] lw assms(3) by simp
  obtain s2 where s2: "decrypt_data_into_keyslot eng ks 0xD ?w 16 s1 = Ok s2" "se_keep s1 s2"
      "aes_key s2 = (aes_key s1)(ks := aes_dec P (aes_key s1 0xD) ?w)"
    using decrypt_into_keyslot_ok [OF ok _ assms(2) lw, of "0xD" s1] by auto
  have "boot_keeps {ks} s1 s2" using s2(3) by (intro boot_keeps_se_keep [OF s2(2)]) auto
  then have "boot_keeps {ks} se s2" by (rule boot_keeps_same [OF boot_keeps_core [OF s1(2)]])
  moreover have "aes_key s2 ks = aes_dec P (aes_key se 0xD) ?w" using s2(3) aes_key_core_eq [OF s1(2)] by simp
  moreover obtain s3 where s3: "set_aes_keyslot_flags ks 0xFF s2 = Ok s3" "boot_keeps {} s2 s3"
    using aes_flags_succeed [OF assms(2), of "{}" s2 "0xFF"] by (auto simp: succeeds_def)
  ultimately show ?thesis
    using s1(1) s2(1) lw w boot_keeps_trans [of "{ks}" se s2 "{}" s3 "{ks}"] boot_keepsD [OF s3(2), of ks]
    by (simp add: generate_boot_key_def)
qed

lemma derive_device_keys_succeeds:
  fixes se :: se_state
  assumes ok: "se_engine_ok P eng" and c: "g_has_loaded_config c" and mk: "mkey_consistent P b mk se" and w: "length w = 16"
  shows "succeeds (\<lambda>(mk', se'). mkey_consistent P b mk' se' \<and> mk' = mk\<lparr>g_old_devicekeys := g_old_devicekeys mk'\<rparr>
     \<and> boot_keeps {9, 0xA, 0xD} se se') (derive_new_device_keys eng c w (Ok b) 0xA mk se)"
proof -
  obtain mk' s1 where l: "derive_new_device_keys_loop eng c 0xA b [0..<7] (w, mk, se) = Ok (mk', s1)"
      "mkey_consistent P b mk' s1" "mk' = mk\<lparr>g_old_devicekeys := g_old_devicekeys mk'\<rparr>" "se_keep se s1"
      "\<forall>k. k \<noteq> 9 \<and> k \<noteq> 0xD \<longrightarrow> aes_key s1 k = aes_key se k"
    using derive_loop_ok [OF ok c, of "0xA" b mk se w 0 7 "unat (g_mkey_revision mk)" "device_key_of P b (oldest_mkey P b mk se) (aes_key se 0xA)"]
      mk w by auto
  have k1: "boot_keeps {9, 0xA, 0xD} se s1" using l(4,5) by (intro boot_keeps_se_keep) auto
  obtain s2 where s2: "set_aes_keyslot_flags 0xD 0xFF s1 = Ok s2" "boot_keeps {} s1 s2"
    using aes_flags_succeed [of "0xD" "{}" s1 "0xFF"] by (auto simp: succeeds_def)
  obtain s3 where s3: "clear_aes_keyslot 0xA s2 = Ok s3" "se_keep s2 s3" "aes_key s3 = (aes_key s2)(0xA := replicate 16 0)"
    using clear_aes_keyslot_ok [of "0xA" s2] by auto
  have k3: "boot_keeps {9, 0xA, 0xD} s1 s3"
    using boot_keeps_trans [OF s2(2) boot_keeps_se_keep [OF s3(2), of "{0xA}"]] s3(3) by auto
  moreover have "aes_key s3 0xC = aes_key s1 0xC" using boot_keepsD [OF k3] by simp
  then have "mkey_consistent P b mk' s3" using l(2) by (simp add: mkey_consistent_def)
  ultimately show ?thesis
    using l(1,3) s2(1) s3(1) boot_keeps_same [OF k1 k3] by (simp add: derive_new_device_keys_def)
qed

section \<open>Setting up the engine at a cold boot\<close>

text \<open>Firmware 4.0.0 takes the key for the device keys from the slot of the device key; what follows is for all others.\<close>

lemma retail_value: "\<exists>b. mon_is_retail e m = Ok b"
  using retail_succeeds [of e m] by (auto simp: succeeds_def)

lemma mon_is_retail_cong [simp]: "mon_is_retail e (m\<lparr>m_se := se\<rparr>) = mon_is_retail e m" "mon_is_retail e (m\<lparr>m_mkey := mk\<rparr>) = mon_is_retail e m"
  by (simp_all add: mon_is_retail_def configitem_is_retail_def configitem_get_def)

lemma setup_device_keys_succeeds:
  assumes ok: "env_ok P e" and c: "g_has_loaded_config (m_cfg m)" "fw_of (m_cfg m) \<noteq> FW_400" and r: "mon_is_retail e m = Ok b"
    and mk: "mkey_consistent P b (m_mkey m) (m_se m)"
  shows "succeeds (\<lambda>m'. m' = m\<lparr>m_mkey := m_mkey m', m_se := m_se m'\<rparr> \<and> mkey_consistent P b (m_mkey m') (m_se m')
     \<and> boot_keeps {9, 0xA, 0xD} (m_se m) (m_se m')) (setup_device_keys e m)"
proof -
  have e: "se_engine_ok P (env_eng e)" "length (env_stack e 0x10) = 16" using ok by (auto simp: env_ok_def)
  have d: "succeeds (\<lambda>m'. m' = m\<lparr>m_mkey := m_mkey m', m_se := m_se m'\<rparr> \<and> mkey_consistent P b (m_mkey m') (m_se m')
      \<and> boot_keeps {9, 0xA, 0xD} (m_se m) (m_se m'))
    (bindR (derive_new_device_keys (env_eng e) (m_cfg m) (env_stack e 0x10) (mon_is_retail e m) 0xA (m_mkey m) (m_se m))
       (\<lambda>(mk, se). Ok (m\<lparr>m_mkey := mk, m_se := se\<rparr>)))"
    unfolding r by (rule succeeds_bindI [OF derive_device_keys_succeeds [OF e(1) c(1) mk e(2)]]) auto
  show ?thesis using c d mk unfolding setup_device_keys_def Let_def by (auto simp del: succeeds_Ok simp add: succeeds_Ok)
qed

lemma setup_se_keys_succeeds:
  assumes ok: "env_ok P e" and c: "g_has_loaded_config (m_cfg m)" "fw_of (m_cfg m) \<noteq> FW_400" and r: "mon_is_retail e m = Ok b"
    and mk: "mkey_wf (m_mkey m)" "\<not> g_determined_mkey_revision (m_mkey m)" "\<exists>r < 10. is_generation P b (aes_key (m_se m) 0xC) r"
    and v: "\<not> g_se_generated_vector (m_se m)"
  shows "succeeds (\<lambda>m'. m' = m\<lparr>m_mkey := m_mkey m', m_se := m_se m'\<rparr> \<and> mkey_consistent P b (m_mkey m') (m_se m')
     \<and> se_frame {9, 0xA, 0xB, 0xD} (m_se m) (m_se m')
     \<and> (\<exists>n. aes_key (m_se m') 0xB = aes_dec P (aes_key (m_se m') 0xD) (rand_bytes P n 16))
     \<and> (\<exists>n. aes_key (m_se m') 0xA = aes_dec P (aes_key (m_se m') 0xD) (rand_bytes P n 16))
     \<and> g_se_generated_vector (m_se m') \<and> g_se_stored_test_vector (m_se m') = se_generate_test_vector) (setup_se_keys e m)"
proof -
  have e: "se_engine_ok P (env_eng e)" "length (env_stack e 0x10) = 16" using ok by (auto simp: env_ok_def)
  obtain s1 where s1: "setup_se_flags (m_se m) = Ok s1" "boot_keeps {} (m_se m) s1"
    using setup_se_flags_succeeds [of "m_se m"] by (auto simp: succeeds_def)
  obtain mk s2 where s2: "mkey_detect_revision (env_eng e) (Ok b) (m_mkey m) s1 = Ok (mk, s2)" "mkey_consistent P b mk s2"
      "se_keep s1 s2" "\<forall>k. k \<noteq> 9 \<longrightarrow> aes_key s2 k = aes_key s1 k"
    using mkey_detect_revision_ok [OF e(1) mk(1,2), of b s1] mk(3) boot_keepsD [OF s1(2), of "0xC"] by auto
  let ?m = "m\<lparr>m_mkey := mk, m_se := s2\<rparr>"
  obtain m3 where m3: "setup_device_keys e ?m = Ok m3" "m3 = ?m\<lparr>m_mkey := m_mkey m3, m_se := m_se m3\<rparr>"
      "mkey_consistent P b (m_mkey m3) (m_se m3)" "boot_keeps {9, 0xA, 0xD} s2 (m_se m3)"
    using setup_device_keys_succeeds [OF ok, of ?m b] c r s2(2) by (auto simp: succeeds_def)
  obtain s4 where s4: "se_initialize_rng (env_eng e) 0xD (m_se m3) = Ok s4" "boot_keeps {} (m_se m3) s4"
    using initialize_rng_succeeds [OF e(1), of "0xD" "m_se m3"] by (auto simp: succeeds_def)
  obtain w5 s5 where s5: "generate_boot_key (env_eng e) 0xB (env_stack e 0x10) s4 = Ok (w5, s5)" "length w5 = 16" "boot_keeps {0xB} s4 s5"
      "\<exists>n. aes_key s5 0xB = aes_dec P (aes_key s4 0xD) (rand_bytes P n 16)"
    using boot_key_succeeds [OF e(1) _ e(2), of "0xB" s4] by (auto simp: succeeds_def)
  obtain w6 s6 where s6: "generate_boot_key (env_eng e) 0xA w5 s5 = Ok (w6, s6)" "boot_keeps {0xA} s5 s6"
      "\<exists>n. aes_key s6 0xA = aes_dec P (aes_key s5 0xD) (rand_bytes P n 16)"
    using boot_key_succeeds [OF e(1) _ s5(2), of "0xA" s5] by (auto simp: succeeds_def)
  let ?W = "{9, 0xA, 0xB, 0xD}" and ?s = "s6\<lparr>g_se_stored_test_vector := se_generate_test_vector, g_se_generated_vector := True\<rparr>"
  note up = boot_keeps_mono [where U = ?W]
  have "boot_keeps ?W s1 s2" using s2(4) by (intro boot_keeps_se_keep [OF s2(3)]) auto
  also note up [OF m3(4)] also note up [OF s4(2)] also note up [OF s5(3)] also note up [OF s6(2)]
  finally have k: "boot_keeps ?W (m_se m) s6" using up [OF s1(2)] boot_keeps_same by simp
  then have v6: "se_generate_stored_vector s6 = Ok ?s" using v by (simp add: se_generate_stored_vector_def boot_keeps_def)
  have ak: "aes_key ?s = aes_key s6" by (rule aes_key_cong) simp
  have f: "se_frame ?W (m_se m) ?s" using k ak by (simp add: boot_keeps_def se_frame_def)
  have d: "aes_key s6 0xD = aes_key s5 0xD" "aes_key s5 0xD = aes_key s4 0xD" "aes_key s6 0xB = aes_key s5 0xB"
    using boot_keepsD [OF s6(2)] boot_keepsD [OF s5(3)] by simp_all
  have "aes_key ?s 0xC = aes_key (m_se m3) 0xC"
    using ak boot_keepsD [OF s6(2)] boot_keepsD [OF s5(3)] boot_keepsD [OF s4(2)] by simp
  then have "mkey_consistent P b (m_mkey m3) ?s" using m3(3) by (simp add: mkey_consistent_def)
  moreover have "m3\<lparr>m_se := ?s\<rparr> = m\<lparr>m_mkey := m_mkey m3, m_se := ?s\<rparr>" using m3(2) by (cases m3, cases m) simp
  ultimately show ?thesis
    using s1(1) s2(1) m3(1) s4(1) s5(1,4) s6(1,3) v6 f d ak r unfolding setup_se_keys_def by simp
qed

section \<open>Fuses\<close>

lemma ipatch_step_chip: "keeps (\<lambda>f'. FUSE_CHIP_REGS f' = FUSE_CHIP_REGS f) (ipatch_step hw a i f)"
  by (auto simp: ipatch_step_def keeps_def Let_def dest!: fuse_hw_read_value elim!: bindR_OkE)

lemma ipatch_steps_chip: "foldR (ipatch_step hw a) is f = Ok f' \<Longrightarrow> FUSE_CHIP_REGS f' = FUSE_CHIP_REGS f"
proof (induction "is" arbitrary: f)
  case (Cons i "is")
  then obtain f1 where "ipatch_step hw a i f = Ok f1" "foldR (ipatch_step hw a) is f1 = Ok f'" by (auto elim!: bindR_OkE)
  then show ?case using Cons.IH ipatch_step_chip [of f hw a i] by (simp add: keeps_def)
qed simp

lemma ipatch_block_chip: "ipatch_block hw a f = Ok (w, f') \<Longrightarrow> FUSE_CHIP_REGS f' = FUSE_CHIP_REGS f"
  by (auto simp: ipatch_block_def Let_def elim!: bindR_OkE dest!: fuse_hw_read_value ipatch_steps_chip)

lemma ipatch_walk_chip:
  assumes "ipatch_walk hw wc a f = Some r" "r = Ok f'"
  shows "FUSE_CHIP_REGS f' = FUSE_CHIP_REGS f"
proof -
  have "\<forall>f'. r = Ok f' \<longrightarrow> FUSE_CHIP_REGS f' = FUSE_CHIP_REGS f"
  proof (rule ipatch_walk.raw_induct [where P = "\<lambda>hw wc a f r. \<forall>f'. r = Ok f' \<longrightarrow> FUSE_CHIP_REGS f' = FUSE_CHIP_REGS f", OF _ assms(1)], goal_cases)
    case (1 walk hw wc a f r)
    show ?case
    proof (cases "ipatch_block hw a f")
      case (Ok p)
      then have "FUSE_CHIP_REGS (snd p) = FUSE_CHIP_REGS f" using ipatch_block_chip [of hw a f "fst p" "snd p"] by simp
      then show ?thesis using 1 Ok by (fastforce split: if_splits)
    qed (use 1 in \<open>auto split: if_splits\<close>)
  qed
  then show ?thesis using assms(2) by blast
qed

lemma fuse_init_chip:
  assumes "fuse_init hw f = Ok f'"
  shows "FUSE_CHIP_REGS f' = FUSE_CHIP_REGS f"
  using assms
  by (auto simp: fuse_init_def fuse_has_rcm_bug_patch_def fuse_make_regs_visible_def fuse_secondary_private_key_disable_def
      fuse_disable_programming_def Let_def split: if_splits option.splits elim!: bindR_OkE dest!: ipatch_walk_chip [OF _ refl])

section \<open>The engine at every boot\<close>

lemma clear_slots_succeed:
  fixes se :: se_state
  assumes "n \<le> 16"
  shows "succeeds (\<lambda>se'. boot_keeps {k. k < of_nat n} se se' \<and> (\<forall>k < of_nat n. aes_key se' k = replicate 16 0))
    (foldR (\<lambda>i. clear_aes_keyslot (of_nat i)) [0..<n] se)"
  using assms
proof (induction n)
  case (Suc n)
  then obtain s1 where s1: "foldR (\<lambda>i. clear_aes_keyslot (of_nat i)) [0..<n] se = Ok s1" "boot_keeps {k. k < of_nat n} se s1"
      "\<forall>k < of_nat n. aes_key s1 k = replicate 16 0" by (auto simp: succeeds_def)
  have lt: "(k < of_nat (Suc n)) = (k < of_nat n \<or> k = of_nat n)" for k :: u32
    using unat_of_nat_small [of "Suc n", where 'a = 32] Suc.prems
    by (auto simp: word_less_nat_alt unat_of_nat_small word_unat_eq_iff simp del: of_nat_Suc)
  have "(of_nat n :: u32) < 16" using of_nat_slot [of n 16] Suc.prems by simp
  then obtain s2 where s2: "clear_aes_keyslot (of_nat n) s1 = Ok s2" "se_keep s1 s2" "aes_key s2 = (aes_key s1)(of_nat n := replicate 16 0)"
    using clear_aes_keyslot_ok [of "of_nat n" s1] by auto
  have "boot_keeps {k. k < of_nat (Suc n)} s1 s2" using s2(3) by (intro boot_keeps_se_keep [OF s2(2)]) (auto simp: lt simp del: of_nat_Suc)
  moreover have "{k :: u32. k < of_nat n} \<subseteq> {k. k < of_nat (Suc n)}" by (auto simp: lt simp del: of_nat_Suc)
  ultimately have "boot_keeps {k. k < of_nat (Suc n)} se s2" using boot_keeps_mono [OF s1(2)] boot_keeps_same by blast
  then show ?case using s1 s2(1,3) by (simp add: foldR_append lt del: of_nat_Suc)
qed (simp add: boot_keeps_def)

lemma rsa_write_keeps: "boot_keeps {} se (fold (\<lambda>i. rsa_keytable_write (a i) 0) is se)"
proof (induction "is" arbitrary: se)
  case (Cons i "is")
  have "boot_keeps {} se (rsa_keytable_write (a i) 0 se)" by (rule boot_keeps_flags) (simp_all add: rsa_keytable_write_def)
  then show ?case using Cons boot_keeps_same by simp
qed simp

lemma clear_rsa_succeeds: "succeeds (boot_keeps {} se) (foldR (\<lambda>i. clear_rsa_keyslot (of_nat i)) [0..<2] se)"
proof (rule succeeds_foldR_keeps)
  fix i and s :: se_state assume "i \<in> set [0..<2]"
  then show "succeeds (boot_keeps {} s) (clear_rsa_keyslot (of_nat i) s)"
    using of_nat_slot [of i 2] boot_keeps_same [OF rsa_write_keeps rsa_write_keeps]
    by (simp add: clear_rsa_keyslot_def Let_def not_le del: upt_rec_numeral)
qed

lemma se_apply_keeps:
  assumes "\<And>k. k \<notin> W \<Longrightarrow> aes_key (se\<lparr>aes_keytable := r_keytable r\<rparr>) k = aes_key se k" "length (r_ctr r) = length (CRYPTO_CTR_REG se)"
  shows "boot_keeps W se (se_apply r (se_started op dst n src k se))"
proof -
  have "aes_key (se_apply r (se_started op dst n src k se)) = aes_key (se\<lparr>aes_keytable := r_keytable r\<rparr>)"
    by (rule aes_key_cong) (simp add: se_apply_def)
  then show ?thesis using assms by (simp add: boot_keeps_def se_frame_def se_apply_def se_started_def se_begin_operation_def)
qed

lemma rng_key_run:
  assumes "law_rng_key eng" "kd < 16" "sel \<le> 1" "CONFIG_REG se = ALG_RNG OR DST_KEYTAB" "CRYPTO_KEYTABLE_DST_REG se = push_bit 8 kd OR sel"
  shows "succeeds (\<lambda>(_, se'). boot_keeps {kd} se se' \<and> CONFIG_REG se' = CONFIG_REG se) (trigger_se_blocking_op eng 1 None 0 None 0 se)"
proof -
  let ?st = "se_started 1 None 0 None 0 se"
  have l: "k \<noteq> kd \<Longrightarrow> resp_fine (eng ?st) \<and> length (r_ctr (eng ?st)) = length (CRYPTO_CTR_REG ?st)
      \<and> aes_key (?st\<lparr>aes_keytable := r_keytable (eng ?st)\<rparr>) k = aes_key ?st k" for k
    using assms unfolding law_rng_key_def by (elim allE [of _ ?st]) simp
  have ak: "aes_key (?st\<lparr>aes_keytable := t\<rparr>) = aes_key (se\<lparr>aes_keytable := t\<rparr>)" "aes_key ?st = aes_key se" for t
    by (rule aes_key_cong, simp)+
  have "boot_keeps {kd} se (se_apply (eng ?st) ?st)" using l l [of "kd + 1"] by (intro se_apply_keeps) (auto simp: ak)
  then show ?thesis using trigger_fine [where eng = eng, OF refl] l [of "kd + 1"] by (simp add: se_apply_def)
qed

lemma random_key_succeeds:
  assumes "law_rng_key eng" "kd < 16" "ks < 16"
  shows "succeeds (boot_keeps {kd} se) (se_generate_random_key eng kd ks se)"
proof -
  have p: "boot_keeps {kd} s (s\<lparr>CRYPTO_KEYTABLE_DST_REG := d\<rparr>)" for s :: se_state and d by (rule boot_keeps_flags) simp_all
  let ?s = "se\<lparr>CONFIG_REG := ALG_RNG OR DST_KEYTAB, CRYPTO_REG := push_bit 24 ks OR 0x108, RNG_CONFIG_REG := 4, BLOCK_COUNT_REG := 0,
    CRYPTO_KEYTABLE_DST_REG := push_bit 8 kd\<rparr>"
  obtain r1 s1 where s1: "trigger_se_blocking_op eng 1 None 0 None 0 ?s = Ok (r1, s1)" "boot_keeps {kd} ?s s1" "CONFIG_REG s1 = CONFIG_REG ?s"
    using rng_key_run [OF assms(1,2), of 0 ?s] by (auto simp: succeeds_def)
  let ?t = "s1\<lparr>CRYPTO_KEYTABLE_DST_REG := push_bit 8 kd OR 1\<rparr>"
  obtain r2 s2 where s2: "trigger_se_blocking_op eng 1 None 0 None 0 ?t = Ok (r2, s2)" "boot_keeps {kd} ?t s2"
    using rng_key_run [OF assms(1,2), of 1 ?t] s1(3) by (auto simp: succeeds_def)
  have "boot_keeps {kd} se ?s" by (rule boot_keeps_flags) simp_all
  also note s1(2) also note p [of s1 "push_bit 8 kd OR 1"] also note s2(2)
  finally show ?thesis using s1(1) s2(1) assms(2,3) by (simp add: se_generate_random_key_def Let_def not_le)
qed

lemma generate_srk_succeeds:
  assumes "law_srk eng"
  shows "succeeds (boot_keeps {} se) (se_generate_srk eng k se)"
proof -
  let ?s = "se\<lparr>CONFIG_REG := ALG_RNG OR DST_SRK, CRYPTO_REG := push_bit 24 k OR 0x108, RNG_CONFIG_REG := 6, BLOCK_COUNT_REG := 0\<rparr>"
  let ?st = "se_started 1 None 0 None 0 ?s"
  have l: "resp_fine (eng ?st)" "length (r_ctr (eng ?st)) = length (CRYPTO_CTR_REG ?st)" "r_keytable (eng ?st) = aes_keytable ?st"
    using assms unfolding law_srk_def by (auto elim!: allE [of _ ?st])
  have "boot_keeps {} se ?s" by (rule boot_keeps_flags) simp_all
  also have "boot_keeps {} ?s (se_apply (eng ?st) ?st)" using l by (intro se_apply_keeps) auto
  finally show ?thesis using trigger_fine [where eng = eng, OF refl l(1)] by (simp add: se_generate_srk_def Let_def)
qed

lemma bootup_se_succeeds:
  assumes ok: "se_engine_ok P (env_eng e)" "law_rng_key (env_eng e)" "law_srk (env_eng e)"
    and f: "fuse_init (env_fuse_hw e) (m_fuse m) = Ok f"
    and v: "g_se_generated_vector (m_se m)" "g_se_stored_test_vector (m_se m) = se_generate_test_vector"
  shows "succeeds (\<lambda>m'. m' = m\<lparr>m_fuse := f, m_se := m_se m'\<rparr> \<and> boot_keeps {k. k < 10} (m_se m) (m_se m')
     \<and> (\<forall>k < 10. k \<noteq> 8 \<longrightarrow> aes_key (m_se m') k = replicate 16 0)) (bootup_se e m)"
proof -
  let ?s = "se_set_in_context_save_mode False (m_se m)" and ?W = "{k :: u32. k < 10}"
  have s0: "boot_keeps ?W (m_se m) ?s" "se_validate_stored_vector ?s = Ok ()"
    using v by (auto simp: se_set_in_context_save_mode_def se_validate_stored_vector_def panic_if_def intro: boot_keeps_flags)
  obtain s1 where s1: "foldR (\<lambda>i. clear_aes_keyslot (of_nat i)) [0..<10] ?s = Ok s1" "boot_keeps ?W ?s s1" "\<forall>k < 10. aes_key s1 k = replicate 16 0"
    using clear_slots_succeed [of 10 ?s] by (auto simp: succeeds_def)
  obtain s2 where s2: "foldR (\<lambda>i. clear_rsa_keyslot (of_nat i)) [0..<2] s1 = Ok s2" "boot_keeps {} s1 s2"
    using clear_rsa_succeeds [of s1] by (auto simp: succeeds_def)
  obtain s3 where s3: "se_initialize_rng (env_eng e) 0xB s2 = Ok s3" "boot_keeps {} s2 s3"
    using initialize_rng_succeeds [OF ok(1), of "0xB" s2] by (auto simp: succeeds_def)
  obtain s4 where s4: "se_generate_random_key (env_eng e) 8 0xB s3 = Ok s4" "boot_keeps {8} s3 s4"
    using random_key_succeeds [OF ok(2), of 8 "0xB" s3] by (auto simp: succeeds_def)
  obtain s5 where s5: "se_generate_srk (env_eng e) 8 s4 = Ok s5" "boot_keeps {} s4 s5"
    using generate_srk_succeeds [OF ok(3), of s4 8] by (auto simp: succeeds_def)
  note up = boot_keeps_mono [where U = "{8}"]
  have "boot_keeps {8} s1 s2" using up [OF s2(2)] by simp
  also have "boot_keeps {8} s2 s3" using up [OF s3(2)] by simp
  also note s4(2)
  also have "boot_keeps {8} s4 s5" using up [OF s5(2)] by simp
  finally have k: "boot_keeps {8} s1 s5" .
  have "boot_keeps ?W s1 s5" using boot_keeps_mono [OF k, of ?W] by simp
  from boot_keeps_same [OF s0(1) boot_keeps_same [OF s1(2) this]]
  have "boot_keeps ?W (m_se m) s5" "\<forall>k < 10. k \<noteq> 8 \<longrightarrow> aes_key s5 k = replicate 16 0"
    using s1(3) boot_keepsD [OF k] by simp_all
  then show ?thesis using f s0(2) s1(1) s2(1) s3(1) s4(1) s5(1) by (simp add: bootup_se_def Let_def)
qed

end
