(* ===== verification/Boot_Live.thy ===== *)
theory Boot_Live
  imports Boot_Facts
begin

text \<open>
  That the steps of a boot return, what they write to the devices, and what they keep. What the devices have to do is stated by
  \<open>settles\<close> and \<open>devices_answer\<close>: the counter advances, the serial port and the bus become idle, and the other processor halts.
\<close>

section \<open>Waiting\<close>

text \<open>From some number of accesses on, the register is not busy, whatever is accessed.\<close>

definition settles :: "device \<Rightarrow> u64 \<Rightarrow> (u32 \<Rightarrow> bool) \<Rightarrow> bool" where
  "settles dev a busy \<longleftrightarrow> (\<forall>tr. \<exists>n. \<forall>new. n \<le> length new \<longrightarrow> \<not> busy (dev (new @ tr) a))"

lemma poll_wait_opt_returns:
  assumes "counter_advances dev" "us \<noteq> - 1" "\<And>new. n \<le> length new \<Longrightarrow> \<not> busy (dev (new @ tr) a)"
  shows "\<exists>tr'. poll_wait_opt dev a busy us tr = Some tr' \<and> suffix tr tr' \<and> writes_of tr' = writes_of tr"
  using assms(3)
proof (induction n arbitrary: tr)
  case 0
  from 0 [of "[]"] show ?case by (subst poll_wait_opt.simps) (auto simp: io_read_def suffix_ConsI)
next
  case (Suc n)
  let ?tr = "Rd a (dev tr a) # tr"
  obtain k where w: "wait dev us ?tr = Ok (reads dev TIMERUS_CNTR_1US_0 (Suc k) ?tr)"
    using wait_returns [OF assms(1,2), of ?tr] by auto
  obtain pre where pre: "reads dev TIMERUS_CNTR_1US_0 (Suc k) ?tr = pre @ ?tr"
    using keepsD [OF wait_grown [of ?tr ?tr dev us] w] by (auto simp: suffix_def)
  have "\<not> busy (dev (new @ pre @ ?tr) a)" if "n \<le> length new" for new
    using Suc.prems [of "new @ pre @ [Rd a (dev tr a)]"] that by simp
  then obtain tr' where tr': "poll_wait_opt dev a busy us (pre @ ?tr) = Some tr'" "suffix (pre @ ?tr) tr'" "writes_of tr' = writes_of (pre @ ?tr)"
    using Suc.IH by blast
  have "writes_of (pre @ ?tr) = writes_of tr" using pre by (metis writes_of.simps(2) writes_of_reads)
  moreover have "suffix tr tr'" using tr'(2) by (auto simp: suffix_def)
  ultimately show ?case
    using tr' w unfolding pre by (subst poll_wait_opt.simps) (auto simp: io_read_def suffix_ConsI)
qed

lemma poll_wait_succeeds:
  assumes "counter_advances dev" "us \<noteq> - 1" "settles dev a busy"
  shows "succeeds (\<lambda>tr'. suffix tr tr' \<and> writes_of tr' = writes_of tr) (poll_wait dev a busy us tr)"
proof -
  obtain n where "\<forall>new. n \<le> length new \<longrightarrow> \<not> busy (dev (new @ tr) a)" using assms(3) by (auto simp: settles_def)
  then show ?thesis using poll_wait_opt_returns [OF assms(1,2), of n busy tr a] by (auto simp: poll_wait_def)
qed

lemma settles_goes_idle: "settles dev a busy \<Longrightarrow> goes_idle dev a busy"
proof -
  assume s: "settles dev a busy"
  have "\<exists>n. \<not> busy (dev (reads dev a n tr) a)" for tr
  proof -
    obtain n where n: "\<forall>new. n \<le> length new \<longrightarrow> \<not> busy (dev (new @ tr) a)" using s by (auto simp: settles_def)
    have "\<exists>new. reads dev a k tr = new @ tr \<and> length new = k" for k
    proof (induction k)
      case (Suc k)
      then obtain new where "reads dev a k tr = new @ tr" "length new = k" by blast
      then show ?case unfolding reads_Suc by (intro exI [of _ "Rd a (dev (new @ tr) a) # new"]) simp
    qed simp
    then show ?thesis using n by (metis order_refl)
  qed
  then show ?thesis by (simp add: goes_idle_def)
qed

definition devices_answer :: "device \<Rightarrow> bool" where
  "devices_answer dev \<longleftrightarrow> counter_advances dev
     \<and> settles dev (uart_get_regs UART_A + UART_LSR) (\<lambda>v. v AND 0x20 = 0)
     \<and> settles dev (uart_get_regs UART_A + UART_LSR) (\<lambda>v. v AND 0x40 = 0)
     \<and> settles dev (uart_get_regs UART_A + UART_LSR) (\<lambda>v. v AND 1 \<noteq> 0)
     \<and> settles dev (i2c_get_registers_from_id I2C_1 + I2C_I2C_STATUS_0) (\<lambda>v. v AND 0x100 \<noteq> 0)
     \<and> settles dev FLOW_CTLR_HALT_COP_EVENTS_0 (\<lambda>v. drop_bit 29 v \<noteq> 2)"

section \<open>Steps that only access devices\<close>

lemma writes_grow [simp]: "suffix t tr \<Longrightarrow> suffix t (io_writes reg ws tr)"
  by (induction ws arbitrary: tr) (auto simp: io_writes_def split: prod.split)

lemma touch_grows [simp]: "suffix t tr \<Longrightarrow> suffix t (io_touch dev a tr)"
  by (simp add: io_touch_def)

lemma uart_pins_grow [simp]: "suffix t tr \<Longrightarrow> suffix t (uart_pins a tr)"
  by (simp add: uart_pins_def Let_def)

lemma waits_grow:
  assumes "counter_advances dev" "us \<noteq> - 1" "suffix t tr"
  shows "succeeds (suffix t) (wait dev us tr)"
  by (rule succeeds_keeps [OF wait_succeeds [OF assms(1,2)] wait_grown [OF assms(3)]])

lemma polls_grow:
  assumes "settles dev a busy" "suffix t tr"
  shows "succeeds (suffix t) (poll dev a busy tr)"
  by (rule succeeds_keeps [OF poll_succeeds [OF settles_goes_idle [OF assms(1)]] poll_grown [OF assms(2)]])

lemma on_io_grows: "succeeds (suffix (s_io s)) (f (s_io s)) \<Longrightarrow> succeeds (io_only s) (on_io f s)"
  unfolding on_io_def by (erule succeeds_bindI) (simp add: io_only_def)

lemma upd_io_only: "suffix (s_io s) (f (s_io s)) \<Longrightarrow> io_only s (upd_io f s)"
  by (simp add: upd_io_def io_only_def)

lemma uart_a_setup_succeeds:
  assumes "devices_answer dev" "suffix t tr"
  shows "succeeds (suffix t) (uart_a_setup dev tr)"
proof -
  note d = assms(1) [unfolded devices_answer_def]
  have w: "succeeds (suffix t) (wait dev us tr)" if "suffix t tr" "us \<noteq> - 1" for us tr using waits_grow d that by blast
  have p: "succeeds (suffix t) (poll dev (uart_get_regs UART_A + UART_LSR) (\<lambda>v. v AND 0x40 = 0) tr)"
    "succeeds (suffix t) (poll dev (uart_get_regs UART_A + UART_LSR) (\<lambda>v. v AND 1 \<noteq> 0) tr)" if "suffix t tr" for tr
    using polls_grow d that by blast+
  show ?thesis
    unfolding uart_a_setup_def uart_init_def uart_wait_idle_def uart_wait_cycles_def uart_wait_syms_def Let_def
    using assms(2) by (auto intro!: succeeds_bindI [OF p(1)] succeeds_bindI [OF w] p(2) simp: io_read_def simp del: uart_get_regs.simps)
qed

lemma uart_hello_succeeds:
  assumes "devices_answer dev" "suffix t tr"
  shows "succeeds (suffix t) (bindR (uart_send dev UART_A buf n tr) (uart_wait_idle dev UART_A 1))"
proof -
  note d = assms(1) [unfolded devices_answer_def]
  have "succeeds (suffix t) (uart_send dev UART_A buf n tr)"
    using d by (intro succeeds_keeps [OF uart_succeeds uart_send_grown [OF assms(2)]] settles_goes_idle) (simp del: uart_get_regs.simps)
  then show ?thesis
  proof (rule succeeds_bindI)
    fix tr assume "suffix t tr"
    then have "succeeds (suffix t) (poll dev (uart_get_regs UART_A + UART_LSR) (\<lambda>v. v AND 0x40 = 0) tr)" using polls_grow d by blast
    then show "succeeds (suffix t) (uart_wait_idle dev UART_A 1 tr)"
      by (auto simp: uart_wait_idle_def succeeds_def simp del: uart_get_regs.simps)
  qed
qed

lemma hiz_mode_succeeds:
  assumes "devices_answer dev" "suffix t tr"
  shows "succeeds (suffix t) (warmboot_configure_hiz_mode dev tr)"
proof -
  have c: "counter_advances dev" "goes_idle dev (i2c_get_registers_from_id I2C_1 + I2C_I2C_STATUS_0) (\<lambda>v. v AND 0x100 \<noteq> 0)"
    using assms(1) settles_goes_idle by (auto simp: devices_answer_def simp del: i2c_get_registers_from_id.simps)
  have "suffix t (clkrst_reboot dev CARDEVICE_I2C1 (i2c_config I2C_1 tr))" using assms(2) by simp
  then have "succeeds (suffix t) (i2c_init dev I2C_1 (clkrst_reboot dev CARDEVICE_I2C1 (i2c_config I2C_1 tr)))"
    by (intro succeeds_keeps [OF i2c_init_succeeds [OF c(1)]] i2c_init_grown)
  then show ?thesis
    unfolding warmboot_configure_hiz_mode_def i2c_clear_ti_charger_bit_7_def
    by (rule succeeds_bindI) (auto intro!: succeeds_bindI [OF succeeds_keeps [OF i2c_update_succeeds [OF c] i2c_update_grown]])
qed

section \<open>What every step keeps\<close>

text \<open>
  The fields no step of a warm boot writes, the lock apart, and the shape of the others. The slots \<open>W\<close> of the engine may change.
\<close>

definition boot_fixed where
  "boot_fixed s = (let m = s_mon s in
     (m_cfg m, FUSE_CHIP_REGS (m_fuse m), m_bootconfig m, m_configitem m, m_mkey m, m_tkey m, m_rcache m, g_imported_exponents m,
      s_ams_userpage_mapped s, s_ams_iram_page_mapped s, g_smc_callback s, g_smc_callback_key s, g_configured_carveouts s,
      g_smc_user_table s, g_smc_priv_table s))"

definition cores_kept :: "cpu_state \<Rightarrow> cpu_state \<Rightarrow> bool" where
  "cores_kept cpu cpu' \<longleftrightarrow> (cpu_wf cpu \<longrightarrow> cpu_wf cpu' \<and> (\<forall>c < 4. ELR_EL3 (g_cpu_contexts cpu' ! c) = ELR_EL3 (g_cpu_contexts cpu ! c)
     \<and> ctx_argument (g_cpu_contexts cpu' ! c) = ctx_argument (g_cpu_contexts cpu ! c)
     \<and> (is_core_active c cpu' \<longrightarrow> is_core_active c cpu)))"

definition boot_kept :: "u32 set \<Rightarrow> secmon \<Rightarrow> secmon \<Rightarrow> bool" where
  "boot_kept W s s' \<longleftrightarrow> boot_fixed s' = boot_fixed s \<and> boot_keeps W (m_se (s_mon s)) (m_se (s_mon s'))
     \<and> (upage_wf (m_upage (s_mon s)) \<longrightarrow> upage_wf (m_upage (s_mon s'))) \<and> cores_kept (s_cpu s) (s_cpu s')
     \<and> (mc_wf (s_mc s) \<longrightarrow> mc_wf (s_mc s')) \<and> suffix (s_io s) (s_io s')"

lemma cores_kept_refl [simp]: "cores_kept cpu cpu"
  by (simp add: cores_kept_def)

lemma cores_kept_trans: "cores_kept a b \<Longrightarrow> cores_kept b c \<Longrightarrow> cores_kept a c"
  by (simp add: cores_kept_def)

lemma cores_kept_upd:
  assumes "\<And>x. ELR_EL3 (f x) = ELR_EL3 x" "\<And>x. ctx_argument (f x) = ctx_argument x" "\<And>x. ctx_is_active (f x) \<Longrightarrow> ctx_is_active x"
  shows "cores_kept cpu (upd_context c f cpu)"
proof -
  have "xs[c := f (xs ! c)] ! k = (if k = c \<and> c < length xs then f (xs ! k) else xs ! k)" for k and xs :: "saved_cpu_context list"
    by (cases "c < length xs") (auto simp: list_update_beyond)
  then show ?thesis using assms by (auto simp: cores_kept_def cpu_wf_def upd_context_def is_core_active_def)
qed

lemma cores_kept_msr: "g_cpu_contexts cpu' = g_cpu_contexts cpu \<Longrightarrow> cores_kept cpu cpu'"
  by (simp add: cores_kept_def cpu_wf_def is_core_active_def)

lemma contexts_msrs [simp]: "g_cpu_contexts (fold (\<lambda>(r, v). msr c r v) rs cpu) = g_cpu_contexts cpu"
  by (induction rs arbitrary: cpu) (simp_all add: case_prod_beta msr_def)

lemma cores_kept_restore: "cores_kept cpu (restore_current_core_context c cpu)"
proof -
  have "cores_kept cpu (cpu\<lparr>msr_log := l\<rparr>)" for l by (rule cores_kept_msr) simp
  then show ?thesis
    unfolding restore_current_core_context_def Let_def fold_restore by (auto intro!: cores_kept_trans [OF _ cores_kept_upd])
qed

lemma cores_kept_inactive: "cores_kept cpu (fold (\<lambda>core. set_core_is_active core False) cs cpu)"
proof (induction cs arbitrary: cpu)
  case (Cons c cs)
  have "cores_kept cpu (set_core_is_active c False cpu)" unfolding set_core_is_active_def by (rule cores_kept_upd) simp_all
  then show ?case using Cons cores_kept_trans by simp
qed simp

lemma boot_kept_refl [simp]: "boot_kept W s s"
  by (simp add: boot_kept_def)

lemma boot_kept_trans [trans]: "boot_kept W s t \<Longrightarrow> boot_kept W t u \<Longrightarrow> boot_kept W s u"
  unfolding boot_kept_def by (metis boot_keeps_same cores_kept_trans suffix_order.trans)

lemma boot_kept_io: "io_only s s' \<Longrightarrow> boot_kept W s s'"
  by (cases s, cases s') (simp add: io_only_def boot_kept_def boot_fixed_def)

lemma boot_kept_wf: "boot_kept W s s' \<Longrightarrow> secmon_wf s \<Longrightarrow> secmon_wf s'"
  by (auto simp: boot_kept_def boot_fixed_def Let_def secmon_wf_def mon_wf_def boot_keeps_def se_frame_def cores_kept_def)

lemma boot_kept_cfg: "boot_kept W s s' \<Longrightarrow> m_cfg (s_mon s') = m_cfg (s_mon s)"
  by (simp add: boot_kept_def boot_fixed_def Let_def)

lemma boot_kept_mon:
  assumes "m' = (s_mon s)\<lparr>m_fuse := m_fuse m', m_se := m_se m', m_upage := m_upage m'\<rparr>" "boot_keeps W (m_se (s_mon s)) (m_se m')"
    "upage_wf (m_upage (s_mon s)) \<longrightarrow> upage_wf (m_upage m')" "FUSE_CHIP_REGS (m_fuse m') = FUSE_CHIP_REGS (m_fuse (s_mon s))"
  shows "boot_kept W s (s\<lparr>s_mon := m'\<rparr>)"
proof -
  have "boot_fixed (s\<lparr>s_mon := m'\<rparr>) = boot_fixed s" unfolding boot_fixed_def Let_def by (simp add: assms(4)) (subst (1 2 3 4 5 6 7) assms(1), simp)
  then show ?thesis using assms(2,3) by (simp add: boot_kept_def)
qed

lemma boot_kept_se:
  "boot_keeps W (m_se (s_mon s)) se \<Longrightarrow> FUSE_CHIP_REGS f = FUSE_CHIP_REGS (m_fuse (s_mon s)) \<Longrightarrow> boot_kept W s (s\<lparr>s_mon := (s_mon s)\<lparr>m_fuse := f, m_se := se\<rparr>\<rparr>)"
  by (rule boot_kept_mon) simp_all

lemma boot_kept_mono: "boot_kept V s s' \<Longrightarrow> V \<subseteq> W \<Longrightarrow> boot_kept W s s'"
  using boot_keeps_mono by (auto simp: boot_kept_def)

lemma boot_kept_key: "boot_kept W s s' \<Longrightarrow> k \<notin> W \<Longrightarrow> aes_key (m_se (s_mon s')) k = aes_key (m_se (s_mon s)) k"
  using boot_keepsD by (auto simp: boot_kept_def)

lemma boot_kept_cpu: "cores_kept (s_cpu s) cpu \<Longrightarrow> boot_kept W s (s\<lparr>s_cpu := cpu\<rparr>)"
  by (simp add: boot_kept_def boot_fixed_def)

section \<open>The registers of every boot\<close>

lemma hardware_type_value: "g_has_loaded_config (m_cfg m) \<Longrightarrow> \<exists>v. mon_hardware_type e m = Ok v"
  by (simp add: mon_hardware_type_def configitem_get_hardware_type_def configitem_get_def fuse_get_hardware_type_def panic_if_def Let_def)

lemma default_carveouts_succeed:
  assumes "g_has_loaded_config c"
  shows "succeeds (\<lambda>mc'. mc_wf mc \<longrightarrow> mc_wf mc') (configure_default_carveouts c mc)"
  using assms
  by (simp add: configure_default_carveouts_def configure_gpu_ucode_carveout_def configure_kernel_carveout_def program_carveout_def
      get_carveout_by_id_def mc_wf_def Let_def)

lemma smmu_grows [simp]: "suffix t tr \<Longrightarrow> suffix t (smmu_setup dev fw tr)"
  by (simp add: smmu_setup_def Let_def)

lemma reset_vector_grows [simp]: "suffix t tr \<Longrightarrow> suffix t (reset_vector_setup fw tr)"
  by (simp add: reset_vector_setup_def Let_def)

lemma apb_slave_security_value: "\<exists>regs. apb_slave_security fw (Ok hw) = Ok regs"
  by (simp add: apb_slave_security_def Let_def)

lemma bootup_registers_succeeds:
  assumes "g_has_loaded_config (m_cfg (s_mon s))"
  shows "succeeds (boot_kept {} s) (bootup_registers e s)"
proof -
  let ?fw = "fw_of (m_cfg (s_mon s))"
  obtain hw where hw: "mon_hardware_type (e_user e) (s_mon s) = Ok hw" using hardware_type_value [OF assms] by blast
  obtain r0 r1 r2 where r: "apb_slave_security ?fw (Ok hw) = Ok (r0, r1, r2)" using apb_slave_security_value by (metis prod_cases3)
  obtain mc where mc: "configure_default_carveouts (m_cfg (s_mon s)) (s_mc s) = Ok mc" "mc_wf (s_mc s) \<longrightarrow> mc_wf mc"
    using default_carveouts_succeed [OF assms, of "s_mc s"] by (auto simp: succeeds_def)
  show ?thesis
    using assms hw r mc unfolding bootup_registers_def
    by (simp add: upd_io_def Let_def boot_kept_def boot_fixed_def)
qed

section \<open>\<open>bootup_misc_mmio\<close>\<close>

lemma magic_numbers_succeed:
  assumes "g_has_loaded_config (m_cfg (s_mon s))"
  shows "succeeds (boot_kept W s) (setup_dram_magic_numbers s)"
  using assms by (auto simp: setup_dram_magic_numbers_def Let_def upage_wf_def intro!: boot_kept_mon)

lemma on_sec_succeeds:
  assumes "succeeds Q (f (b_sec b))" "\<And>s. Q s \<Longrightarrow> R (b\<lparr>b_sec := s\<rparr>)"
  shows "succeeds R (on_sec f b)"
  unfolding on_sec_def using assms by (auto simp: succeeds_def)

lemma with_mon_succeeds: "succeeds (\<lambda>m. Q (s\<lparr>s_mon := m\<rparr>)) (f (s_mon s)) \<Longrightarrow> succeeds Q (with_mon f s)"
  unfolding with_mon_def by (auto simp: succeeds_def)

definition boot_handlers :: "u32 \<Rightarrow> (u32 \<times> intr_fn) list" where
  "boot_handlers fw = (0x5A, Se_operation_completed) # (if fw \<ge> FW_400 then [(0x4D, Actmon_interrupt_handler)] else [])"

definition handlers_table :: "(u32 \<times> 'h) list \<Rightarrow> 'h intr_table" where
  "handlers_table hs = map (\<lambda>(i, h). (i, Some h)) hs @ replicate (MAX_REGISTERED_INTERRUPTS - length hs) (0, None)"

lemma register_boot_handlers:
  "bindR (intr_register_handler 0x5A Se_operation_completed g_registered_interrupts_init) (\<lambda>t.
     if fw \<ge> FW_400 then intr_register_handler 0x4D Actmon_interrupt_handler t else Ok t) = Ok (handlers_table (boot_handlers fw))"
proof -
  have "replicate 4 x = [x, x, x, x]" "replicate 3 x = [x, x, x]" "replicate 2 x = [x, x]" for x :: "u32 \<times> intr_fn option"
    by (simp_all add: numeral_eq_Suc)
  then show ?thesis by (simp add: g_registered_interrupts_init_def handlers_table_def boot_handlers_def)
qed

text \<open>What a boot does to the state around the monitor's.\<close>

definition boot_around :: "boot_state \<Rightarrow> boot_state \<Rightarrow> bool" where
  "boot_around b b' \<longleftrightarrow> g_has_booted_up b' \<and> g_actmon_callback b' = g_actmon_callback b
     \<and> g_registered_interrupts b' = (if g_has_booted_up b then g_registered_interrupts b
          else handlers_table (boot_handlers (fw_of (m_cfg (s_mon (b_sec b))))))"

lemma bootup_first_succeeds:
  assumes "devices_answer (e_dev e)" "g_registered_interrupts b = g_registered_interrupts_init"
  shows "succeeds (\<lambda>b'. boot_kept {} (b_sec b) (b_sec b') \<and> s_mon (b_sec b') = s_mon (b_sec b) \<and> g_has_booted_up b' \<and> g_actmon_callback b' = g_actmon_callback b
     \<and> g_registered_interrupts b' = handlers_table (boot_handlers fw)) (bootup_first e fw b)"
proof -
  have "succeeds (suffix (s_io (b_sec b))) (uart_a_setup (e_dev e) (s_io (b_sec b)))" by (rule uart_a_setup_succeeds [OF assms(1)]) simp
  then obtain s where s: "on_io (uart_a_setup (e_dev e)) (b_sec b) = Ok s" "io_only (b_sec b) s"
    using on_io_grows [of "b_sec b"] by (auto simp: succeeds_def)
  let ?s = "s\<lparr>s_cpu := fold (\<lambda>core. set_core_is_active core False) [1..<4] (s_cpu s)\<rparr>"
  have "boot_kept {} s ?s" by (rule boot_kept_cpu [OF cores_kept_inactive])
  with boot_kept_io [OF s(2)] have "boot_kept {} (b_sec b) ?s" by (rule boot_kept_trans)
  moreover have "s_mon s = s_mon (b_sec b)" using s(2) by (cases s, cases "b_sec b") (simp add: io_only_def)
  ultimately show ?thesis
    using s(1) assms(2) register_boot_handlers [of fw] by (auto simp: bootup_first_def on_sec_def elim!: bindR_OkE)
qed

lemma bootup_misc_mmio_succeeds:
  fixes b :: boot_state
  defines "m \<equiv> s_mon (b_sec b)"
  assumes ok: "se_engine_ok P (env_eng (e_user e))" "law_rng_key (env_eng (e_user e))" "law_srk (env_eng (e_user e))"
    and c: "g_has_loaded_config (m_cfg m)" and f: "fuse_init (env_fuse_hw (e_user e)) (m_fuse m) = Ok f"
    and v: "g_se_generated_vector (m_se m)" "g_se_stored_test_vector (m_se m) = se_generate_test_vector"
    and d: "devices_answer (e_dev e)" and t: "g_has_booted_up b \<or> g_registered_interrupts b = g_registered_interrupts_init"
  shows "succeeds (\<lambda>b'. boot_kept {k. k < 10} (b_sec b) (b_sec b') \<and> boot_around b b'
     \<and> (\<forall>k < 10. k \<noteq> 8 \<longrightarrow> aes_key (m_se (s_mon (b_sec b'))) k = replicate 16 0)) (bootup_misc_mmio e b)"
proof -
  let ?s = "b_sec b" and ?fw = "fw_of (m_cfg m)" and ?W = "{k :: u32. k < 10}"
  obtain m1 where m1: "bootup_se (e_user e) m = Ok m1" "m1 = m\<lparr>m_fuse := f, m_se := m_se m1\<rparr>" "boot_keeps ?W (m_se m) (m_se m1)"
      and z: "\<forall>k < 10. k \<noteq> 8 \<longrightarrow> aes_key (m_se m1) k = replicate 16 0"
    using bootup_se_succeeds [OF ok f v] by (auto simp: succeeds_def)
  define s1 where "s1 = ?s\<lparr>s_mon := m1\<rparr>"
  have s1: "with_mon (bootup_se (e_user e)) ?s = Ok s1" "boot_kept ?W ?s s1"
    using m1(1) boot_kept_se [of ?W ?s "m_se m1" f] fuse_init_chip [OF f] m1(2,3) by (simp_all add: with_mon_def s1_def m_def)
  have c1: "m_cfg (s_mon s1) = m_cfg m" using boot_kept_cfg [OF s1(2)] by (simp add: m_def)
  obtain s2 where s2: "(if \<not> g_has_booted_up b \<and> FW_600 > ?fw then on_sec setup_dram_magic_numbers (b\<lparr>b_sec := s1\<rparr>) else Ok (b\<lparr>b_sec := s1\<rparr>))
      = Ok (b\<lparr>b_sec := s2\<rparr>)" "boot_kept {} s1 s2"
    using magic_numbers_succeed [of s1 "{}"] c c1 by (cases "\<not> g_has_booted_up b \<and> FW_600 > ?fw") (auto simp: succeeds_def on_sec_def)
  have c2: "m_cfg (s_mon s2) = m_cfg m" using boot_kept_cfg [OF s2(2)] c1 by simp
  obtain s3 where s3: "bootup_registers e s2 = Ok s3" "boot_kept {} s2 s3"
    using bootup_registers_succeeds [of s2 e] c c2 by (auto simp: succeeds_def)
  define b3 where "b3 = (let b = upd_gic (setup_fiq 0x5A) (b\<lparr>b_sec := s3\<rparr>) in if ?fw \<ge> FW_400 then upd_gic (setup_fiq 0x4D) b else b)"
  have b3: "b_sec b3 = s3" "g_has_booted_up b3 = g_has_booted_up b" "g_registered_interrupts b3 = g_registered_interrupts b" "g_actmon_callback b3 = g_actmon_callback b"
    by (simp_all add: b3_def upd_gic_def Let_def)
  have "bootup_misc_mmio e b = (if \<not> g_has_booted_up b3 then bootup_first e ?fw b3
        else if ?fw < FW_400 then Ok (b3\<lparr>b_sec := upd_io (disable_ahb_redirect (e_dev e)) (b_sec b3)\<rparr>) else Ok b3)"
    using s1(1) s2(1) s3(1) c c1 unfolding bootup_misc_mmio_def by (simp add: on_sec_def b3_def Let_def)
  moreover have "succeeds (\<lambda>b'. boot_kept {} s3 (b_sec b') \<and> boot_around b b') \<dots>"
  proof (cases "g_has_booted_up b")
    case True
    have "boot_kept {} s3 (upd_io (disable_ahb_redirect (e_dev e)) s3)"
      by (intro boot_kept_io upd_io_only) (simp add: disable_ahb_redirect_def Let_def)
    then show ?thesis using b3 True by (simp add: boot_around_def)
  next
    case False
    then show ?thesis using bootup_first_succeeds [OF d, of b3 ?fw] t b3 by (auto simp: boot_around_def m_def elim: succeeds_mono)
  qed
  moreover have "boot_kept ?W ?s s' \<and> (\<forall>k < 10. k \<noteq> 8 \<longrightarrow> aes_key (m_se (s_mon s')) k = replicate 16 0)" if s': "boot_kept {} s3 s'" for s'
  proof -
    have k: "boot_kept {} s1 s'" by (rule boot_kept_trans [OF s2(2) boot_kept_trans [OF s3(2) s']])
    show ?thesis
      using boot_kept_trans [OF s1(2) boot_kept_mono [OF k]] boot_kept_key [OF k] z by (simp add: s1_def)
  qed
  ultimately show ?thesis by (auto elim!: succeeds_mono)
qed

section \<open>The steps after it\<close>

lemma secure_devices_succeed:
  assumes "g_has_loaded_config (m_cfg (s_mon s))"
  shows "succeeds (io_only s) (secure_additional_devices e s)"
  using assms upd_io_only [of s] by (simp add: secure_additional_devices_def Let_def)

lemma setup_4x_grow [simp]:
  assumes "suffix t tr"
  shows "suffix t (setup_4x_bpmp dev tr)" "suffix t (setup_4x_scratch dev tr)" "suffix t (disable_ahb_redirect dev tr)"
  using assms by (simp_all add: setup_4x_bpmp_def setup_4x_scratch_def disable_ahb_redirect_def Let_def)

lemma gpu_ucode_succeeds: "g_has_loaded_config c \<Longrightarrow> succeeds (\<lambda>mc'. mc_wf mc \<longrightarrow> mc_wf mc') (configure_gpu_ucode_carveout c mc)"
  by (simp add: configure_gpu_ucode_carveout_def program_carveout_def get_carveout_by_id_def mc_wf_def)

text \<open>From 4.0.0 on: the callback is armed unless the core may be debugged.\<close>

lemma setup_4x_mmio_succeeds:
  assumes "g_has_loaded_config (m_cfg (s_mon (b_sec b)))" "devices_answer (e_dev e)"
  shows "succeeds (\<lambda>b'. boot_kept {} (b_sec b) (b_sec b') \<and> s_mon (b_sec b') = s_mon (b_sec b) \<and> s_cpu (b_sec b') = s_cpu (b_sec b)
     \<and> g_is_user_smc_in_progress (b_sec b') = g_is_user_smc_in_progress (b_sec b)
     \<and> g_registered_interrupts b' = g_registered_interrupts b \<and> g_has_booted_up b' = g_has_booted_up b
     \<and> g_actmon_callback b' = (if e_dbgauthstatus e AND 3 \<noteq> 3 then Some Actmon_on_bpmp_wakeup else g_actmon_callback b))
     (setup_4x_mmio e b)"
proof -
  let ?s = "b_sec b"
  obtain mc where mc: "(if fw_of (m_cfg (s_mon ?s)) \<ge> FW_600 then configure_gpu_ucode_carveout (m_cfg (s_mon ?s)) (s_mc ?s) else Ok (s_mc ?s)) = Ok mc"
      "mc_wf (s_mc ?s) \<longrightarrow> mc_wf mc"
    using gpu_ucode_succeeds [OF assms(1), of "s_mc ?s"] by (cases "fw_of (m_cfg (s_mon ?s)) \<ge> FW_600") (auto simp: succeeds_def)
  let ?tr = "setup_4x_bpmp (e_dev e) (setup_4x_scratch (e_dev e) (disable_ahb_redirect (e_dev e) (s_io ?s)))"
  obtain tr where tr: "poll_wait (e_dev e) FLOW_CTLR_HALT_COP_EVENTS_0 (\<lambda>v. drop_bit 29 v \<noteq> 2) 1 ?tr = Ok tr" "suffix ?tr tr"
    using poll_wait_succeeds [of "e_dev e" 1 FLOW_CTLR_HALT_COP_EVENTS_0 "\<lambda>v. drop_bit 29 v \<noteq> 2" ?tr] assms(2)
    by (auto simp: devices_answer_def succeeds_def)
  have "suffix (s_io ?s) ?tr" by simp
  then have g: "suffix (s_io ?s) tr" using tr(2) suffix_order.trans by blast
  define b1 where "b1 = b\<lparr>b_sec := ?s\<lparr>s_mc := mc, s_io := tr\<rparr>\<rparr>"
  have "(if fw_of (m_cfg (s_mon ?s)) \<ge> FW_600
        then on_sec (\<lambda>s. bindR (configure_gpu_ucode_carveout (m_cfg (s_mon s)) (s_mc s)) (\<lambda>mc. Ok (s\<lparr>s_mc := mc\<rparr>))) b else Ok b)
      = Ok (b\<lparr>b_sec := ?s\<lparr>s_mc := mc\<rparr>\<rparr>)"
    using mc(1) by (cases "fw_of (m_cfg (s_mon ?s)) \<ge> FW_600") (auto simp: on_sec_def)
  then have "setup_4x_mmio e b = Ok (if e_dbgauthstatus e AND 3 \<noteq> 3 then setup_4x_actmon e b1 else b1)"
    using assms(1) tr(1) unfolding setup_4x_mmio_def by (simp add: on_sec_def on_io_def upd_io_def b1_def Let_def)
  then show ?thesis
    using g mc(2) by (auto simp: b1_def setup_4x_actmon_def actmon_set_callback_def upd_io_def boot_kept_def boot_fixed_def Let_def)
qed

lemma core_state_kept:
  "boot_kept W (b_sec b) (b_sec (setup_current_core_state e b))"
  "g_is_user_smc_in_progress (b_sec (setup_current_core_state e b)) = g_is_user_smc_in_progress (b_sec b)"
proof -
  have r: "cores_kept cpu (restore_current_core_context c cpu')" if "g_cpu_contexts cpu' = g_cpu_contexts cpu" for c cpu cpu'
    by (rule cores_kept_trans [OF cores_kept_msr [OF that] cores_kept_restore])
  show "boot_kept W (b_sec b) (b_sec (setup_current_core_state e b))"
    unfolding setup_current_core_state_def Let_def
    by (simp add: read_io_def io_read_def upd_io_def upd_gic_def flow_clear_csr0_and_events_def boot_kept_def boot_fixed_def)
       (rule r, simp add: msr_def)
  show "g_is_user_smc_in_progress (b_sec (setup_current_core_state e b)) = g_is_user_smc_in_progress (b_sec b)"
    by (simp add: setup_current_core_state_def read_io_def io_read_def upd_io_def upd_gic_def Let_def)
qed

lemma extabt_kept: "boot_kept W s (set_extabt_serror_taken_to_el3 e x s)"
  unfolding set_extabt_serror_taken_to_el3_def Let_def by (intro boot_kept_cpu cores_kept_msr) (simp add: msr_def)

section \<open>Page table\<close>

lemma unmap_range_kept:
  "length (mmu_unmap_range 3 tbl a sz) = length tbl"
  "\<forall>i \<in> set [0..<range_count 3 sz]. mmu_compute_index 3 (a + push_bit 12 (of_nat i)) \<noteq> k \<Longrightarrow> mmu_unmap_range 3 tbl a sz ! k = tbl ! k"
proof -
  have "length (fold (\<lambda>i tbl. tbl[f i := v]) is tbl) = length tbl
      \<and> ((\<forall>i \<in> set is. f i \<noteq> k) \<longrightarrow> fold (\<lambda>i tbl. tbl[f i := v]) is tbl ! k = tbl ! k)" for f :: "nat \<Rightarrow> nat" and v :: u64 and "is"
    by (induction "is" arbitrary: tbl) auto
  from this [of "\<lambda>i. mmu_compute_index 3 (a + push_bit 12 (of_nat i))" MMU_PTE_TYPE_FAULT "[0..<range_count 3 sz]"]
  show "length (mmu_unmap_range 3 tbl a sz) = length tbl"
    "\<forall>i \<in> set [0..<range_count 3 sz]. mmu_compute_index 3 (a + push_bit 12 (of_nat i)) \<noteq> k \<Longrightarrow> mmu_unmap_range 3 tbl a sz ! k = tbl ! k"
    by (simp_all add: mmu_unmap_range_def mmu_unmap_def MMU_Lx_SHIFT_def)
qed

lemma identity_indices:
  "\<forall>i \<in> set [0..<range_count 3 0x1000]. mmu_compute_index 3 (0x40006000 + push_bit 12 (of_nat i)) \<noteq> 0x1F4"
  "\<forall>i \<in> set [0..<range_count 3 0x20000]. mmu_compute_index 3 (0x40020000 + push_bit 12 (of_nat i)) \<noteq> 0x1F4"
  by code_simp+

lemma identity_unmap_kept: "boot_kept W s (identity_unmap_iram_cd_tzram s)"
  unfolding identity_unmap_iram_cd_tzram_def Let_def
  by (rule boot_kept_mon) (simp_all add: MMAPID_def upage_wf_def user_page_index(2) unmap_range_kept(1) unmap_range_kept(2) [OF identity_indices(1)]
      unmap_range_kept(2) [OF identity_indices(2)])

section \<open>The warm boot\<close>

lemma warmboot_serial_succeeds:
  assumes "devices_answer (e_dev e)"
  shows "succeeds (io_only s) (warmboot_serial e s)"
proof -
  have u: "succeeds (io_only s) (on_io (uart_a_setup (e_dev e)) s)"
    by (intro on_io_grows uart_a_setup_succeeds assms) simp
  have o: "succeeds (io_only s1) (on_io (\<lambda>tr. bindR (uart_send (e_dev e) UART_A OHAYO 6 tr) (uart_wait_idle (e_dev e) UART_A 1)) s1)" for s1
    by (intro on_io_grows uart_hello_succeeds assms) simp
  show ?thesis
    unfolding warmboot_serial_def
    by (rule succeeds_bindI [OF u], rule succeeds_bindI [OF retail_succeeds]) (auto intro!: succeeds_mono [OF o] elim: io_only_trans)
qed

lemma warmboot_hiz_succeeds:
  assumes "devices_answer (e_dev e)" "g_has_loaded_config (m_cfg (s_mon s))"
  shows "succeeds (io_only s) (warmboot_hiz e s)"
proof -
  obtain hw where hw: "mon_hardware_type (e_user e) (s_mon s) = Ok hw" using hardware_type_value [OF assms(2)] by blast
  have "succeeds (io_only s) (on_io (warmboot_configure_hiz_mode (e_dev e)) s)"
    by (intro on_io_grows hiz_mode_succeeds assms) simp
  then show ?thesis using assms(2) hw by (simp add: warmboot_hiz_def)
qed

text \<open>The hypotheses of both boots on the engine, the fuses and the devices.\<close>

definition boot_ready :: "se_prims \<Rightarrow> senv \<Rightarrow> monitor \<Rightarrow> bool" where
  "boot_ready P e m \<longleftrightarrow> env_ok P (e_user e) \<and> law_rng_key (env_eng (e_user e)) \<and> law_srk (env_eng (e_user e))
     \<and> devices_answer (e_dev e) \<and> is_Ok (fuse_init (env_fuse_hw (e_user e)) (m_fuse m))"

definition slots_cleared :: "se_state \<Rightarrow> bool" where
  "slots_cleared se \<longleftrightarrow> (\<forall>k < 10. k \<noteq> 8 \<longrightarrow> aes_key se k = replicate 16 0)"

definition vector_stored :: "se_state \<Rightarrow> bool" where
  "vector_stored se \<longleftrightarrow> g_se_generated_vector se \<and> g_se_stored_test_vector se = se_generate_test_vector"

lemma bootup_misc_mmio_ready:
  fixes b :: boot_state
  assumes "boot_ready P e (s_mon (b_sec b))" "g_has_loaded_config (m_cfg (s_mon (b_sec b)))" "vector_stored (m_se (s_mon (b_sec b)))"
    "g_has_booted_up b \<or> g_registered_interrupts b = g_registered_interrupts_init"
  shows "succeeds (\<lambda>b'. boot_kept {k. k < 10} (b_sec b) (b_sec b') \<and> boot_around b b' \<and> slots_cleared (m_se (s_mon (b_sec b')))) (bootup_misc_mmio e b)"
proof -
  obtain f where "fuse_init (env_fuse_hw (e_user e)) (m_fuse (s_mon (b_sec b))) = Ok f"
    using assms(1) by (auto simp: boot_ready_def elim: is_Ok.elims)
  then show ?thesis
    using assms bootup_misc_mmio_succeeds [of P e b f] by (simp add: boot_ready_def env_ok_def vector_stored_def slots_cleared_def)
qed

lemma warmboot_resume_succeeds:
  assumes ok: "boot_ready P e (s_mon (b_sec b))" and c: "g_has_loaded_config (m_cfg (s_mon (b_sec b)))"
    and v: "vector_stored (m_se (s_mon (b_sec b)))" "FLAGS_REG (m_se (s_mon (b_sec b))) AND 3 = 0" and up: "g_has_booted_up b"
  shows "succeeds (\<lambda>b'. boot_kept {k. k < 10} (b_sec b) (b_sec b') \<and> slots_cleared (m_se (s_mon (b_sec b'))) \<and> \<not> g_is_user_smc_in_progress (b_sec b')
     \<and> g_registered_interrupts b' = g_registered_interrupts b) (warmboot_resume e b)"
proof -
  have d: "devices_answer (e_dev e)" using ok by (simp add: boot_ready_def)
  obtain s1 where s1: "warmboot_serial e (b_sec b) = Ok s1" "io_only (b_sec b) s1"
    using warmboot_serial_succeeds [OF d, of "b_sec b"] by (auto simp: succeeds_def)
  have m1: "s_mon s1 = s_mon (b_sec b)" using s1(2) by (cases s1, cases "b_sec b") (simp add: io_only_def)
  let ?b1 = "upd_gic intr_initialize_gic_nonsecure (b\<lparr>b_sec := s1\<rparr>)"
  obtain b2 where b2: "bootup_misc_mmio e ?b1 = Ok b2" "boot_kept {k. k < 10} s1 (b_sec b2)" "boot_around ?b1 b2" "slots_cleared (m_se (s_mon (b_sec b2)))"
    using bootup_misc_mmio_ready [of P e ?b1] ok c v up m1 by (auto simp: succeeds_def upd_gic_def)
  have c2: "m_cfg (s_mon (b_sec b2)) = m_cfg (s_mon (b_sec b))" using boot_kept_cfg [OF b2(2)] m1 by simp
  obtain s3 where s3: "secure_additional_devices e (b_sec b2) = Ok s3" "io_only (b_sec b2) s3"
    using secure_devices_succeed [of "b_sec b2" e] c c2 by (auto simp: succeeds_def)
  have m3: "s_mon s3 = s_mon (b_sec b2)" using s3(2) by (cases s3, cases "b_sec b2") (simp add: io_only_def)
  obtain s4 where s4: "warmboot_hiz e s3 = Ok s4" "io_only s3 s4"
    using warmboot_hiz_succeeds [OF d, of s3] c c2 m3 by (auto simp: succeeds_def)
  have m4: "s_mon s4 = s_mon s3" using s4(2) by (cases s3, cases s4) (simp add: io_only_def)
  let ?s5 = "clear_user_smc_in_progress s4" and ?b5 = "b2\<lparr>b_sec := clear_user_smc_in_progress s4\<rparr>"
  have "boot_kept {k. k < 10} (b_sec b) s1" by (rule boot_kept_io [OF s1(2)])
  also note b2(2) also note boot_kept_io [OF s3(2)] also note boot_kept_io [OF s4(2)]
  also have "boot_kept {k. k < 10} s4 ?s5" by (simp add: boot_kept_def boot_fixed_def clear_user_smc_in_progress_def)
  finally have k: "boot_kept {k. k < 10} (b_sec b) ?s5" .
  have "mon_fw ?s5 = Ok (fw_of (m_cfg (s_mon (b_sec b))))" using c c2 m3 m4 by simp
  then have "warmboot_resume e b = (if fw_of (m_cfg (s_mon (b_sec b))) \<ge> FW_400 then setup_4x_mmio e ?b5 else Ok ?b5)"
    using s1(1) b2(1) s3(1) s4(1) v(2) m1 unfolding warmboot_resume_def
    by (simp add: on_sec_def se_verify_flags_cleared_def panic_if_def Let_def)
  moreover have "succeeds (\<lambda>b'. boot_kept {} ?s5 (b_sec b') \<and> s_mon (b_sec b') = s_mon ?s5 \<and> \<not> g_is_user_smc_in_progress (b_sec b')
      \<and> g_registered_interrupts b' = g_registered_interrupts b2) \<dots>"
  proof (cases "fw_of (m_cfg (s_mon (b_sec b))) \<ge> FW_400")
    case True
    then show ?thesis
      using setup_4x_mmio_succeeds [of ?b5 e] c c2 m3 m4 d
      by (auto simp: clear_user_smc_in_progress_def elim!: succeeds_mono)
  qed (simp add: clear_user_smc_in_progress_def)
  ultimately show ?thesis
    using k b2(3,4) m3 m4 up by (auto simp: boot_around_def upd_gic_def elim!: succeeds_mono intro: boot_kept_trans [OF _ boot_kept_mono])
qed

text \<open>The jump at the end: the entry point of the core is used up.\<close>

lemma jump_succeeds:
  assumes "ELR_EL3 (g_cpu_contexts (s_cpu (b_sec b)) ! e_core e) \<noteq> 0" "\<not> is_core_active (e_core e) (s_cpu (b_sec b))"
    "cpu_wf (s_cpu (b_sec b))" "e_core e < 4"
  shows "succeeds (\<lambda>(arg, ep, spsr, _, b'). ep = ELR_EL3 (g_cpu_contexts (s_cpu (b_sec b)) ! e_core e)
     \<and> arg = ctx_argument (g_cpu_contexts (s_cpu (b_sec b)) ! e_core e) \<and> spsr AND NOT 0xD = 0x3C0
     \<and> is_core_active (e_core e) (s_cpu (b_sec b')) \<and> cpu_wf (s_cpu (b_sec b'))
     \<and> b' = b\<lparr>b_sec := (b_sec b)\<lparr>s_cpu := s_cpu (b_sec b')\<rparr>\<rparr>) (jump_to_lower_el e critsec b)"
proof -
  have "(0x3C0 OR (x AND 0xD)) AND NOT 0xD = (0x3C0 :: u32)" for x :: u32
    by (simp only: bit.conj_disj_distrib2 and.assoc) simp
  then show ?thesis
    using assms
    by (simp add: jump_to_lower_el_def core_jump_to_lower_el_def use_core_entrypoint_and_argument_def is_core_active_def cpu_wf_def
        upd_context_def Let_def)
qed

text \<open>The register is cleared by a sleep and written by \<^verbatim>\<open>bootup_misc_mmio\<close>.\<close>

definition after_sleep :: "senv \<Rightarrow> boot_state \<Rightarrow> bool" where
  "after_sleep e b \<longleftrightarrow> e_dev e (s_io (b_sec b)) (MAKE_MC_REG MC_SECURITY_CFG3) = 0"

lemma warmboot_main_succeeds:
  fixes b :: boot_state
  defines "s \<equiv> b_sec b"
  assumes ok: "boot_ready P e (s_mon s)" and wf: "secmon_wf s"
    and v: "vector_stored (m_se (s_mon s))" "FLAGS_REG (m_se (s_mon s)) AND 3 = 0" and up: "g_has_booted_up b"
    and core: "e_core e < 4" "\<not> is_core_active (e_core e) (s_cpu s)" "ELR_EL3 (g_cpu_contexts (s_cpu s) ! e_core e) \<noteq> 0"
  shows "succeeds (\<lambda>(arg, ep, spsr, _, b'). ep = ELR_EL3 (g_cpu_contexts (s_cpu s) ! e_core e)
     \<and> arg = ctx_argument (g_cpu_contexts (s_cpu s) ! e_core e) \<and> spsr AND NOT 0xD = 0x3C0
     \<and> is_core_active (e_core e) (s_cpu (b_sec b')) \<and> secmon_wf (b_sec b')
     \<and> (if after_sleep e b then slots_cleared (m_se (s_mon (b_sec b'))) \<and> \<not> g_is_user_smc_in_progress (b_sec b')
          \<and> se_frame {k. k < 10} (m_se (s_mon s)) (m_se (s_mon (b_sec b')))
        else g_is_user_smc_in_progress (b_sec b') = g_is_user_smc_in_progress s
          \<and> se_frame {} (m_se (s_mon s)) (m_se (s_mon (b_sec b'))))
     \<and> g_registered_interrupts b' = g_registered_interrupts b) (warmboot_main e critsec b)"
proof -
  define s1 where "s1 = snd (read_io e (MAKE_MC_REG MC_SECURITY_CFG3) (identity_unmap_iram_cd_tzram s))"
  have io: "s_io (identity_unmap_iram_cd_tzram s) = s_io s" by (simp add: identity_unmap_iram_cd_tzram_def Let_def)
  have "io_only (identity_unmap_iram_cd_tzram s) s1" by (simp add: s1_def read_io_def io_read_def io_only_def suffix_ConsI)
  then have k1: "boot_kept W s s1" for W using boot_kept_trans [OF identity_unmap_kept boot_kept_io] by blast
  define b1 where "b1 = b\<lparr>b_sec := s1\<rparr>"
  have m1: "m_se (s_mon s1) = m_se (s_mon s)" "m_fuse (s_mon s1) = m_fuse (s_mon s)" "m_cfg (s_mon s1) = m_cfg (s_mon s)"
      "g_is_user_smc_in_progress s1 = g_is_user_smc_in_progress s"
    by (simp_all add: s1_def read_io_def io_read_def identity_unmap_iram_cd_tzram_def Let_def)
  have c: "g_has_loaded_config (m_cfg (s_mon s))" using wf by (simp add: secmon_wf_def mon_wf_def)
  let ?post = "\<lambda>b'. if after_sleep e b
     then boot_kept {k. k < 10} s (b_sec b') \<and> slots_cleared (m_se (s_mon (b_sec b'))) \<and> \<not> g_is_user_smc_in_progress (b_sec b')
     else boot_kept {} s (b_sec b') \<and> g_is_user_smc_in_progress (b_sec b') = g_is_user_smc_in_progress s"
  have "succeeds (\<lambda>b'. ?post b' \<and> g_registered_interrupts b' = g_registered_interrupts b) (if after_sleep e b then warmboot_resume e b1 else Ok b1)"
    using warmboot_resume_succeeds [of P e b1] ok c v up m1 k1
    by (auto simp: b1_def boot_ready_def elim!: succeeds_mono intro: boot_kept_trans)
  then obtain b2 where b2: "(if after_sleep e b then warmboot_resume e b1 else Ok b1) = Ok b2" "?post b2" "g_registered_interrupts b2 = g_registered_interrupts b"
    by (auto simp: succeeds_def)
  define b3 where "b3 = (let b = setup_current_core_state e b2
    in b\<lparr>b_sec := set_extabt_serror_taken_to_el3 e (bootconfig_take_extabt_serror_to_el3 (m_bootconfig (s_mon (b_sec b)))) (b_sec b)\<rparr>)"
  have k3: "boot_kept W (b_sec b2) (b_sec b3)" for W
    unfolding b3_def Let_def using boot_kept_trans [OF core_state_kept(1) extabt_kept] by simp
  have r3: "g_is_user_smc_in_progress (b_sec b3) = g_is_user_smc_in_progress (b_sec b2)" "g_registered_interrupts b3 = g_registered_interrupts b2"
    using core_state_kept(2) by (simp_all add: b3_def Let_def set_extabt_serror_taken_to_el3_def setup_current_core_state_def upd_gic_def case_prod_beta)
  have z3: "slots_cleared (m_se (s_mon (b_sec b3)))" if "slots_cleared (m_se (s_mon (b_sec b2)))"
    using that boot_kept_key [OF k3, of _ "{}"] by (simp add: slots_cleared_def)
  have p3: "?post b3" using b2(2) k3 z3 r3(1) boot_kept_trans by (auto split: if_splits)
  then have kk: "boot_kept {k. k < 10} s (b_sec b3)" using boot_kept_mono by (auto split: if_splits)
  then have cores: "cores_kept (s_cpu s) (s_cpu (b_sec b3))" and wf3: "secmon_wf (b_sec b3)" using boot_kept_wf wf by (auto simp: boot_kept_def)
  have "cpu_wf (s_cpu s)" using wf by (simp add: secmon_wf_def)
  then have c3: "cpu_wf (s_cpu (b_sec b3))" "\<not> is_core_active (e_core e) (s_cpu (b_sec b3))"
      "ELR_EL3 (g_cpu_contexts (s_cpu (b_sec b3)) ! e_core e) = ELR_EL3 (g_cpu_contexts (s_cpu s) ! e_core e)"
      "ctx_argument (g_cpu_contexts (s_cpu (b_sec b3)) ! e_core e) = ctx_argument (g_cpu_contexts (s_cpu s) ! e_core e)"
    using cores core by (auto simp: cores_kept_def)
  have rd: "read_io e (MAKE_MC_REG MC_SECURITY_CFG3) (identity_unmap_iram_cd_tzram s) = (e_dev e (s_io s) (MAKE_MC_REG MC_SECURITY_CFG3), s1)"
    by (simp add: s1_def read_io_def io_read_def io)
  have main: "warmboot_main e critsec b = jump_to_lower_el e critsec b3"
    unfolding warmboot_main_def Let_def s_def [symmetric] rd prod.case if_not_P [OF core(2)]
      b2(1) [unfolded after_sleep_def b1_def, folded s_def] bindR.simps by (simp add: b3_def Let_def)
  have wfj: "secmon_wf ((b_sec b3)\<lparr>s_cpu := cpu\<rparr>)" if "cpu_wf cpu" for cpu using wf3 that by (simp add: secmon_wf_def)
  have fr: "se_frame W (m_se (s_mon s)) (m_se (s_mon (b_sec b3)))" if "boot_kept W s (b_sec b3)" for W
    using that by (simp add: boot_kept_def boot_keeps_def)
  obtain arg ep spsr cs b' where j: "jump_to_lower_el e critsec b3 = Ok (arg, ep, spsr, cs, b')" "ep = ELR_EL3 (g_cpu_contexts (s_cpu s) ! e_core e)"
      "arg = ctx_argument (g_cpu_contexts (s_cpu s) ! e_core e)" "spsr AND NOT 0xD = 0x3C0" "is_core_active (e_core e) (s_cpu (b_sec b'))"
      "cpu_wf (s_cpu (b_sec b'))" "b' = b3\<lparr>b_sec := (b_sec b3)\<lparr>s_cpu := s_cpu (b_sec b')\<rparr>\<rparr>"
    using jump_succeeds [of b3 e critsec] c3 core by (auto simp: succeeds_def simp del: bit.conj_disj_distribs)
  have b': "s_mon (b_sec b') = s_mon (b_sec b3)" "g_is_user_smc_in_progress (b_sec b') = g_is_user_smc_in_progress (b_sec b3)"
      "g_registered_interrupts b' = g_registered_interrupts b3" "secmon_wf (b_sec b')"
    by (subst j(7), simp add: wfj [OF j(6)])+
  show ?thesis
    unfolding main j(1) using j(2-5) b' p3 r3(2) b2(3) fr by (auto split: if_splits)
qed

end
