(* ===== verification/Boot_Cold.thy ===== *)
theory Boot_Cold
  imports Boot_Live
begin

text \<open>
  The cold boot of a retail console up to the loaded boot configuration: it returns, and what it leaves is the invariant that every
  call of the running monitor starts from, with the master key of the console found.
\<close>

section \<open>Before the boot\<close>

text \<open>The globals of the monitor as its image has them, and the configuration in memory for a firmware other than 4.0.0.\<close>

definition loaded_cfg :: "monitor \<Rightarrow> exocfg" where
  "loaded_cfg m =
     (let c = (m_cfg m)\<lparr>g_has_loaded_config := True\<rparr>;
          mailbox = exosphere_config_of (phys_read (mon_mem m) 0x8000F000 0x130)
      in if cfg_magic mailbox = MAGIC_EXOSPHERE_CONFIG then c\<lparr>g_exosphere_cfg := mailbox\<rparr> else c)"

definition cold_start :: "boot_state \<Rightarrow> bool" where
  "cold_start b \<longleftrightarrow> (let s = b_sec b; m = s_mon s in
     \<not> g_has_loaded_config (m_cfg m) \<and> mkey_wf (m_mkey m) \<and> \<not> g_determined_mkey_revision (m_mkey m)
     \<and> \<not> g_se_generated_vector (m_se m) \<and> FLAGS_REG (m_se m) AND 3 = 0
     \<and> length (CRYPTO_CTR_REG (m_se m)) = 4 \<and> length (g_se_modulus_sizes (m_se m)) = 2 \<and> length (g_se_exp_sizes (m_se m)) = 2
     \<and> upage_wf (m_upage m) \<and> length (g_random_cache (m_rcache m)) = 0x400
     \<and> g_tkey_type (m_tkey m) \<le> 1 \<and> length (g_tkey_expected_label_hash (m_tkey m)) = 4
     \<and> length (g_imported_exponents m) = 4 \<and> (\<forall>x \<in> set (g_imported_exponents m). length x = 0x100)
     \<and> cpu_wf (s_cpu s) \<and> mc_wf (s_mc s) \<and> length (g_configured_carveouts s) = 2 \<and> g_smc_callback_key s = 0
     \<and> \<not> s_ams_userpage_mapped s \<and> \<not> s_ams_iram_page_mapped s
     \<and> \<not> g_has_booted_up b \<and> g_registered_interrupts b = g_registered_interrupts_init)"

section \<open>Steps\<close>

lemma load_config_eq:
  assumes "\<not> g_has_loaded_config (m_cfg (s_mon s))"
  shows "\<exists>ci. load_config s = Ok (s\<lparr>s_mon := (s_mon s)\<lparr>m_cfg := loaded_cfg (s_mon s), m_configitem := ci\<rparr>\<rparr>)"
proof -
  let ?m = "s_mon s" and ?c = "loaded_cfg (s_mon s)"
  have l: "exosphere_load_config (exosphere_config_of (phys_read (mon_mem ?m) 0x8000F000 0x130)) (m_cfg ?m) = Ok (fw_of ?c, ?c)"
    using assms by (simp add: exosphere_load_config_def loaded_cfg_def Let_def)
  have c: "g_has_loaded_config ?c" by (simp add: loaded_cfg_def Let_def)
  define ci where "ci = configitem_set_debugmode_override (exosphere_check_flag ?c 4) (exosphere_check_flag ?c 2) (m_configitem ?m)"
  have "load_config s = Ok (s\<lparr>s_mon := ?m\<lparr>m_cfg := ?c,
      m_configitem := if exosphere_check_flag ?c 8 then configitem_disable_usermode_exception_handlers ci else ci\<rparr>\<rparr>)"
    unfolding load_config_def Let_def l bindR.simps prod.case exosphere_should_override_debugmode_user_def
      exosphere_should_override_debugmode_priv_def exosphere_should_disable_usermode_exception_handlers_def
    using c by (simp add: ci_def)
  then show ?thesis by blast
qed

lemma mon_is_retail_eq: "mon_is_retail e m = Ok (fuse_get_retail_type (m_fuse m) \<noteq> 0)"
  by (simp add: mon_is_retail_def configitem_is_retail_eq)

lemma retail_chip: "FUSE_CHIP_REGS f' = FUSE_CHIP_REGS f \<Longrightarrow> fuse_get_retail_type f' = fuse_get_retail_type f"
  by (simp add: fuse_get_retail_type_def)

lemma pmc_writes_grow: "suffix t tr \<Longrightarrow> suffix t (initial_pmc_writes dev fw tr)"
  by (simp add: initial_pmc_writes_def Let_def split: option.split)

lemma boot_reason_io: "io_only s (snd (read_boot_reason e a s))"
  by (simp add: read_boot_reason_def read_io_def io_read_def io_only_def Let_def suffix_ConsI)

lemma randomcache_init_succeeds:
  assumes "se_engine_ok P eng" "length (g_random_cache rc) = 0x400"
  shows "succeeds (\<lambda>(rc', se'). rcache_wf rc' \<and> g_random_cache rc' = rand_bytes P (op_count se) 0x400 \<and> se_core se' = se_core se)
     (randomcache_init eng rc se)"
proof -
  obtain se' where "randomcache_refill_segment eng 0 0x400 rc se = Ok (rc\<lparr>g_random_cache := blit (g_random_cache rc) 0 (rand_bytes P (op_count se) 0x400)\<rparr>, se')"
      "se_core se' = se_core se"
    using refill_segment_ok [OF assms, of 0 "0x400" se] by auto
  moreover have "blit (g_random_cache rc) 0 (rand_bytes P (op_count se) 0x400) = rand_bytes P (op_count se) 0x400"
    using blit_0_all [of "rand_bytes P (op_count se) 0x400" "g_random_cache rc"] assms by (simp add: length_rand_bytes)
  ultimately show ?thesis using assms by (simp add: randomcache_init_def rcache_wf_def length_rand_bytes)
qed

lemma sync_succeeds:
  assumes "g_has_loaded_config (m_cfg (s_mon s))" "counter_advances (e_dev e)"
    "settles (e_dev e) (MAILBOX_NX_BOOTLOADER_SETUP_STATE (fw_of (m_cfg (s_mon s)))) (\<lambda>v. v < state)"
  shows "succeeds (io_only s) (sync_with_nx_bootloader e state s)"
proof -
  let ?r = "poll_wait (e_dev e) (MAILBOX_NX_BOOTLOADER_SETUP_STATE (fw_of (m_cfg (s_mon s)))) (\<lambda>v. v < state) 100 (s_io s)"
  have "succeeds (suffix (s_io s)) ?r"
    by (rule succeeds_mono [OF poll_wait_succeeds [OF assms(2) _ assms(3)]]) simp_all
  then show ?thesis using assms(1) on_io_grows [of s] by (simp add: sync_with_nx_bootloader_def)
qed

section \<open>The first half of \<open>load_package2\<close>\<close>

definition cold_ready :: "se_prims \<Rightarrow> senv \<Rightarrow> boot_state \<Rightarrow> bool" where
  "cold_ready P e b \<longleftrightarrow> (let m = s_mon (b_sec b) in
     cold_start b \<and> boot_ready P e m \<and> fuse_get_retail_type (m_fuse m) \<noteq> 0 \<and> fw_of (loaded_cfg m) \<noteq> FW_400
     \<and> settles (e_dev e) (MAILBOX_NX_BOOTLOADER_SETUP_STATE (fw_of (loaded_cfg m))) (\<lambda>v. v < 1))"

text \<open>What is left: the invariant, the master keys, and slots that no key of the boot loader is in any more.\<close>

definition booted :: "se_prims \<Rightarrow> boot_state \<Rightarrow> boot_state \<Rightarrow> bool" where
  "booted P b b' \<longleftrightarrow> (let m = s_mon (b_sec b); s' = b_sec b'; m' = s_mon s' in
     secmon_wf s' \<and> m_cfg m' = loaded_cfg m \<and> mkey_consistent P True (m_mkey m') (m_se m')
     \<and> slots_cleared (m_se m') \<and> aes_key (m_se m') 0xC = aes_key (m_se m) 0xC
     \<and> g_random_cache_low (m_rcache m') = 0 \<and> g_random_cache_high (m_rcache m') = 0x3FF
     \<and> m_bootconfig m' = bootconfig_clear (m_bootconfig m')
     \<and> g_has_booted_up b' \<and> g_registered_interrupts b' = handlers_table (boot_handlers (fw_of (loaded_cfg m))))"

lemma setup_se_succeeds:
  fixes b :: boot_state
  defines "m \<equiv> s_mon (b_sec b)"
  assumes ok: "env_ok P (e_user e)" and c: "g_has_loaded_config (m_cfg m)" "fw_of (m_cfg m) \<noteq> FW_400" and r: "fuse_get_retail_type (m_fuse m) \<noteq> 0"
    and mk: "mkey_wf (m_mkey m)" "\<not> g_determined_mkey_revision (m_mkey m)" "\<exists>r < 10. is_generation P True (aes_key (m_se m) 0xC) r"
    and v: "\<not> g_se_generated_vector (m_se m)" "FLAGS_REG (m_se m) AND 3 = 0"
  shows "succeeds (\<lambda>b'. \<exists>m'. b' = (upd_gic intr_initialize_gic_nonsecure b)\<lparr>b_sec := (b_sec b)\<lparr>s_mon := m'\<rparr>\<rparr>
     \<and> m' = m\<lparr>m_mkey := m_mkey m', m_se := m_se m'\<rparr> \<and> mkey_consistent P True (m_mkey m') (m_se m')
     \<and> se_frame {9, 0xA, 0xB, 0xD} (m_se m) (m_se m') \<and> vector_stored (m_se m')) (setup_se e b)"
proof -
  have "mon_is_retail (e_user e) m = Ok True" using r by (simp add: mon_is_retail_eq)
  from setup_se_keys_succeeds [OF ok c this mk v(1)]
  obtain m' where m': "setup_se_keys (e_user e) m = Ok m'" "m' = m\<lparr>m_mkey := m_mkey m', m_se := m_se m'\<rparr>"
      "mkey_consistent P True (m_mkey m') (m_se m')" "se_frame {9, 0xA, 0xB, 0xD} (m_se m) (m_se m')" "vector_stored (m_se m')"
    by (auto simp: succeeds_def vector_stored_def)
  have "setup_se e b = Ok ((upd_gic intr_initialize_gic_nonsecure b)\<lparr>b_sec := (b_sec b)\<lparr>s_mon := m'\<rparr>\<rparr>)"
    using v(2) m'(1) by (simp add: setup_se_def se_verify_flags_cleared_def panic_if_def on_sec_def with_mon_def upd_gic_def m_def)
  then show ?thesis using m'(2-5) by auto
qed

text \<open>The invariant but for the random cache, which is filled last.\<close>

definition wf_but_cache :: "secmon \<Rightarrow> bool" where
  "wf_but_cache s \<longleftrightarrow> (\<forall>rc. rcache_wf rc \<longrightarrow> secmon_wf (s\<lparr>s_mon := (s_mon s)\<lparr>m_rcache := rc\<rparr>\<rparr>))"

lemma wf_but_cache_kept:
  assumes "boot_kept W s s'" "wf_but_cache s"
  shows "wf_but_cache s'"
proof -
  have "boot_kept W (s\<lparr>s_mon := (s_mon s)\<lparr>m_rcache := rc\<rparr>\<rparr>) (s'\<lparr>s_mon := (s_mon s')\<lparr>m_rcache := rc\<rparr>\<rparr>)" for rc
    using assms(1) by (simp add: boot_kept_def boot_fixed_def Let_def)
  then show ?thesis using boot_kept_wf assms(2) unfolding wf_but_cache_def by blast
qed

lemma cold_start_wf:
  assumes "cold_start b" "g_has_loaded_config c" "mkey_wf mk" "se_frame W (m_se (s_mon (b_sec b))) se"
    "m = (s_mon (b_sec b))\<lparr>m_cfg := c, m_configitem := ci, m_mkey := mk, m_se := se\<rparr>"
  shows "wf_but_cache ((b_sec b)\<lparr>s_mon := m\<rparr>)"
  using assms by (simp add: wf_but_cache_def cold_start_def secmon_wf_def mon_wf_def se_frame_def Let_def)

text \<open>From the set-up of the engine to the state of the core.\<close>

definition boot_middle :: "senv \<Rightarrow> u32 \<Rightarrow> boot_state \<Rightarrow> boot_state res" where
  "boot_middle e fw b =
     (let b = b\<lparr>b_sec := upd_io (initial_pmc_writes (e_dev e) fw) (b_sec b)\<rparr> in
      bindR (on_sec (on_io (wait (e_dev e) 1000)) b) (\<lambda>b.
      bindR (bootup_misc_mmio e b) (\<lambda>b. Ok (setup_current_core_state e b))))"

lemma boot_middle_succeeds:
  fixes b :: boot_state
  defines "m \<equiv> s_mon (b_sec b)"
  assumes ok: "boot_ready P e m" and c: "g_has_loaded_config (m_cfg m)" and v: "vector_stored (m_se m)"
    and b: "\<not> g_has_booted_up b" "g_registered_interrupts b = g_registered_interrupts_init"
  shows "succeeds (\<lambda>b'. boot_kept {k. k < 10} (b_sec b) (b_sec b') \<and> slots_cleared (m_se (s_mon (b_sec b')))
     \<and> g_has_booted_up b' \<and> g_registered_interrupts b' = handlers_table (boot_handlers (fw_of (m_cfg m)))) (boot_middle e fw b)"
proof -
  let ?s = "upd_io (initial_pmc_writes (e_dev e) fw) (b_sec b)"
  have d: "counter_advances (e_dev e)" using ok by (simp add: boot_ready_def devices_answer_def)
  have i1: "io_only (b_sec b) ?s" by (intro upd_io_only pmc_writes_grow) simp
  obtain s where s: "on_io (wait (e_dev e) 1000) ?s = Ok s" "io_only ?s s"
    using on_io_grows [of ?s "wait (e_dev e) 1000", OF waits_grow [OF d]] by (auto simp: succeeds_def)
  have i2: "io_only (b_sec b) s" using i1 s(2) by (rule io_only_trans)
  then have m: "s_mon s = m" by (cases s, cases "b_sec b") (simp add: io_only_def m_def)
  obtain b2 where b2: "bootup_misc_mmio e (b\<lparr>b_sec := s\<rparr>) = Ok b2" "boot_kept {k. k < 10} s (b_sec b2)" "boot_around (b\<lparr>b_sec := s\<rparr>) b2"
      "slots_cleared (m_se (s_mon (b_sec b2)))"
    using bootup_misc_mmio_ready [of P e "b\<lparr>b_sec := s\<rparr>"] ok c v b m by (auto simp: succeeds_def)
  let ?b3 = "setup_current_core_state e b2"
  have k: "boot_kept {k. k < 10} (b_sec b) (b_sec ?b3)"
    using boot_kept_trans [OF boot_kept_io [OF i2] boot_kept_trans [OF b2(2) core_state_kept(1)]] .
  have "aes_key (m_se (s_mon (b_sec ?b3))) k = aes_key (m_se (s_mon (b_sec b2))) k" for k
    using boot_kept_key [OF core_state_kept(1), where W = "{}"] by simp
  then have "slots_cleared (m_se (s_mon (b_sec ?b3)))" using b2(4) by (simp add: slots_cleared_def)
  moreover have "g_has_booted_up ?b3 = g_has_booted_up b2" "g_registered_interrupts ?b3 = g_registered_interrupts b2"
    by (simp_all add: setup_current_core_state_def upd_gic_def Let_def case_prod_beta)
  ultimately show ?thesis
    using s(1) b2(1,3) b k m by (simp add: boot_middle_def on_sec_def boot_around_def)
qed

definition boot_end :: "senv \<Rightarrow> u32 \<Rightarrow> secmon \<Rightarrow> secmon res" where
  "boot_end e fw s =
     (let (reason, s) = read_boot_reason e (MAILBOX_NX_BOOTLOADER_BASE fw + 0x10) s;
          m = (s_mon s)\<lparr>m_bootconfig := bootconfig_load_boot_reason reason (m_bootconfig (s_mon s))\<rparr>
      in bindR (randomcache_init (env_eng (e_user e)) (m_rcache m) (m_se m)) (\<lambda>(rc, se).
         let s = s\<lparr>s_mon := m\<lparr>m_rcache := rc, m_se := se\<rparr>\<rparr>;
             s = upd_io (io_write (MAILBOX_NX_BOOTLOADER_BASE fw + 0xFC) 1) s
         in bindR (sync_with_nx_bootloader e 1 s) (\<lambda>s. with_mon (setup_boot_config (e_user e)) s)))"

lemma boot_end_succeeds:
  fixes s :: secmon
  defines "m \<equiv> s_mon s"
  assumes ok: "se_engine_ok P (env_eng (e_user e))" "counter_advances (e_dev e)"
    and c: "g_has_loaded_config (m_cfg m)" "fuse_get_retail_type (m_fuse m) \<noteq> 0" "length (g_random_cache (m_rcache m)) = 0x400"
    and st: "settles (e_dev e) (MAILBOX_NX_BOOTLOADER_SETUP_STATE (fw_of (m_cfg m))) (\<lambda>v. v < 1)"
    and wf: "wf_but_cache s"
  shows "succeeds (\<lambda>s'. secmon_wf s' \<and> m_cfg (s_mon s') = m_cfg m \<and> m_mkey (s_mon s') = m_mkey m \<and> (\<forall>k. aes_key (m_se (s_mon s')) k = aes_key (m_se m) k)
     \<and> g_random_cache_low (m_rcache (s_mon s')) = 0 \<and> g_random_cache_high (m_rcache (s_mon s')) = 0x3FF
     \<and> m_bootconfig (s_mon s') = bootconfig_clear (m_bootconfig (s_mon s'))) (boot_end e fw s)"
proof -
  obtain reason s1 where s1: "read_boot_reason e (MAILBOX_NX_BOOTLOADER_BASE fw + 0x10) s = (reason, s1)" by fastforce
  then have i1: "io_only s s1" using boot_reason_io [of s e "MAILBOX_NX_BOOTLOADER_BASE fw + 0x10"] by simp
  then have m1: "s_mon s1 = m" by (cases s, cases s1) (simp add: io_only_def m_def)
  obtain rc se where rc: "randomcache_init (env_eng (e_user e)) (m_rcache m) (m_se m) = Ok (rc, se)" "rcache_wf rc" "se_core se = se_core (m_se m)"
      "g_random_cache_low rc = 0" "g_random_cache_high rc = 0x3FF"
    using randomcache_init_succeeds [OF ok(1) c(3), of "m_se m"] by (auto simp: succeeds_def randomcache_init_def elim!: bindR_OkE)
  define m2 where "m2 = m\<lparr>m_bootconfig := bootconfig_load_boot_reason reason (m_bootconfig m), m_rcache := rc, m_se := se\<rparr>"
  define s2 where "s2 = upd_io (io_write (MAILBOX_NX_BOOTLOADER_BASE fw + 0xFC) 1) (s1\<lparr>s_mon := m2\<rparr>)"
  have m2: "s_mon s2 = m2" "m_cfg m2 = m_cfg m" "m_fuse m2 = m_fuse m" by (simp_all add: s2_def m2_def upd_io_def)
  obtain s3 where s3: "sync_with_nx_bootloader e 1 s2 = Ok s3" "io_only s2 s3"
    using sync_succeeds [of s2 e 1] ok(2) c(1) st m2 by (auto simp: succeeds_def)
  have m3: "s_mon s3 = m2" using s3(2) m2(1) by (cases s2, cases s3) (simp add: io_only_def)
  let ?m4 = "m2\<lparr>m_bootconfig := bootconfig_clear (m_bootconfig m2)\<rparr>"
  have run: "boot_end e fw s = Ok (s3\<lparr>s_mon := ?m4\<rparr>)"
    using s1 rc(1) s3(1) m3 c(2) m1 m2
    by (simp add: boot_end_def with_mon_def setup_boot_config_def mon_is_retail_eq m2_def [symmetric] s2_def [symmetric] Let_def)
  have "wf_but_cache s1" using wf_but_cache_kept [OF boot_kept_io [OF i1] wf] .
  then have "secmon_wf (s1\<lparr>s_mon := m\<lparr>m_rcache := rc\<rparr>\<rparr>)" using rc(2) m1 by (simp add: wf_but_cache_def)
  moreover have f: "boot_keeps {} (m_se m) se" by (rule boot_keeps_core [OF rc(3)])
  ultimately have "secmon_wf (s1\<lparr>s_mon := m2\<rparr>)"
    by (simp add: secmon_wf_def mon_wf_def m2_def boot_keeps_def se_frame_def bootconfig_load_boot_reason_def)
  then have "secmon_wf s2" by (simp add: s2_def upd_io_def)
  then have "secmon_wf s3" using boot_kept_wf [OF boot_kept_io [OF s3(2)]] by blast
  then have "secmon_wf (s3\<lparr>s_mon := ?m4\<rparr>)" using m3 by (simp add: secmon_wf_def mon_wf_def)
  then show ?thesis
    unfolding run using rc(4,5) boot_keepsD [OF f] by (simp add: m2_def bootconfig_clear_def)
qed

lemma boot_monitor_phases:
  "boot_monitor e b =
     bindR (on_sec load_config b) (\<lambda>b.
     bindR (setup_se e b) (\<lambda>b.
     bindR (boot_fw b) (\<lambda>fw.
     bindR (boot_middle e fw b) (\<lambda>b.
     bindR (boot_end e fw (b_sec b)) (\<lambda>s. Ok (b\<lparr>b_sec := s\<rparr>))))))"
  by (simp add: boot_monitor_def boot_middle_def boot_end_def bindR_assoc case_prod_unfold Let_def)

lemma boot_monitor_succeeds:
  assumes r: "cold_ready P e b" and g: "\<exists>r < 10. is_generation P True (aes_key (m_se (s_mon (b_sec b))) 0xC) r"
  shows "succeeds (booted P b) (boot_monitor e b)"
proof -
  define m where "m = s_mon (b_sec b)"
  let ?c = "loaded_cfg m"
  note rr = r [unfolded cold_ready_def Let_def, folded m_def]
  have cs: "cold_start b" and br: "boot_ready P e m" using rr by simp_all
  have e: "se_engine_ok P (env_eng (e_user e))" "counter_advances (e_dev e)" "env_ok P (e_user e)"
    using br by (simp_all add: boot_ready_def env_ok_def devices_answer_def)
  note c0 = cs [unfolded cold_start_def Let_def, folded m_def]
  have lc: "g_has_loaded_config ?c" by (simp add: loaded_cfg_def Let_def)
  obtain ci where l: "load_config (b_sec b) = Ok ((b_sec b)\<lparr>s_mon := m\<lparr>m_cfg := ?c, m_configitem := ci\<rparr>\<rparr>)"
    using load_config_eq [of "b_sec b"] c0 by (auto simp: m_def)
  define b1 where "b1 = b\<lparr>b_sec := (b_sec b)\<lparr>s_mon := m\<lparr>m_cfg := ?c, m_configitem := ci\<rparr>\<rparr>\<rparr>"
  have m1: "s_mon (b_sec b1) = m\<lparr>m_cfg := ?c, m_configitem := ci\<rparr>" by (simp add: b1_def)
  obtain b2 m2 where b2: "setup_se e b1 = Ok b2" "b2 = (upd_gic intr_initialize_gic_nonsecure b1)\<lparr>b_sec := (b_sec b1)\<lparr>s_mon := m2\<rparr>\<rparr>"
      "m2 = (s_mon (b_sec b1))\<lparr>m_mkey := m_mkey m2, m_se := m_se m2\<rparr>" "mkey_consistent P True (m_mkey m2) (m_se m2)"
      "se_frame {9, 0xA, 0xB, 0xD} (m_se m) (m_se m2)" "vector_stored (m_se m2)"
    using setup_se_succeeds [of P e b1] e(3) lc rr c0 g m1 by (auto simp: succeeds_def m_def)
  have s2: "b_sec b2 = (b_sec b)\<lparr>s_mon := m2\<rparr>" "\<not> g_has_booted_up b2" "g_registered_interrupts b2 = g_registered_interrupts_init"
    using c0 by (simp_all add: b2(2) b1_def upd_gic_def)
  have m2: "m2 = m\<lparr>m_cfg := ?c, m_configitem := ci, m_mkey := m_mkey m2, m_se := m_se m2\<rparr>" using b2(3) m1 by simp
  have mm: "m_cfg m2 = ?c" "m_fuse m2 = m_fuse m" "m_rcache m2 = m_rcache m" by (subst m2, simp)+
  have wf2: "wf_but_cache (b_sec b2)"
    unfolding s2(1) by (rule cold_start_wf [OF cs lc [unfolded m_def] _ b2(5) [unfolded m_def] m2 [unfolded m_def]]) (use b2(4) in \<open>simp add: mkey_consistent_def\<close>)
  obtain b3 where b3: "boot_middle e (fw_of ?c) b2 = Ok b3" "boot_kept {k. k < 10} (b_sec b2) (b_sec b3)" "slots_cleared (m_se (s_mon (b_sec b3)))"
      "g_has_booted_up b3" "g_registered_interrupts b3 = handlers_table (boot_handlers (fw_of ?c))"
    using boot_middle_succeeds [of P e b2 "fw_of ?c"] br lc b2(6) s2 mm by (auto simp: succeeds_def boot_ready_def)
  let ?m3 = "s_mon (b_sec b3)"
  have m3: "m_cfg ?m3 = ?c" "m_mkey ?m3 = m_mkey m2" "m_rcache ?m3 = m_rcache m" "FUSE_CHIP_REGS (m_fuse ?m3) = FUSE_CHIP_REGS (m_fuse m)"
    using b3(2) mm s2(1) by (simp_all add: boot_kept_def boot_fixed_def Let_def)
  obtain s4 where s4: "boot_end e (fw_of ?c) (b_sec b3) = Ok s4" "secmon_wf s4" "m_cfg (s_mon s4) = ?c" "m_mkey (s_mon s4) = m_mkey m2"
      "\<forall>k. aes_key (m_se (s_mon s4)) k = aes_key (m_se ?m3) k" "g_random_cache_low (m_rcache (s_mon s4)) = 0"
      "g_random_cache_high (m_rcache (s_mon s4)) = 0x3FF" "m_bootconfig (s_mon s4) = bootconfig_clear (m_bootconfig (s_mon s4))"
    using boot_end_succeeds [OF e(1,2), of "b_sec b3" "fw_of ?c"] lc rr c0 m3 wf_but_cache_kept [OF b3(2) wf2] retail_chip [OF m3(4)]
    by (auto simp: succeeds_def)
  have run: "boot_monitor e b = Ok (b3\<lparr>b_sec := s4\<rparr>)"
    unfolding boot_monitor_phases using l b2(1) b3(1) s4(1) lc mm(1) s2(1) by (simp add: on_sec_def b1_def)
  have kC: "aes_key (m_se (s_mon s4)) 0xC = aes_key (m_se m2) 0xC" "aes_key (m_se m2) 0xC = aes_key (m_se m) 0xC"
    using s4(5) boot_kept_key [OF b3(2), of "0xC"] s2(1) b2(5) by (simp_all add: se_frame_def)
  then have "mkey_consistent P True (m_mkey (s_mon s4)) (m_se (s_mon s4))" using b2(4) s4(4) by (simp add: mkey_consistent_def)
  moreover have "slots_cleared (m_se (s_mon s4))" using b3(3) s4(5) by (simp add: slots_cleared_def)
  ultimately show ?thesis
    unfolding run using s4 b3(4,5) kC by (simp add: booted_def m_def [symmetric])
qed

end
