(* ===== verification/Boot_Properties.thy ===== *)
theory Boot_Properties
  imports Boot_Cold Sample_Secmon
begin

text \<open>
  Properties of the boot: what a cold boot establishes, what a warm boot restores, the registers every boot leaves, the
  interrupts it arms, and the relocation of the image. Each is applied to the sample console.
\<close>

section \<open>A key of no known generation\<close>

lemma unknown_key_panics:
  assumes r: "cold_ready P e b" and g: "\<not> (\<exists>r < 10. is_generation P True (aes_key (m_se (s_mon (b_sec b))) 0xC) r)"
  shows "boot_monitor e b = Panic 0x00F00060"
proof -
  define m where "m = s_mon (b_sec b)"
  note rr = r [unfolded cold_ready_def cold_start_def Let_def, folded m_def]
  obtain ci where l: "load_config (b_sec b) = Ok ((b_sec b)\<lparr>s_mon := m\<lparr>m_cfg := loaded_cfg m, m_configitem := ci\<rparr>\<rparr>)"
    using load_config_eq [of "b_sec b"] rr by (auto simp: m_def)
  have e: "se_engine_ok P (env_eng (e_user e))" using rr by (simp add: boot_ready_def env_ok_def)
  obtain s1 where s1: "setup_se_flags (m_se m) = Ok s1" "boot_keeps {} (m_se m) s1"
    using setup_se_flags_succeeds [of "m_se m"] by (auto simp: succeeds_def)
  have "mkey_detect_revision (env_eng (e_user e)) (Ok True) (m_mkey m) s1 = Panic 0x00F00060"
    using mkey_detect_revision_ok [OF e, of "m_mkey m" True s1] rr g boot_keepsD [OF s1(2), of "0xC"] by (auto simp: m_def)
  then show ?thesis
    using l s1(1) rr unfolding boot_monitor_phases
    by (simp add: on_sec_def setup_se_def se_verify_flags_cleared_def panic_if_def with_mon_def upd_gic_def setup_se_keys_def mon_is_retail_eq)
qed

section \<open>The sample console\<close>

text \<open>The boot processor has halted and reports the last state of its set-up.\<close>

definition sample_boot_dev :: device where
  "sample_boot_dev tr a =
     (if a = uart_get_regs UART_A + UART_LSR then 0x60
      else if a = MAILBOX_NX_BOOTLOADER_SETUP_STATE FW_900 then 4
      else sample_dev tr a)"

definition sample_boot_env :: senv where
  "sample_boot_env = sample_senv\<lparr>e_dev := sample_boot_dev\<rparr>"

definition sample_gic :: gic_state where
  "sample_gic = \<lparr>GICD_CTLR = 0, GICD_IGROUPR = (\<lambda>_. 0), GICD_ISENABLER = (\<lambda>_. 0), GICD_ISPENDR = (\<lambda>_. 0), GICD_IPRIORITYR = (\<lambda>_. 0),
     GICD_ITARGETSR = (\<lambda>_. 0), GICD_ICFGR = (\<lambda>_. 0), GICC_CTLR = 0, GICC_PMR = 0, GICC_BPR = 0, GICC_EOIR_log = []\<rparr>"

definition sample_cold_mon :: monitor where
  "sample_cold_mon = sample_mon\<lparr>m_cfg := sample_cfg\<lparr>g_has_loaded_config := False\<rparr>, m_mkey := mkey_init\<rparr>"

definition sample_cold :: boot_state where
  "sample_cold = \<lparr>b_sec = sample_secmon\<lparr>s_mon := sample_cold_mon\<rparr>, b_gic = sample_gic,
     g_registered_interrupts = g_registered_interrupts_init, g_actmon_callback = None, g_has_booted_up = False\<rparr>"

lemmas device_addresses = TIMERUS_CNTR_1US_0_def FLOW_CTLR_HALT_COP_EVENTS_0_def CLK_RST_CONTROLLER_RST_DEVICES_H_0_def
  MAKE_CAR_REG_def MAKE_FLOW_REG_def MAILBOX_NX_BOOTLOADER_SETUP_STATE_def MAILBOX_NX_BOOTLOADER_BASE_def MMIO_GET_DEVICE_ADDRESS_def MMAPDEV_def

lemma sample_boot_devices: "devices_answer sample_boot_dev"
proof -
  have "counter_advances sample_boot_dev"
    by (rule counter_of_length) (simp add: sample_boot_dev_def sample_dev_def device_addresses)
  then show ?thesis
    by (simp add: devices_answer_def settles_def sample_boot_dev_def sample_dev_def device_addresses)
qed

lemma sample_laws: "law_rng_key sample_engine" "law_srk sample_engine"
  by (auto simp: law_rng_key_def law_srk_def sample_engine_def ref_engine_def Let_def intro!: aes_key_cong [THEN fun_cong])

lemma sample_boot_ready:
  assumes "m_fuse m = sample_fuse"
  shows "boot_ready sample_prims sample_boot_env m"
proof -
  have "is_Ok (fuse_init (env_fuse_hw sample_env) (m_fuse m))"
    by (simp add: assms fuse_init_def fuse_has_rcm_bug_patch_def ipatch_walk_none sample_env_def sample_fuse_def fuse_make_regs_visible_def
        fuse_secondary_private_key_disable_def fuse_disable_programming_def Let_def)
  then show ?thesis
    using sample_boot_devices sample_laws sample_env_ok
    by (simp add: boot_ready_def sample_boot_env_def sample_senv_def) (simp add: sample_env_def)
qed

lemma sample_cold_config: "loaded_cfg sample_cold_mon = sample_cfg"
proof -
  have "cfg_magic (exosphere_config_of (phys_read (\<lambda>a. ucast a) 0x8000F000 0x130)) \<noteq> MAGIC_EXOSPHERE_CONFIG" by code_simp
  moreover have "mon_mem sample_cold_mon = (\<lambda>a. ucast a)" by (simp add: sample_cold_mon_def sample_mon_def sample_upage_def)
  ultimately show ?thesis
    unfolding loaded_cfg_def Let_def by (simp add: sample_cold_mon_def)
qed

lemma sample_cold_start: "cold_start sample_cold"
  using sample_mon_wf sample_cpu_wf mkey_wf_init
  by (simp add: cold_start_def sample_cold_def sample_cold_mon_def sample_secmon_def sample_mon_def sample_se_def sample_mc_def sample_rcache_def
      mc_wf_def mc_saved_init_def mkey_init_def tkey_init_def mon_wf_def Let_def)

lemma sample_cold_ready: "cold_ready sample_prims sample_boot_env sample_cold"
proof -
  have "settles sample_boot_dev (MAILBOX_NX_BOOTLOADER_SETUP_STATE FW_900) (\<lambda>v. v < 1)"
    by (simp add: settles_def sample_boot_dev_def device_addresses)
  moreover have "fuse_get_retail_type sample_fuse \<noteq> 0" by (simp add: fuse_get_retail_type_def sample_fuse_def)
  moreover have "fw_of sample_cfg = FW_900" by simp
  ultimately show ?thesis
    using sample_cold_start sample_cold_config sample_boot_ready [of sample_cold_mon]
    by (simp add: cold_ready_def sample_boot_env_def sample_cold_def sample_cold_mon_def sample_mon_def)
qed

section \<open>Cold boot\<close>

text \<open>C5. A cold boot of a retail console, up to the loaded boot configuration, returns exactly when the master key is of a
  known generation, and panics otherwise. When it returns, the invariant that all calls of the monitor rely on holds, the generation of the master key and
  all older keys are found, the key slots below 10 that the boot loader used are zero or hold a fresh random key, the random
  cache is full, no boot configuration is taken over, and the interrupt handlers of the firmware are registered. This is for every firmware but
  4.0.0, on which the slot of the generating key is the slot of the device key: what the slot holds after it was locked and then cleared
  depends on how the engine treats a locked slot.\<close>

theorem cold_boot_establishes_invariant:
  assumes "cold_ready P e b"
  shows "if \<exists>r < 10. is_generation P True (aes_key (m_se (s_mon (b_sec b))) 0xC) r
    then \<exists>b'. boot_monitor e b = Ok b' \<and> booted P b b' else boot_monitor e b = Panic 0x00F00060"
  using boot_monitor_succeeds [OF assms] unknown_key_panics [OF assms] by (auto simp: succeeds_def)

theorem cold_boot_establishes_invariant_witness:
  "\<exists>b'. boot_monitor sample_boot_env sample_cold = Ok b' \<and> booted sample_prims sample_cold b' \<and> secmon_wf (b_sec b')"
proof -
  have k: "m_se (s_mon (b_sec sample_cold)) = sample_se" by (simp add: sample_cold_def sample_cold_mon_def sample_mon_def)
  have "is_generation sample_prims True (aes_key sample_se 0xC) 1" "(1 :: nat) < 10"
    using sample_mkey_consistent by (simp_all add: mkey_consistent_def sample_mkey_def)
  then obtain b' where "boot_monitor sample_boot_env sample_cold = Ok b'" "booted sample_prims sample_cold b'"
    using cold_boot_establishes_invariant [OF sample_cold_ready] unfolding k by (auto split: if_splits)
  then show ?thesis by (auto simp: booted_def Let_def)
qed

section \<open>Warm boot\<close>

text \<open>The sample console with its first core off and waiting at an entry point, after a sleep that interrupted a call.\<close>

definition sample_asleep :: boot_state where
  "sample_asleep = sample_cold\<lparr>g_has_booted_up := True, b_sec := sample_secmon\<lparr>g_is_user_smc_in_progress := True,
     s_mon := sample_mon\<lparr>m_se := sample_se\<lparr>g_se_generated_vector := True\<rparr>\<rparr>,
     s_cpu := set_core_entrypoint_and_argument 0 0x80060000 7 sample_cpu\<rparr>\<rparr>"



section \<open>Registers\<close>

lemma writes_of_writes [simp]: "writes_of (io_writes reg ws tr) = rev (map (\<lambda>(ofs, v). (reg ofs, v)) ws) @ writes_of tr"
  by (induction ws arbitrary: tr) (auto simp: io_writes_def io_write_def)

lemma writes_of_touch [simp]: "writes_of (io_touch dev a tr) = writes_of tr" "writes_of (io_write a v tr) = (a, v) # writes_of tr"
  by (simp_all add: io_touch_def io_read_def io_write_def)






section \<open>Interrupts\<close>

lemma interrupts_of_boot:
  assumes "g_registered_interrupts b = handlers_table (boot_handlers fw)" "fw \<ge> FW_400" "iar \<le> 0xDF"
  shows "handle_interrupt e iar b =
     (if iar = 0x5A then bindR (on_sec (with_mon se_operation_completed) b) (\<lambda>b'. Ok (b'\<lparr>b_gic := (b_gic b)\<lparr>GICC_EOIR_log := iar # GICC_EOIR_log (b_gic b)\<rparr>\<rparr>))
      else if iar = 0x4D then bindR (actmon_interrupt_handler e b) (\<lambda>b'. Ok (b'\<lparr>b_gic := (b_gic b)\<lparr>GICC_EOIR_log := iar # GICC_EOIR_log (b_gic b)\<rparr>\<rparr>))
      else if iar = 0 then Undef else generic_panic)"
proof -
  have "find_handler iar (handlers_table (boot_handlers fw)) =
      (if iar = 0x5A then Some (Some Se_operation_completed) else if iar = 0x4D then Some (Some Actmon_interrupt_handler)
       else if iar = 0 then Some None else None)"
    using assms(2) by (simp add: handlers_table_def boot_handlers_def find_free)
  then show ?thesis
    using assms(1,3) by (simp add: handle_interrupt_def handle_registered_interrupt_def Let_def bindR_assoc generic_panic_def)
qed

text \<open>C25. From firmware 4.0.0 on, once the second set-up of a boot has returned on a core that may not be debugged, a wake-up of the boot
  processor reaches the monitor as an interrupt and stops the console with the panic for it. Any other interrupt for which no handler is
  registered panics too, but for the interrupt with number 0, for which a free slot of the table matches and a null pointer is
  called.\<close>

theorem boot_processor_wakeup_panics:
  assumes "g_has_loaded_config (m_cfg (s_mon (b_sec b)))" "devices_answer (e_dev e)" "e_dbgauthstatus e AND 3 \<noteq> 3"
    "g_registered_interrupts b = handlers_table (boot_handlers fw)" "fw \<ge> FW_400"
  shows "\<exists>b'. setup_4x_mmio e b = Ok b' \<and> handle_interrupt e' 0x4D b' = Panic 0xF0A00036
     \<and> (\<forall>i \<le> 0xDF. i \<notin> {0, 0x4D, 0x5A} \<longrightarrow> handle_interrupt e' i b' = generic_panic) \<and> handle_interrupt e' 0 b' = Undef"
proof -
  obtain b' where b': "setup_4x_mmio e b = Ok b'" "g_registered_interrupts b' = handlers_table (boot_handlers fw)"
      "g_actmon_callback b' = Some Actmon_on_bpmp_wakeup"
    using setup_4x_mmio_succeeds [OF assms(1,2)] assms(3,4) by (auto simp: succeeds_def)
  note h = interrupts_of_boot [OF b'(2) assms(5), where e = e']
  have "handle_interrupt e' 0x4D b' = Panic 0xF0A00036"
    using b'(3) by (subst h) (simp_all add: actmon_interrupt_handler_def actmon_on_bpmp_wakeup_def Let_def)
  then show ?thesis using b'(1) by (auto simp: h)
qed

theorem boot_processor_wakeup_panics_witness:
  "\<exists>b'. setup_4x_mmio sample_boot_env (sample_asleep\<lparr>g_registered_interrupts := handlers_table (boot_handlers FW_900)\<rparr>) = Ok b'
     \<and> handle_interrupt sample_boot_env 0x4D b' = Panic 0xF0A00036"
proof -
  let ?b = "sample_asleep\<lparr>g_registered_interrupts := handlers_table (boot_handlers FW_900)\<rparr>"
  have a: "g_has_loaded_config (m_cfg (s_mon (b_sec ?b)))" "devices_answer (e_dev sample_boot_env)" "e_dbgauthstatus sample_boot_env AND 3 \<noteq> 3"
    using sample_boot_devices sample_fw(3) by (simp_all add: sample_asleep_def sample_boot_env_def sample_senv_def sample_mon_def)
  have t: "g_registered_interrupts ?b = handlers_table (boot_handlers FW_900)" by simp
  from boot_processor_wakeup_panics [OF a t, of sample_boot_env] show ?thesis by auto
qed

section \<open>Relocation\<close>

lemma word_fold:
  fixes vma p_lma :: u64
  assumes "8 * n < 2 ^ 64" "\<not> c \<Longrightarrow> \<forall>i < 8 * n. 8 * n \<le> unat (p_lma + of_nat i - vma)" "k \<le> n"
  shows "fold (\<lambda>i mem. phys_write (vma + of_nat (8 * i)) (if c then replicate 8 0 else phys_read mem (p_lma + of_nat (8 * i)) 8) mem) [0..<k] mem =
     (\<lambda>x. if unat (x - vma) < 8 * k then if c then 0 else mem (p_lma + (x - vma)) else mem x)"
  using assms(3)
proof (induction k)
  case (Suc k)
  let ?m = "\<lambda>x. if unat (x - vma) < 8 * k then if c then 0 else mem (p_lma + (x - vma)) else mem x"
  have "n < 2 ^ 61" using assms(1) by simp
  then have "k + 2 \<le> 2 ^ 61" using Suc.prems by linarith
  then have b: "8 * k + 16 \<le> 2 ^ 64" by simp
  define w where "w = (of_nat (8 * k) :: u64)"
  have u: "unat w = 8 * k" unfolding w_def by (rule unat_of_nat_small) (use b in simp)
  let ?bs = "if c then replicate 8 0 else phys_read ?m (p_lma + w) 8"
  have "phys_write (vma + w) ?bs ?m x =
      (if unat (x - vma) < 8 * Suc k then if c then 0 else mem (p_lma + (x - vma)) else mem x)" for x
  proof -
    let ?y = "x - vma"
    have d: "x - (vma + w) = ?y - w" by (simp add: algebra_simps)
    have y: "unat (?y - w) = (if 8 * k \<le> unat ?y then unat ?y - 8 * k else unat ?y + 2 ^ 64 - 8 * k)"
      using unat_sub_if' [of ?y "w"] unfolding u by simp
    show ?thesis
    proof (cases "8 * k \<le> unat ?y \<and> unat ?y < 8 * Suc k")
      case True
      then have lt: "unat (?y - w) < 8" and ge: "\<not> unat ?y < 8 * k" by (auto simp: y)
      have "?bs ! unat (?y - w) = (if c then 0 else mem (p_lma + ?y))"
      proof (cases c)
        case False
        have "unat ?y < 8 * n" using True Suc.prems by simp
        then have "8 * n \<le> unat (p_lma + ?y - vma)" using assms(2) [OF False, rule_format, of "unat ?y"] by simp
        then have "\<not> unat (p_lma + ?y - vma) < 8 * k" using Suc.prems by simp
        moreover have "p_lma + w + of_nat (unat (?y - w)) = p_lma + ?y" by simp
        ultimately show ?thesis using False lt by (simp add: phys_read_def)
      qed (use lt in simp)
      then show ?thesis using True lt unfolding phys_write_def d by (auto simp: length_phys_read)
    next
      case False
      then have "\<not> unat (?y - w) < 8" using b unfolding y by auto
      then show ?thesis using False unfolding phys_write_def d by auto
    qed
  qed
  then have step: "phys_write (vma + w) ?bs ?m = (\<lambda>x. if unat (x - vma) < 8 * Suc k then if c then 0 else mem (p_lma + (x - vma)) else mem x)" by blast
  show ?case
    by (simp only: upt_Suc_append [OF le0] fold_append o_apply fold_simps id_apply Suc.IH [OF Suc_leD [OF Suc.prems]] step [unfolded w_def])
qed simp

text \<open>Relocating a segment of the image copies it, word by word, to where it runs, or fills it with zeros when it has no load
  address; outside the segment memory is as before. The source may not overlap the destination, and the bytes of the last word that
  is not whole are left as they were.\<close>

theorem relocation_copies_segment:
  fixes reloc :: coldboot_crt0_reloc and x glob_origin reloc_base :: u64
  defines "n \<equiv> unat (reloc_end_vma reloc - reloc_vma reloc) div 8 * 8"
    and "source \<equiv> reloc_base + (reloc_lma reloc - glob_origin)"
  assumes "reloc_lma reloc \<noteq> 0 \<Longrightarrow> \<forall>i < n. n \<le> unat (source + of_nat i - reloc_vma reloc)"
  shows "do_relocation glob_origin reloc_base reloc mem x =
     (if unat (x - reloc_vma reloc) < n then if reloc_lma reloc = 0 then 0 else mem (source + (x - reloc_vma reloc)) else mem x)"
proof -
  let ?k = "unat (reloc_end_vma reloc - reloc_vma reloc) div 8"
  have n: "8 * ?k = n" by (simp add: n_def)
  have "n \<le> unat (reloc_end_vma reloc - reloc_vma reloc)" by (simp add: n_def)
  also have "\<dots> < 2 ^ 64" using unsigned_less [of "reloc_end_vma reloc - reloc_vma reloc"] by simp
  finally have "8 * ?k < 2 ^ 64" using n by simp
  from word_fold [OF this, of "reloc_lma reloc = 0" source "reloc_vma reloc" ?k mem] assms(3) show ?thesis
    unfolding do_relocation_def Let_def source_def n by simp
qed

theorem relocation_copies_segment_witness:
  "do_relocation 0x80010000 0x40010000 \<lparr>reloc_vma = 0x1000, reloc_end_vma = 0x1014, reloc_lma = 0x80010100\<rparr> (\<lambda>a. ucast a) 0x1003 = 3
   \<and> do_relocation 0x80010000 0x40010000 \<lparr>reloc_vma = 0x1000, reloc_end_vma = 0x1014, reloc_lma = 0x80010100\<rparr> (\<lambda>a. ucast a) 0x1012 = 0x12"
proof -
  let ?r = "\<lparr>reloc_vma = 0x1000, reloc_end_vma = 0x1014, reloc_lma = 0x80010100\<rparr>"
  have "16 \<le> unat (0x40010100 + of_nat i - (0x1000 :: u64))" if "i < 16" for i
    using that by (simp add: unat_word_ariths unat_of_nat_small)
  then have h: "\<forall>i < unat (reloc_end_vma ?r - reloc_vma ?r) div 8 * 8. unat (reloc_end_vma ?r - reloc_vma ?r) div 8 * 8
      \<le> unat (0x40010000 + (reloc_lma ?r - 0x80010000) + of_nat i - reloc_vma ?r)" by simp
  note copy = relocation_copies_segment [where reloc = ?r and glob_origin = "0x80010000" and reloc_base = "0x40010000" and mem = "\<lambda>a. ucast a", OF h]
  show ?thesis by (simp add: copy)
qed

end
