(* ===== verification/Kernel_Tables.thy ===== *)
theory Kernel_Tables
  imports Exo_Prelude
begin

text \<open>
  The tables of \<^verbatim>\<open>fusee-secondary/src/kernel_patches.c\<close>: for each version of the kernel that the boot loader knows, the hash
  it is identified by, and the patches for it. A member that the source does not set is 0, a pattern that it does not set is empty.
\<close>

record kernel_patch =
  pattern_size :: nat
  kp_pattern :: bytes
  pattern_hook_offset :: nat
  payload_num_instructions :: nat
  branch_back_offset :: nat
  patch_offset :: nat
  payload :: "u32 list"

record kernel_info =
  ki_hash :: bytes
  hash_offset :: nat
  hash_size :: nat
  embedded_ini_offset :: nat
  embedded_ini_ptr :: nat
  free_code_space_offset :: nat
  ki_patches :: "kernel_patch list"

definition MAKE_NOP :: u32 where "MAKE_NOP = 0xD503201F"

section \<open>Patterns and payloads\<close>

definition g_kernel_pattern_100_proc_id_send :: "bytes" where
  "g_kernel_pattern_100_proc_id_send = [
    0x48, 0x29, 0x41, 0xF9, 0xC9, 0xF5, 0x7E, 0xD3, 0xCE, 0x09, 0x00, 0x11, 0x48, 0x6A,
    0x29, 0xF8]"

definition g_kernel_patch_100_proc_id_send :: "u32 list" where
  "g_kernel_patch_100_proc_id_send = [
    0xA9BF2FEA, 0x2A0E03EB, 0xD37EF56B, 0xF86B6B8B, 0x92FFFFE9, 0x8A090168, 0xD2FFFFE9, 0x8A09016B,
    0xD2FFFFC9, 0xEB09017F, 0x54000040, 0xF9412948, 0xA8C12FEA]"

definition g_kernel_pattern_100_proc_id_recv :: "bytes" where
  "g_kernel_pattern_100_proc_id_recv = [
    0x68, 0x29, 0x41, 0xF9, 0x89, 0xF7, 0x7E, 0xD3, 0x9C, 0x0B, 0x00, 0x11, 0x48, 0x69,
    0x29, 0xF8]"

definition g_kernel_patch_100_proc_id_recv :: "u32 list" where
  "g_kernel_patch_100_proc_id_recv = [
    0xA9BF2FEA, 0x2A1C03EA, 0xD37EF54A, 0xF86A69AA, 0x92FFFFE9, 0x8A090148, 0xD2FFFFE9, 0x8A09014A,
    0xD2FFFFC9, 0xEB09015F, 0x54000040, 0xF9412968, 0xA8C12FEA]"

definition g_kernel_pattern_200_proc_id_send :: "bytes" where
  "g_kernel_pattern_200_proc_id_send = [
    0x48, 0x31, 0x41, 0xF9, 0xE9, 0x03, 0x18, 0x2A, 0x29, 0xF5, 0x7E, 0xD3, 0xC8, 0x6A,
    0x29, 0xF8]"

definition g_kernel_patch_200_proc_id_send :: "u32 list" where
  "g_kernel_patch_200_proc_id_send = [
    0xA9BF2FEA, 0x2A1803EB, 0xD37EF56B, 0xF86B6B8B, 0x92FFFFE9, 0x8A090168, 0xD2FFFFE9, 0x8A09016B,
    0xD2FFFFC9, 0xEB09017F, 0x54000040, 0xF9413148, 0xA8C12FEA]"

definition g_kernel_pattern_200_proc_id_recv :: "bytes" where
  "g_kernel_pattern_200_proc_id_recv = [
    0x08, 0x31, 0x41, 0xF9, 0xE9, 0x03, 0x0F, 0x2A, 0x29, 0xF5, 0x7E, 0xD3, 0x48, 0x6B,
    0x29, 0xF8]"

definition g_kernel_patch_200_proc_id_recv :: "u32 list" where
  "g_kernel_patch_200_proc_id_recv = [
    0xA9BF2FEA, 0x2A0F03EA, 0xD37EF54A, 0xF9405FEB, 0xF86A696A, 0xF9407BEB, 0x92FFFFE9, 0x8A090148,
    0xD2FFFFE9, 0x8A09014A, 0xD2FFFFC9, 0xEB09015F, 0x54000040, 0xF9413168, 0xA8C12FEA]"

definition g_kernel_pattern_300_proc_id_send :: "bytes" where
  "g_kernel_pattern_300_proc_id_send = [
    0x48, 0x55, 0x41, 0xF9, 0xE9, 0x03, 0x18, 0x2A, 0x29, 0xF5, 0x7E, 0xD3, 0xC8, 0x6A,
    0x29, 0xF8]"

definition g_kernel_patch_300_proc_id_send :: "u32 list" where
  "g_kernel_patch_300_proc_id_send = [
    0xA9BF2FEA, 0x2A1803EB, 0xD37EF56B, 0xF86B6B8B, 0x92FFFFE9, 0x8A090168, 0xD2FFFFE9, 0x8A09016B,
    0xD2FFFFC9, 0xEB09017F, 0x54000040, 0xF9415548, 0xA8C12FEA]"

definition g_kernel_pattern_300_proc_id_recv :: "bytes" where
  "g_kernel_pattern_300_proc_id_recv = [
    0x08, 0x55, 0x41, 0xF9, 0xE9, 0x03, 0x0F, 0x2A, 0x29, 0xF5, 0x7E, 0xD3, 0x48, 0x6B,
    0x29, 0xF8]"

definition g_kernel_patch_300_proc_id_recv :: "u32 list" where
  "g_kernel_patch_300_proc_id_recv = [
    0xA9BF2FEA, 0x2A0F03EA, 0xD37EF54A, 0xF9405FEB, 0xF86A696A, 0xF9407BEB, 0x92FFFFE9, 0x8A090148,
    0xD2FFFFE9, 0x8A09014A, 0xD2FFFFC9, 0xEB09015F, 0x54000040, 0xF9415568, 0xA8C12FEA]"

definition g_kernel_pattern_302_proc_id_send :: "bytes" where
  "g_kernel_pattern_302_proc_id_send = [
    0x48, 0x55, 0x41, 0xF9, 0xE9, 0x03, 0x18, 0x2A, 0x29, 0xF5, 0x7E, 0xD3, 0xC8, 0x6A,
    0x29, 0xF8]"

definition g_kernel_patch_302_proc_id_send :: "u32 list" where
  "g_kernel_patch_302_proc_id_send = [
    0xA9BF2FEA, 0x2A1803EB, 0xD37EF56B, 0xF86B6B8B, 0x92FFFFE9, 0x8A090168, 0xD2FFFFE9, 0x8A09016B,
    0xD2FFFFC9, 0xEB09017F, 0x54000040, 0xF9415548, 0xA8C12FEA]"

definition g_kernel_pattern_302_proc_id_recv :: "bytes" where
  "g_kernel_pattern_302_proc_id_recv = [
    0x08, 0x55, 0x41, 0xF9, 0xE9, 0x03, 0x0F, 0x2A, 0x29, 0xF5, 0x7E, 0xD3, 0x48, 0x6B,
    0x29, 0xF8]"

definition g_kernel_patch_302_proc_id_recv :: "u32 list" where
  "g_kernel_patch_302_proc_id_recv = [
    0xA9BF2FEA, 0x2A0F03EA, 0xD37EF54A, 0xF9405FEB, 0xF86A696A, 0xF9407BEB, 0x92FFFFE9, 0x8A090148,
    0xD2FFFFE9, 0x8A09014A, 0xD2FFFFC9, 0xEB09015F, 0x54000040, 0xF9415568, 0xA8C12FEA]"

definition g_kernel_pattern_400_proc_id_send :: "bytes" where
  "g_kernel_pattern_400_proc_id_send = [
    0xEA, 0x53, 0x40, 0xF9, 0x48, 0x59, 0x41, 0xF9, 0xE9, 0x03, 0x17, 0x2A, 0x29, 0xF5,
    0x7E, 0xD3]"

definition g_kernel_patch_400_proc_id_send :: "u32 list" where
  "g_kernel_patch_400_proc_id_send = [
    0x2A1703EA, 0xD37EF54A, 0xF86A6B8A, 0x92FFFFE9, 0x8A090148, 0xD2FFFFE9, 0x8A09014A, 0xD2FFFFC9,
    0xEB09015F, 0x54000060, 0xF94053EA, 0xF9415948, 0xF94053EA]"

definition g_kernel_pattern_400_proc_id_recv :: "bytes" where
  "g_kernel_pattern_400_proc_id_recv = [
    0x28, 0x5B, 0x41, 0xF9, 0xE9, 0x03, 0x0E, 0x2A, 0xCE, 0x09, 0x00, 0x11, 0x29, 0xF5,
    0x7E, 0xD3]"

definition g_kernel_patch_400_proc_id_recv :: "u32 list" where
  "g_kernel_patch_400_proc_id_recv = [
    0xF9403BED, 0x2A0E03EA, 0xD37EF54A, 0xF86A69AA, 0x92FFFFE9, 0x8A090148, 0xD2FFFFE9, 0x8A09014A,
    0xD2FFFFC9, 0xEB09015F, 0x54000040, 0xF9415B28, 0xD503201F]"

definition g_kernel_pattern_500_proc_id_send :: "bytes" where
  "g_kernel_pattern_500_proc_id_send = [
    0xEA, 0x43, 0x40, 0xF9, 0x48, 0x59, 0x41, 0xF9, 0xE9, 0x03, 0x17, 0x2A, 0x29, 0xF5,
    0x7E, 0xD3]"

definition g_kernel_patch_500_proc_id_send :: "u32 list" where
  "g_kernel_patch_500_proc_id_send = [
    0x2A1703EA, 0xD37EF54A, 0xF86A6B6A, 0x92FFFFE9, 0x8A090148, 0xD2FFFFE9, 0x8A09014A, 0xD2FFFFC9,
    0xEB09015F, 0x54000060, 0xF94043EA, 0xF9415948, 0xF94043EA]"

definition g_kernel_pattern_500_proc_id_recv :: "bytes" where
  "g_kernel_pattern_500_proc_id_recv = [
    0x08, 0x5B, 0x41, 0xF9, 0xEA, 0x6F, 0x40, 0xF9, 0xE9, 0x03, 0x15, 0x2A, 0x29, 0xF5,
    0x7E, 0xD3]"

definition g_kernel_patch_500_proc_id_recv :: "u32 list" where
  "g_kernel_patch_500_proc_id_recv = [
    0xF9403BED, 0x2A1503EA, 0xD37EF54A, 0xF86A69AA, 0x92FFFFE9, 0x8A090148, 0xD2FFFFE9, 0x8A09014A,
    0xD2FFFFC9, 0xEB09015F, 0x54000040, 0xF9415B08, 0xF9406FEA]"

definition g_kernel_pattern_600_proc_id_send :: "bytes" where
  "g_kernel_pattern_600_proc_id_send = [
    0x08, 0x03, 0x40, 0xF9, 0x08, 0x1D, 0x40, 0xF9, 0xE0, 0x03, 0x18, 0xAA, 0x00, 0x01,
    0x3F, 0xD6, 0xE8, 0x03, 0x15, 0x2A, 0xB5, 0x0A, 0x00, 0x11, 0x08, 0xF5, 0x7E, 0xD3]"

definition g_kernel_patch_600_proc_id_send :: "u32 list" where
  "g_kernel_patch_600_proc_id_send = [
    0xA9BF2FEA, 0xF94037EB, 0x2A1503EA, 0xD37EF54A, 0xF86A696A, 0x92FFFFE9, 0x8A090148, 0xD2FFFFE9,
    0x8A09014A, 0xD2FFFFC9, 0xEB09015F, 0x54000100, 0xA9BF27E8, 0xF9400308, 0xF9401D08, 0xAA1803E0,
    0xD63F0100, 0xA8C127E8, 0xAA0003E8, 0xA8C12FEA, 0xAA0803E0]"

definition g_kernel_pattern_600_proc_id_recv :: "bytes" where
  "g_kernel_pattern_600_proc_id_recv = [
    0x08, 0x03, 0x40, 0xF9, 0x08, 0x1D, 0x40, 0xF9, 0xE0, 0x03, 0x18, 0xAA, 0x00, 0x01,
    0x3F, 0xD6, 0xE9, 0x6F, 0x40, 0xF9, 0xE8, 0x03, 0x15, 0x2A, 0xB5, 0x0A, 0x00, 0x11]"

definition g_kernel_patch_600_proc_id_recv :: "u32 list" where
  "g_kernel_patch_600_proc_id_recv = [
    0xA9BF2FEA, 0xF94043EB, 0x2A1503EA, 0xD37EF54A, 0xF86A696A, 0x92FFFFE9, 0x8A090148, 0xD2FFFFE9,
    0x8A09014A, 0xD2FFFFC9, 0xEB09015F, 0x54000100, 0xA9BF27E8, 0xF9400308, 0xF9401D08, 0xAA1803E0,
    0xD63F0100, 0xA8C127E8, 0xAA0003E8, 0xA8C12FEA, 0xAA0803E0]"

definition g_kernel_pattern_700_proc_id_send :: "bytes" where
  "g_kernel_pattern_700_proc_id_send = [
    0xA8, 0x02, 0x40, 0xF9, 0x08, 0x1D, 0x40, 0xF9, 0xE0, 0x03, 0x15, 0xAA, 0x00, 0x01,
    0x3F, 0xD6, 0xE8, 0x03, 0x19, 0x2A, 0x39, 0x0B, 0x00, 0x11, 0x08, 0xF5, 0x7E, 0xD3]"

definition g_kernel_patch_700_proc_id_send :: "u32 list" where
  "g_kernel_patch_700_proc_id_send = [
    0xA9BF2FEA, 0xF9403BEB, 0x2A1903EA, 0xD37EF54A, 0xF86A696A, 0x92FFFFE9, 0x8A090148, 0xD2FFFFE9,
    0x8A09014A, 0xD2FFFFC9, 0xEB09015F, 0x54000100, 0xA9BF27E8, 0xF94002A8, 0xF9401D08, 0xAA1503E0,
    0xD63F0100, 0xA8C127E8, 0xAA0003E8, 0xA8C12FEA, 0xAA0803E0]"

definition g_kernel_pattern_700_proc_id_recv :: "bytes" where
  "g_kernel_pattern_700_proc_id_recv = [
    0x68, 0x03, 0x40, 0xF9, 0x08, 0x1D, 0x40, 0xF9, 0xE0, 0x03, 0x1B, 0xAA, 0x00, 0x01,
    0x3F, 0xD6, 0xA9, 0x83, 0x50, 0xF8, 0xE8, 0x03, 0x16, 0x2A, 0xD6, 0x0A, 0x00, 0x11]"

definition g_kernel_patch_700_proc_id_recv :: "u32 list" where
  "g_kernel_patch_700_proc_id_recv = [
    0xA9BF2FEA, 0xF9404FEB, 0x2A1603EA, 0xD37EF54A, 0xF86A696A, 0x92FFFFE9, 0x8A090148, 0xD2FFFFE9,
    0x8A09014A, 0xD2FFFFC9, 0xEB09015F, 0x54000100, 0xA9BF27E8, 0xF9400368, 0xF9401D08, 0xAA1B03E0,
    0xD63F0100, 0xA8C127E8, 0xAA0003E8, 0xA8C12FEA, 0xAA0803E0]"

definition g_kernel_pattern_800_proc_id_send :: "bytes" where
  "g_kernel_pattern_800_proc_id_send = [
    0xA8, 0x02, 0x40, 0xF9, 0x08, 0x1D, 0x40, 0xF9, 0xE0, 0x03, 0x15, 0xAA, 0x00, 0x01,
    0x3F, 0xD6, 0xE8, 0x03, 0x19, 0x2A, 0x39, 0x0B, 0x00, 0x11, 0x08, 0xF5, 0x7E, 0xD3]"

definition g_kernel_patch_800_proc_id_send :: "u32 list" where
  "g_kernel_patch_800_proc_id_send = [
    0xA9BF2FEA, 0xF9403BEB, 0x2A1903EA, 0xD37EF54A, 0xF86A696A, 0x92FFFFE9, 0x8A090148, 0xD2FFFFE9,
    0x8A09014A, 0xD2FFFFC9, 0xEB09015F, 0x54000100, 0xA9BF27E8, 0xF94002A8, 0xF9401D08, 0xAA1503E0,
    0xD63F0100, 0xA8C127E8, 0xAA0003E8, 0xA8C12FEA, 0xAA0803E0]"

definition g_kernel_pattern_800_proc_id_recv :: "bytes" where
  "g_kernel_pattern_800_proc_id_recv = [
    0x68, 0x03, 0x40, 0xF9, 0x08, 0x1D, 0x40, 0xF9, 0xE0, 0x03, 0x1B, 0xAA, 0x00, 0x01,
    0x3F, 0xD6, 0xA9, 0x83, 0x50, 0xF8, 0xE8, 0x03, 0x16, 0x2A, 0xD6, 0x0A, 0x00, 0x11]"

definition g_kernel_patch_800_proc_id_recv :: "u32 list" where
  "g_kernel_patch_800_proc_id_recv = [
    0xA9BF2FEA, 0xF9404FEB, 0x2A1603EA, 0xD37EF54A, 0xF86A696A, 0x92FFFFE9, 0x8A090148, 0xD2FFFFE9,
    0x8A09014A, 0xD2FFFFC9, 0xEB09015F, 0x54000100, 0xA9BF27E8, 0xF9400368, 0xF9401D08, 0xAA1B03E0,
    0xD63F0100, 0xA8C127E8, 0xAA0003E8, 0xA8C12FEA, 0xAA0803E0]"

definition g_kernel_pattern_900_proc_id_send :: "bytes" where
  "g_kernel_pattern_900_proc_id_send = [
    0xE8, 0x02, 0x40, 0xF9, 0x08, 0x1D, 0x40, 0xF9, 0xE0, 0x03, 0x17, 0xAA, 0x00, 0x01,
    0x3F, 0xD6, 0xE8, 0x03, 0x16, 0x2A, 0xD6, 0x0A, 0x00, 0x11, 0x08, 0xF5, 0x7E, 0xD3]"

definition g_kernel_patch_900_proc_id_send :: "u32 list" where
  "g_kernel_patch_900_proc_id_send = [
    0xA9BF2FEA, 0xF94037EB, 0x2A1603EA, 0xD37EF54A, 0xF86A696A, 0x92FFFFE9, 0x8A090148, 0xD2FFFFE9,
    0x8A09014A, 0xD2FFFFC9, 0xEB09015F, 0x54000100, 0xA9BF27E8, 0xF94002E8, 0xF9401D08, 0xAA1703E0,
    0xD63F0100, 0xA8C127E8, 0xAA0003E8, 0xA8C12FEA, 0xAA0803E0]"

definition g_kernel_pattern_900_proc_id_recv :: "bytes" where
  "g_kernel_pattern_900_proc_id_recv = [
    0x68, 0x03, 0x40, 0xF9, 0x08, 0x1D, 0x40, 0xF9, 0xE0, 0x03, 0x1B, 0xAA, 0x00, 0x01,
    0x3F, 0xD6, 0xE8, 0x03, 0x17, 0x2A, 0xF7, 0x0A, 0x00, 0x11, 0x08, 0xF5, 0x7E, 0xD3]"

definition g_kernel_patch_900_proc_id_recv :: "u32 list" where
  "g_kernel_patch_900_proc_id_recv = [
    0xA9BF2FEA, 0xF9404BEB, 0x2A1703EA, 0xD37EF54A, 0xF86A696A, 0x92FFFFE9, 0x8A090148, 0xD2FFFFE9,
    0x8A09014A, 0xD2FFFFC9, 0xEB09015F, 0x54000100, 0xA9BF27E8, 0xF9400368, 0xF9401D08, 0xAA1B03E0,
    0xD63F0100, 0xA8C127E8, 0xAA0003E8, 0xA8C12FEA, 0xAA0803E0]"

definition g_kernel_patch_500_svc_control_codememory :: "u32 list" where
  "g_kernel_patch_500_svc_control_codememory = [
    MAKE_NOP]"

definition g_kernel_patch_600_svc_control_codememory :: "u32 list" where
  "g_kernel_patch_600_svc_control_codememory = [
    MAKE_NOP]"

definition g_kernel_patch_700_svc_control_codememory :: "u32 list" where
  "g_kernel_patch_700_svc_control_codememory = [
    MAKE_NOP]"

definition g_kernel_patch_800_svc_control_codememory :: "u32 list" where
  "g_kernel_patch_800_svc_control_codememory = [
    MAKE_NOP]"

definition g_kernel_patch_900_svc_control_codememory :: "u32 list" where
  "g_kernel_patch_900_svc_control_codememory = [
    MAKE_NOP]"

section \<open>The patches of each version\<close>

definition g_kernel_patches_100 :: "kernel_patch list" where
  "g_kernel_patches_100 = [
    \<lparr>pattern_size = 0x10, kp_pattern = g_kernel_pattern_100_proc_id_send, pattern_hook_offset = 0x0,
     payload_num_instructions = length g_kernel_patch_100_proc_id_send, branch_back_offset = 0x4, patch_offset = 0, payload = g_kernel_patch_100_proc_id_send\<rparr>,
    \<lparr>pattern_size = 0x10, kp_pattern = g_kernel_pattern_100_proc_id_recv, pattern_hook_offset = 0x0,
     payload_num_instructions = length g_kernel_patch_100_proc_id_recv, branch_back_offset = 0x4, patch_offset = 0, payload = g_kernel_patch_100_proc_id_recv\<rparr>]"

definition g_kernel_patches_200 :: "kernel_patch list" where
  "g_kernel_patches_200 = [
    \<lparr>pattern_size = 0x10, kp_pattern = g_kernel_pattern_200_proc_id_send, pattern_hook_offset = 0x0,
     payload_num_instructions = length g_kernel_patch_200_proc_id_send, branch_back_offset = 0x4, patch_offset = 0, payload = g_kernel_patch_200_proc_id_send\<rparr>,
    \<lparr>pattern_size = 0x10, kp_pattern = g_kernel_pattern_200_proc_id_recv, pattern_hook_offset = 0x0,
     payload_num_instructions = length g_kernel_patch_200_proc_id_recv, branch_back_offset = 0x4, patch_offset = 0, payload = g_kernel_patch_200_proc_id_recv\<rparr>]"

definition g_kernel_patches_300 :: "kernel_patch list" where
  "g_kernel_patches_300 = [
    \<lparr>pattern_size = 0x10, kp_pattern = g_kernel_pattern_300_proc_id_send, pattern_hook_offset = 0x0,
     payload_num_instructions = length g_kernel_patch_300_proc_id_send, branch_back_offset = 0x4, patch_offset = 0, payload = g_kernel_patch_300_proc_id_send\<rparr>,
    \<lparr>pattern_size = 0x10, kp_pattern = g_kernel_pattern_300_proc_id_recv, pattern_hook_offset = 0x0,
     payload_num_instructions = length g_kernel_patch_300_proc_id_recv, branch_back_offset = 0x4, patch_offset = 0, payload = g_kernel_patch_300_proc_id_recv\<rparr>]"

definition g_kernel_patches_302 :: "kernel_patch list" where
  "g_kernel_patches_302 = [
    \<lparr>pattern_size = 0x10, kp_pattern = g_kernel_pattern_302_proc_id_send, pattern_hook_offset = 0x0,
     payload_num_instructions = length g_kernel_patch_302_proc_id_send, branch_back_offset = 0x4, patch_offset = 0, payload = g_kernel_patch_302_proc_id_send\<rparr>,
    \<lparr>pattern_size = 0x10, kp_pattern = g_kernel_pattern_302_proc_id_recv, pattern_hook_offset = 0x0,
     payload_num_instructions = length g_kernel_patch_302_proc_id_recv, branch_back_offset = 0x4, patch_offset = 0, payload = g_kernel_patch_302_proc_id_recv\<rparr>]"

definition g_kernel_patches_400 :: "kernel_patch list" where
  "g_kernel_patches_400 = [
    \<lparr>pattern_size = 0x10, kp_pattern = g_kernel_pattern_400_proc_id_send, pattern_hook_offset = 0x0,
     payload_num_instructions = length g_kernel_patch_400_proc_id_send, branch_back_offset = 0x8, patch_offset = 0, payload = g_kernel_patch_400_proc_id_send\<rparr>,
    \<lparr>pattern_size = 0x10, kp_pattern = g_kernel_pattern_400_proc_id_recv, pattern_hook_offset = 0x0,
     payload_num_instructions = length g_kernel_patch_400_proc_id_recv, branch_back_offset = 0x4, patch_offset = 0, payload = g_kernel_patch_400_proc_id_recv\<rparr>]"

definition g_kernel_patches_500 :: "kernel_patch list" where
  "g_kernel_patches_500 = [
    \<lparr>pattern_size = 0x10, kp_pattern = g_kernel_pattern_500_proc_id_send, pattern_hook_offset = 0x0,
     payload_num_instructions = length g_kernel_patch_500_proc_id_send, branch_back_offset = 0x8, patch_offset = 0, payload = g_kernel_patch_500_proc_id_send\<rparr>,
    \<lparr>pattern_size = 0x10, kp_pattern = g_kernel_pattern_500_proc_id_recv, pattern_hook_offset = 0x0,
     payload_num_instructions = length g_kernel_patch_500_proc_id_recv, branch_back_offset = 0x8, patch_offset = 0, payload = g_kernel_patch_500_proc_id_recv\<rparr>,
    \<lparr>pattern_size = 0, kp_pattern = [], pattern_hook_offset = 0,
     payload_num_instructions = length g_kernel_patch_500_svc_control_codememory, branch_back_offset = 0, patch_offset = 0x38C2C, payload = g_kernel_patch_500_svc_control_codememory\<rparr>]"

definition g_kernel_patches_600 :: "kernel_patch list" where
  "g_kernel_patches_600 = [
    \<lparr>pattern_size = 0x1C, kp_pattern = g_kernel_pattern_600_proc_id_send, pattern_hook_offset = 0x0,
     payload_num_instructions = length g_kernel_patch_600_proc_id_send, branch_back_offset = 0x10, patch_offset = 0, payload = g_kernel_patch_600_proc_id_send\<rparr>,
    \<lparr>pattern_size = 0x1C, kp_pattern = g_kernel_pattern_600_proc_id_recv, pattern_hook_offset = 0x0,
     payload_num_instructions = length g_kernel_patch_600_proc_id_recv, branch_back_offset = 0x10, patch_offset = 0, payload = g_kernel_patch_600_proc_id_recv\<rparr>,
    \<lparr>pattern_size = 0, kp_pattern = [], pattern_hook_offset = 0,
     payload_num_instructions = length g_kernel_patch_600_svc_control_codememory, branch_back_offset = 0, patch_offset = 0x3A8CC, payload = g_kernel_patch_600_svc_control_codememory\<rparr>]"

definition g_kernel_patches_700 :: "kernel_patch list" where
  "g_kernel_patches_700 = [
    \<lparr>pattern_size = 0x1C, kp_pattern = g_kernel_pattern_700_proc_id_send, pattern_hook_offset = 0x0,
     payload_num_instructions = length g_kernel_patch_700_proc_id_send, branch_back_offset = 0x10, patch_offset = 0, payload = g_kernel_patch_700_proc_id_send\<rparr>,
    \<lparr>pattern_size = 0x1C, kp_pattern = g_kernel_pattern_700_proc_id_recv, pattern_hook_offset = 0x0,
     payload_num_instructions = length g_kernel_patch_700_proc_id_recv, branch_back_offset = 0x10, patch_offset = 0, payload = g_kernel_patch_700_proc_id_recv\<rparr>,
    \<lparr>pattern_size = 0, kp_pattern = [], pattern_hook_offset = 0,
     payload_num_instructions = length g_kernel_patch_700_svc_control_codememory, branch_back_offset = 0, patch_offset = 0x3C6E0, payload = g_kernel_patch_700_svc_control_codememory\<rparr>]"

definition g_kernel_patches_800 :: "kernel_patch list" where
  "g_kernel_patches_800 = [
    \<lparr>pattern_size = 0x1C, kp_pattern = g_kernel_pattern_800_proc_id_send, pattern_hook_offset = 0x0,
     payload_num_instructions = length g_kernel_patch_800_proc_id_send, branch_back_offset = 0x10, patch_offset = 0, payload = g_kernel_patch_800_proc_id_send\<rparr>,
    \<lparr>pattern_size = 0x1C, kp_pattern = g_kernel_pattern_800_proc_id_recv, pattern_hook_offset = 0x0,
     payload_num_instructions = length g_kernel_patch_800_proc_id_recv, branch_back_offset = 0x10, patch_offset = 0, payload = g_kernel_patch_800_proc_id_recv\<rparr>,
    \<lparr>pattern_size = 0, kp_pattern = [], pattern_hook_offset = 0,
     payload_num_instructions = length g_kernel_patch_800_svc_control_codememory, branch_back_offset = 0, patch_offset = 0x3FAD0, payload = g_kernel_patch_800_svc_control_codememory\<rparr>]"

definition g_kernel_patches_900 :: "kernel_patch list" where
  "g_kernel_patches_900 = [
    \<lparr>pattern_size = 0x1C, kp_pattern = g_kernel_pattern_900_proc_id_send, pattern_hook_offset = 0x0,
     payload_num_instructions = length g_kernel_patch_900_proc_id_send, branch_back_offset = 0x10, patch_offset = 0, payload = g_kernel_patch_900_proc_id_send\<rparr>,
    \<lparr>pattern_size = 0x1C, kp_pattern = g_kernel_pattern_900_proc_id_recv, pattern_hook_offset = 0x0,
     payload_num_instructions = length g_kernel_patch_900_proc_id_recv, branch_back_offset = 0x10, patch_offset = 0, payload = g_kernel_patch_900_proc_id_recv\<rparr>,
    \<lparr>pattern_size = 0, kp_pattern = [], pattern_hook_offset = 0,
     payload_num_instructions = length g_kernel_patch_900_svc_control_codememory, branch_back_offset = 0, patch_offset = 0x43DFC, payload = g_kernel_patch_900_svc_control_codememory\<rparr>]"

section \<open>The versions\<close>

definition g_kernel_infos :: "kernel_info list" where
  "g_kernel_infos = [
    \<lparr>ki_hash = [0x64, 0x44, 0x07, 0x2F, 0x56, 0x44, 0x73, 0xDD, 0xD5, 0x46, 0x1B, 0x8C, 0xDC, 0xEF, 0x54, 0x98,
       0x16, 0xDA, 0x81, 0xDE, 0x5B, 0x1C, 0x9D, 0xD7, 0x5A, 0x13, 0x91, 0xD9, 0x53, 0xAB, 0x8D, 0x8D],
     hash_offset = 0, hash_size = 0, embedded_ini_offset = 0, embedded_ini_ptr = 0,
     free_code_space_offset = 0x4797C, ki_patches = g_kernel_patches_100\<rparr>,
    \<lparr>ki_hash = [0xB8, 0xC5, 0x0C, 0x68, 0x25, 0xA9, 0xB9, 0x5B, 0xD2, 0x4D, 0x2C, 0x7C, 0x81, 0x7F, 0xE6, 0x96,
       0xF2, 0x42, 0x4E, 0x1D, 0x78, 0xDF, 0x3B, 0xCA, 0x3D, 0x6B, 0x68, 0x12, 0xDD, 0xA9, 0xCB, 0x9C],
     hash_offset = 0, hash_size = 0, embedded_ini_offset = 0, embedded_ini_ptr = 0,
     free_code_space_offset = 0x4797C, ki_patches = g_kernel_patches_100\<rparr>,
    \<lparr>ki_hash = [0x64, 0x0B, 0x51, 0xFF, 0x28, 0x01, 0xB8, 0x30, 0xA7, 0xA3, 0x60, 0x47, 0x86, 0x0D, 0x68, 0xAA,
       0x9A, 0x92, 0x10, 0x0D, 0xB9, 0xCC, 0xEC, 0x8B, 0x05, 0x80, 0x73, 0xBD, 0x33, 0xB4, 0x2C, 0x6C],
     hash_offset = 0, hash_size = 0, embedded_ini_offset = 0, embedded_ini_ptr = 0,
     free_code_space_offset = 0x6486C, ki_patches = g_kernel_patches_200\<rparr>,
    \<lparr>ki_hash = [0x50, 0x84, 0x23, 0xAC, 0x6F, 0xA1, 0x5D, 0x3B, 0x56, 0xC2, 0xFC, 0x95, 0x22, 0xCC, 0xD5, 0xA8,
       0x15, 0xD3, 0xB4, 0x6B, 0xA1, 0x2C, 0xF2, 0x93, 0xD3, 0x02, 0x05, 0xAB, 0x52, 0xEF, 0x73, 0xC5],
     hash_offset = 0, hash_size = 0, embedded_ini_offset = 0, embedded_ini_ptr = 0,
     free_code_space_offset = 0x494A4, ki_patches = g_kernel_patches_300\<rparr>,
    \<lparr>ki_hash = [0x81, 0x9D, 0x08, 0xBE, 0xE4, 0x5E, 0x1F, 0xBB, 0x45, 0x5A, 0x6D, 0x70, 0x4B, 0xB2, 0x17, 0xA6,
       0x12, 0x69, 0xF8, 0xB8, 0x75, 0x1C, 0x71, 0x16, 0xF0, 0xE9, 0x79, 0x7F, 0xB0, 0xD1, 0x78, 0xB2],
     hash_offset = 0, hash_size = 0, embedded_ini_offset = 0, embedded_ini_ptr = 0,
     free_code_space_offset = 0x494BC, ki_patches = g_kernel_patches_302\<rparr>,
    \<lparr>ki_hash = [0xE6, 0xC0, 0xB7, 0xE3, 0x2F, 0xF9, 0x44, 0x51, 0xEC, 0xD5, 0x95, 0x79, 0xE3, 0x46, 0xB1, 0xDA,
       0x2E, 0xD9, 0x28, 0xC6, 0xF2, 0x31, 0x4F, 0x95, 0xD8, 0xC7, 0xD5, 0xBD, 0x15, 0xD5, 0xE2, 0x5A],
     hash_offset = 0, hash_size = 0, embedded_ini_offset = 0, embedded_ini_ptr = 0,
     free_code_space_offset = 0x52890, ki_patches = g_kernel_patches_400\<rparr>,
    \<lparr>ki_hash = [0xB2, 0x38, 0x61, 0xA8, 0xE1, 0xE2, 0xE4, 0xE4, 0x17, 0x28, 0xED, 0xA9, 0xF6, 0xF6, 0xBD, 0xD2,
       0x59, 0xDB, 0x1F, 0xEF, 0x4A, 0x8B, 0x2F, 0x1C, 0x64, 0x46, 0x06, 0x40, 0xF5, 0x05, 0x9C, 0x43],
     hash_offset = 0, hash_size = 0, embedded_ini_offset = 0, embedded_ini_ptr = 0,
     free_code_space_offset = 0x5C020, ki_patches = g_kernel_patches_500\<rparr>,
    \<lparr>ki_hash = [0x85, 0x97, 0x40, 0xF6, 0xC0, 0x3E, 0x3D, 0x44, 0xDE, 0xA4, 0xA0, 0x35, 0xFD, 0x12, 0x9C, 0xD4,
       0x4F, 0x9C, 0x36, 0x53, 0x74, 0x54, 0x2C, 0x9C, 0x55, 0x47, 0xC4, 0x25, 0xF1, 0x42, 0xFB, 0x97],
     hash_offset = 0, hash_size = 0, embedded_ini_offset = 0, embedded_ini_ptr = 0,
     free_code_space_offset = 0x5EE00, ki_patches = g_kernel_patches_600\<rparr>,
    \<lparr>ki_hash = [0xA2, 0x5E, 0x47, 0x0C, 0x8E, 0x6D, 0x2F, 0xD7, 0x5D, 0xAD, 0x24, 0xD7, 0xD8, 0x24, 0x34, 0xFB,
       0xCD, 0x77, 0xBB, 0xE6, 0x66, 0x03, 0xCB, 0xAF, 0xAB, 0x85, 0x45, 0xA0, 0x91, 0xAF, 0x34, 0x25],
     hash_offset = 0, hash_size = 0, embedded_ini_offset = 0, embedded_ini_ptr = 0,
     free_code_space_offset = 0x5FEC0, ki_patches = g_kernel_patches_700\<rparr>,
    \<lparr>ki_hash = [0xA6, 0xAD, 0x5D, 0x7F, 0xCF, 0x25, 0x80, 0xAE, 0xE6, 0x57, 0x9F, 0x6F, 0xC5, 0xC5, 0xF6, 0x13,
       0x77, 0x23, 0xAC, 0x88, 0x79, 0x76, 0xF7, 0x25, 0x06, 0x16, 0x35, 0x3B, 0x3F, 0xA7, 0x59, 0x49],
     hash_offset = 0x1A8, hash_size = 0x95000 - 0x1A8, embedded_ini_offset = 0x95000, embedded_ini_ptr = 0x168,
     free_code_space_offset = 0x607F0, ki_patches = g_kernel_patches_800\<rparr>,
    \<lparr>ki_hash = [0xD7, 0x95, 0x65, 0x3A, 0x49, 0x4C, 0x5A, 0x9E, 0x2E, 0x04, 0xD6, 0x30, 0x7D, 0x79, 0xE1, 0xEE,
       0x10, 0x2B, 0x30, 0xE0, 0x3E, 0xDD, 0x9F, 0xB3, 0x8A, 0x3C, 0x5E, 0xD3, 0x9B, 0x30, 0x11, 0x9B],
     hash_offset = 0x1C0, hash_size = 0x90000 - 0x1C0, embedded_ini_offset = 0x90000, embedded_ini_ptr = 0x180,
     free_code_space_offset = 0x65780, ki_patches = g_kernel_patches_900\<rparr>]"

end
