(* ===== verification/Pattern_Search.thy ===== *)
theory Pattern_Search
  imports Exo_Prelude
begin

text \<open>
  \<^verbatim>\<open>search_pattern\<close> of \<^verbatim>\<open>fusee-secondary/src/kernel_patches.c\<close>: the search of a byte pattern in the kernel, with a table
  of shifts that is indexed by the byte under the end of the pattern. The second stage of the boot loader runs on a 32-bit processor:
  the difference of two sizes wraps modulo \<open>2 ^ 32\<close>.
\<close>

section \<open>The search\<close>

definition shift_table :: "bytes \<Rightarrow> nat list" where
  "shift_table pattern =
     fold (\<lambda>i table. table[unat (pattern ! i) := length pattern - i - 1]) [0..<length pattern - 1] (replicate 0x100 (length pattern))"

definition shift :: "bytes \<Rightarrow> u8 \<Rightarrow> nat" where
  "shift pattern b = shift_table pattern ! unat b"

lemma shift_upto:
  assumes "m \<le> length p - 1"
  defines "t \<equiv> fold (\<lambda>i table. table[unat (p ! i) := length p - i - 1]) [0..<m] (replicate 0x100 (length p))"
  shows "length t = 0x100 \<and> (t ! unat (b :: u8) \<le> length p) \<and> (p \<noteq> [] \<longrightarrow> 0 < t ! unat b) \<and> (\<forall>k < m. p ! k = b \<longrightarrow> t ! unat b \<le> length p - 1 - k)"
  using assms(1) unfolding t_def
proof (induction m)
  case 0
  then show ?case using unsigned_less [of b, where 'a = nat] by simp
next
  case (Suc m)
  define t where "t = fold (\<lambda>i table. table[unat (p ! i) := length p - i - 1]) [0..<m] (replicate 0x100 (length p))"
  have step: "fold (\<lambda>i table. table[unat (p ! i) := length p - i - 1]) [0..<Suc m] (replicate 0x100 (length p)) = t[unat (p ! m) := length p - m - 1]"
    by (simp add: t_def)
  have IH: "length t = 0x100" "t ! unat b \<le> length p" "p \<noteq> [] \<Longrightarrow> 0 < t ! unat b" "\<forall>k < m. p ! k = b \<longrightarrow> t ! unat b \<le> length p - 1 - k"
    using Suc by (simp_all add: t_def)
  have b: "unat b < 0x100" using unsigned_less [of b, where 'a = nat] by simp
  have e: "t[unat (p ! m) := v] ! unat b = (if p ! m = b then v else t ! unat b)" for v
    using IH(1) b by (cases "p ! m = b") (auto simp: nth_list_update_neq word_unat_eq_iff)
  show ?case unfolding step using IH Suc.prems by (auto simp: e less_Suc_eq)
qed

lemma shift_bounds: "p \<noteq> [] \<Longrightarrow> 0 < shift p b" "shift p b \<le> length p"
  using shift_upto [of "length p - 1" p b] by (auto simp: shift_def shift_table_def)

lemma shift_le: "k < length p - 1 \<Longrightarrow> p ! k = b \<Longrightarrow> shift p b \<le> length p - 1 - k"
  using shift_upto [of "length p - 1" p b] by (auto simp: shift_def shift_table_def)

text \<open>
  The loop, from index \<open>i\<close> on. An empty pattern, for which the table loop runs over the end of the pattern, and a buffer
  larger than the address space are undefined; so is an access behind the end of the buffer.
\<close>

function search_from :: "bytes \<Rightarrow> bytes \<Rightarrow> nat \<Rightarrow> nat option res" where
  "search_from mem pattern i =
     (if pattern = [] \<or> 2 ^ 32 \<le> length mem \<or> 2 ^ 32 \<le> length pattern then Undef
      else if i \<le> (2 ^ 32 + length mem - length pattern) mod 2 ^ 32
      then if length mem < i + length pattern then Undef
           else if pattern ! (length pattern - 1) = mem ! (i + length pattern - 1)
                   \<and> bslice mem i (length pattern - 1) = take (length pattern - 1) pattern
           then Ok (Some i)
           else search_from mem pattern (i + shift pattern (mem ! (i + length pattern - 1)))
      else Ok None)"
  by pat_completeness auto
termination
proof (relation "measure (\<lambda>(mem, pattern, i). Suc (length mem) - i)", goal_cases)
  case (2 mem pattern i)
  then have "0 < shift pattern (mem ! (i + length pattern - 1))" using shift_bounds(1) by blast
  moreover have "i < Suc (length mem)" using 2 by simp
  ultimately show ?case by simp
qed simp

declare search_from.simps [simp del]

definition search_pattern :: "bytes \<Rightarrow> bytes \<Rightarrow> nat option res" where
  "search_pattern mem pattern = search_from mem pattern 0"

section \<open>It finds the first occurrence\<close>

definition occurs_at :: "bytes \<Rightarrow> bytes \<Rightarrow> nat \<Rightarrow> bool" where
  "occurs_at mem pattern i \<longleftrightarrow> i + length pattern \<le> length mem \<and> bslice mem i (length pattern) = pattern"

lemma occurs_nth: "occurs_at mem p i \<Longrightarrow> k < length p \<Longrightarrow> mem ! (i + k) = p ! k"
  unfolding occurs_at_def by (metis nth_bslice)

lemma occurs_iff:
  assumes "p \<noteq> []" "i + length p \<le> length mem"
  shows "occurs_at mem p i \<longleftrightarrow>
    p ! (length p - 1) = mem ! (i + length p - 1) \<and> bslice mem i (length p - 1) = take (length p - 1) p"
proof -
  obtain q b where p: "p = q @ [b]" using assms(1) by (cases p rule: rev_cases) auto
  have "bslice mem i (length p) = bslice mem i (length q) @ [mem ! (i + length q)]"
    using assms(2) by (simp add: p bslice_def take_Suc_conv_app_nth)
  then show ?thesis using assms(2) by (auto simp: occurs_at_def p)
qed

lemma no_occurrence_skipped:
  assumes "i + length p \<le> length mem" "i < j" "j < i + shift p (mem ! (i + length p - 1))"
  shows "\<not> occurs_at mem p j"
proof
  assume occ: "occurs_at mem p j"
  define k where "k = i + length p - 1 - j"
  have "j < i + length p" using assms(3) shift_bounds(2) [of p "mem ! (i + length p - 1)"] by linarith
  then have k: "k < length p - 1" "j + k = i + length p - 1" using assms(2) by (auto simp: k_def)
  then have "mem ! (i + length p - 1) = p ! k" using occurs_nth [OF occ, of k] by simp
  then have "shift p (mem ! (i + length p - 1)) \<le> length p - 1 - k" using shift_le k(1) by metis
  then show False using assms(2,3) k by linarith
qed

lemma find_skip:
  assumes "i \<le> j" "\<And>k. i \<le> k \<Longrightarrow> k < j \<Longrightarrow> \<not> Q k"
  shows "List.find Q [j..<n] = List.find Q [i..<n]"
proof (cases "j \<le> n")
  case True
  then have "[i..<n] = [i..<j] @ [j..<n]" using assms(1) by (metis le_Suc_ex upt_add_eq_append)
  moreover have "List.find Q (xs @ ys) = List.find Q ys" if "\<forall>x \<in> set xs. \<not> Q x" for xs ys
    using that by (induction xs) auto
  ultimately show ?thesis using assms(2) by simp
next
  case False
  then show ?thesis using assms(2) by (auto simp: find_None_iff eq_commute [of None])
qed

lemma search_from_correct:
  assumes "p \<noteq> []" "length p \<le> length mem" "length mem < 2 ^ 32"
  shows "search_from mem p i = Ok (List.find (occurs_at mem p) [i..<Suc (length mem - length p)])"
proof (induction "Suc (length mem) - i" arbitrary: i rule: less_induct)
  case less
  have w: "(2 ^ 32 + length mem - length p) mod 2 ^ 32 = length mem - length p"
    using assms by (metis Nat.add_diff_assoc add.commute le_less_trans diff_le_self mod_add_self1 mod_less)
  note step = search_from.simps [of mem p i, unfolded w]
  show ?case
  proof (cases "i \<le> length mem - length p")
    case False
    then show ?thesis using assms by (simp add: step)
  next
    case True
    then have b: "i + length p \<le> length mem" using assms by linarith
    let ?s = "shift p (mem ! (i + length p - 1))"
    show ?thesis
    proof (cases "occurs_at mem p i")
      case True
      then show ?thesis
        using b assms \<open>i \<le> _\<close> by (subst step) (simp add: occurs_iff [OF assms(1) b] upt_conv_Cons del: upt_Suc)
    next
      case False
      have "search_from mem p i = search_from mem p (i + ?s)"
        using False b assms True by (subst step) (auto simp: occurs_iff [OF assms(1) b])
      also have "\<dots> = Ok (List.find (occurs_at mem p) [i + ?s..<Suc (length mem - length p)])"
      proof (rule less)
        show "Suc (length mem) - (i + ?s) < Suc (length mem) - i"
          using shift_bounds(1) [OF assms(1), of "mem ! (i + length p - 1)"] b by linarith
      qed
      also have "List.find (occurs_at mem p) [i + ?s..<Suc (length mem - length p)] = List.find (occurs_at mem p) [i..<Suc (length mem - length p)]"
        by (rule find_skip) (use no_occurrence_skipped [OF b] False shift_bounds b in \<open>auto simp: le_less\<close>)
      finally show ?thesis .
    qed
  qed
qed

end
