(* ===== verification/IPS_Patch.thy ===== *)
theory IPS_Patch
  imports Exo_Prelude
begin

text \<open>
  The first part of \<^verbatim>\<open>fusee-secondary/src/ips.c\<close>: patches in the IPS and IPS32 formats, read from files of the SD card and
  applied to the kernel or to a process image in memory. The boot loader runs on a 32-bit processor, so \<^verbatim>\<open>size_t\<close> has 32
  bits and the sums of offsets and sizes wrap.
\<close>

section \<open>Files\<close>

text \<open>
  The SD card is a map from paths to files and directories. A directory is the list of the names that \<^verbatim>\<open>readdir\<close> gives; an open
  file its contents and the position in it.
\<close>

datatype node = File bytes | Dir "string list"
type_synonym sd_card = "string \<rightharpoonup> node"
type_synonym stream = "bytes \<times> nat"

definition fopen :: "sd_card \<Rightarrow> string \<Rightarrow> stream option" where
  "fopen sd path = (case sd path of Some (File bs) \<Rightarrow> Some (bs, 0) | _ \<Rightarrow> None)"

definition opendir :: "sd_card \<Rightarrow> string \<Rightarrow> string list option" where
  "opendir sd path = (case sd path of Some (Dir names) \<Rightarrow> Some names | _ \<Rightarrow> None)"

text \<open>
  \<^verbatim>\<open>fread(buf, n, 1, f)\<close>: the bytes that end up in the buffer; the call returns 1 when there are \<open>n\<close> of them and \<open>n\<close> is not 0.
\<close>

definition fread :: "nat \<Rightarrow> stream \<Rightarrow> bytes \<times> stream" where
  "fread n f = (let bs = bslice (fst f) (snd f) n in (bs, (fst f, snd f + length bs)))"

definition fread_ok :: "nat \<Rightarrow> bytes \<Rightarrow> bool" where
  "fread_ok n bs \<longleftrightarrow> n \<noteq> 0 \<and> length bs = n"

definition fseek :: "u32 \<Rightarrow> stream \<Rightarrow> stream" where
  "fseek n f = (fst f, snd f + unat n)"

text \<open>\<^verbatim>\<open>fatal_error\<close> shows a message and waits for a button to reboot: a panic with a code of its own.\<close>

definition fatal_error :: "'a res" where
  "fatal_error = Panic 0xFA7A1"

text \<open>\<^verbatim>\<open>snprintf\<close> into a buffer of \<open>n\<close> bytes.\<close>

definition snprintf :: "nat \<Rightarrow> string \<Rightarrow> string" where
  "snprintf n s = take (n - 1) s"

section \<open>Applying a patch\<close>

definition IPS_MAGIC :: bytes where "IPS_MAGIC = [0x50, 0x41, 0x54, 0x43, 0x48]"
definition IPS_TAIL :: bytes where "IPS_TAIL = [0x45, 0x4F, 0x46]"
definition IPS32_MAGIC :: bytes where "IPS32_MAGIC = [0x49, 0x50, 0x53, 0x33, 0x32]"
definition IPS32_TAIL :: bytes where "IPS32_TAIL = [0x45, 0x45, 0x4F, 0x46]"

text \<open>The big-endian numbers that the code puts together from the bytes of its buffer.\<close>

definition be_u32 :: "bytes \<Rightarrow> u32" where
  "be_u32 bs = le_word (rev bs)"

text \<open>
  The size of a write at \<open>patch_offset\<close>, cut at the end of the memory. The comparison and the difference are those of
  unsigned 32-bit numbers. A write that is not inside the memory is undefined.
\<close>

definition clip_size :: "u32 \<Rightarrow> u32 \<Rightarrow> u32 \<Rightarrow> u32" where
  "clip_size mem_size patch_offset sz = (if patch_offset + sz > mem_size then mem_size - patch_offset else sz)"

definition mem_blit :: "bytes \<Rightarrow> u32 \<Rightarrow> u32 \<Rightarrow> bytes \<Rightarrow> bytes res" where
  "mem_blit mem off sz bs = (if unat off + unat sz \<le> length mem then Ok (blit mem (unat off) bs) else Undef)"

definition ips_rle :: "bytes \<Rightarrow> u32 \<Rightarrow> u32 \<Rightarrow> u8 \<Rightarrow> bytes res" where
  "ips_rle mem patch_offset rle_size v =
     (let rle_size = clip_size (of_nat (length mem)) patch_offset rle_size
      in mem_blit mem patch_offset rle_size (replicate (unat rle_size) v))"

text \<open>A record with data: whether the loop goes on, the memory, and the file.\<close>

definition ips_data :: "bytes \<Rightarrow> u32 \<Rightarrow> u32 \<Rightarrow> stream \<Rightarrow> (bool \<times> bytes \<times> stream) res" where
  "ips_data mem patch_offset patch_size f =
     (let read_size = clip_size (of_nat (length mem)) patch_offset patch_size;
          (bs, f) = fread (unat read_size) f
      in bindR (mem_blit mem patch_offset read_size bs) (\<lambda>mem.
         if \<not> fread_ok (unat read_size) bs then Ok (False, mem, f)
         else if patch_size > read_size then Ok (True, mem, fseek (patch_size - read_size) f)
         else Ok (True, mem, f)))"

definition ips_record :: "bool \<Rightarrow> u32 \<Rightarrow> bytes \<Rightarrow> stream \<Rightarrow> (bool \<times> bytes \<times> stream) res" where
  "ips_record is_ips32 prot_size mem f =
     (let n = (if is_ips32 then 4 else 3); (buffer, f) = fread n f in
      if \<not> fread_ok n buffer then Ok (False, mem, f)
      else if buffer = (if is_ips32 then IPS32_TAIL else IPS_TAIL) then Ok (False, mem, f)
      else
        let patch_offset = be_u32 buffer; (buffer, f) = fread 2 f in
        if \<not> fread_ok 2 buffer then Ok (False, mem, f)
        else
          let patch_size = be_u32 buffer in
          if patch_size = 0
          then
            let (buffer, f) = fread 2 f in
            if \<not> fread_ok 2 buffer then Ok (False, mem, f)
            else
              let rle_size = be_u32 buffer; (buffer, f) = fread 1 f in
              if \<not> fread_ok 1 buffer then Ok (False, mem, f)
              else
                if patch_offset < prot_size
                then if patch_offset + rle_size > prot_size
                     then let diff = prot_size - patch_offset
                          in bindR (ips_rle mem (patch_offset + diff) (rle_size - diff) (buffer ! 0)) (\<lambda>mem. Ok (True, mem, f))
                     else Ok (True, mem, f)
                else bindR (ips_rle mem patch_offset rle_size (buffer ! 0)) (\<lambda>mem. Ok (True, mem, f))
          else
            if patch_offset < prot_size
            then if patch_offset + patch_size > prot_size
                 then let diff = prot_size - patch_offset
                      in ips_data mem (patch_offset + diff) (patch_size - diff) (fseek diff f)
                 else Ok (True, mem, fseek patch_size f)
            else ips_data mem patch_offset patch_size f)"

text \<open>A record that the loop goes on after has used up bytes of the file.\<close>

definition rest :: "stream \<Rightarrow> nat" where "rest f = length (fst f) - snd f"

lemma fread_rest: "fread n f = (bs, f') \<Longrightarrow> rest f' = rest f - length bs" "fread n f = (bs, f') \<Longrightarrow> length bs \<le> rest f"
  by (auto simp: fread_def rest_def Let_def bslice_def)

lemma fseek_rest [simp]: "rest (fseek n f) \<le> rest f"
  by (simp add: rest_def fseek_def)

lemma ips_data_rest:
  assumes "ips_data mem off sz f = Ok (go, mem', f')"
  shows "rest f' \<le> rest f"
proof -
  obtain bs f1 where r: "fread (unat (clip_size (of_nat (length mem)) off sz)) f = (bs, f1)" by (meson surj_pair)
  then have "\<exists>n. f' = f1 \<or> f' = fseek n f1"
    using assms by (auto simp: ips_data_def Let_def res_simps split: if_splits)
  then show ?thesis using fread_rest(1) [OF r] fseek_rest [of _ f1] by (metis diff_le_self le_trans)
qed

lemma ips_data_rest_seek: "ips_data mem off sz (fseek n f) = Ok (go, mem', f') \<Longrightarrow> rest f' \<le> rest f"
  using ips_data_rest fseek_rest order_trans by blast

lemma ips_record_uses:
  assumes "ips_record is_ips32 prot mem f = Ok (True, mem', f')"
  shows "rest f' < rest f"
proof -
  obtain b1 f1 where r1: "fread (if is_ips32 then 4 else 3) f = (b1, f1)" by (meson surj_pair)
  obtain b2 f2 where r2: "fread 2 f1 = (b2, f2)" by (meson surj_pair)
  obtain b3 f3 where r3: "fread 2 f2 = (b3, f3)" by (meson surj_pair)
  obtain b4 f4 where r4: "fread 1 f3 = (b4, f4)" by (meson surj_pair)
  have ok: "fread_ok (if is_ips32 then 4 else 3) b1" using assms r1 by (auto simp: ips_record_def Let_def split: if_splits)
  then have "rest f1 < rest f" using fread_rest [OF r1] by (auto simp: fread_ok_def split: if_splits)
  moreover have "rest f2 \<le> rest f1" "rest f3 \<le> rest f2" "rest f4 \<le> rest f3" using fread_rest(1) [OF r2] fread_rest(1) [OF r3] fread_rest(1) [OF r4] by auto
  moreover have "rest f' = rest f4 \<or> rest f' \<le> rest f2"
    using assms r1 r2 r3 r4
    by (auto simp: ips_record_def Let_def res_simps split: if_splits dest: ips_data_rest_seek ips_data_rest)
  ultimately show ?thesis by linarith
qed

function apply_ips_patch :: "bool \<Rightarrow> u32 \<Rightarrow> bytes \<Rightarrow> stream \<Rightarrow> bytes res" where
  "apply_ips_patch is_ips32 prot_size mem f =
     bindR (ips_record is_ips32 prot_size mem f) (\<lambda>(go, mem, f).
     if go then apply_ips_patch is_ips32 prot_size mem f else Ok mem)"
  by pat_completeness auto
termination
  by (relation "measure (\<lambda>(_, _, _, f). rest f)") (auto dest: ips_record_uses)

declare apply_ips_patch.simps [simp del]

section \<open>Finding the patches of a hash\<close>

definition NOGC_PATCH_DIR :: string where "NOGC_PATCH_DIR = ''default_nogc''"
definition KIP_PATCHES :: string where "KIP_PATCHES = ''atmosphere/kip_patches''"
definition KERNEL_PATCHES :: string where "KERNEL_PATCHES = ''atmosphere/kernel_patches''"

text \<open>\<^verbatim>\<open>g_enable_nogc_patches\<close> is an argument of the functions that read it.\<close>

definition should_ignore_default_patch :: "bool \<Rightarrow> string \<Rightarrow> bool" where
  "should_ignore_default_patch g_enable_nogc_patches patch_dir \<longleftrightarrow> \<not> g_enable_nogc_patches \<and> patch_dir = NOGC_PATCH_DIR"

definition hex_upper :: "u8 \<Rightarrow> string" where
  "hex_upper b = [''0123456789ABCDEF'' ! (unat b div 16), ''0123456789ABCDEF'' ! (unat b mod 16)]"

definition has_patch :: "sd_card \<Rightarrow> string \<Rightarrow> string option \<Rightarrow> bytes \<Rightarrow> bool" where
  "has_patch sd dir subdir hash =
     (let path = dir @ ''/'' @ (case subdir of None \<Rightarrow> [] | Some s \<Rightarrow> s @ ''/'') @ concat (map hex_upper hash) @ ''.ips''
      in if 0x301 \<le> length path then False else fopen sd path \<noteq> None)"

definition has_needed_default_kip_patches :: "sd_card \<Rightarrow> bool \<Rightarrow> u64 \<Rightarrow> bytes \<Rightarrow> bool" where
  "has_needed_default_kip_patches sd g_enable_nogc_patches title_id hash =
     (if title_id = 0x0100000000000000 \<and> g_enable_nogc_patches
      then has_patch sd KIP_PATCHES (Some NOGC_PATCH_DIR) hash else True)"

definition isxdigit :: "char \<Rightarrow> bool" where
  "isxdigit c \<longleftrightarrow> c \<in> set ''0123456789abcdefABCDEF''"

definition hex_nybble_to_u8 :: "char \<Rightarrow> u8" where
  "hex_nybble_to_u8 c =
     (let nybble = of_char c :: nat in
      if 0x30 \<le> nybble \<and> nybble \<le> 0x39 then of_nat (nybble - 0x30)
      else if 0x61 \<le> nybble \<and> nybble \<le> 0x66 then of_nat (nybble - 0x61) + 0xA
      else of_nat nybble - 0x41 + 0xA)"

text \<open>The bytes that the digits of the name spell; the callers pass an even number of them, at most 64.\<close>

fun hash_of_digits :: "string \<Rightarrow> bytes" where
  "hash_of_digits (hi # lo # ds) = (push_bit 4 (hex_nybble_to_u8 hi) OR hex_nybble_to_u8 lo) # hash_of_digits ds"
| "hash_of_digits _ = []"

definition name_matches_hash :: "string \<Rightarrow> bytes \<Rightarrow> bool" where
  "name_matches_hash name hash =
     (let digits = take (length name - 4) name in
      if \<not> list_all isxdigit digits then False
      else hash = take (length hash) (blit (replicate 0x20 0) 0 (hash_of_digits digits)))"

definition is_patch_name :: "string \<Rightarrow> bytes \<Rightarrow> bool" where
  "is_patch_name name hash \<longleftrightarrow>
     4 < length name \<and> length name \<le> 0x44 \<and> even (length name) \<and> drop (length name - 4) name = ''.ips'' \<and> name_matches_hash name hash"

definition is_dots :: "string \<Rightarrow> bool" where
  "is_dots name \<longleftrightarrow> name = ''.'' \<or> name = ''..''"

text \<open>The two nested loops over the directories: the patch files for the hash that can be opened, in the order they are met.\<close>

definition patch_files :: "sd_card \<Rightarrow> bool \<Rightarrow> string \<Rightarrow> bytes \<Rightarrow> stream list" where
  "patch_files sd g_enable_nogc_patches dir hash =
     (case opendir sd (snprintf 0x300 dir) of None \<Rightarrow> []
      | Some subdirs \<Rightarrow> concat (map (\<lambda>subdir.
          if is_dots subdir \<or> should_ignore_default_patch g_enable_nogc_patches subdir then []
          else case opendir sd (snprintf 0x300 (dir @ ''/'' @ subdir)) of None \<Rightarrow> []
             | Some names \<Rightarrow> concat (map (\<lambda>name.
                 if is_dots name \<or> \<not> is_patch_name name hash then []
                 else case fopen sd (snprintf 0x300 (dir @ ''/'' @ subdir @ ''/'' @ name)) of None \<Rightarrow> [] | Some f \<Rightarrow> [f]) names)) subdirs))"

definition has_ips_patches :: "sd_card \<Rightarrow> bool \<Rightarrow> string \<Rightarrow> bytes \<Rightarrow> bool" where
  "has_ips_patches sd g_enable_nogc_patches dir hash =
     list_ex (\<lambda>f. let header = fst (fread 5 f) in fread_ok 5 header \<and> (header = IPS_MAGIC \<or> header = IPS32_MAGIC))
       (patch_files sd g_enable_nogc_patches dir hash)"

definition apply_patch_file :: "u32 \<Rightarrow> stream \<Rightarrow> bytes \<Rightarrow> bytes res" where
  "apply_patch_file prot_size f mem =
     (let (header, f) = fread 5 f in
      if \<not> fread_ok 5 header then Ok mem
      else if header = IPS_MAGIC then apply_ips_patch False prot_size mem f
      else if header = IPS32_MAGIC then apply_ips_patch True prot_size mem f
      else Ok mem)"

definition apply_ips_patches :: "sd_card \<Rightarrow> bool \<Rightarrow> string \<Rightarrow> u32 \<Rightarrow> bytes \<Rightarrow> bytes \<Rightarrow> bytes res" where
  "apply_ips_patches sd g_enable_nogc_patches dir prot_size hash mem =
     foldR (apply_patch_file prot_size) (patch_files sd g_enable_nogc_patches dir hash) mem"

text \<open>\<open>sha256\<close> is what the engine computes for \<^verbatim>\<open>se_calculate_sha256\<close>.\<close>

definition apply_kernel_ips_patches :: "sd_card \<Rightarrow> bool \<Rightarrow> (bytes \<Rightarrow> bytes) \<Rightarrow> bytes \<Rightarrow> bytes res" where
  "apply_kernel_ips_patches sd g_enable_nogc_patches sha256 kern =
     apply_ips_patches sd g_enable_nogc_patches KERNEL_PATCHES 0 (sha256 kern) kern"

section \<open>What a patch may change\<close>

lemma mem_blit_keeps:
  assumes "mem_blit mem off sz bs = Ok mem'" "length bs \<le> unat sz" "n \<le> unat off"
  shows "length mem' = length mem \<and> take n mem' = take n mem"
  using assms by (auto simp: mem_blit_def blit_def min_def split: if_splits)

lemma fread_length: "fread n f = (bs, f') \<Longrightarrow> length bs \<le> n"
  by (auto simp: fread_def bslice_def Let_def)

lemma ips_rle_keeps:
  "ips_rle mem off sz v = Ok mem' \<Longrightarrow> n \<le> unat off \<Longrightarrow> length mem' = length mem \<and> take n mem' = take n mem"
  unfolding ips_rle_def Let_def by (erule mem_blit_keeps) simp_all

lemma ips_data_keeps:
  assumes "ips_data mem off sz f = Ok (go, mem', f')" "n \<le> unat off"
  shows "length mem' = length mem \<and> take n mem' = take n mem"
proof -
  obtain bs f1 where r: "fread (unat (clip_size (of_nat (length mem)) off sz)) f = (bs, f1)" by (meson surj_pair)
  then have "mem_blit mem off (clip_size (of_nat (length mem)) off sz) bs = Ok mem'"
    using assms(1) by (auto simp: ips_data_def Let_def res_simps split: if_splits)
  then show ?thesis using mem_blit_keeps fread_length [OF r] assms(2) by blast
qed

lemma ips_record_keeps:
  assumes "ips_record is_ips32 prot mem f = Ok (go, mem', f')"
  shows "length mem' = length mem \<and> take (unat prot) mem' = take (unat prot) mem"
proof -
  have ge: "unat prot \<le> unat off" if "\<not> off < prot" for off :: u32 using that by (simp add: word_less_nat_alt)
  have eq: "off + (prot - off) = prot" for off :: u32 by simp
  note keeps = ips_rle_keeps [where n = "unat prot"] ips_data_keeps [where n = "unat prot"]
  show ?thesis
    using assms unfolding ips_record_def Let_def
    by (auto simp: res_simps split: prod.splits if_splits dest!: keeps dest: ge)
qed

lemma apply_ips_patch_keeps:
  "apply_ips_patch is_ips32 prot mem f = Ok mem' \<Longrightarrow> length mem' = length mem \<and> take (unat prot) mem' = take (unat prot) mem"
proof (induction is_ips32 prot mem f rule: apply_ips_patch.induct)
  case (1 is_ips32 prot mem f)
  from 1(2) obtain go m1 f1 where r: "ips_record is_ips32 prot mem f = Ok (go, m1, f1)"
      "(if go then apply_ips_patch is_ips32 prot m1 f1 else Ok m1) = Ok mem'"
    by (auto simp: apply_ips_patch.simps [of is_ips32 prot mem f] res_simps)
  with 1(1) [OF r(1)] ips_record_keeps [OF r(1)] show ?case by (auto split: if_splits)
qed

end
