(* ===== verification/KIP1.thy ===== *)
theory KIP1
  imports IPS_Patch
begin

text \<open>
  Process images: \<^verbatim>\<open>fusee-secondary/src/kip.h\<close> and the second part of \<^verbatim>\<open>ips.c\<close>, the decompression of their sections in place
  and the patches for them. An image is the list of its bytes from its header on.
\<close>

section \<open>The format\<close>

abbreviation (input) MAGIC_INI1 :: u32 where "MAGIC_INI1 \<equiv> 0x31494E49"
abbreviation (input) MAGIC_KIP1 :: u32 where "MAGIC_KIP1 \<equiv> 0x3150494B"
abbreviation (input) INI1_MAX_KIPS :: u32 where "INI1_MAX_KIPS \<equiv> 0x50"
abbreviation (input) FS_TITLE_ID :: u64 where "FS_TITLE_ID \<equiv> 0x0100000000000000"

record kip_section_header =
  out_offset :: u32
  out_size :: u32
  compressed_size :: u32
  sec_attribute :: u32

record kip1_header =
  kip_magic :: u32
  kip_name :: bytes
  title_id :: u64
  process_category :: u32
  main_thread_priority :: u8
  default_core :: u8
  kip_0x1E :: u8
  kip_flags :: u8
  section_headers :: "kip_section_header list"
  capabilities :: "u32 list"

definition kip_section_header_of :: "bytes \<Rightarrow> kip_section_header" where
  "kip_section_header_of bs = \<lparr>out_offset = read32le bs 0, out_size = read32le bs 4, compressed_size = read32le bs 8, sec_attribute = read32le bs 0xC\<rparr>"

definition kip1_header_of :: "bytes \<Rightarrow> kip1_header" where
  "kip1_header_of bs =
     \<lparr>kip_magic = read32le bs 0, kip_name = bslice bs 4 0xC, title_id = read64le bs 0x10, process_category = read32le bs 0x18,
      main_thread_priority = bs ! 0x1C, default_core = bs ! 0x1D, kip_0x1E = bs ! 0x1E, kip_flags = bs ! 0x1F,
      section_headers = map (\<lambda>i. kip_section_header_of (bslice bs (0x20 + 0x10 * i) 0x10)) [0..<6],
      capabilities = map (\<lambda>i. read32le bs (0x80 + 4 * i)) [0..<0x20]\<rparr>"

definition kip_section_header_bytes :: "kip_section_header \<Rightarrow> bytes" where
  "kip_section_header_bytes s = le_bytes 4 (out_offset s) @ le_bytes 4 (out_size s) @ le_bytes 4 (compressed_size s) @ le_bytes 4 (sec_attribute s)"

definition kip1_header_bytes :: "kip1_header \<Rightarrow> bytes" where
  "kip1_header_bytes h =
     le_bytes 4 (kip_magic h) @ kip_name h @ le_bytes 8 (title_id h) @ le_bytes 4 (process_category h)
     @ [main_thread_priority h, default_core h, kip_0x1E h, kip_flags h]
     @ concat (map kip_section_header_bytes (section_headers h)) @ concat (map (le_bytes 4) (capabilities h))"

definition kip1_get_size_from_header :: "kip1_header \<Rightarrow> u32" where
  "kip1_get_size_from_header h =
     0x100 + compressed_size (section_headers h ! 0) + compressed_size (section_headers h ! 1) + compressed_size (section_headers h ! 2)"

section \<open>Decompression in place\<close>

text \<open>
  \<open>cmp_start\<close> is an address relative to the buffer; it may lie before it. Every access is checked against the buffer.
\<close>

definition buf_get :: "bytes \<Rightarrow> int \<Rightarrow> u8 res" where
  "buf_get buf i = (if 0 \<le> i \<and> i < int (length buf) then Ok (buf ! nat i) else Undef)"

definition buf_set :: "bytes \<Rightarrow> int \<Rightarrow> u8 \<Rightarrow> bytes res" where
  "buf_set buf i v = (if 0 \<le> i \<and> i < int (length buf) then Ok (buf[nat i := v]) else Undef)"

text \<open>The buffer, the offset of the input and the offset of the output.\<close>

type_synonym blz_state = "bytes \<times> u32 \<times> u32"

definition blz_copy :: "int \<Rightarrow> u32 \<Rightarrow> u32 \<Rightarrow> nat \<Rightarrow> bytes \<Rightarrow> bytes res" where
  "blz_copy cmp_start out_ofs seg_ofs j buf =
     bindR (buf_get buf (cmp_start + uint (out_ofs + of_nat j + seg_ofs))) (\<lambda>b.
     buf_set buf (cmp_start + uint (out_ofs + of_nat j)) b)"

definition blz_token :: "u8 \<Rightarrow> int \<Rightarrow> blz_state \<Rightarrow> blz_state res" where
  "blz_token control cmp_start st = (case st of (buf, cmp_ofs, out_ofs) \<Rightarrow>
     if control AND 0x80 \<noteq> 0
     then if cmp_ofs < 2 then fatal_error
          else let cmp_ofs = cmp_ofs - 2 in
            bindR (buf_get buf (cmp_start + uint (cmp_ofs + 1))) (\<lambda>hi.
            bindR (buf_get buf (cmp_start + uint cmp_ofs)) (\<lambda>lo.
            let seg_val = push_bit 8 (ucast hi) OR ucast lo :: u32;
                seg_size = (drop_bit 12 seg_val AND 0xF) + 3;
                seg_ofs = (seg_val AND 0x0FFF) + 3;
                seg_size = (if out_ofs < seg_size then out_ofs else seg_size);
                out_ofs = out_ofs - seg_size
            in bindR (foldR (blz_copy cmp_start out_ofs seg_ofs) [0..<unat seg_size] buf) (\<lambda>buf. Ok (buf, cmp_ofs, out_ofs))))
     else if cmp_ofs < 1 then fatal_error
          else let cmp_ofs = cmp_ofs - 1; out_ofs = out_ofs - 1 in
            bindR (buf_get buf (cmp_start + uint cmp_ofs)) (\<lambda>b.
            bindR (buf_set buf (cmp_start + uint out_ofs) b) (\<lambda>buf. Ok (buf, cmp_ofs, out_ofs))))"

fun blz_bits :: "nat \<Rightarrow> u8 \<Rightarrow> int \<Rightarrow> blz_state \<Rightarrow> blz_state res" where
  "blz_bits 0 control cmp_start st = Ok st"
| "blz_bits (Suc n) control cmp_start st =
     bindR (blz_token control cmp_start st) (\<lambda>st.
     if snd (snd st) = 0 then Ok st else blz_bits n (push_bit 1 control) cmp_start st)"

lemma blz_token_uses:
  assumes "blz_token control cs (buf, cmp, out) = Ok (buf', cmp', out')" "out \<noteq> 0"
  shows "out' < out"
proof -
  have pos: "0 < out" using assms(2) by (simp add: word_neq_0_conv)
  have lit: "out - 1 < out" using assms(2) by (simp add: word_less_nat_alt unat_minus_one unat_gt_0)
  have seg: "out - ((x AND 0xF) + 3) < out" if "\<not> out < (x AND 0xF) + 3" for x :: u32
  proof -
    have "unat (x AND 0xF) \<le> 15" using word_and_le1 [of x "0xF"] by (simp add: word_le_nat_alt)
    then have "unat ((x AND 0xF) + 3) = unat (x AND 0xF) + 3" by (simp add: unat_word_ariths)
    then have "unat (out - ((x AND 0xF) + 3)) = unat out - (unat (x AND 0xF) + 3)" using that by (simp add: unat_sub not_less)
    then show ?thesis using assms(2) by (simp add: word_less_nat_alt unat_gt_0)
  qed
  show ?thesis
    using assms(1) unfolding blz_token_def
    by (auto simp: Let_def res_simps fatal_error_def pos lit split: if_splits intro!: seg)
qed

lemma blz_bits_uses:
  assumes "blz_bits n control cs st = Ok st'" "snd (snd st) \<noteq> 0"
  shows "snd (snd st') \<le> snd (snd st)" "n \<noteq> 0 \<Longrightarrow> snd (snd st') < snd (snd st)"
proof -
  have "snd (snd st') \<le> snd (snd st) \<and> (n \<noteq> 0 \<longrightarrow> snd (snd st') < snd (snd st))"
    using assms
  proof (induction n control cs st rule: blz_bits.induct)
    case (2 n control cs st)
    obtain buf cmp out where st: "st = (buf, cmp, out)" by (cases st)
    from 2 obtain buf1 cmp1 out1 where t: "blz_token control cs st = Ok (buf1, cmp1, out1)"
        "(if out1 = 0 then Ok (buf1, cmp1, out1) else blz_bits n (push_bit 1 control) cs (buf1, cmp1, out1)) = Ok st'"
      by (auto simp: res_simps)
    have "out1 < out" using blz_token_uses t(1) 2(3) by (simp add: st)
    with 2(1) [OF t(1)] t(2) st show ?case by (fastforce split: if_splits)
  qed simp
  then show "snd (snd st') \<le> snd (snd st)" "n \<noteq> 0 \<Longrightarrow> snd (snd st') < snd (snd st)" by auto
qed

function blz_loop :: "int \<Rightarrow> blz_state \<Rightarrow> bytes res" where
  "blz_loop cmp_start st =
     (if snd (snd st) = 0 then Ok (fst st)
      else bindR (buf_get (fst st) (cmp_start + uint (fst (snd st) - 1))) (\<lambda>control.
           bindR (blz_bits 8 control cmp_start (fst st, fst (snd st) - 1, snd (snd st))) (\<lambda>st. blz_loop cmp_start st)))"
  by pat_completeness auto
termination
  by (relation "measure (\<lambda>(_, st). unat (snd (snd st)))") (auto dest!: blz_bits_uses(2) simp: word_less_nat_alt)

declare blz_loop.simps [simp del]

text \<open>The three numbers at the end of the compressed data: \<open>hdr_end\<close> is the index of the byte behind them.\<close>

definition kip1_blz_uncompress :: "nat \<Rightarrow> bytes \<Rightarrow> bytes res" where
  "kip1_blz_uncompress hdr_end buf =
     (if hdr_end < 12 \<or> length buf < hdr_end then Undef
      else
        let addl_size = read32le buf (hdr_end - 4);
            header_size = read32le buf (hdr_end - 8);
            cmp_and_hdr_size = read32le buf (hdr_end - 12);
            cmp_start = int hdr_end - uint cmp_and_hdr_size;
            cmp_ofs = cmp_and_hdr_size - header_size;
            out_ofs = cmp_and_hdr_size + addl_size
        in blz_loop cmp_start (buf, cmp_ofs, out_ofs))"

section \<open>Images\<close>

text \<open>\<^verbatim>\<open>memcpy\<close> between two buffers, from and to an index.\<close>

definition memcpy_at :: "bytes \<Rightarrow> nat \<Rightarrow> bytes \<Rightarrow> nat \<Rightarrow> nat \<Rightarrow> bytes res" where
  "memcpy_at dst dst_ofs src src_ofs n =
     (if dst_ofs + n \<le> length dst \<and> src_ofs + n \<le> length src then Ok (blit dst dst_ofs (bslice src src_ofs n)) else Undef)"

definition uncompress_section :: "kip1_header \<Rightarrow> bytes \<Rightarrow> nat \<Rightarrow> bytes \<times> u32 \<times> u32 \<Rightarrow> (bytes \<times> u32 \<times> u32) res" where
  "uncompress_section h kip i st = (case st of (new_kip, new_offset, old_offset) \<Rightarrow>
     let s = section_headers h ! i in
     bindR (memcpy_at new_kip (unat new_offset) kip (unat old_offset) (unat (compressed_size s))) (\<lambda>new_kip.
     bindR (if bit (kip_flags h) i then kip1_blz_uncompress (unat new_offset + unat (compressed_size s)) new_kip else Ok new_kip) (\<lambda>new_kip.
     Ok (new_kip, new_offset + out_size s, old_offset + compressed_size s))))"

definition uncompressed_header :: "kip1_header \<Rightarrow> kip1_header" where
  "uncompressed_header h = h\<lparr>section_headers :=
       map (\<lambda>i. let s = section_headers h ! i in if i < 3 then s\<lparr>compressed_size := out_size s\<rparr> else s) [0..<length (section_headers h)],
     kip_flags := kip_flags h AND 0xF8\<rparr>"

text \<open>\<open>can_alloc\<close> says for which sizes there is memory.\<close>

definition kip1_uncompress :: "(u32 \<Rightarrow> bool) \<Rightarrow> bytes \<Rightarrow> bytes option res" where
  "kip1_uncompress can_alloc kip =
     (if length kip < 0x100 then Undef
      else
        let h = kip1_header_of kip; new_header = uncompressed_header h; sz = kip1_get_size_from_header new_header in
        if \<not> can_alloc sz then Ok None
        else if sz < 0x100 then Undef
        else bindR (foldR (uncompress_section h kip) [0..<3] (blit (replicate (unat sz) 0) 0 (kip1_header_bytes new_header), 0x100, 0x100))
               (\<lambda>(new_kip, _, _). Ok (Some new_kip)))"

definition g_fs_hashes :: "bytes list" where
  "g_fs_hashes = [
    [0xDE, 0x9F, 0xDD, 0xA4, 0x08, 0x5D, 0xD5, 0xFE],
    [0xCD, 0x7B, 0xBE, 0x18, 0xD6, 0x13, 0x0B, 0x28],
    [0xE7, 0x66, 0x92, 0xDF, 0xAA, 0x04, 0x20, 0xE9],
    [0x0D, 0x70, 0x05, 0x62, 0x7B, 0x07, 0x76, 0x7C],
    [0xDB, 0xD8, 0x5F, 0xCA, 0xCC, 0x19, 0x3D, 0xA8],
    [0xA8, 0x6D, 0xA5, 0xE8, 0x7E, 0xF1, 0x09, 0x7B],
    [0x98, 0x1C, 0x57, 0xE7, 0xF0, 0x2F, 0x70, 0xF7],
    [0x57, 0x39, 0x7C, 0x06, 0x3F, 0x10, 0xB6, 0x31],
    [0x07, 0x30, 0x99, 0xD7, 0xC6, 0xAD, 0x7D, 0x89],
    [0x06, 0xE9, 0x07, 0x19, 0x59, 0x5A, 0x01, 0x0C],
    [0x54, 0x9B, 0x0F, 0x8D, 0x6F, 0x72, 0xC4, 0xE9],
    [0x80, 0x96, 0xAF, 0x7C, 0x6A, 0x35, 0xAA, 0x82],
    [0x02, 0xD5, 0xAB, 0xAA, 0xFD, 0x20, 0xC8, 0xB0],
    [0xA6, 0xF2, 0x7A, 0xD9, 0xAC, 0x7C, 0x73, 0xAD],
    [0xCE, 0x3E, 0xCB, 0xA2, 0xF2, 0xF0, 0x62, 0xF5],
    [0x76, 0xF8, 0x74, 0x02, 0xC9, 0x38, 0x7C, 0x0F],
    [0x10, 0xB2, 0xD8, 0x16, 0x05, 0x48, 0x85, 0x99],
    [0x3A, 0x57, 0x4D, 0x43, 0x61, 0x86, 0x19, 0x1D],
    [0x33, 0x05, 0x53, 0xF6, 0xB5, 0xFB, 0x55, 0xC4],
    [0x2A, 0xDB, 0xE9, 0x7E, 0x9B, 0x5F, 0x41, 0x77],
    [0x2C, 0xCE, 0x65, 0x9C, 0xEC, 0x53, 0x6A, 0x8E],
    [0xB2, 0xF5, 0x17, 0x6B, 0x35, 0x48, 0x36, 0x4D],
    [0xDB, 0xD9, 0x41, 0xC0, 0xC5, 0x3C, 0x52, 0xCC],
    [0x6B, 0x09, 0xB6, 0x7B, 0x29, 0xC0, 0x20, 0x24],
    [0xB4, 0xCA, 0xE1, 0xF2, 0x49, 0x65, 0xD9, 0x2E],
    [0x46, 0x87, 0x40, 0x76, 0x1E, 0x19, 0x3E, 0xB7],
    [0x7C, 0x95, 0x13, 0x76, 0xE5, 0xC1, 0x2D, 0xF8]]"

text \<open>The last entry that matches, as the loop does not stop at the first.\<close>

definition find_fs_version :: "bytes \<Rightarrow> nat option" where
  "find_fs_version hash = fold (\<lambda>i r. if take 8 hash = g_fs_hashes ! i then Some i else r) [0..<length g_fs_hashes] None"

text \<open>
  What the boot loader works with: the SD card, its setting, the hash of the engine, the sizes for which there is memory, and the
  bytes that freshly allocated memory holds.
\<close>

record fusee_env =
  fe_sd :: sd_card
  g_enable_nogc_patches :: bool
  fe_sha256 :: "bytes \<Rightarrow> bytes"
  fe_can_alloc :: "u32 \<Rightarrow> bool"
  fe_fresh :: "nat \<Rightarrow> u8"

definition kip_patches_set_enable_nogc :: "fusee_env \<Rightarrow> fusee_env" where
  "kip_patches_set_enable_nogc e = e\<lparr>g_enable_nogc_patches := True\<rparr>"

text \<open>\<open>kip\<close> is the memory from the image on. The result is the patched image, if there is one, and the version of the file system module.\<close>

definition apply_kip_ips_patches :: "fusee_env \<Rightarrow> bytes \<Rightarrow> u32 \<Rightarrow> nat \<Rightarrow> (bytes option \<times> nat) res" where
  "apply_kip_ips_patches e kip kip_size fs_ver =
     (if length kip < unat kip_size \<or> length kip < 0x100 then Undef
      else
        let hash = fe_sha256 e (take (unat kip_size) kip); title = title_id (kip1_header_of kip) in
        bindR (if title = FS_TITLE_ID then (case find_fs_version hash of None \<Rightarrow> fatal_error | Some v \<Rightarrow> Ok v) else Ok fs_ver) (\<lambda>fs_ver.
        if \<not> has_needed_default_kip_patches (fe_sd e) (g_enable_nogc_patches e) title hash then fatal_error
        else if \<not> has_ips_patches (fe_sd e) (g_enable_nogc_patches e) KIP_PATCHES hash then Ok (None, fs_ver)
        else bindR (kip1_uncompress (fe_can_alloc e) kip) (\<lambda>u. case u of None \<Rightarrow> Ok (None, fs_ver)
             | Some uncompressed_kip \<Rightarrow>
                 bindR (apply_ips_patches (fe_sd e) (g_enable_nogc_patches e) KIP_PATCHES 0x100 hash uncompressed_kip) (\<lambda>patched.
                 Ok (Some patched, fs_ver)))))"

end
