(* ===== verification/Kernel_Patches.thy ===== *)
theory Kernel_Patches
  imports Kernel_Tables Pattern_Search KIP1
begin

text \<open>
  The code of \<^verbatim>\<open>fusee-secondary/src/kernel_patches.c\<close>: identifying the kernel by its hash, and patching it with branches to code
  that is placed into the unused end of a page. Offsets are natural numbers: those of the tables are far below \<open>2 ^ 32\<close>.
\<close>

section \<open>Identifying the kernel\<close>

text \<open>The hash that an entry of the table is compared with.\<close>

definition kernel_hash :: "(bytes \<Rightarrow> bytes) \<Rightarrow> bytes \<Rightarrow> kernel_info \<Rightarrow> bytes res" where
  "kernel_hash sha256 kern ki =
     (if hash_size ki = 0 \<or> length kern \<le> hash_size ki then Ok (sha256 kern)
      else if length kern < hash_offset ki + hash_size ki then Undef
      else Ok (sha256 (bslice kern (hash_offset ki) (hash_size ki))))"

fun find_kernel_info :: "(bytes \<Rightarrow> bytes) \<Rightarrow> bytes \<Rightarrow> kernel_info list \<Rightarrow> kernel_info option res" where
  "find_kernel_info sha256 kern [] = Ok None"
| "find_kernel_info sha256 kern (ki # kis) =
     bindR (kernel_hash sha256 kern ki) (\<lambda>h. if h = ki_hash ki then Ok (Some ki) else find_kernel_info sha256 kern kis)"

definition get_kernel_info :: "(bytes \<Rightarrow> bytes) \<Rightarrow> bytes \<Rightarrow> kernel_info option res" where
  "get_kernel_info sha256 kern = find_kernel_info sha256 kern g_kernel_infos"

section \<open>Patching\<close>

definition MAKE_BRANCH :: "u32 \<Rightarrow> u32 \<Rightarrow> u32" where
  "MAKE_BRANCH a to = 0x14000000 OR (drop_bit 2 (to - a) AND 0x3FFFFFF)"

definition write_insn :: "bytes \<Rightarrow> nat \<Rightarrow> u32 \<Rightarrow> bytes res" where
  "write_insn kern off v = (if off + 4 \<le> length kern then Ok (write32le kern off v) else Undef)"

text \<open>Instructions that are written over one another, and instructions that follow one another.\<close>

definition overwrite_insns :: "kernel_patch \<Rightarrow> bytes \<Rightarrow> bytes res" where
  "overwrite_insns kp kern =
     foldR (\<lambda>p kern. write_insn kern (patch_offset kp) (payload kp ! p)) [0..<payload_num_instructions kp] kern"

definition write_payload :: "kernel_patch \<Rightarrow> nat \<Rightarrow> bytes \<Rightarrow> bytes res" where
  "write_payload kp off kern =
     foldR (\<lambda>p kern. write_insn kern (off + 4 * p) (payload kp ! p)) [0..<payload_num_instructions kp] kern"

definition hook_size :: "kernel_patch \<Rightarrow> nat" where
  "hook_size kp = 4 * payload_num_instructions kp + (if branch_back_offset kp \<noteq> 0 then 4 else 0)"

text \<open>The body of the loop: the state is the kernel, \<open>free_space_offset\<close> and \<open>free_space_size\<close>.\<close>

definition apply_kernel_patch :: "kernel_patch \<Rightarrow> bytes \<times> nat \<times> nat \<Rightarrow> (bytes \<times> nat \<times> nat) res" where
  "apply_kernel_patch kp st = (case st of (kern, free_space_offset, free_space_size) \<Rightarrow>
     if patch_offset kp \<noteq> 0
     then bindR (overwrite_insns kp kern) (\<lambda>kern. Ok (kern, free_space_offset, free_space_size))
     else if free_space_size < hook_size kp then fatal_error
     else if length (kp_pattern kp) < pattern_size kp then Undef
     else
       bindR (search_pattern kern (take (pattern_size kp) (kp_pattern kp))) (\<lambda>pattern_loc.
       case pattern_loc of None \<Rightarrow> Ok (kern, free_space_offset, free_space_size)
       | Some loc \<Rightarrow>
           let hook_start = loc + pattern_hook_offset kp; back = free_space_offset + 4 * payload_num_instructions kp in
           bindR (write_insn kern hook_start (MAKE_BRANCH (of_nat hook_start) (of_nat free_space_offset))) (\<lambda>kern.
           bindR (write_payload kp free_space_offset kern) (\<lambda>kern.
           bindR (if branch_back_offset kp \<noteq> 0
                  then write_insn kern back (MAKE_BRANCH (of_nat back) (of_nat (branch_back_offset kp + hook_start)))
                  else Ok kern) (\<lambda>kern.
           Ok (kern, free_space_offset + hook_size kp, free_space_size - hook_size kp))))))"

definition free_space :: "nat \<Rightarrow> nat" where
  "free_space free_space_offset = (free_space_offset + 0xFFF) div 0x1000 * 0x1000 - free_space_offset"

text \<open>The kernel, and the offset of the initial processes that are embedded in it.\<close>

definition package2_patch_kernel :: "fusee_env \<Rightarrow> bytes \<Rightarrow> bool \<Rightarrow> (bytes \<times> nat option) res" where
  "package2_patch_kernel e kern is_sd_kernel =
     bindR (get_kernel_info (fe_sha256 e) kern) (\<lambda>kernel_info.
     bindR (apply_kernel_ips_patches (fe_sd e) (g_enable_nogc_patches e) (fe_sha256 e) kern) (\<lambda>kern.
     case kernel_info of None \<Rightarrow> if \<not> is_sd_kernel then fatal_error else Ok (kern, None)
     | Some ki \<Rightarrow>
         bindR (if embedded_ini_offset ki \<noteq> 0
                then if embedded_ini_ptr ki + 8 \<le> length kern
                     then Ok (write64le kern (embedded_ini_ptr ki) (of_nat (length kern))) else Undef
                else Ok kern) (\<lambda>kern.
         bindR (foldR apply_kernel_patch (ki_patches ki)
                  (kern, free_code_space_offset ki, free_space (free_code_space_offset ki))) (\<lambda>(kern, _, _).
         Ok (kern, if embedded_ini_offset ki \<noteq> 0 then Some (embedded_ini_offset ki) else None)))))"

section \<open>The branches\<close>

text \<open>The target of a branch instruction at an address: the sign-extended lower 26 bits count instructions.\<close>

definition branch_target :: "u32 \<Rightarrow> u32 \<Rightarrow> u32 option" where
  "branch_target a insn = (if drop_bit 26 insn = 5 then Some (a + 4 * scast (ucast insn :: 26 word)) else None)"

lemma bit_MAKE_BRANCH:
  "bit (MAKE_BRANCH a to) n \<longleftrightarrow> n < 32 \<and> (26 \<le> n \<and> bit (5 :: u32) (n - 26) \<or> n < 26 \<and> bit (to - a) (2 + n))"
proof -
  have e: "MAKE_BRANCH a to = push_bit 26 5 OR (drop_bit 2 (to - a) AND mask 26)"
    by (simp add: MAKE_BRANCH_def mask_eq_exp_minus_1)
  have "bit (push_bit 26 (5 :: u32)) n \<longleftrightarrow> 26 \<le> n \<and> n < 32 \<and> bit (5 :: u32) (n - 26)"
    by (simp only: bit_push_bit_iff) auto
  moreover have "bit (mask 26 :: u32) n \<longleftrightarrow> n < 26" by (simp only: bit_mask_iff) auto
  ultimately show ?thesis
    unfolding e bit_or_iff bit_and_iff bit_drop_bit_eq comp_apply by auto
qed

lemma branch_target_MAKE_BRANCH:
  assumes "a < 2 ^ 27" "b < 2 ^ 27" "4 dvd a" "4 dvd b"
  shows "branch_target (of_nat a) (MAKE_BRANCH (of_nat a) (of_nat b)) = Some (of_nat b)"
proof -
  define k where "k = (int b - int a) div 4"
  have k: "4 * k = int b - int a" using assms(3,4) by (simp add: k_def int_dvd_int_iff [symmetric, of 4, simplified])
  then have bounds: "- (2 ^ 25) \<le> k" "k < 2 ^ 25" using assms(1,2) by simp_all
  define x :: u32 where "x = of_nat b - of_nat a"
  have x: "x = word_of_int (4 * k)" by (simp add: x_def k)
  have "uint x = 4 * (k mod 2 ^ 30)"
    unfolding x uint_word_of_int using mod_mult_mult1 [of 4 k "2 ^ 30"] by simp
  then have "uint (drop_bit 2 x) = k mod 2 ^ 30" by (simp add: drop_bit_eq_div uint_div)
  then have imm: "ucast (drop_bit 2 x) = (word_of_int k :: 26 word)"
    by (simp add: word_uint_eq_iff uint_word_of_int unsigned_ucast_eq take_bit_eq_mod mod_mod_cancel)
  have low: "ucast (MAKE_BRANCH (of_nat a) (of_nat b)) = (ucast (drop_bit 2 x) :: 26 word)"
    by (rule bit_word_eqI) (simp add: bit_MAKE_BRANCH x_def bit_ucast_iff bit_drop_bit_eq)
  have "n < 6" if "bit (5 :: u32) n" for n using that bit_less_exp [of "5 :: u32" 6 n] by simp
  then have high: "drop_bit 26 (MAKE_BRANCH (of_nat a) (of_nat b)) = 5"
    by (intro bit_word_eqI) (auto simp: bit_MAKE_BRANCH bit_drop_bit_eq)
  have "sint (word_of_int k :: 26 word) = k" 
    using bounds by (simp add: sint_sbintrunc' signed_take_bit_int_eq_self_iff)
  then have "scast (word_of_int k :: 26 word) = (word_of_int k :: u32)" by (simp add: scast_eq)
  then have "4 * scast (ucast (MAKE_BRANCH (of_nat a) (of_nat b)) :: 26 word) = x" unfolding low imm by (simp add: x)
  then show ?thesis by (simp add: branch_target_def high x_def)
qed

section \<open>A hook\<close>

definition insns_bytes :: "u32 list \<Rightarrow> bytes" where
  "insns_bytes is = concat (map (le_bytes 4) is)"

lemma length_insns_bytes [simp]: "length (insns_bytes is) = 4 * length is"
  by (induction "is") (simp_all add: insns_bytes_def)

lemma insns_bytes_snoc [simp]: "insns_bytes (is @ [v]) = insns_bytes is @ le_bytes 4 v"
  by (simp add: insns_bytes_def)

lemma bslice_insns_bytes: "i < length is \<Longrightarrow> bslice (insns_bytes is) (4 * i) 4 = le_bytes 4 (is ! i)"
proof (induction "is" arbitrary: i)
  case (Cons v vs)
  then show ?case by (cases i) (auto simp: insns_bytes_def bslice_def)
qed simp

lemma blit_blit_next:
  assumes "off + length xs + length ys \<le> length buf"
  shows "blit (blit buf off xs) (off + length xs) ys = blit buf off (xs @ ys)"
  using assms by (simp add: blit_def ac_simps)

lemma write_insns:
  assumes "off + 4 * n \<le> length kern" "n \<le> length vs"
  shows "foldR (\<lambda>p kern. write_insn kern (off + 4 * p) (vs ! p)) [0..<n] kern = Ok (blit kern off (insns_bytes (take n vs)))"
  using assms
proof (induction n)
  case 0
  then show ?case by (simp add: insns_bytes_def blit_def)
next
  case (Suc n)
  let ?k = "blit kern off (insns_bytes (take n vs))"
  have len: "length (insns_bytes (take n vs)) = 4 * n" using Suc.prems by simp
  have "write_insn ?k (off + 4 * n) (vs ! n) = Ok (blit ?k (off + 4 * n) (le_bytes 4 (vs ! n)))"
    using Suc.prems len by (simp add: write_insn_def write32le_def)
  also have "blit ?k (off + 4 * n) (le_bytes 4 (vs ! n)) = blit kern off (insns_bytes (take (Suc n) vs))"
    using blit_blit_next [of off "insns_bytes (take n vs)" "le_bytes 4 (vs ! n)" kern] Suc.prems len
    by (simp add: take_Suc_conv_app_nth)
  finally show ?case using Suc by (simp add: foldR_append)
qed

lemma bslice_blit_other:
  assumes "off + length bs \<le> length buf" "i + n \<le> off \<or> off + length bs \<le> i" "i + n \<le> length buf"
  shows "bslice (blit buf off bs) i n = bslice buf i n"
  using assms by (intro nth_equalityI) (auto simp: nth_bslice nth_blit)

lemma bslice_blit_inside:
  assumes "off + length bs \<le> length buf" "i + n \<le> length bs"
  shows "bslice (blit buf off bs) (off + i) n = bslice bs i n"
  using assms by (intro nth_equalityI) (auto simp: nth_bslice nth_blit)

text \<open>The kernel behind a hook: a branch at \<open>hook\<close>, the payload at \<open>off\<close>, and, if the patch has one, the branch back.\<close>

definition back_insns :: "kernel_patch \<Rightarrow> nat \<Rightarrow> nat \<Rightarrow> u32 list" where
  "back_insns kp off hook =
     (if branch_back_offset kp \<noteq> 0
      then [MAKE_BRANCH (of_nat (off + 4 * length (payload kp))) (of_nat (branch_back_offset kp + hook))] else [])"

lemma apply_kernel_patch_hook:
  assumes kp: "patch_offset kp = 0" "pattern_size kp = length (kp_pattern kp)" "payload_num_instructions kp = length (payload kp)"
    and loc: "search_pattern kern (kp_pattern kp) = Ok (Some loc)"
    and fit: "hook_size kp \<le> space" "off + hook_size kp \<le> length kern" "loc + pattern_hook_offset kp + 4 \<le> length kern"
  defines "hook \<equiv> loc + pattern_hook_offset kp"
  shows "apply_kernel_patch kp (kern, off, space) =
    Ok (blit (blit kern hook (le_bytes 4 (MAKE_BRANCH (of_nat hook) (of_nat off)))) off (insns_bytes (payload kp @ back_insns kp off hook)),
        off + hook_size kp, space - hook_size kp)"
proof -
  let ?k1 = "blit kern hook (le_bytes 4 (MAKE_BRANCH (of_nat hook) (of_nat off)))"
  let ?k2 = "blit ?k1 off (insns_bytes (payload kp))"
  have len: "length ?k1 = length kern" using fit by (simp add: hook_def)
  have w: "write_payload kp off ?k1 = Ok ?k2"
    using write_insns [of off "length (payload kp)" ?k1 "payload kp"] fit kp
    by (simp add: write_payload_def len hook_size_def split: if_splits)
  show ?thesis
  proof (cases "branch_back_offset kp = 0")
    case True
    then show ?thesis
      using kp loc fit w by (simp add: apply_kernel_patch_def write_insn_def write32le_def hook_def [symmetric] back_insns_def Let_def)
  next
    case False
    then have "off + 4 * length (payload kp) + 4 \<le> length kern" using fit kp by (simp add: hook_size_def)
    then have "blit ?k2 (off + 4 * length (payload kp)) (le_bytes 4 v) = blit ?k1 off (insns_bytes (payload kp @ [v]))" for v
      using blit_blit_next [of off "insns_bytes (payload kp)" "le_bytes 4 v" ?k1] len by simp
    with False \<open>off + 4 * length (payload kp) + 4 \<le> length kern\<close> show ?thesis
      using kp loc fit w len
      by (simp add: apply_kernel_patch_def write_insn_def write32le_def hook_def [symmetric] back_insns_def Let_def)
  qed
qed

section \<open>What patching keeps\<close>

lemma write_insn_length: "write_insn kern off v = Ok kern' \<Longrightarrow> length kern' = length kern"
  by (auto simp: write_insn_def write32le_def split: if_splits)

lemma foldR_insns_length:
  assumes "foldR (\<lambda>p kern. write_insn kern (f p) (v p)) ps kern = Ok kern'"
  shows "length kern' = length kern"
  using assms by (rule foldR_invariant [where P = "\<lambda>k. length k = length kern"]) (auto dest: write_insn_length)

lemma apply_kernel_patch_keeps:
  assumes "apply_kernel_patch kp (kern, off, space) = Ok (kern', off', space')"
  shows "length kern' = length kern" "off' + space' = off + space" "off \<le> off'"
  using assms
  by (auto simp: apply_kernel_patch_def overwrite_insns_def write_payload_def fatal_error_def Let_def res_simps
      dest!: write_insn_length foldR_insns_length split: if_splits option.splits)

end
