(* ===== verification/INI1.thy ===== *)
theory INI1
  imports KIP1
begin

text \<open>
  The processes that the kernel starts with: \<^verbatim>\<open>fusee-secondary/src/stratosphere.c\<close> builds the list of Atmosphere's own images and
  of those on the SD card, and merges them with Nintendo's, the first image of each title winning. The images that the build embeds
  into the boot loader are parameters.
\<close>

section \<open>The format\<close>

abbreviation (input) PACKAGE2_SIZE_MAX :: u32 where "PACKAGE2_SIZE_MAX \<equiv> 0x7FC000"
abbreviation (input) FS_VER_1_0_0 :: nat where "FS_VER_1_0_0 \<equiv> 0"

text \<open>
  The header, and the bytes of \<open>kip_data\<close> that have been written. A buffer whose size is \<^verbatim>\<open>PACKAGE2_SIZE_MAX\<close> may have more of
  them, with contents that nothing reads.
\<close>

record ini1_header =
  ini_magic :: u32
  ini_size :: u32
  num_processes :: u32
  ini_0xC :: u32
  kip_data :: bytes

record built_in_kips =
  loader_kip :: bytes
  pm_kip :: bytes
  sm_kip :: bytes
  spl_kip :: bytes
  ams_mitm_kip :: bytes
  boot_kip :: bytes

definition g_stratosphere_loader_enabled :: bool where "g_stratosphere_loader_enabled = True"
definition g_stratosphere_sm_enabled :: bool where "g_stratosphere_sm_enabled = True"
definition g_stratosphere_pm_enabled :: bool where "g_stratosphere_pm_enabled = True"
definition g_stratosphere_ams_mitm_enabled :: bool where "g_stratosphere_ams_mitm_enabled = True"
definition g_stratosphere_spl_enabled :: bool where "g_stratosphere_spl_enabled = True"
definition g_stratosphere_boot_enabled :: bool where "g_stratosphere_boot_enabled = True"

record ini_state =
  g_stratosphere_ini1 :: "ini1_header option"
  g_sd_files_ini1 :: "ini1_header option"
  g_fs_ver :: nat

definition initial_ini_state :: ini_state where
  "initial_ini_state = \<lparr>g_stratosphere_ini1 = None, g_sd_files_ini1 = None, g_fs_ver = FS_VER_1_0_0\<rparr>"

definition stratosphere_get_fs_version :: "ini_state \<Rightarrow> nat" where
  "stratosphere_get_fs_version st = g_fs_ver st"

section \<open>The built-in images\<close>

definition enabled_kips :: "built_in_kips \<Rightarrow> bytes list" where
  "enabled_kips ks =
     (if g_stratosphere_loader_enabled then [loader_kip ks] else [])
     @ (if g_stratosphere_pm_enabled then [pm_kip ks] else [])
     @ (if g_stratosphere_sm_enabled then [sm_kip ks] else [])
     @ (if g_stratosphere_spl_enabled then [spl_kip ks] else [])
     @ (if g_stratosphere_ams_mitm_enabled then [ams_mitm_kip ks] else [])
     @ (if g_stratosphere_boot_enabled then [boot_kip ks] else [])"

text \<open>Images of \<open>2 ^ 32\<close> bytes in total do not fit the memory: the copies run over the end of the buffer then.\<close>

definition stratosphere_get_ini1 :: "fusee_env \<Rightarrow> built_in_kips \<Rightarrow> ini_state \<Rightarrow> (ini1_header \<times> ini_state) res" where
  "stratosphere_get_ini1 e ks st = (case g_stratosphere_ini1 st of Some ini1 \<Rightarrow> Ok (ini1, st)
     | None \<Rightarrow>
        let kips = enabled_kips ks; sz = fold (\<lambda>kip n. n + of_nat (length kip)) kips 0x10 in
        if \<not> fe_can_alloc e sz then fatal_error
        else if 2 ^ 32 \<le> 0x10 + length (concat kips) then Undef
        else
          let ini1 = \<lparr>ini_magic = MAGIC_INI1, ini_size = sz, num_processes = of_nat (length kips), ini_0xC = 0, kip_data = concat kips\<rparr>
          in Ok (ini1, st\<lparr>g_stratosphere_ini1 := Some ini1\<rparr>))"

definition stratosphere_free_ini1 :: "ini_state \<Rightarrow> ini_state" where
  "stratosphere_free_ini1 st = st\<lparr>g_stratosphere_ini1 := None, g_sd_files_ini1 := None\<rparr>"

section \<open>The images on the SD card\<close>

definition get_file_size :: "sd_card \<Rightarrow> string \<Rightarrow> u32" where
  "get_file_size sd filename = (case sd filename of Some (File bs) \<Rightarrow> of_nat (length bs) | _ \<Rightarrow> 0)"

text \<open>The bytes that are read; the function returns how many they are.\<close>

definition read_from_file :: "sd_card \<Rightarrow> u32 \<Rightarrow> string \<Rightarrow> bytes" where
  "read_from_file sd dst_size filename = (case fopen sd filename of None \<Rightarrow> [] | Some f \<Rightarrow> fst (fread (unat dst_size) f))"

definition try_add_sd_kip :: "sd_card \<Rightarrow> string \<Rightarrow> ini1_header \<Rightarrow> ini1_header res" where
  "try_add_sd_kip sd kip_path ini1 =
     (let file_size = get_file_size sd kip_path in
      if ini_size ini1 + file_size > PACKAGE2_SIZE_MAX then fatal_error
      else
        let hdr = read_from_file sd 0x100 kip_path in
        if length hdr \<noteq> 0x100 \<or> kip_magic (kip1_header_of hdr) \<noteq> MAGIC_KIP1 then Ok ini1
        else
          let kip_size = kip1_get_size_from_header (kip1_header_of hdr) in
          if kip_size > file_size then fatal_error
          else
            let kip = read_from_file sd kip_size kip_path in
            if length kip \<noteq> unat kip_size then Ok ini1
            else Ok (ini1\<lparr>kip_data := kip_data ini1 @ kip, ini_size := ini_size ini1 + kip_size, num_processes := num_processes ini1 + 1\<rparr>))"

text \<open>A name in the directory, and one in a directory in it.\<close>

definition KIPS_DIR :: string where "KIPS_DIR = ''atmosphere/kips''"

definition add_sub_kip :: "sd_card \<Rightarrow> string \<Rightarrow> string \<Rightarrow> ini1_header \<Rightarrow> ini1_header res" where
  "add_sub_kip sd dir name ini1 =
     (if is_dots name then Ok ini1
      else let kip_path = snprintf 0x300 (KIPS_DIR @ ''/'' @ dir @ ''/'' @ name)
        in case sd kip_path of Some (File _) \<Rightarrow> try_add_sd_kip sd kip_path ini1 | _ \<Rightarrow> Ok ini1)"

definition add_kip_entry :: "sd_card \<Rightarrow> string \<Rightarrow> ini1_header \<Rightarrow> ini1_header res" where
  "add_kip_entry sd name ini1 =
     (if is_dots name then Ok ini1
      else let kip_path = snprintf 0x300 (KIPS_DIR @ ''/'' @ name)
        in case sd kip_path of None \<Rightarrow> Ok ini1
           | Some (File _) \<Rightarrow> try_add_sd_kip sd kip_path ini1
           | Some (Dir names) \<Rightarrow> foldR (add_sub_kip sd name) names ini1)"

text \<open>The result of \<^verbatim>\<open>malloc\<close> is not checked here.\<close>

definition stratosphere_get_sd_files_ini1 :: "fusee_env \<Rightarrow> ini_state \<Rightarrow> (ini1_header \<times> ini_state) res" where
  "stratosphere_get_sd_files_ini1 e st = (case g_sd_files_ini1 st of Some ini1 \<Rightarrow> Ok (ini1, st)
     | None \<Rightarrow>
        if \<not> fe_can_alloc e PACKAGE2_SIZE_MAX then Undef
        else bindR (foldR (add_kip_entry (fe_sd e)) (case opendir (fe_sd e) KIPS_DIR of None \<Rightarrow> [] | Some names \<Rightarrow> names)
                      \<lparr>ini_magic = MAGIC_INI1, ini_size = 0x10, num_processes = 0, ini_0xC = 0, kip_data = []\<rparr>)
               (\<lambda>ini1. Ok (ini1, st\<lparr>g_sd_files_ini1 := Some ini1\<rparr>)))"

section \<open>Injecting the module for the emulated memory\<close>

text \<open>The capability that maps the registers of the PMC, put over the first unused one.\<close>

fun add_pmc_capability :: "u32 list \<Rightarrow> u32 list" where
  "add_pmc_capability [] = []"
| "add_pmc_capability (c # cs) = (if c = 0xFFFFFFFF then 0x07000E7F # cs else c # add_pmc_capability cs)"

definition injected_header :: "nat \<Rightarrow> u32 \<Rightarrow> kip1_header \<Rightarrow> kip1_header \<Rightarrow> kip1_header" where
  "injected_header fs_ver emummc_data_size fs emu =
     fs\<lparr>capabilities := (if fs_ver = FS_VER_1_0_0 then add_pmc_capability (capabilities emu) else capabilities emu),
        section_headers :=
          map (\<lambda>i. let s = section_headers fs ! i in
                 if i = 0 then s\<lparr>out_size := out_size s + emummc_data_size, compressed_size := compressed_size s + emummc_data_size\<rparr>
                 else if i < 4 then s\<lparr>out_offset := out_offset s + emummc_data_size\<rparr> else s)
            [0..<length (section_headers fs)]\<rparr>"

definition inject_section :: "kip1_header \<Rightarrow> bytes \<Rightarrow> nat \<Rightarrow> bytes \<times> u32 \<Rightarrow> (bytes \<times> u32) res" where
  "inject_section emu emummc_kip i st = (case st of (injected_kip, ofs) \<Rightarrow>
     let s = section_headers emu ! i in
     bindR (memcpy_at injected_kip (0x100 + unat (out_offset s)) emummc_kip (0x100 + unat ofs) (unat (compressed_size s))) (\<lambda>injected_kip.
     Ok (injected_kip, ofs + compressed_size s)))"

text \<open>
  The images that \<^verbatim>\<open>kip1_uncompress\<close> could not allocate are null pointers that the function reads.
\<close>

definition inject_emummc_kip :: "fusee_env \<Rightarrow> nat \<Rightarrow> bytes \<Rightarrow> bytes \<Rightarrow> bytes res" where
  "inject_emummc_kip e fs_ver fs_kip emummc_kip =
     bindR (kip1_uncompress (fe_can_alloc e) fs_kip) (\<lambda>fs_kip.
     bindR (kip1_uncompress (fe_can_alloc e) emummc_kip) (\<lambda>emummc_kip.
     case fs_kip of None \<Rightarrow> Undef | Some fs_kip \<Rightarrow>
     case emummc_kip of None \<Rightarrow> Undef | Some emummc_kip \<Rightarrow>
       let fs = kip1_header_of fs_kip; emu = kip1_header_of emummc_kip;
           sz = of_nat (length fs_kip) + of_nat (length emummc_kip) in
       if \<not> fe_can_alloc e sz then fatal_error
       else if sz < 0x100 then Undef
       else
         let fs_contents_size = kip1_get_size_from_header fs - 0x100;
             emummc_data_size = out_offset (section_headers emu ! 3) + out_size (section_headers emu ! 3) in
         if emummc_data_size AND 0xFFF \<noteq> 0 then fatal_error
         else
           let injected_kip = blit (replicate (unat sz) 0) 0 (kip1_header_bytes (injected_header fs_ver emummc_data_size fs emu)) in
           bindR (foldR (inject_section emu emummc_kip) [0..<3] (injected_kip, 0)) (\<lambda>(injected_kip, _).
           memcpy_at injected_kip (0x100 + unat emummc_data_size) fs_kip 0x100 (unat fs_contents_size))))"

section \<open>Merging\<close>

text \<open>
  The state of the loops: the titles of \<open>process_list\<close> up to \<^verbatim>\<open>merged->num_processes\<close>, the bytes behind the header up to
  \<^verbatim>\<open>current_dst_kip\<close>, \<^verbatim>\<open>remaining_size\<close>, and \<^verbatim>\<open>g_fs_ver\<close>.
\<close>

type_synonym merge_state = "u64 list \<times> bytes \<times> u32 \<times> nat"

definition validate_ini :: "ini1_header option \<Rightarrow> u32 \<Rightarrow> u32 res" where
  "validate_ini ini total_num_processes = (case ini of None \<Rightarrow> fatal_error
     | Some ini1 \<Rightarrow>
        if ini_magic ini1 \<noteq> MAGIC_INI1 \<or> num_processes ini1 > INI1_MAX_KIPS then fatal_error
        else Ok (total_num_processes + num_processes ini1))"

definition append_kip :: "bytes \<Rightarrow> u32 \<Rightarrow> u64 \<Rightarrow> nat \<Rightarrow> merge_state \<Rightarrow> merge_state res" where
  "append_kip kip sz title fs_ver st = (case st of (process_list, dst, remaining_size, _) \<Rightarrow>
     if length kip < unat sz \<or> INI1_MAX_KIPS \<le> of_nat (length process_list) then Undef
     else Ok (process_list @ [title], dst @ take (unat sz) kip, remaining_size - sz, fs_ver))"

text \<open>The body of the loop for an image that is not loaded already: \<open>kip\<close> is the memory from its header on.\<close>

definition load_kip :: "fusee_env \<Rightarrow> bytes option \<Rightarrow> bytes \<Rightarrow> merge_state \<Rightarrow> merge_state res" where
  "load_kip e emummc kip st = (case st of (process_list, dst, remaining_size, fs_ver) \<Rightarrow>
     let h = kip1_header_of kip; current_kip_size = kip1_get_size_from_header h in
     if current_kip_size > remaining_size then fatal_error
     else
       bindR (apply_kip_ips_patches e kip current_kip_size fs_ver) (\<lambda>(patched_kip, fs_ver).
       bindR (case emummc of None \<Rightarrow> Ok patched_kip
              | Some emu \<Rightarrow>
                  if title_id h = FS_TITLE_ID
                  then bindR (inject_emummc_kip e fs_ver (case patched_kip of Some k \<Rightarrow> k | None \<Rightarrow> kip) emu) (\<lambda>k. Ok (Some k))
                  else Ok patched_kip) (\<lambda>patched_kip.
       case patched_kip of
         Some k \<Rightarrow>
           let patched_kip_size = kip1_get_size_from_header (kip1_header_of k) in
           if patched_kip_size > remaining_size then fatal_error
           else append_kip k patched_kip_size (title_id h) fs_ver st
       | None \<Rightarrow> append_kip kip current_kip_size (title_id h) fs_ver st)))"

text \<open>The loop over the images of one list, with \<open>n\<close> of them left, from \<open>offset\<close> on.\<close>

fun merge_kips :: "fusee_env \<Rightarrow> bytes option \<Rightarrow> bytes \<Rightarrow> nat \<Rightarrow> u32 \<Rightarrow> merge_state \<Rightarrow> merge_state res" where
  "merge_kips e emummc mem 0 offset st = Ok st"
| "merge_kips e emummc mem (Suc n) offset st =
     (let kip = drop (unat offset) mem; h = kip1_header_of kip in
      if length kip < 0x100 then Undef
      else if kip_magic h \<noteq> MAGIC_KIP1 then fatal_error
      else
        let offset = offset + kip1_get_size_from_header h in
        if title_id h \<in> set (fst st) then merge_kips e emummc mem n offset st
        else bindR (load_kip e emummc kip st) (merge_kips e emummc mem n offset))"

definition merge_ini :: "fusee_env \<Rightarrow> bytes option \<Rightarrow> ini1_header option \<Rightarrow> merge_state \<Rightarrow> merge_state res" where
  "merge_ini e emummc ini st = (case ini of None \<Rightarrow> Undef
     | Some ini1 \<Rightarrow> merge_kips e emummc (kip_data ini1) (unat (num_processes ini1)) 0 st)"

definition stratosphere_merge_inis ::
  "fusee_env \<Rightarrow> ini1_header option list \<Rightarrow> bytes option \<Rightarrow> ini_state \<Rightarrow> (ini1_header \<times> ini_state) res" where
  "stratosphere_merge_inis e inis emummc st =
     bindR (foldR validate_ini inis 0) (\<lambda>total_num_processes.
     if total_num_processes > INI1_MAX_KIPS then fatal_error
     else if \<not> fe_can_alloc e PACKAGE2_SIZE_MAX then fatal_error
     else
       bindR (foldR (merge_ini e emummc) inis ([], [], PACKAGE2_SIZE_MAX - 0x10, g_fs_ver st)) (\<lambda>(process_list, dst, _, fs_ver).
       let sz = 0x10 + of_nat (length dst);
           sz = (if sz AND 3 \<noteq> 0 then (sz + 3) AND NOT 3 else sz)
       in Ok (\<lparr>ini_magic = MAGIC_INI1, ini_size = sz, num_processes = of_nat (length process_list), ini_0xC = 0, kip_data = dst\<rparr>,
              st\<lparr>g_fs_ver := fs_ver\<rparr>)))"

end
