(* ===== verification/INI1_Facts.thy ===== *)
theory INI1_Facts
  imports INI1
begin

text \<open>
  What merging does: it takes the first image of each title, in the order of the lists, and its result fits the buffer that
  package2 has for it.
\<close>

section \<open>Well-formed images\<close>

definition kip_title :: "bytes \<Rightarrow> u64" where
  "kip_title kip = title_id (kip1_header_of kip)"

text \<open>The sizes of the three sections, which are not taken modulo \<open>2 ^ 32\<close>, add up to the size of the image.\<close>

definition kip_secs :: "bytes \<Rightarrow> nat list" where
  "kip_secs kip = map (\<lambda>i. unat (compressed_size (section_headers (kip1_header_of kip) ! i))) [0..<3]"

definition wf_kip :: "bytes \<Rightarrow> bool" where
  "wf_kip kip \<longleftrightarrow>
     length kip < 2 ^ 32 \<and> 0x100 \<le> length kip \<and> kip_magic (kip1_header_of kip) = MAGIC_KIP1 \<and> 0x100 + sum_list (kip_secs kip) = length kip"

definition ini_holds :: "ini1_header \<Rightarrow> bytes list \<Rightarrow> bool" where
  "ini_holds ini kips \<longleftrightarrow>
     ini_magic ini = MAGIC_INI1 \<and> unat (num_processes ini) = length kips \<and> length (concat kips) < 2 ^ 32
     \<and> take (length (concat kips)) (kip_data ini) = concat kips"

fun first_of_titles :: "u64 list \<Rightarrow> bytes list \<Rightarrow> bytes list" where
  "first_of_titles seen [] = []"
| "first_of_titles seen (k # ks) =
     (if kip_title k \<in> set seen then first_of_titles seen ks else k # first_of_titles (seen @ [kip_title k]) ks)"

lemma first_of_titles_distinct:
  "distinct (map kip_title (first_of_titles seen ks)) \<and> set (map kip_title (first_of_titles seen ks)) = kip_title ` set ks - set seen"
  by (induction seen ks rule: first_of_titles.induct) auto

lemma first_of_titles_append:
  "first_of_titles seen (ks @ ls) = first_of_titles seen ks @ first_of_titles (seen @ map kip_title (first_of_titles seen ks)) ls"
  by (induction seen ks rule: first_of_titles.induct) auto

section \<open>The image and the memory behind it\<close>

lemma bslice_prefix: "i + n \<le> length xs \<Longrightarrow> bslice (xs @ ys) i n = bslice xs i n"
  by (simp add: bslice_def)

lemma read_prefix:
  "i + 4 \<le> length xs \<Longrightarrow> read32le (xs @ ys) i = read32le xs i"
  "i + 8 \<le> length xs \<Longrightarrow> read64le (xs @ ys) i = read64le xs i"
  by (simp_all add: read32le_def read64le_def bslice_prefix)

lemma kip1_header_prefix:
  assumes "0x100 \<le> length kip"
  shows "kip1_header_of (kip @ r) = kip1_header_of kip"
proof -
  have "bslice (kip @ r) (0x20 + 0x10 * i) 0x10 = bslice kip (0x20 + 0x10 * i) 0x10" if "i < 6" for i
    using that assms by (intro bslice_prefix) simp
  moreover have "read32le (kip @ r) (0x80 + 4 * i) = read32le kip (0x80 + 4 * i)" if "i < 0x20" for i
    using that assms by (intro read_prefix) simp
  ultimately show ?thesis
    using assms by (simp add: kip1_header_of_def read_prefix bslice_prefix nth_append cong: map_cong)
qed

lemma wf_kip_size:
  assumes "wf_kip kip"
  shows "unat (kip1_get_size_from_header (kip1_header_of kip)) = length kip"
proof -
  have "[0..<3::nat] = [0, 1, 2]" by (simp add: upt_rec)
  then show ?thesis
    using assms by (simp add: wf_kip_def kip_secs_def kip1_get_size_from_header_def unat_word_ariths)
qed

lemma memcpy_prefix: "j + n \<le> length src \<Longrightarrow> memcpy_at dst i (src @ r) j n = memcpy_at dst i src j n"
  by (simp add: memcpy_at_def bslice_prefix)

lemma kip1_uncompress_prefix:
  assumes "wf_kip kip"
  shows "kip1_uncompress al (kip @ r) = kip1_uncompress al kip"
proof -
  define h where "h = kip1_header_of kip"
  define c where "c i = compressed_size (section_headers h ! i)" for i
  have three: "[0..<3::nat] = [0, 1, 2]" by (simp add: upt_rec)
  have len: "0x100 + unat (c 0) + unat (c 1) + unat (c 2) = length kip" "length kip < 2 ^ 32" "0x100 \<le> length kip"
    using assms by (simp_all add: wf_kip_def kip_secs_def three h_def c_def)
  have ofs: "unat (0x100 + c 0) = 0x100 + unat (c 0)" "unat (0x100 + c 0 + c 1) = 0x100 + unat (c 0) + unat (c 1)"
    using len by (simp_all add: unat_word_ariths)
  have step: "uncompress_section h (kip @ r) i (b, n, old) = uncompress_section h kip i (b, n, old)"
    if "unat old + unat (c i) \<le> length kip" for i b n old
    using that by (simp add: uncompress_section_def c_def memcpy_prefix Let_def)
  have "foldR (uncompress_section h (kip @ r)) [0..<3] (b, n, 0x100) = foldR (uncompress_section h kip) [0..<3] (b, n, 0x100)" for b n
  proof -
    have snd: "\<exists>b' n'. x = (b', n', old + c i)" if "uncompress_section h kip i (b, n, old) = Ok x" for x i b n old
      using that by (auto simp: uncompress_section_def c_def res_simps Let_def split: if_splits)
    show ?thesis
      unfolding three using len ofs
      by (auto simp: step intro!: bindR_cong dest!: snd)
  qed
  then show ?thesis
    using len(3) unfolding kip1_uncompress_def kip1_header_prefix [OF len(3)] h_def [symmetric] Let_def by simp
qed

lemma load_kip_prefix:
  assumes "wf_kip kip"
  shows "load_kip e emummc (kip @ r) st = load_kip e emummc kip st"
proof -
  have len: "0x100 \<le> length kip" using assms by (simp add: wf_kip_def)
  note size = wf_kip_size [OF assms]
  have app: "append_kip (kip @ r) (kip1_get_size_from_header (kip1_header_of kip)) t v st =
      append_kip kip (kip1_get_size_from_header (kip1_header_of kip)) t v st" for t v
    by (simp add: append_kip_def size split: prod.split)
  have ips: "apply_kip_ips_patches e (kip @ r) (kip1_get_size_from_header (kip1_header_of kip)) v =
      apply_kip_ips_patches e kip (kip1_get_size_from_header (kip1_header_of kip)) v" for v
    unfolding apply_kip_ips_patches_def kip1_header_prefix [OF len] kip1_uncompress_prefix [OF assms] using len by (simp add: size)
  have inj: "inject_emummc_kip e v (case p of None \<Rightarrow> kip @ r | Some k \<Rightarrow> k) emu = inject_emummc_kip e v (case p of None \<Rightarrow> kip | Some k \<Rightarrow> k) emu" for v p emu
    by (cases p) (simp_all add: inject_emummc_kip_def kip1_uncompress_prefix [OF assms])
  show ?thesis
    unfolding load_kip_def kip1_header_prefix [OF len] Let_def app ips inj ..
qed

lemma load_kip_titles:
  assumes "load_kip e emummc kip st = Ok st'"
  shows "fst st' = fst st @ [kip_title kip]"
  using assms by (auto simp: load_kip_def append_kip_def kip_title_def Let_def res_simps fatal_error_def split: if_splits option.splits prod.splits)

section \<open>Merging takes the first image of each title\<close>

lemma merge_kips_first:
  assumes "\<forall>k \<in> set ks. wf_kip k" "drop (unat ofs) mem = concat ks @ r" "unat ofs + length (concat ks) < 2 ^ 32"
  shows "merge_kips e emummc mem (length ks) ofs st = foldR (load_kip e emummc) (first_of_titles (fst st) ks) st"
  using assms
proof (induction ks arbitrary: ofs st)
  case (Cons k ks)
  have k: "wf_kip k" "0x100 \<le> length k" using Cons.prems by (auto simp: wf_kip_def)
  have h: "kip1_header_of (k @ concat ks @ r) = kip1_header_of k" by (simp add: kip1_header_prefix k)
  let ?sz = "kip1_get_size_from_header (kip1_header_of k)"
  have ofs: "unat (ofs + ?sz) = unat ofs + length k"
    using Cons.prems(3) by (simp add: unat_word_ariths wf_kip_size k)
  have rest: "drop (unat (ofs + ?sz)) mem = concat ks @ r"
  proof -
    have "drop (unat (ofs + ?sz)) mem = drop (length k) (drop (unat ofs) mem)" by (simp add: ofs add.commute)
    then show ?thesis by (simp add: Cons.prems(2))
  qed
  have IH: "merge_kips e emummc mem (length ks) (ofs + ?sz) st = foldR (load_kip e emummc) (first_of_titles (fst st) ks) st" for st
    using Cons.IH [of "ofs + ?sz"] Cons.prems rest ofs by simp
  have load: "load_kip e emummc (k @ concat ks @ r) st = load_kip e emummc k st" by (rule load_kip_prefix [OF k(1)])
  have "kip_magic (kip1_header_of k) = MAGIC_KIP1" using k by (simp add: wf_kip_def)
  then have "merge_kips e emummc mem (length (k # ks)) ofs st =
      (if kip_title k \<in> set (fst st) then foldR (load_kip e emummc) (first_of_titles (fst st) ks) st
       else bindR (load_kip e emummc k st) (\<lambda>st. foldR (load_kip e emummc) (first_of_titles (fst st) ks) st))"
    using Cons.prems(2) k(2) by (auto simp: h kip_title_def Let_def IH load intro!: bindR_cong)
  also have "\<dots> = foldR (load_kip e emummc) (first_of_titles (fst st) (k # ks)) st"
    by (auto dest: load_kip_titles intro!: bindR_cong)
  finally show ?case .
qed simp

lemma merge_ini_first:
  assumes "ini_holds ini ks" "\<forall>k \<in> set ks. wf_kip k"
  shows "merge_ini e emummc (Some ini) st = foldR (load_kip e emummc) (first_of_titles (fst st) ks) st"
proof -
  have "kip_data ini = concat ks @ drop (length (concat ks)) (kip_data ini)"
    using assms(1) unfolding ini_holds_def by (metis append_take_drop_id)
  with assms show ?thesis
    by (simp add: merge_ini_def ini_holds_def merge_kips_first [where r = "drop (length (concat ks)) (kip_data ini)"])
qed

lemma foldR_load_titles:
  "foldR (load_kip e emummc) ks st = Ok st' \<Longrightarrow> fst st' = fst st @ map kip_title ks"
  by (induction ks arbitrary: st) (auto simp: res_simps dest!: load_kip_titles)

lemma merge_inis_first:
  assumes "list_all2 ini_holds inis kss" "\<forall>k \<in> set (concat kss). wf_kip k"
  shows "foldR (merge_ini e emummc) (map Some inis) st = foldR (load_kip e emummc) (first_of_titles (fst st) (concat kss)) st"
  using assms
proof (induction inis kss arbitrary: st rule: list_all2_induct)
  case (Cons ini inis ks kss)
  then show ?case
    by (simp add: first_of_titles_append foldR_append merge_ini_first)
      (auto dest!: foldR_load_titles intro!: bindR_cong)
qed simp

lemma validate_inis_total:
  assumes "list_all2 ini_holds inis kss" "unat n + length (concat kss) \<le> 0x50"
  shows "foldR validate_ini (map Some inis) n = Ok (n + of_nat (length (concat kss)))"
  using assms
proof (induction inis kss arbitrary: n rule: list_all2_induct)
  case (Cons ini inis ks kss)
  have u: "unat (num_processes ini) = length ks" "ini_magic ini = MAGIC_INI1" using Cons by (auto simp: ini_holds_def)
  have e: "num_processes ini = of_nat (length ks)"
    using Cons.prems by (simp add: word_unat_eq_iff unat_of_nat_small u)
  have "unat (n + num_processes ini) = unat n + length ks" using Cons.prems by (simp add: unat_word_ariths u)
  then show ?case
    using Cons.IH [of "n + num_processes ini"] Cons.prems u
    by (simp add: validate_ini_def word_less_nat_alt e)
qed simp

definition merged_ini :: "ini_state \<Rightarrow> merge_state \<Rightarrow> (ini1_header \<times> ini_state) res" where
  "merged_ini st m = (case m of (process_list, dst, _, fs_ver) \<Rightarrow>
     let sz = 0x10 + of_nat (length dst); sz = (if sz AND 3 \<noteq> 0 then (sz + 3) AND NOT 3 else sz)
     in Ok (\<lparr>ini_magic = MAGIC_INI1, ini_size = sz, num_processes = of_nat (length process_list), ini_0xC = 0, kip_data = dst\<rparr>,
            st\<lparr>g_fs_ver := fs_ver\<rparr>))"

lemma stratosphere_merge_first:
  assumes "list_all2 ini_holds inis kss" "\<forall>k \<in> set (concat kss). wf_kip k" "length (concat kss) \<le> 0x50" "fe_can_alloc e PACKAGE2_SIZE_MAX"
  shows "stratosphere_merge_inis e (map Some inis) emummc st =
    bindR (foldR (load_kip e emummc) (first_of_titles [] (concat kss)) ([], [], PACKAGE2_SIZE_MAX - 0x10, g_fs_ver st)) (merged_ini st)"
proof -
  have "\<not> (0x50 :: u32) < of_nat (length (concat kss))"
    using assms(3) by (simp add: word_less_nat_alt unat_of_nat_small)
  then show ?thesis
    using assms(3,4) validate_inis_total [OF assms(1), of 0]
    by (simp add: stratosphere_merge_inis_def merge_inis_first [OF assms(1,2)] merged_ini_def [abs_def] split_def)
qed

section \<open>The result fits\<close>

definition merge_fits :: "merge_state \<Rightarrow> bool" where
  "merge_fits st \<longleftrightarrow> length (fst (snd st)) + unat (fst (snd (snd st))) = 0x7FBFF0"

lemma append_kip_fits:
  assumes "append_kip kip sz t v st = Ok st'" "merge_fits st" "\<not> fst (snd (snd st)) < sz"
  shows "merge_fits st'"
proof -
  obtain ps dst rem w where st: "st = (ps, dst, rem, w)" by (cases st)
  have "sz \<le> rem" using assms(3) by (simp add: st)
  then have "unat (rem - sz) = unat rem - unat sz" "unat sz \<le> unat rem" by (simp_all add: unat_sub word_le_nat_alt)
  moreover have "st' = (ps @ [t], dst @ take (unat sz) kip, rem - sz, v)" "unat sz \<le> length kip"
    using assms(1) unfolding append_kip_def st by (simp_all split: if_split_asm)
  ultimately show ?thesis
    using assms(2) unfolding merge_fits_def st by (simp only: fst_conv snd_conv length_append length_take min_absorb2)
qed

lemma load_kip_appends:
  assumes "load_kip e emummc kip st = Ok st'"
  obtains k sz t v where "append_kip k sz t v st = Ok st'" "\<not> fst (snd (snd st)) < sz"
proof -
  obtain ps dst rem v where st: "st = (ps, dst, rem, v)" by (cases st)
  show thesis
    using assms that unfolding load_kip_def st Let_def fatal_error_def
    by (auto elim!: bindR_OkE split: if_split_asm option.split_asm)
qed

lemma load_kip_fits: "load_kip e emummc kip st = Ok st' \<Longrightarrow> merge_fits st \<Longrightarrow> merge_fits st'"
  by (erule load_kip_appends) (rule append_kip_fits)

lemma merge_kips_fits: "merge_kips e emummc mem n ofs st = Ok st' \<Longrightarrow> merge_fits st \<Longrightarrow> merge_fits st'"
  by (induction e emummc mem n ofs st rule: merge_kips.induct)
    (auto simp: Let_def res_simps fatal_error_def load_kip_fits split: if_splits)

lemma merge_ini_fits: "merge_ini e emummc ini st = Ok st' \<Longrightarrow> merge_fits st \<Longrightarrow> merge_fits st'"
  by (auto simp: merge_ini_def merge_kips_fits split: option.splits)

lemma foldR_merge_fits: "foldR (merge_ini e emummc) inis st = Ok st' \<Longrightarrow> merge_fits st \<Longrightarrow> merge_fits st'"
  by (erule foldR_invariant) (auto dest: merge_ini_fits)

end
