(* ===== verification/Fusee_Package2.thy ===== *)
theory Fusee_Package2
  imports Package2_Load Kernel_Patches INI1_Facts
begin

text \<open>
  \<^verbatim>\<open>fusee-secondary/src/package2.c\<close>: the second stage of the boot loader decrypts Nintendo's package, patches the kernel and
  the list of initial processes in it, and leaves the rebuilt package, in plain text, where exosphere looks for it. A package is
  the list of its bytes from its header on. The structures are those of exosphere's \<^verbatim>\<open>package2.h\<close>, which both programs share.
\<close>

section \<open>Decryption\<close>

text \<open>The keys of the console, and what the engine computes with them; the master key of each revision is in a key slot.\<close>

record boot_keys =
  bk_prims :: se_prims
  bk_revision :: u32
  bk_master_key :: "u32 \<Rightarrow> bytes"

definition meta_bytes :: "bytes \<Rightarrow> bytes" where
  "meta_bytes package2 = bslice package2 0x100 0x100"

definition pkg_meta :: "bytes \<Rightarrow> package2_meta" where
  "pkg_meta package2 = package2_meta_of (meta_bytes package2)"

definition fusee_package2_crypt_ctr :: "boot_keys \<Rightarrow> u32 \<Rightarrow> bytes \<Rightarrow> bytes \<Rightarrow> bytes res" where
  "fusee_package2_crypt_ctr bk master_key_rev src ctr =
     (if MASTERKEY_REVISION_MAX \<le> master_key_rev \<or> bk_revision bk < master_key_rev then generic_panic
      else Ok (xor_bytes src (ctr_stream (bk_prims bk) (aes_dec (bk_prims bk) (bk_master_key bk master_key_rev) package2_key_source)
                 (ctr_words ctr) ((length src + 15) div 16))))"

definition package2_meta_get_header_version :: "package2_meta \<Rightarrow> u8" where
  "package2_meta_get_header_version metadata =
     (let w = ctr_dwords metadata 1 in ucast ((w XOR drop_bit 16 w XOR drop_bit 24 w) AND 0xFF))"

text \<open>One round of the loop over the sections; \<open>None\<close> is the early return of \<^verbatim>\<open>false\<close>.\<close>

definition package2_validate_section ::
  "(bytes \<Rightarrow> bytes) \<Rightarrow> package2_meta \<Rightarrow> bytes \<Rightarrow> nat \<Rightarrow> (bool \<times> nat) option \<Rightarrow> (bool \<times> nat) option res"
where
  "package2_validate_section sha metadata data section st = (case st of None \<Rightarrow> Ok None
     | Some (entrypoint_found, cur_section_offset) \<Rightarrow>
        let sz = section_sizes metadata ! section; ofs = section_offsets metadata ! section in
        if sz AND 3 \<noteq> 0 then Ok None
        else if check_32bit_additive_overflow ofs sz then Ok None
        else
          let entrypoint_found = (entrypoint_found \<or> ofs \<le> entrypoint metadata \<and> entrypoint metadata < ofs + sz) in
          if sz \<noteq> 0 \<and> (\<exists>later_section \<in> set [section + 1..<3].
               section_sizes metadata ! later_section \<noteq> 0 \<and> section_overlaps metadata section later_section)
          then Ok None
          else if sz = 0 then Ok (Some (entrypoint_found, cur_section_offset))
          else if length data < cur_section_offset + unat sz then Undef
          else if sha (bslice data cur_section_offset (unat sz)) \<noteq> section_hashes metadata ! section then Ok None
          else Ok (Some (entrypoint_found, cur_section_offset + unat sz)))"

definition package2_validate_metadata :: "(bytes \<Rightarrow> bytes) \<Rightarrow> package2_meta \<Rightarrow> bytes \<Rightarrow> bool res" where
  "package2_validate_metadata sha metadata data =
     (let package_size = get_package2_size metadata in
      if pk_magic metadata \<noteq> MAGIC_PK21 then Ok False
      else if package_size \<le> 0x200 \<or> package_size > 0x7FC000 then Ok False
      else if ucast (package2_meta_get_header_version metadata) > MASTERKEY_REVISION_MAX then Ok False
      else if entrypoint metadata AND 3 \<noteq> 0 then Ok False
      else if section_sizes metadata ! 0 + section_sizes metadata ! 1 + section_sizes metadata ! 2 + 0x200 \<noteq> package_size then Ok False
      else bindR (foldR (package2_validate_section sha metadata data) [0..<3] (Some (False, 0))) (\<lambda>r.
        case r of None \<Rightarrow> Ok False
        | Some (entrypoint_found, _) \<Rightarrow>
            if \<not> entrypoint_found then Ok False
            else Ok (version_max metadata \<ge> PACKAGE2_MINVER_THEORETICAL \<and> version_min metadata < PACKAGE2_MAXVER_900_CURRENT)))"

fun try_package2_keys :: "fusee_env \<Rightarrow> boot_keys \<Rightarrow> bytes \<Rightarrow> nat list \<Rightarrow> (u32 \<times> bytes) option res" where
  "try_package2_keys e bk package2 [] = Ok None"
| "try_package2_keys e bk package2 (mkey_rev # revs) =
     (let ctr = take 0x10 (meta_bytes package2) in
      bindR (fusee_package2_crypt_ctr bk (of_nat mkey_rev) (meta_bytes package2) ctr) (\<lambda>metadata.
      let metadata = blit metadata 0 ctr in
      bindR (package2_validate_metadata (fe_sha256 e) (package2_meta_of metadata) (drop 0x200 package2)) (\<lambda>valid.
      if valid then Ok (Some (of_nat mkey_rev, blit package2 0x100 metadata))
      else try_package2_keys e bk package2 revs)))"

definition package2_decrypt_and_validate_header :: "fusee_env \<Rightarrow> boot_keys \<Rightarrow> bytes \<Rightarrow> bool \<Rightarrow> (u32 \<times> bytes) res" where
  "package2_decrypt_and_validate_header e bk package2 is_plaintext =
     (if \<not> is_plaintext
      then bindR (try_package2_keys e bk package2 [0..<Suc (unat (bk_revision bk))]) (\<lambda>r.
           case r of None \<Rightarrow> fatal_error | Some x \<Rightarrow> Ok x)
      else bindR (package2_validate_metadata (fe_sha256 e) (pkg_meta package2) (drop 0x200 package2)) (\<lambda>valid.
           if \<not> valid then fatal_error else Ok (0, package2)))"

definition is_package2_plaintext :: "bytes \<Rightarrow> bool" where
  "is_package2_plaintext package2 \<longleftrightarrow>
     package2 ! 0 \<noteq> 0 \<and> bslice package2 0 0xFF = bslice package2 1 0xFF \<and> pk_magic (pkg_meta package2) = MAGIC_PK21"

definition package2_decrypt_section :: "boot_keys \<Rightarrow> bool \<Rightarrow> u32 \<Rightarrow> package2_meta \<Rightarrow> nat \<Rightarrow> bytes \<times> nat \<Rightarrow> (bytes \<times> nat) res" where
  "package2_decrypt_section bk plaintext mkey_rev metadata section st = (case st of (package2, cur_section_offset) \<Rightarrow>
     let sz = unat (section_sizes metadata ! section) in
     if sz = 0 then Ok st
     else if length package2 < 0x200 + cur_section_offset + sz then Undef
     else if plaintext then Ok (package2, cur_section_offset + sz)
     else bindR (fusee_package2_crypt_ctr bk mkey_rev (bslice package2 (0x200 + cur_section_offset) sz) (section_ctrs metadata ! section)) (\<lambda>dst.
          Ok (blit package2 (0x200 + cur_section_offset) dst, cur_section_offset + sz)))"

definition package2_decrypt :: "fusee_env \<Rightarrow> boot_keys \<Rightarrow> bytes \<Rightarrow> bytes res" where
  "package2_decrypt e bk package2 =
     (if length package2 < 0x200 then Undef
      else
        let plaintext = is_package2_plaintext package2 in
        bindR (package2_decrypt_and_validate_header e bk package2 plaintext) (\<lambda>(pk21_mkey_revision, package2).
        bindR (foldR (package2_decrypt_section bk plaintext pk21_mkey_revision (pkg_meta package2)) [0..<3] (package2, 0)) (\<lambda>(package2, _).
        Ok (blit package2 0 (replicate 0x100 0)))))"

section \<open>Sections\<close>

definition align_to_4 :: "u32 \<Rightarrow> u32" where
  "align_to_4 s = push_bit 2 (drop_bit 2 (s + 3))"

definition section_index :: "package2_meta \<Rightarrow> nat \<Rightarrow> nat" where
  "section_index metadata n = 0x200 + sum_list (map unat (take n (section_sizes metadata)))"

text \<open>The memory from the section on, and the size of the section.\<close>

definition package2_get_src_section :: "bytes \<Rightarrow> nat \<Rightarrow> bytes \<times> u32" where
  "package2_get_src_section package2 n = (drop (section_index (pkg_meta package2) n) package2, section_sizes (pkg_meta package2) ! n)"

definition package2_get_thermosphere :: bytes where
  "package2_get_thermosphere = []"

definition package2_append_section :: "nat \<Rightarrow> bytes \<Rightarrow> bytes \<Rightarrow> bytes res" where
  "package2_append_section n data package2 =
     bindR (memcpy_at package2 (section_index (pkg_meta package2) n) data 0 (length data)) (\<lambda>package2.
     Ok (write32le package2 (0x160 + 4 * n) (align_to_4 (of_nat (length data)))))"

definition fixup_section_hash :: "(bytes \<Rightarrow> bytes) \<Rightarrow> nat \<Rightarrow> bytes \<times> nat \<Rightarrow> (bytes \<times> nat) res" where
  "fixup_section_hash sha section st = (case st of (package2, data) \<Rightarrow>
     let sz = unat (section_sizes (pkg_meta package2) ! section) in
     if sz = 0 then Ok st
     else if length package2 < data + sz then Undef
     else Ok (blit package2 (0x180 + 0x20 * section) (sha (bslice package2 data sz)), data + sz))"

definition package2_fixup_header_and_section_hashes :: "(bytes \<Rightarrow> bytes) \<Rightarrow> bytes \<Rightarrow> u32 \<Rightarrow> bytes res" where
  "package2_fixup_header_and_section_hashes sha package2 sz =
     bindR (foldR (fixup_section_hash sha) [0..<3] (package2, 0x200)) (\<lambda>(package2, _).
     let package_size = get_package2_size (pkg_meta package2)
     in Ok (write32le package2 0x10C (read32le package2 0x10C XOR (package_size XOR sz))))"

section \<open>Rebuilding\<close>

text \<open>The list of initial processes in memory; the bytes of its buffer that have not been written are those of fresh memory.\<close>

definition ini1_bytes :: "fusee_env \<Rightarrow> ini1_header \<Rightarrow> bytes" where
  "ini1_bytes e ini =
     (let bs = le_bytes 4 (ini_magic ini) @ le_bytes 4 (ini_size ini) @ le_bytes 4 (num_processes ini) @ le_bytes 4 (ini_0xC ini) @ kip_data ini
      in take (unat (ini_size ini)) bs @ map (fe_fresh e) [length bs..<unat (ini_size ini)])"

definition ini1_header_of :: "bytes \<Rightarrow> ini1_header" where
  "ini1_header_of bs =
     \<lparr>ini_magic = read32le bs 0, ini_size = read32le bs 4, num_processes = read32le bs 8, ini_0xC = read32le bs 0xC, kip_data = drop 0x10 bs\<rparr>"

definition package2_rebuild_ini1 ::
  "fusee_env \<Rightarrow> built_in_kips \<Rightarrow> ini1_header option \<Rightarrow> bytes option \<Rightarrow> ini_state \<Rightarrow> (ini1_header \<times> ini_state) res"
where
  "package2_rebuild_ini1 e ks ini1 emummc st =
     bindR (stratosphere_get_sd_files_ini1 e st) (\<lambda>(sd_files, st).
     bindR (stratosphere_get_ini1 e ks st) (\<lambda>(embedded, st).
     bindR (stratosphere_merge_inis e [Some sd_files, Some embedded, ini1] emummc st) (\<lambda>(merged, st).
     Ok (merged, stratosphere_free_ini1 st))))"

text \<open>The kernel that is used, and whether it is the one of the SD card.\<close>

definition KERNEL_BIN :: string where "KERNEL_BIN = ''atmosphere/kernel.bin''"

definition select_kernel :: "fusee_env \<Rightarrow> bytes \<Rightarrow> (bytes \<times> bool) res" where
  "select_kernel e pkg_kernel =
     (let sd_kernel_size = get_file_size (fe_sd e) KERNEL_BIN in
      if sd_kernel_size = 0 then Ok (pkg_kernel, False)
      else if sd_kernel_size > 0x7FC000 then fatal_error
      else if \<not> fe_can_alloc e sd_kernel_size then fatal_error
      else let kern = read_from_file (fe_sd e) sd_kernel_size KERNEL_BIN
        in if length kern \<noteq> unat sd_kernel_size then fatal_error else Ok (kern, True))"

definition build_package2 :: "fusee_env \<Rightarrow> bytes \<Rightarrow> bytes \<Rightarrow> bytes \<Rightarrow> bytes \<Rightarrow> bytes res" where
  "build_package2 e package2 kern ini thermosphere =
     (let sz = 0x200 + of_nat (length kern) + align_to_4 (of_nat (length thermosphere)) + align_to_4 (of_nat (length ini)) in
      if sz > 0x7FC000 then fatal_error
      else if \<not> fe_can_alloc e sz then fatal_error
      else if sz < 0x200 then Undef
      else
        bindR (package2_append_section 0 kern (blit (map (fe_fresh e) [0..<unat sz]) 0 (take 0x200 package2))) (\<lambda>rebuilt.
        bindR (package2_append_section 1 ini rebuilt) (\<lambda>rebuilt.
        bindR (package2_append_section 2 thermosphere rebuilt) (\<lambda>rebuilt.
        package2_fixup_header_and_section_hashes (fe_sha256 e) rebuilt sz))))"

text \<open>
  The result is the memory at \<^verbatim>\<open>NX_BOOTLOADER_PACKAGE2_LOAD_ADDRESS\<close>. The kernel is patched where it lies, in the decrypted
  package or in a buffer of its own; the package's header and its second section, which are used after that, lie outside it.
\<close>

abbreviation (input) ATMOSPHERE_TARGET_FIRMWARE_800 :: u32 where "ATMOSPHERE_TARGET_FIRMWARE_800 \<equiv> 9"

definition package2_rebuild_and_copy ::
  "fusee_env \<Rightarrow> boot_keys \<Rightarrow> built_in_kips \<Rightarrow> bytes \<Rightarrow> u32 \<Rightarrow> bytes option \<Rightarrow> ini_state \<Rightarrow> (bytes \<times> ini_state) res"
where
  "package2_rebuild_and_copy e bk ks package2 target_firmware emummc st =
     bindR (package2_decrypt e bk package2) (\<lambda>package2.
     let (kern_mem, kernel_size) = package2_get_src_section package2 0; thermosphere = package2_get_thermosphere in
     if length kern_mem < unat kernel_size then Undef
     else if thermosphere \<noteq> [] \<and> section_sizes (pkg_meta package2) ! 2 \<noteq> 0 then fatal_error
     else
       bindR (select_kernel e (take (unat kernel_size) kern_mem)) (\<lambda>(kern, is_sd_kernel).
       bindR (package2_patch_kernel e kern is_sd_kernel) (\<lambda>(kern, orig_ini1).
       if target_firmware < ATMOSPHERE_TARGET_FIRMWARE_800 \<and> orig_ini1 \<noteq> None
          \<or> target_firmware \<ge> ATMOSPHERE_TARGET_FIRMWARE_800 \<and> orig_ini1 = None
       then fatal_error
       else
         let (ini_mem, package2) = (case orig_ini1 of
               None \<Rightarrow> (fst (package2_get_src_section package2 1), package2)
             | Some ofs \<Rightarrow> (drop ofs kern,
                 write32le package2 0x174 (section_offsets (pkg_meta package2) ! 0 + section_sizes (pkg_meta package2) ! 0)))
         in if length ini_mem < 0x10 then Undef
         else
           bindR (package2_rebuild_ini1 e ks (Some (ini1_header_of ini_mem)) emummc st) (\<lambda>(rebuilt_ini1, st).
           bindR (build_package2 e package2 kern (ini1_bytes e rebuilt_ini1) thermosphere) (\<lambda>rebuilt_package2.
           Ok (rebuilt_package2, st))))))"

end
