(* ===== verification/Fusee_Package2_Facts.thy ===== *)
theory Fusee_Package2_Facts
  imports Fusee_Package2
begin

text \<open>
  What the rebuilt package looks like: its header describes its contents, so that exosphere accepts it.
\<close>

section \<open>The fields of the header\<close>

lemma bslice_bslice: "i + m \<le> n \<Longrightarrow> bslice (bslice xs k n) i m = bslice xs (k + i) m"
  by (simp add: bslice_def drop_take min_absorb1 add.commute)

lemma pkg_meta_fields:
  assumes "0x200 \<le> length p"
  shows "pkg_meta p =
    \<lparr>pk_ctr = bslice p 0x100 0x10, section_ctrs = map (\<lambda>i. bslice p (0x110 + 0x10 * i) 0x10) [0..<4],
     pk_magic = read32le p 0x150, entrypoint = read32le p 0x154, version_max = p ! 0x15C, version_min = p ! 0x15D,
     section_sizes = map (\<lambda>i. read32le p (0x160 + 4 * i)) [0..<4], section_offsets = map (\<lambda>i. read32le p (0x170 + 4 * i)) [0..<4],
     section_hashes = map (\<lambda>i. bslice p (0x180 + 0x20 * i) 0x20) [0..<4]\<rparr>"
  using assms by (simp add: pkg_meta_def package2_meta_of_def meta_bytes_def read32le_def bslice_bslice nth_bslice)

lemma pkg_meta_prefix:
  assumes "length h = 0x200"
  shows "pkg_meta (h @ r) = pkg_meta h"
  using assms by (simp add: pkg_meta_def meta_bytes_def bslice_prefix)

lemma blit_prefix: "off + length bs \<le> length a \<Longrightarrow> blit (a @ b) off bs = blit a off bs @ b"
  by (simp add: blit_def)

lemma blit_suffix: "length a \<le> off \<Longrightarrow> blit (a @ b) off bs = a @ blit b (off - length a) bs"
  by (simp add: blit_def)

lemma map_upt_update: "(\<And>i. i < n \<Longrightarrow> f i = (if i = k then v else g i)) \<Longrightarrow> map f [0..<n] = (map g [0..<n])[k := v]"
  by (rule nth_equalityI) (auto simp: nth_list_update)

lemma meta_write_size:
  assumes "length h = 0x200" "n < 4"
  shows "pkg_meta (write32le h (0x160 + 4 * n) v) = (pkg_meta h)\<lparr>section_sizes := (section_sizes (pkg_meta h))[n := v]\<rparr>"
proof -
  let ?h = "blit h (0x160 + 4 * n) (le_bytes 4 v)"
  have len: "length ?h = 0x200" using assms by simp
  have other: "bslice ?h i m = bslice h i m" if "i + m \<le> 0x160 + 4 * n \<or> 0x164 + 4 * n \<le> i" "i + m \<le> 0x200" for i m
    using that assms by (intro bslice_blit_other) auto
  have bytes: "?h ! i = h ! i" if "i < 0x160" for i using that assms by (simp add: nth_blit)
  have "read32le ?h (0x160 + 4 * i) = (if i = n then v else read32le h (0x160 + 4 * i))" if "i < 4" for i
    using that assms by (auto simp: read32le_def intro!: arg_cong [where f = le_word] other)
  then have "map (\<lambda>i. read32le ?h (0x160 + 4 * i)) [0..<4] = (map (\<lambda>i. read32le h (0x160 + 4 * i)) [0..<4])[n := v]"
    by (rule map_upt_update)
  then show ?thesis
    using assms by (simp add: write32le_def pkg_meta_fields len other bytes read32le_def)
qed

lemma meta_write_hash:
  assumes "length h = 0x200" "n < 4" "length bs = 0x20"
  shows "pkg_meta (blit h (0x180 + 0x20 * n) bs) = (pkg_meta h)\<lparr>section_hashes := (section_hashes (pkg_meta h))[n := bs]\<rparr>"
proof -
  let ?h = "blit h (0x180 + 0x20 * n) bs"
  have len: "length ?h = 0x200" using assms by simp
  have other: "bslice ?h i m = bslice h i m" if "i + m \<le> 0x180 + 0x20 * n \<or> 0x1A0 + 0x20 * n \<le> i" "i + m \<le> 0x200" for i m
    using that assms by (intro bslice_blit_other) auto
  have bytes: "?h ! i = h ! i" if "i < 0x180" for i using that assms by (simp add: nth_blit)
  have "bslice ?h (0x180 + 0x20 * i) 0x20 = (if i = n then bs else bslice h (0x180 + 0x20 * i) 0x20)" if "i < 4" for i
    using that assms by (auto intro!: other)
  then have "map (\<lambda>i. bslice ?h (0x180 + 0x20 * i) 0x20) [0..<4] = (map (\<lambda>i. bslice h (0x180 + 0x20 * i) 0x20) [0..<4])[n := bs]"
    by (rule map_upt_update)
  then show ?thesis
    using assms by (simp add: pkg_meta_fields len other bytes read32le_def)
qed

lemma meta_write_ctr:
  assumes "length h = 0x200"
  shows "pkg_meta (write32le h 0x10C v) = (pkg_meta h)\<lparr>pk_ctr := write32le (pk_ctr (pkg_meta h)) 0xC v\<rparr>"
proof -
  let ?h = "blit h 0x10C (le_bytes 4 v)"
  have len: "length ?h = 0x200" using assms by simp
  have other: "bslice ?h i m = bslice h i m" if "0x110 \<le> i" "i + m \<le> 0x200" for i m
    using that assms by (intro bslice_blit_other) auto
  have bytes: "?h ! i = h ! i" if "0x110 \<le> i" "i < 0x200" for i using that assms by (simp add: nth_blit)
  have ctr: "bslice ?h 0x100 0x10 = blit (bslice h 0x100 0x10) 0xC (le_bytes 4 v)"
    using assms by (intro nth_equalityI) (auto simp: nth_bslice nth_blit)
  show ?thesis
    using assms by (simp add: write32le_def pkg_meta_fields len other bytes ctr read32le_def)
qed

lemma xor_fix: "a XOR b XOR (c XOR (a XOR b XOR c XOR s)) = s" for a b c s :: u32
  by (rule bit_word_eqI) (auto simp: bit_xor_iff)

lemma size_write_ctr:
  assumes "length h = 0x200"
  shows "get_package2_size (pkg_meta (write32le h 0x10C (read32le h 0x10C XOR (get_package2_size (pkg_meta h) XOR s)))) = s"
    and "ctr_dwords (pkg_meta (write32le h 0x10C v)) 1 = ctr_dwords (pkg_meta h) 1"
proof -
  let ?c = "pk_ctr (pkg_meta h)"
  have c: "length ?c = 0x10" "read32le h 0x10C = read32le ?c 0xC"
    using assms by (simp_all add: pkg_meta_fields read32le_def bslice_bslice)
  have rd: "read32le (write32le ?c 0xC v) i = (if i = 0xC then v else read32le ?c i)" if "i = 0xC \<or> i + 4 \<le> 0xC" for v i
  proof (cases "i = 0xC")
    case True
    then show ?thesis using c by (simp add: read32le_write32le)
  next
    case False
    then show ?thesis using that c by (simp add: read32le_def write32le_def bslice_blit_other)
  qed
  show "get_package2_size (pkg_meta (write32le h 0x10C (read32le h 0x10C XOR (get_package2_size (pkg_meta h) XOR s)))) = s"
    unfolding meta_write_ctr [OF assms] c(2) by (simp add: get_package2_size_def ctr_dwords_def rd xor_fix xor.assoc)
  show "ctr_dwords (pkg_meta (write32le h 0x10C v)) 1 = ctr_dwords (pkg_meta h) 1"
    unfolding meta_write_ctr [OF assms] by (simp add: ctr_dwords_def rd)
qed

section \<open>Building\<close>

lemma align_to_4_dvd: "4 dvd n \<Longrightarrow> n + 3 < 2 ^ 32 \<Longrightarrow> align_to_4 (of_nat n) = of_nat n"
proof -
  assume n: "4 dvd n" "n + 3 < 2 ^ 32"
  then obtain k where k: "n = 4 * k" by (auto elim: dvdE)
  have "unat (of_nat n + 3 :: u32) = 4 * k + 3" using n by (simp add: k unat_word_ariths unat_of_nat_small)
  then have "drop_bit 2 (of_nat n + 3 :: u32) = of_nat k"
    using n by (simp add: word_unat_eq_iff drop_bit_eq_div unat_div unat_of_nat_small k)
  then show ?thesis by (simp add: align_to_4_def push_bit_eq_mult k)
qed

lemma append_section_value:
  assumes h: "length h = 0x200" "n < 4" "sum_list (map unat (take n (section_sizes (pkg_meta h)))) = length d"
    and fits: "length data \<le> length r" and al: "4 dvd length data" "length data + 3 < 2 ^ 32"
  shows "package2_append_section n data (h @ d @ r) =
    Ok (write32le h (0x160 + 4 * n) (of_nat (length data)) @ d @ data @ drop (length data) r)"
proof -
  have meta: "section_index (pkg_meta (h @ d @ r)) n = 0x200 + length d"
    using h by (simp add: section_index_def pkg_meta_prefix)
  have "blit (h @ d @ r) (0x200 + length d) data = h @ d @ data @ drop (length data) r"
    using h by (simp add: blit_suffix) (simp add: blit_def)
  then show ?thesis
    using h fits al by (simp add: package2_append_section_def memcpy_at_def meta align_to_4_dvd write32le_def blit_prefix bslice_full)
qed

lemma fixup_hash_value:
  assumes h: "length h = 0x200" "n < 4" "unat (section_sizes (pkg_meta h) ! n) = length data" and sha: "\<And>x. length (sha x) = 0x20"
  shows "fixup_section_hash sha n (h @ d @ data @ r, 0x200 + length d) =
    Ok ((if data = [] then h else blit h (0x180 + 0x20 * n) (sha data)) @ d @ data @ r, 0x200 + length d + length data)"
proof -
  have "bslice (h @ d @ data @ r) (0x200 + length d) (length data) = data" using h by (simp add: bslice_def)
  then show ?thesis
    using h sha by (simp add: fixup_section_hash_def pkg_meta_prefix blit_prefix Let_def)
qed

definition built_header :: "(bytes \<Rightarrow> bytes) \<Rightarrow> bytes \<Rightarrow> bytes \<Rightarrow> bytes \<Rightarrow> bytes" where
  "built_header sha h kern ini =
     (let h = write32le (write32le (write32le h 0x160 (of_nat (length kern))) 0x164 (of_nat (length ini))) 0x168 0;
          h = (if kern = [] then h else blit h 0x180 (sha kern)); h = (if ini = [] then h else blit h 0x1A0 (sha ini))
      in write32le h 0x10C (read32le h 0x10C XOR (get_package2_size (pkg_meta h) XOR of_nat (0x200 + length kern + length ini))))"

text \<open>The header with the sizes of the three sections in it.\<close>

definition sized_header :: "bytes \<Rightarrow> bytes \<Rightarrow> bytes \<Rightarrow> bytes" where
  "sized_header h kern ini = write32le (write32le (write32le h 0x160 (of_nat (length kern))) 0x164 (of_nat (length ini))) 0x168 0"

lemma sized_header_meta:
  assumes "length h = 0x200"
  shows "length (sized_header h kern ini) = 0x200"
    and "pkg_meta (sized_header h kern ini) = (pkg_meta h)\<lparr>section_sizes :=
      [of_nat (length kern), of_nat (length ini), 0, section_sizes (pkg_meta h) ! 3]\<rparr>"
proof -
  have len: "length (write32le g i v) = 0x200" if "length g = 0x200" "i + 4 \<le> 0x200" for g i v
    using that by (simp add: write32le_def)
  show "length (sized_header h kern ini) = 0x200" using assms by (simp add: sized_header_def len)
  have four: "[0..<4::nat] = [0, 1, 2, 3]" by (simp add: upt_rec)
  obtain a b c d where s: "section_sizes (pkg_meta h) = [a, b, c, d]" using assms by (simp add: pkg_meta_fields four)
  show "pkg_meta (sized_header h kern ini) = (pkg_meta h)\<lparr>section_sizes :=
      [of_nat (length kern), of_nat (length ini), 0, section_sizes (pkg_meta h) ! 3]\<rparr>"
    using assms meta_write_size [of _ 0] meta_write_size [of _ 1] meta_write_size [of _ 2]
    by (simp add: sized_header_def len s)
qed

lemma appended_sections:
  assumes h: "length h = 0x200" and al: "4 dvd length kern" "4 dvd length ini"
    and fits: "0x200 + length kern + length ini \<le> 0x7FC000" and f: "length f = length kern + length ini"
  shows "bindR (package2_append_section 0 kern (h @ f)) (\<lambda>p. bindR (package2_append_section 1 ini p) (package2_append_section 2 [])) =
    Ok (sized_header h kern ini @ kern @ ini)"
proof -
  let ?h1 = "write32le h 0x160 (of_nat (length kern))"
  let ?h2 = "write32le ?h1 0x164 (of_nat (length ini))"
  have len: "length ?h1 = 0x200" "length ?h2 = 0x200" using h by (simp_all add: write32le_def)
  have m1: "pkg_meta ?h1 = (pkg_meta h)\<lparr>section_sizes := (section_sizes (pkg_meta h))[0 := of_nat (length kern)]\<rparr>"
    using meta_write_size [OF h, of 0] by simp
  have m2: "pkg_meta ?h2 = (pkg_meta ?h1)\<lparr>section_sizes := (section_sizes (pkg_meta ?h1))[1 := of_nat (length ini)]\<rparr>"
    using meta_write_size [OF len(1), of 1] by simp
  have four: "[0..<4::nat] = [0, 1, 2, 3]" by (simp add: upt_rec)
  obtain a b c d where s: "section_sizes (pkg_meta h) = [a, b, c, d]" using h by (simp add: pkg_meta_fields four)
  have u: "unat (of_nat (length kern) :: u32) = length kern" "unat (of_nat (length ini) :: u32) = length ini"
    using fits by (simp_all add: unat_of_nat_small)
  have two: "take 2 [x, y, c, d] = [x, y]" for x y :: u32 by (simp add: numeral_2_eq_2)
  have a0: "package2_append_section 0 kern (h @ f) = Ok (?h1 @ kern @ drop (length kern) f)"
    using append_section_value [OF h, of 0 "[]" kern f] al fits f by simp
  have a1: "package2_append_section 1 ini (?h1 @ kern @ drop (length kern) f) = Ok (?h2 @ kern @ ini)"
    using append_section_value [OF len(1), of 1 kern ini "drop (length kern) f"] al fits f by (simp add: m1 s u)
  have a2: "package2_append_section 2 [] (?h2 @ kern @ ini) = Ok (sized_header h kern ini @ kern @ ini)"
    using append_section_value [OF len(2), of 2 "kern @ ini" "[]" "[]"] by (simp add: m2 m1 s u two sized_header_def)
  show ?thesis by (simp only: a0 a1 a2 bindR.simps)
qed

definition hashed_header :: "(bytes \<Rightarrow> bytes) \<Rightarrow> bytes \<Rightarrow> bytes \<Rightarrow> bytes \<Rightarrow> bytes" where
  "hashed_header sha h kern ini =
     (let h = (if kern = [] then h else blit h 0x180 (sha kern)) in if ini = [] then h else blit h 0x1A0 (sha ini))"

lemma hashed_header_meta:
  assumes h: "length h = 0x200" and sha: "\<And>x. length (sha x) = 0x20"
  shows "length (hashed_header sha h kern ini) = 0x200"
    and "\<exists>hs. pkg_meta (hashed_header sha h kern ini) = (pkg_meta h)\<lparr>section_hashes := hs\<rparr>
      \<and> (kern \<noteq> [] \<longrightarrow> hs ! 0 = sha kern) \<and> (ini \<noteq> [] \<longrightarrow> hs ! 1 = sha ini)"
proof -
  define g where "g = (if kern = [] then h else blit h 0x180 (sha kern))"
  have g: "length g = 0x200" using h sha by (simp add: g_def)
  have mg: "pkg_meta g = (if kern = [] then pkg_meta h else (pkg_meta h)\<lparr>section_hashes := (section_hashes (pkg_meta h))[0 := sha kern]\<rparr>)"
    using meta_write_hash [OF h, of 0 "sha kern"] sha by (simp add: g_def)
  have e: "hashed_header sha h kern ini = (if ini = [] then g else blit g 0x1A0 (sha ini))" by (simp add: hashed_header_def g_def)
  show "length (hashed_header sha h kern ini) = 0x200" using g sha by (simp add: e)
  have four: "[0..<4::nat] = [0, 1, 2, 3]" by (simp add: upt_rec)
  obtain a b c d where s: "section_hashes (pkg_meta h) = [a, b, c, d]" using h by (simp add: pkg_meta_fields four)
  show "\<exists>hs. pkg_meta (hashed_header sha h kern ini) = (pkg_meta h)\<lparr>section_hashes := hs\<rparr>
      \<and> (kern \<noteq> [] \<longrightarrow> hs ! 0 = sha kern) \<and> (ini \<noteq> [] \<longrightarrow> hs ! 1 = sha ini)"
    using meta_write_hash [OF g, of 1 "sha ini"] sha
    by (intro exI [of _ "[if kern = [] then a else sha kern, if ini = [] then b else sha ini, c, d]"])
      (auto simp: e mg s)
qed

lemma built_header_eq:
  "built_header sha h kern ini =
     (let h = hashed_header sha (sized_header h kern ini) kern ini
      in write32le h 0x10C (read32le h 0x10C XOR (get_package2_size (pkg_meta h) XOR of_nat (0x200 + length kern + length ini))))"
  by (simp add: built_header_def hashed_header_def sized_header_def Let_def)

lemma fixed_sections:
  assumes h: "length h = 0x200" and fits: "0x200 + length kern + length ini \<le> 0x7FC000" and sha: "\<And>x. length (sha x) = 0x20"
  shows "package2_fixup_header_and_section_hashes sha (sized_header h kern ini @ kern @ ini) (of_nat (0x200 + length kern + length ini)) =
    Ok (built_header sha h kern ini @ kern @ ini)"
proof -
  let ?h3 = "sized_header h kern ini"
  let ?g = "if kern = [] then ?h3 else blit ?h3 0x180 (sha kern)"
  let ?g' = "hashed_header sha ?h3 kern ini"
  have u: "unat (of_nat (length kern) :: u32) = length kern" "unat (of_nat (length ini) :: u32) = length ini"
    using fits by (simp_all add: unat_of_nat_small)
  obtain d where h3: "length ?h3 = 0x200" "section_sizes (pkg_meta ?h3) = [of_nat (length kern), of_nat (length ini), 0, d]"
    using sized_header_meta [OF h] by simp
  have g: "length ?g = 0x200" "section_sizes (pkg_meta ?g) = [of_nat (length kern), of_nat (length ini), 0, d]"
    using h3 sha meta_write_hash [OF h3(1), of 0] by (cases "kern = []"; simp)+
  have g': "length ?g' = 0x200" "section_sizes (pkg_meta ?g') = [of_nat (length kern), of_nat (length ini), 0, d]"
    using hashed_header_meta [where sha = sha, OF h3(1) sha, of kern ini] h3(2) by auto
  have f0: "fixup_section_hash sha 0 (?h3 @ kern @ ini, 0x200) = Ok (?g @ kern @ ini, 0x200 + length kern)"
    using fixup_hash_value [OF h3(1), of 0 kern sha "[]" ini] sha by (simp add: h3 u)
  have f1: "fixup_section_hash sha 1 (?g @ kern @ ini, 0x200 + length kern) = Ok (?g' @ kern @ ini, 0x200 + length kern + length ini)"
    using fixup_hash_value [OF g(1), of 1 ini sha kern "[]"] sha by (simp add: g(2) u hashed_header_def)
  have f2: "fixup_section_hash sha 2 (?g' @ kern @ ini, x) = Ok (?g' @ kern @ ini, x)" for x
    using g' by (simp add: fixup_section_hash_def pkg_meta_prefix)
  have three: "[0..<3::nat] = [0, 1, 2]" by (simp add: upt_rec)
  have "foldR (fixup_section_hash sha) [0..<3] (?h3 @ kern @ ini, 0x200) = Ok (?g' @ kern @ ini, 0x200 + length kern + length ini)"
    unfolding three foldR.simps f0 bindR.simps f1 f2 ..
  then show ?thesis
    using g'(1) unfolding package2_fixup_header_and_section_hashes_def built_header_eq Let_def
    by (simp add: pkg_meta_prefix write32le_def blit_prefix read_prefix)
qed

lemma build_package2_value:
  assumes p: "0x200 \<le> length p" and al: "4 dvd length kern" "4 dvd length ini"
    and fits: "0x200 + length kern + length ini \<le> 0x7FC000" "fe_can_alloc e (of_nat (0x200 + length kern + length ini))"
    and sha: "\<And>x. length (fe_sha256 e x) = 0x20"
  shows "build_package2 e p kern ini [] = Ok (built_header (fe_sha256 e) (take 0x200 p) kern ini @ kern @ ini)"
proof -
  define N where "N = 0x200 + length kern + length ini"
  define f where "f = drop 0x200 (map (fe_fresh e) [0..<N])"
  have h: "length (take 0x200 p) = 0x200" using p by simp
  have f: "length f = length kern + length ini" "blit (map (fe_fresh e) [0..<N]) 0 (take 0x200 p) = take 0x200 p @ f"
    using p by (simp_all add: f_def N_def blit_def)
  have sz: "0x200 + of_nat (length kern) + align_to_4 (of_nat (length [])) + align_to_4 (of_nat (length ini)) = (of_nat N :: u32)"
    using al fits align_to_4_dvd [of 0] by (simp add: align_to_4_dvd N_def)
  have usz: "unat (of_nat N :: u32) = N" using fits by (intro unat_of_nat_small) (simp add: N_def)
  have go: "\<not> (of_nat N :: u32) > 0x7FC000" "\<not> (of_nat N :: u32) < 0x200" "fe_can_alloc e (of_nat N)"
    using fits usz by (simp_all add: word_less_nat_alt N_def)
  have "build_package2 e p kern ini [] =
      bindR (bindR (package2_append_section 0 kern (take 0x200 p @ f)) (\<lambda>p. bindR (package2_append_section 1 ini p) (package2_append_section 2 [])))
        (\<lambda>rebuilt. package2_fixup_header_and_section_hashes (fe_sha256 e) rebuilt (of_nat N))"
    unfolding build_package2_def sz Let_def usz f(2) using go by (simp add: bindR_assoc)
  then show ?thesis
    unfolding appended_sections [OF h al fits(1) f(1)] using fixed_sections [OF h fits(1) sha] by (simp add: N_def)
qed

section \<open>The rebuilt package is accepted\<close>

text \<open>
  What the sections need to fit where the header puts them: neither ends above 4 GiB, they do not overlap, and the entry
  point, which is aligned, is in the kernel.
\<close>

definition layout_ok :: "package2_meta \<Rightarrow> nat \<Rightarrow> nat \<Rightarrow> bool" where
  "layout_ok md K I \<longleftrightarrow>
     unat (section_offsets md ! 0) + K < 2 ^ 32 \<and> unat (section_offsets md ! 1) + I < 2 ^ 32
     \<and> (unat (section_offsets md ! 0) + K \<le> unat (section_offsets md ! 1) \<or> unat (section_offsets md ! 1) + I \<le> unat (section_offsets md ! 0))
     \<and> unat (section_offsets md ! 0) \<le> unat (entrypoint md) \<and> unat (entrypoint md) < unat (section_offsets md ! 0) + K"

lemma built_meta:
  assumes h: "length h = 0x200" and fits: "0x200 + length kern + length ini \<le> 0x7FC000" and sha: "\<And>x. length (sha x) = 0x20"
  shows "\<exists>hs c d. pkg_meta (built_header sha h kern ini) =
      (pkg_meta h)\<lparr>section_sizes := [of_nat (length kern), of_nat (length ini), 0, d], section_hashes := hs, pk_ctr := c\<rparr>
    \<and> (kern \<noteq> [] \<longrightarrow> hs ! 0 = sha kern) \<and> (ini \<noteq> [] \<longrightarrow> hs ! 1 = sha ini)"
    and "get_package2_size (pkg_meta (built_header sha h kern ini)) = of_nat (0x200 + length kern + length ini)"
    and "ctr_dwords (pkg_meta (built_header sha h kern ini)) 1 = ctr_dwords (pkg_meta h) 1"
    and "length (built_header sha h kern ini) = 0x200" "take 0x100 (built_header sha h kern ini) = take 0x100 h"
proof -
  let ?s = "sized_header h kern ini"
  let ?g = "hashed_header sha ?s kern ini"
  note s = sized_header_meta [OF h, of kern ini] and g = hashed_header_meta [where sha = sha, OF sized_header_meta(1) [OF h] sha]
  have g1: "length ?g = 0x200" by (rule g(1))
  obtain hs where hs: "pkg_meta ?g = (pkg_meta ?s)\<lparr>section_hashes := hs\<rparr>" "kern \<noteq> [] \<longrightarrow> hs ! 0 = sha kern" "ini \<noteq> [] \<longrightarrow> hs ! 1 = sha ini"
    using g(2) by blast
  let ?c = "write32le (pk_ctr (pkg_meta ?g)) 0xC
    (read32le ?g 0x10C XOR (get_package2_size (pkg_meta ?g) XOR of_nat (0x200 + length kern + length ini)))"
  have b: "built_header sha h kern ini =
      write32le ?g 0x10C (read32le ?g 0x10C XOR (get_package2_size (pkg_meta ?g) XOR of_nat (0x200 + length kern + length ini)))"
    by (simp only: built_header_eq Let_def)
  have "pkg_meta (built_header sha h kern ini) = (pkg_meta ?g)\<lparr>pk_ctr := ?c\<rparr>" unfolding b by (rule meta_write_ctr [OF g1])
  then show "\<exists>hs c d. pkg_meta (built_header sha h kern ini) =
      (pkg_meta h)\<lparr>section_sizes := [of_nat (length kern), of_nat (length ini), 0, d], section_hashes := hs, pk_ctr := c\<rparr>
    \<and> (kern \<noteq> [] \<longrightarrow> hs ! 0 = sha kern) \<and> (ini \<noteq> [] \<longrightarrow> hs ! 1 = sha ini)"
    using hs by (intro exI [of _ hs] exI [of _ ?c] exI [of _ "section_sizes (pkg_meta h) ! 3"]) (simp add: s(2))
  show "get_package2_size (pkg_meta (built_header sha h kern ini)) = of_nat (0x200 + length kern + length ini)"
    unfolding b by (rule size_write_ctr(1) [OF g1])
  show "ctr_dwords (pkg_meta (built_header sha h kern ini)) 1 = ctr_dwords (pkg_meta h) 1"
    unfolding b size_write_ctr(2) [OF g1] using hs(1) by (simp add: s(2) ctr_dwords_def)
  show "length (built_header sha h kern ini) = 0x200" unfolding b using g1 by (simp add: write32le_def)
  have keep: "take 0x100 (blit x i bs) = take 0x100 x" if "0x100 \<le> i" "i \<le> length x" for x bs and i :: nat
    using that by (simp add: blit_def min_def)
  show "take 0x100 (built_header sha h kern ini) = take 0x100 h"
    unfolding b write32le_def using g1 s(1) h sha
    by (simp add: keep hashed_header_def Let_def sized_header_def write32le_def)
qed

lemma built_valid:
  assumes h: "length h = 0x200" and fits: "0x200 + length kern + length ini \<le> 0x7FC000" and sha: "\<And>x. length (sha x) = 0x20"
    and al: "4 dvd length kern" "4 dvd length ini" and lay: "layout_ok (pkg_meta h) (length kern) (length ini)"
    and orig: "pk_magic (pkg_meta h) = MAGIC_PK21" "unat (package2_meta_get_header_version (pkg_meta h)) \<le> 10"
      "entrypoint (pkg_meta h) AND 3 = 0" "version_min (pkg_meta h) < 0xC"
  shows "metadata_valid (pkg_meta (built_header sha h kern ini))"
proof -
  let ?m = "pkg_meta (built_header sha h kern ini)"
  note bm = built_meta [where sha = sha, OF h fits sha]
  obtain hs c d where m: "?m = (pkg_meta h)\<lparr>section_sizes := [of_nat (length kern), of_nat (length ini), 0, d], section_hashes := hs, pk_ctr := c\<rparr>"
    using bm(1) by blast
  have u: "unat (of_nat (length kern) :: u32) = length kern" "unat (of_nat (length ini) :: u32) = length ini"
    "unat (of_nat (0x200 + length kern + length ini) :: u32) = 0x200 + length kern + length ini"
    using fits by (intro unat_of_nat_small; simp)+
  have K: "0 < length kern" using lay unfolding layout_ok_def by linarith
  let ?o = "\<lambda>i. section_offsets (pkg_meta h) ! i"
  have ends: "unat (?o 0 + of_nat (length kern)) = unat (?o 0) + length kern" "unat (?o 1 + of_nat (length ini)) = unat (?o 1) + length ini"
    using lay by (simp_all add: unat_word_ariths u layout_ok_def)
  have three: "i = 0 \<or> i = 1 \<or> i = 2" if "i < 3" for i :: nat using that by auto
  have ov: "\<not> section_overlaps ?m 0 1" if "of_nat (length ini) \<noteq> (0 :: u32)"
  proof -
    have "0 < length ini" using that by (cases "length ini") simp_all
    then have "\<not> (unat (?o 0) \<le> unat (?o 1) \<and> unat (?o 1) < unat (?o 0) + length kern
        \<or> unat (?o 1) \<le> unat (?o 0) \<and> unat (?o 0) < unat (?o 1) + length ini)"
      using lay K unfolding layout_ok_def by linarith
    then show ?thesis unfolding section_overlaps_def Let_def overlaps_iff m using ends by simp
  qed
  have "unat (?o 2) < 2 ^ 32" using unsigned_less [of "?o 2", where 'a = nat] by simp
  then have pass: "section_passes ?m i" if "i < 3" for i
    using three [OF that] lay al ov
    by (auto simp: m section_passes_def and_3_dvd u check_32bit_additive_overflow_def layout_ok_def upt_rec)
  have "has_entrypoint ?m 0" using lay ends by (simp add: m has_entrypoint_def layout_ok_def word_le_nat_alt word_less_nat_alt)
  then have "\<exists>i < 3. has_entrypoint ?m i" by (intro exI [of _ 0]) simp
  moreover have "pk_magic ?m = MAGIC_PK21" "entrypoint ?m AND 3 = 0" "version_min ?m < 0xC"
    "section_sizes ?m ! 0 + section_sizes ?m ! 1 + section_sizes ?m ! 2 = of_nat (length kern) + of_nat (length ini)"
    using orig by (simp_all add: m)
  moreover have "(ucast (of_nat (length kern) + of_nat (length ini) :: u32) :: u64) + 0x200 = ucast (of_nat (0x200 + length kern + length ini) :: u32)"
    using fits u by (simp add: word_unat_eq_iff unat_word_ariths)
  moreover have "unat (ucast ((ctr_dwords ?m 1 XOR drop_bit 16 (ctr_dwords ?m 1) XOR drop_bit 24 (ctr_dwords ?m 1)) AND 0xFF) :: u8) \<le> 10"
    unfolding bm(3) using orig(2) by (simp add: package2_meta_get_header_version_def Let_def)
  ultimately show ?thesis
    unfolding metadata_valid_def bm(2) u(3) using fits K pass by (simp del: length_greater_0_conv)
qed

text \<open>The boot loader's own validation, which also compares the hashes.\<close>

lemma package2_validate_section_passes:
  assumes "section_passes md i"
    and "section_sizes md ! i \<noteq> 0 \<Longrightarrow> cur + unat (section_sizes md ! i) \<le> length data
      \<and> sha (bslice data cur (unat (section_sizes md ! i))) = section_hashes md ! i"
  shows "package2_validate_section sha md data i (Some (found, cur)) =
    Ok (Some (found \<or> has_entrypoint md i, cur + unat (section_sizes md ! i)))"
  using assms by (auto simp: package2_validate_section_def section_passes_def has_entrypoint_def Let_def)

text \<open>The hashes in the metadata are those of the sections; there is no third section.\<close>

definition hashes_match :: "(bytes \<Rightarrow> bytes) \<Rightarrow> package2_meta \<Rightarrow> bytes \<Rightarrow> bool" where
  "hashes_match sha md data \<longleftrightarrow>
     (section_sizes md ! 0 \<noteq> 0 \<longrightarrow> unat (section_sizes md ! 0) \<le> length data
        \<and> sha (bslice data 0 (unat (section_sizes md ! 0))) = section_hashes md ! 0)
     \<and> (section_sizes md ! 1 \<noteq> 0 \<longrightarrow> unat (section_sizes md ! 0) + unat (section_sizes md ! 1) \<le> length data
        \<and> sha (bslice data (unat (section_sizes md ! 0)) (unat (section_sizes md ! 1))) = section_hashes md ! 1)
     \<and> section_sizes md ! 2 = 0"

lemma package2_validate_metadata_valid:
  assumes valid: "metadata_valid md" and hashes: "hashes_match sha md data"
  shows "package2_validate_metadata sha md data = Ok True"
proof -
  have three: "[0..<3::nat] = [0, 1, 2]" by (simp add: upt_rec)
  have pass: "section_passes md 0" "section_passes md 1" "section_passes md 2" "\<exists>i < 3. has_entrypoint md i"
    using valid unfolding metadata_valid_def by auto
  have found: "has_entrypoint md 0 \<or> has_entrypoint md 1 \<or> has_entrypoint md 2"
    using pass(4) by (auto simp: less_Suc_eq numeral_3_eq_3 numeral_2_eq_2)
  have loop: "foldR (package2_validate_section sha md data) [0..<3] (Some (False, 0)) =
      Ok (Some (True, unat (section_sizes md ! 0) + unat (section_sizes md ! 1)))"
    unfolding three
    using package2_validate_section_passes [OF pass(1), of 0 data sha False] package2_validate_section_passes [OF pass(2), of _ data sha]
      package2_validate_section_passes [OF pass(3), of _ data sha] hashes found by (simp add: hashes_match_def)
  have sz: "0x200 < unat (get_package2_size md)" "unat (get_package2_size md) \<le> 0x7FC000" using valid by (simp_all add: metadata_valid_def)
  have up: "unat (ucast x :: u32) = unat x" for x :: u8 using unsigned_less [of x, where 'a = nat] by (simp add: unsigned_ucast_eq take_bit_nat_eq_self)
  have v: "\<not> ucast (package2_meta_get_header_version md) > MASTERKEY_REVISION_MAX"
    using valid by (simp add: metadata_valid_def package2_meta_get_header_version_def Let_def word_less_nat_alt up)
  have "section_sizes md ! 0 + section_sizes md ! 1 + section_sizes md ! 2 + 0x200 = get_package2_size md"
  proof -
    let ?s = "section_sizes md ! 0 + section_sizes md ! 1 + section_sizes md ! 2"
    have "unat ((ucast ?s :: u64) + 0x200) = unat (ucast (get_package2_size md) :: u64)" using valid by (simp add: metadata_valid_def)
    moreover have "unat ((ucast ?s :: u64) + 0x200) = unat ?s + 0x200"
      using unsigned_less [of ?s, where 'a = nat] by (simp add: unat_word_ariths)
    ultimately have "unat ?s + 0x200 = unat (get_package2_size md)" by simp
    then show ?thesis using sz by (simp add: word_unat_eq_iff unat_word_ariths)
  qed
  then show ?thesis
    using valid v sz loop unfolding package2_validate_metadata_def Let_def
    by (simp add: metadata_valid_def word_less_nat_alt word_le_nat_alt)
qed

lemma built_hashes_match:
  assumes h: "length h = 0x200" and fits: "0x200 + length kern + length ini \<le> 0x7FC000" and sha: "\<And>x. length (sha x) = 0x20"
  shows "hashes_match sha (pkg_meta (built_header sha h kern ini)) (kern @ ini)"
proof -
  let ?m = "pkg_meta (built_header sha h kern ini)"
  obtain hs c d where m: "?m = (pkg_meta h)\<lparr>section_sizes := [of_nat (length kern), of_nat (length ini), 0, d], section_hashes := hs, pk_ctr := c\<rparr>"
      "kern \<noteq> [] \<longrightarrow> hs ! 0 = sha kern" "ini \<noteq> [] \<longrightarrow> hs ! 1 = sha ini"
    using built_meta(1) [where sha = sha, OF h fits sha] by blast
  have u: "unat (of_nat (length kern) :: u32) = length kern" "unat (of_nat (length ini) :: u32) = length ini"
    using fits by (intro unat_of_nat_small; simp)+
  show ?thesis using m(2,3) by (auto simp: hashes_match_def m(1) u bslice_def)
qed

section \<open>Who reads a package\<close>

text \<open>
  The interface between the two programs: a reader of packages accepts well-formed metadata with the hashes of the sections. Both
  validations keep it, the boot loader's, which reads Nintendo's package, and exosphere's, which reads the rebuilt one.
\<close>

locale package_reader =
  fixes accepts :: "(bytes \<Rightarrow> bytes) \<Rightarrow> package2_meta \<Rightarrow> bytes \<Rightarrow> bool"
  assumes accepts_valid: "metadata_valid md \<Longrightarrow> hashes_match sha md data \<Longrightarrow> accepts sha md data"
begin

lemma accepts_built:
  assumes "length h = 0x200" "0x200 + length kern + length ini \<le> 0x7FC000" "\<And>x. length (sha x) = 0x20"
    and "4 dvd length kern" "4 dvd length ini" "layout_ok (pkg_meta h) (length kern) (length ini)"
    and "pk_magic (pkg_meta h) = MAGIC_PK21" "unat (package2_meta_get_header_version (pkg_meta h)) \<le> 10"
      "entrypoint (pkg_meta h) AND 3 = 0" "version_min (pkg_meta h) < 0xC"
  shows "accepts sha (pkg_meta (built_header sha h kern ini)) (kern @ ini)"
  by (rule accepts_valid [OF built_valid built_hashes_match]) (use assms in auto)

end

interpretation boot_loader: package_reader "\<lambda>sha md data. package2_validate_metadata sha md data = Ok True"
  by unfold_locales (rule package2_validate_metadata_valid)

interpretation monitor: package_reader
  "\<lambda>sha md data. \<forall>P eng mem se. se_engine_ok P eng \<longrightarrow> (\<exists>se'. validate_package2_metadata eng mem md se = Ok (True, se'))"
  by unfold_locales (use validate_complete in blast)

end
