(* ===== verification/BLZ_Facts.thy ===== *)
theory BLZ_Facts
  imports KIP1
begin

text \<open>
  What the decompression in place computes. A compressed section is read from its end to its start: a control byte, whose bits say
  for each of the next eight tokens whether it is a byte or a reference to bytes that have already been written, then the tokens.
  The output is written from its end to its start, over the input; the input has to be consumed fast enough.
\<close>

section \<open>Tokens\<close>

datatype blz_tok = Lit u8 | Seg nat nat

fun is_seg :: "blz_tok \<Rightarrow> bool" where
  "is_seg (Lit b) = False"
| "is_seg (Seg n ofs) = True"

text \<open>The bytes of a token in the order in which they are read, and the control byte of some tokens.\<close>

definition seg_word :: "nat \<Rightarrow> nat \<Rightarrow> u32" where
  "seg_word n ofs = push_bit 12 (of_nat (n - 3)) OR of_nat (ofs - 3)"

fun enc_tok :: "blz_tok \<Rightarrow> bytes" where
  "enc_tok (Lit b) = [b]"
| "enc_tok (Seg n ofs) = [ucast (drop_bit 8 (seg_word n ofs)), ucast (seg_word n ofs)]"

fun control_byte :: "blz_tok list \<Rightarrow> u8" where
  "control_byte [] = 0"
| "control_byte (t # ts) = (if is_seg t then 0x80 else 0) OR drop_bit 1 (control_byte ts)"

definition enc_chunk :: "blz_tok list \<Rightarrow> bytes" where
  "enc_chunk ts = control_byte ts # concat (map enc_tok ts)"

lemma length_enc_chunk: "length (enc_chunk ts) = Suc (length (concat (map enc_tok ts)))"
  by (simp add: enc_chunk_def)

fun wf_chunks :: "blz_tok list list \<Rightarrow> bool" where
  "wf_chunks [] = True"
| "wf_chunks [ts] = (ts \<noteq> [] \<and> length ts \<le> 8)"
| "wf_chunks (ts # tss) = (length ts = 8 \<and> wf_chunks tss)"

text \<open>
  The bytes that the tokens stand for. The first component is how many bytes lie between the input that is left and the output;
  a reference that would write over input that is still needed has no meaning.
\<close>

fun tok_step :: "blz_tok \<Rightarrow> nat \<times> bytes \<Rightarrow> (nat \<times> bytes) option" where
  "tok_step (Lit b) (gap, out) = Some (gap, b # out)"
| "tok_step (Seg n ofs) (gap, out) =
     (if 3 \<le> n \<and> n \<le> 18 \<and> ofs \<le> 4098 \<and> n \<le> ofs \<and> ofs \<le> length out \<and> n \<le> gap + 2
      then Some (gap + 2 - n, take n (drop (ofs - n) out) @ out) else None)"

fun toks_run :: "blz_tok list \<Rightarrow> nat \<times> bytes \<Rightarrow> (nat \<times> bytes) option" where
  "toks_run [] st = Some st"
| "toks_run (t # ts) st = (case tok_step t st of None \<Rightarrow> None | Some st \<Rightarrow> toks_run ts st)"

fun chunks_run :: "blz_tok list list \<Rightarrow> nat \<times> bytes \<Rightarrow> (nat \<times> bytes) option" where
  "chunks_run [] st = Some st"
| "chunks_run (ts # tss) st = (case toks_run ts (Suc (fst st), snd st) of None \<Rightarrow> None | Some st \<Rightarrow> chunks_run tss st)"

section \<open>The control byte\<close>

lemma control_byte_bits: "bit (control_byte ts) k \<Longrightarrow> 8 \<le> k + length ts"
proof (induction ts arbitrary: k)
  case (Cons t ts)
  have "k = 7" if "bit (0x80 :: u8) k"
  proof -
    have "bit (push_bit 7 (1 :: u8)) k" using that by simp
    then show ?thesis by (simp only: bit_push_bit_iff bit_1_iff) simp
  qed
  with Cons show ?case by (fastforce simp: bit_or_iff bit_drop_bit_eq split: if_splits)
qed simp

lemma control_first: "control_byte (t # ts) AND 0x80 \<noteq> 0 \<longleftrightarrow> is_seg t"
proof -
  have "x AND 0x80 \<noteq> 0 \<longleftrightarrow> bit x 7" for x :: u8
    using and_exp_eq_0_iff_not_bit [of x 7] by simp
  moreover have "\<not> bit (control_byte ts) 8" using bit_imp_le_length [of "control_byte ts" 8] by auto
  moreover have "bit (0x80 :: u8) 7"
  proof -
    have "bit (push_bit 7 (1 :: u8)) 7" by (simp only: bit_push_bit_iff bit_1_iff) simp
    then show ?thesis by simp
  qed
  ultimately show ?thesis by (simp add: bit_or_iff bit_drop_bit_eq)
qed

lemma control_next:
  assumes "length ts \<le> 7"
  shows "push_bit 1 (control_byte (t # ts)) = control_byte ts"
proof (rule bit_word_eqI)
  fix k assume k: "k < LENGTH(8)"
  have "\<not> bit (control_byte ts) 0" using control_byte_bits [of ts 0] assms by auto
  moreover have "\<not> bit (0x80 :: u8) (k - 1)" if "0 < k"
  proof -
    have "\<not> bit (push_bit 7 (1 :: u8)) (k - 1)" using k by (simp only: bit_push_bit_iff bit_1_iff) simp
    then show ?thesis by simp
  qed
  ultimately show "bit (push_bit 1 (control_byte (t # ts))) k = bit (control_byte ts) k"
    using k unfolding bit_push_bit_iff by (cases k) (auto simp: bit_or_iff bit_drop_bit_eq)
qed

section \<open>One token\<close>

lemma buf_get_nat: "i < length buf \<Longrightarrow> buf_get buf (int i) = Ok (buf ! i)"
  by (simp add: buf_get_def)

lemma buf_set_nat: "i < length buf \<Longrightarrow> buf_set buf (int i) v = Ok (buf[i := v])"
  by (simp add: buf_set_def)

lemma blit_extend:
  assumes "o1 + length xs < length buf"
  shows "(blit buf o1 xs)[o1 + length xs := v] = blit buf o1 (xs @ [v])"
  using assms by (intro nth_equalityI) (auto simp: nth_list_update nth_blit nth_append less_Suc_eq)

lemma blz_copy_loop:
  assumes "c + unat out + unat ofs + k \<le> length buf" "length buf < 2 ^ 32"
  shows "foldR (blz_copy (int c) out ofs) [0..<k] buf = Ok (blit buf (c + unat out) (bslice buf (c + unat out + unat ofs) k))"
  using assms
proof (induction k)
  case 0
  then show ?case by (simp add: bslice_def blit_def)
next
  case (Suc k)
  let ?o = "c + unat out"
  let ?b = "blit buf ?o (bslice buf (?o + unat ofs) k)"
  have len: "length (bslice buf (?o + unat ofs) k) = k" "length ?b = length buf" using Suc.prems by simp_all
  have ix: "int c + uint (out + of_nat k + ofs) = int (?o + unat ofs + k)" "int c + uint (out + of_nat k) = int (?o + k)"
  proof -
    have k: "unat (of_nat k :: u32) = k" using Suc.prems by (intro unat_of_nat_small) simp
    have 1: "unat (out + of_nat k) = unat out + k" using Suc.prems k by (subst iffD1 [OF unat_add_lem]) simp_all
    have 2: "unat (out + of_nat k + ofs) = unat out + k + unat ofs" using Suc.prems 1 by (subst iffD1 [OF unat_add_lem]) simp_all
    show "int c + uint (out + of_nat k + ofs) = int (?o + unat ofs + k)" "int c + uint (out + of_nat k) = int (?o + k)"
      unfolding uint_nat 1 2 by simp_all
  qed
  have "blz_copy (int c) out ofs k ?b = Ok (?b[?o + k := ?b ! (?o + unat ofs + k)])"
  proof -
    have g: "buf_get ?b (int (?o + unat ofs + k)) = Ok (?b ! (?o + unat ofs + k))" by (rule buf_get_nat) (use Suc.prems len in simp)
    have s: "buf_set ?b (int (?o + k)) v = Ok (?b[?o + k := v])" for v by (rule buf_set_nat) (use Suc.prems len in simp)
    show ?thesis unfolding blz_copy_def ix g bindR.simps s ..
  qed
  also have "?b ! (?o + unat ofs + k) = buf ! (?o + unat ofs + k)" using Suc.prems len by (simp add: nth_blit)
  also have "?b[?o + k := buf ! (?o + unat ofs + k)] = blit buf ?o (bslice buf (?o + unat ofs) (Suc k))"
    using blit_extend [of ?o "bslice buf (?o + unat ofs) k" buf "buf ! (?o + unat ofs + k)"] Suc.prems len
    by (simp add: bslice_def take_Suc_conv_app_nth)
  finally show ?case using Suc by (simp add: foldR_append)
qed

lemma seg_word_parts:
  assumes "3 \<le> n" "n \<le> 18" "3 \<le> ofs" "ofs \<le> 4098"
  defines "w \<equiv> seg_word n ofs"
  shows "push_bit 8 (ucast (ucast (drop_bit 8 w) :: u8)) OR ucast (ucast w :: u8) = w"
    and "(drop_bit 12 w AND 0xF) + 3 = of_nat n" and "(w AND 0xFFF) + 3 = of_nat ofs"
proof -
  define x y :: u32 where "x = of_nat (n - 3)" and "y = of_nat (ofs - 3)"
  have "x < 2 ^ 4" "y < 2 ^ 12"
    using assms(1-4) by (simp_all add: x_def y_def word_less_nat_alt unat_of_nat_small del: of_nat_diff)
  then have xy: "bit x k \<Longrightarrow> k < 4" "bit y k \<Longrightarrow> k < 12" for k using bit_less_exp [of x 4 k] bit_less_exp [of y 12 k] by simp_all
  have w: "w = push_bit 12 x OR y" by (simp add: w_def seg_word_def x_def y_def)
  have bw: "bit w k \<longleftrightarrow> 12 \<le> k \<and> k < 16 \<and> bit x (k - 12) \<or> k < 12 \<and> bit y k" for k
    unfolding w bit_or_iff bit_push_bit_iff using xy(1) [of "k - 12"] xy(2) [of k] by auto
  have m: "bit (0xF :: u32) k \<longleftrightarrow> k < 4" "bit (0xFFF :: u32) k \<longleftrightarrow> k < 12" for k
  proof -
    have "(0xF :: u32) = mask 4" "(0xFFF :: u32) = mask 12" by (simp_all add: mask_eq_exp_minus_1)
    then show "bit (0xF :: u32) k \<longleftrightarrow> k < 4" "bit (0xFFF :: u32) k \<longleftrightarrow> k < 12" by (simp_all only: bit_mask_iff) auto
  qed
  show "push_bit 8 (ucast (ucast (drop_bit 8 w) :: u8)) OR ucast (ucast w :: u8) = w"
  proof (rule bit_word_eqI)
    fix k assume "k < LENGTH(32)"
    then show "bit (push_bit 8 (ucast (ucast (drop_bit 8 w) :: u8)) OR ucast (ucast w :: u8) :: u32) k = bit w k"
      unfolding bit_or_iff bit_push_bit_iff using bw [of k] by (auto simp: bit_ucast_iff bit_drop_bit_eq)
  qed
  have "drop_bit 12 w AND 0xF = x"
    by (rule bit_word_eqI) (unfold bit_and_iff bit_drop_bit_eq comp_apply m bw, use xy(1) in auto)
  then show "(drop_bit 12 w AND 0xF) + 3 = of_nat n" using assms(1) by (simp add: x_def of_nat_diff)
  have "w AND 0xFFF = y" by (rule bit_word_eqI) (unfold bit_and_iff m bw, use xy(2) in auto)
  then show "(w AND 0xFFF) + 3 = of_nat ofs" using assms(3) by (simp add: y_def of_nat_diff)
qed

text \<open>
  The state between two tokens: the input that is left, the gap, and the output, with \<open>pre\<close> before and \<open>post\<close> behind them.
\<close>

definition blz_st :: "bytes \<Rightarrow> bytes \<Rightarrow> bytes \<Rightarrow> bytes \<Rightarrow> bytes \<Rightarrow> blz_state" where
  "blz_st pre inp gap out post = (pre @ rev inp @ gap @ out @ post, of_nat (length inp), of_nat (length inp + length gap))"

lemma update_last:
  "length xs = Suc m \<Longrightarrow> length a + length c = l \<Longrightarrow> (a @ c @ xs @ r)[l + m := b] = a @ c @ (take m xs @ [b]) @ r"
  by (auto simp: list_update_append upd_conv_take_nth_drop)

lemma drop_past: "drop (length xs + j) (xs @ ys) = drop j ys"
  by simp

lemma blz_token_lit:
  assumes "control AND 0x80 = 0" "length pre + length inp + length gap + 1 < 2 ^ 32"
  shows "blz_token control (int (length pre)) (blz_st pre (b # inp) gap out post) = Ok (blz_st pre inp (take (length gap) (b # gap)) (b # out) post)"
proof -
  let ?buf = "pre @ rev inp @ (b # gap) @ out @ post"
  let ?i = "length pre + length inp" and ?o = "length pre + length inp + length gap"
  have w: "(of_nat (length (b # inp)) :: u32) - 1 = of_nat (length inp)"
      "(of_nat (length (b # inp) + length gap) :: u32) - 1 = of_nat (length inp + length gap)" by simp_all
  have u: "unat (of_nat (Suc (length inp)) :: u32) = Suc (length inp)" "unat (of_nat (length inp) :: u32) = length inp"
      "unat (of_nat (length inp + length gap) :: u32) = length inp + length gap"
    using assms(2) by (intro unat_of_nat_small; simp)+
  have ge: "\<not> (of_nat (length (b # inp)) :: u32) < 1" using u(1) by (simp add: word_less_nat_alt del: of_nat_Suc)
  have ix: "int (length pre) + uint (of_nat (length inp) :: u32) = int ?i"
      "int (length pre) + uint (of_nat (length inp + length gap) :: u32) = int ?o"
    unfolding uint_nat u by simp_all
  have g: "buf_get ?buf (int ?i) = Ok b" by (subst buf_get_nat) (simp_all add: nth_append)
  have up: "?buf[?o := b] = pre @ rev inp @ (take (length gap) (b # gap) @ [b]) @ out @ post" by (rule update_last) simp_all
  have s: "buf_set ?buf (int ?o) b = Ok (pre @ rev inp @ (take (length gap) (b # gap) @ [b]) @ out @ post)"
    by (subst buf_set_nat, simp) (simp only: up)
  show ?thesis
    unfolding blz_token_def blz_st_def prod.case Let_def w
    using assms(1) ge g s ix by (simp del: of_nat_Suc of_nat_add)
qed

lemma blit_over:
  assumes "length m = length x + k" "length a = l"
  shows "blit (a @ m @ r) (l + k) x = a @ take k m @ x @ r"
  using assms by (simp add: blit_def)

lemma blz_token_seg:
  assumes c: "control AND 0x80 \<noteq> 0" and n: "3 \<le> n" "n \<le> 18" "n \<le> ofs" "ofs \<le> 4098" "ofs \<le> length out" "n \<le> length gap + 2"
    and fits: "length pre + length inp + length gap + 2 + length out + length post < 2 ^ 32"
  shows "\<exists>gap'. length gap' = length gap + 2 - n
    \<and> blz_token control (int (length pre)) (blz_st pre (enc_tok (Seg n ofs) @ inp) gap out post) =
        Ok (blz_st pre inp gap' (take n (drop (ofs - n) out) @ out) post)"
proof -
  define w where "w = seg_word n ofs"
  define lo hi :: u8 where "lo = ucast w" and "hi = ucast (drop_bit 8 w)"
  have seg: "push_bit 8 (ucast hi) OR ucast lo = w" "(drop_bit 12 w AND 0xF) + 3 = of_nat n" "(w AND 0xFFF) + 3 = of_nat ofs"
    using seg_word_parts [of n ofs] n by (simp_all add: w_def lo_def hi_def)
  let ?buf = "pre @ rev inp @ (lo # hi # gap) @ out @ post"
  define k where "k = length gap + 2 - n"
  have u: "unat (of_nat (length inp + 2) :: u32) = length inp + 2" "unat (of_nat (length inp) :: u32) = length inp"
      "unat (of_nat (length inp + 1) :: u32) = length inp + 1" "unat (of_nat n :: u32) = n" "unat (of_nat ofs :: u32) = ofs"
      "unat (of_nat (length inp + 2 + length gap) :: u32) = length inp + 2 + length gap" "unat (of_nat (length inp + k) :: u32) = length inp + k"
    using fits n by (intro unat_of_nat_small; simp add: k_def)+
  have ge: "\<not> (of_nat (length inp + 2) :: u32) < 2" "\<not> (of_nat (length inp + 2 + length gap) :: u32) < of_nat n"
    using u n by (simp_all add: word_less_nat_alt del: of_nat_add)
  have sub: "(of_nat (length inp + 2) :: u32) - 2 = of_nat (length inp)" "(of_nat (length inp) :: u32) + 1 = of_nat (length inp + 1)"
      "(of_nat (length inp + 2 + length gap) :: u32) - of_nat n = of_nat (length inp + k)"
    using n by (simp_all add: k_def of_nat_diff)
  have ix: "int (length pre) + uint (of_nat (length inp + 1) :: u32) = int (length pre + length inp + 1)"
      "int (length pre) + uint (of_nat (length inp) :: u32) = int (length pre + length inp)"
    unfolding uint_nat u by simp_all
  have g: "buf_get ?buf (int (length pre + length inp + 1)) = Ok hi" "buf_get ?buf (int (length pre + length inp)) = Ok lo"
    by (subst buf_get_nat; simp add: nth_append)+
  have "foldR (blz_copy (int (length pre)) (of_nat (length inp + k)) (of_nat ofs)) [0..<n] ?buf =
      Ok (blit ?buf (length pre + length inp + k) (bslice ?buf (length pre + length inp + k + ofs) n))"
    using blz_copy_loop [of "length pre" "of_nat (length inp + k)" "of_nat ofs" n ?buf] fits n
    unfolding u by (simp add: k_def add.assoc)
  also have "bslice ?buf (length pre + length inp + k + ofs) n = take n (drop (ofs - n) out)"
  proof -
    have "length pre + length inp + k + ofs = length (pre @ rev inp @ lo # hi # gap) + (ofs - n)" using n by (simp add: k_def)
    moreover have "?buf = (pre @ rev inp @ lo # hi # gap) @ out @ post" by simp
    ultimately have "drop (length pre + length inp + k + ofs) ?buf = drop (ofs - n) (out @ post)" by (simp only: drop_past)
    then show ?thesis using n by (simp add: bslice_def)
  qed
  also have "blit ?buf (length pre + length inp + k) (take n (drop (ofs - n) out)) =
      (pre @ rev inp) @ take k (lo # hi # gap) @ take n (drop (ofs - n) out) @ out @ post"
    using blit_over [of "lo # hi # gap" "take n (drop (ofs - n) out)" k "pre @ rev inp" "length pre + length inp" "out @ post"] n
    by (simp add: k_def)
  finally have copy: "foldR (blz_copy (int (length pre)) (of_nat (length inp + k)) (of_nat ofs)) [0..<n] ?buf =
      Ok (pre @ rev inp @ take k (lo # hi # gap) @ (take n (drop (ofs - n) out) @ out) @ post)" by simp
  have st: "blz_st pre (enc_tok (Seg n ofs) @ inp) gap out post = (?buf, of_nat (length inp + 2), of_nat (length inp + 2 + length gap))"
    by (simp add: blz_st_def lo_def hi_def w_def add.commute)
  have len: "length (take k (lo # hi # gap)) = k" using n by (simp add: k_def)
  have "blz_token control (int (length pre)) (?buf, of_nat (length inp + 2), of_nat (length inp + 2 + length gap)) =
      Ok (pre @ rev inp @ take k (lo # hi # gap) @ (take n (drop (ofs - n) out) @ out) @ post, of_nat (length inp), of_nat (length inp + k))"
    unfolding blz_token_def prod.case Let_def sub
    using c ge by (simp only: if_True if_False ix g bindR.simps seg sub copy u simp_thms)
  then show ?thesis
    unfolding st by (intro exI [of _ "take k (lo # hi # gap)"]) (simp only: blz_st_def len, simp add: k_def)
qed

section \<open>Chunks\<close>

lemma blz_token_step:
  assumes step: "tok_step t (length gap, out) = Some (g1, out1)" and c: "control AND 0x80 \<noteq> 0 \<longleftrightarrow> is_seg t"
    and fits: "length pre + length (enc_tok t) + length inp + length gap + length out + length post < 2 ^ 32"
  shows "\<exists>gap1. length gap1 = g1 \<and> length (enc_tok t) + length gap + length out = g1 + length out1
    \<and> blz_token control (int (length pre)) (blz_st pre (enc_tok t @ inp) gap out post) = Ok (blz_st pre inp gap1 out1 post)"
proof (cases t)
  case (Lit b)
  with step have "g1 = length gap" "out1 = b # out" by simp_all
  then show ?thesis
    using blz_token_lit [of control pre inp gap b out post] c fits Lit by (intro exI [of _ "take (length gap) (b # gap)"]) simp
next
  case (Seg n ofs)
  with step have s: "3 \<le> n" "n \<le> 18" "n \<le> ofs" "ofs \<le> 4098" "ofs \<le> length out" "n \<le> length gap + 2"
      "g1 = length gap + 2 - n" "out1 = take n (drop (ofs - n) out) @ out"
    by (simp_all split: if_splits)
  moreover have "length pre + length inp + length gap + 2 + length out + length post < 2 ^ 32" using fits Seg by simp
  ultimately show ?thesis using blz_token_seg [OF _ s(1-6), of control pre inp post] c Seg by auto
qed

lemma blz_bits_run:
  assumes "toks_run ts (length gap, out) = Some (g', out')" "ts \<noteq> []" "length ts \<le> n" "n \<le> 8" "n = length ts \<or> inp = [] \<and> g' = 0"
    and "length pre + length (concat (map enc_tok ts)) + length inp + length gap + length out + length post < 2 ^ 32"
  shows "\<exists>gap'. length gap' = g' \<and> length (concat (map enc_tok ts)) + length gap + length out = g' + length out'
    \<and> blz_bits n (control_byte ts) (int (length pre)) (blz_st pre (concat (map enc_tok ts) @ inp) gap out post) = Ok (blz_st pre inp gap' out' post)"
  using assms
proof (induction ts arbitrary: n gap out)
  case (Cons t ts)
  let ?rest = "concat (map enc_tok ts) @ inp"
  obtain m where n: "n = Suc m" using Cons.prems(3) by (cases n) auto
  obtain g1 out1 where t: "tok_step t (length gap, out) = Some (g1, out1)" "toks_run ts (g1, out1) = Some (g', out')"
    using Cons.prems(1) by (auto split: option.splits)
  obtain gap1 where gap1: "length gap1 = g1" "length (enc_tok t) + length gap + length out = g1 + length out1"
      "blz_token (control_byte (t # ts)) (int (length pre)) (blz_st pre (enc_tok t @ ?rest) gap out post) = Ok (blz_st pre ?rest gap1 out1 post)"
    using blz_token_step [OF t(1) control_first, of pre ?rest post] Cons.prems(6) by auto
  have "length ?rest + length gap1 < 2 ^ 32" using Cons.prems(6) gap1 by simp
  then have zero: "snd (snd (blz_st pre ?rest gap1 out1 post)) = 0 \<longleftrightarrow> ?rest = [] \<and> gap1 = []"
    by (simp add: blz_st_def word_unat_eq_iff unat_of_nat_small del: of_nat_add)
  show ?case
  proof (cases "ts = []")
    case True
    then have "m = 0 \<or> ?rest = [] \<and> gap1 = []" using Cons.prems(5) n t(2) gap1(1) by auto
    then have "blz_bits n (control_byte (t # ts)) (int (length pre)) (blz_st pre (enc_tok t @ ?rest) gap out post) = Ok (blz_st pre ?rest gap1 out1 post)"
      using zero by (auto simp: n gap1(3) simp del: control_byte.simps)
    then show ?thesis using True t(2) gap1 by (intro exI [of _ gap1]) simp
  next
    case False
    then have "?rest \<noteq> []" by (cases ts; cases "hd ts") auto
    then have nz: "snd (snd (blz_st pre ?rest gap1 out1 post)) \<noteq> 0" using zero by blast
    have nxt: "push_bit 1 (control_byte (t # ts)) = control_byte ts" by (rule control_next) (use Cons.prems(3,4) in simp)
    have "blz_bits n (control_byte (t # ts)) (int (length pre)) (blz_st pre (enc_tok t @ ?rest) gap out post) =
        blz_bits m (control_byte ts) (int (length pre)) (blz_st pre ?rest gap1 out1 post)"
      unfolding n blz_bits.simps gap1(3) bindR.simps nxt using nz by (rule if_not_P)
    moreover have "\<exists>gap'. length gap' = g' \<and> length (concat (map enc_tok ts)) + length gap1 + length out1 = g' + length out'
        \<and> blz_bits m (control_byte ts) (int (length pre)) (blz_st pre ?rest gap1 out1 post) = Ok (blz_st pre inp gap' out' post)"
      by (rule Cons.IH) (use t(2) gap1 False Cons.prems n in auto)
    ultimately show ?thesis using gap1 by (auto simp del: control_byte.simps)
  qed
qed simp

lemma blz_loop_run:
  assumes "chunks_run tss (length gap, out) = Some (0, out')" "wf_chunks tss"
    and "length pre + length (concat (map enc_chunk tss)) + length gap + length out + length post < 2 ^ 32"
  shows "blz_loop (int (length pre)) (blz_st pre (concat (map enc_chunk tss)) gap out post) = Ok (pre @ out' @ post)"
  using assms
proof (induction tss arbitrary: gap out)
  case Nil
  then show ?case by (simp add: blz_loop.simps blz_st_def)
next
  case (Cons ts tss)
  let ?rest = "concat (map enc_chunk tss)"
  let ?inp = "concat (map enc_tok ts) @ ?rest"
  let ?c = "control_byte ts"
  obtain g1 out1 where ts: "toks_run ts (length (?c # gap), out) = Some (g1, out1)" "chunks_run tss (g1, out1) = Some (0, out')"
    using Cons.prems(1) by (auto split: option.splits)
  have wf: "ts \<noteq> []" "length ts \<le> 8" "wf_chunks tss" "8 = length ts \<or> ?rest = [] \<and> g1 = 0"
    using Cons.prems(2) ts(2) by (cases tss; fastforce)+
  have small: "length pre + length (concat (map enc_tok ts)) + length ?rest + length (?c # gap) + length out + length post < 2 ^ 32"
    using Cons.prems(3) by (simp add: length_enc_chunk)
  obtain gap1 where gap1: "length gap1 = g1" "length (concat (map enc_tok ts)) + length (?c # gap) + length out = g1 + length out1"
      "blz_bits 8 ?c (int (length pre)) (blz_st pre ?inp (?c # gap) out post) = Ok (blz_st pre ?rest gap1 out1 post)"
    using blz_bits_run [OF ts(1) wf(1,2) order_refl wf(4) small] by blast
  have st: "blz_st pre (enc_chunk ts @ ?rest) gap out post =
      (pre @ rev ?inp @ (?c # gap) @ out @ post, of_nat (Suc (length ?inp)), of_nat (length ?inp + length (?c # gap)))"
    by (simp add: blz_st_def enc_chunk_def)
  have nz: "of_nat (length ?inp + length (?c # gap)) \<noteq> (0 :: u32)"
    using small by (simp add: word_unat_eq_iff unat_of_nat_small del: of_nat_add of_nat_Suc)
  have u: "unat (of_nat (length ?inp) :: u32) = length ?inp" using small by (intro unat_of_nat_small) simp
  have ix: "int (length pre) + uint (of_nat (length ?inp) :: u32) = int (length pre + length ?inp)" unfolding uint_nat u by simp
  have get: "buf_get (pre @ rev ?inp @ (?c # gap) @ out @ post) (int (length pre + length ?inp)) = Ok ?c"
    by (subst buf_get_nat) (simp_all add: nth_append)
  have "(of_nat (Suc (length ?inp)) :: u32) - 1 = of_nat (length ?inp)" by simp
  then have "blz_loop (int (length pre)) (blz_st pre (enc_chunk ts @ ?rest) gap out post) =
      bindR (blz_bits 8 ?c (int (length pre)) (blz_st pre ?inp (?c # gap) out post)) (blz_loop (int (length pre)))"
    unfolding blz_loop.simps [of _ "blz_st pre (enc_chunk ts @ ?rest) gap out post"] unfolding st fst_conv snd_conv
    using nz by (simp only: if_False ix get bindR.simps blz_st_def)
  also have "\<dots> = blz_loop (int (length pre)) (blz_st pre ?rest gap1 out1 post)" by (simp only: gap1(3) bindR.simps)
  also have "\<dots> = Ok (pre @ out' @ post)"
    by (rule Cons.IH) (use ts(2) gap1 wf(3) small in simp_all)
  finally show ?case by simp
qed

section \<open>A compressed section\<close>

text \<open>The section as it lies in memory: the chunks, their bytes in reverse order, padding, and the three numbers.\<close>

definition blz_header :: "blz_tok list list \<Rightarrow> bytes \<Rightarrow> nat \<Rightarrow> bytes" where
  "blz_header tss pad addl =
     (let hdr = length pad + 12; cmp = length (concat (map enc_chunk tss)) + hdr
      in pad @ le_bytes 4 (of_nat cmp :: u32) @ le_bytes 4 (of_nat hdr :: u32) @ le_bytes 4 (of_nat addl :: u32))"

definition blz_compressed :: "blz_tok list list \<Rightarrow> bytes \<Rightarrow> nat \<Rightarrow> bytes" where
  "blz_compressed tss pad addl = rev (concat (map enc_chunk tss)) @ blz_header tss pad addl"

lemma length_blz_header: "length (blz_header tss pad addl) = length pad + 12"
  by (simp add: blz_header_def Let_def)

lemma read32le_append: "length a = i \<Longrightarrow> read32le (a @ le_bytes 4 v @ r) i = v"
  by (simp add: read32le_def bslice_def)

lemma blz_uncompress_value:
  assumes "chunks_run tss (length pad + 12 + length junk, []) = Some (0, out)" "wf_chunks tss"
    and "length pre + length (blz_compressed tss pad (length junk)) + length junk + length post < 2 ^ 32"
  shows "kip1_blz_uncompress (length pre + length (blz_compressed tss pad (length junk))) (pre @ blz_compressed tss pad (length junk) @ junk @ post) =
    Ok (pre @ out @ post)"
proof -
  let ?R = "concat (map enc_chunk tss)"
  define hdr cmp where "hdr = length pad + 12" and "cmp = length ?R + hdr"
  let ?e = "length pre + cmp"
  let ?buf = "pre @ blz_compressed tss pad (length junk) @ junk @ post"
  have len: "length (blz_compressed tss pad (length junk)) = cmp" by (simp add: blz_compressed_def length_blz_header cmp_def hdr_def)
  have small: "length pre + cmp + length junk + length post < 2 ^ 32" using assms(3) by (simp add: len)
  have parts: "?buf = (pre @ rev ?R @ pad) @ le_bytes 4 (of_nat cmp :: u32) @ le_bytes 4 (of_nat hdr :: u32) @ le_bytes 4 (of_nat (length junk) :: u32) @ junk @ post"
    by (simp add: blz_compressed_def blz_header_def Let_def cmp_def hdr_def)
  have rd: "read32le ?buf (?e - 12) = of_nat cmp" "read32le ?buf (?e - 8) = of_nat hdr" "read32le ?buf (?e - 4) = of_nat (length junk)"
  proof -
    show "read32le ?buf (?e - 12) = of_nat cmp" unfolding parts by (rule read32le_append) (simp add: cmp_def hdr_def)
    show "read32le ?buf (?e - 8) = of_nat hdr"
      unfolding parts append_assoc [of "pre @ rev ?R @ pad", symmetric] by (rule read32le_append) (simp add: cmp_def hdr_def)
    show "read32le ?buf (?e - 4) = of_nat (length junk)"
      unfolding parts append_assoc [of "pre @ rev ?R @ pad", symmetric] append_assoc [of "(pre @ rev ?R @ pad) @ _", symmetric]
      by (rule read32le_append) (simp add: cmp_def hdr_def)
  qed
  have start: "int ?e - uint (of_nat cmp :: u32) = int (length pre)"
    using small by (simp add: uint_nat unat_of_nat_small)
  let ?gap = "blz_header tss pad (length junk) @ junk"
  have st: "(?buf, of_nat cmp - of_nat hdr, of_nat cmp + of_nat (length junk)) = blz_st pre ?R ?gap [] post"
    by (simp add: blz_st_def blz_compressed_def length_blz_header cmp_def hdr_def)
  have "blz_loop (int (length pre)) (blz_st pre ?R ?gap [] post) = Ok (pre @ out @ post)"
    by (rule blz_loop_run) (use assms small in \<open>simp_all add: length_blz_header cmp_def hdr_def\<close>)
  moreover have "\<not> (?e < 12 \<or> length ?buf < ?e)" by (simp add: len) (simp add: cmp_def hdr_def)
  ultimately show ?thesis
    unfolding len kip1_blz_uncompress_def Let_def rd start st by simp
qed

end
