(* ===== verification/KIP1_Facts.thy ===== *)
theory KIP1_Facts
  imports BLZ_Facts INI1_Facts
begin

text \<open>
  What the decompression of a process image gives: the header in memory and its fields, and an image whose sections are those that
  the stored ones stand for.
\<close>

section \<open>The header in memory\<close>

definition wf_header :: "kip1_header \<Rightarrow> bool" where
  "wf_header h \<longleftrightarrow> length (kip_name h) = 0xC \<and> length (section_headers h) = 6 \<and> length (capabilities h) = 0x20"

lemma length_concat_fixed: "(\<And>x. length (f x) = n) \<Longrightarrow> length (concat (map f xs)) = n * length xs"
  by (induction xs) auto

lemma bslice_concat_fixed:
  assumes "\<And>x. length (f x) = n" "i < length xs"
  shows "bslice (concat (map f xs) @ r) (n * i) n = f (xs ! i)"
  using assms(2)
proof (induction xs arbitrary: i)
  case (Cons x xs)
  then show ?case by (cases i) (auto simp: bslice_def assms(1))
qed simp

lemma length_kip_section_header_bytes [simp]: "length (kip_section_header_bytes s) = 0x10"
  by (simp add: kip_section_header_bytes_def)

lemma kip_section_header_round_trip: "kip_section_header_of (kip_section_header_bytes s) = s"
  by (simp add: kip_section_header_of_def kip_section_header_bytes_def read32le_def bslice_def)

lemma bslice_at: "length a = k \<Longrightarrow> bslice (a @ b) (k + i) n = bslice b i n"
  by (simp add: bslice_def)

lemma length_kip1_header_bytes:
  assumes "wf_header h"
  shows "length (kip1_header_bytes h) = 0x100"
proof -
  have "length (concat (map kip_section_header_bytes (section_headers h))) = 0x60" "length (concat (map (le_bytes 4) (capabilities h))) = 0x80"
    using assms length_concat_fixed [of kip_section_header_bytes "0x10" "section_headers h"] length_concat_fixed [of "le_bytes 4" 4 "capabilities h"]
    by (simp_all add: wf_header_def)
  then show ?thesis using assms by (simp add: kip1_header_bytes_def wf_header_def)
qed

lemma kip1_header_round_trip:
  assumes "wf_header h"
  shows "kip1_header_of (kip1_header_bytes h @ r) = h"
proof -
  define a where "a = le_bytes 4 (kip_magic h) @ kip_name h @ le_bytes 8 (title_id h) @ le_bytes 4 (process_category h)
     @ [main_thread_priority h, default_core h, kip_0x1E h, kip_flags h]"
  define b where "b = concat (map kip_section_header_bytes (section_headers h))"
  define c where "c = concat (map (le_bytes 4) (capabilities h))"
  have e: "kip1_header_bytes h @ r = a @ b @ c @ r" by (simp add: kip1_header_bytes_def a_def b_def c_def)
  have wf: "length (kip_name h) = 0xC" "length (section_headers h) = 6" "length (capabilities h) = 0x20" using assms by (simp_all add: wf_header_def)
  have len: "length a = 0x20" "length b = 0x60"
    using wf length_concat_fixed [of kip_section_header_bytes "0x10" "section_headers h"] by (simp_all add: a_def b_def)
  have sec: "bslice (a @ b @ c @ r) (0x20 + 0x10 * i) 0x10 = kip_section_header_bytes (section_headers h ! i)" if "i < 6" for i
    using bslice_at [OF len(1), of "b @ c @ r" "0x10 * i" "0x10"] bslice_concat_fixed [of kip_section_header_bytes "0x10" i "section_headers h" "c @ r"] that wf
    by (simp add: b_def)
  have cap: "bslice (a @ b @ c @ r) (0x80 + 4 * i) 4 = le_bytes 4 (capabilities h ! i)" if "i < 0x20" for i
  proof -
    have "bslice ((a @ b) @ c @ r) (0x80 + 4 * i) 4 = bslice (c @ r) (4 * i) 4" by (rule bslice_at) (simp add: len)
    then show ?thesis using bslice_concat_fixed [of "le_bytes 4" 4 i "capabilities h" r] that wf by (simp add: c_def)
  qed
  have secs: "map (\<lambda>i. kip_section_header_of (bslice (a @ b @ c @ r) (0x20 + 0x10 * i) 0x10)) [0..<6] = section_headers h"
    using wf by (intro nth_equalityI) (simp_all add: sec kip_section_header_round_trip)
  have caps: "map (\<lambda>i. read32le (a @ b @ c @ r) (0x80 + 4 * i)) [0..<0x20] = capabilities h"
    using wf by (intro nth_equalityI) (simp_all add: read32le_def cap)
  show ?thesis
    unfolding kip1_header_of_def e secs caps using wf
    by (simp add: a_def read32le_def read64le_def bslice_def nth_append)
qed

section \<open>Sections\<close>

text \<open>A section as it is stored, raw or compressed, and what it stands for; \<open>addl\<close> bytes more than are stored.\<close>

datatype kip_sec = Raw bytes | Compressed "blz_tok list list" bytes nat bytes

fun sec_stored :: "kip_sec \<Rightarrow> bytes" where
  "sec_stored (Raw bs) = bs"
| "sec_stored (Compressed tss pad addl out) = blz_compressed tss pad addl"

fun sec_out :: "kip_sec \<Rightarrow> bytes" where
  "sec_out (Raw bs) = bs"
| "sec_out (Compressed tss pad addl out) = out"

fun sec_compressed :: "kip_sec \<Rightarrow> bool" where
  "sec_compressed (Raw bs) = False"
| "sec_compressed (Compressed tss pad addl out) = True"

fun sec_ok :: "kip_sec \<Rightarrow> bool" where
  "sec_ok (Raw bs) = True"
| "sec_ok (Compressed tss pad addl out) \<longleftrightarrow>
     wf_chunks tss \<and> chunks_run tss (length pad + 12 + addl, []) = Some (0, out) \<and> length out = length (blz_compressed tss pad addl) + addl"

text \<open>The header describes the section: its two sizes and its flag.\<close>

definition describes :: "kip1_header \<Rightarrow> nat \<Rightarrow> kip_sec \<Rightarrow> bool" where
  "describes h i s \<longleftrightarrow>
     compressed_size (section_headers h ! i) = of_nat (length (sec_stored s)) \<and> out_size (section_headers h ! i) = of_nat (length (sec_out s))
     \<and> (bit (kip_flags h) i \<longleftrightarrow> sec_compressed s)"

lemma sec_stored_le: "sec_ok s \<Longrightarrow> length (sec_stored s) \<le> length (sec_out s)"
  by (cases s) auto

lemma blit_zeros:
  assumes "length d \<le> n" "length pre = k"
  shows "blit (pre @ replicate n x) k d = pre @ d @ replicate (n - length d) x"
  using assms by (simp add: blit_def)

lemma uncompress_section_value:
  assumes s: "sec_ok s" "describes h i s"
    and kip: "bslice kip (unat old) (length (sec_stored s)) = sec_stored s" "unat old + length (sec_stored s) \<le> length kip"
    and new: "length pre = unat new" and z: "length (sec_out s) \<le> z" "length pre + z < 2 ^ 32"
  shows "uncompress_section h kip i (pre @ replicate z 0, new, old) =
    Ok (pre @ sec_out s @ replicate (z - length (sec_out s)) 0, new + of_nat (length (sec_out s)), old + of_nat (length (sec_stored s)))"
proof -
  have le: "length (sec_stored s) \<le> z" using sec_stored_le [OF s(1)] z by simp
  then have u: "unat (of_nat (length (sec_stored s)) :: u32) = length (sec_stored s)" using z by (intro unat_of_nat_small) simp
  let ?z = "z - length (sec_stored s)"
  have copy: "memcpy_at (pre @ replicate z 0) (unat new) kip (unat old) (length (sec_stored s)) = Ok (pre @ sec_stored s @ replicate ?z 0)"
    using le kip new by (simp add: memcpy_at_def blit_zeros)
  have "(if bit (kip_flags h) i then kip1_blz_uncompress (unat new + length (sec_stored s)) (pre @ sec_stored s @ replicate ?z 0)
      else Ok (pre @ sec_stored s @ replicate ?z 0)) = Ok (pre @ sec_out s @ replicate (z - length (sec_out s)) 0)"
  proof (cases s)
    case (Raw bs)
    then show ?thesis using s(2) by (simp add: describes_def)
  next
    case (Compressed tss pad addl out)
    have split: "replicate ?z (0 :: u8) = replicate addl 0 @ replicate (z - length out) 0"
      using s(1) z(1) by (simp add: Compressed replicate_add [symmetric])
    have "kip1_blz_uncompress (length pre + length (blz_compressed tss pad addl))
        (pre @ blz_compressed tss pad addl @ replicate addl 0 @ replicate (z - length out) 0) = Ok (pre @ out @ replicate (z - length out) 0)"
      using blz_uncompress_value [of tss pad "replicate addl 0" out pre "replicate (z - length out) 0"] s(1) z by (simp add: Compressed)
    then show ?thesis using s(2) new split by (simp add: Compressed describes_def)
  qed
  then show ?thesis
    using s(2) copy unfolding uncompress_section_def describes_def by (auto simp: Let_def u split: if_split_asm)
qed

section \<open>The image\<close>

lemma uncompressed_header_facts:
  assumes "wf_header h"
  shows "wf_header (uncompressed_header h)"
    "i < 3 \<Longrightarrow> compressed_size (section_headers (uncompressed_header h) ! i) = out_size (section_headers h ! i)"
  using assms by (simp_all add: uncompressed_header_def wf_header_def Let_def)

lemma kip1_uncompress_value:
  assumes h: "wf_header h" and s: "sec_ok a" "sec_ok b" "sec_ok c" "describes h 0 a" "describes h 1 b" "describes h 2 c"
    and fits: "0x100 + length (sec_out a) + length (sec_out b) + length (sec_out c) < 2 ^ 32"
    and alloc: "al (of_nat (0x100 + length (sec_out a) + length (sec_out b) + length (sec_out c)))"
  shows "kip1_uncompress al (kip1_header_bytes h @ sec_stored a @ sec_stored b @ sec_stored c @ r) =
    Ok (Some (kip1_header_bytes (uncompressed_header h) @ sec_out a @ sec_out b @ sec_out c))"
proof -
  let ?kip = "kip1_header_bytes h @ sec_stored a @ sec_stored b @ sec_stored c @ r"
  let ?H = "kip1_header_bytes (uncompressed_header h)"
  define N where "N = 0x100 + length (sec_out a) + length (sec_out b) + length (sec_out c)"
  note le = sec_stored_le [OF s(1)] sec_stored_le [OF s(2)] sec_stored_le [OF s(3)]
  have H: "length ?H = 0x100" by (rule length_kip1_header_bytes [OF uncompressed_header_facts(1) [OF h]])
  have K: "length (kip1_header_bytes h) = 0x100" by (rule length_kip1_header_bytes [OF h])
  have hd: "kip1_header_of ?kip = h" by (rule kip1_header_round_trip [OF h])
  have size: "kip1_get_size_from_header (uncompressed_header h) = of_nat N"
    using s(4-6) uncompressed_header_facts(2) [OF h] by (simp add: kip1_get_size_from_header_def describes_def N_def)
  have uN: "unat (of_nat N :: u32) = N" using fits by (intro unat_of_nat_small) (simp add: N_def)
  have go: "\<not> (of_nat N :: u32) < 0x100" "al (of_nat N)" using uN alloc by (simp_all add: word_less_nat_alt N_def)
  let ?o1 = "0x100 + of_nat (length (sec_stored a)) :: u32" and ?o2 = "0x100 + of_nat (length (sec_stored a)) + of_nat (length (sec_stored b)) :: u32"
  let ?n1 = "0x100 + of_nat (length (sec_out a)) :: u32" and ?n2 = "0x100 + of_nat (length (sec_out a)) + of_nat (length (sec_out b)) :: u32"
  have uo: "unat ?o1 = 0x100 + length (sec_stored a)" "unat ?o2 = 0x100 + length (sec_stored a) + length (sec_stored b)"
      "unat ?n1 = 0x100 + length (sec_out a)" "unat ?n2 = 0x100 + length (sec_out a) + length (sec_out b)"
    using fits le by (simp_all add: unat_word_ariths unat_of_nat_small)
  have s0: "uncompress_section h ?kip 0 (?H @ replicate (N - 0x100) 0, 0x100, 0x100) =
      Ok (?H @ sec_out a @ replicate (length (sec_out b) + length (sec_out c)) 0, ?n1, ?o1)"
    by (rule uncompress_section_value [OF s(1,4), of ?kip "0x100" ?H "0x100" "N - 0x100", THEN trans])
      (use H K fits in \<open>simp_all add: N_def bslice_def\<close>)
  have s1: "uncompress_section h ?kip 1 ((?H @ sec_out a) @ replicate (length (sec_out b) + length (sec_out c)) 0, ?n1, ?o1) =
      Ok ((?H @ sec_out a) @ sec_out b @ replicate (length (sec_out c)) 0, ?n2, ?o2)"
    by (rule uncompress_section_value [OF s(2,5), of ?kip ?o1 "?H @ sec_out a" ?n1 "length (sec_out b) + length (sec_out c)", THEN trans])
      (use H K fits uo in \<open>simp_all add: bslice_def\<close>)
  have s2: "\<exists>x y. uncompress_section h ?kip 2 ((?H @ sec_out a @ sec_out b) @ replicate (length (sec_out c)) 0, ?n2, ?o2) =
      Ok ((?H @ sec_out a @ sec_out b) @ sec_out c, x, y)"
    using uncompress_section_value [OF s(3,6), of ?kip ?o2 "?H @ sec_out a @ sec_out b" ?n2 "length (sec_out c)"] H K fits uo
    by (simp add: bslice_def)
  have three: "[0..<3::nat] = [0, 1, 2]" by (simp add: upt_rec)
  have init: "blit (replicate N 0) 0 ?H = ?H @ replicate (N - 0x100) 0" using H by (simp add: blit_def N_def)
  show ?thesis
    unfolding kip1_uncompress_def hd Let_def size uN init three using go K s0 s1 s2 by auto
qed

section \<open>Patched images\<close>

text \<open>An image that \<open>a\<close>, \<open>b\<close> and \<open>c\<close> are the sections of, as it is stored.\<close>

definition kip_image :: "kip1_header \<Rightarrow> kip_sec \<Rightarrow> kip_sec \<Rightarrow> kip_sec \<Rightarrow> bytes" where
  "kip_image h a b c = kip1_header_bytes h @ sec_stored a @ sec_stored b @ sec_stored c"

definition image_ok :: "kip1_header \<Rightarrow> kip_sec \<Rightarrow> kip_sec \<Rightarrow> kip_sec \<Rightarrow> bool" where
  "image_ok h a b c \<longleftrightarrow> wf_header h \<and> kip_magic h = MAGIC_KIP1 \<and> sec_ok a \<and> sec_ok b \<and> sec_ok c
     \<and> describes h 0 a \<and> describes h 1 b \<and> describes h 2 c
     \<and> 0x100 + length (sec_out a) + length (sec_out b) + length (sec_out c) < 2 ^ 32"

lemma wf_kip_header:
  assumes "take 0x100 p = kip1_header_bytes h" "wf_header h" "kip_magic h = MAGIC_KIP1"
    and "length p = 0x100 + sum_list (map (\<lambda>i. unat (compressed_size (section_headers h ! i))) [0..<3])" "length p < 2 ^ 32"
  shows "wf_kip p \<and> kip1_header_of p = h"
proof -
  have "p = kip1_header_bytes h @ drop 0x100 p" by (metis append_take_drop_id assms(1))
  then have "kip1_header_of p = h" by (metis kip1_header_round_trip assms(2))
  then show ?thesis using assms(3-5) by (simp add: wf_kip_def kip_secs_def)
qed

lemma uncompressed_image_wf:
  assumes "image_ok h a b c" "take 0x100 p = kip1_header_bytes (uncompressed_header h)"
    and "length p = 0x100 + length (sec_out a) + length (sec_out b) + length (sec_out c)"
  shows "wf_kip p \<and> kip1_header_of p = uncompressed_header h"
proof (rule wf_kip_header [OF assms(2)])
  note ok = assms(1) [unfolded image_ok_def]
  show "wf_header (uncompressed_header h)" using uncompressed_header_facts(1) ok by blast
  show "kip_magic (uncompressed_header h) = MAGIC_KIP1" using ok by (simp add: uncompressed_header_def)
  have u: "unat (of_nat (length (sec_out x)) :: u32) = length (sec_out x)" if "x \<in> {a, b, c}" for x
    using that ok by (intro unat_of_nat_small) auto
  have three: "[0..<3::nat] = [0, 1, 2]" by (simp add: upt_rec)
  show "length p = 0x100 + sum_list (map (\<lambda>i. unat (compressed_size (section_headers (uncompressed_header h) ! i))) [0..<3])"
    using uncompressed_header_facts(2) [of h] ok u assms(3) by (simp add: three describes_def)
  show "length p < 2 ^ 32" using ok assms(3) by simp
qed

lemma image_uncompressed:
  assumes "image_ok h a b c" "al (of_nat (0x100 + length (sec_out a) + length (sec_out b) + length (sec_out c)))"
  shows "kip1_uncompress al (kip_image h a b c) = Ok (Some (kip1_header_bytes (uncompressed_header h) @ sec_out a @ sec_out b @ sec_out c))"
  using kip1_uncompress_value [of h a b c al "[]"] assms by (simp add: kip_image_def image_ok_def)

end
