(* ===== verification/IPS_Facts.thy ===== *)
theory IPS_Facts
  imports IPS_Patch
begin

text \<open>
  What the patch formats mean: a list of records, each of which replaces a range of the memory, but for its protected first
  bytes. The loop of \<^verbatim>\<open>apply_ips_patch\<close> computes this from the encoding of the records.
\<close>

section \<open>Records\<close>

datatype ips_rec = Data u32 bytes | Fill u32 nat u8

fun rec_offset :: "ips_rec \<Rightarrow> nat" where
  "rec_offset (Data off bs) = unat off"
| "rec_offset (Fill off n v) = unat off"

fun rec_bytes :: "ips_rec \<Rightarrow> bytes" where
  "rec_bytes (Data off bs) = bs"
| "rec_bytes (Fill off n v) = replicate n v"

text \<open>The bytes of a record go to their place, but for those below \<open>prot\<close> and those behind the end.\<close>

definition patch_bytes :: "nat \<Rightarrow> nat \<Rightarrow> bytes \<Rightarrow> bytes \<Rightarrow> bytes" where
  "patch_bytes prot off bs mem =
     map (\<lambda>i. if off \<le> i \<and> i < off + length bs \<and> prot \<le> i then bs ! (i - off) else mem ! i) [0..<length mem]"

definition be_bytes :: "nat \<Rightarrow> u32 \<Rightarrow> bytes" where
  "be_bytes n w = rev (le_bytes n w)"

fun encode_rec :: "bool \<Rightarrow> ips_rec \<Rightarrow> bytes" where
  "encode_rec is_ips32 (Data off bs) = be_bytes (if is_ips32 then 4 else 3) off @ be_bytes 2 (of_nat (length bs)) @ bs"
| "encode_rec is_ips32 (Fill off n v) = be_bytes (if is_ips32 then 4 else 3) off @ [0, 0] @ be_bytes 2 (of_nat n) @ [v]"

text \<open>A record that the formats can express and that starts inside the memory, below its end behind the protected part.\<close>

definition rec_ok :: "bool \<Rightarrow> nat \<Rightarrow> nat \<Rightarrow> ips_rec \<Rightarrow> bool" where
  "rec_ok is_ips32 prot m r \<longleftrightarrow>
     max (rec_offset r) prot < m \<and> rec_offset r + length (rec_bytes r) < 2 ^ 32 \<and> length (rec_bytes r) < 2 ^ 16
     \<and> (case r of Data off bs \<Rightarrow> bs \<noteq> [] | Fill _ _ _ \<Rightarrow> True)
     \<and> (is_ips32 \<or> rec_offset r < 2 ^ 24)
     \<and> be_bytes (if is_ips32 then 4 else 3) (of_nat (rec_offset r)) \<noteq> (if is_ips32 then IPS32_TAIL else IPS_TAIL)"

section \<open>Reading and writing\<close>

lemma length_be_bytes [simp]: "length (be_bytes n w) = n"
  by (simp add: be_bytes_def)

lemma be_u32_bytes: "w < 2 ^ (8 * n) \<or> n = 4 \<Longrightarrow> n \<le> 4 \<Longrightarrow> be_u32 (be_bytes n w) = w"
proof -
  assume w: "w < 2 ^ (8 * n) \<or> n = 4" and n: "n \<le> 4"
  show ?thesis
  proof (cases "n = 4")
    case True
    then show ?thesis by (simp add: be_u32_def be_bytes_def)
  next
    case False
    then have "8 * n < 32" "w < 2 ^ (8 * n)" using w n by auto
    then have b: "bit w k \<Longrightarrow> k < 8 * n" for k using bit_less_exp [of w "8 * n" k] by simp
    show ?thesis
    proof (rule bit_word_eqI)
      fix k assume "k < LENGTH(32)"
      show "bit (be_u32 (be_bytes n w)) k = bit w k"
        using b [of k] \<open>k < LENGTH(32)\<close>
        by (cases "k < 8 * n")
          (auto simp: be_u32_def be_bytes_def bit_le_word nth_le_bytes bit_ucast_iff bit_drop_bit_eq less_mult_imp_div_less mult.commute)
    qed
  qed
qed

lemma fread_drop:
  assumes "drop pos c = bs @ r" "length bs = n"
  shows "fread n (c, pos) = (bs, (c, pos + n))" "drop (pos + n) c = r"
proof -
  show "fread n (c, pos) = (bs, (c, pos + n))" using assms by (simp add: fread_def bslice_def Let_def)
  have "drop (pos + n) c = drop n (drop pos c)" by (simp add: add.commute)
  then show "drop (pos + n) c = r" using assms by simp
qed

lemma clip_nat:
  assumes "unat off \<le> m" "m < 2 ^ 32" "unat off + unat sz < 2 ^ 32"
  shows "unat (clip_size (of_nat m) off sz) = min (unat sz) (m - unat off)"
proof -
  have m: "unat (of_nat m :: u32) = m" using assms(2) by (simp add: unat_of_nat_small)
  have s: "unat (off + sz) = unat off + unat sz" using assms(3) by (simp add: unat_word_ariths)
  have d: "unat (of_nat m - off) = m - unat off" using assms(1) m by (metis unat_sub word_le_nat_alt)
  show ?thesis using s m d by (auto simp: clip_size_def word_less_nat_alt min_def)
qed

lemma patch_bytes_blit:
  assumes "max off prot \<le> length mem"
  shows "patch_bytes prot off bs mem = blit mem (max off prot) (take (length mem - max off prot) (drop (max off prot - off) bs))"
proof (rule nth_equalityI)
  let ?o = "max off prot"
  have "length (take (length mem - ?o) (drop (?o - off) bs)) \<le> length mem - ?o" by simp
  then have len: "?o + length (take (length mem - ?o) (drop (?o - off) bs)) \<le> length mem" using assms by linarith
  then show "length (patch_bytes prot off bs mem) = length (blit mem ?o (take (length mem - ?o) (drop (?o - off) bs)))"
    using length_blit [OF len] by (simp add: patch_bytes_def)
  fix i assume "i < length (patch_bytes prot off bs mem)"
  then have i: "i < length mem" by (simp add: patch_bytes_def)
  have "blit mem ?o (take (length mem - ?o) (drop (?o - off) bs)) ! i =
    (if ?o \<le> i \<and> i < ?o + length (take (length mem - ?o) (drop (?o - off) bs)) then take (length mem - ?o) (drop (?o - off) bs) ! (i - ?o) else mem ! i)"
    using len i by (rule nth_blit)
  then show "patch_bytes prot off bs mem ! i = blit mem ?o (take (length mem - ?o) (drop (?o - off) bs)) ! i"
    using i by (auto simp: patch_bytes_def min_def max_def split: if_splits)
qed

lemma length_patch_bytes [simp]: "length (patch_bytes prot off bs mem) = length mem"
  by (simp add: patch_bytes_def)

lemma ips_rle_value:
  assumes "unat off \<le> length mem" "length mem < 2 ^ 32" "unat off + unat sz < 2 ^ 32"
  shows "ips_rle mem off sz v = Ok (blit mem (unat off) (replicate (min (unat sz) (length mem - unat off)) v))"
  using assms by (simp add: ips_rle_def mem_blit_def Let_def clip_nat)

lemma ips_data_value:
  assumes "unat off < length mem" "length mem < 2 ^ 32" "unat off + length bs < 2 ^ 32" "bs \<noteq> []" "drop pos c = bs @ r" "unat sz = length bs"
  shows "ips_data mem off sz (c, pos) = Ok (True, blit mem (unat off) (take (length mem - unat off) bs), (c, pos + length bs))"
proof -
  let ?n = "min (length bs) (length mem - unat off)"
  have n: "unat (clip_size (of_nat (length mem)) off sz) = ?n" using assms by (simp add: clip_nat)
  have rd: "fread ?n (c, pos) = (take ?n bs, (c, pos + ?n))"
    using fread_drop(1) [of pos c "take ?n bs" "drop ?n bs @ r" ?n] assms(5) by simp
  have lt: "sz > clip_size (of_nat (length mem)) off sz \<longleftrightarrow> ?n < length bs" using n assms(6) by (simp add: word_less_nat_alt)
  have df: "?n < length bs \<Longrightarrow> unat (sz - clip_size (of_nat (length mem)) off sz) = length bs - ?n"
    using n assms(6) lt by (metis less_imp_le unat_sub)
  have "take ?n bs = take (length mem - unat off) bs" by (simp add: min_def)
  then show ?thesis
    using assms(1,4) by (auto simp: ips_data_def n rd Let_def mem_blit_def fread_ok_def lt df fseek_def)
qed

section \<open>One record\<close>

lemma record_head:
  assumes "rec_ok is_ips32 prot m r" "drop pos c = encode_rec is_ips32 r @ z" "n = (if is_ips32 then 4 else 3)"
  obtains buf where "fread n (c, pos) = (buf, (c, pos + n))" "fread_ok n buf" "buf \<noteq> (if is_ips32 then IPS32_TAIL else IPS_TAIL)"
    "unat (be_u32 buf) = rec_offset r" "encode_rec is_ips32 r = buf @ drop n (encode_rec is_ips32 r)"
proof -
  define buf where "buf = be_bytes n (of_nat (rec_offset r))"
  have e: "encode_rec is_ips32 r = buf @ drop n (encode_rec is_ips32 r)" using assms(3) by (cases r) (simp_all add: buf_def)
  have "drop pos c = buf @ (drop n (encode_rec is_ips32 r) @ z)" using assms(2) e by (metis append.assoc)
  then have f: "fread n (c, pos) = (buf, (c, pos + n))" by (rule fread_drop) (simp add: buf_def)
  have lt: "rec_offset r < 2 ^ 32" by (cases r) (use unsigned_less [where 'b = 32 and 'a = nat] in auto)
  then have u: "unat (of_nat (rec_offset r) :: u32) = rec_offset r" by (simp add: unat_of_nat_small)
  have "be_u32 buf = of_nat (rec_offset r)"
    unfolding buf_def using assms(1,3) u by (intro be_u32_bytes) (auto simp: rec_ok_def word_less_nat_alt)
  with u have "unat (be_u32 buf) = rec_offset r" by simp
  moreover have "fread_ok n buf" "buf \<noteq> (if is_ips32 then IPS32_TAIL else IPS_TAIL)" using assms(1,3) by (auto simp: buf_def fread_ok_def rec_ok_def)
  ultimately show thesis using that f e by blast
qed

lemma ips_record_value:
  assumes ok: "rec_ok is_ips32 (unat prot) (length mem) r" and m: "length mem < 2 ^ 32" and c: "drop pos c = encode_rec is_ips32 r @ z"
  shows "ips_record is_ips32 prot mem (c, pos) =
    Ok (True, patch_bytes (unat prot) (rec_offset r) (rec_bytes r) mem, (c, pos + length (encode_rec is_ips32 r)))"
proof -
  let ?n = "if is_ips32 then 4 else 3" and ?o = "max (rec_offset r) (unat prot)"
  obtain buf where h: "fread ?n (c, pos) = (buf, (c, pos + ?n))" "fread_ok ?n buf" "buf \<noteq> (if is_ips32 then IPS32_TAIL else IPS_TAIL)"
      "unat (be_u32 buf) = rec_offset r" "encode_rec is_ips32 r = buf @ drop ?n (encode_rec is_ips32 r)"
    by (rule record_head [OF ok c refl])
  define off where "off = be_u32 buf"
  have off: "unat off = rec_offset r" using h(4) by (simp add: off_def)
  have lt: "off < prot \<longleftrightarrow> rec_offset r < unat prot" by (simp add: word_less_nat_alt off)
  have buf: "length buf = ?n" using h(2) by (simp add: fread_ok_def)
  have "drop pos c = buf @ (drop ?n (encode_rec is_ips32 r) @ z)" using c by (subst (asm) h(5)) simp
  then have c1: "drop (pos + ?n) c = drop ?n (encode_rec is_ips32 r) @ z" using buf by (rule fread_drop(2))
  have o: "?o < length mem" "rec_offset r + length (rec_bytes r) < 2 ^ 32" "length (rec_bytes r) < 2 ^ 16" using ok by (auto simp: rec_ok_def)
  have pb: "patch_bytes (unat prot) (rec_offset r) (rec_bytes r) mem = blit mem ?o (take (length mem - ?o) (drop (?o - rec_offset r) (rec_bytes r)))"
    using o(1) by (intro patch_bytes_blit) simp
  have two: "be_u32 (be_bytes 2 w) = w" if "w < 2 ^ 16" for w using that by (intro be_u32_bytes) simp_all
  have sz: "unat (of_nat k :: u32) = k" "(of_nat k :: u32) < 2 ^ 16" if "k < 2 ^ 16" for k
    using that by (simp_all add: unat_of_nat_small word_less_nat_alt)
  have gt: "off + of_nat k > prot \<longleftrightarrow> unat prot < rec_offset r + k" if "k < 2 ^ 16" "rec_offset r + k < 2 ^ 32" for k
    using that sz off by (simp add: word_less_nat_alt unat_word_ariths)
  have df: "unat (prot - off) = unat prot - rec_offset r" "unat (of_nat k - (prot - off)) = k - (unat prot - rec_offset r)"
    if "rec_offset r < unat prot" "unat prot < rec_offset r + k" "k < 2 ^ 16" for k
  proof -
    show d: "unat (prot - off) = unat prot - rec_offset r" using that(1) off by (metis lt less_imp_le unat_sub)
    have "prot - off \<le> of_nat k" using that d sz by (simp add: word_le_nat_alt)
    then show "unat (of_nat k - (prot - off)) = k - (unat prot - rec_offset r)" using d sz that(3) by (simp add: unat_sub)
  qed
  show ?thesis
  proof (cases r)
    case (Data roff bs)
    let ?k = "length bs"
    have k: "?k < 2 ^ 16" "bs \<noteq> []" "rec_offset r + ?k < 2 ^ 32" using ok o by (auto simp: Data rec_ok_def)
    have c2: "drop (pos + ?n) c = be_bytes 2 (of_nat ?k) @ (bs @ z)" using c1 by (simp add: Data)
    note f2 = fread_drop [OF c2, of 2, simplified]
    have nz: "(of_nat ?k :: u32) \<noteq> 0" using k sz by (metis length_0_conv unat_0)
    have run: "ips_record is_ips32 prot mem (c, pos) =
        (if off < prot then if off + of_nat ?k > prot
           then ips_data mem (off + (prot - off)) (of_nat ?k - (prot - off)) (fseek (prot - off) (c, pos + ?n + 2))
           else Ok (True, mem, fseek (of_nat ?k) (c, pos + ?n + 2))
         else ips_data mem off (of_nat ?k) (c, pos + ?n + 2))"
      using h(1-3) nz two [OF sz(2) [OF k(1)]] f2(1)
      by (cases is_ips32) (simp_all add: ips_record_def Let_def off_def fread_ok_def)
    show ?thesis
    proof (cases "rec_offset r < unat prot")
      case True
      show ?thesis
      proof (cases "unat prot < rec_offset r + ?k")
        case prot: True
        let ?d = "unat prot - rec_offset r"
        have "drop (pos + ?n + 2 + ?d) c = drop ?d (drop (pos + ?n + 2) c)" by (simp add: add.commute)
        also have "\<dots> = drop ?d bs @ z" using prot fread_drop(2) [OF c2, of 2] by simp
        finally have "drop (pos + ?n + 2 + ?d) c = drop ?d bs @ z" .
        then have "ips_data mem prot (of_nat ?k - (prot - off)) (c, pos + ?n + 2 + ?d) =
            Ok (True, blit mem (unat prot) (take (length mem - unat prot) (drop ?d bs)), (c, pos + ?n + 2 + ?d + length (drop ?d bs)))"
          using prot True o k df [OF True prot k(1)] m by (intro ips_data_value) auto
        then show ?thesis
          unfolding pb using run True prot lt gt [OF k(1,3)] df(1) [OF True prot k(1)] by (simp add: Data fseek_def max_def)
      next
        case False
        then show ?thesis
          unfolding pb using run True lt gt [OF k(1,3)] sz k by (simp add: Data fseek_def max_def blit_def)
      qed
    next
      case False
      have "ips_data mem off (of_nat ?k) (c, pos + ?n + 2) = Ok (True, blit mem (unat off) (take (length mem - unat off) bs), (c, pos + ?n + 2 + ?k))"
        using False o k m off sz f2(2) by (intro ips_data_value [where r = z]) auto
      then show ?thesis unfolding pb using run False lt off by (simp add: Data max_def)
    qed
  next
    case (Fill roff k v)
    have k: "k < 2 ^ 16" "rec_offset r + k < 2 ^ 32" using ok o by (auto simp: Fill rec_ok_def)
    have c2: "drop (pos + ?n) c = [0, 0] @ (be_bytes 2 (of_nat k) @ v # z)" using c1 by (simp add: Fill)
    note f2 = fread_drop [OF c2, of 2, simplified]
    note f3 = fread_drop [OF f2(2), of 2, simplified]
    have c4: "drop (pos + ?n + 2 + 2) c = [v] @ z" using f3(2) by simp
    note f4 = fread_drop [OF c4, of 1, simplified]
    have run: "ips_record is_ips32 prot mem (c, pos) =
        (if off < prot then if off + of_nat k > prot
           then bindR (ips_rle mem (off + (prot - off)) (of_nat k - (prot - off)) v) (\<lambda>mem. Ok (True, mem, (c, pos + ?n + 5)))
           else Ok (True, mem, (c, pos + ?n + 5))
         else bindR (ips_rle mem off (of_nat k) v) (\<lambda>mem. Ok (True, mem, (c, pos + ?n + 5))))"
      using h(1-3) two [OF sz(2) [OF k(1)]] f2(1) f3(1) f4(1)
      by (cases is_ips32) (simp_all add: ips_record_def Let_def off_def fread_ok_def be_u32_def)
    show ?thesis
    proof (cases "rec_offset r < unat prot")
      case True
      show ?thesis
      proof (cases "unat prot < rec_offset r + k")
        case prot: True
        then show ?thesis
          unfolding pb using run True lt gt [OF k] df [OF True prot k(1)] o m
          by (simp add: Fill ips_rle_value max_def min.commute)
      next
        case False
        then show ?thesis
          unfolding pb using run True lt gt [OF k] by (simp add: Fill max_def blit_def)
      qed
    next
      case False
      then show ?thesis unfolding pb using run lt off o m sz k by (simp add: Fill ips_rle_value max_def min.commute)
    qed
  qed
qed

section \<open>A whole patch\<close>

definition apply_recs :: "nat \<Rightarrow> ips_rec list \<Rightarrow> bytes \<Rightarrow> bytes" where
  "apply_recs prot = fold (\<lambda>r. patch_bytes prot (rec_offset r) (rec_bytes r))"

definition encode_patch :: "bool \<Rightarrow> ips_rec list \<Rightarrow> bytes" where
  "encode_patch is_ips32 recs = concat (map (encode_rec is_ips32) recs) @ (if is_ips32 then IPS32_TAIL else IPS_TAIL)"

lemma ips_tail:
  assumes "drop pos c = (if is_ips32 then IPS32_TAIL else IPS_TAIL) @ z"
  shows "\<exists>f. ips_record is_ips32 prot mem (c, pos) = Ok (False, mem, f)"
  using fread_drop(1) [OF assms, of "if is_ips32 then 4 else 3"]
  by (cases is_ips32) (simp_all add: ips_record_def Let_def fread_ok_def IPS_TAIL_def IPS32_TAIL_def)

lemma apply_ips_patch_value:
  assumes "list_all (rec_ok is_ips32 (unat prot) (length mem)) recs" "length mem < 2 ^ 32" "drop pos c = encode_patch is_ips32 recs @ z"
  shows "apply_ips_patch is_ips32 prot mem (c, pos) = Ok (apply_recs (unat prot) recs mem)"
  using assms
proof (induction recs arbitrary: mem pos)
  case Nil
  then show ?case
    using ips_tail [of pos c is_ips32 z prot mem]
    by (subst apply_ips_patch.simps) (auto simp: encode_patch_def apply_recs_def)
next
  case (Cons r recs)
  have c: "drop pos c = encode_rec is_ips32 r @ (encode_patch is_ips32 recs @ z)" using Cons.prems by (simp add: encode_patch_def)
  have ok: "rec_ok is_ips32 (unat prot) (length mem) r" using Cons.prems by simp
  note r = ips_record_value [OF ok Cons.prems(2) c] and d = fread_drop(2) [OF c refl]
  show ?case
    using Cons.IH [OF _ _ d, of "patch_bytes (unat prot) (rec_offset r) (rec_bytes r) mem"] Cons.prems
    by (subst apply_ips_patch.simps) (simp add: r apply_recs_def)
qed

end
