(* ===== verification/Fusee_Properties.thy ===== *)
theory Fusee_Properties
  imports Fusee_Package2_Facts KIP1_Facts IPS_Facts Package2_Properties
begin

text \<open>
  The properties of the second stage of the boot loader, each with a closed instance: patches, the search in the kernel and the hooks
  in it, decompression, the list of initial processes, and the package that is handed to exosphere.
\<close>

section \<open>Instances\<close>

text \<open>An image without sections for a title, and the list of some images.\<close>

definition sample_kip :: "u64 \<Rightarrow> u8 \<Rightarrow> bytes" where
  "sample_kip title core = [0x4B, 0x49, 0x50, 0x31] @ replicate 0xC 0 @ le_bytes 8 title @ [0, 0, 0, 0] @ [0x2C, core, 0, 0] @ replicate 0xE0 0"

definition sample_ini :: "bytes list \<Rightarrow> ini1_header" where
  "sample_ini kips =
     \<lparr>ini_magic = MAGIC_INI1, ini_size = of_nat (0x10 + length (concat kips)), num_processes = of_nat (length kips), ini_0xC = 0, kip_data = concat kips\<rparr>"

definition sample_fusee :: "sd_card \<Rightarrow> fusee_env" where
  "sample_fusee sd = \<lparr>fe_sd = sd, g_enable_nogc_patches = False, fe_sha256 = (\<lambda>_. replicate 0x20 7), fe_can_alloc = (\<lambda>_. True), fe_fresh = (\<lambda>_. 0)\<rparr>"


text \<open>A package header, and a kernel with the pattern of the first patch for version 1.0.0 in it and free space behind it.\<close>

definition sample_package :: bytes where
  "sample_package = replicate 0x100 0 @ sample_meta"

lemma sample_package_length: "length sample_package = 0x200"
  by (simp add: sample_package_def sample_md_fields)

lemma sample_package_meta: "pkg_meta sample_package = sample_md"
  by (simp add: pkg_meta_def meta_bytes_def sample_package_def bslice_def sample_md_fields)

definition sample_kernel :: bytes where
  "sample_kernel = replicate 0x10 0 @ g_kernel_pattern_100_proc_id_send @ replicate 0x40 0"

lemma sample_kernel_length: "length sample_kernel = 0x60"
  by (simp add: sample_kernel_def g_kernel_pattern_100_proc_id_send_def)

lemma sample_kernel_search: "search_pattern sample_kernel (kp_pattern (g_kernel_patches_100 ! 0)) = Ok (Some 0x10)"
proof -
  let ?p = "g_kernel_pattern_100_proc_id_send"
  have p: "kp_pattern (g_kernel_patches_100 ! 0) = ?p" "length ?p = 0x10" "?p ! 0 = 0x48" "?p \<noteq> []"
    by (simp_all add: g_kernel_patches_100_def g_kernel_pattern_100_proc_id_send_def)
  have "\<not> occurs_at sample_kernel ?p j" if "j < 0x10" for j
    using that occurs_nth [of sample_kernel ?p j 0] p by (auto simp: sample_kernel_def nth_append)
  moreover have "occurs_at sample_kernel ?p 0x10" by (simp add: occurs_at_def sample_kernel_def bslice_def p)
  ultimately have "List.find (occurs_at sample_kernel ?p) [0..<0x51] = Some 0x10"
    by (auto simp: find_Some_iff intro!: exI [of _ "0x10"])
  then show ?thesis
    using search_from_correct [OF p(4), of sample_kernel 0] by (simp add: search_pattern_def sample_kernel_length p)
qed


lemma sample_kip_facts: "length (sample_kip t c) = 0x100" "kip_title (sample_kip t c) = t" "wf_kip (sample_kip t c)"
proof -
  have zeros: "drop 0x20 (sample_kip t c) = replicate 0xE0 0" "drop 0x10 (sample_kip t c) = le_bytes 8 t @ [0, 0, 0, 0, 0x2C, c, 0, 0] @ replicate 0xE0 0"
    by (simp_all add: sample_kip_def)
  show len: "length (sample_kip t c) = 0x100" by (simp add: sample_kip_def)
  show "kip_title (sample_kip t c) = t"
    by (simp add: kip_title_def kip1_header_of_def read64le_def bslice_def zeros)
  have "le_word [0x4B, 0x49, 0x50, 0x31] = (0x3150494B :: u32)" by code_simp
  then have magic: "kip_magic (kip1_header_of (sample_kip t c)) = MAGIC_KIP1"
    by (simp add: kip1_header_of_def read32le_def bslice_def sample_kip_def)
  have "compressed_size (section_headers (kip1_header_of (sample_kip t c)) ! i) = 0" if "i < 3" for i
  proof -
    have "bslice (sample_kip t c) (0x20 + 0x10 * i) 0x10 = take 0x10 (drop (0x10 * i) (drop 0x20 (sample_kip t c)))"
      by (simp add: bslice_def add.commute)
    also have "\<dots> = replicate 0x10 0" using that by (simp add: zeros min_def)
    finally have "bslice (sample_kip t c) (0x20 + 0x10 * i) 0x10 = replicate 0x10 0" .
    moreover have "le_word (replicate 4 (0 :: u8)) = (0 :: u32)" by code_simp
    ultimately show ?thesis using that by (simp add: kip1_header_of_def kip_section_header_of_def read32le_def bslice_def min_def)
  qed
  then show "wf_kip (sample_kip t c)"
    using magic by (simp add: wf_kip_def kip_secs_def len upt_rec)
qed

lemma sample_merge:
  "\<exists>ini st'. stratosphere_merge_inis (sample_fusee Map.empty) [Some (sample_ini [sample_kip 3 1])] None initial_ini_state = Ok (ini, st')"
proof -
  let ?e = "sample_fusee Map.empty" and ?k = "sample_kip 3 1"
  have "ini_holds (sample_ini [?k]) [?k]" by (simp add: ini_holds_def sample_ini_def sample_kip_facts)
  then have m: "stratosphere_merge_inis ?e [Some (sample_ini [?k])] None initial_ini_state =
      bindR (foldR (load_kip ?e None) [?k] ([], [], 0x7FBFF0, 0)) (merged_ini initial_ini_state)"
    using stratosphere_merge_first [of "[sample_ini [?k]]" "[[?k]]" ?e None initial_ini_state]
    by (simp add: sample_kip_facts sample_fusee_def initial_ini_state_def)
  have sz: "kip1_get_size_from_header (kip1_header_of ?k) = 0x100"
    using wf_kip_size [OF sample_kip_facts(3), of 3 1] by (simp add: sample_kip_facts word_unat_eq_iff)
  have "apply_kip_ips_patches ?e ?k 0x100 0 = Ok (None, 0)"
    using sample_kip_facts(2) [of 3 1]
    by (simp add: apply_kip_ips_patches_def sample_kip_facts(1) kip_title_def sample_fusee_def has_needed_default_kip_patches_def has_ips_patches_def
        patch_files_def opendir_def Let_def)
  then have "load_kip ?e None ?k ([], [], 0x7FBFF0, 0) = Ok ([3], ?k, 0x7FBEF0, 0)"
    using sample_kip_facts(2) [of 3 1] by (simp add: load_kip_def append_kip_def sz kip_title_def sample_kip_facts(1) Let_def)
  with m show ?thesis by (simp add: merged_ini_def Let_def)
qed

section \<open>Sizes\<close>

definition merged_size :: "bytes \<Rightarrow> u32" where
  "merged_size dst = (let sz = 0x10 + of_nat (length dst) in if sz AND 3 \<noteq> 0 then (sz + 3) AND NOT 3 else sz)"

lemma unat_and_not_3: "unat (w AND NOT 3) = unat w div 4 * 4" for w :: u32
proof -
  have "w AND NOT (mask 2) = push_bit 2 (drop_bit 2 w)"
  proof (rule bit_word_eqI)
    fix n assume "n < LENGTH(32)"
    then show "bit (w AND NOT (mask 2)) n = bit (push_bit 2 (drop_bit 2 w)) n"
      unfolding bit_and_iff bit_not_iff bit_mask_iff bit_push_bit_iff bit_drop_bit_eq comp_apply
      by (cases "2 \<le> n") (simp_all del: add_2_eq_Suc)
  qed
  moreover have "mask 2 = (3 :: u32)" by (simp add: mask_eq_exp_minus_1)
  moreover have "unat w div 4 * 4 < 2 ^ 32" using unsigned_less [of w, where 'a = nat] by simp
  ultimately show ?thesis by (simp add: push_bit_eq_mult drop_bit_eq_div unat_word_ariths unat_div)
qed

lemma merged_size_fits:
  assumes "length dst \<le> 0x7FBFF0"
  shows "unat (merged_size dst) \<le> 0x7FC000 \<and> 0x10 + length dst \<le> unat (merged_size dst) \<and> 4 dvd unat (merged_size dst)"
proof -
  define w :: u32 where "w = 0x10 + of_nat (length dst)"
  have w: "unat w = 0x10 + length dst" using assms by (simp add: w_def unat_word_ariths unat_of_nat_small)
  have "unat (w + 3) = unat w + 3" using assms w by (simp add: unat_word_ariths)
  then have "unat ((w + 3) AND NOT 3) = (unat w + 3) div 4 * 4" by (simp only: unat_and_not_3)
  moreover have "(unat w + 3) div 4 * 4 \<le> 0x7FC000" using div_le_mono [of "unat w + 3" "0x7FC003" 4] assms w by simp
  moreover have "unat w \<le> (unat w + 3) div 4 * 4" using div_mult_mod_eq [of "unat w + 3" 4] mod_less_divisor [of 4 "unat w + 3"] by linarith
  ultimately show ?thesis
    using assms w by (simp add: merged_size_def w_def [symmetric] Let_def and_3_dvd)
qed




text \<open>An image with a compressed section, and a card with a patch for it.\<close>

definition sample_sec :: kip_sec where
  "sample_sec = Compressed [[Lit 1, Lit 2, Lit 3, Seg 3 3, Seg 6 6, Seg 10 10]] [] 0 [3, 2, 1, 3, 2, 1, 3, 2, 1, 3, 3, 2, 1, 3, 2, 1, 3, 2, 1, 3, 2, 1]"

definition sample_header :: kip1_header where
  "sample_header = \<lparr>kip_magic = MAGIC_KIP1, kip_name = replicate 0xC 0x41, title_id = 3, process_category = 0, main_thread_priority = 0x2C,
     default_core = 0, kip_0x1E = 0, kip_flags = 2,
     section_headers = [\<lparr>out_offset = 0, out_size = 2, compressed_size = 2, sec_attribute = 0\<rparr>,
       \<lparr>out_offset = 0x1000, out_size = 22, compressed_size = 22, sec_attribute = 0\<rparr>] @ replicate 4 \<lparr>out_offset = 0x2000, out_size = 0, compressed_size = 0, sec_attribute = 0\<rparr>,
     capabilities = replicate 0x20 0xFFFFFFFF\<rparr>"

lemma sample_image_ok: "image_ok sample_header (Raw [5, 6]) sample_sec (Raw [])"
proof -
  have len: "length (blz_compressed [[Lit 1, Lit 2, Lit 3, Seg 3 3, Seg 6 6, Seg 10 10]] [] 0) = 22"
    by (simp add: blz_compressed_def length_blz_header enc_chunk_def)
  have run: "chunks_run [[Lit 1, Lit 2, Lit 3, Seg 3 3, Seg 6 6, Seg 10 10]] (length [] + 12 + 0, []) =
      Some (0, [3, 2, 1, 3, 2, 1, 3, 2, 1, 3, 3, 2, 1, 3, 2, 1, 3, 2, 1, 3, 2, 1])" by code_simp
  have bits: "\<not> bit (2 :: u8) 0" "bit (2 :: u8) 1" "\<not> bit (2 :: u8) 2" by code_simp+
  show ?thesis
    using len run bits by (simp add: image_ok_def sample_sec_def sample_header_def wf_header_def describes_def)
qed


lemma apply_patch_file_value:
  assumes "list_all (rec_ok is_ips32 (unat prot) (length mem)) recs" "length mem < 2 ^ 32"
  shows "apply_patch_file prot ((if is_ips32 then IPS32_MAGIC else IPS_MAGIC) @ encode_patch is_ips32 recs, 0) mem =
    Ok (apply_recs (unat prot) recs mem)"
proof -
  let ?c = "(if is_ips32 then IPS32_MAGIC else IPS_MAGIC) @ encode_patch is_ips32 recs"
  have "apply_ips_patch is_ips32 prot mem (?c, 5) = Ok (apply_recs (unat prot) recs mem)"
    by (rule apply_ips_patch_value [OF assms, of 5 ?c "[]"]) (simp add: IPS32_MAGIC_def IPS_MAGIC_def)
  then show ?thesis
    by (cases is_ips32) (simp_all add: apply_patch_file_def fread_def fread_ok_def bslice_def IPS32_MAGIC_def IPS_MAGIC_def eval_nat_numeral)
qed

lemma sample_records:
  "list_all (rec_ok False (unat (2 :: u32)) (length [0 :: u8, 1, 2, 3, 4, 5])) [Fill 1 4 9, Data 4 [5, 6, 7]]"
  "apply_recs (unat (2 :: u32)) [Fill 1 4 9, Data 4 [5, 6, 7]] [0, 1, 2, 3, 4, 5] = [0, 1, 9, 9, 5, 6]"
proof -
  have "be_bytes 3 1 = [0, 0, 1]" "be_bytes 3 4 = [0, 0, 4]" by code_simp+
  then show "list_all (rec_ok False (unat (2 :: u32)) (length [0 :: u8, 1, 2, 3, 4, 5])) [Fill 1 4 9, Data 4 [5, 6, 7]]"
    by (simp add: rec_ok_def IPS_TAIL_def)
  show "apply_recs (unat (2 :: u32)) [Fill 1 4 9, Data 4 [5, 6, 7]] [0, 1, 2, 3, 4, 5] = [0, 1, 9, 9, 5, 6]"
    by code_simp
qed



section \<open>The package for exosphere\<close>

text \<open>C27. The rebuilt package, whose sections fit where the header puts them, is accepted: its header describes the sections in it, so
  that exosphere's validation of the metadata and the boot loader's own, which compares the hashes, answer yes, for every
  kernel and list of processes whose sizes are multiples of four.\<close>

theorem rebuilt_package_accepted:
  assumes p: "0x200 \<le> length p" and al: "4 dvd length kern" "4 dvd length ini"
    and fits: "0x200 + length kern + length ini \<le> 0x7FC000" "fe_can_alloc e (of_nat (0x200 + length kern + length ini))"
    and lay: "layout_ok (pkg_meta p) (length kern) (length ini)"
    and orig: "pk_magic (pkg_meta p) = MAGIC_PK21" "unat (package2_meta_get_header_version (pkg_meta p)) \<le> 10"
      "entrypoint (pkg_meta p) AND 3 = 0" "version_min (pkg_meta p) < 0xC"
    and sha: "\<And>x. length (fe_sha256 e x) = 0x20" and eng: "se_engine_ok P eng"
  shows "\<exists>rebuilt. build_package2 e p kern ini [] = Ok rebuilt
    \<and> take 0x100 rebuilt = take 0x100 p \<and> drop 0x200 rebuilt = kern @ ini
    \<and> package2_validate_metadata (fe_sha256 e) (pkg_meta rebuilt) (drop 0x200 rebuilt) = Ok True
    \<and> (\<exists>se'. validate_package2_metadata eng mem (pkg_meta rebuilt) se = Ok (True, se'))"
proof -
  let ?h = "take 0x200 p"
  have h: "length ?h = 0x200" "pkg_meta ?h = pkg_meta p"
    using p pkg_meta_prefix [of ?h "drop 0x200 p"] by simp_all
  let ?b = "built_header (fe_sha256 e) ?h kern ini"
  note meta = built_meta [where sha = "fe_sha256 e", OF h(1) fits(1) sha]
  have "package2_validate_metadata (fe_sha256 e) (pkg_meta ?b) (kern @ ini) = Ok True"
    by (rule boot_loader.accepts_built [OF h(1) fits(1) sha al]) (use lay orig in \<open>simp_all add: h(2)\<close>)
  moreover have "\<forall>P eng mem se. se_engine_ok P eng \<longrightarrow> (\<exists>se'. validate_package2_metadata eng mem (pkg_meta ?b) se = Ok (True, se'))"
    by (rule monitor.accepts_built [OF h(1) fits(1) sha al]) (use lay orig in \<open>simp_all add: h(2)\<close>)
  moreover have "pkg_meta (?b @ kern @ ini) = pkg_meta ?b" by (rule pkg_meta_prefix) (rule meta(4))
  moreover have "drop 0x200 (?b @ kern @ ini) = kern @ ini" "take 0x100 (?b @ kern @ ini) = take 0x100 p"
    using meta(4,5) p by (simp_all add: min_def)
  ultimately show ?thesis using build_package2_value [OF p al fits sha] eng by auto
qed

theorem rebuilt_package_accepted_witness:
  "\<exists>rebuilt. build_package2 (sample_fusee Map.empty) sample_package (replicate 4 1) (replicate 0x10 9) [] = Ok rebuilt
    \<and> drop 0x200 rebuilt = replicate 4 1 @ replicate 0x10 9
    \<and> (\<exists>se'. validate_package2_metadata sample_engine (\<lambda>_. 0xFF) (pkg_meta rebuilt) sample_se = Ok (True, se'))"
proof -
  let ?e = "sample_fusee Map.empty"
  have "length (fe_sha256 ?e x) = 0x20" for x by (simp add: sample_fusee_def)
  moreover have "layout_ok (pkg_meta sample_package) (length (replicate 4 (1 :: u8))) (length (replicate 0x10 (9 :: u8)))"
    by (simp add: layout_ok_def sample_package_meta sample_md_fields)
  ultimately show ?thesis
    using rebuilt_package_accepted [of sample_package "replicate 4 1" "replicate 0x10 9" ?e sample_prims sample_engine "\<lambda>_. 0xFF" sample_se]
      sample_engine_ok
    by (auto simp: sample_package_meta sample_md_fields sample_package_length sample_fusee_def package2_meta_get_header_version_def)
qed

section \<open>The initial processes\<close>

text \<open>C28. Merging lists of processes takes the first image of each title in the order of the lists, and only those: the merge of
  lists that hold well-formed images is the loading, one after the other, of the images whose title no earlier one has.\<close>

theorem merge_takes_first_of_titles:
  assumes "list_all2 ini_holds inis kss" "\<forall>k \<in> set (concat kss). wf_kip k" "length (concat kss) \<le> 0x50" "fe_can_alloc e 0x7FC000"
  shows "stratosphere_merge_inis e (map Some inis) emummc st =
      bindR (foldR (load_kip e emummc) (first_of_titles [] (concat kss)) ([], [], 0x7FBFF0, g_fs_ver st)) (merged_ini st)
    \<and> distinct (map kip_title (first_of_titles [] (concat kss)))
    \<and> set (map kip_title (first_of_titles [] (concat kss))) = kip_title ` set (concat kss)"
  using stratosphere_merge_first [OF assms] first_of_titles_distinct [of "[]" "concat kss"] by simp

theorem merge_takes_first_of_titles_witness:
  "stratosphere_merge_inis (sample_fusee Map.empty) [Some (sample_ini [sample_kip 3 1]), Some (sample_ini [sample_kip 2 0, sample_kip 3 0])] None
      initial_ini_state =
    bindR (foldR (load_kip (sample_fusee Map.empty) None) [sample_kip 3 1, sample_kip 2 0] ([], [], 0x7FBFF0, 0)) (merged_ini initial_ini_state)"
proof -
  have "list_all2 ini_holds [sample_ini [sample_kip 3 1], sample_ini [sample_kip 2 0, sample_kip 3 0]] [[sample_kip 3 1], [sample_kip 2 0, sample_kip 3 0]]"
    by (simp add: ini_holds_def sample_ini_def sample_kip_facts)
  moreover have "first_of_titles [] [sample_kip 3 1, sample_kip 2 0, sample_kip 3 0] = [sample_kip 3 1, sample_kip 2 0]"
    by (simp add: sample_kip_facts)
  ultimately show ?thesis
    using merge_takes_first_of_titles [of "[sample_ini [sample_kip 3 1], sample_ini [sample_kip 2 0, sample_kip 3 0]]"
        "[[sample_kip 3 1], [sample_kip 2 0, sample_kip 3 0]]" "sample_fusee Map.empty" None initial_ini_state]
    by (simp add: sample_kip_facts sample_fusee_def initial_ini_state_def)
qed

text \<open>C35. The merged list fits the buffer of package2: its announced size is a multiple of four, covers the images in it and is at
  most \<^verbatim>\<open>PACKAGE2_SIZE_MAX\<close>, for whatever lists and images are merged.\<close>

theorem merged_list_fits:
  assumes "stratosphere_merge_inis e inis emummc st = Ok (ini, st')"
  shows "unat (ini_size ini) \<le> 0x7FC000 \<and> 0x10 + length (kip_data ini) \<le> unat (ini_size ini) \<and> 4 dvd unat (ini_size ini)"
proof -
  obtain ps dst rem v where m: "foldR (merge_ini e emummc) inis ([], [], 0x7FBFF0, g_fs_ver st) = Ok (ps, dst, rem, v)"
      "kip_data ini = dst" "ini_size ini = merged_size dst"
    using assms unfolding stratosphere_merge_inis_def Let_def fatal_error_def merged_size_def
    by (auto elim!: bindR_OkE split: if_split_asm)
  have "merge_fits ([], [], 0x7FBFF0, g_fs_ver st)" by (simp add: merge_fits_def)
  then have "length dst + unat rem = 0x7FBFF0" using foldR_merge_fits [OF m(1)] by (simp add: merge_fits_def)
  then have "length dst \<le> 0x7FBFF0" by linarith
  then show ?thesis unfolding m(2,3) by (rule merged_size_fits)
qed

theorem merged_list_fits_witness:
  "\<exists>ini st'. stratosphere_merge_inis (sample_fusee Map.empty) [Some (sample_ini [sample_kip 3 1])] None initial_ini_state = Ok (ini, st')
    \<and> unat (ini_size ini) \<le> 0x7FC000"
proof -
  obtain ini st' where "stratosphere_merge_inis (sample_fusee Map.empty) [Some (sample_ini [sample_kip 3 1])] None initial_ini_state = Ok (ini, st')"
    using sample_merge by blast
  with merged_list_fits [OF this] show ?thesis by blast
qed

section \<open>Decompression\<close>

text \<open>C29. Decompressing an image gives an image with the same header, but for the sizes and the flags, and with the bytes that its
  sections stand for: a section that is stored raw is copied, and for a compressed one, which is decompressed over itself, the
  bytes and the references to earlier bytes in the stream are written out.\<close>

theorem kip_uncompress_inverts:
  assumes "image_ok h a b c" "al (of_nat (0x100 + length (sec_out a) + length (sec_out b) + length (sec_out c)))"
  shows "\<exists>kip. kip1_uncompress al (kip_image h a b c) = Ok (Some kip) \<and> kip1_header_of kip = uncompressed_header h
    \<and> drop 0x100 kip = sec_out a @ sec_out b @ sec_out c \<and> length kip = unat (kip1_get_size_from_header (kip1_header_of kip))"
proof -
  let ?k = "kip1_header_bytes (uncompressed_header h) @ sec_out a @ sec_out b @ sec_out c"
  have len: "length (kip1_header_bytes (uncompressed_header h)) = 0x100"
    using assms(1) by (intro length_kip1_header_bytes uncompressed_header_facts(1)) (simp add: image_ok_def)
  then have "wf_kip ?k \<and> kip1_header_of ?k = uncompressed_header h" by (intro uncompressed_image_wf [OF assms(1)]) simp_all
  then show ?thesis using image_uncompressed [of h a b c al, OF assms] wf_kip_size [of ?k] len by auto
qed

theorem kip_uncompress_inverts_witness:
  "\<exists>kip. kip1_uncompress (\<lambda>_. True) (kip_image sample_header (Raw [5, 6]) sample_sec (Raw [])) = Ok (Some kip)
    \<and> drop 0x100 kip = [5, 6] @ [3, 2, 1, 3, 2, 1, 3, 2, 1, 3, 3, 2, 1, 3, 2, 1, 3, 2, 1, 3, 2, 1]"
  using kip_uncompress_inverts [OF sample_image_ok, of "\<lambda>_. True"] by (auto simp: sample_sec_def)



section \<open>Patches\<close>

text \<open>C33. A patch file in either format, made of records that start inside the memory, writes the bytes of its records in their order, but
  for those below the protected size and those behind the end of the memory.\<close>

theorem ips_patch_writes_records:
  assumes "list_all (rec_ok is_ips32 (unat prot) (length mem)) recs" "length mem < 2 ^ 32"
  shows "apply_patch_file prot ((if is_ips32 then IPS32_MAGIC else IPS_MAGIC) @ encode_patch is_ips32 recs, 0) mem =
    Ok (apply_recs (unat prot) recs mem)"
  using assms by (rule apply_patch_file_value)

theorem ips_patch_writes_records_witness:
  "apply_patch_file 2 (IPS_MAGIC @ encode_patch False [Fill 1 4 9, Data 4 [5, 6, 7]], 0) [0, 1, 2, 3, 4, 5] = Ok [0, 1, 9, 9, 5, 6]"
proof -
  show ?thesis using ips_patch_writes_records [OF sample_records(1)] sample_records(2) by simp
qed



text \<open>C36. A record that starts behind the end of the memory is not skipped: the difference of the sizes wraps, and the write goes
  outside the memory.\<close>

theorem ips_record_behind_end_undefined:
  assumes "length mem < unat off" "unat off + unat sz < 2 ^ 32" "unat sz \<noteq> 0"
  shows "ips_rle mem off sz v = Undef \<and> ips_data mem off sz f = Undef"
proof -
  let ?m = "of_nat (length mem) :: u32"
  have m: "unat ?m = length mem" using assms(1) unsigned_less [of off, where 'a = nat] by (intro unat_of_nat_small) simp
  have "unat (off + sz) = unat off + unat sz" using assms(2) by (subst iffD1 [OF unat_add_lem]) simp_all
  then have clip: "clip_size ?m off sz = ?m - off" using assms(1) by (simp add: clip_size_def word_less_nat_alt m)
  have "unat off + unat (?m - off) = length mem + 2 ^ 32"
    using assms(1) unsigned_less [of off, where 'a = nat] by (simp add: unat_sub_if_size m word_le_nat_alt word_size)
  then show ?thesis by (simp add: ips_rle_def ips_data_def clip mem_blit_def Let_def split: prod.split)
qed

theorem ips_record_behind_end_undefined_witness: "ips_rle [1, 2, 3] 5 2 0 = Undef \<and> ips_data [1, 2, 3] 5 2 ([8, 9], 0) = Undef"
  using ips_record_behind_end_undefined [of "[1, 2, 3]" 5 2 0 "([8, 9], 0)"] by simp

section \<open>The kernel\<close>

text \<open>C32. The search with its table of shifts finds the first occurrence of a pattern, and none exactly when there is none.\<close>

theorem search_pattern_finds_first:
  assumes "pattern \<noteq> []" "length pattern \<le> length mem" "length mem < 2 ^ 32"
  shows "search_pattern mem pattern = Ok (List.find (occurs_at mem pattern) [0..<Suc (length mem - length pattern)])"
  unfolding search_pattern_def using assms by (rule search_from_correct)

theorem search_pattern_finds_first_witness: "search_pattern [1, 2, 1, 2, 4, 1, 2, 4] [1, 2, 4] = Ok (Some 2)"
  using search_pattern_finds_first [of "[1, 2, 4]" "[1, 2, 1, 2, 4, 1, 2, 4]"] by (simp add: occurs_at_def bslice_def upt_rec)

text \<open>C31. A hook: the instruction at the place of the pattern becomes a branch to the free code space, which holds the payload and,
  if the patch has one, a branch back behind the hook; nothing else in the kernel changes.\<close>

theorem kernel_hook_installed:
  assumes kp: "patch_offset kp = 0" "pattern_size kp = length (kp_pattern kp)" "payload_num_instructions kp = length (payload kp)"
    and loc: "search_pattern kern (kp_pattern kp) = Ok (Some loc)" "hook = loc + pattern_hook_offset kp"
    and fit: "hook_size kp \<le> space" "off + hook_size kp \<le> length kern" "hook + 4 \<le> length kern" "length kern + branch_back_offset kp < 2 ^ 27"
    and apart: "hook + 4 \<le> off \<or> off + hook_size kp \<le> hook" and al: "4 dvd hook" "4 dvd off" "4 dvd branch_back_offset kp"
  shows "\<exists>kern'. apply_kernel_patch kp (kern, off, space) = Ok (kern', off + hook_size kp, space - hook_size kp)
    \<and> length kern' = length kern
    \<and> branch_target (of_nat hook) (read32le kern' hook) = Some (of_nat off)
    \<and> (\<forall>i < length (payload kp). read32le kern' (off + 4 * i) = payload kp ! i)
    \<and> (branch_back_offset kp \<noteq> 0 \<longrightarrow>
        branch_target (of_nat (off + 4 * length (payload kp))) (read32le kern' (off + 4 * length (payload kp))) = Some (of_nat (branch_back_offset kp + hook)))
    \<and> (\<forall>i < length kern. (i < hook \<or> hook + 4 \<le> i) \<longrightarrow> (i < off \<or> off + hook_size kp \<le> i) \<longrightarrow> kern' ! i = kern ! i)"
proof -
  let ?B = "le_bytes 4 (MAKE_BRANCH (of_nat hook) (of_nat off))"
  let ?X = "insns_bytes (payload kp @ back_insns kp off hook)"
  let ?k1 = "blit kern hook ?B"
  define kern' where "kern' = blit ?k1 off ?X"
  have lenX: "length ?X = hook_size kp" using kp(3) by (simp add: back_insns_def hook_size_def)
  have len: "length ?k1 = length kern" "length kern' = length kern" using fit lenX by (simp_all add: kern'_def)
  have step: "apply_kernel_patch kp (kern, off, space) = Ok (kern', off + hook_size kp, space - hook_size kp)"
    using apply_kernel_patch_hook [OF kp loc(1) fit(1,2)] fit(3) by (simp add: loc(2) kern'_def)
  have "bslice kern' hook 4 = bslice ?k1 hook 4"
    unfolding kern'_def by (rule bslice_blit_other) (use fit apart lenX len in auto)
  then have hook: "read32le kern' hook = MAKE_BRANCH (of_nat hook) (of_nat off)" using fit by (simp add: read32le_def)
  have rd: "read32le kern' (off + 4 * i) = (payload kp @ back_insns kp off hook) ! i" if "i < length (payload kp @ back_insns kp off hook)" for i
  proof -
    have "bslice kern' (off + 4 * i) 4 = bslice ?X (4 * i) 4"
      unfolding kern'_def by (rule bslice_blit_inside) (use that fit lenX len in simp_all)
    then show ?thesis using bslice_insns_bytes [OF that] by (simp add: read32le_def)
  qed
  have "branch_target (of_nat hook) (read32le kern' hook) = Some (of_nat off)"
    unfolding hook by (rule branch_target_MAKE_BRANCH) (use fit al in simp_all)
  moreover have "branch_target (of_nat (off + 4 * length (payload kp))) (read32le kern' (off + 4 * length (payload kp))) = Some (of_nat (branch_back_offset kp + hook))"
    if b: "branch_back_offset kp \<noteq> 0"
  proof -
    have "read32le kern' (off + 4 * length (payload kp)) = MAKE_BRANCH (of_nat (off + 4 * length (payload kp))) (of_nat (branch_back_offset kp + hook))"
      using rd [of "length (payload kp)"] b by (simp add: back_insns_def)
    moreover have "off + 4 * length (payload kp) < 2 ^ 27" "branch_back_offset kp + hook < 2 ^ 27" "4 dvd off + 4 * length (payload kp)" "4 dvd branch_back_offset kp + hook"
      using fit al b kp(3) by (simp_all add: hook_size_def)
    ultimately show ?thesis using branch_target_MAKE_BRANCH by metis
  qed
  moreover have "kern' ! i = kern ! i" if "i < length kern" "i < hook \<or> hook + 4 \<le> i" "i < off \<or> off + hook_size kp \<le> i" for i
    unfolding kern'_def using that fit lenX len by (auto simp: nth_blit)
  moreover have "\<forall>i < length (payload kp). read32le kern' (off + 4 * i) = payload kp ! i" using rd by (simp add: nth_append)
  ultimately show ?thesis using step len(2) by blast
qed

theorem kernel_hook_installed_witness:
  "\<exists>kern'. apply_kernel_patch (g_kernel_patches_100 ! 0) (sample_kernel, 0x20, 0x40) = Ok (kern', 0x58, 8)
    \<and> branch_target 0x10 (read32le kern' 0x10) = Some 0x20 \<and> branch_target 0x54 (read32le kern' 0x54) = Some 0x14"
proof -
  have kp: "patch_offset (g_kernel_patches_100 ! 0) = 0" "pattern_size (g_kernel_patches_100 ! 0) = length (kp_pattern (g_kernel_patches_100 ! 0))"
    "payload_num_instructions (g_kernel_patches_100 ! 0) = length (payload (g_kernel_patches_100 ! 0))" "length (payload (g_kernel_patches_100 ! 0)) = 13"
    "pattern_hook_offset (g_kernel_patches_100 ! 0) = 0" "branch_back_offset (g_kernel_patches_100 ! 0) = 4" "hook_size (g_kernel_patches_100 ! 0) = 0x38"
    by (simp_all add: g_kernel_patches_100_def g_kernel_pattern_100_proc_id_send_def g_kernel_patch_100_proc_id_send_def hook_size_def)
  have "search_pattern sample_kernel (kp_pattern (g_kernel_patches_100 ! 0)) = Ok (Some 0x10)" by (rule sample_kernel_search)
  then show ?thesis
    using kernel_hook_installed [OF kp(1-3), of sample_kernel "0x10" "0x10" "0x40" "0x20"] kp by (auto simp: sample_kernel_length)
qed

end
