(* ===== verification/Spec2Isabelle.thy ===== *)
theory Spec2Isabelle
  imports Monitor_Properties Package2_Properties Boot_Properties Address_Space Fusee_Properties
begin

text \<open>
  The secure monitor of Atmosphere, \<^verbatim>\<open>src/exosphere/src\<close>, and the part of its boot loader that prepares the kernel for
  it, in \<^verbatim>\<open>src/fusee/fusee-secondary/src\<close>.

  \<^bold>\<open>The program.\<close> Exosphere is the program at the highest privilege level of the console. It keeps the
  keys in the slots of the security engine and answers secure monitor calls (SMCs): those of user
  code about keys and cryptography, those of the kernel about cores, sleep, registers and
  memory carveouts, and those of Atmosphere itself. A call enters through
  \<^verbatim>\<open>call_smc_handler\<close> of \<^verbatim>\<open>smc_api.c\<close>, which picks the handler from the tables. User handlers run under a
  lock; those that start the engine return a key with which the caller asks for the
  result after the completion interrupt. The handlers of \<^verbatim>\<open>smc_user.c\<close> call the key
  components (sealed keys, master keys, title keys, GCM), these call the driver of the engine.
  Data passes through one page of the caller's memory that is mapped for the call.

  Before the first call comes the boot. \<^verbatim>\<open>coldboot_init\<close> moves the image to its place and builds the page tables,
  \<^verbatim>\<open>load_package2\<close> sets up the engine and the registers, waits for the boot loader on the boot processor through
  a mailbox, decrypts and checks the package with the kernel and copies it to its place, and \<^verbatim>\<open>coldboot_main\<close> enters the kernel.
  After a sleep, and when a core is switched on, \<^verbatim>\<open>warmboot_init\<close> and \<^verbatim>\<open>warmboot_main\<close> run instead.

  The package that \<^verbatim>\<open>load_package2\<close> finds has been rebuilt by the second stage of the boot loader, \<^verbatim>\<open>package2_rebuild_and_copy\<close>:
  it decrypts Nintendo's package, patches the kernel (\<^verbatim>\<open>package2_patch_kernel\<close>), merges the initial processes of Nintendo, of Atmosphere and
  of the SD card (\<^verbatim>\<open>stratosphere_merge_inis\<close>), applies patch files to them, and writes a new header.

  \<^bold>\<open>How C is rendered.\<close> The theory \<open>Exo_Prelude\<close> fixes the types: words at their width, byte lists for
  buffers, and the result type \<open>res\<close> whose values are \<open>Ok\<close> (return), \<open>Panic\<close> (with the colour code given to
  \<^verbatim>\<open>panic\<close>, or \<^verbatim>\<open>generic_panic\<close>), \<open>Hang\<close> (a loop that does not end) and \<open>Undef\<close> (undefined behaviour: an index
  outside an array, a call of a null pointer, an access to an unmapped page). The globals of a file are one record, every
  function takes and returns it; \<open>secmon\<close> in the theory \<open>Secmon\<close> has all of them.

  \<^bold>\<open>Theories and sources.\<close>
  \<^item> \<open>Exo_Config\<close>: panic codes of \<^verbatim>\<open>utils.c\<close>, the configuration of \<^verbatim>\<open>exocfg.c\<close>; also \<open>keeps\<close>, the
    predicate with which invariants are carried through sequences of operations.
  \<^item> \<open>SE_Regs\<close>, \<open>SE_Ops\<close>, \<open>SE_Context\<close>: \<^verbatim>\<open>se.c\<close>, \<^verbatim>\<open>se.h\<close>. Registers, linked lists, key slots; AES, CMAC,
    SHA-256, RSA and random operations; saving the engine before sleep. \<open>SE_Laws\<close> states what the engine
    computes for the register settings that the driver uses, \<open>SE_Facts\<close> and \<open>SE_Mac\<close> what the driver then does.
    \<open>Keystore\<close> is the interface (a locale) of slots that the key components rely on,
    interpreted on the driver.
  \<^item> \<open>Fuse\<close>: \<^verbatim>\<open>fuse.c\<close>. \<open>Bootconfig\<close>: \<^verbatim>\<open>bootconfig.c\<close>, \<^verbatim>\<open>configitem.c\<close>. \<open>Sealed_Keys\<close>, \<open>Master_Key\<close>,
    \<open>Title_Key\<close>, \<open>GCM\<close>: \<^verbatim>\<open>sealedkeys.c\<close>, \<^verbatim>\<open>masterkey.c\<close>, \<^verbatim>\<open>titlekey.c\<close>, \<^verbatim>\<open>gcm.c\<close>.
  \<^item> \<open>Memory_Map\<close>: \<^verbatim>\<open>mmu.h\<close>, \<^verbatim>\<open>memory_map.h\<close>, the page tables of \<^verbatim>\<open>coldboot_init.c\<close>. \<open>Address_Space\<close>:
    the walk of the processor through these tables. \<open>User_Page\<close>:
    \<^verbatim>\<open>userpage.c\<close>. \<open>Random_Cache\<close>: \<^verbatim>\<open>randomcache.c\<close>.
  \<^item> \<open>SMC_User\<close>: \<^verbatim>\<open>smc_user.c\<close>. \<open>SMC_Ams\<close>: \<^verbatim>\<open>smc_ams.c\<close>. \<open>SMC_API\<close>: \<^verbatim>\<open>smc_api.c\<close>.
  \<^item> \<open>MMIO\<close>: \<^verbatim>\<open>timers.c\<close>, \<^verbatim>\<open>car.c\<close>, \<^verbatim>\<open>flow.h\<close>. \<open>Peripherals\<close>: \<^verbatim>\<open>i2c.c\<close>, \<^verbatim>\<open>uart.c\<close>, \<^verbatim>\<open>pinmux.h\<close>. \<open>MC\<close>: \<^verbatim>\<open>mc.c\<close>.
    \<open>Interrupts\<close>: \<^verbatim>\<open>interrupt.c\<close>. \<open>Bakery\<close>: \<^verbatim>\<open>synchronization.h\<close>. \<open>CPU_Context\<close>: \<^verbatim>\<open>cpu_context.c\<close>. \<open>SC7\<close>: \<^verbatim>\<open>sc7.c\<close>.
  \<^item> \<open>Device_Keys\<close>, \<open>Package2\<close>: the device keys, the header and the sections of \<^verbatim>\<open>package2.c\<close>, with physical memory as a map from addresses to bytes.
    \<open>Bootup\<close>: \<^verbatim>\<open>bootup.c\<close>, \<^verbatim>\<open>actmon.c\<close>. \<open>Boot\<close>: the rest of \<^verbatim>\<open>package2.c\<close>, \<^verbatim>\<open>coldboot_main.c\<close>, \<^verbatim>\<open>warmboot_init.c\<close>,
    \<^verbatim>\<open>warmboot_main.c\<close> and the relocation of \<^verbatim>\<open>coldboot_init.c\<close>; its state \<open>boot_state\<close> adds the interrupt controller and the globals of these files to \<open>secmon\<close>.
  \<^item> The boot loader: \<open>IPS_Patch\<close> and \<open>KIP1\<close>: \<^verbatim>\<open>ips.c\<close>, \<^verbatim>\<open>kip.h\<close>. \<open>INI1\<close>: \<^verbatim>\<open>stratosphere.c\<close>. \<open>Pattern_Search\<close>, \<open>Kernel_Tables\<close>,
    \<open>Kernel_Patches\<close>: \<^verbatim>\<open>kernel_patches.c\<close>. \<open>Fusee_Package2\<close>: \<^verbatim>\<open>package2.c\<close>. This program runs on a 32-bit processor: sizes have
    32 bits, and their sums and differences wrap. Images and packages are byte lists; \<^verbatim>\<open>fatal_error\<close> is a panic with a code of its own.
  \<^item> \<open>Sample_State\<close>, \<open>Sample_Secmon\<close>: a concrete console on which the closed instances of
    the properties are evaluated.

  \<^bold>\<open>Parameters.\<close> Hardware is not part of the sources and appears as arguments of the definitions:
  the engine, a function on register states with the laws \<open>se_engine_ok\<close> of \<open>SE_Laws\<close> (satisfied by the
  reference engine built there from any primitives); the array behind the fuse registers; device registers, whose
  reads are a function of the history of all accesses so far (\<open>MMIO\<close>); the translation of
  user addresses by the processor; the initial contents of stack buffers; the values of the
  system registers that a core saves; the binary of the sleep firmware; and the addresses the linker gives to the image.
  For the boot loader: the files on the SD card, the hash that the engine computes, the keys of the console, the sizes for which memory can be allocated,
  the contents of fresh memory, and the process images that the build embeds.
  The properties of the boot name what they need of the hardware: \<open>law_rng_key\<close> and \<open>law_srk\<close> (a key generated in the engine goes
  to the slot the driver names and to no other), \<open>devices_answer\<close> (the microsecond counter advances, the serial port and the charger's bus become
  idle, the boot processor halts), a fuse driver whose initialisation returns, and for a cold boot a boot loader that reaches its state. The
  tables of keys in the engine can be written whatever their lock flags say, as nothing in the sources relies on a refusal.

  \<^bold>\<open>What the lemmas show.\<close>
  \<^item> The contract of user calls: \<open>SMC_Contract\<close> states it as a locale over a handler, \<open>SMC_Handlers\<close> interprets it
    for all sixteen. A call does not run into undefined behaviour or hang, keeps the invariant \<open>mon_wf\<close>, writes no memory outside
    the user page and no key slot but 0 to 5 and 9.
  \<^item> The monitor as a state machine: \<open>SMC_Dispatch\<close> defines its steps (a call comes back, an
    operation completes), \<open>SMC_System\<close> proves the invariant and the protection of keys over every run,
    \<open>SMC_Phases\<close> that the dispatcher refines an abstract protocol of the lock, \<open>SMC_Async\<close> the delivery of results.
  \<^item> Functional behaviour: \<open>SMC_Functional\<close> says which key is loaded and which bytes are returned by the
    user calls, on the facts of \<open>Sealed_Keys\<close>, \<open>Master_Key\<close>, \<open>Title_Key\<close>, \<open>GCM\<close> (seal and unseal, the
    chain of master keys, OAEP, the field multiplication against a polynomial definition) and \<open>SE_Mac\<close> (CMAC against RFC 4493).
  \<^item> Sleep: \<open>SC7_Facts\<close> (what was checked before the core went off) and \<open>SC7_Live\<close> (with working
    devices it does go off).
  \<^item> Devices: \<open>MC\<close> (carveouts), \<open>Interrupts\<close>, \<open>Bakery\<close> (the lock as a step relation over four
    cores: no deadlock, no mutual exclusion), \<open>CPU_Context\<close>, \<open>MMIO\<close>.
  \<^item> The package: \<open>Package2_Facts\<close> (the validation against a specification of well-formed metadata, the free window for the
    relocation) and \<open>Package2_Load\<close> (where every byte of every section ends up).
  \<^item> The boot: \<open>Boot_Facts\<close> (the engine and its keys), \<open>Boot_Live\<close> (every step of a boot returns and what it keeps; the warm boot),
    \<open>Boot_Cold\<close> (the cold boot establishes the invariant that the calls rely on).
  \<^item> The boot loader: \<open>Pattern_Search\<close> (the search finds the first occurrence), \<open>IPS_Facts\<close> (patches against a list of records),
    \<open>BLZ_Facts\<close> and \<open>KIP1_Facts\<close> (decompression against the tokens of the stream, images and their headers), \<open>INI1_Facts\<close> (the merge as a fold over the first image of each title),
    \<open>Kernel_Patches\<close> (branches and their targets) and \<open>Fusee_Package2_Facts\<close> (the fields of the rebuilt header, and that it satisfies the
    predicate with which \<open>Package2_Facts\<close> describes what exosphere accepts; the locale \<open>package_reader\<close> is the interface between the two
    programs, interpreted on both validations).
  The properties themselves are the theorems of this theory, of \<open>Monitor_Properties\<close>, \<open>Package2_Properties\<close>, \<open>Boot_Properties\<close>,
  \<open>Address_Space\<close> and \<open>Fusee_Properties\<close>.

  \<^bold>\<open>Loops.\<close> Loops with a counter are structural recursions or folds. The loops of the boot loader over the records of a patch, the chunks of a
  compressed section and the places of a pattern are total functions, with the bytes that are left as their measure. Loops that poll a
  device, and the walk over the boot ROM patches, are \<open>partial_function (option)\<close>; not ending is the
  value \<open>None\<close>, which the callers turn into \<open>Hang\<close>. No definition has fuel. That the polls
  end is proved from what the device answers (\<open>wait_ends_iff\<close>, \<open>SC7_Live\<close>, \<open>Boot_Live\<close>).

  \<^bold>\<open>Not modelled.\<close>
  \<^item> Cache and TLB maintenance and barriers, which have no effect on a model with one view of memory; real
    concurrency between cores outside \<open>Bakery\<close>: a call is one step.
  \<^item> The C library, the assembly (entry, exception vectors, entering a lower level), the reboot
    that follows a panic.
  \<^item> The firmwares of the boot processor (\<^verbatim>\<open>lp0fw\<close>, \<^verbatim>\<open>sc7fw\<close>, \<^verbatim>\<open>rebootstub\<close>), the rest of the boot
    loaders \<^verbatim>\<open>fusee\<close> and \<^verbatim>\<open>sept\<close>: drivers, key derivation, configuration files, vendored file system and display code; \<^verbatim>\<open>emummc\<close>, and the
    user-land programs of \<^verbatim>\<open>stratosphere\<close>, \<^verbatim>\<open>troposphere\<close> and \<^verbatim>\<open>thermosphere\<close>.
\<close>

section \<open>What every user SMC guarantees\<close>



text \<open>C2. A user SMC changes only the key slots 0 to 5 that user calls may load and the scratch slot 9:
  the session key, the master key and the device keys are the same when it returns.\<close>

theorem user_smc_protects_keys:
  assumes "h \<in> set user_handlers" "env_ok P e" "mon_wf m" "length args = 8"
    and "h e args m = Ok (r, args', m')" "ks \<notin> {0, 1, 2, 3, 4, 5, 9}"
  shows "aes_key (m_se m') ks = aes_key (m_se m) ks"
  using smc_handler.protects_keys [OF user_handlers_contract, OF assms(1-5)] assms(6) by (simp add: user_slots_def)

theorem user_smc_protects_keys_witness:
  "\<exists>m'. user_load_aes_key sample_env [0, 3, 1, 2, 4, 5, 0, 0] sample_mon = Ok (0, [0, 3, 1, 2, 4, 5, 0, 0], m')
   \<and> aes_key (m_se m') 0xC = sample_master_key"
proof -
  obtain m' where r: "user_load_aes_key sample_env [0, 3, 1, 2, 4, 5, 0, 0] sample_mon = Ok (0, [0, 3, 1, 2, 4, 5, 0, 0], m')"
    using user_load_aes_key_ok [OF sample_env_ok sample_mon_wf, of "[0, 3, 1, 2, 4, 5, 0, 0]"] by (auto simp: sample_mon_def)
  from user_smc_protects_keys [where h = user_load_aes_key, OF _ sample_env_ok sample_mon_wf _ r, of "0xC"] r show ?thesis
    by (simp add: user_handlers_def sample_mon_def sample_aes_key)
qed



text \<open>C4. Every user SMC keeps the invariant of the monitor: the configuration stays loaded, the
  buffers and tables keep their sizes, the page mapping and the random cache stay well formed.\<close>

theorem user_smc_keeps_invariant:
  assumes "h \<in> set user_handlers" "env_ok P e" "mon_wf m" "length args = 8"
    and "h e args m = Ok (r, args', m')"
  shows "mon_wf m' \<and> length args' = 8"
  using smc_handler.keeps_invariant [OF user_handlers_contract, OF assms] .

theorem user_smc_keeps_invariant_witness:
  "\<exists>m'. user_load_titlekey sample_env [0, 3, 1, 2, 0, 0, 0, 0] sample_mon = Ok (0, [0, 3, 1, 2, 0, 0, 0, 0], m') \<and> mon_wf m'"
proof -
  obtain m' where r: "user_load_titlekey sample_env [0, 3, 1, 2, 0, 0, 0, 0] sample_mon = Ok (0, [0, 3, 1, 2, 0, 0, 0, 0], m')"
    using user_load_titlekey_ok [OF sample_env_ok sample_mon_wf, of "[0, 3, 1, 2, 0, 0, 0, 0]"] by (auto simp: sample_mon_def)
  from user_smc_keeps_invariant [where h = user_load_titlekey, OF _ sample_env_ok sample_mon_wf _ r] r show ?thesis by (simp add: user_handlers_def)
qed

section \<open>Sealed keys\<close>

text \<open>C7. A key sealed for a use case comes back unchanged: unsealing it, at any later time at which the
  session key is the same, puts the original key into the chosen slot and touches no other slot
  than the scratch slot.\<close>

theorem seal_then_unseal:
  assumes "se_engine_ok P eng" "g_has_loaded_config c" "u < usecase_limit (fw_of c)"
    and "length key = 16" "length dst = 16" "ks < 16"
    and "seal_key c eng dst 16 key 16 u se = Ok (sealed, se1)" "aes_key t 0xA = aes_key se 0xA"
  shows "\<exists>t'. unseal_key c eng ks sealed 16 u t = Ok t' \<and> aes_key t' ks = key
     \<and> (\<forall>k. k \<noteq> ks \<longrightarrow> k \<noteq> 9 \<longrightarrow> aes_key t' k = aes_key t k)"
proof -
  have s: "sealed = sealed_form P (aes_key se 0xA) (g_seal_key_sources ! unat u) key"
    using seal_key_ok [OF assms(1-5), of se] assms(7) by auto
  then have l: "length sealed = 16" using length_sealed_form [OF assms(1,4)] by simp
  show ?thesis
    using unseal_key_ok [OF assms(1-3) l assms(6), of t] unsealed_sealed [OF assms(1,4)] assms(8) by (auto simp: s)
qed

theorem seal_then_unseal_witness:
  "\<exists>sealed se1 t'. seal_key sample_cfg sample_engine (replicate 16 0) 16 (replicate 16 7) 16 1 sample_se = Ok (sealed, se1)
   \<and> unseal_key sample_cfg sample_engine 3 sealed 16 1 se1 = Ok t' \<and> aes_key t' 3 = replicate 16 7"
proof -
  have u: "(1 :: u32) < usecase_limit (fw_of sample_cfg)" by (simp add: usecase_limit_def)
  obtain sealed se1 where s: "seal_key sample_cfg sample_engine (replicate 16 0) 16 (replicate 16 7) 16 1 sample_se = Ok (sealed, se1)"
      "aes_key se1 0xA = aes_key sample_se 0xA"
    using seal_key_ok [OF sample_engine_ok _ u, of "replicate 16 7" "replicate 16 0" sample_se] by auto
  from seal_then_unseal [OF sample_engine_ok _ u _ _ _ s(1) s(2), of 3] s show ?thesis by auto
qed

section \<open>Keys through the user calls\<close>

text \<open>C8. The two calls by which a user obtains a key work together: the sealed key-encryption key that
  \<^verbatim>\<open>user_generate_aes_kek\<close> returns, given to \<^verbatim>\<open>user_load_aes_key\<close>, loads the key that the master key of
  the requested generation gives by deriving with the use-case source, unwrapping the
  key-encryption key and decrypting the user's key; the user has seen none of the three.\<close>

theorem generate_kek_then_load_key:
  assumes "env_ok P e" "mon_wf m" "mkey_consistent P b (m_mkey m) (m_se m)" "length args = 8"
    and "ucast (args ! 3) = rv + 1" "rv \<le> g_mkey_revision (m_mkey m)"
    and "args ! 4 = push_bit 1 (of_nat k)" "k < 4" "k = 1 \<Longrightarrow> \<not> bootconfig_is_recovery_boot (m_bootconfig m)"
    and "k = 2 \<Longrightarrow> bootconfig_is_recovery_boot (m_bootconfig m)" "slot \<le> 3"
  shows "\<exists>out m1 m2. user_generate_aes_kek e args m = Ok (0, out, m1)
     \<and> user_load_aes_key e [0, slot, out ! 1, out ! 2, w0, w1, 0, 0] m1 = Ok (0, [0, slot, out ! 1, out ! 2, w0, w1, 0, 0], m2)
     \<and> aes_key (m_se m2) (ucast slot) =
         aes_dec P (derived_kek P (chain_key P (vectors_for b) (unat (g_mkey_revision (m_mkey m))) (aes_key (m_se m) 0xC)
             (unat (g_mkey_revision (m_mkey m)) - unat rv)) 0 k (qwords (args ! 1) (args ! 2))) (qwords w0 w1)"
proof -
  note eng = env_okD(1) [OF assms(1)]
  let ?kek = "derived_kek P (chain_key P (vectors_for b) (unat (g_mkey_revision (m_mkey m))) (aes_key (m_se m) 0xC)
             (unat (g_mkey_revision (m_mkey m)) - unat rv)) 0 k (qwords (args ! 1) (args ! 2))"
  let ?sealed = "sealed_form P (aes_key (m_se m) 0xA) (g_seal_key_sources ! 0) ?kek"
  obtain m1 where g: "user_generate_aes_kek e args m = Ok (0, put_qwords ?sealed args, m1)" "mon_frame m m1"
      "\<forall>ks. ks \<noteq> 9 \<longrightarrow> aes_key (m_se m1) ks = aes_key (m_se m) ks"
    using user_generate_aes_kek_ok [OF assms(1,2,3,5,6,7,8,9,10)] by blast
  have kek: "length ?kek = 16" using aes_lengths(2) [OF eng length_qwords] by (simp add: derived_kek_def)
  let ?out = "put_qwords ?sealed args"
  have q: "qwords (?out ! 1) (?out ! 2) = ?sealed"
    by (rule put_qwords_nth [OF assms(4) length_sealed_form [OF eng kek]])
  have S: "aes_key (m_se m1) 0xA = aes_key (m_se m) 0xA" using g(3) by simp
  obtain m2 where "user_load_aes_key e [0, slot, ?out ! 1, ?out ! 2, w0, w1, 0, 0] m1 =
        Ok (0, [0, slot, ?out ! 1, ?out ! 2, w0, w1, 0, 0], m2)" "aes_key (m_se m2) (ucast slot) = aes_dec P ?kek (qwords w0 w1)"
    using user_load_aes_key_regs [OF assms(1) mon_frame_wf [OF g(2)] assms(11) q] unfolding S unsealed_sealed [OF eng kek] by blast
  with g(1) show ?thesis by blast
qed

theorem generate_kek_then_load_key_witness:
  "\<exists>out m1 m2. user_generate_aes_kek sample_env [0, 1, 2, 1, 0, 0, 0, 0] sample_mon = Ok (0, out, m1)
     \<and> user_load_aes_key sample_env [0, 3, out ! 1, out ! 2, 5, 6, 0, 0] m1 = Ok (0, [0, 3, out ! 1, out ! 2, 5, 6, 0, 0], m2)
     \<and> aes_key (m_se m2) 3 =
         aes_dec sample_prims (derived_kek sample_prims (chain_key sample_prims mkey_vectors 1 sample_master_key 1) 0 0 (qwords 1 2))
           (qwords 5 6)"
  using generate_kek_then_load_key [of sample_prims sample_env sample_mon True "[0, 1, 2, 1, 0, 0, 0, 0]" 0 0 3 5 6]
    sample_env_ok sample_mon_wf sample_mkey_consistent
  by (simp add: sample_mon_def sample_mkey_def sample_aes_key vectors_for_def del: chain_key.simps)

text \<open>The same for title keys: the sealed title key that \<^verbatim>\<open>user_unwrap_aes_wrapped_titlekey\<close> returns,
  given to \<^verbatim>\<open>user_load_titlekey\<close>, loads the title key unwrapped with the title kek of the requested
  master key generation.\<close>

theorem unwrap_titlekey_then_load:
  assumes "env_ok P e" "mon_wf m" "mkey_consistent P b (m_mkey m) (m_se m)" "length args = 8"
    and "3 \<le> fw_of (m_cfg m)" "ucast (args ! 3) = rv + 1" "rv \<le> g_mkey_revision (m_mkey m)" "slot \<le> 3"
  shows "\<exists>out m1 m2. user_unwrap_aes_wrapped_titlekey e args m = Ok (0, out, m1)
     \<and> user_load_titlekey e [0, slot, out ! 1, out ! 2, 0, 0, 0, 0] m1 = Ok (0, [0, slot, out ! 1, out ! 2, 0, 0, 0, 0], m2)
     \<and> aes_key (m_se m2) (ucast slot) =
         unwrapped_titlekey P (chain_key P (vectors_for b) (unat (g_mkey_revision (m_mkey m))) (aes_key (m_se m) 0xC)
             (unat (g_mkey_revision (m_mkey m)) - unat rv)) 0 (qwords (args ! 1) (args ! 2))"
proof -
  note eng = env_okD(1) [OF assms(1)]
  let ?key = "unwrapped_titlekey P (chain_key P (vectors_for b) (unat (g_mkey_revision (m_mkey m))) (aes_key (m_se m) 0xC)
             (unat (g_mkey_revision (m_mkey m)) - unat rv)) 0 (qwords (args ! 1) (args ! 2))"
  let ?sealed = "sealed_form P (aes_key (m_se m) 0xA) g_titlekey_seal_key_source ?key"
  obtain m1 where g: "user_unwrap_aes_wrapped_titlekey e args m = Ok (0, put_qwords ?sealed args, m1)" "mon_frame m m1"
      "\<forall>ks. ks \<noteq> 9 \<longrightarrow> aes_key (m_se m1) ks = aes_key (m_se m) ks"
    using user_unwrap_aes_wrapped_titlekey_ok [OF assms(1,2,3,5,6,7)] by blast
  have key: "length ?key = 16" using aes_lengths(2) [OF eng length_qwords] by (simp add: unwrapped_titlekey_def)
  let ?out = "put_qwords ?sealed args"
  have q: "qwords (?out ! 1) (?out ! 2) = ?sealed"
    by (rule put_qwords_nth [OF assms(4) length_sealed_form [OF eng key]])
  have S: "aes_key (m_se m1) 0xA = aes_key (m_se m) 0xA" using g(3) by simp
  obtain m2 where "user_load_titlekey e [0, slot, ?out ! 1, ?out ! 2, 0, 0, 0, 0] m1 =
        Ok (0, [0, slot, ?out ! 1, ?out ! 2, 0, 0, 0, 0], m2)" "aes_key (m_se m2) (ucast slot) = ?key"
    using user_load_titlekey_regs [OF assms(1) mon_frame_wf [OF g(2)] assms(8) q] unfolding S unsealed_sealed [OF eng key] by blast
  with g(1) show ?thesis by blast
qed

theorem unwrap_titlekey_then_load_witness:
  "\<exists>out m1 m2. user_unwrap_aes_wrapped_titlekey sample_env [0, 1, 2, 1, 0, 0, 0, 0] sample_mon = Ok (0, out, m1)
     \<and> user_load_titlekey sample_env [0, 3, out ! 1, out ! 2, 0, 0, 0, 0] m1 = Ok (0, [0, 3, out ! 1, out ! 2, 0, 0, 0, 0], m2)
     \<and> aes_key (m_se m2) 3 = unwrapped_titlekey sample_prims (chain_key sample_prims mkey_vectors 1 sample_master_key 1) 0 (qwords 1 2)"
  using unwrap_titlekey_then_load [of sample_prims sample_env sample_mon True "[0, 1, 2, 1, 0, 0, 0, 0]" 0 3]
    sample_env_ok sample_mon_wf sample_mkey_consistent
  by (simp add: sample_mon_def sample_mkey_def sample_aes_key vectors_for_def del: chain_key.simps)

text \<open>C9. The import call of firmware 5.0.0 stores an RSA exponent exactly when the package authenticates:
  its MAC is that of its contents under the unsealed key and its device id is that of this
  console. Otherwise it answers 2 and the imported exponents are as before. Either way the
  user page is not written.\<close>

theorem import_rsa_key_only_if_authentic:
  assumes "env_ok P e" "mon_wf m" "5 \<le> fw_of (m_cfg m)"
    and "args ! 3 AND 7 = of_nat u" "1 \<le> u" "u \<le> 4"
    and "unat (args ! 5) = n" "0x130 \<le> n" "n \<le> 0x240" "user_range m (args ! 4) n"
    and "K = gcm_key P (aes_key (m_se m) 0xA) (g_rsausecase_to_cryptousecase ! u)
               (qwords (args ! 1) (args ! 2)) (qwords (args ! 6) (args ! 7))"
    and "pkg = user_bytes m (args ! 4) n"
  shows "\<exists>m'. user_decrypt_or_import_rsa_key e args m =
       Ok (if gcm_authentic P (m_fuse m) K pkg n then 0 else 2, args, m')
     \<and> m_upage m' = m_upage m
     \<and> g_imported_exponents m' =
         (if gcm_authentic P (m_fuse m) K pkg n
          then (g_imported_exponents m)[import_index u := take 0x100 (gcm_plain P K pkg n)]
          else g_imported_exponents m)"
  using user_import_rsa_key_ok [OF assms(1-10)] unfolding assms(11,12) by blast

theorem import_rsa_key_only_if_authentic_witness:
  "\<exists>r m'. user_decrypt_or_import_rsa_key sample_env [0, 1, 2, 1, 0x80001000, 0x130, 3, 4] sample_mon =
       Ok (r, [0, 1, 2, 1, 0x80001000, 0x130, 3, 4], m') \<and> m_upage m' = sample_upage"
proof -
  have "user_range sample_mon 0x80001000 0x130"
    by (simp add: user_range_def sample_mon_def sample_upage_def get_page_for_address_def)
  then show ?thesis
    using import_rsa_key_only_if_authentic [of sample_prims sample_env sample_mon "[0, 1, 2, 1, 0x80001000, 0x130, 3, 4]" 1 "0x130",
        OF sample_env_ok sample_mon_wf _ _ _ _ _ _ _ _ refl refl]
    by (auto simp: sample_mon_def)
qed

text \<open>C10. \<^verbatim>\<open>user_compute_cmac\<close> returns the CMAC of RFC 4493 of the user's bytes under the key of the slot,
  and changes no key.\<close>

theorem user_cmac_is_rfc4493:
  assumes "env_ok P e" "mon_wf m" "ucast (args ! 1) = ks" "ks \<le> 3"
    and "unat (args ! 3) = n" "0 < n" "n \<le> 0x400" "user_range m (args ! 2) n"
  shows "\<exists>m'. user_compute_cmac e args m =
       Ok (0, put_qwords (cmac_ref P (aes_key (m_se m) ks) (user_bytes m (args ! 2) n)) args, m')
     \<and> aes_key (m_se m') = aes_key (m_se m)"
proof -
  have "ucast (args ! 1) \<le> (if fw_of (m_cfg m) \<in> {1, 2, 3, 4, 5} then 3 else 5 :: u32)"
    unfolding assms(3) by (rule slot_valid [OF assms(4)])
  from user_compute_cmac_ok [OF assms(1,2) this assms(5-8)] show ?thesis unfolding assms(3) .
qed

theorem user_cmac_is_rfc4493_witness:
  "\<exists>m'. user_compute_cmac sample_env [0, 3, 0x80001000, 0x21, 0, 0, 0, 0] sample_mon =
       Ok (0, put_qwords (cmac_ref sample_prims (aes_key (m_se sample_mon) 3) (user_bytes sample_mon 0x80001000 0x21))
             [0, 3, 0x80001000, 0x21, 0, 0, 0, 0], m')"
proof -
  have "user_range sample_mon 0x80001000 0x21"
    by (simp add: user_range_def sample_mon_def sample_upage_def get_page_for_address_def)
  then show ?thesis
    using user_cmac_is_rfc4493 [of sample_prims sample_env sample_mon "[0, 3, 0x80001000, 0x21, 0, 0, 0, 0]" 3 "0x21",
        OF sample_env_ok sample_mon_wf] by auto
qed

section \<open>Master keys\<close>

text \<open>\<^verbatim>\<open>mkey_detect_revision\<close> finds the generation of the master key: the first generation whose chain of
  vectors ends in the known plaintext, with every older key of the chain stored; when no
  generation fits it panics. It uses no slot but the scratch slot.\<close>

theorem mkey_detection:
  assumes "se_engine_ok P eng" "mkey_wf mk" "\<not> g_determined_mkey_revision mk"
  shows "if \<exists>r < 10. is_generation P b (aes_key se 0xC) r
     then \<exists>mk' se'. mkey_detect_revision eng (Ok b) mk se = Ok (mk', se') \<and> mkey_consistent P b mk' se'
            \<and> (\<forall>k. k \<noteq> 9 \<longrightarrow> aes_key se' k = aes_key se k)
     else mkey_detect_revision eng (Ok b) mk se = Panic 0x00F00060"
  using mkey_detect_revision_ok [OF assms, of b se] by (auto split: if_splits)

theorem mkey_detection_witness:
  "\<exists>mk' se'. mkey_detect_revision sample_engine (Ok True) mkey_init sample_se = Ok (mk', se')
     \<and> mkey_consistent sample_prims True mk' se'"
proof -
  have "\<exists>r < 10. is_generation sample_prims True (aes_key sample_se 0xC) r"
    using sample_mkey_consistent by (intro exI [of _ 1]) (simp add: mkey_consistent_def sample_mkey_def)
  then show ?thesis
    using mkey_detection [OF sample_engine_ok mkey_wf_init, of True sample_se] by (auto simp: mkey_init_def)
qed

text \<open>After detection \<^verbatim>\<open>mkey_get_keyslot\<close> gives, for every generation up to the detected one, a slot that
  holds the master key of that generation.\<close>

theorem mkey_of_every_generation:
  assumes "mkey_consistent P b mk se" "revision \<le> g_mkey_revision mk"
  shows "\<exists>ks se'. mkey_get_keyslot revision mk se = Ok (ks, se') \<and> ks \<in> {0xC, 9}
     \<and> (\<forall>k. k \<noteq> 9 \<longrightarrow> aes_key se' k = aes_key se k)
     \<and> aes_key se' ks = chain_key P (vectors_for b) (unat (g_mkey_revision mk)) (aes_key se 0xC)
                          (unat (g_mkey_revision mk) - unat revision)"
  using mkey_get_keyslot_ok [OF assms] by blast

theorem mkey_of_every_generation_witness:
  "\<exists>ks se'. mkey_get_keyslot 0 sample_mkey sample_se = Ok (ks, se') \<and> aes_key se' ks = mkey_vectors ! 0"
proof -
  have "g_old_masterkeys sample_mkey ! 0 = mkey_vectors ! 0" by (simp add: sample_mkey_def mkey_init_def)
  then have "chain_key sample_prims (vectors_for True) 1 (aes_key sample_se 0xC) 1 = mkey_vectors ! 0"
    using sample_mkey_consistent by (simp add: mkey_consistent_def sample_mkey_def)
  then show ?thesis
    using mkey_of_every_generation [OF sample_mkey_consistent, of 0] by (auto simp: sample_mkey_def)
qed

section \<open>The cryptographic routines built on the engine\<close>

text \<open>\<^verbatim>\<open>se_compute_aes_cmac\<close>, which the driver assembles from engine runs over all blocks but the last and a
  final run over the masked last block, computes the CMAC of RFC 4493 for every non-empty
  message.\<close>

theorem se_cmac_equals_reference:
  assumes "se_engine_ok P eng" "ks < 16" "data \<noteq> []" "length data < 2 ^ 32"
  shows "\<exists>se'. se_compute_aes_128_cmac eng ks 16 data (length data) se = Ok (cmac_ref P (aes_key se ks) data, se')
     \<and> aes_key se' = aes_key se"
  using cmac_rfc4493 [OF assms(1,2) _ assms(3,4), of 0 se] by (auto simp: se_compute_aes_128_cmac_def cfg_key_128 [OF assms(2)])

theorem se_cmac_equals_reference_witness:
  "\<exists>se'. se_compute_aes_128_cmac sample_engine 0xC 16 (replicate 17 1) 17 sample_se =
     Ok (cmac_ref sample_prims sample_master_key (replicate 17 1), se')"
  using se_cmac_equals_reference [OF sample_engine_ok, of "0xC" "replicate 17 1" sample_se] by (auto simp: sample_aes_key)

text \<open>For the empty message the driver does not compute RFC 4493: the standard masks the padded block
  \<^verbatim>\<open>80 00 ... 00\<close> with the second subkey, the driver encrypts the first subkey alone.\<close>

theorem se_cmac_empty_message:
  assumes "se_engine_ok P eng" "ks < 16"
  shows "\<exists>se'. se_compute_aes_128_cmac eng ks 16 [] 0 se =
     Ok (aes_enc P (aes_key se ks) (rev (le_bytes 16 (cmac_dbl (be128 (aes_enc P (aes_key se ks) (replicate 16 0)))))), se')"
  using cmac_empty [OF assms, of 0 se] by (simp add: se_compute_aes_128_cmac_def cfg_key_128 [OF assms(2)])

theorem se_cmac_empty_message_witness:
  "\<exists>out se'. se_compute_aes_128_cmac sample_engine 3 16 [] 0 sample_se = Ok (out, se')
     \<and> out \<noteq> cmac_ref sample_prims (aes_key sample_se 3) []"
proof -
  have dbl: "cmac_dbl 0 = 0" "be128 (replicate 16 0) = 0" by (simp_all add: cmac_dbl_def be128_def le_word_replicate_0)
  have z: "rev (le_bytes 16 (0 :: 128 word)) = replicate 16 0" by (simp add: le_bytes_def numeral_eq_Suc)
  have enc: "aes_enc sample_prims (replicate 16 0) b = xor_bytes b (replicate 16 0)" for b by (simp add: sample_prims_def)
  have x0: "xor_bytes xs (replicate 16 0) = xs" "xor_bytes (replicate 16 0) xs = xs" if "length xs = 16" for xs
    using that by (auto simp: nth_xor_bytes intro: nth_equalityI)
  have "cmac_ref sample_prims (replicate 16 0) [] = 0x80 # replicate 15 0"
    by (simp add: cmac_ref_def Let_def enc dbl z x0)
  then have "hd (cmac_ref sample_prims (replicate 16 0) []) \<noteq> hd (replicate 16 0)" by simp
  then have "replicate 16 0 \<noteq> cmac_ref sample_prims (replicate 16 0) []" by force
  then show ?thesis
    using se_cmac_empty_message [OF sample_engine_ok, of 3 sample_se]
    by (auto simp: sample_aes_key enc dbl z x0)
qed

text \<open>C11. Unwrapping an OAEP message: every key wrapped for the expected label hash, whatever the salt, is
  recovered by \<^verbatim>\<open>tkey_rsa_oaep_unwrap\<close>.\<close>

theorem oaep_unwrap_inverts_encode:
  assumes "se_engine_ok P eng" "length (g_tkey_expected_label_hash t) = 4" "length salt = 32"
    and "0 < length key" "length key < 0xBE" "length key \<le> dn" "dn \<le> length dst"
  shows "\<exists>se'. tkey_rsa_oaep_unwrap eng dst dn
       (oaep_encode P (concat (map (le_bytes 8) (g_tkey_expected_label_hash t))) salt key) 0x100 t se =
     Ok (length key, blit dst 0 key, se')"
  using oaep_roundtrip [OF assms] by blast

theorem oaep_unwrap_inverts_encode_witness:
  "\<exists>se'. tkey_rsa_oaep_unwrap sample_engine (replicate 16 0) 16
       (oaep_encode sample_prims (concat (map (le_bytes 8) (g_tkey_expected_label_hash tkey_init))) (replicate 32 5) (replicate 16 7))
       0x100 tkey_init sample_se = Ok (16, replicate 16 7, se')"
  using oaep_unwrap_inverts_encode [OF sample_engine_ok, of tkey_init "replicate 32 5" "replicate 16 7" 16 "replicate 16 0" sample_se]
  by (auto simp: tkey_init_def blit_def)

text \<open>\<^verbatim>\<open>calculate_mgf1_and_xor\<close> masks a buffer with the MGF1 stream of the seed, for every length, also one
  that is not a multiple of the hash size, and leaves the rest of the buffer alone.\<close>

theorem mgf1_masks_buffer:
  assumes "se_engine_ok P eng" "n = length seed" "n < 0xE0" "m \<le> length masked"
  shows "\<exists>se'. calculate_mgf1_and_xor eng masked m seed n se =
     Ok (xor_bytes (take m masked) (mgf1 P seed m) @ drop m masked, se')"
  using mgf1_and_xor_ok [OF assms] by blast

theorem mgf1_masks_buffer_witness:
  "\<exists>se'. calculate_mgf1_and_xor sample_engine (replicate 40 1) 33 [1, 2, 3] 3 sample_se =
     Ok (xor_bytes (replicate 33 1) (mgf1 sample_prims [1, 2, 3] 33) @ replicate 7 1, se')"
  using mgf1_masks_buffer [OF sample_engine_ok, of 3 "[1, 2, 3]" 33 "replicate 40 1" sample_se] by simp

text \<open>C12. \<^verbatim>\<open>gf128_mul\<close>, which shifts two 64-bit halves, multiplies in the field of GCM: bit by bit from the most
  significant end, with the reduction polynomial folded in at every halving.\<close>

theorem gf128_mul_is_field_multiplication:
  assumes "length x = 16" "length y = 16"
  shows "be128 (gf128_mul x y) = gf_mul (be128 x) (be128 y)"
  by (rule gf128_mul_spec [OF assms])

theorem gf128_mul_is_field_multiplication_witness:
  "be128 (gf128_mul (replicate 16 1) (replicate 16 2)) = gf_mul (be128 (replicate 16 1)) (be128 (replicate 16 2))"
  by (rule gf128_mul_is_field_multiplication) simp_all

text \<open>\<^verbatim>\<open>gcm_decrypt_key\<close> releases the contents of a personalised package only when its MAC and device id are
  right; otherwise it returns 0 and does not write the destination.\<close>

theorem gcm_releases_only_authentic:
  assumes "se_engine_ok P eng" "g_has_loaded_config c" "u < usecase_limit (fw_of c)"
    and "length kek = 16" "length wrapped = 16" "0x30 < n" "n \<le> length src" "n \<le> dn" "dn \<le> 0x400"
    and "length (CRYPTO_CTR_REG se) = 4" "K = gcm_key P (aes_key se 0xA) u kek wrapped"
  shows "\<exists>se'. gcm_decrypt_key c eng f dst dn src n kek 16 wrapped 16 u True se =
       Ok (if gcm_authentic P f K src n
           then (n - 0x30, blit dst 0 (take (n - 0x30) (gcm_plain P K src n)), Some (gcm_plain P K src n ! (n - 0x28)), se')
           else (0, dst, None, se'))"
  using gcm_decrypt_personalized [OF assms(1-10)] unfolding assms(11) by blast

theorem gcm_releases_only_authentic_witness:
  "\<exists>r se'. gcm_decrypt_key sample_cfg sample_engine sample_fuse (replicate 64 0) 64 (replicate 64 1) 64 (replicate 16 2) 16
       (replicate 16 3) 16 3 True sample_se = Ok r"
proof -
  have "(3 :: u32) < usecase_limit (fw_of sample_cfg)" by (simp add: usecase_limit_def)
  then show ?thesis
    using gcm_releases_only_authentic [OF sample_engine_ok, of sample_cfg 3 "replicate 16 2" "replicate 16 3" 64 "replicate 64 1" 64
        sample_se _ sample_fuse "replicate 64 0", OF _ _ _ _ _ _ _ _ _ refl] by auto
qed

text \<open>Counter mode is its own inverse: encrypting the output of \<^verbatim>\<open>se_aes_ctr_crypt\<close> again with the same key and
  counter gives the input back, for every length, whole blocks or not.\<close>

theorem ctr_crypt_twice:
  assumes "se_engine_ok P eng" "ks < 16" "length src < 2 ^ 32" "length dst = length src"
    and "length (CRYPTO_CTR_REG se) = 4"
    and "se_aes_ctr_crypt eng ks dst (length src) src (length src) ctr 16 se = Ok (out, se1)"
  shows "\<exists>se2. se_aes_ctr_crypt eng ks dst (length src) out (length src) ctr 16 se1 = Ok (src, se2)"
proof -
  let ?s = "ctr_stream P (aes_key se ks) (ctr_words ctr) ((length src + 15) div 16)"
  have "length src \<le> 16 * ((length src + 15) div 16)" by linarith
  then have ls: "length src \<le> length ?s" using length_ctr_stream [OF assms(1) length_ctr_words, of "aes_key se ks"] by simp
  have o: "out = xor_bytes src ?s" "se_core se1 = se_core se"
    using ctr_crypt_ok [OF assms(1,2) refl assms(3) order_refl _ assms(5), of dst ctr] assms(4,6) ls by (auto simp: blit_def)
  have lo: "length out = length src" using ls by (simp add: o(1))
  have k: "aes_key se1 = aes_key se" by (rule aes_key_core_eq [OF o(2)])
  have c: "length (CRYPTO_CTR_REG se1) = 4" using se_keep_ctr_length [OF se_keep_core [OF o(2)]] assms(5) by simp
  have "xor_bytes out ?s = src"
    using ls xor_bytes_cancel [of src "take (length src) ?s"] xor_bytes_take [of src "length src" ?s]
      xor_bytes_take [of out "length src" ?s] lo by (simp add: o(1))
  then show ?thesis
    using ctr_crypt_ok [OF assms(1,2) lo [symmetric] assms(3) order_refl _ c, of dst ctr] assms(4) lo k by (auto simp: blit_def)
qed

theorem ctr_crypt_twice_witness:
  "\<exists>out se1 se2. se_aes_ctr_crypt sample_engine 3 (replicate 20 0) 20 (replicate 20 7) 20 (replicate 16 1) 16 sample_se = Ok (out, se1)
     \<and> se_aes_ctr_crypt sample_engine 3 (replicate 20 0) 20 out 20 (replicate 16 1) 16 se1 = Ok (replicate 20 7, se2)"
proof -
  obtain out se1 where r: "se_aes_ctr_crypt sample_engine 3 (replicate 20 0) 20 (replicate 20 7) 20 (replicate 16 1) 16 sample_se = Ok (out, se1)"
    using ctr_crypt_ok [OF sample_engine_ok, of 3 20 "replicate 20 7" 20 "replicate 20 0" sample_se "replicate 16 1"] by auto
  with ctr_crypt_twice [OF sample_engine_ok, of 3 "replicate 20 7" "replicate 20 0" sample_se "replicate 16 1"] show ?thesis by auto
qed

section \<open>The user page\<close>

text \<open>What \<^verbatim>\<open>secure_copy_to_user\<close> writes to the user page, \<^verbatim>\<open>user_copy_to_secure\<close> reads back from it.\<close>

theorem user_page_round_trip:
  assumes "upage_valid r u" "sz \<le> 0x1000" "length src = sz" "length dst = sz"
    and "secure_copy_to_user r a src sz u = Ok (True, u')"
  shows "user_copy_to_secure r dst a sz u' = Ok (True, src)"
  by (rule copy_back_and_forth [OF assms])

theorem user_page_round_trip_witness:
  "\<exists>u'. secure_copy_to_user (user_page_ref sample_mon) 0x80001FF8 [1, 2, 3, 4, 5, 6, 7, 8] 8 sample_upage = Ok (True, u')
     \<and> user_copy_to_secure (user_page_ref sample_mon) (replicate 8 0) 0x80001FF8 8 u' = Ok (True, [1, 2, 3, 4, 5, 6, 7, 8])"
proof -
  have v: "upage_valid (user_page_ref sample_mon) sample_upage"
    using sample_upage_wf by (simp add: upage_valid_def user_page_ref_def sample_mon_def sample_upage_def)
  have "in_page (user_page_ref sample_mon) 0x80001FF8 8"
    by (simp add: in_page_def user_page_ref_def sample_mon_def sample_upage_def get_page_for_address_def)
  then obtain u' where "secure_copy_to_user (user_page_ref sample_mon) 0x80001FF8 [1, 2, 3, 4, 5, 6, 7, 8] 8 sample_upage = Ok (True, u')"
    using secure_copy_to_user_ok [OF v, of 8 "[1, 2, 3, 4, 5, 6, 7, 8]" "0x80001FF8"] by auto
  with user_page_round_trip [OF v, of 8 "[1, 2, 3, 4, 5, 6, 7, 8]" "replicate 8 0" "0x80001FF8" u'] show ?thesis by auto
qed

text \<open>Whatever address and size the user passes, \<^verbatim>\<open>secure_copy_to_user\<close> changes no byte outside the registered
  page: a range that leaves the page, or wraps around the address space, is refused whole.\<close>

theorem copy_to_user_stays_in_page:
  assumes "upage_valid r u" "sz \<le> 0x1000" "sz \<le> length src"
    and "secure_copy_to_user r a src sz u = Ok (ok, u')" "get_page_for_address p \<noteq> g_user_page_user_address u"
  shows "dram u' p = dram u p"
  by (rule secure_copy_to_user_frame [OF assms])

theorem copy_to_user_stays_in_page_witness:
  "\<exists>u'. secure_copy_to_user (user_page_ref sample_mon) 0x80001FF9 [1, 2, 3, 4, 5, 6, 7, 8] 8 sample_upage = Ok (False, u')
     \<and> dram u' 0x80002000 = dram sample_upage 0x80002000"
proof -
  have v: "upage_valid (user_page_ref sample_mon) sample_upage"
    using sample_upage_wf by (simp add: upage_valid_def user_page_ref_def sample_mon_def sample_upage_def)
  have "\<not> in_page (user_page_ref sample_mon) 0x80001FF9 8"
    by (simp add: in_page_def user_page_ref_def sample_mon_def sample_upage_def get_page_for_address_def)
  then obtain u' where "secure_copy_to_user (user_page_ref sample_mon) 0x80001FF9 [1, 2, 3, 4, 5, 6, 7, 8] 8 sample_upage = Ok (False, u')"
    using secure_copy_to_user_ok [OF v, of 8 "[1, 2, 3, 4, 5, 6, 7, 8]" "0x80001FF9"] by auto
  with copy_to_user_stays_in_page [OF v, of 8 "[1, 2, 3, 4, 5, 6, 7, 8]" "0x80001FF9" False u' "0x80002000"] show ?thesis
    by (auto simp: get_page_for_address_def sample_upage_def)
qed

section \<open>The random cache\<close>

text \<open>C13. \<^verbatim>\<open>randomcache_refill\<close> always returns; it keeps every unread byte, replaces every byte that was handed out by
  output of the generator, and leaves the cache full, for every position of the two indices,
  also when the range to fill wraps around the end of the buffer.\<close>

theorem random_cache_refill:
  assumes "se_engine_ok P eng" "rcache_wf rc"
  shows "\<exists>rc' se'. randomcache_refill eng rc se = Ok (rc', se') \<and> refilled P rc rc' \<and> aes_key se' = aes_key se"
  using refill_ok [OF assms, of se] aes_key_core_eq by metis

theorem random_cache_refill_witness:
  "\<exists>rc' se'. randomcache_refill sample_engine (sample_rcache\<lparr>g_random_cache_low := 0x10, g_random_cache_high := 0x20\<rparr>) sample_se = Ok (rc', se')
     \<and> refilled sample_prims (sample_rcache\<lparr>g_random_cache_low := 0x10, g_random_cache_high := 0x20\<rparr>) rc'"
  using random_cache_refill [OF sample_engine_ok, of "sample_rcache\<lparr>g_random_cache_low := 0x10, g_random_cache_high := 0x20\<rparr>" sample_se]
  by (auto simp: rcache_wf_def sample_rcache_def)

text \<open>When the read index has just wrapped to the start while the write index is at the end of the buffer, a
  refill does nothing: the bytes handed out before the wrap count as unread and are handed out
  again.\<close>

theorem random_cache_reuse_after_wrap:
  assumes "rcache_wf rc" "n \<le> 0x38" "0 < n" "unat (g_random_cache_low rc) + n + 0x38 > 0x3FF" "g_random_cache_high rc = 0x3FF"
  shows "\<exists>bs rc'. randomcache_getbytes n rc = Ok (bs, rc') \<and> g_random_cache rc' = g_random_cache rc
     \<and> g_random_cache_low rc' = 0 \<and> randomcache_refill eng rc' se = Ok (rc', se)"
proof -
  let ?rc = "rc\<lparr>g_random_cache_low := next_low n rc\<rparr>"
  have "unat (next_low n rc) = 0" using next_low_wf(1) [OF assms(1,2)] assms(3,4) by simp
  then have z: "next_low n rc = 0" by (simp add: word_unat_eq_iff)
  have "randomcache_refill eng ?rc se = Ok (?rc, se)" by (rule wrapped_not_refilled) (simp_all add: z assms(5))
  then show ?thesis using getbytes_ok [OF assms(1,2)] z by auto
qed

theorem random_cache_reuse_after_wrap_witness:
  "\<exists>bs rc'. randomcache_getbytes 0x38 (sample_rcache\<lparr>g_random_cache_low := 0x3C0\<rparr>) = Ok (bs, rc')
     \<and> randomcache_refill sample_engine rc' sample_se = Ok (rc', sample_se)"
  using random_cache_reuse_after_wrap [of "sample_rcache\<lparr>g_random_cache_low := 0x3C0\<rparr>" "0x38" sample_engine sample_se]
  by (auto simp: rcache_wf_def sample_rcache_def)

section \<open>Configuration and fuses\<close>

text \<open>The configuration is loaded once: after a successful \<^verbatim>\<open>exosphere_load_config\<close> a second call panics, so the
  target firmware the monitor acts on cannot change.\<close>

theorem config_loaded_once:
  assumes "exosphere_load_config mailbox c = Ok (fw, c')"
  shows "exosphere_load_config mailbox' c' = generic_panic \<and> exosphere_get_target_firmware c' = Ok fw"
  using exosphere_load_config_once [OF assms] assms
  by (auto simp: exosphere_load_config_def exosphere_get_target_firmware_def bindR_panic_if Let_def split: if_splits)

theorem config_loaded_once_witness:
  "exosphere_load_config (g_exosphere_cfg sample_cfg) (sample_cfg\<lparr>g_has_loaded_config := False\<rparr>) = Ok (11, sample_cfg)
     \<and> exosphere_get_target_firmware sample_cfg = Ok 11"
proof -
  have r: "exosphere_load_config (g_exosphere_cfg sample_cfg) (sample_cfg\<lparr>g_has_loaded_config := False\<rparr>) = Ok (11, sample_cfg)"
    by (simp add: exosphere_load_config_def sample_cfg_def exocfg_init_def Let_def)
  from config_loaded_once [OF r] r show ?thesis by simp
qed

text \<open>The walk over the boot ROM patches of \<^verbatim>\<open>fuse_has_rcm_bug_patch\<close> trusts the sizes stored in the fuses: when
  every word of the array is the header of a one-word patch, the address runs through the whole
  range of 32 bits and the walk does not end.\<close>

theorem rcm_patch_walk_can_cycle:
  assumes "fuse_goes_idle hw" "\<And>a. fuse_array hw a = 0x02000000"
  shows "ipatch_walk hw 1 a f = None"
  by (rule ipatch_walk_cycle [OF assms])

theorem rcm_patch_walk_can_cycle_witness:
  "ipatch_walk \<lparr>fuse_array = (\<lambda>_. 0x02000000), fuse_goes_idle = True\<rparr> 1 0 sample_fuse = None"
  by (rule rcm_patch_walk_can_cycle) simp_all

end
